(* ===== verification/Prelude.thy ===== *)
theory Prelude
  imports Main "HOL-Library.Word" "HOL-Library.Monad_Syntax"
begin

text \<open>
  Shared vocabulary of the development: names for the machine types of the C code, the two
  memory primitives every component uses (reading a run of bytes, overwriting a run of bytes),
  conversions between words and their bytes, and the generic lemmas on lists and words that the
  component proofs rewrite with.

  The target is a 32-bit little-endian RISC-V, so \<open>size_t\<close>, \<open>int\<close> and pointers
  are 32 bits wide and multi-byte integers lie in memory least significant byte first.

  An overwrite past the end of a buffer makes the list longer (the C code would write outside the
  object), so every invariant that fixes the length of a buffer is a memory-safety statement.
\<close>

unbundle bit_operations_syntax

type_synonym byte = "8 word"
type_synonym bytes = "8 word list"
type_synonym u16 = "16 word"
type_synonym u32 = "32 word"
type_synonym u64 = "64 word"

named_theorems blit_simps \<open>rewrite rules for runs of bytes read from or written to a buffer\<close>

section \<open>Memory runs\<close>

text \<open>\<open>slice off n buf\<close> is the run of \<open>n\<close> bytes at offset \<open>off\<close>;
  \<open>blit buf off d\<close> is \<open>buf\<close> after \<open>memcpy (buf + off, d, length d)\<close>.\<close>

definition slice :: "nat \<Rightarrow> nat \<Rightarrow> 'a list \<Rightarrow> 'a list" where
  "slice off n buf = take n (drop off buf)"

definition blit :: "'a list \<Rightarrow> nat \<Rightarrow> 'a list \<Rightarrow> 'a list" where
  "blit buf off d = take off buf @ d @ drop (off + length d) buf"

lemma length_blit [blit_simps]:
  "off + length d \<le> length buf \<Longrightarrow> length (blit buf off d) = length buf"
  by (simp add: blit_def)

lemma length_blit_max:
  "off \<le> length buf \<Longrightarrow> length (blit buf off d) = max (length buf) (off + length d)"
  by (simp add: blit_def)

lemma length_slice [blit_simps]:
  "off + n \<le> length buf \<Longrightarrow> length (slice off n buf) = n"
  by (simp add: slice_def)

lemma slice_blit_same [blit_simps]:
  "off \<le> length buf \<Longrightarrow> n = length d \<Longrightarrow> slice off n (blit buf off d) = d"
  by (simp add: slice_def blit_def)

lemma slice_blit_before [blit_simps]:
  "p + n \<le> off \<Longrightarrow> off \<le> length buf \<Longrightarrow> slice p n (blit buf off d) = slice p n buf"
  by (simp add: slice_def blit_def drop_take min_absorb1)

lemma slice_blit_after [blit_simps]:
  assumes "off + length d \<le> p" "off + length d \<le> length buf"
  shows "slice p n (blit buf off d) = slice p n buf"
proof -
  have "drop p (blit buf off d) = drop p buf"
    using assms by (simp add: blit_def min_def)
  then show ?thesis by (simp add: slice_def)
qed

lemma take_blit_prefix [blit_simps]:
  "off \<le> length buf \<Longrightarrow> take (off + length d) (blit buf off d) = take off buf @ d"
  by (simp add: blit_def)

lemma take_blit_before [blit_simps]:
  "n \<le> off \<Longrightarrow> off \<le> length buf \<Longrightarrow> take n (blit buf off d) = take n buf"
  by (simp add: blit_def min_def)

lemma blit_Nil [simp]: "blit buf off [] = buf"
  by (simp add: blit_def)

lemma slice_append_parts: "slice a (m + n) xs = slice a m xs @ slice (a + m) n xs"
  by (simp add: slice_def take_add add.commute)

lemma slice_0 [simp]: "slice off 0 buf = []"
  by (simp add: slice_def)

section \<open>Words and their bytes\<close>

text \<open>Most significant byte first (network order) and least significant byte first (the order in
  memory).\<close>

definition be16 :: "u16 \<Rightarrow> bytes" where
  "be16 v = [ucast (drop_bit 8 v), ucast v]"

definition be32 :: "u32 \<Rightarrow> bytes" where
  "be32 v = [ucast (drop_bit 24 v), ucast (drop_bit 16 v), ucast (drop_bit 8 v), ucast v]"

definition be64 :: "u64 \<Rightarrow> bytes" where
  "be64 v = [ucast (drop_bit 56 v), ucast (drop_bit 48 v), ucast (drop_bit 40 v),
     ucast (drop_bit 32 v), ucast (drop_bit 24 v), ucast (drop_bit 16 v),
     ucast (drop_bit 8 v), ucast v]"

definition le32 :: "u32 \<Rightarrow> bytes" where
  "le32 v = [ucast v, ucast (drop_bit 8 v), ucast (drop_bit 16 v), ucast (drop_bit 24 v)]"

definition of_be :: "bytes \<Rightarrow> nat" where
  "of_be bs = foldl (\<lambda>acc b. acc * 256 + unat b) 0 bs"

definition of_le :: "bytes \<Rightarrow> nat" where
  "of_le bs = foldr (\<lambda>b acc. unat b + 256 * acc) bs 0"

lemma length_be16 [simp]: "length (be16 v) = 2"
  by (simp add: be16_def)

lemma length_be32 [simp]: "length (be32 v) = 4"
  by (simp add: be32_def)

lemma length_be64 [simp]: "length (be64 v) = 8"
  by (simp add: be64_def)

lemma length_le32 [simp]: "length (le32 v) = 4"
  by (simp add: le32_def)

lemma unat_ucast_drop_bit:
  fixes v :: "'a::len word"
  shows "unat (ucast (drop_bit k v) :: byte) = unat v div 2 ^ k mod 256"
  by (simp only: unsigned_ucast_eq unat_drop_bit_eq) (simp add: take_bit_eq_mod drop_bit_eq_div)

lemma unat_ucast_byte:
  fixes v :: "'a::len word"
  shows "unat (ucast v :: byte) = unat v mod 256"
  by (simp add: unsigned_ucast_eq take_bit_eq_mod)

text \<open>Two adjacent digits in base 256 read together.\<close>

lemma base256_join:
  fixes n :: nat
  shows "n div (256 * m) mod q * 256 + n div m mod 256 = n div m mod (256 * q)"
proof -
  have "n div (256 * m) = n div m div 256"
    by (metis div_mult2_eq mult.commute)
  then show ?thesis
    using mod_mult2_eq [of "n div m" 256 q] by simp
qed

lemma of_be_be16: "of_be (be16 v) = unat v"
proof -
  have b: "unat v < 65536" using unsigned_less [of v, where ?'a = nat] by simp
  show ?thesis
    using base256_join [of "unat v" 1 256] b
    by (simp add: of_be_def be16_def unat_ucast_byte
      unat_drop_bit_eq drop_bit_eq_div [where ?'a = nat])
qed

lemma of_be_be32: "of_be (be32 v) = unat v"
proof -
  have b: "unat v < 4294967296" using unsigned_less [of v, where ?'a = nat] by simp
  show ?thesis
    using base256_join [of "unat v" 65536 256] base256_join [of "unat v" 256 65536]
      base256_join [of "unat v" 1 16777216] b
    by (simp add: of_be_def be32_def unat_ucast_byte
      unat_drop_bit_eq drop_bit_eq_div [where ?'a = nat])
qed

lemma of_be_be64: "of_be (be64 v) = unat v"
proof -
  have b: "unat v < 18446744073709551616" using unsigned_less [of v, where ?'a = nat] by simp
  show ?thesis
    using base256_join [of "unat v" 281474976710656 256]
      base256_join [of "unat v" 1099511627776 65536]
      base256_join [of "unat v" 4294967296 16777216]
      base256_join [of "unat v" 16777216 4294967296]
      base256_join [of "unat v" 65536 1099511627776]
      base256_join [of "unat v" 256 281474976710656]
      base256_join [of "unat v" 1 72057594037927936] b
    by (simp add: of_be_def be64_def unat_ucast_byte
      unat_drop_bit_eq drop_bit_eq_div [where ?'a = nat])
qed

lemma of_le_rev: "of_le bs = of_be (rev bs)"
  by (simp add: of_le_def of_be_def foldl_conv_foldr add.commute mult.commute)

lemma le32_rev: "le32 v = rev (be32 v)"
  by (simp add: le32_def be32_def)

lemma of_le_le32: "of_le (le32 v) = unat v"
  by (simp add: of_le_rev le32_rev of_be_be32)

section \<open>Bytewise exclusive or\<close>

definition xor_bytes :: "bytes \<Rightarrow> bytes \<Rightarrow> bytes" where
  "xor_bytes xs ys = map2 (XOR) xs ys"

lemma length_xor_bytes [simp]: "length (xor_bytes xs ys) = min (length xs) (length ys)"
  by (simp add: xor_bytes_def)

lemma xor_bytes_Cons [simp]: "xor_bytes (x # xs) (y # ys) = (x XOR y) # xor_bytes xs ys"
  by (simp add: xor_bytes_def)

lemma xor_bytes_Nil [simp]: "xor_bytes [] ys = []" "xor_bytes xs [] = []"
  by (simp_all add: xor_bytes_def)

lemma xor_bytes_cancel [simp]:
  "length xs \<le> length ys \<Longrightarrow> xor_bytes (xor_bytes xs ys) ys = xs"
  by (induction xs ys rule: list_induct2')
    (simp_all add: xor.assoc)

lemma xor_bytes_cancel_right:
  "length xs = length ys \<Longrightarrow> xor_bytes xs (xor_bytes xs ys) = ys"
  by (induction xs ys rule: list_induct2') (simp_all add: xor.assoc [symmetric])

section \<open>Search\<close>

lemma find_exists:
  "\<exists>x \<in> set xs. P x \<Longrightarrow> \<exists>y. List.find P xs = Some y \<and> y \<in> set xs \<and> P y"
  by (induction xs) auto

section \<open>Naturals as words\<close>

lemma unat_of_nat_small: "n < 2 ^ LENGTH('a) \<Longrightarrow> unat (of_nat n :: 'a::len word) = n"
  by (simp add: unat_of_nat take_bit_nat_eq_self)

lemma of_nat_unat_eq: "unat (w :: 'a::len word) = n \<Longrightarrow> w = of_nat n"
  by auto

lemma unat_ucast_up:
  fixes w :: "'a::len word"
  assumes "LENGTH('a) \<le> LENGTH('b::len)"
  shows "unat (ucast w :: 'b word) = unat w"
proof -
  have "unat w < 2 ^ LENGTH('b)"
    by (rule order_less_le_trans [OF unsigned_less]) (simp add: assms)
  then show ?thesis by (simp add: unsigned_ucast_eq take_bit_nat_eq_self)
qed

lemma byte_less_256: "unat (b :: byte) < 256"
  using unsigned_less [of b, where ?'a = nat] by simp

lemma unat_two_bytes: "unat (push_bit 8 (ucast a) + ucast b :: u16) = 256 * unat (a :: byte) + unat (b :: byte)"
proof -
  have u: "unat (ucast a :: u16) = unat a" "unat (ucast b :: u16) = unat b"
    by (simp_all add: unat_ucast_up)
  have p: "push_bit 8 (ucast a) = (ucast a * 256 :: u16)" by (simp add: push_bit_eq_mult)
  show ?thesis
    unfolding p using byte_less_256 [of a] byte_less_256 [of b] by (simp add: unat_word_ariths u)
qed

section \<open>Conditional increments of machine counters\<close>

lemma unat_Suc_word:
  fixes x :: "'a::len word"
  assumes "unat x < n" "n < 2 ^ LENGTH('a)"
  shows "unat (x + 1) = Suc (unat x)"
proof -
  have "unat x + 1 < 2 ^ LENGTH('a)" using assms by simp
  then show ?thesis by (simp add: unat_word_ariths)
qed

lemma unat_minus_one_word:
  fixes x :: "'a::len word"
  assumes "x \<noteq> 0"
  shows "unat (x - 1) = unat x - 1"
  using assms by (simp add: unat_minus_one)

text \<open>The inverse of reading four bytes as a little-endian word.\<close>

lemma le32_of_le:
  assumes "length bs = 4"
  shows "le32 (of_nat (of_le bs)) = bs"
proof -
  obtain a b c d where bs: "bs = [a, b, c, d]"
    using assms by (auto simp: numeral_eq_Suc length_Suc_conv)
  let ?n = "unat a + 256 * (unat b + 256 * (unat c + 256 * unat d))"
  note bounds = byte_less_256 [of a] byte_less_256 [of b] byte_less_256 [of c] byte_less_256 [of d]
  have n: "of_le bs = ?n" by (simp add: bs of_le_def)
  have u: "unat (of_nat ?n :: u32) = ?n"
    by (rule unat_of_nat_small) (use bounds in simp)
  have dm: "(x + 256 * y) div 256 = y" "(x + 256 * y) mod 256 = x" if "x < 256" for x y :: nat
    using that by simp_all
  have e: "?n div 65536 = ?n div 256 div 256" "?n div 16777216 = ?n div 256 div 256 div 256"
    by (simp_all only: div_mult2_eq [symmetric]) simp_all
  have "?n mod 256 = unat a" "?n div 256 mod 256 = unat b" "?n div 65536 mod 256 = unat c"
    "?n div 16777216 mod 256 = unat d"
    unfolding e dm(1) [OF bounds(1)] dm(2) [OF bounds(1)] dm(1) [OF bounds(2)] dm(2) [OF bounds(2)]
      dm(1) [OF bounds(3)] dm(2) [OF bounds(3)] using bounds(4) by simp_all
  then have "unat (ucast (of_nat ?n :: u32) :: byte) = unat a"
    "unat (ucast (drop_bit 8 (of_nat ?n :: u32)) :: byte) = unat b"
    "unat (ucast (drop_bit 16 (of_nat ?n :: u32)) :: byte) = unat c"
    "unat (ucast (drop_bit 24 (of_nat ?n :: u32)) :: byte) = unat d"
    unfolding unat_ucast_drop_bit unfolding unat_ucast_byte u by simp_all
  then show ?thesis
    unfolding n le32_def unfolding bs word_unat_eq_iff [symmetric] by simp
qed

end
