(* ===== verification/Bounded_Queue.thy ===== *)
theory Bounded_Queue
  imports Prelude
begin

text \<open>
  The contract of a bounded message queue, as the HID layer uses it: an operation that stores a
  message and reports success or failure, an operation that hands out the oldest message, and an
  abstraction of the concrete state to the list of queued messages. The lemmas of the locale are
  proved once for every implementation; the ring buffer of \<open>fifo.c\<close> is the one the firmware
  has.
\<close>

text \<open>A client's use of a queue: stores and fetches in any order. \<open>queue_run\<close> collects the
  messages whose store was accepted and the messages that were delivered.\<close>

datatype 'm queue_call = Store 'm | Fetch

fun queue_run ::
  "('m \<Rightarrow> 's \<Rightarrow> int \<times> 's) \<Rightarrow> ('s \<Rightarrow> int \<times> 'm \<times> 's) \<Rightarrow> 'm queue_call list \<Rightarrow> 's
    \<Rightarrow> 'm list \<times> 'm list \<times> 's" where
  "queue_run add fetch [] s = ([], [], s)"
| "queue_run add fetch (Store m # cs) s =
     (let (r, s1) = add m s; (acc, del, s2) = queue_run add fetch cs s1
      in (if r = 0 then m # acc else acc, del, s2))"
| "queue_run add fetch (Fetch # cs) s =
     (let (r, m, s1) = fetch s; (acc, del, s2) = queue_run add fetch cs s1
      in (acc, if r = 0 then m # del else del, s2))"

definition queue_calls_ok :: "('m \<Rightarrow> bool) \<Rightarrow> 'm queue_call list \<Rightarrow> bool" where
  "queue_calls_ok ok cs = list_all (\<lambda>c. case c of Store m \<Rightarrow> ok m | Fetch \<Rightarrow> True) cs"

lemma queue_calls_ok_simps [simp]:
  "queue_calls_ok ok []"
  "queue_calls_ok ok (Store m # cs) = (ok m \<and> queue_calls_ok ok cs)"
  "queue_calls_ok ok (Fetch # cs) = queue_calls_ok ok cs"
  by (simp_all add: queue_calls_ok_def)

lemma queue_calls_ok_append [simp]:
  "queue_calls_ok ok (xs @ ys) = (queue_calls_ok ok xs \<and> queue_calls_ok ok ys)"
  by (simp add: queue_calls_ok_def)

locale bounded_queue =
  fixes add :: "'m \<Rightarrow> 's \<Rightarrow> int \<times> 's"
    and fetch :: "'s \<Rightarrow> int \<times> 'm \<times> 's"
    and queued :: "'s \<Rightarrow> 'm list"
    and inv :: "'s \<Rightarrow> bool"
    and ok :: "'m \<Rightarrow> bool"
    and cap :: nat
  assumes queued_cap: "inv s \<Longrightarrow> length (queued s) \<le> cap"
    and add_room: "\<lbrakk>inv s; ok m; length (queued s) < cap\<rbrakk> \<Longrightarrow>
      fst (add m s) = 0 \<and> queued (snd (add m s)) = queued s @ [m] \<and> inv (snd (add m s))"
    and add_full: "\<lbrakk>inv s; length (queued s) = cap\<rbrakk> \<Longrightarrow> fst (add m s) = -1 \<and> snd (add m s) = s"
    and fetch_some: "\<lbrakk>inv s; queued s = m # ms\<rbrakk> \<Longrightarrow>
      fst (fetch s) = 0 \<and> fst (snd (fetch s)) = m \<and> queued (snd (snd (fetch s))) = ms
        \<and> inv (snd (snd (fetch s)))"
    and fetch_none: "\<lbrakk>inv s; queued s = []\<rbrakk> \<Longrightarrow> fst (fetch s) = -1 \<and> snd (snd (fetch s)) = s"
begin

lemma add_inv: "inv s \<Longrightarrow> ok m \<Longrightarrow> inv (snd (add m s))"
  using add_room [of s m] add_full [of s m] queued_cap [of s] by (cases "length (queued s) < cap") auto

lemma fetch_inv: "inv s \<Longrightarrow> inv (snd (snd (fetch s)))"
  using fetch_some [of s] fetch_none [of s] by (cases "queued s") auto

text \<open>What is in the queue plus what was accepted is what was delivered plus what is left: no
  message is lost, duplicated or reordered, in any interleaving of calls.\<close>

lemma run_conserves:
  assumes "inv s" "queue_calls_ok ok cs"
  shows "\<exists>acc del s'. queue_run add fetch cs s = (acc, del, s') \<and> inv s'
    \<and> queued s @ acc = del @ queued s'"
  using assms
proof (induction cs arbitrary: s)
  case Nil
  then show ?case by simp
next
  case (Cons c cs)
  show ?case
  proof (cases c)
    case (Store m)
    have ok: "ok m" "queue_calls_ok ok cs" using Cons.prems Store by auto
    obtain r s1 where a: "add m s = (r, s1)" by force
    have i1: "inv s1" using add_inv [OF Cons.prems(1) ok(1)] a by simp
    from Cons.IH [OF i1 ok(2)] obtain acc del s' where
      r: "queue_run add fetch cs s1 = (acc, del, s')" "inv s'" "queued s1 @ acc = del @ queued s'"
      by blast
    have "r = 0 \<and> queued s1 = queued s @ [m] \<or> r = -1 \<and> s1 = s"
      using add_room [OF Cons.prems(1) ok(1)] add_full [OF Cons.prems(1), of m]
        queued_cap [OF Cons.prems(1)] a by (cases "length (queued s) < cap") auto
    then show ?thesis using r a Store by auto
  next
    case Fetch
    have ok: "queue_calls_ok ok cs" using Cons.prems Fetch by simp
    obtain r m s1 where a: "fetch s = (r, m, s1)" by (metis prod_cases3)
    have i1: "inv s1" using fetch_inv [OF Cons.prems(1)] a by simp
    from Cons.IH [OF i1 ok] obtain acc del s' where
      r: "queue_run add fetch cs s1 = (acc, del, s')" "inv s'" "queued s1 @ acc = del @ queued s'"
      by blast
    have "r = 0 \<and> queued s = m # queued s1 \<or> r = -1 \<and> s1 = s"
      using fetch_some [OF Cons.prems(1)] fetch_none [OF Cons.prems(1)] a
      by (cases "queued s") auto
    then show ?thesis using r a Fetch by auto
  qed
qed

end

end
