(* ===== verification/Fifo.thy ===== *)
theory Fifo
  imports Bounded_Queue
begin

text \<open>
  \<open>targets/tkey/src/fifo.c\<close>: the ring buffer of ten 64-byte HID messages between the USB
  reader and the CTAPHID layer. The three file-level counters and the buffer are the fields of the
  record \<open>fifo\<close>; the operations pass it explicitly. The ring buffer is shown to implement
  the bounded queue contract.
\<close>

definition MSG_SIZE :: u32 where "MSG_SIZE = 64"
definition NR_OF_MSG :: u32 where "NR_OF_MSG = 10"

record fifo =
  hidmsg_write_ptr :: u32
  hidmsg_read_ptr :: u32
  hidmsg_size :: u32
  hidmsg_write_buf :: bytes

definition fifo_init :: fifo where
  "fifo_init = \<lparr>hidmsg_write_ptr = 0, hidmsg_read_ptr = 0, hidmsg_size = 0,
     hidmsg_write_buf = replicate (unat (MSG_SIZE * NR_OF_MSG)) 0\<rparr>"

definition fifo_hidmsg_add :: "bytes \<Rightarrow> fifo \<Rightarrow> int \<times> fifo" where
  "fifo_hidmsg_add msg f =
     (if hidmsg_size f < NR_OF_MSG then
        let buf = blit (hidmsg_write_buf f) (unat (hidmsg_write_ptr f * MSG_SIZE))
                    (take (unat MSG_SIZE) msg);
            wp = hidmsg_write_ptr f + 1;
            wp = (if wp \<ge> NR_OF_MSG then 0 else wp)
        in (0, f\<lparr>hidmsg_write_buf := buf, hidmsg_write_ptr := wp, hidmsg_size := hidmsg_size f + 1\<rparr>)
      else (-1, f))"

text \<open>The message at the read position is copied out before the emptiness test, as in the code.\<close>

definition fifo_hidmsg_take :: "fifo \<Rightarrow> int \<times> bytes \<times> fifo" where
  "fifo_hidmsg_take f =
     (let msg = slice (unat (hidmsg_read_ptr f * MSG_SIZE)) (unat MSG_SIZE) (hidmsg_write_buf f)
      in if hidmsg_size f > 0 then
           let rp = hidmsg_read_ptr f + 1; rp = (if rp \<ge> NR_OF_MSG then 0 else rp)
           in (0, msg, f\<lparr>hidmsg_read_ptr := rp, hidmsg_size := hidmsg_size f - 1\<rparr>)
         else (-1, msg, f))"

definition fifo_hidmsg_size :: "fifo \<Rightarrow> u32" where "fifo_hidmsg_size f = hidmsg_size f"
definition fifo_hidmsg_rhead :: "fifo \<Rightarrow> u32" where "fifo_hidmsg_rhead f = hidmsg_read_ptr f"
definition fifo_hidmsg_whead :: "fifo \<Rightarrow> u32" where "fifo_hidmsg_whead f = hidmsg_write_ptr f"

section \<open>Invariant and abstraction\<close>

definition fifo_inv :: "fifo \<Rightarrow> bool" where
  "fifo_inv f = (length (hidmsg_write_buf f) = 640 \<and> unat (hidmsg_read_ptr f) < 10
     \<and> unat (hidmsg_size f) \<le> 10
     \<and> unat (hidmsg_write_ptr f) = (unat (hidmsg_read_ptr f) + unat (hidmsg_size f)) mod 10)"

definition fifo_slot :: "fifo \<Rightarrow> nat \<Rightarrow> bytes" where
  "fifo_slot f i = slice (64 * i) 64 (hidmsg_write_buf f)"

definition fifo_msgs :: "fifo \<Rightarrow> bytes list" where
  "fifo_msgs f = map (\<lambda>i. fifo_slot f ((unat (hidmsg_read_ptr f) + i) mod 10))
     [0..<unat (hidmsg_size f)]"

definition hid_report :: "bytes \<Rightarrow> bool" where "hid_report m = (length m = 64)"

lemma length_fifo_msgs [simp]: "length (fifo_msgs f) = unat (hidmsg_size f)"
  by (simp add: fifo_msgs_def)

lemma slot_offset:
  fixes p :: u32
  assumes "unat p < 10"
  shows "unat (p * MSG_SIZE) = 64 * unat p"
  using assms by (simp add: MSG_SIZE_def unat_word_ariths)

lemma ring_next:
  fixes p :: u32
  assumes "unat p < 10"
  shows "unat (if p + 1 \<ge> NR_OF_MSG then 0 else p + 1) = (unat p + 1) mod 10"
proof -
  have s: "unat (p + 1) = Suc (unat p)" using assms unat_Suc_word [of p 10] by simp
  have t: "p + 1 \<ge> NR_OF_MSG \<longleftrightarrow> 10 \<le> Suc (unat p)"
    by (simp add: word_le_nat_alt NR_OF_MSG_def s)
  show ?thesis
  proof (cases "10 \<le> Suc (unat p)")
    case True
    then have "unat p = 9" using assms by simp
    then show ?thesis using True t by simp
  next
    case False
    then show ?thesis using t s by simp
  qed
qed

lemma room_iff: "hidmsg_size f < NR_OF_MSG \<longleftrightarrow> unat (hidmsg_size f) < 10"
  by (simp add: word_less_nat_alt NR_OF_MSG_def)

lemma nonempty_iff: "hidmsg_size f > 0 \<longleftrightarrow> unat (hidmsg_size f) > 0"
  by (simp add: word_less_nat_alt)

lemma ring_distinct:
  assumes "i < n" "n < (10::nat)"
  shows "(r + i) mod 10 \<noteq> (r + n) mod 10"
proof
  assume "(r + i) mod 10 = (r + n) mod 10"
  then have "10 dvd n - i" using assms mod_eq_dvd_iff_nat [of "r + i" "r + n" 10] by simp
  then show False using assms by (auto dest: dvd_imp_le)
qed

lemma ring_step: "((r + 1) mod 10 + i) mod 10 = (r + Suc i) mod (10::nat)"
  by (metis add.assoc mod_add_left_eq plus_1_eq_Suc)

text \<open>Storing writes the slot after the last queued message and no other.\<close>

lemma fifo_add_room:
  assumes "fifo_inv f" "hid_report m" "unat (hidmsg_size f) < 10"
  shows "fst (fifo_hidmsg_add m f) = 0"
    and "fifo_msgs (snd (fifo_hidmsg_add m f)) = fifo_msgs f @ [m]"
    and "fifo_inv (snd (fifo_hidmsg_add m f))"
proof -
  let ?r = "unat (hidmsg_read_ptr f)" and ?n = "unat (hidmsg_size f)"
  let ?w = "unat (hidmsg_write_ptr f)"
  let ?f = "snd (fifo_hidmsg_add m f)"
  have w: "?w = (?r + ?n) mod 10" "?w < 10" and b: "length (hidmsg_write_buf f) = 640" and r: "?r < 10"
    using assms(1) by (auto simp: fifo_inv_def)
  have n: "unat (hidmsg_size f + 1) = Suc ?n" using assms(3) unat_Suc_word [of "hidmsg_size f" 10] by simp
  have room: "hidmsg_size f < NR_OF_MSG" using assms(3) by (simp add: room_iff)
  have m: "take (unat MSG_SIZE) m = m" "length m = 64"
    using assms(2) by (auto simp: hid_report_def MSG_SIZE_def)
  have buf: "hidmsg_write_buf ?f = blit (hidmsg_write_buf f) (64 * ?w) m"
    using room w(2) m by (simp add: fifo_hidmsg_add_def Let_def slot_offset)
  have ptr: "unat (hidmsg_write_ptr ?f) = (?w + 1) mod 10" "hidmsg_read_ptr ?f = hidmsg_read_ptr f"
    "hidmsg_size ?f = hidmsg_size f + 1"
    using room ring_next [OF w(2)] by (simp_all add: fifo_hidmsg_add_def Let_def)
  show "fst (fifo_hidmsg_add m f) = 0" using room by (simp add: fifo_hidmsg_add_def Let_def)
  have new: "fifo_slot ?f ?w = m"
    using b m w(2) by (simp add: fifo_slot_def buf slice_blit_same)
  have old: "fifo_slot ?f i = fifo_slot f i" if "i < 10" "i \<noteq> ?w" for i
    using that b m w(2) by (cases "i < ?w") (simp_all add: fifo_slot_def buf slice_blit_before slice_blit_after)
  have dist: "(?r + i) mod 10 \<noteq> ?w" if "i < ?n" for i
    using that assms(3) w(1) by (simp add: ring_distinct)
  show "fifo_msgs ?f = fifo_msgs f @ [m]"
    using new by (simp add: fifo_msgs_def ptr n old dist w(1) [symmetric])
  show "fifo_inv ?f"
    using b m w assms(3) r
    by (simp add: fifo_inv_def buf ptr n length_blit mod_Suc_eq)
qed

lemma fifo_add_full:
  assumes "unat (hidmsg_size f) = 10"
  shows "fifo_hidmsg_add m f = (-1, f)"
  using assms by (simp add: fifo_hidmsg_add_def room_iff)

lemma fifo_take_some:
  assumes "fifo_inv f" "fifo_msgs f = m # ms"
  shows "fst (fifo_hidmsg_take f) = 0" "fst (snd (fifo_hidmsg_take f)) = m"
    and "fifo_msgs (snd (snd (fifo_hidmsg_take f))) = ms"
    and "fifo_inv (snd (snd (fifo_hidmsg_take f)))"
proof -
  let ?r = "unat (hidmsg_read_ptr f)" and ?n = "unat (hidmsg_size f)"
  let ?f = "snd (snd (fifo_hidmsg_take f))"
  have r: "?r < 10" and w: "unat (hidmsg_write_ptr f) = (?r + ?n) mod 10"
    and b: "length (hidmsg_write_buf f) = 640" and n10: "?n \<le> 10"
    using assms(1) by (auto simp: fifo_inv_def)
  have "length (fifo_msgs f) > 0" using assms(2) by simp
  then have n: "?n > 0" by simp
  then have pos: "hidmsg_size f > 0" by (simp add: nonempty_iff)
  have dec: "unat (hidmsg_size f - 1) = ?n - 1" using n by (intro unat_minus_one_word) auto
  have fields: "hidmsg_write_buf ?f = hidmsg_write_buf f" "hidmsg_size ?f = hidmsg_size f - 1"
    "hidmsg_write_ptr ?f = hidmsg_write_ptr f" "unat (hidmsg_read_ptr ?f) = (?r + 1) mod 10"
    using pos ring_next [OF r] by (simp_all add: fifo_hidmsg_take_def Let_def)
  have split: "[0..<?n] = 0 # map Suc [0..<?n - 1]"
    using n by (metis Suc_diff_1 map_Suc_upt upt_conv_Cons)
  have hd: "fifo_slot f ?r = m"
    using assms(2) r by (simp add: fifo_msgs_def split)
  show "fst (fifo_hidmsg_take f) = 0" using pos by (simp add: fifo_hidmsg_take_def Let_def)
  show "fst (snd (fifo_hidmsg_take f)) = m"
    using pos hd slot_offset [OF r]
    by (simp add: fifo_hidmsg_take_def Let_def fifo_slot_def MSG_SIZE_def)
  have slots: "fifo_slot ?f = fifo_slot f" by (simp add: fun_eq_iff fifo_slot_def fields)
  show "fifo_msgs ?f = ms"
    using assms(2) by (simp add: fifo_msgs_def split slots fields dec comp_def ring_step [simplified])
  have "(?r + ?n) mod 10 = ((?r + 1) mod 10 + (?n - 1)) mod 10" 
    using n ring_step [of ?r "?n - 1"] by simp
  then show "fifo_inv ?f"
    using b w n n10 by (simp add: fifo_inv_def fields dec)
qed

lemma fifo_take_none:
  assumes "fifo_msgs f = []"
  shows "fst (fifo_hidmsg_take f) = -1 \<and> snd (snd (fifo_hidmsg_take f)) = f"
proof -
  have "unat (hidmsg_size f) = 0" using assms by (metis length_fifo_msgs list.size(3))
  then show ?thesis using nonempty_iff [of f] by (simp add: fifo_hidmsg_take_def Let_def)
qed

interpretation hidmsg: bounded_queue fifo_hidmsg_add fifo_hidmsg_take fifo_msgs fifo_inv hid_report 10
proof unfold_locales
  show "length (fifo_msgs f) \<le> 10" if "fifo_inv f" for f
    using that by (simp add: fifo_inv_def)
qed (simp_all add: fifo_add_room fifo_add_full fifo_take_some fifo_take_none)

lemma fifo_init_inv: "fifo_inv fifo_init" "fifo_msgs fifo_init = []"
  by (simp_all add: fifo_inv_def fifo_init_def fifo_msgs_def MSG_SIZE_def NR_OF_MSG_def)

section \<open>Properties\<close>

text \<open>C19: From the initial state, in every interleaving of stores of 64-byte messages and fetches,
  the messages accepted so far are the messages delivered so far followed by the messages still in
  the ring buffer, in order: nothing is lost, duplicated or reordered. The buffer keeps its 640 bytes
  (no store writes outside it) and never holds more than ten messages.\<close>

theorem fifo_hidmsg_in_order:
  assumes "queue_calls_ok hid_report cs"
  shows "\<exists>acc del f. queue_run fifo_hidmsg_add fifo_hidmsg_take cs fifo_init = (acc, del, f)
    \<and> acc = del @ fifo_msgs f \<and> fifo_hidmsg_size f \<le> NR_OF_MSG
    \<and> length (hidmsg_write_buf f) = 640"
proof -
  obtain acc del f where r: "queue_run fifo_hidmsg_add fifo_hidmsg_take cs fifo_init = (acc, del, f)"
    "fifo_inv f" "fifo_msgs fifo_init @ acc = del @ fifo_msgs f"
    using hidmsg.run_conserves [OF fifo_init_inv(1) assms] by blast
  have "fifo_hidmsg_size f \<le> NR_OF_MSG" "length (hidmsg_write_buf f) = 640"
    using r(2) by (simp_all add: fifo_hidmsg_size_def word_le_nat_alt NR_OF_MSG_def fifo_inv_def)
  then show ?thesis using r fifo_init_inv(2) by simp
qed

lemma fifo_hidmsg_in_order_witness:
  "queue_calls_ok hid_report [Store (replicate 64 1), Store (replicate 64 2), Fetch]
   \<and> (\<exists>acc del f. queue_run fifo_hidmsg_add fifo_hidmsg_take
         [Store (replicate 64 1), Store (replicate 64 2), Fetch] fifo_init = (acc, del, f)
       \<and> acc = del @ fifo_msgs f \<and> fifo_hidmsg_size f \<le> NR_OF_MSG
       \<and> length (hidmsg_write_buf f) = 640)"
  using fifo_hidmsg_in_order [of "[Store (replicate 64 1), Store (replicate 64 2), Fetch]"]
  by (simp add: hid_report_def)

text \<open>A store is accepted exactly when fewer than ten messages are queued; a refused store
  leaves the state as it is and reports -1.\<close>

theorem fifo_hidmsg_add_accepts:
  assumes "fifo_inv f" "hid_report m"
  shows "(fst (fifo_hidmsg_add m f) = 0 \<longleftrightarrow> length (fifo_msgs f) < 10)
    \<and> (fst (fifo_hidmsg_add m f) \<noteq> 0 \<longrightarrow> fifo_hidmsg_add m f = (-1, f))"
proof (cases "length (fifo_msgs f) < 10")
  case True
  then show ?thesis using fifo_add_room(1) [OF assms] by simp
next
  case False
  then have "unat (hidmsg_size f) = 10" using assms(1) by (simp add: fifo_inv_def)
  then show ?thesis by (simp add: fifo_add_full)
qed

end
