(* ===== verification/Hw.thy ===== *)
theory Hw
  imports Prelude
begin

text \<open>
  The memory-mapped hardware and the small routines of \<open>targets/tkey/src/device.c\<close> directly above
  it. A register that the hardware changes is a sequence of values, one per read, together with the
  number of reads made so far; what the firmware writes to the USB endpoint is the list
  \<open>usb_out\<close>, and the last LED colour written is \<open>led\<close>.

  Records of later theories extend \<open>hw\<close>, so that one state is threaded through the whole
  firmware. A routine that can halt the device (\<open>assert (1 == 2)\<close> or \<open>exit\<close>) returns an
  option, and \<open>None\<close> is the halt; a loop that waits for the hardware is \<open>None\<close> too when
  the hardware never ends it.
\<close>

datatype led_colour = LED_BLACK | LED_RED | LED_GREEN

record hw =
  timer_reg :: "nat \<Rightarrow> u32"
  timer_reads :: nat
  touch_reg :: "nat \<Rightarrow> u32"
  touch_reads :: nat
  trng_ready :: "nat \<Rightarrow> bool"
  trng_polls :: nat
  trng_reg :: "nat \<Rightarrow> u32"
  trng_reads :: nat
  cdi :: "u32 list"
  led :: led_colour
  usb_out :: "bytes list"

text \<open>The compound device identifier, the hardware secret, is read as eight words or as the 32 bytes they
  occupy in memory.\<close>

definition device_get_bound_secret :: "'a hw_scheme \<Rightarrow> bytes" where
  "device_get_bound_secret w = concat (map le32 (cdi w))"

definition TIMER_MAX :: u32 where "TIMER_MAX = 0xffffffff"

definition millis :: "'a hw_scheme \<Rightarrow> (u32 \<times> 'a hw_scheme) option" where
  "millis w =
     (let timer_val = timer_reg w (timer_reads w);
          w = w\<lparr>timer_reads := timer_reads w + 1\<rparr>
      in if timer_val \<le> 1 then None else Some (TIMER_MAX - timer_val, w))"

definition led_set :: "led_colour \<Rightarrow> 'a hw_scheme \<Rightarrow> 'a hw_scheme" where
  "led_set c w = w\<lparr>led := c\<rparr>"

partial_function (option) delay_loop ::
  "u32 \<Rightarrow> u32 \<Rightarrow> 'a hw_scheme \<Rightarrow> 'a hw_scheme option" where
  "delay_loop t ms w =
     Option.bind (millis w) (\<lambda>(now, w). if now - t < ms then delay_loop t ms w else Some w)"

declare delay_loop.simps [code]

definition delay :: "u32 \<Rightarrow> 'a hw_scheme \<Rightarrow> 'a hw_scheme option" where
  "delay ms w = Option.bind (millis w) (\<lambda>(t, w). delay_loop t ms w)"

fun wink_loop :: "nat \<Rightarrow> 'a hw_scheme \<Rightarrow> 'a hw_scheme option" where
  "wink_loop 0 w = Some w"
| "wink_loop (Suc n) w =
     do { w \<leftarrow> delay 300 (led_set LED_GREEN w); w \<leftarrow> delay 300 (led_set LED_BLACK w); wink_loop n w }"

definition device_wink :: "'a hw_scheme \<Rightarrow> 'a hw_scheme option" where
  "device_wink w = wink_loop 2 w"

definition device_reboot :: "'a hw_scheme \<Rightarrow> 'a hw_scheme option" where
  "device_reboot w = None"

definition usbhid_send :: "bytes \<Rightarrow> 'a hw_scheme \<Rightarrow> 'a hw_scheme" where
  "usbhid_send msg w = w\<lparr>usb_out := usb_out w @ [take 64 msg]\<rparr>"

section \<open>What the routines keep\<close>

lemma millis_cases:
  assumes "millis w = Some (t, w')"
  obtains "w' = w\<lparr>timer_reads := timer_reads w + 1\<rparr>" "t = TIMER_MAX - timer_reg w (timer_reads w)"
    "timer_reg w (timer_reads w) > 1"
  using assms by (auto simp: millis_def Let_def split: if_splits)

text \<open>While the timer register shows a value above 1, reading the clock succeeds.\<close>

lemma millis_running:
  "timer_reg w (timer_reads w) > 1 \<Longrightarrow>
   millis w = Some (TIMER_MAX - timer_reg w (timer_reads w), w\<lparr>timer_reads := timer_reads w + 1\<rparr>)"
  by (auto simp: millis_def Let_def)

text \<open>A delay leaves every part of the state alone but the number of timer reads.\<close>

lemma delay_loop_frame:
  "delay_loop t ms w = Some w' \<Longrightarrow> \<exists>n. w' = w\<lparr>timer_reads := n\<rparr>"
proof (erule delay_loop.raw_induct [rotated])
  fix f :: "u32 \<Rightarrow> u32 \<Rightarrow> 'a hw_scheme \<Rightarrow> 'a hw_scheme option" and t ms w w'
  assume "\<And>t ms w w'. f t ms w = Some w' \<Longrightarrow> \<exists>n. w' = w\<lparr>timer_reads := n\<rparr>"
    and "Option.bind (millis w) (\<lambda>(now, w). if now - t < ms then f t ms w else Some w) = Some w'"
  then show "\<exists>n. w' = w\<lparr>timer_reads := n\<rparr>"
    by (fastforce simp: Option.bind_eq_Some_conv elim!: millis_cases split: if_splits)
qed

lemma delay_frame: "delay ms w = Some w' \<Longrightarrow> \<exists>n. w' = w\<lparr>timer_reads := n\<rparr>"
  by (fastforce simp: delay_def Option.bind_eq_Some_conv elim!: millis_cases dest!: delay_loop_frame)

lemma wink_loop_frame:
  "wink_loop n w = Some w' \<Longrightarrow> \<exists>k c. w' = w\<lparr>timer_reads := k, led := c\<rparr>"
proof (induction n arbitrary: w)
  case 0
  then have "w' = w\<lparr>timer_reads := timer_reads w, led := led w\<rparr>" by simp
  then show ?case by blast
next
  case (Suc n)
  then show ?case
    by (fastforce simp: Option.bind_eq_Some_conv led_set_def dest!: delay_frame)
qed

lemma device_wink_frame: "device_wink w = Some w' \<Longrightarrow> \<exists>k c. w' = w\<lparr>timer_reads := k, led := c\<rparr>"
  by (simp add: device_wink_def wink_loop_frame)

end
