(* ===== verification/Ctap_Errors.thy ===== *)
theory Ctap_Errors
  imports Prelude
begin

text \<open>
  \<open>fido2/inc/ctap_errors.h\<close>: the status values of CTAP 1 and CTAP 2. The C
enumeration has two
  names for the value zero; \<open>CTAP1_ERR_SUCCESS\<close> is an abbreviation of
\<open>CTAP2_OK\<close> here.
  Functions of the code that return a \<open>CtapStatus\<close> return a value of this type.
\<close>

datatype CtapError =
    CTAP2_OK | CTAP1_ERR_INVALID_COMMAND | CTAP1_ERR_INVALID_PARAMETER
  | CTAP1_ERR_INVALID_LENGTH | CTAP1_ERR_INVALID_SEQ | CTAP1_ERR_TIMEOUT
  | CTAP1_ERR_CHANNEL_BUSY | CTAP1_ERR_LOCK_REQUIRED | CTAP1_ERR_INVALID_CHANNEL
  | CTAP2_ERR_CBOR_UNEXPECTED_TYPE | CTAP2_ERR_INVALID_CBOR | CTAP2_ERR_MISSING_PARAMETER
  | CTAP2_ERR_LIMIT_EXCEEDED | CTAP2_ERR_FP_DATABASE_FULL | CTAP2_ERR_LARGE_BLOB_STORAGE_FULL
  | CTAP2_ERR_CREDENTIAL_EXCLUDED | CTAP2_ERR_PROCESSING | CTAP2_ERR_INVALID_CREDENTIAL
  | CTAP2_ERR_USER_ACTION_PENDING | CTAP2_ERR_OPERATION_PENDING | CTAP2_ERR_NO_OPERATIONS
  | CTAP2_ERR_UNSUPPORTED_ALGORITHM | CTAP2_ERR_OPERATION_DENIED | CTAP2_ERR_KEY_STORE_FULL
  | CTAP2_ERR_UNSUPPORTED_OPTION | CTAP2_ERR_INVALID_OPTION | CTAP2_ERR_KEEPALIVE_CANCEL
  | CTAP2_ERR_NO_CREDENTIALS | CTAP2_ERR_USER_ACTION_TIMEOUT | CTAP2_ERR_NOT_ALLOWED
  | CTAP2_ERR_PIN_INVALID | CTAP2_ERR_PIN_BLOCKED | CTAP2_ERR_PIN_AUTH_INVALID
  | CTAP2_ERR_PIN_AUTH_BLOCKED | CTAP2_ERR_PIN_NOT_SET | CTAP2_ERR_PUAT_REQUIRED
  | CTAP2_ERR_PIN_POLICY_VIOLATION | CTAP2_ERR_REQUEST_TOO_LARGE | CTAP2_ERR_ACTION_TIMEOUT
  | CTAP2_ERR_UP_REQUIRED | CTAP2_ERR_UV_BLOCKED | CTAP2_ERR_INTEGRITY_FAILURE
  | CTAP2_ERR_INVALID_SUBCOMMAND | CTAP2_ERR_UV_INVALID | CTAP2_ERR_UNAUTHORIZED_PERMISSION
  | CTAP1_ERR_OTHER | CTAP2_ERR_SPEC_LAST | CTAP2_ERR_EXTENSION_FIRST
  | CTAP2_ERR_EXTENSION_LAST | CTAP2_ERR_VENDOR_FIRST | CTAP2_ERR_USER_PRESENCE_DISABLED
  | CTAP2_ERR_VENDOR_LAST

abbreviation CTAP1_ERR_SUCCESS :: CtapError where
  "CTAP1_ERR_SUCCESS \<equiv> CTAP2_OK"

primrec ctap_error_code :: "CtapError \<Rightarrow> byte" where
  "ctap_error_code CTAP2_OK = 0x00"
| "ctap_error_code CTAP1_ERR_INVALID_COMMAND = 0x01"
| "ctap_error_code CTAP1_ERR_INVALID_PARAMETER = 0x02"
| "ctap_error_code CTAP1_ERR_INVALID_LENGTH = 0x03"
| "ctap_error_code CTAP1_ERR_INVALID_SEQ = 0x04"
| "ctap_error_code CTAP1_ERR_TIMEOUT = 0x05"
| "ctap_error_code CTAP1_ERR_CHANNEL_BUSY = 0x06"
| "ctap_error_code CTAP1_ERR_LOCK_REQUIRED = 0x0a"
| "ctap_error_code CTAP1_ERR_INVALID_CHANNEL = 0x0b"
| "ctap_error_code CTAP2_ERR_CBOR_UNEXPECTED_TYPE = 0x11"
| "ctap_error_code CTAP2_ERR_INVALID_CBOR = 0x12"
| "ctap_error_code CTAP2_ERR_MISSING_PARAMETER = 0x14"
| "ctap_error_code CTAP2_ERR_LIMIT_EXCEEDED = 0x15"
| "ctap_error_code CTAP2_ERR_FP_DATABASE_FULL = 0x17"
| "ctap_error_code CTAP2_ERR_LARGE_BLOB_STORAGE_FULL = 0x18"
| "ctap_error_code CTAP2_ERR_CREDENTIAL_EXCLUDED = 0x19"
| "ctap_error_code CTAP2_ERR_PROCESSING = 0x21"
| "ctap_error_code CTAP2_ERR_INVALID_CREDENTIAL = 0x22"
| "ctap_error_code CTAP2_ERR_USER_ACTION_PENDING = 0x23"
| "ctap_error_code CTAP2_ERR_OPERATION_PENDING = 0x24"
| "ctap_error_code CTAP2_ERR_NO_OPERATIONS = 0x25"
| "ctap_error_code CTAP2_ERR_UNSUPPORTED_ALGORITHM = 0x26"
| "ctap_error_code CTAP2_ERR_OPERATION_DENIED = 0x27"
| "ctap_error_code CTAP2_ERR_KEY_STORE_FULL = 0x28"
| "ctap_error_code CTAP2_ERR_UNSUPPORTED_OPTION = 0x2b"
| "ctap_error_code CTAP2_ERR_INVALID_OPTION = 0x2c"
| "ctap_error_code CTAP2_ERR_KEEPALIVE_CANCEL = 0x2d"
| "ctap_error_code CTAP2_ERR_NO_CREDENTIALS = 0x2e"
| "ctap_error_code CTAP2_ERR_USER_ACTION_TIMEOUT = 0x2f"
| "ctap_error_code CTAP2_ERR_NOT_ALLOWED = 0x30"
| "ctap_error_code CTAP2_ERR_PIN_INVALID = 0x31"
| "ctap_error_code CTAP2_ERR_PIN_BLOCKED = 0x32"
| "ctap_error_code CTAP2_ERR_PIN_AUTH_INVALID = 0x33"
| "ctap_error_code CTAP2_ERR_PIN_AUTH_BLOCKED = 0x34"
| "ctap_error_code CTAP2_ERR_PIN_NOT_SET = 0x35"
| "ctap_error_code CTAP2_ERR_PUAT_REQUIRED = 0x36"
| "ctap_error_code CTAP2_ERR_PIN_POLICY_VIOLATION = 0x37"
| "ctap_error_code CTAP2_ERR_REQUEST_TOO_LARGE = 0x39"
| "ctap_error_code CTAP2_ERR_ACTION_TIMEOUT = 0x3a"
| "ctap_error_code CTAP2_ERR_UP_REQUIRED = 0x3b"
| "ctap_error_code CTAP2_ERR_UV_BLOCKED = 0x3c"
| "ctap_error_code CTAP2_ERR_INTEGRITY_FAILURE = 0x3d"
| "ctap_error_code CTAP2_ERR_INVALID_SUBCOMMAND = 0x3e"
| "ctap_error_code CTAP2_ERR_UV_INVALID = 0x3f"
| "ctap_error_code CTAP2_ERR_UNAUTHORIZED_PERMISSION = 0x40"
| "ctap_error_code CTAP1_ERR_OTHER = 0x7f"
| "ctap_error_code CTAP2_ERR_SPEC_LAST = 0xdf"
| "ctap_error_code CTAP2_ERR_EXTENSION_FIRST = 0xe0"
| "ctap_error_code CTAP2_ERR_EXTENSION_LAST = 0xef"
| "ctap_error_code CTAP2_ERR_VENDOR_FIRST = 0xf0"
| "ctap_error_code CTAP2_ERR_USER_PRESENCE_DISABLED = 0xf1"
| "ctap_error_code CTAP2_ERR_VENDOR_LAST = 0xff"

text \<open>Distinct constructors have distinct status bytes, so a status byte on the wire
determines the
  error; the proof inverts the table.\<close>

definition ctap_errors :: "CtapError list" where
  "ctap_errors = [CTAP2_OK, CTAP1_ERR_INVALID_COMMAND, CTAP1_ERR_INVALID_PARAMETER,
CTAP1_ERR_INVALID_LENGTH, CTAP1_ERR_INVALID_SEQ, CTAP1_ERR_TIMEOUT, CTAP1_ERR_CHANNEL_BUSY,
CTAP1_ERR_LOCK_REQUIRED, CTAP1_ERR_INVALID_CHANNEL, CTAP2_ERR_CBOR_UNEXPECTED_TYPE,
CTAP2_ERR_INVALID_CBOR, CTAP2_ERR_MISSING_PARAMETER, CTAP2_ERR_LIMIT_EXCEEDED,
CTAP2_ERR_FP_DATABASE_FULL, CTAP2_ERR_LARGE_BLOB_STORAGE_FULL, CTAP2_ERR_CREDENTIAL_EXCLUDED,
CTAP2_ERR_PROCESSING, CTAP2_ERR_INVALID_CREDENTIAL, CTAP2_ERR_USER_ACTION_PENDING,
CTAP2_ERR_OPERATION_PENDING, CTAP2_ERR_NO_OPERATIONS, CTAP2_ERR_UNSUPPORTED_ALGORITHM,
CTAP2_ERR_OPERATION_DENIED, CTAP2_ERR_KEY_STORE_FULL, CTAP2_ERR_UNSUPPORTED_OPTION,
CTAP2_ERR_INVALID_OPTION, CTAP2_ERR_KEEPALIVE_CANCEL, CTAP2_ERR_NO_CREDENTIALS,
CTAP2_ERR_USER_ACTION_TIMEOUT, CTAP2_ERR_NOT_ALLOWED, CTAP2_ERR_PIN_INVALID,
CTAP2_ERR_PIN_BLOCKED, CTAP2_ERR_PIN_AUTH_INVALID, CTAP2_ERR_PIN_AUTH_BLOCKED,
CTAP2_ERR_PIN_NOT_SET, CTAP2_ERR_PUAT_REQUIRED, CTAP2_ERR_PIN_POLICY_VIOLATION,
CTAP2_ERR_REQUEST_TOO_LARGE, CTAP2_ERR_ACTION_TIMEOUT, CTAP2_ERR_UP_REQUIRED,
CTAP2_ERR_UV_BLOCKED, CTAP2_ERR_INTEGRITY_FAILURE, CTAP2_ERR_INVALID_SUBCOMMAND,
CTAP2_ERR_UV_INVALID, CTAP2_ERR_UNAUTHORIZED_PERMISSION, CTAP1_ERR_OTHER, CTAP2_ERR_SPEC_LAST,
CTAP2_ERR_EXTENSION_FIRST, CTAP2_ERR_EXTENSION_LAST, CTAP2_ERR_VENDOR_FIRST,
CTAP2_ERR_USER_PRESENCE_DISABLED, CTAP2_ERR_VENDOR_LAST]"

lemma ctap_errors_complete: "e \<in> set ctap_errors"
  by (cases e) (simp_all add: ctap_errors_def)

lemma ctap_error_codes_distinct: "distinct (map ctap_error_code ctap_errors)"
  by (simp add: ctap_errors_def)

lemma ctap_error_code_inject [simp]: "ctap_error_code e = ctap_error_code e'
\<longleftrightarrow> e = e'"
  using ctap_error_codes_distinct ctap_errors_complete
  by (metis distinct_map inj_on_eq_iff)

end
