(* ===== verification/Ctaphid.thy ===== *)
theory Ctaphid
  imports Hw Ctap_Errors
begin

text \<open>
  \<open>fido2/src/ctaphid.c\<close>: the transport that cuts messages into 64-byte HID reports and puts the
  reports of a request together again. The file-level variables are the fields of the record
  \<open>ctaphid\<close>, which extends the hardware record; \<open>cid_counter\<close> and \<open>is_busy\<close> are the
  static locals of \<open>get_new_cid\<close> and \<open>ctaphid_handle_packet\<close>. The static write buffer of
  \<open>ctaphid_handle_packet\<close> is cleared on every call and the handler is never re-entered, so it is
  a local value here. The application behind the transport (CTAP 2, U2F, attestation storage, random
  bytes) is the record \<open>hid_app\<close> of the functions the handler calls.
\<close>

section \<open>Constants and data\<close>

definition TYPE_INIT :: byte where "TYPE_INIT = 0x80"
definition CTAPHID_PING :: byte where "CTAPHID_PING = TYPE_INIT OR 0x01"
definition CTAPHID_MSG :: byte where "CTAPHID_MSG = TYPE_INIT OR 0x03"
definition CTAPHID_INIT :: byte where "CTAPHID_INIT = TYPE_INIT OR 0x06"
definition CTAPHID_WINK :: byte where "CTAPHID_WINK = TYPE_INIT OR 0x08"
definition CTAPHID_CBOR :: byte where "CTAPHID_CBOR = TYPE_INIT OR 0x10"
definition CTAPHID_CANCEL :: byte where "CTAPHID_CANCEL = TYPE_INIT OR 0x11"
definition CTAPHID_ERROR :: byte where "CTAPHID_ERROR = TYPE_INIT OR 0x3f"
definition CTAPHID_KEEPALIVE :: byte where "CTAPHID_KEEPALIVE = TYPE_INIT OR 0x3b"
definition CTAPHID_WRITE_CERT :: byte where "CTAPHID_WRITE_CERT = TYPE_INIT OR 0x51"
definition CTAPHID_WRITE_KEY :: byte where "CTAPHID_WRITE_KEY = TYPE_INIT OR 0x52"
definition CTAPHID_REBOOT :: byte where "CTAPHID_REBOOT = TYPE_INIT OR 0x53"
definition CTAPHID_GETRNG :: byte where "CTAPHID_GETRNG = TYPE_INIT OR 0x60"
definition CTAPHID_GETVERSION :: byte where "CTAPHID_GETVERSION = TYPE_INIT OR 0x61"

lemmas hid_cmd_defs = TYPE_INIT_def CTAPHID_PING_def CTAPHID_MSG_def CTAPHID_INIT_def CTAPHID_WINK_def
  CTAPHID_CBOR_def CTAPHID_CANCEL_def CTAPHID_ERROR_def CTAPHID_KEEPALIVE_def CTAPHID_WRITE_CERT_def
  CTAPHID_WRITE_KEY_def CTAPHID_REBOOT_def CTAPHID_GETRNG_def CTAPHID_GETVERSION_def

definition CTAPHID_PROTOCOL_VERSION :: byte where "CTAPHID_PROTOCOL_VERSION = 2"
definition CTAPHID_BROADCAST_CID :: u32 where "CTAPHID_BROADCAST_CID = 0xffffffff"
definition CTAPHID_BUFFER_SIZE :: nat where "CTAPHID_BUFFER_SIZE = 1344"
definition HID_MESSAGE_SIZE :: nat where "HID_MESSAGE_SIZE = 64"
definition CTAPHID_INIT_PAYLOAD_SIZE :: nat where "CTAPHID_INIT_PAYLOAD_SIZE = HID_MESSAGE_SIZE - 7"
definition CTAPHID_CONT_PAYLOAD_SIZE :: nat where "CTAPHID_CONT_PAYLOAD_SIZE = HID_MESSAGE_SIZE - 5"
definition CTAP_CAPABILITIES :: byte where "CTAP_CAPABILITIES = 0x01 OR 0x04"
definition CID_MAX :: nat where "CID_MAX = 10"

lemmas hid_size_defs = CTAPHID_BUFFER_SIZE_def HID_MESSAGE_SIZE_def CTAPHID_INIT_PAYLOAD_SIZE_def
  CTAPHID_CONT_PAYLOAD_SIZE_def CID_MAX_def

text \<open>The version numbers are macros that the build sets; the defaults of \<open>version.h\<close> are zero.\<close>

definition APP_VERSION_MAJ :: byte where "APP_VERSION_MAJ = 0"
definition APP_VERSION_MIN :: byte where "APP_VERSION_MIN = 0"
definition APP_VERSION_PATCH :: byte where "APP_VERSION_PATCH = 0"

datatype CTAP_STATE = IDLE | HANDLING_REQUEST

datatype CTAP_BUFFER_STATE = EMPTY | BUFFERING | BUFFERED | HID_ERROR | HID_IGNORE

record CTAPHID_WRITE_BUFFER =
  wb_cmd :: byte
  wb_cid :: u32
  wb_bcnt :: u16
  wb_offset :: nat
  wb_bytes_written :: nat
  wb_seq :: byte
  wb_buf :: bytes

record CID =
  cid_cid :: u32
  cid_last_used :: u64
  cid_busy :: byte
  cid_last_cmd :: byte

record ctaphid = hw +
  hid_state :: CTAP_STATE
  CIDS :: "CID list"
  active_cid_timestamp :: u64
  ctap_buffer :: bytes
  ctap_buffer_cid :: u32
  ctap_buffer_cmd :: byte
  ctap_buffer_bcnt :: u16
  ctap_buffer_offset :: nat
  ctap_packet_seq :: int
  cid_counter :: u32
  is_busy :: bool

text \<open>The functions of the application layer that the packet handler calls. The two request
  handlers read the request from \<open>ctap_buffer\<close> and return the status and the response bytes.\<close>

record 's hid_app =
  app_ctap_request :: "u16 \<Rightarrow> 's \<Rightarrow> (CtapError \<times> bytes \<times> 's) option"
  app_u2f_request :: "'s \<Rightarrow> (bytes \<times> 's) option"
  app_write_key :: "u16 \<Rightarrow> 's \<Rightarrow> (int \<times> 's) option"
  app_write_cert :: "u16 \<Rightarrow> 's \<Rightarrow> (int \<times> 's) option"
  app_generate_rng :: "nat \<Rightarrow> 's \<Rightarrow> (bytes \<times> 's) option"

section \<open>Packet fields\<close>

text \<open>A raw packet is 64 bytes; the two layouts of the C union are read off it.\<close>

definition pkt_cid :: "bytes \<Rightarrow> u32" where "pkt_cid p = of_nat (of_le (take 4 p))"
definition pkt_cmd :: "bytes \<Rightarrow> byte" where "pkt_cmd p = p ! 4"
definition pkt_init_payload :: "bytes \<Rightarrow> bytes" where
  "pkt_init_payload p = slice 7 CTAPHID_INIT_PAYLOAD_SIZE p"
definition pkt_seq :: "bytes \<Rightarrow> byte" where "pkt_seq p = p ! 4"
definition pkt_cont_payload :: "bytes \<Rightarrow> bytes" where
  "pkt_cont_payload p = slice 5 CTAPHID_CONT_PAYLOAD_SIZE p"

definition ctaphid_packet_len :: "bytes \<Rightarrow> u16" where
  "ctaphid_packet_len p = push_bit 8 (ucast (p ! 5)) OR ucast (p ! 6)"

definition is_broadcast :: "bytes \<Rightarrow> bool" where
  "is_broadcast p = (pkt_cid p = CTAPHID_BROADCAST_CID)"
definition is_init_pkt :: "bytes \<Rightarrow> bool" where "is_init_pkt p = (pkt_cmd p = CTAPHID_INIT)"
definition is_cont_pkt :: "bytes \<Rightarrow> bool" where "is_cont_pkt p = (pkt_cmd p AND TYPE_INIT = 0)"

section \<open>Channels\<close>

function get_new_cid_loop :: "u32 \<Rightarrow> u32" where
  "get_new_cid_loop c =
     (let c = c + 1 in if c = 0 \<or> c = 0xffffffff then get_new_cid_loop c else c)"
  by auto
termination
proof (relation "measure (\<lambda>c. if c + 1 = 0xffffffff then 2 else if c + 1 = (0::u32) then 1 else 0)")
  fix c x :: u32
  assume "x = c + 1" "x = 0 \<or> x = 0xffffffff"
  then show "(x, c) \<in> measure (\<lambda>c. if c + 1 = 0xffffffff then 2 else if c + 1 = (0::u32) then 1 else 0)"
    by auto
qed simp

declare get_new_cid_loop.simps [simp del]

definition get_new_cid :: "'a ctaphid_scheme \<Rightarrow> u32 \<times> 'a ctaphid_scheme" where
  "get_new_cid h = (let c = get_new_cid_loop (cid_counter h) in (c, h\<lparr>cid_counter := c\<rparr>))"

text \<open>The loops over the table stop one slot before its last (\<open>i < CID_MAX - 1\<close>).\<close>

definition add_cid :: "u32 \<Rightarrow> 'a ctaphid_scheme \<Rightarrow> (int \<times> 'a ctaphid_scheme) option" where
  "add_cid c h =
     (case List.find (\<lambda>i. cid_busy (CIDS h ! i) = 0) [0..<CID_MAX - 1] of
        None \<Rightarrow> Some (-1, h)
      | Some i \<Rightarrow> do {
          (t, h) \<leftarrow> millis h;
          Some (0, h\<lparr>CIDS := (CIDS h)[i := (CIDS h ! i)\<lparr>cid_cid := c, cid_busy := 1,
                      cid_last_used := ucast t\<rparr>]\<rparr>) })"

definition cid_index :: "u32 \<Rightarrow> 'a ctaphid_scheme \<Rightarrow> nat option" where
  "cid_index c h = List.find (\<lambda>i. cid_cid (CIDS h ! i) = c) [0..<CID_MAX - 1]"

definition cid_exists :: "u32 \<Rightarrow> 'a ctaphid_scheme \<Rightarrow> bool" where
  "cid_exists c h = (cid_index c h \<noteq> None)"

definition cid_refresh :: "u32 \<Rightarrow> 'a ctaphid_scheme \<Rightarrow> (int \<times> 'a ctaphid_scheme) option" where
  "cid_refresh c h =
     (case cid_index c h of
        None \<Rightarrow> Some (-1, h)
      | Some i \<Rightarrow> do {
          (t, h) \<leftarrow> millis h;
          Some (0, h\<lparr>CIDS := (CIDS h)[i := (CIDS h ! i)\<lparr>cid_last_used := ucast t, cid_busy := 1\<rparr>]\<rparr>) })"

definition cid_del :: "u32 \<Rightarrow> 'a ctaphid_scheme \<Rightarrow> int \<times> 'a ctaphid_scheme" where
  "cid_del c h =
     (case cid_index c h of
        None \<Rightarrow> (-1, h)
      | Some i \<Rightarrow> (0, h\<lparr>CIDS := (CIDS h)[i := (CIDS h ! i)\<lparr>cid_busy := 0\<rparr>]\<rparr>))"

section \<open>Reassembly\<close>

definition SUCESS :: int where "SUCESS = 0"
definition SEQUENCE_ERROR :: int where "SEQUENCE_ERROR = 1"

definition buffer_packet :: "bytes \<Rightarrow> 'a ctaphid_scheme \<Rightarrow> int \<times> 'a ctaphid_scheme" where
  "buffer_packet p h =
     (if pkt_cmd p AND TYPE_INIT \<noteq> 0 then
        let bcnt = ctaphid_packet_len p;
            pkt_len = (if unat bcnt < CTAPHID_INIT_PAYLOAD_SIZE then unat bcnt
                       else CTAPHID_INIT_PAYLOAD_SIZE)
        in (SUCESS, h\<lparr>ctap_buffer_bcnt := bcnt, ctap_buffer_cmd := pkt_cmd p,
              ctap_buffer_cid := pkt_cid p, ctap_buffer_offset := pkt_len, ctap_packet_seq := -1,
              ctap_buffer := blit (ctap_buffer h) 0 (take pkt_len (pkt_init_payload p))\<rparr>)
      else if ctap_buffer_offset h > unat (ctap_buffer_bcnt h) then (SEQUENCE_ERROR, h)
      else
        let leftover = unat (ctap_buffer_bcnt h) - ctap_buffer_offset h;
            diff = int leftover - int CTAPHID_CONT_PAYLOAD_SIZE;
            h = h\<lparr>ctap_packet_seq := ctap_packet_seq h + 1\<rparr>
        in if ctap_packet_seq h \<noteq> uint (pkt_seq p) then (SEQUENCE_ERROR, h)
           else let n = (if diff \<le> 0 then leftover else CTAPHID_CONT_PAYLOAD_SIZE)
             in (SUCESS, h\<lparr>ctap_buffer := blit (ctap_buffer h) (ctap_buffer_offset h)
                                    (take n (pkt_cont_payload p)),
                   ctap_buffer_offset := ctap_buffer_offset h + n\<rparr>))"

definition buffer_reset :: "'a ctaphid_scheme \<Rightarrow> 'a ctaphid_scheme" where
  "buffer_reset h = h\<lparr>ctap_buffer_bcnt := 0, ctap_buffer_offset := 0, ctap_packet_seq := 0,
     ctap_buffer_cid := 0\<rparr>"

definition buffer_status :: "'a ctaphid_scheme \<Rightarrow> CTAP_BUFFER_STATE" where
  "buffer_status h =
     (if ctap_buffer_bcnt h = 0 then EMPTY
      else if ctap_buffer_offset h = unat (ctap_buffer_bcnt h) then BUFFERED
      else BUFFERING)"

definition buffer_cmd :: "'a ctaphid_scheme \<Rightarrow> byte" where "buffer_cmd h = ctap_buffer_cmd h"
definition buffer_cid :: "'a ctaphid_scheme \<Rightarrow> u32" where "buffer_cid h = ctap_buffer_cid h"
definition buffer_len :: "'a ctaphid_scheme \<Rightarrow> u16" where "buffer_len h = ctap_buffer_bcnt h"

definition ctaphid_init :: "'a ctaphid_scheme \<Rightarrow> 'a ctaphid_scheme" where
  "ctaphid_init h = buffer_reset (h\<lparr>hid_state := IDLE\<rparr>)"

section \<open>Fragmentation\<close>

definition ctaphid_write_buffer_init :: CTAPHID_WRITE_BUFFER where
  "ctaphid_write_buffer_init = \<lparr>wb_cmd = 0, wb_cid = 0, wb_bcnt = 0, wb_offset = 0,
     wb_bytes_written = 0, wb_seq = 0, wb_buf = replicate HID_MESSAGE_SIZE 0\<rparr>"

definition wb_init_header :: "CTAPHID_WRITE_BUFFER \<Rightarrow> CTAPHID_WRITE_BUFFER" where
  "wb_init_header wb = wb\<lparr>wb_buf := (blit (wb_buf wb) 0 (le32 (wb_cid wb)))
       [4 := wb_cmd wb, 5 := ucast (drop_bit 8 (wb_bcnt wb AND 0xff00)),
        6 := ucast (wb_bcnt wb AND 0xff)],
     wb_offset := wb_offset wb + 4 + 3\<rparr>"

definition wb_cont_header :: "CTAPHID_WRITE_BUFFER \<Rightarrow> CTAPHID_WRITE_BUFFER" where
  "wb_cont_header wb = wb\<lparr>wb_buf := (blit (wb_buf wb) 0 (le32 (wb_cid wb)))[4 := wb_seq wb],
     wb_seq := wb_seq wb + 1, wb_offset := wb_offset wb + 4 + 1\<rparr>"

text \<open>One turn of the loop over the data, and the loop.\<close>

definition ctaphid_write_byte ::
  "byte \<Rightarrow> CTAPHID_WRITE_BUFFER \<times> 'a hw_scheme \<Rightarrow> CTAPHID_WRITE_BUFFER \<times> 'a hw_scheme" where
  "ctaphid_write_byte b s =
     (let (wb, w) = s;
          wb = (if wb_offset wb = 0
                then if wb_bytes_written wb = 0 then wb_init_header wb else wb_cont_header wb
                else wb);
          wb = wb\<lparr>wb_buf := (wb_buf wb)[wb_offset wb := b], wb_offset := wb_offset wb + 1,
                  wb_bytes_written := wb_bytes_written wb + 1\<rparr>
      in if wb_offset wb = HID_MESSAGE_SIZE then (wb\<lparr>wb_offset := 0\<rparr>, usbhid_send (wb_buf wb) w)
         else (wb, w))"

definition ctaphid_flush ::
  "CTAPHID_WRITE_BUFFER \<Rightarrow> 'a hw_scheme \<Rightarrow> CTAPHID_WRITE_BUFFER \<times> 'a hw_scheme" where
  "ctaphid_flush wb w =
     (let wb = (if wb_offset wb = 0 \<and> wb_bytes_written wb = 0 then wb_init_header wb else wb)
      in if wb_offset wb > 0 then
           let wb = wb\<lparr>wb_buf := blit (wb_buf wb) (wb_offset wb)
                         (replicate (HID_MESSAGE_SIZE - wb_offset wb) 0)\<rparr>
           in (wb, usbhid_send (wb_buf wb) w)
         else (wb, w))"

text \<open>\<open>None\<close> stands for the null data pointer, which asks for a flush.\<close>

definition ctaphid_write ::
  "CTAPHID_WRITE_BUFFER \<Rightarrow> bytes option \<Rightarrow> 'a hw_scheme \<Rightarrow> CTAPHID_WRITE_BUFFER \<times> 'a hw_scheme" where
  "ctaphid_write wb data w =
     (case data of None \<Rightarrow> ctaphid_flush wb w
      | Some bs \<Rightarrow> fold ctaphid_write_byte bs (wb, w))"

text \<open>The pair of calls that sends one whole message.\<close>

definition ctaphid_send :: "CTAPHID_WRITE_BUFFER \<Rightarrow> bytes \<Rightarrow> 'a hw_scheme \<Rightarrow> 'a hw_scheme" where
  "ctaphid_send wb bs w = (let (wb, w) = ctaphid_write wb (Some bs) w in snd (ctaphid_write wb None w))"

definition ctaphid_send_error :: "u32 \<Rightarrow> byte \<Rightarrow> 'a hw_scheme \<Rightarrow> 'a hw_scheme" where
  "ctaphid_send_error c err w =
     ctaphid_send (ctaphid_write_buffer_init\<lparr>wb_cid := c, wb_cmd := CTAPHID_ERROR, wb_bcnt := 1\<rparr>)
       [err] w"

definition send_init_response :: "u32 \<Rightarrow> u32 \<Rightarrow> bytes \<Rightarrow> 'a hw_scheme \<Rightarrow> 'a hw_scheme" where
  "send_init_response oldcid newcid nonce w =
     ctaphid_send (ctaphid_write_buffer_init\<lparr>wb_cid := oldcid, wb_cmd := CTAPHID_INIT, wb_bcnt := 17\<rparr>)
       (take 8 nonce @ le32 newcid @ [CTAPHID_PROTOCOL_VERSION, APP_VERSION_MAJ, APP_VERSION_MIN,
          APP_VERSION_PATCH, CTAP_CAPABILITIES]) w"

definition ctaphid_update_status :: "byte \<Rightarrow> 'a ctaphid_scheme \<Rightarrow> 'a ctaphid_scheme" where
  "ctaphid_update_status status h =
     ctaphid_send (ctaphid_write_buffer_init\<lparr>wb_cid := buffer_cid h, wb_cmd := CTAPHID_KEEPALIVE,
                     wb_bcnt := 1\<rparr>) [status] h"

section \<open>Timeouts\<close>

definition check_timeout_slot :: "nat \<Rightarrow> 'a ctaphid_scheme \<Rightarrow> 'a ctaphid_scheme option" where
  "check_timeout_slot i h =
     (if cid_busy (CIDS h ! i) \<noteq> 0 then do {
        (t, h) \<leftarrow> millis h;
        if ucast t - cid_last_used (CIDS h ! i) \<ge> 750 then
          let h = ctaphid_send_error (cid_cid (CIDS h ! i)) (ctap_error_code CTAP1_ERR_TIMEOUT) h;
              h = h\<lparr>CIDS := (CIDS h)[i := (CIDS h ! i)\<lparr>cid_busy := 0\<rparr>]\<rparr>
          in Some (if cid_cid (CIDS h ! i) = buffer_cid h then buffer_reset h else h)
        else Some h }
      else Some h)"

fun check_timeouts_from :: "nat list \<Rightarrow> 'a ctaphid_scheme \<Rightarrow> 'a ctaphid_scheme option" where
  "check_timeouts_from [] h = Some h"
| "check_timeouts_from (i # is) h = do { h \<leftarrow> check_timeout_slot i h; check_timeouts_from is h }"

definition ctaphid_check_timeouts :: "'a ctaphid_scheme \<Rightarrow> 'a ctaphid_scheme option" where
  "ctaphid_check_timeouts h = check_timeouts_from [0..<CID_MAX] h"

section \<open>The packet handler\<close>

text \<open>The result of \<open>ctaphid_buffer_packet\<close>: the buffer state and the output parameters
  \<open>cmd\<close>, \<open>cid\<close> and \<open>len\<close>; an error code travels in \<open>cmd\<close>. Outputs the code
  leaves unset keep the zero they have at the call.\<close>

type_synonym buffered = "CTAP_BUFFER_STATE \<times> byte \<times> u32 \<times> u16"

definition hid_fail ::
  "CtapError \<Rightarrow> u32 \<Rightarrow> 'a ctaphid_scheme \<Rightarrow> (buffered \<times> 'a ctaphid_scheme) option" where
  "hid_fail e c h = Some ((HID_ERROR, ctap_error_code e, c, 0), h)"

definition hid_ignore :: "u32 \<Rightarrow> 'a ctaphid_scheme \<Rightarrow> (buffered \<times> 'a ctaphid_scheme) option" where
  "hid_ignore c h = Some ((HID_IGNORE, 0, c, 0), h)"

text \<open>The branch for \<open>CTAPHID_INIT\<close> packets.\<close>

definition hid_init_reply ::
  "bytes \<Rightarrow> u32 \<Rightarrow> u32 \<Rightarrow> (int \<times> 'a ctaphid_scheme) option \<Rightarrow> (buffered \<times> 'a ctaphid_scheme) option" where
  "hid_init_reply p oldcid newcid r = do {
     (ret, h) \<leftarrow> r;
     if ret = -1 then hid_fail CTAP1_ERR_CHANNEL_BUSY (pkt_cid p) h
     else let h = send_init_response oldcid newcid (pkt_init_payload p) h
          in hid_ignore (pkt_cid p) (snd (cid_del newcid h)) }"

definition hid_buffer_init_pkt ::
  "bytes \<Rightarrow> 'a ctaphid_scheme \<Rightarrow> (buffered \<times> 'a ctaphid_scheme) option" where
  "hid_buffer_init_pkt p h =
     (let c = pkt_cid p in
      if ctaphid_packet_len p \<noteq> 8 then hid_fail CTAP1_ERR_INVALID_LENGTH c h
      else if c = 0 then hid_fail CTAP1_ERR_INVALID_CHANNEL c h
      else
        let h = ctaphid_init h in
        if is_broadcast p then
          let (newcid, h) = get_new_cid h
          in hid_init_reply p CTAPHID_BROADCAST_CID newcid (add_cid newcid h)
        else hid_init_reply p c c (if cid_exists c h then cid_refresh c h else add_cid c h))"

text \<open>The branch for all other packets. The last step reports the state of the buffer.\<close>

definition hid_buffer_status ::
  "u32 \<Rightarrow> 'a ctaphid_scheme \<Rightarrow> (buffered \<times> 'a ctaphid_scheme) option" where
  "hid_buffer_status c h = Some ((buffer_status h, buffer_cmd h, c, buffer_len h), h)"

definition hid_buffer_known ::
  "bytes \<Rightarrow> 'a ctaphid_scheme \<Rightarrow> (buffered \<times> 'a ctaphid_scheme) option" where
  "hid_buffer_known p h =
     (let c = pkt_cid p in
      if buffer_status h = BUFFERING \<and> c = buffer_cid h \<and> \<not> is_cont_pkt p
        then hid_fail CTAP1_ERR_INVALID_SEQ c h
      else if buffer_status h = BUFFERING \<and> c \<noteq> buffer_cid h
        then if \<not> is_cont_pkt p then hid_fail CTAP1_ERR_CHANNEL_BUSY c h else hid_ignore c h
      else if \<not> is_cont_pkt p \<and> unat (ctaphid_packet_len p) > CTAPHID_BUFFER_SIZE
        then hid_fail CTAP1_ERR_INVALID_LENGTH c h
      else if is_cont_pkt p \<and> (buffer_status h = EMPTY \<or> c \<noteq> buffer_cid h)
        then hid_ignore c h
      else
        let (r, h) = buffer_packet p h in
        if r = SEQUENCE_ERROR then hid_fail CTAP1_ERR_INVALID_SEQ c h
        else do {
          (ret, h) \<leftarrow> cid_refresh c h;
          if ret \<noteq> 0 then None else hid_buffer_status c h })"

definition hid_buffer_message_pkt ::
  "bytes \<Rightarrow> 'a ctaphid_scheme \<Rightarrow> (buffered \<times> 'a ctaphid_scheme) option" where
  "hid_buffer_message_pkt p h =
     (let c = pkt_cid p in
      if c = CTAPHID_BROADCAST_CID then hid_fail CTAP1_ERR_INVALID_CHANNEL c h
      else do {
        h \<leftarrow> (if \<not> cid_exists c h \<and> \<not> is_cont_pkt p \<and> buffer_status h = EMPTY
              then do { (_, h) \<leftarrow> add_cid c h; Some h } else Some h);
        if cid_exists c h then hid_buffer_known p h
        else if is_cont_pkt p then hid_ignore c h
        else hid_fail CTAP1_ERR_CHANNEL_BUSY c h })"

definition ctaphid_buffer_packet ::
  "bytes \<Rightarrow> 'a ctaphid_scheme \<Rightarrow> (buffered \<times> 'a ctaphid_scheme) option" where
  "ctaphid_buffer_packet p h =
     (if is_init_pkt p then hid_buffer_init_pkt p h else hid_buffer_message_pkt p h)"

text \<open>The custom commands of TKey. The result says whether the command was one of them.\<close>

definition hid_write_status ::
  "CTAPHID_WRITE_BUFFER \<Rightarrow> int \<Rightarrow> 'a hw_scheme \<Rightarrow> 'a hw_scheme" where
  "hid_write_status wb ret w =
     ctaphid_send (wb\<lparr>wb_bcnt := 1\<rparr>)
       [ctap_error_code (if ret < 0 then CTAP1_ERR_OTHER else CTAP2_OK)] w"

definition ctaphid_custom_command ::
  "'a ctaphid_scheme hid_app \<Rightarrow> u16 \<Rightarrow> CTAPHID_WRITE_BUFFER \<Rightarrow> 'a ctaphid_scheme
     \<Rightarrow> (bool \<times> 'a ctaphid_scheme) option" where
  "ctaphid_custom_command app len wb h =
     (if wb_cmd wb = CTAPHID_WRITE_KEY then
        if len = 0
        then Some (False, ctaphid_send_error (wb_cid wb) (ctap_error_code CTAP1_ERR_INVALID_LENGTH) h)
        else do { (ret, h) \<leftarrow> app_write_key app len h; Some (True, hid_write_status wb ret h) }
      else if wb_cmd wb = CTAPHID_WRITE_CERT then
        if len = 0
        then Some (False, ctaphid_send_error (wb_cid wb) (ctap_error_code CTAP1_ERR_INVALID_LENGTH) h)
        else do { (ret, h) \<leftarrow> app_write_cert app len h; Some (True, hid_write_status wb ret h) }
      else if wb_cmd wb = CTAPHID_REBOOT then
        do { h \<leftarrow> device_reboot h; Some (True, h) }
      else if wb_cmd wb = CTAPHID_GETRNG then
        let n = unat (ctap_buffer h ! 0); n = (if n = 0 then 57 else n);
            h = h\<lparr>ctap_buffer := blit (ctap_buffer h) 0 (replicate n 0)\<rparr>
        in do {
          (r, h) \<leftarrow> app_generate_rng app n h;
          let h = h\<lparr>ctap_buffer := blit (ctap_buffer h) 0 (take n r)\<rparr>;
          Some (True, ctaphid_send (wb\<lparr>wb_bcnt := of_nat n\<rparr>) (take n (ctap_buffer h)) h) }
      else if wb_cmd wb = CTAPHID_GETVERSION then
        let h = h\<lparr>ctap_buffer := blit (ctap_buffer h) 0
                      [APP_VERSION_MAJ, APP_VERSION_MIN, APP_VERSION_PATCH, 0]\<rparr>
        in Some (True, ctaphid_send (wb\<lparr>wb_bcnt := 4\<rparr>) (take 4 (ctap_buffer h)) h)
      else Some (False, h))"

text \<open>The end of \<open>ctaphid_handle_packet\<close> after the switch, and the two request cases, which
  return early (without reaching that end) on an empty message, on a busy device and on an oversized
  response.\<close>

definition hid_finish :: "byte \<Rightarrow> u32 \<Rightarrow> 'a ctaphid_scheme \<Rightarrow> (byte \<times> 'a ctaphid_scheme) option" where
  "hid_finish cmd c h =
     (let h = buffer_reset (snd (cid_del c h)) in Some (if \<not> is_busy h then cmd else 0, h))"

definition hid_refuse ::
  "u32 \<Rightarrow> CtapError \<Rightarrow> 'a ctaphid_scheme \<Rightarrow> (byte \<times> 'a ctaphid_scheme) option" where
  "hid_refuse c e h = Some (0, ctaphid_send_error c (ctap_error_code e) h)"

definition hid_cbor ::
  "'a ctaphid_scheme hid_app \<Rightarrow> CTAPHID_WRITE_BUFFER \<Rightarrow> u16 \<Rightarrow> 'a ctaphid_scheme
     \<Rightarrow> (byte \<times> 'a ctaphid_scheme) option" where
  "hid_cbor app wb len h =
     (if len = 0 then hid_refuse (wb_cid wb) CTAP1_ERR_INVALID_LENGTH h
      else if is_busy h then hid_refuse (wb_cid wb) CTAP1_ERR_CHANNEL_BUSY h
      else do {
        (ret, resp, h) \<leftarrow> app_ctap_request app len (h\<lparr>is_busy := True\<rparr>);
        if length resp + 1 > 65535 then hid_refuse (wb_cid wb) CTAP1_ERR_INVALID_LENGTH h
        else do {
          let (wb2, h) = ctaphid_write (wb\<lparr>wb_bcnt := of_nat (length resp + 1)\<rparr>)
                           (Some [ctap_error_code ret]) h;
          let h = ctaphid_send wb2 resp h;
          hid_finish (wb_cmd wb) (wb_cid wb) (h\<lparr>is_busy := False\<rparr>) } })"

definition hid_msg ::
  "'a ctaphid_scheme hid_app \<Rightarrow> CTAPHID_WRITE_BUFFER \<Rightarrow> u16 \<Rightarrow> 'a ctaphid_scheme
     \<Rightarrow> (byte \<times> 'a ctaphid_scheme) option" where
  "hid_msg app wb len h =
     (if len = 0 then hid_refuse (wb_cid wb) CTAP1_ERR_INVALID_LENGTH h
      else if is_busy h then hid_refuse (wb_cid wb) CTAP1_ERR_CHANNEL_BUSY h
      else do {
        (resp, h) \<leftarrow> app_u2f_request app (h\<lparr>is_busy := True\<rparr>);
        if length resp > 65535 then hid_refuse (wb_cid wb) CTAP1_ERR_INVALID_LENGTH h
        else do {
          let h = ctaphid_send (wb\<lparr>wb_bcnt := of_nat (length resp)\<rparr>) resp h;
          hid_finish (wb_cmd wb) (wb_cid wb) (h\<lparr>is_busy := False\<rparr>) } })"

definition hid_dispatch ::
  "'a ctaphid_scheme hid_app \<Rightarrow> byte \<Rightarrow> u32 \<Rightarrow> u16 \<Rightarrow> 'a ctaphid_scheme
     \<Rightarrow> (byte \<times> 'a ctaphid_scheme) option" where
  "hid_dispatch app cmd c len h =
     (let wb = ctaphid_write_buffer_init\<lparr>wb_cid := c, wb_cmd := cmd\<rparr> in
      if cmd = CTAPHID_INIT then None
      else if cmd = CTAPHID_PING then
        hid_finish cmd c (ctaphid_send (wb\<lparr>wb_bcnt := len\<rparr>) (take (unat len) (ctap_buffer h)) h)
      else if cmd = CTAPHID_WINK then do {
        h \<leftarrow> device_wink h;
        hid_finish cmd c (snd (ctaphid_write wb None h)) }
      else if cmd = CTAPHID_CBOR then hid_cbor app wb len h
      else if cmd = CTAPHID_MSG then hid_msg app wb len h
      else if cmd = CTAPHID_CANCEL then hid_finish cmd c (h\<lparr>is_busy := False\<rparr>)
      else do {
        (known, h) \<leftarrow> ctaphid_custom_command app len wb h;
        hid_finish cmd c
          (if known then h\<lparr>is_busy := False\<rparr>
           else ctaphid_send_error c (ctap_error_code CTAP1_ERR_INVALID_COMMAND) h) })"

definition ctaphid_handle_packet ::
  "'a ctaphid_scheme hid_app \<Rightarrow> bytes \<Rightarrow> 'a ctaphid_scheme \<Rightarrow> (byte \<times> 'a ctaphid_scheme) option" where
  "ctaphid_handle_packet app p h = do {
     ((bufstatus, cmd, c, len), h) \<leftarrow> ctaphid_buffer_packet p h;
     case bufstatus of
       HID_IGNORE \<Rightarrow> Some (0, h)
     | HID_ERROR \<Rightarrow>
         let h = snd (cid_del c h);
             h = (if cmd = ctap_error_code CTAP1_ERR_INVALID_SEQ then buffer_reset h else h)
         in Some (0, ctaphid_send_error c cmd h)
     | BUFFERING \<Rightarrow> do { (t, h) \<leftarrow> millis h; Some (0, h\<lparr>active_cid_timestamp := ucast t\<rparr>) }
     | _ \<Rightarrow> hid_dispatch app cmd c len h }"

text \<open>The state at power-on, over given hardware.\<close>

definition hid_boot :: "'a ctaphid_scheme \<Rightarrow> 'a ctaphid_scheme" where
  "hid_boot h = h\<lparr>usb_out := [], hid_state := IDLE,
     CIDS := replicate CID_MAX \<lparr>cid_cid = 0, cid_last_used = 0, cid_busy = 0, cid_last_cmd = 0\<rparr>,
     active_cid_timestamp := 0, ctap_buffer := replicate CTAPHID_BUFFER_SIZE 0, ctap_buffer_cid := 0,
     ctap_buffer_cmd := 0, ctap_buffer_bcnt := 0, ctap_buffer_offset := 0, ctap_packet_seq := 0,
     cid_counter := 1, is_busy := False\<rparr>"

text \<open>The states the main loop goes through: packets of 64 bytes from the host and timeout checks, in
  any order.\<close>

inductive hid_reachable :: "'a ctaphid_scheme hid_app \<Rightarrow> 'a ctaphid_scheme \<Rightarrow> bool"
  for app :: "'a ctaphid_scheme hid_app" where
  boot: "hid_reachable app (hid_boot h)"
| packet: "hid_reachable app h \<Longrightarrow> length p = 64 \<Longrightarrow> ctaphid_handle_packet app p h = Some (r, h') \<Longrightarrow>
    hid_reachable app h'"
| timeouts: "hid_reachable app h \<Longrightarrow> ctaphid_check_timeouts h = Some h' \<Longrightarrow> hid_reachable app h'"

end
