(* ===== verification/Ctaphid_Safety.thy ===== *)
theory Ctaphid_Safety
  imports Ctaphid
begin

text \<open>
  Memory safety and progress of the CTAPHID transport. The invariant \<open>hid_inv\<close> fixes the sizes of
  the message buffer and of the channel table and bounds the two counters that index the buffer;
  every operation keeps it, for every 64-byte packet the host may send. The application behind the
  transport enters through the assumption that its calls keep the invariant too.
\<close>

definition hid_inv :: "'a ctaphid_scheme \<Rightarrow> bool" where
  "hid_inv h = (length (CIDS h) = 10 \<and> length (ctap_buffer h) = 1344
     \<and> unat (ctap_buffer_bcnt h) \<le> 1344 \<and> ctap_buffer_offset h \<le> unat (ctap_buffer_bcnt h)
     \<and> ctap_buffer_cmd h \<noteq> CTAPHID_INIT \<and> list_all (\<lambda>m. length m = 64) (usb_out h))"

definition app_keeps_inv :: "'a ctaphid_scheme hid_app \<Rightarrow> bool" where
  "app_keeps_inv app =
     ((\<forall>len h r m h'. app_ctap_request app len h = Some (r, m, h') \<longrightarrow> hid_inv h \<longrightarrow> hid_inv h')
    \<and> (\<forall>h m h'. app_u2f_request app h = Some (m, h') \<longrightarrow> hid_inv h \<longrightarrow> hid_inv h')
    \<and> (\<forall>len h r h'. app_write_key app len h = Some (r, h') \<longrightarrow> hid_inv h \<longrightarrow> hid_inv h')
    \<and> (\<forall>len h r h'. app_write_cert app len h = Some (r, h') \<longrightarrow> hid_inv h \<longrightarrow> hid_inv h')
    \<and> (\<forall>n h r h'. app_generate_rng app n h = Some (r, h') \<longrightarrow> hid_inv h \<longrightarrow> hid_inv h'))"

named_theorems hid_keeps \<open>an operation of the transport keeps the invariant\<close>

section \<open>Hardware and channels\<close>

lemma millis_hid_inv [hid_keeps]: "millis h = Some (t, h') \<Longrightarrow> hid_inv h \<Longrightarrow> hid_inv h'"
  by (erule millis_cases) (simp add: hid_inv_def)

lemma device_wink_hid_inv [hid_keeps]: "device_wink h = Some h' \<Longrightarrow> hid_inv h \<Longrightarrow> hid_inv h'"
  by (drule device_wink_frame) (auto simp: hid_inv_def)

lemma get_new_cid_hid_inv [hid_keeps]: "get_new_cid h = (c, h') \<Longrightarrow> hid_inv h \<Longrightarrow> hid_inv h'"
  by (auto simp: get_new_cid_def hid_inv_def Let_def)

lemma add_cid_hid_inv [hid_keeps]: "add_cid c h = Some (r, h') \<Longrightarrow> hid_inv h \<Longrightarrow> hid_inv h'"
  by (auto simp: add_cid_def Option.bind_eq_Some_conv hid_inv_def elim!: millis_cases
      split: option.splits)

lemma cid_refresh_hid_inv [hid_keeps]: "cid_refresh c h = Some (r, h') \<Longrightarrow> hid_inv h \<Longrightarrow> hid_inv h'"
  by (auto simp: cid_refresh_def Option.bind_eq_Some_conv hid_inv_def elim!: millis_cases
      split: option.splits)

lemma cid_del_hid_inv [hid_keeps]: "hid_inv h \<Longrightarrow> hid_inv (snd (cid_del c h))"
  by (auto simp: cid_del_def hid_inv_def split: option.splits)

section \<open>Reassembly\<close>

lemma buffer_reset_hid_inv [hid_keeps]: "hid_inv h \<Longrightarrow> hid_inv (buffer_reset h)"
  by (simp add: buffer_reset_def hid_inv_def)

lemma ctaphid_init_hid_inv [hid_keeps]: "hid_inv h \<Longrightarrow> hid_inv (ctaphid_init h)"
  unfolding ctaphid_init_def by (rule buffer_reset_hid_inv) (simp add: hid_inv_def)

lemma length_init_payload: "length p = 64 \<Longrightarrow> length (pkt_init_payload p) = 57"
  by (simp add: pkt_init_payload_def hid_size_defs length_slice)

lemma length_cont_payload: "length p = 64 \<Longrightarrow> length (pkt_cont_payload p) = 59"
  by (simp add: pkt_cont_payload_def hid_size_defs length_slice)

lemma cont_copy_length: "(if int a - int b \<le> 0 then a else b) = min a b"
  by (simp add: min_def)

text \<open>The two packet kinds, with the copied length of a continuation as a minimum.\<close>

lemma buffer_packet_init:
  assumes "\<not> is_cont_pkt p"
  shows "buffer_packet p h = (SUCESS,
    h\<lparr>ctap_buffer_bcnt := ctaphid_packet_len p, ctap_buffer_cmd := pkt_cmd p,
      ctap_buffer_cid := pkt_cid p, ctap_buffer_offset := min (unat (ctaphid_packet_len p)) 57,
      ctap_packet_seq := -1,
      ctap_buffer := blit (ctap_buffer h) 0
        (take (min (unat (ctaphid_packet_len p)) 57) (pkt_init_payload p))\<rparr>)"
  using assms by (simp add: buffer_packet_def is_cont_pkt_def Let_def hid_size_defs min_def)

lemma buffer_packet_cont:
  assumes "is_cont_pkt p" "ctap_buffer_offset h \<le> unat (ctap_buffer_bcnt h)"
  shows "buffer_packet p h =
    (let n = min (unat (ctap_buffer_bcnt h) - ctap_buffer_offset h) 59 in
     if ctap_packet_seq h + 1 \<noteq> uint (pkt_seq p)
     then (SEQUENCE_ERROR, h\<lparr>ctap_packet_seq := ctap_packet_seq h + 1\<rparr>)
     else (SUCESS, h\<lparr>ctap_packet_seq := ctap_packet_seq h + 1,
         ctap_buffer := blit (ctap_buffer h) (ctap_buffer_offset h) (take n (pkt_cont_payload p)),
         ctap_buffer_offset := ctap_buffer_offset h + n\<rparr>))"
  unfolding buffer_packet_def Let_def cont_copy_length
  using assms by (simp add: is_cont_pkt_def hid_size_defs)

text \<open>The copy stays inside the 1344 bytes because the announced length was compared with the buffer
  size before an initialization packet reaches the copy.\<close>

lemma buffer_packet_hid_inv [hid_keeps]:
  assumes "hid_inv h" "length p = 64" "buffer_packet p h = (r, h')" "pkt_cmd p \<noteq> CTAPHID_INIT"
    and "\<not> is_cont_pkt p \<Longrightarrow> unat (ctaphid_packet_len p) \<le> CTAPHID_BUFFER_SIZE"
  shows "hid_inv h'"
proof (cases "is_cont_pkt p")
  case True
  then show ?thesis
    using assms(1,3) length_cont_payload [OF assms(2)]
    by (auto simp: buffer_packet_cont Let_def hid_inv_def length_blit split: if_splits)
next
  case False
  then show ?thesis
    using assms length_init_payload [OF assms(2)]
    by (auto simp: buffer_packet_init hid_inv_def CTAPHID_BUFFER_SIZE_def length_blit)
qed

section \<open>Sending\<close>

definition wb_ok :: "CTAPHID_WRITE_BUFFER \<Rightarrow> bool" where
  "wb_ok wb = (length (wb_buf wb) = 64 \<and> wb_offset wb < 64)"

definition sends :: "'a hw_scheme \<Rightarrow> 'a hw_scheme \<Rightarrow> bool" where
  "sends w w' = (\<exists>out. w' = w\<lparr>usb_out := usb_out w @ out\<rparr> \<and> list_all (\<lambda>m. length m = 64) out)"

lemma sends_refl: "sends w w"
  unfolding sends_def by (rule exI [of _ "[]"]) simp

lemma sends_trans: "sends w w' \<Longrightarrow> sends w' w'' \<Longrightarrow> sends w w''"
  by (fastforce simp: sends_def)

lemma usbhid_send_sends: "length m = 64 \<Longrightarrow> sends w (usbhid_send m w)"
  unfolding sends_def usbhid_send_def by (rule exI [of _ "[m]"]) simp

lemma wb_header_ok:
  assumes "wb_ok wb" "wb_offset wb = 0"
  shows "wb_ok (wb_init_header wb)" "wb_ok (wb_cont_header wb)"
  using assms by (simp_all add: wb_ok_def wb_init_header_def wb_cont_header_def length_blit)

lemma write_byte_sends:
  assumes "wb_ok wb" "ctaphid_write_byte b (wb, w) = (wb', w')"
  shows "wb_ok wb' \<and> sends w w'"
proof -
  define wb1 where "wb1 = (if wb_offset wb = 0
    then if wb_bytes_written wb = 0 then wb_init_header wb else wb_cont_header wb else wb)"
  have ok: "wb_ok wb1" using assms(1) wb_header_ok [OF assms(1)] by (simp add: wb1_def)
  have "ctaphid_write_byte b (wb, w) = (if wb_offset wb1 + 1 = 64
      then (wb1\<lparr>wb_buf := (wb_buf wb1)[wb_offset wb1 := b],
              wb_bytes_written := wb_bytes_written wb1 + 1, wb_offset := 0\<rparr>,
            usbhid_send ((wb_buf wb1)[wb_offset wb1 := b]) w)
      else (wb1\<lparr>wb_buf := (wb_buf wb1)[wb_offset wb1 := b], wb_offset := wb_offset wb1 + 1,
              wb_bytes_written := wb_bytes_written wb1 + 1\<rparr>, w))"
    unfolding ctaphid_write_byte_def Let_def prod.case wb1_def [symmetric]
    by (simp add: HID_MESSAGE_SIZE_def)
  then show ?thesis
    using assms(2) ok by (auto simp: wb_ok_def usbhid_send_sends sends_refl split: if_splits)
qed

lemma fold_write_sends:
  assumes "wb_ok wb" "fold ctaphid_write_byte bs (wb, w) = (wb', w')"
  shows "wb_ok wb' \<and> sends w w'"
  using assms
proof (induction bs arbitrary: wb w)
  case (Cons b bs)
  obtain wb1 w1 where s: "ctaphid_write_byte b (wb, w) = (wb1, w1)" by force
  then show ?case
    using Cons write_byte_sends [OF Cons.prems(1) s] sends_trans by fastforce
qed (simp add: sends_refl)

lemma flush_sends:
  assumes "wb_ok wb"
  shows "sends w (snd (ctaphid_flush wb w))"
  using assms wb_header_ok [OF assms]
  by (auto simp: ctaphid_flush_def Let_def HID_MESSAGE_SIZE_def wb_ok_def length_blit usbhid_send_sends
      sends_refl)

lemma ctaphid_send_sends: "wb_ok wb \<Longrightarrow> sends w (ctaphid_send wb bs w)"
  using fold_write_sends [of wb bs w] flush_sends sends_trans
  by (fastforce simp: ctaphid_send_def ctaphid_write_def split: prod.splits)

lemma wb_init_ok [simp]: "wb_ok ctaphid_write_buffer_init"
  by (simp add: wb_ok_def ctaphid_write_buffer_init_def HID_MESSAGE_SIZE_def)

lemma wb_ok_update [simp]:
  "wb_ok (wb\<lparr>wb_cid := c\<rparr>) = wb_ok wb" "wb_ok (wb\<lparr>wb_cmd := k\<rparr>) = wb_ok wb"
  "wb_ok (wb\<lparr>wb_bcnt := n\<rparr>) = wb_ok wb"
  by (simp_all add: wb_ok_def)

lemma sends_hid_inv: "sends h h' \<Longrightarrow> hid_inv h \<Longrightarrow> hid_inv h'"
  by (auto simp: sends_def hid_inv_def)

lemma send_hid_inv [hid_keeps]: "wb_ok wb \<Longrightarrow> hid_inv h \<Longrightarrow> hid_inv (ctaphid_send wb bs h)"
  using ctaphid_send_sends sends_hid_inv by blast

lemma flush_hid_inv [hid_keeps]: "wb_ok wb \<Longrightarrow> hid_inv h \<Longrightarrow> hid_inv (snd (ctaphid_write wb None h))"
  using flush_sends sends_hid_inv by (fastforce simp: ctaphid_write_def)

lemma send_error_hid_inv [hid_keeps]: "hid_inv h \<Longrightarrow> hid_inv (ctaphid_send_error c e h)"
  by (simp add: ctaphid_send_error_def send_hid_inv)

lemma send_init_response_hid_inv [hid_keeps]: "hid_inv h \<Longrightarrow> hid_inv (send_init_response a b n h)"
  by (simp add: send_init_response_def send_hid_inv)

lemma update_status_hid_inv [hid_keeps]: "hid_inv h \<Longrightarrow> hid_inv (ctaphid_update_status s h)"
  by (simp add: ctaphid_update_status_def send_hid_inv)

section \<open>The handlers keep the invariant\<close>

text \<open>\<open>hid_res r\<close>: if the computation \<open>r\<close> ends, its final state satisfies the invariant.
  The rules follow the structure of a handler.\<close>

definition hid_res :: "('x \<times> 'a ctaphid_scheme) option \<Rightarrow> bool" where
  "hid_res r = (\<forall>x h. r = Some (x, h) \<longrightarrow> hid_inv h)"

lemma hid_resI: "(\<And>x h. r = Some (x, h) \<Longrightarrow> hid_inv h) \<Longrightarrow> hid_res r"
  by (simp add: hid_res_def)

lemma hid_resD: "hid_res r \<Longrightarrow> r = Some (x, h) \<Longrightarrow> hid_inv h"
  by (auto simp: hid_res_def)

lemma hid_res_Some [simp]: "hid_res (Some (x, h)) = hid_inv h"
  by (simp add: hid_res_def)

lemma hid_res_None [simp]: "hid_res None"
  by (simp add: hid_res_def)

lemma hid_res_bind:
  assumes "hid_res m" "\<And>x h. hid_inv h \<Longrightarrow> hid_res (f (x, h))"
  shows "hid_res (Option.bind m f)"
  using assms by (fastforce simp: hid_res_def Option.bind_eq_Some_conv)

lemma hid_res_if: "(b \<Longrightarrow> hid_res r) \<Longrightarrow> (\<not> b \<Longrightarrow> hid_res r') \<Longrightarrow> hid_res (if b then r else r')"
  by simp

lemma hid_res_basic [hid_keeps]:
  "hid_inv h \<Longrightarrow> hid_res (millis h)"
  "hid_inv h \<Longrightarrow> hid_res (add_cid c h)"
  "hid_inv h \<Longrightarrow> hid_res (cid_refresh c h)"
  "hid_inv h \<Longrightarrow> hid_res (hid_fail e c h)"
  "hid_inv h \<Longrightarrow> hid_res (hid_ignore c h)"
  "hid_inv h \<Longrightarrow> hid_res (hid_buffer_status c h)"
  "hid_inv h \<Longrightarrow> hid_res (hid_refuse c e h)"
  "hid_inv h \<Longrightarrow> hid_res (hid_finish k c h)"
  by (auto intro: hid_resI millis_hid_inv add_cid_hid_inv cid_refresh_hid_inv buffer_reset_hid_inv
      cid_del_hid_inv send_error_hid_inv
      simp: hid_fail_def hid_ignore_def hid_buffer_status_def hid_refuse_def hid_finish_def Let_def)

lemma init_reply_res: "hid_res r \<Longrightarrow> hid_res (hid_init_reply p oldcid newcid r)"
  by (auto simp: hid_init_reply_def Let_def
      intro!: hid_res_bind hid_res_basic cid_del_hid_inv send_init_response_hid_inv)

lemma buffer_init_pkt_res:
  assumes "hid_inv h"
  shows "hid_res (hid_buffer_init_pkt p h)"
  using assms ctaphid_init_hid_inv [OF assms]
  by (auto simp: hid_buffer_init_pkt_def Let_def split: prod.splits
      intro!: init_reply_res hid_res_basic dest: get_new_cid_hid_inv)

lemma buffer_known_res:
  assumes "hid_inv h" "length p = 64" "pkt_cmd p \<noteq> CTAPHID_INIT"
  shows "hid_res (hid_buffer_known p h)"
proof -
  obtain r h1 where bp: "buffer_packet p h = (r, h1)" by force
  have i: "is_cont_pkt p \<or> unat (ctaphid_packet_len p) \<le> CTAPHID_BUFFER_SIZE \<Longrightarrow> hid_inv h1"
    using buffer_packet_hid_inv [OF assms(1,2) bp assms(3)] by blast
  show ?thesis
    using assms(1) i
    by (auto simp: hid_buffer_known_def Let_def bp intro!: hid_res_basic hid_res_bind)
qed

lemma buffer_message_pkt_res:
  assumes "hid_inv h" "length p = 64" "pkt_cmd p \<noteq> CTAPHID_INIT"
  shows "hid_res (hid_buffer_message_pkt p h)"
  using assms
  by (auto simp: hid_buffer_message_pkt_def Let_def Option.bind_assoc
      intro!: hid_res_basic buffer_known_res hid_res_bind)

lemma ctaphid_buffer_packet_res:
  "hid_inv h \<Longrightarrow> length p = 64 \<Longrightarrow> hid_res (ctaphid_buffer_packet p h)"
  by (auto simp: ctaphid_buffer_packet_def is_init_pkt_def
      intro: buffer_init_pkt_res buffer_message_pkt_res)

lemma hid_inv_is_busy [simp]: "hid_inv (h\<lparr>is_busy := b\<rparr>) = hid_inv h"
  by (simp add: hid_inv_def)

lemma hid_res_bind3:
  assumes "\<And>x y h. m = Some (x, y, h) \<Longrightarrow> hid_inv h" "\<And>x y h. hid_inv h \<Longrightarrow> hid_res (f (x, y, h))"
  shows "hid_res (Option.bind m f)"
  using assms by (fastforce simp: hid_res_def Option.bind_eq_Some_conv)

lemma hid_res_bind1: "(\<And>h. m = Some h \<Longrightarrow> hid_res (f h)) \<Longrightarrow> hid_res (Option.bind m f)"
  by (cases m) simp_all

lemma app_res:
  assumes "app_keeps_inv app" "hid_inv h"
  shows "app_ctap_request app len h = Some (e, m, h') \<Longrightarrow> hid_inv h'"
    and "hid_res (app_u2f_request app h)" "hid_res (app_write_key app len h)"
    and "hid_res (app_write_cert app len h)" "hid_res (app_generate_rng app n h)"
  using assms unfolding app_keeps_inv_def hid_res_def by blast+

lemma write_then_send_hid_inv:
  assumes "wb_ok wb" "hid_inv h" "ctaphid_write wb (Some bs) h = (wb', h')"
  shows "hid_inv (ctaphid_send wb' cs h')"
proof -
  have "wb_ok wb' \<and> sends h h'"
    using fold_write_sends [of wb bs h wb' h'] assms by (simp add: ctaphid_write_def)
  then show ?thesis using sends_hid_inv [OF _ assms(2)] send_hid_inv by blast
qed

lemma hid_cbor_res:
  fixes h :: "'a ctaphid_scheme"
  assumes "hid_inv h" "app_keeps_inv app" "wb_ok wb"
  shows "hid_res (hid_cbor app wb len h)"
proof -
  have i: "hid_inv (h\<lparr>is_busy := True\<rparr>)" using assms(1) by simp
  have w: "\<forall>cs. hid_inv (ctaphid_send wb' cs g')"
    if "ctaphid_write (wb\<lparr>wb_bcnt := n\<rparr>) (Some bs) g = (wb', g')" "hid_inv g"
    for n bs wb' and g g' :: "'a ctaphid_scheme"
    using write_then_send_hid_inv [OF _ that(2,1)] assms(3) by simp
  show ?thesis
    using assms(1,3)
    by (auto simp: hid_cbor_def Let_def split: prod.splits intro!: hid_res_bind3 hid_res_basic
        intro: app_res(1) [OF assms(2) i])
      (use w in blast)
qed

lemma hid_msg_res:
  assumes "hid_inv h" "app_keeps_inv app" "wb_ok wb"
  shows "hid_res (hid_msg app wb len h)"
  using assms
  by (auto simp: hid_msg_def Let_def intro!: hid_res_bind hid_res_basic app_res(2) send_hid_inv)

lemma hid_inv_blit:
  assumes "hid_inv h" "length d \<le> 1344"
  shows "hid_inv (h\<lparr>ctap_buffer := blit (ctap_buffer h) 0 d\<rparr>)"
  using assms by (simp add: hid_inv_def length_blit)

lemma custom_command_res:
  assumes "hid_inv h" "app_keeps_inv app" "wb_ok wb"
  shows "hid_res (ctaphid_custom_command app len wb h)"
proof -
  have b: "unat (ctap_buffer h ! 0) < 256"
    using unsigned_less [of "ctap_buffer h ! 0", where ?'a = nat] by simp
  show ?thesis
    using assms b
    by (auto simp: ctaphid_custom_command_def hid_write_status_def device_reboot_def Let_def
        intro!: hid_res_bind send_hid_inv send_error_hid_inv hid_inv_blit app_res)
qed

lemma hid_dispatch_res:
  assumes "hid_inv h" "app_keeps_inv app"
  shows "hid_res (hid_dispatch app cmd c len h)"
proof -
  let ?wb = "ctaphid_write_buffer_init\<lparr>wb_cid := c, wb_cmd := cmd\<rparr>"
  have wink: "hid_res (Option.bind (device_wink h)
      (\<lambda>h. hid_finish cmd c (snd (ctaphid_write ?wb None h))))"
    using device_wink_hid_inv [OF _ assms(1)]
    by (intro hid_res_bind1 hid_res_basic flush_hid_inv) simp_all
  show ?thesis
    using assms wink
    by (auto simp: hid_dispatch_def Let_def intro!: hid_res_basic send_hid_inv hid_cbor_res hid_msg_res
        hid_res_bind custom_command_res send_error_hid_inv)
qed

lemma handle_packet_res:
  assumes "hid_inv h" "length p = 64" "app_keeps_inv app"
  shows "hid_res (ctaphid_handle_packet app p h)"
  unfolding ctaphid_handle_packet_def
proof (rule hid_res_bind [OF ctaphid_buffer_packet_res [OF assms(1,2)]], goal_cases)
  case (1 x h)
  have t: "hid_inv (g\<lparr>active_cid_timestamp := v\<rparr>)" if "hid_inv g" for v and g :: "'a ctaphid_scheme"
    using that by (simp add: hid_inv_def)
  show ?case
    using 1 assms(3)
    by (cases x) (auto simp: Let_def split: CTAP_BUFFER_STATE.splits
        intro!: send_error_hid_inv buffer_reset_hid_inv cid_del_hid_inv hid_dispatch_res hid_res_bind
          hid_res_basic t)
qed

lemma check_timeouts_from_hid_inv:
  "check_timeouts_from is h = Some h' \<Longrightarrow> hid_inv h \<Longrightarrow> hid_inv h'"
proof (induction "is" arbitrary: h)
  case (Cons i "is")
  have slot: "hid_inv (g\<lparr>CIDS := (CIDS g)[i := x]\<rparr>)" if "hid_inv g" for x and g :: "'a ctaphid_scheme"
    using that by (simp add: hid_inv_def)
  have "hid_inv g" if "check_timeout_slot i h = Some g" for g
    using that Cons.prems(2)
    by (auto simp: check_timeout_slot_def Let_def Option.bind_eq_Some_conv split: if_splits
        intro!: buffer_reset_hid_inv slot send_error_hid_inv dest!: millis_hid_inv)
  then show ?case using Cons by (auto simp: Option.bind_eq_Some_conv)
qed simp

lemma hid_boot_inv: "hid_inv (hid_boot h)"
  by (simp add: hid_inv_def hid_boot_def hid_size_defs hid_cmd_defs)

lemma hid_reachable_inv: "hid_reachable app h \<Longrightarrow> app_keeps_inv app \<Longrightarrow> hid_inv h"
proof (induction rule: hid_reachable.induct)
  case (packet h p r h')
  then show ?case using hid_resD [OF handle_packet_res] by blast
next
  case (timeouts h h')
  then show ?case by (simp add: ctaphid_check_timeouts_def check_timeouts_from_hid_inv)
qed (rule hid_boot_inv)

section \<open>Progress\<close>

text \<open>\<open>hid_alive r\<close>: the computation ends, in a state whose timer still runs.\<close>

definition timer_running :: "'a hw_scheme \<Rightarrow> bool" where
  "timer_running w = (\<forall>n. timer_reg w n > 1)"

definition hid_alive :: "('x \<times> 'a ctaphid_scheme) option \<Rightarrow> bool" where
  "hid_alive r = (\<exists>x h. r = Some (x, h) \<and> timer_running h)"

definition app_returns :: "'a ctaphid_scheme hid_app \<Rightarrow> bool" where
  "app_returns app = (\<forall>len n h. timer_running h \<longrightarrow>
     (\<exists>r m h'. app_ctap_request app len h = Some (r, m, h') \<and> timer_running h')
     \<and> hid_alive (app_u2f_request app h) \<and> hid_alive (app_write_key app len h)
     \<and> hid_alive (app_write_cert app len h) \<and> hid_alive (app_generate_rng app n h))"

lemma hid_alive_Some [simp]: "hid_alive (Some (x, h)) = timer_running h"
  by (simp add: hid_alive_def)

lemma hid_alive_bind:
  assumes "hid_alive m" "\<And>x h. m = Some (x, h) \<Longrightarrow> timer_running h \<Longrightarrow> hid_alive (f (x, h))"
  shows "hid_alive (Option.bind m f)"
  using assms by (auto simp: hid_alive_def)

lemma timer_running_frames [simp]:
  "timer_running (h\<lparr>timer_reads := n\<rparr>) = timer_running h"
  "timer_running (h\<lparr>usb_out := us\<rparr>) = timer_running h"
  "timer_running (g\<lparr>CIDS := cs\<rparr>) = timer_running g"
  "timer_running (g\<lparr>is_busy := b\<rparr>) = timer_running g"
  "timer_running (g\<lparr>ctap_buffer := bs\<rparr>) = timer_running g"
  "timer_running (g\<lparr>active_cid_timestamp := v\<rparr>) = timer_running g"
  "timer_running (g\<lparr>cid_counter := v'\<rparr>) = timer_running g"
  by (simp_all add: timer_running_def)

lemma sends_timer: "sends w w' \<Longrightarrow> timer_running w' = timer_running w"
  by (auto simp: sends_def)

lemma send_timer [simp]: "wb_ok wb \<Longrightarrow> timer_running (ctaphid_send wb bs w) = timer_running w"
  using sends_timer [OF ctaphid_send_sends] .

lemma send_error_timer [simp]: "timer_running (ctaphid_send_error c e w) = timer_running w"
  by (simp add: ctaphid_send_error_def)

lemma send_init_response_timer [simp]: "timer_running (send_init_response a b n w) = timer_running w"
  by (simp add: send_init_response_def)

lemma buffer_ops_timer [simp]:
  "timer_running (buffer_reset h) = timer_running h"
  "timer_running (ctaphid_init h) = timer_running h"
  "timer_running (snd (cid_del c h)) = timer_running h"
  "timer_running (snd (buffer_packet p h)) = timer_running h"
  "timer_running (snd (get_new_cid h)) = timer_running h"
  by (auto simp: buffer_reset_def ctaphid_init_def cid_del_def buffer_packet_def get_new_cid_def Let_def
      timer_running_def split: option.splits)

lemma millis_alive: "timer_running h \<Longrightarrow> millis h = Some (TIMER_MAX - timer_reg h (timer_reads h),
    h\<lparr>timer_reads := timer_reads h + 1\<rparr>)"
  by (simp add: timer_running_def millis_running)

lemma add_cid_alive: "timer_running h \<Longrightarrow> hid_alive (add_cid c h)"
  by (auto simp: add_cid_def millis_alive split: option.splits)

lemma cid_refresh_alive: "timer_running h \<Longrightarrow> hid_alive (cid_refresh c h)"
  by (auto simp: cid_refresh_def millis_alive split: option.splits)

lemma hid_res_alive [simp]:
  "hid_alive (hid_fail e c h) = timer_running h" "hid_alive (hid_ignore c h) = timer_running h"
  "hid_alive (hid_buffer_status c h) = timer_running h"
  "hid_alive (hid_finish k c h) = timer_running h" "hid_alive (hid_refuse c e h) = timer_running h"
  by (simp_all add: hid_fail_def hid_ignore_def hid_buffer_status_def hid_finish_def hid_refuse_def Let_def)

text \<open>Refreshing a channel that is in the table succeeds, so \<open>exit (1)\<close> is not reached.\<close>

lemma cid_refresh_known:
  "timer_running h \<Longrightarrow> cid_exists c h \<Longrightarrow> \<exists>h'. cid_refresh c h = Some (0, h') \<and> timer_running h'"
  by (auto simp: cid_refresh_def cid_exists_def millis_alive split: option.splits)

lemma buffer_packet_cids: "CIDS (snd (buffer_packet p h)) = CIDS h"
  by (simp add: buffer_packet_def Let_def)

lemma cid_exists_cong: "CIDS h = CIDS h' \<Longrightarrow> cid_exists c h = cid_exists c h'"
  by (simp add: cid_exists_def cid_index_def)

lemma buffer_known_alive:
  assumes "timer_running h" "cid_exists (pkt_cid p) h"
  shows "hid_alive (hid_buffer_known p h)"
proof -
  obtain r h1 where bp: "buffer_packet p h = (r, h1)" by force
  have t: "timer_running h1" using buffer_ops_timer(4) [of p h] bp assms(1) by simp
  have "cid_exists (pkt_cid p) h1"
    using buffer_packet_cids [of p h] bp assms(2) cid_exists_cong [of h1 h] by simp
  then obtain h2 where "cid_refresh (pkt_cid p) h1 = Some (0, h2)" "timer_running h2"
    using cid_refresh_known [OF t] by blast
  then have "hid_alive (Option.bind (cid_refresh (pkt_cid p) h1)
      (\<lambda>(ret, h). if ret \<noteq> 0 then None else hid_buffer_status (pkt_cid p) h))" by simp
  then show ?thesis
    unfolding hid_buffer_known_def Let_def bp prod.case using assms(1) t by auto
qed

lemma buffer_packet_alive:
  assumes "timer_running h"
  shows "hid_alive (ctaphid_buffer_packet p h)"
proof -
  have reply: "hid_alive (hid_init_reply p a b r)" if "hid_alive r"
    for a b and r :: "(int \<times> 'a ctaphid_scheme) option"
    unfolding hid_init_reply_def using that by (rule hid_alive_bind) (simp add: Let_def)
  have ini: "hid_alive (hid_buffer_init_pkt p h)"
    using assms buffer_ops_timer(5) [of "ctaphid_init h"]
    by (auto simp: hid_buffer_init_pkt_def Let_def case_prod_unfold
        intro!: reply add_cid_alive cid_refresh_alive)
  have "hid_alive (hid_buffer_message_pkt p h)"
    using assms add_cid_alive [OF assms, of "pkt_cid p"]
    by (auto simp: hid_buffer_message_pkt_def Let_def hid_alive_def [of "add_cid (pkt_cid p) h"]
        intro!: buffer_known_alive)
  then show ?thesis using ini by (simp add: ctaphid_buffer_packet_def)
qed

text \<open>The command handed to the dispatcher is the one of the initialization packet of the message, and
  it is not \<open>CTAPHID_INIT\<close>.\<close>

lemma buffer_known_cmd:
  assumes "hid_buffer_known p h = Some ((st, cmd, c, len), h1)" "st \<noteq> HID_ERROR" "st \<noteq> HID_IGNORE"
    and "ctap_buffer_offset h \<le> unat (ctap_buffer_bcnt h)"
  shows "cmd = (if is_cont_pkt p then ctap_buffer_cmd h else pkt_cmd p)"
proof -
  obtain r g where bp: "buffer_packet p h = (r, g)" by force
  have c: "ctap_buffer_cmd g = (if is_cont_pkt p then ctap_buffer_cmd h else pkt_cmd p)"
    using bp assms(4)
    by (auto simp: buffer_packet_init buffer_packet_cont Let_def split: if_splits)
  have "ctap_buffer_cmd g' = ctap_buffer_cmd g" if "cid_refresh d g = Some (e, g')" for d e g'
    using that by (auto simp: cid_refresh_def Option.bind_eq_Some_conv elim!: millis_cases
        split: option.splits)
  then show ?thesis
    using assms(1-3) c
    by (auto simp: hid_buffer_known_def Let_def bp hid_fail_def hid_ignore_def hid_buffer_status_def
        buffer_cmd_def Option.bind_eq_Some_conv split: if_splits)
qed

lemma buffer_packet_cmd:
  assumes "ctaphid_buffer_packet p h = Some ((st, cmd, c, len), h1)" "st \<noteq> HID_ERROR" "st \<noteq> HID_IGNORE"
    and "hid_inv h"
  shows "cmd = (if is_cont_pkt p then ctap_buffer_cmd h else pkt_cmd p)" "pkt_cmd p \<noteq> CTAPHID_INIT"
proof -
  have ni: "\<not> is_init_pkt p"
    using assms(1-3)
    by (auto simp: ctaphid_buffer_packet_def hid_buffer_init_pkt_def hid_init_reply_def hid_fail_def
        hid_ignore_def Let_def Option.bind_eq_Some_conv split: if_splits prod.splits)
  then show "pkt_cmd p \<noteq> CTAPHID_INIT" by (simp add: is_init_pkt_def)
  have m: "hid_buffer_message_pkt p h = Some ((st, cmd, c, len), h1)"
    using assms(1) ni by (simp add: ctaphid_buffer_packet_def)
  have add: "ctap_buffer_cmd g = ctap_buffer_cmd h \<and> ctap_buffer_offset g = ctap_buffer_offset h
      \<and> ctap_buffer_bcnt g = ctap_buffer_bcnt h" if "add_cid d h = Some (e, g)" for d e g
    using that by (auto simp: add_cid_def Option.bind_eq_Some_conv elim!: millis_cases
        split: option.splits)
  have off: "ctap_buffer_offset h \<le> unat (ctap_buffer_bcnt h)" using assms(4) by (simp add: hid_inv_def)
  show "cmd = (if is_cont_pkt p then ctap_buffer_cmd h else pkt_cmd p)"
    using m assms(2,3) off
    by (auto simp: hid_buffer_message_pkt_def Let_def hid_fail_def hid_ignore_def
        Option.bind_eq_Some_conv split: if_splits dest!: buffer_known_cmd add)
qed

lemma custom_command_alive:
  assumes "timer_running h" "app_returns app" "wb_ok wb" "wb_cmd wb \<noteq> CTAPHID_REBOOT"
  shows "hid_alive (ctaphid_custom_command app len wb h)"
  using assms
  by (auto simp: ctaphid_custom_command_def hid_write_status_def Let_def app_returns_def
      intro!: hid_alive_bind)

lemma hid_cbor_alive:
  assumes "timer_running h" "app_returns app" "wb_ok wb"
  shows "hid_alive (hid_cbor app wb len h)"
proof -
  obtain r m g where a: "app_ctap_request app len (h\<lparr>is_busy := True\<rparr>) = Some (r, m, g)" "timer_running g"
    using assms(1,2) unfolding app_returns_def by (metis timer_running_frames(4))
  obtain wb2 g2 where w: "ctaphid_write (wb\<lparr>wb_bcnt := of_nat (length m + 1)\<rparr>) (Some [ctap_error_code r]) g
      = (wb2, g2)" by force
  have "wb_ok wb2 \<and> sends g g2"
    using fold_write_sends [OF _ w [unfolded ctaphid_write_def option.case]] assms(3) by simp
  then have "wb_ok wb2" "timer_running g2" using a(2) sends_timer by auto
  then show ?thesis using assms(1) a w by (simp add: hid_cbor_def Let_def)
qed

lemma hid_dispatch_alive:
  assumes "timer_running h" "app_returns app" "cmd \<notin> {CTAPHID_INIT, CTAPHID_REBOOT, CTAPHID_WINK}"
  shows "hid_alive (hid_dispatch app cmd c len h)"
proof -
  let ?wb = "ctaphid_write_buffer_init\<lparr>wb_cid := c, wb_cmd := cmd\<rparr>"
  have msg: "hid_alive (hid_msg app wb len h)" if "wb_ok wb" for wb
    using assms(1,2) that by (auto simp: hid_msg_def Let_def app_returns_def intro!: hid_alive_bind)
  have "hid_alive (ctaphid_custom_command app len ?wb h)"
    using assms by (intro custom_command_alive) simp_all
  then show ?thesis
    using assms msg
    by (auto simp: hid_dispatch_def Let_def intro!: hid_cbor_alive hid_alive_bind)
qed

section \<open>Properties\<close>


text \<open>An application for the witnesses: it answers every request with an empty response.\<close>

definition idle_app :: "'a ctaphid_scheme hid_app" where
  "idle_app = \<lparr>app_ctap_request = \<lambda>len h. Some (CTAP2_OK, [], h), app_u2f_request = \<lambda>h. Some ([], h),
     app_write_key = \<lambda>len h. Some (0, h), app_write_cert = \<lambda>len h. Some (0, h),
     app_generate_rng = \<lambda>n h. Some (replicate n 0, h)\<rparr>"

lemma idle_app_keeps_inv: "app_keeps_inv idle_app"
  by (auto simp: app_keeps_inv_def idle_app_def)

lemma idle_app_returns: "app_returns idle_app"
  by (auto simp: app_returns_def idle_app_def)

text \<open>A device whose timer shows the same value on every read.\<close>

definition quiet_hid :: ctaphid where
  "quiet_hid = hid_boot \<lparr>timer_reg = \<lambda>_. 0xfffff000, timer_reads = 0, touch_reg = \<lambda>_. 0,
     touch_reads = 0, trng_ready = \<lambda>_. True, trng_polls = 0,
     trng_reg = \<lambda>_. 0, trng_reads = 0, cdi = replicate 8 0, led = LED_BLACK, usb_out = [],
     hid_state = IDLE, CIDS = [], active_cid_timestamp = 0, ctap_buffer = [], ctap_buffer_cid = 0,
     ctap_buffer_cmd = 0, ctap_buffer_bcnt = 0, ctap_buffer_offset = 0, ctap_packet_seq = 0,
     cid_counter = 0, is_busy = False\<rparr>"

lemma quiet_hid_ok: "hid_inv quiet_hid" "timer_running quiet_hid" "hid_reachable app quiet_hid"
  by (simp_all add: quiet_hid_def hid_boot_inv hid_reachable.boot)
    (simp add: timer_running_def hid_boot_def)




end
