(* ===== verification/Ctaphid_Framing.thy ===== *)
theory Ctaphid_Framing
  imports Ctaphid_Safety
begin

text \<open>
  What \<open>ctaphid_write\<close> puts on the wire and what \<open>ctaphid_buffer_packet\<close> takes off it. The
  specification \<open>hid_frames\<close> cuts a message into reports the way the CTAPHID standard lays them
  out; the byte-by-byte writer of the code is shown to emit exactly these reports, and feeding them
  to the packet handler is shown to rebuild the message.
\<close>

section \<open>Specification: the reports of a message\<close>

definition pad :: "nat \<Rightarrow> bytes \<Rightarrow> bytes" where
  "pad n xs = xs @ replicate (n - length xs) 0"

definition init_frame :: "u32 \<Rightarrow> byte \<Rightarrow> u16 \<Rightarrow> bytes \<Rightarrow> bytes" where
  "init_frame c cmd bcnt xs = le32 c @ [cmd] @ be16 bcnt @ pad 57 xs"

definition cont_frame :: "u32 \<Rightarrow> byte \<Rightarrow> bytes \<Rightarrow> bytes" where
  "cont_frame c s xs = le32 c @ [s] @ pad 59 xs"

function cont_frames :: "u32 \<Rightarrow> byte \<Rightarrow> bytes \<Rightarrow> bytes list" where
  "cont_frames c s xs =
     (if xs = [] then [] else cont_frame c s (take 59 xs) # cont_frames c (s + 1) (drop 59 xs))"
  by auto
termination by (relation "measure (\<lambda>(c, s, xs). length xs)") auto

declare cont_frames.simps [simp del]

definition hid_frames :: "u32 \<Rightarrow> byte \<Rightarrow> u16 \<Rightarrow> bytes \<Rightarrow> bytes list" where
  "hid_frames c cmd bcnt xs =
     init_frame c cmd bcnt (take 57 xs) # cont_frames c 0 (drop 57 xs)"

lemma cont_frames_Nil [simp]: "cont_frames c s [] = []"
  by (simp add: cont_frames.simps)

lemma length_pad [simp]: "length xs \<le> n \<Longrightarrow> length (pad n xs) = n"
  by (simp add: pad_def)

lemma length_init_frame [simp]: "length xs \<le> 57 \<Longrightarrow> length (init_frame c cmd bcnt xs) = 64"
  by (simp add: init_frame_def)

lemma length_cont_frame [simp]: "length xs \<le> 59 \<Longrightarrow> length (cont_frame c s xs) = 64"
  by (simp add: cont_frame_def)

section \<open>The writer emits the reports\<close>

lemma blit_Cons:
  assumes "off < length buf"
  shows "blit (buf[off := b]) (Suc off) ys = blit buf off (b # ys)"
  using assms by (simp add: blit_def take_Suc_conv_app_nth)

lemma blit_after_header:
  "blit (hdr @ rest) (length hdr) ys = hdr @ ys @ drop (length ys) rest"
  by (simp add: blit_def)

lemma bit_255: "n < 8 \<Longrightarrow> bit (0xff :: int) n" "n < 8 \<Longrightarrow> bit (0xff :: nat) n"
proof -
  have "(0xff :: int) = mask 8" "(0xff :: nat) = mask 8" by (simp_all add: mask_eq_exp_minus_1)
  then show "n < 8 \<Longrightarrow> bit (0xff :: int) n" "n < 8 \<Longrightarrow> bit (0xff :: nat) n"
    by (simp_all only: bit_mask_iff) simp_all
qed

lemma hi_byte: "ucast (drop_bit 8 (v AND 0xff00) :: u16) = (ucast (drop_bit 8 v) :: byte)"
  by (rule bit_word_eqI) (simp add: bit_simps bit_255)

lemma lo_byte: "ucast (v AND 0xff :: u16) = (ucast v :: byte)"
  by (rule bit_word_eqI) (simp add: bit_simps bit_255)

text \<open>A write buffer between two reports: nothing pending, \<open>n\<close> bytes of the message gone.\<close>

definition wb_fresh :: "u32 \<Rightarrow> byte \<Rightarrow> u16 \<Rightarrow> nat \<Rightarrow> byte \<Rightarrow> CTAPHID_WRITE_BUFFER \<Rightarrow> bool" where
  "wb_fresh c cmd bcnt n s wb = (wb_cid wb = c \<and> wb_cmd wb = cmd \<and> wb_bcnt wb = bcnt
     \<and> wb_offset wb = 0 \<and> wb_bytes_written wb = n \<and> wb_seq wb = s \<and> length (wb_buf wb) = 64)"

definition wb_header :: "CTAPHID_WRITE_BUFFER \<Rightarrow> CTAPHID_WRITE_BUFFER" where
  "wb_header wb = (if wb_bytes_written wb = 0 then wb_init_header wb else wb_cont_header wb)"

definition header_bytes :: "u32 \<Rightarrow> byte \<Rightarrow> u16 \<Rightarrow> nat \<Rightarrow> byte \<Rightarrow> bytes" where
  "header_bytes c cmd bcnt n s = (if n = 0 then le32 c @ [cmd] @ be16 bcnt else le32 c @ [s])"

lemma length_header_bytes: "length (header_bytes c cmd bcnt n s) = (if n = 0 then 7 else 5)"
  by (simp add: header_bytes_def)

lemma list64_cases:
  assumes "length (buf::'a list) = 64"
  obtains a b c d e f g rest where "buf = a # b # c # d # e # f # g # rest" "length rest = 57"
proof -
  have "length buf = Suc (Suc (Suc (Suc (Suc (Suc (Suc 57))))))" using assms by simp
  then show thesis using that by (simp only: length_Suc_conv) blast
qed

lemma header_buf:
  assumes "wb_fresh c cmd bcnt n s wb"
  shows "\<exists>rest. wb_buf (wb_header wb) = header_bytes c cmd bcnt n s @ rest
      \<and> length rest = 64 - length (header_bytes c cmd bcnt n s)"
    and "wb_offset (wb_header wb) = length (header_bytes c cmd bcnt n s)"
    and "wb_bytes_written (wb_header wb) = n"
    and "wb_cid (wb_header wb) = c" "wb_cmd (wb_header wb) = cmd" "wb_bcnt (wb_header wb) = bcnt"
    and "wb_seq (wb_header wb) = (if n = 0 then s else s + 1)"
proof -
  have l: "length (wb_buf wb) = 64" using assms by (simp add: wb_fresh_def)
  show "\<exists>rest. wb_buf (wb_header wb) = header_bytes c cmd bcnt n s @ rest
      \<and> length rest = 64 - length (header_bytes c cmd bcnt n s)"
    by (rule list64_cases [OF l]) (use assms in \<open>auto simp: wb_fresh_def wb_header_def
      wb_init_header_def wb_cont_header_def header_bytes_def blit_def le32_def be16_def
      hi_byte lo_byte\<close>)
qed (use assms in \<open>simp_all add: wb_fresh_def wb_header_def wb_init_header_def wb_cont_header_def
       header_bytes_def\<close>)

text \<open>Bytes written inside one report.\<close>

lemma write_run:
  assumes "0 < wb_offset wb" "wb_offset wb + length ys < 64" "length (wb_buf wb) = 64"
  shows "fold ctaphid_write_byte ys (wb, w) =
    (wb\<lparr>wb_buf := blit (wb_buf wb) (wb_offset wb) ys, wb_offset := wb_offset wb + length ys,
        wb_bytes_written := wb_bytes_written wb + length ys\<rparr>, w)"
  using assms
proof (induction ys arbitrary: wb)
  case (Cons y ys)
  then show ?case
    by (simp add: ctaphid_write_byte_def HID_MESSAGE_SIZE_def blit_Cons)
qed simp

text \<open>The first byte of a report puts the header in front.\<close>

lemma write_byte_fresh:
  assumes "wb_fresh c cmd bcnt n s wb"
  shows "ctaphid_write_byte y (wb, w) = ctaphid_write_byte y (wb_header wb, w)"
proof -
  have "0 < wb_offset (wb_header wb)" using header_buf(2) [OF assms] length_header_bytes by simp
  then show ?thesis
    using assms by (auto simp: ctaphid_write_byte_def wb_fresh_def wb_header_def)
qed

lemma write_fresh:
  assumes "wb_fresh c cmd bcnt n s wb" "ys \<noteq> []"
  shows "fold ctaphid_write_byte ys (wb, w) = fold ctaphid_write_byte ys (wb_header wb, w)"
  using assms by (cases ys) (simp_all add: write_byte_fresh)

lemma write_full:
  assumes "wb_fresh c cmd bcnt n s wb" "length (header_bytes c cmd bcnt n s) + length ys = 64"
  shows "\<exists>wb'. fold ctaphid_write_byte ys (wb, w)
      = (wb', usbhid_send (header_bytes c cmd bcnt n s @ ys) w)
    \<and> wb_fresh c cmd bcnt (n + length ys) (if n = 0 then s else s + 1) wb'"
proof -
  let ?h = "header_bytes c cmd bcnt n s"
  have hl: "length ?h < 64" by (simp add: length_header_bytes)
  then have ne: "ys \<noteq> []" using assms(2) by auto
  then obtain zs z where ys: "ys = zs @ [z]" by (metis rev_exhaust)
  obtain rest where r: "wb_buf (wb_header wb) = ?h @ rest" "length rest = 64 - length ?h"
    using header_buf(1) [OF assms(1)] by blast
  have lz: "length ?h + length zs = 63" using assms(2) ys by simp
  have off: "wb_offset (wb_header wb) = length ?h" by (rule header_buf(2) [OF assms(1)])
  have pos: "0 < wb_offset (wb_header wb)" by (simp add: off length_header_bytes)
  have run: "fold ctaphid_write_byte zs (wb_header wb, w) =
    ((wb_header wb)\<lparr>wb_buf := ?h @ zs @ drop (length zs) rest, wb_offset := 63,
        wb_bytes_written := n + length zs\<rparr>, w)"
    using write_run [OF pos, of zs w] lz r hl off header_buf(3) [OF assms(1)]
    by (simp add: blit_after_header)
  have upd: "(?h @ zs @ drop (length zs) rest)[63 := z] = ?h @ ys"
  proof -
    have "length (drop (length zs) rest) = Suc 0" using r(2) lz hl by simp
    then obtain x where "drop (length zs) rest = [x]"
      by (metis length_0_conv length_Suc_conv)
    moreover have "63 - length ?h = length zs" using lz by simp
    ultimately show ?thesis using lz ys by (simp add: list_update_append)
  qed
  show ?thesis
    using write_fresh [OF assms(1) ne, of w] run upd lz header_buf [OF assms(1)] assms(2) ys
    by (simp add: ctaphid_write_byte_def HID_MESSAGE_SIZE_def wb_fresh_def)
qed

text \<open>The last, partial report: written bytes followed by a flush.\<close>

definition write_flush :: "bytes \<Rightarrow> CTAPHID_WRITE_BUFFER \<times> 'a hw_scheme \<Rightarrow> 'a hw_scheme" where
  "write_flush ys s = (let (wb, w) = fold ctaphid_write_byte ys s in snd (ctaphid_flush wb w))"

lemma write_flush_append:
  "write_flush (xs @ ys) s = write_flush ys (fold ctaphid_write_byte xs s)"
  by (simp add: write_flush_def)

lemma ctaphid_send_flush: "ctaphid_send wb ys w = write_flush ys (wb, w)"
  by (simp add: ctaphid_send_def write_flush_def ctaphid_write_def)

lemma write_partial:
  assumes "wb_fresh c cmd bcnt n s wb" "length (header_bytes c cmd bcnt n s) + length ys < 64"
    and "ys \<noteq> [] \<or> n = 0"
  shows "write_flush ys (wb, w) =
    usbhid_send (header_bytes c cmd bcnt n s @ pad (64 - length (header_bytes c cmd bcnt n s)) ys) w"
proof -
  let ?h = "header_bytes c cmd bcnt n s"
  obtain rest where r: "wb_buf (wb_header wb) = ?h @ rest" "length rest = 64 - length ?h"
    using header_buf(1) [OF assms(1)] by blast
  have off: "wb_offset (wb_header wb) = length ?h" by (rule header_buf(2) [OF assms(1)])
  have pos: "0 < wb_offset (wb_header wb)" by (simp add: off length_header_bytes)
  have lb: "length (wb_buf (wb_header wb)) = 64" using r assms(2) by simp
  have flush: "snd (ctaphid_flush ((wb_header wb)\<lparr>wb_buf := ?h @ ys @ drop (length ys) rest,
        wb_offset := length ?h + length ys, wb_bytes_written := n + length ys\<rparr>) w)
      = usbhid_send (?h @ pad (64 - length ?h) ys) w"
    using blit_after_header [of "?h @ ys" "drop (length ys) rest"
        "replicate (64 - (length ?h + length ys)) 0"] r(2) assms(2) pos off
    by (simp add: ctaphid_flush_def HID_MESSAGE_SIZE_def pad_def diff_diff_left)
  show ?thesis
  proof (cases "ys = []")
    case False
    show ?thesis
      using write_fresh [OF assms(1) False, of w] write_run [OF pos _ lb, of ys w] off flush r
        header_buf(3) [OF assms(1)] assms(2)
      by (simp add: write_flush_def blit_after_header)
  next
    case True
    then have n: "n = 0" using assms(3) by simp
    have "ctaphid_flush wb w = ctaphid_flush (wb_header wb) w"
      using assms(1) pos n by (simp add: ctaphid_flush_def wb_fresh_def wb_header_def Let_def)
    moreover have "wb_header wb = (wb_header wb)\<lparr>wb_buf := ?h @ rest, wb_offset := length ?h,
        wb_bytes_written := n\<rparr>"
      using r off header_buf(3) [OF assms(1)] by simp
    ultimately show ?thesis using flush True by (simp add: write_flush_def)
  qed
qed

lemma cont_send:
  assumes "wb_fresh c cmd bcnt n s wb" "0 < n"
  shows "write_flush ys (wb, w) = w\<lparr>usb_out := usb_out w @ cont_frames c s ys\<rparr>"
  using assms
proof (induction c s ys arbitrary: wb w n rule: cont_frames.induct)
  case (1 c s ys)
  have h: "header_bytes c cmd bcnt n s = le32 c @ [s]" using 1(3) by (simp add: header_bytes_def)
  consider "ys = []" | "ys \<noteq> []" "length ys < 59" | "59 \<le> length ys" by linarith
  then show ?case
  proof cases
    case 1
    then show ?thesis
      using \<open>wb_fresh c cmd bcnt n s wb\<close> \<open>0 < n\<close>
      by (simp add: write_flush_def ctaphid_flush_def wb_fresh_def)
  next
    case 2
    then show ?thesis
      using write_partial [OF 1(2), of ys w] h
      by (simp add: cont_frames.simps [of c s ys] cont_frame_def usbhid_send_def)
  next
    case 3
    then have ne: "ys \<noteq> []" by auto
    obtain wb' where w: "fold ctaphid_write_byte (take 59 ys) (wb, w)
        = (wb', usbhid_send (header_bytes c cmd bcnt n s @ take 59 ys) w)"
      "wb_fresh c cmd bcnt (n + 59) (s + 1) wb'"
      using write_full [OF 1(2), of "take 59 ys" w] 3 h 1(3) by auto
    have "write_flush ys (wb, w) = write_flush (drop 59 ys) (fold ctaphid_write_byte (take 59 ys) (wb, w))"
      by (metis append_take_drop_id write_flush_append)
    then show ?thesis
      using 1(1) [OF ne w(2)] w(1) 3 ne h
      by (simp add: cont_frames.simps [of c s ys] cont_frame_def usbhid_send_def pad_def)
  qed
qed

text \<open>Sending a whole message from a cleared write buffer.\<close>

definition wb_for :: "u32 \<Rightarrow> byte \<Rightarrow> u16 \<Rightarrow> CTAPHID_WRITE_BUFFER" where
  "wb_for c cmd bcnt = ctaphid_write_buffer_init\<lparr>wb_cid := c, wb_cmd := cmd, wb_bcnt := bcnt\<rparr>"

lemma wb_for_fresh: "wb_fresh c cmd bcnt 0 0 (wb_for c cmd bcnt)"
  by (simp add: wb_fresh_def wb_for_def ctaphid_write_buffer_init_def HID_MESSAGE_SIZE_def)

lemma send_frames:
  "ctaphid_send (wb_for c cmd bcnt) ys w = w\<lparr>usb_out := usb_out w @ hid_frames c cmd bcnt ys\<rparr>"
proof -
  have h: "header_bytes c cmd bcnt 0 0 = le32 c @ [cmd] @ be16 bcnt" by (simp add: header_bytes_def)
  show ?thesis
  proof (cases "length ys < 57")
    case True
    then show ?thesis
      using write_partial [OF wb_for_fresh, of c cmd bcnt ys w] h
      by (simp add: ctaphid_send_flush hid_frames_def init_frame_def usbhid_send_def)
  next
    case False
    obtain wb' where w: "fold ctaphid_write_byte (take 57 ys) (wb_for c cmd bcnt, w)
        = (wb', usbhid_send (header_bytes c cmd bcnt 0 0 @ take 57 ys) w)"
      "wb_fresh c cmd bcnt 57 0 wb'"
      using write_full [OF wb_for_fresh, of c cmd bcnt "take 57 ys" w] False h by auto
    have "write_flush ys (wb_for c cmd bcnt, w) =
        write_flush (drop 57 ys) (fold ctaphid_write_byte (take 57 ys) (wb_for c cmd bcnt, w))"
      by (metis append_take_drop_id write_flush_append)
    then show ?thesis
      using w(1) False h
      by (simp add: cont_send [OF w(2)] ctaphid_send_flush hid_frames_def init_frame_def usbhid_send_def pad_def)
  qed
qed

section \<open>The handler puts the reports together\<close>

lemma frame_fields [simp]:
  "pkt_cid (init_frame c cmd bcnt xs) = c" "pkt_cid (cont_frame c s xs) = c"
  "pkt_cmd (init_frame c cmd bcnt xs) = cmd" "pkt_cmd (cont_frame c s xs) = s"
  "pkt_seq (cont_frame c s xs) = s"
  by (simp_all add: pkt_cid_def pkt_cmd_def pkt_seq_def init_frame_def cont_frame_def of_le_le32)
    (simp_all add: nth_append)

lemma join_bytes: "push_bit 8 (ucast (ucast (drop_bit 8 v) :: byte)) OR ucast (ucast v :: byte) = (v :: u16)"
  by (rule bit_word_eqI) (auto simp: bit_simps dest: bit_imp_le_length)

lemma frame_len [simp]: "ctaphid_packet_len (init_frame c cmd bcnt xs) = bcnt"
  by (simp add: ctaphid_packet_len_def init_frame_def nth_append be16_def join_bytes)

lemma frame_payload [simp]:
  "length xs \<le> 57 \<Longrightarrow> pkt_init_payload (init_frame c cmd bcnt xs) = pad 57 xs"
  "length xs \<le> 59 \<Longrightarrow> pkt_cont_payload (cont_frame c s xs) = pad 59 xs"
  by (simp_all add: pkt_init_payload_def pkt_cont_payload_def slice_def init_frame_def cont_frame_def
      hid_size_defs)

lemma take_pad [simp]: "k \<le> length xs \<Longrightarrow> take k (pad n xs) = take k xs"
  by (simp add: pad_def)

text \<open>The states of a transfer: all of the message is in the buffer, or \<open>j\<close> continuation packets
  have been taken and more are due.\<close>

definition transfer :: "u32 \<Rightarrow> byte \<Rightarrow> bytes \<Rightarrow> nat \<Rightarrow> 'a ctaphid_scheme \<Rightarrow> bool" where
  "transfer c cmd xs k h = (hid_inv h \<and> timer_running h \<and> cid_exists c h \<and> buffer_cid h = c
     \<and> buffer_cmd h = cmd \<and> unat (buffer_len h) = length xs \<and> ctap_buffer_offset h = k
     \<and> k \<le> length xs \<and> take k (ctap_buffer h) = take k xs)"

definition idle_channel :: "u32 \<Rightarrow> 'a ctaphid_scheme \<Rightarrow> bool" where
  "idle_channel c h = (hid_inv h \<and> timer_running h \<and> cid_exists c h \<and> buffer_status h = EMPTY
     \<and> c \<noteq> CTAPHID_BROADCAST_CID)"

definition message_cmd :: "byte \<Rightarrow> bool" where
  "message_cmd cmd = (cmd AND TYPE_INIT \<noteq> 0 \<and> cmd \<noteq> CTAPHID_INIT)"

definition same_io :: "'a ctaphid_scheme \<Rightarrow> 'a ctaphid_scheme \<Rightarrow> bool" where
  "same_io h' h = (usb_out h' = usb_out h \<and> is_busy h' = is_busy h)"

lemma same_io_trans: "same_io h'' h' \<Longrightarrow> same_io h' h \<Longrightarrow> same_io h'' h"
  by (simp add: same_io_def)

lemma cid_refresh_transfer:
  assumes "transfer c cmd xs k h"
  shows "\<exists>h'. cid_refresh c h = Some (0, h') \<and> transfer c cmd xs k h'
    \<and> ctap_packet_seq h' = ctap_packet_seq h \<and> same_io h' h"
proof -
  obtain i where i: "cid_index c h = Some i" using assms by (auto simp: transfer_def cid_exists_def)
  define h' where "h' = h\<lparr>timer_reads := timer_reads h + 1, CIDS := (CIDS h)[i := (CIDS h ! i)
    \<lparr>cid_last_used := ucast (TIMER_MAX - timer_reg h (timer_reads h)), cid_busy := 1\<rparr>]\<rparr>"
  have r: "cid_refresh c h = Some (0, h')"
    using assms i by (simp add: cid_refresh_def transfer_def millis_alive h'_def)
  have "cid_cid (CIDS h' ! n) = cid_cid (CIDS h ! n)" for n
    by (cases "i < length (CIDS h)"; cases "n = i") (simp_all add: h'_def list_update_beyond)
  then have "cid_exists c h' = cid_exists c h" by (simp add: cid_exists_def cid_index_def)
  then have "transfer c cmd xs k h'"
    using assms by (auto simp: transfer_def h'_def hid_inv_def buffer_cid_def buffer_cmd_def buffer_len_def)
  then show ?thesis using r by (auto simp: h'_def same_io_def)
qed

text \<open>After a packet has been copied and the channel refreshed, the handler either waits for more or
  runs the command.\<close>

lemma handle_after_copy:
  assumes "buffer_packet p h = (SUCESS, h1)" "transfer c cmd xs k h1" "pkt_cid p = c"
    and "hid_buffer_known p h = (do { (ret, h) \<leftarrow> cid_refresh c h1;
        if ret \<noteq> 0 then None else hid_buffer_status c h })"
    and "ctaphid_buffer_packet p h = hid_buffer_known p h"
  shows "\<exists>h2. transfer c cmd xs k h2 \<and> ctap_packet_seq h2 = ctap_packet_seq h1 \<and> same_io h2 h1
    \<and> (if k < length xs then ctaphid_handle_packet app p h = Some (0, h2)
       else ctaphid_handle_packet app p h = hid_dispatch app cmd c (of_nat (length xs)) h2)"
proof -
  obtain g where g: "cid_refresh c h1 = Some (0, g)" "transfer c cmd xs k g"
    "ctap_packet_seq g = ctap_packet_seq h1" "same_io g h1"
    using cid_refresh_transfer [OF assms(2)] by blast
  have t: "unat (ctap_buffer_bcnt g) = length xs" "ctap_buffer_offset g = k" "k \<le> length xs"
    "ctap_buffer_cmd g = cmd" "timer_running g"
    using g(2) by (auto simp: transfer_def buffer_len_def buffer_cmd_def)
  have len: "ctap_buffer_bcnt g = of_nat (length xs)" using t(1) by (rule of_nat_unat_eq)
  have res: "ctaphid_buffer_packet p h = Some ((buffer_status g, cmd, c, of_nat (length xs)), g)"
    using assms(4,5) g(1) t(4) len by (simp add: hid_buffer_status_def buffer_cmd_def buffer_len_def)
  show ?thesis
  proof (cases "k < length xs")
    case True
    then have "ctap_buffer_bcnt g \<noteq> 0" using t(1) by auto
    then have "buffer_status g = BUFFERING" using True t by (simp add: buffer_status_def)
    then have "ctaphid_handle_packet app p h = Some (0, g\<lparr>timer_reads := timer_reads g + 1,
        active_cid_timestamp := ucast (TIMER_MAX - timer_reg g (timer_reads g))\<rparr>)"
      using res t(5) by (simp add: ctaphid_handle_packet_def millis_alive)
    moreover have "cid_exists c (g\<lparr>timer_reads := a, active_cid_timestamp := b\<rparr>) = cid_exists c g" for a b
      by (simp add: cid_exists_def cid_index_def)
    ultimately show ?thesis
      using True g by (auto simp: same_io_def transfer_def hid_inv_def buffer_cid_def buffer_cmd_def buffer_len_def)
  next
    case False
    then have "buffer_status g = EMPTY \<or> buffer_status g = BUFFERED"
      using t by (auto simp: buffer_status_def)
    then show ?thesis
      using False g res by (auto simp: ctaphid_handle_packet_def)
  qed
qed

lemma handle_init_frame:
  assumes "idle_channel c h" "message_cmd cmd" "length xs \<le> 1344"
  shows "\<exists>h2. transfer c cmd xs (min (length xs) 57) h2 \<and> ctap_packet_seq h2 = -1 \<and> same_io h2 h
    \<and> (if 57 < length xs then ctaphid_handle_packet app
          (init_frame c cmd (of_nat (length xs)) (take 57 xs)) h = Some (0, h2)
       else ctaphid_handle_packet app (init_frame c cmd (of_nat (length xs)) (take 57 xs)) h
         = hid_dispatch app cmd c (of_nat (length xs)) h2)"
proof -
  let ?p = "init_frame c cmd (of_nat (length xs)) (take 57 xs)"
  have nc: "\<not> is_cont_pkt ?p" "\<not> is_init_pkt ?p"
    using assms(2) by (auto simp: is_cont_pkt_def is_init_pkt_def message_cmd_def)
  have len: "unat (of_nat (length xs) :: u16) = length xs"
    using assms(3) by (simp add: unat_of_nat_small)
  define h1 where "h1 = snd (buffer_packet ?p h)"
  have bp: "buffer_packet ?p h = (SUCESS, h1)" using nc by (simp add: h1_def buffer_packet_init)
  have inv: "hid_inv h1"
    using buffer_packet_hid_inv [OF _ _ bp] assms len
    by (simp add: idle_channel_def message_cmd_def CTAPHID_BUFFER_SIZE_def)
  have ex: "cid_exists c h1"
    using assms(1) cid_exists_cong [OF buffer_packet_cids [of ?p h]]
    by (simp add: idle_channel_def h1_def)
  have tm: "timer_running h1" using assms(1) by (simp add: h1_def idle_channel_def)
  have tr: "transfer c cmd xs (min (length xs) 57) h1"
    using inv ex tm nc len
    by (simp add: transfer_def h1_def buffer_packet_init buffer_cid_def buffer_cmd_def buffer_len_def
        blit_def min_def)
  have known: "ctaphid_buffer_packet ?p h = hid_buffer_known ?p h"
    using assms(1) nc by (simp add: ctaphid_buffer_packet_def hid_buffer_message_pkt_def idle_channel_def Let_def)
  have copy: "hid_buffer_known ?p h = (do { (ret, h) \<leftarrow> cid_refresh c h1;
        if ret \<noteq> 0 then None else hid_buffer_status c h })"
    using assms(1,3) nc bp len
    by (simp add: hid_buffer_known_def idle_channel_def Let_def SUCESS_def SEQUENCE_ERROR_def
        CTAPHID_BUFFER_SIZE_def)
  have "ctap_packet_seq h1 = -1" "same_io h1 h"
    using nc by (simp_all add: h1_def buffer_packet_init same_io_def)
  then show ?thesis
    using handle_after_copy [OF bp tr _ copy known, of app] same_io_trans
    by (fastforce simp: min_def split: if_splits)
qed

lemma seq_byte:
  assumes "j < 128"
  shows "(of_nat j :: byte) AND TYPE_INIT = 0" "uint (of_nat j :: byte) = int j"
proof -
  have u: "unat (of_nat j :: byte) = j" using assms by (intro unat_of_nat_small) simp
  then show "uint (of_nat j :: byte) = int j" by (metis of_nat_unat)
  have b: "\<not> bit (of_nat j :: byte) 7"
    using assms u by (simp add: bit_iff_odd_drop_bit drop_bit_eq_div bit_iff_odd word_arith_nat_div)
  show "(of_nat j :: byte) AND TYPE_INIT = 0"
  proof (rule bit_word_eqI)
    fix n assume "n < LENGTH(8)"
    have "bit (TYPE_INIT :: byte) n \<longleftrightarrow> n = 7"
      using bit_exp_iff [where ?'a = "8 word", of 7 n] by (auto simp: TYPE_INIT_def)
    then show "bit ((of_nat j :: byte) AND TYPE_INIT) n = bit (0 :: byte) n"
      using b by (auto simp: bit_and_iff)
  qed
qed

lemma handle_cont_frame:
  assumes "transfer c cmd xs k h" "c \<noteq> CTAPHID_BROADCAST_CID" "k < length xs"
    and "ctap_packet_seq h = int j - 1" "j < 128"
  shows "\<exists>h2. transfer c cmd xs (min (length xs) (k + 59)) h2 \<and> ctap_packet_seq h2 = int j
    \<and> same_io h2 h
    \<and> (if k + 59 < length xs
       then ctaphid_handle_packet app (cont_frame c (of_nat j) (take 59 (drop k xs))) h = Some (0, h2)
       else ctaphid_handle_packet app (cont_frame c (of_nat j) (take 59 (drop k xs))) h
         = hid_dispatch app cmd c (of_nat (length xs)) h2)"
proof -
  let ?p = "cont_frame c (of_nat j) (take 59 (drop k xs))"
  let ?n = "min (length xs - k) 59"
  have c: "is_cont_pkt ?p" using assms(5) by (simp add: is_cont_pkt_def seq_byte)
  have ni: "\<not> is_init_pkt ?p"
    using c by (auto simp: is_init_pkt_def is_cont_pkt_def hid_cmd_defs)
  have t: "hid_inv h" "timer_running h" "cid_exists c h" "ctap_buffer_cid h = c" "ctap_buffer_cmd h = cmd"
    "unat (ctap_buffer_bcnt h) = length xs" "ctap_buffer_offset h = k" "take k (ctap_buffer h) = take k xs"
    "length (ctap_buffer h) = 1344" "length xs \<le> 1344" "k \<le> length xs"
    using assms(1) by (auto simp: transfer_def buffer_cid_def buffer_cmd_def buffer_len_def hid_inv_def)
  have pay: "take ?n (pkt_cont_payload ?p) = take 59 (drop k xs)" by (simp add: min_def)
  define h1 where "h1 = h\<lparr>ctap_packet_seq := int j,
    ctap_buffer := blit (ctap_buffer h) k (take 59 (drop k xs)), ctap_buffer_offset := k + ?n\<rparr>"
  have bp: "buffer_packet ?p h = (SUCESS, h1)"
    using buffer_packet_cont [OF c, of h] t assms(4,5) pay seq_byte [OF assms(5)]
    by (simp add: Let_def h1_def)
  have inv: "hid_inv h1"
    using buffer_packet_hid_inv [OF t(1) _ bp] c ni by (simp add: is_init_pkt_def)
  have k2: "k + ?n = min (length xs) (k + 59)" using t(11) by simp
  have "take (k + ?n) (ctap_buffer h1) = take k xs @ take 59 (drop k xs)"
    using take_blit_prefix [of k "ctap_buffer h" "take 59 (drop k xs)"] t
    by (simp add: h1_def min.commute)
  also have "\<dots> = take (k + ?n) xs" by (simp add: take_add min_def)
  finally have tr: "transfer c cmd xs (min (length xs) (k + 59)) h1"
    using inv t k2 cid_exists_cong [of h1 h]
    by (simp add: transfer_def h1_def timer_running_def buffer_cid_def buffer_cmd_def buffer_len_def)
  have st: "buffer_status h = BUFFERING"
    using t assms(3) by (auto simp: buffer_status_def)
  have known: "ctaphid_buffer_packet ?p h = hid_buffer_known ?p h"
    using t assms(2) ni c by (simp add: ctaphid_buffer_packet_def hid_buffer_message_pkt_def Let_def)
  have copy: "hid_buffer_known ?p h = (do { (ret, h) \<leftarrow> cid_refresh c h1;
        if ret \<noteq> 0 then None else hid_buffer_status c h })"
    using c bp t st
    by (simp add: hid_buffer_known_def Let_def SUCESS_def SEQUENCE_ERROR_def buffer_cid_def)
  have io: "same_io h1 h" by (simp add: h1_def same_io_def)
  show ?thesis
    using handle_after_copy [OF bp tr _ copy known, of app] same_io_trans [OF _ io]
    by (fastforce simp: h1_def min_def not_less split: if_splits)
qed

text \<open>Handing a list of packets to the handler one after the other.\<close>

fun hid_feed :: "'a ctaphid_scheme hid_app \<Rightarrow> bytes list \<Rightarrow> 'a ctaphid_scheme \<Rightarrow> 'a ctaphid_scheme option" where
  "hid_feed app [] h = Some h"
| "hid_feed app (p # ps) h = do { (r, h) \<leftarrow> ctaphid_handle_packet app p h; hid_feed app ps h }"

lemma feed_last: "Option.bind r (\<lambda>(x, h). hid_feed app [] h) = map_option snd r"
  by (cases r) auto

lemma feed_cont:
  assumes "transfer c cmd xs k h" "c \<noteq> CTAPHID_BROADCAST_CID" "k < length xs" "k = 57 + 59 * j"
    and "ctap_packet_seq h = int j - 1"
  shows "\<exists>h2. hid_feed app (cont_frames c (of_nat j) (drop k xs)) h
      = map_option snd (hid_dispatch app cmd c (of_nat (length xs)) h2)
    \<and> transfer c cmd xs (length xs) h2 \<and> same_io h2 h"
  using assms
proof (induction "length xs - k" arbitrary: k j h rule: less_induct)
  case less
  let ?p = "cont_frame c (of_nat j) (take 59 (drop k xs))"
  have "length xs \<le> 1344" using less.prems(1) by (auto simp: transfer_def hid_inv_def buffer_len_def)
  then have j: "j < 128" using less.prems(3,4) by linarith
  have cf: "cont_frames c (of_nat j) (drop k xs) = ?p # cont_frames c (of_nat (Suc j)) (drop (k + 59) xs)"
    using less.prems(3) by (simp add: cont_frames.simps [of c "of_nat j"] add.commute)
  obtain h2 where h2: "transfer c cmd xs (min (length xs) (k + 59)) h2" "ctap_packet_seq h2 = int j"
    "same_io h2 h"
    "if k + 59 < length xs then ctaphid_handle_packet app ?p h = Some (0, h2)
     else ctaphid_handle_packet app ?p h = hid_dispatch app cmd c (of_nat (length xs)) h2"
    using handle_cont_frame [OF less.prems(1-3,5) j, of app] by blast
  show ?case
  proof (cases "k + 59 < length xs")
    case True
    have "\<exists>h3. hid_feed app (cont_frames c (of_nat (Suc j)) (drop (k + 59) xs)) h2
        = map_option snd (hid_dispatch app cmd c (of_nat (length xs)) h3)
      \<and> transfer c cmd xs (length xs) h3 \<and> same_io h3 h2"
      by (rule less.hyps) (use True less.prems h2 in auto)
    then show ?thesis using h2 True cf same_io_trans by fastforce
  next
    case False
    then have "cont_frames c (of_nat (Suc j)) (drop (k + 59) xs) = []" by simp
    then show ?thesis using h2 False cf by (auto simp: feed_last simp del: hid_feed.simps(1))
  qed
qed

text \<open>Feeding the reports of a message runs its command once, on a buffer that holds the message.\<close>

lemma feed_frames:
  assumes "idle_channel c h" "message_cmd cmd" "length xs \<le> 1344"
  shows "\<exists>h2. hid_feed app (hid_frames c cmd (of_nat (length xs)) xs) h
      = map_option snd (hid_dispatch app cmd c (of_nat (length xs)) h2)
    \<and> transfer c cmd xs (length xs) h2 \<and> same_io h2 h"
proof -
  let ?p = "init_frame c cmd (of_nat (length xs)) (take 57 xs)"
  obtain h2 where h2: "transfer c cmd xs (min (length xs) 57) h2" "ctap_packet_seq h2 = -1"
    "same_io h2 h"
    "if 57 < length xs then ctaphid_handle_packet app ?p h = Some (0, h2)
     else ctaphid_handle_packet app ?p h = hid_dispatch app cmd c (of_nat (length xs)) h2"
    using handle_init_frame [OF assms, of app] by blast
  have b: "c \<noteq> CTAPHID_BROADCAST_CID" using assms(1) by (simp add: idle_channel_def)
  show ?thesis
  proof (cases "57 < length xs")
    case True
    then show ?thesis
      using feed_cont [of c cmd xs 57 h2 0 app] h2 b same_io_trans by (fastforce simp: hid_frames_def)
  next
    case False
    then show ?thesis using h2 by (auto simp: hid_frames_def feed_last simp del: hid_feed.simps(1))
  qed
qed

lemma send_error_frames:
  "ctaphid_send_error c e w = w\<lparr>usb_out := usb_out w @ hid_frames c CTAPHID_ERROR 1 [e]\<rparr>"
  using send_frames [of c CTAPHID_ERROR 1 "[e]" w] by (simp add: ctaphid_send_error_def wb_for_def)

lemma cid_del_frame:
  "\<exists>cs. snd (cid_del c h) = h\<lparr>CIDS := cs\<rparr> \<and> length cs = length (CIDS h)
    \<and> (\<forall>i. cid_cid (cs ! i) = cid_cid (CIDS h ! i))"
proof (cases "cid_index c h")
  case None
  then have "snd (cid_del c h) = h\<lparr>CIDS := CIDS h\<rparr>" by (simp add: cid_del_def)
  then show ?thesis by blast
next
  case (Some i)
  let ?cs = "(CIDS h)[i := (CIDS h ! i)\<lparr>cid_busy := 0\<rparr>]"
  have "cid_cid (?cs ! n) = cid_cid (CIDS h ! n)" for n
    by (cases "i < length (CIDS h)"; cases "n = i") (simp_all add: list_update_beyond)
  moreover have "snd (cid_del c h) = h\<lparr>CIDS := ?cs\<rparr>" using Some by (simp add: cid_del_def)
  ultimately show ?thesis by auto
qed

lemma get_new_cid_valid: "get_new_cid_loop c \<noteq> 0 \<and> get_new_cid_loop c \<noteq> 0xffffffff"
proof (induction c rule: get_new_cid_loop.induct)
  case (1 c)
  show ?case
  proof (cases "c + 1 = 0 \<or> c + 1 = 0xffffffff")
    case True
    then have "get_new_cid_loop c = get_new_cid_loop (c + 1)"
      by (subst get_new_cid_loop.simps) (simp only: Let_def if_True)
    then show ?thesis using 1 [OF refl True] by simp
  next
    case False
    then have "get_new_cid_loop c = c + 1"
      by (subst get_new_cid_loop.simps) (simp only: Let_def if_False)
    then show ?thesis using False by simp
  qed
qed

lemma add_cid_exists:
  assumes "List.find (\<lambda>i. cid_busy (CIDS g ! i) = 0) [0..<CID_MAX - 1] = Some j" "j < CID_MAX - 1"
    and "timer_running g" "length (CIDS g) = 10"
  shows "\<exists>g'. add_cid c g = Some (0, g') \<and> cid_exists c g' \<and> usb_out g' = usb_out g
    \<and> ctap_buffer_bcnt g' = ctap_buffer_bcnt g"
proof -
  obtain g' where g': "add_cid c g = Some (0, g')" "usb_out g' = usb_out g"
    "ctap_buffer_bcnt g' = ctap_buffer_bcnt g" "cid_cid (CIDS g' ! j) = c"
    using assms by (simp add: add_cid_def millis_alive CID_MAX_def)
  have "\<exists>i \<in> set [0..<CID_MAX - 1]. cid_cid (CIDS g' ! i) = c" using g'(4) assms(2) by auto
  from find_exists [OF this] have "cid_exists c g'" by (auto simp: cid_exists_def cid_index_def)
  then show ?thesis using g' by blast
qed

lemma hid_finish_out:
  "hid_finish k c h = Some (r, h') \<Longrightarrow> usb_out h' = usb_out h \<and> buffer_status h' = EMPTY"
  using cid_del_frame [of c h]
  by (auto simp: hid_finish_def Let_def buffer_reset_def buffer_status_def)

lemma ping_echo:
  assumes "idle_channel c h" "length xs \<le> CTAPHID_BUFFER_SIZE"
  shows "\<exists>h'. hid_feed app (hid_frames c CTAPHID_PING (of_nat (length xs)) xs) h = Some h'
    \<and> usb_out h' = usb_out h @ hid_frames c CTAPHID_PING (of_nat (length xs)) xs
    \<and> buffer_status h' = EMPTY"
proof -
  have m: "message_cmd CTAPHID_PING" by (simp add: message_cmd_def hid_cmd_defs)
  obtain h2 where f: "hid_feed app (hid_frames c CTAPHID_PING (of_nat (length xs)) xs) h
      = map_option snd (hid_dispatch app CTAPHID_PING c (of_nat (length xs)) h2)"
    "transfer c CTAPHID_PING xs (length xs) h2" "usb_out h2 = usb_out h"
    using feed_frames [OF assms(1) m, of xs app] assms(2)
    by (auto simp: CTAPHID_BUFFER_SIZE_def same_io_def)
  have "unat (of_nat (length xs) :: u16) = length xs"
    using assms(2) by (intro unat_of_nat_small) (simp add: CTAPHID_BUFFER_SIZE_def)
  then have t: "take (unat (of_nat (length xs) :: u16)) (ctap_buffer h2) = xs"
    using f(2) by (simp add: transfer_def)
  obtain r h' where d: "hid_finish CTAPHID_PING c
      (h2\<lparr>usb_out := usb_out h2 @ hid_frames c CTAPHID_PING (of_nat (length xs)) xs\<rparr>) = Some (r, h')"
    by (simp add: hid_finish_def Let_def)
  have "hid_dispatch app CTAPHID_PING c (of_nat (length xs)) h2 = Some (r, h')"
    using t d send_frames [of c CTAPHID_PING _ xs h2]
    by (simp add: hid_dispatch_def Let_def wb_for_def) (simp add: hid_cmd_defs)
  then show ?thesis using f hid_finish_out [OF d] by simp
qed

section \<open>Properties\<close>

text \<open>C27: The byte-by-byte writer of the code sends exactly the reports the CTAPHID standard asks for,
  for every channel, command, length field and payload: one initialization report with the header and
  the first 57 bytes, then continuation reports of 59 bytes with sequence numbers counting from zero,
  the last one filled with zeros.\<close>

theorem ctaphid_send_frames:
  "ctaphid_send (ctaphid_write_buffer_init\<lparr>wb_cid := c, wb_cmd := cmd, wb_bcnt := bcnt\<rparr>) ys w
   = w\<lparr>usb_out := usb_out w @ hid_frames c cmd bcnt ys\<rparr>"
  using send_frames [of c cmd bcnt ys w] by (simp only: wb_for_def)

text \<open>Round trip. The reports of a ping of up to 1344 bytes on an idle channel, handed to the packet
  handler one after the other, are answered with the same reports; the transport is idle again
  afterwards.\<close>

theorem ctaphid_ping_echo:
  assumes "idle_channel c h" "length xs \<le> CTAPHID_BUFFER_SIZE"
  shows "\<exists>h'. hid_feed app (hid_frames c CTAPHID_PING (of_nat (length xs)) xs) h = Some h'
    \<and> usb_out h' = usb_out h @ hid_frames c CTAPHID_PING (of_nat (length xs)) xs
    \<and> buffer_status h' = EMPTY"
  using ping_echo [OF assms] .

text \<open>A device with one known channel, for the witnesses.\<close>

definition open_hid :: ctaphid where
  "open_hid = quiet_hid\<lparr>CIDS := (CIDS quiet_hid)[0 := (CIDS quiet_hid ! 0)\<lparr>cid_cid := 5\<rparr>]\<rparr>"

lemma open_hid_ok: "idle_channel 5 open_hid" "\<not> is_busy open_hid" "hid_inv open_hid"
  "timer_running open_hid" "cid_exists 5 open_hid" "cid_exists 0 open_hid"
  by (simp_all add: idle_channel_def open_hid_def quiet_hid_def hid_boot_def hid_inv_def hid_size_defs
      hid_cmd_defs timer_running_def cid_exists_def cid_index_def buffer_status_def upt_conv_Cons
      CTAPHID_BROADCAST_CID_def)

lemma ctaphid_ping_echo_witness:
  "idle_channel 5 open_hid \<and> (\<exists>h'. hid_feed idle_app (hid_frames 5 CTAPHID_PING 3 [1, 2, 3]) open_hid = Some h'
     \<and> usb_out h' = usb_out open_hid @ hid_frames 5 CTAPHID_PING 3 [1, 2, 3] \<and> buffer_status h' = EMPTY)"
  using ctaphid_ping_echo [OF open_hid_ok(1), of "[1, 2, 3]" idle_app] open_hid_ok(1)
  by (simp add: CTAPHID_BUFFER_SIZE_def)

text \<open>C28: The reports of a CBOR request on an idle channel call the CTAP layer exactly once, on a state
  whose buffer holds the request; when that call returns, its status byte and response follow whatever
  the call itself has sent, in standard reports on the same channel, and the transport is idle
  again.\<close>

theorem ctaphid_cbor_request:
  assumes "idle_channel c h" "\<not> is_busy h" "xs \<noteq> []" "length xs \<le> CTAPHID_BUFFER_SIZE"
  shows "\<exists>h2. take (length xs) (ctap_buffer h2) = xs \<and> usb_out h2 = usb_out h
    \<and> (\<forall>ret resp h3. app_ctap_request app (of_nat (length xs)) h2 = Some (ret, resp, h3)
          \<and> length resp < 65535 \<longrightarrow>
        (\<exists>h'. hid_feed app (hid_frames c CTAPHID_CBOR (of_nat (length xs)) xs) h = Some h'
          \<and> usb_out h' = usb_out h3 @
              hid_frames c CTAPHID_CBOR (of_nat (length resp + 1)) (ctap_error_code ret # resp)
          \<and> buffer_status h' = EMPTY))"
proof -
  have m: "message_cmd CTAPHID_CBOR" by (simp add: message_cmd_def hid_cmd_defs)
  obtain g where f: "hid_feed app (hid_frames c CTAPHID_CBOR (of_nat (length xs)) xs) h
      = map_option snd (hid_dispatch app CTAPHID_CBOR c (of_nat (length xs)) g)"
    "transfer c CTAPHID_CBOR xs (length xs) g" "usb_out g = usb_out h" "\<not> is_busy g"
    using feed_frames [OF assms(1) m, of xs app] assms(2,4)
    by (auto simp: CTAPHID_BUFFER_SIZE_def same_io_def)
  have "unat (of_nat (length xs) :: u16) = length xs"
    using assms(4) by (intro unat_of_nat_small) (simp add: CTAPHID_BUFFER_SIZE_def)
  then have nz: "(of_nat (length xs) :: u16) \<noteq> 0" using assms(3) by auto
  define h2 where "h2 = g\<lparr>is_busy := True\<rparr>"
  have "\<exists>h'. hid_feed app (hid_frames c CTAPHID_CBOR (of_nat (length xs)) xs) h = Some h'
      \<and> usb_out h' = usb_out h3 @
          hid_frames c CTAPHID_CBOR (of_nat (length resp + 1)) (ctap_error_code ret # resp)
      \<and> buffer_status h' = EMPTY"
    if r: "app_ctap_request app (of_nat (length xs)) h2 = Some (ret, resp, h3)" "length resp < 65535"
    for ret resp h3
  proof -
    let ?wb = "wb_for c CTAPHID_CBOR (of_nat (length resp + 1))"
    obtain wb2 g2 where w: "ctaphid_write ?wb (Some [ctap_error_code ret]) h3 = (wb2, g2)" by force
    have snd2: "ctaphid_send wb2 resp g2 = h3\<lparr>usb_out := usb_out h3 @
        hid_frames c CTAPHID_CBOR (of_nat (length resp + 1)) (ctap_error_code ret # resp)\<rparr>" (is "_ = ?h4")
      using send_frames [of c CTAPHID_CBOR "of_nat (length resp + 1)" "ctap_error_code ret # resp" h3] w
        write_flush_append [of "[ctap_error_code ret]" resp "(?wb, h3)"]
      by (simp add: ctaphid_send_flush ctaphid_write_def)
    obtain k h' where d: "hid_finish CTAPHID_CBOR c (?h4\<lparr>is_busy := False\<rparr>) = Some (k, h')"
      by (simp add: hid_finish_def Let_def)
    have "hid_cbor app (ctaphid_write_buffer_init\<lparr>wb_cid := c, wb_cmd := CTAPHID_CBOR\<rparr>)
        (of_nat (length xs)) g = Some (k, h')"
      using nz f(4) r w snd2 d unfolding hid_cbor_def Let_def
      by (simp add: h2_def wb_for_def ctaphid_write_buffer_init_def)
    then have "hid_dispatch app CTAPHID_CBOR c (of_nat (length xs)) g = Some (k, h')"
      by (simp add: hid_dispatch_def Let_def) (simp add: hid_cmd_defs)
    then show ?thesis using f(1) hid_finish_out [OF d] by simp
  qed
  moreover have "take (length xs) (ctap_buffer h2) = xs" "usb_out h2 = usb_out h"
    using f by (simp_all add: h2_def transfer_def)
  ultimately show ?thesis by blast
qed

lemma ctaphid_cbor_request_witness:
  "idle_channel 5 open_hid \<and> \<not> is_busy open_hid
   \<and> (\<exists>h2. take 1 (ctap_buffer h2) = [4] \<and> usb_out h2 = usb_out open_hid
    \<and> (\<forall>ret resp h3. app_ctap_request (idle_app :: ctaphid hid_app) 1 h2 = Some (ret, resp, h3) \<and> length resp < 65535 \<longrightarrow>
        (\<exists>h'. hid_feed idle_app (hid_frames 5 CTAPHID_CBOR 1 [4]) open_hid = Some h'
          \<and> usb_out h' = usb_out h3 @
              hid_frames 5 CTAPHID_CBOR (of_nat (length resp + 1)) (ctap_error_code ret # resp)
          \<and> buffer_status h' = EMPTY)))"
  using ctaphid_cbor_request [OF open_hid_ok(1,2), of "[4]" idle_app] open_hid_ok(1,2)
  by (simp add: CTAPHID_BUFFER_SIZE_def)

text \<open>A continuation packet with any other sequence number than the next one aborts the transfer: the
  host gets the error report for an invalid sequence on its channel, nothing of the packet is copied
  and the transport is idle again.\<close>

theorem ctaphid_wrong_sequence:
  assumes "transfer c cmd xs k h" "k < length xs" "c \<noteq> CTAPHID_BROADCAST_CID"
    and "is_cont_pkt p" "pkt_cid p = c" "uint (pkt_seq p) \<noteq> ctap_packet_seq h + 1"
  shows "\<exists>h'. ctaphid_handle_packet app p h = Some (0, h')
    \<and> usb_out h' = usb_out h @ hid_frames c CTAPHID_ERROR 1 [ctap_error_code CTAP1_ERR_INVALID_SEQ]
    \<and> buffer_status h' = EMPTY \<and> ctap_buffer h' = ctap_buffer h"
proof -
  have t: "cid_exists c h" "ctap_buffer_cid h = c" "unat (ctap_buffer_bcnt h) = length xs"
    "ctap_buffer_offset h = k"
    using assms(1) by (auto simp: transfer_def buffer_cid_def buffer_len_def)
  have ni: "\<not> is_init_pkt p" using assms(4) by (auto simp: is_init_pkt_def is_cont_pkt_def hid_cmd_defs)
  have st: "buffer_status h = BUFFERING" using t assms(2) by (auto simp: buffer_status_def)
  let ?g = "h\<lparr>ctap_packet_seq := ctap_packet_seq h + 1\<rparr>"
  have bp: "buffer_packet p h = (SEQUENCE_ERROR, ?g)"
    using buffer_packet_cont [OF assms(4), of h] t assms(2,6) by (simp add: Let_def)
  have "ctaphid_buffer_packet p h
      = Some ((HID_ERROR, ctap_error_code CTAP1_ERR_INVALID_SEQ, c, 0), ?g)"
    using ni assms(3,4,5) t st bp
    by (simp add: ctaphid_buffer_packet_def hid_buffer_message_pkt_def hid_buffer_known_def hid_fail_def
        buffer_cid_def Let_def)
  then have "ctaphid_handle_packet app p h = Some (0, ctaphid_send_error c
      (ctap_error_code CTAP1_ERR_INVALID_SEQ) (buffer_reset (snd (cid_del c ?g))))"
    by (simp add: ctaphid_handle_packet_def Let_def)
  moreover obtain cs where "snd (cid_del c ?g) = ?g\<lparr>CIDS := cs\<rparr>" using cid_del_frame by blast
  ultimately show ?thesis
    by (simp add: send_error_frames buffer_reset_def buffer_status_def)
qed

text \<open>A device in the middle of a transfer, for the witnesses.\<close>

definition mid_hid :: ctaphid where
  "mid_hid = open_hid\<lparr>ctap_buffer_cid := 5, ctap_buffer_cmd := CTAPHID_PING, ctap_buffer_bcnt := 60,
             ctap_buffer_offset := 57, ctap_packet_seq := -1\<rparr>"

lemma mid_hid_ok: "transfer 5 CTAPHID_PING (replicate 60 0) 57 mid_hid" "ctap_packet_seq mid_hid = -1"
  using open_hid_ok cid_exists_cong [of mid_hid open_hid]
  by (simp_all add: mid_hid_def transfer_def buffer_cid_def buffer_cmd_def buffer_len_def hid_inv_def
      hid_cmd_defs timer_running_def) (simp add: open_hid_def quiet_hid_def hid_boot_def hid_size_defs)

lemma ctaphid_wrong_sequence_witness:
  "transfer 5 CTAPHID_PING (replicate 60 0) 57 mid_hid
    \<and> (\<exists>h'. ctaphid_handle_packet idle_app ([5, 0, 0, 0, 1] @ replicate 59 7) mid_hid = Some (0, h')
        \<and> usb_out h' = usb_out mid_hid @
            hid_frames 5 CTAPHID_ERROR 1 [ctap_error_code CTAP1_ERR_INVALID_SEQ]
        \<and> buffer_status h' = EMPTY \<and> ctap_buffer h' = ctap_buffer mid_hid)"
proof -
  let ?p = "[5, 0, 0, 0, 1] @ replicate 59 7 :: bytes"
  have p: "is_cont_pkt ?p" "pkt_cid ?p = 5" "uint (pkt_seq ?p) \<noteq> ctap_packet_seq mid_hid + 1"
    using mid_hid_ok(2)
    by (simp_all add: is_cont_pkt_def pkt_cmd_def pkt_cid_def pkt_seq_def of_le_def TYPE_INIT_def)
  show ?thesis
    using ctaphid_wrong_sequence [OF mid_hid_ok(1) _ _ p, of idle_app] mid_hid_ok(1)
    by (simp add: CTAPHID_BROADCAST_CID_def)
qed



text \<open>An initialization packet on the broadcast channel, while one of the nine usable slots of the
  channel table is free, allocates a channel that is neither zero nor the broadcast channel, enters it
  into the table, and answers on the broadcast channel with the nonce of the host, the new channel, the
  protocol version, the firmware version and the capabilities. Any transfer under way is dropped.\<close>

theorem ctaphid_init_broadcast:
  assumes "hid_inv h" "timer_running h" "length p = 64" "is_init_pkt p" "is_broadcast p"
    and "ctaphid_packet_len p = 8" "i < CID_MAX - 1" "cid_busy (CIDS h ! i) = 0"
  shows "\<exists>c h'. ctaphid_handle_packet app p h = Some (0, h') \<and> c \<noteq> 0 \<and> c \<noteq> CTAPHID_BROADCAST_CID
    \<and> cid_exists c h' \<and> buffer_status h' = EMPTY
    \<and> usb_out h' = usb_out h @ hid_frames CTAPHID_BROADCAST_CID CTAPHID_INIT 17
        (take 8 (pkt_init_payload p) @ le32 c @ [CTAPHID_PROTOCOL_VERSION, APP_VERSION_MAJ,
           APP_VERSION_MIN, APP_VERSION_PATCH, CTAP_CAPABILITIES])"
proof -
  have cid: "pkt_cid p = CTAPHID_BROADCAST_CID" "pkt_cid p \<noteq> 0"
    using assms(5) by (simp_all add: is_broadcast_def CTAPHID_BROADCAST_CID_def)
  obtain c g where new: "get_new_cid (ctaphid_init h) = (c, g)" by force
  then have c: "c \<noteq> 0" "c \<noteq> CTAPHID_BROADCAST_CID" and g: "CIDS g = CIDS h" "timer_running g"
    "usb_out g = usb_out h" "ctap_buffer_bcnt g = 0"
    using get_new_cid_valid [of "cid_counter h"] assms(2)
    by (auto simp: get_new_cid_def ctaphid_init_def buffer_reset_def Let_def timer_running_def
        CTAPHID_BROADCAST_CID_def)
  have "\<exists>i \<in> set [0..<CID_MAX - 1]. cid_busy (CIDS g ! i) = 0" using assms(7,8) g(1) by auto
  from find_exists [OF this] obtain j where
    j: "List.find (\<lambda>i. cid_busy (CIDS g ! i) = 0) [0..<CID_MAX - 1] = Some j" "j < CID_MAX - 1"
    by auto
  obtain g2 where add: "add_cid c g = Some (0, g2)" "cid_exists c g2" "usb_out g2 = usb_out h"
    "ctap_buffer_bcnt g2 = 0"
    using add_cid_exists [OF j g(2)] assms(1) g by (auto simp: hid_inv_def)
  let ?g3 = "send_init_response CTAPHID_BROADCAST_CID c (pkt_init_payload p) g2"
  obtain cs where cs: "snd (cid_del c ?g3) = ?g3\<lparr>CIDS := cs\<rparr>" "\<And>i. cid_cid (cs ! i) = cid_cid (CIDS ?g3 ! i)"
    using cid_del_frame by blast
  have out: "?g3 = g2\<lparr>usb_out := usb_out h @ hid_frames CTAPHID_BROADCAST_CID CTAPHID_INIT 17
        (take 8 (pkt_init_payload p) @ le32 c @ [CTAPHID_PROTOCOL_VERSION, APP_VERSION_MAJ,
           APP_VERSION_MIN, APP_VERSION_PATCH, CTAP_CAPABILITIES])\<rparr>"
    using add(3) by (simp add: send_init_response_def send_frames [unfolded wb_for_def])
  have "ctaphid_handle_packet app p h = Some (0, snd (cid_del c ?g3))"
    using assms(4-6) cid new add(1)
    by (simp add: ctaphid_handle_packet_def ctaphid_buffer_packet_def hid_buffer_init_pkt_def
        hid_init_reply_def hid_ignore_def Let_def)
  moreover have "cid_exists c (?g3\<lparr>CIDS := cs\<rparr>)"
    using add(2) cs(2) out by (simp add: cid_exists_def cid_index_def)
  ultimately show ?thesis
    using c cs(1) out add(4) by (auto simp: buffer_status_def)
qed

lemma ctaphid_init_broadcast_witness:
  "\<exists>c h'. ctaphid_handle_packet idle_app
      ([255, 255, 255, 255, CTAPHID_INIT, 0, 8] @ replicate 57 9) quiet_hid = Some (0, h')
    \<and> c \<noteq> 0 \<and> cid_exists c h'"
proof -
  let ?p = "[255, 255, 255, 255, CTAPHID_INIT, 0, 8] @ replicate 57 9 :: bytes"
  have p: "length ?p = 64" "is_init_pkt ?p" "is_broadcast ?p" "ctaphid_packet_len ?p = 8"
    "0 < CID_MAX - 1" "cid_busy (CIDS quiet_hid ! 0) = 0"
    by (simp_all add: is_init_pkt_def is_broadcast_def pkt_cid_def of_le_def pkt_cmd_def
        CTAPHID_BROADCAST_CID_def ctaphid_packet_len_def quiet_hid_def hid_boot_def hid_size_defs)
  show ?thesis
    using ctaphid_init_broadcast [OF quiet_hid_ok(1,2) p, of idle_app] by blast
qed

end
