(* ===== verification/Apdu.thy ===== *)
theory Apdu
  imports Prelude
begin

text \<open>
  \<open>fido2/src/apdu.c\<close>: decoding of ISO 7816 command bodies. The header is read off the bytes of the
  buffer, which is at least seven bytes long whatever \<open>len\<close> says; the pointer to the command data
  is an offset into the buffer (\<open>None\<close> the null pointer).
\<close>

record APDU_STRUCT =
  apdu_cla :: byte
  apdu_ins :: byte
  apdu_p1 :: byte
  apdu_p2 :: byte
  apdu_lc :: u16
  apdu_data :: "nat option"
  apdu_le :: u32
  extended_apdu :: bool
  case_type :: byte

definition SW_WRONG_LENGTH :: u16 where "SW_WRONG_LENGTH = 0x6700"
definition SW_COND_USE_NOT_SATISFIED :: u16 where "SW_COND_USE_NOT_SATISFIED = 0x6985"

definition apdu_header :: "bytes \<Rightarrow> APDU_STRUCT" where
  "apdu_header data = \<lparr>apdu_cla = data ! 0 AND 0xef, apdu_ins = data ! 1, apdu_p1 = data ! 2,
     apdu_p2 = data ! 3, apdu_lc = 0, apdu_data = None, apdu_le = 0, extended_apdu = False,
     case_type = 0x00\<rparr>"

text \<open>An expected length of zero stands for the largest length of its encoding.\<close>

definition le_or :: "u32 \<Rightarrow> u32 \<Rightarrow> u32" where "le_or le dflt = (if le = 0 then dflt else le)"

definition apdu_short :: "bytes \<Rightarrow> nat \<Rightarrow> APDU_STRUCT \<Rightarrow> APDU_STRUCT" where
  "apdu_short data len a =
     (let b0 = data ! 4;
          a = (if len = 4 then a\<lparr>case_type := 0x01\<rparr> else a);
          a = (if len = 5 then a\<lparr>case_type := 0x02, apdu_le := le_or (ucast b0) 0x100\<rparr> else a);
          a = (if len = 5 + unat b0 \<and> b0 \<noteq> 0 then a\<lparr>case_type := 0x03, apdu_lc := ucast b0\<rparr> else a)
      in if len = 5 + unat b0 + 1 \<and> b0 \<noteq> 0
         then a\<lparr>case_type := 0x04, apdu_lc := ucast b0, apdu_le := le_or (ucast (data ! (len - 1))) 0x100\<rparr>
         else a)"

definition apdu_le16 :: "bytes \<Rightarrow> nat \<Rightarrow> u32" where
  "apdu_le16 data len =
     le_or (push_bit 8 (ucast (data ! (len - 2))) + ucast (data ! (len - 1))) 0x10000"

definition apdu_extended :: "bytes \<Rightarrow> nat \<Rightarrow> u16 \<Rightarrow> APDU_STRUCT \<Rightarrow> APDU_STRUCT" where
  "apdu_extended data len extlen a =
     (let a = (if len = 7 then a\<lparr>case_type := 0x12, extended_apdu := True,
                 apdu_le := le_or (ucast extlen) 0x10000\<rparr> else a);
          a = (if len = 7 + unat extlen then a\<lparr>case_type := 0x13, extended_apdu := True,
                 apdu_lc := extlen\<rparr> else a);
          a = (if len = 7 + unat extlen + 2 then a\<lparr>case_type := 0x14, extended_apdu := True,
                 apdu_lc := extlen, apdu_le := apdu_le16 data len\<rparr> else a)
      in if len = 7 + unat extlen + 3 \<and> data ! (len - 3) = 0
         then a\<lparr>case_type := 0x24, extended_apdu := True, apdu_lc := extlen,
                 apdu_le := apdu_le16 data len\<rparr>
         else a)"

text \<open>The tail of the function: an unrecognised case is refused, and the data pointer is set.\<close>

definition apdu_finish :: "APDU_STRUCT \<Rightarrow> u16 \<times> APDU_STRUCT" where
  "apdu_finish a =
     (if case_type a = 0 then (SW_COND_USE_NOT_SATISFIED, a)
      else (0, if apdu_lc a \<noteq> 0 then a\<lparr>apdu_data := Some (if extended_apdu a then 7 else 5)\<rparr> else a))"

definition apdu_decode :: "bytes \<Rightarrow> nat \<Rightarrow> u16 \<times> APDU_STRUCT" where
  "apdu_decode data len =
     (let b0 = data ! 4; a = apdu_short data len (apdu_header data) in
      if len \<ge> 7 \<and> b0 = 0 then
        let extlen = push_bit 8 (ucast (data ! 5)) + ucast (data ! 6) in
        if len - 7 < unat extlen then (SW_WRONG_LENGTH, a)
        else apdu_finish (apdu_extended data len extlen a)
      else if len > 5 \<and> len - 5 < unat b0 then (SW_WRONG_LENGTH, a)
      else apdu_finish a)"

section \<open>Lemmas\<close>

lemmas apdu_defs = apdu_decode_def apdu_finish_def apdu_short_def apdu_extended_def apdu_header_def Let_def

lemma unat_byte_u16 [simp]: "unat (ucast (b :: byte) :: u16) = unat b"
  by (simp add: unat_ucast_up)

section \<open>Properties\<close>

text \<open>C30: When decoding succeeds and announces command data, the data lies inside the received command:
  its offset is behind the header and offset plus length is at most the command length.\<close>

theorem apdu_data_in_bounds:
  assumes "apdu_decode data len = (0, a)"
  shows "case apdu_data a of None \<Rightarrow> apdu_lc a = 0
    | Some off \<Rightarrow> 5 \<le> off \<and> off + unat (apdu_lc a) \<le> len"
  using assms
  by (auto simp: apdu_defs SW_WRONG_LENGTH_def SW_COND_USE_NOT_SATISFIED_def split: if_splits)

lemma apdu_data_in_bounds_witness:
  "apdu_decode [0, 1, 0, 0, 2, 9, 8] 7 = (0, snd (apdu_decode [0, 1, 0, 0, 2, 9, 8] 7))
   \<and> (case apdu_data (snd (apdu_decode [0, 1, 0, 0, 2, 9, 8] 7)) of
        None \<Rightarrow> apdu_lc (snd (apdu_decode [0, 1, 0, 0, 2, 9, 8] 7)) = 0
      | Some off \<Rightarrow> 5 \<le> off \<and> off + unat (apdu_lc (snd (apdu_decode [0, 1, 0, 0, 2, 9, 8] 7))) \<le> 7)"
proof -
  have "fst (apdu_decode [0, 1, 0, 0, 2, 9, 8] 7) = 0" by (simp add: apdu_defs)
  then have "apdu_decode [0, 1, 0, 0, 2, 9, 8] 7 = (0, snd (apdu_decode [0, 1, 0, 0, 2, 9, 8] 7))"
    by (metis prod.collapse)
  then show ?thesis using apdu_data_in_bounds by blast
qed

text \<open>The extended case 2 (an expected length and no data) that the code has a branch for is never
  reported as such: a seven-byte command with a non-zero extended length is refused with the
  wrong-length status, and one with length zero is reported as case 3 with no data.\<close>

theorem apdu_case_2e_unreachable:
  assumes "data ! 4 = 0"
  shows "fst (apdu_decode data 7) = (if data ! 5 = 0 \<and> data ! 6 = 0 then 0 else SW_WRONG_LENGTH)
    \<and> case_type (snd (apdu_decode data 7)) \<noteq> 0x12"
proof -
  let ?e = "push_bit 8 (ucast (data ! 5)) + ucast (data ! 6) :: u16"
  have "unat ?e = 0 \<longleftrightarrow> data ! 5 = 0 \<and> data ! 6 = 0"
    unfolding unat_two_bytes by (simp add: unat_eq_0)
  then show ?thesis
    using assms by (auto simp: apdu_defs)
qed

lemma apdu_case_2e_unreachable_witness:
  "fst (apdu_decode [0, 3, 0, 0, 0, 1, 0] 7) = SW_WRONG_LENGTH"
  using apdu_case_2e_unreachable [of "[0, 3, 0, 0, 0, 1, 0]"] by simp

end
