(* ===== verification/Sha256.thy ===== *)
theory Sha256
  imports Prelude
begin

text \<open>
  \<open>crypto/sha256/sha256.c\<close>: the byte-oriented SHA-256 of the firmware. The context structure is a
  record, the loops over the 64-byte block are folds over their index range, and the machine words are
  32 bits wide with wrap-around addition. The streaming functions are shown to compute the padded,
  block-wise hash of FIPS 180-4 for messages of every length.
\<close>

section \<open>The code\<close>

definition ROTRIGHT :: "u32 \<Rightarrow> nat \<Rightarrow> u32" where
  "ROTRIGHT a b = drop_bit b a OR push_bit (32 - b) a"

definition CH :: "u32 \<Rightarrow> u32 \<Rightarrow> u32 \<Rightarrow> u32" where "CH x y z = (x AND y) XOR (NOT x AND z)"
definition MAJ :: "u32 \<Rightarrow> u32 \<Rightarrow> u32 \<Rightarrow> u32" where
  "MAJ x y z = (x AND y) XOR (x AND z) XOR (y AND z)"
definition EP0 :: "u32 \<Rightarrow> u32" where "EP0 x = ROTRIGHT x 2 XOR ROTRIGHT x 13 XOR ROTRIGHT x 22"
definition EP1 :: "u32 \<Rightarrow> u32" where "EP1 x = ROTRIGHT x 6 XOR ROTRIGHT x 11 XOR ROTRIGHT x 25"
definition SIG0 :: "u32 \<Rightarrow> u32" where "SIG0 x = ROTRIGHT x 7 XOR ROTRIGHT x 18 XOR drop_bit 3 x"
definition SIG1 :: "u32 \<Rightarrow> u32" where "SIG1 x = ROTRIGHT x 17 XOR ROTRIGHT x 19 XOR drop_bit 10 x"

definition sha256_k :: "u32 list" where
  "sha256_k = concat [
     [0x428a2f98, 0x71374491, 0xb5c0fbcf, 0xe9b5dba5], [0x3956c25b, 0x59f111f1, 0x923f82a4, 0xab1c5ed5],
     [0xd807aa98, 0x12835b01, 0x243185be, 0x550c7dc3], [0x72be5d74, 0x80deb1fe, 0x9bdc06a7, 0xc19bf174],
     [0xe49b69c1, 0xefbe4786, 0x0fc19dc6, 0x240ca1cc], [0x2de92c6f, 0x4a7484aa, 0x5cb0a9dc, 0x76f988da],
     [0x983e5152, 0xa831c66d, 0xb00327c8, 0xbf597fc7], [0xc6e00bf3, 0xd5a79147, 0x06ca6351, 0x14292967],
     [0x27b70a85, 0x2e1b2138, 0x4d2c6dfc, 0x53380d13], [0x650a7354, 0x766a0abb, 0x81c2c92e, 0x92722c85],
     [0xa2bfe8a1, 0xa81a664b, 0xc24b8b70, 0xc76c51a3], [0xd192e819, 0xd6990624, 0xf40e3585, 0x106aa070],
     [0x19a4c116, 0x1e376c08, 0x2748774c, 0x34b0bcb5], [0x391c0cb3, 0x4ed8aa4a, 0x5b9cca4f, 0x682e6ff3],
     [0x748f82ee, 0x78a5636f, 0x84c87814, 0x8cc70208], [0x90befffa, 0xa4506ceb, 0xbef9a3f7, 0xc67178f2]]"

record SHA256_CTX =
  sha_data :: bytes
  sha_datalen :: u32
  sha_bitlen :: u64
  sha_state :: "u32 list"

text \<open>The message schedule: sixteen words read most significant byte first, then forty-eight computed
  ones.\<close>

definition sha256_word :: "bytes \<Rightarrow> nat \<Rightarrow> u32" where
  "sha256_word data j = push_bit 24 (ucast (data ! j)) OR push_bit 16 (ucast (data ! (j + 1)))
     OR push_bit 8 (ucast (data ! (j + 2))) OR ucast (data ! (j + 3))"

definition sha256_schedule :: "bytes \<Rightarrow> u32 list" where
  "sha256_schedule data =
     fold (\<lambda>i m. m @ [SIG1 (m ! (i - 2)) + m ! (i - 7) + SIG0 (m ! (i - 15)) + m ! (i - 16)])
       [16..<64] (map (\<lambda>i. sha256_word data (4 * i)) [0..<16])"

type_synonym sha_vars = "u32 \<times> u32 \<times> u32 \<times> u32 \<times> u32 \<times> u32 \<times> u32 \<times> u32"

definition sha256_round :: "u32 list \<Rightarrow> nat \<Rightarrow> sha_vars \<Rightarrow> sha_vars" where
  "sha256_round m i s =
     (let (a, b, c, d, e, f, g, h) = s;
          t1 = h + EP1 e + CH e f g + sha256_k ! i + m ! i;
          t2 = EP0 a + MAJ a b c
      in (t1 + t2, a, b, c, d + t1, e, f, g))"

definition sha256_compress :: "u32 list \<Rightarrow> bytes \<Rightarrow> u32 list" where
  "sha256_compress st data =
     (let (a, b, c, d, e, f, g, h) =
            fold (sha256_round (sha256_schedule data)) [0..<64]
              (st ! 0, st ! 1, st ! 2, st ! 3, st ! 4, st ! 5, st ! 6, st ! 7)
      in [st ! 0 + a, st ! 1 + b, st ! 2 + c, st ! 3 + d, st ! 4 + e, st ! 5 + f, st ! 6 + g, st ! 7 + h])"

definition sha256_transform :: "SHA256_CTX \<Rightarrow> bytes \<Rightarrow> SHA256_CTX" where
  "sha256_transform ctx data = ctx\<lparr>sha_state := sha256_compress (sha_state ctx) data\<rparr>"

definition sha256_H0 :: "u32 list" where
  "sha256_H0 = [0x6a09e667, 0xbb67ae85, 0x3c6ef372, 0xa54ff53a, 0x510e527f, 0x9b05688c, 0x1f83d9ab,
     0x5be0cd19]"

definition sha256_init :: "SHA256_CTX \<Rightarrow> SHA256_CTX" where
  "sha256_init ctx = ctx\<lparr>sha_datalen := 0, sha_bitlen := 0, sha_state := sha256_H0\<rparr>"

definition sha256_update_byte :: "byte \<Rightarrow> SHA256_CTX \<Rightarrow> SHA256_CTX" where
  "sha256_update_byte b ctx =
     (let ctx = ctx\<lparr>sha_data := (sha_data ctx)[unat (sha_datalen ctx) := b],
                    sha_datalen := sha_datalen ctx + 1\<rparr>
      in if sha_datalen ctx = 64 then
           let ctx = sha256_transform ctx (sha_data ctx)
           in ctx\<lparr>sha_bitlen := sha_bitlen ctx + 512, sha_datalen := 0\<rparr>
         else ctx)"

definition sha256_update :: "SHA256_CTX \<Rightarrow> bytes \<Rightarrow> SHA256_CTX" where
  "sha256_update ctx data = fold sha256_update_byte data ctx"

text \<open>Padding, length and output. The two padding loops write a byte \<open>0x80\<close> and then zeros up to
  the end of the range.\<close>

definition sha256_pad_buffer :: "SHA256_CTX \<Rightarrow> SHA256_CTX" where
  "sha256_pad_buffer ctx =
     (let i = unat (sha_datalen ctx) in
      if sha_datalen ctx < 56
      then ctx\<lparr>sha_data := blit (sha_data ctx) i (0x80 # replicate (56 - (i + 1)) 0)\<rparr>
      else let ctx = ctx\<lparr>sha_data := blit (sha_data ctx) i (0x80 # replicate (64 - (i + 1)) 0)\<rparr>;
               ctx = sha256_transform ctx (sha_data ctx)
           in ctx\<lparr>sha_data := blit (sha_data ctx) 0 (replicate 56 0)\<rparr>)"

definition sha256_append_length :: "SHA256_CTX \<Rightarrow> SHA256_CTX" where
  "sha256_append_length ctx =
     (let n = sha_bitlen ctx + ucast (sha_datalen ctx * 8)
      in ctx\<lparr>sha_bitlen := n, sha_data := (sha_data ctx)
           [63 := ucast n, 62 := ucast (drop_bit 8 n), 61 := ucast (drop_bit 16 n),
            60 := ucast (drop_bit 24 n), 59 := ucast (drop_bit 32 n), 58 := ucast (drop_bit 40 n),
            57 := ucast (drop_bit 48 n), 56 := ucast (drop_bit 56 n)]\<rparr>)"

definition sha256_output :: "u32 list \<Rightarrow> bytes" where
  "sha256_output st = concat (map (\<lambda>s. map (\<lambda>i. ucast (drop_bit (24 - i * 8) s AND 0xff)) [0..<4]) (take 8 st))"

definition sha256_final :: "SHA256_CTX \<Rightarrow> SHA256_CTX \<times> bytes" where
  "sha256_final ctx =
     (let ctx = sha256_append_length (sha256_pad_buffer ctx);
          ctx = sha256_transform ctx (sha_data ctx)
      in (ctx, sha256_output (sha_state ctx)))"

section \<open>Specification\<close>

text \<open>FIPS 180-4: the padded message, its 64-byte blocks absorbed one after the other.\<close>

definition sha256_padding :: "nat \<Rightarrow> bytes" where
  "sha256_padding n = 0x80 # replicate ((119 - n mod 64) mod 64) 0 @ be64 (of_nat (8 * n))"

function absorb :: "u32 list \<Rightarrow> bytes \<Rightarrow> u32 list" where
  "absorb st xs = (if length xs < 64 then st else absorb (sha256_compress st (take 64 xs)) (drop 64 xs))"
  by auto
termination by (relation "measure (\<lambda>(st, xs). length xs)") auto

declare absorb.simps [simp del]

definition SHA256 :: "bytes \<Rightarrow> bytes" where
  "SHA256 msg = concat (map be32 (absorb sha256_H0 (msg @ sha256_padding (length msg))))"

section \<open>The streaming functions follow the specification\<close>

text \<open>The context after \<open>msg\<close> has been fed: its whole blocks are absorbed, the rest is buffered.\<close>

definition sha_fed :: "SHA256_CTX \<Rightarrow> bytes \<Rightarrow> bool" where
  "sha_fed ctx msg = (\<exists>pre. msg = pre @ take (unat (sha_datalen ctx)) (sha_data ctx)
     \<and> length pre mod 64 = 0 \<and> sha_state ctx = absorb sha256_H0 pre
     \<and> sha_bitlen ctx = of_nat (8 * length pre) \<and> unat (sha_datalen ctx) < 64
     \<and> length (sha_data ctx) = 64)"

lemma absorb_append:
  assumes "length xs mod 64 = 0"
  shows "absorb st (xs @ ys) = absorb (absorb st xs) ys"
  using assms
proof (induction st xs rule: absorb.induct)
  case (1 st xs)
  show ?case
  proof (cases "length xs < 64")
    case True
    then have "xs = []" using 1(2) by simp
    then show ?thesis by (simp add: absorb.simps [of st "[]"])
  next
    case False
    have "length (drop 64 xs) mod 64 = 0" using 1(2) False le_mod_geq [of 64 "length xs"] by simp
    then show ?thesis
      using 1(1) [OF False] False
      by (simp add: absorb.simps [of st xs] absorb.simps [of st "xs @ ys"])
  qed
qed

lemma absorb_block: "length b = 64 \<Longrightarrow> absorb st b = sha256_compress st b"
  by (simp add: absorb.simps [of st b] absorb.simps [of _ "[]"])

lemma absorb_snoc_block:
  "length pre mod 64 = 0 \<Longrightarrow> length b = 64 \<Longrightarrow> absorb st (pre @ b) = sha256_compress (absorb st pre) b"
  by (simp add: absorb_append absorb_block)

lemma sha_fed_init:
  assumes "length (sha_data ctx) = 64"
  shows "sha_fed (sha256_init ctx) []"
  using assms by (auto simp: sha_fed_def sha256_init_def absorb.simps)

lemma sha_fed_byte:
  assumes "sha_fed ctx msg"
  shows "sha_fed (sha256_update_byte b ctx) (msg @ [b])"
proof -
  let ?n = "unat (sha_datalen ctx)"
  obtain pre where p: "msg = pre @ take ?n (sha_data ctx)" "length pre mod 64 = 0"
    "sha_state ctx = absorb sha256_H0 pre" "sha_bitlen ctx = of_nat (8 * length pre)" "?n < 64"
    "length (sha_data ctx) = 64" using assms by (auto simp: sha_fed_def)
  have inc: "unat (sha_datalen ctx + 1) = Suc ?n" using unat_Suc_word [OF p(5)] by simp
  have full: "sha_datalen ctx + 1 = 64 \<longleftrightarrow> Suc ?n = 64"
    using inc by (auto simp: word_unat_eq_iff)
  have tk: "take (Suc ?n) ((sha_data ctx)[?n := b]) = take ?n (sha_data ctx) @ [b]"
    using p(5,6) by (simp add: take_Suc_conv_app_nth)
  show ?thesis
  proof (cases "Suc ?n = 64")
    case True
    let ?blk = "(sha_data ctx)[?n := b]"
    have whole: "?blk = take ?n (sha_data ctx) @ [b]" using tk True p(6) by (metis take_all_iff length_list_update le_refl)
    have "length pre + 64 = length (pre @ ?blk)" using p(6) by simp
    moreover have "absorb sha256_H0 (pre @ ?blk) = sha256_compress (absorb sha256_H0 pre) ?blk"
      using p(2,6) by (intro absorb_snoc_block) simp_all
    ultimately show ?thesis
      unfolding sha_fed_def
      using True full p whole
      by (intro exI [of _ "pre @ ?blk"])
        (simp add: sha256_update_byte_def Let_def sha256_transform_def)
  next
    case False
    then show ?thesis
      unfolding sha_fed_def
      using full p inc tk
      by (intro exI [of _ pre]) (simp add: sha256_update_byte_def Let_def)
  qed
qed

lemma sha_fed_update: "sha_fed ctx msg \<Longrightarrow> sha_fed (sha256_update ctx xs) (msg @ xs)"
proof (induction xs arbitrary: ctx msg)
  case (Cons x xs)
  then show ?case using Cons.IH [OF sha_fed_byte [OF Cons.prems, of x]] by (simp add: sha256_update_def)
qed (simp add: sha256_update_def)

lemma sha256_output_be32:
  assumes "length st = 8"
  shows "sha256_output st = concat (map be32 st)"
proof -
  have "map (\<lambda>i. ucast (drop_bit (24 - i * 8) s AND 0xff)) [0..<4] = be32 s" for s :: u32
  proof -
    have m: "ucast (v AND 0xff) = (ucast v :: byte)" for v :: u32
    proof (rule bit_word_eqI)
      fix n assume n: "n < LENGTH(8)"
      have "(0xff :: u32) = mask 8" by (simp add: mask_eq_exp_minus_1)
      then have "bit (0xff :: u32) n" using n by (simp only: bit_mask_iff) simp
      then show "bit (ucast (v AND 0xff) :: byte) n = bit (ucast v :: byte) n"
        using n by (simp only: bit_ucast_iff bit_and_iff) blast
    qed
    show ?thesis by (simp add: m be32_def upt_conv_Cons)
  qed
  then show ?thesis using assms by (simp add: sha256_output_def)
qed

lemma length_compress [simp]: "length (sha256_compress st b) = 8"
  by (simp add: sha256_compress_def Let_def split: prod.splits)

lemma length_absorb: "length st = 8 \<Longrightarrow> length (absorb st xs) = 8"
  by (induction st xs rule: absorb.induct) (subst absorb.simps, simp)

text \<open>The buffer after the length has been written: its first 56 bytes and the eight length bytes.\<close>

lemma set_last8:
  assumes "length buf = 64"
  shows "buf[63 := h, 62 := g, 61 := f, 60 := e, 59 := d, 58 := c, 57 := b, 56 := a]
    = take 56 buf @ [a, b, c, d, e, f, g, h]"
  using assms by (intro nth_equalityI) (auto simp: nth_list_update nth_append nth_Cons' less_diff_conv)

lemma append_length_data:
  assumes "length (sha_data ctx) = 64"
  shows "sha_data (sha256_append_length ctx) =
    take 56 (sha_data ctx) @ be64 (sha_bitlen ctx + ucast (sha_datalen ctx * 8))"
  by (simp add: sha256_append_length_def Let_def set_last8 [OF assms] be64_def)

lemma bit_count:
  assumes "unat (r :: u32) < 64" "n = l + unat r"
  shows "of_nat (8 * l) + ucast (r * 8) = (of_nat (8 * n) :: u64)"
proof -
  have "unat (r * 8) = 8 * unat r" using assms(1) by (simp add: unat_word_ariths)
  then have "(ucast (r * 8) :: u64) = of_nat (8 * unat r)"
    by (intro of_nat_unat_eq) (simp add: unat_ucast_up)
  then show ?thesis using assms(2) by (simp add: algebra_simps)
qed

lemma sha_fed_final:
  assumes "sha_fed ctx msg"
  shows "snd (sha256_final ctx) = SHA256 msg"
proof -
  let ?r = "unat (sha_datalen ctx)"
  let ?tail = "take ?r (sha_data ctx)"
  let ?len = "be64 (of_nat (8 * length msg))"
  obtain pre where p: "msg = pre @ ?tail" "length pre mod 64 = 0" "sha_state ctx = absorb sha256_H0 pre"
    "sha_bitlen ctx = of_nat (8 * length pre)" "?r < 64" "length (sha_data ctx) = 64"
    using assms by (auto simp: sha_fed_def)
  have lt: "length ?tail = ?r" using p(5,6) by simp
  have bits: "sha_bitlen ctx + ucast (sha_datalen ctx * 8) = of_nat (8 * length msg)"
    using bit_count [OF p(5), of "length msg" "length pre"] p(1,4) lt by simp
  have r: "length msg mod 64 = ?r" using p(1,2,5) lt by (simp add: mod_add_eq [symmetric])
  let ?p = "sha256_pad_buffer ctx"
  have same: "sha_datalen ?p = sha_datalen ctx" "sha_bitlen ?p = sha_bitlen ctx" "length (sha_data ?p) = 64"
    using p(5,6) by (auto simp: sha256_pad_buffer_def Let_def sha256_transform_def length_blit
        word_less_nat_alt)
  have fin: "sha_state (sha256_transform (sha256_append_length ?p) (sha_data (sha256_append_length ?p)))
      = sha256_compress (sha_state ?p) (take 56 (sha_data ?p) @ ?len)"
    using append_length_data [OF same(3)] same bits
    by (simp add: sha256_transform_def sha256_append_length_def Let_def)
  have "sha256_compress (sha_state ?p) (take 56 (sha_data ?p) @ ?len)
      = absorb sha256_H0 (msg @ sha256_padding (length msg))"
  proof (cases "?r < 56")
    case True
    have d: "take 56 (sha_data ?p) = ?tail @ 0x80 # replicate (55 - ?r) 0" "sha_state ?p = sha_state ctx"
      using True p(6) take_blit_prefix [of ?r "sha_data ctx" "0x80 # replicate (55 - ?r) 0"]
      by (simp_all add: sha256_pad_buffer_def Let_def word_less_nat_alt)
    have k: "(119 - ?r) mod 64 = 55 - ?r" using True by (simp add: mod_if)
    have "absorb sha256_H0 (pre @ ?tail @ 0x80 # replicate (55 - ?r) 0 @ ?len)
        = sha256_compress (absorb sha256_H0 pre) (?tail @ 0x80 # replicate (55 - ?r) 0 @ ?len)"
      using True lt p(2) by (intro absorb_snoc_block) simp_all
    then show ?thesis using d p(1,3) k r by (simp add: sha256_padding_def)
  next
    case False
    let ?b1 = "?tail @ 0x80 # replicate (63 - ?r) 0"
    have d: "take 56 (sha_data ?p) = replicate 56 0" "sha_state ?p = sha256_compress (sha_state ctx) ?b1"
      using False p(5,6)
      by (simp_all add: sha256_pad_buffer_def Let_def word_less_nat_alt blit_def sha256_transform_def)
    have k: "(119 - ?r) mod 64 = (63 - ?r) + 56" using False p(5) by simp
    have "absorb sha256_H0 ((pre @ ?b1) @ replicate 56 0 @ ?len)
        = sha256_compress (absorb sha256_H0 (pre @ ?b1)) (replicate 56 0 @ ?len)"
      using p(2,5) lt by (intro absorb_snoc_block) (simp_all add: mod_add_eq [symmetric])
    also have "absorb sha256_H0 (pre @ ?b1) = sha256_compress (absorb sha256_H0 pre) ?b1"
      using p(2,5) lt by (intro absorb_snoc_block) simp_all
    finally have a: "absorb sha256_H0 ((pre @ ?b1) @ replicate 56 0 @ ?len)
        = sha256_compress (sha256_compress (absorb sha256_H0 pre) ?b1) (replicate 56 0 @ ?len)" .
    have z: "replicate ((119 - ?r) mod 64) 0 = replicate (63 - ?r) (0 :: byte) @ replicate 56 0"
      by (simp only: k replicate_add)
    have pad: "sha256_padding (length msg) = 0x80 # replicate (63 - ?r) 0 @ replicate 56 0 @ ?len"
      unfolding sha256_padding_def r z by simp
    have "msg @ X = (pre @ ?tail) @ X" for X using p(1) by simp
    then have "msg @ sha256_padding (length msg) = (pre @ ?b1) @ replicate 56 0 @ ?len"
      unfolding pad by simp
    then show ?thesis using a d p(3) by simp
  qed
  then show ?thesis
    using fin by (simp add: sha256_final_def Let_def SHA256_def sha256_output_be32 length_absorb
        sha256_H0_def)
qed

lemma length_SHA256 [simp]: "length (SHA256 msg) = 32"
proof -
  have "length (absorb sha256_H0 xs) = 8" for xs by (simp add: length_absorb sha256_H0_def)
  moreover have "length (concat (map be32 st)) = 4 * length st" for st by (induction st) simp_all
  ultimately show ?thesis by (simp add: SHA256_def)
qed

lemma length_sha256_final: "sha_fed ctx msg \<Longrightarrow> length (sha_data (fst (sha256_final ctx))) = 64"
  by (auto simp: sha_fed_def sha256_final_def sha256_append_length_def sha256_pad_buffer_def
      sha256_transform_def Let_def length_blit word_less_nat_alt)

section \<open>Properties\<close>



text \<open>The compression function, the message schedule and the tables give the published digest of the
  three-byte message "abc".\<close>

theorem sha256_abc:
  "snd (sha256_final (sha256_update (sha256_init
     \<lparr>sha_data = replicate 64 0, sha_datalen = 0, sha_bitlen = 0, sha_state = []\<rparr>) [0x61, 0x62, 0x63]))
   = [0xba, 0x78, 0x16, 0xbf, 0x8f, 0x01, 0xcf, 0xea, 0x41, 0x41, 0x40, 0xde, 0x5d, 0xae, 0x22, 0x23,
      0xb0, 0x03, 0x61, 0xa3, 0x96, 0x17, 0x7a, 0x9c, 0xb4, 0x10, 0xff, 0x61, 0xf2, 0x00, 0x15, 0xad]"
  by code_simp

end
