(* ===== verification/Libc.thy ===== *)
theory Libc
  imports Prelude
begin

text \<open>
  The memory and string routines of newlib that the firmware links
  (\<open>targets/tkey/libc/newlib/libc/string\<close>). The copy routines work on one flat memory, so that
  overlapping source and destination are covered; the comparison routines work on the byte lists their
  arguments point to. Reading past the end of a list is \<open>None\<close> in the string routines, whose extent
  depends on a terminating zero.
\<close>

section \<open>Memory\<close>

primrec copy_forward :: "'a list \<Rightarrow> nat \<Rightarrow> nat \<Rightarrow> nat \<Rightarrow> 'a list" where
  "copy_forward mem dst src 0 = mem"
| "copy_forward mem dst src (Suc n) = copy_forward (mem[dst := mem ! src]) (dst + 1) (src + 1) n"

primrec copy_backward :: "'a list \<Rightarrow> nat \<Rightarrow> nat \<Rightarrow> nat \<Rightarrow> 'a list" where
  "copy_backward mem dst src 0 = mem"
| "copy_backward mem dst src (Suc n) = copy_backward (mem[dst + n := mem ! (src + n)]) dst src n"

definition memcpy :: "'a list \<Rightarrow> nat \<Rightarrow> nat \<Rightarrow> nat \<Rightarrow> 'a list" where
  "memcpy mem dst src n = copy_forward mem dst src n"

definition memmove :: "'a list \<Rightarrow> nat \<Rightarrow> nat \<Rightarrow> nat \<Rightarrow> 'a list" where
  "memmove mem dst src n =
     (if src < dst \<and> dst < src + n then copy_backward mem dst src n else copy_forward mem dst src n)"

primrec memset :: "'a list \<Rightarrow> nat \<Rightarrow> 'a \<Rightarrow> nat \<Rightarrow> 'a list" where
  "memset mem dst v 0 = mem"
| "memset mem dst v (Suc n) = memset (mem[dst := v]) (dst + 1) v n"

primrec memcmp :: "nat \<Rightarrow> bytes \<Rightarrow> bytes \<Rightarrow> int" where
  "memcmp 0 xs ys = 0"
| "memcmp (Suc n) xs ys =
     (if hd xs \<noteq> hd ys then uint (hd xs) - uint (hd ys) else memcmp n (tl xs) (tl ys))"

section \<open>Strings\<close>

fun strlen :: "bytes \<Rightarrow> nat option" where
  "strlen [] = None"
| "strlen (c # cs) = (if c = 0 then Some 0 else map_option Suc (strlen cs))"

fun strcmp :: "bytes \<Rightarrow> bytes \<Rightarrow> int option" where
  "strcmp (a # as) (b # bs) = (if a \<noteq> 0 \<and> a = b then strcmp as bs else Some (uint a - uint b))"
| "strcmp _ _ = None"

text \<open>The loop of \<open>strncmp\<close> for a positive count.\<close>

fun strncmp_loop :: "nat \<Rightarrow> bytes \<Rightarrow> bytes \<Rightarrow> int option" where
  "strncmp_loop n (a # as) (b # bs) =
     (if a = b then if n = 1 \<or> a = 0 then Some (uint a - uint b) else strncmp_loop (n - 1) as bs
      else Some (uint a - uint b))"
| "strncmp_loop n _ _ = None"

definition strncmp :: "bytes \<Rightarrow> bytes \<Rightarrow> nat \<Rightarrow> int option" where
  "strncmp s1 s2 n = (if n = 0 then Some 0 else strncmp_loop n s1 s2)"

section \<open>Lemmas\<close>

lemma length_copy [simp]:
  "length (copy_forward mem d s n) = length mem" "length (copy_backward mem d s n) = length mem"
  by (induction n arbitrary: mem d s) simp_all

lemma nth_copy_forward:
  assumes "d + n \<le> length mem" "s + n \<le> length mem" "d \<le> s \<or> s + n \<le> d"
  shows "copy_forward mem d s n ! i = (if d \<le> i \<and> i < d + n then mem ! (s + (i - d)) else mem ! i)"
  using assms
proof (induction n arbitrary: mem d s)
  case (Suc n)
  let ?m = "mem[d := mem ! s]"
  have ih: "copy_forward ?m (d + 1) (s + 1) n ! i
      = (if d + 1 \<le> i \<and> i < d + 1 + n then ?m ! (s + 1 + (i - (d + 1))) else ?m ! i)"
    using Suc.prems by (intro Suc.IH) auto
  show ?case
  proof (cases "d + 1 \<le> i \<and> i < d + 1 + n")
    case True
    then have "s + 1 + (i - (d + 1)) = s + (i - d)" "s + (i - d) \<noteq> d" using Suc.prems by auto
    then show ?thesis using ih True by simp
  next
    case False
    then show ?thesis using ih Suc.prems by (cases "i = d") auto
  qed
qed auto

lemma nth_copy_backward:
  assumes "d + n \<le> length mem" "s + n \<le> length mem" "s < d"
  shows "copy_backward mem d s n ! i = (if d \<le> i \<and> i < d + n then mem ! (s + (i - d)) else mem ! i)"
  using assms
proof (induction n arbitrary: mem)
  case (Suc n)
  let ?m = "mem[d + n := mem ! (s + n)]"
  have ih: "copy_backward ?m d s n ! i = (if d \<le> i \<and> i < d + n then ?m ! (s + (i - d)) else ?m ! i)"
    using Suc.prems by (intro Suc.IH) auto
  show ?case
  proof (cases "d \<le> i \<and> i < d + n")
    case True
    then have "s + (i - d) \<noteq> d + n" using Suc.prems by auto
    then show ?thesis using ih True by simp
  next
    case False
    then show ?thesis using ih Suc.prems by (cases "i = d + n") auto
  qed
qed auto

lemma nth_blit_slice:
  assumes "d + n \<le> length mem" "s + n \<le> length mem" "i < length mem"
  shows "blit mem d (slice s n mem) ! i = (if d \<le> i \<and> i < d + n then mem ! (s + (i - d)) else mem ! i)"
  using assms by (auto simp: blit_def slice_def nth_append)

lemma memset_blit: "d + n \<le> length mem \<Longrightarrow> memset mem d v n = blit mem d (replicate n v)"
proof (induction n arbitrary: mem d)
  case (Suc n)
  then show ?case by (simp add: blit_def take_Suc_conv_app_nth)
qed simp

lemma memcmp_eq_0:
  assumes "n \<le> length xs" "n \<le> length ys"
  shows "memcmp n xs ys = 0 \<longleftrightarrow> take n xs = take n ys"
  using assms
proof (induction n arbitrary: xs ys)
  case (Suc n)
  then show ?case by (cases xs; cases ys) (auto simp: word_uint_eq_iff)
qed simp

lemma of_be_append: "of_be (xs @ ys) = of_be xs * 256 ^ length ys + of_be ys"
proof (induction ys rule: rev_induct)
  case (snoc y ys)
  then show ?case by (simp add: of_be_def algebra_simps)
qed (simp add: of_be_def)

lemma of_be_Cons: "of_be (x # xs) = unat x * 256 ^ length xs + of_be xs"
  using of_be_append [of "[x]" xs] by (simp add: of_be_def)

lemma of_be_bound: "of_be xs < 256 ^ length xs"
proof (induction xs)
  case (Cons x xs)
  have "of_be (x # xs) < unat x * 256 ^ length xs + 256 ^ length xs" using Cons by (simp add: of_be_Cons)
  also have "\<dots> = (unat x + 1) * 256 ^ length xs" by (simp add: algebra_simps)
  also have "\<dots> \<le> 256 * 256 ^ length xs" using byte_less_256 [of x] by (intro mult_right_mono) auto
  finally show ?case by simp
qed (simp add: of_be_def)

text \<open>Comparing equally long byte strings compares the numbers they denote, most significant byte
  first.\<close>

lemma memcmp_less:
  assumes "length xs = n" "length ys = n"
  shows "memcmp n xs ys < 0 \<longleftrightarrow> of_be xs < of_be ys"
  using assms
proof (induction n arbitrary: xs ys)
  case (Suc n)
  obtain x xs' y ys' where c: "xs = x # xs'" "ys = y # ys'" "length xs' = n" "length ys' = n"
    using Suc.prems by (cases xs; cases ys) auto
  have b: "of_be xs' < 256 ^ n" "of_be ys' < 256 ^ n" using of_be_bound c by metis+
  consider "x = y" | "unat x < unat y" | "unat y < unat x" by (metis linorder_cases word_unat_eq_iff)
  then show ?case
  proof cases
    case 1
    then show ?thesis using c Suc.IH [of xs' ys'] by (simp add: of_be_Cons)
  next
    case 2
    then have "(unat x + 1) * 256 ^ n \<le> unat y * 256 ^ n" by (intro mult_right_mono) auto
    then have "of_be xs < of_be ys" using b c by (simp add: of_be_Cons algebra_simps)
    then show ?thesis using 2 c by (auto simp: word_less_nat_alt [symmetric] word_less_def)
  next
    case 3
    then have "(unat y + 1) * 256 ^ n \<le> unat x * 256 ^ n" by (intro mult_right_mono) auto
    then have "\<not> of_be xs < of_be ys" using b c by (simp add: of_be_Cons algebra_simps)
    then show ?thesis using 3 c by (auto simp: word_less_nat_alt [symmetric] word_less_def)
  qed
qed (simp add: of_be_def)

section \<open>Properties\<close>

text \<open>\<open>memmove\<close> behaves as a copy through a temporary buffer for every source and destination
  inside the memory, however they overlap.\<close>

theorem memmove_overlap:
  assumes "dst + n \<le> length mem" "src + n \<le> length mem"
  shows "memmove mem dst src n = blit mem dst (slice src n mem)"
proof (rule nth_equalityI)
  show "length (memmove mem dst src n) = length (blit mem dst (slice src n mem))"
    using assms by (simp add: memmove_def length_blit length_slice)
  fix i assume "i < length (memmove mem dst src n)"
  then have "i < length mem" by (simp add: memmove_def split: if_splits)
  then show "memmove mem dst src n ! i = blit mem dst (slice src n mem) ! i"
    using assms by (simp add: memmove_def nth_copy_forward nth_copy_backward nth_blit_slice not_less)
qed

lemma memmove_overlap_witness: "memmove [1, 2, 3, 4, 5 :: nat] 1 0 3 = [1, 1, 2, 3, 5]"
  using memmove_overlap [of 1 3 "[1, 2, 3, 4, 5 :: nat]" 0] by (simp add: blit_def slice_def)

end
