(* ===== verification/Aes.thy ===== *)
theory Aes
  imports Libc
begin

text \<open>
  \<open>crypto/tiny-AES-c/aes.c\<close> as the firmware builds it (AES-256). The state matrix
  \<open>state[i][j]\<close> is the list of sixteen bytes in memory order, entry \<open>4 * i + j\<close>. The modes
  are written over an arbitrary block function, and \<open>AES_CBC_*\<close> and \<open>AES_CTR_*\<close> are their
  instances; the locale \<open>block_cipher\<close> carries the mode lemmas and is interpreted for AES.
\<close>

section \<open>Tables and key schedule\<close>

definition sbox :: bytes where
  "sbox = [
     0x63, 0x7c, 0x77, 0x7b, 0xf2, 0x6b, 0x6f, 0xc5, 0x30, 0x01, 0x67, 0x2b, 0xfe, 0xd7, 0xab, 0x76,
     0xca, 0x82, 0xc9, 0x7d, 0xfa, 0x59, 0x47, 0xf0, 0xad, 0xd4, 0xa2, 0xaf, 0x9c, 0xa4, 0x72, 0xc0,
     0xb7, 0xfd, 0x93, 0x26, 0x36, 0x3f, 0xf7, 0xcc, 0x34, 0xa5, 0xe5, 0xf1, 0x71, 0xd8, 0x31, 0x15,
     0x04, 0xc7, 0x23, 0xc3, 0x18, 0x96, 0x05, 0x9a, 0x07, 0x12, 0x80, 0xe2, 0xeb, 0x27, 0xb2, 0x75,
     0x09, 0x83, 0x2c, 0x1a, 0x1b, 0x6e, 0x5a, 0xa0, 0x52, 0x3b, 0xd6, 0xb3, 0x29, 0xe3, 0x2f, 0x84,
     0x53, 0xd1, 0x00, 0xed, 0x20, 0xfc, 0xb1, 0x5b, 0x6a, 0xcb, 0xbe, 0x39, 0x4a, 0x4c, 0x58, 0xcf,
     0xd0, 0xef, 0xaa, 0xfb, 0x43, 0x4d, 0x33, 0x85, 0x45, 0xf9, 0x02, 0x7f, 0x50, 0x3c, 0x9f, 0xa8,
     0x51, 0xa3, 0x40, 0x8f, 0x92, 0x9d, 0x38, 0xf5, 0xbc, 0xb6, 0xda, 0x21, 0x10, 0xff, 0xf3, 0xd2,
     0xcd, 0x0c, 0x13, 0xec, 0x5f, 0x97, 0x44, 0x17, 0xc4, 0xa7, 0x7e, 0x3d, 0x64, 0x5d, 0x19, 0x73,
     0x60, 0x81, 0x4f, 0xdc, 0x22, 0x2a, 0x90, 0x88, 0x46, 0xee, 0xb8, 0x14, 0xde, 0x5e, 0x0b, 0xdb,
     0xe0, 0x32, 0x3a, 0x0a, 0x49, 0x06, 0x24, 0x5c, 0xc2, 0xd3, 0xac, 0x62, 0x91, 0x95, 0xe4, 0x79,
     0xe7, 0xc8, 0x37, 0x6d, 0x8d, 0xd5, 0x4e, 0xa9, 0x6c, 0x56, 0xf4, 0xea, 0x65, 0x7a, 0xae, 0x08,
     0xba, 0x78, 0x25, 0x2e, 0x1c, 0xa6, 0xb4, 0xc6, 0xe8, 0xdd, 0x74, 0x1f, 0x4b, 0xbd, 0x8b, 0x8a,
     0x70, 0x3e, 0xb5, 0x66, 0x48, 0x03, 0xf6, 0x0e, 0x61, 0x35, 0x57, 0xb9, 0x86, 0xc1, 0x1d, 0x9e,
     0xe1, 0xf8, 0x98, 0x11, 0x69, 0xd9, 0x8e, 0x94, 0x9b, 0x1e, 0x87, 0xe9, 0xce, 0x55, 0x28, 0xdf,
     0x8c, 0xa1, 0x89, 0x0d, 0xbf, 0xe6, 0x42, 0x68, 0x41, 0x99, 0x2d, 0x0f, 0xb0, 0x54, 0xbb, 0x16]"

definition rsbox :: bytes where
  "rsbox = [
     0x52, 0x09, 0x6a, 0xd5, 0x30, 0x36, 0xa5, 0x38, 0xbf, 0x40, 0xa3, 0x9e, 0x81, 0xf3, 0xd7, 0xfb,
     0x7c, 0xe3, 0x39, 0x82, 0x9b, 0x2f, 0xff, 0x87, 0x34, 0x8e, 0x43, 0x44, 0xc4, 0xde, 0xe9, 0xcb,
     0x54, 0x7b, 0x94, 0x32, 0xa6, 0xc2, 0x23, 0x3d, 0xee, 0x4c, 0x95, 0x0b, 0x42, 0xfa, 0xc3, 0x4e,
     0x08, 0x2e, 0xa1, 0x66, 0x28, 0xd9, 0x24, 0xb2, 0x76, 0x5b, 0xa2, 0x49, 0x6d, 0x8b, 0xd1, 0x25,
     0x72, 0xf8, 0xf6, 0x64, 0x86, 0x68, 0x98, 0x16, 0xd4, 0xa4, 0x5c, 0xcc, 0x5d, 0x65, 0xb6, 0x92,
     0x6c, 0x70, 0x48, 0x50, 0xfd, 0xed, 0xb9, 0xda, 0x5e, 0x15, 0x46, 0x57, 0xa7, 0x8d, 0x9d, 0x84,
     0x90, 0xd8, 0xab, 0x00, 0x8c, 0xbc, 0xd3, 0x0a, 0xf7, 0xe4, 0x58, 0x05, 0xb8, 0xb3, 0x45, 0x06,
     0xd0, 0x2c, 0x1e, 0x8f, 0xca, 0x3f, 0x0f, 0x02, 0xc1, 0xaf, 0xbd, 0x03, 0x01, 0x13, 0x8a, 0x6b,
     0x3a, 0x91, 0x11, 0x41, 0x4f, 0x67, 0xdc, 0xea, 0x97, 0xf2, 0xcf, 0xce, 0xf0, 0xb4, 0xe6, 0x73,
     0x96, 0xac, 0x74, 0x22, 0xe7, 0xad, 0x35, 0x85, 0xe2, 0xf9, 0x37, 0xe8, 0x1c, 0x75, 0xdf, 0x6e,
     0x47, 0xf1, 0x1a, 0x71, 0x1d, 0x29, 0xc5, 0x89, 0x6f, 0xb7, 0x62, 0x0e, 0xaa, 0x18, 0xbe, 0x1b,
     0xfc, 0x56, 0x3e, 0x4b, 0xc6, 0xd2, 0x79, 0x20, 0x9a, 0xdb, 0xc0, 0xfe, 0x78, 0xcd, 0x5a, 0xf4,
     0x1f, 0xdd, 0xa8, 0x33, 0x88, 0x07, 0xc7, 0x31, 0xb1, 0x12, 0x10, 0x59, 0x27, 0x80, 0xec, 0x5f,
     0x60, 0x51, 0x7f, 0xa9, 0x19, 0xb5, 0x4a, 0x0d, 0x2d, 0xe5, 0x7a, 0x9f, 0x93, 0xc9, 0x9c, 0xef,
     0xa0, 0xe0, 0x3b, 0x4d, 0xae, 0x2a, 0xf5, 0xb0, 0xc8, 0xeb, 0xbb, 0x3c, 0x83, 0x53, 0x99, 0x61,
     0x17, 0x2b, 0x04, 0x7e, 0xba, 0x77, 0xd6, 0x26, 0xe1, 0x69, 0x14, 0x63, 0x55, 0x21, 0x0c, 0x7d]"

definition Rcon :: bytes where
  "Rcon = [0x8d, 0x01, 0x02, 0x04, 0x08, 0x10, 0x20, 0x40, 0x80, 0x1b, 0x36]"

definition getSBoxValue :: "byte \<Rightarrow> byte" where "getSBoxValue b = sbox ! unat b"
definition getSBoxInvert :: "byte \<Rightarrow> byte" where "getSBoxInvert b = rsbox ! unat b"

definition Nk :: nat where "Nk = 8"
definition Nr :: nat where "Nr = 14"
definition Nb :: nat where "Nb = 4"
definition AES_BLOCKLEN :: nat where "AES_BLOCKLEN = 16"

lemmas aes_sizes = Nk_def Nr_def Nb_def AES_BLOCKLEN_def

text \<open>One turn of the second loop: the round key bytes found so far grow by four.\<close>

definition KeyExpansion_step :: "nat \<Rightarrow> bytes \<Rightarrow> bytes" where
  "KeyExpansion_step i rk =
     (let tempa = slice ((i - 1) * 4) 4 rk;
          tempa = (if i mod Nk = 0
                   then let t = map getSBoxValue (rotate1 tempa) in t[0 := t ! 0 XOR Rcon ! (i div Nk)]
                   else tempa);
          tempa = (if i mod Nk = 4 then map getSBoxValue tempa else tempa)
      in rk @ xor_bytes (slice ((i - Nk) * 4) 4 rk) tempa)"

definition KeyExpansion :: "bytes \<Rightarrow> bytes" where
  "KeyExpansion key = fold KeyExpansion_step [Nk..<Nb * (Nr + 1)] (take (Nk * 4) key)"

section \<open>Rounds\<close>

definition AddRoundKey :: "bytes \<Rightarrow> nat \<Rightarrow> bytes \<Rightarrow> bytes" where
  "AddRoundKey rk round s = xor_bytes s (slice (round * Nb * 4) 16 rk)"

definition SubBytes :: "bytes \<Rightarrow> bytes" where "SubBytes s = map getSBoxValue s"
definition InvSubBytes :: "bytes \<Rightarrow> bytes" where "InvSubBytes s = map getSBoxInvert s"

definition ShiftRows :: "bytes \<Rightarrow> bytes" where
  "ShiftRows s = s[1 := s ! 5, 5 := s ! 9, 9 := s ! 13, 13 := s ! 1,
     2 := s ! 10, 10 := s ! 2, 6 := s ! 14, 14 := s ! 6,
     3 := s ! 15, 15 := s ! 11, 11 := s ! 7, 7 := s ! 3]"

definition InvShiftRows :: "bytes \<Rightarrow> bytes" where
  "InvShiftRows s = s[13 := s ! 9, 9 := s ! 5, 5 := s ! 1, 1 := s ! 13,
     2 := s ! 10, 10 := s ! 2, 6 := s ! 14, 14 := s ! 6,
     3 := s ! 7, 7 := s ! 11, 11 := s ! 15, 15 := s ! 3]"

definition xtime :: "byte \<Rightarrow> byte" where
  "xtime x = push_bit 1 x XOR ((drop_bit 7 x AND 1) * 0x1b)"

definition mix_column :: "byte \<Rightarrow> byte \<Rightarrow> byte \<Rightarrow> byte \<Rightarrow> bytes" where
  "mix_column a b c d =
     (let tmp = a XOR b XOR c XOR d
      in [a XOR (xtime (a XOR b) XOR tmp), b XOR (xtime (b XOR c) XOR tmp),
          c XOR (xtime (c XOR d) XOR tmp), d XOR (xtime (d XOR a) XOR tmp)])"

definition Multiply :: "byte \<Rightarrow> byte \<Rightarrow> byte" where
  "Multiply x y = ((y AND 1) * x) XOR ((drop_bit 1 y AND 1) * xtime x)
     XOR ((drop_bit 2 y AND 1) * xtime (xtime x)) XOR ((drop_bit 3 y AND 1) * xtime (xtime (xtime x)))
     XOR ((drop_bit 4 y AND 1) * xtime (xtime (xtime (xtime x))))"

definition inv_mix_column :: "byte \<Rightarrow> byte \<Rightarrow> byte \<Rightarrow> byte \<Rightarrow> bytes" where
  "inv_mix_column a b c d =
     [Multiply a 0x0e XOR Multiply b 0x0b XOR Multiply c 0x0d XOR Multiply d 0x09,
      Multiply a 0x09 XOR Multiply b 0x0e XOR Multiply c 0x0b XOR Multiply d 0x0d,
      Multiply a 0x0d XOR Multiply b 0x09 XOR Multiply c 0x0e XOR Multiply d 0x0b,
      Multiply a 0x0b XOR Multiply b 0x0d XOR Multiply c 0x09 XOR Multiply d 0x0e]"

fun each_column :: "(byte \<Rightarrow> byte \<Rightarrow> byte \<Rightarrow> byte \<Rightarrow> bytes) \<Rightarrow> bytes \<Rightarrow> bytes" where
  "each_column f (a # b # c # d # rest) = f a b c d @ each_column f rest"
| "each_column f rest = rest"

definition MixColumns :: "bytes \<Rightarrow> bytes" where "MixColumns s = each_column mix_column s"
definition InvMixColumns :: "bytes \<Rightarrow> bytes" where "InvMixColumns s = each_column inv_mix_column s"

definition cipher_round :: "bytes \<Rightarrow> nat \<Rightarrow> bytes \<Rightarrow> bytes" where
  "cipher_round rk round s = AddRoundKey rk round (MixColumns (ShiftRows (SubBytes s)))"

definition Cipher :: "bytes \<Rightarrow> bytes \<Rightarrow> bytes" where
  "Cipher rk s =
     AddRoundKey rk Nr (ShiftRows (SubBytes (fold (cipher_round rk) [1..<Nr] (AddRoundKey rk 0 s))))"

definition inv_cipher_round :: "bytes \<Rightarrow> nat \<Rightarrow> bytes \<Rightarrow> bytes" where
  "inv_cipher_round rk round s = InvMixColumns (AddRoundKey rk round (InvSubBytes (InvShiftRows s)))"

definition InvCipher :: "bytes \<Rightarrow> bytes \<Rightarrow> bytes" where
  "InvCipher rk s =
     AddRoundKey rk 0 (InvSubBytes (InvShiftRows
       (fold (inv_cipher_round rk) (rev [1..<Nr]) (AddRoundKey rk Nr s))))"

section \<open>Modes\<close>

text \<open>Cipher block chaining. The buffer length is a multiple of the block length, as
  \<open>crypto.h\<close> requires of callers. Both functions return the buffer and the vector for the next
  call.\<close>

function cbc_encrypt :: "(bytes \<Rightarrow> bytes) \<Rightarrow> bytes \<Rightarrow> bytes \<Rightarrow> bytes \<times> bytes" where
  "cbc_encrypt E iv buf =
     (if buf = [] then ([], iv)
      else let c = E (xor_bytes (take 16 buf) iv); (cs, iv') = cbc_encrypt E c (drop 16 buf)
           in (c @ cs, iv'))"
  by auto
termination by (relation "measure (\<lambda>(E, iv, buf). length buf)") auto

function cbc_decrypt :: "(bytes \<Rightarrow> bytes) \<Rightarrow> bytes \<Rightarrow> bytes \<Rightarrow> bytes \<times> bytes" where
  "cbc_decrypt D iv buf =
     (if buf = [] then ([], iv)
      else let c = take 16 buf; (ps, iv') = cbc_decrypt D c (drop 16 buf)
           in (xor_bytes (D c) iv @ ps, iv'))"
  by auto
termination by (relation "measure (\<lambda>(D, iv, buf). length buf)") auto

declare cbc_encrypt.simps [simp del] cbc_decrypt.simps [simp del]

text \<open>Counter mode: the increment of the counter block from its last byte, with carry, and the loop
  over the buffer with the key stream block and the position in it.\<close>

fun iv_increment_from :: "nat \<Rightarrow> bytes \<Rightarrow> bytes" where
  "iv_increment_from 0 iv = iv"
| "iv_increment_from (Suc bi) iv =
     (if iv ! bi = 255 then iv_increment_from bi (iv[bi := 0]) else iv[bi := iv ! bi + 1])"

definition iv_increment :: "bytes \<Rightarrow> bytes" where
  "iv_increment iv = iv_increment_from AES_BLOCKLEN iv"

fun ctr_loop :: "(bytes \<Rightarrow> bytes) \<Rightarrow> bytes \<Rightarrow> bytes \<Rightarrow> nat \<Rightarrow> bytes \<Rightarrow> bytes \<times> bytes" where
  "ctr_loop E iv ks bi [] = ([], iv)"
| "ctr_loop E iv ks bi (b # bs) =
     (let (iv, ks, bi) = (if bi = AES_BLOCKLEN then (iv_increment iv, E iv, 0) else (iv, ks, bi));
          (cs, iv') = ctr_loop E iv ks (bi + 1) bs
      in ((b XOR ks ! bi) # cs, iv'))"

record AES_ctx =
  RoundKey :: bytes
  Iv :: bytes

definition AES_init_ctx :: "AES_ctx \<Rightarrow> bytes \<Rightarrow> AES_ctx" where
  "AES_init_ctx ctx key = ctx\<lparr>RoundKey := KeyExpansion key\<rparr>"

definition AES_init_ctx_iv :: "AES_ctx \<Rightarrow> bytes \<Rightarrow> bytes \<Rightarrow> AES_ctx" where
  "AES_init_ctx_iv ctx key iv = ctx\<lparr>RoundKey := KeyExpansion key, Iv := take AES_BLOCKLEN iv\<rparr>"

definition AES_ctx_set_iv :: "AES_ctx \<Rightarrow> bytes \<Rightarrow> AES_ctx" where
  "AES_ctx_set_iv ctx iv = ctx\<lparr>Iv := take AES_BLOCKLEN iv\<rparr>"

definition AES_ECB_encrypt :: "AES_ctx \<Rightarrow> bytes \<Rightarrow> bytes" where
  "AES_ECB_encrypt ctx buf = Cipher (RoundKey ctx) buf"

definition AES_ECB_decrypt :: "AES_ctx \<Rightarrow> bytes \<Rightarrow> bytes" where
  "AES_ECB_decrypt ctx buf = InvCipher (RoundKey ctx) buf"

definition AES_CBC_encrypt_buffer :: "AES_ctx \<Rightarrow> bytes \<Rightarrow> bytes \<times> AES_ctx" where
  "AES_CBC_encrypt_buffer ctx buf =
     (let (c, iv) = cbc_encrypt (Cipher (RoundKey ctx)) (Iv ctx) buf in (c, ctx\<lparr>Iv := iv\<rparr>))"

definition AES_CBC_decrypt_buffer :: "AES_ctx \<Rightarrow> bytes \<Rightarrow> bytes \<times> AES_ctx" where
  "AES_CBC_decrypt_buffer ctx buf =
     (let (p, iv) = cbc_decrypt (InvCipher (RoundKey ctx)) (Iv ctx) buf in (p, ctx\<lparr>Iv := iv\<rparr>))"

definition AES_CTR_xcrypt_buffer :: "AES_ctx \<Rightarrow> bytes \<Rightarrow> bytes \<times> AES_ctx" where
  "AES_CTR_xcrypt_buffer ctx buf =
     (let (c, iv) = ctr_loop (Cipher (RoundKey ctx)) (Iv ctx) (replicate AES_BLOCKLEN 0) AES_BLOCKLEN buf
      in (c, ctx\<lparr>Iv := iv\<rparr>))"

section \<open>Every step has its inverse\<close>

text \<open>The two substitution tables are inverse to each other; checked entry by entry.\<close>

lemma tables_inverse: "list_all (\<lambda>(x, i). rsbox ! unat x = i) (zip sbox (map of_nat [0..<256]))"
  by (simp add: sbox_def rsbox_def upt_conv_Cons)

lemma length_sbox: "length sbox = 256"
  by (simp add: sbox_def)

lemma sbox_inverse: "getSBoxInvert (getSBoxValue b) = b"
proof -
  have "unat b < 256" by (rule byte_less_256)
  then have "(sbox ! unat b, of_nat (unat b) :: byte) \<in> set (zip sbox (map of_nat [0..<256]))"
    by (auto simp: set_zip length_sbox intro!: exI [of _ "unat b"])
  then have "rsbox ! unat (sbox ! unat b) = of_nat (unat b)"
    using tables_inverse by (auto simp: list_all_iff)
  then show ?thesis by (simp add: getSBoxInvert_def getSBoxValue_def)
qed

lemma SubBytes_inverse: "InvSubBytes (SubBytes s) = s"
  by (simp add: InvSubBytes_def SubBytes_def sbox_inverse comp_def)

lemma list16_cases:
  assumes "length (s :: 'a list) = 16"
  obtains a b c d e f g h i j k l m n x y where "s = [a, b, c, d, e, f, g, h, i, j, k, l, m, n, x, y]"
proof -
  have "length s = Suc (Suc (Suc (Suc (Suc (Suc (Suc (Suc (Suc (Suc (Suc (Suc (Suc (Suc (Suc (Suc 0)))))))))))))))"
    using assms by simp
  then show thesis using that by (simp only: length_Suc_conv length_0_conv) blast
qed

lemma ShiftRows_inverse: "length s = 16 \<Longrightarrow> InvShiftRows (ShiftRows s) = s"
  by (erule list16_cases) (simp add: InvShiftRows_def ShiftRows_def)

lemma xtime_xor: "xtime (x XOR y) = xtime x XOR xtime y"
proof -
  have m: "(drop_bit 7 v AND 1 :: byte) = (if bit v 7 then 1 else 0)" for v :: byte
    by (rule bit_word_eqI) (auto simp: bit_simps bit_1_iff intro!: gr0I)
  show ?thesis
    unfolding xtime_def m
    by (rule bit_word_eqI) (auto simp: bit_simps)
qed

lemma Multiply_consts:
  "Multiply x 0x0e = xtime x XOR xtime (xtime x) XOR xtime (xtime (xtime x))"
  "Multiply x 0x0b = x XOR xtime x XOR xtime (xtime (xtime x))"
  "Multiply x 0x0d = x XOR xtime (xtime x) XOR xtime (xtime (xtime x))"
  "Multiply x 0x09 = x XOR xtime (xtime (xtime x))"
  by (simp_all add: Multiply_def xor.assoc)

lemma xor_cancel_left: "x XOR (x XOR y) = (y :: byte)"
  by (simp add: xor.assoc [symmetric])

lemmas xor_ac = xor.assoc xor.commute xor.left_commute xor_cancel_left

lemma mix_column_inverse:
  "mix_column a b c d = [a', b', c', d'] \<Longrightarrow> inv_mix_column a' b' c' d' = [a, b, c, d]"
  by (auto simp: mix_column_def inv_mix_column_def Let_def Multiply_consts xtime_xor xor_ac)

lemma length_mix_column: "length (mix_column a b c d) = 4" "length (inv_mix_column a b c d) = 4"
  by (simp_all add: mix_column_def inv_mix_column_def Let_def)

lemma MixColumns_inverse: "length s = 16 \<Longrightarrow> InvMixColumns (MixColumns s) = s"
  by (erule list16_cases)
    (simp add: InvMixColumns_def MixColumns_def mix_column_def Let_def
      mix_column_inverse [unfolded mix_column_def Let_def])

lemma AddRoundKey_inverse:
  assumes "length rk = 240" "length s = 16" "r \<le> 14"
  shows "AddRoundKey rk r (AddRoundKey rk r s) = s"
  using assms by (simp add: AddRoundKey_def length_slice Nb_def)

lemma step_lengths [simp]:
  "length (SubBytes s) = length s" "length (ShiftRows s) = length s"
  by (simp_all add: SubBytes_def ShiftRows_def)

lemma length_MixColumns: "length s = 16 \<Longrightarrow> length (MixColumns s) = 16"
  by (erule list16_cases) (simp add: MixColumns_def length_mix_column)

lemma length_AddRoundKey:
  "length rk = 240 \<Longrightarrow> length s = 16 \<Longrightarrow> r \<le> 14 \<Longrightarrow> length (AddRoundKey rk r s) = 16"
  by (simp add: AddRoundKey_def length_slice Nb_def)

lemma inv_cipher_round_step:
  assumes "length rk = 240" "length s = 16" "r \<le> 14"
  shows "inv_cipher_round rk r (ShiftRows (SubBytes (cipher_round rk r s))) = ShiftRows (SubBytes s)"
  using assms
  by (simp add: inv_cipher_round_def cipher_round_def ShiftRows_inverse SubBytes_inverse
      AddRoundKey_inverse MixColumns_inverse length_AddRoundKey length_MixColumns)

lemma length_cipher_round:
  "length rk = 240 \<Longrightarrow> length s = 16 \<Longrightarrow> r \<le> 14 \<Longrightarrow> length (cipher_round rk r s) = 16"
  by (simp add: cipher_round_def length_AddRoundKey length_MixColumns)

lemma rounds_inverse:
  assumes "length rk = 240" "length s = 16" "\<forall>r \<in> set rs. r \<le> 14"
  shows "length (fold (cipher_round rk) rs s) = 16
    \<and> fold (inv_cipher_round rk) (rev rs) (ShiftRows (SubBytes (fold (cipher_round rk) rs s)))
      = ShiftRows (SubBytes s)"
  using assms
proof (induction rs rule: rev_induct)
  case (snoc r rs)
  then show ?case by (simp add: inv_cipher_round_step length_cipher_round)
qed simp

lemma InvCipher_Cipher:
  assumes "length rk = 240" "length s = 16"
  shows "InvCipher rk (Cipher rk s) = s"
proof -
  let ?s0 = "AddRoundKey rk 0 s"
  have l0: "length ?s0 = 16" using assms by (simp add: length_AddRoundKey)
  have r: "length (fold (cipher_round rk) [1..<Nr] ?s0) = 16"
    "fold (inv_cipher_round rk) (rev [1..<Nr])
       (ShiftRows (SubBytes (fold (cipher_round rk) [1..<Nr] ?s0))) = ShiftRows (SubBytes ?s0)"
    using rounds_inverse [OF assms(1) l0, of "[1..<Nr]"] by (simp_all add: Nr_def)
  show ?thesis
    using assms l0 r
    by (simp add: InvCipher_def Cipher_def AddRoundKey_inverse ShiftRows_inverse SubBytes_inverse Nr_def)
qed

lemma length_Cipher: "length rk = 240 \<Longrightarrow> length s = 16 \<Longrightarrow> length (Cipher rk s) = 16"
proof -
  assume a: "length rk = 240" "length s = 16"
  have "length (fold (cipher_round rk) [1..<Nr] (AddRoundKey rk 0 s)) = 16"
    using rounds_inverse [OF a(1), of "AddRoundKey rk 0 s" "[1..<Nr]"] a
    by (simp add: Nr_def length_AddRoundKey)
  then show ?thesis using a by (simp add: Cipher_def length_AddRoundKey Nr_def)
qed

lemma KeyExpansion_step_length:
  assumes "length rk = 4 * i" "8 \<le> i"
  shows "length (KeyExpansion_step i rk) = 4 * i + 4"
proof -
  have "length (slice ((i - 1) * 4) 4 rk) = 4" "length (slice ((i - 8) * 4) 4 rk) = 4"
    using assms by (intro length_slice; simp)+
  then show ?thesis using assms(1) by (simp add: KeyExpansion_step_def Let_def Nk_def)
qed

lemma KeyExpansion_fold_length:
  assumes "length rk = 4 * m" "8 \<le> m"
  shows "length (fold KeyExpansion_step [m..<m + n] rk) = 4 * (m + n)"
proof (induction n)
  case (Suc n)
  then show ?case
    using KeyExpansion_step_length [of "fold KeyExpansion_step [m..<m + n] rk" "m + n"] assms(2) by simp
qed (simp add: assms)

lemma length_KeyExpansion: "length key = 32 \<Longrightarrow> length (KeyExpansion key) = 240"
  using KeyExpansion_fold_length [of key 8 52] by (simp add: KeyExpansion_def aes_sizes)

section \<open>Modes over any block cipher\<close>

locale block_cipher =
  fixes E :: "'k \<Rightarrow> bytes \<Rightarrow> bytes" and D :: "'k \<Rightarrow> bytes \<Rightarrow> bytes" and key_ok :: "'k \<Rightarrow> bool"
  assumes block_length: "key_ok k \<Longrightarrow> length b = 16 \<Longrightarrow> length (E k b) = 16"
    and inverse: "key_ok k \<Longrightarrow> length b = 16 \<Longrightarrow> D k (E k b) = b"
begin

lemma cbc_round_trip:
  assumes "key_ok k" "length iv = 16" "length buf mod 16 = 0"
  shows "fst (cbc_decrypt (D k) iv (fst (cbc_encrypt (E k) iv buf))) = buf
    \<and> length (fst (cbc_encrypt (E k) iv buf)) = length buf"
  using assms(2,3)
proof (induction "E k" iv buf rule: cbc_encrypt.induct)
  case (1 iv buf)
  show ?case
  proof (cases "buf = []")
    case True
    then show ?thesis by (simp add: cbc_encrypt.simps cbc_decrypt.simps)
  next
    case False
    then have l: "16 \<le> length buf" using 1(3) by (cases "length buf < 16") auto
    have m: "length (drop 16 buf) mod 16 = 0" using 1(3) l le_mod_geq [of 16 "length buf"] by simp
    let ?x = "xor_bytes (take 16 buf) iv"
    let ?c = "E k ?x"
    have x: "length ?x = 16" using l 1(2) by simp
    have c: "length ?c = 16" by (rule block_length [OF assms(1) x])
    have ih: "fst (cbc_decrypt (D k) ?c (fst (cbc_encrypt (E k) ?c (drop 16 buf)))) = drop 16 buf"
      "length (fst (cbc_encrypt (E k) ?c (drop 16 buf))) = length (drop 16 buf)"
      using 1(1) [OF False refl c m] by simp_all
    have ne: "?c \<noteq> []" using c by auto
    show ?thesis
      using False c ne ih l 1(2) inverse [OF assms(1) x]
      by (simp add: cbc_encrypt.simps [of "E k" iv buf] Let_def case_prod_unfold
          cbc_decrypt.simps [of "D k" iv])
  qed
qed

end

interpretation aes: block_cipher Cipher InvCipher "\<lambda>rk. length rk = 240"
  by unfold_locales (simp_all add: length_Cipher InvCipher_Cipher)

section \<open>Counter mode\<close>

lemma ctr_loop_involution:
  "fst (ctr_loop E iv ks bi (fst (ctr_loop E iv ks bi buf))) = buf"
  by (induction buf arbitrary: iv ks bi) (simp_all add: Let_def case_prod_unfold xor.assoc)

lemma length_ctr_loop: "length (fst (ctr_loop E iv ks bi buf)) = length buf"
  by (induction buf arbitrary: iv ks bi) (simp_all add: Let_def case_prod_unfold)

lemma iv_increment_from:
  assumes "n \<le> length iv"
  shows "of_be (take n (iv_increment_from n iv)) = (of_be (take n iv) + 1) mod 256 ^ n
    \<and> drop n (iv_increment_from n iv) = drop n iv \<and> length (iv_increment_from n iv) = length iv"
  using assms
proof (induction n arbitrary: iv)
  case 0
  then show ?case by (simp add: of_be_def)
next
  case (Suc n)
  have split: "of_be (take (Suc n) xs) = of_be (take n xs) * 256 + unat (xs ! n)" if "n < length xs" for xs
    using that by (simp add: take_Suc_conv_app_nth of_be_def)
  have bnd: "of_be (take n iv) < 256 ^ n"
    using of_be_bound [of "take n iv"] Suc.prems by simp
  show ?case
  proof (cases "iv ! n = 255")
    case True
    have ih: "of_be (take n (iv_increment_from n (iv[n := 0]))) = (of_be (take n iv) + 1) mod 256 ^ n"
      "drop n (iv_increment_from n (iv[n := 0])) = drop n (iv[n := 0])"
      "length (iv_increment_from n (iv[n := 0])) = length iv"
      using Suc.IH [of "iv[n := 0]"] Suc.prems by simp_all
    let ?j = "iv_increment_from n (iv[n := 0])"
    have "?j ! n = 0" using ih(2) Suc.prems by (metis Suc_le_eq hd_drop_conv_nth ih(3) length_list_update nth_list_update_eq)
    then have "of_be (take (Suc n) ?j) = ((of_be (take n iv) + 1) mod 256 ^ n) * 256"
      using split [of ?j] ih Suc.prems by simp
    also have "\<dots> = (of_be (take (Suc n) iv) + 1) mod 256 ^ Suc n"
    proof -
      have "of_be (take (Suc n) iv) + 1 = (of_be (take n iv) + 1) * 256"
        using split [of iv] Suc.prems True by simp
      then show ?thesis
        using mod_mult_mult2 [of "of_be (take n iv) + 1" 256 "256 ^ n"] by (simp only: power_Suc mult.commute)
    qed
    finally have "of_be (take (Suc n) ?j) = (of_be (take (Suc n) iv) + 1) mod 256 ^ Suc n" .
    moreover have "drop (Suc n) ?j = drop (Suc n) iv"
      using arg_cong [OF ih(2), of "drop 1"] by simp
    ultimately show ?thesis using True ih(3) by simp
  next
    case False
    have "unat (iv ! n) \<noteq> 255" using False by (auto simp: word_unat_eq_iff)
    then have u: "unat (iv ! n) < 255" using byte_less_256 [of "iv ! n"] by linarith
    have "unat (iv ! n + 1) = unat (iv ! n) + 1" using u unat_Suc_word [of "iv ! n" 255] by simp
    moreover have "of_be (take n iv) * 256 + unat (iv ! n) + 1 < 256 ^ Suc n"
    proof -
      have "(of_be (take n iv) + 1) * 256 \<le> 256 ^ n * 256" using bnd by (intro mult_right_mono) auto
      then show ?thesis using u by simp
    qed
    ultimately show ?thesis
      using False split [of iv] split [of "iv[n := iv ! n + 1]"] Suc.prems by simp
  qed
qed

section \<open>Properties\<close>

text \<open>The inverse cipher undoes the cipher: for every 32-byte key and every 16-byte block, decrypting
  with the expanded key gives back the block that was encrypted with it.\<close>

theorem aes256_decrypt_encrypt:
  assumes "length key = 32" "length block = 16"
  shows "AES_ECB_decrypt (AES_init_ctx ctx key) (AES_ECB_encrypt (AES_init_ctx ctx key) block) = block"
  using assms by (simp add: AES_ECB_decrypt_def AES_ECB_encrypt_def AES_init_ctx_def InvCipher_Cipher
      length_KeyExpansion)

text \<open>C32: Cipher block chaining: decrypting what was encrypted under the same key and initialization
  vector gives back the buffer, for every buffer that is a whole number of blocks.\<close>

theorem aes256_cbc_round_trip:
  assumes "length (RoundKey ctx) = 240" "length (Iv ctx) = 16" "length buf mod 16 = 0"
  shows "fst (AES_CBC_decrypt_buffer ctx (fst (AES_CBC_encrypt_buffer ctx buf))) = buf
    \<and> length (fst (AES_CBC_encrypt_buffer ctx buf)) = length buf"
  using aes.cbc_round_trip [OF assms]
  by (simp add: AES_CBC_decrypt_buffer_def AES_CBC_encrypt_buffer_def case_prod_unfold Let_def)

lemma aes256_cbc_round_trip_witness:
  "let ctx = \<lparr>RoundKey = KeyExpansion (replicate 32 9), Iv = replicate 16 0\<rparr>
   in fst (AES_CBC_decrypt_buffer ctx (fst (AES_CBC_encrypt_buffer ctx (replicate 64 5)))) = replicate 64 5"
  using aes256_cbc_round_trip [of "\<lparr>RoundKey = KeyExpansion (replicate 32 9), Iv = replicate 16 0\<rparr>"
      "replicate 64 5"] by (simp add: length_KeyExpansion Let_def)

text \<open>Counter mode is its own inverse under the same key and initialization vector, for buffers of
  every length, and the counter block is incremented as one 128-bit big-endian number with
  wrap-around.\<close>

theorem aes256_ctr_involution:
  assumes "length (Iv ctx) = 16"
  shows "fst (AES_CTR_xcrypt_buffer ctx (fst (AES_CTR_xcrypt_buffer ctx buf))) = buf
    \<and> of_be (iv_increment (Iv ctx)) = (of_be (Iv ctx) + 1) mod 2 ^ 128"
proof -
  have k: "16 \<le> length (Iv ctx)" by (simp add: assms)
  have l: "length (iv_increment_from 16 (Iv ctx)) = 16" using iv_increment_from [OF k] assms by simp
  have "of_be (take 16 (iv_increment_from 16 (Iv ctx))) = (of_be (take 16 (Iv ctx)) + 1) mod 256 ^ 16"
    using iv_increment_from [OF k] by blast
  then have "of_be (iv_increment_from 16 (Iv ctx)) = (of_be (Iv ctx) + 1) mod 256 ^ 16"
    using l assms by simp
  then show ?thesis
    by (simp add: AES_CTR_xcrypt_buffer_def case_prod_unfold Let_def ctr_loop_involution
        iv_increment_def AES_BLOCKLEN_def)
qed

lemma aes256_ctr_involution_witness:
  "let ctx = \<lparr>RoundKey = KeyExpansion (replicate 32 9), Iv = replicate 16 255\<rparr>
   in fst (AES_CTR_xcrypt_buffer ctx (fst (AES_CTR_xcrypt_buffer ctx [1, 2, 3]))) = [1, 2, 3]
    \<and> of_be (iv_increment (Iv ctx)) = (of_be (Iv ctx) + 1) mod 2 ^ 128"
  using aes256_ctr_involution [of "\<lparr>RoundKey = KeyExpansion (replicate 32 9), Iv = replicate 16 255\<rparr>" "[1, 2, 3]"]
  unfolding Let_def by (metis AES_ctx.select_convs(2) length_replicate)

end
