(* ===== verification/Crypto.thy ===== *)
theory Crypto
  imports Ctaphid Sha256 Aes
begin

text \<open>
  \<open>fido2/src/crypto.c\<close>: the wrappers around SHA-256, AES and the two signature schemes, the HMAC and
  HKDF constructions, and the derivation of the device and session keys. The file-level variables are
  the record \<open>crypto\<close>, which extends the transport record. The elliptic curve libraries (micro-ecc
  and monocypher) are the record \<open>ecc_lib\<close> of the functions called; those that draw random numbers
  return the changed state.

  \<open>exit (1)\<close> is \<open>None\<close>. \<open>secure_wipe\<close> clears dead stack memory and has no counterpart.
\<close>

definition CRYPTO_KEY_LEN :: nat where "CRYPTO_KEY_LEN = 32"

record att_key =
  att_key_enc :: bytes
  att_nonce :: bytes
  att_mac :: bytes

text \<open>What \<open>_signing_key\<close> points to: nothing, the decrypted attestation key, or another key.\<close>

datatype signing_key = No_Key | Attestation_Key bytes | Signing_Key bytes

record crypto = ctaphid +
  sha256_ctx :: SHA256_CTX
  aes_ctx :: AES_ctx
  key_attestation_enc :: bytes
  key_pin_enc :: bytes
  key_device_mac :: bytes
  key_cred_priv :: bytes
  key_cred_mac :: bytes
  key_meta_enc :: bytes
  key_hmac_ext :: bytes
  key_attest :: att_key
  attestation_available :: bool
  signing :: signing_key

record 'w ecc_lib =
  uECC_make_key :: "'w \<Rightarrow> (int \<times> bytes \<times> bytes \<times> 'w) option"
  uECC_shared_secret :: "bytes \<Rightarrow> bytes \<Rightarrow> 'w \<Rightarrow> (int \<times> bytes \<times> 'w) option"
  uECC_compute_public_key :: "bytes \<Rightarrow> 'w \<Rightarrow> (bytes \<times> 'w) option"
  uECC_sign :: "bytes \<Rightarrow> bytes \<Rightarrow> 'w \<Rightarrow> (int \<times> bytes \<times> 'w) option"
  ed25519_key_pair :: "bytes \<Rightarrow> bytes \<times> bytes"
  ed25519_sign :: "bytes \<Rightarrow> bytes \<Rightarrow> bytes"

section \<open>Comparison and hashing\<close>

fun memeq_diff :: "bytes \<Rightarrow> bytes \<Rightarrow> nat \<Rightarrow> nat \<Rightarrow> byte \<Rightarrow> byte" where
  "memeq_diff a b i 0 diff = diff"
| "memeq_diff a b i (Suc n) diff = memeq_diff a b (i + 1) n (diff OR (a ! i XOR b ! i))"

definition secure_memeq :: "bytes \<Rightarrow> bytes \<Rightarrow> nat \<Rightarrow> bool" where
  "secure_memeq a b n = (memeq_diff a b 0 n 0 = 0)"

definition crypto_sha256_init :: "'a crypto_scheme \<Rightarrow> 'a crypto_scheme" where
  "crypto_sha256_init w = w\<lparr>sha256_ctx := sha256_init (sha256_ctx w)\<rparr>"

definition crypto_sha256_update :: "bytes \<Rightarrow> 'a crypto_scheme \<Rightarrow> 'a crypto_scheme" where
  "crypto_sha256_update d w = w\<lparr>sha256_ctx := sha256_update (sha256_ctx w) d\<rparr>"

definition crypto_sha256_final :: "'a crypto_scheme \<Rightarrow> bytes \<times> 'a crypto_scheme" where
  "crypto_sha256_final w = (let (c, h) = sha256_final (sha256_ctx w) in (h, w\<lparr>sha256_ctx := c\<rparr>))"

text \<open>The one-shot hash works on a context of its own.\<close>

definition sha256_blank :: SHA256_CTX where
  "sha256_blank = \<lparr>sha_data = replicate 64 0, sha_datalen = 0, sha_bitlen = 0, sha_state = []\<rparr>"

definition crypto_sha256 :: "bytes \<Rightarrow> bytes" where
  "crypto_sha256 d = snd (sha256_final (sha256_update (sha256_init sha256_blank) d))"

section \<open>HMAC and HKDF\<close>

definition hmac_pad :: "bytes \<Rightarrow> byte \<Rightarrow> bytes" where
  "hmac_pad key v = map (\<lambda>b. b XOR v) (blit (replicate 64 0) 0 key)"

definition crypto_sha256_hmac_init :: "bytes \<Rightarrow> 'a crypto_scheme \<Rightarrow> 'a crypto_scheme option" where
  "crypto_sha256_hmac_init key w =
     (if length key > 64 then None
      else Some (crypto_sha256_update (hmac_pad key 0x36) (crypto_sha256_init w)))"

definition crypto_sha256_hmac_final ::
  "bytes \<Rightarrow> 'a crypto_scheme \<Rightarrow> (bytes \<times> 'a crypto_scheme) option" where
  "crypto_sha256_hmac_final key w =
     (let (hmac, w) = crypto_sha256_final w
      in if length key > 64 then None
         else Some (crypto_sha256_final (crypto_sha256_update hmac
                (crypto_sha256_update (hmac_pad key 0x5c) (crypto_sha256_init w)))))"

text \<open>A whole HMAC over pieces of data, as the callers write it.\<close>

definition crypto_hmac :: "bytes \<Rightarrow> bytes list \<Rightarrow> 'a crypto_scheme \<Rightarrow> (bytes \<times> 'a crypto_scheme) option" where
  "crypto_hmac key ds w = do {
     w \<leftarrow> crypto_sha256_hmac_init key w;
     crypto_sha256_hmac_final key (fold crypto_sha256_update ds w) }"

definition crypto_compute_device_mac ::
  "bytes \<Rightarrow> nat \<Rightarrow> 'a crypto_scheme \<Rightarrow> (bytes \<times> 'a crypto_scheme) option" where
  "crypto_compute_device_mac data mac_len w = do {
     (buf, w) \<leftarrow> crypto_hmac (key_device_mac w) [data] w;
     Some (take mac_len buf, w) }"

definition crypto_verify_device_mac ::
  "bytes \<Rightarrow> bytes \<Rightarrow> nat \<Rightarrow> 'a crypto_scheme \<Rightarrow> (bool \<times> 'a crypto_scheme) option" where
  "crypto_verify_device_mac data mac mac_len w = do {
     (local_mac, w) \<leftarrow> crypto_compute_device_mac data mac_len w;
     Some (memcmp mac_len local_mac mac = 0, w) }"

text \<open>\<open>None\<close> is the null salt.\<close>

definition crypto_hkdf_extract_sha256 ::
  "bytes option \<Rightarrow> bytes \<Rightarrow> 'a crypto_scheme \<Rightarrow> (bytes \<times> 'a crypto_scheme) option" where
  "crypto_hkdf_extract_sha256 salt ikm w =
     (let salt = (case salt of None \<Rightarrow> replicate 32 0 | Some s \<Rightarrow> if length s = 0 then replicate 32 0 else s)
      in crypto_hmac salt [ikm] w)"

function hkdf_expand_loop ::
  "bytes \<Rightarrow> bytes \<Rightarrow> byte \<Rightarrow> bytes \<Rightarrow> byte \<Rightarrow> bytes \<Rightarrow> 'a crypto_scheme \<Rightarrow> (bytes \<times> 'a crypto_scheme) option"
where
  "hkdf_expand_loop prk info remaining t counter okm w =
     (if remaining = 0 then Some (okm, w)
      else do {
        (t, w) \<leftarrow> crypto_hmac prk [t, info, [counter]] w;
        let to_copy = (if remaining > 32 then 32 else remaining);
        hkdf_expand_loop prk info (remaining - to_copy) t (counter + 1) (okm @ take (unat to_copy) t) w })"
  by auto
termination
proof (relation "measure (\<lambda>(prk, info, remaining, t, counter, okm, w). unat remaining)")
  fix remaining to_copy :: byte
  assume r: "remaining \<noteq> 0" and c: "to_copy = (if 32 < remaining then 32 else remaining)"
  have c2: "0 < unat to_copy" "to_copy \<le> remaining"
    using r c by (auto simp: order.strict_implies_order unat_gt_0)
  have "unat (remaining - to_copy) = unat remaining - unat to_copy" using c2(2) by (rule unat_sub)
  then have "unat (remaining - to_copy) < unat remaining"
    using c2 by (simp add: word_le_nat_alt)
  then show "((prk, info, remaining - to_copy, t, counter, okm, w), (prk', info', remaining, t', counter', okm', w'))
      \<in> measure (\<lambda>(prk, info, remaining, t, counter, okm, w). unat remaining)"
    for prk info t counter okm w prk' info' t' counter' okm' w' by simp
qed simp

declare hkdf_expand_loop.simps [simp del]

definition crypto_hkdf_expand_sha256 ::
  "bytes \<Rightarrow> bytes \<Rightarrow> byte \<Rightarrow> 'a crypto_scheme \<Rightarrow> (bytes \<times> 'a crypto_scheme) option" where
  "crypto_hkdf_expand_sha256 prk info okm_len w = hkdf_expand_loop prk info okm_len [] 1 [] w"

section \<open>Key derivation\<close>

text \<open>The byte strings of the \<open>info\<close> arguments include the terminating zero
  (\<open>sizeof\<close> of a string literal).\<close>

definition c_string :: "string \<Rightarrow> bytes" where
  "c_string s = map (\<lambda>c. of_nat (of_char c)) s @ [0]"

definition derive_key ::
  "bytes \<Rightarrow> string \<Rightarrow> 'a crypto_scheme \<Rightarrow> (bytes \<times> 'a crypto_scheme) option" where
  "derive_key prk info w = crypto_hkdf_expand_sha256 prk (c_string info) 32 w"

text \<open>\<open>read_key\<close> is \<open>attestation_read_key\<close> of the attestation store, which fills the key
  structure it is given and returns a negative number on failure.\<close>

definition crypto_derive_device_keys ::
  "(att_key \<Rightarrow> 'a crypto_scheme \<Rightarrow> (int \<times> att_key \<times> 'a crypto_scheme) option) \<Rightarrow> 'a crypto_scheme
     \<Rightarrow> 'a crypto_scheme option" where
  "crypto_derive_device_keys read_key w = do {
     let secret = device_get_bound_secret w;
     (k, w) \<leftarrow> derive_key secret ''att_enc'' w;
     let w = w\<lparr>key_attestation_enc := k\<rparr>;
     (k, w) \<leftarrow> derive_key secret ''pin_enc'' w;
     let w = w\<lparr>key_pin_enc := k\<rparr>;
     (k, w) \<leftarrow> derive_key secret ''device_mac'' w;
     let w = w\<lparr>key_device_mac := k\<rparr>;
     (ret, ak, w) \<leftarrow> read_key (key_attest w) w;
     let w = w\<lparr>key_attest := ak\<rparr>;
     Some (if ret < 0 then w else w\<lparr>attestation_available := True\<rparr>) }"

definition crypto_derive_session_keys :: "bytes \<Rightarrow> 'a crypto_scheme \<Rightarrow> 'a crypto_scheme option" where
  "crypto_derive_session_keys salt w = do {
     (prk, w) \<leftarrow> crypto_hkdf_extract_sha256 (Some salt) (take 32 (device_get_bound_secret w)) w;
     (k, w) \<leftarrow> derive_key prk ''cred_priv'' w;
     let w = w\<lparr>key_cred_priv := k\<rparr>;
     (k, w) \<leftarrow> derive_key prk ''cred_mac'' w;
     let w = w\<lparr>key_cred_mac := k\<rparr>;
     (k, w) \<leftarrow> derive_key prk ''meta_enc'' w;
     let w = w\<lparr>key_meta_enc := k\<rparr>;
     (k, w) \<leftarrow> derive_key prk ''hmac_ext'' w;
     Some (w\<lparr>key_hmac_ext := k\<rparr>) }"

definition crypto_derive_credential_key ::
  "bytes \<Rightarrow> bytes \<Rightarrow> 'a crypto_scheme \<Rightarrow> (bytes \<times> 'a crypto_scheme) option" where
  "crypto_derive_credential_key d1 d2 w = crypto_hmac (key_cred_priv w) [d1, d2] w"

section \<open>Ciphers\<close>

definition crypto_aes256_ctr_xcrypt_buffer :: "bytes \<Rightarrow> bytes \<Rightarrow> bytes \<Rightarrow> bytes" where
  "crypto_aes256_ctr_xcrypt_buffer key iv buf =
     fst (AES_CTR_xcrypt_buffer (AES_init_ctx_iv \<lparr>RoundKey = [], Iv = []\<rparr> key iv) buf)"

definition crypto_aes256_init :: "bytes \<Rightarrow> bytes option \<Rightarrow> 'a crypto_scheme \<Rightarrow> 'a crypto_scheme" where
  "crypto_aes256_init key nonce w =
     w\<lparr>aes_ctx := (AES_init_ctx (aes_ctx w) key)
         \<lparr>Iv := (case nonce of None \<Rightarrow> replicate 16 0 | Some n \<Rightarrow> take 16 n)\<rparr>\<rparr>"

definition crypto_aes256_reset_iv :: "bytes option \<Rightarrow> 'a crypto_scheme \<Rightarrow> 'a crypto_scheme" where
  "crypto_aes256_reset_iv nonce w =
     w\<lparr>aes_ctx := (aes_ctx w)\<lparr>Iv := (case nonce of None \<Rightarrow> replicate 16 0 | Some n \<Rightarrow> take 16 n)\<rparr>\<rparr>"

definition crypto_aes256_decrypt :: "bytes \<Rightarrow> 'a crypto_scheme \<Rightarrow> bytes \<times> 'a crypto_scheme" where
  "crypto_aes256_decrypt buf w =
     (let (b, c) = AES_CBC_decrypt_buffer (aes_ctx w) buf in (b, w\<lparr>aes_ctx := c\<rparr>))"

definition crypto_aes256_encrypt :: "bytes \<Rightarrow> 'a crypto_scheme \<Rightarrow> bytes \<times> 'a crypto_scheme" where
  "crypto_aes256_encrypt buf w =
     (let (b, c) = AES_CBC_encrypt_buffer (aes_ctx w) buf in (b, w\<lparr>aes_ctx := c\<rparr>))"

section \<open>Signature keys\<close>

definition SECP256R1_N :: bytes where
  "SECP256R1_N = [0xFF, 0xFF, 0xFF, 0xFF, 0x00, 0x00, 0x00, 0x00, 0xFF, 0xFF, 0xFF, 0xFF, 0xFF, 0xFF,
     0xFF, 0xFF, 0xBC, 0xE6, 0xFA, 0xAD, 0xA7, 0x17, 0x9E, 0x84, 0xF3, 0xB9, 0xCA, 0xC2, 0xFC, 0x63,
     0x25, 0x51]"

text \<open>The loop returns at the first byte that is not zero.\<close>

fun valid_scalar_from :: "bytes \<Rightarrow> nat \<Rightarrow> nat \<Rightarrow> bool" where
  "valid_scalar_from k i 0 = False"
| "valid_scalar_from k i (Suc n) =
     (if k ! i \<noteq> 0 then memcmp 32 k SECP256R1_N < 0 else valid_scalar_from k (i + 1) n)"

definition crypto_ecc256_is_valid_scalar :: "bytes \<Rightarrow> bool" where
  "crypto_ecc256_is_valid_scalar k = valid_scalar_from k 0 32"

definition crypto_ecc256_load_attestation_key :: "'a crypto_scheme \<Rightarrow> 'a crypto_scheme" where
  "crypto_ecc256_load_attestation_key w =
     w\<lparr>signing := Attestation_Key (crypto_aes256_ctr_xcrypt_buffer (key_attestation_enc w)
         (att_nonce (key_attest w)) (take 32 (att_key_enc (key_attest w))))\<rparr>"

definition signing_bytes :: "signing_key \<Rightarrow> bytes" where
  "signing_bytes k = (case k of No_Key \<Rightarrow> [] | Attestation_Key b \<Rightarrow> b | Signing_Key b \<Rightarrow> b)"

text \<open>Signing with the attestation key wipes it.\<close>

definition crypto_ecc256_sign ::
  "'a crypto_scheme ecc_lib \<Rightarrow> bytes \<Rightarrow> 'a crypto_scheme \<Rightarrow> (bytes \<times> 'a crypto_scheme) option" where
  "crypto_ecc256_sign lib data w = do {
     (r, sig, w) \<leftarrow> uECC_sign lib (signing_bytes (signing w)) data w;
     if r = 0 then None
     else Some (sig, case signing w of
         Attestation_Key b \<Rightarrow> w\<lparr>signing := Attestation_Key (replicate (length b) 0)\<rparr> | _ \<Rightarrow> w) }"

definition crypto_ecc256_load_key :: "bytes \<Rightarrow> bytes \<Rightarrow> 'a crypto_scheme \<Rightarrow> 'a crypto_scheme option" where
  "crypto_ecc256_load_key d1 d2 w = do {
     (k, w) \<leftarrow> crypto_derive_credential_key d1 d2 w;
     Some (w\<lparr>signing := Signing_Key k\<rparr>) }"

definition crypto_load_external_key :: "bytes \<Rightarrow> 'a crypto_scheme \<Rightarrow> 'a crypto_scheme" where
  "crypto_load_external_key k w = w\<lparr>signing := Signing_Key k\<rparr>"

definition crypto_ecc256_derive_public_key ::
  "'a crypto_scheme ecc_lib \<Rightarrow> bytes \<Rightarrow> 'a crypto_scheme \<Rightarrow> ((bytes \<times> bytes) \<times> 'a crypto_scheme) option" where
  "crypto_ecc256_derive_public_key lib data w = do {
     (k, w) \<leftarrow> crypto_derive_credential_key data [] w;
     (pub, w) \<leftarrow> uECC_compute_public_key lib k w;
     Some ((take 32 pub, slice 32 32 pub), w) }"

definition crypto_ecc256_make_key_pair ::
  "'a crypto_scheme ecc_lib \<Rightarrow> 'a crypto_scheme \<Rightarrow> ((bytes \<times> bytes) \<times> 'a crypto_scheme) option" where
  "crypto_ecc256_make_key_pair lib w = do {
     (r, pub, priv, w) \<leftarrow> uECC_make_key lib w;
     if r \<noteq> 1 then None else Some ((pub, priv), w) }"

definition crypto_ecc256_shared_secret ::
  "'a crypto_scheme ecc_lib \<Rightarrow> bytes \<Rightarrow> bytes \<Rightarrow> 'a crypto_scheme \<Rightarrow> (bytes \<times> 'a crypto_scheme) option" where
  "crypto_ecc256_shared_secret lib pub priv w = do {
     (r, s, w) \<leftarrow> uECC_shared_secret lib pub priv w;
     if r \<noteq> 1 then None else Some (s, w) }"

definition fido2_crypto_ed25519_derive_public_key ::
  "'a crypto_scheme ecc_lib \<Rightarrow> bytes \<Rightarrow> 'a crypto_scheme \<Rightarrow> (bytes \<times> 'a crypto_scheme) option" where
  "fido2_crypto_ed25519_derive_public_key lib data w = do {
     (seed, w) \<leftarrow> crypto_derive_credential_key data [] w;
     Some (snd (ed25519_key_pair lib seed), w) }"

definition fido2_crypto_ed25519_load_key ::
  "'a crypto_scheme ecc_lib \<Rightarrow> bytes \<Rightarrow> 'a crypto_scheme \<Rightarrow> 'a crypto_scheme option" where
  "fido2_crypto_ed25519_load_key lib data w = do {
     (seed, w) \<leftarrow> crypto_derive_credential_key data [] w;
     Some (w\<lparr>signing := Signing_Key (fst (ed25519_key_pair lib seed))\<rparr>) }"

definition fido2_crypto_ed25519_sign ::
  "'a crypto_scheme ecc_lib \<Rightarrow> bytes \<Rightarrow> bytes \<Rightarrow> 'a crypto_scheme \<Rightarrow> bytes" where
  "fido2_crypto_ed25519_sign lib d1 d2 w =
     (if length d1 > 512 \<or> length d2 > 512 then replicate 64 0
      else ed25519_sign lib (signing_bytes (signing w)) (d1 @ d2))"

end
