(* ===== verification/Crypto_Laws.thy ===== *)
theory Crypto_Laws
  imports Crypto
begin

text \<open>
  What the wrappers of \<open>crypto.c\<close> compute: the streaming HMAC over the shared hash context is the
  HMAC of RFC 2104, the expand loop with its 8-bit counters is HKDF-Expand of RFC 5869, the scalar check
  is the range check on the number the bytes denote, and the constant-time comparison is equality.
\<close>

section \<open>Specifications\<close>

definition HMAC :: "bytes \<Rightarrow> bytes \<Rightarrow> bytes" where
  "HMAC key msg = SHA256 (hmac_pad key 0x5c @ SHA256 (hmac_pad key 0x36 @ msg))"

fun hkdf_T :: "bytes \<Rightarrow> bytes \<Rightarrow> nat \<Rightarrow> bytes" where
  "hkdf_T prk info 0 = []"
| "hkdf_T prk info (Suc n) = HMAC prk (hkdf_T prk info n @ info @ [of_nat (Suc n)])"

definition HKDF_expand :: "bytes \<Rightarrow> bytes \<Rightarrow> nat \<Rightarrow> bytes" where
  "HKDF_expand prk info len = take len (concat (map (hkdf_T prk info) [1..<Suc ((len + 31) div 32)]))"

definition crypto_ok :: "'a crypto_scheme \<Rightarrow> bool" where
  "crypto_ok w = (length (sha_data (sha256_ctx w)) = 64)"

text \<open>Two states that differ at most in the hash context.\<close>

definition hash_frame :: "'a crypto_scheme \<Rightarrow> 'a crypto_scheme \<Rightarrow> bool" where
  "hash_frame w w' = (\<exists>c. w' = w\<lparr>sha256_ctx := c\<rparr> \<and> length (sha_data c) = 64)"

lemma hash_frame_ok: "hash_frame w w' \<Longrightarrow> crypto_ok w'"
  by (auto simp: hash_frame_def crypto_ok_def)

lemma hash_frame_trans: "hash_frame w w' \<Longrightarrow> hash_frame w' w'' \<Longrightarrow> hash_frame w w''"
  by (auto simp: hash_frame_def)

lemma hash_frame_fields:
  assumes "hash_frame w w'"
  shows "key_device_mac w' = key_device_mac w" "key_cred_priv w' = key_cred_priv w" "cdi w' = cdi w"
    "key_cred_mac w' = key_cred_mac w" "key_meta_enc w' = key_meta_enc w"
    "key_hmac_ext w' = key_hmac_ext w" "key_pin_enc w' = key_pin_enc w" "aes_ctx w' = aes_ctx w"
    "key_attestation_enc w' = key_attestation_enc w"
  using assms by (auto simp: hash_frame_def)

section \<open>Hashing\<close>

definition hash_fed :: "'a crypto_scheme \<Rightarrow> bytes \<Rightarrow> bool" where
  "hash_fed w msg = sha_fed (sha256_ctx w) msg"

lemma sha_fed_length: "sha_fed c m \<Longrightarrow> length (sha_data c) = 64"
  by (auto simp: sha_fed_def)

lemma hash_fed_init: "crypto_ok w \<Longrightarrow> hash_fed (crypto_sha256_init w) []"
  by (simp add: hash_fed_def crypto_sha256_init_def crypto_ok_def sha_fed_init)

lemma hash_fed_update: "hash_fed w msg \<Longrightarrow> hash_fed (crypto_sha256_update d w) (msg @ d)"
  by (simp add: hash_fed_def crypto_sha256_update_def sha_fed_update)

lemma hash_fed_updates: "hash_fed w msg \<Longrightarrow> hash_fed (fold crypto_sha256_update ds w) (msg @ concat ds)"
proof (induction ds arbitrary: w msg)
  case (Cons d ds)
  then show ?case using Cons.IH [OF hash_fed_update [OF Cons.prems]] by simp
qed simp

lemma hash_fed_final:
  "hash_fed w msg \<Longrightarrow> \<exists>w'. crypto_sha256_final w = (SHA256 msg, w') \<and> hash_frame w w'"
  using sha_fed_final [of "sha256_ctx w" msg] length_sha256_final [of "sha256_ctx w" msg]
  by (auto simp: hash_fed_def crypto_sha256_final_def hash_frame_def case_prod_unfold Let_def)

lemma hash_step_frames:
  "crypto_ok w \<Longrightarrow> hash_frame w (crypto_sha256_init w)"
  "hash_fed w msg \<Longrightarrow> hash_frame w (crypto_sha256_update d w)"
  using sha_fed_length sha_fed_update
  by (fastforce simp: hash_frame_def crypto_sha256_init_def crypto_sha256_update_def crypto_ok_def
      sha256_init_def hash_fed_def)+

lemma hash_updates_frame: "hash_fed w msg \<Longrightarrow> hash_frame w (fold crypto_sha256_update ds w)"
proof (induction ds arbitrary: w msg)
  case Nil
  then have "w = w\<lparr>sha256_ctx := sha256_ctx w\<rparr>" "length (sha_data (sha256_ctx w)) = 64"
    by (simp_all add: hash_fed_def sha_fed_length)
  then show ?case unfolding hash_frame_def by (metis fold_simps(1))
next
  case (Cons d ds)
  then show ?case
    using Cons.IH [OF hash_fed_update [OF Cons.prems]] hash_step_frames(2) [OF Cons.prems, of d]
      hash_frame_trans by fastforce
qed

lemma crypto_sha256_SHA256: "crypto_sha256 d = SHA256 d"
proof -
  have "sha_fed (sha256_update (sha256_init sha256_blank) d) d"
    using sha_fed_update [OF sha_fed_init, of sha256_blank d] by (simp add: sha256_blank_def)
  then show ?thesis by (simp add: crypto_sha256_def sha_fed_final)
qed

section \<open>HMAC\<close>

lemma hmac_stream:
  assumes "crypto_ok w" "length key \<le> 64"
  shows "\<exists>w'. crypto_hmac key ds w = Some (HMAC key (concat ds), w') \<and> hash_frame w w'"
proof -
  define w1 where "w1 = crypto_sha256_update (hmac_pad key 0x36) (crypto_sha256_init w)"
  have f0: "hash_fed (crypto_sha256_init w) []" by (rule hash_fed_init [OF assms(1)])
  have f1: "hash_fed w1 (hmac_pad key 0x36)" using hash_fed_update [OF f0] by (simp add: w1_def)
  have r1: "hash_frame w w1"
    using hash_step_frames(1) [OF assms(1)] hash_step_frames(2) [OF f0] hash_frame_trans
    unfolding w1_def by blast
  define w2 where "w2 = fold crypto_sha256_update ds w1"
  have f2: "hash_fed w2 (hmac_pad key 0x36 @ concat ds)" and r2: "hash_frame w1 w2"
    unfolding w2_def by (rule hash_fed_updates [OF f1], rule hash_updates_frame [OF f1])
  obtain w3 where w3: "crypto_sha256_final w2 = (SHA256 (hmac_pad key 0x36 @ concat ds), w3)"
    "hash_frame w2 w3" using hash_fed_final [OF f2] by blast
  let ?inner = "SHA256 (hmac_pad key 0x36 @ concat ds)"
  define w4 where "w4 = crypto_sha256_update (hmac_pad key 0x5c) (crypto_sha256_init w3)"
  have ok3: "crypto_ok w3" by (rule hash_frame_ok [OF w3(2)])
  have f3: "hash_fed (crypto_sha256_init w3) []" by (rule hash_fed_init [OF ok3])
  have f4: "hash_fed w4 (hmac_pad key 0x5c)" using hash_fed_update [OF f3] by (simp add: w4_def)
  have r4: "hash_frame w3 w4"
    using hash_step_frames(1) [OF ok3] hash_step_frames(2) [OF f3] hash_frame_trans
    unfolding w4_def by blast
  have f5: "hash_fed (crypto_sha256_update ?inner w4) (hmac_pad key 0x5c @ ?inner)"
    by (rule hash_fed_update [OF f4])
  obtain w5 where w5: "crypto_sha256_final (crypto_sha256_update ?inner w4) = (HMAC key (concat ds), w5)"
    "hash_frame (crypto_sha256_update ?inner w4) w5"
    using hash_fed_final [OF f5] by (auto simp: HMAC_def)
  have "hash_frame w w5"
    using r1 r2 w3(2) r4 hash_step_frames(2) [OF f4] w5(2) hash_frame_trans by meson
  moreover have "crypto_hmac key ds w = Some (HMAC key (concat ds), w5)"
    using assms(2) w3(1) w5(1)
    by (simp add: crypto_hmac_def crypto_sha256_hmac_init_def crypto_sha256_hmac_final_def
        w1_def [symmetric] w2_def [symmetric] w4_def [symmetric])
  ultimately show ?thesis by blast
qed

lemma length_HMAC [simp]: "length (HMAC key msg) = 32"
  by (simp add: HMAC_def)

section \<open>HKDF\<close>

lemma take_first_chunk:
  assumes "length (T (Suc n)) = 32"
  shows "take r (concat (map T [Suc n..<Suc n + Suc k])) = take (min r 32) (T (Suc n))
    @ take (r - min r 32) (concat (map T [Suc (Suc n)..<Suc (Suc n) + k]))"
proof -
  have "[Suc n..<Suc n + Suc k] = Suc n # [Suc (Suc n)..<Suc (Suc n) + k]"
    by (subst upt_conv_Cons) simp_all
  then show ?thesis
    using assms by (cases "r \<le> 32") simp_all
qed

lemma hkdf_loop:
  assumes "crypto_ok w" "length prk \<le> 64"
  shows "\<exists>w'. hkdf_expand_loop prk info remaining (hkdf_T prk info n) (of_nat (Suc n)) okm w
      = Some (okm @ take (unat remaining)
          (concat (map (hkdf_T prk info) [Suc n..<Suc n + (unat remaining + 31) div 32])), w')
    \<and> hash_frame w w'"
  using assms(1)
proof (induction "unat remaining" arbitrary: remaining n okm w rule: less_induct)
  case less
  show ?case
  proof (cases "remaining = 0")
    case True
    have "hash_frame w w"
      using less.prems unfolding hash_frame_def crypto_ok_def by (intro exI [of _ "sha256_ctx w"]) simp
    then show ?thesis using True by (simp add: hkdf_expand_loop.simps)
  next
    case False
    let ?T = "hkdf_T prk info" and ?r = "unat remaining"
    let ?c = "if remaining > 32 then 32 else remaining"
    obtain w1 where w1: "crypto_hmac prk [?T n, info, [of_nat (Suc n)]] w = Some (?T (Suc n), w1)"
      "hash_frame w w1"
      using hmac_stream [OF less.prems assms(2), of "[?T n, info, [of_nat (Suc n)]]"] by auto
    have c: "unat ?c = min ?r 32" "unat (remaining - ?c) = ?r - min ?r 32"
      by (auto simp: min_def word_less_nat_alt unat_sub word_le_nat_alt)
    have pos: "0 < ?r" using False by (simp add: unat_gt_0)
    have "unat (remaining - ?c) < ?r" using c pos by simp
    then obtain w2 where w2: "hkdf_expand_loop prk info (remaining - ?c) (?T (Suc n)) (of_nat (Suc (Suc n)))
        (okm @ take (unat ?c) (?T (Suc n))) w1
      = Some ((okm @ take (unat ?c) (?T (Suc n))) @ take (unat (remaining - ?c))
          (concat (map ?T [Suc (Suc n)..<Suc (Suc n) + (unat (remaining - ?c) + 31) div 32])), w2)"
      "hash_frame w1 w2"
      using less.hyps [of "remaining - ?c" w1 "Suc n" "okm @ take (unat ?c) (?T (Suc n))"]
        hash_frame_ok [OF w1(2)] by blast
    have k: "(?r + 31) div 32 = Suc ((?r - min ?r 32 + 31) div 32)" using pos by (auto simp: min_def)
    have len: "length (?T (Suc n)) = 32" by simp
    have "take ?r (concat (map ?T [Suc n..<Suc n + (?r + 31) div 32]))
        = take (min ?r 32) (?T (Suc n)) @ take (?r - min ?r 32)
          (concat (map ?T [Suc (Suc n)..<Suc (Suc n) + (?r - min ?r 32 + 31) div 32]))"
      unfolding k using take_first_chunk [of ?T, OF len] by blast
    then have "hkdf_expand_loop prk info remaining (?T n) (of_nat (Suc n)) okm w = Some (okm @ take ?r
        (concat (map ?T [Suc n..<Suc n + (?r + 31) div 32])), w2)"
      using w1(1) w2(1) False c
      by (subst hkdf_expand_loop.simps) (simp add: Let_def add.commute del: hkdf_T.simps)
    then show ?thesis using hash_frame_trans [OF w1(2) w2(2)] by blast
  qed
qed

lemma hkdf_expand:
  assumes "crypto_ok w" "length prk \<le> 64"
  shows "\<exists>w'. crypto_hkdf_expand_sha256 prk info len w = Some (HKDF_expand prk info (unat len), w')
    \<and> hash_frame w w'"
  using hkdf_loop [OF assms, of info len 0 "[]"]
  by (simp add: crypto_hkdf_expand_sha256_def HKDF_expand_def)

lemma length_HKDF_expand: "length (HKDF_expand prk info len) = len"
proof -
  have "length (concat (map (hkdf_T prk info) [1..<Suc n])) = 32 * n" for n
    by (induction n) simp_all
  then show ?thesis by (simp add: HKDF_expand_def del: upt_Suc)
qed

section \<open>Scalars and comparison\<close>

lemma memeq_diff_or: "memeq_diff a b i n diff = 0 \<longleftrightarrow> diff = 0 \<and> (\<forall>j < n. a ! (i + j) = b ! (i + j))"
proof (induction n arbitrary: i diff)
  case (Suc n)
  have "x OR y = 0 \<longleftrightarrow> x = 0 \<and> y = 0" for x y :: byte by (metis or.right_neutral or_eq_0_iff)
  moreover have "a ! i XOR b ! i = 0 \<longleftrightarrow> a ! i = b ! i" by (metis xor_self_eq xor.assoc xor.left_neutral)
  ultimately show ?case using Suc by (auto simp: less_Suc_eq_0_disj)
qed simp

lemma valid_scalar_from:
  assumes "length k = 32"
  shows "i + n = 32 \<Longrightarrow> valid_scalar_from k i n \<longleftrightarrow>
    (\<exists>j. i \<le> j \<and> j < 32 \<and> k ! j \<noteq> 0) \<and> of_be k < of_be SECP256R1_N"
proof (induction n arbitrary: i)
  case (Suc n)
  have m: "memcmp 32 k SECP256R1_N < 0 \<longleftrightarrow> of_be k < of_be SECP256R1_N"
    using assms by (intro memcmp_less) (simp_all add: SECP256R1_N_def)
  show ?case
  proof (cases "k ! i = 0")
    case True
    then have "(\<exists>j. i \<le> j \<and> j < 32 \<and> k ! j \<noteq> 0) \<longleftrightarrow> (\<exists>j. i + 1 \<le> j \<and> j < 32 \<and> k ! j \<noteq> 0)"
      by (metis Suc_eq_plus1 Suc_leD le_antisym not_less_eq_eq)
    then show ?thesis using True Suc by simp
  next
    case False
    then show ?thesis using m Suc.prems by auto
  qed
qed simp

lemma of_be_zero: "of_be k = 0 \<longleftrightarrow> (\<forall>b \<in> set k. b = 0)"
  by (induction k) (auto simp: of_be_Cons of_be_def [of "[]"] unat_eq_0)

section \<open>Key derivation\<close>

lemma derive_key_hkdf:
  assumes "crypto_ok w" "length prk \<le> 64"
  shows "\<exists>w'. derive_key prk info w = Some (HKDF_expand prk (c_string info) 32, w') \<and> hash_frame w w'"
  using hkdf_expand [OF assms, of "c_string info" 32] by (simp add: derive_key_def)

lemma crypto_ok_keys [simp]:
  "crypto_ok (w\<lparr>key_cred_priv := k\<rparr>) = crypto_ok w" "crypto_ok (w\<lparr>key_cred_mac := k\<rparr>) = crypto_ok w"
  "crypto_ok (w\<lparr>key_meta_enc := k\<rparr>) = crypto_ok w" "crypto_ok (w\<lparr>key_hmac_ext := k\<rparr>) = crypto_ok w"
  by (simp_all add: crypto_ok_def)

lemma derive_key_step:
  assumes "crypto_ok w" "length prk \<le> 64"
  obtains w' where "derive_key prk info w = Some (HKDF_expand prk (c_string info) 32, w')"
    "crypto_ok w'" "key_cred_priv w' = key_cred_priv w" "key_cred_mac w' = key_cred_mac w"
    "key_meta_enc w' = key_meta_enc w"
  using derive_key_hkdf [OF assms, of info] hash_frame_ok hash_frame_fields by metis

section \<open>Properties\<close>

text \<open>C33: The streaming HMAC over the shared hash context is the HMAC-SHA256 of RFC 2104 of the
  concatenated pieces, for keys of up to 64 bytes; longer keys halt the device. Nothing but the hash
  context changes.\<close>

theorem crypto_hmac_rfc2104:
  assumes "crypto_ok w"
  shows "if length key \<le> 64
    then \<exists>w'. crypto_hmac key ds w = Some (HMAC key (concat ds), w') \<and> hash_frame w w'
    else crypto_hmac key ds w = None"
  using hmac_stream [OF assms] by (simp add: crypto_hmac_def crypto_sha256_hmac_init_def)

text \<open>A state for the witnesses.\<close>

definition demo_crypto :: crypto where
  "demo_crypto = \<lparr>timer_reg = \<lambda>_. 0xfffff000, timer_reads = 0, touch_reg = \<lambda>_. 0,
     touch_reads = 0, trng_ready = \<lambda>_. True, trng_polls = 0,
     trng_reg = \<lambda>_. 0, trng_reads = 0, cdi = replicate 8 7, led = LED_BLACK, usb_out = [],
     hid_state = IDLE, CIDS = [], active_cid_timestamp = 0, ctap_buffer = [], ctap_buffer_cid = 0,
     ctap_buffer_cmd = 0, ctap_buffer_bcnt = 0, ctap_buffer_offset = 0, ctap_packet_seq = 0,
     cid_counter = 0, is_busy = False, sha256_ctx = sha256_blank, aes_ctx = \<lparr>RoundKey = [], Iv = []\<rparr>,
     key_attestation_enc = [], key_pin_enc = [], key_device_mac = replicate 32 1, key_cred_priv = [],
     key_cred_mac = [], key_meta_enc = [], key_hmac_ext = [],
     key_attest = \<lparr>att_key_enc = [], att_nonce = [], att_mac = []\<rparr>, attestation_available = False, signing = No_Key\<rparr>"

lemma demo_crypto_ok: "crypto_ok demo_crypto" "length (key_device_mac demo_crypto) = 32"
  by (simp_all add: crypto_ok_def demo_crypto_def sha256_blank_def)

lemma crypto_hmac_rfc2104_witness:
  "\<exists>w'. crypto_hmac [1, 2, 3] [[4], [5, 6]] demo_crypto = Some (HMAC [1, 2, 3] [4, 5, 6], w')
    \<and> hash_frame demo_crypto w'"
  using crypto_hmac_rfc2104 [OF demo_crypto_ok(1), of "[1, 2, 3]" "[[4], [5, 6]]"] by simp

text \<open>The expand loop with its 8-bit counters is HKDF-Expand of RFC 5869 for every output length
  its parameter can hold (0 to 255 bytes): it ends, and returns the first bytes of the blocks
  T(1), T(2), and so on.\<close>

theorem crypto_hkdf_expand_rfc5869:
  assumes "crypto_ok w" "length prk \<le> 64"
  shows "\<exists>w'. crypto_hkdf_expand_sha256 prk info len w = Some (HKDF_expand prk info (unat len), w')
    \<and> length (HKDF_expand prk info (unat len)) = unat len \<and> hash_frame w w'"
  using hkdf_expand [OF assms] length_HKDF_expand by blast

lemma crypto_hkdf_expand_rfc5869_witness:
  "\<exists>w'. crypto_hkdf_expand_sha256 (replicate 32 9) [1] 255 demo_crypto
      = Some (HKDF_expand (replicate 32 9) [1] 255, w')"
  using crypto_hkdf_expand_rfc5869 [OF demo_crypto_ok(1), of "replicate 32 9" "[1]" 255] by auto

text \<open>The session keys are the four HKDF-SHA256 outputs for the hardware secret as input keying
  material, the given salt and four different labels; each key is 32 bytes long.\<close>

theorem crypto_derive_session_keys_hkdf:
  assumes "crypto_ok w" "salt \<noteq> []" "length salt \<le> 64"
  shows "\<exists>w'. crypto_derive_session_keys salt w = Some w' \<and> crypto_ok w'
    \<and> (let prk = HMAC salt (take 32 (device_get_bound_secret w)) in
        key_cred_priv w' = HKDF_expand prk (c_string ''cred_priv'') 32
      \<and> key_cred_mac w' = HKDF_expand prk (c_string ''cred_mac'') 32
      \<and> key_meta_enc w' = HKDF_expand prk (c_string ''meta_enc'') 32
      \<and> key_hmac_ext w' = HKDF_expand prk (c_string ''hmac_ext'') 32)"
proof -
  let ?prk = "HMAC salt (take 32 (device_get_bound_secret w))"
  have lp: "length ?prk \<le> 64" by simp
  obtain w0 where w0: "crypto_hkdf_extract_sha256 (Some salt) (take 32 (device_get_bound_secret w)) w
      = Some (?prk, w0)" "crypto_ok w0"
    using hmac_stream [OF assms(1,3), of "[take 32 (device_get_bound_secret w)]"] assms(2) hash_frame_ok
    by (auto simp: crypto_hkdf_extract_sha256_def)
  let ?k = "\<lambda>i. HKDF_expand ?prk (c_string i) 32"
  obtain w1 where w1: "derive_key ?prk ''cred_priv'' w0 = Some (?k ''cred_priv'', w1)" "crypto_ok w1"
    using derive_key_step [OF w0(2) lp] by metis
  obtain w2 where w2: "derive_key ?prk ''cred_mac'' (w1\<lparr>key_cred_priv := ?k ''cred_priv''\<rparr>)
      = Some (?k ''cred_mac'', w2)" "crypto_ok w2" "key_cred_priv w2 = ?k ''cred_priv''"
    using derive_key_step [OF _ lp, of "w1\<lparr>key_cred_priv := ?k ''cred_priv''\<rparr>" "''cred_mac''"] w1(2) by auto
  obtain w3 where w3: "derive_key ?prk ''meta_enc'' (w2\<lparr>key_cred_mac := ?k ''cred_mac''\<rparr>)
      = Some (?k ''meta_enc'', w3)" "crypto_ok w3" "key_cred_priv w3 = ?k ''cred_priv''"
      "key_cred_mac w3 = ?k ''cred_mac''"
    using derive_key_step [OF _ lp, of "w2\<lparr>key_cred_mac := ?k ''cred_mac''\<rparr>" "''meta_enc''"] w2 by auto
  obtain w4 where w4: "derive_key ?prk ''hmac_ext'' (w3\<lparr>key_meta_enc := ?k ''meta_enc''\<rparr>)
      = Some (?k ''hmac_ext'', w4)" "crypto_ok w4" "key_cred_priv w4 = ?k ''cred_priv''"
      "key_cred_mac w4 = ?k ''cred_mac''" "key_meta_enc w4 = ?k ''meta_enc''"
    using derive_key_step [OF _ lp, of "w3\<lparr>key_meta_enc := ?k ''meta_enc''\<rparr>" "''hmac_ext''"] w3 by auto
  show ?thesis
    using w0(1) w1(1) w2(1) w3(1) w4 by (simp add: crypto_derive_session_keys_def)
qed

lemma crypto_derive_session_keys_hkdf_witness:
  "\<exists>w'. crypto_derive_session_keys (replicate 32 5) demo_crypto = Some w' \<and> crypto_ok w'"
  using crypto_derive_session_keys_hkdf [OF demo_crypto_ok(1), of "replicate 32 5"] by auto

text \<open>The device MAC check accepts exactly the first \<open>mac_len\<close> bytes of the HMAC under the
  device key.\<close>

theorem crypto_device_mac_exact:
  assumes "crypto_ok w" "length (key_device_mac w) = 32" "mac_len \<le> 32" "length mac = mac_len"
  shows "\<exists>w'. crypto_verify_device_mac data mac mac_len w
      = Some (mac = take mac_len (HMAC (key_device_mac w) data), w') \<and> hash_frame w w'"
proof -
  obtain w' where "crypto_hmac (key_device_mac w) [data] w = Some (HMAC (key_device_mac w) data, w')"
    "hash_frame w w'"
    using hmac_stream [OF assms(1), of "key_device_mac w" "[data]"] assms(2) by auto
  moreover have "memcmp mac_len (take mac_len (HMAC (key_device_mac w) data)) mac = 0
      \<longleftrightarrow> mac = take mac_len (HMAC (key_device_mac w) data)"
    using assms(3,4) by (subst memcmp_eq_0) auto
  ultimately show ?thesis
    by (simp add: crypto_verify_device_mac_def crypto_compute_device_mac_def)
qed

text \<open>The scalar check accepts a 32-byte private key exactly when the number it denotes is at least
  one and below the order of the curve.\<close>

theorem crypto_valid_scalar_range:
  assumes "length k = 32"
  shows "crypto_ecc256_is_valid_scalar k \<longleftrightarrow> 1 \<le> of_be k \<and> of_be k < of_be SECP256R1_N"
proof -
  have "(\<exists>j. 0 \<le> j \<and> j < 32 \<and> k ! j \<noteq> 0) \<longleftrightarrow> of_be k \<noteq> 0"
    using assms by (auto simp: of_be_zero all_set_conv_all_nth)
  then show ?thesis
    using valid_scalar_from [OF assms, of 0 32] by (auto simp: crypto_ecc256_is_valid_scalar_def)
qed

lemma crypto_valid_scalar_range_witness:
  "crypto_ecc256_is_valid_scalar (replicate 31 0 @ [1]) \<longleftrightarrow>
     1 \<le> of_be (replicate 31 0 @ [1]) \<and> of_be (replicate 31 0 @ [1]) < of_be SECP256R1_N"
  using crypto_valid_scalar_range [of "replicate 31 0 @ [1]"] by simp

text \<open>The constant-time comparison returns true exactly when the first \<open>n\<close> bytes agree.\<close>

theorem secure_memeq_iff:
  assumes "n \<le> length a" "n \<le> length b"
  shows "secure_memeq a b n \<longleftrightarrow> take n a = take n b"
  using assms by (auto simp: secure_memeq_def memeq_diff_or list_eq_iff_nth_eq)

end
