(* ===== verification/Rng.thy ===== *)
theory Rng
  imports Crypto_Laws
begin

text \<open>
  \<open>targets/tkey/src/rng.c\<close>: the random number generator, a hash chain over the hardware secret and the
  true random number generator (TRNG). The generator's context is the record \<open>rng\<close>, which extends
  the crypto state. \<open>trng_ready n\<close> says whether the \<open>n\<close>-th poll of the TRNG status register finds
  the ready bit, \<open>trng_reg n\<close> is the \<open>n\<close>-th entropy word read.
\<close>

definition RESEED_TIME :: u32 where "RESEED_TIME = 4096"

record rng = crypto +
  state_ctr_lsb :: u32
  state_ctr_msb :: u32
  reseed_ctr :: u32
  rng_state :: "u32 list"
  rng_digest :: "u32 list"
  valid_bytes :: byte
  rng_initialized :: bool

partial_function (option) trng_wait :: "'a hw_scheme \<Rightarrow> 'a hw_scheme option" where
  "trng_wait w =
     (if trng_ready w (trng_polls w) then Some (w\<lparr>trng_polls := trng_polls w + 1\<rparr>)
      else trng_wait (w\<lparr>trng_polls := trng_polls w + 1\<rparr>))"

declare trng_wait.simps [code]

definition entropy_get :: "'a hw_scheme \<Rightarrow> (u32 \<times> 'a hw_scheme) option" where
  "entropy_get w = do {
     w \<leftarrow> trng_wait w;
     Some (trng_reg w (trng_reads w), w\<lparr>trng_reads := trng_reads w + 1\<rparr>) }"

text \<open>The words of a 32-byte digest as they lie in memory.\<close>

definition digest_words :: "bytes \<Rightarrow> u32 list" where
  "digest_words bs = map (\<lambda>i. of_nat (of_le (slice (4 * i) 4 bs))) [0..<8]"

definition digest_bytes :: "u32 list \<Rightarrow> bytes" where
  "digest_bytes ws = concat (map le32 ws)"

fun reseed_from :: "nat \<Rightarrow> nat \<Rightarrow> 'a rng_scheme \<Rightarrow> 'a rng_scheme option" where
  "reseed_from i 0 w = Some w"
| "reseed_from i (Suc n) w = do {
     (e, w) \<leftarrow> entropy_get w;
     reseed_from (i + 1) n (w\<lparr>rng_state := (rng_state w)[i + 8 := e]\<rparr>) }"

definition rng_count :: "'a rng_scheme \<Rightarrow> 'a rng_scheme" where
  "rng_count w =
     (let w = w\<lparr>state_ctr_lsb := state_ctr_lsb w + 1\<rparr>;
          w = (if state_ctr_lsb w = 0 then w\<lparr>state_ctr_msb := state_ctr_msb w + 1\<rparr> else w);
          w = w\<lparr>rng_state := (rng_state w)[14 := rng_state w ! 14 + state_ctr_msb w]\<rparr>
      in w\<lparr>rng_state := (rng_state w)[15 := rng_state w ! 15 + state_ctr_lsb w]\<rparr>)"

definition rng_update :: "'a rng_scheme \<Rightarrow> 'a rng_scheme option" where
  "rng_update w =
     (let w = w\<lparr>rng_state := blit (rng_state w) 0 (take 8 (rng_digest w))\<rparr>;
          w = rng_count w;
          w = w\<lparr>reseed_ctr := reseed_ctr w + 1\<rparr>
      in if reseed_ctr w = RESEED_TIME
         then do { w \<leftarrow> reseed_from 0 8 w; Some (w\<lparr>reseed_ctr := 0\<rparr>) }
         else Some w)"

fun rng_init_from :: "nat \<Rightarrow> nat \<Rightarrow> 'a rng_scheme \<Rightarrow> 'a rng_scheme option" where
  "rng_init_from i 0 w = Some w"
| "rng_init_from i (Suc n) w = do {
     (e, w) \<leftarrow> entropy_get w;
     let w = w\<lparr>rng_state := (rng_state w)[i := cdi w ! i + e]\<rparr>;
     (e, w) \<leftarrow> entropy_get w;
     rng_init_from (i + 1) n (w\<lparr>rng_state := (rng_state w)[i + 8 := e]\<rparr>) }"

text \<open>Hashing the state and stepping it makes sixteen fresh bytes available.\<close>

definition rng_refill :: "'a rng_scheme \<Rightarrow> 'a rng_scheme option" where
  "rng_refill w = do {
     w \<leftarrow> rng_update (w\<lparr>rng_digest := digest_words (crypto_sha256 (digest_bytes (rng_state w)))\<rparr>);
     Some (w\<lparr>valid_bytes := 16\<rparr>) }"

definition rng_init :: "'a rng_scheme \<Rightarrow> 'a rng_scheme option" where
  "rng_init w = do {
     w \<leftarrow> rng_init_from 0 8 w;
     (e, w) \<leftarrow> entropy_get w;
     let w = w\<lparr>state_ctr_lsb := e\<rparr>;
     (e, w) \<leftarrow> entropy_get w;
     let w = w\<lparr>state_ctr_msb := e\<rparr>;
     w \<leftarrow> rng_refill (w\<lparr>reseed_ctr := 0\<rparr>);
     Some (w\<lparr>rng_initialized := True\<rparr>) }"

lemma rng_refill_valid: "rng_refill w = Some w' \<Longrightarrow> valid_bytes w' = 16"
  by (auto simp: rng_refill_def Option.bind_eq_Some_conv)

function rng_loop :: "nat \<Rightarrow> bytes \<Rightarrow> 'a rng_scheme \<Rightarrow> (bytes \<times> 'a rng_scheme) option" where
  "rng_loop remaining out w =
     (if remaining = 0 then Some (out, w)
      else do {
        w \<leftarrow> (if valid_bytes w = 0 then rng_refill w else Some w);
        let to_copy = min (unat (valid_bytes w)) remaining;
        let chunk = slice (16 - unat (valid_bytes w)) to_copy (digest_bytes (rng_digest w));
        rng_loop (remaining - to_copy) (out @ chunk)
          (w\<lparr>valid_bytes := valid_bytes w - of_nat to_copy\<rparr>) })"
  by auto
termination
proof (relation "measure (\<lambda>(remaining, out, w). remaining)")
  fix remaining out and w w' :: "'a rng_scheme" and to_copy chunk
  assume "remaining \<noteq> 0" "(if valid_bytes w = 0 then rng_refill w else Some w) = Some w'"
    "to_copy = min (unat (valid_bytes w')) remaining"
  then have "0 < to_copy"
    by (auto dest: rng_refill_valid split: if_splits simp: unat_gt_0)
  then show "((remaining - to_copy, out @ chunk, w'\<lparr>valid_bytes := valid_bytes w' - of_nat to_copy\<rparr>),
      remaining, out, w) \<in> measure (\<lambda>(remaining, out, w). remaining)"
    using \<open>remaining \<noteq> 0\<close> by simp
qed simp

declare rng_loop.simps [simp del]

text \<open>The result is the return value (0 for success), the bytes written and the new state.\<close>

definition rng_get_bytes :: "nat \<Rightarrow> 'a rng_scheme \<Rightarrow> (int \<times> bytes \<times> 'a rng_scheme) option" where
  "rng_get_bytes sz w =
     (if \<not> rng_initialized w then Some (- 1, [], w)
      else do { (out, w) \<leftarrow> rng_loop sz [] w; Some (0, out, w) })"

text \<open>\<open>dst\<close> is the buffer whose first \<open>num\<close> bytes are overwritten; the result is 1 for success.\<close>

definition ctap_generate_rng :: "bytes \<Rightarrow> nat \<Rightarrow> 'a rng_scheme \<Rightarrow> (int \<times> bytes \<times> 'a rng_scheme) option" where
  "ctap_generate_rng dst num w = do {
     (r, out, w) \<leftarrow> rng_get_bytes num w;
     Some (if r \<noteq> 0 then 0 else 1, blit dst 0 out, w) }"

section \<open>Waiting for entropy\<close>

definition rng_ok :: "'a rng_scheme \<Rightarrow> bool" where
  "rng_ok w \<longleftrightarrow> length (rng_state w) = 16 \<and> length (rng_digest w) = 8 \<and> unat (valid_bytes w) \<le> 16
     \<and> (\<forall>n. \<exists>m \<ge> n. trng_ready w m)"

text \<open>What a draw may change: the poll and read counters of the hardware and the generator's own
  context. \<open>rng_mask\<close> forgets these, so that two states differ in nothing else exactly when
  their masks agree.\<close>

definition rng_mask :: "'a rng_scheme \<Rightarrow> 'a rng_scheme" where
  "rng_mask w = w\<lparr>trng_polls := 0, trng_reads := 0, state_ctr_lsb := 0, state_ctr_msb := 0,
     reseed_ctr := 0, rng_state := [], rng_digest := [], valid_bytes := 0\<rparr>"

definition rng_frame :: "'a rng_scheme \<Rightarrow> 'a rng_scheme \<Rightarrow> bool" where
  "rng_frame w w' \<longleftrightarrow> rng_ok w' \<and> rng_mask w' = rng_mask w"

lemma rng_frame_ok: "rng_frame w w' \<Longrightarrow> rng_ok w'"
  by (simp add: rng_frame_def)

lemma rng_frame_trans: "rng_frame w w' \<Longrightarrow> rng_frame w' w'' \<Longrightarrow> rng_frame w w''"
  by (simp add: rng_frame_def)

lemma rng_frame_refl: "rng_ok w \<Longrightarrow> rng_frame w w"
  by (simp add: rng_frame_def)

lemma rng_frame_fields:
  assumes "rng_frame w w'"
  shows "rng_initialized w' = rng_initialized w" "rng.more w' = rng.more w" "key_pin_enc w' = key_pin_enc w"
    "sha256_ctx w' = sha256_ctx w" "timer_reg w' = timer_reg w" "timer_reads w' = timer_reads w"
proof -
  have m: "rng_mask w' = rng_mask w" using assms by (simp add: rng_frame_def)
  show "rng_initialized w' = rng_initialized w" "rng.more w' = rng.more w" "key_pin_enc w' = key_pin_enc w"
    "sha256_ctx w' = sha256_ctx w" "timer_reg w' = timer_reg w" "timer_reads w' = timer_reads w"
    using arg_cong [OF m, of rng_initialized] arg_cong [OF m, of rng.more] arg_cong [OF m, of key_pin_enc]
      arg_cong [OF m, of sha256_ctx] arg_cong [OF m, of timer_reg] arg_cong [OF m, of timer_reads]
    by (simp_all add: rng_mask_def)
qed

lemma trng_wait_ready:
  assumes "trng_ready w m" "trng_polls w \<le> m"
  shows "\<exists>k. trng_wait w = Some (w\<lparr>trng_polls := k\<rparr>)"
  using assms
proof (induction "m - trng_polls w" arbitrary: w)
  case 0
  then show ?case by (subst trng_wait.simps) auto
next
  case (Suc n)
  show ?case
  proof (cases "trng_ready w (trng_polls w)")
    case True
    then show ?thesis by (subst trng_wait.simps) auto
  next
    case False
    then show ?thesis
      using Suc.hyps(1) [of "w\<lparr>trng_polls := trng_polls w + 1\<rparr>"] Suc.hyps(2) Suc.prems
      by (subst trng_wait.simps) auto
  qed
qed

lemma entropy_get_some:
  assumes "rng_ok w"
  shows "\<exists>e p r. entropy_get w = Some (e, w\<lparr>trng_polls := p, trng_reads := r\<rparr>)"
proof -
  obtain m where "trng_ready w m" "trng_polls w \<le> m" using assms by (auto simp: rng_ok_def)
  then obtain k where "trng_wait w = Some (w\<lparr>trng_polls := k\<rparr>)" using trng_wait_ready by blast
  then show ?thesis by (auto simp: entropy_get_def)
qed

lemma reseed_from_some:
  assumes "rng_ok w" "i + n = 8"
  shows "\<exists>w'. reseed_from i n w = Some w' \<and> rng_frame w w' \<and> take 8 (rng_state w') = take 8 (rng_state w)
    \<and> rng_digest w' = rng_digest w"
  using assms
proof (induction n arbitrary: i w)
  case 0
  then show ?case by (simp add: rng_frame_refl)
next
  case (Suc n)
  obtain e p r where e: "entropy_get w = Some (e, w\<lparr>trng_polls := p, trng_reads := r\<rparr>)"
    using entropy_get_some [OF Suc.prems(1)] by blast
  define w1 where "w1 = w\<lparr>trng_polls := p, trng_reads := r, rng_state := (rng_state w)[i + 8 := e]\<rparr>"
  have ok1: "rng_ok w1" using Suc.prems by (simp add: rng_ok_def w1_def)
  have fr: "rng_frame w w1" using ok1 by (simp add: rng_frame_def rng_mask_def w1_def)
  obtain w' where w': "reseed_from (i + 1) n w1 = Some w'" "rng_frame w1 w'"
    "take 8 (rng_state w') = take 8 (rng_state w1)" "rng_digest w' = rng_digest w1"
    using Suc.IH [OF ok1, of "i + 1"] Suc.prems(2) by auto
  then show ?case
    using e fr rng_frame_trans [OF fr w'(2)] by (simp add: w1_def)
qed

section \<open>Refilling\<close>

lemma digest_bytes_words:
  assumes "length bs = 32"
  shows "digest_bytes (digest_words bs) = bs"
proof -
  have "concat (map (\<lambda>i. slice (4 * i) 4 bs) [0..<k]) = take (4 * k) bs" if "k \<le> 8" for k
    using that
  proof (induction k)
    case (Suc k)
    then show ?case using take_add [of "4 * k" 4 bs] by (simp add: slice_def add.commute)
  qed simp
  from this [of 8] have "concat (map (\<lambda>i. slice (4 * i) 4 bs) [0..<8]) = bs" using assms by simp
  moreover have "map (\<lambda>i. le32 (of_nat (of_le (slice (4 * i) 4 bs)))) [0..<8]
      = map (\<lambda>i. slice (4 * i) 4 bs) [0..<8]"
    using assms by (intro map_cong refl le32_of_le) (simp add: length_slice)
  ultimately show ?thesis by (simp add: digest_bytes_def digest_words_def comp_def del: map_eq_conv)
qed

lemma length_digest_words [simp]: "length (digest_words bs) = 8"
  by (simp add: digest_words_def)

lemma length_digest_bytes: "length (digest_bytes ws) = 4 * length ws"
  by (induction ws) (simp_all add: digest_bytes_def)

lemma rng_refill_some:
  assumes "rng_ok w"
  shows "\<exists>w'. rng_refill w = Some w' \<and> rng_frame w w'
    \<and> digest_bytes (rng_digest w') = SHA256 (digest_bytes (rng_state w))
    \<and> take 8 (rng_state w') = rng_digest w'"
proof -
  define dg where "dg = digest_words (SHA256 (digest_bytes (rng_state w)))"
  define w1 where "w1 = w\<lparr>rng_digest := dg, rng_state := blit (rng_state w) 0 dg\<rparr>"
  define w2 where "w2 = (rng_count w1)\<lparr>reseed_ctr := reseed_ctr (rng_count w1) + 1\<rparr>"
  have dgl: "length dg = 8" by (simp add: dg_def)
  have c: "length (rng_state (rng_count w1)) = length (rng_state w1)"
    "take 8 (rng_state (rng_count w1)) = take 8 (rng_state w1)"
    "rng_digest (rng_count w1) = dg" "valid_bytes (rng_count w1) = valid_bytes w"
    "trng_ready (rng_count w1) = trng_ready w" "rng_mask (rng_count w1) = rng_mask w1"
    by (simp_all add: rng_count_def Let_def w1_def rng_mask_def)
  have st: "length (rng_state w1) = 16" "take 8 (rng_state w1) = dg"
    using assms dgl by (simp_all add: w1_def rng_ok_def blit_def)
  have w2: "rng_ok w2" "rng_frame w w2" "take 8 (rng_state w2) = dg" "rng_digest w2 = dg"
    using c st dgl assms
    by (simp_all add: w2_def w1_def rng_ok_def rng_frame_def rng_mask_def)
  have r: "rng_refill w = Option.bind (if reseed_ctr w2 = RESEED_TIME
        then Option.bind (reseed_from 0 8 w2) (\<lambda>w. Some (w\<lparr>reseed_ctr := 0\<rparr>)) else Some w2)
      (\<lambda>w. Some (w\<lparr>valid_bytes := 16\<rparr>))"
    using dgl by (simp add: rng_refill_def rng_update_def Let_def crypto_sha256_SHA256 dg_def [symmetric]
        w2_def w1_def)
  obtain w3 where w3: "reseed_from 0 8 w2 = Some w3" "rng_frame w2 w3" "take 8 (rng_state w3) = dg"
    "rng_digest w3 = dg"
    using reseed_from_some [OF w2(1), of 0 8] w2 by auto
  define w4 where "w4 = (if reseed_ctr w2 = RESEED_TIME then w3\<lparr>reseed_ctr := 0\<rparr> else w2)"
  have w4: "rng_frame w w4" "take 8 (rng_state w4) = dg" "rng_digest w4 = dg"
    using w2 w3 rng_frame_trans [OF w2(2) w3(2)]
    by (simp_all add: w4_def rng_frame_def rng_ok_def rng_mask_def)
  have "rng_refill w = Some (w4\<lparr>valid_bytes := 16\<rparr>)" using r w3(1) by (simp add: w4_def)
  moreover have "rng_frame w (w4\<lparr>valid_bytes := 16\<rparr>)"
    using w4(1) by (simp add: rng_frame_def rng_ok_def rng_mask_def)
  ultimately show ?thesis using w4(2,3) by (simp add: dg_def digest_bytes_words)
qed

section \<open>The generator as a byte stream\<close>

definition rng_ready :: "'a rng_scheme \<Rightarrow> 'a rng_scheme option" where
  "rng_ready w = (if valid_bytes w = 0 then rng_refill w else Some w)"

lemma rng_ready_some:
  assumes "rng_ok w"
  obtains w' where "rng_ready w = Some w'" "rng_frame w w'" "valid_bytes w' \<noteq> 0" "rng_ok w'"
  using rng_refill_some [OF assms] rng_refill_valid [of w] rng_frame_refl [OF assms] rng_frame_ok
  by (cases "valid_bytes w = 0") (auto simp: rng_ready_def)

lemma rng_loop_Suc:
  assumes "rng_ready w = Some w'" "rng_ok w'" "valid_bytes w' \<noteq> 0"
  shows "rng_loop (Suc k) out w = rng_loop k (out @ [digest_bytes (rng_digest w') ! (16 - unat (valid_bytes w'))])
     (w'\<lparr>valid_bytes := valid_bytes w' - 1\<rparr>)"
proof -
  define v where "v = unat (valid_bytes w')"
  define bs where "bs = digest_bytes (rng_digest w')"
  have v: "0 < v" "v \<le> 16" "length bs = 32" "unat (valid_bytes w' - 1) = v - 1"
    using assms(2,3)
    by (auto simp: v_def bs_def rng_ok_def length_digest_bytes unat_gt_0 unat_minus_one_word)
  have L: "rng_loop (Suc k) out w = rng_loop (Suc k - min v (Suc k))
      (out @ slice (16 - v) (min v (Suc k)) bs) (w'\<lparr>valid_bytes := valid_bytes w' - of_nat (min v (Suc k))\<rparr>)"
    by (subst rng_loop.simps)
      (simp add: assms(1) [unfolded rng_ready_def] v_def [symmetric] bs_def [symmetric] Let_def)
  show ?thesis
  proof (cases "v = 1 \<or> k = 0")
    case True
    then have "min v (Suc k) = 1" using v(1) by auto
    then show ?thesis
      unfolding L using v by (simp add: slice_def take_Suc_conv_app_nth v_def [symmetric] bs_def [symmetric])
  next
    case False
    then have m: "min v (Suc k) = Suc (min (v - 1) k)" "valid_bytes w' - 1 \<noteq> 0" "k \<noteq> 0"
      using v by auto
    have c: "slice (16 - v) (Suc n) bs = bs ! (16 - v) # slice (16 - (v - 1)) n bs" for n
    proof -
      have "drop (16 - v) bs = bs ! (16 - v) # drop (Suc (16 - v)) bs"
        using v by (intro Cons_nth_drop_Suc [symmetric]) simp
      moreover have "Suc (16 - v) = 16 - (v - 1)" using v by simp
      ultimately show ?thesis by (simp only: slice_def take_Suc_Cons)
    qed
    have "rng_loop k (out @ [bs ! (16 - v)]) (w'\<lparr>valid_bytes := valid_bytes w' - 1\<rparr>)
      = rng_loop (k - min (v - 1) k) ((out @ [bs ! (16 - v)]) @ slice (16 - (v - 1)) (min (v - 1) k) bs)
          (w'\<lparr>valid_bytes := valid_bytes w' - 1 - of_nat (min (v - 1) k)\<rparr>)"
      using m v by (subst rng_loop.simps) (simp add: Let_def bs_def)
    then show ?thesis
      unfolding L m(1) c v_def [symmetric] bs_def [symmetric] by (simp add: algebra_simps)
  qed
qed

primrec rng_bytes :: "nat \<Rightarrow> 'a rng_scheme \<Rightarrow> (bytes \<times> 'a rng_scheme) option" where
  "rng_bytes 0 w = Some ([], w)"
| "rng_bytes (Suc k) w = do {
     w \<leftarrow> rng_ready w;
     (bs, w') \<leftarrow> rng_bytes k (w\<lparr>valid_bytes := valid_bytes w - 1\<rparr>);
     Some (digest_bytes (rng_digest w) ! (16 - unat (valid_bytes w)) # bs, w') }"

lemma rng_loop_bytes:
  assumes "rng_ok w"
  shows "\<exists>bs w'. rng_loop k out w = Some (out @ bs, w') \<and> rng_bytes k w = Some (bs, w')
    \<and> length bs = k \<and> rng_frame w w'"
  using assms
proof (induction k arbitrary: w out)
  case 0
  then show ?case by (simp add: rng_loop.simps rng_frame_refl)
next
  case (Suc k)
  obtain w1 where w1: "rng_ready w = Some w1" "rng_frame w w1" "valid_bytes w1 \<noteq> 0" "rng_ok w1"
    using rng_ready_some [OF Suc.prems] .
  let ?w2 = "w1\<lparr>valid_bytes := valid_bytes w1 - 1\<rparr>"
  have w2: "rng_ok ?w2" using w1(3,4) by (auto simp: rng_ok_def unat_minus_one_word)
  have "rng_frame w ?w2" using w1(2) w2 by (simp add: rng_frame_def rng_mask_def)
  then show ?case
    using Suc.IH [OF w2, of "out @ [digest_bytes (rng_digest w1) ! (16 - unat (valid_bytes w1))]"]
    by (auto simp: rng_loop_Suc [OF w1(1,4,3)] w1(1) intro: rng_frame_trans)
qed

lemma rng_bytes_add: "rng_bytes (n + m) w = do { (bs, w) \<leftarrow> rng_bytes n w; (cs, w) \<leftarrow> rng_bytes m w; Some (bs @ cs, w) }"
  by (induction n arbitrary: w) (simp_all add: case_prod_unfold Option.bind_assoc)

section \<open>Properties\<close>

text \<open>C34: Once initialised and while the hardware keeps delivering entropy, a request for any number of
  bytes ends, succeeds and returns exactly that many bytes; two requests in a row return the same bytes
  and leave the same state as one request for both, and nothing but the generator's context and the
  TRNG counters changes.\<close>

theorem rng_get_bytes_stream:
  assumes "rng_ok w" "rng_initialized w"
  shows "\<exists>bs cs w1 w2. rng_get_bytes n w = Some (0, bs, w1) \<and> rng_get_bytes m w1 = Some (0, cs, w2)
    \<and> rng_get_bytes (n + m) w = Some (0, bs @ cs, w2)
    \<and> length bs = n \<and> length cs = m \<and> rng_frame w w1 \<and> rng_frame w1 w2"
proof -
  obtain bs w1 where 1: "rng_loop n [] w = Some (bs, w1)" "rng_bytes n w = Some (bs, w1)" "length bs = n"
    "rng_frame w w1" using rng_loop_bytes [OF assms(1), of n "[]"] by auto
  obtain cs w2 where 2: "rng_loop m [] w1 = Some (cs, w2)" "rng_bytes m w1 = Some (cs, w2)" "length cs = m"
    "rng_frame w1 w2" using rng_loop_bytes [OF rng_frame_ok [OF 1(4)], of m "[]"] by auto
  have "rng_loop (n + m) [] w = Some (bs @ cs, w2)"
    using rng_loop_bytes [OF assms(1), of "n + m" "[]"] by (auto simp: rng_bytes_add 1(2) 2(2))
  moreover have "rng_initialized w1"
    using 1(4) assms(2) by (simp add: rng_frame_fields)
  ultimately show ?thesis
    using 1 2 assms(2) by (simp add: rng_get_bytes_def)
qed

text \<open>With no bytes left over, the first sixteen bytes handed out are the head of the hash of the
  generator's state, and the whole of that hash, the bytes handed out included, becomes the first half
  of the next state.\<close>

theorem rng_block_feeds_back:
  assumes "rng_ok w" "rng_initialized w" "valid_bytes w = 0"
  shows "\<exists>w'. rng_get_bytes 16 w = Some (0, take 16 (SHA256 (digest_bytes (rng_state w))), w')
    \<and> digest_bytes (take 8 (rng_state w')) = SHA256 (digest_bytes (rng_state w))"
proof -
  obtain w1 where w1: "rng_refill w = Some w1" "rng_frame w w1"
    "digest_bytes (rng_digest w1) = SHA256 (digest_bytes (rng_state w))"
    "take 8 (rng_state w1) = rng_digest w1"
    using rng_refill_some [OF assms(1)] by blast
  have "rng_loop 16 [] w = Some (take 16 (digest_bytes (rng_digest w1)), w1\<lparr>valid_bytes := 0\<rparr>)"
    using w1(1) assms(3) rng_refill_valid [OF w1(1)]
    by (subst rng_loop.simps) (simp add: rng_loop.simps [of 0] slice_def)
  then show ?thesis using assms(2) w1 by (simp add: rng_get_bytes_def)
qed

definition demo_rng :: rng where
  "demo_rng = crypto.extend demo_crypto \<lparr>state_ctr_lsb = 0, state_ctr_msb = 0, reseed_ctr = 4095,
     rng_state = replicate 16 0, rng_digest = replicate 8 0, valid_bytes = 0, rng_initialized = True\<rparr>"

lemma demo_rng_ok: "rng_ok demo_rng" "rng_initialized demo_rng" "valid_bytes demo_rng = 0"
  by (auto simp: demo_rng_def rng_ok_def demo_crypto_def crypto.defs)

lemma rng_get_bytes_stream_witness:
  "\<exists>bs cs w1 w2. rng_get_bytes 20 demo_rng = Some (0, bs, w1) \<and> rng_get_bytes 30 w1 = Some (0, cs, w2)
    \<and> rng_get_bytes 50 demo_rng = Some (0, bs @ cs, w2)
    \<and> length bs = 20 \<and> length cs = 30 \<and> rng_frame demo_rng w1 \<and> rng_frame w1 w2"
  using rng_get_bytes_stream [OF demo_rng_ok(1,2), of 20 30] by simp

lemma rng_block_feeds_back_witness:
  "\<exists>w'. rng_get_bytes 16 demo_rng = Some (0, take 16 (SHA256 (replicate 64 0)), w')
    \<and> digest_bytes (take 8 (rng_state w')) = SHA256 (replicate 64 0)"
proof -
  have "digest_bytes (rng_state demo_rng) = replicate 64 0" by (simp add: demo_rng_def crypto.defs demo_crypto_def digest_bytes_def le32_def numeral_eq_Suc)
  then show ?thesis using rng_block_feeds_back [OF demo_rng_ok] by simp
qed

end
