(* ===== verification/Fs.thy ===== *)
theory Fs
  imports Rng
begin

text \<open>
  \<open>targets/tkey/src/fs.c\<close>: files and directories on top of littlefs. The littlefs library is the record
  \<open>lfs_lib\<close> of the functions called: its filesystem object is of type \<open>'fs\<close>, an open file of
  type \<open>'f\<close>, an open directory of type \<open>'d\<close>. The filesystem object is a field of the record
  \<open>fsys\<close>. A read returns the bytes it stores into the caller's buffer.

  \<open>fs_file_t\<close> pairs an open file with the flag that says whether it is open; the pointers to it are
  never null in the application, so the branches for null pointers have no counterpart.

  What the application relies on of littlefs is \<open>lfs_laws\<close>; \<open>ram_lfs\<close> is an implementation of the
  laws.
\<close>

datatype lfs_flag = LFS_O_RDONLY | LFS_O_RDWR | LFS_O_CREAT | LFS_O_TRUNC | LFS_O_APPEND

record ('fs, 'f, 'd) lfs_lib =
  LFS_ERR_NOSPC :: int
  LFS_ERR_EXIST :: int
  sys_alloc :: "'fs \<Rightarrow> int \<times> 'fs"
  lfs_mount :: "'fs \<Rightarrow> int \<times> 'fs"
  lfs_format :: "'fs \<Rightarrow> 'fs"
  lfs_file_opencfg :: "string \<Rightarrow> lfs_flag list \<Rightarrow> 'fs \<Rightarrow> int \<times> 'f \<times> 'fs"
  lfs_file_close :: "'f \<Rightarrow> 'fs \<Rightarrow> int \<times> 'f \<times> 'fs"
  lfs_file_size :: "'f \<Rightarrow> 'fs \<Rightarrow> int"
  lfs_file_read :: "'f \<Rightarrow> nat \<Rightarrow> 'fs \<Rightarrow> int \<times> bytes \<times> 'f \<times> 'fs"
  lfs_file_write :: "'f \<Rightarrow> bytes \<Rightarrow> 'fs \<Rightarrow> int \<times> 'f \<times> 'fs"
  lfs_file_seek :: "'f \<Rightarrow> nat \<Rightarrow> 'fs \<Rightarrow> 'f \<times> 'fs"
  lfs_file_truncate :: "'f \<Rightarrow> nat \<Rightarrow> 'fs \<Rightarrow> int \<times> 'f \<times> 'fs"
  lfs_dir_open :: "string \<Rightarrow> 'fs \<Rightarrow> int \<times> 'd \<times> 'fs"
  lfs_dir_read :: "'d \<Rightarrow> 'fs \<Rightarrow> int \<times> (string \<times> bool) \<times> 'd \<times> 'fs"
  lfs_dir_close :: "'d \<Rightarrow> 'fs \<Rightarrow> 'fs"
  lfs_remove :: "string \<Rightarrow> 'fs \<Rightarrow> int \<times> 'fs"
  lfs_mkdir :: "string \<Rightarrow> 'fs \<Rightarrow> int \<times> 'fs"

record 'fs fsys = rng +
  lfs :: 'fs

record 'f fs_file =
  fs_handle :: 'f
  fs_is_open :: bool

section \<open>Whole files\<close>

definition fs_init :: "('fs, 'f, 'd) lfs_lib \<Rightarrow> ('fs, 'a) fsys_scheme \<Rightarrow> int \<times> ('fs, 'a) fsys_scheme" where
  "fs_init lib w =
     (let (err, x) = sys_alloc lib (lfs w)
      in if err \<noteq> 0 then (err, w\<lparr>lfs := x\<rparr>)
         else let (err, x) = lfs_mount lib x
              in if err \<noteq> 0
                 then let (err, x) = lfs_mount lib (lfs_format lib x) in (err, w\<lparr>lfs := x\<rparr>)
                 else (err, w\<lparr>lfs := x\<rparr>))"

definition fs_read_open ::
  "('fs, 'f, 'd) lfs_lib \<Rightarrow> string \<Rightarrow> bytes \<Rightarrow> nat \<Rightarrow> ('fs, 'a) fsys_scheme \<Rightarrow> int \<times> bytes \<times> ('fs, 'a) fsys_scheme" where
  "fs_read_open lib name buf buf_len w =
     (let (ret, f, x) = lfs_file_opencfg lib name [LFS_O_RDONLY] (lfs w)
      in if ret < 0 then (ret, buf, w\<lparr>lfs := x\<rparr>)
         else let sz = lfs_file_size lib f x
              in if sz < 0
                 then let (_, f, x) = lfs_file_close lib f x in (sz, buf, w\<lparr>lfs := x\<rparr>)
                 else if nat sz > buf_len
                 then let (_, f, x) = lfs_file_close lib f x in (LFS_ERR_NOSPC lib, buf, w\<lparr>lfs := x\<rparr>)
                 else let (ret, bs, f, x) = lfs_file_read lib f (nat sz) x;
                          (_, f, x) = lfs_file_close lib f x
                      in (ret, blit buf 0 bs, w\<lparr>lfs := x\<rparr>))"

definition fs_write_open ::
  "('fs, 'f, 'd) lfs_lib \<Rightarrow> string \<Rightarrow> bytes \<Rightarrow> ('fs, 'a) fsys_scheme \<Rightarrow> int \<times> ('fs, 'a) fsys_scheme" where
  "fs_write_open lib name buf w =
     (let (ret, f, x) = lfs_file_opencfg lib name [LFS_O_RDWR, LFS_O_CREAT, LFS_O_TRUNC] (lfs w)
      in if ret < 0 then (ret, w\<lparr>lfs := x\<rparr>)
         else let (ret, f, x) = lfs_file_write lib f buf x;
                  (_, f, x) = lfs_file_close lib f x
              in (ret, w\<lparr>lfs := x\<rparr>))"

section \<open>Open files\<close>

definition fs_open_file ::
  "('fs, 'f, 'd) lfs_lib \<Rightarrow> 'f fs_file \<Rightarrow> string \<Rightarrow> lfs_flag list \<Rightarrow> ('fs, 'a) fsys_scheme
     \<Rightarrow> int \<times> 'f fs_file \<times> ('fs, 'a) fsys_scheme" where
  "fs_open_file lib f name flags w =
     (if fs_is_open f then (- 1, f, w)
      else let (ret, h, x) = lfs_file_opencfg lib name flags (lfs w);
               f = f\<lparr>fs_handle := h\<rparr>
           in (ret, if ret = 0 then f\<lparr>fs_is_open := True\<rparr> else f, w\<lparr>lfs := x\<rparr>))"

definition fs_close_file ::
  "('fs, 'f, 'd) lfs_lib \<Rightarrow> 'f fs_file \<Rightarrow> ('fs, 'a) fsys_scheme \<Rightarrow> int \<times> 'f fs_file \<times> ('fs, 'a) fsys_scheme" where
  "fs_close_file lib f w =
     (if \<not> fs_is_open f then (- 1, f, w)
      else let (ret, h, x) = lfs_file_close lib (fs_handle f) (lfs w);
               f = f\<lparr>fs_handle := h\<rparr>
           in (ret, if ret = 0 then f\<lparr>fs_is_open := False\<rparr> else f, w\<lparr>lfs := x\<rparr>))"

definition fs_file_size :: "('fs, 'f, 'd) lfs_lib \<Rightarrow> 'f fs_file \<Rightarrow> ('fs, 'a) fsys_scheme \<Rightarrow> int" where
  "fs_file_size lib f w = (if \<not> fs_is_open f then - 1 else lfs_file_size lib (fs_handle f) (lfs w))"

definition fs_truncate_file ::
  "('fs, 'f, 'd) lfs_lib \<Rightarrow> 'f fs_file \<Rightarrow> nat \<Rightarrow> ('fs, 'a) fsys_scheme \<Rightarrow> int \<times> 'f fs_file \<times> ('fs, 'a) fsys_scheme" where
  "fs_truncate_file lib f sz w =
     (if \<not> fs_is_open f then (- 1, f, w)
      else let (ret, h, x) = lfs_file_truncate lib (fs_handle f) sz (lfs w)
           in (ret, f\<lparr>fs_handle := h\<rparr>, w\<lparr>lfs := x\<rparr>))"

definition fs_read ::
  "('fs, 'f, 'd) lfs_lib \<Rightarrow> 'f fs_file \<Rightarrow> bytes \<Rightarrow> nat \<Rightarrow> ('fs, 'a) fsys_scheme
     \<Rightarrow> int \<times> bytes \<times> 'f fs_file \<times> ('fs, 'a) fsys_scheme" where
  "fs_read lib f buf len w =
     (if \<not> fs_is_open f then (- 1, buf, f, w)
      else let (ret, bs, h, x) = lfs_file_read lib (fs_handle f) len (lfs w)
           in (ret, blit buf 0 bs, f\<lparr>fs_handle := h\<rparr>, w\<lparr>lfs := x\<rparr>))"

definition fs_read_at ::
  "('fs, 'f, 'd) lfs_lib \<Rightarrow> 'f fs_file \<Rightarrow> bytes \<Rightarrow> nat \<Rightarrow> nat \<Rightarrow> ('fs, 'a) fsys_scheme
     \<Rightarrow> int \<times> bytes \<times> 'f fs_file \<times> ('fs, 'a) fsys_scheme" where
  "fs_read_at lib f buf len offset w =
     (if \<not> fs_is_open f then (- 1, buf, f, w)
      else let (h, x) = lfs_file_seek lib (fs_handle f) offset (lfs w);
               (ret, bs, h, x) = lfs_file_read lib h len x
           in (ret, blit buf 0 bs, f\<lparr>fs_handle := h\<rparr>, w\<lparr>lfs := x\<rparr>))"

definition fs_write_at ::
  "('fs, 'f, 'd) lfs_lib \<Rightarrow> 'f fs_file \<Rightarrow> bytes \<Rightarrow> nat \<Rightarrow> ('fs, 'a) fsys_scheme
     \<Rightarrow> int \<times> 'f fs_file \<times> ('fs, 'a) fsys_scheme" where
  "fs_write_at lib f buf offset w =
     (if \<not> fs_is_open f then (- 1, f, w)
      else let (h, x) = lfs_file_seek lib (fs_handle f) offset (lfs w);
               (ret, h, x) = lfs_file_write lib h buf x
           in (ret, f\<lparr>fs_handle := h\<rparr>, w\<lparr>lfs := x\<rparr>))"

definition fs_write ::
  "('fs, 'f, 'd) lfs_lib \<Rightarrow> 'f fs_file \<Rightarrow> bytes \<Rightarrow> ('fs, 'a) fsys_scheme \<Rightarrow> int \<times> 'f fs_file \<times> ('fs, 'a) fsys_scheme" where
  "fs_write lib f buf w =
     (if \<not> fs_is_open f then (- 1, f, w)
      else let (ret, h, x) = lfs_file_write lib (fs_handle f) buf (lfs w)
           in (ret, f\<lparr>fs_handle := h\<rparr>, w\<lparr>lfs := x\<rparr>))"

section \<open>Directories\<close>

text \<open>\<open>lfs_dir_read\<close> returns a positive number, a name and whether it is a regular file, or 0 at the
  end of the directory.\<close>

partial_function (option) dir_del_loop ::
  "('fs, 'f, 'd) lfs_lib \<Rightarrow> string \<Rightarrow> 'd \<Rightarrow> 'fs \<Rightarrow> (int \<times> 'fs) option" where
  "dir_del_loop lib dir_name d x =
     (case lfs_dir_read lib d x of (ret, (name, reg), d, x) \<Rightarrow>
        if ret < 0 then Some (ret, lfs_dir_close lib d x)
        else if ret = 0 then Some (0, lfs_dir_close lib d x)
        else if reg then
          case lfs_remove lib (dir_name @ ''/'' @ name) x of (ret, x) \<Rightarrow>
            if ret < 0 then Some (ret, lfs_dir_close lib d x) else dir_del_loop lib dir_name d x
        else dir_del_loop lib dir_name d x)"

declare dir_del_loop.simps [code]

definition fs_dir_del ::
  "('fs, 'f, 'd) lfs_lib \<Rightarrow> string \<Rightarrow> ('fs, 'a) fsys_scheme \<Rightarrow> (int \<times> ('fs, 'a) fsys_scheme) option" where
  "fs_dir_del lib dir_name w =
     (if dir_name = [] then Some (- 2, w)
      else let (ret, d, x) = lfs_dir_open lib dir_name (lfs w)
           in if ret < 0 then Some (ret, w\<lparr>lfs := x\<rparr>)
              else map_option (\<lambda>(ret, x). (ret, w\<lparr>lfs := x\<rparr>)) (dir_del_loop lib dir_name d x))"

partial_function (option) dir_count_loop ::
  "('fs, 'f, 'd) lfs_lib \<Rightarrow> 'd \<Rightarrow> int \<Rightarrow> 'fs \<Rightarrow> (int \<times> 'fs) option" where
  "dir_count_loop lib d count x =
     (case lfs_dir_read lib d x of (ret, (name, reg), d, x) \<Rightarrow>
        if ret < 0 then Some (ret, lfs_dir_close lib d x)
        else if ret = 0 then Some (count, lfs_dir_close lib d x)
        else dir_count_loop lib d (if reg then count + 1 else count) x)"

declare dir_count_loop.simps [code]

definition fs_dir_nr_files ::
  "('fs, 'f, 'd) lfs_lib \<Rightarrow> string \<Rightarrow> ('fs, 'a) fsys_scheme \<Rightarrow> (int \<times> ('fs, 'a) fsys_scheme) option" where
  "fs_dir_nr_files lib dir_name w =
     (if dir_name = [] then Some (- 2, w)
      else let (ret, d, x) = lfs_dir_open lib dir_name (lfs w)
           in if ret < 0 then Some (ret, w\<lparr>lfs := x\<rparr>)
              else map_option (\<lambda>(ret, x). (ret, w\<lparr>lfs := x\<rparr>)) (dir_count_loop lib d 0 x))"

definition fs_create_dir ::
  "('fs, 'f, 'd) lfs_lib \<Rightarrow> string \<Rightarrow> ('fs, 'a) fsys_scheme \<Rightarrow> int \<times> ('fs, 'a) fsys_scheme" where
  "fs_create_dir lib dir_name w =
     (if dir_name = [] then (- 2, w)
      else let (ret, x) = lfs_mkdir lib dir_name (lfs w)
           in (if ret < 0 \<and> ret \<noteq> LFS_ERR_EXIST lib then ret else 0, w\<lparr>lfs := x\<rparr>))"

section \<open>What littlefs promises\<close>

text \<open>A view of the library: when the filesystem is healthy (mounted, no errors of the flash, room for
  files up to \<open>f_limit\<close> bytes), the contents of a closed file, and the state of an open one.\<close>

record f_state =
  f_name :: string
  f_append :: bool
  f_data :: bytes
  f_pos :: nat

record ('fs, 'f) lfs_view =
  healthy :: "'fs \<Rightarrow> bool"
  f_limit :: nat
  f_contents :: "'fs \<Rightarrow> string \<Rightarrow> bytes option"
  f_open :: "'f \<Rightarrow> 'fs \<Rightarrow> f_state option"

text \<open>A write at position \<open>p\<close>; a gap behind the end of the file is filled with zeros.\<close>

definition f_put :: "bytes \<Rightarrow> nat \<Rightarrow> bytes \<Rightarrow> bytes" where
  "f_put d p bs = take p (d @ replicate (p - length d) 0) @ bs @ drop (p + length bs) d"

definition f_where :: "f_state \<Rightarrow> nat" where
  "f_where s = (if f_append s then length (f_data s) else f_pos s)"

definition f_write :: "f_state \<Rightarrow> bytes \<Rightarrow> f_state" where
  "f_write s bs = s\<lparr>f_data := f_put (f_data s) (f_where s) bs, f_pos := f_where s + length bs\<rparr>"

definition lfs_open_law :: "('fs, 'f, 'd) lfs_lib \<Rightarrow> ('fs, 'f) lfs_view \<Rightarrow> bool" where
  "lfs_open_law lib v \<longleftrightarrow> (\<forall>x name flags. healthy v x \<longrightarrow>
     (if LFS_O_CREAT \<in> set flags \<or> f_contents v x name \<noteq> None
      then \<exists>f x'. lfs_file_opencfg lib name flags x = (0, f, x') \<and> healthy v x'
        \<and> (\<forall>n. n \<noteq> name \<longrightarrow> f_contents v x' n = f_contents v x n)
        \<and> f_open v f x' = Some \<lparr>f_name = name, f_append = (LFS_O_APPEND \<in> set flags),
            f_data = (if LFS_O_TRUNC \<in> set flags \<or> f_contents v x name = None then [] else the (f_contents v x name)),
            f_pos = 0\<rparr>
      else \<exists>ret f x'. lfs_file_opencfg lib name flags x = (ret, f, x') \<and> ret < 0 \<and> healthy v x'
        \<and> f_contents v x' = f_contents v x))"

definition lfs_read_law :: "('fs, 'f, 'd) lfs_lib \<Rightarrow> ('fs, 'f) lfs_view \<Rightarrow> bool" where
  "lfs_read_law lib v \<longleftrightarrow> (\<forall>f x s n. healthy v x \<longrightarrow> f_open v f x = Some s \<longrightarrow>
     lfs_file_size lib f x = int (length (f_data s)) \<and>
     (\<exists>f' x'. lfs_file_read lib f n x = (int (length (slice (f_pos s) n (f_data s))), slice (f_pos s) n (f_data s), f', x')
        \<and> healthy v x' \<and> f_contents v x' = f_contents v x
        \<and> f_open v f' x' = Some (s\<lparr>f_pos := f_pos s + length (slice (f_pos s) n (f_data s))\<rparr>)))"

definition lfs_write_law :: "('fs, 'f, 'd) lfs_lib \<Rightarrow> ('fs, 'f) lfs_view \<Rightarrow> bool" where
  "lfs_write_law lib v \<longleftrightarrow> (\<forall>f x s bs. healthy v x \<longrightarrow> f_open v f x = Some s \<longrightarrow> f_where s + length bs \<le> f_limit v \<longrightarrow>
     (\<exists>f' x'. lfs_file_write lib f bs x = (int (length bs), f', x') \<and> healthy v x' \<and> f_contents v x' = f_contents v x
        \<and> f_open v f' x' = Some (f_write s bs)))"

definition lfs_seek_law :: "('fs, 'f, 'd) lfs_lib \<Rightarrow> ('fs, 'f) lfs_view \<Rightarrow> bool" where
  "lfs_seek_law lib v \<longleftrightarrow> (\<forall>f x s p. healthy v x \<longrightarrow> f_open v f x = Some s \<longrightarrow>
     (\<exists>f' x'. lfs_file_seek lib f p x = (f', x') \<and> healthy v x' \<and> f_contents v x' = f_contents v x
        \<and> f_open v f' x' = Some (s\<lparr>f_pos := p\<rparr>)))"

definition lfs_truncate_law :: "('fs, 'f, 'd) lfs_lib \<Rightarrow> ('fs, 'f) lfs_view \<Rightarrow> bool" where
  "lfs_truncate_law lib v \<longleftrightarrow> (\<forall>f x s p. healthy v x \<longrightarrow> f_open v f x = Some s \<longrightarrow> p \<le> length (f_data s) \<longrightarrow>
     (\<exists>f' x'. lfs_file_truncate lib f p x = (0, f', x') \<and> healthy v x' \<and> f_contents v x' = f_contents v x
        \<and> f_open v f' x' = Some (s\<lparr>f_data := take p (f_data s)\<rparr>)))"

definition lfs_close_law :: "('fs, 'f, 'd) lfs_lib \<Rightarrow> ('fs, 'f) lfs_view \<Rightarrow> bool" where
  "lfs_close_law lib v \<longleftrightarrow> (\<forall>f x s. healthy v x \<longrightarrow> f_open v f x = Some s \<longrightarrow>
     (\<exists>f' x'. lfs_file_close lib f x = (0, f', x') \<and> healthy v x'
        \<and> f_contents v x' = (f_contents v x)(f_name s \<mapsto> f_data s)))"

definition lfs_laws :: "('fs, 'f, 'd) lfs_lib \<Rightarrow> ('fs, 'f) lfs_view \<Rightarrow> bool" where
  "lfs_laws lib v \<longleftrightarrow> lfs_open_law lib v \<and> lfs_read_law lib v \<and> lfs_write_law lib v \<and> lfs_seek_law lib v
     \<and> lfs_truncate_law lib v \<and> lfs_close_law lib v \<and> LFS_ERR_NOSPC lib < 0"

text \<open>The laws in the form the proofs about callers use.\<close>

lemma lfs_open:
  assumes "lfs_laws lib v" "healthy v x" "LFS_O_CREAT \<in> set flags \<or> f_contents v x name \<noteq> None"
  obtains f x' where "lfs_file_opencfg lib name flags x = (0, f, x')" "healthy v x'"
    "\<And>n. n \<noteq> name \<Longrightarrow> f_contents v x' n = f_contents v x n"
    "f_open v f x' = Some \<lparr>f_name = name, f_append = (LFS_O_APPEND \<in> set flags),
       f_data = (if LFS_O_TRUNC \<in> set flags \<or> f_contents v x name = None then [] else the (f_contents v x name)), f_pos = 0\<rparr>"
  using assms unfolding lfs_laws_def lfs_open_law_def by (metis (no_types, lifting))

lemma lfs_open_missing:
  assumes "lfs_laws lib v" "healthy v x" "LFS_O_CREAT \<notin> set flags" "f_contents v x name = None"
  obtains ret f x' where "lfs_file_opencfg lib name flags x = (ret, f, x')" "ret < 0" "healthy v x'"
    "f_contents v x' = f_contents v x"
  using assms unfolding lfs_laws_def lfs_open_law_def by (metis (no_types, lifting))

lemma lfs_size:
  "lfs_laws lib v \<Longrightarrow> healthy v x \<Longrightarrow> f_open v f x = Some s \<Longrightarrow> lfs_file_size lib f x = int (length (f_data s))"
  unfolding lfs_laws_def lfs_read_law_def by blast

lemma lfs_read:
  assumes "lfs_laws lib v" "healthy v x" "f_open v f x = Some s"
  obtains f' x' where "lfs_file_read lib f n x = (int (length (slice (f_pos s) n (f_data s))), slice (f_pos s) n (f_data s), f', x')"
    "healthy v x'" "f_contents v x' = f_contents v x"
    "f_open v f' x' = Some (s\<lparr>f_pos := f_pos s + length (slice (f_pos s) n (f_data s))\<rparr>)"
  using assms unfolding lfs_laws_def lfs_read_law_def by blast

lemma lfs_write:
  assumes "lfs_laws lib v" "healthy v x" "f_open v f x = Some s" "f_where s + length bs \<le> f_limit v"
  obtains f' x' where "lfs_file_write lib f bs x = (int (length bs), f', x')" "healthy v x'"
    "f_contents v x' = f_contents v x" "f_open v f' x' = Some (f_write s bs)"
  using assms unfolding lfs_laws_def lfs_write_law_def by blast

lemma lfs_seek:
  assumes "lfs_laws lib v" "healthy v x" "f_open v f x = Some s"
  obtains f' x' where "lfs_file_seek lib f p x = (f', x')" "healthy v x'"
    "f_contents v x' = f_contents v x" "f_open v f' x' = Some (s\<lparr>f_pos := p\<rparr>)"
  using assms unfolding lfs_laws_def lfs_seek_law_def by blast

lemma lfs_truncate:
  assumes "lfs_laws lib v" "healthy v x" "f_open v f x = Some s" "p \<le> length (f_data s)"
  obtains f' x' where "lfs_file_truncate lib f p x = (0, f', x')" "healthy v x'"
    "f_contents v x' = f_contents v x" "f_open v f' x' = Some (s\<lparr>f_data := take p (f_data s)\<rparr>)"
  using assms unfolding lfs_laws_def lfs_truncate_law_def by blast

lemma lfs_close:
  assumes "lfs_laws lib v" "healthy v x" "f_open v f x = Some s"
  obtains f' x' where "lfs_file_close lib f x = (0, f', x')" "healthy v x'"
    "f_contents v x' = (f_contents v x)(f_name s \<mapsto> f_data s)"
  using assms unfolding lfs_laws_def lfs_close_law_def by blast

section \<open>Whole files are kept\<close>

lemma fs_write_open_ok:
  assumes "lfs_laws lib v" "healthy v (lfs w)" "length buf \<le> f_limit v"
  shows "\<exists>x. fs_write_open lib name buf w = (int (length buf), w\<lparr>lfs := x\<rparr>) \<and> healthy v x
    \<and> f_contents v x = (f_contents v (lfs w))(name \<mapsto> buf)"
proof -
  obtain f x where 1: "lfs_file_opencfg lib name [LFS_O_RDWR, LFS_O_CREAT, LFS_O_TRUNC] (lfs w) = (0, f, x)" "healthy v x"
    "\<And>n. n \<noteq> name \<Longrightarrow> f_contents v x n = f_contents v (lfs w) n"
    "f_open v f x = Some \<lparr>f_name = name, f_append = False, f_data = [], f_pos = 0\<rparr>"
    using lfs_open [OF assms(1,2), of "[LFS_O_RDWR, LFS_O_CREAT, LFS_O_TRUNC]" name] by auto
  obtain f2 x2 where 2: "lfs_file_write lib f buf x = (int (length buf), f2, x2)" "healthy v x2"
    "f_contents v x2 = f_contents v x" "f_open v f2 x2 = Some \<lparr>f_name = name, f_append = False, f_data = buf, f_pos = length buf\<rparr>"
    using lfs_write [OF assms(1) 1(2,4), of buf] assms(3) by (auto simp: f_where_def f_write_def f_put_def)
  obtain f3 x3 where 3: "lfs_file_close lib f2 x2 = (0, f3, x3)" "healthy v x3"
    "f_contents v x3 = (f_contents v x2)(name \<mapsto> buf)"
    using lfs_close [OF assms(1) 2(2,4)] by auto
  have "f_contents v x3 = (f_contents v (lfs w))(name \<mapsto> buf)" using 1(3) 2(3) 3(3) by auto
  then show ?thesis using 1(1) 2(1) 3 by (auto simp: fs_write_open_def)
qed

lemma fs_read_open_ok:
  assumes "lfs_laws lib v" "healthy v (lfs w)" "f_contents v (lfs w) name = Some d" "length d \<le> n"
  shows "\<exists>x. fs_read_open lib name buf n w = (int (length d), blit buf 0 d, w\<lparr>lfs := x\<rparr>) \<and> healthy v x
    \<and> f_contents v x = f_contents v (lfs w)"
proof -
  obtain f x where 1: "lfs_file_opencfg lib name [LFS_O_RDONLY] (lfs w) = (0, f, x)" "healthy v x"
    "\<And>n. n \<noteq> name \<Longrightarrow> f_contents v x n = f_contents v (lfs w) n"
    "f_open v f x = Some \<lparr>f_name = name, f_append = False, f_data = d, f_pos = 0\<rparr>"
    using lfs_open [OF assms(1,2), of "[LFS_O_RDONLY]" name] assms(3) by auto
  have s: "lfs_file_size lib f x = int (length d)" using lfs_size [OF assms(1) 1(2,4)] by simp
  obtain f2 x2 where 2: "lfs_file_read lib f (length d) x = (int (length d), d, f2, x2)" "healthy v x2"
    "f_contents v x2 = f_contents v x" "f_open v f2 x2 = Some \<lparr>f_name = name, f_append = False, f_data = d, f_pos = length d\<rparr>"
    using lfs_read [OF assms(1) 1(2,4), of "length d"] by (auto simp: slice_def)
  obtain f3 x3 where 3: "lfs_file_close lib f2 x2 = (0, f3, x3)" "healthy v x3"
    "f_contents v x3 = (f_contents v x2)(name \<mapsto> d)"
    using lfs_close [OF assms(1) 2(2,4)] by auto
  have "f_contents v x3 = f_contents v (lfs w)" using 1(3) 2(3) 3(3) assms(3) by auto
  then show ?thesis using 1(1) 2(1) 3 s assms(4) by (auto simp: fs_read_open_def)
qed

lemma fs_read_open_missing:
  assumes "lfs_laws lib v" "healthy v (lfs w)" "f_contents v (lfs w) name = None"
  shows "\<exists>ret x. fs_read_open lib name buf n w = (ret, buf, w\<lparr>lfs := x\<rparr>) \<and> ret < 0 \<and> healthy v x
    \<and> f_contents v x = f_contents v (lfs w)"
proof -
  obtain ret f x where "lfs_file_opencfg lib name [LFS_O_RDONLY] (lfs w) = (ret, f, x)" "ret < 0" "healthy v x"
    "f_contents v x = f_contents v (lfs w)"
    using lfs_open_missing [OF assms(1,2) _ assms(3), of "[LFS_O_RDONLY]"] by auto
  then show ?thesis by (auto simp: fs_read_open_def)
qed

section \<open>The laws can hold\<close>

text \<open>Files in a map from names, an open file is its own state.\<close>

definition ram_read :: "f_state \<Rightarrow> nat \<Rightarrow> int \<times> bytes \<times> f_state" where
  "ram_read f n = (let bs = slice (f_pos f) n (f_data f) in (int (length bs), bs, f\<lparr>f_pos := f_pos f + length bs\<rparr>))"

definition ram_lfs :: "(string \<rightharpoonup> bytes, f_state, unit) lfs_lib" where
  "ram_lfs = \<lparr>LFS_ERR_NOSPC = - 28, LFS_ERR_EXIST = - 17, sys_alloc = \<lambda>x. (0, x), lfs_mount = \<lambda>x. (0, x),
     lfs_format = \<lambda>x. Map.empty,
     lfs_file_opencfg = \<lambda>name flags x.
       (if LFS_O_CREAT \<in> set flags \<or> x name \<noteq> None then 0 else - 2,
        \<lparr>f_name = name, f_append = LFS_O_APPEND \<in> set flags,
         f_data = (if LFS_O_TRUNC \<in> set flags \<or> x name = None then [] else the (x name)), f_pos = 0\<rparr>, x),
     lfs_file_close = \<lambda>f x. (0, f, x(f_name f \<mapsto> f_data f)),
     lfs_file_size = \<lambda>f x. int (length (f_data f)),
     lfs_file_read = \<lambda>f n x. (case ram_read f n of (r, bs, f) \<Rightarrow> (r, bs, f, x)),
     lfs_file_write = \<lambda>f bs x. (int (length bs), f_write f bs, x),
     lfs_file_seek = \<lambda>f p x. (f\<lparr>f_pos := p\<rparr>, x),
     lfs_file_truncate = \<lambda>f p x. (0, f\<lparr>f_data := take p (f_data f)\<rparr>, x),
     lfs_dir_open = \<lambda>name x. (0, (), x), lfs_dir_read = \<lambda>d x. (0, ([], False), d, x),
     lfs_dir_close = \<lambda>d x. x, lfs_remove = \<lambda>name x. (0, x(name := None)), lfs_mkdir = \<lambda>name x. (0, x)\<rparr>"

definition ram_view :: "nat \<Rightarrow> (string \<rightharpoonup> bytes, f_state) lfs_view" where
  "ram_view n = \<lparr>healthy = \<lambda>x. True, f_limit = n, f_contents = \<lambda>x. x, f_open = \<lambda>f x. Some f\<rparr>"

lemma ram_laws: "lfs_laws ram_lfs (ram_view n)"
  by (simp add: lfs_laws_def lfs_open_law_def lfs_read_law_def lfs_write_law_def lfs_seek_law_def lfs_truncate_law_def lfs_close_law_def
      ram_lfs_def ram_view_def ram_read_def Let_def)

lemma ram_healthy [simp]: "healthy (ram_view n) x" "f_limit (ram_view n) = n" "f_contents (ram_view n) x = x"
  by (simp_all add: ram_view_def)

end
