(* ===== verification/Cbor_Encoder.thy ===== *)
theory Cbor_Encoder
  imports Prelude
begin

text \<open>
  The CBOR encoder of \<open>tinycbor/src/cborencoder.c\<close>. An encoder writes into a caller's buffer; a
  container encoder writes behind its parent in the same buffer and is copied back when it is closed,
  so the buffer is a field of the encoder and the parent's copy is replaced on closing. The union of
  the write pointer and the count of missing bytes is one natural number, \<open>ce_data\<close>, read as an
  offset while \<open>ce_end\<close> is not the null pointer (\<open>None\<close>) and as the number of missing bytes
  afterwards.
\<close>

section \<open>Errors and constants\<close>

datatype CborError =
    CborNoError
  | CborUnknownError
  | CborErrorUnknownLength
  | CborErrorAdvancePastEOF
  | CborErrorIO
  | CborErrorGarbageAtEnd
  | CborErrorUnexpectedEOF
  | CborErrorUnexpectedBreak
  | CborErrorUnknownType
  | CborErrorIllegalType
  | CborErrorIllegalNumber
  | CborErrorIllegalSimpleType
  | CborErrorUnknownSimpleType
  | CborErrorUnknownTag
  | CborErrorInappropriateTagForType
  | CborErrorDuplicateObjectKeys
  | CborErrorInvalidUtf8TextString
  | CborErrorExcludedType
  | CborErrorExcludedValue
  | CborErrorImproperValue
  | CborErrorOverlongEncoding
  | CborErrorMapKeyNotString
  | CborErrorMapNotSorted
  | CborErrorMapKeysNotUnique
  | CborErrorTooManyItems
  | CborErrorTooFewItems
  | CborErrorDataTooLarge
  | CborErrorNestingTooDeep
  | CborErrorUnsupportedType
  | CborErrorJsonObjectKeyIsAggregate
  | CborErrorJsonObjectKeyNotString
  | CborErrorJsonNotImplemented
  | CborErrorOutOfMemory
  | CborErrorInternalError

text \<open>The major types, shifted into the high three bits of the descriptor byte.\<close>

definition UnsignedIntegerMajor :: byte where "UnsignedIntegerMajor = 0x00"
definition NegativeIntegerMajor :: byte where "NegativeIntegerMajor = 0x20"
definition ByteStringMajor :: byte where "ByteStringMajor = 0x40"
definition TextStringMajor :: byte where "TextStringMajor = 0x60"
definition ArrayMajor :: byte where "ArrayMajor = 0x80"
definition MapMajor :: byte where "MapMajor = 0xa0"
definition TagMajor :: byte where "TagMajor = 0xc0"
definition SimpleTypesMajor :: byte where "SimpleTypesMajor = 0xe0"

definition SmallValueMask :: byte where "SmallValueMask = 31"
definition MajorTypeMask :: byte where "MajorTypeMask = 0xe0"
definition Value8Bit :: byte where "Value8Bit = 24"
definition Value16Bit :: byte where "Value16Bit = 25"
definition Value32Bit :: byte where "Value32Bit = 26"
definition Value64Bit :: byte where "Value64Bit = 27"
definition IndefiniteLength :: byte where "IndefiniteLength = 31"
definition BreakByte :: byte where "BreakByte = 0xff"

definition CborBooleanType :: byte where "CborBooleanType = 0xf5"
definition CborNullType :: byte where "CborNullType = 0xf6"
definition CborUndefinedType :: byte where "CborUndefinedType = 0xf7"
definition CborHalfFloatType :: byte where "CborHalfFloatType = 0xf9"
definition CborFloatType :: byte where "CborFloatType = 0xfa"
definition CborDoubleType :: byte where "CborDoubleType = 0xfb"

definition Flag_ContainerIsMap :: byte where "Flag_ContainerIsMap = 0x20"
definition Flag_UnknownLength :: byte where "Flag_UnknownLength = 0x04"
definition CborIndefiniteLength :: u32 where "CborIndefiniteLength = 0xffffffff"

lemmas cbor_consts = UnsignedIntegerMajor_def NegativeIntegerMajor_def ByteStringMajor_def
  TextStringMajor_def ArrayMajor_def MapMajor_def TagMajor_def SimpleTypesMajor_def SmallValueMask_def
  MajorTypeMask_def Value8Bit_def Value16Bit_def Value32Bit_def Value64Bit_def IndefiniteLength_def
  BreakByte_def CborBooleanType_def CborNullType_def CborUndefinedType_def CborHalfFloatType_def
  CborFloatType_def CborDoubleType_def Flag_ContainerIsMap_def Flag_UnknownLength_def
  CborIndefiniteLength_def

section \<open>The encoder\<close>

record CborEncoder =
  ce_buf :: bytes
  ce_data :: nat
  ce_end :: "nat option"
  ce_remaining :: u32
  ce_flags :: byte

text \<open>\<open>off\<close> and \<open>sz\<close> say where in \<open>buf\<close> the encoder's area lies.\<close>

definition cbor_encoder_init :: "bytes \<Rightarrow> nat \<Rightarrow> nat \<Rightarrow> byte \<Rightarrow> CborEncoder" where
  "cbor_encoder_init buf off sz flags =
     \<lparr>ce_buf = buf, ce_data = off, ce_end = Some (off + sz), ce_remaining = 2, ce_flags = flags\<rparr>"

definition would_overflow :: "CborEncoder \<Rightarrow> nat \<Rightarrow> bool" where
  "would_overflow e len =
     ((case ce_end e of None \<Rightarrow> 0 | Some en \<Rightarrow> int en) - int (ce_data e) - int len < 0)"

definition advance_ptr :: "CborEncoder \<Rightarrow> nat \<Rightarrow> CborEncoder" where
  "advance_ptr e n = e\<lparr>ce_data := ce_data e + n\<rparr>"

definition append_to_buffer :: "CborEncoder \<Rightarrow> bytes \<Rightarrow> CborError \<times> CborEncoder" where
  "append_to_buffer e data =
     (if would_overflow e (length data)
      then (case ce_end e of
          Some en \<Rightarrow> (CborErrorOutOfMemory,
            advance_ptr (e\<lparr>ce_end := None, ce_data := 0\<rparr>) (length data - (en - ce_data e)))
        | None \<Rightarrow> (CborErrorOutOfMemory, advance_ptr e (length data)))
      else (CborNoError,
        e\<lparr>ce_buf := (if data = [] then ce_buf e else blit (ce_buf e) (ce_data e) data),
          ce_data := ce_data e + length data\<rparr>))"

definition append_byte_to_buffer :: "CborEncoder \<Rightarrow> byte \<Rightarrow> CborError \<times> CborEncoder" where
  "append_byte_to_buffer e b = append_to_buffer e [b]"

text \<open>The bytes from \<open>bufstart\<close> on: the descriptor byte and the big-endian number, in the shortest
  of the five forms.\<close>

definition number_bytes :: "u64 \<Rightarrow> byte \<Rightarrow> bytes" where
  "number_bytes ui shiftedMajorType =
     (if ui < ucast Value8Bit then [ucast ui + shiftedMajorType]
      else let more = (if ui > 0xff then 1 else 0) + (if ui > 0xffff then 1 else 0)
                      + (if ui > 0xffffffff then 1 else (0::nat))
           in (shiftedMajorType + Value8Bit + of_nat more) # drop (8 - 2 ^ more) (be64 ui))"

definition encode_number_no_update :: "CborEncoder \<Rightarrow> u64 \<Rightarrow> byte \<Rightarrow> CborError \<times> CborEncoder" where
  "encode_number_no_update e ui shiftedMajorType = append_to_buffer e (number_bytes ui shiftedMajorType)"

definition saturated_decrement :: "CborEncoder \<Rightarrow> CborEncoder" where
  "saturated_decrement e = (if ce_remaining e \<noteq> 0 then e\<lparr>ce_remaining := ce_remaining e - 1\<rparr> else e)"

definition encode_number :: "CborEncoder \<Rightarrow> u64 \<Rightarrow> byte \<Rightarrow> CborError \<times> CborEncoder" where
  "encode_number e ui shiftedMajorType = encode_number_no_update (saturated_decrement e) ui shiftedMajorType"

definition cbor_encode_uint :: "CborEncoder \<Rightarrow> u64 \<Rightarrow> CborError \<times> CborEncoder" where
  "cbor_encode_uint e v = encode_number e v UnsignedIntegerMajor"

definition cbor_encode_negative_int :: "CborEncoder \<Rightarrow> u64 \<Rightarrow> CborError \<times> CborEncoder" where
  "cbor_encode_negative_int e absolute_value = encode_number e (absolute_value - 1) NegativeIntegerMajor"

text \<open>The value is a 64-bit two's complement number; the shift is arithmetic.\<close>

definition cbor_encode_int :: "CborEncoder \<Rightarrow> u64 \<Rightarrow> CborError \<times> CborEncoder" where
  "cbor_encode_int e v =
     (let ui = signed_drop_bit 63 v;
          majorType = ucast (ui AND 0x20)
      in encode_number e (ui XOR v) majorType)"

definition cbor_encode_simple_value :: "CborEncoder \<Rightarrow> byte \<Rightarrow> CborError \<times> CborEncoder" where
  "cbor_encode_simple_value e v =
     (if v \<ge> 25 \<and> v \<le> 31 then (CborErrorIllegalSimpleType, e)
      else encode_number e (ucast v) SimpleTypesMajor)"

text \<open>The floating-point value is given by its bytes in memory order, least significant first.\<close>

definition cbor_encode_floating_point :: "CborEncoder \<Rightarrow> byte \<Rightarrow> bytes \<Rightarrow> CborError \<times> CborEncoder" where
  "cbor_encode_floating_point e fpType value =
     (let sz = 2 * 2 ^ (unat fpType - unat CborHalfFloatType)
      in append_to_buffer (saturated_decrement e) (fpType # rev (take sz value)))"

definition cbor_encode_tag :: "CborEncoder \<Rightarrow> u64 \<Rightarrow> CborError \<times> CborEncoder" where
  "cbor_encode_tag e tag = encode_number_no_update e tag TagMajor"

text \<open>The error of the length is dropped: it can only be the missing room that the string meets
  again.\<close>

definition encode_string :: "CborEncoder \<Rightarrow> byte \<Rightarrow> bytes \<Rightarrow> CborError \<times> CborEncoder" where
  "encode_string e shiftedMajorType s =
     append_to_buffer (snd (encode_number e (of_nat (length s)) shiftedMajorType)) s"

definition cbor_encode_byte_string :: "CborEncoder \<Rightarrow> bytes \<Rightarrow> CborError \<times> CborEncoder" where
  "cbor_encode_byte_string e s = encode_string e ByteStringMajor s"

definition cbor_encode_text_string :: "CborEncoder \<Rightarrow> bytes \<Rightarrow> CborError \<times> CborEncoder" where
  "cbor_encode_text_string e s = encode_string e TextStringMajor s"

definition cbor_encode_boolean :: "CborEncoder \<Rightarrow> bool \<Rightarrow> CborError \<times> CborEncoder" where
  "cbor_encode_boolean e v =
     cbor_encode_simple_value e (of_bool v - 1 + (CborBooleanType AND 0x1f))"

definition cbor_encode_null :: "CborEncoder \<Rightarrow> CborError \<times> CborEncoder" where
  "cbor_encode_null e = cbor_encode_simple_value e (CborNullType AND 0x1f)"

definition cbor_encode_undefined :: "CborEncoder \<Rightarrow> CborError \<times> CborEncoder" where
  "cbor_encode_undefined e = cbor_encode_simple_value e (CborUndefinedType AND 0x1f)"

text \<open>The result is the error, the parent and the container.\<close>

definition create_container ::
  "CborEncoder \<Rightarrow> u32 \<Rightarrow> byte \<Rightarrow> CborError \<times> CborEncoder \<times> CborEncoder" where
  "create_container e len shiftedMajorType =
     (let container = \<lparr>ce_buf = ce_buf e, ce_data = ce_data e, ce_end = ce_end e, ce_remaining = len + 1,
            ce_flags = shiftedMajorType AND Flag_ContainerIsMap\<rparr>;
          e = saturated_decrement e;
          (err, container) =
            (if len = CborIndefiniteLength
             then append_byte_to_buffer (container\<lparr>ce_flags := ce_flags container OR Flag_UnknownLength\<rparr>)
                    (shiftedMajorType + IndefiniteLength)
             else encode_number_no_update
                    (if shiftedMajorType AND Flag_ContainerIsMap \<noteq> 0
                     then container\<lparr>ce_remaining := ce_remaining container + len\<rparr> else container)
                    (ucast len) shiftedMajorType)
      in (err, e, container))"

definition cbor_encoder_create_array :: "CborEncoder \<Rightarrow> u32 \<Rightarrow> CborError \<times> CborEncoder \<times> CborEncoder" where
  "cbor_encoder_create_array e len = create_container e len ArrayMajor"

definition cbor_encoder_create_map :: "CborEncoder \<Rightarrow> u32 \<Rightarrow> CborError \<times> CborEncoder \<times> CborEncoder" where
  "cbor_encoder_create_map e len =
     (if len \<noteq> CborIndefiniteLength \<and> len > 0x7fffffff then (CborErrorDataTooLarge, e, e)
      else create_container e len MapMajor)"

definition cbor_encoder_close_container :: "CborEncoder \<Rightarrow> CborEncoder \<Rightarrow> CborError \<times> CborEncoder" where
  "cbor_encoder_close_container e container =
     (let e = e\<lparr>ce_buf := ce_buf container, ce_data := ce_data container, ce_end := ce_end container\<rparr>
      in if ce_flags container AND Flag_UnknownLength \<noteq> 0 then append_byte_to_buffer e BreakByte
         else if ce_remaining container \<noteq> 1
         then (if ce_remaining container = 0 then CborErrorTooManyItems else CborErrorTooFewItems, e)
         else if ce_end e = None then (CborErrorOutOfMemory, e)
         else (CborNoError, e))"

text \<open>\<open>off\<close> is where the buffer given to the initialisation starts.\<close>

definition cbor_encoder_get_buffer_size :: "CborEncoder \<Rightarrow> nat \<Rightarrow> nat" where
  "cbor_encoder_get_buffer_size e off = ce_data e - off"

definition cbor_encoder_get_extra_bytes_needed :: "CborEncoder \<Rightarrow> nat" where
  "cbor_encoder_get_extra_bytes_needed e = (case ce_end e of Some _ \<Rightarrow> 0 | None \<Rightarrow> ce_data e)"

section \<open>Sequences\<close>

text \<open>Callers write a container as a sequence of calls, each checked: the first error ends the sequence.
  \<open>enc_seq\<close> runs the calls on one encoder, \<open>enc_map\<close> and \<open>enc_array\<close> are the sequences
  between creating a container and closing it. After an error inside, the buffer holds what was written,
  and the parent's fields are the ones it had when the container was created.\<close>

type_synonym enc_call = "CborEncoder \<Rightarrow> CborError \<times> CborEncoder"

fun enc_seq :: "enc_call list \<Rightarrow> enc_call" where
  "enc_seq [] e = (CborNoError, e)"
| "enc_seq (f # fs) e = (let (err, e) = f e in if err \<noteq> CborNoError then (err, e) else enc_seq fs e)"

definition enc_container ::
  "(CborEncoder \<Rightarrow> CborError \<times> CborEncoder \<times> CborEncoder) \<Rightarrow> enc_call list \<Rightarrow> enc_call" where
  "enc_container create fs e =
     (let (err, e, c) = create e
      in if err \<noteq> CborNoError then (err, e)
         else let (err, c) = enc_seq fs c
              in if err \<noteq> CborNoError then (err, e\<lparr>ce_buf := ce_buf c\<rparr>)
                 else cbor_encoder_close_container e c)"

definition enc_map :: "u32 \<Rightarrow> enc_call list \<Rightarrow> enc_call" where
  "enc_map n fs = enc_container (\<lambda>e. cbor_encoder_create_map e n) fs"

definition enc_array :: "u32 \<Rightarrow> enc_call list \<Rightarrow> enc_call" where
  "enc_array n fs = enc_container (\<lambda>e. cbor_encoder_create_array e n) fs"

end
