(* ===== verification/Cbor_Parser.thy ===== *)
theory Cbor_Parser
  imports Cbor_Encoder Libc
begin

text \<open>
  The CBOR parser of \<open>tinycbor/src/cborparser.c\<close> and the accessors of \<open>cbor.h\<close>. The iterator
  \<open>CborValue\<close> carries the input up to \<open>parser->end\<close> as \<open>cv_buf\<close> and its position as an
  offset. \<open>None\<close> stands for a failed assertion (the build keeps assertions, which halt the device)
  and for a read past the end of the input, so a theorem that a routine returns \<open>Some\<close> says that
  neither happens.
\<close>

definition CborIntegerType :: byte where "CborIntegerType = 0x00"
definition CborByteStringType :: byte where "CborByteStringType = 0x40"
definition CborTextStringType :: byte where "CborTextStringType = 0x60"
definition CborArrayType :: byte where "CborArrayType = 0x80"
definition CborMapType :: byte where "CborMapType = 0xa0"
definition CborTagType :: byte where "CborTagType = 0xc0"
definition CborSimpleType :: byte where "CborSimpleType = 0xe0"
definition CborInvalidType :: byte where "CborInvalidType = 0xff"

definition Flag_IntegerValueTooLarge :: byte where "Flag_IntegerValueTooLarge = 0x01"
definition Flag_NegativeInteger :: byte where "Flag_NegativeInteger = 0x02"
definition Flag_IteratingStringChunks :: byte where "Flag_IteratingStringChunks = 0x02"

definition UINT32_MAX :: u32 where "UINT32_MAX = 0xffffffff"
definition CBOR_PARSER_MAX_RECURSIONS :: nat where "CBOR_PARSER_MAX_RECURSIONS = 1024"

lemmas cbor_types = CborIntegerType_def CborByteStringType_def CborTextStringType_def CborArrayType_def
  CborMapType_def CborTagType_def CborSimpleType_def CborInvalidType_def CborBooleanType_def
  CborNullType_def CborUndefinedType_def CborHalfFloatType_def CborFloatType_def CborDoubleType_def

lemmas cbor_flags = Flag_IntegerValueTooLarge_def Flag_NegativeInteger_def Flag_IteratingStringChunks_def
  Flag_UnknownLength_def

record CborValue =
  cv_buf :: bytes
  cv_ptr :: nat
  cv_remaining :: u32
  cv_extra :: u16
  cv_type :: byte
  cv_flags :: byte

abbreviation cv_end :: "CborValue \<Rightarrow> nat" where
  "cv_end it \<equiv> length (cv_buf it)"

text \<open>An assertion.\<close>

definition cbor_assert :: "bool \<Rightarrow> 'a option \<Rightarrow> 'a option" where
  "cbor_assert b k = (if b then k else None)"

section \<open>Reading the input\<close>

definition get_byte :: "bytes \<Rightarrow> nat \<Rightarrow> byte option" where
  "get_byte buf p = (if p < length buf then Some (buf ! p) else None)"

definition get16 :: "bytes \<Rightarrow> nat \<Rightarrow> u16 option" where
  "get16 buf p = (if p + 2 \<le> length buf then Some (of_nat (of_be (slice p 2 buf))) else None)"

definition get32 :: "bytes \<Rightarrow> nat \<Rightarrow> u32 option" where
  "get32 buf p = (if p + 4 \<le> length buf then Some (of_nat (of_be (slice p 4 buf))) else None)"

definition get64 :: "bytes \<Rightarrow> nat \<Rightarrow> u64 option" where
  "get64 buf p = (if p + 8 \<le> length buf then Some (of_nat (of_be (slice p 8 buf))) else None)"

text \<open>The result is the error, the advanced pointer and the number, zero where the code leaves it
  unset.\<close>

definition extract_number :: "bytes \<Rightarrow> nat \<Rightarrow> (CborError \<times> nat \<times> u64) option" where
  "extract_number buf ptr = do {
     b \<leftarrow> get_byte buf ptr;
     let additional_information = b AND SmallValueMask;
     let ptr = ptr + 1;
     if additional_information < Value8Bit then Some (CborNoError, ptr, ucast additional_information)
     else if additional_information > Value64Bit then Some (CborErrorIllegalNumber, ptr, 0)
     else do {
       let bytesNeeded = 2 ^ unat (additional_information - Value8Bit);
       if bytesNeeded > length buf - ptr then Some (CborErrorUnexpectedEOF, ptr, 0)
       else do {
         len \<leftarrow> (if bytesNeeded = 1 then map_option ucast (get_byte buf ptr)
                else if bytesNeeded = 2 then map_option ucast (get16 buf ptr)
                else if bytesNeeded = 4 then map_option ucast (get32 buf ptr)
                else get64 buf ptr);
         Some (CborNoError, ptr + bytesNeeded, len) } } }"

definition extract_length :: "bytes \<Rightarrow> nat \<Rightarrow> (CborError \<times> nat \<times> nat) option" where
  "extract_length buf ptr = do {
     (err, ptr, v) \<leftarrow> extract_number buf ptr;
     Some (if err \<noteq> CborNoError then (err, ptr, 0)
           else if ucast (ucast v :: u32) \<noteq> v then (CborErrorDataTooLarge, ptr, unat (ucast v :: u32))
           else (CborNoError, ptr, unat (ucast v :: u32))) }"

definition is_fixed_type :: "byte \<Rightarrow> bool" where
  "is_fixed_type type = (type \<noteq> CborTextStringType \<and> type \<noteq> CborByteStringType \<and> type \<noteq> CborArrayType
     \<and> type \<noteq> CborMapType)"

section \<open>Preparsing\<close>

text \<open>How many bytes follow the descriptor byte.\<close>

definition extra_bytes :: "byte \<Rightarrow> nat" where
  "extra_bytes descriptor = (if descriptor < Value8Bit then 0 else 2 ^ unat (descriptor - Value8Bit))"

text \<open>The simple values and floats, for a descriptor of at most \<open>Value64Bit\<close>.\<close>

definition preparse_simple :: "byte \<Rightarrow> CborValue \<Rightarrow> (CborError \<times> CborValue) option" where
  "preparse_simple descriptor it =
     (if descriptor = 20 then Some (CborNoError, it\<lparr>cv_extra := 0, cv_type := CborBooleanType\<rparr>)
      else if descriptor \<in> {26, 27}
      then do { b \<leftarrow> get_byte (cv_buf it) (cv_ptr it);
                Some (CborNoError, it\<lparr>cv_flags := cv_flags it OR Flag_IntegerValueTooLarge, cv_type := b\<rparr>) }
      else if descriptor \<in> {21, 22, 23, 25}
      then do { b \<leftarrow> get_byte (cv_buf it) (cv_ptr it); Some (CborNoError, it\<lparr>cv_type := b\<rparr>) }
      else if descriptor = 24
      then do { b \<leftarrow> get_byte (cv_buf it) (cv_ptr it + 1);
                let it = it\<lparr>cv_extra := ucast b\<rparr>;
                Some (if b < 32 then (CborErrorIllegalSimpleType, it\<lparr>cv_type := CborInvalidType\<rparr>)
                      else (CborNoError, it)) }
      else Some (CborNoError, it))"

text \<open>Lengths and integers of up to 16 bits are decoded at once.\<close>

definition preparse_number :: "byte \<Rightarrow> CborValue \<Rightarrow> (CborError \<times> CborValue) option" where
  "preparse_number descriptor it =
     (if descriptor < Value8Bit then Some (CborNoError, it)
      else if descriptor = Value8Bit
      then do { b \<leftarrow> get_byte (cv_buf it) (cv_ptr it + 1); Some (CborNoError, it\<lparr>cv_extra := ucast b\<rparr>) }
      else if descriptor = Value16Bit
      then do { v \<leftarrow> get16 (cv_buf it) (cv_ptr it + 1); Some (CborNoError, it\<lparr>cv_extra := v\<rparr>) }
      else Some (CborNoError, it\<lparr>cv_flags := cv_flags it OR Flag_IntegerValueTooLarge\<rparr>))"

definition preparse_value :: "CborValue \<Rightarrow> (CborError \<times> CborValue) option" where
  "preparse_value it =
     (let it = it\<lparr>cv_type := CborInvalidType\<rparr>
      in if cv_ptr it = cv_end it then Some (CborErrorUnexpectedEOF, it)
         else do {
           d \<leftarrow> get_byte (cv_buf it) (cv_ptr it);
           let type = d AND MajorTypeMask;
           let descriptor = d AND SmallValueMask;
           let it = it\<lparr>cv_type := type, cv_flags := 0, cv_extra := ucast descriptor\<rparr>;
           if descriptor > Value64Bit
           then Some (if descriptor \<noteq> IndefiniteLength
             then (if type = CborSimpleType then CborErrorUnknownType else CborErrorIllegalNumber, it)
             else if \<not> is_fixed_type type then (CborNoError, it\<lparr>cv_flags := cv_flags it OR Flag_UnknownLength\<rparr>)
             else (if type = CborSimpleType then CborErrorUnexpectedBreak else CborErrorIllegalNumber, it))
           else do {
             if extra_bytes descriptor + 1 > cv_end it - cv_ptr it then Some (CborErrorUnexpectedEOF, it)
             else if type = NegativeIntegerMajor
             then preparse_number descriptor
                    (it\<lparr>cv_flags := cv_flags it OR Flag_NegativeInteger, cv_type := CborIntegerType\<rparr>)
             else if type = SimpleTypesMajor then preparse_simple descriptor it
             else preparse_number descriptor it } })"

definition preparse_next_value_nodecrement :: "CborValue \<Rightarrow> (CborError \<times> CborValue) option" where
  "preparse_next_value_nodecrement it =
     (if cv_remaining it = UINT32_MAX \<and> cv_ptr it \<noteq> cv_end it
      then do { b \<leftarrow> get_byte (cv_buf it) (cv_ptr it);
                if b = BreakByte
                then Some (CborNoError, it\<lparr>cv_ptr := cv_ptr it + 1, cv_type := CborInvalidType, cv_remaining := 0\<rparr>)
                else preparse_value it }
      else preparse_value it)"

definition preparse_next_value :: "CborValue \<Rightarrow> (CborError \<times> CborValue) option" where
  "preparse_next_value it =
     (if cv_remaining it \<noteq> UINT32_MAX \<and> cv_type it \<noteq> CborTagType
      then (let it = it\<lparr>cv_remaining := cv_remaining it - 1\<rparr>
            in if cv_remaining it = 0 then Some (CborNoError, it\<lparr>cv_type := CborInvalidType\<rparr>)
               else preparse_next_value_nodecrement it)
      else preparse_next_value_nodecrement it)"

definition advance_internal :: "CborValue \<Rightarrow> (CborError \<times> CborValue) option" where
  "advance_internal it = do {
     (err, ptr, len) \<leftarrow> extract_number (cv_buf it) (cv_ptr it);
     cbor_assert (err = CborNoError) (do {
       let it = it\<lparr>cv_ptr := ptr\<rparr>;
       if cv_type it = CborByteStringType \<or> cv_type it = CborTextStringType
       then cbor_assert (ucast (ucast len :: u32) = len \<and> cv_flags it AND Flag_UnknownLength = 0)
              (preparse_next_value (it\<lparr>cv_ptr := cv_ptr it + unat len\<rparr>))
       else preparse_next_value it }) }"

definition decode_int64_internal :: "CborValue \<Rightarrow> u64 option" where
  "decode_int64_internal it = do {
     b \<leftarrow> get_byte (cv_buf it) (cv_ptr it);
     cbor_assert (cv_flags it AND Flag_IntegerValueTooLarge \<noteq> 0 \<or> cv_type it = CborFloatType
         \<or> cv_type it = CborDoubleType)
       (cbor_assert (b AND SmallValueMask = Value32Bit \<or> b AND SmallValueMask = Value64Bit)
         (if b AND 1 = Value32Bit AND 1 then map_option ucast (get32 (cv_buf it) (cv_ptr it + 1))
          else get64 (cv_buf it) (cv_ptr it + 1))) }"

definition cbor_parser_init :: "bytes \<Rightarrow> (CborError \<times> CborValue) option" where
  "cbor_parser_init buffer =
     preparse_value \<lparr>cv_buf = buffer, cv_ptr = 0, cv_remaining = 1, cv_extra = 0, cv_type = 0, cv_flags = 0\<rparr>"

section \<open>Accessors\<close>

definition cbor_value_at_end :: "CborValue \<Rightarrow> bool" where
  "cbor_value_at_end it = (cv_remaining it = 0)"

definition cbor_value_is_container :: "CborValue \<Rightarrow> bool" where
  "cbor_value_is_container it = (cv_type it = CborArrayType \<or> cv_type it = CborMapType)"

definition cbor_value_get_type :: "CborValue \<Rightarrow> byte" where
  "cbor_value_get_type it = cv_type it"

definition cbor_value_is_length_known :: "CborValue \<Rightarrow> bool" where
  "cbor_value_is_length_known it = (cv_flags it AND Flag_UnknownLength = 0)"

definition extract_int64_helper :: "CborValue \<Rightarrow> u64 option" where
  "extract_int64_helper it =
     (if cv_flags it AND Flag_IntegerValueTooLarge \<noteq> 0 then decode_int64_internal it
      else Some (ucast (cv_extra it)))"

definition cbor_value_get_boolean :: "CborValue \<Rightarrow> bool option" where
  "cbor_value_get_boolean it = cbor_assert (cv_type it = CborBooleanType) (Some (cv_extra it \<noteq> 0))"

definition cbor_value_get_uint64 :: "CborValue \<Rightarrow> u64 option" where
  "cbor_value_get_uint64 it =
     cbor_assert (cv_type it = CborIntegerType \<and> cv_flags it AND Flag_NegativeInteger = 0)
       (extract_int64_helper it)"

text \<open>A signed 64-bit result, as its two's complement word.\<close>

definition cbor_value_get_int64 :: "CborValue \<Rightarrow> u64 option" where
  "cbor_value_get_int64 it = cbor_assert (cv_type it = CborIntegerType) (do {
     v \<leftarrow> extract_int64_helper it;
     Some (if cv_flags it AND Flag_NegativeInteger \<noteq> 0 then - v - 1 else v) })"

text \<open>A result in the range of a 32-bit \<open>int\<close>, or an error.\<close>

definition cbor_value_get_int_checked :: "CborValue \<Rightarrow> (CborError \<times> int) option" where
  "cbor_value_get_int_checked it = cbor_assert (cv_type it = CborIntegerType) (do {
     v \<leftarrow> extract_int64_helper it;
     Some (if v > 0x7fffffff then (CborErrorDataTooLarge, 0)
           else (CborNoError, if cv_flags it AND Flag_NegativeInteger \<noteq> 0 then - uint v - 1 else uint v)) })"

text \<open>The length of a string, an array or a map, for the three routines of that shape.\<close>

definition known_length :: "CborValue \<Rightarrow> (CborError \<times> nat) option" where
  "known_length it =
     (if \<not> cbor_value_is_length_known it then Some (CborErrorUnknownLength, 0)
      else do {
        v \<leftarrow> extract_int64_helper it;
        let len = (ucast v :: u32);
        Some (if ucast len \<noteq> v then CborErrorDataTooLarge else CborNoError, unat len) })"

definition cbor_value_get_string_length :: "CborValue \<Rightarrow> (CborError \<times> nat) option" where
  "cbor_value_get_string_length it =
     cbor_assert (cv_type it = CborByteStringType \<or> cv_type it = CborTextStringType) (known_length it)"

definition cbor_value_get_array_length :: "CborValue \<Rightarrow> (CborError \<times> nat) option" where
  "cbor_value_get_array_length it = cbor_assert (cv_type it = CborArrayType) (known_length it)"

definition cbor_value_get_map_length :: "CborValue \<Rightarrow> (CborError \<times> nat) option" where
  "cbor_value_get_map_length it = cbor_assert (cv_type it = CborMapType) (known_length it)"

section \<open>Strings\<close>

definition prepare_string_iteration :: "CborValue \<Rightarrow> CborValue" where
  "prepare_string_iteration it =
     (if \<not> cbor_value_is_length_known it
      then it\<lparr>cv_ptr := cv_ptr it + 1, cv_flags := cv_flags it OR Flag_IteratingStringChunks\<rparr>
      else it)"

text \<open>The second component is the chunk, \<open>None\<close> for the null pointer that ends the iteration.\<close>

definition last_chunk :: "CborValue \<Rightarrow> (CborError \<times> bytes option \<times> CborValue) option" where
  "last_chunk it = do { (err, it) \<leftarrow> preparse_next_value it; Some (err, None, it) }"

definition next_chunk :: "CborValue \<Rightarrow> (CborError \<times> bytes option \<times> CborValue) option" where
  "next_chunk it =
     (if cv_ptr it = cv_end it then Some (CborErrorUnexpectedEOF, None, it)
      else do {
        b \<leftarrow> get_byte (cv_buf it) (cv_ptr it);
        if b = BreakByte then last_chunk (it\<lparr>cv_ptr := cv_ptr it + 1\<rparr>)
        else if b AND MajorTypeMask = cv_type it
        then do {
          (err, ptr, len) \<leftarrow> extract_length (cv_buf it) (cv_ptr it);
          let it = it\<lparr>cv_ptr := ptr\<rparr>;
          if err \<noteq> CborNoError then Some (err, None, it)
          else if len > cv_end it - cv_ptr it then Some (CborErrorUnexpectedEOF, None, it)
          else Some (CborNoError, Some (slice ptr len (cv_buf it)),
            it\<lparr>cv_ptr := ptr + len, cv_flags := cv_flags it OR Flag_IteratingStringChunks\<rparr>) }
        else Some (CborErrorIllegalType, None, it) })"

definition get_string_chunk :: "CborValue \<Rightarrow> (CborError \<times> bytes option \<times> CborValue) option" where
  "get_string_chunk it =
     (if cv_flags it AND Flag_IteratingStringChunks \<noteq> 0
      then if cbor_value_is_length_known it then last_chunk it else next_chunk it
      else next_chunk (prepare_string_iteration it))"

lemma extract_number_progress:
  assumes "extract_number buf p = Some (err, p', v)"
  shows "p < p' \<and> p' \<le> length buf"
proof -
  have "p < length buf" "p' = p + 1 \<or> (\<exists>n. p' = p + 1 + n \<and> n \<le> length buf - (p + 1))"
    using assms
    by (auto simp: extract_number_def get_byte_def Let_def Option.bind_eq_Some_conv split: if_splits)
  then show ?thesis by auto
qed

lemma extract_length_progress:
  assumes "extract_length buf p = Some (err, p', n)"
  shows "p < p' \<and> p' \<le> length buf"
  using assms extract_number_progress
  by (auto simp: extract_length_def Option.bind_eq_Some_conv split: if_splits)

lemma get_string_chunk_progress:
  assumes "get_string_chunk it = Some (err, Some c, it')"
  shows "cv_buf it' = cv_buf it \<and> cv_ptr it < cv_ptr it' \<and> cv_ptr it' \<le> cv_end it"
  using assms
  by (auto simp: get_string_chunk_def next_chunk_def last_chunk_def prepare_string_iteration_def Let_def
      Option.bind_eq_Some_conv
      dest!: extract_length_progress split: if_splits)

text \<open>The function applied to each chunk sees the caller's buffer, the position in it and the chunk;
  it returns its verdict and the new buffer.\<close>

definition iterate_noop :: "bytes \<Rightarrow> nat \<Rightarrow> bytes \<Rightarrow> bool \<times> bytes" where
  "iterate_noop dest off src = (True, dest)"

definition iterate_memcmp :: "bytes \<Rightarrow> nat \<Rightarrow> bytes \<Rightarrow> bool \<times> bytes" where
  "iterate_memcmp s1 off s2 = (memcmp (length s2) (drop off s1) s2 = 0, s1)"

definition iterate_memcpy :: "bytes \<Rightarrow> nat \<Rightarrow> bytes \<Rightarrow> bool \<times> bytes" where
  "iterate_memcpy dest off src = (True, blit dest off src)"

text \<open>The state of the loop: the iterator, the buffer, the total so far and the verdict. The result
  is the error, the buffer, the total, the verdict and the iterator behind the string.\<close>

function chunk_loop ::
  "(bytes \<Rightarrow> nat \<Rightarrow> bytes \<Rightarrow> bool \<times> bytes) \<Rightarrow> nat \<Rightarrow> CborValue \<Rightarrow> bytes \<Rightarrow> nat \<Rightarrow> bool
    \<Rightarrow> (CborError \<times> bytes \<times> nat \<times> bool \<times> CborValue) option"
where
  "chunk_loop func buflen it buffer tot result = do {
     (err, chunk, it) \<leftarrow> get_string_chunk it;
     if err \<noteq> CborNoError then Some (err, buffer, buflen, result, it)
     else case chunk of
         None \<Rightarrow>
           (let (result, buffer) = (if result \<and> buflen > tot then func buffer tot [0] else (result, buffer))
            in Some (CborNoError, buffer, tot, result, it))
       | Some c \<Rightarrow>
           if tot + length c \<ge> 2 ^ 32 then Some (CborErrorDataTooLarge, buffer, buflen, result, it)
           else let (result, buffer) = (if result \<and> buflen \<ge> tot + length c then func buffer tot c
                                        else (False, buffer))
                in chunk_loop func buflen it buffer (tot + length c) result }"
  by auto
termination
  by (relation "measure (\<lambda>(func, buflen, it, buffer, tot, result). cv_end it - cv_ptr it)")
    (auto dest!: get_string_chunk_progress)

declare chunk_loop.simps [simp del]

definition iterate_string_chunks ::
  "(bytes \<Rightarrow> nat \<Rightarrow> bytes \<Rightarrow> bool \<times> bytes) \<Rightarrow> CborValue \<Rightarrow> bytes \<Rightarrow> nat
    \<Rightarrow> (CborError \<times> bytes \<times> nat \<times> bool \<times> CborValue) option" where
  "iterate_string_chunks func it buffer buflen =
     cbor_assert (cv_type it = CborByteStringType \<or> cv_type it = CborTextStringType)
       (chunk_loop func buflen it buffer 0 True)"

text \<open>\<open>buffer\<close> is \<open>None\<close> for the null pointer. The result is the error, the buffer, the
  length and the iterator behind the string.\<close>

definition copy_string ::
  "CborValue \<Rightarrow> bytes option \<Rightarrow> nat \<Rightarrow> (CborError \<times> bytes \<times> nat \<times> CborValue) option" where
  "copy_string it buffer buflen = do {
     (err, buf, tot, copied_all, nxt) \<leftarrow>
       (case buffer of
          None \<Rightarrow> iterate_string_chunks iterate_noop it [] buflen
        | Some b \<Rightarrow> iterate_string_chunks iterate_memcpy it b buflen);
     Some (if err \<noteq> CborNoError then err else if copied_all then CborNoError else CborErrorOutOfMemory,
       buf, tot, nxt) }"

definition SIZE_MAX :: nat where "SIZE_MAX = 2 ^ 32 - 1"

definition cbor_value_calculate_string_length :: "CborValue \<Rightarrow> (CborError \<times> nat) option" where
  "cbor_value_calculate_string_length it = do {
     (err, _, len, _) \<leftarrow> copy_string it None SIZE_MAX;
     Some (err, len) }"

text \<open>The copies into a caller's buffer: the error, the buffer and the length.\<close>

definition cbor_value_copy_text_string :: "CborValue \<Rightarrow> bytes \<Rightarrow> nat \<Rightarrow> (CborError \<times> bytes \<times> nat) option" where
  "cbor_value_copy_text_string it buffer buflen = cbor_assert (cv_type it = CborTextStringType) (do {
     (err, buf, len, _) \<leftarrow> copy_string it (Some buffer) buflen;
     Some (err, buf, len) })"

definition cbor_value_copy_byte_string :: "CborValue \<Rightarrow> bytes \<Rightarrow> nat \<Rightarrow> (CborError \<times> bytes \<times> nat) option" where
  "cbor_value_copy_byte_string it buffer buflen = cbor_assert (cv_type it = CborByteStringType) (do {
     (err, buf, len, _) \<leftarrow> copy_string it (Some buffer) buflen;
     Some (err, buf, len) })"

section \<open>Containers and advancing\<close>

text \<open>The container's iterator is left alone; the result is the error and the iterator inside it.\<close>

definition cbor_value_enter_container :: "CborValue \<Rightarrow> (CborError \<times> CborValue) option" where
  "cbor_value_enter_container it = cbor_assert (cbor_value_is_container it)
     (if cv_flags it AND Flag_UnknownLength \<noteq> 0
      then preparse_next_value_nodecrement (it\<lparr>cv_remaining := UINT32_MAX, cv_ptr := cv_ptr it + 1\<rparr>)
      else do {
        (err, ptr, len) \<leftarrow> extract_number (cv_buf it) (cv_ptr it);
        cbor_assert (err = CborNoError) (
          let n = (ucast len :: u32);
              rec = it\<lparr>cv_ptr := ptr, cv_remaining := n\<rparr>
          in if ucast n \<noteq> len \<or> len = ucast UINT32_MAX then Some (CborErrorDataTooLarge, rec\<lparr>cv_ptr := cv_ptr it\<rparr>)
             else if cv_type rec = CborMapType \<and> n > 0x7fffffff
             then Some (CborErrorDataTooLarge, rec\<lparr>cv_ptr := cv_ptr it\<rparr>)
             else let rec = (if cv_type rec = CborMapType then rec\<lparr>cv_remaining := n * 2\<rparr> else rec)
                  in if len = 0 then Some (CborNoError, rec\<lparr>cv_type := CborInvalidType\<rparr>)
                     else preparse_next_value_nodecrement rec) })"

definition cbor_value_leave_container :: "CborValue \<Rightarrow> CborValue \<Rightarrow> (CborError \<times> CborValue) option" where
  "cbor_value_leave_container it rec =
     cbor_assert (cbor_value_is_container it) (cbor_assert (cv_type rec = CborInvalidType)
       (preparse_next_value (it\<lparr>cv_ptr := cv_ptr rec\<rparr>)))"

text \<open>The loop over the items of a container, for a given way to advance over one item.\<close>

partial_function (option) advance_items ::
  "(CborValue \<Rightarrow> (CborError \<times> CborValue) option) \<Rightarrow> CborValue \<Rightarrow> (CborError \<times> CborValue) option" where
  "advance_items step rec =
     (if cbor_value_at_end rec then Some (CborNoError, rec)
      else Option.bind (step rec) (\<lambda>(err, rec).
        if err \<noteq> CborNoError then Some (err, rec) else advance_items step rec))"

declare advance_items.simps [code]

definition advance_string :: "CborValue \<Rightarrow> (CborError \<times> CborValue) option" where
  "advance_string it = do { (err, _, _, nxt) \<leftarrow> copy_string it None SIZE_MAX; Some (err, nxt) }"

primrec advance_recursive :: "nat \<Rightarrow> CborValue \<Rightarrow> (CborError \<times> CborValue) option" where
  "advance_recursive 0 it =
     (if is_fixed_type (cv_type it) then advance_internal it
      else if \<not> cbor_value_is_container it then advance_string it
      else Some (CborErrorNestingTooDeep, it))"
| "advance_recursive (Suc n) it =
     (if is_fixed_type (cv_type it) then advance_internal it
      else if \<not> cbor_value_is_container it then advance_string it
      else do {
        (err, rec) \<leftarrow> cbor_value_enter_container it;
        if err \<noteq> CborNoError then Some (err, it)
        else do {
          (err, rec) \<leftarrow> advance_items (advance_recursive n) rec;
          if err \<noteq> CborNoError then Some (err, it) else cbor_value_leave_container it rec } })"

definition cbor_value_advance_fixed :: "CborValue \<Rightarrow> (CborError \<times> CborValue) option" where
  "cbor_value_advance_fixed it =
     cbor_assert (cv_type it \<noteq> CborInvalidType) (cbor_assert (is_fixed_type (cv_type it))
       (if cv_remaining it = 0 then Some (CborErrorAdvancePastEOF, it) else advance_internal it))"

definition cbor_value_advance :: "CborValue \<Rightarrow> (CborError \<times> CborValue) option" where
  "cbor_value_advance it =
     cbor_assert (cv_type it \<noteq> CborInvalidType)
       (if cv_remaining it = 0 then Some (CborErrorAdvancePastEOF, it)
        else advance_recursive CBOR_PARSER_MAX_RECURSIONS it)"

definition cbor_value_validate_basic :: "CborValue \<Rightarrow> CborError option" where
  "cbor_value_validate_basic it = map_option fst (cbor_value_advance it)"

partial_function (option) cbor_value_skip_tag :: "CborValue \<Rightarrow> (CborError \<times> CborValue) option" where
  "cbor_value_skip_tag it =
     (if cv_type it = CborTagType
      then Option.bind (cbor_value_advance_fixed it) (\<lambda>(err, it).
        if err \<noteq> CborNoError then Some (err, it) else cbor_value_skip_tag it)
      else Some (CborNoError, it))"

declare cbor_value_skip_tag.simps [code]

text \<open>The search for a text key: comparing a key, skipping a value, the loop. An error and a search
  without success end with an element of the invalid type.\<close>

definition find_skip_value :: "CborValue \<Rightarrow> (CborError \<times> CborValue) option" where
  "find_skip_value it = do {
     (err, it) \<leftarrow> cbor_value_skip_tag it;
     if err \<noteq> CborNoError then Some (err, it) else cbor_value_advance it }"

definition find_key :: "bytes \<Rightarrow> CborValue \<Rightarrow> (CborError \<times> bool \<times> CborValue) option" where
  "find_key string it =
     (if cv_type it = CborTextStringType
      then do { (err, _, _, equals, it) \<leftarrow> iterate_string_chunks iterate_memcmp it string (length string);
                Some (err, equals, it) }
      else do { (err, it) \<leftarrow> cbor_value_advance it; Some (err, False, it) })"

partial_function (option) map_find_loop :: "bytes \<Rightarrow> CborValue \<Rightarrow> (CborError \<times> CborValue) option" where
  "map_find_loop string it =
     (if cbor_value_at_end it then Some (CborNoError, it\<lparr>cv_type := CborInvalidType\<rparr>)
      else Option.bind (cbor_value_skip_tag it) (\<lambda>(err, it).
        if err \<noteq> CborNoError then Some (err, it\<lparr>cv_type := CborInvalidType\<rparr>)
        else Option.bind (find_key string it) (\<lambda>(err, equals, it).
          if err \<noteq> CborNoError then Some (err, it\<lparr>cv_type := CborInvalidType\<rparr>)
          else if equals then preparse_value it
          else Option.bind (find_skip_value it) (\<lambda>(err, it).
            if err \<noteq> CborNoError then Some (err, it\<lparr>cv_type := CborInvalidType\<rparr>)
            else map_find_loop string it))))"

declare map_find_loop.simps [code]

definition cbor_value_map_find_value :: "CborValue \<Rightarrow> bytes \<Rightarrow> (CborError \<times> CborValue) option" where
  "cbor_value_map_find_value m string = cbor_assert (cv_type m = CborMapType) (do {
     (err, element) \<leftarrow> cbor_value_enter_container m;
     if err \<noteq> CborNoError then Some (err, element\<lparr>cv_type := CborInvalidType\<rparr>)
     else map_find_loop string element })"

definition cbor_value_text_string_equals :: "CborValue \<Rightarrow> bytes \<Rightarrow> (CborError \<times> bool) option" where
  "cbor_value_text_string_equals it string = do {
     (err, it) \<leftarrow> cbor_value_skip_tag it;
     if err \<noteq> CborNoError then Some (err, False)
     else if cv_type it \<noteq> CborTextStringType then Some (CborNoError, False)
     else do {
       (err, _, _, result, _) \<leftarrow> iterate_string_chunks iterate_memcmp it string (length string);
       Some (err, result) } }"

end
