(* ===== verification/Cbor_Safety.thy ===== *)
theory Cbor_Safety
  imports Cbor_Parser
begin

text \<open>
  The CBOR parser on arbitrary input. The invariant \<open>cv_head\<close> says that the iterator's item lies
  inside the input with the bytes its descriptor announces; \<open>cv_good\<close> adds the end of a container.
  Every routine of the parser keeps it and never reaches \<open>None\<close>, that is, neither fails an
  assertion nor reads outside the input. The loop over the items of a container is proved once, in the
  locale \<open>item_step\<close>, for any way to advance over one item.
\<close>

definition number_types :: "byte set" where
  "number_types = {CborIntegerType, CborByteStringType, CborTextStringType, CborArrayType, CborMapType,
     CborTagType}"

definition cv_head :: "CborValue \<Rightarrow> bool" where
  "cv_head it \<longleftrightarrow> cv_ptr it < cv_end it \<and> cv_type it \<noteq> CborInvalidType \<and>
     (let d = cv_buf it ! cv_ptr it; a = d AND SmallValueMask in
       (\<not> is_fixed_type (cv_type it) \<longrightarrow> cv_type it = d AND MajorTypeMask
          \<and> cv_flags it AND Flag_IteratingStringChunks = 0) \<and>
       (if cv_flags it AND Flag_UnknownLength = 0
        then a \<le> Value64Bit \<and> cv_ptr it + extra_bytes a < cv_end it
        else \<not> is_fixed_type (cv_type it)) \<and>
       (cv_flags it AND Flag_IntegerValueTooLarge \<noteq> 0 \<longrightarrow>
          (a = Value32Bit \<or> a = Value64Bit) \<and> cv_flags it AND Flag_UnknownLength = 0) \<and>
       (cv_type it \<in> number_types \<and> cv_flags it AND Flag_UnknownLength = 0 \<longrightarrow>
          (\<exists>p v. extract_number (cv_buf it) (cv_ptr it) = Some (CborNoError, p, v)
             \<and> extract_int64_helper it = Some v)))"

definition cv_good :: "CborValue \<Rightarrow> bool" where
  "cv_good it \<longleftrightarrow> cv_ptr it \<le> cv_end it \<and> (if cv_remaining it = 0 then cv_type it = CborInvalidType else cv_head it)"

text \<open>A routine of the parser behaves: it returns, leaves the input alone, and when it reports no error
  its new iterator satisfies \<open>Q\<close>.\<close>

definition parses :: "(CborError \<times> CborValue) option \<Rightarrow> CborValue \<Rightarrow> (CborValue \<Rightarrow> bool) \<Rightarrow> bool" where
  "parses r it Q \<longleftrightarrow> (\<exists>err it'. r = Some (err, it') \<and> cv_buf it' = cv_buf it
     \<and> (err = CborNoError \<longrightarrow> Q it'))"

lemma extra_bytes_consts [simp]:
  "extra_bytes 24 = 1" "extra_bytes 25 = 2" "extra_bytes 26 = 4" "extra_bytes 27 = 8"
  by (simp_all add: extra_bytes_def cbor_consts)

lemmas value_bits = Value8Bit_def Value16Bit_def Value32Bit_def Value64Bit_def

lemma additional_cases:
  assumes "a \<le> Value64Bit"
  obtains "a < Value8Bit" | "a = 24" | "a = 25" | "a = 26" | "a = (27 :: byte)"
proof -
  have "a < 24 \<or> a = 24 \<or> a = 25 \<or> a = 26 \<or> a = 27"
    using assms by (auto simp: cbor_consts word_less_nat_alt word_le_nat_alt word_unat_eq_iff)
  then show ?thesis using that by (auto simp: cbor_consts)
qed

lemma ucast_byte_u16_u64: "ucast (ucast (b :: byte) :: u16) = (ucast b :: u64)"
  by (simp add: word_unat_eq_iff unat_ucast_up)

lemma preparse_number_head:
  assumes "cv_ptr it + extra_bytes a < cv_end it" "a = cv_buf it ! cv_ptr it AND SmallValueMask"
    "a \<le> Value64Bit" "cv_type it \<noteq> CborInvalidType" "cv_flags it = 0 \<or> cv_flags it = Flag_NegativeInteger"
    "\<not> is_fixed_type (cv_type it) \<Longrightarrow> cv_flags it = 0 \<and> cv_type it = cv_buf it ! cv_ptr it AND MajorTypeMask"
    "cv_extra it = ucast a"
  shows "parses (preparse_number a it) it (\<lambda>it'. cv_head it' \<and> cv_ptr it' = cv_ptr it \<and> cv_remaining it' = cv_remaining it)"
proof -
  have odd: "cv_buf it ! cv_ptr it AND 1 = a AND 1"
    by (simp add: assms(2) SmallValueMask_def and.assoc)
  from assms(3) show ?thesis
proof (cases rule: additional_cases)
  case 1
  then show ?thesis
    using assms(1,3-) ucast_byte_u16_u64
    by (auto simp: parses_def preparse_number_def cv_head_def cbor_flags value_bits assms(2) [symmetric] Let_def
        extract_number_def get_byte_def extract_int64_helper_def)
qed (use assms(1,3-) ucast_byte_u16_u64 odd in \<open>auto simp: parses_def preparse_number_def cv_head_def cbor_flags value_bits assms(2) [symmetric]
    Let_def get_byte_def get16_def get32_def get64_def extract_number_def extract_int64_helper_def
    decode_int64_internal_def cbor_assert_def\<close>)
qed

lemma preparse_simple_head:
  assumes "cv_ptr it + extra_bytes a < cv_end it" "a = cv_buf it ! cv_ptr it AND SmallValueMask"
    "a \<le> Value64Bit" "cv_type it = CborSimpleType" "cv_flags it = 0"
    "cv_buf it ! cv_ptr it AND MajorTypeMask = SimpleTypesMajor"
  shows "parses (preparse_simple a it) it (\<lambda>it'. cv_head it' \<and> cv_ptr it' = cv_ptr it \<and> cv_remaining it' = cv_remaining it)"
proof -
  have d: "cv_buf it ! cv_ptr it \<noteq> CborInvalidType" "is_fixed_type (cv_buf it ! cv_ptr it)"
    "cv_buf it ! cv_ptr it \<notin> number_types"
    using assms(2,3,6) by (auto simp: cbor_types cbor_consts is_fixed_type_def number_types_def)
  have f: "is_fixed_type CborSimpleType" "is_fixed_type CborBooleanType" "CborSimpleType \<noteq> CborInvalidType"
    "CborBooleanType \<noteq> CborInvalidType" "CborSimpleType \<notin> number_types" "CborBooleanType \<notin> number_types"
    by (simp_all add: is_fixed_type_def cbor_types number_types_def)
  from assms(3) show ?thesis
  proof (cases rule: additional_cases)
    case 1
    then show ?thesis
      using assms(1,3-) d f
      by (auto simp: parses_def preparse_simple_def cv_head_def cbor_flags value_bits assms(2) [symmetric]
          Let_def get_byte_def)
  qed (use assms(1,3-) d f in \<open>auto simp: parses_def preparse_simple_def cv_head_def cbor_flags value_bits
      assms(2) [symmetric] Let_def get_byte_def\<close>)
qed

lemma preparse_value_head:
  assumes "cv_ptr it \<le> cv_end it"
  shows "parses (preparse_value it) it (\<lambda>it'. cv_head it' \<and> cv_ptr it' = cv_ptr it \<and> cv_remaining it' = cv_remaining it)"
proof (cases "cv_ptr it = cv_end it")
  case True
  then show ?thesis by (simp add: parses_def preparse_value_def Let_def)
next
  case False
  define d where "d = cv_buf it ! cv_ptr it"
  define a where "a = d AND SmallValueMask"
  define t where "t = d AND MajorTypeMask"
  have p: "cv_ptr it < cv_end it" using False assms by simp
  have gb: "get_byte (cv_buf it) (cv_ptr it) = Some d" using p by (simp add: get_byte_def d_def)
  have t1: "t \<noteq> CborInvalidType"
  proof
    assume "t = CborInvalidType"
    then have "bit (d AND MajorTypeMask) 0" by (simp add: t_def cbor_types bit_simps)
    then show False by (simp add: cbor_consts bit_simps)
  qed
  note defs = preparse_value_def Let_def gb d_def [symmetric] a_def [symmetric] t_def [symmetric]
  show ?thesis
  proof (cases "a > Value64Bit")
    case True
    then show ?thesis
      using p t1 False
      by (auto simp: parses_def defs cv_head_def cbor_flags)
  next
    case a: False
    let ?n = "extra_bytes a"
    show ?thesis
    proof (cases "?n + 1 > cv_end it - cv_ptr it")
      case True
      then show ?thesis using False a by (auto simp: parses_def defs)
    next
      case n: False
      have n': "cv_ptr it + extra_bytes a < cv_end it" using n p by simp
      have nfi: "is_fixed_type CborIntegerType" "CborIntegerType \<noteq> CborInvalidType"
        by (simp_all add: is_fixed_type_def cbor_types)
      have st: "SimpleTypesMajor = CborSimpleType" by (simp add: cbor_consts cbor_types)
      let ?it = "it\<lparr>cv_type := t, cv_flags := 0, cv_extra := ucast a\<rparr>"
      let ?neg = "it\<lparr>cv_extra := ucast a, cv_flags := Flag_NegativeInteger, cv_type := CborIntegerType\<rparr>"
      have eq: "preparse_value it = (if t = NegativeIntegerMajor then preparse_number a ?neg
          else if t = SimpleTypesMajor then preparse_simple a ?it else preparse_number a ?it)"
        using False a n by (simp add: defs)
      show ?thesis
        using preparse_number_head [of ?neg a] preparse_number_head [of ?it a]
          preparse_simple_head [of ?it a] n' a t1 nfi st
        by (auto simp: eq parses_def d_def [symmetric] a_def [symmetric] t_def [symmetric] not_less)
    qed
  qed
qed

section \<open>Stepping\<close>

text \<open>What holds of the iterator after a step that reported no error: it is well formed and lies at or
  behind the position \<open>p\<close>.\<close>

definition cv_past :: "nat \<Rightarrow> CborValue \<Rightarrow> bool" where
  "cv_past p it \<longleftrightarrow> cv_good it \<and> p \<le> cv_ptr it"

text \<open>The same, with the count of remaining items: a step over an item that is not a tag takes one off
  a known count.\<close>

definition cv_step :: "CborValue \<Rightarrow> nat \<Rightarrow> CborValue \<Rightarrow> bool" where
  "cv_step it p it' \<longleftrightarrow> cv_good it' \<and> p \<le> cv_ptr it' \<and> (cv_remaining it \<noteq> UINT32_MAX \<longrightarrow>
     cv_remaining it' = (if cv_type it = CborTagType then cv_remaining it else cv_remaining it - 1))"

lemma cv_step_past: "cv_step it p it' \<Longrightarrow> cv_past p it'"
  by (simp add: cv_step_def cv_past_def)

lemma parsesI: "r = Some (err, it') \<Longrightarrow> cv_buf it' = cv_buf it \<Longrightarrow> (err = CborNoError \<Longrightarrow> Q it') \<Longrightarrow> parses r it Q"
  by (simp add: parses_def)

lemma parses_mono: "parses r it P \<Longrightarrow> (\<And>it'. P it' \<Longrightarrow> Q it') \<Longrightarrow> parses r it Q"
  by (auto simp: parses_def)

lemma parses_buf: "parses r it Q \<Longrightarrow> cv_buf it = cv_buf it2 \<Longrightarrow> parses r it2 Q"
  by (simp add: parses_def)

lemma cv_head_ptr: "cv_head it \<Longrightarrow> cv_ptr it < cv_end it"
  by (simp add: cv_head_def)

lemma cv_step_ptr [simp]: "cv_step (it\<lparr>cv_ptr := x\<rparr>) p = cv_step it p"
  by (simp add: cv_step_def fun_eq_iff)

lemma parses_ptr [simp]: "parses r (it\<lparr>cv_ptr := x\<rparr>) Q = parses r it Q"
  by (simp add: parses_def)

lemma preparse_next_nodecrement_good:
  assumes "cv_ptr it \<le> cv_end it" "cv_remaining it \<noteq> 0" "p \<le> cv_ptr it"
  shows "parses (preparse_next_value_nodecrement it) it
    (\<lambda>it'. cv_past p it' \<and> (cv_remaining it \<noteq> UINT32_MAX \<longrightarrow> cv_remaining it' = cv_remaining it))"
proof (cases "cv_remaining it = UINT32_MAX \<and> cv_ptr it \<noteq> cv_end it \<and> cv_buf it ! cv_ptr it = BreakByte")
  case True
  then show ?thesis
    using assms
    by (auto simp: preparse_next_value_nodecrement_def get_byte_def parses_def cv_past_def cv_good_def)
next
  case False
  then have eq: "preparse_next_value_nodecrement it = preparse_value it"
    using assms(1) by (auto simp: preparse_next_value_nodecrement_def get_byte_def)
  show ?thesis
    unfolding eq by (rule parses_mono [OF preparse_value_head [OF assms(1)]])
      (use assms in \<open>auto simp: cv_past_def cv_good_def dest: cv_head_ptr\<close>)
qed

lemma preparse_next_good:
  assumes "cv_ptr it \<le> cv_end it" "cv_remaining it \<noteq> 0" "p \<le> cv_ptr it"
  shows "parses (preparse_next_value it) it (cv_step it p)"
proof (cases "cv_remaining it \<noteq> UINT32_MAX \<and> cv_type it \<noteq> CborTagType")
  case True
  have nm: "cv_remaining it - 1 \<noteq> UINT32_MAX" using assms(2) by (auto simp: UINT32_MAX_def)
  show ?thesis
    using True nm preparse_next_nodecrement_good [of "it\<lparr>cv_remaining := cv_remaining it - 1\<rparr>" p] assms
    by (cases "cv_remaining it - 1 = 0")
      (auto simp: preparse_next_value_def Let_def parses_def cv_past_def cv_step_def cv_good_def)
next
  case False
  then show ?thesis
    using preparse_next_nodecrement_good [OF assms]
    by (auto simp: preparse_next_value_def parses_def cv_step_def cv_past_def)
qed

lemma extract_number_head:
  assumes "cv_head it" "cv_flags it AND Flag_UnknownLength = 0"
  obtains p v where "extract_number (cv_buf it) (cv_ptr it) = Some (CborNoError, p, v)"
    "cv_ptr it < p" "p \<le> cv_end it"
proof -
  let ?a = "cv_buf it ! cv_ptr it AND SmallValueMask"
  have h: "cv_ptr it < cv_end it" "?a \<le> Value64Bit" "cv_ptr it + extra_bytes ?a < cv_end it"
    using assms by (auto simp: cv_head_def Let_def)
  have "\<exists>p v. extract_number (cv_buf it) (cv_ptr it) = Some (CborNoError, p, v)"
    using h(2)
  proof (cases rule: additional_cases)
    case 1
    then show ?thesis using h(1) by (simp add: extract_number_def get_byte_def)
  qed (use h in \<open>simp_all add: extract_number_def get_byte_def get16_def get32_def get64_def value_bits\<close>)
  then show ?thesis using that extract_number_progress by blast
qed

lemma advance_internal_good:
  assumes "cv_head it" "cv_remaining it \<noteq> 0" "is_fixed_type (cv_type it)"
  shows "parses (advance_internal it) it (cv_step it (Suc (cv_ptr it)))"
proof -
  have "cv_flags it AND Flag_UnknownLength = 0"
    using assms by (auto simp: cv_head_def Let_def split: if_splits)
  then obtain p v where e: "extract_number (cv_buf it) (cv_ptr it) = Some (CborNoError, p, v)"
    "cv_ptr it < p" "p \<le> cv_end it" using extract_number_head [OF assms(1)] by metis
  have "advance_internal it = preparse_next_value (it\<lparr>cv_ptr := p\<rparr>)"
    using assms(3) by (simp add: advance_internal_def e cbor_assert_def is_fixed_type_def Let_def)
  then show ?thesis
    using preparse_next_good [of "it\<lparr>cv_ptr := p\<rparr>" "Suc (cv_ptr it)"] e assms(2)
    by (auto simp: parses_def cv_step_def)
qed

section \<open>Strings\<close>

lemma iterating_nonzero [simp]: "Flag_IteratingStringChunks \<noteq> 0"
  by (simp add: Flag_IteratingStringChunks_def)

lemma extract_number_some:
  assumes "p < length buf"
  shows "\<exists>err p' v. extract_number buf p = Some (err, p', v)"
proof -
  let ?a = "buf ! p AND SmallValueMask"
  show ?thesis
  proof (cases "?a \<le> Value64Bit")
    case True
    then show ?thesis
    proof (cases rule: additional_cases)
      case 1
      then show ?thesis using assms by (simp add: extract_number_def get_byte_def)
    qed (use assms in \<open>auto simp: extract_number_def get_byte_def get16_def get32_def get64_def value_bits\<close>)
  next
    case False
    then have "\<not> ?a < Value8Bit" by (auto simp: value_bits word_less_nat_alt word_le_nat_alt)
    then show ?thesis using assms False by (simp add: extract_number_def get_byte_def Let_def not_le)
  qed
qed

definition in_string :: "CborValue \<Rightarrow> bool" where
  "in_string it \<longleftrightarrow> cv_ptr it \<le> cv_end it \<and> cv_remaining it \<noteq> 0
     \<and> (cv_flags it AND Flag_IteratingStringChunks = 0 \<longrightarrow> cv_ptr it < cv_end it)"

text \<open>A step inside a string.\<close>

lemma last_chunk_good:
  assumes "cv_ptr it \<le> cv_end it" "cv_remaining it \<noteq> 0" "p \<le> cv_ptr it"
  shows "\<exists>err it'. last_chunk it = Some (err, None, it') \<and> cv_buf it' = cv_buf it \<and>
    (err = CborNoError \<longrightarrow> cv_step it p it')"
  using preparse_next_good [OF assms] by (auto simp: last_chunk_def parses_def)

definition chunk_post :: "CborValue \<Rightarrow> nat \<Rightarrow> bytes option \<Rightarrow> CborValue \<Rightarrow> bool" where
  "chunk_post it p c it' = (case c of None \<Rightarrow> cv_step it p it'
     | Some d \<Rightarrow> in_string it' \<and> p \<le> cv_ptr it' \<and> cv_type it' = cv_type it \<and> cv_remaining it' = cv_remaining it)"

definition chunk_ok :: "CborValue \<Rightarrow> nat \<Rightarrow> (CborError \<times> bytes option \<times> CborValue) option \<Rightarrow> bool" where
  "chunk_ok it p r \<longleftrightarrow> (\<exists>err c it'. r = Some (err, c, it') \<and> cv_buf it' = cv_buf it \<and>
    (err = CborNoError \<longrightarrow> chunk_post it p c it'))"

lemma chunk_post_weaken:
  "chunk_post it q c it' \<Longrightarrow> cv_type it = cv_type it2 \<Longrightarrow> cv_remaining it = cv_remaining it2 \<Longrightarrow> p \<le> q
    \<Longrightarrow> chunk_post it2 p c it'"
  by (cases c) (auto simp: chunk_post_def cv_step_def)

lemma chunk_ok_weaken:
  "chunk_ok it q r \<Longrightarrow> cv_buf it = cv_buf it2 \<Longrightarrow> cv_type it = cv_type it2 \<Longrightarrow> cv_remaining it = cv_remaining it2
    \<Longrightarrow> p \<le> q \<Longrightarrow> chunk_ok it2 p r"
  unfolding chunk_ok_def using chunk_post_weaken by metis

lemma next_chunk_in_string:
  assumes "cv_ptr it \<le> cv_end it" "cv_remaining it \<noteq> 0"
  shows "chunk_ok it (Suc (cv_ptr it)) (next_chunk it)"
proof (cases "cv_ptr it = cv_end it")
  case True
  then show ?thesis by (simp add: next_chunk_def chunk_ok_def)
next
  case False
  then have p: "cv_ptr it < cv_end it" using assms by simp
  obtain er ptr v where en: "extract_number (cv_buf it) (cv_ptr it) = Some (er, ptr, v)"
    using extract_number_some [OF p] by blast
  show ?thesis
    using last_chunk_good [of "it\<lparr>cv_ptr := cv_ptr it + 1\<rparr>" "Suc (cv_ptr it)"] p assms False
      extract_number_progress [OF en]
    by (auto simp: cv_step_def next_chunk_def chunk_ok_def chunk_post_def get_byte_def extract_length_def en Let_def in_string_def)
qed

lemma get_string_chunk_in_string:
  assumes "in_string it"
  shows "chunk_ok it (if cv_flags it AND Flag_IteratingStringChunks = 0 then Suc (cv_ptr it) else cv_ptr it)
    (get_string_chunk it)"
proof -
  have i: "cv_ptr it \<le> cv_end it" "cv_remaining it \<noteq> 0" using assms by (auto simp: in_string_def)
  let ?p = "prepare_string_iteration it"
  have p: "cv_ptr ?p \<le> cv_end ?p" "cv_remaining ?p \<noteq> 0" "cv_ptr it \<le> cv_ptr ?p" "cv_buf ?p = cv_buf it"
    "cv_type ?p = cv_type it" "cv_remaining ?p = cv_remaining it"
    if "cv_flags it AND Flag_IteratingStringChunks = 0"
    using assms that by (auto simp: in_string_def prepare_string_iteration_def)
  show ?thesis
  proof (cases "cv_flags it AND Flag_IteratingStringChunks = 0")
    case True
    then have "chunk_ok ?p (Suc (cv_ptr ?p)) (get_string_chunk it)"
      using next_chunk_in_string [OF p(1,2)] by (simp add: get_string_chunk_def)
    then show ?thesis using True p by (simp add: chunk_ok_weaken)
  next
    case False
    then show ?thesis
      using chunk_ok_weaken [OF next_chunk_in_string [OF i], of it "cv_ptr it"] last_chunk_good [OF i, of "cv_ptr it"]
      by (auto simp: get_string_chunk_def chunk_ok_def chunk_post_def)
  qed
qed

text \<open>The loop over the chunks: it returns for every input, and keeps the length of a buffer that the
  copying function writes inside the announced length.\<close>

lemma chunk_loop_good:
  assumes "in_string it" "\<And>b off src. length b = n \<Longrightarrow> off + length src \<le> buflen \<Longrightarrow> length (snd (func b off src)) = n"
    and "length buffer = n"
  shows "\<exists>err buf tot' res it'. chunk_loop func buflen it buffer tot result = Some (err, buf, tot', res, it')
    \<and> length buf = n \<and> cv_buf it' = cv_buf it \<and> (err = CborNoError \<longrightarrow>
      cv_step it (if cv_flags it AND Flag_IteratingStringChunks = 0 then Suc (cv_ptr it) else cv_ptr it) it')"
  using assms
proof (induction func buflen it buffer tot result rule: chunk_loop.induct)
  case (1 func buflen it buffer tot result)
  let ?p = "if cv_flags it AND Flag_IteratingStringChunks = 0 then Suc (cv_ptr it) else cv_ptr it"
  obtain err c it1 where g: "get_string_chunk it = Some (err, c, it1)" "cv_buf it1 = cv_buf it"
    "err = CborNoError \<Longrightarrow> chunk_post it ?p c it1"
    using get_string_chunk_in_string [OF "1.prems"(1)] unfolding chunk_ok_def by metis
  show ?case
  proof (cases "err = CborNoError")
    case False
    then show ?thesis using g "1.prems"(3) by (subst chunk_loop.simps) simp
  next
    case noerr: True
    show ?thesis
    proof (cases c)
      case None
      then show ?thesis
        using g noerr "1.prems"(3) "1.prems"(2) [of buffer tot "[0]"]
        by (subst chunk_loop.simps) (auto simp: case_prod_unfold Let_def chunk_post_def)
    next
      case (Some d)
      let ?rb = "if result \<and> tot + length d \<le> buflen then func buffer tot d else (False, buffer)"
      have nb: "length (snd ?rb) = n" using "1.prems"(2,3) by simp
      have in1: "in_string it1" "?p \<le> cv_ptr it1" "cv_type it1 = cv_type it" "cv_remaining it1 = cv_remaining it" using g(3) noerr Some by (simp_all add: chunk_post_def)
      show ?thesis
      proof (cases "tot + length d \<ge> 2 ^ 32")
        case True
        then show ?thesis using g(1,2) noerr Some "1.prems"(3) by (subst chunk_loop.simps) simp
      next
        case False
        have ex: "\<exists>err buf tot' res it'. chunk_loop func buflen it1 (snd ?rb) (tot + length d) (fst ?rb) = Some (err, buf, tot', res, it')
          \<and> length buf = n \<and> cv_buf it' = cv_buf it1 \<and> (err = CborNoError \<longrightarrow>
            cv_step it1 (if cv_flags it1 AND Flag_IteratingStringChunks = 0 then Suc (cv_ptr it1) else cv_ptr it1) it')"
          using noerr Some False "1.prems"(2) nb in1
          by (intro "1.IH" [OF g(1)]) auto
        obtain err' buf tot' res it' where l: "chunk_loop func buflen it1 (snd ?rb) (tot + length d) (fst ?rb)
            = Some (err', buf, tot', res, it')" "length buf = n" "cv_buf it' = cv_buf it1"
          "err' = CborNoError \<Longrightarrow>
            cv_step it1 (if cv_flags it1 AND Flag_IteratingStringChunks = 0 then Suc (cv_ptr it1) else cv_ptr it1) it'"
          using ex by metis
        have e: "chunk_loop func buflen it buffer tot result
            = chunk_loop func buflen it1 (snd ?rb) (tot + length d) (fst ?rb)"
          using g(1) noerr Some False by (subst chunk_loop.simps) (simp add: case_prod_unfold Let_def)
        have "cv_step it ?p it'" if "err' = CborNoError"
          using l(4) [OF that] in1(2-) by (auto simp: cv_step_def split: if_splits)
        then show ?thesis unfolding e l(1) using l(2,3) g(2) by simp
      qed
    qed
  qed
qed

lemma cv_head_string:
  assumes "cv_head it" "cv_remaining it \<noteq> 0" "cv_type it = CborByteStringType \<or> cv_type it = CborTextStringType"
  shows "in_string it" "cv_flags it AND Flag_IteratingStringChunks = 0"
  using assms by (auto simp: cv_head_def in_string_def is_fixed_type_def Let_def)

lemma copy_string_good:
  assumes "cv_head it" "cv_remaining it \<noteq> 0" "cv_type it = CborByteStringType \<or> cv_type it = CborTextStringType"
    and "\<And>b. buffer = Some b \<Longrightarrow> buflen \<le> length b"
  shows "\<exists>err buf len it'. copy_string it buffer buflen = Some (err, buf, len, it') \<and> cv_buf it' = cv_buf it
    \<and> (\<forall>b. buffer = Some b \<longrightarrow> length buf = length b)
    \<and> (err = CborNoError \<longrightarrow> cv_step it (Suc (cv_ptr it)) it')"
proof (cases buffer)
  case None
  then show ?thesis
    using chunk_loop_good [OF cv_head_string(1) [OF assms(1-3)], of 0 buflen iterate_noop "[]" 0 True]
      cv_head_string(2) [OF assms(1-3)] assms(3)
    by (auto simp: copy_string_def iterate_string_chunks_def cbor_assert_def iterate_noop_def)
next
  case (Some b)
  have "\<And>c off src. length c = length b \<Longrightarrow> off + length src \<le> buflen \<Longrightarrow>
      length (snd (iterate_memcpy c off src)) = length b"
    using assms(4) [OF Some] by (simp add: iterate_memcpy_def length_blit)
  then show ?thesis
    using chunk_loop_good [OF cv_head_string(1) [OF assms(1-3)], of "length b" buflen iterate_memcpy b 0 True] cv_head_string(2) [OF assms(1-3)] assms(3) Some
    by (auto simp: copy_string_def iterate_string_chunks_def cbor_assert_def)
qed

lemma advance_string_good:
  assumes "cv_head it" "cv_remaining it \<noteq> 0" "cv_type it = CborByteStringType \<or> cv_type it = CborTextStringType"
  shows "parses (advance_string it) it (cv_step it (Suc (cv_ptr it)))"
  using copy_string_good [OF assms, of None SIZE_MAX] by (auto simp: advance_string_def parses_def)

section \<open>Containers\<close>

lemma is_container_not_fixed: "cbor_value_is_container it \<Longrightarrow> \<not> is_fixed_type (cv_type it)"
  by (auto simp: cbor_value_is_container_def is_fixed_type_def)

definition cv_entered :: "CborValue \<Rightarrow> CborValue \<Rightarrow> bool" where
  "cv_entered it rec \<longleftrightarrow> cv_past (Suc (cv_ptr it)) rec \<and> (cbor_value_is_length_known it \<longrightarrow>
     cv_remaining rec \<noteq> UINT32_MAX \<and> (\<exists>v. extract_int64_helper it = Some v
       \<and> unat (cv_remaining rec) = (if cv_type it = CborMapType then 2 else 1) * unat v))"

lemma map_count:
  fixes v :: u64 and n :: u32
  assumes "ucast n = v" "v \<noteq> ucast UINT32_MAX" "m \<Longrightarrow> n \<le> 0x7fffffff"
  shows "unat (if m then n * 2 else n) = (if m then 2 else 1) * unat v" "(if m then n * 2 else n) \<noteq> UINT32_MAX"
proof -
  have v: "unat v = unat n" using assms(1) by (auto simp: unat_ucast_up)
  have d: "unat (n * 2) = unat n * 2" if m
    using assms(3) [OF that] by (subst unat_word_ariths(2)) (simp add: word_le_nat_alt)
  show "unat (if m then n * 2 else n) = (if m then 2 else 1) * unat v" using d by (auto simp: v)
  have "unat (n * 2) \<noteq> unat UINT32_MAX" if m using d [OF that] by (simp add: UINT32_MAX_def) presburger
  then show "(if m then n * 2 else n) \<noteq> UINT32_MAX" using assms(1,2) by auto
qed

lemma enter_container_good:
  assumes "cv_head it" "cbor_value_is_container it"
  shows "parses (cbor_value_enter_container it) it (cv_entered it)"
proof (cases "cv_flags it AND Flag_UnknownLength = 0")
  case False
  then show ?thesis
    using assms preparse_next_nodecrement_good [of "it\<lparr>cv_remaining := UINT32_MAX, cv_ptr := cv_ptr it + 1\<rparr>" "Suc (cv_ptr it)"]
      cv_head_ptr [OF assms(1)]
    by (auto simp: cbor_value_enter_container_def cbor_assert_def UINT32_MAX_def parses_def cv_entered_def
        cbor_value_is_length_known_def)
next
  case True
  obtain p v where e: "extract_number (cv_buf it) (cv_ptr it) = Some (CborNoError, p, v)"
    "extract_int64_helper it = Some v"
    using assms True by (auto simp: cv_head_def Let_def number_types_def cbor_value_is_container_def)
  have p: "cv_ptr it < p" "p \<le> cv_end it" using extract_number_progress [OF e(1)] by auto
  let ?n = "ucast v :: u32"
  let ?m = "cv_type it = CborMapType"
  let ?rec = "it\<lparr>cv_ptr := p, cv_remaining := if ?m then ?n * 2 else ?n\<rparr>"
  have eq: "cbor_value_enter_container it =
     (if ucast ?n \<noteq> v \<or> v = ucast UINT32_MAX \<or> ?m \<and> ?n > 0x7fffffff
      then Some (CborErrorDataTooLarge, it\<lparr>cv_remaining := ?n\<rparr>)
      else if v = 0 then Some (CborNoError, ?rec\<lparr>cv_type := CborInvalidType\<rparr>)
      else preparse_next_value_nodecrement ?rec)"
    using assms(2) True by (simp add: cbor_value_enter_container_def e cbor_assert_def Let_def)
  show ?thesis
  proof (cases "ucast ?n \<noteq> v \<or> v = ucast UINT32_MAX \<or> ?m \<and> ?n > 0x7fffffff")
    case True
    then show ?thesis by (auto simp: eq parses_def)
  next
    case False
    have c: "unat (cv_remaining ?rec) = (if ?m then 2 else 1) * unat v" "cv_remaining ?rec \<noteq> UINT32_MAX"
      using map_count [of ?n v ?m] False by (auto simp: not_less)
    show ?thesis
    proof (cases "v = 0")
      case True
      then show ?thesis
        using False p e(2) c by (auto simp: eq parses_def cv_entered_def cv_past_def cv_good_def)
    next
      case v: False
      then have nz: "cv_remaining ?rec \<noteq> 0" using c(1) by (auto simp: unat_eq_zero)
      have "parses (preparse_next_value_nodecrement ?rec) ?rec (\<lambda>rec. cv_past (Suc (cv_ptr it)) rec
          \<and> (cv_remaining ?rec \<noteq> UINT32_MAX \<longrightarrow> cv_remaining rec = cv_remaining ?rec))"
        using nz p by (intro preparse_next_nodecrement_good) auto
      then have "parses (preparse_next_value_nodecrement ?rec) it (cv_entered it)"
        using c e(2) unfolding parses_def cv_entered_def by fastforce
      then show ?thesis using False v by (auto simp: eq)
    qed
  qed
qed

lemma leave_container_good:
  assumes "cbor_value_is_container it" "cv_remaining it \<noteq> 0" "cv_past p rec" "cv_remaining rec = 0"
    "cv_buf rec = cv_buf it"
  shows "parses (cbor_value_leave_container it rec) it (cv_step it p)"
proof -
  have "cv_type rec = CborInvalidType" "cv_ptr rec \<le> cv_end it" "p \<le> cv_ptr rec"
    using assms(3-5) by (auto simp: cv_past_def cv_good_def)
  then show ?thesis
    using assms(1,2) preparse_next_good [of "it\<lparr>cv_ptr := cv_ptr rec\<rparr>" p]
    by (simp add: cbor_value_leave_container_def cbor_assert_def)
qed

text \<open>The contract of a way to advance over one item, and what the loop over a container's items does
  under it: it ends, because every item takes up input.\<close>

locale item_step =
  fixes step :: "CborValue \<Rightarrow> (CborError \<times> CborValue) option"
  assumes step_good: "cv_good it \<Longrightarrow> cv_remaining it \<noteq> 0 \<Longrightarrow> parses (step it) it (cv_step it (Suc (cv_ptr it)))"
begin

lemma items_good:
  assumes "cv_good it"
  shows "parses (advance_items step it) it (\<lambda>it'. cv_past (cv_ptr it) it' \<and> cv_remaining it' = 0)"
  using assms
proof (induction "cv_end it - cv_ptr it" arbitrary: it rule: less_induct)
  case less
  show ?case
  proof (cases "cv_remaining it = 0")
    case True
    then show ?thesis
      using less.prems by (subst advance_items.simps) (simp add: parses_def cbor_value_at_end_def cv_past_def)
  next
    case False
    obtain err it1 where s: "step it = Some (err, it1)" "cv_buf it1 = cv_buf it"
      "err = CborNoError \<Longrightarrow> cv_step it (Suc (cv_ptr it)) it1"
      using step_good [OF less.prems False] by (auto simp: parses_def)
    have eq: "advance_items step it = (if err \<noteq> CborNoError then Some (err, it1) else advance_items step it1)"
      using False by (subst advance_items.simps) (simp add: s(1) cbor_value_at_end_def)
    show ?thesis
    proof (cases "err = CborNoError")
      case True
      then have p: "cv_good it1" "cv_ptr it < cv_ptr it1" using s(3) by (auto simp: cv_step_def)
      then have "parses (advance_items step it1) it1 (\<lambda>it'. cv_past (cv_ptr it1) it' \<and> cv_remaining it' = 0)"
        using less.hyps [of it1] s(2) by (auto simp: cv_good_def)
      then show ?thesis
        using True s(2) p(2) by (auto simp: eq parses_def cv_past_def)
    qed (simp add: eq parses_def s(2))
  qed
qed

end

lemma advance_leaf_good:
  assumes "cv_head it" "cv_remaining it \<noteq> 0" "\<not> cbor_value_is_container it"
  shows "parses (if is_fixed_type (cv_type it) then advance_internal it else advance_string it) it
    (cv_step it (Suc (cv_ptr it)))"
  using advance_internal_good [OF assms(1,2)] advance_string_good [OF assms(1,2)] assms(3)
  by (simp add: is_fixed_type_def cbor_value_is_container_def)

lemma advance_recursive_step: "item_step (advance_recursive n)"
proof (induction n)
  case 0
  show ?case
  proof
    fix it assume "cv_good it" "cv_remaining it \<noteq> 0"
    then show "parses (advance_recursive 0 it) it (cv_step it (Suc (cv_ptr it)))"
      using advance_leaf_good [of it] is_container_not_fixed [of it]
      by (cases "cbor_value_is_container it") (auto simp: cv_good_def parses_def)
  qed
next
  case (Suc n)
  show ?case
  proof
    fix it assume g: "cv_good it" "cv_remaining it \<noteq> 0"
    then have h: "cv_head it" by (simp add: cv_good_def)
    show "parses (advance_recursive (Suc n) it) it (cv_step it (Suc (cv_ptr it)))"
    proof (cases "cbor_value_is_container it")
      case False
      then show ?thesis using advance_leaf_good [OF h g(2)] by (simp split: if_splits)
    next
      case True
      obtain err rec where e: "cbor_value_enter_container it = Some (err, rec)" "cv_buf rec = cv_buf it"
        "err = CborNoError \<Longrightarrow> cv_past (Suc (cv_ptr it)) rec"
        using enter_container_good [OF h True] by (auto simp: parses_def cv_entered_def)
      show ?thesis
      proof (cases "err = CborNoError")
        case noerr: True
        obtain err2 rec2 where l: "advance_items (advance_recursive n) rec = Some (err2, rec2)"
          "cv_buf rec2 = cv_buf rec"
          "err2 = CborNoError \<Longrightarrow> cv_past (cv_ptr rec) rec2 \<and> cv_remaining rec2 = 0"
          using item_step.items_good [OF Suc.IH, of rec] e(3) [OF noerr] by (auto simp: parses_def cv_past_def)
        then show ?thesis
          using True is_container_not_fixed [OF True] e noerr
            leave_container_good [OF True g(2), of "Suc (cv_ptr it)" rec2]
          by (auto simp: parses_def cv_past_def)
      qed (use True is_container_not_fixed [OF True] e in \<open>simp add: parses_def\<close>)
    qed
  qed
qed

text \<open>The items of a container are advanced over with one nesting level less; at the top the bound of
  1024 levels applies.\<close>

interpretation adv: item_step "advance_recursive n" for n
  by (rule advance_recursive_step)

lemma advance_good:
  assumes "cv_good it" "cv_remaining it \<noteq> 0"
  shows "parses (cbor_value_advance it) it (cv_step it (Suc (cv_ptr it)))"
  using adv.step_good [OF assms, of CBOR_PARSER_MAX_RECURSIONS] assms
  by (simp add: cbor_value_advance_def cbor_assert_def cv_good_def cv_head_def)

lemma parser_init_good:
  "parses (cbor_parser_init buf) \<lparr>cv_buf = buf, cv_ptr = 0, cv_remaining = 1, cv_extra = 0, cv_type = 0, cv_flags = 0\<rparr>
     (\<lambda>it. cv_good it \<and> cv_head it \<and> cv_remaining it = 1)"
  unfolding cbor_parser_init_def
  by (rule parses_mono [OF preparse_value_head]) (auto simp: cv_good_def dest: cv_head_ptr)

section \<open>Accessors\<close>

lemma decode_int64_some:
  assumes "cv_head it"
  shows "\<exists>v. extract_int64_helper it = Some v"
proof (cases "cv_flags it AND Flag_IntegerValueTooLarge = 0")
  case False
  let ?a = "cv_buf it ! cv_ptr it AND SmallValueMask"
  have h: "cv_ptr it < cv_end it" "?a = 26 \<or> ?a = 27" "cv_ptr it + extra_bytes ?a < cv_end it"
    using assms False by (auto simp: cv_head_def Let_def value_bits)
  have "cv_buf it ! cv_ptr it AND 1 = ?a AND 1"
    by (simp add: SmallValueMask_def and.assoc)
  then show ?thesis
    using h False
    by (auto simp: extract_int64_helper_def decode_int64_internal_def get_byte_def cbor_assert_def value_bits
        get32_def get64_def)
qed (simp add: extract_int64_helper_def)


text \<open>At an item of a number-carrying type.\<close>

lemma get_int_checked_some:
  "cv_head it \<Longrightarrow> cv_type it = CborIntegerType \<Longrightarrow> \<exists>err v. cbor_value_get_int_checked it = Some (err, v)"
  using decode_int64_some [of it] by (auto simp: cbor_value_get_int_checked_def cbor_assert_def)

lemma get_int_checked_range:
  assumes "cbor_value_get_int_checked it = Some (CborNoError, v)"
  shows "- 2147483648 \<le> v" "v < 2147483648"
proof -
  obtain y :: u64 where y: "uint y \<le> 2147483647" "v = uint y \<or> v = - uint y - 1"
    using assms by (auto simp: cbor_value_get_int_checked_def cbor_assert_def Option.bind_eq_Some_conv not_less
        word_le_def split: if_splits)
  have "0 \<le> uint y" by simp
  with y show "- 2147483648 \<le> v" "v < 2147483648" by linarith+
qed

lemma known_length_some: "cv_head it \<Longrightarrow> \<exists>err n. known_length it = Some (err, n)"
  using decode_int64_some [of it] by (auto simp: known_length_def Let_def)

text \<open>The maps whose length is known: entering one and its length together.\<close>

lemma enter_map_good:
  assumes "cv_head it" "cv_type it = CborMapType"
    "cbor_value_enter_container it = Some (CborNoError, rec)" "cbor_value_get_map_length it = Some (CborNoError, n)"
  shows "cv_good rec" "unat (cv_remaining rec) = 2 * n" "cv_remaining rec \<noteq> UINT32_MAX" "cv_buf rec = cv_buf it"
proof -
  have c: "cbor_value_is_container it" using assms(2) by (simp add: cbor_value_is_container_def)
  have k: "cbor_value_is_length_known it"
    using assms(2,4) by (auto simp: cbor_value_get_map_length_def cbor_assert_def known_length_def split: if_splits)
  obtain v where v: "extract_int64_helper it = Some v" "unat (cv_remaining rec) = 2 * unat v"
    and r: "cv_past (Suc (cv_ptr it)) rec" "cv_remaining rec \<noteq> UINT32_MAX" "cv_buf rec = cv_buf it"
    using enter_container_good [OF assms(1) c] assms(2,3) k by (auto simp: parses_def cv_entered_def)
  have "n = unat v"
    using assms(2,4) k v(1)
    by (auto simp: cbor_value_get_map_length_def cbor_assert_def known_length_def Let_def unat_ucast_up
        split: if_splits dest!: arg_cong [of _ v unat])
  then show "cv_good rec" "unat (cv_remaining rec) = 2 * n" "cv_remaining rec \<noteq> UINT32_MAX" "cv_buf rec = cv_buf it"
    using v r by (simp_all add: cv_past_def)
qed


section \<open>Tags and the search for a key\<close>

lemma skip_tag_good:
  assumes "cv_good it" "cv_remaining it \<noteq> 0" "cv_remaining it \<noteq> UINT32_MAX"
  shows "parses (cbor_value_skip_tag it) it (\<lambda>it'. cv_past (cv_ptr it) it' \<and> cv_remaining it' = cv_remaining it
    \<and> cv_type it' \<noteq> CborTagType)"
  using assms
proof (induction "cv_end it - cv_ptr it" arbitrary: it rule: less_induct)
  case less
  show ?case
  proof (cases "cv_type it = CborTagType")
    case False
    then show ?thesis using less.prems by (subst cbor_value_skip_tag.simps) (simp add: parses_def cv_past_def)
  next
    case True
    have fx: "is_fixed_type CborTagType" "CborTagType \<noteq> CborInvalidType"
      by (simp_all add: is_fixed_type_def cbor_types)
    have h: "cv_head it" using less.prems by (simp add: cv_good_def)
    obtain err it1 where s: "advance_internal it = Some (err, it1)" "cv_buf it1 = cv_buf it"
      "err = CborNoError \<Longrightarrow> cv_step it (Suc (cv_ptr it)) it1"
      using advance_internal_good [OF h less.prems(2)] fx True by (auto simp: parses_def)
    have eq: "cbor_value_skip_tag it = (if err \<noteq> CborNoError then Some (err, it1) else cbor_value_skip_tag it1)"
      using True less.prems(2) fx
      by (subst cbor_value_skip_tag.simps) (simp add: cbor_value_advance_fixed_def cbor_assert_def s(1))
    show ?thesis
    proof (cases "err = CborNoError")
      case ok: True
      then have p: "cv_good it1" "cv_ptr it < cv_ptr it1" "cv_remaining it1 = cv_remaining it"
        using s(3) True less.prems(3) by (auto simp: cv_step_def)
      then have "parses (cbor_value_skip_tag it1) it1 (\<lambda>it'. cv_past (cv_ptr it1) it'
          \<and> cv_remaining it' = cv_remaining it1 \<and> cv_type it' \<noteq> CborTagType)"
        using less.hyps [of it1] less.prems(2,3) s(2) by (auto simp: cv_good_def)
      then show ?thesis using ok s(2) p by (auto simp: eq parses_def cv_past_def)
    qed (simp add: eq parses_def s(2))
  qed
qed

lemma compare_text_good:
  assumes "cv_head it" "cv_remaining it \<noteq> 0" "cv_type it = CborTextStringType"
  shows "\<exists>err b n eq it'. iterate_string_chunks iterate_memcmp it string (length string) = Some (err, b, n, eq, it')
    \<and> cv_buf it' = cv_buf it \<and> (err = CborNoError \<longrightarrow> cv_step it (Suc (cv_ptr it)) it')"
proof -
  have t: "cv_type it = CborByteStringType \<or> cv_type it = CborTextStringType" using assms(3) by simp
  show ?thesis
    using chunk_loop_good [OF cv_head_string(1) [OF assms(1,2) t], of "length string" "length string" iterate_memcmp
        string 0 True] cv_head_string(2) [OF assms(1,2) t] assms(3)
    by (auto simp: iterate_string_chunks_def cbor_assert_def iterate_memcmp_def)
qed

lemma find_key_good:
  assumes "cv_good it" "cv_remaining it \<noteq> 0"
  shows "\<exists>err q it'. find_key string it = Some (err, q, it') \<and> cv_buf it' = cv_buf it
    \<and> (err = CborNoError \<longrightarrow> cv_step it (Suc (cv_ptr it)) it')"
  using advance_good [OF assms] compare_text_good [OF _ assms(2), of string] assms
  by (cases "cv_type it = CborTextStringType") (auto simp: find_key_def parses_def cv_good_def)

lemma find_skip_value_good:
  assumes "cv_good it" "cv_remaining it \<noteq> 0" "cv_remaining it \<noteq> UINT32_MAX"
  shows "parses (find_skip_value it) it (\<lambda>it'. cv_past (cv_ptr it) it' \<and> cv_remaining it' = cv_remaining it - 1)"
proof -
  obtain e1 i1 where 1: "cbor_value_skip_tag it = Some (e1, i1)" "cv_buf i1 = cv_buf it"
    "e1 = CborNoError \<Longrightarrow> cv_past (cv_ptr it) i1 \<and> cv_remaining i1 = cv_remaining it \<and> cv_type i1 \<noteq> CborTagType"
    using skip_tag_good [OF assms] by (auto simp: parses_def)
  show ?thesis
    using advance_good [of i1] 1 assms
    by (cases "e1 = CborNoError") (auto simp: find_skip_value_def parses_def cv_past_def cv_step_def)
qed

lemma even_pred:
  fixes r :: u32
  assumes "r \<noteq> 0" "even (unat r)"
  shows "r - 1 \<noteq> 0 \<and> r - 1 \<noteq> UINT32_MAX \<and> even (unat (r - 1 - 1))"
proof -
  have u: "unat (r - 1) = unat r - 1" using assms(1) by (rule unat_minus_one_word)
  have "unat r \<noteq> 0" using assms(1) by (simp add: unat_eq_zero)
  then have "unat r \<ge> 2" using assms(2) by (cases "unat r = 1") auto
  then have n0: "r - 1 \<noteq> 0" using u by auto
  then have "unat (r - 1 - 1) = unat r - 2" using unat_minus_one_word [OF n0] u by simp
  then show ?thesis using n0 assms by (auto simp: UINT32_MAX_def)
qed

text \<open>Over a map of known length, the search for a key ends without a failed assertion, on every input.\<close>

lemma map_find_good:
  assumes "cv_good it" "cv_remaining it \<noteq> UINT32_MAX" "even (unat (cv_remaining it))"
  shows "parses (map_find_loop string it) it (\<lambda>it'. cv_type it' = CborInvalidType \<or> cv_head it' \<and> cv_remaining it' \<noteq> 0)"
  using assms
proof (induction "cv_end it - cv_ptr it" arbitrary: it rule: less_induct)
  case less
  show ?case
  proof (cases "cv_remaining it = 0")
    case True
    then show ?thesis by (subst map_find_loop.simps) (simp add: cbor_value_at_end_def parses_def)
  next
    case r0: False
    obtain e1 i1 where 1: "cbor_value_skip_tag it = Some (e1, i1)" "cv_buf i1 = cv_buf it"
      "e1 = CborNoError \<Longrightarrow> cv_past (cv_ptr it) i1 \<and> cv_remaining i1 = cv_remaining it \<and> cv_type i1 \<noteq> CborTagType"
      using skip_tag_good [OF less.prems(1) r0 less.prems(2)] by (auto simp: parses_def)
    show ?thesis
    proof (cases "e1 = CborNoError")
      case False
      then show ?thesis using r0 1 by (subst map_find_loop.simps) (simp add: cbor_value_at_end_def parses_def)
    next
      case e1: True
      have g1: "cv_good i1" "cv_remaining i1 \<noteq> 0" using 1(3) [OF e1] r0 by (auto simp: cv_past_def)
      obtain e2 q i2 where 2: "find_key string i1 = Some (e2, q, i2)" "cv_buf i2 = cv_buf i1"
        "e2 = CborNoError \<Longrightarrow> cv_step i1 (Suc (cv_ptr i1)) i2"
        using find_key_good [OF g1, of string] by blast
      show ?thesis
      proof (cases "e2 = CborNoError")
        case False
        then show ?thesis
          using r0 1 e1 2 by (subst map_find_loop.simps) (simp add: cbor_value_at_end_def parses_def)
      next
        case e2: True
        have s2: "cv_good i2" "cv_ptr it < cv_ptr i2" "cv_remaining i2 = cv_remaining it - 1"
          using 1(3) [OF e1] 2(3) [OF e2] less.prems(2) by (auto simp: cv_step_def cv_past_def)
        have odd: "cv_remaining it - 1 \<noteq> 0" "cv_remaining it - 1 \<noteq> UINT32_MAX"
          "even (unat (cv_remaining it - 1 - 1))"
          using even_pred [OF r0 less.prems(3)] by auto
        show ?thesis
        proof (cases q)
          case True
          have "map_find_loop string it = preparse_value i2"
            using r0 1 e1 2 e2 True by (subst map_find_loop.simps) (simp add: cbor_value_at_end_def)
          then show ?thesis
            using preparse_value_head [of i2] s2(1,3) odd(1) 1(2) 2(2) by (auto simp: parses_def cv_good_def)
        next
          case False
          obtain e3 i3 where 3: "find_skip_value i2 = Some (e3, i3)" "cv_buf i3 = cv_buf i2"
            "e3 = CborNoError \<Longrightarrow> cv_past (cv_ptr i2) i3 \<and> cv_remaining i3 = cv_remaining i2 - 1"
            using find_skip_value_good [OF s2(1)] odd(1,2) unfolding s2(3) parses_def by auto
          have "map_find_loop string it
              = (if e3 \<noteq> CborNoError then Some (e3, i3\<lparr>cv_type := CborInvalidType\<rparr>) else map_find_loop string i3)"
            using r0 1 e1 2 e2 3 False by (subst map_find_loop.simps) (simp add: cbor_value_at_end_def)
          moreover have "parses (map_find_loop string i3) i3 (\<lambda>it'. cv_type it' = CborInvalidType \<or> cv_head it' \<and> cv_remaining it' \<noteq> 0)"
            if "e3 = CborNoError"
            using 3(3) [OF that] s2 3(2) 2(2) 1(2) odd
            by (intro less.hyps) (auto simp: cv_past_def cv_good_def UINT32_MAX_def)
          ultimately show ?thesis using 1(2) 2(2) 3(2) by (auto simp: parses_def)
        qed
      qed
    qed
  qed
qed


section \<open>Properties\<close>

text \<open>C15: For every input, starting the parser and advancing over the first item with everything nested in
  it, strings in chunks, containers of unknown length and tags included, returns: no assertion fails and
  no byte outside the input is read.\<close>

theorem cbor_walk_safe:
  "\<exists>err it. cbor_parser_init buf = Some (err, it) \<and>
    (err = CborNoError \<longrightarrow> (\<exists>err' it'. cbor_value_advance it = Some (err', it')
       \<and> (err' = CborNoError \<longrightarrow> 0 < cv_ptr it' \<and> cv_ptr it' \<le> length buf)))"
proof -
  obtain err it where 1: "cbor_parser_init buf = Some (err, it)" "cv_buf it = buf"
    "err = CborNoError \<Longrightarrow> cv_good it \<and> cv_remaining it = 1"
    using parser_init_good [of buf] by (auto simp: parses_def)
  show ?thesis
  proof (cases "err = CborNoError")
    case True
    then have g: "cv_good it" "cv_remaining it \<noteq> 0" using 1(3) by auto
    obtain e2 i2 where "cbor_value_advance it = Some (e2, i2)" "cv_buf i2 = buf"
      "e2 = CborNoError \<Longrightarrow> cv_good i2 \<and> 0 < cv_ptr i2"
      using advance_good [OF g] 1(2) by (auto simp: parses_def cv_step_def)
    then show ?thesis using 1(1) by (auto simp: cv_good_def)
  qed (use 1 in simp)
qed

definition demo_cbor :: bytes where
  "demo_cbor = [0xbf, 0x61, 0x61, 0x5f, 0x41, 0x01, 0xff, 0x01, 0x82, 0x02, 0xc1, 0x1a, 0, 0, 0, 7, 0xff]"

lemma cbor_walk_safe_witness:
  "\<exists>it err' it'. cbor_parser_init demo_cbor = Some (CborNoError, it) \<and> cbor_value_advance it = Some (err', it')"
proof -
  have "map_option fst (cbor_parser_init demo_cbor) = Some CborNoError" by code_simp
  then show ?thesis using cbor_walk_safe [of demo_cbor] by auto
qed

text \<open>The search for a key in a map of known length returns on every input, and ends at an item of the
  map or reports that there is none.\<close>

theorem cbor_map_find_safe:
  assumes "cbor_parser_init buf = Some (CborNoError, it)" "cv_type it = CborMapType"
    "cbor_value_is_length_known it"
  shows "\<exists>err it'. cbor_value_map_find_value it key = Some (err, it') \<and> cv_buf it' = buf
    \<and> (err = CborNoError \<longrightarrow> cv_type it' = CborInvalidType \<or> cv_ptr it' < length buf)"
proof -
  have h: "cv_head it" "cv_buf it = buf" using parser_init_good [of buf] assms(1) by (auto simp: parses_def)
  have c: "cbor_value_is_container it" using assms(2) by (simp add: cbor_value_is_container_def)
  obtain err rec where e: "cbor_value_enter_container it = Some (err, rec)" "cv_buf rec = buf"
    "err = CborNoError \<Longrightarrow> cv_entered it rec"
    using enter_container_good [OF h(1) c] h(2) by (auto simp: parses_def)
  show ?thesis
  proof (cases "err = CborNoError")
    case True
    then have "parses (map_find_loop key rec) rec (\<lambda>it'. cv_type it' = CborInvalidType \<or> cv_head it' \<and> cv_remaining it' \<noteq> 0)"
      using e(3) assms(2,3) by (intro map_find_good) (auto simp: cv_entered_def cv_past_def)
    then show ?thesis
      using True e(1,2) assms(2)
      by (auto simp: cbor_value_map_find_value_def cbor_assert_def parses_def dest: cv_head_ptr)
  qed (use e assms(2) in \<open>simp add: cbor_value_map_find_value_def cbor_assert_def\<close>)
qed

lemma cbor_map_find_safe_witness:
  "\<exists>it err it'. cbor_parser_init [0xa1, 0x61, 0x61, 0x01] = Some (CborNoError, it)
    \<and> cbor_value_map_find_value it [0x61] = Some (err, it')"
proof -
  have "case cbor_parser_init [0xa1, 0x61, 0x61, 0x01] of Some (err, it) \<Rightarrow>
      err = CborNoError \<and> cv_type it = CborMapType \<and> cbor_value_is_length_known it | _ \<Rightarrow> False" by code_simp
  then obtain it where "cbor_parser_init [0xa1, 0x61, 0x61, 0x01] = Some (CborNoError, it)"
    "cv_type it = CborMapType" "cbor_value_is_length_known it"
    by (auto split: option.splits prod.splits)
  then show ?thesis using cbor_map_find_safe [of "[0xa1, 0x61, 0x61, 0x01]" it "[0x61]"] by blast
qed

end
