(* ===== verification/Cbor_Laws.thy ===== *)
theory Cbor_Laws
  imports Cbor_Safety
begin

text \<open>
  The encoder and the parser together. \<open>emits f d\<close> says that a call \<open>f\<close> of the encoder appends
  the bytes \<open>d\<close> as one item whenever there is room; it holds of every call the firmware makes and is
  closed under building arrays and maps. \<open>reads it maj v\<close> says that an iterator stands at an item
  whose head is of major type \<open>maj\<close> with number \<open>v\<close>; the parser reaches such an iterator at
  every item the encoder wrote.
\<close>

section \<open>The encoder writes what it should\<close>

definition room :: "CborEncoder \<Rightarrow> nat \<Rightarrow> bool" where
  "room e n \<longleftrightarrow> (\<exists>en. ce_end e = Some en \<and> ce_data e + n \<le> en \<and> en \<le> length (ce_buf e))"

definition enc_out :: "CborEncoder \<Rightarrow> bytes" where
  "enc_out e = take (ce_data e) (ce_buf e)"

definition wrote :: "CborEncoder \<Rightarrow> bytes \<Rightarrow> CborEncoder \<Rightarrow> bool" where
  "wrote e d e' \<longleftrightarrow> enc_out e' = enc_out e @ d \<and> ce_data e' = ce_data e + length d \<and> ce_end e' = ce_end e
     \<and> length (ce_buf e') = length (ce_buf e) \<and> ce_flags e' = ce_flags e"

text \<open>A call appends the bytes \<open>d\<close>, as one item of the container it is in, whenever there is room.\<close>

definition emits :: "enc_call \<Rightarrow> bytes \<Rightarrow> bool" where
  "emits f d \<longleftrightarrow> (\<forall>e. room e (length d) \<longrightarrow> (\<exists>e'. f e = (CborNoError, e') \<and> wrote e d e'
     \<and> ce_remaining e' = (if ce_remaining e = 0 then 0 else ce_remaining e - 1)))"

lemma append_wrote:
  assumes "room e (length d)"
  shows "\<exists>e'. append_to_buffer e d = (CborNoError, e') \<and> wrote e d e' \<and> ce_remaining e' = ce_remaining e"
proof -
  obtain en where en: "ce_end e = Some en" "ce_data e + length d \<le> en" "en \<le> length (ce_buf e)"
    using assms by (auto simp: room_def)
  have "\<not> would_overflow e (length d)" using en by (simp add: would_overflow_def)
  moreover have "take (ce_data e + length d) (blit (ce_buf e) (ce_data e) d) = take (ce_data e) (ce_buf e) @ d"
    using en by (intro take_blit_prefix) simp
  ultimately show ?thesis
    using en by (auto simp: append_to_buffer_def wrote_def enc_out_def length_blit)
qed

lemma room_mono: "room e n \<Longrightarrow> m \<le> n \<Longrightarrow> room e m"
  by (auto simp: room_def)

lemma wrote_room: "wrote e d e' \<Longrightarrow> room e (length d + n) \<Longrightarrow> room e' n"
  by (auto simp: room_def wrote_def)

lemma wrote_trans: "wrote e d e' \<Longrightarrow> wrote e' d' e'' \<Longrightarrow> wrote e (d @ d') e''"
  by (simp add: wrote_def)

lemma wrote_refl: "wrote e [] e"
  by (simp add: wrote_def)

lemma saturated_decrement_simps [simp]:
  "room (saturated_decrement e) n = room e n" "wrote (saturated_decrement e) d e' = wrote e d e'"
  "ce_remaining (saturated_decrement e) = (if ce_remaining e = 0 then 0 else ce_remaining e - 1)"
  by (simp_all add: saturated_decrement_def room_def wrote_def enc_out_def)

lemma emits_number: "emits (\<lambda>e. encode_number e v maj) (number_bytes v maj)"
  unfolding emits_def encode_number_def encode_number_no_update_def
  using append_wrote [of "saturated_decrement _" "number_bytes v maj"] by fastforce

lemma emits_uint: "emits (\<lambda>e. cbor_encode_uint e v) (number_bytes v UnsignedIntegerMajor)"
  unfolding cbor_encode_uint_def by (rule emits_number)

text \<open>The bytes of an integer of either sign.\<close>

definition int_bytes :: "int \<Rightarrow> bytes" where
  "int_bytes i = (if 0 \<le> i then number_bytes (of_int i) UnsignedIntegerMajor
     else number_bytes (of_int (- i - 1)) NegativeIntegerMajor)"

lemma signed_top:
  assumes "- (2 ^ 63) \<le> i" "i < 2 ^ 63"
  shows "signed_drop_bit 63 (of_int i :: u64) = (if 0 \<le> i then 0 else - 1)"
proof -
  have s: "sint (of_int i :: u64) = i"
    using assms by (simp add: signed_of_int signed_take_bit_int_eq_self)
  have "sint (signed_drop_bit 63 (of_int i :: u64)) = (if 0 \<le> i then 0 else - 1)"
  proof (cases "0 \<le> i")
    case True
    then show ?thesis using assms by (simp add: sint_signed_drop_bit_eq s drop_bit_eq_div)
  next
    case False
    then have "i div 9223372036854775808 = - 1" using assms(1) by (simp add: div_eq_minus1)
    then show ?thesis using False by (simp add: sint_signed_drop_bit_eq s drop_bit_eq_div)
  qed
  moreover have "w = of_int (sint w)" for w :: u64 by simp
  ultimately show ?thesis by (metis of_int_0 of_int_1 of_int_minus)
qed

lemma emits_int:
  assumes "- (2 ^ 63) \<le> i" "i < 2 ^ 63"
  shows "emits (\<lambda>e. cbor_encode_int e (of_int i)) (int_bytes i)"
proof (cases "0 \<le> i")
  case True
  then show ?thesis
    using signed_top [OF assms] emits_number [of "of_int i" 0]
    by (simp add: cbor_encode_int_def int_bytes_def UnsignedIntegerMajor_def)
next
  case False
  have "(- 1 :: u64) XOR of_int i = of_int (- i - 1)"
    by (simp add: not_eq_complement)
  then show ?thesis
    using False signed_top [OF assms] emits_number [of "of_int (- i - 1)" "0x20"]
    by (simp add: cbor_encode_int_def int_bytes_def NegativeIntegerMajor_def Let_def)
qed

definition string_bytes :: "byte \<Rightarrow> bytes \<Rightarrow> bytes" where
  "string_bytes maj s = number_bytes (of_nat (length s)) maj @ s"

lemma emits_string: "emits (\<lambda>e. encode_string e maj s) (string_bytes maj s)"
  unfolding emits_def
proof (intro allI impI)
  fix e assume r: "room e (length (string_bytes maj s))"
  let ?d = "number_bytes (of_nat (length s)) maj"
  have "room e (length ?d)" using r by (rule room_mono) (simp add: string_bytes_def)
  then obtain e1 where 1: "encode_number e (of_nat (length s)) maj = (CborNoError, e1)" "wrote e ?d e1"
    "ce_remaining e1 = (if ce_remaining e = 0 then 0 else ce_remaining e - 1)"
    using emits_number unfolding emits_def by blast
  have "room e1 (length s)" using wrote_room [OF 1(2)] r by (simp add: string_bytes_def)
  then obtain e2 where 2: "append_to_buffer e1 s = (CborNoError, e2)" "wrote e1 s e2" "ce_remaining e2 = ce_remaining e1"
    using append_wrote by blast
  show "\<exists>e'. encode_string e maj s = (CborNoError, e') \<and> wrote e (string_bytes maj s) e'
     \<and> ce_remaining e' = (if ce_remaining e = 0 then 0 else ce_remaining e - 1)"
    using 1 2 wrote_trans by (simp add: encode_string_def string_bytes_def)
qed

lemma emits_bytes: "emits (\<lambda>e. cbor_encode_byte_string e s) (string_bytes ByteStringMajor s)"
  unfolding cbor_encode_byte_string_def by (rule emits_string)

lemma emits_text: "emits (\<lambda>e. cbor_encode_text_string e s) (string_bytes TextStringMajor s)"
  unfolding cbor_encode_text_string_def by (rule emits_string)

lemma emits_boolean: "emits (\<lambda>e. cbor_encode_boolean e b) [if b then 0xf5 else 0xf4]"
proof -
  have "number_bytes (ucast (of_bool b - 1 + (CborBooleanType AND 0x1f))) SimpleTypesMajor = [if b then 0xf5 else 0xf4]"
    by (cases b) (simp_all add: number_bytes_def cbor_consts)
  moreover have "cbor_encode_boolean e b = encode_number e (ucast (of_bool b - 1 + (CborBooleanType AND 0x1f))) SimpleTypesMajor" for e
    by (cases b) (simp_all add: cbor_encode_boolean_def cbor_encode_simple_value_def cbor_consts)
  ultimately show ?thesis using emits_number [of "ucast (of_bool b - 1 + (CborBooleanType AND 0x1f))" SimpleTypesMajor] by simp
qed

text \<open>A sequence of calls appends the concatenation and counts its items.\<close>

lemma enc_seq_emits:
  assumes "list_all2 emits fs ds" "room e (length (concat ds))" "length fs < unat (ce_remaining e)"
  shows "\<exists>e'. enc_seq fs e = (CborNoError, e') \<and> wrote e (concat ds) e'
    \<and> unat (ce_remaining e') = unat (ce_remaining e) - length fs"
  using assms
proof (induction arbitrary: e rule: list_all2_induct)
  case Nil
  then show ?case by (simp add: wrote_refl)
next
  case (Cons f fs d ds)
  have r: "room e (length d + length (concat ds))" using Cons.prems(1) by simp
  obtain e1 where 1: "f e = (CborNoError, e1)" "wrote e d e1" "ce_remaining e1 = ce_remaining e - 1"
    using Cons.hyps(1) room_mono [OF r, of "length d"] Cons.prems(2) unfolding emits_def by (fastforce split: if_splits)
  have u: "unat (ce_remaining e1) = unat (ce_remaining e) - 1"
    using 1(3) Cons.prems(2) by (metis gr_implies_not0 unat_0 unat_minus_one_word)
  have l: "length fs < unat (ce_remaining e1)" using u Cons.prems(2) by simp
  obtain e2 where 2: "enc_seq fs e1 = (CborNoError, e2)" "wrote e1 (concat ds) e2"
    "unat (ce_remaining e2) = unat (ce_remaining e1) - length fs"
    using Cons.IH [OF wrote_room [OF 1(2) r] l] by auto
  then show ?case using 1 u wrote_trans [OF 1(2) 2(2)] by simp
qed


text \<open>A container of known length appends its head and its items, when it is given as many items as it
  announces.\<close>

lemma enc_container_emits:
  assumes create: "\<And>e. create e = create_container e n maj"
    and n: "n < 0x7fffffff" and maj: "maj = ArrayMajor \<and> k = unat n \<or> maj = MapMajor \<and> k = 2 * unat n"
    and fs: "list_all2 emits fs ds" "length fs = k"
  shows "emits (enc_container create fs) (number_bytes (ucast n) maj @ concat ds)"
  unfolding emits_def
proof (intro allI impI)
  fix e assume "room e (length (number_bytes (ucast n) maj @ concat ds))"
  then have r: "room e (length (number_bytes (ucast n) maj) + length (concat ds))" by simp
  define c where "c = \<lparr>ce_buf = ce_buf e, ce_data = ce_data e, ce_end = ce_end e,
    ce_remaining = if maj = MapMajor then n + 1 + n else n + 1, ce_flags = maj AND Flag_ContainerIsMap\<rparr>"
  have u: "unat n < 0x7fffffff" using n by (simp add: word_less_nat_alt)
  have rem: "unat (ce_remaining c) = k + 1"
    using maj u by (auto simp: c_def unat_word_ariths cbor_consts)
  have fl: "ce_flags c AND Flag_UnknownLength = 0" using maj by (auto simp: c_def cbor_consts)
  have rc: "room c (length (number_bytes (ucast n) maj) + length (concat ds))"
    using r by (simp add: room_def c_def)
  obtain c1 where c1: "append_to_buffer c (number_bytes (ucast n) maj) = (CborNoError, c1)"
    "wrote c (number_bytes (ucast n) maj) c1" "ce_remaining c1 = ce_remaining c"
    using append_wrote [OF room_mono [OF rc], of "number_bytes (ucast n) maj"] by auto
  obtain c2 where c2: "enc_seq fs c1 = (CborNoError, c2)" "wrote c1 (concat ds) c2" "unat (ce_remaining c2) = 1"
    using enc_seq_emits [OF fs(1) wrote_room [OF c1(2) rc]] c1(3) rem fs(2) by auto
  have w: "wrote c (number_bytes (ucast n) maj @ concat ds) c2" by (rule wrote_trans [OF c1(2) c2(2)])
  have nz: "n \<noteq> CborIndefiniteLength" using n by (auto simp: cbor_consts)
  have cr: "create e = (CborNoError, saturated_decrement e, c1)"
    using maj nz c1(1)
    by (auto simp: create create_container_def encode_number_no_update_def c_def cbor_consts)
  have "ce_remaining c2 = 1" using c2(3) by (simp add: word_unat_eq_iff)
  then have "enc_container create fs e = (CborNoError, (saturated_decrement e)\<lparr>ce_buf := ce_buf c2,
      ce_data := ce_data c2, ce_end := ce_end c2\<rparr>)"
    using c2(1) w fl r
    by (auto simp: enc_container_def cr cbor_encoder_close_container_def wrote_def c_def room_def)
  then show "\<exists>e'. enc_container create fs e = (CborNoError, e')
      \<and> wrote e (number_bytes (ucast n) maj @ concat ds) e'
      \<and> ce_remaining e' = (if ce_remaining e = 0 then 0 else ce_remaining e - 1)"
    using w by (auto simp: wrote_def enc_out_def c_def saturated_decrement_def)
qed

lemma enc_map_emits:
  assumes "n < 0x7fffffff" "list_all2 emits fs ds" "length fs = 2 * unat n"
  shows "emits (enc_map n fs) (number_bytes (ucast n) MapMajor @ concat ds)"
proof -
  have "\<not> n > 0x7fffffff" using assms(1) by simp
  then show ?thesis
    unfolding enc_map_def
    by (intro enc_container_emits [where k = "2 * unat n"])
      (use assms in \<open>auto simp: cbor_encoder_create_map_def\<close>)
qed

lemma enc_array_emits:
  assumes "n < 0x7fffffff" "list_all2 emits fs ds" "length fs = unat n"
  shows "emits (enc_array n fs) (number_bytes (ucast n) ArrayMajor @ concat ds)"
  unfolding enc_array_def
  by (intro enc_container_emits [where k = "unat n"])
    (use assms in \<open>auto simp: cbor_encoder_create_array_def\<close>)


section \<open>The parser reads what the encoder wrote\<close>

lemma number_bytes_cases:
  fixes v :: u64
  obtains (small) "unat v < 24" "\<And>maj. number_bytes v maj = [ucast v + maj]"
  | (b1) "24 \<le> unat v" "unat v < 2 ^ 8" "\<And>maj. number_bytes v maj = (maj + 24) # drop 7 (be64 v)"
  | (b2) "2 ^ 8 \<le> unat v" "unat v < 2 ^ 16" "\<And>maj. number_bytes v maj = (maj + 25) # drop 6 (be64 v)"
  | (b4) "2 ^ 16 \<le> unat v" "unat v < 2 ^ 32" "\<And>maj. number_bytes v maj = (maj + 26) # drop 4 (be64 v)"
  | (b8) "2 ^ 32 \<le> unat v" "\<And>maj. number_bytes v maj = (maj + 27) # be64 v"
proof -
  consider "unat v < 24" | "24 \<le> unat v" "unat v < 2 ^ 8" | "2 ^ 8 \<le> unat v" "unat v < 2 ^ 16"
    | "2 ^ 16 \<le> unat v" "unat v < 2 ^ 32" | "2 ^ 32 \<le> unat v" by linarith
  then show ?thesis
  proof cases
    case 1
    then show ?thesis by (intro small) (simp_all add: number_bytes_def Value8Bit_def word_less_nat_alt)
  next
    case 2
    then show ?thesis by (intro b1) (simp_all add: number_bytes_def Value8Bit_def word_less_nat_alt)
  next
    case 3
    then show ?thesis by (intro b2) (simp_all add: number_bytes_def Value8Bit_def word_less_nat_alt)
  next
    case 4
    then show ?thesis by (intro b4) (simp_all add: number_bytes_def Value8Bit_def word_less_nat_alt)
  next
    case 5
    then show ?thesis by (intro b8) (simp_all add: number_bytes_def Value8Bit_def word_less_nat_alt)
  qed
qed


definition majors :: "byte list" where
  "majors = [0, 0x20, 0x40, 0x60, 0x80, 0xa0, 0xc0, 0xe0]"

lemma head_byte_table:
  "list_all (\<lambda>m. list_all (\<lambda>c. (m + of_nat c) AND SmallValueMask = of_nat c \<and> (m + of_nat c) AND MajorTypeMask = m)
     [0..<32]) majors"
  by code_simp

lemma head_byte:
  assumes "maj \<in> set majors" "unat c < 32"
  shows "(maj + c) AND SmallValueMask = c" "(maj + c) AND MajorTypeMask = maj"
proof -
  have "list_all (\<lambda>c. (maj + of_nat c) AND SmallValueMask = of_nat c \<and> (maj + of_nat c) AND MajorTypeMask = maj) [0..<32]"
    using head_byte_table assms(1) unfolding list_all_iff by blast
  then have "(maj + of_nat (unat c)) AND SmallValueMask = of_nat (unat c)
      \<and> (maj + of_nat (unat c)) AND MajorTypeMask = maj"
    using assms(2) by (simp only: list_all_iff) (simp del: of_nat_unat)
  then show "(maj + c) AND SmallValueMask = c" "(maj + c) AND MajorTypeMask = maj" by simp_all
qed

lemma of_be_drop_be64: "k \<le> 8 \<Longrightarrow> of_be (drop (8 - k) (be64 v)) = unat v mod 256 ^ k"
proof -
  assume k: "k \<le> 8"
  have "unat v = of_be (take (8 - k) (be64 v)) * 256 ^ k + of_be (drop (8 - k) (be64 v))"
    using of_be_append [of "take (8 - k) (be64 v)" "drop (8 - k) (be64 v)"] k by (simp add: of_be_be64)
  moreover have "of_be (drop (8 - k) (be64 v)) < 256 ^ k"
    using of_be_bound [of "drop (8 - k) (be64 v)"] k by simp
  ultimately show ?thesis by simp
qed

lemma drop_at:
  assumes "drop p buf = b # d @ rest"
  shows "p < length buf" "buf ! p = b" "slice (p + 1) (length d) buf = d" "p + 1 + length d \<le> length buf"
proof -
  show p: "p < length buf" using assms by (metis drop_eq_Nil leI list.distinct(1))
  show "buf ! p = b" using assms p by (metis Cons_nth_drop_Suc list.inject)
  have t: "drop (p + 1) buf = d @ rest" using assms p by (metis Cons_nth_drop_Suc Suc_eq_plus1 list.inject)
  then show "slice (p + 1) (length d) buf = d" by (simp add: slice_def)
  show "p + 1 + length d \<le> length buf" using arg_cong [OF t, of length] p by simp
qed

lemma extract_number_long:
  assumes d: "drop p buf = (maj + c) # drop (8 - k) (be64 v) @ rest" and m: "maj \<in> set majors"
    and c: "(c, k) \<in> {(24, 1), (25, 2), (26, 4), (27, 8)}" and v: "unat v < 256 ^ k"
  shows "extract_number buf p = Some (CborNoError, p + 1 + k, v) \<and>
    p < length buf \<and> buf ! p AND MajorTypeMask = maj \<and> buf ! p AND SmallValueMask \<le> Value64Bit \<and>
    k = extra_bytes (buf ! p AND SmallValueMask) \<and> p + extra_bytes (buf ! p AND SmallValueMask) < length buf"
proof -
  have k: "k \<le> 8" "0 < k" "length (drop (8 - k) (be64 v)) = k" using c by auto
  note a = drop_at [OF d, unfolded k(3)]
  have h: "buf ! p AND SmallValueMask = c" "buf ! p AND MajorTypeMask = maj"
    unfolding a(2) by (rule head_byte [OF m]; use c in auto)+
  have n: "of_be (slice (p + 1) k buf) = unat v" using of_be_drop_be64 [OF k(1)] v a(3) by simp
  have g: "ucast (buf ! (p + 1)) = v" if "k = 1"
  proof -
    have "slice (p + 1) 1 buf = [buf ! (p + 1)]" using a(4) that by (simp add: slice_def take_Suc_conv_app_nth)
    then show ?thesis using n that by (simp add: of_be_def word_unat_eq_iff unat_ucast_up)
  qed
  have w: "ucast (of_nat (unat v) :: u16) = v" if "k = 2"
    using v that by (simp add: word_unat_eq_iff unat_ucast_up unat_of_nat_small del: of_nat_unat)
  have w4: "ucast (of_nat (unat v) :: u32) = v" if "k = 4"
    using v that by (simp add: word_unat_eq_iff unat_ucast_up unat_of_nat_small del: of_nat_unat)
  have "extract_number buf p = Some (CborNoError, p + 1 + k, v)"
    using c a(1,4) h(1) n g w w4
    by (auto simp: extract_number_def get_byte_def get16_def get32_def get64_def value_bits simp del: of_nat_unat)
      (simp_all)
  then show ?thesis using a(1,4) h c by (auto simp: value_bits)
qed

lemma extract_number_written:
  assumes d: "drop p buf = number_bytes v maj @ rest" and m: "maj \<in> set majors"
  shows "extract_number buf p = Some (CborNoError, p + length (number_bytes v maj), v)"
    "p < length buf" "buf ! p AND MajorTypeMask = maj" "buf ! p AND SmallValueMask \<le> Value64Bit"
    "length (number_bytes v maj) = 1 + extra_bytes (buf ! p AND SmallValueMask)"
    "p + extra_bytes (buf ! p AND SmallValueMask) < length buf"
proof -
  have "extract_number buf p = Some (CborNoError, p + length (number_bytes v maj), v) \<and>
    p < length buf \<and> buf ! p AND MajorTypeMask = maj \<and> buf ! p AND SmallValueMask \<le> Value64Bit \<and>
    length (number_bytes v maj) = 1 + extra_bytes (buf ! p AND SmallValueMask) \<and>
    p + extra_bytes (buf ! p AND SmallValueMask) < length buf"
  proof (cases v rule: number_bytes_cases)
    case small
    have c: "unat (ucast v :: byte) = unat v" using small(1) by (simp add: unat_ucast_byte)
    note a = drop_at [of p buf "ucast v + maj" "[]" rest]
    have h: "(ucast v + maj) AND SmallValueMask = ucast v" "(ucast v + maj) AND MajorTypeMask = maj"
      using head_byte [OF m, of "ucast v"] c small(1) by (simp_all add: add.commute)
    have l: "(ucast v :: byte) < Value8Bit" using small(1) c by (simp add: word_less_nat_alt Value8Bit_def)
    have u: "ucast (ucast v :: byte) = v" using c by (simp add: word_unat_eq_iff unat_ucast_up)
    show ?thesis
      using d a h l u small(1)
      by (auto simp: small(2) extract_number_def get_byte_def extra_bytes_def value_bits word_less_nat_alt word_le_nat_alt c)
  next
    case b1
    then show ?thesis using extract_number_long [of p buf maj 24 1 v rest] d m by simp
  next
    case b2
    then show ?thesis using extract_number_long [of p buf maj 25 2 v rest] d m by simp
  next
    case b4
    then show ?thesis using extract_number_long [of p buf maj 26 4 v rest] d m by simp
  next
    case b8
    have "unat v < 256 ^ 8" using unsigned_less [of v, where ?'a = nat] by simp
    then show ?thesis using b8 extract_number_long [of p buf maj 27 8 v rest] d m by simp
  qed
  then show "extract_number buf p = Some (CborNoError, p + length (number_bytes v maj), v)"
    "p < length buf" "buf ! p AND MajorTypeMask = maj" "buf ! p AND SmallValueMask \<le> Value64Bit"
    "length (number_bytes v maj) = 1 + extra_bytes (buf ! p AND SmallValueMask)"
    "p + extra_bytes (buf ! p AND SmallValueMask) < length buf" by auto
qed


text \<open>The iterator stands at an item whose head was written with major type \<open>maj\<close> and number
  \<open>v\<close>.\<close>

definition reads :: "CborValue \<Rightarrow> byte \<Rightarrow> u64 \<Rightarrow> bool" where
  "reads it maj v \<longleftrightarrow> cv_head it \<and> cv_type it = (if maj = NegativeIntegerMajor then CborIntegerType else maj)
     \<and> (cv_flags it AND Flag_NegativeInteger \<noteq> 0 \<longleftrightarrow> maj = NegativeIntegerMajor)
     \<and> cbor_value_is_length_known it \<and> extract_int64_helper it = Some v"

lemma preparse_number_noerr:
  assumes "preparse_number a it = Some (err, it')"
  shows "err = CborNoError" "cv_type it' = cv_type it"
    "cv_flags it' = cv_flags it \<or> cv_flags it' = cv_flags it OR Flag_IntegerValueTooLarge"
  using assms by (auto simp: preparse_number_def Option.bind_eq_Some_conv split: if_splits)

lemma preparse_value_written:
  assumes d: "drop (cv_ptr it) (cv_buf it) = number_bytes v maj @ rest"
    and m: "maj \<in> set majors" "maj \<noteq> SimpleTypesMajor"
  shows "\<exists>it'. preparse_value it = Some (CborNoError, it') \<and> reads it' maj v \<and> cv_ptr it' = cv_ptr it
    \<and> cv_buf it' = cv_buf it \<and> cv_remaining it' = cv_remaining it"
proof -
  note w = extract_number_written [OF d m(1)]
  let ?a = "cv_buf it ! cv_ptr it AND SmallValueMask"
  define i where "i = (if maj = NegativeIntegerMajor
    then it\<lparr>cv_extra := ucast ?a, cv_flags := Flag_NegativeInteger, cv_type := CborIntegerType\<rparr>
    else it\<lparr>cv_type := maj, cv_flags := 0, cv_extra := ucast ?a\<rparr>)"
  have eq: "preparse_value it = preparse_number ?a i"
    using w(2-4,6) m(2) by (auto simp: preparse_value_def Let_def get_byte_def i_def not_less)
  obtain err it' where p: "preparse_value it = Some (err, it')" "cv_buf it' = cv_buf it"
    "err = CborNoError \<Longrightarrow> cv_head it' \<and> cv_ptr it' = cv_ptr it \<and> cv_remaining it' = cv_remaining it"
    using preparse_value_head [of it] w(2) by (auto simp: parses_def)
  note n = preparse_number_noerr [OF p(1) [unfolded eq]]
  have h: "cv_head it'" "cv_ptr it' = cv_ptr it" "cv_remaining it' = cv_remaining it" using p(3) n(1) by auto
  have t: "cv_type it' = (if maj = NegativeIntegerMajor then CborIntegerType else maj)"
    using n(2) by (simp add: i_def)
  have f: "cv_flags it' AND Flag_NegativeInteger \<noteq> 0 \<longleftrightarrow> maj = NegativeIntegerMajor" "cbor_value_is_length_known it'"
    using n(3) by (auto simp: i_def cbor_flags cbor_value_is_length_known_def split: if_splits)
  have nt: "cv_type it' \<in> number_types"
    using m by (auto simp: t majors_def number_types_def cbor_types cbor_consts split: if_splits)
  have "extract_int64_helper it' = Some v"
    using h(1) nt f(2) w(1) p(2) h(2) by (auto simp: cv_head_def Let_def cbor_value_is_length_known_def)
  then show ?thesis using p(1,2) n(1) h t f by (auto simp: reads_def)
qed

lemma preparse_next_written:
  assumes "drop (cv_ptr it) (cv_buf it) = number_bytes v maj @ rest" "maj \<in> set majors" "maj \<noteq> SimpleTypesMajor"
    "unat (cv_remaining it) = Suc (Suc k)" "cv_remaining it \<noteq> UINT32_MAX" "cv_type it \<noteq> CborTagType"
  shows "\<exists>it'. preparse_next_value it = Some (CborNoError, it') \<and> reads it' maj v \<and> cv_ptr it' = cv_ptr it
    \<and> cv_buf it' = cv_buf it \<and> unat (cv_remaining it') = Suc k \<and> cv_remaining it' \<noteq> UINT32_MAX"
proof -
  have n: "cv_remaining it \<noteq> 0" using assms(4) by auto
  have u: "unat (cv_remaining it - 1) = Suc k" using unat_minus_one_word [OF n] assms(4) by simp
  have nz: "cv_remaining it - 1 \<noteq> 0" using u by auto
  have nm: "cv_remaining it - 1 \<noteq> UINT32_MAX" using n by (auto simp: UINT32_MAX_def)
  show ?thesis
    using preparse_value_written [of "it\<lparr>cv_remaining := cv_remaining it - 1\<rparr>" v maj rest] assms u nz nm
    by (auto simp: preparse_next_value_def preparse_next_value_nodecrement_def Let_def)
qed

lemma preparse_next_end:
  assumes "cv_remaining it = 1" "cv_type it \<noteq> CborTagType"
  shows "preparse_next_value it = Some (CborNoError, it\<lparr>cv_remaining := 0, cv_type := CborInvalidType\<rparr>)"
  using assms by (simp add: preparse_next_value_def UINT32_MAX_def)

text \<open>Advancing over a number goes on behind it.\<close>

lemma advance_number:
  assumes "reads it maj v" "maj \<in> {UnsignedIntegerMajor, NegativeIntegerMajor}" "cv_remaining it \<noteq> 0"
    "drop (cv_ptr it) (cv_buf it) = number_bytes v maj @ rest"
  shows "cbor_value_advance it = preparse_next_value (it\<lparr>cv_ptr := cv_ptr it + length (number_bytes v maj)\<rparr>)"
proof -
  have m: "maj \<in> set majors" using assms(2) by (auto simp: majors_def cbor_consts)
  have t: "cv_type it = CborIntegerType" "is_fixed_type CborIntegerType" "CborIntegerType \<noteq> CborInvalidType"
    "CborIntegerType \<noteq> CborByteStringType" "CborIntegerType \<noteq> CborTextStringType"
    using assms(1,2) by (auto simp: reads_def cbor_consts cbor_types is_fixed_type_def split: if_splits)
  have "advance_recursive n it = advance_internal it" for n using t by (cases n) simp_all
  then show ?thesis
    using extract_number_written(1) [OF assms(4) m] t assms(3)
    by (simp add: cbor_value_advance_def cbor_assert_def advance_internal_def Let_def)
qed


section \<open>Strings\<close>

text \<open>The iterator behind a string, before the next item is parsed.\<close>

definition behind :: "CborValue \<Rightarrow> byte \<Rightarrow> bytes \<Rightarrow> CborValue" where
  "behind it maj s = it\<lparr>cv_ptr := cv_ptr it + length (string_bytes maj s),
     cv_flags := cv_flags it OR Flag_IteratingStringChunks\<rparr>"

lemma string_chunk_written:
  assumes r: "reads it maj (of_nat (length s))" "maj \<in> {ByteStringMajor, TextStringMajor}"
    and d: "drop (cv_ptr it) (cv_buf it) = string_bytes maj s @ rest" and l: "length s < 2 ^ 32"
  shows "get_string_chunk it = Some (CborNoError, Some s, behind it maj s)"
    "get_string_chunk (behind it maj s) = last_chunk (behind it maj s)"
proof -
  let ?d = "number_bytes (of_nat (length s)) maj"
  have m: "maj \<in> set majors" using r(2) by (auto simp: majors_def cbor_consts)
  have d': "drop (cv_ptr it) (cv_buf it) = ?d @ s @ rest" using d by (simp add: string_bytes_def)
  note w = extract_number_written [OF d' m]
  have k: "cv_flags it AND Flag_UnknownLength = 0" using r(1) by (simp add: reads_def cbor_value_is_length_known_def)
  have k2: "(cv_flags it OR Flag_IteratingStringChunks) AND Flag_UnknownLength = 0"
    using k by (simp add: bit.conj_disj_distrib2 cbor_flags)
  have t: "cv_type it = maj" "\<not> is_fixed_type maj" "maj \<noteq> NegativeIntegerMajor"
    using r by (auto simp: reads_def is_fixed_type_def cbor_consts cbor_types split: if_splits)
  have f: "cv_flags it AND Flag_IteratingStringChunks = 0"
    using r(1) t by (auto simp: reads_def cv_head_def Let_def)
  have u: "unat (of_nat (length s) :: u32) = length s" "unat (of_nat (length s) :: u64) = length s"
    using l by (simp_all add: unat_of_nat_small)
  have c: "ucast (of_nat (length s) :: u64) = (of_nat (length s) :: u32)"
    using u l by (simp add: word_unat_eq_iff unsigned_ucast_eq take_bit_nat_eq_self)
  have c2: "ucast (of_nat (length s) :: u32) = (of_nat (length s) :: u64)"
    by (simp add: word_unat_eq_iff unat_ucast_up u)
  have nb: "cv_buf it ! cv_ptr it \<noteq> BreakByte"
    using w(3) r(2) by (auto simp: cbor_consts)
  have ln: "cv_ptr it + length ?d + length s \<le> cv_end it"
    using arg_cong [OF d', of length] w(2) by simp
  have sl: "slice (cv_ptr it + length ?d) (length s) (cv_buf it) = s"
  proof -
    have "drop (cv_ptr it + length ?d) (cv_buf it) = drop (length ?d) (?d @ s @ rest)"
      using d' by (metis add.commute drop_drop)
    then show ?thesis by (simp add: slice_def)
  qed
  show "get_string_chunk it = Some (CborNoError, Some s, behind it maj s)"
    using w(1-3) nb f k t(1) c c2 u ln sl
    by (simp add: get_string_chunk_def next_chunk_def prepare_string_iteration_def cbor_value_is_length_known_def
        get_byte_def extract_length_def behind_def string_bytes_def Let_def add.assoc)
  show "get_string_chunk (behind it maj s) = last_chunk (behind it maj s)"
    using k2 by (simp add: get_string_chunk_def behind_def cbor_value_is_length_known_def)
qed

lemma copy_string_written:
  assumes r: "reads it maj (of_nat (length s))" "maj \<in> {ByteStringMajor, TextStringMajor}"
    and d: "drop (cv_ptr it) (cv_buf it) = string_bytes maj s @ rest" "length s < 2 ^ 32"
    and n: "preparse_next_value (behind it maj s) = Some (CborNoError, nx)"
  shows "copy_string it (Some b) n =
     Some (if length s \<le> n then CborNoError else CborErrorOutOfMemory,
       if n < length s then b else if n = length s then blit b 0 s else blit (blit b 0 s) (length s) [0],
       length s, nx)"
    "copy_string it None SIZE_MAX = Some (CborNoError, [], length s, nx)"
proof -
  note c = string_chunk_written [OF r d]
  have t: "cv_type it = CborByteStringType \<or> cv_type it = CborTextStringType"
    using r by (auto simp: reads_def cbor_consts cbor_types split: if_splits)
  have last: "chunk_loop func m (behind it maj s) buf (length s) res =
     (let (res, buf) = (if res \<and> m > length s then func buf (length s) [0] else (res, buf))
      in Some (CborNoError, buf, length s, res, nx))" for func m buf res
    by (subst chunk_loop.simps) (simp add: c last_chunk_def n)
  have loop: "chunk_loop func m it buf 0 True =
     (let (res, buf) = (if m \<ge> length s then func buf 0 s else (False, buf));
          (res, buf) = (if res \<and> m > length s then func buf (length s) [0] else (res, buf))
      in Some (CborNoError, buf, length s, res, nx))" for func m buf
    using d(2) by (subst chunk_loop.simps) (simp add: c last case_prod_unfold Let_def)
  show "copy_string it (Some b) n =
     Some (if length s \<le> n then CborNoError else CborErrorOutOfMemory,
       if n < length s then b else if n = length s then blit b 0 s else blit (blit b 0 s) (length s) [0],
       length s, nx)"
    using t by (auto simp: copy_string_def iterate_string_chunks_def cbor_assert_def loop iterate_memcpy_def)
  show "copy_string it None SIZE_MAX = Some (CborNoError, [], length s, nx)"
    using t d(2) by (auto simp: copy_string_def iterate_string_chunks_def cbor_assert_def loop iterate_noop_def SIZE_MAX_def)
qed

lemma advance_string_written:
  assumes r: "reads it maj (of_nat (length s))" "maj \<in> {ByteStringMajor, TextStringMajor}" "cv_remaining it \<noteq> 0"
    and d: "drop (cv_ptr it) (cv_buf it) = string_bytes maj s @ rest" "length s < 2 ^ 32"
    and n: "preparse_next_value (behind it maj s) = Some (CborNoError, nx)"
  shows "cbor_value_advance it = Some (CborNoError, nx)"
proof -
  have t: "\<not> is_fixed_type (cv_type it)" "\<not> cbor_value_is_container it" "cv_type it \<noteq> CborInvalidType"
    using r(1,2) by (auto simp: reads_def cbor_consts cbor_types is_fixed_type_def cbor_value_is_container_def
        split: if_splits)
  have "advance_recursive k it = advance_string it" for k using t by (cases k) simp_all
  then show ?thesis
    using copy_string_written(2) [OF r(1,2) d n] t r(3)
    by (simp add: cbor_value_advance_def cbor_assert_def advance_string_def)
qed


section \<open>Properties\<close>

text \<open>Appending never leaves the encoder's area: the buffer keeps its length whatever is appended, and
  once the room is used up nothing is written any more and the missing bytes are counted.\<close>

definition enc_safe :: "CborEncoder \<Rightarrow> bool" where
  "enc_safe e \<longleftrightarrow> (\<forall>en. ce_end e = Some en \<longrightarrow> ce_data e \<le> en \<and> en \<le> length (ce_buf e))"

definition enc_missing :: "CborEncoder \<Rightarrow> int" where
  "enc_missing e = (case ce_end e of None \<Rightarrow> int (ce_data e) | Some en \<Rightarrow> int (ce_data e) - int en)"

lemma append_safe:
  assumes "enc_safe e"
  shows "enc_safe (snd (append_to_buffer e d))" "length (ce_buf (snd (append_to_buffer e d))) = length (ce_buf e)"
    "enc_missing (snd (append_to_buffer e d)) = enc_missing e + int (length d)"
    "fst (append_to_buffer e d) = CborNoError \<longleftrightarrow> enc_missing e + int (length d) \<le> 0"
  using assms
  by (auto simp: enc_safe_def enc_missing_def append_to_buffer_def would_overflow_def advance_ptr_def length_blit
      split: option.splits)

lemma append_fold_safe:
  assumes "enc_safe e"
  shows "enc_safe (fold (\<lambda>d e. snd (append_to_buffer e d)) ds e)"
    "length (ce_buf (fold (\<lambda>d e. snd (append_to_buffer e d)) ds e)) = length (ce_buf e)"
    "enc_missing (fold (\<lambda>d e. snd (append_to_buffer e d)) ds e) = enc_missing e + int (length (concat ds))"
  using assms by (induction ds arbitrary: e) (simp_all add: append_safe)



text \<open>Every 32-bit signed integer written by the encoder into a buffer of nine bytes or more is read
  back by the parser.\<close>

theorem cbor_int_round_trip:
  assumes "- (2 ^ 31) \<le> i" "i < 2 ^ 31" "9 \<le> length buf"
  shows "\<exists>e it. cbor_encode_int (cbor_encoder_init buf 0 (length buf) 0) (of_int i) = (CborNoError, e)
    \<and> cbor_parser_init (take (cbor_encoder_get_buffer_size e 0) (ce_buf e)) = Some (CborNoError, it)
    \<and> cbor_value_get_int_checked it = Some (CborNoError, i)"
proof -
  let ?e = "cbor_encoder_init buf 0 (length buf) 0"
  define maj where "maj = (if 0 \<le> i then UnsignedIntegerMajor else NegativeIntegerMajor)"
  define v :: u64 where "v = (if 0 \<le> i then of_int i else of_int (- i - 1))"
  have b: "int_bytes i = number_bytes v maj" by (simp add: int_bytes_def v_def maj_def)
  have len: "length (number_bytes v maj) \<le> 9" by (cases v rule: number_bytes_cases) simp_all
  have m: "maj \<in> set majors" "maj \<noteq> SimpleTypesMajor" by (auto simp: maj_def majors_def cbor_consts)
  have uv: "uint v = (if 0 \<le> i then i else - i - 1)"
  proof -
    have "uint (of_int j :: u64) = j" if "0 \<le> j" "j < 2 ^ 31" for j
      using that by (simp add: unsigned_of_int take_bit_int_eq_self)
    from this [of i] this [of "- i - 1"] show ?thesis using assms(1,2) unfolding v_def by (simp del: of_int_diff of_int_minus)
  qed
  have vle: "\<not> v > 0x7fffffff" using assms(1,2) uv by (auto simp: word_less_def split: if_splits)
  have "room ?e (length (int_bytes i))" using len assms(3) by (simp add: room_def cbor_encoder_init_def b)
  then obtain e where e: "cbor_encode_int ?e (of_int i) = (CborNoError, e)" "wrote ?e (int_bytes i) e"
    using emits_int [of i] assms(1,2) unfolding emits_def by fastforce
  have out: "take (cbor_encoder_get_buffer_size e 0) (ce_buf e) = number_bytes v maj"
    using e(2) by (auto simp: wrote_def enc_out_def cbor_encoder_init_def cbor_encoder_get_buffer_size_def b)
  obtain it where it: "cbor_parser_init (number_bytes v maj) = Some (CborNoError, it)" "reads it maj v"
    using preparse_value_written [of "\<lparr>cv_buf = number_bytes v maj, cv_ptr = 0, cv_remaining = 1, cv_extra = 0,
        cv_type = 0, cv_flags = 0\<rparr>" v maj "[]"] m
    by (auto simp: cbor_parser_init_def)
  have "cbor_value_get_int_checked it = Some (CborNoError, i)"
    using it(2) vle uv
    by (auto simp: cbor_value_get_int_checked_def cbor_assert_def reads_def maj_def cbor_consts cbor_types split: if_splits)
  then show ?thesis using e(1) it(1) by (auto simp: out)
qed

lemma cbor_int_round_trip_witness:
  "\<exists>e it. cbor_encode_int (cbor_encoder_init (replicate 9 0) 0 9 0) (of_int (- 70000)) = (CborNoError, e)
    \<and> cbor_parser_init (take (cbor_encoder_get_buffer_size e 0) (ce_buf e)) = Some (CborNoError, it)
    \<and> cbor_value_get_int_checked it = Some (CborNoError, - 70000)"
  using cbor_int_round_trip [of "- 70000" "replicate 9 0"] by simp

end
