(* ===== verification/Auth_State.thy ===== *)
theory Auth_State
  imports Cbor_Laws
begin

text \<open>
  The authenticator's persistent state: \<open>fido2/inc/state.h\<close>, its CBOR form in \<open>fido2/src/state.c\<close>,
  and the version comparison of \<open>fido2/src/version.c\<close>. A signed byte is an \<open>8 word\<close> read with
  \<open>sint\<close>. The decoder's result is its return value and the structure, which is filled field by
  field also when decoding fails; \<open>None\<close> is a failed assertion of the parser or a loop that does
  not end.
\<close>

section \<open>Versions\<close>

record app_version_t =
  ver_major :: byte
  ver_minor :: byte
  ver_patch :: byte
  ver_reserved :: byte

text \<open>The union's other view: the four bytes as one little-endian word.\<close>

definition version_raw :: "app_version_t \<Rightarrow> u32" where
  "version_raw v = of_nat (of_le [ver_major v, ver_minor v, ver_patch v, ver_reserved v])"

definition version_of_raw :: "u32 \<Rightarrow> app_version_t" where
  "version_of_raw w = \<lparr>ver_major = le32 w ! 0, ver_minor = le32 w ! 1, ver_patch = le32 w ! 2, ver_reserved = le32 w ! 3\<rparr>"

definition version_compare :: "app_version_t \<Rightarrow> app_version_t \<Rightarrow> int" where
  "version_compare a b =
     (if ver_major a \<noteq> ver_major b then uint (ver_major a) - uint (ver_major b)
      else if ver_minor a \<noteq> ver_minor b then uint (ver_minor a) - uint (ver_minor b)
      else uint (ver_patch a) - uint (ver_patch b))"

definition app_version :: app_version_t where
  "app_version = \<lparr>ver_major = 0, ver_minor = 0, ver_patch = 0, ver_reserved = 0\<rparr>"

definition version_get_version :: app_version_t where
  "version_get_version = app_version"

section \<open>The state\<close>

definition STATE_VERSION :: byte where "STATE_VERSION = 1"
definition STATE_MAGIC :: byte where "STATE_MAGIC = 0xA5"
definition STATE_MAGIC_SIZE :: nat where "STATE_MAGIC_SIZE = 1"
definition STATE_MAC_SIZE :: nat where "STATE_MAC_SIZE = 16"
definition STATE_ENVELOPE_BUF_SIZE :: nat where "STATE_ENVELOPE_BUF_SIZE = 192"
definition STATE_PIN_HASH_SIZE :: nat where "STATE_PIN_HASH_SIZE = 16"
definition STATE_PIN_HASH_IV_SIZE :: nat where "STATE_PIN_HASH_IV_SIZE = 16"
definition STATE_KEY_SALT_BYTES :: nat where "STATE_KEY_SALT_BYTES = 64"

lemmas state_sizes = STATE_MAGIC_SIZE_def STATE_MAC_SIZE_def STATE_ENVELOPE_BUF_SIZE_def
  STATE_PIN_HASH_SIZE_def STATE_PIN_HASH_IV_SIZE_def STATE_KEY_SALT_BYTES_def

definition STATE_CBOR_KEY_VERSION :: u64 where "STATE_CBOR_KEY_VERSION = 0"
definition STATE_CBOR_KEY_APP_VERSION :: u64 where "STATE_CBOR_KEY_APP_VERSION = 1"
definition STATE_CBOR_KEY_IS_PIN_SET :: u64 where "STATE_CBOR_KEY_IS_PIN_SET = 10"
definition STATE_CBOR_KEY_REMAINING_TRIES :: u64 where "STATE_CBOR_KEY_REMAINING_TRIES = 11"
definition STATE_CBOR_KEY_PIN_HASH_ENC :: u64 where "STATE_CBOR_KEY_PIN_HASH_ENC = 12"
definition STATE_CBOR_KEY_PIN_HASH_IV :: u64 where "STATE_CBOR_KEY_PIN_HASH_IV = 13"
definition STATE_CBOR_KEY_RK_STORED :: u64 where "STATE_CBOR_KEY_RK_STORED = 20"
definition STATE_CBOR_KEY_KEY_SALT :: u64 where "STATE_CBOR_KEY_KEY_SALT = 30"

lemmas state_keys = STATE_CBOR_KEY_VERSION_def STATE_CBOR_KEY_APP_VERSION_def STATE_CBOR_KEY_IS_PIN_SET_def
  STATE_CBOR_KEY_REMAINING_TRIES_def STATE_CBOR_KEY_PIN_HASH_ENC_def STATE_CBOR_KEY_PIN_HASH_IV_def
  STATE_CBOR_KEY_RK_STORED_def STATE_CBOR_KEY_KEY_SALT_def

record AuthenticatorState =
  st_version :: byte
  st_app_version :: app_version_t
  is_pin_set :: byte
  remaining_tries :: byte
  pin_hash_enc :: bytes
  pin_hash_iv :: bytes
  rk_stored :: u16
  key_salt :: bytes

section \<open>Encoding\<close>

definition state_cbor_calls :: "AuthenticatorState \<Rightarrow> enc_call list" where
  "state_cbor_calls s =
    [\<lambda>e. cbor_encode_uint e STATE_CBOR_KEY_VERSION,
     \<lambda>e. cbor_encode_uint e (ucast (st_version s)),
     \<lambda>e. cbor_encode_uint e STATE_CBOR_KEY_APP_VERSION,
     \<lambda>e. cbor_encode_uint e (ucast (version_raw (st_app_version s))),
     \<lambda>e. cbor_encode_uint e STATE_CBOR_KEY_IS_PIN_SET,
     \<lambda>e. cbor_encode_uint e (ucast (is_pin_set s)),
     \<lambda>e. cbor_encode_uint e STATE_CBOR_KEY_REMAINING_TRIES,
     \<lambda>e. cbor_encode_int e (scast (remaining_tries s)),
     \<lambda>e. cbor_encode_uint e STATE_CBOR_KEY_PIN_HASH_ENC,
     \<lambda>e. cbor_encode_byte_string e (take STATE_PIN_HASH_SIZE (pin_hash_enc s)),
     \<lambda>e. cbor_encode_uint e STATE_CBOR_KEY_PIN_HASH_IV,
     \<lambda>e. cbor_encode_byte_string e (take STATE_PIN_HASH_IV_SIZE (pin_hash_iv s)),
     \<lambda>e. cbor_encode_uint e STATE_CBOR_KEY_RK_STORED,
     \<lambda>e. cbor_encode_uint e (ucast (rk_stored s)),
     \<lambda>e. cbor_encode_uint e STATE_CBOR_KEY_KEY_SALT,
     \<lambda>e. cbor_encode_byte_string e (take STATE_KEY_SALT_BYTES (key_salt s))]"

text \<open>\<open>off\<close> and \<open>buf_len\<close> are the area in \<open>buf\<close>; the result is the error, the buffer and
  the encoded length.\<close>

definition state_cbor_encode :: "bytes \<Rightarrow> nat \<Rightarrow> nat \<Rightarrow> AuthenticatorState \<Rightarrow> CborError \<times> bytes \<times> nat" where
  "state_cbor_encode buf off buf_len s =
     (let (err, e) = enc_map 8 (state_cbor_calls s) (cbor_encoder_init buf off buf_len 0)
      in if err \<noteq> CborNoError then (err, ce_buf e, 0)
         else (CborNoError, ce_buf e, cbor_encoder_get_buffer_size e off))"

section \<open>Decoding\<close>

text \<open>The getters return \<open>bool\<close>, so the negative codes arrive as 1: the result is whether the getter
  failed, and the value.\<close>

definition get_u8 :: "CborValue \<Rightarrow> (bool \<times> byte) option" where
  "get_u8 it = do { tmp \<leftarrow> cbor_value_get_uint64 it; Some (tmp > 0xff, ucast tmp) }"

definition get_u16 :: "CborValue \<Rightarrow> (bool \<times> u16) option" where
  "get_u16 it = do { tmp \<leftarrow> cbor_value_get_uint64 it; Some (tmp > 0xffff, ucast tmp) }"

definition get_u32 :: "CborValue \<Rightarrow> (bool \<times> u32) option" where
  "get_u32 it = do { tmp \<leftarrow> cbor_value_get_uint64 it; Some (tmp > 0xffffffff, ucast tmp) }"

definition get_i8 :: "CborValue \<Rightarrow> (bool \<times> byte) option" where
  "get_i8 it = do { tmp \<leftarrow> cbor_value_get_int64 it; Some (sint tmp < - 128 \<or> sint tmp > 127, ucast tmp) }"

text \<open>One key of the switch: \<open>Inl r\<close> is an early return of \<open>r\<close>, \<open>Inr\<close> goes on with the
  structure and the iterator.\<close>

type_synonym decode_result = "(int + CborValue) \<times> AuthenticatorState"

definition state_byte_string ::
  "CborValue \<Rightarrow> bytes \<Rightarrow> nat \<Rightarrow> (bytes \<Rightarrow> AuthenticatorState) \<Rightarrow> decode_result option" where
  "state_byte_string it old n put = do {
     (err, buf, _) \<leftarrow> cbor_value_copy_byte_string it old n;
     Some (if err \<noteq> CborNoError then Inl (- 2) else Inr it, put buf) }"

definition state_decode_key :: "u64 \<Rightarrow> CborValue \<Rightarrow> AuthenticatorState \<Rightarrow> decode_result option" where
  "state_decode_key key it s =
     (if key = STATE_CBOR_KEY_VERSION then do {
        (fail, v) \<leftarrow> get_u8 it;
        Some (if fail then (Inl 1, s)
              else (if v \<noteq> STATE_VERSION then Inl (- 1) else Inr it, s\<lparr>st_version := v\<rparr>)) }
      else if key = STATE_CBOR_KEY_APP_VERSION then do {
        (fail, v) \<leftarrow> get_u32 it;
        Some (if fail then (Inl 1, s) else (Inr it, s\<lparr>st_app_version := version_of_raw v\<rparr>)) }
      else if key = STATE_CBOR_KEY_IS_PIN_SET then do {
        (fail, v) \<leftarrow> get_u8 it;
        Some (if fail then (Inl 1, s) else (Inr it, s\<lparr>is_pin_set := v\<rparr>)) }
      else if key = STATE_CBOR_KEY_REMAINING_TRIES then do {
        (fail, v) \<leftarrow> get_i8 it;
        Some (if fail then (Inl 1, s) else (Inr it, s\<lparr>remaining_tries := v\<rparr>)) }
      else if key = STATE_CBOR_KEY_PIN_HASH_ENC
      then state_byte_string it (pin_hash_enc s) STATE_PIN_HASH_SIZE (\<lambda>b. s\<lparr>pin_hash_enc := b\<rparr>)
      else if key = STATE_CBOR_KEY_PIN_HASH_IV
      then state_byte_string it (pin_hash_iv s) STATE_PIN_HASH_IV_SIZE (\<lambda>b. s\<lparr>pin_hash_iv := b\<rparr>)
      else if key = STATE_CBOR_KEY_RK_STORED then do {
        (fail, v) \<leftarrow> get_u16 it;
        Some (if fail then (Inl 1, s) else (Inr it, s\<lparr>rk_stored := v\<rparr>)) }
      else if key = STATE_CBOR_KEY_KEY_SALT
      then state_byte_string it (key_salt s) STATE_KEY_SALT_BYTES (\<lambda>b. s\<lparr>key_salt := b\<rparr>)
      else do { (err, it) \<leftarrow> cbor_value_advance it; Some (Inr it, s) })"

text \<open>The loop; the errors of the advances are dropped.\<close>

partial_function (option) state_decode_loop ::
  "CborValue \<Rightarrow> AuthenticatorState \<Rightarrow> (int \<times> AuthenticatorState) option" where
  "state_decode_loop it s =
     (if cbor_value_at_end it then Some (0, s)
      else Option.bind (cbor_value_get_uint64 it) (\<lambda>key.
        Option.bind (cbor_value_advance it) (\<lambda>(err, it).
        Option.bind (state_decode_key key it s) (\<lambda>(r, s).
          case r of Inl ret \<Rightarrow> Some (ret, s)
          | Inr it \<Rightarrow> Option.bind (cbor_value_advance it) (\<lambda>(err, it). state_decode_loop it s)))))"

declare state_decode_loop.simps [code]

definition state_cbor_decode :: "AuthenticatorState \<Rightarrow> bytes \<Rightarrow> (int \<times> AuthenticatorState) option" where
  "state_cbor_decode s buf = do {
     (err, it) \<leftarrow> cbor_parser_init buf;
     if err \<noteq> CborNoError then Some (- 2, s)
     else do {
       (err, map) \<leftarrow> cbor_value_enter_container it;
       if err \<noteq> CborNoError then Some (- 2, s) else state_decode_loop map s } }"

end
