(* ===== verification/State_Laws.thy ===== *)
theory State_Laws
  imports Auth_State
begin

text \<open>
  Encoding and decoding the authenticator's state are inverse. The proof reads the written map pair by
  pair: \<open>stores k w s s'\<close> says what the decoder's switch does with the value \<open>w\<close> of key \<open>k\<close>,
  and \<open>decode_loop_written\<close> runs the loop over any list of such pairs.
\<close>

section \<open>A value after a key\<close>

text \<open>The values of the map: numbers and byte strings.\<close>

datatype wval = WNum byte u64 | WStr bytes

fun wbytes :: "wval \<Rightarrow> bytes" where
  "wbytes (WNum maj v) = number_bytes v maj"
| "wbytes (WStr s) = string_bytes ByteStringMajor s"

fun whead :: "wval \<Rightarrow> byte \<times> u64" where
  "whead (WNum maj v) = (maj, v)"
| "whead (WStr s) = (ByteStringMajor, of_nat (length s))"

fun wok :: "wval \<Rightarrow> bool" where
  "wok (WNum maj v) = (maj \<in> {UnsignedIntegerMajor, NegativeIntegerMajor})"
| "wok (WStr s) = (length s < 2 ^ 32)"

definition wreads :: "CborValue \<Rightarrow> wval \<Rightarrow> bytes \<Rightarrow> bool" where
  "wreads it w rest \<longleftrightarrow> reads it (fst (whead w)) (snd (whead w)) \<and> wok w
     \<and> drop (cv_ptr it) (cv_buf it) = wbytes w @ rest"

lemma whead_major:
  "wok w \<Longrightarrow> fst (whead w) \<in> set majors" "wok w \<Longrightarrow> fst (whead w) \<noteq> SimpleTypesMajor"
  "wok w \<Longrightarrow> fst (whead w) \<noteq> TagMajor"
  by (cases w; auto simp: majors_def cbor_consts)+

lemma wbytes_head: "\<exists>rest. wbytes w = number_bytes (snd (whead w)) (fst (whead w)) @ rest"
  by (cases w) (auto simp: string_bytes_def)

lemma wreads_not_tag: "wreads it w rest \<Longrightarrow> cv_type it \<noteq> CborTagType"
  using whead_major(3) [of w] by (auto simp: wreads_def reads_def cbor_consts cbor_types split: if_splits)

text \<open>The iterator behind a value, before the next item is parsed.\<close>

definition wbehind :: "CborValue \<Rightarrow> wval \<Rightarrow> CborValue" where
  "wbehind it w = (case w of WNum maj v \<Rightarrow> it\<lparr>cv_ptr := cv_ptr it + length (wbytes w)\<rparr>
     | WStr s \<Rightarrow> behind it ByteStringMajor s)"

lemma wbehind_simps [simp]:
  "cv_buf (wbehind it w) = cv_buf it" "cv_ptr (wbehind it w) = cv_ptr it + length (wbytes w)"
  "cv_remaining (wbehind it w) = cv_remaining it" "cv_type (wbehind it w) = cv_type it"
  by (cases w; simp add: wbehind_def behind_def)+

lemma advance_value:
  assumes "wreads it w rest" "cv_remaining it \<noteq> 0" "preparse_next_value (wbehind it w) = Some (CborNoError, nx)"
  shows "cbor_value_advance it = Some (CborNoError, nx)"
proof (cases w)
  case (WNum maj v)
  then show ?thesis using assms advance_number [of it maj v rest] by (auto simp: wreads_def wbehind_def)
next
  case (WStr s)
  then show ?thesis
    using assms advance_string_written [of it ByteStringMajor s rest nx] by (auto simp: wreads_def wbehind_def)
qed

lemma wreads_next:
  assumes "wreads it w (wbytes w' @ rest)" "wok w'" "unat (cv_remaining it) = Suc (Suc k)" "cv_remaining it \<noteq> UINT32_MAX"
  shows "\<exists>it'. preparse_next_value (wbehind it w) = Some (CborNoError, it') \<and> wreads it' w' rest
    \<and> cv_buf it' = cv_buf it \<and> unat (cv_remaining it') = Suc k \<and> cv_remaining it' \<noteq> UINT32_MAX"
proof -
  have d: "drop (cv_ptr it) (cv_buf it) = wbytes w @ wbytes w' @ rest" using assms(1) by (simp add: wreads_def)
  have d2: "drop (cv_ptr it + length (wbytes w)) (cv_buf it) = wbytes w' @ rest"
  proof -
    have "drop (cv_ptr it + length (wbytes w)) (cv_buf it) = drop (length (wbytes w)) (drop (cv_ptr it) (cv_buf it))"
      by (simp add: add.commute)
    then show ?thesis unfolding d by simp
  qed
  obtain r2 where h: "wbytes w' = number_bytes (snd (whead w')) (fst (whead w')) @ r2" using wbytes_head by blast
  show ?thesis
    using preparse_next_written [of "wbehind it w" "snd (whead w')" "fst (whead w')" "r2 @ rest" k]
      d2 h whead_major [OF assms(2)] assms(2-) wreads_not_tag [OF assms(1)]
    by (auto simp: wreads_def)
qed

lemma wreads_last:
  assumes "wreads it w rest" "cv_remaining it = 1"
  shows "\<exists>it'. preparse_next_value (wbehind it w) = Some (CborNoError, it') \<and> cbor_value_at_end it'"
  using preparse_next_end [of "wbehind it w"] assms wreads_not_tag [OF assms(1)]
  by (simp add: cbor_value_at_end_def)

section \<open>The decoder on a written map\<close>

text \<open>Storing one value: what the switch does with it.\<close>

definition stores :: "u64 \<Rightarrow> wval \<Rightarrow> AuthenticatorState \<Rightarrow> AuthenticatorState \<Rightarrow> bool" where
  "stores k w s s' \<longleftrightarrow> (\<forall>it rest nx. wreads it w rest \<longrightarrow>
     preparse_next_value (wbehind it w) = Some (CborNoError, nx) \<longrightarrow> state_decode_key k it s = Some (Inr it, s'))"

fun pair_bytes :: "(u64 \<times> wval) \<Rightarrow> bytes" where
  "pair_bytes (k, w) = number_bytes k UnsignedIntegerMajor @ wbytes w"

inductive stores_all :: "(u64 \<times> wval) list \<Rightarrow> AuthenticatorState \<Rightarrow> AuthenticatorState \<Rightarrow> bool" where
  stores_nil: "stores_all [] s s"
| stores_cons: "stores k w s s1 \<Longrightarrow> wok w \<Longrightarrow> stores_all ps s1 s' \<Longrightarrow> stores_all ((k, w) # ps) s s'"

lemma decode_loop_written:
  assumes "stores_all ps s s'" "ps \<noteq> []"
    "wreads it (WNum UnsignedIntegerMajor (fst (hd ps))) rest" "wbytes (WNum UnsignedIntegerMajor (fst (hd ps))) @ rest = concat (map pair_bytes ps) @ tail"
    "unat (cv_remaining it) = 2 * length ps" "cv_remaining it \<noteq> UINT32_MAX"
  shows "state_decode_loop it s = Some (0, s')"
  using assms
proof (induction arbitrary: it rest rule: stores_all.induct)
  case (stores_nil s)
  then show ?case by simp
next
  case (stores_cons k w s s1 ps s')
  let ?k = "WNum UnsignedIntegerMajor k"
  have rest: "rest = wbytes w @ concat (map pair_bytes ps) @ tail" using stores_cons.prems(3) by simp
  have r: "wreads it ?k (wbytes w @ concat (map pair_bytes ps) @ tail)" using stores_cons.prems(2) rest by simp
  have rem: "unat (cv_remaining it) = Suc (Suc (2 * length ps))" using stores_cons.prems(4) by simp
  then have nz: "cv_remaining it \<noteq> 0" by auto
  obtain it1 where 1: "preparse_next_value (wbehind it ?k) = Some (CborNoError, it1)"
    "wreads it1 w (concat (map pair_bytes ps) @ tail)" "unat (cv_remaining it1) = Suc (2 * length ps)" "cv_remaining it1 \<noteq> UINT32_MAX"
    using wreads_next [OF r stores_cons.hyps(2) rem stores_cons.prems(5)] by auto
  have a1: "cbor_value_advance it = Some (CborNoError, it1)" by (rule advance_value [OF r nz 1(1)])
  have key: "cbor_value_get_uint64 it = Some k"
    using r by (simp add: wreads_def reads_def cbor_value_get_uint64_def cbor_assert_def cbor_consts cbor_types)
  have nz1: "cv_remaining it1 \<noteq> 0" using 1(3) by auto
  have eq: "state_decode_loop it s = state_decode_loop nx s1"
    if "preparse_next_value (wbehind it1 w) = Some (CborNoError, nx)" for nx
  proof -
    have "state_decode_key k it1 s = Some (Inr it1, s1)"
      using stores_cons.hyps(1) 1(2) that unfolding stores_def by blast
    then show ?thesis
      using nz key a1 advance_value [OF 1(2) nz1 that]
      by (subst state_decode_loop.simps) (simp add: cbor_value_at_end_def)
  qed
  show ?case
  proof (cases ps)
    case Nil
    then have "cv_remaining it1 = 1" using 1(3) by (simp add: word_unat_eq_iff)
    then obtain nx where nx: "preparse_next_value (wbehind it1 w) = Some (CborNoError, nx)" "cbor_value_at_end nx"
      using wreads_last [OF 1(2)] by blast
    have "s1 = s'" using stores_cons.hyps(3) Nil by (auto elim: stores_all.cases)
    then show ?thesis using eq [OF nx(1)] nx(2) by (simp add: state_decode_loop.simps [of nx])
  next
    case (Cons p ps')
    obtain k' w' where p: "p = (k', w')" by (cases p)
    let ?r = "wbytes w' @ concat (map pair_bytes ps') @ tail"
    have r1: "wreads it1 w (wbytes (WNum UnsignedIntegerMajor k') @ ?r)" using 1(2) Cons p by simp
    have rem1: "unat (cv_remaining it1) = Suc (Suc (Suc (2 * length ps')))" using 1(3) Cons by simp
    obtain nx where nx: "preparse_next_value (wbehind it1 w) = Some (CborNoError, nx)"
      "wreads nx (WNum UnsignedIntegerMajor k') ?r" "unat (cv_remaining nx) = Suc (Suc (2 * length ps'))"
      "cv_remaining nx \<noteq> UINT32_MAX"
      using wreads_next [OF r1 _ rem1 1(4)] by auto
    have "state_decode_loop nx s1 = Some (0, s')"
      using nx Cons p by (intro stores_cons.IH [of nx ?r]) auto
    then show ?thesis using eq [OF nx(1)] by simp
  qed
qed


section \<open>The fields\<close>

lemma get_uint64_written: "wreads it (WNum UnsignedIntegerMajor v) rest \<Longrightarrow> cbor_value_get_uint64 it = Some v"
  by (simp add: wreads_def reads_def cbor_value_get_uint64_def cbor_assert_def cbor_consts cbor_types)

lemma unat_ucast_less:
  fixes w :: "'a::len word"
  assumes "LENGTH('a) \<le> LENGTH('b::len)"
  shows "unat (ucast w :: 'b word) < 2 ^ LENGTH('a)"
  by (simp add: unat_ucast_up [OF assms] unsigned_less)

text \<open>A signed byte as it is written: its major type and number.\<close>

definition i8_val :: "byte \<Rightarrow> wval" where
  "i8_val b = (if 0 \<le> sint b then WNum UnsignedIntegerMajor (of_int (sint b))
     else WNum NegativeIntegerMajor (of_int (- sint b - 1)))"

lemma get_i8_written:
  assumes "wreads it (i8_val b) rest"
  shows "get_i8 it = Some (False, b)"
proof -
  have r: "- 128 \<le> sint b" "sint b < 128" using sint_greater_eq [of b] sint_less [of b] by simp_all
  have i: "cbor_value_get_int64 it = Some (of_int (sint b))"
  proof (cases "0 \<le> sint b")
    case True
    then show ?thesis
      using assms by (auto simp: i8_val_def wreads_def reads_def cbor_value_get_int64_def cbor_assert_def cbor_consts
          cbor_types)
  next
    case False
    then show ?thesis
      using assms by (auto simp: i8_val_def wreads_def reads_def cbor_value_get_int64_def cbor_assert_def cbor_consts
          cbor_types)
  qed
  have "sint (of_int j :: u64) = j" if "- 128 \<le> j" "j < 128" for j
    using that by (simp add: signed_of_int signed_take_bit_int_eq_self)
  from this [OF r] have s: "sint (scast b :: u64) = sint b" by simp
  have "ucast (scast b :: u64) = b" by (rule bit_word_eqI) (simp add: bit_simps)
  then show ?thesis using r by (simp add: get_i8_def i s)
qed

lemma version_raw_round: "version_of_raw (version_raw v) = v"
  by (simp add: version_of_raw_def version_raw_def le32_of_le)


lemma copy_bytes_written:
  assumes "wreads it (WStr d) rest" "preparse_next_value (wbehind it (WStr d)) = Some (CborNoError, nx)"
    "length old = length d" "n = length d"
  shows "cbor_value_copy_byte_string it old n = Some (CborNoError, d, n)"
proof -
  have "cv_type it = CborByteStringType"
    using assms(1) by (simp add: wreads_def reads_def cbor_consts cbor_types)
  moreover have "blit old 0 d = d" using assms(3) by (simp add: blit_def)
  ultimately show ?thesis
    using copy_string_written(1) [of it ByteStringMajor d rest nx old n] assms
    by (simp add: wreads_def wbehind_def cbor_value_copy_byte_string_def cbor_assert_def)
qed

definition state_ok :: "AuthenticatorState \<Rightarrow> bool" where
  "state_ok s \<longleftrightarrow> length (pin_hash_enc s) = 16 \<and> length (pin_hash_iv s) = 16 \<and> length (key_salt s) = 64"

lemma narrow_byte: "\<not> (0xff :: u64) < ucast (b :: byte)" "ucast (ucast b :: u64) = b"
  using unat_ucast_less [of b, where ?'b = 64]
  by (simp_all add: word_less_nat_alt word_unat_eq_iff unat_ucast_byte) (simp add: unat_ucast_up byte_less_256)

lemma narrow_u16: "\<not> (0xffff :: u64) < ucast (b :: u16)" "ucast (ucast b :: u64) = b"
  using unat_ucast_less [of b, where ?'b = 64] by (simp add: word_less_nat_alt)
    (rule bit_word_eqI, auto simp: bit_simps)

lemma narrow_u32: "\<not> (0xffffffff :: u64) < ucast (b :: u32)" "ucast (ucast b :: u64) = b"
  using unat_ucast_less [of b, where ?'b = 64] by (simp add: word_less_nat_alt)
    (rule bit_word_eqI, auto simp: bit_simps)

lemma stores_fields:
  "v = STATE_VERSION \<Longrightarrow> stores STATE_CBOR_KEY_VERSION (WNum UnsignedIntegerMajor (ucast v)) s (s\<lparr>st_version := v\<rparr>)"
  "stores STATE_CBOR_KEY_APP_VERSION (WNum UnsignedIntegerMajor (ucast (version_raw a))) s (s\<lparr>st_app_version := a\<rparr>)"
  "stores STATE_CBOR_KEY_IS_PIN_SET (WNum UnsignedIntegerMajor (ucast b)) s (s\<lparr>is_pin_set := b\<rparr>)"
  "stores STATE_CBOR_KEY_REMAINING_TRIES (i8_val t) s (s\<lparr>remaining_tries := t\<rparr>)"
  "stores STATE_CBOR_KEY_RK_STORED (WNum UnsignedIntegerMajor (ucast k)) s (s\<lparr>rk_stored := k\<rparr>)"
  unfolding stores_def state_decode_key_def get_u8_def get_u16_def get_u32_def
  by (simp_all add: get_uint64_written get_i8_written narrow_byte narrow_u16 narrow_u32 state_keys version_raw_round)

lemma stores_strings:
  "length (pin_hash_enc s) = 16 \<Longrightarrow> length d = 16 \<Longrightarrow> stores STATE_CBOR_KEY_PIN_HASH_ENC (WStr d) s (s\<lparr>pin_hash_enc := d\<rparr>)"
  "length (pin_hash_iv s) = 16 \<Longrightarrow> length d = 16 \<Longrightarrow> stores STATE_CBOR_KEY_PIN_HASH_IV (WStr d) s (s\<lparr>pin_hash_iv := d\<rparr>)"
  "length (key_salt s) = 64 \<Longrightarrow> length d = 64 \<Longrightarrow> stores STATE_CBOR_KEY_KEY_SALT (WStr d) s (s\<lparr>key_salt := d\<rparr>)"
  unfolding stores_def state_decode_key_def state_byte_string_def
  by (auto simp: copy_bytes_written state_keys state_sizes)


section \<open>The round trip\<close>

text \<open>The pairs of the map, in the order they are written.\<close>

definition state_pairs :: "AuthenticatorState \<Rightarrow> (u64 \<times> wval) list" where
  "state_pairs s =
    [(STATE_CBOR_KEY_VERSION, WNum UnsignedIntegerMajor (ucast (st_version s))),
     (STATE_CBOR_KEY_APP_VERSION, WNum UnsignedIntegerMajor (ucast (version_raw (st_app_version s)))),
     (STATE_CBOR_KEY_IS_PIN_SET, WNum UnsignedIntegerMajor (ucast (is_pin_set s))),
     (STATE_CBOR_KEY_REMAINING_TRIES, i8_val (remaining_tries s)),
     (STATE_CBOR_KEY_PIN_HASH_ENC, WStr (pin_hash_enc s)),
     (STATE_CBOR_KEY_PIN_HASH_IV, WStr (pin_hash_iv s)),
     (STATE_CBOR_KEY_RK_STORED, WNum UnsignedIntegerMajor (ucast (rk_stored s))),
     (STATE_CBOR_KEY_KEY_SALT, WStr (key_salt s))]"

lemma emits_i8: "emits (\<lambda>e. cbor_encode_int e (scast b)) (wbytes (i8_val b))"
proof -
  have r: "- 128 \<le> sint b" "sint b < 128" using sint_greater_eq [of b] sint_less [of b] by simp_all
  have "emits (\<lambda>e. cbor_encode_int e (of_int (sint b))) (int_bytes (sint b))"
    using r by (intro emits_int) auto
  then show ?thesis by (cases "0 \<le> sint b") (simp_all add: i8_val_def int_bytes_def)
qed

lemma state_calls_emit:
  assumes "state_ok s"
  shows "list_all2 emits (state_cbor_calls s)
    (concat (map (\<lambda>(k, w). [number_bytes k UnsignedIntegerMajor, wbytes w]) (state_pairs s)))"
  using assms by (simp add: state_cbor_calls_def state_pairs_def emits_uint emits_i8 emits_bytes state_ok_def state_sizes)

lemma state_stores:
  assumes "state_ok s" "state_ok s0" "st_version s = STATE_VERSION"
  shows "stores_all (state_pairs s) s0 s"
proof -
  have w: "wok (i8_val b)" for b by (simp add: i8_val_def)
  have "stores_all (state_pairs s) s0 (s0\<lparr>st_version := st_version s, st_app_version := st_app_version s,
      is_pin_set := is_pin_set s, remaining_tries := remaining_tries s, pin_hash_enc := pin_hash_enc s,
      pin_hash_iv := pin_hash_iv s, rk_stored := rk_stored s, key_salt := key_salt s\<rparr>)"
    unfolding state_pairs_def
    apply (rule stores_cons [OF stores_fields(1) [OF assms(3)]], simp)
    apply (rule stores_cons [OF stores_fields(2)], simp)
    apply (rule stores_cons [OF stores_fields(3)], simp)
    apply (rule stores_cons [OF stores_fields(4)], rule w)
    apply (rule stores_cons [OF stores_strings(1)])
       apply (use assms in \<open>simp_all add: state_ok_def\<close>) [3]
    apply (rule stores_cons [OF stores_strings(2)])
       apply (use assms in \<open>simp_all add: state_ok_def\<close>) [3]
    apply (rule stores_cons [OF stores_fields(5)], simp)
    apply (rule stores_cons [OF stores_strings(3)])
       apply (use assms in \<open>simp_all add: state_ok_def\<close>) [3]
    apply (rule stores_nil)
    done
  moreover have "s0\<lparr>st_version := st_version s, st_app_version := st_app_version s,
      is_pin_set := is_pin_set s, remaining_tries := remaining_tries s, pin_hash_enc := pin_hash_enc s,
      pin_hash_iv := pin_hash_iv s, rk_stored := rk_stored s, key_salt := key_salt s\<rparr> = s" by simp
  ultimately show ?thesis by (simp only:)
qed

lemma length_number_bytes:
  "unat v < 24 \<Longrightarrow> length (number_bytes v maj) = 1" "unat v < 2 ^ 8 \<Longrightarrow> length (number_bytes v maj) \<le> 2"
  "unat v < 2 ^ 16 \<Longrightarrow> length (number_bytes v maj) \<le> 3" "unat v < 2 ^ 32 \<Longrightarrow> length (number_bytes v maj) \<le> 5"
  "24 \<le> unat v \<Longrightarrow> unat v < 2 ^ 8 \<Longrightarrow> length (number_bytes v maj) = 2"
  by (cases v rule: number_bytes_cases; simp)+

text \<open>The encoding of a state fits well into its envelope.\<close>

definition state_bytes :: "AuthenticatorState \<Rightarrow> bytes" where
  "state_bytes s = number_bytes 8 MapMajor @ concat (map pair_bytes (state_pairs s))"

lemma length_i8: "length (wbytes (i8_val b)) \<le> 2"
proof -
  have r: "- 128 \<le> sint b" "sint b < 128" using sint_greater_eq [of b] sint_less [of b] by simp_all
  have "unat (of_int j :: u64) < 2 ^ 8" if "0 \<le> j" "j < 128" for j
  proof -
    have "(of_int j :: u64) = of_nat (nat j)" using that by simp
    then show ?thesis using that unat_of_nat_small [of "nat j", where ?'a = 64] by simp
  qed
  from this [of "sint b"] this [of "- sint b - 1"] show ?thesis
    using r by (cases "0 \<le> sint b") (auto simp: i8_val_def intro!: length_number_bytes(2))
qed

lemma length_state_bytes:
  assumes "state_ok s"
  shows "length (state_bytes s) \<le> 124"
proof -
  have a: "length (number_bytes (ucast (version_raw (st_app_version s))) UnsignedIntegerMajor) \<le> 5"
    using unat_ucast_less [of "version_raw (st_app_version s)", where ?'b = 64]
    by (intro length_number_bytes(4)) simp
  have b: "length (number_bytes (ucast x) UnsignedIntegerMajor) \<le> 2" for x :: byte
    using unat_ucast_less [of x, where ?'b = 64] by (intro length_number_bytes(2)) simp
  have c: "length (number_bytes (ucast (rk_stored s)) UnsignedIntegerMajor) \<le> 3"
    using unat_ucast_less [of "rk_stored s", where ?'b = 64] by (intro length_number_bytes(3)) simp
  have k: "length (number_bytes 8 MapMajor) = 1" "length (number_bytes 0 m) = 1" "length (number_bytes 1 m) = 1"
    "length (number_bytes 10 m) = 1" "length (number_bytes 11 m) = 1" "length (number_bytes 12 m) = 1"
    "length (number_bytes 13 m) = 1" "length (number_bytes 20 m) = 1" "length (number_bytes 16 m) = 1"
    "length (number_bytes 30 m) = 2" "length (number_bytes 64 m) = 2" for m
    by (simp_all add: length_number_bytes)
  show ?thesis
    using assms a b [of "st_version s"] b [of "is_pin_set s"] c length_i8 [of "remaining_tries s"]
    by (simp add: state_bytes_def state_pairs_def string_bytes_def state_ok_def state_keys k)
qed


lemma enter_map_written:
  assumes "reads it MapMajor n" "drop (cv_ptr it) (cv_buf it) = number_bytes n MapMajor @ wbytes w @ rest"
    "n \<noteq> 0" "unat n < 2 ^ 31" "wok w"
  shows "\<exists>rec. cbor_value_enter_container it = Some (CborNoError, rec) \<and> wreads rec w rest
    \<and> unat (cv_remaining rec) = 2 * unat n \<and> cv_remaining rec \<noteq> UINT32_MAX"
proof -
  let ?len = "length (number_bytes n MapMajor)"
  have m: "MapMajor \<in> set majors" by (simp add: majors_def cbor_consts)
  have t: "cv_type it = CborMapType" "cbor_value_is_container it" "cv_flags it AND Flag_UnknownLength = 0"
    using assms(1) by (auto simp: reads_def cbor_consts cbor_types cbor_value_is_container_def
        cbor_value_is_length_known_def)
  have x: "extract_number (cv_buf it) (cv_ptr it) = Some (CborNoError, cv_ptr it + ?len, n)"
    using extract_number_written(1) [OF assms(2) m] .
  have un: "unat (ucast n :: u32) = unat n"
    using assms(4) by (simp add: unsigned_ucast_eq take_bit_nat_eq_self)
  then have u: "ucast (ucast n :: u32) = n" by (simp add: word_unat_eq_iff unat_ucast_up)
  have nm: "n \<noteq> ucast UINT32_MAX" using assms(4) by (auto simp: UINT32_MAX_def)
  have le: "\<not> (0x7fffffff :: u32) < ucast n" using assms(4) un by (simp add: word_less_nat_alt)
  have c: "unat (ucast n * 2 :: u32) = 2 * unat n" "(ucast n * 2 :: u32) \<noteq> UINT32_MAX"
    using map_count [of "ucast n" n True] u nm le by (auto simp: not_less)
  let ?rec = "it\<lparr>cv_ptr := cv_ptr it + ?len, cv_remaining := ucast n * 2\<rparr>"
  have en: "cbor_value_enter_container it = preparse_value ?rec"
    using t x u nm le assms(3) c(2)
    by (simp add: cbor_value_enter_container_def cbor_assert_def Let_def preparse_next_value_nodecrement_def)
  obtain r2 where h: "wbytes w = number_bytes (snd (whead w)) (fst (whead w)) @ r2" using wbytes_head by blast
  have "drop (cv_ptr it + ?len) (cv_buf it) = drop ?len (drop (cv_ptr it) (cv_buf it))" by (simp add: add.commute)
  then have d: "drop (cv_ptr ?rec) (cv_buf ?rec) = wbytes w @ rest" using assms(2) by simp
  show ?thesis
    using preparse_value_written [of ?rec "snd (whead w)" "fst (whead w)" "r2 @ rest"] d h whead_major [OF assms(5)]
      assms(5) c en
    by (auto simp: wreads_def)
qed

lemma state_decode_written:
  assumes "state_ok s" "state_ok s0" "st_version s = STATE_VERSION"
  shows "state_cbor_decode s0 (state_bytes s) = Some (0, s)"
proof -
  let ?it = "\<lparr>cv_buf = state_bytes s, cv_ptr = 0, cv_remaining = 1, cv_extra = 0, cv_type = 0, cv_flags = 0\<rparr>"
  let ?k = "WNum UnsignedIntegerMajor STATE_CBOR_KEY_VERSION"
  have ps: "state_pairs s \<noteq> []" "fst (hd (state_pairs s)) = STATE_CBOR_KEY_VERSION" "length (state_pairs s) = 8"
    by (simp_all add: state_pairs_def)
  obtain rest where rest: "concat (map pair_bytes (state_pairs s)) = wbytes ?k @ rest"
    by (simp add: state_pairs_def)
  obtain it where it: "preparse_value ?it = Some (CborNoError, it)" "reads it MapMajor 8" "cv_ptr it = 0"
    "cv_buf it = state_bytes s"
    using preparse_value_written [of ?it 8 MapMajor "concat (map pair_bytes (state_pairs s))"]
    by (auto simp: state_bytes_def majors_def cbor_consts)
  obtain rec where rec: "cbor_value_enter_container it = Some (CborNoError, rec)" "wreads rec ?k rest"
    "unat (cv_remaining rec) = 16" "cv_remaining rec \<noteq> UINT32_MAX"
    using enter_map_written [OF it(2), of ?k rest] it(3,4) rest by (auto simp: state_bytes_def)
  have "state_decode_loop rec s0 = Some (0, s)"
    using decode_loop_written [OF state_stores [OF assms] ps(1), of rec rest "[]"] rec ps(2,3) rest by simp
  then show ?thesis by (simp add: state_cbor_decode_def cbor_parser_init_def it(1) rec(1))
qed

lemma state_encode_written:
  assumes "state_ok s" "124 \<le> n" "off + n \<le> length buf"
  shows "\<exists>buf'. state_cbor_encode buf off n s = (CborNoError, buf', length (state_bytes s))
    \<and> length buf' = length buf \<and> take off buf' = take off buf \<and> slice off (length (state_bytes s)) buf' = state_bytes s"
proof -
  let ?e = "cbor_encoder_init buf off n 0"
  have l: "length (state_bytes s) \<le> 124" by (rule length_state_bytes [OF assms(1)])
  have cs: "concat (concat (map (\<lambda>(k, w). [number_bytes k UnsignedIntegerMajor, wbytes w]) ps)) = concat (map pair_bytes ps)"
    for ps by (induction ps) auto
  have "emits (enc_map 8 (state_cbor_calls s)) (state_bytes s)"
    using enc_map_emits [OF _ state_calls_emit [OF assms(1)], of 8]
    by (simp add: cs state_bytes_def) (simp add: state_cbor_calls_def)
  moreover have "room ?e (length (state_bytes s))" using l assms(2,3) by (simp add: room_def cbor_encoder_init_def)
  ultimately obtain e where e: "enc_map 8 (state_cbor_calls s) ?e = (CborNoError, e)" "wrote ?e (state_bytes s) e"
    unfolding emits_def by blast
  have w: "take (off + length (state_bytes s)) (ce_buf e) = take off buf @ state_bytes s"
    "ce_data e = off + length (state_bytes s)" "length (ce_buf e) = length buf"
    using e(2) by (auto simp: wrote_def enc_out_def cbor_encoder_init_def)
  have enc: "state_cbor_encode buf off n s = (CborNoError, ce_buf e, length (state_bytes s))"
    by (simp add: state_cbor_encode_def e(1) cbor_encoder_get_buffer_size_def w(2))
  have t: "take off (ce_buf e) = take off buf"
    using arg_cong [OF w(1), of "take off"] assms(3) by (simp add: min_def)
  have sl: "slice off (length (state_bytes s)) (ce_buf e) = state_bytes s"
    using arg_cong [OF w(1), of "drop off"] assms(3) by (simp add: slice_def drop_take)
  show ?thesis using enc w(3) t sl by blast
qed

text \<open>A state with fields of the right sizes, encoded anywhere in a buffer with room for 124 bytes, is
  decoded to itself from the bytes written, whatever the structure decoded into held before.\<close>

theorem state_cbor_round_trip:
  assumes "state_ok s" "state_ok s0" "st_version s = STATE_VERSION" "124 \<le> n" "off + n \<le> length buf"
  shows "\<exists>buf' len. state_cbor_encode buf off n s = (CborNoError, buf', len) \<and> len \<le> 124
    \<and> length buf' = length buf \<and> take off buf' = take off buf
    \<and> state_cbor_decode s0 (slice off len buf') = Some (0, s)"
  using state_encode_written [OF assms(1,4,5)] state_decode_written [OF assms(1-3)] length_state_bytes [OF assms(1)]
  by fastforce

definition demo_state :: AuthenticatorState where
  "demo_state = \<lparr>st_version = 1, st_app_version = app_version, is_pin_set = 1, remaining_tries = 8,
     pin_hash_enc = replicate 16 7, pin_hash_iv = replicate 16 9, rk_stored = 300, key_salt = replicate 64 5\<rparr>"

lemma demo_state_ok: "state_ok demo_state" "st_version demo_state = STATE_VERSION"
  by (simp_all add: demo_state_def state_ok_def STATE_VERSION_def)

section \<open>Unknown keys\<close>

text \<open>One pair of the map with a further pair behind it.\<close>

lemma decode_step:
  assumes "stores k w s s1" "wok w"
    "wreads it (WNum UnsignedIntegerMajor k) (wbytes w @ wbytes (WNum UnsignedIntegerMajor k') @ r)"
    "unat (cv_remaining it) = Suc (Suc (Suc (Suc m)))" "cv_remaining it \<noteq> UINT32_MAX"
  shows "\<exists>nx. state_decode_loop it s = state_decode_loop nx s1 \<and> wreads nx (WNum UnsignedIntegerMajor k') r
    \<and> unat (cv_remaining nx) = Suc (Suc m) \<and> cv_remaining nx \<noteq> UINT32_MAX"
proof -
  have nz: "cv_remaining it \<noteq> 0" using assms(4) by auto
  obtain it1 where 1: "preparse_next_value (wbehind it (WNum UnsignedIntegerMajor k)) = Some (CborNoError, it1)"
    "wreads it1 w (wbytes (WNum UnsignedIntegerMajor k') @ r)" "unat (cv_remaining it1) = Suc (Suc (Suc m))"
    "cv_remaining it1 \<noteq> UINT32_MAX"
    using wreads_next [OF assms(3) assms(2) assms(4,5)] by auto
  obtain nx where nx: "preparse_next_value (wbehind it1 w) = Some (CborNoError, nx)"
    "wreads nx (WNum UnsignedIntegerMajor k') r" "unat (cv_remaining nx) = Suc (Suc m)" "cv_remaining nx \<noteq> UINT32_MAX"
    using wreads_next [OF 1(2) _ 1(3,4)] by auto
  have d: "state_decode_key k it1 s = Some (Inr it1, s1)" using assms(1) 1(2) nx(1) unfolding stores_def by blast
  have "cv_remaining it1 \<noteq> 0" using 1(3) by auto
  then have "state_decode_loop it s = state_decode_loop nx s1"
    using nz get_uint64_written [OF assms(3)] advance_value [OF assms(3) nz 1(1)] advance_value [OF 1(2) _ nx(1)] d
    by (subst state_decode_loop.simps) (simp add: cbor_value_at_end_def)
  then show ?thesis using nx by blast
qed

lemma decode_pairs:
  assumes "stores_all ps s s'"
    "wreads it (WNum UnsignedIntegerMajor (fst (hd (ps @ [(k, w)])))) rest"
    "wbytes (WNum UnsignedIntegerMajor (fst (hd (ps @ [(k, w)])))) @ rest = concat (map pair_bytes ps) @ pair_bytes (k, w) @ tail"
    "unat (cv_remaining it) = 2 * length ps + 2" "cv_remaining it \<noteq> UINT32_MAX"
  shows "\<exists>nx. state_decode_loop it s = state_decode_loop nx s'
    \<and> wreads nx (WNum UnsignedIntegerMajor k) (wbytes w @ tail) \<and> unat (cv_remaining nx) = 2 \<and> cv_remaining nx \<noteq> UINT32_MAX"
  using assms
proof (induction arbitrary: it rest rule: stores_all.induct)
  case (stores_nil s)
  then show ?case by auto
next
  case (stores_cons k0 w0 s s1 ps s')
  obtain k1 w1 ps1 where h: "ps @ [(k, w)] = (k1, w1) # ps1" by (cases "ps @ [(k, w)]") auto
  have c: "concat (map pair_bytes ps) @ pair_bytes (k, w) @ tail = number_bytes k1 UnsignedIntegerMajor @ wbytes w1 @ concat (map pair_bytes ps1) @ tail"
    using arg_cong [OF h, of "\<lambda>l. concat (map pair_bytes l)"] by simp
  let ?r = "wbytes w1 @ concat (map pair_bytes ps1) @ tail"
  have "rest = wbytes w0 @ wbytes (WNum UnsignedIntegerMajor k1) @ ?r" using stores_cons.prems(2) c by simp
  then obtain nx where nx: "state_decode_loop it s = state_decode_loop nx s1" "wreads nx (WNum UnsignedIntegerMajor k1) ?r"
    "unat (cv_remaining nx) = Suc (Suc (2 * length ps))" "cv_remaining nx \<noteq> UINT32_MAX"
    using decode_step [OF stores_cons.hyps(1,2), of it k1 ?r "2 * length ps"] stores_cons.prems by auto
  have "\<exists>nx'. state_decode_loop nx s1 = state_decode_loop nx' s'
    \<and> wreads nx' (WNum UnsignedIntegerMajor k) (wbytes w @ tail) \<and> unat (cv_remaining nx') = 2 \<and> cv_remaining nx' \<noteq> UINT32_MAX"
    using nx h c by (intro stores_cons.IH [of nx ?r]) auto
  then show ?case using nx(1) by simp
qed

lemma decode_unknown_last:
  assumes "wreads it (WNum UnsignedIntegerMajor k) (wbytes w @ tail)" "wok w" "unat (cv_remaining it) = 2"
    "cv_remaining it \<noteq> UINT32_MAX" "\<And>it. state_decode_key k it s = Option.bind (cbor_value_advance it) (\<lambda>(err, it). Some (Inr it, s))"
  shows "state_decode_loop it s = None"
proof -
  have nz: "cv_remaining it \<noteq> 0" using assms(3) by auto
  obtain it1 where 1: "preparse_next_value (wbehind it (WNum UnsignedIntegerMajor k)) = Some (CborNoError, it1)"
    "wreads it1 w tail" "unat (cv_remaining it1) = 1"
    using wreads_next [OF assms(1,2) _ assms(4), of 0] assms(3) by auto
  have r1: "cv_remaining it1 = 1" using 1(3) by (simp add: word_unat_eq_iff)
  obtain nx where nx: "preparse_next_value (wbehind it1 w) = Some (CborNoError, nx)" "cv_type nx = CborInvalidType"
    using preparse_next_end [of "wbehind it1 w"] 1(2) r1 wreads_not_tag [OF 1(2)] by auto
  have a1: "cbor_value_advance it = Some (CborNoError, it1)" by (rule advance_value [OF assms(1) nz 1(1)])
  have a2: "cbor_value_advance it1 = Some (CborNoError, nx)" using r1 by (intro advance_value [OF 1(2) _ nx(1)]) auto
  have "cbor_value_advance nx = None" using nx(2) by (simp add: cbor_value_advance_def cbor_assert_def)
  then show ?thesis using nz get_uint64_written [OF assms(1)] a1 a2
    by (subst state_decode_loop.simps) (simp add: cbor_value_at_end_def assms(5))
qed

definition state_known_keys :: "u64 list" where
  "state_known_keys = [STATE_CBOR_KEY_VERSION, STATE_CBOR_KEY_APP_VERSION, STATE_CBOR_KEY_IS_PIN_SET,
     STATE_CBOR_KEY_REMAINING_TRIES, STATE_CBOR_KEY_PIN_HASH_ENC, STATE_CBOR_KEY_PIN_HASH_IV,
     STATE_CBOR_KEY_RK_STORED, STATE_CBOR_KEY_KEY_SALT]"

text \<open>C36: The branch of the decoder for unknown keys advances twice: a state written with one further entry
  at its end, as a later version of the application would write it, makes the decoder stop at an
  assertion of the parser instead of skipping the entry.\<close>

theorem state_unknown_key_halts:
  assumes "state_ok s" "state_ok s0" "st_version s = STATE_VERSION" "k \<notin> set state_known_keys" "wok w"
  shows "state_cbor_decode s0 (number_bytes 9 MapMajor @ concat (map pair_bytes (state_pairs s)) @ pair_bytes (k, w)) = None"
proof -
  let ?b = "number_bytes 9 MapMajor @ concat (map pair_bytes (state_pairs s)) @ pair_bytes (k, w)"
  let ?it = "\<lparr>cv_buf = ?b, cv_ptr = 0, cv_remaining = 1, cv_extra = 0, cv_type = 0, cv_flags = 0\<rparr>"
  let ?k = "WNum UnsignedIntegerMajor STATE_CBOR_KEY_VERSION"
  have ps: "fst (hd (state_pairs s @ [(k, w)])) = STATE_CBOR_KEY_VERSION" "length (state_pairs s) = 8"
    by (simp_all add: state_pairs_def)
  obtain rest where rest: "concat (map pair_bytes (state_pairs s)) @ pair_bytes (k, w) = wbytes ?k @ rest"
    by (simp add: state_pairs_def)
  obtain it where it: "preparse_value ?it = Some (CborNoError, it)" "reads it MapMajor 9" "cv_ptr it = 0" "cv_buf it = ?b"
    using preparse_value_written [of ?it 9 MapMajor "concat (map pair_bytes (state_pairs s)) @ pair_bytes (k, w)"]
    by (auto simp: majors_def cbor_consts)
  obtain rec where rec: "cbor_value_enter_container it = Some (CborNoError, rec)" "wreads rec ?k rest"
    "unat (cv_remaining rec) = 18" "cv_remaining rec \<noteq> UINT32_MAX"
    using enter_map_written [OF it(2), of ?k rest] it(3,4) rest by auto
  obtain nx where nx: "state_decode_loop rec s0 = state_decode_loop nx s"
    "wreads nx (WNum UnsignedIntegerMajor k) (wbytes w)" "unat (cv_remaining nx) = 2" "cv_remaining nx \<noteq> UINT32_MAX"
    using decode_pairs [OF state_stores [OF assms(1-3)], of rec k w rest "[]"] rec ps rest by auto
  have "state_decode_key k it s = Option.bind (cbor_value_advance it) (\<lambda>(err, it). Some (Inr it, s))" for it
    using assms(4) by (simp add: state_known_keys_def state_decode_key_def)
  then have "state_decode_loop nx s = None"
    using decode_unknown_last [of nx k w "[]" s] nx assms(5) by simp
  then show ?thesis using it(1) by (simp add: state_cbor_decode_def cbor_parser_init_def rec(1) nx(1))
qed

lemma state_unknown_key_halts_witness:
  "state_cbor_decode demo_state (number_bytes 9 MapMajor @ concat (map pair_bytes (state_pairs demo_state)) @ pair_bytes (40, WStr [1, 2])) = None"
  using state_unknown_key_halts [OF demo_state_ok(1) demo_state_ok(1) demo_state_ok(2), of 40 "WStr [1, 2]"]
  by (simp add: state_known_keys_def state_keys)

end
