(* ===== verification/Device.thy ===== *)
theory Device
  imports Fs State_Laws
begin

text \<open>
  \<open>targets/tkey/src/device.c\<close>: the persistent state of the authenticator, the signature counter, the
  test of user presence, and the files of resident keys. The file-level variables and the
  authenticator's global \<open>STATE\<close> are the record \<open>dev\<close>, which extends the filesystem.

  The structures the code writes to files as they lie in memory are byte strings here, with a function
  for each field that is read. Local buffers that are not initialised hold what the stack held, the
  field \<open>stack\<close>.
\<close>

record ('fs, 'f) dev = "'fs fsys" +
  device_status :: byte
  up_disabled :: bool
  f_rk :: "'f fs_file"
  STATE :: AuthenticatorState
  stack :: bytes

definition uninit :: "nat \<Rightarrow> ('fs, 'f, 'a) dev_scheme \<Rightarrow> bytes" where
  "uninit n w = take n (stack w @ replicate n 0)"

section \<open>Status and presence\<close>

definition CTAPHID_STATUS_IDLE :: byte where "CTAPHID_STATUS_IDLE = 0"
definition CTAPHID_STATUS_PROCESSING :: byte where "CTAPHID_STATUS_PROCESSING = 1"
definition CTAPHID_STATUS_UPNEEDED :: byte where "CTAPHID_STATUS_UPNEEDED = 2"

definition device_disable_up :: "bool \<Rightarrow> ('fs, 'f, 'a) dev_scheme \<Rightarrow> ('fs, 'f, 'a) dev_scheme" where
  "device_disable_up disable w = w\<lparr>up_disabled := disable\<rparr>"

definition device_set_status :: "byte \<Rightarrow> ('fs, 'f, 'a) dev_scheme \<Rightarrow> ('fs, 'f, 'a) dev_scheme" where
  "device_set_status status w =
     (let w = (if status \<noteq> CTAPHID_STATUS_IDLE then ctaphid_update_status status w else w)
      in w\<lparr>device_status := status\<rparr>)"

text \<open>The loop of the presence test; \<open>event_bit\<close> is the bit of the touch register that a touch sets.\<close>

partial_function (option) presence_loop ::
  "nat \<Rightarrow> u32 \<Rightarrow> u32 \<Rightarrow> ('fs, 'f, 'a) dev_scheme \<Rightarrow> (int \<times> ('fs, 'f, 'a) dev_scheme) option" where
  "presence_loop event_bit start up_delay w =
     (let touched = bit (touch_reg w (touch_reads w)) event_bit;
          w = w\<lparr>touch_reads := touch_reads w + 1\<rparr>
      in if touched
         then Some (1, device_set_status CTAPHID_STATUS_PROCESSING (led_set LED_BLACK w))
         else Option.bind (millis (device_set_status CTAPHID_STATUS_UPNEEDED w)) (\<lambda>(time, w).
           let w = led_set (if (time - start) div 100 mod 2 = 1 then LED_GREEN else LED_BLACK) w
           in if time - start < up_delay then presence_loop event_bit start up_delay w
              else Some (0, led_set LED_BLACK w)))"

declare presence_loop.simps [code]

definition ctap_user_presence_test ::
  "nat \<Rightarrow> u32 \<Rightarrow> ('fs, 'f, 'a) dev_scheme \<Rightarrow> (int \<times> ('fs, 'f, 'a) dev_scheme) option" where
  "ctap_user_presence_test event_bit up_delay w =
     (if up_disabled w then Some (2, w)
      else Option.bind (millis w) (\<lambda>(start, w). presence_loop event_bit start up_delay w))"

section \<open>The persistent state\<close>

text \<open>The state file is the magic byte, a MAC of 16 bytes and the encoded state. The length of the encoded
  part is a \<open>size_t\<close>: a file of less than 17 bytes makes it wrap, and the MAC would be computed over memory
  behind the buffer, which is \<open>None\<close> here.\<close>

definition authenticator_read_state ::
  "('fs, 'f, 'd) lfs_lib \<Rightarrow> AuthenticatorState \<Rightarrow> ('fs, 'f, 'a) dev_scheme
     \<Rightarrow> (int \<times> AuthenticatorState \<times> ('fs, 'f, 'a) dev_scheme) option" where
  "authenticator_read_state lib a w =
     (let (ret, tmp_buf, w) = fs_read_open lib ''state'' (uninit STATE_ENVELOPE_BUF_SIZE w) STATE_ENVELOPE_BUF_SIZE w
      in if ret \<le> 0 then Some (0, a, w)
         else if tmp_buf ! 0 \<noteq> STATE_MAGIC then Some (0, a, w)
         else let cbor_size = (of_int ret :: u32) - of_nat STATE_MAGIC_SIZE - of_nat STATE_MAC_SIZE;
                  off = STATE_MAGIC_SIZE + STATE_MAC_SIZE
              in if off + unat cbor_size > length tmp_buf then None
                 else do {
                   (ok, w) \<leftarrow> crypto_verify_device_mac (slice off (unat cbor_size) tmp_buf)
                     (slice STATE_MAGIC_SIZE STATE_MAC_SIZE tmp_buf) STATE_MAC_SIZE w;
                   if \<not> ok then Some (0, a, w)
                   else do {
                     (r, a) \<leftarrow> state_cbor_decode a (slice off (unat cbor_size) tmp_buf);
                     Some (if r \<noteq> 0 then 0 else 1, a, w) } })"

definition authenticator_write_state ::
  "('fs, 'f, 'd) lfs_lib \<Rightarrow> AuthenticatorState \<Rightarrow> ('fs, 'f, 'a) dev_scheme \<Rightarrow> ('fs, 'f, 'a) dev_scheme option" where
  "authenticator_write_state lib a w =
     (let off = STATE_MAGIC_SIZE + STATE_MAC_SIZE;
          write_buf = (replicate STATE_ENVELOPE_BUF_SIZE 0)[0 := STATE_MAGIC];
          (err, write_buf, cbor_size) = state_cbor_encode write_buf off (STATE_ENVELOPE_BUF_SIZE - off) a
      in if err \<noteq> CborNoError then None
         else do {
           (mac, w) \<leftarrow> crypto_compute_device_mac (slice off cbor_size write_buf) STATE_MAC_SIZE w;
           let write_buf = blit write_buf STATE_MAGIC_SIZE mac;
           let write_size = cbor_size + STATE_MAGIC_SIZE + STATE_MAC_SIZE;
           let (ret, w) = fs_write_open lib ''state'' (take write_size write_buf) w;
           if ret \<noteq> int write_size then None else Some w })"

text \<open>\<open>fido2/src/ctap.c\<close>: the state is flushed after every change.\<close>

definition ctap_flush_state ::
  "('fs, 'f, 'd) lfs_lib \<Rightarrow> ('fs, 'f, 'a) dev_scheme \<Rightarrow> ('fs, 'f, 'a) dev_scheme option" where
  "ctap_flush_state lib w = authenticator_write_state lib (STATE w) w"

definition ctap_increment_rk_store ::
  "('fs, 'f, 'd) lfs_lib \<Rightarrow> ('fs, 'f, 'a) dev_scheme \<Rightarrow> ('fs, 'f, 'a) dev_scheme option" where
  "ctap_increment_rk_store lib w = ctap_flush_state lib (w\<lparr>STATE := (STATE w)\<lparr>rk_stored := rk_stored (STATE w) + 1\<rparr>\<rparr>)"

definition ctap_decrement_rk_store ::
  "('fs, 'f, 'd) lfs_lib \<Rightarrow> ('fs, 'f, 'a) dev_scheme \<Rightarrow> ('fs, 'f, 'a) dev_scheme option" where
  "ctap_decrement_rk_store lib w = ctap_flush_state lib (w\<lparr>STATE := (STATE w)\<lparr>rk_stored := rk_stored (STATE w) - 1\<rparr>\<rparr>)"

section \<open>The signature counter\<close>

text \<open>The file handle is a local structure, \<open>f0\<close> the zero value of littlefs's file type. The four bytes
  of the counter are stored as they lie in memory; a short read overwrites the first bytes of the zero
  it starts from. The errors of opening, writing and closing are ignored.\<close>

definition ctap_atomic_count ::
  "('fs, 'f, 'd) lfs_lib \<Rightarrow> 'f \<Rightarrow> u32 \<Rightarrow> ('fs, 'f, 'a) dev_scheme \<Rightarrow> (u32 \<times> ('fs, 'f, 'a) dev_scheme) option" where
  "ctap_atomic_count lib f0 amount w = do {
     let (_, f, w) = fs_open_file lib \<lparr>fs_handle = f0, fs_is_open = False\<rparr> ''counter'' [LFS_O_RDWR, LFS_O_CREAT] w;
     let (ret, buf, f, w) = fs_read lib f (replicate 4 0) 4 w;
     let lastc = (if ret < 0 then 0 else of_nat (of_le (take 4 buf)));
     (amount, w) \<leftarrow>
       (if amount = 0
        then do { (_, rnd, w) \<leftarrow> ctap_generate_rng (uninit 1 w) 1 w; Some (ucast (rnd ! 0 AND 0x0f) + 1, w) }
        else Some (amount, w));
     let lastc = lastc + amount;
     let (_, f, w) = fs_write_at lib f (le32 lastc) 0 w;
     let (_, f, w) = fs_close_file lib f w;
     Some (lastc, w) }"

section \<open>Resident keys\<close>

definition sizeof_CredentialId :: nat where "sizeof_CredentialId = 57"
definition sizeof_residentKey :: nat where "sizeof_residentKey = 333"

definition CREDENTIAL_TAG_SIZE :: nat where "CREDENTIAL_TAG_SIZE = 16"

text \<open>\<open>CredentialId\<close> is the version (1), \<open>rp_id_lookup\<close> (16), nonce (16), metadata (4), count (4)
  and tag (16); \<open>CTAP_residentKey\<close> is the version (1), a credential id, the user entity (162), the RP
  entity (65), \<open>user_id_lookup\<close> (16), nonce (16) and tag (16).\<close>

definition cred_rp_id_lookup :: "bytes \<Rightarrow> bytes" where "cred_rp_id_lookup c = slice 1 CREDENTIAL_TAG_SIZE c"
definition cred_tag :: "bytes \<Rightarrow> bytes" where "cred_tag c = slice 41 CREDENTIAL_TAG_SIZE c"
definition rk_id :: "bytes \<Rightarrow> bytes" where "rk_id rk = slice 1 sizeof_CredentialId rk"
definition rk_user_id_lookup :: "bytes \<Rightarrow> bytes" where "rk_user_id_lookup rk = slice 285 CREDENTIAL_TAG_SIZE rk"

definition ctap_max_number_of_rks :: u32 where "ctap_max_number_of_rks = 200"

definition hex_digit :: "nat \<Rightarrow> char" where
  "hex_digit n = ''0123456789abcdef'' ! n"

definition rpid_hash_to_file :: "bytes \<Rightarrow> string" where
  "rpid_hash_to_file hash = ''rk/'' @ [hex_digit (unat (drop_bit 4 (hash ! 0)))] @ ''.dat''"

text \<open>Calls on the file-level handle \<open>_f_rk\<close>.\<close>

definition rk_read ::
  "('fs, 'f, 'd) lfs_lib \<Rightarrow> bytes \<Rightarrow> nat \<Rightarrow> ('fs, 'f, 'a) dev_scheme \<Rightarrow> int \<times> bytes \<times> ('fs, 'f, 'a) dev_scheme" where
  "rk_read lib buf len w = (let (ret, buf, f, w) = fs_read lib (f_rk w) buf len w in (ret, buf, w\<lparr>f_rk := f\<rparr>))"

definition rk_read_at ::
  "('fs, 'f, 'd) lfs_lib \<Rightarrow> bytes \<Rightarrow> nat \<Rightarrow> nat \<Rightarrow> ('fs, 'f, 'a) dev_scheme \<Rightarrow> int \<times> bytes \<times> ('fs, 'f, 'a) dev_scheme" where
  "rk_read_at lib buf len off w =
     (let (ret, buf, f, w) = fs_read_at lib (f_rk w) buf len off w in (ret, buf, w\<lparr>f_rk := f\<rparr>))"

definition rk_write_at ::
  "('fs, 'f, 'd) lfs_lib \<Rightarrow> bytes \<Rightarrow> nat \<Rightarrow> ('fs, 'f, 'a) dev_scheme \<Rightarrow> int \<times> ('fs, 'f, 'a) dev_scheme" where
  "rk_write_at lib buf off w = (let (ret, f, w) = fs_write_at lib (f_rk w) buf off w in (ret, w\<lparr>f_rk := f\<rparr>))"

definition rk_truncate ::
  "('fs, 'f, 'd) lfs_lib \<Rightarrow> nat \<Rightarrow> ('fs, 'f, 'a) dev_scheme \<Rightarrow> int \<times> ('fs, 'f, 'a) dev_scheme" where
  "rk_truncate lib n w = (let (ret, f, w) = fs_truncate_file lib (f_rk w) n w in (ret, w\<lparr>f_rk := f\<rparr>))"

definition ctap_close_rk_file ::
  "('fs, 'f, 'd) lfs_lib \<Rightarrow> ('fs, 'f, 'a) dev_scheme \<Rightarrow> int \<times> ('fs, 'f, 'a) dev_scheme" where
  "ctap_close_rk_file lib w = (let (ret, f, w) = fs_close_file lib (f_rk w) w in (ret, w\<lparr>f_rk := f\<rparr>))"

definition ctap_open_rk_file ::
  "('fs, 'f, 'd) lfs_lib \<Rightarrow> bytes \<Rightarrow> ('fs, 'f, 'a) dev_scheme \<Rightarrow> int \<times> ('fs, 'f, 'a) dev_scheme" where
  "ctap_open_rk_file lib rpid_hash w =
     (let (ret, f, w) = fs_open_file lib (f_rk w) (rpid_hash_to_file rpid_hash) [LFS_O_RDWR, LFS_O_CREAT] w;
          w = w\<lparr>f_rk := f\<rparr>
      in if ret < 0 then (- 1, w)
         else let ret = fs_file_size lib (f_rk w) w
              in (if ret < 0 then - 1 else ret div int sizeof_residentKey, w))"

definition ctap_reset_rk ::
  "('fs, 'f, 'd) lfs_lib \<Rightarrow> ('fs, 'f, 'a) dev_scheme \<Rightarrow> ('fs, 'f, 'a) dev_scheme option" where
  "ctap_reset_rk lib w = map_option snd (fs_dir_del lib ''rk'' w)"

definition ctap_store_rk ::
  "('fs, 'f, 'd) lfs_lib \<Rightarrow> 'f \<Rightarrow> bytes \<Rightarrow> ('fs, 'f, 'a) dev_scheme \<Rightarrow> (int \<times> ('fs, 'f, 'a) dev_scheme) option" where
  "ctap_store_rk lib f0 rk w =
     (let (ret, f, w) = fs_open_file lib \<lparr>fs_handle = f0, fs_is_open = False\<rparr>
            (rpid_hash_to_file (cred_rp_id_lookup (rk_id rk))) [LFS_O_RDWR, LFS_O_CREAT, LFS_O_APPEND] w
      in if ret < 0 then Some (ret, w)
         else let (ret, f, w) = fs_write lib f rk w;
                  (_, f, w) = fs_close_file lib f w
              in if ret \<le> 0 then Some (- 1, w)
                 else do { w \<leftarrow> ctap_increment_rk_store lib w; Some (0, w) })"

text \<open>The search of \<open>ctap_overwrite_rk\<close>: \<open>Inl\<close> is the value returned from inside the loop. A file
  never holds as many keys as its 16-bit index could count, so the index is a natural number.\<close>

fun overwrite_loop ::
  "('fs, 'f, 'd) lfs_lib \<Rightarrow> bytes \<Rightarrow> nat \<Rightarrow> nat \<Rightarrow> bytes \<Rightarrow> ('fs, 'f, 'a) dev_scheme \<Rightarrow> (int + unit) \<times> ('fs, 'f, 'a) dev_scheme"
where
  "overwrite_loop lib rk i 0 read_rk w = (Inr (), w)"
| "overwrite_loop lib rk i (Suc n) read_rk w =
     (let (ret, read_rk, w) = rk_read lib read_rk sizeof_residentKey w
      in if ret \<le> 0 then (Inl (- 1), snd (ctap_close_rk_file lib w))
         else if memcmp CREDENTIAL_TAG_SIZE (cred_rp_id_lookup (rk_id read_rk)) (cred_rp_id_lookup (rk_id rk)) \<noteq> 0
         then overwrite_loop lib rk (i + 1) n read_rk w
         else if memcmp CREDENTIAL_TAG_SIZE (rk_user_id_lookup read_rk) (rk_user_id_lookup rk) \<noteq> 0
         then overwrite_loop lib rk (i + 1) n read_rk w
         else let (ret, w) = rk_write_at lib rk (i * sizeof_residentKey) w
              in (Inl (if ret \<le> 0 then - 1 else 0), snd (ctap_close_rk_file lib w)))"

definition ctap_overwrite_rk ::
  "('fs, 'f, 'd) lfs_lib \<Rightarrow> bytes \<Rightarrow> ('fs, 'f, 'a) dev_scheme \<Rightarrow> (int \<times> ('fs, 'f, 'a) dev_scheme) option" where
  "ctap_overwrite_rk lib rk w =
     (let (ret, w) = ctap_open_rk_file lib (cred_rp_id_lookup (rk_id rk)) w
      in if ret < 0 then Some (- 1, snd (ctap_close_rk_file lib w))
         else let count = nat ret
              in case overwrite_loop lib rk 0 count (uninit sizeof_residentKey w) w of
                   (Inl r, w) \<Rightarrow> Some (r, w)
                 | (Inr u, w) \<Rightarrow>
                     let (ret, w) = rk_write_at lib rk (count * sizeof_residentKey) w;
                         w = snd (ctap_close_rk_file lib w)
                     in if ret \<le> 0 then Some (- 1, w)
                        else do { w \<leftarrow> ctap_increment_rk_store lib w; Some (0, w) })"

text \<open>Moving the keys behind the deleted one down, ten at a time; the result is whether it succeeded.\<close>

function shift_loop ::
  "('fs, 'f, 'd) lfs_lib \<Rightarrow> nat \<Rightarrow> nat \<Rightarrow> nat \<Rightarrow> bytes \<Rightarrow> ('fs, 'f, 'a) dev_scheme \<Rightarrow> bool \<times> ('fs, 'f, 'a) dev_scheme"
where
  "shift_loop lib i processed remaining temp_rks w =
     (if remaining = 0 then (True, w)
      else let to_read = (if remaining > 10 then 10 else remaining);
               (ret, temp_rks, w) = rk_read_at lib temp_rks (to_read * sizeof_residentKey)
                  ((i + 1 + processed) * sizeof_residentKey) w
           in if ret \<le> 0 then (False, w)
              else let (ret, w) = rk_write_at lib (take (nat ret) temp_rks) ((i + processed) * sizeof_residentKey) w
                   in if ret \<le> 0 then (False, w)
                      else shift_loop lib i (processed + to_read) (remaining - to_read) temp_rks w)"
  by auto
termination by (relation "measure (\<lambda>(lib, i, processed, remaining, temp_rks, w). remaining)") auto

declare shift_loop.simps [simp del]

fun delete_loop ::
  "('fs, 'f, 'd) lfs_lib \<Rightarrow> bytes \<Rightarrow> nat \<Rightarrow> nat \<Rightarrow> nat \<Rightarrow> bytes \<Rightarrow> ('fs, 'f, 'a) dev_scheme
     \<Rightarrow> (int \<times> ('fs, 'f, 'a) dev_scheme) option"
where
  "delete_loop lib cid count i 0 rk w = Some (- 1, snd (ctap_close_rk_file lib w))"
| "delete_loop lib cid count i (Suc n) rk w =
     (let (ret, rk, w) = rk_read lib rk sizeof_residentKey w
      in if ret \<le> 0 then Some (- 1, snd (ctap_close_rk_file lib w))
         else if memcmp CREDENTIAL_TAG_SIZE (cred_rp_id_lookup cid) (cred_rp_id_lookup (rk_id rk)) \<noteq> 0
         then delete_loop lib cid count (i + 1) n rk w
         else if memcmp CREDENTIAL_TAG_SIZE (cred_tag cid) (cred_tag (rk_id rk)) \<noteq> 0
         then delete_loop lib cid count (i + 1) n rk w
         else let (ok, w) = shift_loop lib i 0 (count - (i + 1)) (uninit (10 * sizeof_residentKey) w) w
              in if \<not> ok then Some (- 1, snd (ctap_close_rk_file lib w))
                 else let (ret, w) = rk_truncate lib ((count - 1) * sizeof_residentKey) w;
                          w = snd (ctap_close_rk_file lib w)
                      in if ret < 0 then Some (- 1, w)
                         else do { w \<leftarrow> ctap_decrement_rk_store lib w; Some (0, w) })"

definition ctap_delete_rk ::
  "('fs, 'f, 'd) lfs_lib \<Rightarrow> bytes \<Rightarrow> ('fs, 'f, 'a) dev_scheme \<Rightarrow> (int \<times> ('fs, 'f, 'a) dev_scheme) option" where
  "ctap_delete_rk lib cid w =
     (let (ret, w) = ctap_open_rk_file lib (cred_rp_id_lookup cid) w
      in if ret \<le> 0 then Some (- 1, snd (ctap_close_rk_file lib w))
         else delete_loop lib cid (nat ret) 0 (nat ret) (uninit sizeof_residentKey w) w)"

definition ctap_load_next_rk ::
  "('fs, 'f, 'd) lfs_lib \<Rightarrow> bytes \<Rightarrow> ('fs, 'f, 'a) dev_scheme \<Rightarrow> bytes \<times> ('fs, 'f, 'a) dev_scheme" where
  "ctap_load_next_rk lib dst w = (let (_, dst, w) = rk_read lib dst sizeof_residentKey w in (dst, w))"

definition ctap_load_rk ::
  "('fs, 'f, 'd) lfs_lib \<Rightarrow> byte \<Rightarrow> bytes \<Rightarrow> ('fs, 'f, 'a) dev_scheme \<Rightarrow> bytes \<times> ('fs, 'f, 'a) dev_scheme" where
  "ctap_load_rk lib index dst w =
     (let (_, dst, w) = rk_read_at lib dst sizeof_residentKey (unat index * sizeof_residentKey) w in (dst, w))"

end
