(* ===== verification/Device_Laws.thy ===== *)
theory Device_Laws
  imports Device
begin

text \<open>
  The persistent state survives: what \<open>authenticator_write_state\<close> stores, \<open>authenticator_read_state\<close>
  gets back. The files of resident keys refine lists of keys: overwriting and deleting are
  \<open>rk_insert\<close> and \<open>rk_remove\<close> on the list a file holds. All of it rests on the laws of littlefs.
\<close>

section \<open>The state file\<close>

definition state_envelope :: "bytes \<Rightarrow> AuthenticatorState \<Rightarrow> bytes" where
  "state_envelope key s = STATE_MAGIC # take STATE_MAC_SIZE (HMAC key (state_bytes s)) @ state_bytes s"

definition dev_ok :: "('fs, 'f, 'd) lfs_lib \<Rightarrow> ('fs, 'f) lfs_view \<Rightarrow> ('fs, 'f, 'a) dev_scheme \<Rightarrow> bool" where
  "dev_ok lib v w \<longleftrightarrow> lfs_laws lib v \<and> healthy v (lfs w) \<and> STATE_ENVELOPE_BUF_SIZE \<le> f_limit v
     \<and> crypto_ok w \<and> length (key_device_mac w) = 32"

text \<open>A change to the hash context and the filesystem only.\<close>

definition dev_frame :: "('fs, 'f, 'a) dev_scheme \<Rightarrow> ('fs, 'f, 'a) dev_scheme \<Rightarrow> bool" where
  "dev_frame w w' \<longleftrightarrow> (\<exists>c x. w' = w\<lparr>sha256_ctx := c, lfs := x\<rparr>)"

lemma dev_frame_fields:
  assumes "dev_frame w w'"
  shows "STATE w' = STATE w" "f_rk w' = f_rk w" "key_device_mac w' = key_device_mac w" "stack w' = stack w"
    "key_pin_enc w' = key_pin_enc w" "dev.more w' = dev.more w"
  using assms by (auto simp: dev_frame_def)

lemma length_state_envelope: "state_ok s \<Longrightarrow> length (state_envelope key s) \<le> 141"
  using length_state_bytes [of s] by (simp add: state_envelope_def STATE_MAC_SIZE_def)

lemmas envelope_sizes = STATE_ENVELOPE_BUF_SIZE_def STATE_MAGIC_SIZE_def STATE_MAC_SIZE_def STATE_MAGIC_def

lemma write_state_stores:
  assumes "dev_ok lib v w" "state_ok s"
  shows "\<exists>w'. authenticator_write_state lib s w = Some w' \<and> dev_frame w w' \<and> dev_ok lib v w'
    \<and> f_contents v (lfs w') = (f_contents v (lfs w))(''state'' \<mapsto> state_envelope (key_device_mac w) s)"
proof -
  let ?n = "length (state_bytes s)" and ?k = "key_device_mac w"
  let ?b = "(replicate 192 0)[0 := (0xA5 :: byte)]"
  obtain b where b: "state_cbor_encode ?b 17 175 s = (CborNoError, b, ?n)" "length b = 192"
    "take 17 b = take 17 ?b" "slice 17 ?n b = state_bytes s"
    using state_encode_written [OF assms(2), of 175 17 ?b] by auto
  have n: "?n \<le> 124" by (rule length_state_bytes [OF assms(2)])
  obtain w1 where m: "crypto_hmac ?k [state_bytes s] w = Some (HMAC ?k (state_bytes s), w1)" "hash_frame w w1"
    using hmac_stream [of w ?k "[state_bytes s]"] assms(1) by (auto simp: dev_ok_def)
  obtain c where c: "w1 = w\<lparr>sha256_ctx := c\<rparr>" "length (sha_data c) = 64" using m(2) by (auto simp: hash_frame_def)
  let ?mac = "take 16 (HMAC ?k (state_bytes s))"
  have "take 1 ?b = [0xA5]" by code_simp
  then have b0: "take 1 b = [0xA5]" using arg_cong [OF b(3), of "take 1"] by (simp add: min_def)
  have env: "take (17 + ?n) (blit b 1 ?mac) = state_envelope ?k s"
  proof -
    have "blit b 1 ?mac = take 1 b @ ?mac @ drop 17 b" by (simp add: blit_def)
    moreover have "take ?n (drop 17 b) = state_bytes s" using b(4) by (simp add: slice_def)
    moreover have "17 + ?n = Suc (?n + 16)" by simp
    ultimately show ?thesis using b0 by (simp only: append.simps take_Suc_Cons) (simp add: state_envelope_def envelope_sizes)
  qed
  have len: "length (state_envelope ?k s) = ?n + 17" by (simp add: state_envelope_def envelope_sizes)
  obtain x where x: "fs_write_open lib ''state'' (state_envelope ?k s) w1 = (int (17 + ?n), w1\<lparr>lfs := x\<rparr>)"
    "healthy v x" "f_contents v x = (f_contents v (lfs w))(''state'' \<mapsto> state_envelope ?k s)"
    using fs_write_open_ok [of lib v w1 "state_envelope ?k s" "''state''"] assms(1) n len c(1)
    by (auto simp: dev_ok_def envelope_sizes)
  have "authenticator_write_state lib s w = Some (w1\<lparr>lfs := x\<rparr>)"
    using b m(1) x(1) env by (simp add: authenticator_write_state_def envelope_sizes crypto_compute_device_mac_def Let_def)
  moreover have "dev_frame w (w1\<lparr>lfs := x\<rparr>)" using c(1) by (auto simp: dev_frame_def)
  moreover have "dev_ok lib v (w1\<lparr>lfs := x\<rparr>)" using assms(1) c x(2) by (simp add: dev_ok_def crypto_ok_def)
  ultimately show ?thesis using x(3) by auto
qed

lemma read_state_stored:
  assumes "dev_ok lib v w" "state_ok s" "state_ok a" "st_version s = STATE_VERSION"
    "f_contents v (lfs w) ''state'' = Some (state_envelope (key_device_mac w) s)"
  shows "\<exists>w'. authenticator_read_state lib a w = Some (1, s, w') \<and> dev_frame w w' \<and> dev_ok lib v w'
    \<and> f_contents v (lfs w') = f_contents v (lfs w)"
proof -
  let ?n = "length (state_bytes s)" and ?k = "key_device_mac w"
  let ?e = "state_envelope ?k s"
  have n: "?n \<le> 124" by (rule length_state_bytes [OF assms(2)])
  have len: "length ?e = ?n + 17" by (simp add: state_envelope_def envelope_sizes)
  let ?u = "uninit 192 w"
  have u: "length ?u = 192" by (simp add: uninit_def)
  obtain x where x: "fs_read_open lib ''state'' ?u 192 w = (int (?n + 17), blit ?u 0 ?e, w\<lparr>lfs := x\<rparr>)" "healthy v x"
    "f_contents v x = f_contents v (lfs w)"
    using fs_read_open_ok [OF _ _ assms(5), of lib 192 ?u] assms(1) len n by (auto simp: dev_ok_def)
  let ?b = "blit ?u 0 ?e"
  have lb: "length ?b = 192" using u len n by (simp add: blit_simps)
  have sz: "unat ((of_int (int (?n + 17)) :: u32) - 1 - 16) = ?n"
  proof -
    have "(of_int (int (?n + 17)) :: u32) - 1 - 16 = of_nat ?n" by simp
    then show ?thesis using n by (simp add: unat_of_nat_small del: of_nat_add)
  qed
  have sl: "slice 17 ?n ?b = state_bytes s" "slice 1 16 ?b = take 16 (HMAC ?k (state_bytes s))" "?b ! 0 = 0xA5"
    by (simp_all add: blit_def slice_def state_envelope_def envelope_sizes)
  let ?w = "w\<lparr>lfs := x\<rparr>"
  obtain w1 where m: "crypto_hmac ?k [state_bytes s] ?w = Some (HMAC ?k (state_bytes s), w1)" "hash_frame ?w w1"
    using hmac_stream [of ?w ?k "[state_bytes s]"] assms(1) by (auto simp: dev_ok_def crypto_ok_def)
  obtain c where c: "w1 = ?w\<lparr>sha256_ctx := c\<rparr>" "length (sha_data c) = 64" using m(2) by (auto simp: hash_frame_def)
  have ver: "crypto_verify_device_mac (state_bytes s) (take 16 (HMAC ?k (state_bytes s))) 16 ?w = Some (True, w1)"
    using m(1) by (simp add: crypto_verify_device_mac_def crypto_compute_device_mac_def memcmp_eq_0)
  have "authenticator_read_state lib a w = Some (1, s, w1)"
    using x(1) lb sz n sl ver state_decode_written [OF assms(2,3,4)]
    by (simp add: authenticator_read_state_def envelope_sizes Let_def)
  moreover have "w1 = w\<lparr>sha256_ctx := c, lfs := x\<rparr>" using c(1) by simp
  then have "dev_frame w w1" unfolding dev_frame_def by blast
  moreover have "dev_ok lib v w1" using assms(1) c x(2) by (simp add: dev_ok_def crypto_ok_def)
  ultimately show ?thesis using x(3) c(1) by auto
qed

section \<open>Blocks of one size\<close>

definition blocks :: "nat \<Rightarrow> bytes list \<Rightarrow> bool" where
  "blocks n ks \<longleftrightarrow> (\<forall>k \<in> set ks. length k = n)"

lemma blocks_simps [simp]:
  "blocks n []" "blocks n (k # ks) \<longleftrightarrow> length k = n \<and> blocks n ks" "blocks n (ks @ ls) \<longleftrightarrow> blocks n ks \<and> blocks n ls"
  by (auto simp: blocks_def)

lemma blocks_take_drop [simp]: "blocks n ks \<Longrightarrow> blocks n (take a ks)" "blocks n ks \<Longrightarrow> blocks n (drop a ks)"
  by (auto simp: blocks_def dest: in_set_takeD in_set_dropD)

lemma blocks_nth: "blocks n ks \<Longrightarrow> i < length ks \<Longrightarrow> length (ks ! i) = n"
  by (simp add: blocks_def)

lemma length_blocks: "blocks n ks \<Longrightarrow> length (concat ks) = length ks * n"
  by (induction ks) auto

lemma take_blocks: "blocks n ks \<Longrightarrow> take (a * n) (concat ks) = concat (take a ks)"
proof (induction ks arbitrary: a)
  case (Cons k ks)
  then show ?case by (cases a) auto
qed simp

lemma drop_blocks: "blocks n ks \<Longrightarrow> drop (a * n) (concat ks) = concat (drop a ks)"
proof (induction ks arbitrary: a)
  case (Cons k ks)
  then show ?case by (cases a) auto
qed simp

lemma slice_blocks: "blocks n ks \<Longrightarrow> slice (a * n) (m * n) (concat ks) = concat (take m (drop a ks))"
  by (simp add: slice_def drop_blocks take_blocks)

lemma slice_block: "blocks n ks \<Longrightarrow> a < length ks \<Longrightarrow> slice (a * n) n (concat ks) = ks ! a"
  using slice_blocks [of n ks a 1] by (simp add: take_Suc hd_drop_conv_nth)

lemma put_blocks:
  assumes "blocks n ks" "blocks n ms" "a \<le> length ks"
  shows "f_put (concat ks) (a * n) (concat ms) = concat (take a ks @ ms @ drop (a + length ms) ks)"
proof -
  have "a * n - length ks * n = 0" using assms(3) by simp
  moreover have "a * n + length ms * n = (a + length ms) * n" by (simp add: algebra_simps)
  ultimately show ?thesis
    using assms by (simp add: f_put_def length_blocks take_blocks drop_blocks)
qed

lemma put_block:
  assumes "blocks n ks" "length k = n" "a \<le> length ks"
  shows "f_put (concat ks) (a * n) k = concat (take a ks @ k # drop (a + 1) ks)"
  using put_blocks [OF assms(1), of "[k]" a] assms(2,3) by simp

section \<open>The open file of resident keys\<close>

text \<open>The handle is open on the file \<open>nm\<close>, which holds the keys \<open>ks\<close>; the position is at key \<open>i\<close>.\<close>

definition rk_at ::
  "('fs, 'f, 'd) lfs_lib \<Rightarrow> ('fs, 'f) lfs_view \<Rightarrow> string \<Rightarrow> bytes list \<Rightarrow> nat \<Rightarrow> ('fs, 'f, 'a) dev_scheme \<Rightarrow> bool" where
  "rk_at lib v nm ks i w \<longleftrightarrow> dev_ok lib v w \<and> fs_is_open (f_rk w) \<and> blocks sizeof_residentKey ks
     \<and> f_open v (fs_handle (f_rk w)) (lfs w)
       = Some \<lparr>f_name = nm, f_append = False, f_data = concat ks, f_pos = i * sizeof_residentKey\<rparr>"

text \<open>The steps change the handle and the filesystem only, and of the closed files none.\<close>

definition rk_frame :: "('fs, 'f) lfs_view \<Rightarrow> ('fs, 'f, 'a) dev_scheme \<Rightarrow> ('fs, 'f, 'a) dev_scheme \<Rightarrow> bool" where
  "rk_frame v w w' \<longleftrightarrow> (\<exists>x f. w' = w\<lparr>lfs := x, f_rk := f\<rparr>) \<and> f_contents v (lfs w') = f_contents v (lfs w)"

lemma rk_frame_trans: "rk_frame v w w' \<Longrightarrow> rk_frame v w' w'' \<Longrightarrow> rk_frame v w w''"
  by (clarsimp simp: rk_frame_def) (intro exI, rule refl)

lemma rk_frame_fields: "rk_frame v w w' \<Longrightarrow> STATE w' = STATE w" "rk_frame v w w' \<Longrightarrow> stack w' = stack w"
  "rk_frame v w w' \<Longrightarrow> f_contents v (lfs w') = f_contents v (lfs w)"
  by (auto simp: rk_frame_def)

lemma rk_frameI:
  "f_contents v x = f_contents v (lfs w) \<Longrightarrow> rk_frame v w (w\<lparr>lfs := x, f_rk := f\<rparr>)"
  by (auto simp: rk_frame_def)

lemma dev_ok_lfs [simp]:
  "dev_ok lib v w \<Longrightarrow> dev_ok lib v (w\<lparr>lfs := x, f_rk := f\<rparr>) \<longleftrightarrow> healthy v x"
  by (auto simp: dev_ok_def crypto_ok_def)

lemma rk_read_ok:
  assumes "rk_at lib v nm ks i w" "i < length ks" "length buf = sizeof_residentKey"
  shows "\<exists>w'. rk_read lib buf sizeof_residentKey w = (int sizeof_residentKey, ks ! i, w') \<and> rk_at lib v nm ks (i + 1) w'
    \<and> rk_frame v w w'"
proof -
  let ?n = sizeof_residentKey
  let ?s = "\<lparr>f_name = nm, f_append = False, f_data = concat ks, f_pos = i * ?n\<rparr>"
  have a: "lfs_laws lib v" "healthy v (lfs w)" "f_open v (fs_handle (f_rk w)) (lfs w) = Some ?s" "blocks ?n ks"
    "fs_is_open (f_rk w)" "dev_ok lib v w"
    using assms(1) by (auto simp: rk_at_def dev_ok_def)
  have sl: "slice (i * ?n) ?n (concat ks) = ks ! i" "length (ks ! i) = ?n"
    using slice_block [OF a(4) assms(2)] blocks_nth [OF a(4) assms(2)] by auto
  obtain f x where 1: "lfs_file_read lib (fs_handle (f_rk w)) ?n (lfs w) = (int ?n, ks ! i, f, x)" "healthy v x"
    "f_contents v x = f_contents v (lfs w)" "f_open v f x = Some (?s\<lparr>f_pos := i * ?n + ?n\<rparr>)"
    using lfs_read [OF a(1-3), of ?n] sl by auto
  let ?w = "w\<lparr>lfs := x, f_rk := (f_rk w)\<lparr>fs_handle := f\<rparr>\<rparr>"
  have "rk_read lib buf ?n w = (int ?n, ks ! i, ?w)"
    using 1(1) a(5) sl(2) assms(3) by (simp add: rk_read_def fs_read_def blit_def)
  moreover have "rk_at lib v nm ks (i + 1) ?w" using 1(2,4) a by (simp add: rk_at_def algebra_simps)
  ultimately show ?thesis using rk_frameI [OF 1(3)] by blast
qed

lemma rk_read_at_ok:
  assumes "rk_at lib v nm ks i w" "a + m \<le> length ks" "m * sizeof_residentKey \<le> length buf"
  shows "\<exists>w' j. rk_read_at lib buf (m * sizeof_residentKey) (a * sizeof_residentKey) w
      = (int (m * sizeof_residentKey), blit buf 0 (concat (take m (drop a ks))), w') \<and> rk_at lib v nm ks j w' \<and> rk_frame v w w'"
proof -
  let ?n = sizeof_residentKey
  let ?s = "\<lparr>f_name = nm, f_append = False, f_data = concat ks, f_pos = i * ?n\<rparr>"
  have a: "lfs_laws lib v" "healthy v (lfs w)" "f_open v (fs_handle (f_rk w)) (lfs w) = Some ?s" "blocks ?n ks"
    "fs_is_open (f_rk w)" "dev_ok lib v w"
    using assms(1) by (auto simp: rk_at_def dev_ok_def)
  have sl: "slice (a * ?n) (m * ?n) (concat ks) = concat (take m (drop a ks))"
    "length (concat (take m (drop a ks))) = m * ?n"
    using slice_blocks [OF a(4)] length_blocks [of ?n "take m (drop a ks)"] a(4) assms(2) by simp_all
  obtain f0 x0 where 0: "lfs_file_seek lib (fs_handle (f_rk w)) (a * ?n) (lfs w) = (f0, x0)" "healthy v x0"
    "f_contents v x0 = f_contents v (lfs w)" "f_open v f0 x0 = Some (?s\<lparr>f_pos := a * ?n\<rparr>)"
    using lfs_seek [OF a(1-3)] by auto
  obtain f x where 1: "lfs_file_read lib f0 (m * ?n) x0 = (int (m * ?n), concat (take m (drop a ks)), f, x)" "healthy v x"
    "f_contents v x = f_contents v x0" "f_open v f x = Some (?s\<lparr>f_pos := a * ?n + m * ?n\<rparr>)"
    using lfs_read [OF a(1) 0(2,4), of "m * ?n"] sl by auto
  let ?w = "w\<lparr>lfs := x, f_rk := (f_rk w)\<lparr>fs_handle := f\<rparr>\<rparr>"
  have "rk_read_at lib buf (m * ?n) (a * ?n) w = (int (m * ?n), blit buf 0 (concat (take m (drop a ks))), ?w)"
    using 0(1) 1(1) a(5) by (simp add: rk_read_at_def fs_read_at_def)
  moreover have "rk_at lib v nm ks (a + m) ?w" using 1(2,4) a by (simp add: rk_at_def algebra_simps)
  ultimately show ?thesis using rk_frameI [of v x w] 0(3) 1(3) by auto
qed

lemma rk_write_at_ok:
  assumes "rk_at lib v nm ks i w" "blocks sizeof_residentKey ms" "a \<le> length ks"
    "(a + length ms) * sizeof_residentKey \<le> f_limit v"
  shows "\<exists>w' j. rk_write_at lib (concat ms) (a * sizeof_residentKey) w = (int (length ms * sizeof_residentKey), w')
    \<and> rk_at lib v nm (take a ks @ ms @ drop (a + length ms) ks) j w' \<and> rk_frame v w w'"
proof -
  let ?n = sizeof_residentKey
  let ?s = "\<lparr>f_name = nm, f_append = False, f_data = concat ks, f_pos = i * ?n\<rparr>"
  have a: "lfs_laws lib v" "healthy v (lfs w)" "f_open v (fs_handle (f_rk w)) (lfs w) = Some ?s" "blocks ?n ks"
    "fs_is_open (f_rk w)" "dev_ok lib v w"
    using assms(1) by (auto simp: rk_at_def dev_ok_def)
  obtain f0 x0 where 0: "lfs_file_seek lib (fs_handle (f_rk w)) (a * ?n) (lfs w) = (f0, x0)" "healthy v x0"
    "f_contents v x0 = f_contents v (lfs w)" "f_open v f0 x0 = Some (?s\<lparr>f_pos := a * ?n\<rparr>)"
    using lfs_seek [OF a(1-3)] by auto
  let ?ks = "take a ks @ ms @ drop (a + length ms) ks"
  obtain f x where 1: "lfs_file_write lib f0 (concat ms) x0 = (int (length ms * ?n), f, x)" "healthy v x"
    "f_contents v x = f_contents v x0" "f_open v f x = Some (?s\<lparr>f_data := concat ?ks, f_pos := (a + length ms) * ?n\<rparr>)"
    using lfs_write [OF a(1) 0(2,4), of "concat ms"] assms(2-) put_blocks [OF a(4) assms(2,3)]
    by (auto simp: f_where_def f_write_def length_blocks algebra_simps)
  let ?w = "w\<lparr>lfs := x, f_rk := (f_rk w)\<lparr>fs_handle := f\<rparr>\<rparr>"
  have "rk_write_at lib (concat ms) (a * ?n) w = (int (length ms * ?n), ?w)"
    using 0(1) 1(1) a(5) by (simp add: rk_write_at_def fs_write_at_def)
  moreover have "rk_at lib v nm ?ks (a + length ms) ?w" using 1(2,4) a assms(2) by (simp add: rk_at_def)
  ultimately show ?thesis using rk_frameI [of v x w] 0(3) 1(3) by metis
qed

lemma rk_truncate_ok:
  assumes "rk_at lib v nm ks i w" "a \<le> length ks"
  shows "\<exists>w'. rk_truncate lib (a * sizeof_residentKey) w = (0, w') \<and> rk_at lib v nm (take a ks) i w' \<and> rk_frame v w w'"
proof -
  let ?n = sizeof_residentKey
  let ?s = "\<lparr>f_name = nm, f_append = False, f_data = concat ks, f_pos = i * ?n\<rparr>"
  have a: "lfs_laws lib v" "healthy v (lfs w)" "f_open v (fs_handle (f_rk w)) (lfs w) = Some ?s" "blocks ?n ks"
    "fs_is_open (f_rk w)" "dev_ok lib v w"
    using assms(1) by (auto simp: rk_at_def dev_ok_def)
  obtain f x where 1: "lfs_file_truncate lib (fs_handle (f_rk w)) (a * ?n) (lfs w) = (0, f, x)" "healthy v x"
    "f_contents v x = f_contents v (lfs w)" "f_open v f x = Some (?s\<lparr>f_data := concat (take a ks)\<rparr>)"
    using lfs_truncate [OF a(1-3), of "a * ?n"] assms(2) a(4) by (auto simp: length_blocks take_blocks)
  let ?w = "w\<lparr>lfs := x, f_rk := (f_rk w)\<lparr>fs_handle := f\<rparr>\<rparr>"
  have "rk_truncate lib (a * ?n) w = (0, ?w)" using 1(1) a(5) by (simp add: rk_truncate_def fs_truncate_file_def)
  moreover have "rk_at lib v nm (take a ks) i ?w" using 1(2,4) a by (simp add: rk_at_def)
  ultimately show ?thesis using rk_frameI [OF 1(3)] by blast
qed

text \<open>Closing stores the keys under the file's name.\<close>

definition rk_closed ::
  "('fs, 'f, 'd) lfs_lib \<Rightarrow> ('fs, 'f) lfs_view \<Rightarrow> ('fs, 'f, 'a) dev_scheme \<Rightarrow> bool" where
  "rk_closed lib v w \<longleftrightarrow> dev_ok lib v w \<and> \<not> fs_is_open (f_rk w)"

lemma rk_close_ok:
  assumes "rk_at lib v nm ks i w"
  shows "\<exists>w'. ctap_close_rk_file lib w = (0, w') \<and> rk_closed lib v w' \<and> (\<exists>x f. w' = w\<lparr>lfs := x, f_rk := f\<rparr>)
    \<and> f_contents v (lfs w') = (f_contents v (lfs w))(nm \<mapsto> concat ks)"
proof -
  let ?s = "\<lparr>f_name = nm, f_append = False, f_data = concat ks, f_pos = i * sizeof_residentKey\<rparr>"
  have a: "lfs_laws lib v" "healthy v (lfs w)" "f_open v (fs_handle (f_rk w)) (lfs w) = Some ?s"
    "fs_is_open (f_rk w)" "dev_ok lib v w"
    using assms(1) by (auto simp: rk_at_def dev_ok_def)
  obtain f x where 1: "lfs_file_close lib (fs_handle (f_rk w)) (lfs w) = (0, f, x)" "healthy v x"
    "f_contents v x = (f_contents v (lfs w))(nm \<mapsto> concat ks)"
    using lfs_close [OF a(1-3)] by auto
  let ?w = "w\<lparr>lfs := x, f_rk := \<lparr>fs_handle = f, fs_is_open = False\<rparr>\<rparr>"
  have "ctap_close_rk_file lib w = (0, ?w)"
    using 1(1) a(4) by (cases "f_rk w") (simp add: ctap_close_rk_file_def fs_close_file_def)
  moreover have "rk_closed lib v ?w" using 1(2) a(5) by (simp add: rk_closed_def)
  ultimately show ?thesis using 1(3) by auto
qed

text \<open>The keys a file holds; a file that does not exist holds none.\<close>

definition rk_file :: "('fs, 'f) lfs_view \<Rightarrow> string \<Rightarrow> bytes list \<Rightarrow> 'fs \<Rightarrow> bool" where
  "rk_file v nm ks x \<longleftrightarrow> blocks sizeof_residentKey ks
     \<and> (f_contents v x nm = Some (concat ks) \<or> f_contents v x nm = None \<and> ks = [])"

lemma rk_open_ok:
  assumes "rk_closed lib v w" "rk_file v (rpid_hash_to_file h) ks (lfs w)"
  shows "\<exists>w'. ctap_open_rk_file lib h w = (int (length ks), w') \<and> rk_at lib v (rpid_hash_to_file h) ks 0 w'
    \<and> (\<exists>x f. w' = w\<lparr>lfs := x, f_rk := f\<rparr>)
    \<and> (\<forall>n. n \<noteq> rpid_hash_to_file h \<longrightarrow> f_contents v (lfs w') n = f_contents v (lfs w) n)"
proof -
  let ?nm = "rpid_hash_to_file h"
  have a: "lfs_laws lib v" "healthy v (lfs w)" "dev_ok lib v w" "\<not> fs_is_open (f_rk w)" "blocks sizeof_residentKey ks"
    using assms by (auto simp: rk_closed_def dev_ok_def rk_file_def)
  have d: "(if f_contents v (lfs w) ?nm = None then [] else the (f_contents v (lfs w) ?nm)) = concat ks"
    using assms(2) by (auto simp: rk_file_def)
  obtain f x where 1: "lfs_file_opencfg lib ?nm [LFS_O_RDWR, LFS_O_CREAT] (lfs w) = (0, f, x)" "healthy v x"
    "\<And>n. n \<noteq> ?nm \<Longrightarrow> f_contents v x n = f_contents v (lfs w) n"
    "f_open v f x = Some \<lparr>f_name = ?nm, f_append = False, f_data = concat ks, f_pos = 0\<rparr>"
    using lfs_open [OF a(1,2), of "[LFS_O_RDWR, LFS_O_CREAT]" ?nm] d by simp blast
  have "lfs_file_size lib f x = int (length ks * sizeof_residentKey)"
    using lfs_size [OF a(1) 1(2,4)] length_blocks [OF a(5)] by simp
  let ?w = "w\<lparr>lfs := x, f_rk := \<lparr>fs_handle = f, fs_is_open = True\<rparr>\<rparr>"
  have "ctap_open_rk_file lib h w = (int (length ks), ?w)"
    using 1(1) a(4) \<open>lfs_file_size lib f x = _\<close>
    by (cases "f_rk w") (simp add: ctap_open_rk_file_def fs_open_file_def fs_file_size_def sizeof_residentKey_def)
  moreover have "rk_at lib v ?nm ks 0 ?w" using 1(2,4) a(3,5) by (simp add: rk_at_def)
  ultimately show ?thesis using 1(3) by auto
qed

section \<open>Overwriting and deleting\<close>

text \<open>What the two operations do to the list of keys.\<close>

definition rk_same :: "bytes \<Rightarrow> bytes \<Rightarrow> bool" where
  "rk_same rk k \<longleftrightarrow> cred_rp_id_lookup (rk_id k) = cred_rp_id_lookup (rk_id rk) \<and> rk_user_id_lookup k = rk_user_id_lookup rk"

fun rk_insert :: "bytes \<Rightarrow> bytes list \<Rightarrow> bytes list" where
  "rk_insert rk [] = [rk]"
| "rk_insert rk (k # ks) = (if rk_same rk k then rk # ks else k # rk_insert rk ks)"

definition rk_matches :: "bytes \<Rightarrow> bytes \<Rightarrow> bool" where
  "rk_matches cid k \<longleftrightarrow> cred_rp_id_lookup cid = cred_rp_id_lookup (rk_id k) \<and> cred_tag cid = cred_tag (rk_id k)"

fun rk_remove :: "bytes \<Rightarrow> bytes list \<Rightarrow> bytes list" where
  "rk_remove cid [] = []"
| "rk_remove cid (k # ks) = (if rk_matches cid k then ks else k # rk_remove cid ks)"

lemma tag_lengths:
  "length rk = sizeof_residentKey \<Longrightarrow> length (cred_rp_id_lookup (rk_id rk)) = 16"
  "length rk = sizeof_residentKey \<Longrightarrow> length (cred_tag (rk_id rk)) = 16"
  "length rk = sizeof_residentKey \<Longrightarrow> length (rk_user_id_lookup rk) = 16"
  "length cid = sizeof_CredentialId \<Longrightarrow> length (cred_rp_id_lookup cid) = 16"
  "length cid = sizeof_CredentialId \<Longrightarrow> length (cred_tag cid) = 16"
  by (simp_all add: cred_rp_id_lookup_def cred_tag_def rk_id_def rk_user_id_lookup_def sizeof_residentKey_def
      sizeof_CredentialId_def CREDENTIAL_TAG_SIZE_def slice_def)

lemma memcmp_tag: "length a = 16 \<Longrightarrow> length b = 16 \<Longrightarrow> memcmp CREDENTIAL_TAG_SIZE a b = 0 \<longleftrightarrow> a = b"
  by (simp add: CREDENTIAL_TAG_SIZE_def memcmp_eq_0)

lemma key_size_pos: "0 < sizeof_residentKey"
  by (simp add: sizeof_residentKey_def)

lemma length_uninit [simp]: "length (uninit n w) = n"
  by (simp add: uninit_def)

lemma overwrite_loop_ok:
  assumes "rk_at lib v nm (ps @ ks) (length ps) w" "length buf = sizeof_residentKey" "length rk = sizeof_residentKey"
    "(length ps + length ks) * sizeof_residentKey \<le> f_limit v"
  shows "if \<exists>k \<in> set ks. rk_same rk k
    then \<exists>w'. overwrite_loop lib rk (length ps) (length ks) buf w = (Inl 0, w') \<and> rk_closed lib v w'
      \<and> (\<exists>x f. w' = w\<lparr>lfs := x, f_rk := f\<rparr>)
      \<and> f_contents v (lfs w') = (f_contents v (lfs w))(nm \<mapsto> concat (ps @ rk_insert rk ks))
    else \<exists>w'. overwrite_loop lib rk (length ps) (length ks) buf w = (Inr (), w')
      \<and> rk_at lib v nm (ps @ ks) (length (ps @ ks)) w' \<and> rk_frame v w w'"
  using assms
proof (induction ks arbitrary: ps buf w)
  case Nil
  have "rk_frame v w (w\<lparr>lfs := lfs w, f_rk := f_rk w\<rparr>)" by (rule rk_frameI) simp
  then show ?case using Nil by simp
next
  case (Cons k ks)
  have bl: "blocks sizeof_residentKey (ps @ k # ks)" using Cons.prems(1) by (simp add: rk_at_def)
  obtain w1 where 1: "rk_read lib buf sizeof_residentKey w = (int sizeof_residentKey, k, w1)"
    "rk_at lib v nm (ps @ k # ks) (length ps + 1) w1" "rk_frame v w w1"
    using rk_read_ok [OF Cons.prems(1) _ Cons.prems(2)] by auto
  have len: "length k = sizeof_residentKey" using bl by simp
  have cmp: "memcmp CREDENTIAL_TAG_SIZE (cred_rp_id_lookup (rk_id k)) (cred_rp_id_lookup (rk_id rk)) \<noteq> 0
      \<or> memcmp CREDENTIAL_TAG_SIZE (rk_user_id_lookup k) (rk_user_id_lookup rk) \<noteq> 0 \<longleftrightarrow> \<not> rk_same rk k"
    using len Cons.prems(3) by (simp add: memcmp_tag tag_lengths rk_same_def)
  show ?case
  proof (cases "rk_same rk k")
    case True
    obtain w2 j where 2: "rk_write_at lib rk (length ps * sizeof_residentKey) w1 = (int sizeof_residentKey, w2)"
      "rk_at lib v nm (ps @ rk # ks) j w2" "rk_frame v w1 w2"
      using rk_write_at_ok [OF 1(2), of "[rk]" "length ps"] Cons.prems(3,4) by (auto simp: algebra_simps)
    obtain w3 where 3: "ctap_close_rk_file lib w2 = (0, w3)" "rk_closed lib v w3" "\<exists>x f. w3 = w2\<lparr>lfs := x, f_rk := f\<rparr>"
      "f_contents v (lfs w3) = (f_contents v (lfs w2))(nm \<mapsto> concat (ps @ rk # ks))"
      using rk_close_ok [OF 2(2)] by blast
    have "overwrite_loop lib rk (length ps) (Suc (length ks)) buf w = (Inl 0, w3)"
      using 1(1) 2(1) 3(1) cmp True key_size_pos by simp
    moreover have "f_contents v (lfs w2) = f_contents v (lfs w)"
      using 1(3) 2(3) by (simp add: rk_frame_fields)
    moreover have "\<exists>x f. w3 = w\<lparr>lfs := x, f_rk := f\<rparr>"
      using rk_frame_trans [OF 1(3) 2(3)] 3(3) by (clarsimp simp: rk_frame_def) (intro exI, rule refl)
    ultimately show ?thesis using True 3(2,4) by auto
  next
    case False
    have step: "overwrite_loop lib rk (length ps) (Suc (length ks)) buf w = overwrite_loop lib rk (length (ps @ [k])) (length ks) k w1"
      using 1(1) cmp False key_size_pos by auto
    note IH = Cons.IH [of "ps @ [k]" w1 k, simplified, OF _ len Cons.prems(3)]
    show ?thesis
    proof (cases "\<exists>k' \<in> set ks. rk_same rk k'")
      case True
      then obtain w2 where 2: "overwrite_loop lib rk (length (ps @ [k])) (length ks) k w1 = (Inl 0, w2)" "rk_closed lib v w2"
        "\<exists>x f. w2 = w1\<lparr>lfs := x, f_rk := f\<rparr>"
        "f_contents v (lfs w2) = (f_contents v (lfs w1))(nm \<mapsto> concat (ps @ k # rk_insert rk ks))"
        using IH 1(2) Cons.prems(4) by auto
      have "\<exists>x f. w2 = w\<lparr>lfs := x, f_rk := f\<rparr>"
        using 1(3) 2(3) by (clarsimp simp: rk_frame_def) (intro exI, rule refl)
      then show ?thesis using True False step 2 rk_frame_fields(3) [OF 1(3)] by auto
    next
      case nomatch: False
      then obtain w2 where 2: "overwrite_loop lib rk (length (ps @ [k])) (length ks) k w1 = (Inr (), w2)"
        "rk_at lib v nm (ps @ k # ks) (length (ps @ k # ks)) w2" "rk_frame v w1 w2"
        using IH 1(2) Cons.prems(4) by auto
      then show ?thesis using nomatch False step rk_frame_trans [OF 1(3) 2(3)] by auto
    qed
  qed
qed

text \<open>The shift: with \<open>p\<close> keys moved, the file holds the wanted list up to key \<open>i + p\<close> and the old
  one from there on.\<close>

lemma shift_loop_ok:
  assumes "rk_at lib v nm (take (i + p) (take i ks @ drop (i + 1) ks) @ drop (i + p) ks) j w" "i < length ks"
    "i + 1 + p + r = length ks" "length buf = 10 * sizeof_residentKey" "length ks * sizeof_residentKey \<le> f_limit v"
  shows "\<exists>w' j'. shift_loop lib i p r buf w = (True, w')
    \<and> rk_at lib v nm (take i ks @ drop (i + 1) ks @ [last ks]) j' w' \<and> rk_frame v w w'"
  using assms
proof (induction r arbitrary: p buf w j rule: less_induct)
  case (less r)
  let ?L = "take i ks @ drop (i + 1) ks"
  let ?f = "\<lambda>p. take (i + p) ?L @ drop (i + p) ks"
  have lenL: "length ?L = length ks - 1" using less.prems(2) by simp
  show ?case
  proof (cases "r = 0")
    case True
    have ip: "i + p = length ks - 1" using True less.prems(3) by simp
    have l: "drop (length ks - 1) ks = [last ks]" using less.prems(2) by (cases ks rule: rev_cases) auto
    have "take (length ks - 1) ?L = ?L" by (rule take_all) (simp only: lenL)
    then have "?f p = ?L @ [last ks]" by (simp only: ip l)
    moreover have "rk_frame v w (w\<lparr>lfs := lfs w, f_rk := f_rk w\<rparr>)" by (rule rk_frameI) simp
    ultimately show ?thesis using True less.prems(1) by (simp add: shift_loop.simps) blast
  next
    case False
    define m where "m = (if r > 10 then 10 else r)"
    have m: "0 < m" "m \<le> r" "m \<le> 10" using False by (auto simp: m_def)
    have lf: "length (?f p) = length ks" using lenL less.prems(2,3) by simp
    have rd: "take m (drop (i + 1 + p) (?f p)) = take m (drop (i + 1 + p) ks)"
      using lenL less.prems(2,3) by (simp add: algebra_simps)
    obtain w1 j1 where 1: "rk_read_at lib buf (m * sizeof_residentKey) ((i + 1 + p) * sizeof_residentKey) w
        = (int (m * sizeof_residentKey), blit buf 0 (concat (take m (drop (i + 1 + p) ks))), w1)"
      "rk_at lib v nm (?f p) j1 w1" "rk_frame v w w1"
      using rk_read_at_ok [OF less.prems(1), of "i + 1 + p" m buf] lf rd m less.prems(3,4) by auto
    let ?ms = "take m (drop (i + 1 + p) ks)"
    have bks: "blocks sizeof_residentKey ?ms"
    proof -
      have "blocks sizeof_residentKey (?f p)" using 1(2) by (simp add: rk_at_def)
      then have "blocks sizeof_residentKey (take m (drop (i + 1 + p) (?f p)))"
        by (intro blocks_take_drop)
      then show ?thesis by (simp only: rd)
    qed
    have lm: "length ?ms = m" "length (concat ?ms) = m * sizeof_residentKey"
      using m less.prems(3) length_blocks [OF bks] by auto
    have tk: "take (m * sizeof_residentKey) (blit buf 0 (concat ?ms)) = concat ?ms"
      using lm(2) by (simp add: blit_def)
    have "(i + p + m) * sizeof_residentKey \<le> length ks * sizeof_residentKey"
      using m(2) less.prems(3) by (intro mult_le_mono1) simp
    then have room: "(i + p + m) * sizeof_residentKey \<le> f_limit v" using less.prems(5) by (rule order_trans)
    obtain w2 j2 where 2: "rk_write_at lib (concat ?ms) ((i + p) * sizeof_residentKey) w1 = (int (m * sizeof_residentKey), w2)"
      "rk_at lib v nm (take (i + p) (?f p) @ ?ms @ drop (i + p + m) (?f p)) j2 w2" "rk_frame v w1 w2"
      using rk_write_at_ok [OF 1(2) bks, of "i + p"] lm(1) lf room less.prems(3) by auto
    have nxt: "take (i + p) (?f p) @ ?ms @ drop (i + p + m) (?f p) = ?f (p + m)"
    proof -
      have e1: "take (i + p) (?f p) = take (i + p) ?L" using lenL less.prems(3) by simp
      have e2: "drop (i + p + m) (?f p) = drop (i + p + m) ks" using lenL less.prems(3) by (simp add: algebra_simps)
      have "drop (i + p) ?L = drop (i + 1 + p) ks" using less.prems(2,3) by (simp add: algebra_simps)
      then have e3: "take (i + p) ?L @ ?ms = take (i + p + m) ?L" by (metis take_add)
      show ?thesis by (simp only: e1 e2 e3 [symmetric] append_assoc add.assoc [of i p m, symmetric])
    qed
    have pos: "\<not> int m * int sizeof_residentKey \<le> 0" "nat (int m * int sizeof_residentKey) = m * sizeof_residentKey"
      using m(1) key_size_pos by (simp_all add: not_le nat_mult_distrib)
    have step: "shift_loop lib i p r buf w = shift_loop lib i (p + m) (r - m) (blit buf 0 (concat ?ms)) w2"
      using False 1(1) 2(1) tk pos
      by (subst shift_loop.simps) (simp add: m_def [symmetric] Let_def)
    have at2: "rk_at lib v nm (?f (p + m)) j2 w2" using 2(2) by (simp only: nxt)
    have lb: "length (blit buf 0 (concat ?ms)) = 10 * sizeof_residentKey"
      using lm(2) m(3) less.prems(4) by (simp add: blit_simps)
    have r: "r - m < r" "i + 1 + (p + m) + (r - m) = length ks" using m less.prems(3) by simp_all
    obtain w3 j3 where "shift_loop lib i (p + m) (r - m) (blit buf 0 (concat ?ms)) w2 = (True, w3)"
      "rk_at lib v nm (take i ks @ drop (i + 1) ks @ [last ks]) j3 w3" "rk_frame v w2 w3"
      using less.IH [OF r(1) at2 less.prems(2) r(2) lb less.prems(5)] by blast
    then show ?thesis using step rk_frame_trans [OF 1(3) rk_frame_trans [OF 2(3)]] by auto
  qed
qed

lemma delete_loop_ok:
  assumes "rk_at lib v nm (ps @ ks) (length ps) w" "length buf = sizeof_residentKey" "length cid = sizeof_CredentialId"
    "state_ok (STATE w)" "length (ps @ ks) * sizeof_residentKey \<le> f_limit v"
  shows "if \<exists>k \<in> set ks. rk_matches cid k
    then \<exists>w'. delete_loop lib cid (length (ps @ ks)) (length ps) (length ks) buf w = Some (0, w') \<and> rk_closed lib v w'
      \<and> STATE w' = (STATE w)\<lparr>rk_stored := rk_stored (STATE w) - 1\<rparr>
      \<and> f_contents v (lfs w') = (f_contents v (lfs w))(nm \<mapsto> concat (ps @ rk_remove cid ks),
          ''state'' \<mapsto> state_envelope (key_device_mac w) (STATE w'))
    else \<exists>w'. delete_loop lib cid (length (ps @ ks)) (length ps) (length ks) buf w = Some (- 1, w') \<and> rk_closed lib v w'
      \<and> STATE w' = STATE w \<and> f_contents v (lfs w') = (f_contents v (lfs w))(nm \<mapsto> concat (ps @ ks))"
  using assms
proof (induction ks arbitrary: ps buf w)
  case Nil
  obtain w1 where "ctap_close_rk_file lib w = (0, w1)" "rk_closed lib v w1" "\<exists>x f. w1 = w\<lparr>lfs := x, f_rk := f\<rparr>"
    "f_contents v (lfs w1) = (f_contents v (lfs w))(nm \<mapsto> concat ps)"
    using rk_close_ok [OF Nil.prems(1)] by auto
  then show ?case by auto
next
  case (Cons k ks)
  let ?all = "ps @ k # ks"
  have bl: "blocks sizeof_residentKey ?all" using Cons.prems(1) by (simp add: rk_at_def)
  obtain w1 where 1: "rk_read lib buf sizeof_residentKey w = (int sizeof_residentKey, k, w1)"
    "rk_at lib v nm ?all (length ps + 1) w1" "rk_frame v w w1"
    using rk_read_ok [OF Cons.prems(1) _ Cons.prems(2)] by auto
  have len: "length k = sizeof_residentKey" using bl by simp
  have cmp: "memcmp CREDENTIAL_TAG_SIZE (cred_rp_id_lookup cid) (cred_rp_id_lookup (rk_id k)) \<noteq> 0
      \<or> memcmp CREDENTIAL_TAG_SIZE (cred_tag cid) (cred_tag (rk_id k)) \<noteq> 0 \<longleftrightarrow> \<not> rk_matches cid k"
    using len Cons.prems(3) by (simp add: memcmp_tag tag_lengths rk_matches_def)
  have key: "key_device_mac w1 = key_device_mac w" using 1(3) by (auto simp: rk_frame_def)
  show ?case
  proof (cases "rk_matches cid k")
    case True
    let ?n = "length ps" and ?u = "uninit (10 * sizeof_residentKey) w1"
    have all: "take (?n + 0) (take ?n ?all @ drop (?n + 1) ?all) @ drop (?n + 0) ?all = ?all" by simp
    obtain w2 j where 2: "shift_loop lib ?n 0 (length ?all - (?n + 1)) ?u w1 = (True, w2)"
      "rk_at lib v nm (ps @ ks @ [last ?all]) j w2" "rk_frame v w1 w2"
      using shift_loop_ok [of lib v nm ?n 0 ?all "?n + 1" w1 "length ks" ?u] 1(2) Cons.prems(5)
      by auto
    obtain w3 where 3: "rk_truncate lib ((length ?all - 1) * sizeof_residentKey) w2 = (0, w3)"
      "rk_at lib v nm (ps @ ks) j w3" "rk_frame v w2 w3"
      using rk_truncate_ok [OF 2(2), of "length ?all - 1"] by auto
    obtain w4 where 4: "ctap_close_rk_file lib w3 = (0, w4)" "rk_closed lib v w4" "\<exists>x f. w4 = w3\<lparr>lfs := x, f_rk := f\<rparr>"
      "f_contents v (lfs w4) = (f_contents v (lfs w3))(nm \<mapsto> concat (ps @ ks))"
      using rk_close_ok [OF 3(2)] by blast
    have fr: "rk_frame v w w3" by (rule rk_frame_trans [OF 1(3) rk_frame_trans [OF 2(3) 3(3)]])
    have w4: "STATE w4 = STATE w" "key_device_mac w4 = key_device_mac w"
      using fr 4(3) by (auto simp: rk_frame_def)
    let ?s = "(STATE w)\<lparr>rk_stored := rk_stored (STATE w) - 1\<rparr>"
    obtain w5 where 5: "authenticator_write_state lib ?s (w4\<lparr>STATE := ?s\<rparr>) = Some w5" "dev_frame (w4\<lparr>STATE := ?s\<rparr>) w5"
      "dev_ok lib v w5" "f_contents v (lfs w5) = (f_contents v (lfs w4))(''state'' \<mapsto> state_envelope (key_device_mac w) ?s)"
      using write_state_stores [of lib v "w4\<lparr>STATE := ?s\<rparr>" ?s] 4(2) Cons.prems(4) w4
      by (auto simp: rk_closed_def dev_ok_def crypto_ok_def state_ok_def)
    have "delete_loop lib cid (length ?all) ?n (Suc (length ks)) buf w = Some (0, w5)"
      using 1(1) cmp True 2(1) 3(1) 4(1) 5(1) w4 key_size_pos
      by (simp add: ctap_decrement_rk_store_def ctap_flush_state_def)
    moreover have "rk_closed lib v w5" "STATE w5 = ?s"
      using 4(2) 5(3) dev_frame_fields [OF 5(2)] by (auto simp: rk_closed_def)
    ultimately show ?thesis
      using True 5(4) 4(4) rk_frame_fields(3) [OF fr] by auto
  next
    case False
    have step: "delete_loop lib cid (length ?all) (length ps) (Suc (length ks)) buf w
        = delete_loop lib cid (length ?all) (length (ps @ [k])) (length ks) k w1"
      using 1(1) cmp False key_size_pos by auto
    have p: "rk_at lib v nm ((ps @ [k]) @ ks) (length (ps @ [k])) w1" "state_ok (STATE w1)"
      "length ((ps @ [k]) @ ks) * sizeof_residentKey \<le> f_limit v"
      using 1(2) Cons.prems(4,5) rk_frame_fields(1) [OF 1(3)] by simp_all
    note IH = Cons.IH [OF p(1) len Cons.prems(3) p(2,3)]
    have eqs: "STATE w1 = STATE w" "f_contents v (lfs w1) = f_contents v (lfs w)" "length ((ps @ [k]) @ ks) = length ?all"
      "(ps @ [k]) @ xs = ps @ k # xs" for xs
      using rk_frame_fields [OF 1(3)] by simp_all
    show ?thesis
    proof (cases "\<exists>k \<in> set ks. rk_matches cid k")
      case True
      then show ?thesis using IH False step unfolding eqs key by auto
    next
      case nomatch: False
      then show ?thesis using IH False step unfolding eqs key by auto
    qed
  qed
qed

section \<open>The properties\<close>

text \<open>C13: The state written to flash is the state read back, whatever the structure read into held, and
  writing it touches no other file; the MAC and the encoding of the envelope match.\<close>

theorem state_survives:
  assumes "dev_ok lib v w" "state_ok s" "state_ok a" "st_version s = STATE_VERSION"
  shows "\<exists>w1 w2. authenticator_write_state lib s w = Some w1 \<and> authenticator_read_state lib a w1 = Some (1, s, w2)
    \<and> (\<forall>n. n \<noteq> ''state'' \<longrightarrow> f_contents v (lfs w2) n = f_contents v (lfs w) n)"
proof -
  obtain w1 where 1: "authenticator_write_state lib s w = Some w1" "dev_frame w w1" "dev_ok lib v w1"
    "f_contents v (lfs w1) = (f_contents v (lfs w))(''state'' \<mapsto> state_envelope (key_device_mac w) s)"
    using write_state_stores [OF assms(1,2)] by blast
  obtain w2 where "authenticator_read_state lib a w1 = Some (1, s, w2)" "f_contents v (lfs w2) = f_contents v (lfs w1)"
    using read_state_stored [OF 1(3) assms(2-4)] 1(4) dev_frame_fields(3) [OF 1(2)] by auto
  then show ?thesis using 1 by auto
qed

definition demo_dev :: "(string \<rightharpoonup> bytes, f_state) dev" where
  "demo_dev = rng.extend demo_rng
     \<lparr>lfs = Map.empty, device_status = 0, up_disabled = False,
      f_rk = \<lparr>fs_handle = \<lparr>f_name = [], f_append = False, f_data = [], f_pos = 0\<rparr>, fs_is_open = False\<rparr>,
      STATE = demo_state, stack = []\<rparr>"

lemma demo_dev_ok: "rk_closed ram_lfs (ram_view 100000) demo_dev" "state_ok (STATE demo_dev)"
  using ram_laws [of 100000] demo_state_ok(1)
  by (simp_all add: rk_closed_def dev_ok_def crypto_ok_def demo_dev_def demo_rng_def demo_crypto_def crypto.defs rng.defs
      sha256_blank_def STATE_ENVELOPE_BUF_SIZE_def)

lemma state_survives_witness:
  "\<exists>w1 w2. authenticator_write_state ram_lfs demo_state demo_dev = Some w1
    \<and> authenticator_read_state ram_lfs (demo_state\<lparr>remaining_tries := 0\<rparr>) w1 = Some (1, demo_state, w2)
    \<and> (\<forall>n. n \<noteq> ''state'' \<longrightarrow> lfs w2 n = lfs demo_dev n)"
proof -
  have "state_ok (demo_state\<lparr>remaining_tries := 0\<rparr>)" using demo_state_ok(1) by (simp add: state_ok_def)
  then show ?thesis
    using state_survives [OF _ demo_state_ok(1) _ demo_state_ok(2), of ram_lfs "ram_view 100000" demo_dev
        "demo_state\<lparr>remaining_tries := 0\<rparr>"] demo_dev_ok(1)
    by (simp add: rk_closed_def)
qed

text \<open>C9: Storing a resident key replaces, in the file of its relying party's class, the first key of the
  same relying party and user, or appends the key when there is none; the counter of stored keys grows
  exactly then, and no other file but the state file changes.\<close>

theorem rk_overwrite_refines:
  assumes "rk_closed lib v w" "state_ok (STATE w)" "length rk = sizeof_residentKey"
    "rk_file v (rpid_hash_to_file (cred_rp_id_lookup (rk_id rk))) ks (lfs w)"
    "(length ks + 1) * sizeof_residentKey \<le> f_limit v"
  shows "\<exists>w'. ctap_overwrite_rk lib rk w = Some (0, w') \<and> rk_closed lib v w'
    \<and> rk_file v (rpid_hash_to_file (cred_rp_id_lookup (rk_id rk))) (rk_insert rk ks) (lfs w')
    \<and> STATE w' = (if \<exists>k \<in> set ks. rk_same rk k then STATE w else (STATE w)\<lparr>rk_stored := rk_stored (STATE w) + 1\<rparr>)
    \<and> (\<forall>n. n \<noteq> rpid_hash_to_file (cred_rp_id_lookup (rk_id rk)) \<longrightarrow> n \<noteq> ''state'' \<longrightarrow>
         f_contents v (lfs w') n = f_contents v (lfs w) n)"
proof -
  let ?nm = "rpid_hash_to_file (cred_rp_id_lookup (rk_id rk))" and ?u = "uninit sizeof_residentKey w"
  have st: "?nm \<noteq> ''state''" by (simp add: rpid_hash_to_file_def)
  have bl: "blocks sizeof_residentKey ks" using assms(4) by (simp add: rk_file_def)
  have ins: "blocks sizeof_residentKey (rk_insert rk ks)" if "blocks sizeof_residentKey ks" for ks
    using that assms(3) by (induction ks) auto
  obtain w1 where 1: "ctap_open_rk_file lib (cred_rp_id_lookup (rk_id rk)) w = (int (length ks), w1)" "rk_at lib v ?nm ks 0 w1"
    "\<exists>x f. w1 = w\<lparr>lfs := x, f_rk := f\<rparr>" "\<And>n. n \<noteq> ?nm \<Longrightarrow> f_contents v (lfs w1) n = f_contents v (lfs w) n"
    using rk_open_ok [OF assms(1,4)] by blast
  have s1: "STATE w1 = STATE w" "stack w1 = stack w" using 1(3) by auto
  have u: "uninit sizeof_residentKey w1 = ?u" by (simp add: uninit_def s1)
  note L = overwrite_loop_ok [of lib v ?nm "[]" ks w1 ?u rk, simplified, OF 1(2) assms(3)]
  show ?thesis
  proof (cases "\<exists>k \<in> set ks. rk_same rk k")
    case True
    then obtain w2 where 2: "overwrite_loop lib rk 0 (length ks) ?u w1 = (Inl 0, w2)" "rk_closed lib v w2"
      "\<exists>x f. w2 = w1\<lparr>lfs := x, f_rk := f\<rparr>" "f_contents v (lfs w2) = (f_contents v (lfs w1))(?nm \<mapsto> concat (rk_insert rk ks))"
      using L assms(5) by auto
    have "ctap_overwrite_rk lib rk w = Some (0, w2)" using 1(1) 2(1) u by (simp add: ctap_overwrite_rk_def)
    moreover have "STATE w2 = STATE w" using 2(3) s1(1) by auto
    ultimately show ?thesis using True 2(2,4) ins [OF bl] 1(4) by (auto simp: rk_file_def)
  next
    case False
    then obtain w2 where 2: "overwrite_loop lib rk 0 (length ks) ?u w1 = (Inr (), w2)" "rk_at lib v ?nm ks (length ks) w2"
      "rk_frame v w1 w2"
      using L assms(5) by auto
    have app: "rk_insert rk ks = ks @ [rk]" if "\<forall>k \<in> set ks. \<not> rk_same rk k" for ks
      using that by (induction ks) auto
    obtain w3 j where 3: "rk_write_at lib rk (length ks * sizeof_residentKey) w2 = (int sizeof_residentKey, w3)"
      "rk_at lib v ?nm (ks @ [rk]) j w3" "rk_frame v w2 w3"
      using rk_write_at_ok [OF 2(2), of "[rk]" "length ks"] assms(3,5) by auto
    obtain w4 where 4: "ctap_close_rk_file lib w3 = (0, w4)" "rk_closed lib v w4" "\<exists>x f. w4 = w3\<lparr>lfs := x, f_rk := f\<rparr>"
      "f_contents v (lfs w4) = (f_contents v (lfs w3))(?nm \<mapsto> concat (ks @ [rk]))"
      using rk_close_ok [OF 3(2)] by blast
    have fr: "rk_frame v w1 w3" by (rule rk_frame_trans [OF 2(3) 3(3)])
    have s4: "STATE w4 = STATE w" using fr 4(3) s1(1) by (auto simp: rk_frame_def)
    let ?s = "(STATE w)\<lparr>rk_stored := rk_stored (STATE w) + 1\<rparr>"
    obtain w5 where 5: "authenticator_write_state lib ?s (w4\<lparr>STATE := ?s\<rparr>) = Some w5" "dev_frame (w4\<lparr>STATE := ?s\<rparr>) w5"
      "dev_ok lib v w5" "f_contents v (lfs w5) = (f_contents v (lfs w4))(''state'' \<mapsto> state_envelope (key_device_mac w4) ?s)"
      using write_state_stores [of lib v "w4\<lparr>STATE := ?s\<rparr>" ?s] 4(2) assms(2)
      by (auto simp: rk_closed_def dev_ok_def crypto_ok_def state_ok_def)
    have "ctap_overwrite_rk lib rk w = Some (0, w5)"
      using 1(1) 2(1) 3(1) 4(1) 5(1) u s4 key_size_pos
      by (simp add: ctap_overwrite_rk_def Let_def ctap_increment_rk_store_def ctap_flush_state_def)
    moreover have "rk_closed lib v w5" "STATE w5 = ?s"
      using 4(2) 5(3) dev_frame_fields [OF 5(2)] by (auto simp: rk_closed_def)
    ultimately show ?thesis
      using False app [of ks] ins [OF bl] 5(4) 4(4) rk_frame_fields(3) [OF fr] 1(4) st by (auto simp: rk_file_def)
  qed
qed

definition demo_rk :: "byte \<Rightarrow> bytes" where
  "demo_rk b = replicate sizeof_residentKey b"

lemma demo_rk_file: "rk_file (ram_view 100000) nm [] (lfs demo_dev)"
  by (simp add: rk_file_def demo_dev_def rng.defs)

lemma rk_overwrite_refines_witness:
  "\<exists>w'. ctap_overwrite_rk ram_lfs (demo_rk 5) demo_dev = Some (0, w') \<and> lfs w' ''rk/0.dat'' = Some (demo_rk 5)
    \<and> rk_stored (STATE w') = 301"
proof -
  have nm: "rpid_hash_to_file (cred_rp_id_lookup (rk_id (demo_rk 5))) = ''rk/0.dat''"
    by (simp add: rpid_hash_to_file_def cred_rp_id_lookup_def rk_id_def demo_rk_def sizeof_residentKey_def
        sizeof_CredentialId_def CREDENTIAL_TAG_SIZE_def slice_def hex_digit_def)
  have "length (demo_rk 5) = sizeof_residentKey" by (simp add: demo_rk_def)
  from rk_overwrite_refines [OF demo_dev_ok this demo_rk_file] nm
  obtain w' where "ctap_overwrite_rk ram_lfs (demo_rk 5) demo_dev = Some (0, w')"
    "rk_file (ram_view 100000) ''rk/0.dat'' [demo_rk 5] (lfs w')"
    "STATE w' = (STATE demo_dev)\<lparr>rk_stored := rk_stored (STATE demo_dev) + 1\<rparr>"
    by (auto simp: sizeof_residentKey_def)
  then show ?thesis by (auto simp: rk_file_def demo_dev_def rng.defs demo_state_def)
qed

text \<open>C8: Deleting a credential removes the first key with its relying party and tag from the file, moving
  the later keys down without a gap and keeping their order, and counts down; a credential that is not
  stored leaves the keys as they are and is an error.\<close>

theorem rk_delete_refines:
  assumes "rk_closed lib v w" "state_ok (STATE w)" "length cid = sizeof_CredentialId"
    "rk_file v (rpid_hash_to_file (cred_rp_id_lookup cid)) ks (lfs w)" "length ks * sizeof_residentKey \<le> f_limit v"
  shows "\<exists>ret w'. ctap_delete_rk lib cid w = Some (ret, w') \<and> rk_closed lib v w'
    \<and> ret = (if \<exists>k \<in> set ks. rk_matches cid k then 0 else - 1)
    \<and> rk_file v (rpid_hash_to_file (cred_rp_id_lookup cid)) (rk_remove cid ks) (lfs w')
    \<and> STATE w' = (if ret = 0 then (STATE w)\<lparr>rk_stored := rk_stored (STATE w) - 1\<rparr> else STATE w)
    \<and> (\<forall>n. n \<noteq> rpid_hash_to_file (cred_rp_id_lookup cid) \<longrightarrow> n \<noteq> ''state'' \<longrightarrow>
         f_contents v (lfs w') n = f_contents v (lfs w) n)"
proof -
  let ?nm = "rpid_hash_to_file (cred_rp_id_lookup cid)" and ?u = "uninit sizeof_residentKey w"
  have st: "?nm \<noteq> ''state''" by (simp add: rpid_hash_to_file_def)
  have bl: "blocks sizeof_residentKey ks" using assms(4) by (simp add: rk_file_def)
  have rem: "blocks sizeof_residentKey (rk_remove cid ks)" if "blocks sizeof_residentKey ks" for ks
    using that by (induction ks) auto
  obtain w1 where 1: "ctap_open_rk_file lib (cred_rp_id_lookup cid) w = (int (length ks), w1)" "rk_at lib v ?nm ks 0 w1"
    "\<exists>x f. w1 = w\<lparr>lfs := x, f_rk := f\<rparr>" "\<And>n. n \<noteq> ?nm \<Longrightarrow> f_contents v (lfs w1) n = f_contents v (lfs w) n"
    using rk_open_ok [OF assms(1,4)] by blast
  have s1: "STATE w1 = STATE w" "stack w1 = stack w" using 1(3) by auto
  have u: "uninit sizeof_residentKey w1 = ?u" by (simp add: uninit_def s1)
  show ?thesis
  proof (cases "ks = []")
    case True
    obtain w2 where 2: "ctap_close_rk_file lib w1 = (0, w2)" "rk_closed lib v w2" "\<exists>x f. w2 = w1\<lparr>lfs := x, f_rk := f\<rparr>"
      "f_contents v (lfs w2) = (f_contents v (lfs w1))(?nm \<mapsto> [])"
      using rk_close_ok [OF 1(2)] True by auto
    have "ctap_delete_rk lib cid w = Some (- 1, w2)" using 1(1) 2(1) True by (simp add: ctap_delete_rk_def)
    moreover have "STATE w2 = STATE w" using 2(3) s1 by auto
    ultimately show ?thesis using True 2(2,4) 1(4) by (auto simp: rk_file_def)
  next
    case False
    have call: "ctap_delete_rk lib cid w = delete_loop lib cid (length ks) 0 (length ks) ?u w1"
      using 1(1) False u by (simp add: ctap_delete_rk_def)
    note L = delete_loop_ok [of lib v ?nm "[]" ks w1 ?u cid, simplified, OF 1(2) assms(3)]
    show ?thesis
    proof (cases "\<exists>k \<in> set ks. rk_matches cid k")
      case True
      then obtain w2 where "delete_loop lib cid (length ks) 0 (length ks) ?u w1 = Some (0, w2)" "rk_closed lib v w2"
        "STATE w2 = (STATE w)\<lparr>rk_stored := rk_stored (STATE w) - 1\<rparr>"
        "f_contents v (lfs w2) = (f_contents v (lfs w1))(?nm \<mapsto> concat (rk_remove cid ks),
           ''state'' \<mapsto> state_envelope (key_device_mac w1) (STATE w2))"
        using L assms(2,5) s1 by auto
      then show ?thesis using True call rem [OF bl] 1(4) st by (auto simp: rk_file_def)
    next
      case nomatch: False
      have same: "rk_remove cid ks = ks" if "\<forall>k \<in> set ks. \<not> rk_matches cid k" for ks
        using that by (induction ks) auto
      obtain w2 where "delete_loop lib cid (length ks) 0 (length ks) ?u w1 = Some (- 1, w2)" "rk_closed lib v w2"
        "STATE w2 = STATE w" "f_contents v (lfs w2) = (f_contents v (lfs w1))(?nm \<mapsto> concat ks)"
        using nomatch L assms(2,5) s1 by auto
      then show ?thesis using nomatch call bl 1(4) same [of ks] by (auto simp: rk_file_def)
    qed
  qed
qed

lemma rk_delete_refines_witness:
  "\<exists>w'. ctap_delete_rk ram_lfs (replicate sizeof_CredentialId 5)
      (demo_dev\<lparr>lfs := [''rk/0.dat'' \<mapsto> demo_rk 1 @ demo_rk 5 @ demo_rk 2]\<rparr>) = Some (0, w')
    \<and> lfs w' ''rk/0.dat'' = Some (demo_rk 1 @ demo_rk 2) \<and> rk_stored (STATE w') = 299"
proof -
  let ?w = "demo_dev\<lparr>lfs := [''rk/0.dat'' \<mapsto> demo_rk 1 @ demo_rk 5 @ demo_rk 2]\<rparr>" and ?c = "replicate sizeof_CredentialId (5 :: byte)"
  have nm: "rpid_hash_to_file (cred_rp_id_lookup ?c) = ''rk/0.dat''"
    by (simp add: rpid_hash_to_file_def cred_rp_id_lookup_def sizeof_CredentialId_def CREDENTIAL_TAG_SIZE_def slice_def hex_digit_def)
  have m: "rk_matches ?c (demo_rk b) \<longleftrightarrow> b = 5" for b
    by (auto simp: rk_matches_def cred_rp_id_lookup_def cred_tag_def rk_id_def demo_rk_def sizeof_residentKey_def
        sizeof_CredentialId_def CREDENTIAL_TAG_SIZE_def slice_def)
  have ok: "rk_closed ram_lfs (ram_view 100000) ?w" "state_ok (STATE ?w)" using demo_dev_ok
    by (simp_all add: rk_closed_def dev_ok_def crypto_ok_def)
  have "rk_file (ram_view 100000) ''rk/0.dat'' [demo_rk 1, demo_rk 5, demo_rk 2] (lfs ?w)"
    by (simp add: rk_file_def demo_rk_def)
  from rk_delete_refines [OF ok, of ?c "[demo_rk 1, demo_rk 5, demo_rk 2]"] this
  obtain w' where w': "ctap_delete_rk ram_lfs ?c ?w = Some (0, w')"
    "rk_file (ram_view 100000) ''rk/0.dat'' [demo_rk 1, demo_rk 2] (lfs w')"
    "STATE w' = (STATE ?w)\<lparr>rk_stored := rk_stored (STATE ?w) - 1\<rparr>"
    by (auto simp: nm m sizeof_residentKey_def)
  then show ?thesis by (auto simp: rk_file_def demo_dev_def rng.defs demo_state_def)
qed



end
