(* ===== verification/Ctap_Parse.thy ===== *)
theory Ctap_Parse
  imports Device
begin

text \<open>
  \<open>fido2/src/ctap_parse.c\<close> and \<open>fido2/src/cose_key.c\<close>: reading the parts of a request that several
  commands share, and COSE keys. A parsing function returns \<open>Inl\<close> a status to be passed on, or
  \<open>Inr\<close> the structure it filled; \<open>None\<close> is an assertion that failed in the CBOR parser. A structure
  is not looked at any more after an error, so it is not part of an error result.

  The loops over maps with integer keys and over maps with text keys have the same shape everywhere;
  they are \<open>int_map_parse\<close> and \<open>text_map_parse\<close>, with the body of the loop as an argument.
\<close>

type_synonym 'a pres = "(CtapError + 'a) option"

definition cbor_check :: "CborError \<Rightarrow> 'a pres \<Rightarrow> 'a pres" where
  "cbor_check err r = (if err \<noteq> CborNoError then Some (Inl CTAP2_ERR_INVALID_CBOR) else r)"

definition ctap_check :: "'a pres \<Rightarrow> ('a \<Rightarrow> 'b pres) \<Rightarrow> 'b pres" where
  "ctap_check r f = Option.bind r (\<lambda>x. case x of Inl e \<Rightarrow> Some (Inl e) | Inr a \<Rightarrow> f a)"

section \<open>Maps\<close>

fun int_map_loop :: "(int \<Rightarrow> CborValue \<Rightarrow> 's \<Rightarrow> 's pres) \<Rightarrow> nat \<Rightarrow> CborValue \<Rightarrow> 's \<Rightarrow> 's pres" where
  "int_map_loop body 0 it s = Some (Inr s)"
| "int_map_loop body (Suc n) it s =
     (if cbor_value_get_type it \<noteq> CborIntegerType then Some (Inl CTAP2_ERR_INVALID_CBOR)
      else do {
        (err, key) \<leftarrow> cbor_value_get_int_checked it;
        cbor_check err (do {
          (err, it) \<leftarrow> cbor_value_advance it;
          cbor_check err (ctap_check (body key it s) (\<lambda>s. do {
            (err, it) \<leftarrow> cbor_value_advance it;
            cbor_check err (int_map_loop body n it s) })) }) })"

definition enter_map :: "CborValue \<Rightarrow> (nat \<Rightarrow> CborValue \<Rightarrow> 'a pres) \<Rightarrow> 'a pres" where
  "enter_map it f =
     (if cbor_value_get_type it \<noteq> CborMapType then Some (Inl CTAP2_ERR_INVALID_CBOR)
      else do {
        (err, map) \<leftarrow> cbor_value_enter_container it;
        cbor_check err (do {
          (err, n) \<leftarrow> cbor_value_get_map_length it;
          cbor_check err (f n map) }) })"

definition int_map_parse :: "(int \<Rightarrow> CborValue \<Rightarrow> 's \<Rightarrow> 's pres) \<Rightarrow> CborValue \<Rightarrow> 's \<Rightarrow> 's pres" where
  "int_map_parse body it s = enter_map it (\<lambda>n map. int_map_loop body n map s)"

text \<open>The key buffer lives outside the loop; its last byte is set to zero.\<close>

fun text_map_loop :: "(bytes \<Rightarrow> CborValue \<Rightarrow> 's \<Rightarrow> 's pres) \<Rightarrow> nat \<Rightarrow> CborValue \<Rightarrow> bytes \<Rightarrow> 's \<Rightarrow> 's pres" where
  "text_map_loop body 0 it key s = Some (Inr s)"
| "text_map_loop body (Suc n) it key s =
     (if cbor_value_get_type it \<noteq> CborTextStringType then Some (Inl CTAP2_ERR_INVALID_CBOR)
      else do {
        (err, key, _) \<leftarrow> cbor_value_copy_text_string it key (length key);
        if err = CborErrorOutOfMemory then Some (Inl CTAP2_ERR_LIMIT_EXCEEDED)
        else cbor_check err (do {
          let key = key[length key - 1 := 0];
          (err, it) \<leftarrow> cbor_value_advance it;
          cbor_check err (ctap_check (body key it s) (\<lambda>s. do {
            (err, it) \<leftarrow> cbor_value_advance it;
            cbor_check err (text_map_loop body n it key s) })) }) })"

definition text_map_parse :: "(bytes \<Rightarrow> CborValue \<Rightarrow> 's \<Rightarrow> 's pres) \<Rightarrow> bytes \<Rightarrow> CborValue \<Rightarrow> 's \<Rightarrow> 's pres" where
  "text_map_parse body key it s = enter_map it (\<lambda>n map. text_map_loop body n map key s)"

section \<open>Values\<close>

definition ctap_parse_fixed_length_byte_string :: "CborValue \<Rightarrow> bytes \<Rightarrow> nat \<Rightarrow> bytes pres" where
  "ctap_parse_fixed_length_byte_string it dst len =
     (if cbor_value_get_type it \<noteq> CborByteStringType then Some (Inl CTAP2_ERR_INVALID_CBOR)
      else do {
        (err, dst, sz) \<leftarrow> cbor_value_copy_byte_string it dst len;
        cbor_check err (if sz \<noteq> len then Some (Inl CTAP1_ERR_INVALID_LENGTH) else Some (Inr dst)) })"

text \<open>An integer value, with the type check in front of it.\<close>

definition parse_int :: "CborValue \<Rightarrow> int pres" where
  "parse_int it =
     (if cbor_value_get_type it \<noteq> CborIntegerType then Some (Inl CTAP2_ERR_INVALID_CBOR)
      else do { (err, v) \<leftarrow> cbor_value_get_int_checked it; cbor_check err (Some (Inr v)) })"

record ctap_options =
  opt_rk :: bool
  opt_uv :: bool
  opt_up :: bool

definition key_is :: "bytes \<Rightarrow> string \<Rightarrow> bool option" where
  "key_is key name = do {
     r \<leftarrow> strncmp key (c_string name) (length name);
     Some (r = 0 \<and> key ! length name = 0) }"

definition options_body :: "bytes \<Rightarrow> CborValue \<Rightarrow> ctap_options \<Rightarrow> ctap_options pres" where
  "options_body key it opts =
     (if cbor_value_get_type it \<noteq> CborBooleanType then Some (Inl CTAP2_ERR_INVALID_CBOR)
      else do {
        rk \<leftarrow> key_is key ''rk'';
        uv \<leftarrow> key_is key ''uv'';
        up \<leftarrow> key_is key ''up'';
        b \<leftarrow> cbor_value_get_boolean it;
        Some (Inr (if rk then opts\<lparr>opt_rk := b\<rparr> else if uv then opts\<lparr>opt_uv := b\<rparr>
                   else if up then opts\<lparr>opt_up := b\<rparr> else opts)) })"

definition ctap_parse_options :: "bytes \<Rightarrow> CborValue \<Rightarrow> ctap_options \<Rightarrow> ctap_options pres" where
  "ctap_parse_options key it opts = text_map_parse options_body key it opts"

definition PIN_UV_AUTH_PARAM_MAX_SIZE :: nat where "PIN_UV_AUTH_PARAM_MAX_SIZE = 32"
definition PIN_UV_AUTH_PARAM_V2_SIZE :: nat where "PIN_UV_AUTH_PARAM_V2_SIZE = 32"
definition PIN_UV_AUTH_PARAM_V1_SIZE :: nat where "PIN_UV_AUTH_PARAM_V1_SIZE = 16"

text \<open>The result is whether the string was empty, the buffer and the length.\<close>

definition ctap_parse_pinUvAuthParam :: "CborValue \<Rightarrow> bool \<Rightarrow> bytes \<Rightarrow> (bool \<times> bytes \<times> byte) pres" where
  "ctap_parse_pinUvAuthParam it emp param =
     (if cbor_value_get_type it \<noteq> CborByteStringType then Some (Inl CTAP2_ERR_INVALID_CBOR)
      else do {
        (err, sz) \<leftarrow> cbor_value_get_string_length it;
        cbor_check err (
          if sz = 0 then Some (Inr (True, param, 0))
          else do {
            (err, param, sz) \<leftarrow> cbor_value_copy_byte_string it param PIN_UV_AUTH_PARAM_MAX_SIZE;
            cbor_check err (
              if sz \<noteq> PIN_UV_AUTH_PARAM_V2_SIZE \<and> sz \<noteq> PIN_UV_AUTH_PARAM_V1_SIZE
              then Some (Inl CTAP1_ERR_INVALID_LENGTH)
              else Some (Inr (emp, param, of_nat sz))) }) })"

definition DOMAIN_NAME_MAX_SIZE :: nat where "DOMAIN_NAME_MAX_SIZE = 253"
definition RP_NAME_LIMIT :: nat where "RP_NAME_LIMIT = 32"
definition USER_ID_MAX_SIZE :: nat where "USER_ID_MAX_SIZE = 64"
definition USER_NAME_LIMIT :: nat where "USER_NAME_LIMIT = 65"
definition DISPLAY_NAME_LIMIT :: nat where "DISPLAY_NAME_LIMIT = 32"

text \<open>The structure's buffer for the name has one byte more than is copied, set to zero.\<close>

record rpId =
  rp_id :: bytes
  rp_size :: nat
  rp_name :: bytes

definition ctap_parse_rp_id :: "rpId \<Rightarrow> CborValue \<Rightarrow> rpId pres" where
  "ctap_parse_rp_id rp it =
     (if cbor_value_get_type it \<noteq> CborTextStringType then Some (Inl CTAP2_ERR_INVALID_CBOR)
      else do {
        (err, b, sz) \<leftarrow> cbor_value_copy_text_string it (rp_id rp) DOMAIN_NAME_MAX_SIZE;
        if err = CborErrorOutOfMemory then Some (Inl CTAP2_ERR_LIMIT_EXCEEDED)
        else cbor_check err (Some (Inr (rp\<lparr>rp_id := b[DOMAIN_NAME_MAX_SIZE := 0], rp_size := sz\<rparr>))) })"

record CTAP_userEntity =
  user_id :: bytes
  user_id_size :: byte
  user_name :: bytes
  user_displayName :: bytes

text \<open>A name that does not fit is cut off; its last byte is zero.\<close>

definition parse_name :: "CborValue \<Rightarrow> bytes \<Rightarrow> bytes pres" where
  "parse_name it buf =
     (if cbor_value_get_type it \<noteq> CborTextStringType then Some (Inl CTAP2_ERR_INVALID_CBOR)
      else do {
        (err, b, _) \<leftarrow> cbor_value_copy_text_string it buf (length buf);
        let r = Some (Inr (b[length buf - 1 := 0]));
        if err \<noteq> CborErrorOutOfMemory then cbor_check err r else r })"

definition parse_user_id :: "CborValue \<Rightarrow> CTAP_userEntity \<Rightarrow> CTAP_userEntity pres" where
  "parse_user_id it user =
     (if cbor_value_get_type it \<noteq> CborByteStringType then Some (Inl CTAP2_ERR_INVALID_CBOR)
      else do {
        (err, b, sz) \<leftarrow> cbor_value_copy_byte_string it (user_id user) USER_ID_MAX_SIZE;
        if err = CborErrorOutOfMemory then Some (Inl CTAP2_ERR_LIMIT_EXCEEDED)
        else cbor_check err (
          if sz > 255 then Some (Inl CTAP2_ERR_INVALID_CBOR)
          else Some (Inr (user\<lparr>user_id := b, user_id_size := of_nat sz\<rparr>))) })"

definition user_body :: "bytes \<Rightarrow> CborValue \<Rightarrow> CTAP_userEntity \<Rightarrow> CTAP_userEntity pres" where
  "user_body key it user = do {
     is_id \<leftarrow> strcmp key (c_string ''id'');
     is_name \<leftarrow> strcmp key (c_string ''name'');
     is_display \<leftarrow> strcmp key (c_string ''displayName'');
     is_icon \<leftarrow> strcmp key (c_string ''icon'');
     if is_id = 0 then parse_user_id it user
     else if is_name = 0
     then ctap_check (parse_name it (user_name user)) (\<lambda>b. Some (Inr (user\<lparr>user_name := b\<rparr>)))
     else if is_display = 0
     then ctap_check (parse_name it (user_displayName user)) (\<lambda>b. Some (Inr (user\<lparr>user_displayName := b\<rparr>)))
     else if is_icon = 0 \<and> cbor_value_get_type it \<noteq> CborTextStringType then Some (Inl CTAP2_ERR_INVALID_CBOR)
     else Some (Inr user) }"

definition ctap_parse_user_entity :: "bytes \<Rightarrow> CTAP_userEntity \<Rightarrow> CborValue \<Rightarrow> CTAP_userEntity pres" where
  "ctap_parse_user_entity key user it = text_map_parse user_body key it user"

section \<open>Credential descriptors\<close>

definition PUB_KEY_CRED_PUB_KEY :: int where "PUB_KEY_CRED_PUB_KEY = 0x01"
definition PUB_KEY_CRED_CTAP1 :: int where "PUB_KEY_CRED_CTAP1 = 0x41"
definition PUB_KEY_CRED_UNKNOWN :: int where "PUB_KEY_CRED_UNKNOWN = 0x3F"

definition U2F_KEY_HANDLE_TAG_SIZE :: nat where "U2F_KEY_HANDLE_TAG_SIZE = 16"
definition U2F_KEY_HANDLE_KEY_SIZE :: nat where "U2F_KEY_HANDLE_KEY_SIZE = 32"
definition U2F_KEY_HANDLE_SIZE :: nat where
  "U2F_KEY_HANDLE_SIZE = U2F_KEY_HANDLE_KEY_SIZE + U2F_KEY_HANDLE_TAG_SIZE"

record CTAP_credentialDescriptor =
  cred_type :: int
  cred_id :: bytes

text \<open>The type string, once the id has been stored; \<open>keytype\<close> is the local buffer of twelve bytes.\<close>

definition descriptor_type ::
  "bytes \<Rightarrow> CborValue \<Rightarrow> CTAP_credentialDescriptor \<Rightarrow> CTAP_credentialDescriptor pres" where
  "descriptor_type keytype arr cred = do {
     (err, val) \<leftarrow> cbor_value_map_find_value arr (butlast (c_string ''type''));
     cbor_check err (
       if cbor_value_get_type val \<noteq> CborTextStringType then Some (Inl CTAP2_ERR_MISSING_PARAMETER)
       else do {
         (err, keytype, _) \<leftarrow> cbor_value_copy_text_string val keytype (length keytype);
         let cred = (if err = CborErrorOutOfMemory then cred\<lparr>cred_type := PUB_KEY_CRED_UNKNOWN\<rparr> else cred);
         cbor_check (if err = CborErrorOutOfMemory then CborNoError else err) (do {
           pk \<leftarrow> key_is keytype ''public-key'';
           Some (Inr (if pk then (if cred_type cred = 0 then cred\<lparr>cred_type := PUB_KEY_CRED_PUB_KEY\<rparr> else cred)
                      else cred\<lparr>cred_type := PUB_KEY_CRED_UNKNOWN\<rparr>)) }) }) }"

definition ctap_parse_pubkey_credential_descriptor ::
  "bytes \<Rightarrow> CborValue \<Rightarrow> CTAP_credentialDescriptor \<Rightarrow> CTAP_credentialDescriptor pres" where
  "ctap_parse_pubkey_credential_descriptor keytype arr cred =
     (let cred = cred\<lparr>cred_type := 0\<rparr>
      in if cbor_value_get_type arr \<noteq> CborMapType then Some (Inl CTAP2_ERR_INVALID_CBOR)
         else do {
           (err, val) \<leftarrow> cbor_value_map_find_value arr (butlast (c_string ''id''));
           cbor_check err (
             if cbor_value_get_type val \<noteq> CborByteStringType then Some (Inl CTAP2_ERR_MISSING_PARAMETER)
             else do {
               (err, sz) \<leftarrow> cbor_value_calculate_string_length val;
               cbor_check err (
                 if sz > sizeof_CredentialId then Some (Inr (cred\<lparr>cred_type := PUB_KEY_CRED_UNKNOWN\<rparr>))
                 else do {
                   (err, b, buflen) \<leftarrow> cbor_value_copy_byte_string val (cred_id cred) sizeof_CredentialId;
                   let cred = cred\<lparr>cred_id := b\<rparr>;
                   let cred = (if buflen = U2F_KEY_HANDLE_SIZE then cred\<lparr>cred_type := PUB_KEY_CRED_CTAP1\<rparr> else cred);
                   cbor_check err (descriptor_type keytype arr cred) }) }) })"

section \<open>COSE keys\<close>

definition COSE_KEY_LABEL_KTY :: int where "COSE_KEY_LABEL_KTY = 1"
definition COSE_KEY_LABEL_ALG :: int where "COSE_KEY_LABEL_ALG = 3"
definition COSE_KEY_LABEL_CRV :: int where "COSE_KEY_LABEL_CRV = - 1"
definition COSE_KEY_LABEL_X :: int where "COSE_KEY_LABEL_X = - 2"
definition COSE_KEY_LABEL_Y :: int where "COSE_KEY_LABEL_Y = - 3"
definition COSE_KEY_KTY_OKP :: int where "COSE_KEY_KTY_OKP = 1"
definition COSE_KEY_KTY_EC2 :: int where "COSE_KEY_KTY_EC2 = 2"
definition COSE_KEY_CRV_P256 :: int where "COSE_KEY_CRV_P256 = 1"
definition COSE_KEY_CRV_ED25519 :: int where "COSE_KEY_CRV_ED25519 = 6"
definition COSE_ALG_ES256 :: int where "COSE_ALG_ES256 = - 7"
definition COSE_ALG_EDDSA :: int where "COSE_ALG_EDDSA = - 8"
definition COSE_ALG_ECDH_ES_HKDF_256 :: int where "COSE_ALG_ECDH_ES_HKDF_256 = - 25"

record COSE_key =
  cose_x :: bytes
  cose_y :: bytes
  cose_kty :: int
  cose_crv :: int

text \<open>The calls between creating the map and closing it.\<close>

definition cose_key_calls :: "bytes \<Rightarrow> bytes \<Rightarrow> int \<Rightarrow> enc_call list" where
  "cose_key_calls x y algtype =
     [\<lambda>e. cbor_encode_int e (of_int COSE_KEY_LABEL_KTY),
      \<lambda>e. cbor_encode_int e (of_int (if algtype \<noteq> COSE_ALG_EDDSA then COSE_KEY_KTY_EC2 else COSE_KEY_KTY_OKP)),
      \<lambda>e. cbor_encode_int e (of_int COSE_KEY_LABEL_ALG),
      \<lambda>e. cbor_encode_int e (of_int algtype),
      \<lambda>e. cbor_encode_int e (of_int COSE_KEY_LABEL_CRV),
      \<lambda>e. cbor_encode_int e (of_int (if algtype \<noteq> COSE_ALG_EDDSA then COSE_KEY_CRV_P256 else COSE_KEY_CRV_ED25519)),
      \<lambda>e. cbor_encode_int e (of_int COSE_KEY_LABEL_X),
      \<lambda>e. cbor_encode_byte_string e (take 32 x)]
     @ (if algtype \<noteq> COSE_ALG_EDDSA
        then [\<lambda>e. cbor_encode_int e (of_int COSE_KEY_LABEL_Y), \<lambda>e. cbor_encode_byte_string e (take 32 y)]
        else [])"

definition cose_key_add :: "CborEncoder \<Rightarrow> bytes \<Rightarrow> bytes \<Rightarrow> int \<Rightarrow> CtapError \<times> CborEncoder" where
  "cose_key_add cose_key x y algtype =
     (let (err, e) = enc_map (if algtype \<noteq> COSE_ALG_EDDSA then 5 else 4) (cose_key_calls x y algtype) cose_key
      in (if err \<noteq> CborNoError then CTAP2_ERR_INVALID_CBOR else CTAP2_OK, e))"

definition cose_key_generate ::
  "'a crypto_scheme ecc_lib \<Rightarrow> CborEncoder \<Rightarrow> bytes \<Rightarrow> int \<Rightarrow> int \<Rightarrow> 'a crypto_scheme
     \<Rightarrow> (CtapError \<times> CborEncoder \<times> 'a crypto_scheme) option" where
  "cose_key_generate lib cose_key hmac_input credtype algtype w =
     (if credtype \<noteq> PUB_KEY_CRED_PUB_KEY then Some (CTAP2_ERR_INVALID_CREDENTIAL, cose_key, w)
      else if algtype = COSE_ALG_ES256 then do {
        ((x, y), w) \<leftarrow> crypto_ecc256_derive_public_key lib hmac_input w;
        let (r, e) = cose_key_add cose_key x y algtype;
        Some (r, e, w) }
      else if algtype = COSE_ALG_EDDSA then do {
        (x, w) \<leftarrow> fido2_crypto_ed25519_derive_public_key lib hmac_input w;
        let (r, e) = cose_key_add cose_key x [] algtype;
        Some (r, e, w) }
      else Some (CTAP2_ERR_UNSUPPORTED_ALGORITHM, cose_key, w))"

text \<open>The state of the loop: the key and whether the two coordinates were seen.\<close>

definition cose_body :: "int \<Rightarrow> CborValue \<Rightarrow> COSE_key \<times> bool \<times> bool \<Rightarrow> (COSE_key \<times> bool \<times> bool) pres" where
  "cose_body key it = (\<lambda>(cose, xkey, ykey).
     if key = COSE_KEY_LABEL_KTY then ctap_check (parse_int it) (\<lambda>v. Some (Inr (cose\<lparr>cose_kty := v\<rparr>, xkey, ykey)))
     else if key = COSE_KEY_LABEL_ALG then Some (Inr (cose, xkey, ykey))
     else if key = COSE_KEY_LABEL_CRV then ctap_check (parse_int it) (\<lambda>v. Some (Inr (cose\<lparr>cose_crv := v\<rparr>, xkey, ykey)))
     else if key = COSE_KEY_LABEL_X
     then ctap_check (ctap_parse_fixed_length_byte_string it (cose_x cose) 32) (\<lambda>b. Some (Inr (cose\<lparr>cose_x := b\<rparr>, True, ykey)))
     else if key = COSE_KEY_LABEL_Y
     then ctap_check (ctap_parse_fixed_length_byte_string it (cose_y cose) 32) (\<lambda>b. Some (Inr (cose\<lparr>cose_y := b\<rparr>, xkey, True)))
     else Some (Inr (cose, xkey, ykey)))"

definition cose_key_parse :: "CborValue \<Rightarrow> COSE_key \<Rightarrow> COSE_key pres" where
  "cose_key_parse it cose =
     ctap_check (int_map_parse cose_body it (cose\<lparr>cose_kty := 0, cose_crv := 0\<rparr>, False, False)) (\<lambda>(cose, xkey, ykey).
       if \<not> xkey \<or> \<not> ykey \<or> cose_kty cose = 0 \<or> cose_crv cose = 0 then Some (Inl CTAP2_ERR_MISSING_PARAMETER)
       else Some (Inr cose))"

end
