(* ===== verification/Parse_Laws.thy ===== *)
theory Parse_Laws
  imports Ctap_Parse
begin

text \<open>
  The parsing functions return on every input: \<open>delivers r Q\<close> says that a parsing function returns a
  status, or a structure that satisfies \<open>Q\<close>. The loops over maps are proved once, in the locales
  \<open>int_map\<close> and \<open>text_map\<close>, for any loop body that keeps its contract. The one exception is the
  credential descriptor, whose key lookup fails an assertion on a map of unknown length with an odd
  number of items.
\<close>

definition delivers :: "'a pres \<Rightarrow> ('a \<Rightarrow> bool) \<Rightarrow> bool" where
  "delivers r Q \<longleftrightarrow> (\<exists>x. r = Some x \<and> (\<forall>a. x = Inr a \<longrightarrow> Q a))"

named_theorems delivers_rules

lemma delivers_results [delivers_rules, simp]: "delivers (Some (Inl e)) Q" "delivers (Some (Inr a)) Q \<longleftrightarrow> Q a"
  by (simp_all add: delivers_def)

lemma delivers_cbor_check [delivers_rules]:
  "(err = CborNoError \<Longrightarrow> delivers r Q) \<Longrightarrow> delivers (cbor_check err r) Q"
  by (simp add: cbor_check_def delivers_def)

lemma delivers_ctap_check:
  "delivers r P \<Longrightarrow> (\<And>a. P a \<Longrightarrow> delivers (f a) Q) \<Longrightarrow> delivers (ctap_check r f) Q"
  by (auto simp: ctap_check_def delivers_def split: sum.splits)

lemma delivers_mono: "delivers r P \<Longrightarrow> (\<And>a. P a \<Longrightarrow> Q a) \<Longrightarrow> delivers r Q"
  by (auto simp: delivers_def)

lemma delivers_parses:
  assumes "parses r it P"
    and "\<And>err it'. cv_buf it' = cv_buf it \<Longrightarrow> (err = CborNoError \<Longrightarrow> P it') \<Longrightarrow> delivers (f err it') Q"
  shows "delivers (Option.bind r (\<lambda>(err, it'). f err it')) Q"
proof -
  obtain err it' where "r = Some (err, it')" "cv_buf it' = cv_buf it" "err = CborNoError \<Longrightarrow> P it'"
    using assms(1) by (auto simp: parses_def)
  then show ?thesis using assms(2) [of it' err] by simp
qed

section \<open>Values\<close>

text \<open>A string that was copied without an error fits the buffer.\<close>

lemma chunk_loop_length:
  "chunk_loop func buflen it buf tot res = Some (err, b, n, True, it') \<Longrightarrow> err = CborNoError \<Longrightarrow>
   (res \<Longrightarrow> tot \<le> buflen) \<Longrightarrow> n \<le> buflen"
proof (induction func buflen it buf tot res arbitrary: b n rule: chunk_loop.induct)
  case (1 func buflen it buf tot res)
  obtain e c it1 where g: "get_string_chunk it = Some (e, c, it1)"
    using 1(2) by (subst (asm) chunk_loop.simps) (auto simp: Option.bind_eq_Some_conv)
  show ?case
  proof (cases "e = CborNoError")
    case False
    then show ?thesis using 1(2,3) g by (subst (asm) chunk_loop.simps) simp
  next
    case True
    show ?thesis
    proof (cases c)
      case None
      then show ?thesis
        using 1(2-4) g True by (subst (asm) chunk_loop.simps) (auto simp: case_prod_unfold Let_def split: if_splits)
    next
      case (Some d)
      show ?thesis
      proof (cases "tot + length d \<ge> 2 ^ 32")
        case big: True
        then show ?thesis using 1(2,3) g True Some by (subst (asm) chunk_loop.simps) simp
      next
        case False
        let ?rb = "if res \<and> buflen \<ge> tot + length d then func buf tot d else (False, buf)"
        have loop: "chunk_loop func buflen it1 (snd ?rb) (tot + length d) (fst ?rb) = Some (err, b, n, True, it')"
          using 1(2) g True Some False by (subst (asm) chunk_loop.simps) (simp add: case_prod_unfold Let_def)
        show ?thesis
          by (rule 1(1) [OF g refl refl _ Some False refl surjective_pairing [symmetric] loop 1(3)])
            (use True in \<open>auto split: if_splits\<close>)
      qed
    qed
  qed
qed

lemma copy_string_length:
  assumes "copy_string it (Some b) n = Some (CborNoError, b', len, it')"
  shows "len \<le> n"
proof -
  obtain err ok where "iterate_string_chunks iterate_memcpy it b n = Some (err, b', len, ok, it')" "err = CborNoError" ok
    using assms by (auto simp: copy_string_def Option.bind_eq_Some_conv split: if_splits)
  then show ?thesis
    using chunk_loop_length [of iterate_memcpy n it b 0 True err b' len it']
    by (auto simp: iterate_string_chunks_def cbor_assert_def split: if_splits)
qed

text \<open>The iterator at a value: an item of the input, with a count of remaining items that is not zero.\<close>

definition at_value :: "CborValue \<Rightarrow> bool" where
  "at_value it \<longleftrightarrow> cv_head it \<and> cv_remaining it \<noteq> 0"

lemma copy_bytes_some:
  assumes "at_value it" "cv_type it = CborByteStringType" "n \<le> length b"
  obtains err b' len where "cbor_value_copy_byte_string it b n = Some (err, b', len)" "length b' = length b"
    "err = CborNoError \<Longrightarrow> len \<le> n"
proof -
  obtain err b' len it' where c: "copy_string it (Some b) n = Some (err, b', len, it')" "length b' = length b"
    using copy_string_good [of it "Some b" n] assms by (auto simp: at_value_def)
  then show thesis
    using that [of err b' len] copy_string_length [of it b n b' len it'] assms(2)
    by (auto simp: cbor_value_copy_byte_string_def cbor_assert_def)
qed

lemma copy_text_some:
  assumes "at_value it" "cv_type it = CborTextStringType" "n \<le> length b"
  obtains err b' len where "cbor_value_copy_text_string it b n = Some (err, b', len)" "length b' = length b"
    "err = CborNoError \<Longrightarrow> len \<le> n"
proof -
  obtain err b' len it' where c: "copy_string it (Some b) n = Some (err, b', len, it')" "length b' = length b"
    using copy_string_good [of it "Some b" n] assms by (auto simp: at_value_def)
  then show thesis
    using that [of err b' len] copy_string_length [of it b n b' len it'] assms(2)
    by (auto simp: cbor_value_copy_text_string_def cbor_assert_def)
qed

lemma string_length_some:
  assumes "at_value it" "cv_type it = CborByteStringType \<or> cv_type it = CborTextStringType"
  obtains err len where "cbor_value_calculate_string_length it = Some (err, len)"
  using copy_string_good [of it None SIZE_MAX] assms
  by (auto simp: at_value_def cbor_value_calculate_string_length_def)

lemma fixed_length_delivers:
  assumes "at_value it" "len \<le> length dst"
  shows "delivers (ctap_parse_fixed_length_byte_string it dst len) (\<lambda>b. length b = length dst)"
proof (cases "cv_type it = CborByteStringType")
  case True
  obtain err b n where "cbor_value_copy_byte_string it dst len = Some (err, b, n)" "length b = length dst"
    using copy_bytes_some [OF assms(1) True assms(2)] by blast
  then show ?thesis
    using True by (auto simp: ctap_parse_fixed_length_byte_string_def cbor_value_get_type_def intro!: delivers_cbor_check)
qed (simp add: ctap_parse_fixed_length_byte_string_def cbor_value_get_type_def)

lemma parse_int_delivers:
  assumes "at_value it"
  shows "delivers (parse_int it) (\<lambda>v. - 2147483648 \<le> v \<and> v < 2147483648)"
proof (cases "cv_type it = CborIntegerType")
  case True
  obtain err v where "cbor_value_get_int_checked it = Some (err, v)"
    using get_int_checked_some [OF _ True] assms by (auto simp: at_value_def)
  then show ?thesis
    using True get_int_checked_range [of it v]
    by (auto simp: parse_int_def cbor_value_get_type_def intro!: delivers_cbor_check)
qed (simp add: parse_int_def cbor_value_get_type_def)

lemma pinUvAuthParam_delivers:
  assumes "at_value it" "length param = PIN_UV_AUTH_PARAM_MAX_SIZE"
  shows "delivers (ctap_parse_pinUvAuthParam it emp param) (\<lambda>(e, p, n). length p = PIN_UV_AUTH_PARAM_MAX_SIZE)"
proof (cases "cv_type it = CborByteStringType")
  case True
  obtain err n where n: "known_length it = Some (err, n)"
    using known_length_some [of it] assms(1) by (auto simp: at_value_def)
  obtain err2 b m where "cbor_value_copy_byte_string it param PIN_UV_AUTH_PARAM_MAX_SIZE = Some (err2, b, m)" "length b = length param"
    by (rule copy_bytes_some [OF assms(1) True, of PIN_UV_AUTH_PARAM_MAX_SIZE param]) (use assms(2) in auto)
  then show ?thesis
    using True n assms(2)
    by (auto simp: ctap_parse_pinUvAuthParam_def cbor_value_get_type_def cbor_value_get_string_length_def cbor_assert_def
        intro!: delivers_cbor_check)
qed (simp add: ctap_parse_pinUvAuthParam_def cbor_value_get_type_def)

section \<open>Maps\<close>

lemma enter_map_delivers:
  assumes "at_value it"
    and "\<And>n map. cv_good map \<Longrightarrow> unat (cv_remaining map) = 2 * n \<Longrightarrow> cv_remaining map \<noteq> UINT32_MAX \<Longrightarrow> delivers (f n map) Q"
  shows "delivers (enter_map it f) Q"
proof (cases "cv_type it = CborMapType")
  case True
  then have c: "cbor_value_is_container it" by (simp add: cbor_value_is_container_def)
  have h: "cv_head it" using assms(1) by (simp add: at_value_def)
  obtain err map where e: "cbor_value_enter_container it = Some (err, map)"
    using enter_container_good [OF h c] by (auto simp: parses_def)
  obtain err2 n where n: "cbor_value_get_map_length it = Some (err2, n)"
    using known_length_some [OF h] True by (auto simp: cbor_value_get_map_length_def cbor_assert_def)
  have "delivers (f n map) Q" if "err = CborNoError" "err2 = CborNoError"
    using enter_map_good [OF h True, of map n] e n that by (intro assms(2)) auto
  then show ?thesis using True e n by (auto simp: enter_map_def cbor_value_get_type_def intro!: delivers_cbor_check)
qed (simp add: enter_map_def cbor_value_get_type_def)

text \<open>One pair of a map: the key and the value each take one off the count, unless the value is a tag.\<close>

lemma pair_key:
  assumes "cv_good it" "cv_remaining it \<noteq> UINT32_MAX" "2 * Suc n \<le> unat (cv_remaining it)" "cv_type it \<noteq> CborTagType"
  shows "at_value it" "parses (cbor_value_advance it) it (\<lambda>v. at_value v \<and> cv_good v \<and> cv_remaining v \<noteq> UINT32_MAX
    \<and> 2 * n + 1 \<le> unat (cv_remaining v))"
proof -
  have r: "cv_remaining it \<noteq> 0" using assms(3) by auto
  then show "at_value it" using assms(1) by (simp add: at_value_def cv_good_def)
  have u: "unat (cv_remaining it - 1) = unat (cv_remaining it) - 1" by (rule unat_minus_one_word [OF r])
  then have "cv_remaining it - 1 \<noteq> 0" "cv_remaining it - 1 \<noteq> UINT32_MAX"
    using assms(3) unsigned_less [of "cv_remaining it"] by (auto simp: UINT32_MAX_def)
  then show "parses (cbor_value_advance it) it (\<lambda>v. at_value v \<and> cv_good v \<and> cv_remaining v \<noteq> UINT32_MAX
    \<and> 2 * n + 1 \<le> unat (cv_remaining v))"
    using u assms(2-4) by (intro parses_mono [OF advance_good [OF assms(1) r]])
      (auto simp: cv_step_def at_value_def cv_good_def)
qed

lemma pair_value:
  assumes "cv_good v" "at_value v" "cv_remaining v \<noteq> UINT32_MAX" "2 * n + 1 \<le> unat (cv_remaining v)"
  shows "parses (cbor_value_advance v) v (\<lambda>it. cv_good it \<and> cv_remaining it \<noteq> UINT32_MAX \<and> 2 * n \<le> unat (cv_remaining it))"
proof -
  have r: "cv_remaining v \<noteq> 0" using assms(2) by (simp add: at_value_def)
  have u: "unat (cv_remaining v - 1) = unat (cv_remaining v) - 1" by (rule unat_minus_one_word [OF r])
  then have "cv_remaining v - 1 \<noteq> UINT32_MAX"
    using assms(4) unsigned_less [of "cv_remaining v"] by (auto simp: UINT32_MAX_def)
  then show ?thesis
    using u assms(3,4) by (intro parses_mono [OF advance_good [OF assms(1) r]]) (auto simp: cv_step_def)
qed

text \<open>The contract of a loop body: at a value, on a structure of the right shape, it returns and keeps
  the shape.\<close>

locale int_map =
  fixes body :: "int \<Rightarrow> CborValue \<Rightarrow> 's \<Rightarrow> 's pres" and shape :: "'s \<Rightarrow> bool"
  assumes body_delivers: "at_value it \<Longrightarrow> shape s \<Longrightarrow> delivers (body k it s) shape"
begin

lemma loop_delivers:
  assumes "cv_good it" "cv_remaining it \<noteq> UINT32_MAX" "2 * n \<le> unat (cv_remaining it)" "shape s"
  shows "delivers (int_map_loop body n it s) shape"
  using assms
proof (induction n arbitrary: it s)
  case (Suc n)
  show ?case
  proof (cases "cv_type it = CborIntegerType")
    case True
    have nt: "cv_type it \<noteq> CborTagType" using True by (simp add: cbor_types)
    note k = pair_key [OF Suc.prems(1-3) nt]
    obtain err key where g: "cbor_value_get_int_checked it = Some (err, key)"
      using get_int_checked_some [OF _ True] k(1) by (auto simp: at_value_def)
    have "delivers (Option.bind (cbor_value_advance it) (\<lambda>(err, it). cbor_check err (ctap_check (body key it s) (\<lambda>s.
        Option.bind (cbor_value_advance it) (\<lambda>(err, it). cbor_check err (int_map_loop body n it s)))))) shape"
    proof (rule delivers_parses [OF k(2)], rule delivers_cbor_check)
      fix err v assume e: "err = CborNoError" and v: "err = CborNoError \<Longrightarrow> at_value v \<and> cv_good v
        \<and> cv_remaining v \<noteq> UINT32_MAX \<and> 2 * n + 1 \<le> unat (cv_remaining v)"
      note v = v [OF e]
      have body: "delivers (body key v s) shape" using v Suc.prems(4) by (simp add: body_delivers)
      have adv: "parses (cbor_value_advance v) v (\<lambda>it. cv_good it \<and> cv_remaining it \<noteq> UINT32_MAX \<and> 2 * n \<le> unat (cv_remaining it))"
        using v by (intro pair_value) auto
      show "delivers (ctap_check (body key v s) (\<lambda>s. Option.bind (cbor_value_advance v) (\<lambda>(err, it).
          cbor_check err (int_map_loop body n it s)))) shape"
        by (rule delivers_ctap_check [OF body], rule delivers_parses [OF adv], rule delivers_cbor_check, rule Suc.IH) auto
    qed
    then show ?thesis using True g by (simp add: cbor_value_get_type_def delivers_cbor_check)
  qed (simp add: cbor_value_get_type_def)
qed simp

lemma map_delivers:
  assumes "at_value it" "shape s"
  shows "delivers (int_map_parse body it s) shape"
  unfolding int_map_parse_def by (rule enter_map_delivers [OF assms(1)]) (use assms(2) in \<open>auto intro!: loop_delivers\<close>)

end

text \<open>The same for text keys, with a key buffer of \<open>size\<close> bytes that ends in a zero.\<close>

locale text_map =
  fixes body :: "bytes \<Rightarrow> CborValue \<Rightarrow> 's \<Rightarrow> 's pres" and key_size :: nat and shape :: "'s \<Rightarrow> bool"
  assumes body_delivers:
    "at_value it \<Longrightarrow> shape s \<Longrightarrow> length key = key_size \<Longrightarrow> 0 \<in> set key \<Longrightarrow> delivers (body key it s) shape"
  and size_pos: "0 < key_size"
begin

lemma loop_delivers:
  assumes "cv_good it" "cv_remaining it \<noteq> UINT32_MAX" "2 * n \<le> unat (cv_remaining it)" "shape s" "length key = key_size"
  shows "delivers (text_map_loop body n it key s) shape"
  using assms
proof (induction n arbitrary: it s key)
  case (Suc n)
  show ?case
  proof (cases "cv_type it = CborTextStringType")
    case True
    have nt: "cv_type it \<noteq> CborTagType" using True by (simp add: cbor_types)
    note k = pair_key [OF Suc.prems(1-3) nt]
    obtain err key1 len where g: "cbor_value_copy_text_string it key (length key) = Some (err, key1, len)" "length key1 = length key"
      using copy_text_some [OF k(1) True order.refl] by blast
    let ?key = "key1[length key1 - 1 := 0]"
    have key: "length ?key = key_size" "0 \<in> set ?key"
      using g(2) Suc.prems(5) size_pos by (auto simp: set_update_memI)
    have "delivers (Option.bind (cbor_value_advance it) (\<lambda>(err, it). cbor_check err (ctap_check (body ?key it s) (\<lambda>s.
        Option.bind (cbor_value_advance it) (\<lambda>(err, it). cbor_check err (text_map_loop body n it ?key s)))))) shape"
    proof (rule delivers_parses [OF k(2)], rule delivers_cbor_check)
      fix err v assume e: "err = CborNoError" and v: "err = CborNoError \<Longrightarrow> at_value v \<and> cv_good v
        \<and> cv_remaining v \<noteq> UINT32_MAX \<and> 2 * n + 1 \<le> unat (cv_remaining v)"
      note v = v [OF e]
      have body: "delivers (body ?key v s) shape" using v Suc.prems(4) key by (simp add: body_delivers)
      have adv: "parses (cbor_value_advance v) v (\<lambda>it. cv_good it \<and> cv_remaining it \<noteq> UINT32_MAX \<and> 2 * n \<le> unat (cv_remaining it))"
        using v by (intro pair_value) auto
      show "delivers (ctap_check (body ?key v s) (\<lambda>s. Option.bind (cbor_value_advance v) (\<lambda>(err, it).
          cbor_check err (text_map_loop body n it ?key s)))) shape"
        by (rule delivers_ctap_check [OF body], rule delivers_parses [OF adv], rule delivers_cbor_check, rule Suc.IH) (use key in auto)
    qed
    then show ?thesis using True g by (simp add: cbor_value_get_type_def delivers_cbor_check Let_def)
  qed (simp add: cbor_value_get_type_def)
qed simp

lemma map_delivers:
  assumes "at_value it" "shape s" "length key = key_size"
  shows "delivers (text_map_parse body key it s) shape"
  unfolding text_map_parse_def
  by (rule enter_map_delivers [OF assms(1)]) (use assms(2,3) in \<open>auto intro!: loop_delivers\<close>)

end

section \<open>The parsing functions\<close>

lemma strncmp_loop_some: "n \<noteq> 0 \<Longrightarrow> n \<le> length a \<Longrightarrow> n \<le> length b \<Longrightarrow> \<exists>r. strncmp_loop n a b = Some r"
proof (induction n a b rule: strncmp_loop.induct)
  case (1 n a as b bs)
  then show ?case by (cases "n = 1") auto
qed auto

lemma strcmp_some: "0 \<in> set a \<Longrightarrow> 0 \<in> set b \<Longrightarrow> \<exists>r. strcmp a b = Some r"
  by (induction a b rule: strcmp.induct) auto

lemma key_is_some: "length name < length key \<Longrightarrow> \<exists>r. key_is key name = Some r"
  using strncmp_loop_some [of "length name" key "c_string name"]
  by (cases "name = []") (auto simp: key_is_def strncmp_def c_string_def)

definition cose_shape :: "COSE_key \<times> bool \<times> bool \<Rightarrow> bool" where
  "cose_shape = (\<lambda>(c, _, _). length (cose_x c) = 32 \<and> length (cose_y c) = 32)"

lemma cose_shape_triple [simp]: "cose_shape (c, x, y) \<longleftrightarrow> length (cose_x c) = 32 \<and> length (cose_y c) = 32"
  by (simp add: cose_shape_def)

interpretation cose: int_map cose_body cose_shape
proof
  fix it k and s :: "COSE_key \<times> bool \<times> bool" assume a: "at_value it" "cose_shape s"
  obtain c x y where s: "s = (c, x, y)" by (cases s)
  have num: "delivers (ctap_check (parse_int it) (\<lambda>v. Some (Inr (f v, x, y)))) cose_shape"
    if "\<And>v. cose_shape (f v, x, y)" for f
    by (rule delivers_ctap_check [OF parse_int_delivers [OF a(1)]]) (use that in simp)
  have str: "delivers (ctap_check (ctap_parse_fixed_length_byte_string it d 32) (\<lambda>b. Some (Inr (f b, x', y')))) cose_shape"
    if "length d = 32" "\<And>b. length b = 32 \<Longrightarrow> cose_shape (f b, x', y')" for d f x' y'
    by (rule delivers_ctap_check [OF fixed_length_delivers [OF a(1)]]) (use that in auto)
  show "delivers (cose_body k it s) cose_shape"
    using a(2) unfolding s cose_body_def by (simp add: num str)
qed

lemma cose_key_parse_delivers:
  assumes "at_value it" "length (cose_x c) = 32" "length (cose_y c) = 32"
  shows "delivers (cose_key_parse it c) (\<lambda>c. length (cose_x c) = 32 \<and> length (cose_y c) = 32)"
proof -
  have "delivers (int_map_parse cose_body it (c\<lparr>cose_kty := 0, cose_crv := 0\<rparr>, False, False)) cose_shape"
    using assms by (intro cose.map_delivers) (simp_all add: cose_shape_def)
  then show ?thesis
    unfolding cose_key_parse_def by (rule delivers_ctap_check) (auto simp: cose_shape_def)
qed

interpretation opts: text_map options_body 8 "\<lambda>_. True"
proof
  fix it s and key :: bytes assume "length key = 8"
  then obtain a b c where "key_is key ''rk'' = Some a" "key_is key ''uv'' = Some b" "key_is key ''up'' = Some c"
    using key_is_some [of "''rk''" key] key_is_some [of "''uv''" key] key_is_some [of "''up''" key] by auto
  then show "delivers (options_body key it s) (\<lambda>_. True)"
    by (simp add: options_body_def cbor_value_get_boolean_def cbor_value_get_type_def cbor_assert_def)
qed simp

definition user_shape :: "CTAP_userEntity \<Rightarrow> bool" where
  "user_shape u \<longleftrightarrow> length (user_id u) = USER_ID_MAX_SIZE \<and> length (user_name u) = USER_NAME_LIMIT
     \<and> length (user_displayName u) = DISPLAY_NAME_LIMIT \<and> unat (user_id_size u) \<le> USER_ID_MAX_SIZE"

lemma parse_name_delivers:
  assumes "at_value it"
  shows "delivers (parse_name it buf) (\<lambda>b. length b = length buf)"
proof (cases "cv_type it = CborTextStringType")
  case True
  obtain err b n where "cbor_value_copy_text_string it buf (length buf) = Some (err, b, n)" "length b = length buf"
    using copy_text_some [OF assms True order.refl] by blast
  then show ?thesis
    using True by (auto simp: parse_name_def cbor_value_get_type_def Let_def intro!: delivers_cbor_check)
qed (simp add: parse_name_def cbor_value_get_type_def)

lemma parse_user_id_delivers:
  assumes "at_value it" "user_shape u"
  shows "delivers (parse_user_id it u) user_shape"
proof (cases "cv_type it = CborByteStringType")
  case True
  have l: "USER_ID_MAX_SIZE \<le> length (user_id u)" using assms(2) by (simp add: user_shape_def)
  obtain err b n where b: "cbor_value_copy_byte_string it (user_id u) USER_ID_MAX_SIZE = Some (err, b, n)"
    "length b = length (user_id u)" "err = CborNoError \<Longrightarrow> n \<le> USER_ID_MAX_SIZE"
    using copy_bytes_some [OF assms(1) True l] by blast
  have "user_shape (u\<lparr>user_id := b, user_id_size := of_nat n\<rparr>)" if "err = CborNoError"
    using assms(2) b(2,3) that unat_of_nat_small [of n, where ?'a = 8] by (simp add: user_shape_def USER_ID_MAX_SIZE_def)
  then show ?thesis
    using True b(1) by (auto simp: parse_user_id_def cbor_value_get_type_def intro!: delivers_cbor_check)
qed (simp add: parse_user_id_def cbor_value_get_type_def)

interpretation user: text_map user_body 24 user_shape
proof
  fix it s and key :: bytes assume a: "at_value it" "user_shape s" "0 \<in> set key"
  have z: "0 \<in> set (c_string n)" for n by (simp add: c_string_def)
  obtain i n d c where r: "strcmp key (c_string ''id'') = Some i" "strcmp key (c_string ''name'') = Some n"
    "strcmp key (c_string ''displayName'') = Some d" "strcmp key (c_string ''icon'') = Some c"
    using strcmp_some [OF a(3) z] by metis
  have nm: "delivers (ctap_check (parse_name it (user_name s)) (\<lambda>b. Some (Inr (s\<lparr>user_name := b\<rparr>)))) user_shape"
    by (rule delivers_ctap_check [OF parse_name_delivers [OF a(1)]]) (use a(2) in \<open>simp add: user_shape_def\<close>)
  have dn: "delivers (ctap_check (parse_name it (user_displayName s)) (\<lambda>b. Some (Inr (s\<lparr>user_displayName := b\<rparr>)))) user_shape"
    by (rule delivers_ctap_check [OF parse_name_delivers [OF a(1)]]) (use a(2) in \<open>simp add: user_shape_def\<close>)
  show "delivers (user_body key it s) user_shape"
    using r nm dn parse_user_id_delivers [OF a(1,2)] a(2) by (simp add: user_body_def)
qed simp

lemma rp_id_delivers:
  assumes "at_value it" "length (rp_id rp) = DOMAIN_NAME_MAX_SIZE + 1"
  shows "delivers (ctap_parse_rp_id rp it) (\<lambda>rp. length (rp_id rp) = DOMAIN_NAME_MAX_SIZE + 1 \<and> rp_size rp \<le> DOMAIN_NAME_MAX_SIZE)"
proof (cases "cv_type it = CborTextStringType")
  case True
  have l: "DOMAIN_NAME_MAX_SIZE \<le> length (rp_id rp)" using assms(2) by simp
  obtain err b n where b: "cbor_value_copy_text_string it (rp_id rp) DOMAIN_NAME_MAX_SIZE = Some (err, b, n)"
    "length b = length (rp_id rp)" "err = CborNoError \<Longrightarrow> n \<le> DOMAIN_NAME_MAX_SIZE"
    using copy_text_some [OF assms(1) True l] by blast
  then show ?thesis
    using True assms(2) by (auto simp: ctap_parse_rp_id_def cbor_value_get_type_def intro!: delivers_cbor_check)
qed (simp add: ctap_parse_rp_id_def cbor_value_get_type_def)

text \<open>A lookup in a map of known length ends at a value of the map or at no item.\<close>

lemma find_value_some:
  assumes "at_value arr" "cv_type arr = CborMapType" "cbor_value_is_length_known arr"
  shows "\<exists>err val. cbor_value_map_find_value arr key = Some (err, val)
    \<and> (err = CborNoError \<longrightarrow> cv_type val = CborInvalidType \<or> at_value val)"
proof -
  have h: "cv_head arr" using assms(1) by (simp add: at_value_def)
  have c: "cbor_value_is_container arr" using assms(2) by (simp add: cbor_value_is_container_def)
  obtain err rec where e: "cbor_value_enter_container arr = Some (err, rec)" "err = CborNoError \<Longrightarrow> cv_entered arr rec"
    using enter_container_good [OF h c] by (auto simp: parses_def)
  show ?thesis
  proof (cases "err = CborNoError")
    case True
    then have "parses (map_find_loop key rec) rec (\<lambda>it'. cv_type it' = CborInvalidType \<or> cv_head it' \<and> cv_remaining it' \<noteq> 0)"
      using e(2) assms(2,3) by (intro map_find_good) (auto simp: cv_entered_def cv_past_def)
    then show ?thesis
      using True e(1) assms(2) by (auto simp: cbor_value_map_find_value_def cbor_assert_def parses_def at_value_def)
  qed (use e(1) assms(2) in \<open>simp add: cbor_value_map_find_value_def cbor_assert_def\<close>)
qed

lemma descriptor_type_delivers:
  assumes "at_value arr" "cv_type arr = CborMapType" "cbor_value_is_length_known arr" "length keytype = 12"
  shows "delivers (descriptor_type keytype arr cred) (\<lambda>c. cred_id c = cred_id cred)"
proof -
  obtain err val where f: "cbor_value_map_find_value arr (butlast (c_string ''type'')) = Some (err, val)"
    "err = CborNoError \<Longrightarrow> cv_type val = CborInvalidType \<or> at_value val"
    using find_value_some [OF assms(1-3)] by blast
  show ?thesis
  proof (cases "err = CborNoError \<and> cv_type val = CborTextStringType")
    case True
    then have "at_value val" using f(2) by (auto simp: cbor_types)
    then obtain err2 b n where b: "cbor_value_copy_text_string val keytype (length keytype) = Some (err2, b, n)" "length b = length keytype"
      using copy_text_some [of val "length keytype" keytype] True by blast
    obtain pk where "key_is b ''public-key'' = Some pk" using key_is_some [of "''public-key''" b] b(2) assms(4) by auto
    then show ?thesis
      using f(1) True b(1)
      by (auto simp: descriptor_type_def cbor_value_get_type_def Let_def intro!: delivers_cbor_check)
  next
    case False
    then show ?thesis using f(1)
      by (auto simp: descriptor_type_def cbor_value_get_type_def intro!: delivers_cbor_check)
  qed
qed

lemma descriptor_delivers:
  assumes "at_value arr" "cbor_value_is_length_known arr" "length (cred_id cred) = sizeof_CredentialId" "length keytype = 12"
  shows "delivers (ctap_parse_pubkey_credential_descriptor keytype arr cred) (\<lambda>c. length (cred_id c) = sizeof_CredentialId)"
proof (cases "cv_type arr = CborMapType")
  case True
  obtain err val where f: "cbor_value_map_find_value arr (butlast (c_string ''id'')) = Some (err, val)"
    "err = CborNoError \<Longrightarrow> cv_type val = CborInvalidType \<or> at_value val"
    using find_value_some [OF assms(1) True assms(2)] by blast
  show ?thesis
  proof (cases "err = CborNoError \<and> cv_type val = CborByteStringType")
    case t: True
    then have v: "at_value val" using f(2) by (auto simp: cbor_types)
    obtain err2 sz where l: "cbor_value_calculate_string_length val = Some (err2, sz)"
      using string_length_some [OF v] t by blast
    obtain err3 b n where b: "cbor_value_copy_byte_string val (cred_id cred) sizeof_CredentialId = Some (err3, b, n)"
      "length b = length (cred_id cred)"
      using copy_bytes_some [OF v, of sizeof_CredentialId "cred_id cred"] t assms(3) by (metis order.refl)
    have d: "delivers (descriptor_type keytype arr c) (\<lambda>c. length (cred_id c) = sizeof_CredentialId)"
      if "length (cred_id c) = sizeof_CredentialId" for c
      by (rule delivers_mono [OF descriptor_type_delivers [OF assms(1) True assms(2,4)]]) (simp add: that)
    show ?thesis
      using True f(1) t l b assms(3) d
      by (auto simp: ctap_parse_pubkey_credential_descriptor_def cbor_value_get_type_def Let_def intro!: delivers_cbor_check)
  next
    case False
    then show ?thesis using True f(1)
      by (auto simp: ctap_parse_pubkey_credential_descriptor_def cbor_value_get_type_def Let_def intro!: delivers_cbor_check)
  qed
qed (simp add: ctap_parse_pubkey_credential_descriptor_def cbor_value_get_type_def Let_def)

section \<open>Properties\<close>

lemma parser_at_value: "cbor_parser_init buf = Some (CborNoError, it) \<Longrightarrow> at_value it"
  using parser_init_good [of buf] by (auto simp: parses_def at_value_def)




end
