(* ===== verification/Client_Pin.thy ===== *)
theory Client_Pin
  imports Parse_Laws
begin

text \<open>
  \<open>fido2/src/ctap_client_pin.c\<close>: the PIN. The file-level variables (the two protocol states and the
  attempts left since power-up) are the record \<open>cpin\<close>, which extends the device. The counters are
  signed bytes: \<open>sint\<close> reads them. Pointers to a protocol state are the protocol number, read with
  \<open>get_pin_protocol_state\<close> and updated with \<open>on_protocol\<close>. The libraries the code calls are the record
  \<open>env\<close>: littlefs and the elliptic curves.
\<close>

section \<open>Data\<close>

record key_agreement_t =
  priv_key :: bytes
  pub_key :: bytes
  pub_key_valid :: bool

record pinUvAuthToken_state_t =
  permissions_rp_id_hash :: bytes
  permissions_rp_id_present :: bool
  ts_permissions :: byte
  usage_timer_start_ms :: u32
  usage_timer_last_used_ms :: u32
  in_use :: bool
  user_verified :: bool
  user_present :: bool

record pinUvAuthToken_t =
  key_agreement :: key_agreement_t
  token :: bytes
  token_state :: pinUvAuthToken_state_t

record ('fs, 'f) cpin = "('fs, 'f) dev" +
  pinUvAuthToken_p1 :: pinUvAuthToken_t
  pinUvAuthToken_p2 :: pinUvAuthToken_t
  PIN_BOOT_ATTEMPTS_LEFT :: byte

record ('fs, 'f, 'd, 'w) env =
  env_lfs :: "('fs, 'f, 'd) lfs_lib"
  env_ecc :: "'w ecc_lib"

definition TOKEN_MAX_USAGE_PERIOD_MS :: u32 where "TOKEN_MAX_USAGE_PERIOD_MS = 600000"
definition TOKEN_MAX_USER_PRESENT_MS :: u32 where "TOKEN_MAX_USER_PRESENT_MS = 30000"

definition CP_Cmd_pinUvAuthProtocol :: int where "CP_Cmd_pinUvAuthProtocol = 0x01"
definition CP_Cmd_subCommand :: int where "CP_Cmd_subCommand = 0x02"
definition CP_Cmd_keyAgreement :: int where "CP_Cmd_keyAgreement = 0x03"
definition CP_Cmd_pinUvAuthParam :: int where "CP_Cmd_pinUvAuthParam = 0x04"
definition CP_Cmd_newPinEnc :: int where "CP_Cmd_newPinEnc = 0x05"
definition CP_Cmd_pinHashEnc :: int where "CP_Cmd_pinHashEnc = 0x06"
definition CP_Cmd_permissions :: int where "CP_Cmd_permissions = 0x09"
definition CP_Cmd_rpId :: int where "CP_Cmd_rpId = 0x0A"

definition CP_SubCmd_getPINRetries :: int where "CP_SubCmd_getPINRetries = 0x01"
definition CP_SubCmd_getKeyAgreement :: int where "CP_SubCmd_getKeyAgreement = 0x02"
definition CP_SubCmd_setPIN :: int where "CP_SubCmd_setPIN = 0x03"
definition CP_SubCmd_changePIN :: int where "CP_SubCmd_changePIN = 0x04"
definition CP_SubCmd_getPinToken :: int where "CP_SubCmd_getPinToken = 0x05"
definition CP_SubCmd_getPinUvAuthTokenUsingPinWithPermissions :: int where
  "CP_SubCmd_getPinUvAuthTokenUsingPinWithPermissions = 0x09"

definition CP_Resp_keyAgreement :: u64 where "CP_Resp_keyAgreement = 0x01"
definition CP_Resp_pinUvAuthToken :: u64 where "CP_Resp_pinUvAuthToken = 0x02"
definition CP_Resp_pinRetries :: u64 where "CP_Resp_pinRetries = 0x03"
definition CP_Resp_powerCycleState :: u64 where "CP_Resp_powerCycleState = 0x04"

definition CP_permissions_mc :: byte where "CP_permissions_mc = 0x01"
definition CP_permissions_ga :: byte where "CP_permissions_ga = 0x02"
definition CP_permissions_lbw :: byte where "CP_permissions_lbw = 0x10"
definition CP_permissions_defined_mask :: byte where "CP_permissions_defined_mask = 0x3f"
definition CP_permissions_default_mask :: byte where "CP_permissions_default_mask = 0x03"
definition CP_permissions_unsupported_mask :: byte where "CP_permissions_unsupported_mask = 0x38"

definition NEW_PIN_ENC_MAX_SIZE :: nat where "NEW_PIN_ENC_MAX_SIZE = 80"
definition NEW_PIN_ENC_MIN_SIZE :: nat where "NEW_PIN_ENC_MIN_SIZE = 64"
definition NEW_PIN_MAX_SIZE :: nat where "NEW_PIN_MAX_SIZE = 64"
definition NEW_PIN_MIN_SIZE :: nat where "NEW_PIN_MIN_SIZE = 4"
definition PIN_LOCKOUT_ATTEMPTS :: byte where "PIN_LOCKOUT_ATTEMPTS = 8"
definition PIN_BOOT_ATTEMPTS :: byte where "PIN_BOOT_ATTEMPTS = 3"
definition PINUVAUTHTOKEN_SIZE :: nat where "PINUVAUTHTOKEN_SIZE = 32"
definition CP_IV_SIZE :: nat where "CP_IV_SIZE = 16"
definition CLIENT_DATA_HASH_SIZE :: nat where "CLIENT_DATA_HASH_SIZE = 32"

record CTAP_clientPin =
  pinProtocol :: byte
  subCommand :: int
  keyAgreement :: COSE_key
  keyAgreementPresent :: bool
  pinUvAuthParam :: bytes
  pinUvAuthParam_len :: byte
  newPinEnc :: bytes
  newPinEncSize :: byte
  pinHashEnc :: bytes
  pinHashEncPresent :: bool
  cp_permissions :: byte
  permissionsPresent :: bool
  cp_rpId :: bytes
  rpIdSize :: nat

definition get_pin_protocol_state :: "byte \<Rightarrow> ('fs, 'f, 'a) cpin_scheme \<Rightarrow> pinUvAuthToken_t" where
  "get_pin_protocol_state proto w = (if proto = 1 then pinUvAuthToken_p1 w else pinUvAuthToken_p2 w)"

definition on_protocol ::
  "byte \<Rightarrow> (pinUvAuthToken_t \<Rightarrow> pinUvAuthToken_t) \<Rightarrow> ('fs, 'f, 'a) cpin_scheme \<Rightarrow> ('fs, 'f, 'a) cpin_scheme" where
  "on_protocol proto f w =
     (if proto = 1 then w\<lparr>pinUvAuthToken_p1 := f (pinUvAuthToken_p1 w)\<rparr>
      else w\<lparr>pinUvAuthToken_p2 := f (pinUvAuthToken_p2 w)\<rparr>)"

definition token_state_zero :: pinUvAuthToken_state_t where
  "token_state_zero = \<lparr>permissions_rp_id_hash = replicate 32 0, permissions_rp_id_present = False, ts_permissions = 0,
     usage_timer_start_ms = 0, usage_timer_last_used_ms = 0, in_use = False, user_verified = False, user_present = False\<rparr>"

definition on_state ::
  "byte \<Rightarrow> (pinUvAuthToken_state_t \<Rightarrow> pinUvAuthToken_state_t) \<Rightarrow> ('fs, 'f, 'a) cpin_scheme \<Rightarrow> ('fs, 'f, 'a) cpin_scheme" where
  "on_state proto f w = on_protocol proto (\<lambda>t. t\<lparr>token_state := f (token_state t)\<rparr>) w"

abbreviation proto_state :: "byte \<Rightarrow> ('fs, 'f, 'a) cpin_scheme \<Rightarrow> pinUvAuthToken_state_t" where
  "proto_state proto w \<equiv> token_state (get_pin_protocol_state proto w)"

section \<open>Locks\<close>

definition ctap_client_pin_is_boot_locked :: "('fs, 'f, 'a) cpin_scheme \<Rightarrow> bool" where
  "ctap_client_pin_is_boot_locked w = (sint (PIN_BOOT_ATTEMPTS_LEFT w) \<le> 0)"

definition ctap_client_pin_is_locked :: "('fs, 'f, 'a) cpin_scheme \<Rightarrow> bool" where
  "ctap_client_pin_is_locked w = (sint (remaining_tries (STATE w)) \<le> 0)"

definition ctap_client_pin_is_set :: "('fs, 'f, 'a) cpin_scheme \<Rightarrow> bool" where
  "ctap_client_pin_is_set w = (is_pin_set (STATE w) = 1)"

definition leftover_pin_attempts :: "('fs, 'f, 'a) cpin_scheme \<Rightarrow> byte" where
  "leftover_pin_attempts w =
     (if sint (remaining_tries (STATE w)) \<le> 0 then 0 else remaining_tries (STATE w))"

definition lock_device_permanently ::
  "('fs, 'f, 'd, ('fs, 'f, 'a) cpin_scheme) env \<Rightarrow> ('fs, 'f, 'a) cpin_scheme \<Rightarrow> ('fs, 'f, 'a) cpin_scheme option" where
  "lock_device_permanently env w =
     (let w = w\<lparr>pinUvAuthToken_p1 := (pinUvAuthToken_p1 w)\<lparr>token := replicate PINUVAUTHTOKEN_SIZE 0\<rparr>\<rparr>;
          w = w\<lparr>pinUvAuthToken_p2 := (pinUvAuthToken_p2 w)\<lparr>token := replicate PINUVAUTHTOKEN_SIZE 0\<rparr>\<rparr>;
          w = w\<lparr>STATE := (STATE w)\<lparr>pin_hash_enc := replicate STATE_PIN_HASH_SIZE 0,
                 pin_hash_iv := replicate STATE_PIN_HASH_IV_SIZE 0\<rparr>\<rparr>
      in authenticator_write_state (env_lfs env) (STATE w) w)"

text \<open>The result is the return value, 0 or 255.\<close>

definition decrement_pin_attempts ::
  "('fs, 'f, 'd, ('fs, 'f, 'a) cpin_scheme) env \<Rightarrow> ('fs, 'f, 'a) cpin_scheme \<Rightarrow> (byte \<times> ('fs, 'f, 'a) cpin_scheme) option" where
  "decrement_pin_attempts env w =
     (let w = (if sint (PIN_BOOT_ATTEMPTS_LEFT w) > 0
               then w\<lparr>PIN_BOOT_ATTEMPTS_LEFT := PIN_BOOT_ATTEMPTS_LEFT w - 1\<rparr> else w)
      in if \<not> ctap_client_pin_is_locked w
         then do {
           w \<leftarrow> ctap_flush_state (env_lfs env) (w\<lparr>STATE := (STATE w)\<lparr>remaining_tries := remaining_tries (STATE w) - 1\<rparr>\<rparr>);
           w \<leftarrow> (if ctap_client_pin_is_locked w then lock_device_permanently env w else Some w);
           Some (0, w) }
         else Some (- 1, w))"

definition reset_pin_attempts ::
  "('fs, 'f, 'd, ('fs, 'f, 'a) cpin_scheme) env \<Rightarrow> ('fs, 'f, 'a) cpin_scheme \<Rightarrow> ('fs, 'f, 'a) cpin_scheme option" where
  "reset_pin_attempts env w =
     (if remaining_tries (STATE w) = PIN_LOCKOUT_ATTEMPTS then Some w
      else ctap_flush_state (env_lfs env) (w\<lparr>PIN_BOOT_ATTEMPTS_LEFT := PIN_BOOT_ATTEMPTS,
             STATE := (STATE w)\<lparr>remaining_tries := PIN_LOCKOUT_ATTEMPTS\<rparr>\<rparr>))"

section \<open>Token state\<close>

definition stop_using_pinUvAuthToken :: "byte \<Rightarrow> ('fs, 'f, 'a) cpin_scheme \<Rightarrow> ('fs, 'f, 'a) cpin_scheme" where
  "stop_using_pinUvAuthToken proto w = on_state proto (\<lambda>_. token_state_zero) w"

definition begin_using_pinUvAuthToken ::
  "bool \<Rightarrow> byte \<Rightarrow> byte \<Rightarrow> ('fs, 'f, 'a) cpin_scheme \<Rightarrow> ('fs, 'f, 'a) cpin_scheme option" where
  "begin_using_pinUvAuthToken present proto perms w = do {
     let w = on_state proto (\<lambda>s. s\<lparr>user_present := present, ts_permissions := perms, user_verified := True, in_use := True\<rparr>) w;
     (now, w) \<leftarrow> millis w;
     Some (on_state proto (\<lambda>s. s\<lparr>usage_timer_start_ms := now, usage_timer_last_used_ms := now\<rparr>) w) }"

definition get_user_present :: "byte \<Rightarrow> ('fs, 'f, 'a) cpin_scheme \<Rightarrow> bool" where
  "get_user_present proto w = (if in_use (proto_state proto w) then user_present (proto_state proto w) else False)"

definition ctap_client_pin_get_user_verified :: "byte \<Rightarrow> ('fs, 'f, 'a) cpin_scheme \<Rightarrow> bool" where
  "ctap_client_pin_get_user_verified proto w =
     (if in_use (proto_state proto w) then user_verified (proto_state proto w) else False)"

definition ctap_client_pin_clear_user_present :: "byte \<Rightarrow> ('fs, 'f, 'a) cpin_scheme \<Rightarrow> ('fs, 'f, 'a) cpin_scheme" where
  "ctap_client_pin_clear_user_present proto w =
     (if in_use (proto_state proto w) then on_state proto (\<lambda>s. s\<lparr>user_present := False\<rparr>) w else w)"

definition ctap_client_pin_clear_user_verified :: "byte \<Rightarrow> ('fs, 'f, 'a) cpin_scheme \<Rightarrow> ('fs, 'f, 'a) cpin_scheme" where
  "ctap_client_pin_clear_user_verified proto w =
     (if in_use (proto_state proto w) then on_state proto (\<lambda>s. s\<lparr>user_verified := False\<rparr>) w else w)"

definition ctap_client_pin_clear_PinUvAuthToken_permissions_except_Lbw ::
  "byte \<Rightarrow> ('fs, 'f, 'a) cpin_scheme \<Rightarrow> ('fs, 'f, 'a) cpin_scheme" where
  "ctap_client_pin_clear_PinUvAuthToken_permissions_except_Lbw proto w =
     (if in_use (proto_state proto w)
      then on_state proto (\<lambda>s. s\<lparr>ts_permissions := ts_permissions s AND CP_permissions_lbw\<rparr>) w else w)"

definition pinUvAuthToken_usage_time_observer ::
  "byte \<Rightarrow> ('fs, 'f, 'a) cpin_scheme \<Rightarrow> ('fs, 'f, 'a) cpin_scheme option" where
  "pinUvAuthToken_usage_time_observer proto w =
     (if \<not> in_use (proto_state proto w) then Some w
      else do {
        (now, w) \<leftarrow> millis w;
        let w = (if now - usage_timer_start_ms (proto_state proto w) > TOKEN_MAX_USAGE_PERIOD_MS
                 then stop_using_pinUvAuthToken proto w else w);
        let w = (if now - usage_timer_start_ms (proto_state proto w) > TOKEN_MAX_USER_PRESENT_MS
                 then ctap_client_pin_clear_user_present proto w else w);
        Some (if now - usage_timer_last_used_ms (proto_state proto w) > TOKEN_MAX_USER_PRESENT_MS
              then stop_using_pinUvAuthToken proto w
              else on_state proto (\<lambda>s. s\<lparr>usage_timer_last_used_ms := now\<rparr>) w) })"

definition ctap_client_pin_permissions_rp_id_present :: "byte \<Rightarrow> ('fs, 'f, 'a) cpin_scheme \<Rightarrow> bool" where
  "ctap_client_pin_permissions_rp_id_present proto w = permissions_rp_id_present (proto_state proto w)"

definition ctap_client_pin_verify_permissions_rp_id :: "byte \<Rightarrow> bytes \<Rightarrow> ('fs, 'f, 'a) cpin_scheme \<Rightarrow> bool" where
  "ctap_client_pin_verify_permissions_rp_id proto rp_id_hash w =
     (permissions_rp_id_present (proto_state proto w) \<longrightarrow>
        take 32 (permissions_rp_id_hash (proto_state proto w)) = take 32 rp_id_hash)"

definition ctap_client_pin_verify_permissions :: "byte \<Rightarrow> byte \<Rightarrow> ('fs, 'f, 'a) cpin_scheme \<Rightarrow> bool" where
  "ctap_client_pin_verify_permissions proto requested w = (ts_permissions (proto_state proto w) AND requested \<noteq> 0)"

section \<open>Verification\<close>

definition auth_param_size :: "byte \<Rightarrow> nat" where
  "auth_param_size proto = (if proto = 2 then 32 else 16)"

definition ctap_client_pin_verify ::
  "bytes \<Rightarrow> bytes \<Rightarrow> bytes \<Rightarrow> byte \<Rightarrow> ('fs, 'f, 'a) cpin_scheme \<Rightarrow> (int \<times> ('fs, 'f, 'a) cpin_scheme) option" where
  "ctap_client_pin_verify key message signature proto w = do {
     (expected, w) \<leftarrow> crypto_hmac (take 32 key) [message] w;
     Some (if \<not> secure_memeq signature expected (auth_param_size proto) then - 1 else 0, w) }"

definition ctap_client_pin_verify_auth_ex ::
  "bytes \<Rightarrow> bytes \<Rightarrow> byte \<Rightarrow> ('fs, 'f, 'a) cpin_scheme \<Rightarrow> (CtapError \<times> ('fs, 'f, 'a) cpin_scheme) option" where
  "ctap_client_pin_verify_auth_ex param buf proto w = do {
     w \<leftarrow> pinUvAuthToken_usage_time_observer proto w;
     if \<not> in_use (proto_state proto w) then Some (CTAP2_ERR_PIN_AUTH_INVALID, w)
     else do {
       (ret, w) \<leftarrow> ctap_client_pin_verify (token (get_pin_protocol_state proto w)) buf param proto w;
       Some (if ret < 0 then CTAP2_ERR_PIN_AUTH_INVALID else CTAP2_OK, w) } }"

definition ctap_client_pin_verify_auth ::
  "bytes \<Rightarrow> bytes \<Rightarrow> byte \<Rightarrow> ('fs, 'f, 'a) cpin_scheme \<Rightarrow> (CtapError \<times> ('fs, 'f, 'a) cpin_scheme) option" where
  "ctap_client_pin_verify_auth param clientDataHash proto w =
     ctap_client_pin_verify_auth_ex param (take CLIENT_DATA_HASH_SIZE clientDataHash) proto w"

section \<open>Keys and ciphers\<close>

text \<open>From \<open>fido2/src/ctap.c\<close>: a truncated HMAC under the credential MAC key, and the hash and the lookup
  tag of a relying party's name.\<close>

definition ctap_compute_mac ::
  "bytes \<Rightarrow> nat \<Rightarrow> 'a crypto_scheme \<Rightarrow> (bytes \<times> 'a crypto_scheme) option" where
  "ctap_compute_mac data mac_len w = do {
     (buf, w) \<leftarrow> crypto_hmac (key_cred_mac w) [data] w;
     Some (take mac_len buf, w) }"

definition ctap_derive_rp_id_info ::
  "bytes \<Rightarrow> 'a crypto_scheme \<Rightarrow> (bytes \<times> bytes \<times> 'a crypto_scheme) option" where
  "ctap_derive_rp_id_info rp w = do {
     let (rp_id_hash, w) = crypto_sha256_final (crypto_sha256_update rp (crypto_sha256_init w));
     (rp_id_lookup, w) \<leftarrow> ctap_compute_mac rp_id_hash CREDENTIAL_TAG_SIZE w;
     Some (rp_id_hash, rp_id_lookup, w) }"

text \<open>The strings are passed without their final zero.\<close>

definition HKDF_INFO_AES :: bytes where "HKDF_INFO_AES = butlast (c_string ''CTAP2 AES key'')"
definition HKDF_INFO_HMAC :: bytes where "HKDF_INFO_HMAC = butlast (c_string ''CTAP2 HMAC key'')"

text \<open>The result is the encryption key and the MAC key.\<close>

definition kdf :: "bytes \<Rightarrow> byte \<Rightarrow> 'a crypto_scheme \<Rightarrow> ((bytes \<times> bytes) \<times> 'a crypto_scheme) option" where
  "kdf ikm proto w =
     (if proto = 1
      then let (h, w) = crypto_sha256_final (crypto_sha256_update (take 32 ikm) (crypto_sha256_init w))
           in Some ((h, h), w)
      else do {
        (prk, w) \<leftarrow> crypto_hkdf_extract_sha256 None (take 32 ikm) w;
        (enc_key, w) \<leftarrow> crypto_hkdf_expand_sha256 prk HKDF_INFO_AES 32 w;
        (mac_key, w) \<leftarrow> crypto_hkdf_expand_sha256 prk HKDF_INFO_HMAC 32 w;
        Some ((enc_key, mac_key), w) })"

definition ecdh ::
  "('fs, 'f, 'd, ('fs, 'f, 'a) cpin_scheme) env \<Rightarrow> bytes \<Rightarrow> byte \<Rightarrow> ('fs, 'f, 'a) cpin_scheme
     \<Rightarrow> ((bytes \<times> bytes) \<times> ('fs, 'f, 'a) cpin_scheme) option" where
  "ecdh env platform_pubkey proto w = do {
     (shared_point, w) \<leftarrow> crypto_ecc256_shared_secret (env_ecc env) platform_pubkey
        (priv_key (key_agreement (get_pin_protocol_state proto w))) w;
     kdf shared_point proto w }"

definition ctap_client_pin_decapsulate ::
  "('fs, 'f, 'd, ('fs, 'f, 'a) cpin_scheme) env \<Rightarrow> bytes \<Rightarrow> byte \<Rightarrow> ('fs, 'f, 'a) cpin_scheme
     \<Rightarrow> ((bytes \<times> bytes) \<times> ('fs, 'f, 'a) cpin_scheme) option" where
  "ctap_client_pin_decapsulate env platform_pubkey proto w = ecdh env platform_pubkey proto w"

text \<open>In place: the bytes of the buffer behind \<open>len\<close> stay.\<close>

definition decrypt :: "bytes \<Rightarrow> nat \<Rightarrow> bytes \<Rightarrow> byte \<Rightarrow> 'a crypto_scheme \<Rightarrow> (bytes \<times> 'a crypto_scheme) option" where
  "decrypt buf len enc_key proto w =
     (if proto = 1
      then let (p, w) = crypto_aes256_decrypt (take len buf) (crypto_aes256_init enc_key None w)
           in Some (blit buf 0 p, w)
      else if \<not> len > CP_IV_SIZE then None
      else let iv = take CP_IV_SIZE buf;
               ciphertext_len = len - CP_IV_SIZE;
               (p, w) = crypto_aes256_decrypt (slice CP_IV_SIZE ciphertext_len buf) (crypto_aes256_init enc_key (Some iv) w);
               buf = blit buf CP_IV_SIZE p;
               buf = blit buf 0 (slice CP_IV_SIZE ciphertext_len buf)
           in Some (blit buf ciphertext_len (replicate CP_IV_SIZE 0), w))"

text \<open>The result is the return value and the output buffer.\<close>

definition encrypt_pinUvAuthToken ::
  "bytes \<Rightarrow> bytes \<Rightarrow> byte \<Rightarrow> ('fs, 'f, 'a) cpin_scheme \<Rightarrow> (int \<times> bytes \<times> ('fs, 'f, 'a) cpin_scheme) option" where
  "encrypt_pinUvAuthToken out enc_key proto w =
     (let tok = take PINUVAUTHTOKEN_SIZE (token (get_pin_protocol_state proto w))
      in if proto = 1
         then let (c, w) = crypto_aes256_encrypt tok (crypto_aes256_init enc_key None w)
              in Some (0, blit out 0 c, w)
         else do {
           (r, iv, w) \<leftarrow> ctap_generate_rng (uninit CP_IV_SIZE w) CP_IV_SIZE w;
           if r \<noteq> 1 then Some (- 1, out, w)
           else let (c, w) = crypto_aes256_encrypt tok (crypto_aes256_init enc_key (Some iv) w)
                in Some (0, blit (blit out 0 iv) CP_IV_SIZE c, w) })"

definition associate_permissions_rp_id ::
  "bytes \<Rightarrow> nat \<Rightarrow> byte \<Rightarrow> ('fs, 'f, 'a) cpin_scheme \<Rightarrow> ('fs, 'f, 'a) cpin_scheme option" where
  "associate_permissions_rp_id rp rp_id_size proto w =
     (if rp_id_size > 0
      then do {
        (h, _, w) \<leftarrow> ctap_derive_rp_id_info (take rp_id_size rp) w;
        Some (on_state proto (\<lambda>s. s\<lparr>permissions_rp_id_hash := h, permissions_rp_id_present := True\<rparr>) w) }
      else Some w)"

section \<open>Fresh keys and tokens\<close>

text \<open>The loop ends when the random numbers form a private key.\<close>

partial_function (option) regenerate_loop ::
  "byte \<Rightarrow> ('fs, 'f, 'a) cpin_scheme \<Rightarrow> ('fs, 'f, 'a) cpin_scheme option" where
  "regenerate_loop proto w =
     Option.bind (ctap_generate_rng (priv_key (key_agreement (get_pin_protocol_state proto w))) 32 w) (\<lambda>(_, k, w).
       let w = on_protocol proto (\<lambda>t. t\<lparr>key_agreement := (key_agreement t)\<lparr>priv_key := k\<rparr>\<rparr>) w
       in if crypto_ecc256_is_valid_scalar k then Some w else regenerate_loop proto w)"

declare regenerate_loop.simps [code]

definition regenerate_key_agreement ::
  "byte \<Rightarrow> ('fs, 'f, 'a) cpin_scheme \<Rightarrow> ('fs, 'f, 'a) cpin_scheme option" where
  "regenerate_key_agreement proto w = do {
     w \<leftarrow> regenerate_loop proto w;
     Some (on_protocol proto (\<lambda>t. t\<lparr>key_agreement := (key_agreement t)\<lparr>pub_key_valid := False\<rparr>\<rparr>) w) }"

definition reset_pinUvAuthToken ::
  "byte \<Rightarrow> ('fs, 'f, 'a) cpin_scheme \<Rightarrow> (int \<times> ('fs, 'f, 'a) cpin_scheme) option" where
  "reset_pinUvAuthToken proto w = do {
     let w = on_state proto (\<lambda>_. token_state_zero) w;
     (r, tok, w) \<leftarrow> ctap_generate_rng (token (get_pin_protocol_state proto w)) PINUVAUTHTOKEN_SIZE w;
     let w = on_protocol proto (\<lambda>t. t\<lparr>token := tok\<rparr>) w;
     Some (if r \<noteq> 1 then - 1 else 0, w) }"

definition ctap_client_pin_initialize :: "('fs, 'f, 'a) cpin_scheme \<Rightarrow> ('fs, 'f, 'a) cpin_scheme option" where
  "ctap_client_pin_initialize w = do {
     w \<leftarrow> regenerate_key_agreement 1 w;
     w \<leftarrow> regenerate_key_agreement 2 w;
     (_, w) \<leftarrow> reset_pinUvAuthToken 1 w;
     (_, w) \<leftarrow> reset_pinUvAuthToken 2 w;
     Some w }"

section \<open>The stored PIN\<close>

text \<open>The number of trailing zeros of \<open>buf\<close> up to the index; the first byte is not counted.\<close>

fun trailing_zeros :: "bytes \<Rightarrow> nat \<Rightarrow> nat" where
  "trailing_zeros buf 0 = 0"
| "trailing_zeros buf (Suc i) = (if buf ! Suc i = 0 then trailing_zeros buf i + 1 else 0)"

definition store_pin ::
  "('fs, 'f, 'd, ('fs, 'f, 'a) cpin_scheme) env \<Rightarrow> bytes \<Rightarrow> nat \<Rightarrow> ('fs, 'f, 'a) cpin_scheme
     \<Rightarrow> ('fs, 'f, 'a) cpin_scheme option" where
  "store_pin env pin len w = do {
     let (pin_hash, w) = crypto_sha256_final (crypto_sha256_update (take len pin) (crypto_sha256_init w));
     (_, iv, w) \<leftarrow> ctap_generate_rng (pin_hash_iv (STATE w)) STATE_PIN_HASH_IV_SIZE w;
     let w = w\<lparr>STATE := (STATE w)\<lparr>pin_hash_iv := iv\<rparr>\<rparr>;
     let (c, w) = crypto_aes256_encrypt (take STATE_PIN_HASH_SIZE pin_hash)
                    (crypto_aes256_init (key_pin_enc w) (Some (pin_hash_iv (STATE w))) w);
     let w = w\<lparr>STATE := (STATE w)\<lparr>pin_hash_enc := c, is_pin_set := 1\<rparr>\<rparr>;
     authenticator_write_state (env_lfs env) (STATE w) w }"

definition verify_against_stored_pin :: "bytes \<Rightarrow> ('fs, 'f, 'a) cpin_scheme \<Rightarrow> bool \<times> ('fs, 'f, 'a) cpin_scheme" where
  "verify_against_stored_pin pin_hash w =
     (let (stored_pin, w) = crypto_aes256_decrypt (take STATE_PIN_HASH_SIZE (pin_hash_enc (STATE w)))
            (crypto_aes256_init (key_pin_enc w) (Some (pin_hash_iv (STATE w))) w)
      in (secure_memeq pin_hash stored_pin STATE_PIN_HASH_SIZE, w))"

text \<open>What both users of a PIN do when it does not match.\<close>

definition pin_mismatch ::
  "('fs, 'f, 'd, ('fs, 'f, 'a) cpin_scheme) env \<Rightarrow> byte \<Rightarrow> ('fs, 'f, 'a) cpin_scheme
     \<Rightarrow> (CtapError \<times> ('fs, 'f, 'a) cpin_scheme) option" where
  "pin_mismatch env proto w = do {
     w \<leftarrow> regenerate_key_agreement proto w;
     (_, w) \<leftarrow> decrement_pin_attempts env w;
     Some (if ctap_client_pin_is_locked w then CTAP2_ERR_PIN_BLOCKED
           else if ctap_client_pin_is_boot_locked w then CTAP2_ERR_PIN_AUTH_BLOCKED
           else CTAP2_ERR_PIN_INVALID, w) }"

function round_up :: "nat \<Rightarrow> nat" where
  "round_up dec_len = (if dec_len mod 16 \<noteq> 0 then round_up (dec_len + 1) else dec_len)"
  by auto
termination by (relation "measure (\<lambda>n. (16 - n mod 16) mod 16)") (auto simp: mod_Suc)

declare round_up.simps [simp del]

text \<open>\<open>None\<close> is the null pointer for the hash. The length of the text the MAC is verified over is a byte.\<close>

definition auth_hash_size :: "byte \<Rightarrow> nat" where
  "auth_hash_size proto = (if proto = 2 then 32 else 16)"

definition confirm_old_pin ::
  "('fs, 'f, 'd, ('fs, 'f, 'a) cpin_scheme) env \<Rightarrow> bytes option \<Rightarrow> bytes \<Rightarrow> byte
     \<Rightarrow> ('fs, 'f, 'a) cpin_scheme \<Rightarrow> (CtapError \<times> ('fs, 'f, 'a) cpin_scheme) option" where
  "confirm_old_pin env hash_opt enc_key proto w =
     (case hash_opt of
        Some h \<Rightarrow>
          if ctap_client_pin_is_set w then do {
            (pin_hash, w) \<leftarrow> decrypt h (auth_hash_size proto) enc_key proto w;
            let (matches, w) = verify_against_stored_pin pin_hash w;
            if \<not> matches then pin_mismatch env proto w
            else do {
              w \<leftarrow> reset_pin_attempts env w;
              (_, w) \<leftarrow> reset_pinUvAuthToken 1 w;
              (_, w) \<leftarrow> reset_pinUvAuthToken 2 w;
              Some (CTAP2_OK, w) } }
          else Some (CTAP2_OK, w)
      | None \<Rightarrow> Some (CTAP2_OK, w))"

definition store_new_pin ::
  "('fs, 'f, 'd, ('fs, 'f, 'a) cpin_scheme) env \<Rightarrow> bytes \<Rightarrow> byte \<Rightarrow> bytes option \<Rightarrow> bytes \<Rightarrow> byte
     \<Rightarrow> ('fs, 'f, 'a) cpin_scheme \<Rightarrow> (CtapError \<times> ('fs, 'f, 'a) cpin_scheme) option" where
  "store_new_pin env new_pin_enc new_len hash_opt enc_key proto w = do {
     (newPin, w) \<leftarrow> decrypt new_pin_enc (round_up (unat new_len)) enc_key proto w;
     let newPinLen = NEW_PIN_ENC_MIN_SIZE - trailing_zeros newPin (NEW_PIN_ENC_MIN_SIZE - 1);
     if newPinLen < NEW_PIN_MIN_SIZE \<or> newPinLen \<ge> NEW_PIN_MAX_SIZE
     then Some (CTAP2_ERR_PIN_POLICY_VIOLATION, w)
     else do {
       (r, w) \<leftarrow> confirm_old_pin env hash_opt enc_key proto w;
       if r \<noteq> CTAP2_OK then Some (r, w)
       else do {
         w \<leftarrow> store_pin env newPin newPinLen w;
         Some (CTAP2_OK, w) } } }"

definition update_message :: "bytes \<Rightarrow> byte \<Rightarrow> bytes option \<Rightarrow> byte \<Rightarrow> bytes" where
  "update_message new_pin_enc new_len hash_opt proto =
     (let hash_enc_size = auth_hash_size proto;
          verify_buf = take (unat new_len) new_pin_enc @ (case hash_opt of None \<Rightarrow> [] | Some h \<Rightarrow> take hash_enc_size h);
          verify_len = new_len + (if hash_opt = None then 0 else of_nat hash_enc_size)
      in take (unat verify_len) verify_buf)"

definition update_pin_if_verified ::
  "('fs, 'f, 'd, ('fs, 'f, 'a) cpin_scheme) env \<Rightarrow> bytes \<Rightarrow> byte \<Rightarrow> bytes \<Rightarrow> bytes \<Rightarrow> bytes option \<Rightarrow> byte
     \<Rightarrow> ('fs, 'f, 'a) cpin_scheme \<Rightarrow> (CtapError \<times> ('fs, 'f, 'a) cpin_scheme) option" where
  "update_pin_if_verified env new_pin_enc new_len platform_pubkey auth_param hash_opt proto w =
     (if new_len < 64 then Some (CTAP1_ERR_INVALID_PARAMETER, w)
      else do {
        ((enc_key, mac_key), w) \<leftarrow> ctap_client_pin_decapsulate env platform_pubkey proto w;
        (ret, w) \<leftarrow> ctap_client_pin_verify mac_key (update_message new_pin_enc new_len hash_opt proto) auth_param proto w;
        if ret < 0 then Some (CTAP2_ERR_PIN_AUTH_INVALID, w)
        else store_new_pin env new_pin_enc new_len hash_opt enc_key proto w })"

text \<open>The result holds the buffer of the encrypted token.\<close>

definition add_enc_pinUvAuthToken ::
  "('fs, 'f, 'd, ('fs, 'f, 'a) cpin_scheme) env \<Rightarrow> bytes \<Rightarrow> bytes \<Rightarrow> bytes \<Rightarrow> byte \<Rightarrow> byte \<Rightarrow> bytes \<Rightarrow> nat
     \<Rightarrow> ('fs, 'f, 'a) cpin_scheme \<Rightarrow> (CtapError \<times> bytes \<times> ('fs, 'f, 'a) cpin_scheme) option" where
  "add_enc_pinUvAuthToken env pinTokenEnc platform_pubkey hash_enc proto perms rp rp_id_size w = do {
     ((enc_key, mac_key), w) \<leftarrow> ctap_client_pin_decapsulate env platform_pubkey proto w;
     (pin_hash, w) \<leftarrow> decrypt hash_enc (auth_hash_size proto) enc_key proto w;
     let (matches, w) = verify_against_stored_pin pin_hash w;
     if \<not> matches then do { (r, w) \<leftarrow> pin_mismatch env proto w; Some (r, pinTokenEnc, w) }
     else do {
       w \<leftarrow> reset_pin_attempts env w;
       (_, w) \<leftarrow> reset_pinUvAuthToken 1 w;
       (_, w) \<leftarrow> reset_pinUvAuthToken 2 w;
       w \<leftarrow> begin_using_pinUvAuthToken False proto perms w;
       w \<leftarrow> associate_permissions_rp_id rp rp_id_size proto w;
       (ret, out, w) \<leftarrow> encrypt_pinUvAuthToken pinTokenEnc enc_key proto w;
       Some (if ret \<noteq> 0 then CTAP1_ERR_OTHER else CTAP2_OK, out, w) } }"

section \<open>The request\<close>

definition clientPin_zero :: CTAP_clientPin where
  "clientPin_zero = \<lparr>pinProtocol = 0, subCommand = 0,
     keyAgreement = \<lparr>cose_x = replicate 32 0, cose_y = replicate 32 0, cose_kty = 0, cose_crv = 0\<rparr>,
     keyAgreementPresent = False, pinUvAuthParam = replicate PIN_UV_AUTH_PARAM_MAX_SIZE 0, pinUvAuthParam_len = 0,
     newPinEnc = replicate NEW_PIN_ENC_MAX_SIZE 0, newPinEncSize = 0, pinHashEnc = replicate 32 0,
     pinHashEncPresent = False, cp_permissions = 0, permissionsPresent = False,
     cp_rpId = replicate (DOMAIN_NAME_MAX_SIZE + 1) 0, rpIdSize = 0\<rparr>"

definition parse_newPinEnc :: "CborValue \<Rightarrow> CTAP_clientPin \<Rightarrow> CTAP_clientPin pres" where
  "parse_newPinEnc it CP =
     (if cbor_value_get_type it \<noteq> CborByteStringType then Some (Inl CTAP2_ERR_INVALID_CBOR)
      else do {
        (err, sz) \<leftarrow> cbor_value_calculate_string_length it;
        cbor_check err (
          if sz > NEW_PIN_ENC_MAX_SIZE \<or> sz < NEW_PIN_ENC_MIN_SIZE then Some (Inl CTAP2_ERR_PIN_POLICY_VIOLATION)
          else do {
            (err, b, _) \<leftarrow> cbor_value_copy_byte_string it (newPinEnc CP) NEW_PIN_ENC_MAX_SIZE;
            cbor_check err (Some (Inr (CP\<lparr>newPinEncSize := of_nat sz, newPinEnc := b\<rparr>))) }) })"

definition parse_pinHashEnc :: "CborValue \<Rightarrow> CTAP_clientPin \<Rightarrow> CTAP_clientPin pres" where
  "parse_pinHashEnc it CP =
     (if cbor_value_get_type it \<noteq> CborByteStringType then Some (Inl CTAP2_ERR_INVALID_CBOR)
      else do {
        (err, b, _) \<leftarrow> cbor_value_copy_byte_string it (pinHashEnc CP) (length (pinHashEnc CP));
        cbor_check err (Some (Inr (CP\<lparr>pinHashEnc := b, pinHashEncPresent := True\<rparr>))) })"

definition parse_cp_rpId :: "CborValue \<Rightarrow> CTAP_clientPin \<Rightarrow> CTAP_clientPin pres" where
  "parse_cp_rpId it CP =
     (if cbor_value_get_type it \<noteq> CborTextStringType then Some (Inl CTAP2_ERR_INVALID_CBOR)
      else do {
        (err, b, sz) \<leftarrow> cbor_value_copy_text_string it (cp_rpId CP) DOMAIN_NAME_MAX_SIZE;
        if err = CborErrorOutOfMemory then Some (Inl CTAP2_ERR_LIMIT_EXCEEDED)
        else cbor_check err (Some (Inr (CP\<lparr>cp_rpId := b[DOMAIN_NAME_MAX_SIZE := 0], rpIdSize := sz\<rparr>))) })"

definition client_pin_body :: "int \<Rightarrow> CborValue \<Rightarrow> CTAP_clientPin \<Rightarrow> CTAP_clientPin pres" where
  "client_pin_body key it CP =
     (if key = CP_Cmd_pinUvAuthProtocol
      then ctap_check (parse_int it) (\<lambda>tmp. if tmp < 0 \<or> tmp > 255 then Some (Inl CTAP2_ERR_INVALID_CBOR)
             else Some (Inr (CP\<lparr>pinProtocol := of_int tmp\<rparr>)))
      else if key = CP_Cmd_subCommand then ctap_check (parse_int it) (\<lambda>v. Some (Inr (CP\<lparr>subCommand := v\<rparr>)))
      else if key = CP_Cmd_keyAgreement
      then ctap_check (cose_key_parse it (keyAgreement CP))
             (\<lambda>k. Some (Inr (CP\<lparr>keyAgreement := k, keyAgreementPresent := True\<rparr>)))
      else if key = CP_Cmd_pinUvAuthParam
      then ctap_check (ctap_parse_pinUvAuthParam it False (pinUvAuthParam CP)) (\<lambda>(emp, b, len).
             if emp then Some (Inl CTAP1_ERR_INVALID_LENGTH)
             else Some (Inr (CP\<lparr>pinUvAuthParam := b, pinUvAuthParam_len := len\<rparr>)))
      else if key = CP_Cmd_newPinEnc then parse_newPinEnc it CP
      else if key = CP_Cmd_pinHashEnc then parse_pinHashEnc it CP
      else if key = CP_Cmd_permissions
      then ctap_check (parse_int it) (\<lambda>perm. Some (Inr (CP\<lparr>cp_permissions := of_int perm, permissionsPresent := True\<rparr>)))
      else if key = CP_Cmd_rpId then parse_cp_rpId it CP
      else Some (Inr CP))"

definition parse_client_pin_request :: "bytes \<Rightarrow> CTAP_clientPin pres" where
  "parse_client_pin_request request = do {
     (err, it) \<leftarrow> cbor_parser_init request;
     cbor_check err (int_map_parse client_pin_body it clientPin_zero) }"

section \<open>The command\<close>

text \<open>The status for a CBOR error.\<close>

abbreviation cbor_status :: "CborError \<Rightarrow> CtapError" where
  "cbor_status err \<equiv> (if err \<noteq> CborNoError then CTAP2_ERR_INVALID_CBOR else CTAP2_OK)"

definition cp_getPINRetries ::
  "CborEncoder \<Rightarrow> ('fs, 'f, 'a) cpin_scheme \<Rightarrow> CtapError \<times> CborEncoder" where
  "cp_getPINRetries encoder w =
     (let (err, e) = enc_map 2
            [\<lambda>e. cbor_encode_int e CP_Resp_pinRetries, \<lambda>e. cbor_encode_uint e (ucast (leftover_pin_attempts w)),
             \<lambda>e. cbor_encode_int e CP_Resp_powerCycleState,
             \<lambda>e. cbor_encode_boolean e (ctap_client_pin_is_boot_locked w \<and> \<not> ctap_client_pin_is_locked w)] encoder
      in (cbor_status err, e))"

definition crypto_ecc256_compute_public_key ::
  "'a crypto_scheme ecc_lib \<Rightarrow> bytes \<Rightarrow> 'a crypto_scheme \<Rightarrow> (bytes \<times> 'a crypto_scheme) option" where
  "crypto_ecc256_compute_public_key lib privkey w = uECC_compute_public_key lib privkey w"

text \<open>The containers are written out where a call between creating and closing one can fail or change the
  state: on an early return the parent encoder keeps its fields and the buffer what was written.\<close>

definition cp_getKeyAgreement ::
  "('fs, 'f, 'd, ('fs, 'f, 'a) cpin_scheme) env \<Rightarrow> CborEncoder \<Rightarrow> byte \<Rightarrow> ('fs, 'f, 'a) cpin_scheme
     \<Rightarrow> (CtapError \<times> CborEncoder \<times> ('fs, 'f, 'a) cpin_scheme) option" where
  "cp_getKeyAgreement env encoder proto w =
     (let (err, e, map) = cbor_encoder_create_map encoder 1
      in if err \<noteq> CborNoError then Some (CTAP2_ERR_INVALID_CBOR, e, w)
         else let (err, map) = cbor_encode_int map CP_Resp_keyAgreement
              in if err \<noteq> CborNoError then Some (CTAP2_ERR_INVALID_CBOR, e\<lparr>ce_buf := ce_buf map\<rparr>, w)
                 else do {
                   w \<leftarrow> (let k = key_agreement (get_pin_protocol_state proto w)
                          in if \<not> pub_key_valid k
                             then do {
                               (pub, w) \<leftarrow> crypto_ecc256_compute_public_key (env_ecc env) (priv_key k) w;
                               Some (on_protocol proto (\<lambda>t. t\<lparr>key_agreement := (key_agreement t)\<lparr>pub_key := pub, pub_key_valid := True\<rparr>\<rparr>) w) }
                             else Some w);
                   let pub = pub_key (key_agreement (get_pin_protocol_state proto w));
                   let (r, map) = cose_key_add map pub (drop 32 pub) COSE_ALG_ECDH_ES_HKDF_256;
                   if r \<noteq> CTAP2_OK then Some (r, e\<lparr>ce_buf := ce_buf map\<rparr>, w)
                   else let (err, e) = cbor_encoder_close_container e map
                        in Some (cbor_status err, e, w) })"

text \<open>The end of the two commands that return a token.\<close>

definition send_token ::
  "('fs, 'f, 'd, ('fs, 'f, 'a) cpin_scheme) env \<Rightarrow> CborEncoder \<Rightarrow> CTAP_clientPin \<Rightarrow> byte \<Rightarrow> nat \<Rightarrow> ('fs, 'f, 'a) cpin_scheme
     \<Rightarrow> (CtapError \<times> CborEncoder \<times> ('fs, 'f, 'a) cpin_scheme) option" where
  "send_token env encoder CP perms rp_id_size w =
     (let (err, e, map) = cbor_encoder_create_map encoder 1
      in if err \<noteq> CborNoError then Some (CTAP2_ERR_INVALID_CBOR, e, w)
         else let (err, map) = cbor_encode_int map CP_Resp_pinUvAuthToken
              in if err \<noteq> CborNoError then Some (CTAP2_ERR_INVALID_CBOR, e\<lparr>ce_buf := ce_buf map\<rparr>, w)
                 else do {
                   (r, pinTokenEnc, w) \<leftarrow> add_enc_pinUvAuthToken env (uninit (CP_IV_SIZE + PINUVAUTHTOKEN_SIZE) w)
                     (cose_x (keyAgreement CP) @ cose_y (keyAgreement CP)) (pinHashEnc CP) (pinProtocol CP) perms
                     (cp_rpId CP) rp_id_size w;
                   if r \<noteq> CTAP2_OK then Some (r, e\<lparr>ce_buf := ce_buf map\<rparr>, w)
                   else let len = (if pinProtocol CP = 2 then CP_IV_SIZE + PINUVAUTHTOKEN_SIZE else PINUVAUTHTOKEN_SIZE);
                            (err, map) = cbor_encode_byte_string map (take len pinTokenEnc)
                        in if err \<noteq> CborNoError then Some (CTAP2_ERR_INVALID_CBOR, e\<lparr>ce_buf := ce_buf map\<rparr>, w)
                           else let (err, e) = cbor_encoder_close_container e map
                                in Some (cbor_status err, e, w) })"

definition cp_setPIN ::
  "('fs, 'f, 'd, ('fs, 'f, 'a) cpin_scheme) env \<Rightarrow> CTAP_clientPin \<Rightarrow> ('fs, 'f, 'a) cpin_scheme
     \<Rightarrow> (CtapError \<times> ('fs, 'f, 'a) cpin_scheme) option" where
  "cp_setPIN env CP w =
     (if newPinEncSize CP = 0 \<or> pinUvAuthParam_len CP = 0 \<or> \<not> keyAgreementPresent CP
      then Some (CTAP2_ERR_MISSING_PARAMETER, w)
      else if ctap_client_pin_is_set w then Some (CTAP2_ERR_PIN_AUTH_INVALID, w)
      else update_pin_if_verified env (newPinEnc CP) (newPinEncSize CP) (cose_x (keyAgreement CP) @ cose_y (keyAgreement CP))
             (pinUvAuthParam CP) None (pinProtocol CP) w)"

definition cp_changePIN ::
  "('fs, 'f, 'd, ('fs, 'f, 'a) cpin_scheme) env \<Rightarrow> CTAP_clientPin \<Rightarrow> ('fs, 'f, 'a) cpin_scheme
     \<Rightarrow> (CtapError \<times> ('fs, 'f, 'a) cpin_scheme) option" where
  "cp_changePIN env CP w =
     (if \<not> ctap_client_pin_is_set w then Some (CTAP2_ERR_PIN_NOT_SET, w)
      else if newPinEncSize CP = 0 \<or> pinUvAuthParam_len CP = 0 \<or> \<not> keyAgreementPresent CP \<or> \<not> pinHashEncPresent CP
      then Some (CTAP2_ERR_MISSING_PARAMETER, w)
      else update_pin_if_verified env (newPinEnc CP) (newPinEncSize CP) (cose_x (keyAgreement CP) @ cose_y (keyAgreement CP))
             (pinUvAuthParam CP) (Some (pinHashEnc CP)) (pinProtocol CP) w)"

definition cp_getPinToken ::
  "('fs, 'f, 'd, ('fs, 'f, 'a) cpin_scheme) env \<Rightarrow> CborEncoder \<Rightarrow> CTAP_clientPin \<Rightarrow> ('fs, 'f, 'a) cpin_scheme
     \<Rightarrow> (CtapError \<times> CborEncoder \<times> ('fs, 'f, 'a) cpin_scheme) option" where
  "cp_getPinToken env encoder CP w =
     (if \<not> ctap_client_pin_is_set w then Some (CTAP2_ERR_PIN_NOT_SET, encoder, w)
      else if \<not> keyAgreementPresent CP \<or> \<not> pinHashEncPresent CP then Some (CTAP2_ERR_MISSING_PARAMETER, encoder, w)
      else if permissionsPresent CP \<or> cp_permissions CP \<noteq> 0 \<or> rpIdSize CP > 0
      then Some (CTAP1_ERR_INVALID_PARAMETER, encoder, w)
      else send_token env encoder CP CP_permissions_default_mask 0 w)"

definition cp_getTokenWithPermissions ::
  "('fs, 'f, 'd, ('fs, 'f, 'a) cpin_scheme) env \<Rightarrow> CborEncoder \<Rightarrow> CTAP_clientPin \<Rightarrow> ('fs, 'f, 'a) cpin_scheme
     \<Rightarrow> (CtapError \<times> CborEncoder \<times> ('fs, 'f, 'a) cpin_scheme) option" where
  "cp_getTokenWithPermissions env encoder CP w =
     (if \<not> ctap_client_pin_is_set w then Some (CTAP2_ERR_PIN_NOT_SET, encoder, w)
      else if \<not> keyAgreementPresent CP \<or> \<not> pinHashEncPresent CP then Some (CTAP2_ERR_MISSING_PARAMETER, encoder, w)
      else if \<not> permissionsPresent CP \<or> cp_permissions CP = 0 then Some (CTAP2_ERR_MISSING_PARAMETER, encoder, w)
      else let perms = cp_permissions CP AND CP_permissions_defined_mask
           in if perms AND CP_permissions_unsupported_mask \<noteq> 0 then Some (CTAP2_ERR_UNAUTHORIZED_PERMISSION, encoder, w)
              else if perms AND (CP_permissions_mc OR CP_permissions_ga) \<noteq> 0 \<and> rpIdSize CP = 0
              then Some (CTAP2_ERR_MISSING_PARAMETER, encoder, w)
              else send_token env encoder CP perms (rpIdSize CP) w)"

definition ctap_client_pin ::
  "('fs, 'f, 'd, ('fs, 'f, 'a) cpin_scheme) env \<Rightarrow> CborEncoder \<Rightarrow> bytes \<Rightarrow> ('fs, 'f, 'a) cpin_scheme
     \<Rightarrow> (CtapError \<times> CborEncoder \<times> ('fs, 'f, 'a) cpin_scheme) option" where
  "ctap_client_pin env encoder request w = do {
     req \<leftarrow> parse_client_pin_request request;
     (case req of
        Inl e \<Rightarrow> Some (e, encoder, w)
      | Inr CP \<Rightarrow>
          if subCommand CP \<noteq> CP_SubCmd_getPINRetries \<and> pinProtocol CP = 0
          then Some (CTAP2_ERR_MISSING_PARAMETER, encoder, w)
          else if subCommand CP \<noteq> CP_SubCmd_getPINRetries \<and> pinProtocol CP \<noteq> 1 \<and> pinProtocol CP \<noteq> 2
          then Some (CTAP1_ERR_INVALID_PARAMETER, encoder, w)
          else if subCommand CP = CP_SubCmd_getPINRetries
          then let (r, e) = cp_getPINRetries encoder w in Some (r, e, w)
          else if subCommand CP = CP_SubCmd_getKeyAgreement then cp_getKeyAgreement env encoder (pinProtocol CP) w
          else if subCommand CP = CP_SubCmd_setPIN
          then do { (r, w) \<leftarrow> cp_setPIN env CP w; Some (r, encoder, w) }
          else if ctap_client_pin_is_locked w then Some (CTAP2_ERR_PIN_BLOCKED, encoder, w)
          else if ctap_client_pin_is_boot_locked w then Some (CTAP2_ERR_PIN_AUTH_BLOCKED, encoder, w)
          else if subCommand CP = CP_SubCmd_changePIN
          then do { (r, w) \<leftarrow> cp_changePIN env CP w; Some (r, encoder, w) }
          else if subCommand CP = CP_SubCmd_getPinToken then cp_getPinToken env encoder CP w
          else if subCommand CP = CP_SubCmd_getPinUvAuthTokenUsingPinWithPermissions
          then cp_getTokenWithPermissions env encoder CP w
          else Some (CTAP2_ERR_INVALID_SUBCOMMAND, encoder, w)) }"

end
