(* ===== verification/Pin_Laws.thy ===== *)
theory Pin_Laws
  imports Client_Pin Device_Laws
begin

text \<open>
  The laws of the PIN component. \<open>pin_env\<close> says that the machinery below works (littlefs, the random
  number generator, the clock, keys of the right size); \<open>calm\<close> relates two states between which only
  that machinery moved. \<open>safely\<close> is the claim about a call: it returns and the result satisfies a
  condition, or one of the two ways not to return has occurred, an elliptic curve library that reports
  failure or a random number generator that never yields a private key.
\<close>

section \<open>Machinery\<close>

definition pin_env ::
  "('fs, 'f, 'd, 'w) env \<Rightarrow> ('fs, 'f) lfs_view \<Rightarrow> ('fs, 'f, 'a) cpin_scheme \<Rightarrow> bool" where
  "pin_env env v w \<longleftrightarrow> dev_ok (env_lfs env) v w \<and> rng_ok w \<and> rng_initialized w
     \<and> length (key_pin_enc w) = 32 \<and> length (key_cred_mac w) = 32 \<and> (\<forall>n. timer_reg w n > 1)"

definition same_hw :: "('fs, 'f, 'a) cpin_scheme \<Rightarrow> ('fs, 'f, 'a) cpin_scheme \<Rightarrow> bool" where
  "same_hw w w' \<longleftrightarrow> trng_ready w' = trng_ready w \<and> trng_reg w' = trng_reg w \<and> timer_reg w' = timer_reg w
     \<and> key_pin_enc w' = key_pin_enc w \<and> key_device_mac w' = key_device_mac w \<and> key_cred_mac w' = key_cred_mac w"

definition keeps :: "('fs, 'f, 'a) cpin_scheme \<Rightarrow> ('fs, 'f, 'a) cpin_scheme \<Rightarrow> bool" where
  "keeps w w' \<longleftrightarrow> same_hw w w' \<and> STATE w' = STATE w \<and> pinUvAuthToken_p1 w' = pinUvAuthToken_p1 w
     \<and> pinUvAuthToken_p2 w' = pinUvAuthToken_p2 w \<and> PIN_BOOT_ATTEMPTS_LEFT w' = PIN_BOOT_ATTEMPTS_LEFT w"

definition calm ::
  "('fs, 'f, 'd, 'w) env \<Rightarrow> ('fs, 'f) lfs_view \<Rightarrow> ('fs, 'f, 'a) cpin_scheme \<Rightarrow> ('fs, 'f, 'a) cpin_scheme \<Rightarrow> bool" where
  "calm env v w w' \<longleftrightarrow> pin_env env v w' \<and> keeps w w' \<and> f_contents v (lfs w') = f_contents v (lfs w)"

lemma same_hw_trans: "same_hw a b \<Longrightarrow> same_hw b c \<Longrightarrow> same_hw a c"
  by (simp add: same_hw_def)

lemma same_hw_refl [simp]: "same_hw w w"
  by (simp add: same_hw_def)

lemma calm_trans: "calm env v a b \<Longrightarrow> calm env v b c \<Longrightarrow> calm env v a c"
  by (simp add: calm_def keeps_def same_hw_def)

lemma calm_refl: "pin_env env v w \<Longrightarrow> calm env v w w"
  by (simp add: calm_def keeps_def)

lemma calmD:
  assumes "calm env v w w'"
  shows "pin_env env v w'" "same_hw w w'" "STATE w' = STATE w" "pinUvAuthToken_p1 w' = pinUvAuthToken_p1 w"
    "pinUvAuthToken_p2 w' = pinUvAuthToken_p2 w" "PIN_BOOT_ATTEMPTS_LEFT w' = PIN_BOOT_ATTEMPTS_LEFT w"
    "f_contents v (lfs w') = f_contents v (lfs w)" "key_pin_enc w' = key_pin_enc w"
    "key_device_mac w' = key_device_mac w" "timer_reg w' = timer_reg w"
  using assms by (auto simp: calm_def keeps_def same_hw_def)

lemma calm_protocol: "calm env v w w' \<Longrightarrow> get_pin_protocol_state p w' = get_pin_protocol_state p w"
  by (simp add: get_pin_protocol_state_def calmD)

lemma pin_env_hash: "pin_env env v w \<Longrightarrow> hash_frame w w' \<Longrightarrow> calm env v w w'"
  by (auto simp: calm_def keeps_def same_hw_def pin_env_def hash_frame_def dev_ok_def crypto_ok_def rng_ok_def)

lemma pin_env_rng:
  assumes "pin_env env v w" "rng_frame w w'"
  shows "calm env v w w'"
proof -
  have m: "rng_mask w' = rng_mask w" and ok: "rng_ok w'" using assms(2) by (simp_all add: rng_frame_def)
  have c: "key_pin_enc w' = key_pin_enc w" "key_device_mac w' = key_device_mac w" "key_cred_mac w' = key_cred_mac w"
    "trng_ready w' = trng_ready w" "trng_reg w' = trng_reg w" "timer_reg w' = timer_reg w" "sha256_ctx w' = sha256_ctx w"
    "rng_initialized w' = rng_initialized w" "lfs w' = lfs w" "STATE w' = STATE w"
    "pinUvAuthToken_p1 w' = pinUvAuthToken_p1 w" "pinUvAuthToken_p2 w' = pinUvAuthToken_p2 w"
    "PIN_BOOT_ATTEMPTS_LEFT w' = PIN_BOOT_ATTEMPTS_LEFT w"
    using arg_cong [OF m, of key_pin_enc] arg_cong [OF m, of key_device_mac] arg_cong [OF m, of key_cred_mac]
      arg_cong [OF m, of trng_ready] arg_cong [OF m, of trng_reg] arg_cong [OF m, of timer_reg] arg_cong [OF m, of sha256_ctx]
      arg_cong [OF m, of rng_initialized] arg_cong [OF m, of lfs] arg_cong [OF m, of STATE]
      arg_cong [OF m, of pinUvAuthToken_p1] arg_cong [OF m, of pinUvAuthToken_p2] arg_cong [OF m, of PIN_BOOT_ATTEMPTS_LEFT]
    by (simp_all add: rng_mask_def)
  then show ?thesis
    using assms(1) ok by (simp add: calm_def keeps_def same_hw_def pin_env_def dev_ok_def crypto_ok_def)
qed

lemma pin_env_aes: "pin_env env v w \<Longrightarrow> calm env v w (w\<lparr>aes_ctx := c\<rparr>)"
  by (simp add: calm_def keeps_def same_hw_def pin_env_def dev_ok_def crypto_ok_def rng_ok_def)

text \<open>A change to the authenticator's own variables leaves the machinery alone.\<close>

lemma pin_env_fields [simp]:
  "pin_env env v (w\<lparr>STATE := s\<rparr>) \<longleftrightarrow> pin_env env v w"
  "pin_env env v (w\<lparr>pinUvAuthToken_p1 := t\<rparr>) \<longleftrightarrow> pin_env env v w"
  "pin_env env v (w\<lparr>pinUvAuthToken_p2 := t\<rparr>) \<longleftrightarrow> pin_env env v w"
  "pin_env env v (w\<lparr>PIN_BOOT_ATTEMPTS_LEFT := b\<rparr>) \<longleftrightarrow> pin_env env v w"
  "pin_env env v (on_protocol p f w) \<longleftrightarrow> pin_env env v w"
  "pin_env env v (on_state p g w) \<longleftrightarrow> pin_env env v w"
  by (auto simp: pin_env_def dev_ok_def crypto_ok_def rng_ok_def on_protocol_def on_state_def)

section \<open>Machinery steps\<close>

lemma sha_calm:
  assumes "pin_env env v w"
  obtains w' where "crypto_sha256_final (crypto_sha256_update d (crypto_sha256_init w)) = (SHA256 d, w')" "calm env v w w'"
proof -
  have ok: "crypto_ok w" using assms by (simp add: pin_env_def dev_ok_def)
  have f: "hash_fed (crypto_sha256_update d (crypto_sha256_init w)) d"
    using hash_fed_update [OF hash_fed_init [OF ok]] by simp
  obtain w' where w': "crypto_sha256_final (crypto_sha256_update d (crypto_sha256_init w)) = (SHA256 d, w')"
    "hash_frame (crypto_sha256_update d (crypto_sha256_init w)) w'" using hash_fed_final [OF f] by blast
  have "hash_frame w w'"
    using hash_step_frames(1) [OF ok] hash_step_frames(2) [OF hash_fed_init [OF ok]] w'(2) hash_frame_trans by meson
  then show ?thesis using that w'(1) pin_env_hash [OF assms] by blast
qed

lemma hmac_calm:
  assumes "pin_env env v w" "length key \<le> 64"
  obtains w' where "crypto_hmac key [d] w = Some (HMAC key d, w')" "calm env v w w'"
  using hmac_stream [of w key "[d]"] assms pin_env_hash [OF assms(1)] by (auto simp: pin_env_def dev_ok_def)

lemma rng_calm:
  assumes "pin_env env v w" "n \<le> length dst"
  obtains bs w' where "ctap_generate_rng dst n w = Some (1, bs @ drop n dst, w')" "rng_bytes n w = Some (bs, w')"
    "length bs = n" "calm env v w w'"
proof -
  have "rng_ok w" "rng_initialized w" using assms(1) by (simp_all add: pin_env_def)
  then obtain bs w' where "rng_loop n [] w = Some (bs, w')" "rng_bytes n w = Some (bs, w')" "length bs = n" "rng_frame w w'"
    using rng_loop_bytes [of w n "[]"] by auto
  then show ?thesis
    using that pin_env_rng [OF assms(1)] \<open>rng_initialized w\<close>
    by (simp add: ctap_generate_rng_def rng_get_bytes_def blit_def)
qed

lemma millis_calm:
  assumes "pin_env env v w"
  obtains now w' where "millis w = Some (now, w')" "now = TIMER_MAX - timer_reg w (timer_reads w)" "calm env v w w'"
proof -
  have "timer_reg w (timer_reads w) > 1" using assms by (simp add: pin_env_def)
  moreover have "calm env v w (w\<lparr>timer_reads := timer_reads w + 1\<rparr>)"
    using assms by (simp add: calm_def keeps_def same_hw_def pin_env_def dev_ok_def crypto_ok_def rng_ok_def)
  ultimately show ?thesis using that millis_running by blast
qed

definition CBC_enc :: "bytes \<Rightarrow> bytes \<Rightarrow> bytes \<Rightarrow> bytes" where
  "CBC_enc key iv p = fst (cbc_encrypt (Cipher (KeyExpansion key)) iv p)"

definition CBC_dec :: "bytes \<Rightarrow> bytes \<Rightarrow> bytes \<Rightarrow> bytes" where
  "CBC_dec key iv c = fst (cbc_decrypt (InvCipher (KeyExpansion key)) iv c)"

lemma CBC_round:
  assumes "length key = 32" "length iv = 16" "length p mod 16 = 0"
  shows "CBC_dec key iv (CBC_enc key iv p) = p" "length (CBC_enc key iv p) = length p"
  using aes.cbc_round_trip [OF length_KeyExpansion [OF assms(1)] assms(2,3)] by (simp_all add: CBC_enc_def CBC_dec_def)

abbreviation nonce_iv :: "bytes option \<Rightarrow> bytes" where
  "nonce_iv n \<equiv> (case n of None \<Rightarrow> replicate 16 0 | Some iv \<Rightarrow> take 16 iv)"

lemma aes_calm:
  assumes "pin_env env v w"
  obtains w' where "crypto_aes256_encrypt p (crypto_aes256_init key n w) = (CBC_enc key (nonce_iv n) p, w')" "calm env v w w'"
  using that pin_env_aes [OF assms]
  by (simp add: crypto_aes256_encrypt_def crypto_aes256_init_def AES_CBC_encrypt_buffer_def AES_init_ctx_def CBC_enc_def
      case_prod_unfold Let_def)

lemma aes_dec_calm:
  assumes "pin_env env v w"
  obtains w' where "crypto_aes256_decrypt c (crypto_aes256_init key n w) = (CBC_dec key (nonce_iv n) c, w')" "calm env v w w'"
  using that pin_env_aes [OF assms]
  by (simp add: crypto_aes256_decrypt_def crypto_aes256_init_def AES_CBC_decrypt_buffer_def AES_init_ctx_def CBC_dec_def
      case_prod_unfold Let_def)

lemma verify_stored_calm:
  assumes "pin_env env v w"
  obtains w' where "verify_against_stored_pin h w = (secure_memeq h (CBC_dec (key_pin_enc w) (take 16 (pin_hash_iv (STATE w)))
      (take 16 (pin_hash_enc (STATE w)))) 16, w')" "calm env v w w'"
proof -
  obtain w' where "crypto_aes256_decrypt (take 16 (pin_hash_enc (STATE w))) (crypto_aes256_init (key_pin_enc w) (Some (pin_hash_iv (STATE w))) w)
      = (CBC_dec (key_pin_enc w) (nonce_iv (Some (pin_hash_iv (STATE w)))) (take 16 (pin_hash_enc (STATE w))), w')" "calm env v w w'"
    by (rule aes_dec_calm [OF assms])
  then show ?thesis using that by (simp add: verify_against_stored_pin_def STATE_PIN_HASH_SIZE_def)
qed

lemma verify_calm:
  assumes "pin_env env v w"
  obtains w' where "ctap_client_pin_verify key msg sig p w
      = Some (if \<not> secure_memeq sig (HMAC (take 32 key) msg) (auth_param_size p) then - 1 else 0, w')" "calm env v w w'"
proof -
  obtain w' where "crypto_hmac (take 32 key) [msg] w = Some (HMAC (take 32 key) msg, w')" "calm env v w w'"
    by (rule hmac_calm [OF assms, of "take 32 key" msg]) auto
  then show ?thesis using that by (simp add: ctap_client_pin_verify_def)
qed

lemma rp_info_calm:
  assumes "pin_env env v w"
  obtains w' where "ctap_derive_rp_id_info rp w = Some (SHA256 rp, take 16 (HMAC (key_cred_mac w) (SHA256 rp)), w')" "calm env v w w'"
proof -
  obtain w1 where 1: "crypto_sha256_final (crypto_sha256_update rp (crypto_sha256_init w)) = (SHA256 rp, w1)" "calm env v w w1"
    by (rule sha_calm [OF assms])
  have k: "key_cred_mac w1 = key_cred_mac w" using 1(2) by (simp add: calm_def keeps_def same_hw_def)
  obtain w2 where 2: "crypto_hmac (key_cred_mac w1) [SHA256 rp] w1 = Some (HMAC (key_cred_mac w1) (SHA256 rp), w2)" "calm env v w1 w2"
    by (rule hmac_calm [OF calmD(1) [OF 1(2)], of "key_cred_mac w1" "SHA256 rp"])
      (use calmD(1) [OF 1(2)] in \<open>auto simp: pin_env_def\<close>)
  show ?thesis
    using that 1 2 calm_trans [OF 1(2) 2(2)]
    by (simp add: ctap_derive_rp_id_info_def ctap_compute_mac_def CREDENTIAL_TAG_SIZE_def k)
qed

section \<open>Key derivation\<close>

definition session_keys :: "bytes \<Rightarrow> byte \<Rightarrow> bytes \<times> bytes" where
  "session_keys z p =
     (if p = 1 then (SHA256 z, SHA256 z)
      else (HKDF_expand (HMAC (replicate 32 0) z) HKDF_INFO_AES 32, HKDF_expand (HMAC (replicate 32 0) z) HKDF_INFO_HMAC 32))"

lemma length_session_keys: "length (fst (session_keys z p)) = 32" "length (snd (session_keys z p)) = 32"
  by (simp_all add: session_keys_def length_HKDF_expand)

lemma kdf_calm:
  assumes "pin_env env v w" "length z = 32"
  obtains w' where "kdf z p w = Some (session_keys z p, w')" "calm env v w w'"
proof (cases "p = 1")
  case True
  obtain w' where "crypto_sha256_final (crypto_sha256_update z (crypto_sha256_init w)) = (SHA256 z, w')" "calm env v w w'"
    by (rule sha_calm [OF assms(1)])
  then show ?thesis using that True assms(2) by (simp add: kdf_def session_keys_def)
next
  case False
  let ?prk = "HMAC (replicate 32 0) z"
  obtain w1 where 1: "crypto_hmac (replicate 32 0) [z] w = Some (?prk, w1)" "calm env v w w1"
    by (rule hmac_calm [OF assms(1), of "replicate 32 0" z]) auto
  have ok: "crypto_ok w'" if "pin_env env v w'" for w' using that by (simp add: pin_env_def dev_ok_def)
  obtain w2 where 2: "crypto_hkdf_expand_sha256 ?prk HKDF_INFO_AES 32 w1 = Some (HKDF_expand ?prk HKDF_INFO_AES 32, w2)" "hash_frame w1 w2"
    using hkdf_expand [OF ok [OF calmD(1) [OF 1(2)]], of ?prk HKDF_INFO_AES 32] by auto
  note c2 = pin_env_hash [OF calmD(1) [OF 1(2)] 2(2)]
  obtain w3 where 3: "crypto_hkdf_expand_sha256 ?prk HKDF_INFO_HMAC 32 w2 = Some (HKDF_expand ?prk HKDF_INFO_HMAC 32, w3)" "hash_frame w2 w3"
    using hkdf_expand [OF ok [OF calmD(1) [OF c2]], of ?prk HKDF_INFO_HMAC 32] by auto
  have "calm env v w w3" using 1(2) c2 pin_env_hash [OF calmD(1) [OF c2] 3(2)] calm_trans by blast
  then show ?thesis
    using that 1(1) 2(1) 3(1) False assms(2) by (simp add: kdf_def session_keys_def crypto_hkdf_extract_sha256_def)
qed

section \<open>Fresh keys\<close>

definition set_priv :: "bytes \<Rightarrow> pinUvAuthToken_t \<Rightarrow> pinUvAuthToken_t" where
  "set_priv k t = t\<lparr>key_agreement := (key_agreement t)\<lparr>priv_key := k\<rparr>\<rparr>"

text \<open>Only the machinery and the private key of one protocol moved.\<close>

definition rekeyed ::
  "('fs, 'f, 'd, 'w) env \<Rightarrow> ('fs, 'f) lfs_view \<Rightarrow> byte \<Rightarrow> bytes \<Rightarrow> ('fs, 'f, 'a) cpin_scheme \<Rightarrow> ('fs, 'f, 'a) cpin_scheme \<Rightarrow> bool" where
  "rekeyed env v p k w w' \<longleftrightarrow> calm env v (on_protocol p (set_priv k) w) w' \<and> same_hw w w'
     \<and> length k = 32 \<and> crypto_ecc256_is_valid_scalar k"

lemma same_hw_fields [simp]:
  "same_hw w (w'\<lparr>STATE := s\<rparr>) \<longleftrightarrow> same_hw w w'"
  "same_hw w (w'\<lparr>pinUvAuthToken_p1 := t\<rparr>) \<longleftrightarrow> same_hw w w'"
  "same_hw w (w'\<lparr>pinUvAuthToken_p2 := t\<rparr>) \<longleftrightarrow> same_hw w w'"
  "same_hw w (w'\<lparr>PIN_BOOT_ATTEMPTS_LEFT := b\<rparr>) \<longleftrightarrow> same_hw w w'"
  "same_hw w (on_protocol p f w') \<longleftrightarrow> same_hw w w'"
  "same_hw w (on_state p g w') \<longleftrightarrow> same_hw w w'"
  by (auto simp: same_hw_def on_protocol_def on_state_def)

lemma same_hw_fields_left [simp]:
  "same_hw (w\<lparr>STATE := s\<rparr>) w' \<longleftrightarrow> same_hw w w'"
  "same_hw (w\<lparr>pinUvAuthToken_p1 := t\<rparr>) w' \<longleftrightarrow> same_hw w w'"
  "same_hw (w\<lparr>pinUvAuthToken_p2 := t\<rparr>) w' \<longleftrightarrow> same_hw w w'"
  "same_hw (w\<lparr>PIN_BOOT_ATTEMPTS_LEFT := b\<rparr>) w' \<longleftrightarrow> same_hw w w'"
  "same_hw (on_protocol p f w) w' \<longleftrightarrow> same_hw w w'"
  "same_hw (on_state p g w) w' \<longleftrightarrow> same_hw w w'"
  by (auto simp: same_hw_def on_protocol_def on_state_def)

lemma calm_on_protocol: "calm env v w w' \<Longrightarrow> calm env v (on_protocol p f w) (on_protocol p f w')"
  by (simp add: calm_def keeps_def on_protocol_def)

lemma set_priv_again: "on_protocol p (set_priv k) (on_protocol p (set_priv j) w) = on_protocol p (set_priv k) w"
  by (simp add: on_protocol_def set_priv_def)

lemma get_on_protocol [simp]: "get_pin_protocol_state p (on_protocol p f w) = f (get_pin_protocol_state p w)"
  by (simp add: get_pin_protocol_state_def on_protocol_def)

abbreviation priv_of :: "byte \<Rightarrow> ('fs, 'f, 'a) cpin_scheme \<Rightarrow> bytes" where
  "priv_of p w \<equiv> priv_key (key_agreement (get_pin_protocol_state p w))"

lemma regenerate_step:
  assumes "pin_env env v w" "length (priv_of p w) = 32"
  obtains k w1 where "rng_bytes 32 w = Some (k, w1)" "length k = 32" "calm env v w w1"
    "regenerate_loop p w = (if crypto_ecc256_is_valid_scalar k then Some (on_protocol p (set_priv k) w1)
       else regenerate_loop p (on_protocol p (set_priv k) w1))"
proof -
  have l: "32 \<le> length (priv_of p w)" using assms(2) by simp
  obtain k w1 where "ctap_generate_rng (priv_of p w) 32 w = Some (1, k @ drop 32 (priv_of p w), w1)" "rng_bytes 32 w = Some (k, w1)"
    "length k = 32" "calm env v w w1" by (rule rng_calm [OF assms(1) l])
  moreover from this have "regenerate_loop p w = (if crypto_ecc256_is_valid_scalar k then Some (on_protocol p (set_priv k) w1)
       else regenerate_loop p (on_protocol p (set_priv k) w1))"
    using assms(2) by (subst regenerate_loop.simps) (simp add: set_priv_def [abs_def])
  ultimately show ?thesis using that by blast
qed

lemma regenerate_loop_rekeyed:
  "regenerate_loop p w = Some w' \<Longrightarrow> pin_env env v w \<longrightarrow> length (priv_of p w) = 32 \<longrightarrow> (\<exists>k. rekeyed env v p k w w')"
proof (erule regenerate_loop.raw_induct [rotated])
  fix f :: "byte \<Rightarrow> ('a, 'b, 'c) cpin_scheme \<Rightarrow> ('a, 'b, 'c) cpin_scheme option" and p w w'
  assume ih: "\<And>p w w'. f p w = Some w' \<Longrightarrow> pin_env env v w \<longrightarrow> length (priv_of p w) = 32 \<longrightarrow> (\<exists>k. rekeyed env v p k w w')"
    and eq: "Option.bind (ctap_generate_rng (priv_of p w) 32 w) (\<lambda>(_, k, w).
       let w = on_protocol p (\<lambda>t. t\<lparr>key_agreement := (key_agreement t)\<lparr>priv_key := k\<rparr>\<rparr>) w
       in if crypto_ecc256_is_valid_scalar k then Some w else f p w) = Some w'"
  show "pin_env env v w \<longrightarrow> length (priv_of p w) = 32 \<longrightarrow> (\<exists>k. rekeyed env v p k w w')"
  proof (intro impI)
    assume a: "pin_env env v w" "length (priv_of p w) = 32"
    obtain k w1 where r: "ctap_generate_rng (priv_of p w) 32 w = Some (1, k @ drop 32 (priv_of p w), w1)" "length k = 32" "calm env v w w1"
      by (rule rng_calm [OF a(1), of 32 "priv_of p w"]) (use a(2) in auto)
    let ?w2 = "on_protocol p (set_priv k) w1"
    have c: "calm env v (on_protocol p (set_priv k) w) ?w2" by (rule calm_on_protocol [OF r(3)])
    have e: "(if crypto_ecc256_is_valid_scalar k then Some ?w2 else f p ?w2) = Some w'"
      using eq r(1) a(2) by (simp add: set_priv_def [abs_def] Let_def split: if_split_asm)
    show "\<exists>k. rekeyed env v p k w w'"
    proof (cases "crypto_ecc256_is_valid_scalar k")
      case True
      then have "rekeyed env v p k w w'" using e c r calmD(2) [OF c] by (simp add: rekeyed_def)
      then show ?thesis by blast
    next
      case False
      have p2: "pin_env env v ?w2" "length (priv_of p ?w2) = 32" using calmD(1) [OF c] r(2) by (simp_all add: set_priv_def)
      obtain j where j: "rekeyed env v p j ?w2 w'" using ih [of p ?w2 w'] e False p2 by auto
      have "calm env v (on_protocol p (set_priv j) w) (on_protocol p (set_priv j) ?w2)"
        unfolding set_priv_again by (rule calm_on_protocol [OF r(3)])
      then have "rekeyed env v p j w w'"
        using j calmD(2) [OF r(3)] unfolding rekeyed_def by (auto intro: calm_trans same_hw_trans)
      then show ?thesis by blast
    qed
  qed
qed

lemma regenerate_rekeyed:
  assumes "regenerate_key_agreement p w = Some w'" "pin_env env v w" "length (priv_of p w) = 32"
  obtains k w1 where "rekeyed env v p k w w1"
    "w' = on_protocol p (\<lambda>t. t\<lparr>key_agreement := (key_agreement t)\<lparr>pub_key_valid := False\<rparr>\<rparr>) w1"
proof -
  obtain w1 where 1: "regenerate_loop p w = Some w1"
    "w' = on_protocol p (\<lambda>t. t\<lparr>key_agreement := (key_agreement t)\<lparr>pub_key_valid := False\<rparr>\<rparr>) w1"
    using assms(1) by (auto simp: regenerate_key_agreement_def bind_eq_Some_conv)
  then show ?thesis using that regenerate_loop_rekeyed [OF 1(1)] assms(2,3) by blast
qed

section \<open>The counters\<close>

lemma sint_dec:
  fixes x :: byte
  assumes "0 < sint x" "sint x \<le> 8"
  shows "sint (x - 1) = sint x - 1"
proof -
  have x: "x = word_of_int (sint x)" by simp
  have "sint x \<in> {1, 2, 3, 4, 5, 6, 7, 8}" using assms by auto
  then show ?thesis by (elim insertE emptyE; subst x; simp)
qed

lemma sint_byte_consts: "sint (8 :: byte) = 8" "sint (3 :: byte) = 3"
  by simp_all

lemma sint_eq_8: "sint (x :: byte) = 8 \<longleftrightarrow> x = 8"
  by (metis sint_byte_consts(1) signed_word_eqI)

text \<open>What the component promises: attempts left for good and since power-up, and the stored hash with its
  initialization vector. Each request is one event.\<close>

datatype pin_event = Other | Pin_Set | Wrong | Right

record pin_view =
  tries :: int
  boot :: int
  hash :: "(bytes \<times> bytes) option"

inductive pin_step :: "pin_view \<Rightarrow> pin_event \<Rightarrow> CtapError \<Rightarrow> pin_view \<Rightarrow> bool" where
  other: "pin_step s Other r s"
| set_pin: "hash s = None \<Longrightarrow> pin_step s Pin_Set CTAP2_OK (s\<lparr>hash := Some h\<rparr>)"
| wrong: "0 < tries s \<Longrightarrow> 0 < boot s \<Longrightarrow> hash s \<noteq> None \<Longrightarrow>
    r = (if tries s = 1 then CTAP2_ERR_PIN_BLOCKED else if boot s = 1 then CTAP2_ERR_PIN_AUTH_BLOCKED else CTAP2_ERR_PIN_INVALID) \<Longrightarrow>
    pin_step s Wrong r (s\<lparr>tries := tries s - 1, boot := boot s - 1,
      hash := if tries s = 1 then Some (replicate 16 0, replicate 16 0) else hash s\<rparr>)"
| right: "0 < tries s \<Longrightarrow> 0 < boot s \<Longrightarrow> hash s \<noteq> None \<Longrightarrow> h \<noteq> None \<Longrightarrow> r \<noteq> CTAP2_ERR_PIN_INVALID \<Longrightarrow>
    pin_step s Right r (s\<lparr>tries := 8, boot := if tries s = 8 then boot s else 3, hash := h\<rparr>)"

inductive_cases pin_stepE: "pin_step s ev r s'"

definition pin_view_of :: "('fs, 'f, 'a) cpin_scheme \<Rightarrow> pin_view" where
  "pin_view_of w = \<lparr>tries = sint (remaining_tries (STATE w)), boot = sint (PIN_BOOT_ATTEMPTS_LEFT w),
     hash = if is_pin_set (STATE w) = 1 then Some (pin_hash_enc (STATE w), pin_hash_iv (STATE w)) else None\<rparr>"

definition token_shape :: "pinUvAuthToken_t \<Rightarrow> bool" where
  "token_shape t \<longleftrightarrow> length (token t) = 32 \<and> length (priv_key (key_agreement t)) = 32
     \<and> length (permissions_rp_id_hash (token_state t)) = 32"

definition pin_shape :: "('fs, 'f, 'a) cpin_scheme \<Rightarrow> bool" where
  "pin_shape w \<longleftrightarrow> state_ok (STATE w) \<and> token_shape (pinUvAuthToken_p1 w) \<and> token_shape (pinUvAuthToken_p2 w)
     \<and> 0 \<le> tries (pin_view_of w) \<and> tries (pin_view_of w) \<le> 8 \<and> 0 \<le> boot (pin_view_of w) \<and> boot (pin_view_of w) \<le> 3
     \<and> (tries (pin_view_of w) = 0 \<longrightarrow> hash (pin_view_of w) = Some (replicate 16 0, replicate 16 0))"

text \<open>The state file on flash holds the state in memory.\<close>

definition stored :: "('fs, 'f) lfs_view \<Rightarrow> ('fs, 'f, 'a) cpin_scheme \<Rightarrow> bool" where
  "stored v w \<longleftrightarrow> f_contents v (lfs w) ''state'' = Some (state_envelope (key_device_mac w) (STATE w))"

definition pin_inv ::
  "('fs, 'f, 'd, 'w) env \<Rightarrow> ('fs, 'f) lfs_view \<Rightarrow> ('fs, 'f, 'a) cpin_scheme \<Rightarrow> bool" where
  "pin_inv env v w \<longleftrightarrow> pin_env env v w \<and> pin_shape w \<and> stored v w"

lemma pin_view_calm: "calm env v w w' \<Longrightarrow> pin_view_of w' = pin_view_of w"
  by (simp add: pin_view_of_def calmD)

lemma pin_inv_calm: "pin_inv env v w \<Longrightarrow> calm env v w w' \<Longrightarrow> pin_inv env v w'"
  by (simp add: pin_inv_def pin_shape_def pin_view_calm stored_def calmD)

lemma pin_inv_env: "pin_inv env v w \<Longrightarrow> pin_env env v w"
  by (simp add: pin_inv_def)

lemma pin_view_protocol [simp]:
  "pin_view_of (on_protocol p f w) = pin_view_of w" "pin_view_of (on_state p g w) = pin_view_of w"
  by (simp_all add: pin_view_of_def on_protocol_def on_state_def)

lemma pin_inv_protocol:
  assumes "pin_inv env v w" "token_shape (f (get_pin_protocol_state p w))"
  shows "pin_inv env v (on_protocol p f w)"
  using assms
  by (auto simp: pin_inv_def pin_shape_def stored_def get_pin_protocol_state_def) (auto simp: on_protocol_def)

lemma pin_inv_token: "pin_inv env v w \<Longrightarrow> token_shape (get_pin_protocol_state p w)"
  by (simp add: pin_inv_def pin_shape_def get_pin_protocol_state_def)

section \<open>Flushing\<close>

lemma flush_state:
  assumes "pin_env env v w" "state_ok (STATE w)"
  obtains w' where "authenticator_write_state (env_lfs env) (STATE w) w = Some w'" "pin_env env v w'" "keeps w w'" "stored v w'"
proof -
  have d: "dev_ok (env_lfs env) v w" using assms(1) by (simp add: pin_env_def)
  obtain w' where w': "authenticator_write_state (env_lfs env) (STATE w) w = Some w'" "dev_frame w w'" "dev_ok (env_lfs env) v w'"
    "f_contents v (lfs w') = (f_contents v (lfs w))(''state'' \<mapsto> state_envelope (key_device_mac w) (STATE w))"
    using write_state_stores [OF d assms(2)] by blast
  obtain c x where c: "w' = w\<lparr>sha256_ctx := c, lfs := x\<rparr>" using w'(2) by (auto simp: dev_frame_def)
  have "pin_env env v w'" using assms(1) w'(3) by (simp add: pin_env_def c rng_ok_def)
  moreover have "keeps w w'" by (simp add: keeps_def same_hw_def c)
  moreover have "stored v w'" using w'(4) by (simp add: stored_def c)
  ultimately show ?thesis using that w'(1) by blast
qed

lemmas pin_sizes = PINUVAUTHTOKEN_SIZE_def STATE_PIN_HASH_SIZE_def STATE_PIN_HASH_IV_SIZE_def CP_IV_SIZE_def

lemma keepsD:
  assumes "keeps w w'"
  shows "same_hw w w'" "STATE w' = STATE w" "pinUvAuthToken_p1 w' = pinUvAuthToken_p1 w"
    "pinUvAuthToken_p2 w' = pinUvAuthToken_p2 w" "PIN_BOOT_ATTEMPTS_LEFT w' = PIN_BOOT_ATTEMPTS_LEFT w"
  using assms by (simp_all add: keeps_def)

lemma lock_permanently:
  assumes "pin_env env v w" "state_ok (STATE w)"
  obtains w' where "lock_device_permanently env w = Some w'" "pin_env env v w'" "same_hw w w'" "stored v w'"
    "STATE w' = (STATE w)\<lparr>pin_hash_enc := replicate 16 0, pin_hash_iv := replicate 16 0\<rparr>"
    "PIN_BOOT_ATTEMPTS_LEFT w' = PIN_BOOT_ATTEMPTS_LEFT w"
    "pinUvAuthToken_p1 w' = (pinUvAuthToken_p1 w)\<lparr>token := replicate 32 0\<rparr>"
    "pinUvAuthToken_p2 w' = (pinUvAuthToken_p2 w)\<lparr>token := replicate 32 0\<rparr>"
proof -
  let ?w = "w\<lparr>pinUvAuthToken_p1 := (pinUvAuthToken_p1 w)\<lparr>token := replicate 32 0\<rparr>,
      pinUvAuthToken_p2 := (pinUvAuthToken_p2 w)\<lparr>token := replicate 32 0\<rparr>,
      STATE := (STATE w)\<lparr>pin_hash_enc := replicate 16 0, pin_hash_iv := replicate 16 0\<rparr>\<rparr>"
  have e: "pin_env env v ?w" "state_ok (STATE ?w)" using assms by (simp_all add: state_ok_def)
  obtain w' where "authenticator_write_state (env_lfs env) (STATE ?w) ?w = Some w'" "pin_env env v w'" "keeps ?w w'" "stored v w'"
    by (rule flush_state [OF e])
  then show ?thesis using that by (auto simp: lock_device_permanently_def Let_def pin_sizes keeps_def)
qed

text \<open>A wrong PIN costs one attempt on both counters, on flash too; the last one wipes hash and tokens.\<close>

lemma decrement_ok:
  assumes inv: "pin_inv env v w" and t: "0 < tries (pin_view_of w)" and b: "0 < boot (pin_view_of w)" and h: "hash (pin_view_of w) \<noteq> None"
  obtains w' where "decrement_pin_attempts env w = Some (0, w')" "pin_inv env v w'" "same_hw w w'"
    "pin_view_of w' = (pin_view_of w)\<lparr>tries := tries (pin_view_of w) - 1, boot := boot (pin_view_of w) - 1,
       hash := if tries (pin_view_of w) = 1 then Some (replicate 16 0, replicate 16 0) else hash (pin_view_of w)\<rparr>"
proof -
  let ?w1 = "w\<lparr>PIN_BOOT_ATTEMPTS_LEFT := PIN_BOOT_ATTEMPTS_LEFT w - 1,
       STATE := (STATE w)\<lparr>remaining_tries := remaining_tries (STATE w) - 1\<rparr>\<rparr>"
  have sh: "pin_shape w" "pin_env env v w" using inv by (simp_all add: pin_inv_def)
  have dt: "sint (remaining_tries (STATE w) - 1) = tries (pin_view_of w) - 1" "sint (PIN_BOOT_ATTEMPTS_LEFT w - 1) = boot (pin_view_of w) - 1"
    using sint_dec t b sh by (auto simp: pin_view_of_def pin_shape_def)
  have set: "is_pin_set (STATE w) = 1" using h by (auto simp: pin_view_of_def split: if_splits)
  have e: "pin_env env v ?w1" "state_ok (STATE ?w1)" using sh by (simp_all add: pin_shape_def state_ok_def)
  obtain w2 where w2: "authenticator_write_state (env_lfs env) (STATE ?w1) ?w1 = Some w2" "pin_env env v w2" "keeps ?w1 w2" "stored v w2"
    by (rule flush_state [OF e])
  have k: "same_hw w w2" "STATE w2 = STATE ?w1" "pinUvAuthToken_p1 w2 = pinUvAuthToken_p1 w" "pinUvAuthToken_p2 w2 = pinUvAuthToken_p2 w"
    "PIN_BOOT_ATTEMPTS_LEFT w2 = PIN_BOOT_ATTEMPTS_LEFT w - 1" using keepsD [OF w2(3)] by simp_all
  have d: "decrement_pin_attempts env w = do {
      w \<leftarrow> (if ctap_client_pin_is_locked w2 then lock_device_permanently env w2 else Some w2); Some (0, w) }"
    using t b w2(1)
    by (simp add: decrement_pin_attempts_def Let_def ctap_client_pin_is_locked_def ctap_flush_state_def pin_view_of_def)
  have l: "ctap_client_pin_is_locked w2 \<longleftrightarrow> tries (pin_view_of w) = 1"
    using dt(1) t by (auto simp: ctap_client_pin_is_locked_def k(2))
  show ?thesis
  proof (cases "tries (pin_view_of w) = 1")
    case True
    obtain w' where w': "lock_device_permanently env w2 = Some w'" "pin_env env v w'" "same_hw w2 w'" "stored v w'"
      "STATE w' = (STATE w2)\<lparr>pin_hash_enc := replicate 16 0, pin_hash_iv := replicate 16 0\<rparr>"
      "PIN_BOOT_ATTEMPTS_LEFT w' = PIN_BOOT_ATTEMPTS_LEFT w2"
      "pinUvAuthToken_p1 w' = (pinUvAuthToken_p1 w2)\<lparr>token := replicate 32 0\<rparr>"
      "pinUvAuthToken_p2 w' = (pinUvAuthToken_p2 w2)\<lparr>token := replicate 32 0\<rparr>"
      by (rule lock_permanently [OF w2(2)]) (use e(2) k(2) in auto)
    have "pin_view_of w' = (pin_view_of w)\<lparr>tries := 0, boot := boot (pin_view_of w) - 1, hash := Some (replicate 16 0, replicate 16 0)\<rparr>"
      using True dt set by (simp add: pin_view_of_def w'(5,6) k)
    moreover from this have "pin_inv env v w'"
      using sh w' k b by (simp add: pin_inv_def pin_shape_def token_shape_def state_ok_def)
    ultimately show ?thesis using that d l True w'(1) same_hw_trans [OF k(1) w'(3)] by simp
  next
    case False
    have "pin_view_of w2 = (pin_view_of w)\<lparr>tries := tries (pin_view_of w) - 1, boot := boot (pin_view_of w) - 1\<rparr>"
      using dt by (simp add: pin_view_of_def k)
    moreover from this have "pin_inv env v w2"
      using sh w2 k t b False by (simp add: pin_inv_def pin_shape_def state_ok_def)
    ultimately show ?thesis using that d l False k(1) by simp
  qed
qed

lemma reset_attempts_ok:
  assumes inv: "pin_inv env v w" and t: "0 < tries (pin_view_of w)"
  obtains w' where "reset_pin_attempts env w = Some w'" "pin_inv env v w'" "same_hw w w'"
    "pin_view_of w' = (pin_view_of w)\<lparr>tries := 8, boot := if tries (pin_view_of w) = 8 then boot (pin_view_of w) else 3\<rparr>"
proof (cases "tries (pin_view_of w) = 8")
  case True
  then show ?thesis using that inv by (simp add: reset_pin_attempts_def PIN_LOCKOUT_ATTEMPTS_def pin_view_of_def sint_eq_8)
next
  case False
  let ?w1 = "w\<lparr>PIN_BOOT_ATTEMPTS_LEFT := 3, STATE := (STATE w)\<lparr>remaining_tries := 8\<rparr>\<rparr>"
  have sh: "pin_shape w" "pin_env env v w" using inv by (simp_all add: pin_inv_def)
  have e: "pin_env env v ?w1" "state_ok (STATE ?w1)" using sh by (simp_all add: pin_shape_def state_ok_def)
  obtain w2 where w2: "authenticator_write_state (env_lfs env) (STATE ?w1) ?w1 = Some w2" "pin_env env v w2" "keeps ?w1 w2" "stored v w2"
    by (rule flush_state [OF e])
  have k: "same_hw w w2" "STATE w2 = STATE ?w1" "pinUvAuthToken_p1 w2 = pinUvAuthToken_p1 w" "pinUvAuthToken_p2 w2 = pinUvAuthToken_p2 w"
    "PIN_BOOT_ATTEMPTS_LEFT w2 = 3" using keepsD [OF w2(3)] by simp_all
  have v: "pin_view_of w2 = (pin_view_of w)\<lparr>tries := 8, boot := 3\<rparr>" by (simp add: pin_view_of_def k)
  have "pin_inv env v w2" using sh w2 by (simp add: pin_inv_def pin_shape_def v k state_ok_def)
  then show ?thesis
    using that False w2(1) v k(1)
    by (simp add: reset_pin_attempts_def PIN_LOCKOUT_ATTEMPTS_def PIN_BOOT_ATTEMPTS_def ctap_flush_state_def pin_view_of_def sint_eq_8)
qed

lemma reset_token_ok:
  assumes "pin_inv env v w"
  obtains w' where "reset_pinUvAuthToken p w = Some (0, w')" "pin_inv env v w'" "same_hw w w'" "pin_view_of w' = pin_view_of w"
proof -
  let ?w1 = "on_state p (\<lambda>_. token_state_zero) w"
  have ts: "token_shape (get_pin_protocol_state p w)" by (rule pin_inv_token [OF assms])
  then have i1: "pin_inv env v ?w1"
    unfolding on_state_def by (intro pin_inv_protocol [OF assms]) (simp add: token_shape_def token_state_zero_def)
  have l: "32 \<le> length (token (get_pin_protocol_state p ?w1))"
    using pin_inv_token [OF i1, of p] by (simp add: token_shape_def)
  obtain bs w2 where r: "ctap_generate_rng (token (get_pin_protocol_state p ?w1)) 32 ?w1
      = Some (1, bs @ drop 32 (token (get_pin_protocol_state p ?w1)), w2)" "length bs = 32" "calm env v ?w1 w2"
    by (rule rng_calm [OF pin_inv_env [OF i1] l])
  have tl: "length (token (get_pin_protocol_state p ?w1)) = 32" using pin_inv_token [OF i1, of p] by (simp add: token_shape_def)
  let ?w3 = "on_protocol p (\<lambda>t. t\<lparr>token := bs\<rparr>) w2"
  have i2: "pin_inv env v w2" by (rule pin_inv_calm [OF i1 r(3)])
  have i3: "pin_inv env v ?w3"
    using pin_inv_token [OF i2, of p] r(2) by (intro pin_inv_protocol [OF i2]) (simp add: token_shape_def)
  have "reset_pinUvAuthToken p w = Some (0, ?w3)" using r(1) tl by (simp add: reset_pinUvAuthToken_def pin_sizes)
  then show ?thesis using that i3 calmD(2) [OF r(3)] pin_view_calm [OF r(3)] by simp
qed

lemma store_pin_ok:
  assumes inv: "pin_inv env v w" and t: "0 < tries (pin_view_of w)"
  obtains iv w' where "store_pin env pin len w = Some w'" "pin_inv env v w'" "same_hw w w'" "length iv = 16"
    "pin_view_of w' = (pin_view_of w)\<lparr>hash := Some (CBC_enc (key_pin_enc w) iv (take 16 (SHA256 (take len pin))), iv)\<rparr>"
proof -
  have sh: "pin_shape w" "pin_env env v w" using inv by (simp_all add: pin_inv_def)
  obtain w1 where w1: "crypto_sha256_final (crypto_sha256_update (take len pin) (crypto_sha256_init w)) = (SHA256 (take len pin), w1)"
    "calm env v w w1" by (rule sha_calm [OF sh(2)])
  have il: "length (pin_hash_iv (STATE w)) = 16" using sh(1) by (simp add: pin_shape_def state_ok_def)
  obtain iv w2 where w2: "ctap_generate_rng (pin_hash_iv (STATE w1)) 16 w1 = Some (1, iv @ drop 16 (pin_hash_iv (STATE w1)), w2)"
    "length iv = 16" "calm env v w1 w2"
    by (rule rng_calm [OF calmD(1) [OF w1(2)], of 16 "pin_hash_iv (STATE w1)"]) (use il calmD(3) [OF w1(2)] in auto)
  have c2: "calm env v w w2" by (rule calm_trans [OF w1(2) w2(3)])
  let ?w3 = "w2\<lparr>STATE := (STATE w2)\<lparr>pin_hash_iv := iv\<rparr>\<rparr>" and ?p = "take 16 (SHA256 (take len pin))"
  have e3: "pin_env env v ?w3" using calmD(1) [OF c2] by simp
  let ?c = "CBC_enc (key_pin_enc w) iv ?p"
  obtain w4 where w4: "crypto_aes256_encrypt ?p (crypto_aes256_init (key_pin_enc ?w3) (Some iv) ?w3) = (?c, w4)" "calm env v ?w3 w4"
    by (rule aes_calm [OF e3, of ?p "key_pin_enc ?w3" "Some iv"]) (simp add: w2(2) calmD(8) [OF c2])
  have cl: "length ?c = 16"
    using sh(2) w2(2) by (subst CBC_round(2)) (simp_all add: pin_env_def)
  let ?w5 = "w4\<lparr>STATE := (STATE w4)\<lparr>pin_hash_enc := ?c, is_pin_set := 1\<rparr>\<rparr>"
  have s5: "STATE ?w5 = (STATE w)\<lparr>pin_hash_iv := iv, pin_hash_enc := ?c, is_pin_set := 1\<rparr>"
    using calmD(3) [OF w4(2)] calmD(3) [OF c2] by simp
  have e5: "pin_env env v ?w5" "state_ok (STATE ?w5)"
    using calmD(1) [OF w4(2)] sh(1) cl w2(2) unfolding s5 by (simp_all add: pin_shape_def state_ok_def)
  obtain w6 where w6: "authenticator_write_state (env_lfs env) (STATE ?w5) ?w5 = Some w6" "pin_env env v w6" "keeps ?w5 w6" "stored v w6"
    by (rule flush_state [OF e5])
  have k: "STATE w6 = STATE ?w5" "pinUvAuthToken_p1 w6 = pinUvAuthToken_p1 w" "pinUvAuthToken_p2 w6 = pinUvAuthToken_p2 w"
    "PIN_BOOT_ATTEMPTS_LEFT w6 = PIN_BOOT_ATTEMPTS_LEFT w" "same_hw w w6"
    using keepsD [OF w6(3)] calmD [OF w4(2)] calmD [OF c2] by (auto intro: same_hw_trans)
  have v6: "pin_view_of w6 = (pin_view_of w)\<lparr>hash := Some (?c, iv)\<rparr>" by (simp add: pin_view_of_def k s5)
  have "pin_inv env v w6"
    using sh(1) w6(2,4) e5(2) t by (simp add: pin_inv_def pin_shape_def v6 k(2,3) keepsD(2) [OF w6(3)])
  moreover have "store_pin env pin len w = Some w6"
    using w1(1) w2(1) w4(1) w6(1) il calmD(3) [OF w1(2)] by (simp add: store_pin_def pin_sizes)
  ultimately show ?thesis using that k(5) w2(2) v6 by blast
qed

section \<open>Calls\<close>

definition ecc_laws ::
  "('fs, 'f, 'd, ('fs, 'f, 'a) cpin_scheme) env \<Rightarrow> ('fs, 'f) lfs_view \<Rightarrow> bool" where
  "ecc_laws env v \<longleftrightarrow>
     (\<forall>pub priv w. pin_env env v w \<longrightarrow>
        (\<exists>r z w'. uECC_shared_secret (env_ecc env) pub priv w = Some (r, z, w') \<and> length z = 32 \<and> calm env v w w')) \<and>
     (\<forall>priv w. pin_env env v w \<longrightarrow>
        (\<exists>pub w'. uECC_compute_public_key (env_ecc env) priv w = Some (pub, w') \<and> calm env v w w'))"

text \<open>The two ways in which a request is never answered.\<close>

definition stuck ::
  "('fs, 'f, 'd, ('fs, 'f, 'a) cpin_scheme) env \<Rightarrow> ('fs, 'f) lfs_view \<Rightarrow> ('fs, 'f, 'a) cpin_scheme \<Rightarrow> bool" where
  "stuck env v w \<longleftrightarrow> (\<exists>w1. pin_inv env v w1 \<and> same_hw w w1 \<and>
     ((\<exists>p. regenerate_loop p w1 = None) \<or>
      (\<exists>pub priv r z w2. uECC_shared_secret (env_ecc env) pub priv w1 = Some (r, z, w2) \<and> r \<noteq> 1)))"

definition safely ::
  "('fs, 'f, 'd, ('fs, 'f, 'a) cpin_scheme) env \<Rightarrow> ('fs, 'f) lfs_view \<Rightarrow> ('fs, 'f, 'a) cpin_scheme \<Rightarrow> 'x option
     \<Rightarrow> ('x \<Rightarrow> bool) \<Rightarrow> bool" where
  "safely env v w r Q \<longleftrightarrow> (case r of None \<Rightarrow> stuck env v w | Some x \<Rightarrow> Q x)"

lemma safely_simps [simp]: "safely env v w (Some x) Q \<longleftrightarrow> Q x" "safely env v w None Q \<longleftrightarrow> stuck env v w"
  by (simp_all add: safely_def)

lemma safely_bind:
  "safely env v w r P \<Longrightarrow> (\<And>x. P x \<Longrightarrow> safely env v w (f x) Q) \<Longrightarrow> safely env v w (Option.bind r f) Q"
  by (cases r) simp_all

lemma stuck_back: "same_hw w w' \<Longrightarrow> stuck env v w' \<Longrightarrow> stuck env v w"
  unfolding stuck_def by (meson same_hw_trans)

lemma safely_back: "same_hw w w' \<Longrightarrow> safely env v w' r Q \<Longrightarrow> safely env v w r Q"
  by (cases r) (auto intro: stuck_back)

lemma safely_mono: "safely env v w r P \<Longrightarrow> (\<And>x. P x \<Longrightarrow> Q x) \<Longrightarrow> safely env v w r Q"
  by (cases r) simp_all

lemma decapsulate_safely:
  assumes "ecc_laws env v" "pin_inv env v w"
  shows "safely env v w (ctap_client_pin_decapsulate env pub p w)
    (\<lambda>(keys, w'). \<exists>z. length z = 32 \<and> keys = session_keys z p \<and> calm env v w w')"
proof -
  let ?priv = "priv_of p w"
  obtain r z w1 where z: "uECC_shared_secret (env_ecc env) pub ?priv w = Some (r, z, w1)" "length z = 32" "calm env v w w1"
    using assms pin_inv_env unfolding ecc_laws_def by blast
  show ?thesis
  proof (cases "r = 1")
    case True
    obtain w2 where "kdf z p w1 = Some (session_keys z p, w2)" "calm env v w1 w2"
      by (rule kdf_calm [OF calmD(1) [OF z(3)] z(2)])
    then show ?thesis
      using z True calm_trans [OF z(3)]
      by (auto simp: ctap_client_pin_decapsulate_def ecdh_def crypto_ecc256_shared_secret_def)
  next
    case False
    then have "stuck env v w" using z(1) assms(2) same_hw_refl unfolding stuck_def by blast
    then show ?thesis
      using z False by (simp add: ctap_client_pin_decapsulate_def ecdh_def crypto_ecc256_shared_secret_def)
  qed
qed

lemma regenerate_safely:
  assumes "pin_inv env v w"
  shows "safely env v w (regenerate_key_agreement p w) (\<lambda>w'. pin_inv env v w' \<and> same_hw w w' \<and> pin_view_of w' = pin_view_of w)"
proof (cases "regenerate_key_agreement p w")
  case None
  then have "regenerate_loop p w = None" by (cases "regenerate_loop p w") (simp_all add: regenerate_key_agreement_def)
  then show ?thesis using None assms unfolding safely_def stuck_def by (auto intro!: exI [of _ w])
next
  case (Some w')
  let ?f = "\<lambda>t. t\<lparr>key_agreement := (key_agreement t)\<lparr>pub_key_valid := False\<rparr>\<rparr>"
  have l: "length (priv_of p w) = 32" using pin_inv_token [OF assms, of p] by (simp add: token_shape_def)
  obtain k w1 where k: "rekeyed env v p k w w1" "w' = on_protocol p ?f w1"
    by (rule regenerate_rekeyed [OF Some pin_inv_env [OF assms] l])
  have c: "calm env v (on_protocol p (set_priv k) w) w1" "length k = 32" using k(1) by (simp_all add: rekeyed_def)
  have "pin_inv env v (on_protocol p (set_priv k) w)"
    using pin_inv_token [OF assms, of p] c(2) by (intro pin_inv_protocol [OF assms]) (simp add: token_shape_def set_priv_def)
  then have i1: "pin_inv env v w1" by (rule pin_inv_calm [OF _ c(1)])
  have "pin_inv env v w'"
    unfolding k(2) using pin_inv_token [OF i1, of p] by (intro pin_inv_protocol [OF i1]) (simp add: token_shape_def)
  then show ?thesis using Some k pin_view_calm [OF c(1)] by (simp add: rekeyed_def)
qed

definition follows ::
  "('fs, 'f, 'd, 'w) env \<Rightarrow> ('fs, 'f) lfs_view \<Rightarrow> ('fs, 'f, 'a) cpin_scheme \<Rightarrow> pin_event \<Rightarrow> CtapError \<Rightarrow> ('fs, 'f, 'a) cpin_scheme \<Rightarrow> bool" where
  "follows env v w ev r w' \<longleftrightarrow> pin_inv env v w' \<and> same_hw w w' \<and> pin_step (pin_view_of w) ev r (pin_view_of w')"

lemma mismatch_safely:
  assumes "pin_inv env v w" "0 < tries (pin_view_of w)" "0 < boot (pin_view_of w)" "hash (pin_view_of w) \<noteq> None"
  shows "safely env v w (pin_mismatch env p w) (\<lambda>(r, w'). r \<noteq> CTAP2_OK \<and> follows env v w Wrong r w')"
  unfolding pin_mismatch_def
proof (rule safely_bind [OF regenerate_safely [OF assms(1)]])
  fix w1 assume w1: "pin_inv env v w1 \<and> same_hw w w1 \<and> pin_view_of w1 = pin_view_of w"
  let ?s = "pin_view_of w"
  obtain w2 where w2: "decrement_pin_attempts env w1 = Some (0, w2)" "pin_inv env v w2" "same_hw w1 w2"
    "pin_view_of w2 = ?s\<lparr>tries := tries ?s - 1, boot := boot ?s - 1,
       hash := if tries ?s = 1 then Some (replicate 16 0, replicate 16 0) else hash ?s\<rparr>"
    by (rule decrement_ok [of env v w1]) (use assms w1 in auto)
  have l: "ctap_client_pin_is_locked w2 \<longleftrightarrow> tries ?s = 1" "ctap_client_pin_is_boot_locked w2 \<longleftrightarrow> boot ?s = 1"
    using arg_cong [OF w2(4), of tries] arg_cong [OF w2(4), of boot] assms(2,3)
    by (auto simp: ctap_client_pin_is_locked_def ctap_client_pin_is_boot_locked_def pin_view_of_def)
  show "safely env v w (do { (_, w) \<leftarrow> decrement_pin_attempts env w1;
     Some (if ctap_client_pin_is_locked w then CTAP2_ERR_PIN_BLOCKED
           else if ctap_client_pin_is_boot_locked w then CTAP2_ERR_PIN_AUTH_BLOCKED else CTAP2_ERR_PIN_INVALID, w) })
     (\<lambda>(r, w'). r \<noteq> CTAP2_OK \<and> follows env v w Wrong r w')"
    using w1 w2 same_hw_trans pin_step.wrong [OF assms(2-4) refl]
    by (auto simp: l follows_def)
qed

text \<open>Steps that leave the abstract state alone.\<close>

definition quiet ::
  "('fs, 'f, 'd, 'w) env \<Rightarrow> ('fs, 'f) lfs_view \<Rightarrow> ('fs, 'f, 'a) cpin_scheme \<Rightarrow> ('fs, 'f, 'a) cpin_scheme \<Rightarrow> bool" where
  "quiet env v w w' \<longleftrightarrow> pin_inv env v w' \<and> same_hw w w' \<and> pin_view_of w' = pin_view_of w"

lemma quiet_trans: "quiet env v a b \<Longrightarrow> quiet env v b c \<Longrightarrow> quiet env v a c"
  by (auto simp: quiet_def intro: same_hw_trans)

lemma quiet_calm: "pin_inv env v w \<Longrightarrow> calm env v w w' \<Longrightarrow> quiet env v w w'"
  by (simp add: quiet_def pin_inv_calm pin_view_calm calmD(2))

lemma quietD: "quiet env v w w' \<Longrightarrow> pin_inv env v w'" "quiet env v w w' \<Longrightarrow> same_hw w w'"
  "quiet env v w w' \<Longrightarrow> pin_view_of w' = pin_view_of w"
  by (simp_all add: quiet_def)

lemma follows_quiet: "quiet env v w w1 \<Longrightarrow> follows env v w1 ev r w' \<Longrightarrow> follows env v w ev r w'"
  by (auto simp: quiet_def follows_def intro: same_hw_trans)

lemma follows_then_quiet: "follows env v w ev r w1 \<Longrightarrow> quiet env v w1 w' \<Longrightarrow> follows env v w ev r w'"
  by (auto simp: quiet_def follows_def intro: same_hw_trans)

lemma quiet_other: "quiet env v w w' \<Longrightarrow> follows env v w Other r w'"
  by (simp add: quiet_def follows_def pin_step.other)

lemma quiet_refl: "pin_inv env v w \<Longrightarrow> quiet env v w w"
  by (simp add: quiet_def)

lemma quiet_protocol:
  "pin_inv env v w \<Longrightarrow> token_shape (f (get_pin_protocol_state p w)) \<Longrightarrow> quiet env v w (on_protocol p f w)"
  by (simp add: quiet_def pin_inv_protocol)

lemma quiet_state:
  assumes "pin_inv env v w" "length (permissions_rp_id_hash (g (proto_state p w))) = 32"
  shows "quiet env v w (on_state p g w)"
  unfolding on_state_def using pin_inv_token [OF assms(1), of p] assms(2)
  by (intro quiet_protocol [OF assms(1)]) (simp add: token_shape_def)

lemma begin_using_quiet:
  assumes "pin_inv env v w"
  obtains w' where "begin_using_pinUvAuthToken present p perms w = Some w'" "quiet env v w w'"
proof -
  let ?g = "\<lambda>s. s\<lparr>user_present := present, ts_permissions := perms, user_verified := True, in_use := True\<rparr>"
  have l: "length (permissions_rp_id_hash (proto_state p w)) = 32" if "pin_inv env v w" for w
    using pin_inv_token [OF that, of p] by (simp add: token_shape_def)
  have q1: "quiet env v w (on_state p ?g w)" using l [OF assms] by (intro quiet_state [OF assms]) simp
  obtain now w2 where m: "millis (on_state p ?g w) = Some (now, w2)" "calm env v (on_state p ?g w) w2"
    by (rule millis_calm [OF pin_inv_env [OF quietD(1) [OF q1]]])
  have q2: "quiet env v (on_state p ?g w) w2" by (rule quiet_calm [OF quietD(1) [OF q1] m(2)])
  have "quiet env v w2 (on_state p (\<lambda>s. s\<lparr>usage_timer_start_ms := now, usage_timer_last_used_ms := now\<rparr>) w2)"
    using l [OF quietD(1) [OF q2]] by (intro quiet_state [OF quietD(1) [OF q2]]) simp
  then show ?thesis
    using that m(1) quiet_trans [OF q1 quiet_trans [OF q2]] by (simp add: begin_using_pinUvAuthToken_def)
qed

lemma associate_quiet:
  assumes "pin_inv env v w"
  obtains w' where "associate_permissions_rp_id rp n p w = Some w'" "quiet env v w w'"
proof (cases "n > 0")
  case True
  obtain w1 where 1: "ctap_derive_rp_id_info (take n rp) w = Some (SHA256 (take n rp),
      take 16 (HMAC (key_cred_mac w) (SHA256 (take n rp))), w1)" "calm env v w w1"
    by (rule rp_info_calm [OF pin_inv_env [OF assms]])
  have q: "quiet env v w w1" by (rule quiet_calm [OF assms 1(2)])
  have "quiet env v w1 (on_state p (\<lambda>s. s\<lparr>permissions_rp_id_hash := SHA256 (take n rp), permissions_rp_id_present := True\<rparr>) w1)"
    by (intro quiet_state [OF quietD(1) [OF q]]) simp
  then show ?thesis using that 1(1) True quiet_trans [OF q] by (simp add: associate_permissions_rp_id_def)
next
  case False
  then show ?thesis using that quiet_refl [OF assms] by (simp add: associate_permissions_rp_id_def)
qed

text \<open>The token is sent encrypted under the session key, for the second protocol behind a fresh
  initialization vector.\<close>

lemma encrypt_quiet:
  assumes "pin_inv env v w"
  obtains iv w' where "encrypt_pinUvAuthToken out key p w = Some (0,
      (if p = 1 then blit out 0 (CBC_enc key (replicate 16 0) (token (get_pin_protocol_state p w)))
       else blit (blit out 0 iv) 16 (CBC_enc key iv (token (get_pin_protocol_state p w)))), w')"
    "length iv = 16" "calm env v w w'"
proof -
  have e: "pin_env env v w" by (rule pin_inv_env [OF assms])
  let ?tok = "token (get_pin_protocol_state p w)"
  have tl: "take 32 ?tok = ?tok" using pin_inv_token [OF assms, of p] by (simp add: token_shape_def)
  show ?thesis
  proof (cases "p = 1")
    case True
    obtain w' where "crypto_aes256_encrypt ?tok (crypto_aes256_init key None w) = (CBC_enc key (nonce_iv None) ?tok, w')" "calm env v w w'"
      by (rule aes_calm [OF e])
    then show ?thesis
      using that [of "replicate 16 0" w'] True tl by (simp add: encrypt_pinUvAuthToken_def pin_sizes)
  next
    case False
    have u: "16 \<le> length (uninit 16 w)" by simp
    obtain iv w1 where r: "ctap_generate_rng (uninit 16 w) 16 w = Some (1, iv @ drop 16 (uninit 16 w), w1)" "length iv = 16" "calm env v w w1"
      by (rule rng_calm [OF e u])
    obtain w' where "crypto_aes256_encrypt ?tok (crypto_aes256_init key (Some iv) w1) = (CBC_enc key (nonce_iv (Some iv)) ?tok, w')" "calm env v w1 w'"
      by (rule aes_calm [OF calmD(1) [OF r(3)]])
    then show ?thesis
      using that [of iv w'] False tl r calm_trans [OF r(3)]
      by (simp add: encrypt_pinUvAuthToken_def pin_sizes)
  qed
qed

lemma decrypt_calm:
  assumes "pin_env env v w" "p = 1 \<or> 16 < len"
  obtains b w' where "decrypt buf len key p w = Some (b, w')" "calm env v w w'"
proof (cases "p = 1")
  case True
  obtain w' where "crypto_aes256_decrypt (take len buf) (crypto_aes256_init key None w) = (CBC_dec key (nonce_iv None) (take len buf), w')" "calm env v w w'"
    by (rule aes_dec_calm [OF assms(1)])
  then show ?thesis using that True by (simp add: decrypt_def)
next
  case False
  obtain w' where "crypto_aes256_decrypt (slice 16 (len - 16) buf) (crypto_aes256_init key (Some (take 16 buf)) w)
      = (CBC_dec key (nonce_iv (Some (take 16 buf))) (slice 16 (len - 16) buf), w')" "calm env v w w'"
    by (rule aes_dec_calm [OF assms(1)])
  then show ?thesis using that False assms(2) by (simp add: decrypt_def pin_sizes Let_def)
qed

section \<open>The two users of a PIN\<close>

text \<open>What both do when the PIN matches: attempts and tokens are renewed.\<close>

lemma accepted_ok:
  assumes "pin_inv env v w" "0 < tries (pin_view_of w)"
  obtains w1 w2 w3 where "reset_pin_attempts env w = Some w1" "reset_pinUvAuthToken 1 w1 = Some (0, w2)"
    "reset_pinUvAuthToken 2 w2 = Some (0, w3)" "pin_inv env v w3" "same_hw w w3"
    "pin_view_of w3 = (pin_view_of w)\<lparr>tries := 8, boot := if tries (pin_view_of w) = 8 then boot (pin_view_of w) else 3\<rparr>"
proof -
  obtain w1 where 1: "reset_pin_attempts env w = Some w1" "pin_inv env v w1" "same_hw w w1"
    "pin_view_of w1 = (pin_view_of w)\<lparr>tries := 8, boot := if tries (pin_view_of w) = 8 then boot (pin_view_of w) else 3\<rparr>"
    by (rule reset_attempts_ok [OF assms])
  obtain w2 where 2: "reset_pinUvAuthToken 1 w1 = Some (0, w2)" "pin_inv env v w2" "same_hw w1 w2" "pin_view_of w2 = pin_view_of w1"
    by (rule reset_token_ok [OF 1(2)])
  obtain w3 where 3: "reset_pinUvAuthToken 2 w2 = Some (0, w3)" "pin_inv env v w3" "same_hw w2 w3" "pin_view_of w3 = pin_view_of w2"
    by (rule reset_token_ok [OF 2(2)])
  show ?thesis
    by (rule that [OF 1(1) 2(1) 3(1,2)]) (use 1(3,4) 2(3,4) 3(3,4) in \<open>auto intro: same_hw_trans\<close>)
qed

definition pin_usable :: "('fs, 'f, 'a) cpin_scheme \<Rightarrow> bool" where
  "pin_usable w \<longleftrightarrow> 0 < tries (pin_view_of w) \<and> 0 < boot (pin_view_of w) \<and> hash (pin_view_of w) \<noteq> None"

lemma right_follows:
  assumes "pin_usable w" "pin_inv env v w'" "same_hw w w'" "h \<noteq> None" "r \<noteq> CTAP2_ERR_PIN_INVALID"
    "pin_view_of w' = (pin_view_of w)\<lparr>tries := 8, boot := if tries (pin_view_of w) = 8 then boot (pin_view_of w) else 3, hash := h\<rparr>"
  shows "follows env v w Right r w'"
  using assms pin_step.right [of "pin_view_of w" h r] by (simp add: follows_def pin_usable_def)

lemma add_enc_safely:
  assumes "ecc_laws env v" "pin_inv env v w" "pin_usable w" "p = 1 \<or> p = 2"
  shows "safely env v w (add_enc_pinUvAuthToken env out pub h p perms rp n w) (\<lambda>(r, out', w'). \<exists>ev. follows env v w ev r w')"
proof (cases "ctap_client_pin_decapsulate env pub p w")
  case None
  then show ?thesis using decapsulate_safely [OF assms(1,2), of pub p] by (simp add: add_enc_pinUvAuthToken_def)
next
  case (Some x)
  obtain enc_key mac_key w1 where D: "ctap_client_pin_decapsulate env pub p w = Some ((enc_key, mac_key), w1)"
    using Some by (cases x) auto
  have c1: "calm env v w w1" using decapsulate_safely [OF assms(1,2), of pub p] D by auto
  obtain b w2 where 2: "decrypt h (auth_hash_size p) enc_key p w1 = Some (b, w2)" "calm env v w1 w2"
    by (rule decrypt_calm [OF calmD(1) [OF c1], of p "auth_hash_size p"]) (use assms(4) in \<open>auto simp: auth_hash_size_def\<close>)
  obtain m w3 where 3: "verify_against_stored_pin b w2 = (m, w3)" "calm env v w2 w3"
    by (rule verify_stored_calm [OF calmD(1) [OF 2(2)]])
  have q3: "quiet env v w w3" by (rule quiet_calm [OF assms(2) calm_trans [OF c1 calm_trans [OF 2(2) 3(2)]]])
  have v3: "pin_view_of w3 = pin_view_of w" and i3: "pin_inv env v w3" using quietD [OF q3] by simp_all
  show ?thesis
  proof (cases m)
    case False
    have "safely env v w3 (pin_mismatch env p w3) (\<lambda>(r, w'). r \<noteq> CTAP2_OK \<and> follows env v w3 Wrong r w')"
      using assms(3) by (intro mismatch_safely [OF i3]) (simp_all add: pin_usable_def v3)
    then have "safely env v w (pin_mismatch env p w3) (\<lambda>(r, w'). r \<noteq> CTAP2_OK \<and> follows env v w3 Wrong r w')"
      by (rule safely_back [OF quietD(2) [OF q3]])
    then have "safely env v w (do { (r, w) \<leftarrow> pin_mismatch env p w3; Some (r, out, w) }) (\<lambda>(r, out', w'). \<exists>ev. follows env v w ev r w')"
      by (rule safely_bind) (clarsimp, rule exI, erule follows_quiet [OF q3])
    then show ?thesis using D 2(1) 3(1) False by (simp add: add_enc_pinUvAuthToken_def)
  next
    case True
    obtain w4 w5 w6 where a: "reset_pin_attempts env w3 = Some w4" "reset_pinUvAuthToken 1 w4 = Some (0, w5)"
      "reset_pinUvAuthToken 2 w5 = Some (0, w6)" "pin_inv env v w6" "same_hw w3 w6"
      "pin_view_of w6 = (pin_view_of w3)\<lparr>tries := 8, boot := if tries (pin_view_of w3) = 8 then boot (pin_view_of w3) else 3\<rparr>"
      by (rule accepted_ok [OF i3]) (use assms(3) in \<open>simp_all add: pin_usable_def v3\<close>)
    obtain w7 where 7: "begin_using_pinUvAuthToken False p perms w6 = Some w7" "quiet env v w6 w7"
      by (rule begin_using_quiet [OF a(4)])
    obtain w8 where 8: "associate_permissions_rp_id rp n p w7 = Some w8" "quiet env v w7 w8"
      by (rule associate_quiet [OF quietD(1) [OF 7(2)]])
    obtain o9 w9 where 9: "encrypt_pinUvAuthToken out enc_key p w8 = Some (0, o9, w9)" "calm env v w8 w9"
      by (rule encrypt_quiet [OF quietD(1) [OF 8(2)]])
    have q9: "quiet env v w6 w9"
      using 7(2) 8(2) quiet_calm [OF quietD(1) [OF 8(2)] 9(2)] by (blast intro: quiet_trans)
    have "follows env v w Right CTAP2_OK w9"
    proof (rule right_follows [OF assms(3)])
      show "same_hw w w9" using quietD(2) [OF q3] a(5) quietD(2) [OF q9] same_hw_trans by blast
      show "pin_view_of w9 = (pin_view_of w)\<lparr>tries := 8, boot := if tries (pin_view_of w) = 8 then boot (pin_view_of w) else 3,
          hash := hash (pin_view_of w)\<rparr>" using quietD(3) [OF q9] a(6) v3 by simp
    qed (use quietD(1) [OF q9] assms(3) in \<open>auto simp: pin_usable_def\<close>)
    then show ?thesis using D 2(1) 3(1) True a 7(1) 8(1) 9(1) by (auto simp: add_enc_pinUvAuthToken_def)
  qed
qed

end
