(* ===== verification/Pin_Session.thy ===== *)
theory Pin_Session
  imports Pin_Laws
begin

text \<open>
  The client PIN command as a whole refines the abstract machine \<open>pin_step\<close>: every request is answered or
  stuck, keeps the invariant and makes one step; sessions of requests are runs of the machine. The
  properties of the PIN follow.
\<close>

section \<open>Changing the PIN\<close>

lemma round_up_ge: "n \<le> round_up n"
  by (induction n rule: round_up.induct) (subst round_up.simps, auto)

lemma state_view:
  "ctap_client_pin_is_locked w \<longleftrightarrow> tries (pin_view_of w) \<le> 0"
  "ctap_client_pin_is_boot_locked w \<longleftrightarrow> boot (pin_view_of w) \<le> 0"
  "ctap_client_pin_is_set w \<longleftrightarrow> hash (pin_view_of w) \<noteq> None"
  by (simp_all add: pin_view_of_def ctap_client_pin_is_locked_def ctap_client_pin_is_boot_locked_def ctap_client_pin_is_set_def)

text \<open>The last step of an update: the PIN is stored, after a match or where none was set.\<close>

lemma store_follows_right:
  assumes "pin_usable w" "pin_inv env v w3" "same_hw w w3"
    "pin_view_of w3 = (pin_view_of w)\<lparr>tries := 8, boot := if tries (pin_view_of w) = 8 then boot (pin_view_of w) else 3\<rparr>"
  obtains w4 where "store_pin env pin n w3 = Some w4" "follows env v w Right CTAP2_OK w4"
proof -
  obtain iv w4 where s: "store_pin env pin n w3 = Some w4" "pin_inv env v w4" "same_hw w3 w4"
    "pin_view_of w4 = (pin_view_of w3)\<lparr>hash := Some (CBC_enc (key_pin_enc w3) iv (take 16 (SHA256 (take n pin))), iv)\<rparr>"
    by (rule store_pin_ok [OF assms(2)]) (use assms(4) in auto)
  have "follows env v w Right CTAP2_OK w4"
  proof (rule right_follows [OF assms(1) s(2)])
    show "same_hw w w4" using assms(3) s(3) same_hw_trans by blast
    show "pin_view_of w4 = (pin_view_of w)\<lparr>tries := 8, boot := if tries (pin_view_of w) = 8 then boot (pin_view_of w) else 3,
        hash := Some (CBC_enc (key_pin_enc w3) iv (take 16 (SHA256 (take n pin))), iv)\<rparr>"
      by (simp add: s(4) assms(4))
  qed simp_all
  then show ?thesis using that s(1) by blast
qed

lemma store_follows_set:
  assumes "pin_inv env v w" "hash (pin_view_of w) = None" "quiet env v w w3"
  obtains w4 where "store_pin env pin n w3 = Some w4" "follows env v w Pin_Set CTAP2_OK w4"
proof -
  have t: "0 < tries (pin_view_of w3)"
  proof -
    have "tries (pin_view_of w) \<noteq> 0" "0 \<le> tries (pin_view_of w)" using assms(1,2) by (auto simp: pin_inv_def pin_shape_def)
    then show ?thesis using quietD(3) [OF assms(3)] by simp
  qed
  obtain iv w4 where s: "store_pin env pin n w3 = Some w4" "pin_inv env v w4" "same_hw w3 w4"
    "pin_view_of w4 = (pin_view_of w3)\<lparr>hash := Some (CBC_enc (key_pin_enc w3) iv (take 16 (SHA256 (take n pin))), iv)\<rparr>"
    by (rule store_pin_ok [OF quietD(1) [OF assms(3)] t])
  then have "follows env v w Pin_Set CTAP2_OK w4"
    using assms(2) quietD [OF assms(3)] pin_step.set_pin [OF assms(2)] by (auto simp: follows_def intro: same_hw_trans)
  then show ?thesis using that s(1) by blast
qed

definition update_ready :: "bytes option \<Rightarrow> ('fs, 'f, 'a) cpin_scheme \<Rightarrow> bool" where
  "update_ready h w = (case h of None \<Rightarrow> hash (pin_view_of w) = None | Some _ \<Rightarrow> pin_usable w)"

lemma confirm_safely:
  assumes "pin_inv env v w" "pin_usable w" "p = 1 \<or> p = 2"
  shows "safely env v w (confirm_old_pin env (Some h) key p w) (\<lambda>(r, w').
    if r = CTAP2_OK then pin_inv env v w' \<and> same_hw w w' \<and>
      pin_view_of w' = (pin_view_of w)\<lparr>tries := 8, boot := if tries (pin_view_of w) = 8 then boot (pin_view_of w) else 3\<rparr>
    else follows env v w Wrong r w')"
proof -
  have set: "ctap_client_pin_is_set w" using assms(2) by (simp add: state_view pin_usable_def)
  obtain b w4 where 4: "decrypt h (auth_hash_size p) key p w = Some (b, w4)" "calm env v w w4"
    by (rule decrypt_calm [OF pin_inv_env [OF assms(1)], of p "auth_hash_size p"]) (use assms(3) in \<open>auto simp: auth_hash_size_def\<close>)
  obtain m w5 where 5: "verify_against_stored_pin b w4 = (m, w5)" "calm env v w4 w5"
    by (rule verify_stored_calm [OF calmD(1) [OF 4(2)]])
  have q5: "quiet env v w w5" by (rule quiet_calm [OF assms(1) calm_trans [OF 4(2) 5(2)]])
  have v5: "pin_view_of w5 = pin_view_of w" and i5: "pin_inv env v w5" using quietD [OF q5] by simp_all
  show ?thesis
  proof (cases m)
    case False
    have "safely env v w5 (pin_mismatch env p w5) (\<lambda>(r, w'). r \<noteq> CTAP2_OK \<and> follows env v w5 Wrong r w')"
      using assms(2) by (intro mismatch_safely [OF i5]) (simp_all add: pin_usable_def v5)
    then have "safely env v w (pin_mismatch env p w5) (\<lambda>(r, w'). r \<noteq> CTAP2_OK \<and> follows env v w Wrong r w')"
      by (rule safely_back [OF quietD(2) [OF q5], THEN safely_mono]) (auto dest: follows_quiet [OF q5])
    moreover have "confirm_old_pin env (Some h) key p w = pin_mismatch env p w5"
      using set 4(1) 5(1) False by (simp add: confirm_old_pin_def)
    ultimately show ?thesis by (auto elim: safely_mono)
  next
    case True
    obtain w6 w7 w8 where a: "reset_pin_attempts env w5 = Some w6" "reset_pinUvAuthToken 1 w6 = Some (0, w7)"
      "reset_pinUvAuthToken 2 w7 = Some (0, w8)" "pin_inv env v w8" "same_hw w5 w8"
      "pin_view_of w8 = (pin_view_of w5)\<lparr>tries := 8, boot := if tries (pin_view_of w5) = 8 then boot (pin_view_of w5) else 3\<rparr>"
      by (rule accepted_ok [OF i5]) (use assms(2) in \<open>simp_all add: pin_usable_def v5\<close>)
    have "same_hw w w8" using quietD(2) [OF q5] a(5) same_hw_trans by blast
    then show ?thesis using set 4(1) 5(1) True a v5 by (simp add: confirm_old_pin_def)
  qed
qed

lemma store_new_safely:
  assumes "pin_inv env v w" "update_ready h w" "p = 1 \<or> p = 2" "16 < round_up (unat len)"
  shows "safely env v w (store_new_pin env enc len h key p w) (\<lambda>(r, w'). \<exists>ev. follows env v w ev r w')"
proof -
  obtain pin w3 where 3: "decrypt enc (round_up (unat len)) key p w = Some (pin, w3)" "calm env v w w3"
    by (rule decrypt_calm [OF pin_inv_env [OF assms(1)], of p "round_up (unat len)"]) (use assms(4) in auto)
  note q3 = quiet_calm [OF assms(1) 3(2)]
  let ?n = "NEW_PIN_ENC_MIN_SIZE - trailing_zeros pin (NEW_PIN_ENC_MIN_SIZE - 1)"
  show ?thesis
  proof (cases "?n < NEW_PIN_MIN_SIZE \<or> ?n \<ge> NEW_PIN_MAX_SIZE")
    case True
    then show ?thesis using quiet_other [OF q3] 3(1) by (auto simp: store_new_pin_def Let_def)
  next
    case good: False
    show ?thesis
    proof (cases h)
      case None
      obtain w4 where "store_pin env pin ?n w3 = Some w4" "follows env v w Pin_Set CTAP2_OK w4"
        by (rule store_follows_set [OF assms(1) _ q3]) (use assms(2) None in \<open>simp add: update_ready_def\<close>)
      then show ?thesis using 3(1) good None by (auto simp: store_new_pin_def confirm_old_pin_def Let_def)
    next
      case (Some hh)
      have u: "pin_usable w" using assms(2) Some by (simp add: update_ready_def)
      then have u3: "pin_usable w3" using quietD(3) [OF q3] by (simp add: pin_usable_def)
      note c = safely_back [OF quietD(2) [OF q3] confirm_safely [OF quietD(1) [OF q3] u3 assms(3), of hh key]]
      show ?thesis
      proof (cases "confirm_old_pin env (Some hh) key p w3")
        case None
        then show ?thesis using c 3(1) good Some by (simp add: store_new_pin_def Let_def)
      next
        case (Some y)
        obtain r w4 where y: "y = (r, w4)" by (cases y)
        note eqs = store_new_pin_def Let_def 3(1) \<open>h = Some hh\<close> Some y
        show ?thesis
        proof (cases "r = CTAP2_OK")
          case True
          then have i: "pin_inv env v w4" "same_hw w3 w4" "pin_view_of w4 = (pin_view_of w3)\<lparr>tries := 8,
              boot := if tries (pin_view_of w3) = 8 then boot (pin_view_of w3) else 3\<rparr>" using c Some y by simp_all
          obtain w5 where "store_pin env pin ?n w4 = Some w5" "follows env v w3 Right CTAP2_OK w5"
            by (rule store_follows_right [OF u3 i])
          then show ?thesis using good True follows_quiet [OF q3] by (auto simp: eqs)
        next
          case False
          then have "follows env v w Wrong r w4" using c Some y follows_quiet [OF q3] by simp
          then show ?thesis using good False by (auto simp: eqs)
        qed
      qed
    qed
  qed
qed

lemma update_safely:
  assumes "ecc_laws env v" "pin_inv env v w" "update_ready h w" "p = 1 \<or> p = 2"
  shows "safely env v w (update_pin_if_verified env enc len pub param h p w) (\<lambda>(r, w'). \<exists>ev. follows env v w ev r w')"
proof (cases "len < 64")
  case True
  then show ?thesis using quiet_other [OF quiet_refl [OF assms(2)]] by (auto simp: update_pin_if_verified_def)
next
  case long: False
  then have "64 \<le> unat len" by (simp add: word_less_nat_alt)
  then have n: "16 < round_up (unat len)" using round_up_ge [of "unat len"] by linarith
  show ?thesis
  proof (cases "ctap_client_pin_decapsulate env pub p w")
    case None
    then show ?thesis using decapsulate_safely [OF assms(1,2), of pub p] long by (simp add: update_pin_if_verified_def)
  next
    case (Some x)
    obtain enc_key mac_key w1 where D: "ctap_client_pin_decapsulate env pub p w = Some ((enc_key, mac_key), w1)"
      using Some by (cases x) auto
    have c1: "calm env v w w1" using decapsulate_safely [OF assms(1,2), of pub p] D by auto
    obtain ret w2 where 2: "ctap_client_pin_verify mac_key (update_message enc len h p) param p w1 = Some (ret, w2)" "calm env v w1 w2"
      by (rule verify_calm [OF calmD(1) [OF c1]])
    note q2 = quiet_calm [OF assms(2) calm_trans [OF c1 2(2)]]
    have eq: "update_pin_if_verified env enc len pub param h p w =
        (if ret < 0 then Some (CTAP2_ERR_PIN_AUTH_INVALID, w2) else store_new_pin env enc len h enc_key p w2)"
      using long D 2(1) by (simp add: update_pin_if_verified_def)
    have r: "update_ready h w2" using assms(3) quietD(3) [OF q2] by (simp add: update_ready_def pin_usable_def split: option.splits)
    have "safely env v w (store_new_pin env enc len h enc_key p w2) (\<lambda>(r, w'). \<exists>ev. follows env v w2 ev r w')"
      by (rule safely_back [OF quietD(2) [OF q2] store_new_safely [OF quietD(1) [OF q2] r assms(4) n]])
    then have "safely env v w (store_new_pin env enc len h enc_key p w2) (\<lambda>(r, w'). \<exists>ev. follows env v w ev r w')"
      by (rule safely_mono) (auto dest: follows_quiet [OF q2])
    then show ?thesis using quiet_other [OF q2] by (auto simp: eq)
  qed
qed

section \<open>The request\<close>

definition cp_shape :: "CTAP_clientPin \<Rightarrow> bool" where
  "cp_shape CP \<longleftrightarrow> length (cose_x (keyAgreement CP)) = 32 \<and> length (cose_y (keyAgreement CP)) = 32
     \<and> length (pinUvAuthParam CP) = PIN_UV_AUTH_PARAM_MAX_SIZE \<and> length (newPinEnc CP) = NEW_PIN_ENC_MAX_SIZE
     \<and> (newPinEncSize CP = 0 \<or> 64 \<le> unat (newPinEncSize CP) \<and> unat (newPinEncSize CP) \<le> NEW_PIN_ENC_MAX_SIZE)
     \<and> length (pinHashEnc CP) = 32 \<and> length (cp_rpId CP) = DOMAIN_NAME_MAX_SIZE + 1 \<and> rpIdSize CP \<le> DOMAIN_NAME_MAX_SIZE"

lemma newPinEnc_delivers:
  assumes "at_value it" "cp_shape CP"
  shows "delivers (parse_newPinEnc it CP) cp_shape"
proof (cases "cv_type it = CborByteStringType")
  case True
  obtain err n where n: "cbor_value_calculate_string_length it = Some (err, n)"
    using string_length_some [OF assms(1)] True by blast
  have l: "NEW_PIN_ENC_MAX_SIZE \<le> length (newPinEnc CP)" using assms(2) by (simp add: cp_shape_def)
  obtain err2 b m where "cbor_value_copy_byte_string it (newPinEnc CP) NEW_PIN_ENC_MAX_SIZE = Some (err2, b, m)" "length b = length (newPinEnc CP)"
    using copy_bytes_some [OF assms(1) True l] by blast
  then show ?thesis
    using True n assms(2)
    by (auto simp: parse_newPinEnc_def cbor_value_get_type_def cp_shape_def NEW_PIN_ENC_MAX_SIZE_def NEW_PIN_ENC_MIN_SIZE_def
        unat_of_nat_small intro!: delivers_cbor_check)
qed (simp add: parse_newPinEnc_def cbor_value_get_type_def)

lemma pinHashEnc_delivers:
  assumes "at_value it" "cp_shape CP"
  shows "delivers (parse_pinHashEnc it CP) cp_shape"
proof (cases "cv_type it = CborByteStringType")
  case True
  obtain err b m where "cbor_value_copy_byte_string it (pinHashEnc CP) (length (pinHashEnc CP)) = Some (err, b, m)" "length b = length (pinHashEnc CP)"
    using copy_bytes_some [OF assms(1) True order_refl] by blast
  then show ?thesis
    using True assms(2)
    by (auto simp: parse_pinHashEnc_def cbor_value_get_type_def cp_shape_def intro!: delivers_cbor_check)
qed (simp add: parse_pinHashEnc_def cbor_value_get_type_def)

lemma cp_rpId_delivers:
  assumes "at_value it" "cp_shape CP"
  shows "delivers (parse_cp_rpId it CP) cp_shape"
proof (cases "cv_type it = CborTextStringType")
  case True
  have l: "DOMAIN_NAME_MAX_SIZE \<le> length (cp_rpId CP)" using assms(2) by (simp add: cp_shape_def)
  obtain err b n where b: "cbor_value_copy_text_string it (cp_rpId CP) DOMAIN_NAME_MAX_SIZE = Some (err, b, n)"
    "length b = length (cp_rpId CP)" "err = CborNoError \<Longrightarrow> n \<le> DOMAIN_NAME_MAX_SIZE"
    using copy_text_some [OF assms(1) True l] by blast
  then show ?thesis
    using True assms(2) by (auto simp: parse_cp_rpId_def cbor_value_get_type_def cp_shape_def intro!: delivers_cbor_check)
qed (simp add: parse_cp_rpId_def cbor_value_get_type_def)

interpretation cpin_request: int_map client_pin_body cp_shape
proof
  fix it k and CP :: CTAP_clientPin assume a: "at_value it" "cp_shape CP"
  have num: "delivers (ctap_check (parse_int it) f) cp_shape" if "\<And>v. delivers (f v) cp_shape" for f
    by (rule delivers_ctap_check [OF parse_int_delivers [OF a(1)]]) (rule that)
  have key: "delivers (ctap_check (cose_key_parse it (keyAgreement CP))
      (\<lambda>k. Some (Inr (CP\<lparr>keyAgreement := k, keyAgreementPresent := True\<rparr>)))) cp_shape"
    by (rule delivers_ctap_check [OF cose_key_parse_delivers [OF a(1)]]) (use a(2) in \<open>auto simp: cp_shape_def\<close>)
  have auth: "delivers (ctap_check (ctap_parse_pinUvAuthParam it False (pinUvAuthParam CP)) (\<lambda>(emp, b, len).
      if emp then Some (Inl CTAP1_ERR_INVALID_LENGTH)
      else Some (Inr (CP\<lparr>pinUvAuthParam := b, pinUvAuthParam_len := len\<rparr>)))) cp_shape"
    by (rule delivers_ctap_check [OF pinUvAuthParam_delivers [OF a(1)]]) (use a(2) in \<open>auto simp: cp_shape_def\<close>)
  have upd: "cp_shape (CP\<lparr>pinProtocol := x\<rparr>)" "cp_shape (CP\<lparr>subCommand := c\<rparr>)" "cp_shape (CP\<lparr>cp_permissions := x, permissionsPresent := b\<rparr>)"
    for x c b using a(2) by (simp_all add: cp_shape_def)
  show "delivers (client_pin_body k it CP) cp_shape"
    unfolding client_pin_body_def
    by (simp add: num key auth upd newPinEnc_delivers [OF a] pinHashEnc_delivers [OF a] cp_rpId_delivers [OF a] a(2))
qed

lemma request_delivers: "delivers (parse_client_pin_request req) cp_shape"
proof -
  have z: "cp_shape clientPin_zero" by (simp add: cp_shape_def clientPin_zero_def)
  obtain err it where e: "cbor_parser_init req = Some (err, it)" using parser_init_good [of req] by (auto simp: parses_def)
  show ?thesis
    using parser_at_value [of req it] e z
    by (auto simp: parse_client_pin_request_def intro!: delivers_cbor_check cpin_request.map_delivers)
qed

section \<open>The command\<close>

lemma key_agreement_safely:
  assumes "ecc_laws env v" "pin_inv env v w"
  shows "safely env v w (cp_getKeyAgreement env e p w) (\<lambda>(r, e', w'). quiet env v w w')"
proof -
  let ?k = "key_agreement (get_pin_protocol_state p w)"
  obtain pub w1 where pub: "uECC_compute_public_key (env_ecc env) (priv_key ?k) w = Some (pub, w1)" "calm env v w w1"
    using assms pin_inv_env unfolding ecc_laws_def by blast
  let ?w2 = "on_protocol p (\<lambda>t. t\<lparr>key_agreement := (key_agreement t)\<lparr>pub_key := pub, pub_key_valid := True\<rparr>\<rparr>) w1"
  have q1: "quiet env v w w1" by (rule quiet_calm [OF assms(2) pub(2)])
  have "quiet env v w1 ?w2"
    using pin_inv_token [OF quietD(1) [OF q1], of p] by (intro quiet_protocol [OF quietD(1) [OF q1]]) (simp add: token_shape_def)
  then have q2: "quiet env v w ?w2" by (rule quiet_trans [OF q1])
  show ?thesis
    using pub(1) q2 quiet_refl [OF assms(2)]
    by (auto simp: cp_getKeyAgreement_def crypto_ecc256_compute_public_key_def Let_def cose_key_add_def split: prod.splits)
qed

text \<open>An encoding error after a PIN has been accepted changes the status, not the step.\<close>

lemma pin_step_status:
  assumes "pin_step s ev CTAP2_OK s'" "hash s \<noteq> None" "r \<noteq> CTAP2_ERR_PIN_INVALID"
  shows "\<exists>ev. pin_step s ev r s'"
  using assms(1)
proof (cases rule: pin_step.cases)
  case (right h)
  have "pin_step s Right r s'"
    unfolding right(2) by (rule pin_step.right [OF right(3-6) assms(3)])
  then show ?thesis ..
qed (use assms(2,3) in \<open>auto intro: pin_step.other split: if_splits\<close>)

lemma send_token_safely:
  assumes "ecc_laws env v" "pin_inv env v w" "pin_usable w" "pinProtocol CP = 1 \<or> pinProtocol CP = 2"
  shows "safely env v w (send_token env e CP perms n w) (\<lambda>(r, e', w'). \<exists>ev. follows env v w ev r w')"
proof -
  let ?o = "uninit (CP_IV_SIZE + PINUVAUTHTOKEN_SIZE) w" and ?pub = "cose_x (keyAgreement CP) @ cose_y (keyAgreement CP)"
  let ?call = "add_enc_pinUvAuthToken env ?o ?pub (pinHashEnc CP) (pinProtocol CP) perms (cp_rpId CP) n w"
  have s: "safely env v w ?call (\<lambda>(r, out', w'). \<exists>ev. follows env v w ev r w')"
    by (rule add_enc_safely [OF assms])
  have other: "follows env v w Other CTAP2_ERR_INVALID_CBOR w"
    by (rule quiet_other [OF quiet_refl [OF assms(2)]])
  have status: "\<exists>ev. follows env v w ev r w'" if "follows env v w ev CTAP2_OK w'" "r \<noteq> CTAP2_ERR_PIN_INVALID" for ev r w'
    using that pin_step_status [of "pin_view_of w" ev "pin_view_of w'" r] assms(3) by (auto simp: follows_def pin_usable_def)
  obtain err1 e1 map1 where c: "cbor_encoder_create_map e 1 = (err1, e1, map1)" by (metis prod_cases3)
  obtain err2 map2 where i: "cbor_encode_int map1 CP_Resp_pinUvAuthToken = (err2, map2)" by force
  show ?thesis
  proof (cases "err1 \<noteq> CborNoError \<or> err2 \<noteq> CborNoError")
    case True
    then show ?thesis using other c i by (auto simp: send_token_def)
  next
    case False
    show ?thesis
    proof (cases ?call)
      case None
      then show ?thesis using s c i False by (simp add: send_token_def)
    next
      case (Some x)
      obtain r out w' where x: "x = (r, out, w')" by (metis prod_cases3)
      obtain ev where f: "follows env v w ev r w'" using s Some x by auto
      show ?thesis
      proof (cases "r = CTAP2_OK")
        case True
        then show ?thesis
          using c i False Some x f status [of ev w'] by (auto simp: send_token_def Let_def split: prod.splits)
      next
        case False
        then show ?thesis using c i \<open>\<not> (err1 \<noteq> CborNoError \<or> err2 \<noteq> CborNoError)\<close> Some x f by (auto simp: send_token_def)
      qed
    qed
  qed
qed

lemma set_pin_safely:
  assumes "ecc_laws env v" "pin_inv env v w" "pinProtocol CP = 1 \<or> pinProtocol CP = 2"
  shows "safely env v w (cp_setPIN env CP w) (\<lambda>(r, w'). \<exists>ev. follows env v w ev r w')"
proof -
  have o: "\<exists>ev. follows env v w ev r w" for r
    using quiet_other [OF quiet_refl [OF assms(2)]] by blast
  show ?thesis
    using update_safely [OF assms(1,2) _ assms(3), of None] by (cases "hash (pin_view_of w)") (auto simp: cp_setPIN_def o update_ready_def state_view)
qed

lemma unlocked_safely:
  assumes "ecc_laws env v" "pin_inv env v w" "pinProtocol CP = 1 \<or> pinProtocol CP = 2"
    "\<not> ctap_client_pin_is_locked w" "\<not> ctap_client_pin_is_boot_locked w"
  shows "safely env v w (cp_changePIN env CP w) (\<lambda>(r, w'). \<exists>ev. follows env v w ev r w')"
    "safely env v w (cp_getPinToken env e CP w) (\<lambda>(r, e', w'). \<exists>ev. follows env v w ev r w')"
    "safely env v w (cp_getTokenWithPermissions env e CP w) (\<lambda>(r, e', w'). \<exists>ev. follows env v w ev r w')"
proof -
  have o: "\<exists>ev. follows env v w ev r w" for r
    using quiet_other [OF quiet_refl [OF assms(2)]] by blast
  have u: "pin_usable w" if "ctap_client_pin_is_set w" using that assms(4,5) by (simp add: state_view pin_usable_def)
  show "safely env v w (cp_changePIN env CP w) (\<lambda>(r, w'). \<exists>ev. follows env v w ev r w')"
    using update_safely [OF assms(1,2) _ assms(3), of "Some (pinHashEnc CP)"] u by (simp add: cp_changePIN_def o update_ready_def)
  show "safely env v w (cp_getPinToken env e CP w) (\<lambda>(r, e', w'). \<exists>ev. follows env v w ev r w')"
    using send_token_safely [OF assms(1,2) u assms(3)] by (simp add: cp_getPinToken_def o)
  show "safely env v w (cp_getTokenWithPermissions env e CP w) (\<lambda>(r, e', w'). \<exists>ev. follows env v w ev r w')"
    using send_token_safely [OF assms(1,2) u assms(3)] by (simp add: cp_getTokenWithPermissions_def o Let_def)
qed

lemma safely_if:
  "(b \<Longrightarrow> safely env v w x Q) \<Longrightarrow> (\<not> b \<Longrightarrow> safely env v w y Q) \<Longrightarrow> safely env v w (if b then x else y) Q"
  by simp

lemma client_pin_safely:
  assumes "ecc_laws env v" "pin_inv env v w"
  shows "safely env v w (ctap_client_pin env e req w) (\<lambda>(r, e', w'). \<exists>ev. follows env v w ev r w')"
proof -
  have o: "\<exists>ev. follows env v w ev r w" for r
    using quiet_other [OF quiet_refl [OF assms(2)]] by blast
  have lift: "safely env v w (do { (r, w) \<leftarrow> c; Some (r, e, w) }) (\<lambda>(r, e', w'). \<exists>ev. follows env v w ev r w')"
    if "safely env v w c (\<lambda>(r, w'). \<exists>ev. follows env v w ev r w')" for c
    using that by (rule safely_bind) auto
  have ka: "safely env v w (cp_getKeyAgreement env e p w) (\<lambda>(r, e', w'). \<exists>ev. follows env v w ev r w')" for p
    using key_agreement_safely [OF assms] by (rule safely_mono) (use quiet_other in blast)
  obtain x where x: "parse_client_pin_request req = Some x" using request_delivers [of req] by (auto simp: delivers_def)
  show ?thesis
  proof (cases x)
    case (Inl r)
    then show ?thesis using x o by (simp add: ctap_client_pin_def)
  next
    case (Inr CP)
    show ?thesis
    proof (cases "subCommand CP \<noteq> CP_SubCmd_getPINRetries \<and> pinProtocol CP \<noteq> 1 \<and> pinProtocol CP \<noteq> 2")
      case True
      then show ?thesis using x Inr o by (simp add: ctap_client_pin_def)
    next
      case False
      have p: "subCommand CP \<noteq> CP_SubCmd_getPINRetries \<Longrightarrow> pinProtocol CP = 1 \<or> pinProtocol CP = 2" using False by blast
      have retries: "safely env v w (let (r, e) = cp_getPINRetries e w in Some (r, e, w)) (\<lambda>(r, e', w'). \<exists>ev. follows env v w ev r w')"
        by (simp add: o split: prod.splits)
      note calls = retries ka lift [OF set_pin_safely [OF assms p]]
        lift [OF unlocked_safely(1) [OF assms p]] unlocked_safely(2,3) [OF assms p]
      show ?thesis
        unfolding ctap_client_pin_def x Inr bind.simps sum.case
        by (intro safely_if) (auto intro: calls simp: o split: prod.splits)
    qed
  qed
qed

section \<open>Sessions\<close>

text \<open>A session is a sequence of answered requests, with the states between them.\<close>

inductive cp_session ::
  "('fs, 'f, 'd, ('fs, 'f, 'a) cpin_scheme) env \<Rightarrow> ('fs, 'f, 'a) cpin_scheme \<Rightarrow> ('fs, 'f, 'a) cpin_scheme list \<Rightarrow> bool"
  for env where
  idle: "cp_session env w []"
| request: "ctap_client_pin env e req w = Some (r, e', w') \<Longrightarrow> cp_session env w' ws \<Longrightarrow> cp_session env w (w' # ws)"

inductive_cases cp_sessionE: "cp_session env w (w' # ws)"

definition tries_left :: "('fs, 'f, 'a) cpin_scheme \<Rightarrow> int" where
  "tries_left w = sint (remaining_tries (STATE w))"

fun failures :: "('fs, 'f, 'a) cpin_scheme \<Rightarrow> ('fs, 'f, 'a) cpin_scheme list \<Rightarrow> nat" where
  "failures w [] = 0"
| "failures w (w' # ws) = (if tries_left w' < tries_left w then 1 else 0) + failures w' ws"

fun never_renewed :: "('fs, 'f, 'a) cpin_scheme \<Rightarrow> ('fs, 'f, 'a) cpin_scheme list \<Rightarrow> bool" where
  "never_renewed w [] = True"
| "never_renewed w (w' # ws) \<longleftrightarrow> tries_left w' \<le> tries_left w \<and> never_renewed w' ws"

lemma tries_left_view: "tries_left w = tries (pin_view_of w)"
  by (simp add: tries_left_def pin_view_of_def)

lemma pin_step_counts:
  assumes "pin_step s ev r s'" "tries s' \<le> tries s" "tries s \<le> 8"
  shows "tries s' < tries s \<Longrightarrow> boot s' = boot s - 1 \<and> tries s' = tries s - 1"
    "\<not> tries s' < tries s \<Longrightarrow> boot s' = boot s \<and> tries s' = tries s"
  using assms by (auto elim!: pin_stepE split: if_splits)

lemma session_counts:
  assumes "ecc_laws env v" "cp_session env w ws" "pin_inv env v w" "never_renewed w ws"
  shows "int (failures w ws) \<le> boot (pin_view_of w) \<and> int (failures w ws) \<le> tries (pin_view_of w)"
  using assms(2-)
proof (induction w ws rule: failures.induct)
  case (1 w)
  then show ?case by (simp add: pin_inv_def pin_shape_def)
next
  case (2 w w' ws)
  obtain e req r e' where call: "ctap_client_pin env e req w = Some (r, e', w')" and s: "cp_session env w' ws"
    using 2(2) by (auto elim: cp_sessionE)
  obtain ev where f: "follows env v w ev r w'" using client_pin_safely [OF assms(1) 2(3), of e req] call by auto
  then have i: "pin_inv env v w'" "pin_step (pin_view_of w) ev r (pin_view_of w')" by (simp_all add: follows_def)
  have le: "tries (pin_view_of w') \<le> tries (pin_view_of w)" "never_renewed w' ws" using 2(4) by (simp_all add: tries_left_view)
  have "tries (pin_view_of w) \<le> 8" using 2(3) by (simp add: pin_inv_def pin_shape_def)
  then show ?case
    using 2(1) [OF s i(1) le(2)] pin_step_counts [OF i(2) le(1)] by (auto simp: tries_left_view)
qed

end
