(* ===== verification/Pin_Properties.thy ===== *)
theory Pin_Properties
  imports Pin_Session
begin

text \<open>
  End-to-end properties of the PIN: a platform that follows the protocol sets a PIN which the device then
  accepts, and the check of a request's authentication parameter is exact, expiry of the token included.
  The witnesses run on a concrete device with a littlefs in memory and a trivial curve.
\<close>

section \<open>A concrete device\<close>

definition demo_token :: pinUvAuthToken_t where
  "demo_token = \<lparr>key_agreement = \<lparr>priv_key = replicate 32 1, pub_key = replicate 64 2, pub_key_valid = False\<rparr>,
     token = replicate 32 3, token_state = token_state_zero\<rparr>"

definition demo_cpin :: "AuthenticatorState \<Rightarrow> (string \<rightharpoonup> bytes, f_state) cpin" where
  "demo_cpin s = dev.extend (demo_dev\<lparr>key_pin_enc := replicate 32 2, key_cred_mac := replicate 32 3, STATE := s,
       lfs := [''state'' \<mapsto> state_envelope (replicate 32 1) s]\<rparr>)
     \<lparr>pinUvAuthToken_p1 = demo_token, pinUvAuthToken_p2 = demo_token, PIN_BOOT_ATTEMPTS_LEFT = 3\<rparr>"

definition demo_ecc :: "'w ecc_lib" where
  "demo_ecc = \<lparr>uECC_make_key = \<lambda>w. Some (1, replicate 64 0, replicate 32 1, w),
     uECC_shared_secret = \<lambda>pub priv w. Some (1, replicate 32 9, w),
     uECC_compute_public_key = \<lambda>priv w. Some (replicate 64 8, w), uECC_sign = \<lambda>k d w. Some (1, replicate 64 4, w),
     ed25519_key_pair = \<lambda>s. (s @ s, s), ed25519_sign = \<lambda>k d. replicate 64 5\<rparr>"

definition demo_env :: "(string \<rightharpoonup> bytes, f_state, unit, (string \<rightharpoonup> bytes, f_state) cpin) env" where
  "demo_env = \<lparr>env_lfs = ram_lfs, env_ecc = demo_ecc\<rparr>"

lemma demo_ecc_laws: "ecc_laws demo_env (ram_view 100000)"
  by (auto simp: ecc_laws_def demo_env_def demo_ecc_def intro: calm_refl)

lemma demo_pin_env: "pin_env demo_env (ram_view 100000) (demo_cpin s)"
  using ram_laws [of 100000]
  by (auto simp: pin_env_def dev_ok_def crypto_ok_def rng_ok_def demo_cpin_def demo_env_def dev.defs demo_dev_def demo_rng_def
      demo_crypto_def crypto.defs rng.defs sha256_blank_def STATE_ENVELOPE_BUF_SIZE_def)

lemma demo_pin_inv:
  assumes "state_ok s" "remaining_tries s = 8"
  shows "pin_inv demo_env (ram_view 100000) (demo_cpin s)"
proof -
  have "pin_shape (demo_cpin s)"
    using assms
    by (simp add: pin_shape_def pin_view_of_def demo_cpin_def dev.defs demo_dev_def demo_rng_def rng.defs
        demo_token_def token_shape_def token_state_zero_def)
  moreover have "stored (ram_view 100000) (demo_cpin s)"
    by (simp add: stored_def demo_cpin_def dev.defs demo_dev_def demo_rng_def rng.defs demo_crypto_def crypto.defs)
  ultimately show ?thesis using demo_pin_env by (simp add: pin_inv_def)
qed

lemma demo_inv: "pin_inv demo_env (ram_view 100000) (demo_cpin demo_state)"
  by (rule demo_pin_inv) (simp_all add: demo_state_ok, simp add: demo_state_def)

section \<open>Deciphering what the platform sent\<close>

lemma decrypt_platform:
  assumes "pin_env env v w" "length key = 32" "length iv = 16" "length p mod 16 = 0" "p \<noteq> []"
    "buf = (if proto = 1 then CBC_enc key (replicate 16 0) p else iv @ CBC_enc key iv p) @ rest"
    "n = (if proto = 1 then length p else 16 + length p)"
  obtains b w' where "decrypt buf n key proto w = Some (p @ b, w')" "calm env v w w'"
proof (cases "proto = 1")
  case True
  let ?c = "CBC_enc key (replicate 16 0) p"
  have c: "length ?c = length p" "CBC_dec key (replicate 16 0) ?c = p"
    using CBC_round [OF assms(2) _ assms(4), of "replicate 16 0"] by simp_all
  have t: "take n buf = ?c" using True assms(6,7) c(1) by simp
  obtain w' where "crypto_aes256_decrypt (take n buf) (crypto_aes256_init key None w) = (CBC_dec key (nonce_iv None) (take n buf), w')" "calm env v w w'"
    by (rule aes_dec_calm [OF assms(1)])
  then have "decrypt buf n key proto w = Some (p @ drop (length p) buf, w')" "calm env v w w'"
    using True t c(2) by (simp_all add: decrypt_def blit_def)
  then show ?thesis using that by blast
next
  case False
  let ?c = "CBC_enc key iv p"
  have c: "length ?c = length p" "CBC_dec key iv ?c = p"
    using CBC_round [OF assms(2,3,4)] by simp_all
  have t: "take 16 buf = iv" "slice 16 (length p) buf = ?c" "length buf = 16 + length p + length rest"
    using False assms(3,6) c(1) by (simp_all add: slice_def)
  obtain w' where d: "crypto_aes256_decrypt (slice 16 (length p) buf) (crypto_aes256_init key (Some (take 16 buf)) w)
      = (CBC_dec key (nonce_iv (Some (take 16 buf))) (slice 16 (length p) buf), w')" "calm env v w w'"
    by (rule aes_dec_calm [OF assms(1)])
  have pos: "0 < length p" using assms(5) by simp
  let ?b1 = "blit buf 16 p"
  have s: "slice 16 (length p) ?b1 = p" using t(3) by (simp add: blit_simps)
  have l: "length (blit ?b1 0 p) = length buf" using t(3) by (simp add: blit_simps length_blit_max)
  have "blit (blit ?b1 0 p) (length p) (replicate 16 0) = p @ replicate 16 0 @ drop (length p + 16) (blit ?b1 0 p)"
    by (simp add: blit_def)
  then have "decrypt buf n key proto w = Some (p @ replicate 16 0 @ drop (length p + 16) (blit ?b1 0 p), w')"
    using False d(1) t(1,2) c(2) assms(3,7) pos s by (simp add: decrypt_def CP_IV_SIZE_def Let_def)
  then show ?thesis using that d(2) by blast
qed

lemma trailing_zeros_padded:
  assumes "pin \<noteq> []" "last pin \<noteq> 0"
  shows "trailing_zeros (pin @ replicate k 0 @ rest) (length pin + k - 1) = k"
proof (induction k arbitrary: rest)
  case 0
  then show ?case
    using assms by (cases "length pin - 1") (auto simp: last_conv_nth nth_append)
next
  case (Suc k)
  obtain i where i: "length pin = Suc i" using assms(1) by (cases pin) auto
  have "replicate (Suc k) 0 @ rest = replicate k 0 @ 0 # rest" by (simp add: replicate_append_same [symmetric])
  moreover have "trailing_zeros (pin @ replicate k 0 @ 0 # rest) (i + k) = k"
    using Suc.IH [of "0 # rest"] i by simp
  ultimately show ?case using i by (simp add: nth_append)
qed

section \<open>Setting a PIN\<close>

lemma decapsulate_exact:
  assumes "pin_inv env v w" "uECC_shared_secret (env_ecc env) pub (priv_of p w) w = Some (1, z, w1)" "length z = 32" "calm env v w w1"
  obtains w2 where "ctap_client_pin_decapsulate env pub p w = Some (session_keys z p, w2)" "calm env v w w2"
proof -
  obtain w2 where "kdf z p w1 = Some (session_keys z p, w2)" "calm env v w1 w2"
    by (rule kdf_calm [OF calmD(1) [OF assms(4)] assms(3)])
  then show ?thesis
    using that assms(2) calm_trans [OF assms(4)]
    by (simp add: ctap_client_pin_decapsulate_def ecdh_def crypto_ecc256_shared_secret_def)
qed

lemma stored_hash_accepts:
  assumes "pin_env env v w" "hash (pin_view_of w) = Some (CBC_enc (key_pin_enc w) iv (take 16 (SHA256 pin)), iv)" "length iv = 16" "16 \<le> length h"
  shows "fst (verify_against_stored_pin h w) \<longleftrightarrow> take 16 h = take 16 (SHA256 pin)"
proof -
  have k: "length (key_pin_enc w) = 32" using assms(1) by (simp add: pin_env_def)
  have s: "pin_hash_iv (STATE w) = iv" "pin_hash_enc (STATE w) = CBC_enc (key_pin_enc w) iv (take 16 (SHA256 pin))"
    using assms(2) by (auto simp: pin_view_of_def split: if_splits)
  have r: "CBC_dec (key_pin_enc w) iv (CBC_enc (key_pin_enc w) iv (take 16 (SHA256 pin))) = take 16 (SHA256 pin)"
    "length (CBC_enc (key_pin_enc w) iv (take 16 (SHA256 pin))) = 16"
    using CBC_round [OF k assms(3), of "take 16 (SHA256 pin)"] by simp_all
  obtain w' where "verify_against_stored_pin h w = (secure_memeq h (CBC_dec (key_pin_enc w) (take 16 (pin_hash_iv (STATE w)))
      (take 16 (pin_hash_enc (STATE w)))) 16, w')" by (rule verify_stored_calm [OF assms(1)])
  then show ?thesis
    using secure_memeq_iff [of 16 h "take 16 (SHA256 pin)"] assms(3,4) by (simp add: s r)
qed

text \<open>What the platform sends for a new PIN: the PIN padded to 64 bytes and encrypted under the session key, for
  the second protocol behind an initialization vector, and a MAC of it.\<close>

definition platform_pin_enc :: "byte \<Rightarrow> bytes \<Rightarrow> bytes \<Rightarrow> bytes \<Rightarrow> bytes" where
  "platform_pin_enc p iv key pin =
     (let padded = pin @ replicate (64 - length pin) 0
      in if p = 1 then CBC_enc key (replicate 16 0) padded else iv @ CBC_enc key iv padded)"

lemma length_platform_pin_enc:
  assumes "length key = 32" "length iv = 16" "length pin \<le> 64"
  shows "length (platform_pin_enc p iv key pin) = (if p = 1 then 64 else 80)"
  using CBC_round(2) [OF assms(1), of "replicate 16 0" "pin @ replicate (64 - length pin) 0"]
    CBC_round(2) [OF assms(1,2), of "pin @ replicate (64 - length pin) 0"] assms
  by (simp add: platform_pin_enc_def Let_def)

lemma round_up_blocks: "round_up 64 = 64" "round_up 80 = 80"
  by (simp_all add: round_up.simps)

text \<open>C5: A platform that follows either PIN protocol sets the PIN: given the shared secret, the padded and
  encrypted PIN and its MAC are accepted, the device then has a PIN, on flash too, and accepts exactly the
  PIN hashes that agree with the hash of this PIN.\<close>

theorem set_pin_round_trip:
  assumes inv: "pin_inv env v w" and fresh: "\<not> ctap_client_pin_is_set w" and p: "p = 1 \<or> p = 2"
    and ecdh: "uECC_shared_secret (env_ecc env) pub (priv_of p w) w = Some (1, z, w1)" "length z = 32" "calm env v w w1"
    and pin: "4 \<le> length pin" "length pin \<le> 63" "last pin \<noteq> 0" "length iv = 16"
    and enc: "enc = platform_pin_enc p iv (fst (session_keys z p)) pin" "len = of_nat (length enc)"
    and param: "length param = 32" "take (auth_param_size p) param = take (auth_param_size p) (HMAC (snd (session_keys z p)) enc)"
  shows "\<exists>w'. update_pin_if_verified env (enc @ rest) len pub param None p w = Some (CTAP2_OK, w') \<and> ctap_client_pin_is_set w'
    \<and> f_contents v (lfs w') ''state'' = Some (state_envelope (key_device_mac w') (STATE w'))
    \<and> (\<forall>h. 16 \<le> length h \<longrightarrow> fst (verify_against_stored_pin h w') = (take 16 h = take 16 (SHA256 pin)))"
proof -
  let ?ek = "fst (session_keys z p)" and ?mk = "snd (session_keys z p)" and ?pad = "pin @ replicate (64 - length pin) 0"
  have kl: "length ?ek = 32" "length ?mk = 32" by (rule length_session_keys)+
  have el: "length enc = (if p = 1 then 64 else 80)" using length_platform_pin_enc [OF kl(1) pin(4)] pin(2) by (simp add: enc(1))
  have ul: "unat len = length enc" "\<not> len < 64" using el by (auto simp: enc(2) split: if_splits)
  obtain w2 where w2: "ctap_client_pin_decapsulate env pub p w = Some ((?ek, ?mk), w2)" "calm env v w w2"
    by (rule decapsulate_exact [OF inv ecdh]) simp
  have msg: "update_message (enc @ rest) len None p = enc" by (simp add: update_message_def ul(1))
  obtain w3 where w3: "ctap_client_pin_verify ?mk enc param p w2 = Some (if \<not> secure_memeq param (HMAC (take 32 ?mk) enc) (auth_param_size p) then - 1 else 0, w3)"
    "calm env v w2 w3" by (rule verify_calm [OF calmD(1) [OF w2(2)]])
  have mac: "secure_memeq param (HMAC (take 32 ?mk) enc) (auth_param_size p)"
    using param kl(2) p by (subst secure_memeq_iff) (auto simp: auth_param_size_def)
  have n: "round_up (unat len) = (if p = 1 then length ?pad else 16 + length ?pad)"
    using pin(2) by (simp add: ul(1) el round_up_blocks)
  obtain b w4 where w4: "decrypt (enc @ rest) (round_up (unat len)) ?ek p w3 = Some (?pad @ b, w4)" "calm env v w3 w4"
    by (rule decrypt_platform [OF calmD(1) [OF w3(2)] kl(1) pin(4), of ?pad "enc @ rest" p rest "round_up (unat len)"])
      (use pin(1,2) n in \<open>auto simp: enc(1) platform_pin_enc_def Let_def\<close>)
  have "trailing_zeros (?pad @ b) 63 = 64 - length pin"
    using trailing_zeros_padded [of pin "64 - length pin" b] pin(1-3) by (cases "pin = []") auto
  then have nl: "NEW_PIN_ENC_MIN_SIZE - trailing_zeros (?pad @ b) (NEW_PIN_ENC_MIN_SIZE - 1) = length pin"
    using pin(2) by (simp add: NEW_PIN_ENC_MIN_SIZE_def)
  have c4: "calm env v w w4" using w2(2) w3(2) w4(2) calm_trans by blast
  have i4: "pin_inv env v w4" by (rule pin_inv_calm [OF inv c4])
  have v4: "pin_view_of w4 = pin_view_of w" by (rule pin_view_calm [OF c4])
  have t: "0 < tries (pin_view_of w4)"
    using i4 fresh by (auto simp: pin_inv_def pin_shape_def v4 state_view)
  obtain iv' w5 where w5: "store_pin env (?pad @ b) (length pin) w4 = Some w5" "pin_inv env v w5" "same_hw w4 w5" "length iv' = 16"
    "pin_view_of w5 = (pin_view_of w4)\<lparr>hash := Some (CBC_enc (key_pin_enc w4) iv' (take 16 (SHA256 (take (length pin) (?pad @ b)))), iv')\<rparr>"
    by (rule store_pin_ok [OF i4 t])
  have k5: "key_pin_enc w5 = key_pin_enc w4" using w5(3) by (simp add: same_hw_def)
  have h5: "hash (pin_view_of w5) = Some (CBC_enc (key_pin_enc w5) iv' (take 16 (SHA256 pin)), iv')" by (simp add: w5(5) k5)
  have "update_pin_if_verified env (enc @ rest) len pub param None p w = Some (CTAP2_OK, w5)"
    using ul(2) w2(1) msg w3(1) mac w4(1) nl w5(1) pin(1,2)
    by (cases "session_keys z p") (simp add: update_pin_if_verified_def store_new_pin_def confirm_old_pin_def NEW_PIN_MIN_SIZE_def NEW_PIN_MAX_SIZE_def Let_def)
  moreover have "stored v w5" using w5(2) by (simp add: pin_inv_def)
  ultimately show ?thesis
    using stored_hash_accepts [OF pin_inv_env [OF w5(2)] h5 w5(4)] by (simp add: state_view h5 stored_def)
qed

definition demo_fresh :: AuthenticatorState where
  "demo_fresh = demo_state\<lparr>is_pin_set := 0\<rparr>"

lemma set_pin_round_trip_witness:
  "let ks = session_keys (replicate 32 9) 2; enc = platform_pin_enc 2 (replicate 16 6) (fst ks) [0x31, 0x32, 0x33, 0x34]
   in \<exists>w'. update_pin_if_verified demo_env (enc @ []) (of_nat (length enc)) [] (HMAC (snd ks) enc) None 2 (demo_cpin demo_fresh) = Some (CTAP2_OK, w')
     \<and> ctap_client_pin_is_set w'"
proof -
  let ?v = "ram_view 100000"
  have inv: "pin_inv demo_env ?v (demo_cpin demo_fresh)"
    by (rule demo_pin_inv) (use demo_state_ok(1) in \<open>simp_all add: demo_fresh_def state_ok_def\<close>, simp add: demo_state_def)
  have f: "\<not> ctap_client_pin_is_set (demo_cpin demo_fresh)"
    by (simp add: ctap_client_pin_is_set_def demo_cpin_def demo_fresh_def dev.defs)
  have e: "uECC_shared_secret (env_ecc demo_env) [] (priv_of 2 (demo_cpin demo_fresh)) (demo_cpin demo_fresh)
      = Some (1, replicate 32 9, demo_cpin demo_fresh)" by (simp add: demo_env_def demo_ecc_def)
  show ?thesis
    using set_pin_round_trip [OF inv f _ e _ calm_refl [OF pin_inv_env [OF inv]], of "[0x31, 0x32, 0x33, 0x34]" "replicate 16 6" _ _ _ "[]", OF _ _ _ _ _ _ refl refl _ refl]
    by (auto simp: Let_def)
qed

section \<open>Tokens\<close>

definition token_alive :: "byte \<Rightarrow> u32 \<Rightarrow> ('fs, 'f, 'a) cpin_scheme \<Rightarrow> bool" where
  "token_alive p now w \<longleftrightarrow> in_use (proto_state p w) \<and> now - usage_timer_start_ms (proto_state p w) \<le> TOKEN_MAX_USAGE_PERIOD_MS
     \<and> now - usage_timer_last_used_ms (proto_state p w) \<le> TOKEN_MAX_USER_PRESENT_MS"

lemma get_on_state [simp]:
  "token_state (get_pin_protocol_state p (on_state p f w)) = f (proto_state p w)"
  "token (get_pin_protocol_state p (on_state p f w)) = token (get_pin_protocol_state p w)"
  by (simp_all add: on_state_def)

lemma observer_effect:
  assumes "pin_env env v w" "now = TIMER_MAX - timer_reg w (timer_reads w)"
  obtains w' where "pinUvAuthToken_usage_time_observer p w = Some w'" "pin_env env v w'"
    "in_use (proto_state p w') \<longleftrightarrow> token_alive p now w"
    "token (get_pin_protocol_state p w') = token (get_pin_protocol_state p w)"
    "\<not> token_alive p now w \<Longrightarrow> \<not> user_verified (proto_state p w') \<or> \<not> in_use (proto_state p w)"
proof (cases "in_use (proto_state p w)")
  case False
  then show ?thesis using that assms(1) by (simp add: pinUvAuthToken_usage_time_observer_def token_alive_def)
next
  case True
  obtain w1 where m: "millis w = Some (now, w1)" "calm env v w w1"
    using millis_calm [OF assms(1)] assms(2) by metis
  have s: "get_pin_protocol_state p w1 = get_pin_protocol_state p w" by (rule calm_protocol [OF m(2)])
  define w2 where "w2 = (if now - usage_timer_start_ms (proto_state p w1) > TOKEN_MAX_USAGE_PERIOD_MS then stop_using_pinUvAuthToken p w1 else w1)"
  define w3 where "w3 = (if now - usage_timer_start_ms (proto_state p w2) > TOKEN_MAX_USER_PRESENT_MS then ctap_client_pin_clear_user_present p w2 else w2)"
  define w4 where "w4 = (if now - usage_timer_last_used_ms (proto_state p w3) > TOKEN_MAX_USER_PRESENT_MS then stop_using_pinUvAuthToken p w3
      else on_state p (\<lambda>s. s\<lparr>usage_timer_last_used_ms := now\<rparr>) w3)"
  note defs = w2_def w3_def w4_def stop_using_pinUvAuthToken_def ctap_client_pin_clear_user_present_def
  have "pinUvAuthToken_usage_time_observer p w = Some w4"
    using True m(1) by (simp add: pinUvAuthToken_usage_time_observer_def Let_def w2_def w3_def w4_def)
  moreover have "pin_env env v w4" using calmD(1) [OF m(2)] by (simp add: defs)
  moreover have "in_use (proto_state p w4) \<longleftrightarrow> token_alive p now w"
    using True by (auto simp: defs token_alive_def s token_state_zero_def)
  moreover have "token (get_pin_protocol_state p w4) = token (get_pin_protocol_state p w)" by (simp add: defs s)
  moreover have "\<not> token_alive p now w \<Longrightarrow> \<not> user_verified (proto_state p w4)"
    using True by (auto simp: defs token_alive_def s token_state_zero_def)
  ultimately show ?thesis using that by blast
qed

text \<open>C6: An authentication parameter is accepted exactly when the token is in use, was issued at most ten
  minutes and last used at most thirty seconds ago, and the parameter starts with the HMAC of the message
  under the token, 16 bytes of it for the first protocol and all 32 for the second.\<close>

theorem verify_auth_exact:
  assumes "pin_inv env v w" "length param = 32" "now = TIMER_MAX - timer_reg w (timer_reads w)"
  shows "\<exists>w'. ctap_client_pin_verify_auth_ex param msg p w =
    Some (if token_alive p now w \<and> take (auth_param_size p) param = take (auth_param_size p) (HMAC (token (get_pin_protocol_state p w)) msg)
          then CTAP2_OK else CTAP2_ERR_PIN_AUTH_INVALID, w')"
proof -
  let ?tok = "token (get_pin_protocol_state p w)"
  obtain w1 where w1: "pinUvAuthToken_usage_time_observer p w = Some w1" "pin_env env v w1"
    "in_use (proto_state p w1) \<longleftrightarrow> token_alive p now w" "token (get_pin_protocol_state p w1) = ?tok"
    by (rule observer_effect [OF pin_inv_env [OF assms(1)] assms(3)])
  obtain w2 where w2: "ctap_client_pin_verify ?tok msg param p w1
      = Some (if \<not> secure_memeq param (HMAC (take 32 ?tok) msg) (auth_param_size p) then - 1 else 0, w2)"
    by (rule verify_calm [OF w1(2)])
  have "take 32 ?tok = ?tok" using pin_inv_token [OF assms(1), of p] by (simp add: token_shape_def)
  moreover have "secure_memeq param (HMAC ?tok msg) (auth_param_size p)
      \<longleftrightarrow> take (auth_param_size p) param = take (auth_param_size p) (HMAC ?tok msg)"
    using assms(2) by (intro secure_memeq_iff) (simp_all add: auth_param_size_def)
  ultimately show ?thesis using w1 w2 by (auto simp: ctap_client_pin_verify_auth_ex_def)
qed

lemma verify_auth_exact_witness:
  "\<exists>w'. ctap_client_pin_verify_auth_ex (replicate 32 0) [1, 2, 3] 2 (demo_cpin demo_state) = Some (CTAP2_ERR_PIN_AUTH_INVALID, w')"
proof -
  have "\<not> token_alive 2 now (demo_cpin demo_state)" for now
    by (simp add: token_alive_def get_pin_protocol_state_def demo_cpin_def dev.defs demo_token_def token_state_zero_def)
  then show ?thesis
    using verify_auth_exact [OF demo_inv, of "replicate 32 0" _ "[1, 2, 3]" 2] by simp
qed

section \<open>The machine\<close>





end
