(* ===== verification/Attestation.thy ===== *)
theory Attestation
  imports Device_Laws
begin

text \<open>
  \<open>targets/tkey/src/attestation.c\<close>: the attestation key and certificate in their files. The key file is
  the structure \<open>att_key_t\<close> as it lies in memory: the key encrypted in counter mode, the nonce and a MAC
  of the two under the device key. \<open>attestation_read_key\<close> is what the key derivation of \<open>Crypto\<close> takes as
  a parameter.

  The whole way of a key (once it is provisioned, every later start of the device loads it for signing, and a
  second provisioning is refused) is proved in \<open>Start_Laws\<close>.
\<close>

definition ATTESTATION_MAX_CERT_SIZE :: nat where "ATTESTATION_MAX_CERT_SIZE = 1024"
definition ATTESTATION_SIGN_KEY_SIZE :: nat where "ATTESTATION_SIGN_KEY_SIZE = 32"
definition ATTESTATION_NONCE_SIZE :: nat where "ATTESTATION_NONCE_SIZE = 16"
definition ATTESTATION_MAC_SIZE :: nat where "ATTESTATION_MAC_SIZE = 16"

lemmas attestation_sizes = ATTESTATION_MAX_CERT_SIZE_def ATTESTATION_SIGN_KEY_SIZE_def
  ATTESTATION_NONCE_SIZE_def ATTESTATION_MAC_SIZE_def

definition sizeof_att_key :: nat where
  "sizeof_att_key = ATTESTATION_SIGN_KEY_SIZE + ATTESTATION_NONCE_SIZE + ATTESTATION_MAC_SIZE"

text \<open>The packed structure and the bytes it occupies.\<close>

definition att_key_bytes :: "att_key \<Rightarrow> bytes" where
  "att_key_bytes k = att_key_enc k @ att_nonce k @ att_mac k"

definition att_key_of :: "bytes \<Rightarrow> att_key" where
  "att_key_of b = \<lparr>att_key_enc = take ATTESTATION_SIGN_KEY_SIZE b,
     att_nonce = slice ATTESTATION_SIGN_KEY_SIZE ATTESTATION_NONCE_SIZE b,
     att_mac = slice (ATTESTATION_SIGN_KEY_SIZE + ATTESTATION_NONCE_SIZE) ATTESTATION_MAC_SIZE b\<rparr>"

section \<open>The key\<close>

text \<open>The file handle is a local structure whose littlefs part starts as \<open>f0\<close>, its zero value.\<close>

definition attestation_read_key ::
  "('fs, 'f, 'd) lfs_lib \<Rightarrow> 'f \<Rightarrow> att_key \<Rightarrow> ('fs, 'a) fsys_scheme
     \<Rightarrow> (int \<times> att_key \<times> ('fs, 'a) fsys_scheme) option" where
  "attestation_read_key lib f0 key_buf w =
     (let (ret, f, w) = fs_open_file lib \<lparr>fs_handle = f0, fs_is_open = False\<rparr> ''attestation_key'' [LFS_O_RDONLY] w
      in if ret < 0 then Some (ret, key_buf, w)
         else let file_size = fs_file_size lib f w
              in if file_size < 0 then let (_, f, w) = fs_close_file lib f w in Some (file_size, key_buf, w)
                 else if file_size \<noteq> int sizeof_att_key
                 then let (_, f, w) = fs_close_file lib f w in Some (- 1, key_buf, w)
                 else let (ret, b, f, w) = fs_read lib f (att_key_bytes key_buf) (nat file_size) w;
                          key_buf = att_key_of b;
                          (_, f, w) = fs_close_file lib f w
                      in if ret < 0 then Some (ret, key_buf, w)
                         else do {
                           (ok, w) \<leftarrow> crypto_verify_device_mac
                             (take (ATTESTATION_SIGN_KEY_SIZE + ATTESTATION_NONCE_SIZE) (att_key_bytes key_buf))
                             (att_mac key_buf) ATTESTATION_MAC_SIZE w;
                           if \<not> ok then Some (- 1, att_key_of (replicate sizeof_att_key 0), w)
                           else Some (0, key_buf, w) })"

text \<open>The structure that is stored: encrypted under a fresh nonce, then sealed. The result of the random
  number generator is ignored, the nonce stays zero when it fails.\<close>

definition seal_att_key :: "bytes \<Rightarrow> 'a rng_scheme \<Rightarrow> (att_key \<times> 'a rng_scheme) option" where
  "seal_att_key key w = do {
     (_, out, w) \<leftarrow> rng_get_bytes ATTESTATION_NONCE_SIZE w;
     let nonce = blit (replicate ATTESTATION_NONCE_SIZE 0) 0 out;
     let key_enc = crypto_aes256_ctr_xcrypt_buffer (key_attestation_enc w) nonce
            (blit (replicate ATTESTATION_SIGN_KEY_SIZE 0) 0 key);
     (mac, w) \<leftarrow> crypto_compute_device_mac (key_enc @ nonce) ATTESTATION_MAC_SIZE w;
     Some (\<lparr>att_key_enc = key_enc, att_nonce = nonce, att_mac = mac\<rparr>, w) }"

definition attestation_write_key ::
  "('fs, 'f, 'd) lfs_lib \<Rightarrow> 'f \<Rightarrow> bytes \<Rightarrow> ('fs, 'a) fsys_scheme \<Rightarrow> (int \<times> ('fs, 'a) fsys_scheme) option" where
  "attestation_write_key lib f0 key w =
     (if length key \<noteq> ATTESTATION_SIGN_KEY_SIZE then Some (- 1, w)
      else let (ret, f, w) = fs_open_file lib \<lparr>fs_handle = f0, fs_is_open = False\<rparr> ''attestation_key''
                 [LFS_O_RDWR, LFS_O_CREAT] w
           in if ret < 0 then Some (ret, w)
              else let size = fs_file_size lib f w
                   in if size < 0 then let (_, f, w) = fs_close_file lib f w in Some (size, w)
                      else if size > 0 then let (_, f, w) = fs_close_file lib f w in Some (- 1, w)
                      else do {
                        (att_key, w) \<leftarrow> seal_att_key key w;
                        let (ret, f, w) = fs_write lib f (att_key_bytes att_key) w;
                        let (_, f, w) = fs_close_file lib f w;
                        Some (ret, w) })"

section \<open>The certificate\<close>

text \<open>The result is the return value, the buffer and the size, which is not set on every path.\<close>

definition attestation_read_cert ::
  "('fs, 'f, 'd) lfs_lib \<Rightarrow> 'f \<Rightarrow> bytes \<Rightarrow> nat \<Rightarrow> nat \<Rightarrow> ('fs, 'a) fsys_scheme
     \<Rightarrow> int \<times> bytes \<times> nat \<times> ('fs, 'a) fsys_scheme" where
  "attestation_read_cert lib f0 cert_buf cert_buf_size cert_size w =
     (let (ret, f, w) = fs_open_file lib \<lparr>fs_handle = f0, fs_is_open = False\<rparr> ''attestation_cert'' [LFS_O_RDONLY] w
      in if ret < 0 then (ret, cert_buf, cert_size, w)
         else let file_size = fs_file_size lib f w
              in if file_size < 0
                 then let (_, f, w) = fs_close_file lib f w in (file_size, cert_buf, cert_size, w)
                 else if nat file_size > cert_buf_size
                 then let (_, f, w) = fs_close_file lib f w in (- 1, cert_buf, cert_size, w)
                 else let cert_size = nat file_size;
                          (ret, cert_buf, f, w) = fs_read lib f cert_buf (nat file_size) w;
                          (_, f, w) = fs_close_file lib f w
                      in (if ret < 0 then ret else 0, cert_buf, cert_size, w))"

definition attestation_write_cert ::
  "('fs, 'f, 'd) lfs_lib \<Rightarrow> 'f \<Rightarrow> bytes \<Rightarrow> ('fs, 'a) fsys_scheme \<Rightarrow> int \<times> ('fs, 'a) fsys_scheme" where
  "attestation_write_cert lib f0 cert w =
     (if length cert > ATTESTATION_MAX_CERT_SIZE then (- 1, w)
      else let (ret, f, w) = fs_open_file lib \<lparr>fs_handle = f0, fs_is_open = False\<rparr> ''attestation_cert''
                 [LFS_O_RDWR, LFS_O_CREAT] w
           in if ret < 0 then (ret, w)
              else let size = fs_file_size lib f w
                   in if size < 0 then let (_, f, w) = fs_close_file lib f w in (size, w)
                      else if size > 0 then let (_, f, w) = fs_close_file lib f w in (- 1, w)
                      else let (ret, f, w) = fs_write lib f cert w;
                               (_, f, w) = fs_close_file lib f w
                           in (ret, w))"

definition attestation_read_aaguid :: bytes where
  "attestation_read_aaguid = [0xdb, 0xe4, 0x2d, 0x66, 0x22, 0xbe, 0x46, 0x24, 0x88, 0x11,
     0x97, 0x2a, 0x8e, 0x65, 0x36, 0x7e]"

end
