(* ===== verification/Ctap_Core.thy ===== *)
theory Ctap_Core
  imports Client_Pin Attestation
begin

text \<open>
  \<open>fido2/src/ctap.c\<close>, the functions the commands share: credentials and their tags, the authenticator data,
  signatures, the start of the authenticator. The dispatcher \<open>ctap_request\<close> is in \<open>Ctap_Request\<close>; the two
  MAC functions the PIN needs are in \<open>Client_Pin\<close>, the counters of resident keys in \<open>Device\<close>.

  The packed structures that the code writes to files, sends or computes a MAC over are byte strings, as in
  \<open>Device\<close>. The bindings of one build (the libraries, the bit of the touch register, the zero value of
  littlefs's file type) are the record \<open>board\<close>. The state kept between \<open>getAssertion\<close> and
  \<open>getNextAssertion\<close> and the state of an enumeration of credentials are fields of the record \<open>ctap\<close>.
\<close>

section \<open>Data\<close>

record CTAP_hmac_secret =
  saltLen :: byte
  saltEnc :: bytes
  saltAuth :: bytes
  hs_keyAgreement :: COSE_key
  hs_credential :: "nat option"

text \<open>The pointer \<open>credential\<close> is null or points to an element of the array \<open>creds\<close> below; it is the index.\<close>

record CTAP_extensions =
  hmac_secret_present :: byte
  hmac_secret :: CTAP_hmac_secret
  cred_protect :: byte

record CTAP_credInfo =
  ci_user :: CTAP_userEntity
  publicKeyCredentialType :: int
  coseAlgorithmIdentifier :: int
  ci_rk :: bool

text \<open>The fields \<open>customCredId\<close> and its size are never used by the program and left out.\<close>

text \<open>A descriptor with the user entity that the code stores behind the credential id.\<close>

record stored_descriptor =
  sd_desc :: CTAP_credentialDescriptor
  sd_user :: bytes

record getAssertionState_t =
  ga_authData :: bytes
  ga_ext_buf :: bytes
  ga_extensions :: CTAP_extensions
  ga_clientDataHash :: bytes
  ga_creds :: "stored_descriptor list"
  ga_lastcmd :: byte
  ga_count :: u32
  ga_index :: u32
  ga_time :: u32
  ga_user_verified :: byte

text \<open>From \<open>fido2/src/ctap_credential_management.c\<close>: where an enumeration has got to.\<close>

record credential_management_state_t =
  cs_valid :: bool
  cs_init_cmd :: byte
  cs_timestamp :: u32
  cs_rp_id_hash :: bytes
  cs_list_unique_rps :: bytes
  cs_len_list_unique_rps :: byte
  cs_rk_idx :: byte
  cs_file_idx :: byte

record ('fs, 'f) ctap = "('fs, 'f) cpin" +
  getAssertionState :: getAssertionState_t
  cm_state :: credential_management_state_t

record ('fs, 'f, 'd, 'w) board =
  b_env :: "('fs, 'f, 'd, 'w) env"
  b_touch_bit :: nat
  b_file0 :: 'f

abbreviation b_lfs :: "('fs, 'f, 'd, 'w) board \<Rightarrow> ('fs, 'f, 'd) lfs_lib" where
  "b_lfs b \<equiv> env_lfs (b_env b)"

abbreviation b_ecc :: "('fs, 'f, 'd, 'w) board \<Rightarrow> 'w ecc_lib" where
  "b_ecc b \<equiv> env_ecc (b_env b)"

definition CREDID_ALG_ES256 :: byte where "CREDID_ALG_ES256 = 0"
definition CREDID_ALG_EDDSA :: byte where "CREDID_ALG_EDDSA = 1"
definition CREDENTIAL_NONCE_SIZE :: nat where "CREDENTIAL_NONCE_SIZE = 16"
definition CREDENTIAL_METADATA_SIZE :: nat where "CREDENTIAL_METADATA_SIZE = 4"
definition CREDENTIAL_META_CRED_PROTECT_BYTE :: nat where "CREDENTIAL_META_CRED_PROTECT_BYTE = 3"
definition CREDENTIAL_META_ALG_BYTE :: nat where "CREDENTIAL_META_ALG_BYTE = 2"
definition CREDENTIAL_META_FLAGS_BYTE :: nat where "CREDENTIAL_META_FLAGS_BYTE = 0"
definition CREDENTIAL_META_IS_RK_BITMASK :: byte where "CREDENTIAL_META_IS_RK_BITMASK = 1"
definition CREDENTIAL_RP_ID_SIZE :: nat where "CREDENTIAL_RP_ID_SIZE = 32"
definition CTAP2_UP_DELAY_MS :: u32 where "CTAP2_UP_DELAY_MS = 29000"
definition EXT_CRED_PROTECT_INVALID :: byte where "EXT_CRED_PROTECT_INVALID = 0"
definition EXT_CRED_PROTECT_OPTIONAL :: byte where "EXT_CRED_PROTECT_OPTIONAL = 1"
definition EXT_CRED_PROTECT_OPTIONAL_WITH_CREDID :: byte where "EXT_CRED_PROTECT_OPTIONAL_WITH_CREDID = 2"
definition EXT_CRED_PROTECT_REQUIRED :: byte where "EXT_CRED_PROTECT_REQUIRED = 3"

text \<open>The fields of a credential id that \<open>Device\<close> does not read.\<close>

definition cred_version :: "bytes \<Rightarrow> bytes" where "cred_version c = slice 0 1 c"
definition cred_nonce :: "bytes \<Rightarrow> bytes" where "cred_nonce c = slice 17 CREDENTIAL_NONCE_SIZE c"
definition cred_metadata :: "bytes \<Rightarrow> bytes" where "cred_metadata c = slice 33 CREDENTIAL_METADATA_SIZE c"
definition cred_count :: "bytes \<Rightarrow> u32" where "cred_count c = of_nat (of_le (slice 37 4 c))"

definition user_bytes :: "CTAP_userEntity \<Rightarrow> bytes" where
  "user_bytes u = user_id u @ [user_id_size u] @ user_name u @ user_displayName u"

definition user_of_bytes :: "bytes \<Rightarrow> CTAP_userEntity" where
  "user_of_bytes b = \<lparr>user_id = take USER_ID_MAX_SIZE b, user_id_size = b ! USER_ID_MAX_SIZE,
     user_name = slice (USER_ID_MAX_SIZE + 1) USER_NAME_LIMIT b,
     user_displayName = slice (USER_ID_MAX_SIZE + 1 + USER_NAME_LIMIT) DISPLAY_NAME_LIMIT b\<rparr>"

section \<open>Presence and the signature counter\<close>

definition ctap2_user_presence_test ::
  "nat \<Rightarrow> ('fs, 'f, 'a) dev_scheme \<Rightarrow> (CtapError \<times> ('fs, 'f, 'a) dev_scheme) option" where
  "ctap2_user_presence_test event_bit w = do {
     (ret, w) \<leftarrow> ctap_user_presence_test event_bit CTAP2_UP_DELAY_MS w;
     Some (if ret = 2 then CTAP2_ERR_USER_PRESENCE_DISABLED else if ret = 1 then CTAP2_OK
           else if ret = - 1 then CTAP2_ERR_KEEPALIVE_CANCEL else CTAP2_ERR_OPERATION_DENIED, w) }"

text \<open>The authenticator data is a buffer: the hash of the RP (32), the flags (1), the counter (4), and with a
  new credential the AAGUID (16), the length of the id (2), the id (57) and the COSE key.\<close>

definition ctap_auth_data_update_count ::
  "('fs, 'f, 'd) lfs_lib \<Rightarrow> 'f \<Rightarrow> bytes \<Rightarrow> ('fs, 'f, 'a) dev_scheme \<Rightarrow> (u32 \<times> bytes \<times> ('fs, 'f, 'a) dev_scheme) option" where
  "ctap_auth_data_update_count lib f0 buf w = do {
     (count, w) \<leftarrow> ctap_atomic_count lib f0 0 w;
     (count, w) \<leftarrow> (if count = 0 then ctap_atomic_count lib f0 0 w else Some (count, w));
     Some (count, blit buf 33 (be32 count), w) }"

section \<open>Answers\<close>

definition ctap_get_credential_id_size :: "int \<Rightarrow> nat" where
  "ctap_get_credential_id_size type = (if type = PUB_KEY_CRED_CTAP1 then U2F_KEY_HANDLE_SIZE else sizeof_CredentialId)"

abbreviation text_lit :: "string \<Rightarrow> enc_call" where
  "text_lit s \<equiv> (\<lambda>e. cbor_encode_text_string e (butlast (c_string s)))"

definition ctap_cbor_encode_credential_descriptor :: "CborEncoder \<Rightarrow> bytes \<Rightarrow> int \<Rightarrow> CtapError \<times> CborEncoder" where
  "ctap_cbor_encode_credential_descriptor enc cred type =
     (let (err, e) = enc_map 2
            [text_lit ''id'', \<lambda>e. cbor_encode_byte_string e (take (ctap_get_credential_id_size type) cred),
             text_lit ''type'', text_lit ''public-key''] enc
      in (cbor_status err, e))"

text \<open>\<open>None\<close> is a name without a terminating zero.\<close>

definition ctap_cbor_encode_user_entity ::
  "CborEncoder \<Rightarrow> CTAP_userEntity \<Rightarrow> bool \<Rightarrow> (CtapError \<times> CborEncoder) option" where
  "ctap_cbor_encode_user_entity enc user is_verified = do {
     let dispname = (user_name user ! 0 \<noteq> 0 \<and> is_verified);
     name_len \<leftarrow> (if dispname then strlen (user_name user @ user_displayName user) else Some 0);
     display_len \<leftarrow> (if dispname then strlen (user_displayName user) else Some 0);
     let (err, e) = enc_map (if dispname then 3 else 1)
       ([text_lit ''id'', \<lambda>e. cbor_encode_byte_string e (take (unat (user_id_size user)) (user_id user))]
        @ (if dispname
           then [text_lit ''name'', \<lambda>e. cbor_encode_text_string e (take name_len (user_name user @ user_displayName user)),
                 text_lit ''displayName'', \<lambda>e. cbor_encode_text_string e (take display_len (user_displayName user))]
           else [])) enc;
     Some (cbor_status err, e) }"

section \<open>Metadata\<close>

definition ctap_xcrypt_buf :: "bytes \<Rightarrow> bytes \<Rightarrow> 'a crypto_scheme \<Rightarrow> bytes" where
  "ctap_xcrypt_buf iv data w = crypto_aes256_ctr_xcrypt_buffer (key_meta_enc w) iv data"

text \<open>The result is the status and the flag \<open>is_rk\<close>.\<close>

definition ctap_check_credential_metadata :: "bytes \<Rightarrow> bool \<Rightarrow> bool \<Rightarrow> 'a crypto_scheme \<Rightarrow> CtapError \<times> byte" where
  "ctap_check_credential_metadata credential is_verified is_from_credid_list w =
     (let metadata = ctap_xcrypt_buf (cred_nonce credential) (cred_metadata credential) w;
          cp = metadata ! CREDENTIAL_META_CRED_PROTECT_BYTE;
          is_rk = metadata ! CREDENTIAL_META_FLAGS_BYTE AND CREDENTIAL_META_IS_RK_BITMASK
      in (if cp = EXT_CRED_PROTECT_OPTIONAL_WITH_CREDID
          then (if \<not> is_from_credid_list \<and> \<not> is_verified then CTAP2_ERR_NOT_ALLOWED else CTAP2_OK)
          else if cp = EXT_CRED_PROTECT_REQUIRED
          then (if \<not> is_verified then CTAP2_ERR_NOT_ALLOWED else CTAP2_OK)
          else CTAP2_OK, is_rk))"

definition ctap_restore_metadata_cose_alg :: "bytes \<Rightarrow> 'a crypto_scheme \<Rightarrow> int" where
  "ctap_restore_metadata_cose_alg credential w =
     (let metadata = ctap_xcrypt_buf (cred_nonce credential) (cred_metadata credential) w
      in if metadata ! CREDENTIAL_META_ALG_BYTE = CREDID_ALG_EDDSA then COSE_ALG_EDDSA else COSE_ALG_ES256)"

section \<open>Tags\<close>

definition ctap_make_auth_tag ::
  "bytes \<Rightarrow> bytes \<Rightarrow> bytes \<Rightarrow> bytes \<Rightarrow> u32 \<Rightarrow> 'a crypto_scheme \<Rightarrow> (bytes \<times> 'a crypto_scheme) option" where
  "ctap_make_auth_tag version rp_id_lookup nonce metadata count w = do {
     (hashbuf, w) \<leftarrow> crypto_hmac (key_cred_mac w)
       [take 1 version, take CREDENTIAL_TAG_SIZE rp_id_lookup, take CREDENTIAL_NONCE_SIZE nonce,
        take CREDENTIAL_METADATA_SIZE metadata, le32 count] w;
     Some (take CREDENTIAL_TAG_SIZE hashbuf, w) }"

text \<open>From \<open>fido2/src/u2f.c\<close>: a key handle is a tag (16) and a random key (32).\<close>

definition U2F_APPLICATION_SIZE :: nat where "U2F_APPLICATION_SIZE = 32"

definition kh_tag :: "bytes \<Rightarrow> bytes" where "kh_tag kh = slice 0 U2F_KEY_HANDLE_TAG_SIZE kh"
definition kh_key :: "bytes \<Rightarrow> bytes" where "kh_key kh = slice U2F_KEY_HANDLE_TAG_SIZE U2F_KEY_HANDLE_KEY_SIZE kh"

definition u2f_make_auth_tag :: "bytes \<Rightarrow> bytes \<Rightarrow> 'a crypto_scheme \<Rightarrow> (bytes \<times> 'a crypto_scheme) option" where
  "u2f_make_auth_tag kh appid w = do {
     (hashbuf, w) \<leftarrow> crypto_hmac (key_cred_mac w) [kh_key kh, take U2F_APPLICATION_SIZE appid] w;
     Some (take CREDENTIAL_TAG_SIZE hashbuf, w) }"

definition u2f_authenticate_credential ::
  "bytes \<Rightarrow> nat \<Rightarrow> bytes \<Rightarrow> 'a crypto_scheme \<Rightarrow> (bool \<times> 'a crypto_scheme) option" where
  "u2f_authenticate_credential kh key_handle_len appid w =
     (if key_handle_len = sizeof_CredentialId
      then if memcmp 16 (cred_rp_id_lookup kh) appid \<noteq> 0 then Some (False, w)
           else do {
             (tag, w) \<leftarrow> ctap_make_auth_tag (cred_version kh) appid (cred_nonce kh) (cred_metadata kh) (cred_count kh) w;
             Some (memcmp CREDENTIAL_TAG_SIZE (cred_tag kh) tag = 0, w) }
      else if key_handle_len = U2F_KEY_HANDLE_SIZE
      then do {
        (tag, w) \<leftarrow> u2f_make_auth_tag kh appid w;
        Some (memcmp U2F_KEY_HANDLE_TAG_SIZE (kh_tag kh) tag = 0, w) }
      else Some (False, w))"

definition ctap_credential_belongs_to_rp ::
  "bytes \<Rightarrow> bytes \<Rightarrow> CTAP_credentialDescriptor \<Rightarrow> 'a crypto_scheme \<Rightarrow> (bool \<times> 'a crypto_scheme) option" where
  "ctap_credential_belongs_to_rp rp_id_lookup rp_id_hash desc w =
     (if cred_type desc = PUB_KEY_CRED_CTAP1
      then u2f_authenticate_credential (cred_id desc) U2F_KEY_HANDLE_SIZE rp_id_hash w
      else if cred_type desc = PUB_KEY_CRED_PUB_KEY
      then do {
        (tag, w) \<leftarrow> ctap_make_auth_tag (cred_version (cred_id desc)) rp_id_lookup (cred_nonce (cred_id desc))
          (cred_metadata (cred_id desc)) (cred_count (cred_id desc)) w;
        Some (secure_memeq (cred_tag (cred_id desc)) tag CREDENTIAL_TAG_SIZE, w) }
      else Some (False, w))"

definition ctap_verify_mac :: "bytes \<Rightarrow> bytes \<Rightarrow> 'a crypto_scheme \<Rightarrow> (bool \<times> 'a crypto_scheme) option" where
  "ctap_verify_mac mac data w = do {
     (local_mac, w) \<leftarrow> ctap_compute_mac data CREDENTIAL_TAG_SIZE w;
     Some (memcmp CREDENTIAL_TAG_SIZE local_mac mac = 0, w) }"

definition derive_user_id_lookup :: "bytes \<Rightarrow> 'a crypto_scheme \<Rightarrow> (bytes \<times> 'a crypto_scheme) option" where
  "derive_user_id_lookup uid w = ctap_compute_mac uid CREDENTIAL_TAG_SIZE w"

section \<open>Resident keys\<close>

definition RK_HMAC_SIZE :: nat where "RK_HMAC_SIZE = sizeof_residentKey - CREDENTIAL_TAG_SIZE"

definition rk_rk_tag :: "bytes \<Rightarrow> bytes" where "rk_rk_tag rk = slice RK_HMAC_SIZE CREDENTIAL_TAG_SIZE rk"

definition is_cred_id_matching_rk :: "bytes \<Rightarrow> bytes \<Rightarrow> bool" where
  "is_cred_id_matching_rk credId rk = (memcmp sizeof_CredentialId credId (rk_id rk) = 0)"

fun rk_exists_loop ::
  "('fs, 'f, 'd) lfs_lib \<Rightarrow> bytes \<Rightarrow> nat \<Rightarrow> bytes \<Rightarrow> ('fs, 'f, 'a) dev_scheme \<Rightarrow> (bool \<times> ('fs, 'f, 'a) dev_scheme) option"
where
  "rk_exists_loop lib cred 0 rk w = Some (False, snd (ctap_close_rk_file lib w))"
| "rk_exists_loop lib cred (Suc n) rk w =
     (let (rk, w) = ctap_load_next_rk lib rk w
      in if memcmp CREDENTIAL_TAG_SIZE (cred_rp_id_lookup cred) (cred_rp_id_lookup (rk_id rk)) \<noteq> 0
         then rk_exists_loop lib cred n rk w
         else if \<not> is_cred_id_matching_rk cred rk then rk_exists_loop lib cred n rk w
         else do {
           (ok, w) \<leftarrow> ctap_verify_mac (rk_rk_tag rk) (take RK_HMAC_SIZE rk) w;
           if \<not> ok then rk_exists_loop lib cred n rk w
           else Some (True, snd (ctap_close_rk_file lib w)) })"

definition ctap_verify_rk_exists ::
  "('fs, 'f, 'd) lfs_lib \<Rightarrow> bytes \<Rightarrow> ('fs, 'f, 'a) dev_scheme \<Rightarrow> (bool \<times> ('fs, 'f, 'a) dev_scheme) option" where
  "ctap_verify_rk_exists lib input_cred w =
     (let (count, w) = ctap_open_rk_file lib (cred_rp_id_lookup input_cred) w
      in if count \<le> 0 then Some (False, snd (ctap_close_rk_file lib w))
         else rk_exists_loop lib input_cred (nat count) (uninit sizeof_residentKey w) w)"

text \<open>\<open>memchr\<close>: the position of the first occurrence.\<close>

fun memchr :: "bytes \<Rightarrow> byte \<Rightarrow> nat option" where
  "memchr [] c = None"
| "memchr (b # bs) c = (if b = c then Some 0 else map_option Suc (memchr bs c))"

text \<open>The stored name is a field of 32 bytes, zero before; the result is the field and its length.\<close>

definition truncate_rpid :: "bytes \<Rightarrow> bytes \<Rightarrow> bytes \<times> nat" where
  "truncate_rpid stored_rpid rpid =
     (if length rpid \<le> CREDENTIAL_RP_ID_SIZE then (blit stored_rpid 0 rpid, length rpid)
      else let (stored_rpid, used) =
                 (case memchr rpid (of_char (CHR '':'')) of
                    None \<Rightarrow> (stored_rpid, 0)
                  | Some p \<Rightarrow> let protocol_len = p + 1;
                                 to_copy = (if protocol_len \<le> CREDENTIAL_RP_ID_SIZE then protocol_len else CREDENTIAL_RP_ID_SIZE)
                             in (blit stored_rpid 0 (take to_copy rpid), to_copy))
           in if CREDENTIAL_RP_ID_SIZE - used < 3 then (stored_rpid, used)
              else let stored_rpid = blit stored_rpid used [0xe2, 0x80, 0xa6];
                       used = used + 3;
                       to_copy = CREDENTIAL_RP_ID_SIZE - used
                   in (blit stored_rpid used (drop (length rpid - to_copy) rpid), CREDENTIAL_RP_ID_SIZE))"

section \<open>Signatures\<close>

fun lead_zeros :: "bytes \<Rightarrow> nat \<Rightarrow> nat \<Rightarrow> nat" where
  "lead_zeros buf i 0 = 0"
| "lead_zeros buf i (Suc n) = (if buf ! i = 0 then Suc (lead_zeros buf (i + 1) n) else 0)"

text \<open>The result is the buffer of 72 bytes and the length. When the second integer is zero the code reads
  the byte behind the signature, which is \<open>None\<close>. The negative length the code checks for cannot occur:
  at most 64 bytes are left out of 70.\<close>

definition ctap_encode_der_sig :: "bytes \<Rightarrow> (bytes \<times> nat) option" where
  "ctap_encode_der_sig in_sigbuf =
     (let lead_r = lead_zeros in_sigbuf 0 32;
          lead_s = lead_zeros in_sigbuf 32 32
      in if 32 + lead_s \<ge> length in_sigbuf then None
         else let pad_s = (if in_sigbuf ! (32 + lead_s) AND 0x80 = 0x80 then 1 else 0 :: nat);
                  pad_r = (if in_sigbuf ! (0 + lead_r) AND 0x80 = 0x80 then 1 else 0 :: nat);
                  out = replicate 72 (0 :: byte);
                  out = out[0 := 0x30];
                  out = out[1 := of_nat (0x44 + pad_s + pad_r - lead_s - lead_r)];
                  out = out[2 := 0x02];
                  out = out[3 + pad_r := 0];
                  out = out[3 := of_nat (0x20 + pad_r - lead_r)];
                  out = blit out (4 + pad_r) (slice lead_r (32 - lead_r) in_sigbuf);
                  out = out[4 + 32 + pad_r - lead_r := 0x02];
                  out = out[5 + 32 + pad_r + pad_s - lead_r := 0];
                  out = out[5 + 32 + pad_r - lead_r := of_nat (0x20 + pad_s - lead_s)];
                  out = blit out (6 + 32 + pad_r + pad_s - lead_r) (slice (32 + lead_s) (32 - lead_s) in_sigbuf)
              in Some (out, 0x46 + pad_s + pad_r - lead_r - lead_s))"

text \<open>The signature as it is sent: 64 bytes for EdDSA, the DER encoding for ECDSA.\<close>

definition ctap_sign_data ::
  "'a crypto_scheme ecc_lib \<Rightarrow> bytes \<Rightarrow> bytes \<Rightarrow> int \<Rightarrow> 'a crypto_scheme \<Rightarrow> (bytes \<times> 'a crypto_scheme) option" where
  "ctap_sign_data lib data clientDataHash alg w =
     (if alg = COSE_ALG_EDDSA
      then Some (take 64 (fido2_crypto_ed25519_sign lib data (take CLIENT_DATA_HASH_SIZE clientDataHash) w), w)
      else do {
        let w = crypto_sha256_update (take CLIENT_DATA_HASH_SIZE clientDataHash)
          (crypto_sha256_update data (crypto_sha256_init w));
        let (hashbuf, w) = crypto_sha256_final w;
        (sigbuf, w) \<leftarrow> crypto_ecc256_sign lib hashbuf w;
        (sigder, sz) \<leftarrow> ctap_encode_der_sig sigbuf;
        Some (take sz sigder, w) })"

section \<open>Authenticator data\<close>

definition sizeof_authDataHeader :: nat where "sizeof_authDataHeader = 37"
definition sizeof_authData :: nat where "sizeof_authData = 112"

text \<open>The id of a new credential: version 0, the lookup tag of the RP, a fresh nonce, the encrypted metadata,
  the counter and the tag over all of them. The result of the random number generator is ignored.\<close>

definition new_credential_id ::
  "bytes \<Rightarrow> u32 \<Rightarrow> CTAP_credInfo \<Rightarrow> CTAP_extensions \<Rightarrow> 'a rng_scheme \<Rightarrow> (bytes \<times> 'a rng_scheme) option" where
  "new_credential_id rp_id_lookup count credInfo extensions w = do {
     (_, nonce, w) \<leftarrow> ctap_generate_rng (replicate CREDENTIAL_NONCE_SIZE 0) CREDENTIAL_NONCE_SIZE w;
     let alg = (if coseAlgorithmIdentifier credInfo = COSE_ALG_EDDSA then CREDID_ALG_EDDSA else CREDID_ALG_ES256);
     let metadata = (replicate CREDENTIAL_METADATA_SIZE 0)
           [CREDENTIAL_META_ALG_BYTE := alg,
            CREDENTIAL_META_CRED_PROTECT_BYTE := cred_protect extensions,
            CREDENTIAL_META_FLAGS_BYTE := of_bool (ci_rk credInfo) AND CREDENTIAL_META_IS_RK_BITMASK];
     let protected_metadata = ctap_xcrypt_buf nonce metadata w;
     let version = [0];
     let lookup = take CREDENTIAL_TAG_SIZE rp_id_lookup;
     (tag, w) \<leftarrow> ctap_make_auth_tag version lookup nonce protected_metadata count w;
     Some (version @ lookup @ nonce @ protected_metadata @ le32 count @ tag, w) }"

text \<open>The resident key: version, credential id, user, RP (hash, name, length of the name), lookup tag of the
  user, nonce and tag. The user and the RP are encrypted in one run.\<close>

definition new_resident_key ::
  "bytes \<Rightarrow> rpId \<Rightarrow> bytes \<Rightarrow> CTAP_userEntity \<Rightarrow> 'a rng_scheme \<Rightarrow> (bytes \<times> 'a rng_scheme) option" where
  "new_resident_key cid rp rp_id_hash user w = do {
     (user_id_lookup, w) \<leftarrow> derive_user_id_lookup (take (unat (user_id_size user)) (user_id user)) w;
     let (stored_rpid, stored_len) = truncate_rpid (replicate CREDENTIAL_RP_ID_SIZE 0) (take (rp_size rp) (rp_id rp));
     (_, rk_nonce, w) \<leftarrow> ctap_generate_rng (replicate CREDENTIAL_NONCE_SIZE 0) CREDENTIAL_NONCE_SIZE w;
     let entities = ctap_xcrypt_buf rk_nonce
           (user_bytes user @ take 32 rp_id_hash @ stored_rpid @ [of_nat stored_len]) w;
     let rk = [0] @ cid @ entities @ user_id_lookup @ rk_nonce;
     (rk_tag, w) \<leftarrow> ctap_compute_mac rk CREDENTIAL_TAG_SIZE w;
     Some (rk @ rk_tag, w) }"

text \<open>The part for a new credential, once the header stands in the buffer. The result is the status, the
  buffer and the size.\<close>

definition add_attested_data ::
  "('fs, 'f, 'd, ('fs, 'f, 'a) cpin_scheme) board \<Rightarrow> rpId \<Rightarrow> bytes \<Rightarrow> bytes \<Rightarrow> bytes \<Rightarrow> nat \<Rightarrow> u32 \<Rightarrow> CTAP_credInfo
     \<Rightarrow> CTAP_extensions \<Rightarrow> ('fs, 'f, 'a) cpin_scheme \<Rightarrow> (CtapError \<times> bytes \<times> nat \<times> ('fs, 'f, 'a) cpin_scheme) option" where
  "add_attested_data b rp rp_id_hash rp_id_lookup buf len count credInfo extensions w =
     (if len < sizeof_authData then None
      else do {
        let buf = buf[32 := buf ! 32 OR 0x40];
        let buf = blit buf 37 attestation_read_aaguid;
        let buf = blit buf 53 [0, of_nat sizeof_CredentialId];
        (cid, w) \<leftarrow> new_credential_id rp_id_lookup count credInfo extensions w;
        let buf = blit buf 55 cid;
        (r, w) \<leftarrow>
          (if ci_rk credInfo
           then if unat (rk_stored (STATE w)) \<ge> unat ctap_max_number_of_rks then Some (CTAP2_ERR_KEY_STORE_FULL, w)
                else do {
                  (rk, w) \<leftarrow> new_resident_key cid rp rp_id_hash (ci_user credInfo) w;
                  (ret, w) \<leftarrow> ctap_overwrite_rk (b_lfs b) rk w;
                  Some (if ret < 0 then CTAP1_ERR_OTHER else CTAP2_OK, w) }
           else Some (CTAP2_OK, w));
        if r \<noteq> CTAP2_OK then Some (r, buf, len, w)
        else do {
          (_, cose_key, w) \<leftarrow> cose_key_generate (b_ecc b)
            (cbor_encoder_init buf sizeof_authData (len - sizeof_authData) 0) cid
            (publicKeyCredentialType credInfo) (coseAlgorithmIdentifier credInfo) w;
          Some (CTAP2_OK, ce_buf cose_key,
            sizeof_authData + cbor_encoder_get_buffer_size cose_key sizeof_authData, w) } })"

definition ctap_make_auth_data ::
  "('fs, 'f, 'd, ('fs, 'f, 'a) cpin_scheme) board \<Rightarrow> rpId \<Rightarrow> bytes \<Rightarrow> bytes \<Rightarrow> bytes \<Rightarrow> nat \<Rightarrow> CTAP_credInfo option
     \<Rightarrow> CTAP_extensions \<Rightarrow> ('fs, 'f, 'a) cpin_scheme \<Rightarrow> (CtapError \<times> bytes \<times> nat \<times> ('fs, 'f, 'a) cpin_scheme) option" where
  "ctap_make_auth_data b rp rp_id_hash rp_id_lookup buf len credInfo extensions w =
     (if sizeof_authDataHeader > len then None
      else do {
        let buf = blit buf 0 (take 32 rp_id_hash);
        (count, buf, w) \<leftarrow> ctap_auth_data_update_count (b_lfs b) (b_file0 b) buf w;
        (r, w) \<leftarrow> ctap2_user_presence_test (b_touch_bit b) w;
        if r \<noteq> CTAP2_ERR_USER_PRESENCE_DISABLED \<and> r \<noteq> CTAP2_OK then Some (r, buf, len, w)
        else do {
          let flags = (if r = CTAP2_ERR_USER_PRESENCE_DISABLED then 0 else 1);
          let flags = flags OR (if ctap_client_pin_is_set w then 4 else 0);
          let buf = buf[32 := flags];
          case credInfo of
            None \<Rightarrow> Some (CTAP2_OK, buf, sizeof_authDataHeader, w)
          | Some ci \<Rightarrow> add_attested_data b rp rp_id_hash rp_id_lookup buf len count ci extensions w } })"

section \<open>Start\<close>

definition state_zero :: AuthenticatorState where
  "state_zero = \<lparr>st_version = 0, st_app_version = \<lparr>ver_major = 0, ver_minor = 0, ver_patch = 0, ver_reserved = 0\<rparr>,
     is_pin_set = 0, remaining_tries = 0, pin_hash_enc = replicate STATE_PIN_HASH_SIZE 0,
     pin_hash_iv = replicate STATE_PIN_HASH_IV_SIZE 0, rk_stored = 0, key_salt = replicate STATE_KEY_SALT_BYTES 0\<rparr>"

definition ctap_state_init ::
  "('fs, 'f, 'd) lfs_lib \<Rightarrow> ('fs, 'f, 'a) dev_scheme \<Rightarrow> ('fs, 'f, 'a) dev_scheme option" where
  "ctap_state_init lib w = do {
     let w = w\<lparr>STATE := state_zero\<rparr>;
     (_, salt, w) \<leftarrow> ctap_generate_rng (key_salt (STATE w)) STATE_KEY_SALT_BYTES w;
     let w = w\<lparr>STATE := (STATE w)\<lparr>key_salt := salt, st_version := STATE_VERSION, remaining_tries := PIN_LOCKOUT_ATTEMPTS,
       is_pin_set := 0, rk_stored := 0, st_app_version := version_get_version\<rparr>\<rparr>;
     ctap_reset_rk lib w }"

text \<open>\<open>crypto_ecc256_init\<close> sets the curve and the random number generator of the ECC library, which are part
  of the parameter. The PIN attempts of a power cycle are set where the variable is defined.\<close>

definition ctap_init ::
  "('fs, 'f, 'd, ('fs, 'f, 'a) cpin_scheme) board \<Rightarrow> ('fs, 'f, 'a) cpin_scheme \<Rightarrow> (int \<times> ('fs, 'f, 'a) cpin_scheme) option" where
  "ctap_init b w = do {
     w \<leftarrow> crypto_derive_device_keys (attestation_read_key (b_lfs b) (b_file0 b)) w;
     (is_init, a, w) \<leftarrow> authenticator_read_state (b_lfs b) (STATE w) w;
     let w = w\<lparr>STATE := a\<rparr>;
     w \<leftarrow> (if is_init \<noteq> 0 then Some w
           else do { w \<leftarrow> ctap_state_init (b_lfs b) w; authenticator_write_state (b_lfs b) (STATE w) w });
     let ret = version_compare version_get_version (st_app_version (STATE w));
     if ret < 0 then Some (- 1, w)
     else do {
       w \<leftarrow> (if ret > 0
             then let w = w\<lparr>STATE := (STATE w)\<lparr>st_app_version := version_of_raw (version_raw version_get_version)\<rparr>\<rparr>
                  in authenticator_write_state (b_lfs b) (STATE w) w
             else Some w);
       let w = device_set_status CTAPHID_STATUS_IDLE w;
       w \<leftarrow> crypto_derive_session_keys (take STATE_KEY_SALT_BYTES (key_salt (STATE w))) w;
       w \<leftarrow> ctap_client_pin_initialize w;
       Some (0, w) } }"

end
