(* ===== verification/Ctap_Extensions.thy ===== *)
theory Ctap_Extensions
  imports Ctap_Core
begin

text \<open>
  \<open>fido2/src/ctap_extensions.c\<close>: the extensions \<open>hmac-secret\<close> and \<open>credProtect\<close>, reading them from a
  request and writing their output behind the authenticator data.
\<close>

definition EXT_HMAC_SECRET_COSE_KEY :: int where "EXT_HMAC_SECRET_COSE_KEY = 1"
definition EXT_HMAC_SECRET_SALT_ENC :: int where "EXT_HMAC_SECRET_SALT_ENC = 2"
definition EXT_HMAC_SECRET_SALT_AUTH :: int where "EXT_HMAC_SECRET_SALT_AUTH = 3"
definition EXT_HMAC_SECRET_REQUESTED :: byte where "EXT_HMAC_SECRET_REQUESTED = 1"
definition EXT_HMAC_SECRET_PARSED :: byte where "EXT_HMAC_SECRET_PARSED = 2"

datatype ReqType = REQ_TYPE_MC | REQ_TYPE_GA

section \<open>Parsing\<close>

text \<open>\<open>cbor_value_get_int\<close> of tinycbor, which does not check the range: the low 32 bits.\<close>

definition cbor_value_get_int :: "CborValue \<Rightarrow> (CborError \<times> int) option" where
  "cbor_value_get_int it = cbor_assert (cv_type it = CborIntegerType) (do {
     v \<leftarrow> extract_int64_helper it;
     let r = (ucast v :: u32);
     Some (CborNoError, sint (if cv_flags it AND Flag_NegativeInteger \<noteq> 0 then - r - 1 else r)) })"

text \<open>The loop over a map with integer keys, with the status for a key of another type and the function that
  reads the key.\<close>

fun int_map_loop_with ::
  "CtapError \<Rightarrow> (CborValue \<Rightarrow> (CborError \<times> int) option) \<Rightarrow> (int \<Rightarrow> CborValue \<Rightarrow> 's \<Rightarrow> 's pres) \<Rightarrow> nat \<Rightarrow> CborValue \<Rightarrow> 's \<Rightarrow> 's pres"
where
  "int_map_loop_with e get body 0 it s = Some (Inr s)"
| "int_map_loop_with e get body (Suc n) it s =
     (if cbor_value_get_type it \<noteq> CborIntegerType then Some (Inl e)
      else do {
        (err, key) \<leftarrow> get it;
        cbor_check err (do {
          (err, it) \<leftarrow> cbor_value_advance it;
          cbor_check err (ctap_check (body key it s) (\<lambda>s. do {
            (err, it) \<leftarrow> cbor_value_advance it;
            cbor_check err (int_map_loop_with e get body n it s) })) }) })"

text \<open>The entries of the map and how many were read, in a byte. The type of the two byte strings is only
  checked by the assertion in the library.\<close>

definition hmac_secret_body ::
  "int \<Rightarrow> CborValue \<Rightarrow> CTAP_hmac_secret \<times> byte \<Rightarrow> (CTAP_hmac_secret \<times> byte) pres" where
  "hmac_secret_body key it = (\<lambda>(hs, parsed_count).
     if key = EXT_HMAC_SECRET_COSE_KEY
     then ctap_check (cose_key_parse it (hs_keyAgreement hs)) (\<lambda>k.
            Some (Inr (hs\<lparr>hs_keyAgreement := k\<rparr>, parsed_count + 1)))
     else if key = EXT_HMAC_SECRET_SALT_ENC
     then do {
       (err, b, salt_len) \<leftarrow> cbor_value_copy_byte_string it (saltEnc hs) 64;
       if (salt_len \<noteq> 32 \<and> salt_len \<noteq> 64) \<or> err = CborErrorOutOfMemory then Some (Inl CTAP1_ERR_INVALID_LENGTH)
       else cbor_check err (Some (Inr (hs\<lparr>saltEnc := b, saltLen := of_nat salt_len\<rparr>, parsed_count + 1))) }
     else if key = EXT_HMAC_SECRET_SALT_AUTH
     then do {
       (err, b, _) \<leftarrow> cbor_value_copy_byte_string it (saltAuth hs) 32;
       cbor_check err (Some (Inr (hs\<lparr>saltAuth := b\<rparr>, parsed_count + 1))) }
     else Some (Inr (hs, parsed_count)))"

definition ctap_extensions_parse_hmac_secret :: "CborValue \<Rightarrow> CTAP_hmac_secret \<Rightarrow> CTAP_hmac_secret pres" where
  "ctap_extensions_parse_hmac_secret val hs =
     ctap_check (enter_map val (\<lambda>n map. int_map_loop_with CTAP2_ERR_INVALID_CBOR cbor_value_get_int hmac_secret_body n map (hs, 0)))
       (\<lambda>(hs, parsed_count). if parsed_count \<noteq> 3 then Some (Inl CTAP2_ERR_MISSING_PARAMETER) else Some (Inr hs))"

definition parse_hmac_secret_ext :: "ReqType \<Rightarrow> CborValue \<Rightarrow> CTAP_extensions \<Rightarrow> CTAP_extensions pres" where
  "parse_hmac_secret_ext request it ext =
     (case request of
        REQ_TYPE_MC \<Rightarrow>
          if cbor_value_get_type it \<noteq> CborBooleanType then Some (Inl CTAP2_ERR_INVALID_CBOR)
          else do {
            b \<leftarrow> cbor_value_get_boolean it;
            Some (Inr (if b then ext\<lparr>hmac_secret_present := EXT_HMAC_SECRET_REQUESTED\<rparr> else ext)) }
      | REQ_TYPE_GA \<Rightarrow>
          if cbor_value_get_type it \<noteq> CborMapType then Some (Inl CTAP2_ERR_INVALID_CBOR)
          else ctap_check (ctap_extensions_parse_hmac_secret it (hmac_secret ext)) (\<lambda>hs.
                 Some (Inr (ext\<lparr>hmac_secret := hs, hmac_secret_present := EXT_HMAC_SECRET_PARSED\<rparr>))))"

definition parse_cred_protect_ext :: "ReqType \<Rightarrow> CborValue \<Rightarrow> CTAP_extensions \<Rightarrow> CTAP_extensions pres" where
  "parse_cred_protect_ext request it ext =
     (if request \<noteq> REQ_TYPE_MC then Some (Inl CTAP2_ERR_INVALID_CBOR)
      else if cbor_value_get_type it \<noteq> CborIntegerType then Some (Inl CTAP2_ERR_INVALID_CBOR)
      else do {
        (err, v) \<leftarrow> cbor_value_get_int it;
        cbor_check err (
          if v \<ge> 1 \<and> v \<le> 3 then Some (Inr (ext\<lparr>cred_protect := of_int v\<rparr>))
          else Some (Inl CTAP1_ERR_INVALID_PARAMETER)) })"

definition extension_body :: "ReqType \<Rightarrow> bytes \<Rightarrow> CborValue \<Rightarrow> CTAP_extensions \<Rightarrow> CTAP_extensions pres" where
  "extension_body request key it ext = do {
     hm \<leftarrow> key_is key ''hmac-secret'';
     cp \<leftarrow> key_is key ''credProtect'';
     if hm then parse_hmac_secret_ext request it ext
     else if cp then parse_cred_protect_ext request it ext
     else Some (Inr ext) }"

text \<open>A key that does not fit into the buffer is skipped with its value.\<close>

fun extensions_loop :: "ReqType \<Rightarrow> nat \<Rightarrow> CborValue \<Rightarrow> bytes \<Rightarrow> CTAP_extensions \<Rightarrow> CTAP_extensions pres" where
  "extensions_loop request 0 it key ext = Some (Inr ext)"
| "extensions_loop request (Suc n) it key ext =
     (if cbor_value_get_type it \<noteq> CborTextStringType then Some (Inl CTAP2_ERR_INVALID_CBOR)
      else do {
        (err, key, _) \<leftarrow> cbor_value_copy_text_string it key (length key);
        if err = CborErrorOutOfMemory
        then do {
          (err, it) \<leftarrow> cbor_value_advance it;
          cbor_check err (do {
            (err, it) \<leftarrow> cbor_value_advance it;
            cbor_check err (extensions_loop request n it key ext) }) }
        else cbor_check err (do {
          let key = key[length key - 1 := 0];
          (err, it) \<leftarrow> cbor_value_advance it;
          cbor_check err (ctap_check (extension_body request key it ext) (\<lambda>ext. do {
            (err, it) \<leftarrow> cbor_value_advance it;
            cbor_check err (extensions_loop request n it key ext) })) }) })"

text \<open>\<open>key\<close> is the local buffer of 16 bytes.\<close>

definition ctap_extensions_parse_input :: "bytes \<Rightarrow> CborValue \<Rightarrow> CTAP_extensions \<Rightarrow> ReqType \<Rightarrow> CTAP_extensions pres" where
  "ctap_extensions_parse_input key val ext request =
     enter_map val (\<lambda>n map. extensions_loop request n map key ext)"

section \<open>Output\<close>

text \<open>The encrypted outputs for one or two salts. \<open>output\<close> is the local buffer of 64 bytes. The credential the
  pointer refers to is read from the array; a null pointer is \<open>None\<close>.\<close>

definition hmac_secret_output ::
  "('fs, 'f, 'd, ('fs, 'f, 'a) ctap_scheme) env \<Rightarrow> CTAP_hmac_secret \<Rightarrow> bytes \<Rightarrow> ('fs, 'f, 'a) ctap_scheme
     \<Rightarrow> ((CtapError + bytes) \<times> ('fs, 'f, 'a) ctap_scheme) option" where
  "hmac_secret_output env hs output w = do {
     ((shared_secret, _), w) \<leftarrow> ctap_client_pin_decapsulate env (cose_x (hs_keyAgreement hs) @ cose_y (hs_keyAgreement hs)) 1 w;
     (r, w) \<leftarrow> ctap_client_pin_verify shared_secret (take (unat (saltLen hs)) (saltEnc hs)) (saltAuth hs) 1 w;
     if r < 0 then Some (Inl CTAP2_ERR_PIN_AUTH_INVALID, w)
     else do {
       i \<leftarrow> hs_credential hs;
       let g = getAssertionState w;
       (credRandom, w) \<leftarrow> crypto_hmac (key_hmac_ext w)
         [take sizeof_CredentialId (cred_id (sd_desc (ga_creds g ! i))), [ga_user_verified g]] w;
       let (p, w) = crypto_aes256_decrypt (take (unat (saltLen hs)) (saltEnc hs)) (crypto_aes256_init shared_secret None w);
       let salt = blit (saltEnc hs) 0 p;
       (h, w) \<leftarrow> crypto_hmac credRandom [take 32 salt] w;
       let output = blit output 0 h;
       (output, w) \<leftarrow>
         (if saltLen hs = 64
          then do { (h, w) \<leftarrow> crypto_hmac credRandom [slice 32 32 salt] w; Some (blit output 32 h, w) }
          else Some (output, w));
       let (c, w) = crypto_aes256_encrypt (take (unat (saltLen hs)) output) (crypto_aes256_init shared_secret None w);
       Some (Inr c, w) } }"

definition cred_protect_valid :: "CTAP_extensions \<Rightarrow> bool" where
  "cred_protect_valid ext \<longleftrightarrow> cred_protect ext \<noteq> EXT_CRED_PROTECT_INVALID
     \<and> (cred_protect ext = EXT_CRED_PROTECT_OPTIONAL \<or> cred_protect ext = EXT_CRED_PROTECT_OPTIONAL_WITH_CREDID
        \<or> cred_protect ext = EXT_CRED_PROTECT_REQUIRED)"

text \<open>The entries of the output map: the value of \<open>hmac-secret\<close> for an assertion, the protection level, and the
  flag \<open>hmac-secret\<close> for a new credential.\<close>

definition extension_entries :: "CTAP_extensions \<Rightarrow> bytes option \<Rightarrow> enc_call list" where
  "extension_entries ext secret =
     (case secret of Some s \<Rightarrow> [text_lit ''hmac-secret'', \<lambda>e. cbor_encode_byte_string e s] | None \<Rightarrow> [])
     @ (if cred_protect_valid ext
        then [text_lit ''credProtect'', \<lambda>e. cbor_encode_int e (ucast (cred_protect ext))] else [])
     @ (if hmac_secret_present ext = EXT_HMAC_SECRET_REQUESTED
        then [text_lit ''hmac-secret'', \<lambda>e. cbor_encode_boolean e True] else [])"

text \<open>The output is written at offset \<open>off\<close> of the buffer; the result is the status, the buffer and the size.\<close>

definition ctap_extensions_encode_output ::
  "('fs, 'f, 'd, ('fs, 'f, 'a) ctap_scheme) env \<Rightarrow> CTAP_extensions \<Rightarrow> bytes \<Rightarrow> nat \<Rightarrow> nat \<Rightarrow> ('fs, 'f, 'a) ctap_scheme
     \<Rightarrow> (CtapError \<times> bytes \<times> nat \<times> ('fs, 'f, 'a) ctap_scheme) option" where
  "ctap_extensions_encode_output env ext buf off buf_size w = do {
     (r, w) \<leftarrow> (if hmac_secret_present ext = EXT_HMAC_SECRET_PARSED
                then do {
                  (r, w) \<leftarrow> hmac_secret_output env (hmac_secret ext) (uninit 64 w) w;
                  Some (case r of Inl e \<Rightarrow> Inl e | Inr c \<Rightarrow> Inr (Some c), w) }
                else Some (Inr None, w));
     case r of
       Inl e \<Rightarrow> Some (e, buf, buf_size, w)
     | Inr secret \<Rightarrow>
         let entries = extension_entries ext secret;
             used = length entries div 2
         in if used > 0
            then let (err, e) = enc_map (of_nat used) entries (cbor_encoder_init buf off buf_size 0)
                 in if err \<noteq> CborNoError then Some (CTAP2_ERR_INVALID_CBOR, ce_buf e, buf_size, w)
                    else Some (CTAP2_OK, ce_buf e, cbor_encoder_get_buffer_size e off, w)
            else Some (CTAP2_OK, buf, 0, w) }"

end
