(* ===== verification/Make_Credential.thy ===== *)
theory Make_Credential
  imports Ctap_Extensions
begin

text \<open>
  \<open>fido2/src/ctap_make_credential.c\<close>: the request and the command that makes a new credential. The exclude
  list is parsed twice, once when the request is read and once when its entries are compared; the second
  pass keeps its place in \<open>excludeList\<close>, as the code does.
\<close>

section \<open>The request\<close>

definition MC_Cmd_clientDataHash :: int where "MC_Cmd_clientDataHash = 0x01"
definition MC_Cmd_rp :: int where "MC_Cmd_rp = 0x02"
definition MC_Cmd_user :: int where "MC_Cmd_user = 0x03"
definition MC_Cmd_pubKeyCredParams :: int where "MC_Cmd_pubKeyCredParams = 0x04"
definition MC_Cmd_excludeList :: int where "MC_Cmd_excludeList = 0x05"
definition MC_Cmd_extensions :: int where "MC_Cmd_extensions = 0x06"
definition MC_Cmd_options :: int where "MC_Cmd_options = 0x07"
definition MC_Cmd_pinUvAuthParam :: int where "MC_Cmd_pinUvAuthParam = 0x08"
definition MC_Cmd_pinUvAuthProtocol :: int where "MC_Cmd_pinUvAuthProtocol = 0x09"

definition MC_Resp_fmt :: u64 where "MC_Resp_fmt = 0x01"
definition MC_Resp_authData :: u64 where "MC_Resp_authData = 0x02"
definition MC_Resp_attStmt :: u64 where "MC_Resp_attStmt = 0x03"

definition PARAM_clientDataHash :: u32 where "PARAM_clientDataHash = 0x01"
definition PARAM_rp :: u32 where "PARAM_rp = 0x02"
definition PARAM_user :: u32 where "PARAM_user = 0x04"
definition PARAM_pubKeyCredParams :: u32 where "PARAM_pubKeyCredParams = 0x08"
definition MC_requiredMask :: u32 where "MC_requiredMask = 0x0f"

record CTAP_makeCredential =
  mc_paramsParsed :: u32
  mc_clientDataHash :: bytes
  mc_rp :: rpId
  mc_credInfo :: CTAP_credInfo
  mc_excludeList :: CborValue
  mc_excludeListSize :: nat
  mc_uv :: bool
  mc_up :: bool
  mc_pinUvAuthParam :: bytes
  mc_pinUvAuthParam_len :: byte
  mc_pinUvAuthParam_empty :: bool
  mc_pinProtocol :: byte
  mc_extensions :: CTAP_extensions

definition user_zero :: CTAP_userEntity where
  "user_zero = \<lparr>user_id = replicate USER_ID_MAX_SIZE 0, user_id_size = 0, user_name = replicate USER_NAME_LIMIT 0,
     user_displayName = replicate DISPLAY_NAME_LIMIT 0\<rparr>"

definition extensions_zero :: CTAP_extensions where
  "extensions_zero = \<lparr>hmac_secret_present = 0, hmac_secret = \<lparr>saltLen = 0, saltEnc = replicate 64 0, saltAuth = replicate 32 0,
     hs_keyAgreement = \<lparr>cose_x = replicate 32 0, cose_y = replicate 32 0, cose_kty = 0, cose_crv = 0\<rparr>,
     hs_credential = None\<rparr>, cred_protect = 0\<rparr>"

definition makeCredential_zero :: CTAP_makeCredential where
  "makeCredential_zero = \<lparr>mc_paramsParsed = 0, mc_clientDataHash = replicate CLIENT_DATA_HASH_SIZE 0,
     mc_rp = \<lparr>rp_id = replicate (DOMAIN_NAME_MAX_SIZE + 1) 0, rp_size = 0, rp_name = replicate RP_NAME_LIMIT 0\<rparr>,
     mc_credInfo = \<lparr>ci_user = user_zero, publicKeyCredentialType = 0, coseAlgorithmIdentifier = 0, ci_rk = False\<rparr>,
     mc_excludeList = \<lparr>cv_buf = [], cv_ptr = 0, cv_remaining = 0, cv_extra = 0, cv_type = 0, cv_flags = 0\<rparr>,
     mc_excludeListSize = 0, mc_uv = False, mc_up = False, mc_pinUvAuthParam = replicate PIN_UV_AUTH_PARAM_MAX_SIZE 0,
     mc_pinUvAuthParam_len = 0, mc_pinUvAuthParam_empty = False, mc_pinProtocol = 0, mc_extensions = extensions_zero\<rparr>"

text \<open>The local buffers of the parsing functions that are not initialised: the keys of text maps, the type
  strings, a credential id.\<close>

record parse_locals =
  pl_opt_key :: bytes
  pl_user_key :: bytes
  pl_rp_key :: bytes
  pl_ext_key :: bytes
  pl_keytype :: bytes
  pl_type_str :: bytes
  pl_cred_id :: bytes

definition parse_locals_of :: "('fs, 'f, 'a) dev_scheme \<Rightarrow> parse_locals" where
  "parse_locals_of w = \<lparr>pl_opt_key = uninit 8 w, pl_user_key = uninit 24 w, pl_rp_key = uninit 8 w,
     pl_ext_key = uninit 16 w, pl_keytype = uninit 12 w, pl_type_str = uninit 16 w,
     pl_cred_id = uninit sizeof_CredentialId w\<rparr>"

definition relying_party_body :: "bytes \<Rightarrow> CborValue \<Rightarrow> rpId \<Rightarrow> rpId pres" where
  "relying_party_body key it rp =
     (if cbor_value_get_type it \<noteq> CborTextStringType then Some (Inl CTAP2_ERR_INVALID_CBOR)
      else do {
        is_id \<leftarrow> strcmp key (c_string ''id'');
        is_name \<leftarrow> strcmp key (c_string ''name'');
        if is_id = 0 then ctap_parse_rp_id rp it
        else if is_name = 0
        then do {
          (err, b, _) \<leftarrow> cbor_value_copy_text_string it (rp_name rp) RP_NAME_LIMIT;
          let r = Some (Inr (rp\<lparr>rp_name := b[RP_NAME_LIMIT - 1 := 0]\<rparr>));
          if err \<noteq> CborErrorOutOfMemory then cbor_check err r else r }
        else Some (Inr rp) })"

definition parse_relying_party_entity :: "bytes \<Rightarrow> rpId \<Rightarrow> CborValue \<Rightarrow> rpId pres" where
  "parse_relying_party_entity key rp val =
     ctap_check (text_map_parse relying_party_body key val (rp\<lparr>rp_size := 0\<rparr>)) (\<lambda>rp.
       if rp_size rp = 0 then Some (Inl CTAP2_ERR_MISSING_PARAMETER) else Some (Inr rp))"

text \<open>The result is the type and the algorithm.\<close>

definition parse_pubkey_credential_params :: "bytes \<Rightarrow> CborValue \<Rightarrow> (int \<times> int) pres" where
  "parse_pubkey_credential_params type_str val =
     (if cbor_value_get_type val \<noteq> CborMapType then Some (Inl CTAP2_ERR_INVALID_CBOR)
      else do {
        (err, cred) \<leftarrow> cbor_value_map_find_value val (butlast (c_string ''type''));
        cbor_check err (do {
          (err, alg) \<leftarrow> cbor_value_map_find_value val (butlast (c_string ''alg''));
          cbor_check err (
            if cbor_value_get_type cred \<noteq> CborTextStringType then Some (Inl CTAP2_ERR_MISSING_PARAMETER)
            else if cbor_value_get_type alg \<noteq> CborIntegerType then Some (Inl CTAP2_ERR_MISSING_PARAMETER)
            else do {
              (err, s, _) \<leftarrow> cbor_value_copy_text_string cred type_str (length type_str);
              cbor_check err (do {
                pk \<leftarrow> strcmp (s[length type_str - 1 := 0]) (c_string ''public-key'');
                (err, algtype) \<leftarrow> cbor_value_get_int_checked alg;
                cbor_check err (Some (Inr
                  (if pk = 0 then PUB_KEY_CRED_PUB_KEY else PUB_KEY_CRED_UNKNOWN, algtype))) }) }) }) })"

definition is_pubkey_credential_param_supported :: "int \<Rightarrow> int \<Rightarrow> bool" where
  "is_pubkey_credential_param_supported credtype algtype \<longleftrightarrow>
     credtype = PUB_KEY_CRED_PUB_KEY \<and> (algtype = COSE_ALG_ES256 \<or> algtype = COSE_ALG_EDDSA)"

text \<open>The two passes over the array: every element is parsed, then the first supported one is taken.\<close>

fun params_check_loop :: "bytes \<Rightarrow> nat \<Rightarrow> CborValue \<Rightarrow> unit pres" where
  "params_check_loop type_str 0 arr = Some (Inr ())"
| "params_check_loop type_str (Suc n) arr =
     ctap_check (parse_pubkey_credential_params type_str arr) (\<lambda>_. do {
       (err, arr) \<leftarrow> cbor_value_advance arr;
       cbor_check err (params_check_loop type_str n arr) })"

fun params_find_loop :: "bytes \<Rightarrow> nat \<Rightarrow> CborValue \<Rightarrow> (int \<times> int) pres" where
  "params_find_loop type_str 0 arr = Some (Inl CTAP2_ERR_UNSUPPORTED_ALGORITHM)"
| "params_find_loop type_str (Suc n) arr = do {
     r \<leftarrow> parse_pubkey_credential_params type_str arr;
     let next = do {
       (err, arr) \<leftarrow> cbor_value_advance arr;
       cbor_check err (params_find_loop type_str n arr) };
     case r of
       Inr (credtype, algtype) \<Rightarrow>
         if is_pubkey_credential_param_supported credtype algtype then Some (Inr (credtype, algtype)) else next
     | Inl _ \<Rightarrow> next }"

definition find_supported_pubkey_credential_param ::
  "bytes \<Rightarrow> CTAP_makeCredential \<Rightarrow> CborValue \<Rightarrow> CTAP_makeCredential pres" where
  "find_supported_pubkey_credential_param type_str MC val =
     (if cbor_value_get_type val \<noteq> CborArrayType then Some (Inl CTAP2_ERR_INVALID_CBOR)
      else do {
        (err, arr) \<leftarrow> cbor_value_enter_container val;
        cbor_check err (do {
          (err, arr_length) \<leftarrow> cbor_value_get_array_length val;
          cbor_check err (ctap_check (params_check_loop type_str arr_length arr) (\<lambda>_. do {
            (err, arr) \<leftarrow> cbor_value_enter_container val;
            cbor_check err (ctap_check (params_find_loop type_str arr_length arr) (\<lambda>(credtype, algtype).
              Some (Inr (MC\<lparr>mc_credInfo := (mc_credInfo MC)\<lparr>publicKeyCredentialType := credtype, coseAlgorithmIdentifier := algtype\<rparr>,
                mc_paramsParsed := mc_paramsParsed MC OR PARAM_pubKeyCredParams\<rparr>)))) })) }) })"

fun exclude_check_loop :: "bytes \<Rightarrow> nat \<Rightarrow> CborValue \<Rightarrow> CTAP_credentialDescriptor \<Rightarrow> unit pres" where
  "exclude_check_loop keytype 0 arr cred = Some (Inr ())"
| "exclude_check_loop keytype (Suc n) arr cred =
     ctap_check (ctap_parse_pubkey_credential_descriptor keytype arr cred) (\<lambda>cred. do {
       (err, arr) \<leftarrow> cbor_value_advance arr;
       cbor_check err (exclude_check_loop keytype n arr cred) })"

definition parse_exclude_list :: "parse_locals \<Rightarrow> CborValue \<Rightarrow> unit pres" where
  "parse_exclude_list pl val =
     (if cbor_value_get_type val \<noteq> CborArrayType then Some (Inl CTAP2_ERR_INVALID_CBOR)
      else do {
        (err, sz) \<leftarrow> cbor_value_get_array_length val;
        cbor_check err (do {
          (err, arr) \<leftarrow> cbor_value_enter_container val;
          cbor_check err (exclude_check_loop (pl_keytype pl) sz arr \<lparr>cred_type = 0, cred_id = pl_cred_id pl\<rparr>) }) })"

text \<open>The list and its length are kept for the second pass.\<close>

definition keep_exclude_list :: "parse_locals \<Rightarrow> CborValue \<Rightarrow> CTAP_makeCredential \<Rightarrow> CTAP_makeCredential pres" where
  "keep_exclude_list pl it MC =
     ctap_check (parse_exclude_list pl it) (\<lambda>_. do {
       (err, lst) \<leftarrow> cbor_value_enter_container it;
       cbor_check err (do {
         (err, n) \<leftarrow> cbor_value_get_array_length it;
         cbor_check err (Some (Inr (MC\<lparr>mc_excludeList := lst, mc_excludeListSize := n\<rparr>))) }) })"

definition make_credential_body ::
  "parse_locals \<Rightarrow> int \<Rightarrow> CborValue \<Rightarrow> CTAP_makeCredential \<Rightarrow> CTAP_makeCredential pres" where
  "make_credential_body pl key it MC =
     (if key = MC_Cmd_clientDataHash
      then ctap_check (ctap_parse_fixed_length_byte_string it (mc_clientDataHash MC) CLIENT_DATA_HASH_SIZE) (\<lambda>h.
             Some (Inr (MC\<lparr>mc_clientDataHash := h, mc_paramsParsed := mc_paramsParsed MC OR PARAM_clientDataHash\<rparr>)))
      else if key = MC_Cmd_rp
      then ctap_check (parse_relying_party_entity (pl_rp_key pl) (mc_rp MC) it) (\<lambda>rp.
             Some (Inr (MC\<lparr>mc_rp := rp, mc_paramsParsed := mc_paramsParsed MC OR PARAM_rp\<rparr>)))
      else if key = MC_Cmd_user
      then ctap_check (ctap_parse_user_entity (pl_user_key pl) (ci_user (mc_credInfo MC)) it) (\<lambda>u.
             Some (Inr (MC\<lparr>mc_credInfo := (mc_credInfo MC)\<lparr>ci_user := u\<rparr>, mc_paramsParsed := mc_paramsParsed MC OR PARAM_user\<rparr>)))
      else if key = MC_Cmd_pubKeyCredParams then find_supported_pubkey_credential_param (pl_type_str pl) MC it
      else if key = MC_Cmd_excludeList then keep_exclude_list pl it MC
      else if key = MC_Cmd_extensions
      then if cbor_value_get_type it \<noteq> CborMapType then Some (Inl CTAP2_ERR_INVALID_CBOR)
           else ctap_check (ctap_extensions_parse_input (pl_ext_key pl) it (mc_extensions MC) REQ_TYPE_MC) (\<lambda>x.
                  Some (Inr (MC\<lparr>mc_extensions := x\<rparr>)))
      else if key = MC_Cmd_options
      then ctap_check (ctap_parse_options (pl_opt_key pl) it \<lparr>opt_rk = ci_rk (mc_credInfo MC), opt_uv = mc_uv MC, opt_up = mc_up MC\<rparr>) (\<lambda>opts.
             Some (Inr (MC\<lparr>mc_credInfo := (mc_credInfo MC)\<lparr>ci_rk := opt_rk opts\<rparr>, mc_uv := opt_uv opts, mc_up := opt_up opts\<rparr>)))
      else if key = MC_Cmd_pinUvAuthParam
      then ctap_check (ctap_parse_pinUvAuthParam it (mc_pinUvAuthParam_empty MC) (mc_pinUvAuthParam MC)) (\<lambda>(emp, b, len).
             Some (Inr (MC\<lparr>mc_pinUvAuthParam_empty := emp, mc_pinUvAuthParam := b, mc_pinUvAuthParam_len := len\<rparr>)))
      else if key = MC_Cmd_pinUvAuthProtocol
      then ctap_check (parse_int it) (\<lambda>tmp. if tmp < 0 \<or> tmp > 255 then Some (Inl CTAP2_ERR_INVALID_CBOR)
             else Some (Inr (MC\<lparr>mc_pinProtocol := of_int tmp\<rparr>)))
      else Some (Inr MC))"

text \<open>The request map of this and other commands, where a wrong type has a status of its own.\<close>

definition request_map_parse :: "(int \<Rightarrow> CborValue \<Rightarrow> 's \<Rightarrow> 's pres) \<Rightarrow> bytes \<Rightarrow> 's \<Rightarrow> 's pres" where
  "request_map_parse body request s = do {
     (err, it) \<leftarrow> cbor_parser_init request;
     cbor_check err (
       if cbor_value_get_type it \<noteq> CborMapType then Some (Inl CTAP2_ERR_CBOR_UNEXPECTED_TYPE)
       else enter_map it (\<lambda>n map.
         int_map_loop_with CTAP2_ERR_CBOR_UNEXPECTED_TYPE cbor_value_get_int_checked body n map s)) }"

definition parse_make_credential :: "parse_locals \<Rightarrow> bytes \<Rightarrow> CTAP_makeCredential pres" where
  "parse_make_credential pl request =
     request_map_parse (make_credential_body pl) request (makeCredential_zero\<lparr>mc_up := True\<rparr>)"

section \<open>The command\<close>

text \<open>The checks of the PIN token, when a PIN is set.\<close>

definition mc_authorize ::
  "CTAP_makeCredential \<Rightarrow> ('fs, 'f, 'a) cpin_scheme \<Rightarrow> (CtapError \<times> ('fs, 'f, 'a) cpin_scheme) option" where
  "mc_authorize MC w =
     (if \<not> ctap_client_pin_is_set w then Some (CTAP2_OK, w)
      else if mc_pinUvAuthParam_len MC = 0 then Some (CTAP2_ERR_PUAT_REQUIRED, w)
      else do {
        (r, w) \<leftarrow> ctap_client_pin_verify_auth (mc_pinUvAuthParam MC) (mc_clientDataHash MC) (mc_pinProtocol MC) w;
        if r \<noteq> CTAP2_OK then Some (r, w)
        else if \<not> ctap_client_pin_get_user_verified (mc_pinProtocol MC) w then Some (CTAP2_ERR_PIN_AUTH_INVALID, w)
        else if \<not> ctap_client_pin_verify_permissions (mc_pinProtocol MC) CP_permissions_mc w
        then Some (CTAP2_ERR_PIN_AUTH_INVALID, w)
        else Some (CTAP2_OK, w) })"

text \<open>The comparison with the exclude list; \<open>lst\<close> is the place in the list, which only moves at the end of
  the loop body, \<open>cred\<close> the descriptor the entries are parsed into. \<open>CTAP2_OK\<close> is the end of the loop.\<close>

fun exclude_loop ::
  "('fs, 'f, 'd, ('fs, 'f, 'a) cpin_scheme) board \<Rightarrow> bytes \<Rightarrow> bytes \<Rightarrow> bytes \<Rightarrow> byte \<Rightarrow> nat \<Rightarrow> CborValue \<Rightarrow> CTAP_credentialDescriptor
     \<Rightarrow> ('fs, 'f, 'a) cpin_scheme \<Rightarrow> (CtapError \<times> ('fs, 'f, 'a) cpin_scheme) option"
where
  "exclude_loop b keytype rp_id_hash rp_id_lookup proto 0 lst cred w = Some (CTAP2_OK, w)"
| "exclude_loop b keytype rp_id_hash rp_id_lookup proto (Suc n) lst cred w = do {
     r \<leftarrow> ctap_parse_pubkey_credential_descriptor keytype lst cred;
     case r of
       Inl e \<Rightarrow> if e = CTAP2_ERR_CBOR_UNEXPECTED_TYPE
                then exclude_loop b keytype rp_id_hash rp_id_lookup proto n lst cred w
                else Some (e, w)
     | Inr cred \<Rightarrow> do {
         (mine, w) \<leftarrow> ctap_credential_belongs_to_rp rp_id_lookup rp_id_hash cred w;
         if \<not> mine then exclude_loop b keytype rp_id_hash rp_id_lookup proto n lst cred w
         else do {
           let user_verified = ctap_client_pin_get_user_verified proto w;
           let (status, is_rk) = ctap_check_credential_metadata (cred_id cred) user_verified True w;
           if status = CTAP2_OK
           then do {
             (present, w) \<leftarrow> (if is_rk \<noteq> 0 then ctap_verify_rk_exists (b_lfs b) (cred_id cred) w else Some (True, w));
             if \<not> present then exclude_loop b keytype rp_id_hash rp_id_lookup proto n lst cred w
             else do {
               (r, w) \<leftarrow> ctap2_user_presence_test (b_touch_bit b) w;
               Some (if r \<noteq> CTAP2_OK then r else CTAP2_ERR_CREDENTIAL_EXCLUDED, w) } }
           else do {
             (err, lst) \<leftarrow> cbor_value_advance lst;
             if err \<noteq> CborNoError then Some (CTAP2_ERR_INVALID_CBOR, w)
             else exclude_loop b keytype rp_id_hash rp_id_lookup proto n lst cred w } } } }"

text \<open>The attestation statement. An error inside a container leaves the parent encoder behind the container's
  head, with what was written in its buffer; \<open>enc_map\<close> and \<open>enc_array\<close> do the same.\<close>

definition cbor_encode_attestation_statement ::
  "('fs, 'f, 'd) lfs_lib \<Rightarrow> 'f \<Rightarrow> CborEncoder \<Rightarrow> bytes \<Rightarrow> ('fs, 'f, 'a) dev_scheme
     \<Rightarrow> CtapError \<times> CborEncoder \<times> ('fs, 'f, 'a) dev_scheme" where
  "cbor_encode_attestation_statement lib f0 enc sigder w =
     (let (err, enc) = cbor_encode_int enc MC_Resp_attStmt
      in if err \<noteq> CborNoError then (CTAP2_ERR_INVALID_CBOR, enc, w)
         else if attestation_available w
         then let (ret, cert, cert_size, w) = attestation_read_cert lib f0 (uninit ATTESTATION_MAX_CERT_SIZE w)
                    ATTESTATION_MAX_CERT_SIZE 0 w
              in if ret < 0 then (CTAP1_ERR_OTHER, enc, w)
                 else let (err, enc) = enc_map 3
                            [text_lit ''alg'', \<lambda>e. cbor_encode_int e (of_int COSE_ALG_ES256),
                             text_lit ''sig'', \<lambda>e. cbor_encode_byte_string e sigder,
                             text_lit ''x5c'', enc_array 1 [\<lambda>e. cbor_encode_byte_string e (take cert_size cert)]] enc
                      in (cbor_status err, enc, w)
         else let (err, enc) = enc_map 0 [] enc in (cbor_status err, enc, w))"

text \<open>The signature of the attestation key over the authenticator data, or nothing.\<close>

definition mc_attest ::
  "'a crypto_scheme ecc_lib \<Rightarrow> bytes \<Rightarrow> bytes \<Rightarrow> 'a crypto_scheme \<Rightarrow> (bytes \<times> 'a crypto_scheme) option" where
  "mc_attest lib auth_data clientDataHash w =
     (if attestation_available w
      then ctap_sign_data lib auth_data clientDataHash COSE_ALG_ES256 (crypto_ecc256_load_attestation_key w)
      else Some ([], w))"

definition AUTH_DATA_BUF_SIZE :: nat where "AUTH_DATA_BUF_SIZE = 310"

text \<open>The end of the command: the three entries of the answer. \<open>map\<close> is the encoder of the map, \<open>e\<close> its
  parent.\<close>

definition mc_answer ::
  "('fs, 'f, 'd, ('fs, 'f, 'a) ctap_scheme) board \<Rightarrow> CTAP_makeCredential \<Rightarrow> CborEncoder \<Rightarrow> CborEncoder \<Rightarrow> bytes \<Rightarrow> nat
     \<Rightarrow> ('fs, 'f, 'a) ctap_scheme \<Rightarrow> (CtapError \<times> CborEncoder \<times> ('fs, 'f, 'a) ctap_scheme) option" where
  "mc_answer b MC e m auth_data_buf auth_data_sz w = do {
     (r, auth_data_buf, ext_size, w) \<leftarrow> ctap_extensions_encode_output (b_env b) (mc_extensions MC) auth_data_buf auth_data_sz
       (AUTH_DATA_BUF_SIZE - auth_data_sz) w;
     if r \<noteq> CTAP2_OK then Some (r, e\<lparr>ce_buf := ce_buf m\<rparr>, w)
     else do {
       let (auth_data_buf, auth_data_sz) =
         (if ext_size \<noteq> 0 then (auth_data_buf[32 := auth_data_buf ! 32 OR 0x80], auth_data_sz + ext_size)
          else (auth_data_buf, auth_data_sz));
       let auth_data = take auth_data_sz auth_data_buf;
       let (err, m) = enc_seq [\<lambda>e. cbor_encode_int e MC_Resp_authData, \<lambda>e. cbor_encode_byte_string e auth_data] m;
       if err \<noteq> CborNoError then Some (CTAP2_ERR_INVALID_CBOR, e\<lparr>ce_buf := ce_buf m\<rparr>, w)
       else do {
         (sigder, w) \<leftarrow> mc_attest (b_ecc b) auth_data (mc_clientDataHash MC) w;
         let (r, m, w) = cbor_encode_attestation_statement (b_lfs b) (b_file0 b) m sigder w;
         if r \<noteq> CTAP2_OK then Some (r, e\<lparr>ce_buf := ce_buf m\<rparr>, w)
         else let (err, e) = cbor_encoder_close_container e m
              in Some (cbor_status err, e, w) } } }"

definition mc_clear_token :: "byte \<Rightarrow> ('fs, 'f, 'a) cpin_scheme \<Rightarrow> ('fs, 'f, 'a) cpin_scheme" where
  "mc_clear_token proto w = ctap_client_pin_clear_PinUvAuthToken_permissions_except_Lbw proto
     (ctap_client_pin_clear_user_verified proto (ctap_client_pin_clear_user_present proto w))"

definition mc_create ::
  "('fs, 'f, 'd, ('fs, 'f, 'a) ctap_scheme) board \<Rightarrow> CTAP_makeCredential \<Rightarrow> bytes \<Rightarrow> bytes \<Rightarrow> CborEncoder
     \<Rightarrow> ('fs, 'f, 'a) ctap_scheme \<Rightarrow> (CtapError \<times> CborEncoder \<times> ('fs, 'f, 'a) ctap_scheme) option" where
  "mc_create b MC rp_id_hash rp_id_lookup encoder w =
     (let (err, e, m) = cbor_encoder_create_map encoder 3
      in if err \<noteq> CborNoError then Some (CTAP2_ERR_INVALID_CBOR, e, w)
         else let (err, m) = enc_seq [\<lambda>e. cbor_encode_int e MC_Resp_fmt,
                    text_lit (if attestation_available w then ''packed'' else ''none'')] m
              in if err \<noteq> CborNoError then Some (CTAP2_ERR_INVALID_CBOR, e\<lparr>ce_buf := ce_buf m\<rparr>, w)
                 else do {
                   (r, auth_data_buf, auth_data_sz, w) \<leftarrow> ctap_make_auth_data b (mc_rp MC) rp_id_hash rp_id_lookup
                     (uninit AUTH_DATA_BUF_SIZE w) AUTH_DATA_BUF_SIZE (Some (mc_credInfo MC)) (mc_extensions MC) w;
                   if r \<noteq> CTAP2_OK then Some (r, e\<lparr>ce_buf := ce_buf m\<rparr>, w)
                   else mc_answer b MC e m auth_data_buf auth_data_sz (mc_clear_token (mc_pinProtocol MC) w) })"

definition ctap_make_credential ::
  "('fs, 'f, 'd, ('fs, 'f, 'a) ctap_scheme) board \<Rightarrow> CborEncoder \<Rightarrow> bytes \<Rightarrow> ('fs, 'f, 'a) ctap_scheme
     \<Rightarrow> (CtapError \<times> CborEncoder \<times> ('fs, 'f, 'a) ctap_scheme) option" where
  "ctap_make_credential b encoder request w = do {
     req \<leftarrow> parse_make_credential (parse_locals_of w) request;
     case req of
       Inl e \<Rightarrow> Some (e, encoder, w)
     | Inr MC \<Rightarrow>
         if mc_pinUvAuthParam_empty MC
         then do {
           (r, w) \<leftarrow> ctap2_user_presence_test (b_touch_bit b) w;
           Some (if r \<noteq> CTAP2_OK then r else if ctap_client_pin_is_set w then CTAP2_ERR_PIN_AUTH_INVALID
                 else CTAP2_ERR_PIN_NOT_SET, encoder, w) }
         else if mc_paramsParsed MC AND MC_requiredMask \<noteq> MC_requiredMask then Some (CTAP2_ERR_MISSING_PARAMETER, encoder, w)
         else do {
           (r, w) \<leftarrow> mc_authorize MC w;
           if r \<noteq> CTAP2_OK then Some (r, encoder, w)
           else if \<not> mc_up MC then Some (CTAP2_ERR_INVALID_OPTION, encoder, w)
           else do {
             (rp_id_hash, rp_id_lookup, w) \<leftarrow> ctap_derive_rp_id_info (take (rp_size (mc_rp MC)) (rp_id (mc_rp MC))) w;
             if ctap_client_pin_is_set w \<and> \<not> ctap_client_pin_verify_permissions_rp_id (mc_pinProtocol MC) rp_id_hash w
             then Some (CTAP2_ERR_PIN_AUTH_INVALID, encoder, w)
             else do {
               (r, w) \<leftarrow> exclude_loop b (pl_keytype (parse_locals_of w)) rp_id_hash rp_id_lookup (mc_pinProtocol MC)
                 (mc_excludeListSize MC) (mc_excludeList MC) \<lparr>cred_type = 0, cred_id = pl_cred_id (parse_locals_of w)\<rparr> w;
               if r \<noteq> CTAP2_OK then Some (r, encoder, w)
               else mc_create b MC rp_id_hash rp_id_lookup encoder w } } } }"

end
