(* ===== verification/Get_Info.thy ===== *)
theory Get_Info
  imports Ctap_Core
begin

text \<open>
  \<open>fido2/src/ctap_get_info.c\<close>: the description of the authenticator that the platform reads first. It depends
  on the state in one place only, whether a PIN is set.
\<close>

definition GI_Resp_versions :: u64 where "GI_Resp_versions = 0x01"
definition GI_Resp_extensions :: u64 where "GI_Resp_extensions = 0x02"
definition GI_Resp_aaguid :: u64 where "GI_Resp_aaguid = 0x03"
definition GI_Resp_options :: u64 where "GI_Resp_options = 0x04"
definition GI_Resp_maxMsgSize :: u64 where "GI_Resp_maxMsgSize = 0x05"
definition GI_Resp_pinUvAuthProtocols :: u64 where "GI_Resp_pinUvAuthProtocols = 0x06"
definition GI_Resp_maxCredentialCountInList :: u64 where "GI_Resp_maxCredentialCountInList = 0x07"
definition GI_Resp_maxCredentialIdLength :: u64 where "GI_Resp_maxCredentialIdLength = 0x08"
definition GI_Resp_transports :: u64 where "GI_Resp_transports = 0x09"
definition GI_Resp_algorithms :: u64 where "GI_Resp_algorithms = 0x0A"

definition CTAP_MAX_MESSAGE_SIZE :: u64 where "CTAP_MAX_MESSAGE_SIZE = 1200"
definition ALLOW_LIST_MAX_SIZE :: nat where "ALLOW_LIST_MAX_SIZE = 20"

lemmas get_info_consts = GI_Resp_versions_def GI_Resp_extensions_def GI_Resp_aaguid_def GI_Resp_options_def
  GI_Resp_maxMsgSize_def GI_Resp_pinUvAuthProtocols_def GI_Resp_maxCredentialCountInList_def
  GI_Resp_maxCredentialIdLength_def GI_Resp_transports_def GI_Resp_algorithms_def CTAP_MAX_MESSAGE_SIZE_def
  ALLOW_LIST_MAX_SIZE_def

definition gi_options :: "bool \<Rightarrow> enc_call list" where
  "gi_options pin_set =
     [text_lit ''rk'', \<lambda>e. cbor_encode_boolean e True,
      text_lit ''up'', \<lambda>e. cbor_encode_boolean e True,
      text_lit ''plat'', \<lambda>e. cbor_encode_boolean e False,
      text_lit ''credMgmt'', \<lambda>e. cbor_encode_boolean e True,
      text_lit ''clientPin'', \<lambda>e. cbor_encode_boolean e pin_set,
      text_lit ''pinUvAuthToken'', \<lambda>e. cbor_encode_boolean e True]"

definition gi_algorithm :: "u64 \<Rightarrow> enc_call" where
  "gi_algorithm n = enc_map 2 [text_lit ''alg'', \<lambda>e. cbor_encode_negative_int e n, text_lit ''type'', text_lit ''public-key'']"

definition gi_entries :: "bool \<Rightarrow> enc_call list" where
  "gi_entries pin_set =
     [\<lambda>e. cbor_encode_uint e GI_Resp_versions, enc_array 2 [text_lit ''FIDO_2_0'', text_lit ''FIDO_2_1''],
      \<lambda>e. cbor_encode_uint e GI_Resp_extensions, enc_array 2 [text_lit ''credProtect'', text_lit ''hmac-secret''],
      \<lambda>e. cbor_encode_uint e GI_Resp_aaguid, \<lambda>e. cbor_encode_byte_string e attestation_read_aaguid,
      \<lambda>e. cbor_encode_uint e GI_Resp_options, enc_map 6 (gi_options pin_set),
      \<lambda>e. cbor_encode_uint e GI_Resp_maxMsgSize, \<lambda>e. cbor_encode_int e CTAP_MAX_MESSAGE_SIZE,
      \<lambda>e. cbor_encode_uint e GI_Resp_pinUvAuthProtocols, enc_array 2 [\<lambda>e. cbor_encode_int e 1, \<lambda>e. cbor_encode_int e 2],
      \<lambda>e. cbor_encode_uint e GI_Resp_maxCredentialCountInList, \<lambda>e. cbor_encode_uint e (of_nat ALLOW_LIST_MAX_SIZE),
      \<lambda>e. cbor_encode_uint e GI_Resp_maxCredentialIdLength, \<lambda>e. cbor_encode_uint e 128,
      \<lambda>e. cbor_encode_uint e GI_Resp_transports, enc_array 1 [text_lit ''usb''],
      \<lambda>e. cbor_encode_uint e GI_Resp_algorithms, enc_array 2 [gi_algorithm 8, gi_algorithm 7]]"

definition ctap_get_info :: "CborEncoder \<Rightarrow> ('fs, 'f, 'a) cpin_scheme \<Rightarrow> CtapError \<times> CborEncoder" where
  "ctap_get_info encoder w =
     (let (err, e) = enc_map 10 (gi_entries (ctap_client_pin_is_set w)) encoder in (cbor_status err, e))"

end
