(* ===== verification/Ctap_Reset.thy ===== *)
theory Ctap_Reset
  imports Ctap_Core
begin

text \<open>
  \<open>fido2/src/ctap_reset.c\<close>: forgetting everything. The reset is only allowed in the first ten seconds after
  power-up (in a release build, where \<open>DEBUG_LEVEL\<close> is 0) and after a touch.
\<close>

definition AUTHENTICATOR_RESET_TIME_MS :: u32 where "AUTHENTICATOR_RESET_TIME_MS = 10000"

definition hmac_secret_zero :: CTAP_hmac_secret where
  "hmac_secret_zero = \<lparr>saltLen = 0, saltEnc = replicate 64 0, saltAuth = replicate 32 0,
     hs_keyAgreement = \<lparr>cose_x = replicate 32 0, cose_y = replicate 32 0, cose_kty = 0, cose_crv = 0\<rparr>, hs_credential = None\<rparr>"

definition descriptor_zero :: stored_descriptor where
  "descriptor_zero = \<lparr>sd_desc = \<lparr>cred_type = 0, cred_id = replicate sizeof_CredentialId 0\<rparr>, sd_user = replicate 162 0\<rparr>"

definition getAssertionState_zero :: getAssertionState_t where
  "getAssertionState_zero = \<lparr>ga_authData = replicate sizeof_authDataHeader 0, ga_ext_buf = replicate 80 0,
     ga_extensions = \<lparr>hmac_secret_present = 0, hmac_secret = hmac_secret_zero, cred_protect = 0\<rparr>,
     ga_clientDataHash = replicate CLIENT_DATA_HASH_SIZE 0, ga_creds = replicate 20 descriptor_zero, ga_lastcmd = 0,
     ga_count = 0, ga_index = 0, ga_time = 0, ga_user_verified = 0\<rparr>"

definition ctap_reset_state :: "('fs, 'f, 'a) ctap_scheme \<Rightarrow> ('fs, 'f, 'a) ctap_scheme" where
  "ctap_reset_state w = w\<lparr>getAssertionState := getAssertionState_zero\<rparr>"

definition ctap_reset ::
  "('fs, 'f, 'd, ('fs, 'f, 'a) ctap_scheme) board \<Rightarrow> ('fs, 'f, 'a) ctap_scheme
     \<Rightarrow> (CtapError \<times> ('fs, 'f, 'a) ctap_scheme) option" where
  "ctap_reset b w = do {
     (now, w) \<leftarrow> millis w;
     if now > AUTHENTICATOR_RESET_TIME_MS then Some (CTAP2_ERR_NOT_ALLOWED, w)
     else do {
       (r, w) \<leftarrow> ctap2_user_presence_test (b_touch_bit b) w;
       if r \<noteq> CTAP2_OK then Some (r, w)
       else do {
         w \<leftarrow> ctap_state_init (b_lfs b) w;
         w \<leftarrow> authenticator_write_state (b_lfs b) (STATE w) w;
         let w = ctap_reset_state w;
         w \<leftarrow> ctap_client_pin_initialize w;
         w \<leftarrow> crypto_derive_session_keys (take STATE_KEY_SALT_BYTES (key_salt (STATE w))) w;
         Some (CTAP2_OK, w) } } }"

end
