(* ===== verification/Qsort.thy ===== *)
theory Qsort
  imports Prelude
begin

text \<open>
  \<open>targets/tkey/libc/newlib/libc/search/qsort.c\<close>: the sorting routine that \<open>getAssertion\<close> calls. The array is a list, a
  pointer into it an index, and sizes are counted in elements, so that \<open>swap\<close> and \<open>vecswap\<close>, which copy bytes or words,
  exchange elements. The parameter stack is a list with the top first; \<open>goto loop\<close> and \<open>goto pop\<close> are calls of
  \<open>qsort_loop\<close>.
\<close>

definition swap :: "nat \<Rightarrow> nat \<Rightarrow> 'a list \<Rightarrow> 'a list" where
  "swap i j xs = xs[i := xs ! j, j := xs ! i]"

fun vecswap :: "nat \<Rightarrow> nat \<Rightarrow> nat \<Rightarrow> 'a list \<Rightarrow> 'a list" where
  "vecswap i j 0 xs = xs"
| "vecswap i j (Suc r) xs = vecswap (Suc i) (Suc j) r (swap i j xs)"

definition med3 :: "('a \<Rightarrow> 'a \<Rightarrow> int) \<Rightarrow> 'a list \<Rightarrow> nat \<Rightarrow> nat \<Rightarrow> nat \<Rightarrow> nat" where
  "med3 cmp xs a b c =
     (if cmp (xs ! a) (xs ! b) < 0
      then if cmp (xs ! b) (xs ! c) < 0 then b else if cmp (xs ! a) (xs ! c) < 0 then c else a
      else if cmp (xs ! b) (xs ! c) > 0 then b else if cmp (xs ! a) (xs ! c) < 0 then a else c)"

section \<open>Insertion sort\<close>

fun insert_down :: "('a \<Rightarrow> 'a \<Rightarrow> int) \<Rightarrow> nat \<Rightarrow> nat \<Rightarrow> 'a list \<Rightarrow> 'a list" where
  "insert_down cmp a pl xs =
     (if pl > a \<and> cmp (xs ! (pl - 1)) (xs ! pl) > 0 then insert_down cmp a (pl - 1) (swap pl (pl - 1) xs) else xs)"

declare insert_down.simps [simp del]

function insertion_sort :: "('a \<Rightarrow> 'a \<Rightarrow> int) \<Rightarrow> nat \<Rightarrow> nat \<Rightarrow> nat \<Rightarrow> 'a list \<Rightarrow> 'a list" where
  "insertion_sort cmp a e pm xs = (if pm < e then insertion_sort cmp a e (Suc pm) (insert_down cmp a pm xs) else xs)"
  by pat_completeness auto
termination by (relation "measure (\<lambda>(cmp, a, e, pm, xs). e - pm)") auto

declare insertion_sort.simps [simp del]

section \<open>Partition\<close>

definition PARAMETER_STACK_LEVELS :: nat where "PARAMETER_STACK_LEVELS = 8"

definition choose_pivot :: "('a \<Rightarrow> 'a \<Rightarrow> int) \<Rightarrow> nat \<Rightarrow> nat \<Rightarrow> 'a list \<Rightarrow> nat" where
  "choose_pivot cmp a n xs =
     (let pm = a + n div 2
      in if n > 7
         then let pl = a; pn = a + (n - 1);
                  (pl, pm, pn) = (if n > 40
                    then let d = n div 8
                         in (med3 cmp xs pl (pl + d) (pl + 2 * d), med3 cmp xs (pm - d) pm (pm + d), med3 cmp xs (pn - 2 * d) (pn - d) pn)
                    else (pl, pm, pn))
              in med3 cmp xs pl pm pn
         else pm)"

text \<open>The two scans; the flag is \<open>swap_cnt\<close>. The position \<open>pb\<close> lies behind \<open>a\<close>, so the first test of the second scan always
  holds; it makes the recursion end for all arguments.\<close>

function scan_left ::
  "('a \<Rightarrow> 'a \<Rightarrow> int) \<Rightarrow> nat \<Rightarrow> nat \<Rightarrow> nat \<Rightarrow> nat \<Rightarrow> bool \<Rightarrow> 'a list \<Rightarrow> nat \<times> nat \<times> bool \<times> 'a list" where
  "scan_left cmp a pa pb pc swapped xs =
     (if pb \<le> pc \<and> cmp (xs ! pb) (xs ! a) \<le> 0
      then if cmp (xs ! pb) (xs ! a) = 0 then scan_left cmp a (Suc pa) (Suc pb) pc True (swap pa pb xs)
           else scan_left cmp a pa (Suc pb) pc swapped xs
      else (pa, pb, swapped, xs))"
  by pat_completeness auto
termination by (relation "measure (\<lambda>(cmp, a, pa, pb, pc, s, xs). Suc pc - pb)") auto

function scan_right ::
  "('a \<Rightarrow> 'a \<Rightarrow> int) \<Rightarrow> nat \<Rightarrow> nat \<Rightarrow> nat \<Rightarrow> nat \<Rightarrow> bool \<Rightarrow> 'a list \<Rightarrow> nat \<times> nat \<times> bool \<times> 'a list" where
  "scan_right cmp a pb pc pd swapped xs =
     (if 0 < pb \<and> pb \<le> pc \<and> cmp (xs ! pc) (xs ! a) \<ge> 0
      then if cmp (xs ! pc) (xs ! a) = 0 then scan_right cmp a pb (pc - 1) (pd - 1) True (swap pc pd xs)
           else scan_right cmp a pb (pc - 1) pd swapped xs
      else (pc, pd, swapped, xs))"
  by pat_completeness auto
termination by (relation "measure (\<lambda>(cmp, a, pb, pc, pd, s, xs). pc)") auto

declare scan_left.simps [simp del] scan_right.simps [simp del]

lemma scan_left_pb: "pb \<le> fst (snd (scan_left cmp a pa pb pc s xs))"
  by (induction cmp a pa pb pc s xs rule: scan_left.induct) (subst scan_left.simps, auto)

lemma scan_right_pc: "fst (scan_right cmp a pb pc pd s xs) \<le> pc"
  by (induction cmp a pb pc pd s xs rule: scan_right.induct) (subst scan_right.simps, auto)

text \<open>The loop around the scans; the result is the four positions, the flag and the array.\<close>

function partition_loop ::
  "('a \<Rightarrow> 'a \<Rightarrow> int) \<Rightarrow> nat \<Rightarrow> nat \<Rightarrow> nat \<Rightarrow> nat \<Rightarrow> nat \<Rightarrow> bool \<Rightarrow> 'a list \<Rightarrow> nat \<times> nat \<times> nat \<times> nat \<times> bool \<times> 'a list" where
  "partition_loop cmp a pa pb pc pd swapped xs =
     (let (pa', pb', swapped', xs') = scan_left cmp a pa pb pc swapped xs;
          (pc', pd', swapped'', xs'') = scan_right cmp a pb' pc pd swapped' xs'
      in if pb' > pc' then (pa', pb', pc', pd', swapped'', xs'')
         else partition_loop cmp a pa' (Suc pb') (pc' - 1) pd' True (swap pb' pc' xs''))"
  by pat_completeness auto
termination
proof (relation "measure (\<lambda>(cmp, a, pa, pb, pc, pd, s, xs). Suc pc - pb)", simp, goal_cases)
  case (1 cmp a pa pb pc pd s xs l1 pa' r1 pb' r2 s' xs' l2 pc' r3 pd' r4 s'' xs'')
  then have "pb \<le> pb'" "pc' \<le> pc" "pb' \<le> pc'"
    using scan_left_pb [of pb cmp a pa pc s xs] scan_right_pc [of cmp a pb' pc pd s' xs'] by (metis fst_conv snd_conv, metis fst_conv, simp)
  then show ?case by simp
qed

declare partition_loop.simps [simp del]

section \<open>Sorting\<close>

text \<open>One pass over the elements from \<open>a\<close> on: either they are sorted by insertion, or they are rearranged around the pivot, with the base
  and the size of the larger and of the smaller part.\<close>

definition qsort_pass ::
  "('a \<Rightarrow> 'a \<Rightarrow> int) \<Rightarrow> nat \<Rightarrow> nat \<Rightarrow> 'a list \<Rightarrow> 'a list \<times> ((nat \<times> nat) \<times> nat \<times> nat) option" where
  "qsort_pass cmp a n xs =
     (if n < 7 then (insertion_sort cmp a (a + n) (a + 1) xs, None)
      else
        let xs = swap a (choose_pivot cmp a n xs) xs;
            (pa, pb, pc, pd, swapped, xs) = partition_loop cmp a (a + 1) (a + 1) (a + (n - 1)) (a + (n - 1)) False xs
        in if \<not> swapped then (insertion_sort cmp a (a + n) (a + 1) xs, None)
           else
             let pn = a + n;
                 r = min (pa - a) (pb - pa);
                 xs = vecswap a (pb - r) r xs;
                 r = min (pd - pc) (pn - pd - 1);
                 xs = vecswap pb (pn - r) r xs;
                 d = pb - pa;
                 r = pd - pc;
                 pn = pn - r
             in (xs, Some (if r > d then ((pn, r), (a, d)) else ((a, d), (pn, r)))))"

text \<open>Where the positions end, whatever the comparison answers.\<close>

lemma scan_left_bounds:
  "pa \<le> pb \<Longrightarrow> pb \<le> Suc pc \<Longrightarrow> scan_left cmp a pa pb pc s xs = (pa', pb', s', xs') \<Longrightarrow> pa \<le> pa' \<and> pa' \<le> pb' \<and> pb \<le> pb' \<and> pb' \<le> Suc pc"
proof (induction cmp a pa pb pc s xs rule: scan_left.induct)
  case (1 cmp a pa pb pc s xs)
  then show ?case using scan_left.simps [of cmp a pa pb pc s xs] by (auto split: if_splits)
qed

lemma scan_right_bounds:
  "0 < pb \<Longrightarrow> pb \<le> Suc pc \<Longrightarrow> pc \<le> pd \<Longrightarrow> scan_right cmp a pb pc pd s xs = (pc', pd', s', xs') \<Longrightarrow> pb \<le> Suc pc' \<and> pc' \<le> pc \<and> pc' \<le> pd' \<and> pd' \<le> pd"
proof (induction cmp a pb pc pd s xs rule: scan_right.induct)
  case (1 cmp a pb pc pd s xs)
  then show ?case using scan_right.simps [of cmp a pb pc pd s xs] by (force split: if_splits)
qed

text \<open>Where the scans stop: at elements that are strictly on the wrong side.\<close>

lemma scan_left_stop:
  "scan_left cmp a pa pb pc s xs = (pa', pb', s', xs') \<Longrightarrow> pc < pb' \<or> 0 < cmp (xs' ! pb') (xs' ! a)"
proof (induction cmp a pa pb pc s xs rule: scan_left.induct)
  case (1 cmp a pa pb pc s xs)
  then show ?case using scan_left.simps [of cmp a pa pb pc s xs] by (auto split: if_splits)
qed

lemma scan_right_stop:
  "0 < pb \<Longrightarrow> scan_right cmp a pb pc pd s xs = (pc', pd', s', xs') \<Longrightarrow> pc' < pb \<or> cmp (xs' ! pc') (xs' ! a) < 0"
proof (induction cmp a pb pc pd s xs rule: scan_right.induct)
  case (1 cmp a pb pc pd s xs)
  then show ?case using scan_right.simps [of cmp a pb pc pd s xs] by (auto split: if_splits)
qed

lemma scan_right_keeps:
  "0 < pb \<Longrightarrow> pb \<le> Suc pc \<Longrightarrow> pc \<le> pd \<Longrightarrow> scan_right cmp a pb pc pd s xs = (pc', pd', s', xs') \<Longrightarrow> k \<le> pc' \<Longrightarrow> xs' ! k = xs ! k"
proof (induction cmp a pb pc pd s xs rule: scan_right.induct)
  case (1 cmp a pb pc pd s xs)
  show ?case
  proof (cases "pb \<le> pc \<and> cmp (xs ! pc) (xs ! a) \<ge> 0")
    case True
    have "pc' \<le> pc - 1"
      using True 1(3-6) scan_right.simps [of cmp a pb pc pd s xs] scan_right_pc [of cmp a pb "pc - 1" "pd - 1" True "swap pc pd xs"]
        scan_right_pc [of cmp a pb "pc - 1" pd s xs] by (auto split: if_splits)
    then have "k \<noteq> pc" "k \<noteq> pd" using True 1(3,5,7) by linarith+
    then have "swap pc pd xs ! k = xs ! k" by (simp add: swap_def)
    then show ?thesis
      using True 1 scan_right.simps [of cmp a pb pc pd s xs] by (cases "cmp (xs ! pc) (xs ! a) = 0") fastforce+
  next
    case False
    then show ?thesis using 1(3,6) scan_right.simps [of cmp a pb pc pd s xs] by (auto split: if_splits)
  qed
qed

lemma scans_cross:
  assumes "scan_left cmp a pa pb pc s xs = (pa1, pb1, s1, xs1)" "scan_right cmp a pb1 pc pd s1 xs1 = (pc1, pd1, s2, xs2)"
    "a < pb1" "pb1 \<le> Suc pc" "pc \<le> pd" "pb1 \<le> pc1"
  shows "pb1 < pc1"
proof (rule ccontr)
  assume "\<not> pb1 < pc1"
  then have e: "pc1 = pb1" using assms(6) by simp
  have k: "xs2 ! k = xs1 ! k" if "k \<le> pc1" for k by (rule scan_right_keeps [OF _ assms(4,5,2) that]) (use assms(3) in simp)
  have "pc1 \<le> pc" using scan_right_pc [of cmp a pb1 pc pd s1 xs1] assms(2) by simp
  then have "0 < cmp (xs1 ! pb1) (xs1 ! a)" using scan_left_stop [OF assms(1)] e by auto
  moreover have "cmp (xs2 ! pc1) (xs2 ! a) < 0" using scan_right_stop [OF _ assms(2)] assms(3) e by auto
  ultimately show False using k [of pc1] k [of a] e assms(3) by simp
qed

lemma partition_bounds:
  "a < pb \<Longrightarrow> pa \<le> pb \<Longrightarrow> pb \<le> Suc pc \<Longrightarrow> pc \<le> pd \<Longrightarrow> partition_loop cmp a pa pb pc pd s xs = (pa', pb', pc', pd', s', xs') \<Longrightarrow>
   pa \<le> pa' \<and> pa' \<le> pb' \<and> pb' = Suc pc' \<and> pc' \<le> pd' \<and> pd' \<le> pd"
proof (induction cmp a pa pb pc pd s xs rule: partition_loop.induct)
  case (1 cmp a pa pb pc pd s xs)
  obtain pa1 pb1 s1 xs1 where l: "scan_left cmp a pa pb pc s xs = (pa1, pb1, s1, xs1)" using prod_cases4 by blast
  obtain pc1 pd1 s2 xs2 where r: "scan_right cmp a pb1 pc pd s1 xs1 = (pc1, pd1, s2, xs2)" using prod_cases4 by blast
  have b: "pa \<le> pa1 \<and> pa1 \<le> pb1 \<and> pb \<le> pb1 \<and> pb1 \<le> Suc pc" by (rule scan_left_bounds [OF 1(3,4) l])
  then have c: "pb1 \<le> Suc pc1 \<and> pc1 \<le> pc \<and> pc1 \<le> pd1 \<and> pd1 \<le> pd" using scan_right_bounds [OF _ _ 1(5) r] 1(2) by linarith
  have x: "pb1 < pc1" if "pb1 \<le> pc1" by (rule scans_cross [OF l r]) (use that b c 1(2,5) in auto)
  show ?case
  proof (cases "pb1 > pc1")
    case True
    then show ?thesis using 1(6) l r b c by (subst (asm) partition_loop.simps) auto
  next
    case False
    have "partition_loop cmp a pa1 (Suc pb1) (pc1 - 1) pd1 True (swap pb1 pc1 xs2) = (pa', pb', pc', pd', s', xs')"
      using 1(6) l r False by (subst (asm) partition_loop.simps) simp
    then have "pa1 \<le> pa' \<and> pa' \<le> pb' \<and> pb' = Suc pc' \<and> pc' \<le> pd' \<and> pd' \<le> pd1"
      using "1.IH" [OF l [symmetric] refl refl refl r [symmetric] refl refl refl False] b c False x 1(2) by linarith
    then show ?thesis using b c by linarith
  qed
qed

lemma qsort_pass_smaller:
  assumes "qsort_pass cmp a n xs = (ys, Some ((a', n'), pa, r))"
  shows "n' + r < n"
proof -
  obtain pa1 pb pc pd s zs where p: "partition_loop cmp a (a + 1) (a + 1) (a + (n - 1)) (a + (n - 1)) False (swap a (choose_pivot cmp a n xs) xs)
    = (pa1, pb, pc, pd, s, zs)" using prod_cases6 by blast
  have n: "\<not> n < 7" using assms by (auto simp: qsort_pass_def)
  have b: "a + 1 \<le> pa1 \<and> pa1 \<le> pb \<and> pb = Suc pc \<and> pc \<le> pd \<and> pd \<le> a + (n - 1)"
    by (rule partition_bounds [OF _ _ _ _ p]) (use n in auto)
  have "n' + r = (pb - pa1) + (pd - pc)"
    using assms n p by (auto simp: qsort_pass_def Let_def split: if_splits)
  then show ?thesis using b n by linarith
qed

definition stack_size :: "(nat \<times> nat) list \<Rightarrow> nat" where
  "stack_size stk = sum_list (map (\<lambda>(a, n). 2 * n + 1) stk)"

lemma stack_size_simps [simp]: "stack_size [] = 0" "stack_size ((a, n) # stk) = 2 * n + 1 + stack_size stk"
  by (simp_all add: stack_size_def)

text \<open>The list is the parameter stack. When it is full, the smaller part is sorted by a call with a stack of its own.\<close>

function qsort_loop :: "('a \<Rightarrow> 'a \<Rightarrow> int) \<Rightarrow> (nat \<times> nat) list \<Rightarrow> nat \<Rightarrow> nat \<Rightarrow> 'a list \<Rightarrow> 'a list" where
  "qsort_loop cmp stk a n xs =
     (let (ys, parts) = qsort_pass cmp a n xs
      in case parts of
           None \<Rightarrow> (case stk of [] \<Rightarrow> ys | (a', n') # stk' \<Rightarrow> qsort_loop cmp stk' a' n' ys)
         | Some ((a', n'), (pa, r)) \<Rightarrow>
             if r > 1 \<and> length stk < PARAMETER_STACK_LEVELS then qsort_loop cmp ((a', n') # stk) pa r ys
             else
               let zs = (if r > 1 then qsort_loop cmp [] pa r ys else ys)
               in if n' > 1 then qsort_loop cmp stk a' n' zs
                  else case stk of [] \<Rightarrow> zs | (a', n') # stk' \<Rightarrow> qsort_loop cmp stk' a' n' zs)"
  by pat_completeness auto
termination
  by (relation "measure (\<lambda>(cmp, stk, a, n, xs). stack_size stk + (2 * n + 1))")
    (auto dest!: qsort_pass_smaller [OF sym])

declare qsort_loop.simps [simp del]

definition qsort :: "('a \<Rightarrow> 'a \<Rightarrow> int) \<Rightarrow> 'a list \<Rightarrow> 'a list" where
  "qsort cmp xs = qsort_loop cmp [] 0 (length xs) xs"

end
