(* ===== verification/Get_Assertion.thy ===== *)
theory Get_Assertion
  imports Make_Credential Get_Info Ctap_Reset Qsort
begin

text \<open>
  \<open>fido2/src/ctap_get_assertion.c\<close> and \<open>ctap_get_next_assertion.c\<close>: signing a challenge with a credential. The
  request's credentials are parsed into the array of \<open>getAssertionState\<close>, so the array is part of the
  parsed request and is written back on every path, errors included.
\<close>

section \<open>The request\<close>

definition GA_Cmd_rpId :: int where "GA_Cmd_rpId = 0x01"
definition GA_Cmd_clientDataHash :: int where "GA_Cmd_clientDataHash = 0x02"
definition GA_Cmd_allowList :: int where "GA_Cmd_allowList = 0x03"
definition GA_Cmd_extensions :: int where "GA_Cmd_extensions = 0x04"
definition GA_Cmd_options :: int where "GA_Cmd_options = 0x05"
definition GA_Cmd_pinUvAuthParam :: int where "GA_Cmd_pinUvAuthParam = 0x06"
definition GA_Cmd_pinUvAuthProtocol :: int where "GA_Cmd_pinUvAuthProtocol = 0x07"

definition GA_Resp_credential :: u64 where "GA_Resp_credential = 0x01"
definition GA_Resp_signature :: u64 where "GA_Resp_signature = 0x03"
definition GA_Resp_user :: u64 where "GA_Resp_user = 0x04"
definition GA_Resp_numberOfCredentials :: u64 where "GA_Resp_numberOfCredentials = 0x05"

text \<open>The option \<open>up\<close> is 0xff when it was not given, 0 or 1 otherwise; only whether it is zero is ever
  looked at. The options \<open>rk\<close> and \<open>uv\<close> and the flag \<open>allowListPresent\<close> are not looked at.\<close>

record CTAP_getAssertion =
  gr_clientDataHash :: bytes
  gr_clientDataHashPresent :: bool
  gr_rp :: rpId
  gr_credLen :: nat
  gr_creds :: "stored_descriptor list"
  gr_options :: ctap_options
  gr_pinUvAuthParam :: bytes
  gr_pinUvAuthParam_len :: byte
  gr_pinUvAuthParam_empty :: bool
  gr_pinProtocol :: byte
  gr_extensions :: CTAP_extensions

definition getAssertion_start :: "stored_descriptor list \<Rightarrow> CTAP_getAssertion" where
  "getAssertion_start creds = \<lparr>gr_clientDataHash = replicate CLIENT_DATA_HASH_SIZE 0, gr_clientDataHashPresent = False,
     gr_rp = \<lparr>rp_id = replicate (DOMAIN_NAME_MAX_SIZE + 1) 0, rp_size = 0, rp_name = replicate RP_NAME_LIMIT 0\<rparr>,
     gr_credLen = 0, gr_creds = creds, gr_options = \<lparr>opt_rk = False, opt_uv = False, opt_up = True\<rparr>,
     gr_pinUvAuthParam = replicate PIN_UV_AUTH_PARAM_MAX_SIZE 0, gr_pinUvAuthParam_len = 0,
     gr_pinUvAuthParam_empty = False, gr_pinProtocol = 0, gr_extensions = extensions_zero\<rparr>"

text \<open>A step of the parser: the status, or \<open>None\<close> when the step does not set the variable, and the request.\<close>

definition ga_step :: "'a pres \<Rightarrow> ('a \<Rightarrow> CTAP_getAssertion) \<Rightarrow> CTAP_getAssertion \<Rightarrow> (CtapError option \<times> CTAP_getAssertion) option" where
  "ga_step r f GA = do { x \<leftarrow> r; Some (case x of Inl e \<Rightarrow> (Some e, GA) | Inr a \<Rightarrow> (Some CTAP2_OK, f a)) }"

text \<open>What the parser of a descriptor has stored when it returns an error: the id, if it got so far, and the type
  that follows from its length.\<close>

definition descriptor_left :: "CborValue \<Rightarrow> CTAP_credentialDescriptor \<Rightarrow> CTAP_credentialDescriptor option" where
  "descriptor_left arr cred =
     (let cred = cred\<lparr>cred_type := 0\<rparr>
      in if cbor_value_get_type arr \<noteq> CborMapType then Some cred
         else do {
           (err, val) \<leftarrow> cbor_value_map_find_value arr (butlast (c_string ''id''));
           if err \<noteq> CborNoError \<or> cbor_value_get_type val \<noteq> CborByteStringType then Some cred
           else do {
             (err, sz) \<leftarrow> cbor_value_calculate_string_length val;
             if err \<noteq> CborNoError then Some cred
             else do {
               (err, b, buflen) \<leftarrow> cbor_value_copy_byte_string val (cred_id cred) sizeof_CredentialId;
               let cred = cred\<lparr>cred_id := b\<rparr>;
               Some (if buflen = U2F_KEY_HANDLE_SIZE then cred\<lparr>cred_type := PUB_KEY_CRED_CTAP1\<rparr> else cred) } } })"

fun allow_list_loop ::
  "bytes \<Rightarrow> nat \<Rightarrow> nat \<Rightarrow> CborValue \<Rightarrow> CTAP_getAssertion \<Rightarrow> (CtapError option \<times> CTAP_getAssertion) option"
where
  "allow_list_loop keytype i 0 arr GA = Some (Some CTAP2_OK, GA)"
| "allow_list_loop keytype i (Suc n) arr GA =
     (if i \<ge> ALLOW_LIST_MAX_SIZE then Some (Some CTAP2_ERR_LIMIT_EXCEEDED, GA)
      else do {
        let GA = GA\<lparr>gr_credLen := gr_credLen GA + 1, gr_creds := (gr_creds GA)[i := descriptor_zero]\<rparr>;
        r \<leftarrow> ctap_parse_pubkey_credential_descriptor keytype arr (sd_desc descriptor_zero);
        case r of
          Inl e \<Rightarrow> do {
            desc \<leftarrow> descriptor_left arr (sd_desc descriptor_zero);
            Some (Some e, GA\<lparr>gr_creds := (gr_creds GA)[i := descriptor_zero\<lparr>sd_desc := desc\<rparr>]\<rparr>) }
        | Inr desc \<Rightarrow> do {
            let GA = GA\<lparr>gr_creds := (gr_creds GA)[i := descriptor_zero\<lparr>sd_desc := desc\<rparr>]\<rparr>;
            (err, arr) \<leftarrow> cbor_value_advance arr;
            if err \<noteq> CborNoError then Some (Some CTAP2_ERR_INVALID_CBOR, GA)
            else allow_list_loop keytype (i + 1) n arr GA } })"

definition parse_allow_list_credentials ::
  "bytes \<Rightarrow> CborValue \<Rightarrow> CTAP_getAssertion \<Rightarrow> (CtapError option \<times> CTAP_getAssertion) option" where
  "parse_allow_list_credentials keytype it GA =
     (if cbor_value_get_type it \<noteq> CborArrayType then Some (Some CTAP2_ERR_INVALID_CBOR, GA)
      else do {
        (err, arr) \<leftarrow> cbor_value_enter_container it;
        if err \<noteq> CborNoError then Some (Some CTAP2_ERR_INVALID_CBOR, GA)
        else do {
          (err, len) \<leftarrow> cbor_value_get_array_length it;
          if err \<noteq> CborNoError then Some (Some CTAP2_ERR_INVALID_CBOR, GA)
          else allow_list_loop keytype 0 len arr (GA\<lparr>gr_credLen := 0\<rparr>) } })"

definition get_assertion_body ::
  "parse_locals \<Rightarrow> int \<Rightarrow> CborValue \<Rightarrow> CTAP_getAssertion \<Rightarrow> (CtapError option \<times> CTAP_getAssertion) option" where
  "get_assertion_body pl key it GA =
     (if key = GA_Cmd_clientDataHash
      then ga_step (ctap_parse_fixed_length_byte_string it (gr_clientDataHash GA) CLIENT_DATA_HASH_SIZE)
             (\<lambda>h. GA\<lparr>gr_clientDataHash := h, gr_clientDataHashPresent := True\<rparr>) GA
      else if key = GA_Cmd_rpId then ga_step (ctap_parse_rp_id (gr_rp GA) it) (\<lambda>rp. GA\<lparr>gr_rp := rp\<rparr>) GA
      else if key = GA_Cmd_allowList then parse_allow_list_credentials (pl_keytype pl) it GA
      else if key = GA_Cmd_extensions
      then ga_step (ctap_extensions_parse_input (pl_ext_key pl) it (gr_extensions GA) REQ_TYPE_GA)
             (\<lambda>x. GA\<lparr>gr_extensions := x\<rparr>) GA
      else if key = GA_Cmd_options
      then ga_step (ctap_parse_options (pl_opt_key pl) it (gr_options GA)) (\<lambda>x. GA\<lparr>gr_options := x\<rparr>) GA
      else if key = GA_Cmd_pinUvAuthParam
      then ga_step (ctap_parse_pinUvAuthParam it (gr_pinUvAuthParam_empty GA) (gr_pinUvAuthParam GA))
             (\<lambda>(emp, b, len). GA\<lparr>gr_pinUvAuthParam_empty := emp, gr_pinUvAuthParam := b, gr_pinUvAuthParam_len := len\<rparr>) GA
      else if key = GA_Cmd_pinUvAuthProtocol
      then do {
        r \<leftarrow> parse_int it;
        Some (case r of
            Inl e \<Rightarrow> (Some e, GA)
          | Inr tmp \<Rightarrow> if tmp < 0 \<or> tmp > 255 then (Some CTAP2_ERR_INVALID_CBOR, GA)
                       else (None, GA\<lparr>gr_pinProtocol := of_int tmp\<rparr>)) }
      else Some (None, GA))"

text \<open>The variable \<open>ctap_ret\<close> is not initialised and not set by every key, but tested after every key.\<close>

fun get_assertion_loop ::
  "parse_locals \<Rightarrow> CtapError \<Rightarrow> nat \<Rightarrow> CborValue \<Rightarrow> CTAP_getAssertion \<Rightarrow> (CtapError \<times> CTAP_getAssertion) option"
where
  "get_assertion_loop pl ctap_ret 0 it GA = Some (CTAP2_OK, GA)"
| "get_assertion_loop pl ctap_ret (Suc n) it GA =
     (if cbor_value_get_type it \<noteq> CborIntegerType then Some (CTAP2_ERR_INVALID_CBOR, GA)
      else do {
        (err, key) \<leftarrow> cbor_value_get_int_checked it;
        if err \<noteq> CborNoError then Some (CTAP2_ERR_INVALID_CBOR, GA)
        else do {
          (err, it) \<leftarrow> cbor_value_advance it;
          if err \<noteq> CborNoError then Some (CTAP2_ERR_INVALID_CBOR, GA)
          else do {
            (r, GA) \<leftarrow> get_assertion_body pl key it GA;
            let ctap_ret = (case r of None \<Rightarrow> ctap_ret | Some e \<Rightarrow> e);
            if ctap_ret \<noteq> CTAP2_OK then Some (ctap_ret, GA)
            else do {
              (err, it) \<leftarrow> cbor_value_advance it;
              if err \<noteq> CborNoError then Some (CTAP2_ERR_INVALID_CBOR, GA)
              else get_assertion_loop pl ctap_ret n it GA } } } })"

definition parse_get_assertion_request ::
  "parse_locals \<Rightarrow> CtapError \<Rightarrow> bytes \<Rightarrow> stored_descriptor list \<Rightarrow> (CtapError \<times> CTAP_getAssertion) option" where
  "parse_get_assertion_request pl ctap_ret request creds = do {
     let GA = getAssertion_start creds;
     (err, it) \<leftarrow> cbor_parser_init request;
     if err \<noteq> CborNoError then Some (CTAP2_ERR_INVALID_CBOR, GA)
     else if cbor_value_get_type it \<noteq> CborMapType then Some (CTAP2_ERR_INVALID_CBOR, GA)
     else do {
       (err, m) \<leftarrow> cbor_value_enter_container it;
       if err \<noteq> CborNoError then Some (CTAP2_ERR_INVALID_CBOR, GA)
       else do {
         (err, n) \<leftarrow> cbor_value_get_map_length it;
         if err \<noteq> CborNoError then Some (CTAP2_ERR_INVALID_CBOR, GA)
         else get_assertion_loop pl ctap_ret n m GA } } }"

text \<open>The status a variable that is not initialised holds. Bytes that are no status stand for
  \<open>CTAP1_ERR_OTHER\<close> here.\<close>

definition uninit_status :: "('fs, 'f, 'a) dev_scheme \<Rightarrow> CtapError" where
  "uninit_status w =
     (case find (\<lambda>e. ctap_error_code e = uninit 1 w ! 0) ctap_errors of None \<Rightarrow> CTAP1_ERR_OTHER | Some e \<Rightarrow> e)"

section \<open>The credentials of the request\<close>

definition ga_set :: "(getAssertionState_t \<Rightarrow> getAssertionState_t) \<Rightarrow> ('fs, 'f, 'a) ctap_scheme \<Rightarrow> ('fs, 'f, 'a) ctap_scheme" where
  "ga_set f w = w\<lparr>getAssertionState := f (getAssertionState w)\<rparr>"

abbreviation ga_cred :: "nat \<Rightarrow> ('fs, 'f, 'a) ctap_scheme \<Rightarrow> stored_descriptor" where
  "ga_cred i w \<equiv> ga_creds (getAssertionState w) ! i"

definition ga_put_cred :: "nat \<Rightarrow> stored_descriptor \<Rightarrow> ('fs, 'f, 'a) ctap_scheme \<Rightarrow> ('fs, 'f, 'a) ctap_scheme" where
  "ga_put_cred i c w = ga_set (\<lambda>g. g\<lparr>ga_creds := (ga_creds g)[i := c]\<rparr>) w"

definition invalidate :: "stored_descriptor \<Rightarrow> stored_descriptor" where
  "invalidate c = c\<lparr>sd_desc := (sd_desc c)\<lparr>cred_id := blit (cred_id (sd_desc c)) 37 (le32 0)\<rparr>\<rparr>"

text \<open>The loop over the allow list: the result is the number of valid credentials and the length of the list,
  which a valid credential sets to its own position.\<close>

function allow_list_filter ::
  "('fs, 'f, 'd) lfs_lib \<Rightarrow> bytes \<Rightarrow> bytes \<Rightarrow> nat \<Rightarrow> nat \<Rightarrow> nat \<Rightarrow> ('fs, 'f, 'a) ctap_scheme
     \<Rightarrow> (nat \<times> nat \<times> ('fs, 'f, 'a) ctap_scheme) option"
where
  "allow_list_filter lib rp_id_hash rp_id_lookup i credLen count w =
     (if i \<ge> credLen then Some (count, credLen, w)
      else do {
        let cred = ga_cred i w;
        let skip = (\<lambda>w. allow_list_filter lib rp_id_hash rp_id_lookup (i + 1) credLen count (ga_put_cred i (invalidate cred) w));
        (mine, w) \<leftarrow> ctap_credential_belongs_to_rp rp_id_lookup rp_id_hash (sd_desc cred) w;
        if \<not> mine then skip w
        else do {
          let (status, is_rk) = ctap_check_credential_metadata (cred_id (sd_desc cred))
            (ga_user_verified (getAssertionState w) \<noteq> 0) True w;
          if status \<noteq> CTAP2_OK then skip w
          else do {
            (present, w) \<leftarrow> (if is_rk \<noteq> 0 then ctap_verify_rk_exists lib (cred_id (sd_desc cred)) w else Some (True, w));
            if \<not> present then skip w
            else allow_list_filter lib rp_id_hash rp_id_lookup (i + 1) (i + 1) (count + 1) w } } })"
  by auto
termination
  by (relation "measure (\<lambda>(lib, h, l, i, credLen, count, w). credLen - i)") auto

declare allow_list_filter.simps [simp del]

definition rk_rk_nonce :: "bytes \<Rightarrow> bytes" where "rk_rk_nonce rk = slice 301 CREDENTIAL_NONCE_SIZE rk"
definition rk_entities :: "bytes \<Rightarrow> bytes" where "rk_entities rk = slice 58 227 rk"

definition ga_of_rk :: "bytes \<Rightarrow> 'a crypto_scheme \<Rightarrow> stored_descriptor" where
  "ga_of_rk rk w = \<lparr>sd_desc = \<lparr>cred_type = PUB_KEY_CRED_PUB_KEY, cred_id = rk_id rk\<rparr>,
     sd_user = take 162 (ctap_xcrypt_buf (rk_rk_nonce rk) (rk_entities rk) w)\<rparr>"

text \<open>The loop over the resident keys of the relying party's file.\<close>

fun rk_filter ::
  "('fs, 'f, 'd) lfs_lib \<Rightarrow> bytes \<Rightarrow> nat \<Rightarrow> nat \<Rightarrow> bytes \<Rightarrow> ('fs, 'f, 'a) ctap_scheme
     \<Rightarrow> (nat \<times> ('fs, 'f, 'a) ctap_scheme) option"
where
  "rk_filter lib rp_id_lookup 0 count rk w = Some (count, w)"
| "rk_filter lib rp_id_lookup (Suc n) count rk w =
     (let (rk, w) = ctap_load_next_rk lib rk w
      in if memcmp CREDENTIAL_TAG_SIZE rp_id_lookup (cred_rp_id_lookup (rk_id rk)) \<noteq> 0
         then rk_filter lib rp_id_lookup n count rk w
         else do {
           let cid = rk_id rk;
           (local_tag, w) \<leftarrow> ctap_make_auth_tag (cred_version cid) rp_id_lookup (cred_nonce cid) (cred_metadata cid) (cred_count cid) w;
           if memcmp CREDENTIAL_TAG_SIZE (cred_tag cid) local_tag \<noteq> 0 then rk_filter lib rp_id_lookup n count rk w
           else if fst (ctap_check_credential_metadata cid (ga_user_verified (getAssertionState w) \<noteq> 0) False w) \<noteq> CTAP2_OK
           then rk_filter lib rp_id_lookup n count rk w
           else if count \<ge> ALLOW_LIST_MAX_SIZE then Some (count, w)
           else do {
             (ok, w) \<leftarrow> ctap_verify_mac (rk_rk_tag rk) (take RK_HMAC_SIZE rk) w;
             if \<not> ok then rk_filter lib rp_id_lookup n count rk w
             else rk_filter lib rp_id_lookup n (count + 1) rk (ga_put_cred count (ga_of_rk rk w) w) } })"

definition sd_count :: "stored_descriptor \<Rightarrow> u32" where
  "sd_count c = cred_count (cred_id (sd_desc c))"

definition cred_cmp_func :: "stored_descriptor \<Rightarrow> stored_descriptor \<Rightarrow> int" where
  "cred_cmp_func a b = (if sd_count b > sd_count a then 1 else if sd_count b < sd_count a then - 1 else 0)"

definition build_filtered_credential_list ::
  "('fs, 'f, 'd, 'w) board \<Rightarrow> nat \<Rightarrow> bytes \<Rightarrow> bytes \<Rightarrow> ('fs, 'f, 'a) ctap_scheme
     \<Rightarrow> (nat \<times> ('fs, 'f, 'a) ctap_scheme) option" where
  "build_filtered_credential_list b credLen rp_id_hash rp_id_lookup w = do {
     (count, credLen, w) \<leftarrow> allow_list_filter (b_lfs b) rp_id_hash rp_id_lookup 0 credLen 0 w;
     (count, credLen, w) \<leftarrow>
       (if credLen = 0
        then do {
          let (nr_rk, w) = ctap_open_rk_file (b_lfs b) rp_id_lookup w;
          (count, w) \<leftarrow> rk_filter (b_lfs b) rp_id_lookup (nat nr_rk) count (uninit sizeof_residentKey w) w;
          Some (count, count, snd (ctap_close_rk_file (b_lfs b) w)) }
        else Some (count, credLen, w));
     Some (count, ga_set (\<lambda>g. g\<lparr>ga_creds := blit (ga_creds g) 0 (qsort cred_cmp_func (take credLen (ga_creds g)))\<rparr>) w) }"

section \<open>The commands\<close>

text \<open>The entries of the answer for one credential, after the map has been created: the descriptor, the
  authenticator data, the signature, and the user when there is one.\<close>

definition sd_user_entity :: "stored_descriptor \<Rightarrow> CTAP_userEntity" where
  "sd_user_entity c = user_of_bytes (sd_user c)"

definition load_credential_key ::
  "'a crypto_scheme ecc_lib \<Rightarrow> CTAP_credentialDescriptor \<Rightarrow> int \<Rightarrow> 'a crypto_scheme \<Rightarrow> 'a crypto_scheme option" where
  "load_credential_key lib desc cose_alg w =
     (let key_id = take (ctap_get_credential_id_size (cred_type desc)) (cred_id desc)
      in if cose_alg = COSE_ALG_EDDSA then fido2_crypto_ed25519_load_key lib key_id w
         else crypto_ecc256_load_key key_id [] w)"

definition ctap_get_assertion_cbor_encode_assertion_response ::
  "('fs, 'f, 'd, ('fs, 'f, 'a) ctap_scheme) board \<Rightarrow> CborEncoder \<Rightarrow> stored_descriptor \<Rightarrow> bytes \<Rightarrow> bytes \<Rightarrow> ('fs, 'f, 'a) ctap_scheme
     \<Rightarrow> (CtapError \<times> CborEncoder \<times> ('fs, 'f, 'a) ctap_scheme) option" where
  "ctap_get_assertion_cbor_encode_assertion_response b m cred auth_data clientDataHash w =
     (let (err, m) = cbor_encode_int m GA_Resp_credential
      in if err \<noteq> CborNoError then Some (CTAP2_ERR_INVALID_CBOR, m, w)
         else let (r, m) = ctap_cbor_encode_credential_descriptor m (cred_id (sd_desc cred)) (cred_type (sd_desc cred))
              in if r \<noteq> CTAP2_OK then Some (r, m, w)
                 else let (err, m) = enc_seq [\<lambda>e. cbor_encode_int e MC_Resp_authData, \<lambda>e. cbor_encode_byte_string e auth_data] m
                      in if err \<noteq> CborNoError then Some (CTAP2_ERR_INVALID_CBOR, m, w)
                         else do {
                           let cose_alg = ctap_restore_metadata_cose_alg (cred_id (sd_desc cred)) w;
                           w \<leftarrow> load_credential_key (b_ecc b) (sd_desc cred) cose_alg w;
                           (sigder, w) \<leftarrow> ctap_sign_data (b_ecc b) auth_data clientDataHash cose_alg w;
                           let (err, m) = enc_seq [\<lambda>e. cbor_encode_int e GA_Resp_signature, \<lambda>e. cbor_encode_byte_string e sigder] m;
                           if err \<noteq> CborNoError then Some (CTAP2_ERR_INVALID_CBOR, m, w)
                           else if user_id_size (sd_user_entity cred) = 0 then Some (CTAP2_OK, m, w)
                           else let (err, m) = cbor_encode_int m GA_Resp_user
                                in if err \<noteq> CborNoError then Some (CTAP2_ERR_INVALID_CBOR, m, w)
                                   else do {
                                     (r, m) \<leftarrow> ctap_cbor_encode_user_entity m (sd_user_entity cred)
                                       (ga_user_verified (getAssertionState w) \<noteq> 0);
                                     Some (r, m, w) } })"

definition null_name :: "stored_descriptor \<Rightarrow> stored_descriptor" where
  "null_name c = c\<lparr>sd_user := blit (sd_user c) (USER_ID_MAX_SIZE + 1) (replicate USER_NAME_LIMIT 0)\<rparr>"

text \<open>The checks of the PIN token. The result says also whether the user is verified.\<close>

definition ga_authorize ::
  "CTAP_getAssertion \<Rightarrow> bytes \<Rightarrow> ('fs, 'f, 'a) ctap_scheme \<Rightarrow> (CtapError \<times> ('fs, 'f, 'a) ctap_scheme) option" where
  "ga_authorize GA rp_id_hash w =
     (if gr_pinUvAuthParam_len GA > 0
      then if gr_pinProtocol GA = 0 then Some (CTAP2_ERR_MISSING_PARAMETER, w)
           else do {
             (r, w) \<leftarrow> ctap_client_pin_verify_auth (gr_pinUvAuthParam GA) (gr_clientDataHash GA) (gr_pinProtocol GA) w;
             if r \<noteq> CTAP2_OK then Some (r, w)
             else if \<not> ctap_client_pin_get_user_verified (gr_pinProtocol GA) w
               \<or> \<not> ctap_client_pin_verify_permissions (gr_pinProtocol GA) CP_permissions_ga w
               \<or> \<not> ctap_client_pin_verify_permissions_rp_id (gr_pinProtocol GA) rp_id_hash w
             then Some (CTAP2_ERR_PIN_AUTH_INVALID, w)
             else Some (CTAP2_OK, ga_set (\<lambda>g. g\<lparr>ga_user_verified := 1\<rparr>) w) }
      else Some (CTAP2_OK, ga_set (\<lambda>g. g\<lparr>ga_user_verified := 0\<rparr>) w))"

definition save_credential_list ::
  "bytes \<Rightarrow> nat \<Rightarrow> CTAP_extensions \<Rightarrow> ('fs, 'f, 'a) ctap_scheme \<Rightarrow> CtapError \<times> ('fs, 'f, 'a) ctap_scheme" where
  "save_credential_list clientDataHash count extensions w =
     (if count \<noteq> 0 \<and> count > ALLOW_LIST_MAX_SIZE - 1 then (CTAP2_ERR_LIMIT_EXCEEDED, w)
      else let w = (if count \<noteq> 0
                    then ga_set (\<lambda>g. g\<lparr>ga_clientDataHash := take CLIENT_DATA_HASH_SIZE clientDataHash,
                           ga_creds := blit (ga_creds g) 0 (slice 1 count (ga_creds g)),
                           ga_extensions := extensions\<rparr>) w
                    else w)
           in (CTAP2_OK, ga_set (\<lambda>g. g\<lparr>ga_count := of_nat count, ga_index := 0\<rparr>) w))"

text \<open>The authenticator data of an assertion, in the buffer of \<open>getAssertionState\<close>: header and output of the
  extensions. The result is the status and the size.\<close>

definition ga_auth_data ::
  "('fs, 'f, 'd, ('fs, 'f, 'a) ctap_scheme) board \<Rightarrow> CTAP_getAssertion \<Rightarrow> bytes \<Rightarrow> bytes \<Rightarrow> ('fs, 'f, 'a) ctap_scheme
     \<Rightarrow> (CtapError \<times> nat \<times> ('fs, 'f, 'a) ctap_scheme) option" where
  "ga_auth_data b GA rp_id_hash rp_id_lookup w = do {
     let w = device_disable_up (\<not> opt_up (gr_options GA)) w;
     (r, buf, sz, w) \<leftarrow> ctap_make_auth_data b (gr_rp GA) rp_id_hash rp_id_lookup (ga_authData (getAssertionState w))
       sizeof_authDataHeader None (gr_extensions GA) w;
     let w = ga_set (\<lambda>g. g\<lparr>ga_authData := buf\<rparr>) (device_disable_up False w);
     if r \<noteq> CTAP2_OK then Some (r, sz, w)
     else do {
       let w = (if opt_up (gr_options GA) then mc_clear_token (gr_pinProtocol GA) w else w);
       let w = ga_set (\<lambda>g. g\<lparr>ga_authData := (ga_authData g)[32 := (ga_authData g ! 32 AND NOT 4) OR push_bit 2 (ga_user_verified g)]\<rparr>) w;
       (r, ext_buf, ext_size, w) \<leftarrow> ctap_extensions_encode_output (b_env b) (gr_extensions GA) (ga_ext_buf (getAssertionState w)) 0 80 w;
       let w = ga_set (\<lambda>g. g\<lparr>ga_ext_buf := ext_buf\<rparr>) w;
       if r \<noteq> CTAP2_OK then Some (r, sz, w)
       else if ext_size \<noteq> 0
       then Some (CTAP2_OK, sz + ext_size, ga_set (\<lambda>g. g\<lparr>ga_authData := (ga_authData g)[32 := ga_authData g ! 32 OR 0x80]\<rparr>) w)
       else Some (CTAP2_OK, sz, w) } }"

text \<open>The answer, once the credentials are chosen; \<open>e\<close> is the parent encoder, \<open>m\<close> the map's.\<close>

definition ga_answer ::
  "('fs, 'f, 'd, ('fs, 'f, 'a) ctap_scheme) board \<Rightarrow> CTAP_getAssertion \<Rightarrow> nat \<Rightarrow> bytes \<Rightarrow> bytes \<Rightarrow> CborEncoder \<Rightarrow> CborEncoder
     \<Rightarrow> ('fs, 'f, 'a) ctap_scheme \<Rightarrow> (CtapError \<times> CborEncoder \<times> ('fs, 'f, 'a) ctap_scheme) option" where
  "ga_answer b GA validCredCount rp_id_hash rp_id_lookup e m w = do {
     let w = (if validCredCount < 2 \<or> ga_user_verified (getAssertionState w) = 0
              then ga_put_cred 0 (null_name (ga_cred 0 w)) w else w);
     let GA = GA\<lparr>gr_extensions := (gr_extensions GA)\<lparr>hmac_secret := (hmac_secret (gr_extensions GA))\<lparr>hs_credential := Some 0\<rparr>\<rparr>\<rparr>;
     (r, sz, w) \<leftarrow> ga_auth_data b GA rp_id_hash rp_id_lookup w;
     if r \<noteq> CTAP2_OK then Some (r, e\<lparr>ce_buf := ce_buf m\<rparr>, w)
     else do {
       let g = getAssertionState w;
       (r, m, w) \<leftarrow> ctap_get_assertion_cbor_encode_assertion_response b m (ga_cred 0 w)
         (take sz (ga_authData g @ ga_ext_buf g)) (gr_clientDataHash GA) w;
       if r \<noteq> CTAP2_OK then Some (r, e\<lparr>ce_buf := ce_buf m\<rparr>, w)
       else do {
         let (err, m) =
           (if validCredCount > 1
            then enc_seq [\<lambda>e. cbor_encode_int e GA_Resp_numberOfCredentials, \<lambda>e. cbor_encode_int e (of_nat validCredCount)] m
            else (CborNoError, m));
         if err \<noteq> CborNoError then Some (CTAP2_ERR_INVALID_CBOR, e\<lparr>ce_buf := ce_buf m\<rparr>, w)
         else let (err, e) = cbor_encoder_close_container e m
              in if err \<noteq> CborNoError then Some (CTAP2_ERR_INVALID_CBOR, e, w)
                 else let (r, w) = save_credential_list (gr_clientDataHash GA) (validCredCount - 1) (gr_extensions GA) w
                      in Some (r, e, w) } } }"

definition ctap_get_assertion ::
  "('fs, 'f, 'd, ('fs, 'f, 'a) ctap_scheme) board \<Rightarrow> CborEncoder \<Rightarrow> bytes \<Rightarrow> ('fs, 'f, 'a) ctap_scheme
     \<Rightarrow> (CtapError \<times> CborEncoder \<times> ('fs, 'f, 'a) ctap_scheme) option" where
  "ctap_get_assertion b encoder request w = do {
     (r, GA) \<leftarrow> parse_get_assertion_request (parse_locals_of w) (uninit_status w) request (ga_creds (getAssertionState w));
     let w = ga_set (\<lambda>g. g\<lparr>ga_creds := gr_creds GA\<rparr>) w;
     if r \<noteq> CTAP2_OK then Some (r, encoder, w)
     else if gr_pinUvAuthParam_empty GA
     then do {
       (r, w) \<leftarrow> ctap2_user_presence_test (b_touch_bit b) w;
       Some (if r \<noteq> CTAP2_OK then r else if ctap_client_pin_is_set w then CTAP2_ERR_PIN_AUTH_INVALID
             else CTAP2_ERR_PIN_NOT_SET, encoder, w) }
     else if rp_size (gr_rp GA) = 0 \<or> \<not> gr_clientDataHashPresent GA then Some (CTAP2_ERR_MISSING_PARAMETER, encoder, w)
     else do {
       (rp_id_hash, rp_id_lookup, w) \<leftarrow> ctap_derive_rp_id_info (take (rp_size (gr_rp GA)) (rp_id (gr_rp GA))) w;
       (r, w) \<leftarrow> ga_authorize GA rp_id_hash w;
       if r \<noteq> CTAP2_OK then Some (r, encoder, w)
       else do {
         (validCredCount, w) \<leftarrow> build_filtered_credential_list b (gr_credLen GA) rp_id_hash rp_id_lookup w;
         if validCredCount = 0 then Some (CTAP2_ERR_NO_CREDENTIALS, encoder, w)
         else do {
           let map_size = 3 + (if validCredCount > 1 then 1 else 0)
             + (if user_id_size (sd_user_entity (ga_cred (validCredCount - 1) w)) \<noteq> 0 then 1 else 0);
           let (err, e, m) = cbor_encoder_create_map encoder map_size;
           if err \<noteq> CborNoError then Some (CTAP2_ERR_INVALID_CBOR, e, w)
           else ga_answer b GA validCredCount rp_id_hash rp_id_lookup e m w } } } }"

section \<open>The next assertion\<close>

text \<open>The index of the next credential.\<close>

definition get_next_credential :: "('fs, 'f, 'a) ctap_scheme \<Rightarrow> nat option \<times> ('fs, 'f, 'a) ctap_scheme" where
  "get_next_credential w =
     (let g = getAssertionState w
      in if ga_count g > 0 \<and> ga_index g < ga_count g
         then (Some (unat (ga_index g)), ga_set (\<lambda>g. g\<lparr>ga_index := ga_index g + 1\<rparr>) w)
         else (None, w))"

definition ctap_get_next_assertion ::
  "('fs, 'f, 'd, ('fs, 'f, 'a) ctap_scheme) board \<Rightarrow> CborEncoder \<Rightarrow> ('fs, 'f, 'a) ctap_scheme
     \<Rightarrow> (CtapError \<times> CborEncoder \<times> ('fs, 'f, 'a) ctap_scheme) option" where
  "ctap_get_next_assertion b encoder w =
     (case get_next_credential w of
        (None, w) \<Rightarrow> Some (CTAP2_ERR_NOT_ALLOWED, encoder, w)
      | (Some i, w) \<Rightarrow> do {
          (_, buf, w) \<leftarrow> ctap_auth_data_update_count (b_lfs b) (b_file0 b) (ga_authData (getAssertionState w)) w;
          let w = ga_set (\<lambda>g. g\<lparr>ga_authData := buf\<rparr>) w;
          let (err, e, m) = cbor_encoder_create_map encoder (if user_id_size (sd_user_entity (ga_cred i w)) \<noteq> 0 then 4 else 3);
          if err \<noteq> CborNoError then Some (CTAP2_ERR_INVALID_CBOR, e, w)
          else do {
            let w = (if ga_user_verified (getAssertionState w) = 0 then ga_put_cred i (null_name (ga_cred i w)) w else w);
            (r, ext_buf, ext_size, w) \<leftarrow> ctap_extensions_encode_output (b_env b) (ga_extensions (getAssertionState w))
              (ga_ext_buf (getAssertionState w)) 0 80 w;
            let w = ga_set (\<lambda>g. g\<lparr>ga_ext_buf := ext_buf\<rparr>) w;
            let w = (if r \<noteq> CTAP2_OK then w
                     else ga_set (\<lambda>g. g\<lparr>ga_authData := (ga_authData g)[32 :=
                       (if ext_size \<noteq> 0 then ga_authData g ! 32 OR 0x80 else ga_authData g ! 32 AND NOT 0x80)]\<rparr>) w);
            let g = getAssertionState w;
            (r, m, w) \<leftarrow> ctap_get_assertion_cbor_encode_assertion_response b m (ga_cred i w)
              (take (sizeof_authDataHeader + ext_size) (ga_authData g @ ga_ext_buf g)) (ga_clientDataHash g) w;
            if r \<noteq> CTAP2_OK then Some (r, e\<lparr>ce_buf := ce_buf m\<rparr>, w)
            else let (err, e) = cbor_encoder_close_container e m in Some (cbor_status err, e, w) } })"

end
