(* ===== verification/Credential_Management.thy ===== *)
theory Credential_Management
  imports Get_Assertion
begin

text \<open>
  \<open>fido2/src/ctap_credential_management.c\<close>: listing, deleting and updating the resident keys. A key that has
  been read is the byte string of the structure, with the user and the RP decrypted in place. The file-level
  variable \<open>state\<close> is the field \<open>cm_state\<close>.
\<close>

section \<open>Data\<close>

definition CTAP_STATEFUL_TIMEOUT_MS :: u32 where "CTAP_STATEFUL_TIMEOUT_MS = 30000"
definition MAX_UNIQUE_RP :: nat where "MAX_UNIQUE_RP = 50"
definition COMPARE_LEN :: nat where "COMPARE_LEN = 8"
definition MAX_RK_FILES :: nat where "MAX_RK_FILES = 16"

datatype rk_mode_t = RK_MODE_COUNT | RK_MODE_GET_NEXT

definition CM_Cmd_subCommand :: int where "CM_Cmd_subCommand = 0x01"
definition CM_Cmd_subCommandParams :: int where "CM_Cmd_subCommandParams = 0x02"
definition CM_Cmd_pinUvAuthProtocol :: int where "CM_Cmd_pinUvAuthProtocol = 0x03"
definition CM_Cmd_pinUvAuthParam :: int where "CM_Cmd_pinUvAuthParam = 0x04"

definition CM_SubCmd_getCredsMetadata :: byte where "CM_SubCmd_getCredsMetadata = 0x01"
definition CM_SubCmd_enumerateRPsBegin :: byte where "CM_SubCmd_enumerateRPsBegin = 0x02"
definition CM_SubCmd_enumerateRPsGetNextRP :: byte where "CM_SubCmd_enumerateRPsGetNextRP = 0x03"
definition CM_SubCmd_enumerateCredentialsBegin :: byte where "CM_SubCmd_enumerateCredentialsBegin = 0x04"
definition CM_SubCmd_enumerateCredentialsGetNextCredential :: byte where
  "CM_SubCmd_enumerateCredentialsGetNextCredential = 0x05"
definition CM_SubCmd_deleteCredential :: byte where "CM_SubCmd_deleteCredential = 0x06"
definition CM_SubCmd_updateUserInformation :: byte where "CM_SubCmd_updateUserInformation = 0x07"

definition CM_SubCmdParam_rpIDHash :: int where "CM_SubCmdParam_rpIDHash = 0x01"
definition CM_SubCmdParam_credentialID :: int where "CM_SubCmdParam_credentialID = 0x02"
definition CM_SubCmdParam_user :: int where "CM_SubCmdParam_user = 0x03"

definition CP_permissions_cm :: byte where "CP_permissions_cm = 0x04"

text \<open>The copy of the parameters has room for a descriptor (224 bytes) and 16 bytes.\<close>

definition CM_PARAMS_COPY_SIZE :: nat where "CM_PARAMS_COPY_SIZE = 240"

record CTAP_credMgmt =
  cm_subCommand :: byte
  cm_rpIdHash :: bytes
  cm_rpIdHash_present :: bool
  cm_descriptor :: CTAP_credentialDescriptor
  cm_user :: CTAP_userEntity
  cm_credentialId_present :: bool
  cm_credentialUser_present :: bool
  cm_hashed_subCommand :: byte
  cm_paramsCopy :: bytes
  cm_paramsCborSize :: nat
  cm_pinUvAuthParam :: bytes
  cm_pinUvAuthParam_len :: byte
  cm_pinProtocol :: byte

definition credMgmt_zero :: CTAP_credMgmt where
  "credMgmt_zero = \<lparr>cm_subCommand = 0, cm_rpIdHash = replicate 32 0, cm_rpIdHash_present = False,
     cm_descriptor = sd_desc descriptor_zero, cm_user = user_zero, cm_credentialId_present = False,
     cm_credentialUser_present = False, cm_hashed_subCommand = 0, cm_paramsCopy = replicate CM_PARAMS_COPY_SIZE 0,
     cm_paramsCborSize = 0, cm_pinUvAuthParam = replicate PIN_UV_AUTH_PARAM_MAX_SIZE 0, cm_pinUvAuthParam_len = 0,
     cm_pinProtocol = 0\<rparr>"

section \<open>The request\<close>

text \<open>One entry of the parameters, with the variable \<open>sz\<close> that limits the copy of the RP's hash and is
  overwritten with its length.\<close>

definition cm_param_body :: "parse_locals \<Rightarrow> int \<Rightarrow> CborValue \<Rightarrow> CTAP_credMgmt \<times> nat \<Rightarrow> (CTAP_credMgmt \<times> nat) pres" where
  "cm_param_body pl key it = (\<lambda>(CM, sz).
     if key = CM_SubCmdParam_rpIDHash
     then do {
       (err, b, sz) \<leftarrow> cbor_value_copy_byte_string it (cm_rpIdHash CM) sz;
       if err = CborErrorOutOfMemory then Some (Inl CTAP2_ERR_LIMIT_EXCEEDED)
       else cbor_check err (Some (Inr (CM\<lparr>cm_rpIdHash := b, cm_rpIdHash_present := True\<rparr>, sz))) }
     else if key = CM_SubCmdParam_credentialID
     then ctap_check (ctap_parse_pubkey_credential_descriptor (pl_keytype pl) it (cm_descriptor CM)) (\<lambda>d.
            Some (Inr (CM\<lparr>cm_descriptor := d, cm_credentialId_present := True\<rparr>, sz)))
     else if key = CM_SubCmdParam_user
     then ctap_check (ctap_parse_user_entity (pl_user_key pl) (cm_user CM) it) (\<lambda>u.
            Some (Inr (CM\<lparr>cm_user := u, cm_credentialUser_present := True\<rparr>, sz)))
     else Some (Inr (CM, sz)))"

text \<open>The loop keeps the place it has reached, the end of the parameters.\<close>

fun cm_params_loop ::
  "parse_locals \<Rightarrow> nat \<Rightarrow> CborValue \<Rightarrow> CTAP_credMgmt \<times> nat \<Rightarrow> (CborValue \<times> CTAP_credMgmt) pres"
where
  "cm_params_loop pl 0 it s = Some (Inr (it, fst s))"
| "cm_params_loop pl (Suc n) it s =
     (if cbor_value_get_type it \<noteq> CborIntegerType then Some (Inl CTAP2_ERR_INVALID_CBOR)
      else do {
        (err, key) \<leftarrow> cbor_value_get_int it;
        cbor_check err (do {
          (err, it) \<leftarrow> cbor_value_advance it;
          cbor_check err (ctap_check (cm_param_body pl key it s) (\<lambda>s. do {
            (err, it) \<leftarrow> cbor_value_advance it;
            cbor_check err (cm_params_loop pl n it s) })) }) })"

definition parse_credential_management_subcommandparams ::
  "parse_locals \<Rightarrow> CborValue \<Rightarrow> CTAP_credMgmt \<Rightarrow> CTAP_credMgmt pres" where
  "parse_credential_management_subcommandparams pl val CM =
     (if cbor_value_get_type val \<noteq> CborMapType then Some (Inl CTAP2_ERR_INVALID_CBOR)
      else do {
        (err, m) \<leftarrow> cbor_value_enter_container val;
        cbor_check err (do {
          let start_byte = cv_ptr m - 1;
          (err, n) \<leftarrow> cbor_value_get_map_length val;
          cbor_check err (ctap_check (cm_params_loop pl n m (CM, 32)) (\<lambda>(it, CM).
            let len = cv_ptr it - start_byte
            in if len > CM_PARAMS_COPY_SIZE then Some (Inl CTAP2_ERR_LIMIT_EXCEEDED)
               else Some (Inr (CM\<lparr>cm_paramsCopy := blit (cm_paramsCopy CM) 0 (slice start_byte len (cv_buf it)),
                      cm_paramsCborSize := len\<rparr>)))) }) })"

definition credential_management_body ::
  "parse_locals \<Rightarrow> int \<Rightarrow> CborValue \<Rightarrow> CTAP_credMgmt \<Rightarrow> CTAP_credMgmt pres" where
  "credential_management_body pl key it CM =
     (if key = CM_Cmd_subCommand
      then ctap_check (parse_int it) (\<lambda>tmp. if tmp < 0 \<or> tmp > 255 then Some (Inl CTAP2_ERR_INVALID_CBOR)
             else Some (Inr (CM\<lparr>cm_subCommand := of_int tmp, cm_hashed_subCommand := of_int tmp\<rparr>)))
      else if key = CM_Cmd_subCommandParams then parse_credential_management_subcommandparams pl it CM
      else if key = CM_Cmd_pinUvAuthProtocol
      then ctap_check (parse_int it) (\<lambda>tmp. if tmp < 0 \<or> tmp > 255 then Some (Inl CTAP2_ERR_INVALID_CBOR)
             else Some (Inr (CM\<lparr>cm_pinProtocol := of_int tmp\<rparr>)))
      else if key = CM_Cmd_pinUvAuthParam
      then ctap_check (ctap_parse_pinUvAuthParam it False (cm_pinUvAuthParam CM)) (\<lambda>(emp, b, len).
             if emp then Some (Inl CTAP1_ERR_INVALID_LENGTH)
             else Some (Inr (CM\<lparr>cm_pinUvAuthParam := b, cm_pinUvAuthParam_len := len\<rparr>)))
      else Some (Inr CM))"

definition parse_credential_management_request :: "parse_locals \<Rightarrow> bytes \<Rightarrow> CTAP_credMgmt pres" where
  "parse_credential_management_request pl request = do {
     (err, it) \<leftarrow> cbor_parser_init request;
     cbor_check err (int_map_parse (credential_management_body pl) it credMgmt_zero) }"

definition verify_pin_auth_for_credential_management ::
  "CTAP_credMgmt \<Rightarrow> ('fs, 'f, 'a) cpin_scheme \<Rightarrow> (CtapError \<times> ('fs, 'f, 'a) cpin_scheme) option" where
  "verify_pin_auth_for_credential_management CM w =
     (if cm_subCommand CM = CM_SubCmd_enumerateRPsGetNextRP
       \<or> cm_subCommand CM = CM_SubCmd_enumerateCredentialsGetNextCredential then Some (CTAP2_OK, w)
      else if cm_pinUvAuthParam_len CM = 0 then Some (CTAP2_ERR_PUAT_REQUIRED, w)
      else if cm_pinProtocol CM \<noteq> 1 \<and> cm_pinProtocol CM \<noteq> 2 then Some (CTAP1_ERR_INVALID_PARAMETER, w)
      else do {
        (r, w) \<leftarrow> ctap_client_pin_verify_auth_ex (cm_pinUvAuthParam CM)
          (take (cm_paramsCborSize CM + 1) (cm_hashed_subCommand CM # cm_paramsCopy CM)) (cm_pinProtocol CM) w;
        Some (if r \<noteq> CTAP2_OK then r
              else if \<not> ctap_client_pin_verify_permissions (cm_pinProtocol CM) CP_permissions_cm w then CTAP2_ERR_PIN_AUTH_INVALID
              else if cm_subCommand CM = CM_SubCmd_enumerateRPsBegin
              then (if ctap_client_pin_permissions_rp_id_present (cm_pinProtocol CM) w then CTAP2_ERR_PIN_AUTH_INVALID else CTAP2_OK)
              else if \<not> ctap_client_pin_verify_permissions_rp_id (cm_pinProtocol CM) (cm_rpIdHash CM) w
              then CTAP2_ERR_PIN_AUTH_INVALID else CTAP2_OK, w) })"

section \<open>The state of an enumeration\<close>

definition cm_zero :: credential_management_state_t where
  "cm_zero = \<lparr>cs_valid = False, cs_init_cmd = 0, cs_timestamp = 0, cs_rp_id_hash = replicate 32 0,
     cs_list_unique_rps = replicate MAX_UNIQUE_RP 0, cs_len_list_unique_rps = 0, cs_rk_idx = 0, cs_file_idx = 0\<rparr>"

definition cm_set ::
  "(credential_management_state_t \<Rightarrow> credential_management_state_t) \<Rightarrow> ('fs, 'f, 'a) ctap_scheme \<Rightarrow> ('fs, 'f, 'a) ctap_scheme" where
  "cm_set f w = w\<lparr>cm_state := f (cm_state w)\<rparr>"

definition clear_state :: "('fs, 'f, 'a) ctap_scheme \<Rightarrow> ('fs, 'f, 'a) ctap_scheme" where
  "clear_state w = w\<lparr>cm_state := cm_zero\<rparr>"

definition init_state :: "byte \<Rightarrow> ('fs, 'f, 'a) ctap_scheme \<Rightarrow> ('fs, 'f, 'a) ctap_scheme option" where
  "init_state cmd w = do {
     let w = cm_set (\<lambda>c. c\<lparr>cs_valid := True\<rparr>) (clear_state w);
     (now, w) \<leftarrow> millis w;
     Some (cm_set (\<lambda>c. c\<lparr>cs_timestamp := now, cs_init_cmd := cmd\<rparr>) w) }"

definition check_state :: "byte \<Rightarrow> ('fs, 'f, 'a) ctap_scheme \<Rightarrow> (int \<times> ('fs, 'f, 'a) ctap_scheme) option" where
  "check_state subCmd w =
     (if \<not> cs_valid (cm_state w) then Some (- 1, w)
      else if (subCmd = CM_SubCmd_enumerateRPsGetNextRP \<and> cs_init_cmd (cm_state w) = CM_SubCmd_enumerateRPsBegin)
        \<or> (subCmd = CM_SubCmd_enumerateCredentialsGetNextCredential
           \<and> cs_init_cmd (cm_state w) = CM_SubCmd_enumerateCredentialsBegin)
      then do {
        (current_time, w) \<leftarrow> millis w;
        Some (if current_time - cs_timestamp (cm_state w) > CTAP_STATEFUL_TIMEOUT_MS then (- 1, clear_state w)
              else (0, cm_set (\<lambda>c. c\<lparr>cs_timestamp := current_time\<rparr>) w)) }
      else Some (- 1, clear_state w))"

section \<open>Reading keys\<close>

definition resident_key_is_valid :: "bytes \<Rightarrow> bool" where
  "resident_key_is_valid rk \<longleftrightarrow> cred_count (rk_id rk) > 0 \<and> cred_count (rk_id rk) \<noteq> 0xffffffff"

definition decrypt_rk :: "bytes \<Rightarrow> 'a crypto_scheme \<Rightarrow> bytes" where
  "decrypt_rk rk w = blit rk 58 (ctap_xcrypt_buf (rk_rk_nonce rk) (rk_entities rk) w)"

text \<open>The loop ends when the index, a byte, has passed the number of keys; the result is whether a key was
  found, how many were counted, and the last key read.\<close>

partial_function (option) scan_rk_loop ::
  "('fs, 'f, 'd) lfs_lib \<Rightarrow> bytes \<Rightarrow> rk_mode_t \<Rightarrow> int \<Rightarrow> int \<Rightarrow> bytes \<Rightarrow> ('fs, 'f, 'a) ctap_scheme
     \<Rightarrow> (bool \<times> int \<times> bytes \<times> ('fs, 'f, 'a) ctap_scheme) option"
where
  "scan_rk_loop lib rp_id_lookup mode nbr_rk count out_rk w =
     (let i = cs_rk_idx (cm_state w)
      in if uint i \<ge> nbr_rk then Some (False, count, out_rk, w)
         else case ctap_load_rk lib i out_rk (cm_set (\<lambda>c. c\<lparr>cs_rk_idx := cs_rk_idx c + 1\<rparr>) w) of (out_rk, w) \<Rightarrow>
           if \<not> resident_key_is_valid out_rk then scan_rk_loop lib rp_id_lookup mode nbr_rk count out_rk w
           else if memcmp CREDENTIAL_TAG_SIZE rp_id_lookup (cred_rp_id_lookup (rk_id out_rk)) \<noteq> 0
           then scan_rk_loop lib rp_id_lookup mode nbr_rk count out_rk w
           else if mode = RK_MODE_GET_NEXT then Some (True, count, out_rk, w)
           else scan_rk_loop lib rp_id_lookup mode nbr_rk (count + 1) out_rk w)"

declare scan_rk_loop.simps [code]

definition scan_rk ::
  "('fs, 'f, 'd) lfs_lib \<Rightarrow> bytes \<Rightarrow> rk_mode_t \<Rightarrow> bytes \<Rightarrow> ('fs, 'f, 'a) ctap_scheme
     \<Rightarrow> (int \<times> bytes \<times> ('fs, 'f, 'a) ctap_scheme) option" where
  "scan_rk lib rp_id_lookup mode out_rk w =
     (let (nbr_rk, w) = ctap_open_rk_file lib rp_id_lookup w
      in if nbr_rk < 0 then Some (- 1, out_rk, snd (ctap_close_rk_file lib w))
         else do {
           (found, count, out_rk, w) \<leftarrow> scan_rk_loop lib rp_id_lookup mode nbr_rk 0 out_rk w;
           let w = snd (ctap_close_rk_file lib w);
           Some (if found then (0, decrypt_rk out_rk w, w)
                 else (if mode = RK_MODE_COUNT then count else - 1, out_rk, cm_set (\<lambda>c. c\<lparr>cs_rk_idx := 0\<rparr>) w)) })"

definition count_rk ::
  "('fs, 'f, 'd) lfs_lib \<Rightarrow> bytes \<Rightarrow> bytes \<Rightarrow> ('fs, 'f, 'a) ctap_scheme
     \<Rightarrow> (int \<times> bytes \<times> ('fs, 'f, 'a) ctap_scheme) option" where
  "count_rk lib rp_id_hash out_rk w = do {
     let w = cm_set (\<lambda>c. c\<lparr>cs_rk_idx := 0\<rparr>) w;
     (rp_id_lookup, w) \<leftarrow> ctap_compute_mac (take 32 rp_id_hash) CREDENTIAL_TAG_SIZE w;
     scan_rk lib rp_id_lookup RK_MODE_COUNT out_rk w }"

definition get_next_rk ::
  "('fs, 'f, 'd) lfs_lib \<Rightarrow> bytes \<Rightarrow> bytes \<Rightarrow> ('fs, 'f, 'a) ctap_scheme
     \<Rightarrow> (int \<times> bytes \<times> ('fs, 'f, 'a) ctap_scheme) option" where
  "get_next_rk lib rp_id_hash out_rk w = do {
     (rp_id_lookup, w) \<leftarrow> ctap_compute_mac (take 32 rp_id_hash) CREDENTIAL_TAG_SIZE w;
     scan_rk lib rp_id_lookup RK_MODE_GET_NEXT out_rk w }"

section \<open>Relying parties\<close>

text \<open>The keys of one file whose RP was not seen before: \<open>seen\<close> are the first bytes of the tags, \<open>idxs\<close> the
  buffer of indices.\<close>

fun unique_rp_loop ::
  "('fs, 'f, 'd) lfs_lib \<Rightarrow> byte \<Rightarrow> nat \<Rightarrow> bytes list \<Rightarrow> bytes \<Rightarrow> bytes \<Rightarrow> ('fs, 'f, 'a) dev_scheme
     \<Rightarrow> bytes list \<times> bytes \<times> ('fs, 'f, 'a) dev_scheme"
where
  "unique_rp_loop lib index 0 seen idxs rk w = (seen, idxs, w)"
| "unique_rp_loop lib index (Suc n) seen idxs rk w =
     (let (rk, w) = ctap_load_rk lib index rk w
      in if \<not> resident_key_is_valid rk then unique_rp_loop lib (index + 1) n seen idxs rk w
         else let hash = cred_rp_id_lookup (rk_id rk)
              in if list_ex (\<lambda>s. memcmp COMPARE_LEN s hash = 0) seen then unique_rp_loop lib (index + 1) n seen idxs rk w
                 else if length seen < MAX_UNIQUE_RP
                 then unique_rp_loop lib (index + 1) n (seen @ [take COMPARE_LEN hash]) (idxs[length seen := index]) rk w
                 else (seen, idxs, w))"

text \<open>The result is the return value, the number of RPs and the indices.\<close>

definition scan_file_unique_rp ::
  "('fs, 'f, 'd) lfs_lib \<Rightarrow> byte \<Rightarrow> bytes \<Rightarrow> ('fs, 'f, 'a) dev_scheme \<Rightarrow> int \<times> byte \<times> bytes \<times> ('fs, 'f, 'a) dev_scheme" where
  "scan_file_unique_rp lib file_idx idxs w =
     (let (ret, w) = ctap_open_rk_file lib [push_bit 4 file_idx] w
      in if ret < 0 \<or> ret > uint ctap_max_number_of_rks then (- 1, 0, idxs, snd (ctap_close_rk_file lib w))
         else let (seen, idxs, w) = unique_rp_loop lib 0 (nat ret) [] idxs (uninit sizeof_residentKey w) w
              in (0, of_nat (length seen), idxs, snd (ctap_close_rk_file lib w)))"

text \<open>All files: \<open>first\<close> is what is kept of the first file with an RP.\<close>

fun scan_files_loop ::
  "('fs, 'f, 'd) lfs_lib \<Rightarrow> byte \<Rightarrow> nat \<Rightarrow> u16 \<Rightarrow> (byte \<times> byte \<times> bytes) option \<Rightarrow> ('fs, 'f, 'a) dev_scheme
     \<Rightarrow> u16 \<times> (byte \<times> byte \<times> bytes) option \<times> ('fs, 'f, 'a) dev_scheme"
where
  "scan_files_loop lib file_idx 0 rp_count first w = (rp_count, first, w)"
| "scan_files_loop lib file_idx (Suc n) rp_count first w =
     (let (ret, file_count, idxs, w) = scan_file_unique_rp lib file_idx (replicate MAX_UNIQUE_RP 0) w
      in if ret < 0 \<or> file_count = 0 then scan_files_loop lib (file_idx + 1) n rp_count first w
         else scan_files_loop lib (file_idx + 1) n (rp_count + ucast file_count)
                (case first of None \<Rightarrow> Some (file_idx, file_count, take (unat file_count) idxs) | Some f \<Rightarrow> Some f) w)"

definition scan_files_unique_rp ::
  "('fs, 'f, 'd) lfs_lib \<Rightarrow> ('fs, 'f, 'a) ctap_scheme \<Rightarrow> int \<times> ('fs, 'f, 'a) ctap_scheme" where
  "scan_files_unique_rp lib w =
     (let (rp_count, first, w) = scan_files_loop lib 0 MAX_RK_FILES 0 None w
      in (uint rp_count,
          case first of
            None \<Rightarrow> w
          | Some (file_idx, file_count, idxs) \<Rightarrow>
              cm_set (\<lambda>c. c\<lparr>cs_list_unique_rps := blit (cs_list_unique_rps c) 0 idxs, cs_file_idx := file_idx,
                cs_len_list_unique_rps := file_count\<rparr>) w))"

definition get_count_unique_relying_parties ::
  "('fs, 'f, 'd) lfs_lib \<Rightarrow> ('fs, 'f, 'a) ctap_scheme \<Rightarrow> int \<times> ('fs, 'f, 'a) ctap_scheme" where
  "get_count_unique_relying_parties lib w =
     scan_files_unique_rp lib (cm_set (\<lambda>c. c\<lparr>cs_rk_idx := 0, cs_file_idx := 0, cs_len_list_unique_rps := 0\<rparr>) w)"

text \<open>The next file with an RP; \<open>n\<close> files are left.\<close>

fun next_file_loop :: "('fs, 'f, 'd) lfs_lib \<Rightarrow> nat \<Rightarrow> ('fs, 'f, 'a) ctap_scheme \<Rightarrow> ('fs, 'f, 'a) ctap_scheme" where
  "next_file_loop lib 0 w = w"
| "next_file_loop lib (Suc n) w =
     (let (ret, len, idxs, w) = scan_file_unique_rp lib (cs_file_idx (cm_state w)) (cs_list_unique_rps (cm_state w)) w;
          w = cm_set (\<lambda>c. c\<lparr>cs_len_list_unique_rps := len, cs_list_unique_rps := idxs\<rparr>) w
      in if ret < 0 \<or> len = 0
         then next_file_loop lib n (cm_set (\<lambda>c. c\<lparr>cs_file_idx := cs_file_idx c + 1\<rparr>) w)
         else w)"

definition get_next_unique_rp ::
  "('fs, 'f, 'd) lfs_lib \<Rightarrow> bytes \<Rightarrow> ('fs, 'f, 'a) ctap_scheme \<Rightarrow> int \<times> bytes \<times> ('fs, 'f, 'a) ctap_scheme" where
  "get_next_unique_rp lib out_rk w =
     (let w = (if cs_rk_idx (cm_state w) \<ge> cs_len_list_unique_rps (cm_state w)
               then let w = cm_set (\<lambda>c. c\<lparr>cs_file_idx := cs_file_idx c + 1, cs_rk_idx := 0, cs_len_list_unique_rps := 0\<rparr>) w
                    in next_file_loop lib (MAX_RK_FILES - unat (cs_file_idx (cm_state w))) w
               else w)
      in if cs_len_list_unique_rps (cm_state w) = 0 then (- 1, out_rk, w)
         else let (nbr_rk, w) = ctap_open_rk_file lib [push_bit 4 (cs_file_idx (cm_state w))] w
              in if nbr_rk \<le> 0 then (- 1, out_rk, snd (ctap_close_rk_file lib w))
                 else let c = cm_state w;
                          (out_rk, w) = ctap_load_rk lib (cs_list_unique_rps c ! unat (cs_rk_idx c)) out_rk w;
                          out_rk = decrypt_rk out_rk w;
                          w = cm_set (\<lambda>c. c\<lparr>cs_rk_idx := cs_rk_idx c + 1\<rparr>) w
                      in (0, out_rk, snd (ctap_close_rk_file lib w)))"

section \<open>Answers\<close>

definition rk_user :: "bytes \<Rightarrow> CTAP_userEntity" where "rk_user rk = user_of_bytes (slice 58 162 rk)"
definition rk_rp_id_hash :: "bytes \<Rightarrow> bytes" where "rk_rp_id_hash rk = slice 220 32 rk"
definition rk_rp_id :: "bytes \<Rightarrow> bytes" where "rk_rp_id rk = slice 252 32 rk"
definition rk_rp_id_size :: "bytes \<Rightarrow> nat" where "rk_rp_id_size rk = unat (rk ! 284)"

definition cbor_encode_credential_metadata :: "CborEncoder \<Rightarrow> ('fs, 'f, 'a) dev_scheme \<Rightarrow> CtapError \<times> CborEncoder" where
  "cbor_encode_credential_metadata encoder w =
     (let remaining_rks = ctap_max_number_of_rks - ucast (rk_stored (STATE w));
          (err, e) = enc_map 2
            [\<lambda>e. cbor_encode_int e 1, \<lambda>e. cbor_encode_int e (ucast (rk_stored (STATE w))),
             \<lambda>e. cbor_encode_int e 2, \<lambda>e. cbor_encode_int e (ucast remaining_rks)] encoder
      in (cbor_status err, e))"

definition extract_cred_protect_from_metadata :: "bytes \<Rightarrow> 'a crypto_scheme \<Rightarrow> byte" where
  "extract_cred_protect_from_metadata credential w =
     ctap_xcrypt_buf (cred_nonce credential) (cred_metadata credential) w ! CREDENTIAL_META_CRED_PROTECT_BYTE"

definition listed_cred_protect :: "bytes \<Rightarrow> 'a crypto_scheme \<Rightarrow> byte" where
  "listed_cred_protect credential w =
     (let cp = extract_cred_protect_from_metadata credential w
      in if cp = 0 \<or> cp > 3 then EXT_CRED_PROTECT_OPTIONAL else cp)"

text \<open>The answer for one credential; \<open>e\<close> and \<open>m\<close> are the encoders of the answer and of the map.\<close>

definition cbor_encode_enumerate_credential ::
  "'a crypto_scheme ecc_lib \<Rightarrow> CborEncoder \<Rightarrow> bytes \<Rightarrow> int \<Rightarrow> 'a crypto_scheme
     \<Rightarrow> (CtapError \<times> CborEncoder \<times> 'a crypto_scheme) option" where
  "cbor_encode_enumerate_credential lib encoder rk rk_count w =
     (let cid = rk_id rk;
          cp = listed_cred_protect cid w;
          cose_alg = ctap_restore_metadata_cose_alg cid w;
          (err, e, m) = cbor_encoder_create_map encoder (if rk_count > 0 then 5 else 4)
      in if err \<noteq> CborNoError then Some (CTAP2_ERR_INVALID_CBOR, e, w)
         else let (err, m) = cbor_encode_int m 6
              in if err \<noteq> CborNoError then Some (CTAP2_ERR_INVALID_CBOR, e\<lparr>ce_buf := ce_buf m\<rparr>, w)
                 else do {
                   (r, m) \<leftarrow> ctap_cbor_encode_user_entity m (rk_user rk) True;
                   if r \<noteq> CTAP2_OK then Some (r, e\<lparr>ce_buf := ce_buf m\<rparr>, w)
                   else let (err, m) = cbor_encode_int m 7
                        in if err \<noteq> CborNoError then Some (CTAP2_ERR_INVALID_CBOR, e\<lparr>ce_buf := ce_buf m\<rparr>, w)
                           else let (r, m) = ctap_cbor_encode_credential_descriptor m cid PUB_KEY_CRED_PUB_KEY
                                in if r \<noteq> CTAP2_OK then Some (r, e\<lparr>ce_buf := ce_buf m\<rparr>, w)
                                   else let (err, m) = cbor_encode_int m 8
                                        in if err \<noteq> CborNoError then Some (CTAP2_ERR_INVALID_CBOR, e\<lparr>ce_buf := ce_buf m\<rparr>, w)
                                           else do {
                                             (_, m, w) \<leftarrow> cose_key_generate lib m cid PUB_KEY_CRED_PUB_KEY cose_alg w;
                                             let (err, m) = enc_seq
                                               ((if rk_count > 0 then [\<lambda>e. cbor_encode_int e 9, \<lambda>e. cbor_encode_int e (of_int rk_count)] else [])
                                                @ [\<lambda>e. cbor_encode_int e 0x0A, \<lambda>e. cbor_encode_int e (ucast cp)]) m;
                                             if err \<noteq> CborNoError then Some (CTAP2_ERR_INVALID_CBOR, e\<lparr>ce_buf := ce_buf m\<rparr>, w)
                                             else let (err, e) = cbor_encoder_close_container e m
                                                  in Some (cbor_status err, e, w) } })"

text \<open>The result of writing the hash is not looked at. \<open>None\<close> is a name without a terminating zero: the code
  reads on through the display name and the RP's fields.\<close>

definition cbor_encode_enumerate_rp :: "CborEncoder \<Rightarrow> bytes \<Rightarrow> int \<Rightarrow> (CtapError \<times> CborEncoder) option" where
  "cbor_encode_enumerate_rp encoder rk rp_count = do {
     let from_name = drop (58 + USER_ID_MAX_SIZE + 1) rk;
     name_len \<leftarrow> strlen from_name;
     let (err, e) = enc_map (if rp_count > 0 then 3 else 2)
       ([\<lambda>e. cbor_encode_int e 3,
         enc_map 2 [text_lit ''id'',
           \<lambda>e. cbor_encode_text_string e (if rk_rp_id_size rk \<le> 32 then take (rk_rp_id_size rk) (rk_rp_id rk) else []),
           text_lit ''name'', \<lambda>e. cbor_encode_text_string e (take name_len from_name)],
         \<lambda>e. cbor_encode_int e 4, \<lambda>e. (CborNoError, snd (cbor_encode_byte_string e (rk_rp_id_hash rk)))]
        @ (if rp_count > 0 then [\<lambda>e. cbor_encode_int e 5, \<lambda>e. cbor_encode_int e (of_int rp_count)] else [])) encoder;
     Some (cbor_status err, e) }"

section \<open>Updating a user\<close>

text \<open>The search for the key with the given tag.\<close>

partial_function (option) find_rk_by_tag ::
  "('fs, 'f, 'd) lfs_lib \<Rightarrow> bytes \<Rightarrow> bytes \<Rightarrow> ('fs, 'f, 'a) ctap_scheme
     \<Rightarrow> (bool \<times> bytes \<times> ('fs, 'f, 'a) ctap_scheme) option"
where
  "find_rk_by_tag lib cid rk_buf w =
     Option.bind (scan_rk lib (cred_rp_id_lookup cid) RK_MODE_GET_NEXT rk_buf w) (\<lambda>(ret, rk_buf, w).
       if ret < 0 then Some (False, rk_buf, w)
       else if memcmp CREDENTIAL_TAG_SIZE (cred_tag cid) (cred_tag (rk_id rk_buf)) = 0 then Some (True, rk_buf, w)
       else find_rk_by_tag lib cid rk_buf w)"

declare find_rk_by_tag.simps [code]

text \<open>The key with the new names, encrypted under a new nonce and sealed.\<close>

definition rk_with_user :: "bytes \<Rightarrow> CTAP_userEntity \<Rightarrow> 'a rng_scheme \<Rightarrow> (bytes \<times> 'a rng_scheme) option" where
  "rk_with_user rk user w = do {
     let rk = blit rk (58 + USER_ID_MAX_SIZE + 1) (take USER_NAME_LIMIT (user_name user));
     let rk = blit rk (58 + USER_ID_MAX_SIZE + 1 + USER_NAME_LIMIT) (take DISPLAY_NAME_LIMIT (user_displayName user));
     (_, nonce, w) \<leftarrow> ctap_generate_rng (rk_rk_nonce rk) CREDENTIAL_NONCE_SIZE w;
     let rk = blit rk 301 nonce;
     let rk = blit rk 58 (ctap_xcrypt_buf (rk_rk_nonce rk) (rk_entities rk) w);
     (tag, w) \<leftarrow> ctap_compute_mac (take RK_HMAC_SIZE rk) CREDENTIAL_TAG_SIZE w;
     Some (blit rk RK_HMAC_SIZE tag, w) }"

definition update_credential_user_info ::
  "('fs, 'f, 'd) lfs_lib \<Rightarrow> bytes \<Rightarrow> CTAP_userEntity \<Rightarrow> bytes \<Rightarrow> ('fs, 'f, 'a) ctap_scheme
     \<Rightarrow> (CtapError \<times> ('fs, 'f, 'a) ctap_scheme) option" where
  "update_credential_user_info lib cid user rk_buf w = do {
     (found, rk, w) \<leftarrow> find_rk_by_tag lib cid rk_buf (clear_state w);
     if \<not> found then Some (CTAP2_ERR_NO_CREDENTIALS, w)
     else if memcmp (unat (user_id_size (rk_user rk))) (user_id (rk_user rk)) (user_id user) \<noteq> 0
     then Some (CTAP1_ERR_INVALID_PARAMETER, w)
     else do {
       (rk, w) \<leftarrow> rk_with_user rk user w;
       (ret, w) \<leftarrow> ctap_overwrite_rk lib rk w;
       Some (if ret < 0 then CTAP1_ERR_OTHER else CTAP2_OK, clear_state w) } }"

section \<open>The command\<close>

definition cm_enumerate_rp ::
  "('fs, 'f, 'd) lfs_lib \<Rightarrow> CborEncoder \<Rightarrow> int \<Rightarrow> ('fs, 'f, 'a) ctap_scheme
     \<Rightarrow> (CtapError \<times> CborEncoder \<times> ('fs, 'f, 'a) ctap_scheme) option" where
  "cm_enumerate_rp lib encoder count w =
     (let (ret, rk, w) = get_next_unique_rp lib (replicate sizeof_residentKey 0) w
      in if ret < 0 then Some (CTAP2_ERR_NOT_ALLOWED, encoder, clear_state w)
         else do { (r, e) \<leftarrow> cbor_encode_enumerate_rp encoder rk count; Some (r, e, w) })"

definition cm_enumerate_credential ::
  "('fs, 'f, 'd, ('fs, 'f, 'a) ctap_scheme) board \<Rightarrow> CborEncoder \<Rightarrow> CtapError \<Rightarrow> bytes \<Rightarrow> int \<Rightarrow> ('fs, 'f, 'a) ctap_scheme
     \<Rightarrow> (CtapError \<times> CborEncoder \<times> ('fs, 'f, 'a) ctap_scheme) option" where
  "cm_enumerate_credential b encoder none rk count w = do {
     (ret, rk, w) \<leftarrow> get_next_rk (b_lfs b) (cs_rp_id_hash (cm_state w)) rk w;
     if ret < 0 then Some (none, encoder, clear_state w)
     else cbor_encode_enumerate_credential (b_ecc b) encoder rk count w }"

definition cm_enumerateRPsBegin ::
  "('fs, 'f, 'd, ('fs, 'f, 'a) ctap_scheme) board \<Rightarrow> CborEncoder \<Rightarrow> ('fs, 'f, 'a) ctap_scheme
     \<Rightarrow> (CtapError \<times> CborEncoder \<times> ('fs, 'f, 'a) ctap_scheme) option" where
  "cm_enumerateRPsBegin b encoder w = do {
     w \<leftarrow> init_state CM_SubCmd_enumerateRPsBegin w;
     let (count, w) = get_count_unique_relying_parties (b_lfs b) w;
     if count \<le> 0 then Some (CTAP2_ERR_NO_CREDENTIALS, encoder, clear_state w)
     else cm_enumerate_rp (b_lfs b) encoder count w }"

definition cm_enumerateCredentialsBegin ::
  "('fs, 'f, 'd, ('fs, 'f, 'a) ctap_scheme) board \<Rightarrow> CborEncoder \<Rightarrow> CTAP_credMgmt \<Rightarrow> ('fs, 'f, 'a) ctap_scheme
     \<Rightarrow> (CtapError \<times> CborEncoder \<times> ('fs, 'f, 'a) ctap_scheme) option" where
  "cm_enumerateCredentialsBegin b encoder CM w = do {
     w \<leftarrow> init_state CM_SubCmd_enumerateCredentialsBegin w;
     if \<not> cm_rpIdHash_present CM then Some (CTAP2_ERR_MISSING_PARAMETER, encoder, w)
     else do {
       let w = cm_set (\<lambda>c. c\<lparr>cs_rp_id_hash := take 32 (cm_rpIdHash CM)\<rparr>) w;
       (count, rk, w) \<leftarrow> count_rk (b_lfs b) (cs_rp_id_hash (cm_state w)) (replicate sizeof_residentKey 0) w;
       if count \<le> 0 then Some (CTAP2_ERR_NO_CREDENTIALS, encoder, clear_state w)
       else cm_enumerate_credential b encoder CTAP2_ERR_NO_CREDENTIALS rk count w } }"

definition cm_deleteCredential ::
  "('fs, 'f, 'd) lfs_lib \<Rightarrow> CTAP_credMgmt \<Rightarrow> ('fs, 'f, 'a) ctap_scheme \<Rightarrow> (CtapError \<times> ('fs, 'f, 'a) ctap_scheme) option" where
  "cm_deleteCredential lib CM w =
     (if \<not> cm_credentialId_present CM then Some (CTAP2_ERR_MISSING_PARAMETER, w)
      else do {
        (ret, w) \<leftarrow> ctap_delete_rk lib (cred_id (cm_descriptor CM)) w;
        Some (if ret < 0 then CTAP2_ERR_NO_CREDENTIALS else CTAP2_OK, w) })"

definition cm_updateUserInformation ::
  "('fs, 'f, 'd) lfs_lib \<Rightarrow> CTAP_credMgmt \<Rightarrow> ('fs, 'f, 'a) ctap_scheme \<Rightarrow> (CtapError \<times> ('fs, 'f, 'a) ctap_scheme) option" where
  "cm_updateUserInformation lib CM w =
     (if \<not> cm_credentialId_present CM \<or> \<not> cm_credentialUser_present CM then Some (CTAP2_ERR_MISSING_PARAMETER, w)
      else update_credential_user_info lib (cred_id (cm_descriptor CM)) (cm_user CM) (replicate sizeof_residentKey 0) w)"

definition cm_subcommand ::
  "('fs, 'f, 'd, ('fs, 'f, 'a) ctap_scheme) board \<Rightarrow> CborEncoder \<Rightarrow> CTAP_credMgmt \<Rightarrow> ('fs, 'f, 'a) ctap_scheme
     \<Rightarrow> (CtapError \<times> CborEncoder \<times> ('fs, 'f, 'a) ctap_scheme) option" where
  "cm_subcommand b encoder CM w =
     (if cm_subCommand CM = CM_SubCmd_getCredsMetadata
      then let (r, e) = cbor_encode_credential_metadata encoder w in Some (r, e, w)
      else if cm_subCommand CM = CM_SubCmd_enumerateRPsBegin then cm_enumerateRPsBegin b encoder w
      else if cm_subCommand CM = CM_SubCmd_enumerateRPsGetNextRP
      then do {
        (ret, w) \<leftarrow> check_state CM_SubCmd_enumerateRPsGetNextRP w;
        if ret < 0 then Some (CTAP2_ERR_NOT_ALLOWED, encoder, w)
        else cm_enumerate_rp (b_lfs b) encoder 0 w }
      else if cm_subCommand CM = CM_SubCmd_enumerateCredentialsBegin then cm_enumerateCredentialsBegin b encoder CM w
      else if cm_subCommand CM = CM_SubCmd_enumerateCredentialsGetNextCredential
      then do {
        (ret, w) \<leftarrow> check_state CM_SubCmd_enumerateCredentialsGetNextCredential w;
        if ret < 0 then Some (CTAP2_ERR_NOT_ALLOWED, encoder, w)
        else cm_enumerate_credential b encoder CTAP1_ERR_OTHER (replicate sizeof_residentKey 0) 0 w }
      else if cm_subCommand CM = CM_SubCmd_deleteCredential
      then do { (r, w) \<leftarrow> cm_deleteCredential (b_lfs b) CM w; Some (r, encoder, w) }
      else if cm_subCommand CM = CM_SubCmd_updateUserInformation
      then do { (r, w) \<leftarrow> cm_updateUserInformation (b_lfs b) CM w; Some (r, encoder, w) }
      else Some (CTAP1_ERR_INVALID_COMMAND, encoder, w))"

definition ctap_credential_management ::
  "('fs, 'f, 'd, ('fs, 'f, 'a) ctap_scheme) board \<Rightarrow> CborEncoder \<Rightarrow> bytes \<Rightarrow> ('fs, 'f, 'a) ctap_scheme
     \<Rightarrow> (CtapError \<times> CborEncoder \<times> ('fs, 'f, 'a) ctap_scheme) option" where
  "ctap_credential_management b encoder request w = do {
     req \<leftarrow> parse_credential_management_request (parse_locals_of w) request;
     case req of
       Inl e \<Rightarrow> Some (e, encoder, w)
     | Inr CM \<Rightarrow> do {
         (r, w) \<leftarrow> verify_pin_auth_for_credential_management CM w;
         if r \<noteq> CTAP2_OK then Some (r, encoder, w) else cm_subcommand b encoder CM w } }"

end
