(* ===== verification/U2f.thy ===== *)
theory U2f
  imports Ctap_Core
begin

text \<open>
  \<open>fido2/src/u2f.c\<close> (built with \<open>ENABLE_U2F\<close>): the older protocol. The request lies in the transport's
  \<open>ctap_buffer\<close>: class, instruction, two parameters, a length of three bytes and the payload. The signature is
  computed into the payload's place, so signing changes the buffer. The response is threaded explicitly;
  running out of its space is \<open>exit (1)\<close>, \<open>None\<close>. The tag of a key handle and its check are in \<open>Ctap_Core\<close>.
\<close>

definition U2F_REGISTER :: byte where "U2F_REGISTER = 0x01"
definition U2F_AUTHENTICATE :: byte where "U2F_AUTHENTICATE = 0x02"
definition U2F_VERSION :: byte where "U2F_VERSION = 0x03"
definition U2F_VENDOR_FIRST :: byte where "U2F_VENDOR_FIRST = 0xc0"
definition U2F_VENDOR_LAST :: byte where "U2F_VENDOR_LAST = 0xff"
definition U2F_EC_FMT_UNCOMPRESSED :: byte where "U2F_EC_FMT_UNCOMPRESSED = 0x04"

definition U2F_AUTHENTICATE_CHECK :: byte where "U2F_AUTHENTICATE_CHECK = 0x7"
definition U2F_AUTHENTICATE_SIGN :: byte where "U2F_AUTHENTICATE_SIGN = 0x3"
definition U2F_AUTHENTICATE_SIGN_NO_USER :: byte where "U2F_AUTHENTICATE_SIGN_NO_USER = 0x8"

definition U2F_SW_NO_ERROR :: u16 where "U2F_SW_NO_ERROR = 0x9000"
definition U2F_SW_CONDITIONS_NOT_SATISFIED :: u16 where "U2F_SW_CONDITIONS_NOT_SATISFIED = 0x6985"
definition U2F_SW_INS_NOT_SUPPORTED :: u16 where "U2F_SW_INS_NOT_SUPPORTED = 0x6d00"
definition U2F_SW_WRONG_LENGTH :: u16 where "U2F_SW_WRONG_LENGTH = 0x6700"
definition U2F_SW_CLASS_NOT_SUPPORTED :: u16 where "U2F_SW_CLASS_NOT_SUPPORTED = 0x6E00"
definition U2F_SW_WRONG_DATA :: u16 where "U2F_SW_WRONG_DATA = 0x6a80"
definition U2F_SW_INSUFFICIENT_MEMORY :: u16 where "U2F_SW_INSUFFICIENT_MEMORY = 0x9210"

section \<open>The response\<close>

definition CTAP_RESPONSE_BUFFER_SIZE :: nat where "CTAP_RESPONSE_BUFFER_SIZE = 1200"

record CTAP_RESPONSE =
  resp_data :: bytes
  resp_data_size :: nat
  resp_length :: nat

definition ctap_response_init :: CTAP_RESPONSE where
  "ctap_response_init = \<lparr>resp_data = replicate CTAP_RESPONSE_BUFFER_SIZE 0, resp_data_size = CTAP_RESPONSE_BUFFER_SIZE,
     resp_length = 0\<rparr>"

definition u2f_response_writeback :: "bytes \<Rightarrow> CTAP_RESPONSE \<Rightarrow> CTAP_RESPONSE option" where
  "u2f_response_writeback buf r =
     (if resp_length r + length buf > resp_data_size r then None
      else Some (r\<lparr>resp_data := blit (resp_data r) (resp_length r) buf, resp_length := resp_length r + length buf\<rparr>))"

definition u2f_reset_response :: "CTAP_RESPONSE \<Rightarrow> CTAP_RESPONSE" where
  "u2f_reset_response r = ctap_response_init"

definition dump_signature_der :: "bytes \<Rightarrow> CTAP_RESPONSE \<Rightarrow> CTAP_RESPONSE option" where
  "dump_signature_der sig r = do {
     (sigder, len) \<leftarrow> ctap_encode_der_sig sig;
     u2f_response_writeback (take len sigder) r }"

section \<open>Keys\<close>

definition u2f_load_key :: "bytes \<Rightarrow> nat \<Rightarrow> 'a crypto_scheme \<Rightarrow> 'a crypto_scheme option" where
  "u2f_load_key kh khl w = crypto_ecc256_load_key (take khl kh) [] w"

text \<open>The result is the key handle and the public key.\<close>

definition u2f_new_keypair ::
  "'a rng_scheme ecc_lib \<Rightarrow> bytes \<Rightarrow> bytes \<Rightarrow> 'a rng_scheme \<Rightarrow> (bytes \<times> bytes \<times> 'a rng_scheme) option" where
  "u2f_new_keypair lib key_handle appid w = do {
     (_, key, w) \<leftarrow> ctap_generate_rng (kh_key key_handle) U2F_KEY_HANDLE_KEY_SIZE w;
     let kh = blit key_handle U2F_KEY_HANDLE_TAG_SIZE key;
     (tag, w) \<leftarrow> u2f_make_auth_tag kh appid w;
     let kh = blit kh 0 tag;
     ((x, y), w) \<leftarrow> crypto_ecc256_derive_public_key lib (take U2F_KEY_HANDLE_SIZE kh) w;
     Some (kh, x @ y, w) }"

text \<open>The fields of the payload: challenge (32), application (32), and for an authentication the length of the
  key handle (1) and the key handle.\<close>

definition req_payload :: "bytes \<Rightarrow> bytes" where "req_payload req = drop 7 req"
definition req_chal :: "bytes \<Rightarrow> bytes" where "req_chal p = slice 0 32 p"
definition req_app :: "bytes \<Rightarrow> bytes" where "req_app p = slice 32 U2F_APPLICATION_SIZE p"
definition req_khl :: "bytes \<Rightarrow> byte" where "req_khl p = p ! 64"
definition req_kh :: "bytes \<Rightarrow> bytes" where "req_kh p = drop 65 p"

definition u2f_sign_into_request ::
  "('fs, 'f, 'd, ('fs, 'f, 'a) cpin_scheme) board \<Rightarrow> bytes \<Rightarrow> ('fs, 'f, 'a) cpin_scheme
     \<Rightarrow> (bytes \<times> ('fs, 'f, 'a) cpin_scheme) option" where
  "u2f_sign_into_request b hash w = do {
     (sig, w) \<leftarrow> crypto_ecc256_sign (b_ecc b) hash w;
     let w = w\<lparr>ctap_buffer := blit (ctap_buffer w) 7 sig\<rparr>;
     Some (slice 0 64 (req_payload (ctap_buffer w)), w) }"

section \<open>Authentication\<close>

text \<open>The signature and the answer, after the checks.\<close>

definition u2f_authenticate_sign ::
  "('fs, 'f, 'd, ('fs, 'f, 'a) cpin_scheme) board \<Rightarrow> bytes \<Rightarrow> byte \<Rightarrow> CTAP_RESPONSE \<Rightarrow> ('fs, 'f, 'a) cpin_scheme
     \<Rightarrow> (u16 \<times> CTAP_RESPONSE \<times> ('fs, 'f, 'a) cpin_scheme) option" where
  "u2f_authenticate_sign b req up resp w = do {
     (count, w) \<leftarrow> ctap_atomic_count (b_lfs b) (b_file0 b) 0 w;
     let w = fold crypto_sha256_update [req_app req, [up], be32 count, req_chal req] (crypto_sha256_init w);
     let (hash, w) = crypto_sha256_final w;
     (sig, w) \<leftarrow> u2f_sign_into_request b hash w;
     resp \<leftarrow> u2f_response_writeback [up] resp;
     resp \<leftarrow> u2f_response_writeback (be32 count) resp;
     resp \<leftarrow> dump_signature_der sig resp;
     Some (U2F_SW_NO_ERROR, resp, w) }"

definition u2f_authenticate ::
  "('fs, 'f, 'd, ('fs, 'f, 'a) cpin_scheme) board \<Rightarrow> bytes \<Rightarrow> byte \<Rightarrow> CTAP_RESPONSE \<Rightarrow> ('fs, 'f, 'a) cpin_scheme
     \<Rightarrow> (u16 \<times> CTAP_RESPONSE \<times> ('fs, 'f, 'a) cpin_scheme) option" where
  "u2f_authenticate b req control resp w =
     (if control = U2F_AUTHENTICATE_CHECK
      then do {
        (ok, w) \<leftarrow> u2f_authenticate_credential (req_kh req) (unat (req_khl req)) (req_app req) w;
        Some (if ok then U2F_SW_CONDITIONS_NOT_SATISFIED else U2F_SW_WRONG_DATA, resp, w) }
      else if control \<noteq> U2F_AUTHENTICATE_SIGN \<and> control \<noteq> U2F_AUTHENTICATE_SIGN_NO_USER
      then Some (U2F_SW_WRONG_DATA, resp, w)
      else do {
        (ok, w) \<leftarrow> u2f_authenticate_credential (req_kh req) (unat (req_khl req)) (req_app req) w;
        if \<not> ok then Some (U2F_SW_WRONG_DATA, resp, w)
        else do {
          w \<leftarrow> u2f_load_key (req_kh req) (unat (req_khl req)) w;
          let up = (if control = U2F_AUTHENTICATE_SIGN_NO_USER then 0 else 1);
          (present, w) \<leftarrow> (if up \<noteq> 0 then ctap_user_presence_test (b_touch_bit b) 750 w else Some (1, w));
          if present = 0 then Some (U2F_SW_CONDITIONS_NOT_SATISFIED, resp, w)
          else u2f_authenticate_sign b req up resp w } })"

section \<open>Registration\<close>

definition u2f_register_answer ::
  "('fs, 'f, 'd) lfs_lib \<Rightarrow> 'f \<Rightarrow> bytes \<Rightarrow> bytes \<Rightarrow> bytes \<Rightarrow> CTAP_RESPONSE \<Rightarrow> ('fs, 'f, 'a) dev_scheme
     \<Rightarrow> (u16 \<times> CTAP_RESPONSE \<times> ('fs, 'f, 'a) dev_scheme) option" where
  "u2f_register_answer lib f0 key_handle pubkey sig resp w = do {
     resp \<leftarrow> u2f_response_writeback [0x05, U2F_EC_FMT_UNCOMPRESSED] resp;
     resp \<leftarrow> u2f_response_writeback pubkey resp;
     resp \<leftarrow> u2f_response_writeback [of_nat U2F_KEY_HANDLE_SIZE] resp;
     resp \<leftarrow> u2f_response_writeback (take U2F_KEY_HANDLE_SIZE key_handle) resp;
     let (ret, cert, attest_size, w) = attestation_read_cert lib f0 (uninit 1024 w) 1024 0 w;
     if ret < 0 then Some (U2F_SW_INSUFFICIENT_MEMORY, resp, w)
     else do {
       resp \<leftarrow> u2f_response_writeback (take attest_size cert) resp;
       resp \<leftarrow> dump_signature_der sig resp;
       Some (U2F_SW_NO_ERROR, resp, w) } }"

definition u2f_register ::
  "('fs, 'f, 'd, ('fs, 'f, 'a) cpin_scheme) board \<Rightarrow> bytes \<Rightarrow> CTAP_RESPONSE \<Rightarrow> ('fs, 'f, 'a) cpin_scheme
     \<Rightarrow> (u16 \<times> CTAP_RESPONSE \<times> ('fs, 'f, 'a) cpin_scheme) option" where
  "u2f_register b req resp w = do {
     (present, w) \<leftarrow> ctap_user_presence_test (b_touch_bit b) 750 w;
     if present = 0 then Some (U2F_SW_CONDITIONS_NOT_SATISFIED, resp, w)
     else do {
       (key_handle, pubkey, w) \<leftarrow> u2f_new_keypair (b_ecc b) (uninit U2F_KEY_HANDLE_SIZE w) (req_app req) w;
       let w = fold crypto_sha256_update [[0], req_app req, req_chal req, take U2F_KEY_HANDLE_SIZE key_handle,
         [U2F_EC_FMT_UNCOMPRESSED], pubkey] (crypto_sha256_init w);
       let (hash, w) = crypto_sha256_final w;
       (sig, w) \<leftarrow> u2f_sign_into_request b hash (crypto_ecc256_load_attestation_key w);
       u2f_register_answer (b_lfs b) (b_file0 b) key_handle pubkey sig resp w } }"

definition u2f_version :: "CTAP_RESPONSE \<Rightarrow> (u16 \<times> CTAP_RESPONSE) option" where
  "u2f_version resp = do {
     resp \<leftarrow> u2f_response_writeback (butlast (c_string ''U2F_V2'')) resp;
     Some (U2F_SW_NO_ERROR, resp) }"

section \<open>Requests\<close>

text \<open>The instruction, between the two changes of the device's status.\<close>

definition u2f_instruction ::
  "('fs, 'f, 'd, ('fs, 'f, 'a) cpin_scheme) board \<Rightarrow> byte \<Rightarrow> byte \<Rightarrow> bytes \<Rightarrow> u32 \<Rightarrow> CTAP_RESPONSE \<Rightarrow> ('fs, 'f, 'a) cpin_scheme
     \<Rightarrow> (u16 \<times> CTAP_RESPONSE \<times> ('fs, 'f, 'a) cpin_scheme) option" where
  "u2f_instruction b ins p1 payload len resp w =
     (if ins = U2F_REGISTER
      then if len \<noteq> 64 then Some (U2F_SW_WRONG_LENGTH, resp, w) else u2f_register b payload resp w
      else if ins = U2F_AUTHENTICATE then u2f_authenticate b payload p1 resp w
      else if ins = U2F_VERSION
      then if len \<noteq> 0 then Some (U2F_SW_WRONG_LENGTH, resp, w)
           else do { (rcode, resp) \<leftarrow> u2f_version resp; Some (rcode, resp, w) }
      else if ins = U2F_VENDOR_FIRST \<or> ins = U2F_VENDOR_LAST then Some (U2F_SW_NO_ERROR, resp, w)
      else Some (U2F_SW_INS_NOT_SUPPORTED, resp, w))"

definition u2f_request_ex ::
  "('fs, 'f, 'd, ('fs, 'f, 'a) cpin_scheme) board \<Rightarrow> bytes \<Rightarrow> bytes \<Rightarrow> u32 \<Rightarrow> ('fs, 'f, 'a) cpin_scheme
     \<Rightarrow> (CTAP_RESPONSE \<times> ('fs, 'f, 'a) cpin_scheme) option" where
  "u2f_request_ex b req payload len w = do {
     let resp = ctap_response_init;
     (rcode, resp, w) \<leftarrow>
       (if req ! 0 \<noteq> 0 then Some (U2F_SW_CLASS_NOT_SUPPORTED, resp, w)
        else do {
          (rcode, resp, w) \<leftarrow> u2f_instruction b (req ! 1) (req ! 2) payload len resp
            (device_set_status CTAPHID_STATUS_PROCESSING w);
          Some (rcode, resp, device_set_status CTAPHID_STATUS_IDLE w) });
     let resp = (if rcode \<noteq> U2F_SW_NO_ERROR then ctap_response_init else resp);
     resp \<leftarrow> u2f_response_writeback [ucast (drop_bit 8 rcode)] resp;
     resp \<leftarrow> u2f_response_writeback [ucast rcode] resp;
     Some (resp, w) }"

definition u2f_request ::
  "('fs, 'f, 'd, ('fs, 'f, 'a) cpin_scheme) board \<Rightarrow> bytes \<Rightarrow> ('fs, 'f, 'a) cpin_scheme
     \<Rightarrow> (CTAP_RESPONSE \<times> ('fs, 'f, 'a) cpin_scheme) option" where
  "u2f_request b req w =
     (let len = ucast (req ! 6) OR push_bit 8 (ucast (req ! 5)) OR push_bit 16 (ucast (req ! 4))
      in u2f_request_ex b req (req_payload req) len w)"

end
