(* ===== verification/Ctap_Request.thy ===== *)
theory Ctap_Request
  imports Credential_Management U2f
begin

text \<open>
  The dispatcher \<open>ctap_request\<close> of \<open>fido2/src/ctap.c\<close>, and the application as the transport sees it: the
  handlers that \<open>Ctaphid\<close> takes as a parameter, filled with the functions of this program.
\<close>

definition CTAP_MAKE_CREDENTIAL :: byte where "CTAP_MAKE_CREDENTIAL = 0x01"
definition CTAP_GET_ASSERTION :: byte where "CTAP_GET_ASSERTION = 0x02"
definition CTAP_GET_INFO :: byte where "CTAP_GET_INFO = 0x04"
definition CTAP_CLIENT_PIN :: byte where "CTAP_CLIENT_PIN = 0x06"
definition CTAP_RESET :: byte where "CTAP_RESET = 0x07"
definition CTAP_GET_NEXT_ASSERTION :: byte where "CTAP_GET_NEXT_ASSERTION = 0x08"
definition CTAP_CREDENTIAL_MANAGEMENT :: byte where "CTAP_CREDENTIAL_MANAGEMENT = 0x0A"
definition CTAP_SELECTION :: byte where "CTAP_SELECTION = 0x0B"
definition CTAP_CREDENTIAL_MANAGEMENT_PRE :: byte where "CTAP_CREDENTIAL_MANAGEMENT_PRE = 0x41"

text \<open>The commands that are refused while the PIN is blocked.\<close>

definition needs_pin_unlocked :: "byte \<Rightarrow> bool" where
  "needs_pin_unlocked cmd \<longleftrightarrow> cmd = CTAP_MAKE_CREDENTIAL \<or> cmd = CTAP_GET_ASSERTION
     \<or> cmd = CTAP_CREDENTIAL_MANAGEMENT \<or> cmd = CTAP_CREDENTIAL_MANAGEMENT_PRE"

text \<open>The second switch: the status, the encoder, and the value \<open>lastcmd\<close> gets.\<close>

definition run_command ::
  "('fs, 'f, 'd, ('fs, 'f, 'a) ctap_scheme) board \<Rightarrow> byte \<Rightarrow> CborEncoder \<Rightarrow> bytes \<Rightarrow> ('fs, 'f, 'a) ctap_scheme
     \<Rightarrow> (CtapError \<times> CborEncoder \<times> byte \<times> ('fs, 'f, 'a) ctap_scheme) option" where
  "run_command b cmd encoder pkt w =
     (if cmd = CTAP_MAKE_CREDENTIAL
      then do { (r, e, w) \<leftarrow> ctap_make_credential b encoder pkt w; Some (r, e, cmd, w) }
      else if cmd = CTAP_GET_ASSERTION
      then do { (r, e, w) \<leftarrow> ctap_get_assertion b encoder pkt w; Some (r, e, cmd, w) }
      else if cmd = CTAP_GET_INFO
      then let (r, e) = ctap_get_info encoder w in Some (r, e, cmd, w)
      else if cmd = CTAP_CLIENT_PIN
      then do { (r, e, w) \<leftarrow> ctap_client_pin (b_env b) encoder pkt w; Some (r, e, cmd, w) }
      else if cmd = CTAP_RESET
      then do { (r, w) \<leftarrow> ctap_reset b w; Some (r, encoder, cmd, w) }
      else if cmd = CTAP_GET_NEXT_ASSERTION
      then if ga_lastcmd (getAssertionState w) = CTAP_GET_ASSERTION
           then do {
             (r, e, w) \<leftarrow> ctap_get_next_assertion b encoder w;
             Some (r, e, if r = CTAP2_OK then CTAP_GET_ASSERTION else cmd, w) }
           else Some (CTAP2_ERR_NOT_ALLOWED, encoder, cmd, w)
      else if cmd = CTAP_CREDENTIAL_MANAGEMENT \<or> cmd = CTAP_CREDENTIAL_MANAGEMENT_PRE
      then do { (r, e, w) \<leftarrow> ctap_credential_management b encoder pkt w; Some (r, e, cmd, w) }
      else if cmd = CTAP_SELECTION
      then do {
        (r, w) \<leftarrow> ctap2_user_presence_test (b_touch_bit b) w;
        Some (if r \<noteq> CTAP2_OK then CTAP2_ERR_USER_ACTION_TIMEOUT else CTAP2_OK, encoder, cmd, w) }
      else Some (CTAP1_ERR_INVALID_COMMAND, encoder, cmd, w))"

text \<open>The two commands without output leave the response's length alone.\<close>

definition ctap_request ::
  "('fs, 'f, 'd, ('fs, 'f, 'a) ctap_scheme) board \<Rightarrow> bytes \<Rightarrow> CTAP_RESPONSE \<Rightarrow> ('fs, 'f, 'a) ctap_scheme
     \<Rightarrow> (CtapError \<times> CTAP_RESPONSE \<times> ('fs, 'f, 'a) ctap_scheme) option" where
  "ctap_request b pkt resp w =
     (case pkt of
        [] \<Rightarrow> None
      | cmd # pkt \<Rightarrow> do {
          let encoder = cbor_encoder_init (resp_data resp) 0 (resp_data_size resp) 0;
          let w = device_set_status CTAPHID_STATUS_PROCESSING w;
          (r, e, lastcmd, w) \<leftarrow>
            (if needs_pin_unlocked cmd \<and> ctap_client_pin_is_locked w then Some (CTAP2_ERR_PIN_BLOCKED, encoder, cmd, w)
             else if needs_pin_unlocked cmd \<and> ctap_client_pin_is_boot_locked w
             then Some (CTAP2_ERR_PIN_AUTH_BLOCKED, encoder, cmd, w)
             else run_command b cmd encoder pkt w);
          let w = ga_set (\<lambda>g. g\<lparr>ga_lastcmd := lastcmd\<rparr>) (device_set_status CTAPHID_STATUS_IDLE w);
          let len = (if r \<noteq> CTAP2_OK then 0 else if cmd = CTAP_RESET \<or> cmd = CTAP_SELECTION then resp_length resp
            else cbor_encoder_get_buffer_size e 0);
          Some (r, resp\<lparr>resp_data := ce_buf e, resp_length := len\<rparr>, w) })"

section \<open>The application\<close>

definition fido_app ::
  "('fs, 'f, 'd, ('fs, 'f, 'a) ctap_scheme) board \<Rightarrow> ('fs, 'f, 'a) ctap_scheme hid_app" where
  "fido_app b =
     \<lparr>app_ctap_request = (\<lambda>len w. do {
        (r, resp, w) \<leftarrow> ctap_request b (take (unat len) (ctap_buffer w)) ctap_response_init w;
        Some (r, take (resp_length resp) (resp_data resp), w) }),
      app_u2f_request = (\<lambda>w. do {
        (resp, w) \<leftarrow> u2f_request b (ctap_buffer w) w;
        Some (take (resp_length resp) (resp_data resp), w) }),
      app_write_key = (\<lambda>len w. attestation_write_key (b_lfs b) (b_file0 b) (take (unat len) (ctap_buffer w)) w),
      app_write_cert = (\<lambda>len w. Some (attestation_write_cert (b_lfs b) (b_file0 b) (take (unat len) (ctap_buffer w)) w)),
      app_generate_rng = (\<lambda>n w. do { (_, bs, w) \<leftarrow> ctap_generate_rng (take n (ctap_buffer w)) n w; Some (bs, w) })\<rparr>"

end
