(* ===== verification/Der_Laws.thy ===== *)
theory Der_Laws
  imports Ctap_Core
begin

text \<open>
  The DER encoding of ECDSA signatures (\<open>ctap_encode_der_sig\<close> of \<open>fido2/src/ctap.c\<close>): a strict decoder of a
  sequence of two non-negative integers in their shortest form reads both numbers back, and the encoding fits its
  buffer of 72 bytes.
\<close>

section \<open>A strict decoder\<close>

definition der_int :: "bytes \<Rightarrow> (nat \<times> bytes) option" where
  "der_int bs = (case bs of
     t # n # rest \<Rightarrow>
       let c = take (unat n) rest
       in if t = 0x02 \<and> n \<noteq> 0 \<and> unat n < 128 \<and> unat n \<le> length rest \<and> unat (c ! 0) < 128
             \<and> (1 < unat n \<and> c ! 0 = 0 \<longrightarrow> 128 \<le> unat (c ! 1))
          then Some (of_be c, drop (unat n) rest) else None
   | _ \<Rightarrow> None)"

definition der_sig :: "bytes \<Rightarrow> (nat \<times> nat) option" where
  "der_sig bs = (case bs of
     t # n # rest \<Rightarrow>
       if t = 0x30 \<and> unat n < 128 \<and> unat n = length rest
       then do { (r, rest) \<leftarrow> der_int rest; (s, rest) \<leftarrow> der_int rest; if rest = [] then Some (r, s) else None }
       else None
   | _ \<Rightarrow> None)"

section \<open>Leading zeros\<close>

lemma lead_zeros_run:
  "lead_zeros buf i n \<le> n \<and> (\<forall>j < lead_zeros buf i n. buf ! (i + j) = 0)
   \<and> (lead_zeros buf i n < n \<longrightarrow> buf ! (i + lead_zeros buf i n) \<noteq> 0)"
proof (induction n arbitrary: i)
  case (Suc n)
  show ?case
  proof (cases "buf ! i = 0")
    case True
    then show ?thesis using Suc.IH [of "i + 1"] by (auto simp: less_Suc_eq_0_disj)
  qed simp
qed simp

lemma of_be_zeros: "of_be (replicate n 0 @ bs) = of_be bs"
  by (induction n) (simp_all add: of_be_def)

text \<open>The significant bytes of one half of the signature.\<close>

definition significant :: "bytes \<Rightarrow> nat \<Rightarrow> bytes" where
  "significant buf i = slice (i + lead_zeros buf i 32) (32 - lead_zeros buf i 32) buf"

lemma significant_value:
  assumes "i + 32 \<le> length buf" "of_be (slice i 32 buf) \<noteq> 0"
  shows "of_be (significant buf i) = of_be (slice i 32 buf)" "length (significant buf i) = 32 - lead_zeros buf i 32"
    "lead_zeros buf i 32 < 32" "significant buf i \<noteq> []" "significant buf i ! 0 = buf ! (i + lead_zeros buf i 32)"
    "significant buf i ! 0 \<noteq> 0"
proof -
  let ?l = "lead_zeros buf i 32"
  have l: "?l \<le> 32" "\<And>j. j < ?l \<Longrightarrow> buf ! (i + j) = 0" "?l < 32 \<Longrightarrow> buf ! (i + ?l) \<noteq> 0"
    using lead_zeros_run [of buf i 32] by auto
  have z: "slice i ?l buf = replicate ?l 0"
    using assms(1) l(1,2) by (auto simp: slice_def list_eq_iff_nth_eq)
  have s: "slice i 32 buf = replicate ?l 0 @ significant buf i"
    using slice_append_parts [of i ?l "32 - ?l" buf] l(1) z by (simp add: significant_def)
  then show v: "of_be (significant buf i) = of_be (slice i 32 buf)" by (simp add: of_be_zeros)
  show n: "length (significant buf i) = 32 - ?l" using assms(1) by (simp add: significant_def slice_def)
  have "significant buf i = [] \<Longrightarrow> of_be (slice i 32 buf) = 0" unfolding v [symmetric] by (simp add: of_be_def)
  then show ne: "significant buf i \<noteq> []" using assms(2) by blast
  then show lt: "?l < 32" using n l(1) by (cases "?l = 32") auto
  then show "significant buf i ! 0 = buf ! (i + ?l)" using assms(1) by (simp add: significant_def slice_def)
  then show "significant buf i ! 0 \<noteq> 0" using l(3) [OF lt] by simp
qed

section \<open>The encoding\<close>

definition sign_pad :: "bytes \<Rightarrow> nat" where
  "sign_pad bs = (if bs ! 0 AND 0x80 = 0x80 then 1 else 0)"

lemma sign_pad_le: "sign_pad bs \<le> 1"
  by (simp add: sign_pad_def)

lemma top_bit: "(b :: byte) AND 0x80 = 0x80 \<longleftrightarrow> 128 \<le> unat b"
proof -
  have "unat b div 128 < 2" using unsigned_less [of b, where 'a = nat] by simp
  then have "odd (unat b div 128) \<longleftrightarrow> 128 \<le> unat b" by (auto simp: less_2_cases_iff)
  then have v: "bit b 7 \<longleftrightarrow> 128 \<le> unat b"
    using bit_unsigned_iff [of b 7, where 'a = nat] by (simp add: bit_iff_odd)
  have e: "(0x80 :: byte) = 2 ^ 7" by simp
  have k: "bit (0x80 :: byte) n \<longleftrightarrow> n = 7" for n unfolding e bit_exp_iff by auto
  have "b AND 0x80 = 0x80 \<longleftrightarrow> bit b 7"
  proof
    assume "b AND 0x80 = 0x80"
    then have "bit (b AND 0x80) 7" using k [of 7] by (simp only:)
    then show "bit b 7" by (simp only: bit_and_iff)
  next
    assume "bit b 7"
    then show "b AND 0x80 = 0x80" by (intro bit_eqI) (simp only: bit_and_iff k, blast)
  qed
  then show ?thesis using v by simp
qed

text \<open>The output buffer after some writes: its 72 bytes start with \<open>P\<close>.\<close>

definition wrote :: "bytes \<Rightarrow> bytes \<Rightarrow> bool" where
  "wrote out P \<longleftrightarrow> length out = 72 \<and> length P \<le> 72 \<and> take (length P) out = P"

lemma wrote_byte:
  assumes "wrote out P" "i = length P" "i < 72"
  shows "wrote (out[i := x]) (P @ [x])"
  using assms by (simp add: wrote_def take_Suc_conv_app_nth)

lemma wrote_pad:
  assumes "wrote out P" "i = length P + q" "k = length P" "q \<le> 1" "i < 71"
  shows "wrote (out[i := 0, k := x]) (P @ [x] @ replicate q 0)"
proof (cases "q = 0")
  case True
  then show ?thesis using assms wrote_byte [OF assms(1), of k x] by simp
next
  case False
  then have q: "q = 1" using assms(4) by simp
  have "wrote (out[k := x, i := 0]) ((P @ [x]) @ [0])"
    by (rule wrote_byte [OF wrote_byte]) (use assms q in auto)
  then show ?thesis using q assms(2,3) by (simp add: list_update_swap)
qed

lemma wrote_run:
  assumes "wrote out P" "i = length P" "i + length d \<le> 72"
  shows "wrote (blit out i d) (P @ d)"
  using assms by (simp add: wrote_def blit_def)

definition der_bytes :: "bytes \<Rightarrow> bytes" where
  "der_bytes bs = [0x02, of_nat (length bs + sign_pad bs)] @ replicate (sign_pad bs) 0 @ bs"

lemma der_int_bytes:
  assumes "bs \<noteq> []" "bs ! 0 \<noteq> 0" "length bs \<le> 32"
  shows "der_int (der_bytes bs @ rest) = Some (of_be bs, rest)"
proof -
  have u: "unat (of_nat (length bs + sign_pad bs) :: byte) = length bs + sign_pad bs"
    using assms(3) sign_pad_le [of bs] by (intro unat_of_nat_small) auto
  have z: "(of_nat (length bs + sign_pad bs) :: byte) \<noteq> 0" using u assms(1) by (metis add_is_0 length_0_conv unat_0)
  show ?thesis
  proof (cases "128 \<le> unat (bs ! 0)")
    case True
    then have p: "sign_pad bs = 1" by (simp add: sign_pad_def top_bit)
    show ?thesis
      using assms True u z of_be_zeros [of 1 bs] unfolding der_bytes_def p der_int_def by (simp add: Let_def nth_append)
  next
    case False
    then have p: "sign_pad bs = 0" by (simp add: sign_pad_def top_bit)
    show ?thesis
      using assms False u z unfolding der_bytes_def p der_int_def by (simp add: Let_def nth_append)
  qed
qed

lemma encode_der_sig_bytes:
  assumes "length sig = 64" "of_be (slice 0 32 sig) \<noteq> 0" "of_be (slice 32 32 sig) \<noteq> 0"
  defines "R \<equiv> significant sig 0" and "S \<equiv> significant sig 32"
  obtains out where "ctap_encode_der_sig sig = Some (out, length (der_bytes R @ der_bytes S) + 2)"
    "wrote out ([0x30, of_nat (length (der_bytes R @ der_bytes S))] @ der_bytes R @ der_bytes S)"
proof -
  note r = significant_value [of 0 sig, folded R_def] and s = significant_value [of 32 sig, folded S_def]
  define lr ls where "lr = lead_zeros sig 0 32" and "ls = lead_zeros sig 32 32"
  define p q where "p = sign_pad R" and "q = sign_pad S"
  have lr: "lr < 32" "length R = 32 - lr" "R ! 0 = sig ! lr" and ls: "ls < 32" "length S = 32 - ls" "S ! 0 = sig ! (32 + ls)"
    using r s assms by (simp_all add: lr_def ls_def)
  have pq: "p \<le> 1" "q \<le> 1" unfolding p_def q_def by (rule sign_pad_le)+
  have padr: "(if sig ! (0 + lr) AND 0x80 = 0x80 then 1 else 0) = p" and pads: "(if sig ! (32 + ls) AND 0x80 = 0x80 then 1 else 0) = q"
    by (simp_all add: p_def q_def sign_pad_def lr ls)
  have Rs: "slice lr (32 - lr) sig = R" and Ss: "slice (32 + ls) (32 - ls) sig = S"
    by (simp_all add: R_def S_def significant_def lr_def ls_def)
  define n where "n = length (der_bytes R @ der_bytes S)"
  have n: "n = 68 + p + q - lr - ls" using lr ls by (simp add: n_def der_bytes_def p_def q_def)
  define A where "A = [0x30, of_nat n, 0x02 :: byte]"
  define B where "B = A @ [of_nat (length R + p)] @ replicate p 0"
  define C where "C = (B @ R) @ [0x02]"
  define D where "D = C @ [of_nat (length S + q)] @ replicate q 0"
  define o1 where "o1 = (replicate 72 (0 :: byte))[0 := 0x30, 1 := of_nat n, 2 := 0x02]"
  define o2 where "o2 = o1[3 + p := 0, 3 := of_nat (length R + p)]"
  define o3 where "o3 = (blit o2 (4 + p) R)[4 + p + length R := 0x02]"
  define o4 where "o4 = o3[5 + p + length R + q := 0, 5 + p + length R := of_nat (length S + q)]"
  define o5 where "o5 = blit o4 (6 + p + q + length R) S"
  have 1: "wrote o1 A" by (simp add: wrote_def o1_def A_def numeral_eq_Suc)
  have 2: "wrote o2 B" unfolding o2_def B_def
    by (rule wrote_pad [OF 1]) (use pq in \<open>auto simp: A_def\<close>)
  have 3: "wrote o3 C" unfolding o3_def C_def
    by (rule wrote_byte [OF wrote_run [OF 2]]) (use pq lr in \<open>auto simp: A_def B_def\<close>)
  have 4: "wrote o4 D" unfolding o4_def D_def
    by (rule wrote_pad [OF 3]) (use pq lr in \<open>auto simp: A_def B_def C_def\<close>)
  have 5: "wrote o5 (D @ S)" unfolding o5_def
    by (rule wrote_run [OF 4]) (use pq lr ls in \<open>auto simp: A_def B_def C_def D_def\<close>)
  have idx: "0x20 + p - lr = length R + p" "0x20 + q - ls = length S + q" "0x44 + q + p - ls - lr = n"
    "4 + 32 + p - lr = 4 + p + length R" "5 + 32 + p + q - lr = 5 + p + length R + q" "5 + 32 + p - lr = 5 + p + length R"
    "6 + 32 + p + q - lr = 6 + p + q + length R" "0x46 + q + p - lr - ls = n + 2"
    using lr ls n by simp_all
  have "ctap_encode_der_sig sig = Some (o5, n + 2)"
    unfolding ctap_encode_der_sig_def Let_def lr_def [symmetric] ls_def [symmetric] padr pads Rs Ss idx
    using assms(1) ls(1) by (simp add: o1_def o2_def o3_def o4_def o5_def)
  moreover have "D @ S = [0x30, of_nat n] @ der_bytes R @ der_bytes S"
    by (simp add: A_def B_def C_def D_def der_bytes_def p_def q_def)
  ultimately show ?thesis using that 5 by (simp add: n_def)
qed

section \<open>Property\<close>

text \<open>C39: For a signature of two non-zero 32-byte numbers the DER encoding fits its 72 bytes, and a strict DER decoder
  (definite short lengths, shortest non-negative integers, nothing left over) reads exactly the two numbers.\<close>

theorem der_sig_round_trip:
  assumes "length sig = 64" "of_be (take 32 sig) \<noteq> 0" "of_be (drop 32 sig) \<noteq> 0"
  shows "\<exists>out n. ctap_encode_der_sig sig = Some (out, n) \<and> length out = 72 \<and> n \<le> 72
    \<and> der_sig (take n out) = Some (of_be (take 32 sig), of_be (drop 32 sig))"
proof -
  let ?R = "significant sig 0" and ?S = "significant sig 32"
  have h: "of_be (slice 0 32 sig) \<noteq> 0" "of_be (slice 32 32 sig) \<noteq> 0" "slice 32 32 sig = drop 32 sig"
    using assms by (simp_all add: slice_def)
  define n where "n = length (der_bytes ?R @ der_bytes ?S)"
  obtain out where out: "ctap_encode_der_sig sig = Some (out, n + 2)"
    "wrote out ([0x30, of_nat n] @ der_bytes ?R @ der_bytes ?S)"
    unfolding n_def by (rule encode_der_sig_bytes [OF assms(1) h(1,2)])
  have n: "n \<le> 70" using out(2) by (simp add: wrote_def n_def)
  then have u: "unat (of_nat n :: byte) = n" by (simp add: unat_of_nat)
  have t: "take (n + 2) out = [0x30, of_nat n] @ der_bytes ?R @ der_bytes ?S"
    using out(2) by (simp add: wrote_def n_def)
  note r = significant_value [of 0 sig] and s = significant_value [of 32 sig]
  have "der_int (der_bytes ?R @ der_bytes ?S) = Some (of_be (take 32 sig), der_bytes ?S)"
    using der_int_bytes [of ?R] r assms h by (simp add: slice_def)
  moreover have "der_int (der_bytes ?S) = Some (of_be (drop 32 sig), [])"
    using der_int_bytes [of ?S "[]"] s assms h by simp
  ultimately have "der_sig (take (n + 2) out) = Some (of_be (take 32 sig), of_be (drop 32 sig))"
    unfolding t der_sig_def using u n by (simp add: n_def)
  then show ?thesis using out n by (auto simp: wrote_def)
qed

definition demo_sig :: bytes where
  "demo_sig = 0 # 0x80 # replicate 62 1"

lemma der_sig_round_trip_witness:
  "\<exists>out n. ctap_encode_der_sig demo_sig = Some (out, n) \<and> n \<le> 72
    \<and> der_sig (take n out) = Some (of_be (take 32 demo_sig), of_be (drop 32 demo_sig))"
proof -
  have "length demo_sig = 64" "of_be (take 32 demo_sig) \<noteq> 0" "of_be (drop 32 demo_sig) \<noteq> 0"
    by (simp_all add: demo_sig_def of_be_zero)
  from der_sig_round_trip [OF this] show ?thesis by blast
qed

end
