(* ===== verification/Credential_Laws.thy ===== *)
theory Credential_Laws
  imports Get_Assertion
begin

text \<open>
  What makes a credential one of this authenticator: the tag over the relying party, the nonce, the encrypted
  metadata and the counter, and for resident keys the tag over the whole record. The checks accept exactly
  the right tag, and what is created passes the checks at any later time under the same keys and gives back what was
  put in.
\<close>

section \<open>Specification\<close>

definition credential_tag :: "bytes \<Rightarrow> bytes \<Rightarrow> bytes \<Rightarrow> bytes" where
  "credential_tag key lookup cid = take 16 (HMAC key (take 1 cid @ lookup @ slice 17 24 cid))"

definition handle_tag :: "bytes \<Rightarrow> bytes \<Rightarrow> bytes \<Rightarrow> bytes" where
  "handle_tag key appid kh = take 16 (HMAC key (slice 16 32 kh @ appid))"

definition protect_allows :: "byte \<Rightarrow> bool \<Rightarrow> bool \<Rightarrow> bool" where
  "protect_allows level verified listed \<longleftrightarrow>
     (level = EXT_CRED_PROTECT_REQUIRED \<longrightarrow> verified)
     \<and> (level = EXT_CRED_PROTECT_OPTIONAL_WITH_CREDID \<longrightarrow> verified \<or> listed)"

lemmas credential_layout = CREDENTIAL_NONCE_SIZE_def CREDENTIAL_METADATA_SIZE_def CREDENTIAL_TAG_SIZE_def
  U2F_KEY_HANDLE_TAG_SIZE_def U2F_KEY_HANDLE_KEY_SIZE_def U2F_APPLICATION_SIZE_def sizeof_CredentialId_def
  U2F_KEY_HANDLE_SIZE_def cred_version_def cred_nonce_def cred_metadata_def cred_rp_id_lookup_def cred_tag_def kh_tag_def kh_key_def

lemmas metadata_layout = CREDENTIAL_META_CRED_PROTECT_BYTE_def CREDENTIAL_META_ALG_BYTE_def
  CREDENTIAL_META_FLAGS_BYTE_def CREDENTIAL_META_IS_RK_BITMASK_def CREDID_ALG_EDDSA_def CREDID_ALG_ES256_def

section \<open>Tags\<close>

lemma xcrypt_twice:
  "key_meta_enc w' = key_meta_enc w \<Longrightarrow> ctap_xcrypt_buf iv (ctap_xcrypt_buf iv d w) w' = d"
  by (simp add: ctap_xcrypt_buf_def crypto_aes256_ctr_xcrypt_buffer_def AES_CTR_xcrypt_buffer_def
      case_prod_unfold Let_def ctr_loop_involution)

lemma length_xcrypt [simp]: "length (ctap_xcrypt_buf iv d w) = length d"
  by (simp add: ctap_xcrypt_buf_def crypto_aes256_ctr_xcrypt_buffer_def AES_CTR_xcrypt_buffer_def
      case_prod_unfold Let_def length_ctr_loop)

lemma auth_tag_exact:
  assumes "crypto_ok w" "length (key_cred_mac w) = 32" "length cid = 57" "length lookup = 16"
  obtains w' where "ctap_make_auth_tag (cred_version cid) lookup (cred_nonce cid) (cred_metadata cid) (cred_count cid) w
      = Some (credential_tag (key_cred_mac w) lookup cid, w')" "hash_frame w w'"
proof -
  have c: "le32 (cred_count cid) = slice 37 4 cid"
    unfolding cred_count_def by (rule le32_of_le) (use assms(3) in \<open>simp add: slice_def\<close>)
  have s: "slice 17 24 cid = slice 17 16 cid @ slice 33 4 cid @ slice 37 4 cid"
    using slice_append_parts [of 17 16 8 cid] slice_append_parts [of 33 4 4 cid] by simp
  have p: "concat [take 1 (cred_version cid), take CREDENTIAL_TAG_SIZE lookup, take CREDENTIAL_NONCE_SIZE (cred_nonce cid),
      take CREDENTIAL_METADATA_SIZE (cred_metadata cid), le32 (cred_count cid)]
      = take 1 cid @ lookup @ slice 17 24 cid"
    using assms(3,4) unfolding c s by (simp add: credential_layout slice_def)
  obtain w' where "crypto_hmac (key_cred_mac w) [take 1 (cred_version cid), take CREDENTIAL_TAG_SIZE lookup,
      take CREDENTIAL_NONCE_SIZE (cred_nonce cid), take CREDENTIAL_METADATA_SIZE (cred_metadata cid), le32 (cred_count cid)] w
      = Some (HMAC (key_cred_mac w) (take 1 cid @ lookup @ slice 17 24 cid), w')" "hash_frame w w'"
    using hmac_stream [OF assms(1)] assms(2) p by (metis numeral_le_iff semiring_norm(68) semiring_norm(71) semiring_norm(72))
  then show ?thesis
    using that by (simp add: ctap_make_auth_tag_def credential_tag_def CREDENTIAL_TAG_SIZE_def)
qed

lemma u2f_tag_exact:
  assumes "crypto_ok w" "length (key_cred_mac w) = 32" "48 \<le> length kh" "length appid = 32"
  obtains w' where "u2f_make_auth_tag kh appid w = Some (handle_tag (key_cred_mac w) appid kh, w')" "hash_frame w w'"
proof -
  obtain w' where "crypto_hmac (key_cred_mac w) [kh_key kh, take U2F_APPLICATION_SIZE appid] w
      = Some (HMAC (key_cred_mac w) (slice 16 32 kh @ appid), w')" "hash_frame w w'"
    using hmac_stream [OF assms(1), of "key_cred_mac w" "[kh_key kh, take U2F_APPLICATION_SIZE appid]"] assms(2,4)
    by (auto simp: credential_layout)
  then show ?thesis using that by (simp add: u2f_make_auth_tag_def handle_tag_def credential_layout)
qed

lemma belongs_pub_key:
  assumes "crypto_ok w" "length (key_cred_mac w) = 32" "length (cred_id desc) = 57" "length lookup = 16"
    "cred_type desc = PUB_KEY_CRED_PUB_KEY"
  obtains w' where "ctap_credential_belongs_to_rp lookup hash desc w
      = Some (cred_tag (cred_id desc) = credential_tag (key_cred_mac w) lookup (cred_id desc), w')" "hash_frame w w'"
proof -
  have l: "length (cred_tag (cred_id desc)) = 16" using assms(3) by (simp add: credential_layout slice_def)
  obtain w' where "ctap_make_auth_tag (cred_version (cred_id desc)) lookup (cred_nonce (cred_id desc))
      (cred_metadata (cred_id desc)) (cred_count (cred_id desc)) w
      = Some (credential_tag (key_cred_mac w) lookup (cred_id desc), w')" "hash_frame w w'"
    by (rule auth_tag_exact [OF assms(1-4)])
  moreover have "secure_memeq (cred_tag (cred_id desc)) (credential_tag (key_cred_mac w) lookup (cred_id desc)) CREDENTIAL_TAG_SIZE
      \<longleftrightarrow> cred_tag (cred_id desc) = credential_tag (key_cred_mac w) lookup (cred_id desc)"
    by (subst secure_memeq_iff) (simp_all add: l credential_tag_def CREDENTIAL_TAG_SIZE_def)
  moreover have "PUB_KEY_CRED_PUB_KEY \<noteq> PUB_KEY_CRED_CTAP1"
    by (simp add: PUB_KEY_CRED_PUB_KEY_def PUB_KEY_CRED_CTAP1_def)
  ultimately show ?thesis using that assms(5) by (simp add: ctap_credential_belongs_to_rp_def)
qed

lemma belongs_u2f:
  assumes "crypto_ok w" "length (key_cred_mac w) = 32" "48 \<le> length (cred_id desc)" "length hash = 32"
    "cred_type desc = PUB_KEY_CRED_CTAP1"
  obtains w' where "ctap_credential_belongs_to_rp lookup hash desc w
      = Some (take 16 (cred_id desc) = handle_tag (key_cred_mac w) hash (cred_id desc), w')" "hash_frame w w'"
proof -
  obtain w' where "u2f_make_auth_tag (cred_id desc) hash w
      = Some (handle_tag (key_cred_mac w) hash (cred_id desc), w')" "hash_frame w w'"
    by (rule u2f_tag_exact [OF assms(1-4)])
  moreover have "memcmp U2F_KEY_HANDLE_TAG_SIZE (kh_tag (cred_id desc)) (handle_tag (key_cred_mac w) hash (cred_id desc)) = 0
      \<longleftrightarrow> take 16 (cred_id desc) = handle_tag (key_cred_mac w) hash (cred_id desc)"
    using assms(3) by (subst memcmp_eq_0) (simp_all add: handle_tag_def credential_layout slice_def)
  moreover have "U2F_KEY_HANDLE_SIZE \<noteq> sizeof_CredentialId" by (simp add: credential_layout)
  ultimately show ?thesis using that assms(5)
    by (simp add: ctap_credential_belongs_to_rp_def u2f_authenticate_credential_def)
qed

section \<open>A new credential\<close>

lemma rng_frame_keys:
  assumes "rng_frame w w'"
  shows "key_cred_mac w' = key_cred_mac w" "key_meta_enc w' = key_meta_enc w" "key_device_mac w' = key_device_mac w"
    "key_attestation_enc w' = key_attestation_enc w"
proof -
  have m: "rng_mask w' = rng_mask w" using assms by (simp add: rng_frame_def)
  show "key_cred_mac w' = key_cred_mac w" "key_meta_enc w' = key_meta_enc w" "key_device_mac w' = key_device_mac w"
    "key_attestation_enc w' = key_attestation_enc w"
    using arg_cong [OF m, of key_cred_mac] arg_cong [OF m, of key_meta_enc] arg_cong [OF m, of key_device_mac]
      arg_cong [OF m, of key_attestation_enc] by (simp_all add: rng_mask_def)
qed

lemma rng_fill:
  assumes "rng_ok w" "rng_initialized w"
  obtains bs w' where "ctap_generate_rng (replicate n 0) n w = Some (1, bs, w')" "length bs = n" "rng_frame w w'"
  using rng_loop_bytes [OF assms(1), of n "[]"] assms(2) that
  by (auto simp: ctap_generate_rng_def rng_get_bytes_def blit_def)

definition metadata_of :: "CTAP_credInfo \<Rightarrow> CTAP_extensions \<Rightarrow> bytes" where
  "metadata_of ci ext = [of_bool (ci_rk ci), 0, of_bool (coseAlgorithmIdentifier ci = COSE_ALG_EDDSA), cred_protect ext]"

text \<open>The id as a concatenation of its fields.\<close>

definition credential_id :: "bytes \<Rightarrow> bytes \<Rightarrow> bytes \<Rightarrow> bytes \<Rightarrow> u32 \<Rightarrow> bytes" where
  "credential_id key lookup nonce meta count =
     (let body = [0] @ lookup @ nonce @ meta @ le32 count
      in body @ take 16 (HMAC key body))"

lemma credential_id_fields:
  assumes "length lookup = 16" "length nonce = 16" "length meta = 4"
  shows "length (credential_id key lookup nonce meta count) = 57"
    "cred_rp_id_lookup (credential_id key lookup nonce meta count) = lookup"
    "cred_nonce (credential_id key lookup nonce meta count) = nonce"
    "cred_metadata (credential_id key lookup nonce meta count) = meta"
    "cred_count (credential_id key lookup nonce meta count) = count"
    "cred_tag (credential_id key lookup nonce meta count) = credential_tag key lookup (credential_id key lookup nonce meta count)"
  using assms
  by (simp_all add: credential_id_def credential_tag_def Let_def credential_layout cred_count_def slice_def of_le_le32)

lemma new_credential_id_shape:
  assumes "crypto_ok w" "rng_ok w" "rng_initialized w" "length (key_cred_mac w) = 32" "length lookup = 16"
  obtains nonce w' where "new_credential_id lookup count ci ext w
      = Some (credential_id (key_cred_mac w) lookup nonce (ctap_xcrypt_buf nonce (metadata_of ci ext) w) count, w')"
    "length nonce = 16" "key_cred_mac w' = key_cred_mac w" "key_meta_enc w' = key_meta_enc w" "crypto_ok w'"
proof -
  obtain nonce w1 where 1: "ctap_generate_rng (replicate 16 0) 16 w = Some (1, nonce, w1)" "length nonce = 16" "rng_frame w w1"
    by (rule rng_fill [OF assms(2,3)])
  note k = rng_frame_keys [OF 1(3)]
  have ok: "crypto_ok w1" using assms(1) rng_frame_fields(4) [OF 1(3)] by (simp add: crypto_ok_def)
  define meta where "meta = ctap_xcrypt_buf nonce (metadata_of ci ext) w"
  have lm: "length meta = 4" by (simp add: meta_def metadata_of_def)
  obtain w2 where 2: "crypto_hmac (key_cred_mac w1) [[0], lookup, nonce, meta, le32 count] w1
      = Some (HMAC (key_cred_mac w1) (concat [[0], lookup, nonce, meta, le32 count]), w2)" "hash_frame w1 w2"
    using hmac_stream [OF ok, of "key_cred_mac w1" "[[0], lookup, nonce, meta, le32 count]"] assms(4) k by auto
  have m: "(replicate CREDENTIAL_METADATA_SIZE 0)
           [CREDENTIAL_META_ALG_BYTE := (if coseAlgorithmIdentifier ci = COSE_ALG_EDDSA then CREDID_ALG_EDDSA else CREDID_ALG_ES256),
            CREDENTIAL_META_CRED_PROTECT_BYTE := cred_protect ext,
            CREDENTIAL_META_FLAGS_BYTE := of_bool (ci_rk ci) AND CREDENTIAL_META_IS_RK_BITMASK] = metadata_of ci ext"
    by (simp add: metadata_of_def metadata_layout CREDENTIAL_METADATA_SIZE_def numeral_eq_Suc)
  have x: "ctap_xcrypt_buf nonce (metadata_of ci ext) w1 = meta" by (simp add: meta_def ctap_xcrypt_buf_def k)
  show ?thesis
  proof (rule that [of nonce w2])
    show "new_credential_id lookup count ci ext w
      = Some (credential_id (key_cred_mac w) lookup nonce (ctap_xcrypt_buf nonce (metadata_of ci ext) w) count, w2)"
      unfolding new_credential_id_def m Let_def meta_def [symmetric]
      using 1 2 assms(5) lm
      by (simp add: CREDENTIAL_NONCE_SIZE_def x ctap_make_auth_tag_def credential_id_def k CREDENTIAL_TAG_SIZE_def
          CREDENTIAL_METADATA_SIZE_def)
  qed (use 1 2 k hash_frame_fields [OF 2(2)] hash_frame_ok [OF 2(2)] in auto)
qed

lemma metadata_reads:
  assumes "length lookup = 16" "length nonce = 16" "key_meta_enc w' = key_meta_enc w"
    "cid = credential_id key lookup nonce (ctap_xcrypt_buf nonce (metadata_of ci ext) w) count"
  shows "ctap_xcrypt_buf (cred_nonce cid) (cred_metadata cid) w' = metadata_of ci ext"
  using assms credential_id_fields [OF assms(1,2), of "ctap_xcrypt_buf nonce (metadata_of ci ext) w" key count]
  by (simp add: xcrypt_twice metadata_of_def)

lemma metadata_checks:
  assumes "ctap_xcrypt_buf (cred_nonce cid) (cred_metadata cid) w = metadata_of ci ext"
  shows "ctap_restore_metadata_cose_alg cid w
      = (if coseAlgorithmIdentifier ci = COSE_ALG_EDDSA then COSE_ALG_EDDSA else COSE_ALG_ES256)"
    "ctap_check_credential_metadata cid verified listed w
      = (if protect_allows (cred_protect ext) verified listed then CTAP2_OK else CTAP2_ERR_NOT_ALLOWED, of_bool (ci_rk ci))"
  unfolding ctap_restore_metadata_cose_alg_def ctap_check_credential_metadata_def assms
  by (auto simp: metadata_of_def metadata_layout numeral_eq_Suc protect_allows_def
      EXT_CRED_PROTECT_REQUIRED_def EXT_CRED_PROTECT_OPTIONAL_WITH_CREDID_def Let_def)

section \<open>Resident keys\<close>

lemma memchr_bound: "memchr bs c = Some p \<Longrightarrow> p < length bs"
  by (induction bs arbitrary: p) (auto split: if_splits)

lemma truncate_fits:
  assumes "length stored = 32"
  shows "length (fst (truncate_rpid stored rpid)) = 32" "snd (truncate_rpid stored rpid) \<le> 32"
  using assms
  by (auto simp: truncate_rpid_def Let_def CREDENTIAL_RP_ID_SIZE_def length_blit_max split: option.splits dest: memchr_bound)

lemma mac_exact:
  assumes "crypto_ok w" "length (key_cred_mac w) = 32"
  obtains w' where "ctap_compute_mac d CREDENTIAL_TAG_SIZE w = Some (take 16 (HMAC (key_cred_mac w) d), w')" "hash_frame w w'"
  using hmac_stream [OF assms(1), of "key_cred_mac w" "[d]"] assms(2) that
  by (auto simp: ctap_compute_mac_def CREDENTIAL_TAG_SIZE_def)

lemma verify_mac_exact:
  assumes "crypto_ok w" "length (key_cred_mac w) = 32" "length mac = 16"
  obtains w' where "ctap_verify_mac mac d w = Some (mac = take 16 (HMAC (key_cred_mac w) d), w')" "hash_frame w w'"
proof -
  obtain w' where "ctap_compute_mac d CREDENTIAL_TAG_SIZE w = Some (take 16 (HMAC (key_cred_mac w) d), w')" "hash_frame w w'"
    by (rule mac_exact [OF assms(1,2)])
  moreover have "memcmp CREDENTIAL_TAG_SIZE (take 16 (HMAC (key_cred_mac w) d)) mac = 0
      \<longleftrightarrow> mac = take 16 (HMAC (key_cred_mac w) d)"
    using assms(3) by (subst memcmp_eq_0) (auto simp: CREDENTIAL_TAG_SIZE_def)
  ultimately show ?thesis using that by (simp add: ctap_verify_mac_def)
qed

definition user_shape :: "CTAP_userEntity \<Rightarrow> bool" where
  "user_shape u \<longleftrightarrow> length (user_id u) = USER_ID_MAX_SIZE \<and> length (user_name u) = USER_NAME_LIMIT
     \<and> length (user_displayName u) = DISPLAY_NAME_LIMIT"

lemmas user_sizes = USER_ID_MAX_SIZE_def USER_NAME_LIMIT_def DISPLAY_NAME_LIMIT_def

lemma user_bytes_round:
  assumes "user_shape u"
  shows "user_of_bytes (user_bytes u) = u" "length (user_bytes u) = 162"
  using assms by (simp_all add: user_shape_def user_of_bytes_def user_bytes_def user_sizes slice_def nth_append)

text \<open>The stored record, and what the readers of its fields return.\<close>

definition resident_key :: "bytes \<Rightarrow> bytes \<Rightarrow> bytes \<Rightarrow> bytes \<Rightarrow> bytes \<Rightarrow> bytes" where
  "resident_key key cid entities lookup nonce =
     (let body = [0] @ cid @ entities @ lookup @ nonce in body @ take 16 (HMAC key body))"

lemmas rk_layout = rk_id_def rk_entities_def rk_user_id_lookup_def rk_rk_nonce_def rk_rk_tag_def RK_HMAC_SIZE_def
  sizeof_residentKey_def sizeof_CredentialId_def CREDENTIAL_TAG_SIZE_def CREDENTIAL_NONCE_SIZE_def

lemma resident_key_fields:
  assumes "length cid = 57" "length entities = 227" "length lookup = 16" "length nonce = 16"
    "rk = resident_key key cid entities lookup nonce"
  shows "length rk = sizeof_residentKey" "rk_id rk = cid" "rk_entities rk = entities" "rk_user_id_lookup rk = lookup"
    "rk_rk_nonce rk = nonce" "rk_rk_tag rk = take 16 (HMAC key (take RK_HMAC_SIZE rk))"
  using assms by (simp_all add: resident_key_def Let_def rk_layout slice_def)

lemma new_resident_key_shape:
  assumes "crypto_ok w" "rng_ok w" "rng_initialized w" "length (key_cred_mac w) = 32" "user_shape user" "length hash = 32"
  obtains nonce name len w' where "new_resident_key cid rp hash user w
      = Some (resident_key (key_cred_mac w) cid (ctap_xcrypt_buf nonce (user_bytes user @ hash @ name @ [of_nat len]) w)
          (take 16 (HMAC (key_cred_mac w) (take (unat (user_id_size user)) (user_id user)))) nonce, w')"
    "length nonce = 16" "length name = 32" "key_cred_mac w' = key_cred_mac w" "key_meta_enc w' = key_meta_enc w" "crypto_ok w'"
proof -
  obtain w1 where 1: "ctap_compute_mac (take (unat (user_id_size user)) (user_id user)) CREDENTIAL_TAG_SIZE w
      = Some (take 16 (HMAC (key_cred_mac w) (take (unat (user_id_size user)) (user_id user))), w1)" "hash_frame w w1"
    by (rule mac_exact [OF assms(1,4)])
  have ok1: "rng_ok w1" "rng_initialized w1" using 1(2) assms(2,3) by (auto simp: hash_frame_def rng_ok_def)
  obtain nonce w2 where 2: "ctap_generate_rng (replicate 16 0) 16 w1 = Some (1, nonce, w2)" "length nonce = 16" "rng_frame w1 w2"
    by (rule rng_fill [OF ok1])
  define name len where "name = fst (truncate_rpid (replicate 32 0) (take (rp_size rp) (rp_id rp)))"
    and "len = snd (truncate_rpid (replicate 32 0) (take (rp_size rp) (rp_id rp)))"
  note k = rng_frame_keys [OF 2(3)] hash_frame_fields [OF 1(2)]
  have ok2: "crypto_ok w2" using hash_frame_ok [OF 1(2)] rng_frame_fields(4) [OF 2(3)] by (simp add: crypto_ok_def)
  have k2: "length (key_cred_mac w2) = 32" using assms(4) k by simp
  define rk where "rk = [0] @ cid @ ctap_xcrypt_buf nonce (user_bytes user @ hash @ name @ [of_nat len]) w
      @ take 16 (HMAC (key_cred_mac w) (take (unat (user_id_size user)) (user_id user))) @ nonce"
  obtain w3 where 3: "ctap_compute_mac rk CREDENTIAL_TAG_SIZE w2 = Some (take 16 (HMAC (key_cred_mac w2) rk), w3)" "hash_frame w2 w3"
    by (rule mac_exact [OF ok2 k2])
  have x: "ctap_xcrypt_buf nonce d w2 = ctap_xcrypt_buf nonce d w" for d by (simp add: ctap_xcrypt_buf_def k)
  have ln: "length name = 32" by (simp add: name_def truncate_fits)
  have "new_resident_key cid rp hash user w = Some (rk @ take 16 (HMAC (key_cred_mac w) rk), w3)"
    unfolding new_resident_key_def derive_user_id_lookup_def
    using 1 2 3 [unfolded rk_def] assms(6)
    by (simp add: CREDENTIAL_NONCE_SIZE_def CREDENTIAL_RP_ID_SIZE_def x case_prod_unfold Let_def
        name_def [symmetric] len_def [symmetric] rk_def k)
  then show ?thesis
    using that [of nonce name len w3] 2(2) ln k hash_frame_fields [OF 3(2)] hash_frame_ok [OF 3(2)]
    by (simp add: resident_key_def Let_def rk_def)
qed

section \<open>Properties\<close>

text \<open>C11: A credential id is accepted for a relying party exactly when its tag is the truncated HMAC, under the key
  of credentials, of its version, the lookup tag of that relying party and its nonce, metadata and counter; a U2F key handle
  exactly when its tag is the truncated HMAC of its key and the application's hash; nothing else is accepted.\<close>

theorem credential_belongs_exact:
  assumes "crypto_ok w" "length (key_cred_mac w) = 32" "length (cred_id desc) = 57" "length lookup = 16" "length hash = 32"
  shows "\<exists>w'. ctap_credential_belongs_to_rp lookup hash desc w = Some (
      if cred_type desc = PUB_KEY_CRED_PUB_KEY
      then cred_tag (cred_id desc) = credential_tag (key_cred_mac w) lookup (cred_id desc)
      else cred_type desc = PUB_KEY_CRED_CTAP1
        \<and> take 16 (cred_id desc) = handle_tag (key_cred_mac w) hash (cred_id desc), w')"
proof -
  have n: "PUB_KEY_CRED_PUB_KEY \<noteq> PUB_KEY_CRED_CTAP1"
    by (simp add: PUB_KEY_CRED_PUB_KEY_def PUB_KEY_CRED_CTAP1_def)
  consider "cred_type desc = PUB_KEY_CRED_PUB_KEY" | "cred_type desc = PUB_KEY_CRED_CTAP1"
    | "cred_type desc \<noteq> PUB_KEY_CRED_PUB_KEY" "cred_type desc \<noteq> PUB_KEY_CRED_CTAP1" by blast
  then show ?thesis
  proof cases
    case 1
    obtain w' where "ctap_credential_belongs_to_rp lookup hash desc w
      = Some (cred_tag (cred_id desc) = credential_tag (key_cred_mac w) lookup (cred_id desc), w')"
      by (rule belongs_pub_key [OF assms(1-4) 1])
    then show ?thesis using 1 by simp
  next
    case 2
    then show ?thesis using belongs_u2f [OF assms(1,2) _ assms(5), of desc lookup] assms(3) n by auto
  qed (simp add: ctap_credential_belongs_to_rp_def)
qed

definition demo_key_rng :: rng where
  "demo_key_rng = demo_rng\<lparr>key_cred_mac := replicate 32 7, key_meta_enc := replicate 32 8\<rparr>"

lemma demo_key_rng_ok: "crypto_ok demo_key_rng" "rng_ok demo_key_rng" "rng_initialized demo_key_rng"
  "length (key_cred_mac demo_key_rng) = 32"
  using demo_rng_ok demo_crypto_ok by (simp_all add: demo_key_rng_def crypto_ok_def rng_ok_def demo_rng_def crypto.defs)

lemma credential_belongs_exact_witness:
  "\<exists>w'. ctap_credential_belongs_to_rp (replicate 16 1) (replicate 32 2)
      \<lparr>cred_type = PUB_KEY_CRED_UNKNOWN, cred_id = replicate 57 3\<rparr> demo_key_rng = Some (False, w')"
  using credential_belongs_exact [of demo_key_rng "\<lparr>cred_type = PUB_KEY_CRED_UNKNOWN, cred_id = replicate 57 3\<rparr>"
      "replicate 16 1" "replicate 32 2"] demo_key_rng_ok
  by (simp add: PUB_KEY_CRED_UNKNOWN_def PUB_KEY_CRED_PUB_KEY_def PUB_KEY_CRED_CTAP1_def)

definition same_credential_keys :: "'a rng_scheme \<Rightarrow> 'a rng_scheme \<Rightarrow> bool" where
  "same_credential_keys w w' \<longleftrightarrow> crypto_ok w' \<and> key_cred_mac w' = key_cred_mac w \<and> key_meta_enc w' = key_meta_enc w"


definition demo_ext :: CTAP_extensions where
  "demo_ext = \<lparr>hmac_secret_present = 0, hmac_secret = \<lparr>saltLen = 0, saltEnc = [], saltAuth = [],
     hs_keyAgreement = \<lparr>cose_x = [], cose_y = [], cose_kty = 0, cose_crv = 0\<rparr>, hs_credential = None\<rparr>, cred_protect = 3\<rparr>"

definition demo_cred_info :: CTAP_credInfo where
  "demo_cred_info = \<lparr>ci_user = \<lparr>user_id = replicate 64 9, user_id_size = 8, user_name = replicate 65 0,
     user_displayName = replicate 32 0\<rparr>, publicKeyCredentialType = PUB_KEY_CRED_PUB_KEY,
     coseAlgorithmIdentifier = COSE_ALG_EDDSA, ci_rk = True\<rparr>"


text \<open>C16: A new resident key has the size of its slot, carries the credential id, and at any later time under the same keys
  its tag is accepted and \<open>getAssertion\<close> gets the id and the user back; its lookup tag is that of the
  user's id, which is what replacing the key of the same user compares.\<close>

theorem resident_key_round_trip:
  assumes "crypto_ok w" "rng_ok w" "rng_initialized w" "length (key_cred_mac w) = 32"
    "length cid = 57" "user_shape user" "length hash = 32"
  shows "\<exists>rk w'. new_resident_key cid rp hash user w = Some (rk, w')
    \<and> length rk = sizeof_residentKey \<and> rk_id rk = cid \<and> same_credential_keys w w'
    \<and> rk_user_id_lookup rk = take 16 (HMAC (key_cred_mac w) (take (unat (user_id_size user)) (user_id user)))
    \<and> (\<forall>u. same_credential_keys w u \<longrightarrow>
          (\<exists>u'. ctap_verify_mac (rk_rk_tag rk) (take RK_HMAC_SIZE rk) u = Some (True, u'))
        \<and> cred_id (sd_desc (ga_of_rk rk u)) = cid \<and> user_of_bytes (sd_user (ga_of_rk rk u)) = user)"
proof -
  let ?lookup = "take 16 (HMAC (key_cred_mac w) (take (unat (user_id_size user)) (user_id user)))"
  obtain nonce name len w' where n: "new_resident_key cid rp hash user w
      = Some (resident_key (key_cred_mac w) cid (ctap_xcrypt_buf nonce (user_bytes user @ hash @ name @ [of_nat len]) w) ?lookup nonce, w')"
    "length nonce = 16" "length name = 32" "key_cred_mac w' = key_cred_mac w" "key_meta_enc w' = key_meta_enc w" "crypto_ok w'"
    by (rule new_resident_key_shape [OF assms(1-4,6,7), of cid rp])
  define ent where "ent = ctap_xcrypt_buf nonce (user_bytes user @ hash @ name @ [of_nat len]) w"
  define rk where "rk = resident_key (key_cred_mac w) cid ent ?lookup nonce"
  have le: "length ent = 227" by (simp add: ent_def user_bytes_round [OF assms(6)] n assms(7))
  have f: "length rk = sizeof_residentKey" "rk_id rk = cid" "rk_entities rk = ent" "rk_user_id_lookup rk = ?lookup"
    "rk_rk_nonce rk = nonce" "rk_rk_tag rk = take 16 (HMAC (key_cred_mac w) (take RK_HMAC_SIZE rk))"
    by (rule resident_key_fields [OF assms(5) le _ n(2) rk_def], simp)+
  have verify: "\<exists>u'. ctap_verify_mac (rk_rk_tag rk) (take RK_HMAC_SIZE rk) u = Some (True, u')" if "same_credential_keys w u" for u
    by (rule verify_mac_exact [of u "rk_rk_tag rk" "take RK_HMAC_SIZE rk"])
      (use that f assms(4) in \<open>auto simp: same_credential_keys_def\<close>)
  have user: "sd_user (ga_of_rk rk u) = user_bytes user" if "same_credential_keys w u" for u
    using that by (simp add: ga_of_rk_def f ent_def same_credential_keys_def xcrypt_twice user_bytes_round [OF assms(6)])
  have "same_credential_keys w w'" using n by (simp add: same_credential_keys_def)
  then show ?thesis
    using n(1) f verify user user_bytes_round(1) [OF assms(6)]
    unfolding ent_def [symmetric] rk_def [symmetric] by (force simp: ga_of_rk_def)
qed

lemma resident_key_round_trip_witness:
  "\<exists>rk w'. new_resident_key (replicate 57 1) \<lparr>rp_id = replicate 5 0x61, rp_size = 5, rp_name = []\<rparr> (replicate 32 2) (ci_user demo_cred_info) demo_key_rng
      = Some (rk, w') \<and> length rk = 333 \<and> user_of_bytes (sd_user (ga_of_rk rk w')) = ci_user demo_cred_info"
  using resident_key_round_trip [OF demo_key_rng_ok, of "replicate 57 1" "ci_user demo_cred_info" "replicate 32 2"
      "\<lparr>rp_id = replicate 5 0x61, rp_size = 5, rp_name = []\<rparr>"]
  by (force simp: demo_cred_info_def user_shape_def user_sizes sizeof_residentKey_def)

end
