(* ===== verification/Qsort_Laws.thy ===== *)
theory Qsort_Laws
  imports Qsort "HOL-Library.Multiset"
begin

text \<open>
  The library's \<open>qsort\<close> sorts: for every comparison that is a total preorder the result is a permutation of the array in
  ascending order, for arrays of every size and through every path (insertion sort, partition, parameter stack, recursion).
  The comparisons are a locale.
\<close>

section \<open>Rearranging a range\<close>

definition within :: "nat \<Rightarrow> nat \<Rightarrow> 'a list \<Rightarrow> 'a list \<Rightarrow> bool" where
  "within a e xs ys \<longleftrightarrow> length ys = length xs \<and> mset ys = mset xs \<and> (\<forall>i < length xs. i < a \<or> e \<le> i \<longrightarrow> ys ! i = xs ! i)"

lemma within_refl [simp]: "within a e xs xs"
  by (simp add: within_def)

lemma within_trans: "within a e xs ys \<Longrightarrow> within a e ys zs \<Longrightarrow> within a e xs zs"
  by (simp add: within_def)

lemma within_mono: "within a e xs ys \<Longrightarrow> a' \<le> a \<Longrightarrow> e \<le> e' \<Longrightarrow> within a' e' xs ys"
  by (auto simp: within_def)

lemma length_swap [simp]: "length (swap i j xs) = length xs"
  by (simp add: swap_def)

lemma nth_swap: "i < length xs \<Longrightarrow> j < length xs \<Longrightarrow> swap i j xs ! k = (if k = i then xs ! j else if k = j then xs ! i else xs ! k)"
  by (auto simp: swap_def nth_list_update)

lemma within_swap:
  assumes "a \<le> i" "i < e" "a \<le> j" "j < e" "e \<le> length xs"
  shows "within a e xs (swap i j xs)"
proof -
  have "mset (swap i j xs) = mset xs" using assms mset_swap [of j xs i] by (simp add: swap_def)
  then show ?thesis using assms by (auto simp: within_def nth_swap)
qed

lemma nth_vecswap:
  "i + r \<le> j \<Longrightarrow> j + r \<le> length xs \<Longrightarrow> k < length xs \<Longrightarrow>
   vecswap i j r xs ! k = (if i \<le> k \<and> k < i + r then xs ! (j + (k - i)) else if j \<le> k \<and> k < j + r then xs ! (i + (k - j)) else xs ! k)"
proof (induction i j r xs rule: vecswap.induct)
  case (2 i j r xs)
  have "vecswap i j (Suc r) xs ! k = (if Suc i \<le> k \<and> k < Suc i + r then swap i j xs ! (Suc j + (k - Suc i))
      else if Suc j \<le> k \<and> k < Suc j + r then swap i j xs ! (Suc i + (k - Suc j)) else swap i j xs ! k)"
    using 2 by simp
  then show ?case using 2(2-4) by (auto simp: nth_swap Suc_diff_Suc not_less Suc_le_eq)
qed auto

lemma within_vecswap:
  "a \<le> i \<Longrightarrow> i + r \<le> j \<Longrightarrow> j + r \<le> e \<Longrightarrow> e \<le> length xs \<Longrightarrow> within a e xs (vecswap i j r xs)"
proof (induction i j r xs rule: vecswap.induct)
  case (2 i j r xs)
  have "within a e xs (swap i j xs)" by (rule within_swap) (use 2 in auto)
  then show ?case using 2 within_trans by fastforce
qed simp

text \<open>What held of the elements of the range still holds.\<close>

lemma within_range:
  assumes "within a e xs ys" "\<And>k. a \<le> k \<Longrightarrow> k < e \<Longrightarrow> P (xs ! k)" "e \<le> length xs" "a \<le> k" "k < e"
  shows "P (ys ! k)"
proof -
  have l: "length ys = length xs" "mset ys = mset xs" using assms(1) by (simp_all add: within_def)
  have t: "take a ys = take a xs" "drop e ys = drop e xs"
    using assms(1) l by (auto simp: within_def intro!: nth_equalityI)
  have split: "zs = take a zs @ slice a (e - a) zs @ drop e zs" for zs :: "'a list"
    using assms(4,5) by (simp add: slice_def) (metis append_take_drop_id drop_drop le_add_diff_inverse2 less_imp_le order.trans)
  have "mset (slice a (e - a) ys) = mset (slice a (e - a) xs)"
    using l(2) arg_cong [OF split [of ys], of mset] arg_cong [OF split [of xs], of mset] t by simp
  then have st: "set (slice a (e - a) ys) = set (slice a (e - a) xs)" by (metis set_mset_mset)
  have "ys ! k \<in> set (slice a (e - a) ys)"
    using assms(3-5) l(1) by (auto simp: slice_def in_set_conv_nth intro!: exI [of _ "k - a"])
  then obtain i where "i < e - a" "ys ! k = xs ! (a + i)"
    using assms(3) unfolding st by (auto simp: slice_def in_set_conv_nth)
  then show ?thesis using assms(2) [of "a + i"] by simp
qed

section \<open>Comparisons\<close>

locale comparison =
  fixes cmp :: "'a \<Rightarrow> 'a \<Rightarrow> int"
  assumes cmp_swap: "cmp x y < 0 \<longleftrightarrow> 0 < cmp y x"
    and cmp_trans: "cmp x y \<le> 0 \<Longrightarrow> cmp y z \<le> 0 \<Longrightarrow> cmp x z \<le> 0"
begin

lemma cmp_refl [simp]: "cmp x x = 0"
  using cmp_swap [of x x] by linarith

lemma cmp_zero: "cmp x y = 0 \<longleftrightarrow> cmp y x = 0"
  using cmp_swap [of x y] cmp_swap [of y x] by linarith

lemma cmp_flip: "cmp x y \<le> 0 \<longleftrightarrow> 0 \<le> cmp y x"
  using cmp_swap [of x y] cmp_swap [of y x] by linarith

definition sorted_range :: "nat \<Rightarrow> nat \<Rightarrow> 'a list \<Rightarrow> bool" where
  "sorted_range a e xs \<longleftrightarrow> (\<forall>i j. a \<le> i \<and> i < j \<and> j < e \<longrightarrow> cmp (xs ! i) (xs ! j) \<le> 0)"

text \<open>While an element moves down: the rest is in order, and everything above it is not smaller.\<close>

definition sinking :: "nat \<Rightarrow> nat \<Rightarrow> nat \<Rightarrow> 'a list \<Rightarrow> bool" where
  "sinking a pl m xs \<longleftrightarrow> (\<forall>i j. a \<le> i \<and> i < j \<and> j \<le> m \<and> i \<noteq> pl \<and> j \<noteq> pl \<longrightarrow> cmp (xs ! i) (xs ! j) \<le> 0)
     \<and> (\<forall>j. pl < j \<and> j \<le> m \<longrightarrow> cmp (xs ! pl) (xs ! j) \<le> 0)"

lemma sinking_step:
  assumes "sinking a pl m xs" "a < pl" "pl \<le> m" "m < length xs" "0 < cmp (xs ! (pl - 1)) (xs ! pl)"
  shows "sinking a (pl - 1) m (swap pl (pl - 1) xs)"
proof -
  have s: "swap pl (pl - 1) xs ! k = (if k = pl then xs ! (pl - 1) else if k = pl - 1 then xs ! pl else xs ! k)" for k
    by (rule nth_swap) (use assms in auto)
  have lt: "cmp (xs ! pl) (xs ! (pl - 1)) \<le> 0" using cmp_swap [of "xs ! pl" "xs ! (pl - 1)"] assms(5) by simp
  have ord: "\<And>i j. a \<le> i \<Longrightarrow> i < j \<Longrightarrow> j \<le> m \<Longrightarrow> i \<noteq> pl \<Longrightarrow> j \<noteq> pl \<Longrightarrow> cmp (xs ! i) (xs ! j) \<le> 0"
    using assms(1) unfolding sinking_def by blast
  have up: "cmp (xs ! (pl - 1)) (xs ! j) \<le> 0" if "pl < j" "j \<le> m" for j
    by (rule ord) (use assms(2) that in auto)
  have down: "cmp (xs ! i) (xs ! (pl - 1)) \<le> 0" if "a \<le> i" "i < pl" "i \<noteq> pl - 1" for i
    by (rule ord) (use assms(2,3) that in auto)
  show ?thesis
    unfolding sinking_def s using assms(1-3) lt up down unfolding sinking_def by auto
qed

lemma sinking_stop:
  assumes "sinking a pl m xs" "a \<le> pl" "pl = a \<or> cmp (xs ! (pl - 1)) (xs ! pl) \<le> 0"
  shows "sorted_range a (Suc m) xs"
  unfolding sorted_range_def
proof (intro allI impI)
  fix i j assume ij: "a \<le> i \<and> i < j \<and> j < Suc m"
  have s: "\<And>i j. a \<le> i \<Longrightarrow> i < j \<Longrightarrow> j \<le> m \<Longrightarrow> i \<noteq> pl \<Longrightarrow> j \<noteq> pl \<Longrightarrow> cmp (xs ! i) (xs ! j) \<le> 0"
    "\<And>j. pl < j \<Longrightarrow> j \<le> m \<Longrightarrow> cmp (xs ! pl) (xs ! j) \<le> 0" using assms(1) by (auto simp: sinking_def)
  show "cmp (xs ! i) (xs ! j) \<le> 0"
  proof (cases "j = pl")
    case True
    then have l: "cmp (xs ! (pl - 1)) (xs ! pl) \<le> 0" using assms(3) ij by auto
    show ?thesis
    proof (cases "i = pl - 1")
      case False
      then have "cmp (xs ! i) (xs ! (pl - 1)) \<le> 0" using s(1) [of i "pl - 1"] ij True by auto
      then show ?thesis using cmp_trans l True by blast
    qed (use l True in simp)
  next
    case False
    then show ?thesis using s ij by (cases "i = pl") auto
  qed
qed

lemma insert_down_ok:
  "sinking a pl m xs \<Longrightarrow> a \<le> pl \<Longrightarrow> pl \<le> m \<Longrightarrow> m < length xs \<Longrightarrow>
   within a (Suc m) xs (insert_down cmp a pl xs) \<and> sorted_range a (Suc m) (insert_down cmp a pl xs)"
proof (induction pl arbitrary: xs)
  case 0
  then show ?case using sinking_stop [of a 0 m xs] by (subst (1 2) insert_down.simps) simp
next
  case (Suc pl)
  show ?case
  proof (cases "a < Suc pl \<and> 0 < cmp (xs ! pl) (xs ! Suc pl)")
    case True
    let ?ys = "swap (Suc pl) pl xs"
    have "sinking a pl m ?ys" using sinking_step [OF Suc.prems(1)] True Suc.prems by simp
    then have "within a (Suc m) ?ys (insert_down cmp a pl ?ys) \<and> sorted_range a (Suc m) (insert_down cmp a pl ?ys)"
      using Suc.IH [of ?ys] True Suc.prems by simp
    moreover have "within a (Suc m) xs ?ys" by (rule within_swap) (use True Suc.prems in auto)
    ultimately show ?thesis using True within_trans by (subst (1 2) insert_down.simps) auto
  next
    case False
    then show ?thesis using sinking_stop [OF Suc.prems(1,2)] Suc.prems(2) by (subst (1 2) insert_down.simps) auto
  qed
qed

lemma insertion_sort_ok:
  "sorted_range a pm xs \<Longrightarrow> a \<le> pm \<Longrightarrow> e \<le> length xs \<Longrightarrow>
   within a e xs (insertion_sort cmp a e pm xs) \<and> sorted_range a e (insertion_sort cmp a e pm xs)"
proof (induction "e - pm" arbitrary: pm xs rule: less_induct)
  case less
  show ?case
  proof (cases "pm < e")
    case True
    let ?ys = "insert_down cmp a pm xs"
    have "sinking a pm pm xs" using less.prems(1) by (auto simp: sinking_def sorted_range_def)
    then have y: "within a (Suc pm) xs ?ys" "sorted_range a (Suc pm) ?ys"
      using insert_down_ok [of a pm pm xs] less.prems True by auto
    have "within a e xs ?ys" by (rule within_mono [OF y(1)]) (use True in auto)
    moreover have "within a e ?ys (insertion_sort cmp a e (Suc pm) ?ys) \<and> sorted_range a e (insertion_sort cmp a e (Suc pm) ?ys)"
      by (rule less.hyps) (use True y less.prems in \<open>auto simp: within_def\<close>)
    ultimately show ?thesis using True within_trans by (subst (1 2) insertion_sort.simps) auto
  next
    case False
    then have "sorted_range a e xs" using less.prems(1) by (auto simp: sorted_range_def)
    then show ?thesis using False by (subst (1 2) insertion_sort.simps) simp
  qed
qed

text \<open>The four ranges around the pivot, which is the element at \<open>a\<close>: equal, smaller, not yet seen, larger, equal.\<close>

definition split_inv :: "nat \<Rightarrow> nat \<Rightarrow> nat \<Rightarrow> nat \<Rightarrow> nat \<Rightarrow> nat \<Rightarrow> 'a list \<Rightarrow> bool" where
  "split_inv a e pa pb pc pd xs \<longleftrightarrow> a < pa \<and> pa \<le> pb \<and> pb \<le> Suc pc \<and> pc \<le> pd \<and> pd < e \<and> e \<le> length xs
     \<and> (\<forall>k. a \<le> k \<and> k < pa \<longrightarrow> cmp (xs ! k) (xs ! a) = 0) \<and> (\<forall>k. pa \<le> k \<and> k < pb \<longrightarrow> cmp (xs ! k) (xs ! a) < 0)
     \<and> (\<forall>k. pc < k \<and> k \<le> pd \<longrightarrow> 0 < cmp (xs ! k) (xs ! a)) \<and> (\<forall>k. pd < k \<and> k < e \<longrightarrow> cmp (xs ! k) (xs ! a) = 0)"

lemma split_left_equal:
  assumes "split_inv a e pa pb pc pd xs" "pb \<le> pc" "cmp (xs ! pb) (xs ! a) = 0"
  shows "split_inv a e (Suc pa) (Suc pb) pc pd (swap pa pb xs) \<and> within a e xs (swap pa pb xs)"
proof -
  have b: "a < pa" "pa \<le> pb" "pb \<le> pc" "pc \<le> pd" "pd < e" "e \<le> length xs" using assms(1,2) by (auto simp: split_inv_def)
  have n: "swap pa pb xs ! k = (if k = pa then xs ! pb else if k = pb then xs ! pa else xs ! k)" for k
    by (rule nth_swap) (use b in auto)
  have "within a e xs (swap pa pb xs)" by (rule within_swap) (use b in auto)
  then show ?thesis using assms b unfolding split_inv_def n by (auto simp: less_Suc_eq)
qed

lemma split_right_equal:
  assumes "split_inv a e pa pb pc pd xs" "pb \<le> pc" "cmp (xs ! pc) (xs ! a) = 0"
  shows "split_inv a e pa pb (pc - 1) (pd - 1) (swap pc pd xs) \<and> within a e xs (swap pc pd xs)"
proof -
  have b: "a < pa" "pa \<le> pb" "pb \<le> pc" "pc \<le> pd" "pd < e" "e \<le> length xs" using assms(1,2) by (auto simp: split_inv_def)
  have n: "swap pc pd xs ! k = (if k = pc then xs ! pd else if k = pd then xs ! pc else xs ! k)" for k
    by (rule nth_swap) (use b in auto)
  have "within a e xs (swap pc pd xs)" by (rule within_swap) (use b in auto)
  moreover have "0 < cmp (xs ! pd) (xs ! a)" if "pc \<noteq> pd" using assms(1) that b by (auto simp: split_inv_def)
  moreover have "pc - 1 < k \<longleftrightarrow> pc \<le> k" "k \<le> pd - 1 \<longleftrightarrow> k < pd" "pd - 1 < k \<longleftrightarrow> pd \<le> k" for k using b by auto
  ultimately show ?thesis using assms b unfolding split_inv_def n by auto
qed

lemma scan_left_inv:
  "split_inv a e pa pb pc pd xs \<Longrightarrow> scan_left cmp a pa pb pc s xs = (pa', pb', s', xs') \<Longrightarrow>
   split_inv a e pa' pb' pc pd xs' \<and> within a e xs xs'"
proof (induction "Suc pc - pb" arbitrary: pa pb s xs rule: less_induct)
  case less
  show ?case
  proof (cases "pb \<le> pc \<and> cmp (xs ! pb) (xs ! a) \<le> 0")
    case True
    show ?thesis
    proof (cases "cmp (xs ! pb) (xs ! a) = 0")
      case eq: True
      have "scan_left cmp a (Suc pa) (Suc pb) pc True (swap pa pb xs) = (pa', pb', s', xs')"
        using less.prems(2) True eq by (subst (asm) scan_left.simps) simp
      then show ?thesis
        using less.hyps [of "Suc pb" "Suc pa" "swap pa pb xs" True] split_left_equal [OF less.prems(1) _ eq] True
          within_trans [of a e xs "swap pa pb xs" xs'] by fastforce
    next
      case lt: False
      have "scan_left cmp a pa (Suc pb) pc s xs = (pa', pb', s', xs')"
        using less.prems(2) True lt by (subst (asm) scan_left.simps) simp
      moreover have "split_inv a e pa (Suc pb) pc pd xs" using less.prems(1) True lt by (auto simp: split_inv_def less_Suc_eq)
      ultimately show ?thesis using less.hyps [of "Suc pb" pa xs s] True by auto
    qed
  next
    case False
    then show ?thesis using less.prems by (subst (asm) scan_left.simps) auto
  qed
qed

lemma scan_right_inv:
  "split_inv a e pa pb pc pd xs \<Longrightarrow> scan_right cmp a pb pc pd s xs = (pc', pd', s', xs') \<Longrightarrow>
   split_inv a e pa pb pc' pd' xs' \<and> within a e xs xs'"
proof (induction pc arbitrary: pd s xs rule: less_induct)
  case (less pc)
  have pb: "0 < pb" using less.prems(1) by (auto simp: split_inv_def)
  show ?case
  proof (cases "pb \<le> pc \<and> cmp (xs ! pc) (xs ! a) \<ge> 0")
    case True
    show ?thesis
    proof (cases "cmp (xs ! pc) (xs ! a) = 0")
      case eq: True
      have "scan_right cmp a pb (pc - 1) (pd - 1) True (swap pc pd xs) = (pc', pd', s', xs')"
        using less.prems(2) True eq pb by (subst (asm) scan_right.simps) simp
      then show ?thesis
        using less.IH [of "pc - 1" "pd - 1" "swap pc pd xs" True] split_right_equal [OF less.prems(1) _ eq] True pb
          within_trans [of a e xs "swap pc pd xs" xs'] by auto
    next
      case gt: False
      have "scan_right cmp a pb (pc - 1) pd s xs = (pc', pd', s', xs')"
        using less.prems(2) True gt pb by (subst (asm) scan_right.simps) simp
      moreover have "split_inv a e pa pb (pc - 1) pd xs"
      proof -
        have "pc - 1 < k \<longleftrightarrow> pc \<le> k" for k using pb True by auto
        then show ?thesis using less.prems(1) True gt pb by (auto simp: split_inv_def le_less)
      qed
      ultimately show ?thesis using less.IH [of "pc - 1" pd xs s] True pb by auto
    qed
  next
    case False
    then show ?thesis using less.prems by (subst (asm) scan_right.simps) auto
  qed
qed

lemma partition_inv:
  "split_inv a e pa pb pc pd xs \<Longrightarrow> partition_loop cmp a pa pb pc pd s xs = (pa', pb', pc', pd', s', xs') \<Longrightarrow>
   split_inv a e pa' pb' pc' pd' xs' \<and> pb' = Suc pc' \<and> within a e xs xs'"
proof (induction "Suc pc - pb" arbitrary: pa pb pc pd s xs rule: less_induct)
  case less
  obtain pa1 pb1 s1 xs1 where l: "scan_left cmp a pa pb pc s xs = (pa1, pb1, s1, xs1)" using prod_cases4 by blast
  obtain pc1 pd1 s2 xs2 where r: "scan_right cmp a pb1 pc pd s1 xs1 = (pc1, pd1, s2, xs2)" using prod_cases4 by blast
  have i1: "split_inv a e pa1 pb1 pc pd xs1" "within a e xs xs1" using scan_left_inv [OF less.prems(1) l] by simp_all
  have i2: "split_inv a e pa1 pb1 pc1 pd1 xs2" "within a e xs xs2"
    using scan_right_inv [OF i1(1) r] within_trans [OF i1(2)] by simp_all
  show ?case
  proof (cases "pb1 > pc1")
    case True
    then have "pb1 = Suc pc1" using i2(1) by (auto simp: split_inv_def)
    then show ?thesis using less.prems(2) l r True i2 by (subst (asm) partition_loop.simps) auto
  next
    case False
    let ?ys = "swap pb1 pc1 xs2"
    have c: "a < pb1" "pb1 \<le> Suc pc" "pc \<le> pd" using i1(1) by (auto simp: split_inv_def)
    have x: "pb1 < pc1" by (rule scans_cross [OF l r c]) (use False in simp)
    have pc1: "pc1 \<le> pc" using scan_right_pc [of cmp a pb1 pc pd s1 xs1] r by simp
    have pb1: "pb \<le> pb1" using scan_left_pb [of pb cmp a pa pc s xs] l by simp
    have b: "a < pa1" "pa1 \<le> pb1" "pc1 \<le> pd1" "pd1 < e" "e \<le> length xs2" using i2(1) by (auto simp: split_inv_def)
    have k: "xs2 ! k = xs1 ! k" if "k \<le> pc1" for k by (rule scan_right_keeps [OF _ c(2,3) r that]) (use c(1) in simp)
    have gt: "0 < cmp (xs2 ! pb1) (xs2 ! a)" using scan_left_stop [OF l] k [of pb1] k [of a] x pc1 c(1) by auto
    have lt: "cmp (xs2 ! pc1) (xs2 ! a) < 0" using scan_right_stop [OF _ r] c(1) x by auto
    have n: "?ys ! k = (if k = pb1 then xs2 ! pc1 else if k = pc1 then xs2 ! pb1 else xs2 ! k)" for k
      by (rule nth_swap) (use b x in auto)
    have "pc1 - 1 < k \<longleftrightarrow> pc1 \<le> k" for k using x by auto
    then have i3: "split_inv a e pa1 (Suc pb1) (pc1 - 1) pd1 ?ys"
      using i2(1) gt lt b x unfolding split_inv_def n by (auto simp: less_Suc_eq)
    have w: "within a e xs ?ys" by (rule within_trans [OF i2(2) within_swap]) (use b x in auto)
    have "partition_loop cmp a pa1 (Suc pb1) (pc1 - 1) pd1 True ?ys = (pa', pb', pc', pd', s', xs')"
      using less.prems(2) l r False by (subst (asm) partition_loop.simps) simp
    then have "split_inv a e pa' pb' pc' pd' xs' \<and> pb' = Suc pc' \<and> within a e ?ys xs'"
      by (intro less.hyps [OF _ i3]) (use x pc1 pb1 in auto)
    then show ?thesis using within_trans [OF w] by blast
  qed
qed

text \<open>The array after the equal elements have been moved to the middle.\<close>

definition parted :: "nat \<Rightarrow> nat \<Rightarrow> nat \<Rightarrow> nat \<Rightarrow> 'a \<Rightarrow> 'a list \<Rightarrow> bool" where
  "parted a m1 m2 e v xs \<longleftrightarrow> (\<forall>k. a \<le> k \<and> k < m1 \<longrightarrow> cmp (xs ! k) v < 0) \<and> (\<forall>k. m1 \<le> k \<and> k < m2 \<longrightarrow> cmp (xs ! k) v = 0)
     \<and> (\<forall>k. m2 \<le> k \<and> k < e \<longrightarrow> 0 < cmp (xs ! k) v)"

text \<open>Exchanging the ends of two adjacent ranges puts the second in front of the first.\<close>

lemma vecswap_ranges:
  assumes "a \<le> p" "p \<le> q" "q \<le> length xs" "r = min (p - a) (q - p)"
    "\<And>k. a \<le> k \<Longrightarrow> k < p \<Longrightarrow> P (xs ! k)" "\<And>k. p \<le> k \<Longrightarrow> k < q \<Longrightarrow> Q (xs ! k)"
  shows "a \<le> k \<Longrightarrow> k < a + (q - p) \<Longrightarrow> Q (vecswap a (q - r) r xs ! k)" (is "_ \<Longrightarrow> _ \<Longrightarrow> ?left")
    "a + (q - p) \<le> k \<Longrightarrow> k < q \<Longrightarrow> P (vecswap a (q - r) r xs ! k)" (is "_ \<Longrightarrow> _ \<Longrightarrow> ?right")
    "q \<le> k \<or> k < a \<Longrightarrow> k < length xs \<Longrightarrow> vecswap a (q - r) r xs ! k = xs ! k" (is "_ \<Longrightarrow> _ \<Longrightarrow> ?same")
proof -
  have r: "r \<le> p - a" "r \<le> q - p" "r = p - a \<or> r = q - p" using assms(4) by linarith+
  note n = nth_vecswap [of a r "q - r" xs k]
  have d: "a + r \<le> q - r" "q - r + r \<le> length xs" using r assms(1-3) by linarith+
  { assume k: "a \<le> k" "k < a + (q - p)"
    show ?left
    proof (cases "k < a + r")
      case True
      have "p \<le> q - r + (k - a)" "q - r + (k - a) < q" using True k r assms(1,2) by linarith+
      then show ?thesis using n [OF d] True k r d assms(2,3,6) by simp
    next
      case False
      then have "p \<le> k" "k < q" "\<not> (q - r \<le> k \<and> k < q - r + r)" using k r assms(1,2) by linarith+
      then show ?thesis using n [OF d] False assms(3,6) by simp
    qed }
  { assume k: "a + (q - p) \<le> k" "k < q"
    show ?right
    proof (cases "q - r \<le> k")
      case True
      have "a \<le> a + (k - (q - r))" "a + (k - (q - r)) < p" "\<not> (a \<le> k \<and> k < a + r)" using True k r d assms(1,2) by linarith+
      then show ?thesis using n [OF d] True k d assms(2,3,5) by simp
    next
      case False
      then have "a \<le> k" "k < p" "\<not> (a \<le> k \<and> k < a + r)" using k r assms(1,2) by linarith+
      then show ?thesis using n [OF d] False assms(2,3,5) by simp
    qed }
  { assume k: "q \<le> k \<or> k < a" "k < length xs"
    then have "\<not> (a \<le> k \<and> k < a + r)" "\<not> (q - r \<le> k \<and> k < q - r + r)" using r d assms(1,2) by linarith+
    then show ?same using n [OF d k(2)] by (metis (no_types))  }
qed

lemma middle_moved:
  assumes "split_inv a e pa pb pc pd xs" "pb = Suc pc"
    "ys = vecswap a (pb - min (pa - a) (pb - pa)) (min (pa - a) (pb - pa)) xs"
    "zs = vecswap pb (e - min (pd - pc) (e - pd - 1)) (min (pd - pc) (e - pd - 1)) ys"
  shows "parted a (a + (pb - pa)) (e - (pd - pc)) e (xs ! a) zs \<and> within a e xs zs"
proof -
  have b: "a < pa" "pa \<le> pb" "pb = Suc pc" "pc \<le> pd" "pd < e" "e \<le> length xs" using assms(1,2) by (auto simp: split_inv_def)
  let ?r = "min (pa - a) (pb - pa)" and ?q = "min (pd - pc) (e - pd - 1)"
  have wy: "within a e xs ys" unfolding assms(3) by (rule within_vecswap) (use b in auto)
  then have ly: "length ys = length xs" by (simp add: within_def)
  have wz: "within a e ys zs" unfolding assms(4) by (rule within_vecswap) (use b ly in auto)
  have s: "\<And>k. a \<le> k \<Longrightarrow> k < pa \<Longrightarrow> cmp (xs ! k) (xs ! a) = 0" "\<And>k. pa \<le> k \<Longrightarrow> k < pb \<Longrightarrow> cmp (xs ! k) (xs ! a) < 0"
    "\<And>k. pb \<le> k \<Longrightarrow> k < Suc pd \<Longrightarrow> 0 < cmp (xs ! k) (xs ! a)" "\<And>k. Suc pd \<le> k \<Longrightarrow> k < e \<Longrightarrow> cmp (xs ! k) (xs ! a) = 0"
    using assms(1,2) by (auto simp: split_inv_def)
  have l: "a \<le> pa" "pb \<le> length xs" using b by linarith+
  note y = vecswap_ranges [OF l(1) b(2) l(2) refl, of "\<lambda>x. cmp x (xs ! a) = 0" "\<lambda>x. cmp x (xs ! a) < 0", OF s(1,2), folded assms(3)]
  have s': "0 < cmp (ys ! k) (xs ! a)" if "pb \<le> k" "k < Suc pd" for k using y(3) [of k] s(3) that b by auto
  have s'': "cmp (ys ! k) (xs ! a) = 0" if "Suc pd \<le> k" "k < e" for k using y(3) [of k] s(4) that b by auto
  have q: "pb \<le> Suc pd" "Suc pd \<le> e" "e \<le> length ys" "?q = min (Suc pd - pb) (e - Suc pd)" using b ly by auto
  note z = vecswap_ranges [OF q(1-3) q(4), of "\<lambda>x. 0 < cmp x (xs ! a)" "\<lambda>x. cmp x (xs ! a) = 0", OF s' s'', folded assms(4)]
  have "cmp (zs ! k) (xs ! a) < 0" if "a \<le> k" "k < a + (pb - pa)" for k
  proof -
    have "k < pb" "k < length ys" using that b ly by linarith+
    then show ?thesis using z(3) [of k] y(1) [of k] that by simp
  qed
  moreover have "cmp (zs ! k) (xs ! a) = 0" if "a + (pb - pa) \<le> k" "k < e - (pd - pc)" for k
    using z(1) [of k] z(3) [of k] y(2) [of k] that b ly by (cases "pb \<le> k") auto
  moreover have "0 < cmp (zs ! k) (xs ! a)" if "e - (pd - pc) \<le> k" "k < e" for k using z(2) [of k] that b by auto
  ultimately show ?thesis using within_trans [OF wy wz] by (auto simp: parted_def)
qed

text \<open>Sorting the two outer parts, in either order, sorts the whole.\<close>

definition sorts :: "nat \<Rightarrow> nat \<Rightarrow> 'a list \<Rightarrow> 'a list \<Rightarrow> bool" where
  "sorts a e xs ys \<longleftrightarrow> within a e xs ys \<and> sorted_range a e ys"

lemma parted_within:
  assumes "parted a m1 m2 e v xs" "a \<le> m1" "m1 \<le> m2" "m2 \<le> e" "e \<le> length xs" "within a m1 xs ys \<or> within m2 e xs ys"
  shows "parted a m1 m2 e v ys"
  using assms(6)
proof
  assume w: "within a m1 xs ys"
  have "cmp (ys ! k) v < 0" if "a \<le> k" "k < m1" for k
    by (rule within_range [OF w, of _ k]) (use assms(1-5) that in \<open>auto simp: parted_def\<close>)
  moreover have "ys ! k = xs ! k" if "m1 \<le> k" "k < e" for k using w that assms(5) by (simp add: within_def)
  ultimately show ?thesis using assms(1,2-4) by (auto simp: parted_def)
next
  assume w: "within m2 e xs ys"
  have "0 < cmp (ys ! k) v" if "m2 \<le> k" "k < e" for k
    by (rule within_range [OF w, of _ k]) (use assms(1-5) that in \<open>auto simp: parted_def\<close>)
  moreover have "ys ! k = xs ! k" if "k < m2" for k using w that assms(4,5) by (simp add: within_def)
  ultimately show ?thesis using assms(1,2-4) by (auto simp: parted_def)
qed

lemma sorted_keep:
  assumes "sorted_range c d xs" "within a e xs ys" "e \<le> c \<or> d \<le> a" "d \<le> length xs"
  shows "sorted_range c d ys"
proof -
  have "ys ! k = xs ! k" if "c \<le> k" "k < d" for k using assms(2-4) that by (auto simp: within_def)
  then show ?thesis using assms(1) by (simp add: sorted_range_def)
qed

lemma parted_sorted:
  assumes "parted a m1 m2 e v xs" "sorted_range a m1 xs" "sorted_range m2 e xs"
  shows "sorted_range a e xs"
  unfolding sorted_range_def
proof (intro allI impI)
  fix i j assume ij: "a \<le> i \<and> i < j \<and> j < e"
  show "cmp (xs ! i) (xs ! j) \<le> 0"
  proof (cases "j < m1 \<or> m2 \<le> i")
    case True
    then show ?thesis using ij assms(2,3) by (auto simp: sorted_range_def)
  next
    case False
    then have "cmp (xs ! i) v \<le> 0" "0 \<le> cmp (xs ! j) v"
      using assms(1) ij unfolding parted_def by (metis not_less order.strict_implies_order order.refl less_trans)+
    then show ?thesis using cmp_trans [of "xs ! i" v "xs ! j"] cmp_flip [of v "xs ! j"] by blast
  qed
qed

lemma parts_sort:
  assumes "parted a m1 m2 e v xs" "a \<le> m1" "m1 \<le> m2" "m2 \<le> e" "e \<le> length xs"
    "sorts a m1 xs ys \<and> sorts m2 e ys zs \<or> sorts m2 e xs ys \<and> sorts a m1 ys zs"
  shows "sorts a e xs zs"
proof -
  have l: "length ys = length xs" using assms(6) by (auto simp: sorts_def within_def)
  have py: "parted a m1 m2 e v ys" by (rule parted_within [OF assms(1-5)]) (use assms(6) in \<open>auto simp: sorts_def\<close>)
  have pz: "parted a m1 m2 e v zs" by (rule parted_within [OF py assms(2-4)]) (use assms(5,6) l in \<open>auto simp: sorts_def\<close>)
  have "sorted_range a m1 zs" "sorted_range m2 e zs"
    using assms(2-6) l sorted_keep [of a m1 ys m2 e zs] sorted_keep [of m2 e ys a m1 zs] by (auto simp: sorts_def)
  moreover have "within a e xs ys" "within a e ys zs"
    using assms(2-4,6) within_mono [of a m1 _ _ a e] within_mono [of m2 e _ _ a e] by (auto simp: sorts_def)
  ultimately show ?thesis using parted_sorted [OF pz] within_trans unfolding sorts_def by blast
qed

section \<open>The passes\<close>

lemma pivot_bounds:
  assumes "7 \<le> n"
  shows "a \<le> choose_pivot cmp a n xs \<and> choose_pivot cmp a n xs < a + n"
proof -
  have m: "med3 cmp xs i j k = i \<or> med3 cmp xs i j k = j \<or> med3 cmp xs i j k = k" for i j k by (simp add: med3_def)
  have in_range: "a \<le> med3 cmp xs i j k \<and> med3 cmp xs i j k < a + n"
    if "a \<le> i \<and> i < a + n" "a \<le> j \<and> j < a + n" "a \<le> k \<and> k < a + n" for i j k
    using m [of i j k] that by auto
  show ?thesis
    unfolding choose_pivot_def Let_def
    by (cases "n > 40"; cases "n > 7") (use assms in \<open>simp_all, (intro in_range; simp; linarith)+\<close>)
qed

definition pass_post :: "nat \<Rightarrow> nat \<Rightarrow> 'a list \<Rightarrow> ((nat \<times> nat) \<times> nat \<times> nat) option \<Rightarrow> bool" where
  "pass_post a e ys parts \<longleftrightarrow> (case parts of None \<Rightarrow> sorted_range a e ys
     | Some ((a', n'), (pa, r)) \<Rightarrow> \<exists>m1 m2 v. parted a m1 m2 e v ys \<and> a \<le> m1 \<and> m1 \<le> m2 \<and> m2 \<le> e
         \<and> (a' = a \<and> a' + n' = m1 \<and> pa = m2 \<and> pa + r = e \<or> pa = a \<and> pa + r = m1 \<and> a' = m2 \<and> a' + n' = e))"

lemma pass_postI:
  assumes "parted a m1 m2 e v ys" "a \<le> m1" "m1 \<le> m2" "m2 \<le> e"
    "a' = a \<and> a' + n' = m1 \<and> pa = m2 \<and> pa + r = e \<or> pa = a \<and> pa + r = m1 \<and> a' = m2 \<and> a' + n' = e"
  shows "pass_post a e ys (Some ((a', n'), (pa, r)))"
  using assms unfolding pass_post_def by auto

lemma pass_ok:
  assumes "a + n \<le> length xs" "qsort_pass cmp a n xs = (ys, parts)"
  shows "within a (a + n) xs ys \<and> pass_post a (a + n) ys parts"
proof (cases "n < 7")
  case True
  have "sorted_range a (a + 1) xs" by (simp add: sorted_range_def)
  then show ?thesis using insertion_sort_ok [of a "a + 1" xs "a + n"] assms True by (auto simp: qsort_pass_def pass_post_def)
next
  case False
  let ?x0 = "swap a (choose_pivot cmp a n xs) xs"
  obtain pa pb pc pd s zs where p: "partition_loop cmp a (a + 1) (a + 1) (a + (n - 1)) (a + (n - 1)) False ?x0 = (pa, pb, pc, pd, s, zs)"
    using prod_cases6 by blast
  have w0: "within a (a + n) xs ?x0" by (rule within_swap) (use pivot_bounds [of n a xs] False assms(1) in auto)
  have "split_inv a (a + n) (a + 1) (a + 1) (a + (n - 1)) (a + (n - 1)) ?x0"
    using False assms(1) by (auto simp: split_inv_def less_Suc_eq_le)
  then have i: "split_inv a (a + n) pa pb pc pd zs" "pb = Suc pc" "within a (a + n) ?x0 zs" using partition_inv p by blast+
  have wz: "within a (a + n) xs zs" by (rule within_trans [OF w0 i(3)])
  show ?thesis
  proof (cases s)
    case False
    have "sorted_range a (a + 1) zs" by (simp add: sorted_range_def)
    moreover have "a + n \<le> length zs" using wz assms(1) by (simp add: within_def)
    ultimately show ?thesis
      using insertion_sort_ok [of a "a + 1" zs "a + n"] within_trans [OF wz] assms(2) p False \<open>\<not> n < 7\<close>
      by (auto simp: qsort_pass_def pass_post_def)
  next
    case True
    define us where "us = vecswap a (pb - min (pa - a) (pb - pa)) (min (pa - a) (pb - pa)) zs"
    define vs where "vs = vecswap pb (a + n - min (pd - pc) (a + n - pd - 1)) (min (pd - pc) (a + n - pd - 1)) us"
    have m: "parted a (a + (pb - pa)) (a + n - (pd - pc)) (a + n) (zs ! a) vs" "within a (a + n) zs vs"
      using middle_moved [OF i(1,2) us_def vs_def] by simp_all
    have b: "a < pa" "pa \<le> pb" "pc \<le> pd" "pd < a + n" using i(1) by (auto simp: split_inv_def)
    have q: "a \<le> a + (pb - pa)" "a + (pb - pa) \<le> a + n - (pd - pc)" "a + n - (pd - pc) \<le> a + n"
      "a + n - (pd - pc) + (pd - pc) = a + n" using b i(2) by linarith+
    have r: "ys = vs" "parts = Some (if pd - pc > pb - pa then ((a + n - (pd - pc), pd - pc), (a, pb - pa)) else ((a, pb - pa), (a + n - (pd - pc), pd - pc)))"
      using assms(2) p True \<open>\<not> n < 7\<close> by (auto simp: qsort_pass_def Let_def us_def vs_def)
    have "pass_post a (a + n) ys parts"
      unfolding r by (cases "pd - pc > pb - pa") (simp_all only: if_True if_False, (rule pass_postI [OF m(1) q(1-3)], use q(4) in simp)+)
    then show ?thesis using within_trans [OF wz m(2)] r(1) by simp
  qed
qed

text \<open>The ranges on the stack are sorted one after the other.\<close>

fun runs :: "(nat \<times> nat) list \<Rightarrow> 'a list \<Rightarrow> 'a list \<Rightarrow> bool" where
  "runs [] xs ys = (ys = xs)"
| "runs ((a, n) # stk) xs zs = (\<exists>ys. sorts a (a + n) xs ys \<and> runs stk ys zs)"

definition fits :: "(nat \<times> nat) list \<Rightarrow> 'a list \<Rightarrow> bool" where
  "fits stk xs \<longleftrightarrow> (\<forall>(a, n) \<in> set stk. a + n \<le> length xs)"

lemma fits_simps [simp]: "fits [] xs" "fits ((a, n) # stk) xs \<longleftrightarrow> a + n \<le> length xs \<and> fits stk xs"
  by (simp_all add: fits_def)

lemma fits_length: "length ys = length xs \<Longrightarrow> fits stk ys = fits stk xs"
  by (simp add: fits_def)

lemma sorts_length: "sorts a e xs ys \<Longrightarrow> length ys = length xs"
  by (simp add: sorts_def within_def)

lemma sorts_tiny: "n \<le> 1 \<Longrightarrow> sorts a (a + n) xs xs"
  by (auto simp: sorts_def sorted_range_def)

lemma sorts_after: "within a e xs ys \<Longrightarrow> sorts a e ys zs \<Longrightarrow> sorts a e xs zs"
  using within_trans by (auto simp: sorts_def)

text \<open>The two parts of a pass sorted, smaller part first, and the range is sorted.\<close>

lemma pass_bounds:
  assumes "a + n \<le> length xs" "qsort_pass cmp a n xs = (ys, Some ((a', n'), pa, r))"
  shows "a' + n' \<le> length ys" "pa + r \<le> length ys" "length ys = length xs"
  using pass_ok [OF assms] assms(1) by (auto simp: pass_post_def within_def)

lemma pass_sorts:
  assumes "a + n \<le> length xs" "qsort_pass cmp a n xs = (ys, Some ((a', n'), pa, r))" "sorts pa (pa + r) ys us" "sorts a' (a' + n') us zs"
  shows "sorts a (a + n) xs zs"
proof -
  have w: "within a (a + n) xs ys" "pass_post a (a + n) ys (Some ((a', n'), pa, r))" using pass_ok [OF assms(1,2)] by simp_all
  obtain m1 m2 v where m: "parted a m1 m2 (a + n) v ys" "a \<le> m1" "m1 \<le> m2" "m2 \<le> a + n"
    "a' = a \<and> a' + n' = m1 \<and> pa = m2 \<and> pa + r = a + n \<or> pa = a \<and> pa + r = m1 \<and> a' = m2 \<and> a' + n' = a + n"
    using w(2) by (auto simp: pass_post_def)
  have "sorts a (a + n) ys zs" by (rule parts_sort [OF m(1-4)]) (use m(5) assms w(1) in \<open>auto simp: within_def\<close>)
  then show ?thesis by (rule sorts_after [OF w(1)])
qed

lemma pass_done:
  assumes "a + n \<le> length xs" "qsort_pass cmp a n xs = (ys, None)"
  shows "sorts a (a + n) xs ys"
  using pass_ok [OF assms] by (simp add: pass_post_def sorts_def)

lemma pop_runs:
  assumes "\<And>a n stk' xs. stk = (a, n) # stk' \<Longrightarrow> fits stk xs \<Longrightarrow> runs stk xs (f stk' a n xs)" "fits stk xs"
  shows "runs stk xs (case stk of [] \<Rightarrow> xs | (a, n) # stk' \<Rightarrow> f stk' a n xs)"
  using assms by (cases stk) (auto split: prod.splits)

lemma loop_ok: "fits ((a, n) # stk) xs \<Longrightarrow> runs ((a, n) # stk) xs (qsort_loop cmp stk a n xs)"
proof (induction "stack_size stk + 2 * n" arbitrary: stk a n xs rule: less_induct)
  case less
  have an: "a + n \<le> length xs" and st: "fits stk xs" using less.prems by simp_all
  obtain ys parts where p: "qsort_pass cmp a n xs = (ys, parts)" by fastforce
  have l: "length ys = length xs" using pass_ok [OF an p] by (simp add: within_def)
  have pop: "runs stk us (case stk of [] \<Rightarrow> us | (a, n) # stk' \<Rightarrow> qsort_loop cmp stk' a n us)" if "length us = length xs" for us
    by (rule pop_runs) (use less.hyps st fits_length [OF that, of stk] in auto)
  show ?case
  proof (cases parts)
    case None
    then have "sorts a (a + n) xs ys" using pass_done [OF an] p by simp
    then show ?thesis using pop [OF l] p None by (subst qsort_loop.simps) auto
  next
    case (Some q)
    then obtain a' n' pa r where q: "parts = Some ((a', n'), pa, r)" by (metis prod.collapse)
    note ps = pass_sorts [OF an p [unfolded q]]
    have small: "n' + r < n" by (rule qsort_pass_smaller [OF p [unfolded q]])
    note b = pass_bounds(1,2) [OF an p [unfolded q]]
    show ?thesis
    proof (cases "r > 1 \<and> length stk < PARAMETER_STACK_LEVELS")
      case True
      have "runs ((pa, r) # (a', n') # stk) ys (qsort_loop cmp ((a', n') # stk) pa r ys)"
        by (rule less.hyps) (use small b st fits_length [OF l] l in auto)
      then obtain us zs where "sorts pa (pa + r) ys us" "sorts a' (a' + n') us zs" "runs stk zs (qsort_loop cmp ((a', n') # stk) pa r ys)" by auto
      then show ?thesis using ps p q True by (subst qsort_loop.simps) auto
    next
      case False
      define us where "us = (if r > 1 then qsort_loop cmp [] pa r ys else ys)"
      have us: "sorts pa (pa + r) ys us"
      proof (cases "r > 1")
        case True
        have "runs [(pa, r)] ys (qsort_loop cmp [] pa r ys)" by (rule less.hyps) (use small b in auto)
        then show ?thesis using True by (simp add: us_def)
      qed (use sorts_tiny in \<open>simp add: us_def\<close>)
      have lu: "length us = length xs" using sorts_length [OF us] l by simp
      have e: "qsort_loop cmp stk a n xs = (if n' > 1 then qsort_loop cmp stk a' n' us
          else case stk of [] \<Rightarrow> us | (a', n') # stk' \<Rightarrow> qsort_loop cmp stk' a' n' us)"
        using p q False by (subst qsort_loop.simps) (auto simp: us_def Let_def split: list.splits)
      show ?thesis
      proof (cases "n' > 1")
        case True
        have "runs ((a', n') # stk) us (qsort_loop cmp stk a' n' us)"
          by (rule less.hyps) (use small b st fits_length [OF lu] lu l in auto)
        then show ?thesis using ps [OF us] True e by auto
      next
        case False
        have "sorts a (a + n) xs us" by (rule ps [OF us sorts_tiny]) (use False in simp)
        then show ?thesis using pop [OF lu] e False by auto
      qed
    qed
  qed
qed

lemma qsort_ok: "mset (qsort cmp xs) = mset xs \<and> sorted_wrt (\<lambda>x y. cmp x y \<le> 0) (qsort cmp xs)"
proof -
  have "sorts 0 (length xs) xs (qsort cmp xs)" using loop_ok [of 0 "length xs" "[]" xs] by (auto simp: qsort_def)
  then show ?thesis by (auto simp: sorts_def within_def sorted_range_def sorted_wrt_iff_nth_less)
qed

end

section \<open>The property\<close>

text \<open>C17: For every comparison that is a total preorder, the library's sorting routine ends and leaves a permutation of the array in
  ascending order: through the insertion sort of short arrays, the partition into smaller, equal and larger elements, and the
  parameter stack with its fallback to recursion.\<close>

theorem qsort_sorts_array:
  assumes "\<And>x y. cmp x y < 0 \<longleftrightarrow> 0 < cmp y x" "\<And>x y z. cmp x y \<le> 0 \<Longrightarrow> cmp y z \<le> 0 \<Longrightarrow> cmp x z \<le> (0 :: int)"
  shows "mset (qsort cmp xs) = mset xs \<and> sorted_wrt (\<lambda>x y. cmp x y \<le> 0) (qsort cmp xs)"
proof -
  have "comparison cmp" by unfold_locales (use assms in blast)+
  then show ?thesis by (rule comparison.qsort_ok)
qed

lemma qsort_sorts_array_witness:
  "mset (qsort (\<lambda>x y. y - x) [3, 1, 4, 1, 5, 9, 2, 6, 5, 3 :: int]) = mset [3, 1, 4, 1, 5, 9, 2, 6, 5, 3]
   \<and> sorted_wrt (\<lambda>x y. y - x \<le> 0) (qsort (\<lambda>x y. y - x) [3, 1, 4, 1, 5, 9, 2, 6, 5, 3 :: int])"
  by (rule qsort_sorts_array) auto

end
