(* ===== verification/Assertion_Laws.thy ===== *)
theory Assertion_Laws
  imports Credential_Laws Pin_Properties Qsort_Laws
begin

text \<open>
  What \<open>getAssertion\<close> signs with: only credentials whose tag is right for the relying party and whose protection
  level allows the use, whatever the files on flash hold. littlefs is assumed to read at most as many bytes as it is
  asked for; that \<open>qsort\<close> sorts by the counter is the interpretation of the comparisons on \<open>cred_cmp_func\<close>.
\<close>

section \<open>Genuine credentials\<close>

definition genuine :: "'a crypto_scheme \<Rightarrow> bytes \<Rightarrow> bytes \<Rightarrow> bool \<Rightarrow> bool \<Rightarrow> stored_descriptor \<Rightarrow> bool" where
  "genuine w rph lookup verified listed c \<longleftrightarrow>
     (if cred_type (sd_desc c) = PUB_KEY_CRED_PUB_KEY
      then cred_tag (cred_id (sd_desc c)) = credential_tag (key_cred_mac w) lookup (cred_id (sd_desc c))
      else cred_type (sd_desc c) = PUB_KEY_CRED_CTAP1
        \<and> take 16 (cred_id (sd_desc c)) = handle_tag (key_cred_mac w) rph (cred_id (sd_desc c)))
     \<and> fst (ctap_check_credential_metadata (cred_id (sd_desc c)) verified listed w) = CTAP2_OK"

definition id_sized :: "stored_descriptor \<Rightarrow> bool" where
  "id_sized c \<longleftrightarrow> length (cred_id (sd_desc c)) = 57"

text \<open>The keys stay, the hash context keeps its size, and the assertion state changes in its array at most.\<close>

definition ga_frame :: "('fs, 'f, 'a) ctap_scheme \<Rightarrow> ('fs, 'f, 'a) ctap_scheme \<Rightarrow> bool" where
  "ga_frame w w' \<longleftrightarrow> key_cred_mac w' = key_cred_mac w \<and> key_meta_enc w' = key_meta_enc w \<and> crypto_ok w'
     \<and> (\<exists>cs. getAssertionState w' = (getAssertionState w)\<lparr>ga_creds := cs\<rparr>)"

definition ga_still :: "('fs, 'f, 'a) ctap_scheme \<Rightarrow> ('fs, 'f, 'a) ctap_scheme \<Rightarrow> bool" where
  "ga_still w w' \<longleftrightarrow> ga_frame w w' \<and> getAssertionState w' = getAssertionState w"

lemma ga_frame_trans: "ga_frame a b \<Longrightarrow> ga_frame b c \<Longrightarrow> ga_frame a c"
  by (auto simp: ga_frame_def)

lemma ga_still_trans: "ga_still a b \<Longrightarrow> ga_still b c \<Longrightarrow> ga_still a c"
  by (auto simp: ga_still_def intro: ga_frame_trans)

lemma ga_still_frame: "ga_still a b \<Longrightarrow> ga_frame a b"
  by (simp add: ga_still_def)

lemma ga_still_refl: "crypto_ok w \<Longrightarrow> ga_still w w"
  by (auto simp: ga_still_def ga_frame_def intro: exI [of _ "ga_creds (getAssertionState w)"])

lemma ga_frameD:
  assumes "ga_frame w w'"
  shows "key_cred_mac w' = key_cred_mac w" "key_meta_enc w' = key_meta_enc w" "crypto_ok w'"
    "ga_user_verified (getAssertionState w') = ga_user_verified (getAssertionState w)"
  using assms by (auto simp: ga_frame_def)

lemma genuine_frame: "ga_frame w w' \<Longrightarrow> genuine w' rph lookup verified listed c = genuine w rph lookup verified listed c"
  by (simp add: genuine_def ga_frameD ctap_check_credential_metadata_def ctap_xcrypt_buf_def)

lemma ga_still_hash: "hash_frame w w' \<Longrightarrow> ga_still w w'"
  using hash_frame_fields [of w w'] hash_frame_ok [of w w']
  by (auto simp: ga_still_def ga_frame_def hash_frame_def intro: exI [of _ "ga_creds (getAssertionState w)"])

lemma ga_still_files: "crypto_ok w \<Longrightarrow> ga_still w (w\<lparr>lfs := x, f_rk := f\<rparr>)"
  by (auto simp: ga_still_def ga_frame_def crypto_ok_def intro: exI [of _ "ga_creds (getAssertionState w)"])

section \<open>Files\<close>

definition reads_bounded :: "('fs, 'f, 'd) lfs_lib \<Rightarrow> bool" where
  "reads_bounded lib \<longleftrightarrow> (\<forall>f n x. length (fst (snd (lfs_file_read lib f n x))) \<le> n)"

lemma open_still: "crypto_ok w \<Longrightarrow> ga_still w (snd (ctap_open_rk_file lib t w))"
  using ga_still_files [of w] ga_still_refl [of w]
  by (auto simp: ctap_open_rk_file_def fs_open_file_def case_prod_unfold Let_def)

lemma close_still: "crypto_ok w \<Longrightarrow> ga_still w (snd (ctap_close_rk_file lib w))"
  using ga_still_files [of w] ga_still_refl [of w]
  by (auto simp: ctap_close_rk_file_def fs_close_file_def case_prod_unfold Let_def)

lemma load_next_still:
  assumes "crypto_ok w" "reads_bounded lib" "length rk = sizeof_residentKey"
  shows "ga_still w (snd (ctap_load_next_rk lib rk w))" "length (fst (ctap_load_next_rk lib rk w)) = sizeof_residentKey"
  using assms ga_still_files [of w] ga_still_refl [of w]
  by (auto simp: ctap_load_next_rk_def rk_read_def fs_read_def case_prod_unfold Let_def reads_bounded_def blit_simps)


lemma verify_mac_still:
  assumes "crypto_ok w" "length (key_cred_mac w) = 32" "ctap_verify_mac m d w = Some (ok, w')"
  shows "ga_still w w'"
proof -
  obtain w1 where "ctap_compute_mac d CREDENTIAL_TAG_SIZE w = Some (take 16 (HMAC (key_cred_mac w) d), w1)" "hash_frame w w1"
    by (rule mac_exact [OF assms(1,2)])
  then show ?thesis using assms(3) ga_still_hash by (auto simp: ctap_verify_mac_def)
qed

lemma rk_exists_still:
  assumes "rk_exists_loop lib cid n rk w = Some (ok, w')" "crypto_ok w" "length (key_cred_mac w) = 32"
    "reads_bounded lib" "length rk = sizeof_residentKey"
  shows "ga_still w w'"
  using assms
proof (induction n arbitrary: rk w)
  case 0
  then show ?case using close_still [of w lib] by auto
next
  case (Suc n)
  obtain rk1 w1 where e: "ctap_load_next_rk lib rk w = (rk1, w1)" by fastforce
  have l: "ga_still w w1" "length rk1 = sizeof_residentKey"
    using load_next_still [OF Suc.prems(2,4,5)] by (simp_all add: e)
  have k: "crypto_ok w1" "length (key_cred_mac w1) = 32"
    using ga_frameD [OF ga_still_frame [OF l(1)]] Suc.prems(3) by simp_all
  note again = ga_still_trans [OF l(1) Suc.IH [OF _ k Suc.prems(4) l(2)]]
  have later: "ga_still w w'" if "ga_still w1 w2" "rk_exists_loop lib cid n rk1 w2 = Some (ok, w')" for w2
    using ga_still_trans [OF ga_still_trans [OF l(1) that(1)] Suc.IH [OF that(2) _ _ Suc.prems(4) l(2)]]
      ga_frameD [OF ga_still_frame [OF that(1)]] k by simp
  have "(if memcmp CREDENTIAL_TAG_SIZE (cred_rp_id_lookup cid) (cred_rp_id_lookup (rk_id rk1)) \<noteq> 0 \<or> \<not> is_cred_id_matching_rk cid rk1
      then rk_exists_loop lib cid n rk1 w1
      else do { (v, w) \<leftarrow> ctap_verify_mac (rk_rk_tag rk1) (take RK_HMAC_SIZE rk1) w1;
                if \<not> v then rk_exists_loop lib cid n rk1 w else Some (True, snd (ctap_close_rk_file lib w)) }) = Some (ok, w')"
    using Suc.prems(1) by (auto simp: e split: if_splits)
  then consider "rk_exists_loop lib cid n rk1 w1 = Some (ok, w')"
    | v w2 where "ctap_verify_mac (rk_rk_tag rk1) (take RK_HMAC_SIZE rk1) w1 = Some (v, w2)"
        "rk_exists_loop lib cid n rk1 w2 = Some (ok, w') \<or> w' = snd (ctap_close_rk_file lib w2)"
    by (fastforce simp: Option.bind_eq_Some_conv split: if_splits)
  then show ?case
  proof cases
    case 2
    have v: "ga_still w1 w2" by (rule verify_mac_still [OF k 2(1)])
    have "ga_still w2 (snd (ctap_close_rk_file lib w2))"
      by (rule close_still) (use ga_frameD [OF ga_still_frame [OF v]] in simp)
    then show ?thesis using 2(2) later [OF v] ga_still_trans [OF ga_still_trans [OF l(1) v]] by blast
  qed (rule again)
qed

lemma verify_rk_exists_still:
  assumes "ctap_verify_rk_exists lib cid w = Some (ok, w')" "crypto_ok w" "length (key_cred_mac w) = 32" "reads_bounded lib"
  shows "ga_still w w'"
proof -
  obtain r w1 where e: "ctap_open_rk_file lib (cred_rp_id_lookup cid) w = (r, w1)" by fastforce
  have o: "ga_still w w1" using open_still [OF assms(2), of lib "cred_rp_id_lookup cid"] by (simp add: e)
  have k: "crypto_ok w1" "length (key_cred_mac w1) = 32" using ga_frameD [OF ga_still_frame [OF o]] assms(3) by simp_all
  have "ga_still w1 w'"
  proof (cases "r \<le> 0")
    case True
    then show ?thesis using assms(1) close_still [OF k(1), of lib]
      by (auto simp: ctap_verify_rk_exists_def e)
  next
    case False
    then have "rk_exists_loop lib cid (nat r) (uninit sizeof_residentKey w1) w1 = Some (ok, w')"
      using assms(1) by (simp add: ctap_verify_rk_exists_def e)
    then show ?thesis by (rule rk_exists_still [OF _ k assms(4)]) simp
  qed
  then show ?thesis by (rule ga_still_trans [OF o])
qed

section \<open>The array of credentials\<close>

definition creds_sized :: "('fs, 'f, 'a) ctap_scheme \<Rightarrow> bool" where
  "creds_sized w \<longleftrightarrow> length (ga_creds (getAssertionState w)) = ALLOW_LIST_MAX_SIZE
     \<and> (\<forall>c \<in> set (ga_creds (getAssertionState w)). id_sized c)"

abbreviation is_verified :: "('fs, 'f, 'a) ctap_scheme \<Rightarrow> bool" where
  "is_verified w \<equiv> ga_user_verified (getAssertionState w) \<noteq> 0"

abbreviation keys_ok :: "('fs, 'f, 'a) ctap_scheme \<Rightarrow> bool" where
  "keys_ok w \<equiv> crypto_ok w \<and> length (key_cred_mac w) = 32"

lemma ga_still_sized: "ga_still w w' \<Longrightarrow> creds_sized w' = creds_sized w"
  by (simp add: ga_still_def creds_sized_def)

lemma ga_still_cred: "ga_still w w' \<Longrightarrow> ga_cred j w' = ga_cred j w"
  by (simp add: ga_still_def)

lemma ga_frame_keys: "ga_frame w w' \<Longrightarrow> keys_ok w \<Longrightarrow> keys_ok w'"
  by (simp add: ga_frameD)

lemma put_cred_frame: "crypto_ok w \<Longrightarrow> ga_frame w (ga_put_cred i c w)"
  by (auto simp: ga_frame_def ga_put_cred_def ga_set_def crypto_ok_def)

lemma put_cred_sized: "creds_sized w \<Longrightarrow> id_sized c \<Longrightarrow> creds_sized (ga_put_cred i c w)"
  using set_update_subset_insert [of "ga_creds (getAssertionState w)" i c]
  by (auto simp: creds_sized_def ga_put_cred_def ga_set_def)

lemma put_cred_nth:
  "creds_sized w \<Longrightarrow> i < ALLOW_LIST_MAX_SIZE \<Longrightarrow> ga_cred j (ga_put_cred i c w) = (if j = i then c else ga_cred j w)"
  by (simp add: creds_sized_def ga_put_cred_def ga_set_def)

section \<open>Resident credentials\<close>

text \<open>One round of the loop: on to the next key, stop because the array is full, or take a genuine credential.\<close>

lemma rk_filter_step:
  assumes "rk_filter lib lookup (Suc n) cnt rk w = Some (c', w')" "keys_ok w" "reads_bounded lib"
    "length rk = sizeof_residentKey" "length lookup = 16"
  obtains (skip) rk1 w2 where "ga_still w w2" "length rk1 = sizeof_residentKey" "rk_filter lib lookup n cnt rk1 w2 = Some (c', w')"
  | (full) "ga_still w w'" "c' = cnt"
  | (take) rk1 w2 c where "ga_still w w2" "length rk1 = sizeof_residentKey" "cnt < ALLOW_LIST_MAX_SIZE" "id_sized c"
      "genuine w rph lookup (is_verified w) False c"
      "rk_filter lib lookup n (cnt + 1) rk1 (ga_put_cred cnt c w2) = Some (c', w')"
proof -
  obtain rk1 w1 where e: "ctap_load_next_rk lib rk w = (rk1, w1)" by fastforce
  have l: "ga_still w w1" "length rk1 = sizeof_residentKey"
    using load_next_still [of w lib rk] assms(2-4) by (simp_all add: e)
  have k: "keys_ok w1" by (rule ga_frame_keys [OF ga_still_frame [OF l(1)] assms(2)])
  let ?cid = "rk_id rk1"
  have c57: "length ?cid = 57" using l(2) by (simp add: rk_layout slice_def)
  obtain w2 where t: "ctap_make_auth_tag (cred_version ?cid) lookup (cred_nonce ?cid) (cred_metadata ?cid) (cred_count ?cid) w1
      = Some (credential_tag (key_cred_mac w1) lookup ?cid, w2)" "hash_frame w1 w2"
    by (rule auth_tag_exact [of w1 ?cid lookup]) (use k c57 assms(5) in auto)
  have s2: "ga_still w w2" by (rule ga_still_trans [OF l(1) ga_still_hash [OF t(2)]])
  have k2: "keys_ok w2" by (rule ga_frame_keys [OF ga_still_frame [OF s2] assms(2)])
  have eq: "memcmp CREDENTIAL_TAG_SIZE (cred_tag ?cid) (credential_tag (key_cred_mac w1) lookup ?cid) = 0
      \<longleftrightarrow> cred_tag ?cid = credential_tag (key_cred_mac w1) lookup ?cid"
    using c57 by (subst memcmp_eq_0) (simp_all add: credential_tag_def credential_layout slice_def)
  let ?bad = "memcmp CREDENTIAL_TAG_SIZE lookup (cred_rp_id_lookup ?cid) \<noteq> 0"
  let ?ok = "cred_tag ?cid = credential_tag (key_cred_mac w1) lookup ?cid"
  let ?allowed = "fst (ctap_check_credential_metadata ?cid (is_verified w2) False w2) = CTAP2_OK"
  have r: "(if ?bad then rk_filter lib lookup n cnt rk1 w1
     else if \<not> ?ok \<or> \<not> ?allowed then rk_filter lib lookup n cnt rk1 w2
     else if cnt \<ge> ALLOW_LIST_MAX_SIZE then Some (cnt, w2)
     else do { (ok, w) \<leftarrow> ctap_verify_mac (rk_rk_tag rk1) (take RK_HMAC_SIZE rk1) w2;
               if \<not> ok then rk_filter lib lookup n cnt rk1 w
               else rk_filter lib lookup n (cnt + 1) rk1 (ga_put_cred cnt (ga_of_rk rk1 w) w) }) = Some (c', w')"
    using assms(1) t(1) eq by (auto simp: e split: if_splits)
  consider ?bad | "\<not> ?bad" "\<not> ?ok \<or> \<not> ?allowed" | "\<not> ?bad" ?ok ?allowed "cnt \<ge> ALLOW_LIST_MAX_SIZE"
    | "\<not> ?bad" ?ok ?allowed "cnt < ALLOW_LIST_MAX_SIZE" by linarith
  then show thesis
  proof cases
    case 1
    then show ?thesis using skip [OF l] r by simp
  next
    case 2
    then show ?thesis using skip [OF s2 l(2)] r by auto
  next
    case 3
    then show ?thesis using full s2 r by simp
  next
    case 4
    then obtain ok w3 where v: "ctap_verify_mac (rk_rk_tag rk1) (take RK_HMAC_SIZE rk1) w2 = Some (ok, w3)"
      "(if \<not> ok then rk_filter lib lookup n cnt rk1 w3
        else rk_filter lib lookup n (cnt + 1) rk1 (ga_put_cred cnt (ga_of_rk rk1 w3) w3)) = Some (c', w')"
      using r by (auto simp: Option.bind_eq_Some_conv)
    have s3: "ga_still w w3" by (rule ga_still_trans [OF s2 verify_mac_still [OF _ _ v(1)]]) (use k2 in auto)
    have "genuine w2 rph lookup (is_verified w2) False (ga_of_rk rk1 w3)"
      using 4 ga_frameD [OF ga_still_frame [OF s2]] ga_frameD [OF ga_still_frame [OF l(1)]]
      by (simp add: genuine_def ga_of_rk_def)
    then have g: "genuine w rph lookup (is_verified w) False (ga_of_rk rk1 w3)"
      using genuine_frame [OF ga_still_frame [OF s2]] ga_frameD(4) [OF ga_still_frame [OF s2]] by simp
    show ?thesis
    proof (cases ok)
      case True
      then show ?thesis using take [OF s3 l(2) 4(4) _ g] v(2) c57 by (simp add: id_sized_def ga_of_rk_def)
    next
      case False
      then show ?thesis using skip [OF s3 l(2)] v(2) by simp
    qed
  qed
qed

lemma rk_filter_genuine:
  assumes "rk_filter lib lookup n cnt rk w = Some (c', w')" "keys_ok w" "reads_bounded lib"
    "length rk = sizeof_residentKey" "length lookup = 16" "creds_sized w" "cnt \<le> ALLOW_LIST_MAX_SIZE"
    "\<And>j. j < cnt \<Longrightarrow> genuine w rph lookup (is_verified w) False (ga_cred j w)"
  shows "ga_frame w w' \<and> creds_sized w' \<and> c' \<le> ALLOW_LIST_MAX_SIZE
    \<and> (\<forall>j < c'. genuine w rph lookup (is_verified w) False (ga_cred j w'))"
  using assms
proof (induction n arbitrary: cnt rk w)
  case 0
  then show ?case using ga_still_refl [of w] by (auto simp: ga_still_def)
next
  case (Suc n)
  note base = Suc.prems(2-8)
  from Suc.prems(1) base(1-4) show ?case
  proof (cases rule: rk_filter_step [where rph = rph])
    case (skip rk1 w2)
    note f = ga_frameD [OF ga_still_frame [OF skip(1)]] genuine_frame [OF ga_still_frame [OF skip(1)]]
    have "ga_frame w2 w' \<and> creds_sized w' \<and> c' \<le> ALLOW_LIST_MAX_SIZE
      \<and> (\<forall>j < c'. genuine w2 rph lookup (is_verified w2) False (ga_cred j w'))"
      by (rule Suc.IH [OF skip(3)])
        (use base skip f ga_still_sized [OF skip(1)] ga_still_cred [OF skip(1)] in auto)
    then show ?thesis using f ga_frame_trans [OF ga_still_frame [OF skip(1)]] by auto
  next
    case full
    then show ?thesis
      using base ga_still_frame [OF full(1)] ga_still_sized [OF full(1)] ga_still_cred [OF full(1)] by auto
  next
    case (take rk1 w2 c)
    let ?w3 = "ga_put_cred cnt c w2"
    have fr: "ga_frame w ?w3"
      by (rule ga_frame_trans [OF ga_still_frame [OF take(1)] put_cred_frame])
        (use ga_frameD(3) [OF ga_still_frame [OF take(1)]] in simp)
    note f = ga_frameD [OF fr] genuine_frame [OF fr]
    have sz: "creds_sized w2" using ga_still_sized [OF take(1)] base(5) by simp
    have "ga_frame ?w3 w' \<and> creds_sized w' \<and> c' \<le> ALLOW_LIST_MAX_SIZE
      \<and> (\<forall>j < c'. genuine ?w3 rph lookup (is_verified ?w3) False (ga_cred j w'))"
      by (rule Suc.IH [OF take(6)])
        (use base take f put_cred_sized [OF sz take(4)] put_cred_nth [OF sz take(3)] ga_still_cred [OF take(1)]
         in \<open>auto simp: less_Suc_eq\<close>)
    then show ?thesis using f ga_frame_trans [OF fr] by auto
  qed
qed

section \<open>The allow list\<close>

lemma belongs_still:
  assumes "ctap_credential_belongs_to_rp lookup rph desc w = Some (mine, w')" "keys_ok w" "length (cred_id desc) = 57"
    "length lookup = 16" "length rph = 32"
  shows "ga_still w w'" "mine \<longleftrightarrow> (if cred_type desc = PUB_KEY_CRED_PUB_KEY
      then cred_tag (cred_id desc) = credential_tag (key_cred_mac w) lookup (cred_id desc)
      else cred_type desc = PUB_KEY_CRED_CTAP1 \<and> take 16 (cred_id desc) = handle_tag (key_cred_mac w) rph (cred_id desc))"
proof -
  have n: "PUB_KEY_CRED_PUB_KEY \<noteq> PUB_KEY_CRED_CTAP1"
    by (simp add: PUB_KEY_CRED_PUB_KEY_def PUB_KEY_CRED_CTAP1_def)
  have k: "crypto_ok w" "length (key_cred_mac w) = 32" "48 \<le> length (cred_id desc)" using assms(2,3) by auto
  have "ga_still w w' \<and> (mine \<longleftrightarrow> (if cred_type desc = PUB_KEY_CRED_PUB_KEY
      then cred_tag (cred_id desc) = credential_tag (key_cred_mac w) lookup (cred_id desc)
      else cred_type desc = PUB_KEY_CRED_CTAP1 \<and> take 16 (cred_id desc) = handle_tag (key_cred_mac w) rph (cred_id desc)))"
  proof (cases "cred_type desc = PUB_KEY_CRED_PUB_KEY")
    case True
    obtain w1 where "ctap_credential_belongs_to_rp lookup rph desc w
      = Some (cred_tag (cred_id desc) = credential_tag (key_cred_mac w) lookup (cred_id desc), w1)" "hash_frame w w1"
      by (rule belongs_pub_key [OF k(1,2) assms(3,4) True])
    then show ?thesis using assms(1) True ga_still_hash by auto
  next
    case other: False
    show ?thesis
    proof (cases "cred_type desc = PUB_KEY_CRED_CTAP1")
      case True
      obtain w1 where "ctap_credential_belongs_to_rp lookup rph desc w
        = Some (take 16 (cred_id desc) = handle_tag (key_cred_mac w) rph (cred_id desc), w1)" "hash_frame w w1"
        by (rule belongs_u2f [OF k assms(5) True])
      then show ?thesis using assms(1) True n ga_still_hash by auto
    next
      case False
      then show ?thesis using assms(1) other ga_still_refl [OF k(1)] by (simp add: ctap_credential_belongs_to_rp_def)
    qed
  qed
  then show "ga_still w w'" "mine \<longleftrightarrow> (if cred_type desc = PUB_KEY_CRED_PUB_KEY
      then cred_tag (cred_id desc) = credential_tag (key_cred_mac w) lookup (cred_id desc)
      else cred_type desc = PUB_KEY_CRED_CTAP1 \<and> take 16 (cred_id desc) = handle_tag (key_cred_mac w) rph (cred_id desc))"
    by blast+
qed

lemma invalidate_props: "id_sized c \<Longrightarrow> id_sized (invalidate c)" "id_sized c \<Longrightarrow> sd_count (invalidate c) = 0"
  by (simp_all add: id_sized_def invalidate_def sd_count_def cred_count_def blit_simps of_le_le32)

lemma allow_list_step:
  assumes "allow_list_filter lib rph lookup i credLen cnt w = Some (c', n', w')" "i < credLen" "keys_ok w" "reads_bounded lib"
    "id_sized (ga_cred i w)" "length lookup = 16" "length rph = 32"
  obtains (skip) w2 where "ga_still w w2"
      "allow_list_filter lib rph lookup (i + 1) credLen cnt (ga_put_cred i (invalidate (ga_cred i w)) w2) = Some (c', n', w')"
  | (take) "ga_still w w'" "c' = cnt + 1" "n' = i + 1" "genuine w rph lookup (is_verified w) True (ga_cred i w)"
proof -
  let ?c = "ga_cred i w" and ?d = "sd_desc (ga_cred i w)"
  note r = assms(1) [unfolded allow_list_filter.simps [of lib rph lookup i credLen cnt w] Let_def]
  obtain mine w1 where m: "ctap_credential_belongs_to_rp lookup rph ?d w = Some (mine, w1)"
    using r assms(2) by (auto simp: Option.bind_eq_Some_conv split: if_splits)
  have b: "ga_still w w1" "mine \<Longrightarrow> (if cred_type ?d = PUB_KEY_CRED_PUB_KEY
      then cred_tag (cred_id ?d) = credential_tag (key_cred_mac w) lookup (cred_id ?d)
      else cred_type ?d = PUB_KEY_CRED_CTAP1 \<and> take 16 (cred_id ?d) = handle_tag (key_cred_mac w) rph (cred_id ?d))"
    using belongs_still [OF m assms(3) _ assms(6,7)] assms(5) by (auto simp: id_sized_def)
  have k1: "keys_ok w1" by (rule ga_frame_keys [OF ga_still_frame [OF b(1)] assms(3)])
  obtain status is_rk where c: "ctap_check_credential_metadata (cred_id ?d) (is_verified w1) True w1 = (status, is_rk)" by fastforce
  show thesis
  proof (cases "mine \<and> status = CTAP2_OK")
    case False
    then show ?thesis using skip [OF b(1)] r assms(2) m c by (auto split: if_splits)
  next
    case True
    obtain present w2 where p: "(if is_rk \<noteq> 0 then ctap_verify_rk_exists lib (cred_id ?d) w1 else Some (True, w1)) = Some (present, w2)"
      using r assms(2) m c True by (auto simp: Option.bind_eq_Some_conv split: if_splits)
    have s2: "ga_still w w2"
    proof (rule ga_still_trans [OF b(1)])
      show "ga_still w1 w2" using p verify_rk_exists_still [of lib _ w1 present w2] k1 assms(4) ga_still_refl
        by (auto split: if_splits)
    qed
    have fst: "fst (ctap_check_credential_metadata (cred_id ?d) (is_verified w) True w) = CTAP2_OK"
      using c True ga_frameD [OF ga_still_frame [OF b(1)]]
      by (simp add: ctap_check_credential_metadata_def ctap_xcrypt_buf_def Let_def)
    then have g: "genuine w rph lookup (is_verified w) True ?c" using b(2) True by (simp add: genuine_def)
    show ?thesis
    proof (cases present)
      case False
      then show ?thesis using skip [OF s2] r assms(2) m c True p by (auto split: if_splits)
    next
      case here: True
      have "allow_list_filter lib rph lookup (i + 1) (i + 1) (cnt + 1) w2 = Some (c', n', w')"
        using r assms(2) m c True p here by (auto split: if_splits)
      then show ?thesis using take s2 g by (simp add: allow_list_filter.simps)
    qed
  qed
qed

lemma allow_list_genuine:
  assumes "allow_list_filter lib rph lookup i credLen 0 w = Some (c', n', w')" "keys_ok w" "reads_bounded lib"
    "creds_sized w" "credLen \<le> ALLOW_LIST_MAX_SIZE" "length lookup = 16" "length rph = 32"
    "\<And>j. j < i \<Longrightarrow> sd_count (ga_cred j w) = 0"
  shows "ga_frame w w' \<and> creds_sized w' \<and> (c' = 0 \<and> n' = credLen
    \<or> c' = 1 \<and> 0 < n' \<and> n' \<le> credLen \<and> genuine w rph lookup (is_verified w) True (ga_cred (n' - 1) w')
        \<and> (\<forall>j < n' - 1. sd_count (ga_cred j w') = 0))"
  using assms
proof (induction "credLen - i" arbitrary: i w)
  case 0
  then show ?case using ga_still_refl [of w] by (auto simp: allow_list_filter.simps [of lib rph lookup i] ga_still_def)
next
  case (Suc d)
  note base = Suc.prems(2-8)
  have i: "i < credLen" using Suc.hyps(2) by simp
  then have i20: "i < ALLOW_LIST_MAX_SIZE" using base(4) by simp
  have ids: "id_sized (ga_cred i w)" using base(3) i20 by (auto simp: creds_sized_def)
  from Suc.prems(1) i base(1,2) ids base(5,6) show ?case
  proof (cases rule: allow_list_step)
    case (skip w2)
    let ?w3 = "ga_put_cred i (invalidate (ga_cred i w)) w2"
    have fr: "ga_frame w ?w3"
      by (rule ga_frame_trans [OF ga_still_frame [OF skip(1)] put_cred_frame])
        (use ga_frameD(3) [OF ga_still_frame [OF skip(1)]] in simp)
    have sz: "creds_sized w2" using ga_still_sized [OF skip(1)] base(3) by simp
    note f = ga_frameD [OF fr] genuine_frame [OF fr] put_cred_nth [OF sz i20] ga_still_cred [OF skip(1)]
    have "ga_frame ?w3 w' \<and> creds_sized w' \<and> (c' = 0 \<and> n' = credLen
      \<or> c' = 1 \<and> 0 < n' \<and> n' \<le> credLen \<and> genuine ?w3 rph lookup (is_verified ?w3) True (ga_cred (n' - 1) w')
        \<and> (\<forall>j < n' - 1. sd_count (ga_cred j w') = 0))"
      by (rule Suc.hyps(1) [OF _ skip(2)])
        (use Suc.hyps(2) base f put_cred_sized [OF sz] invalidate_props [OF ids] in \<open>auto simp: less_Suc_eq\<close>)
    then show ?thesis using f ga_frame_trans [OF fr] by auto
  next
    case take
    then show ?thesis
      using base i ga_still_frame [OF take(1)] ga_still_sized [OF take(1)] ga_still_cred [OF take(1)] by auto
  qed
qed

section \<open>The list of credentials\<close>

lemma cred_cmp_le: "cred_cmp_func x y \<le> 0 \<longleftrightarrow> sd_count y \<le> sd_count x"
  by (auto simp: cred_cmp_func_def)

interpretation by_count: comparison cred_cmp_func
  by unfold_locales (auto simp: cred_cmp_func_def split: if_splits)

lemma qsort_facts:
  shows "length (qsort cred_cmp_func xs) = length xs" "set (qsort cred_cmp_func xs) = set xs"
    "i < j \<Longrightarrow> j < length xs \<Longrightarrow> sd_count (qsort cred_cmp_func xs ! j) \<le> sd_count (qsort cred_cmp_func xs ! i)"
proof -
  have m: "mset (qsort cred_cmp_func xs) = mset xs" using by_count.qsort_ok [of xs] by simp
  show l: "length (qsort cred_cmp_func xs) = length xs" using arg_cong [OF m, of size] by simp
  show "set (qsort cred_cmp_func xs) = set xs" using arg_cong [OF m, of set_mset] by simp
  have "sorted_wrt (\<lambda>x y. cred_cmp_func x y \<le> 0) (qsort cred_cmp_func xs)" using by_count.qsort_ok [of xs] by simp
  then show "sd_count (qsort cred_cmp_func xs ! j) \<le> sd_count (qsort cred_cmp_func xs ! i)" if "i < j" "j < length xs"
    using that l by (auto simp: sorted_wrt_iff_nth_less cred_cmp_le)
qed

text \<open>The chosen credential: genuine, or there is a genuine one whose counter is zero, which no credential of
  this authenticator has.\<close>

definition chosen :: "('fs, 'f, 'a) ctap_scheme \<Rightarrow> bytes \<Rightarrow> bytes \<Rightarrow> bool \<Rightarrow> bool" where
  "chosen w rph lookup listed \<longleftrightarrow> genuine w rph lookup (is_verified w) listed (ga_cred 0 w)
     \<or> (\<exists>c \<in> set (ga_creds (getAssertionState w)). genuine w rph lookup (is_verified w) listed c \<and> sd_count c = 0)"

definition sort_creds :: "nat \<Rightarrow> ('fs, 'f, 'a) ctap_scheme \<Rightarrow> ('fs, 'f, 'a) ctap_scheme" where
  "sort_creds n w = ga_set (\<lambda>g. g\<lparr>ga_creds := blit (ga_creds g) 0 (qsort cred_cmp_func (take n (ga_creds g)))\<rparr>) w"

lemma sort_creds_facts:
  assumes "creds_sized w" "n \<le> ALLOW_LIST_MAX_SIZE" "crypto_ok w"
  shows "ga_frame w (sort_creds n w)" "creds_sized (sort_creds n w)"
    "set (ga_creds (getAssertionState (sort_creds n w))) = set (ga_creds (getAssertionState w))"
    "j < n \<Longrightarrow> ga_cred j (sort_creds n w) = qsort cred_cmp_func (take n (ga_creds (getAssertionState w))) ! j"
proof -
  let ?cs = "ga_creds (getAssertionState w)"
  let ?q = "qsort cred_cmp_func (take n ?cs)"
  have l: "length ?q = n" using qsort_facts(1) [of "take n ?cs"] assms(1,2) by (simp add: creds_sized_def)
  have c: "ga_creds (getAssertionState (sort_creds n w)) = ?q @ drop n ?cs"
    by (simp add: sort_creds_def ga_set_def blit_def l)
  show "ga_frame w (sort_creds n w)" using assms(3) by (auto simp: sort_creds_def ga_frame_def ga_set_def crypto_ok_def)
  have "set ?q = set (take n ?cs)" by (rule qsort_facts(2))
  then show st: "set (ga_creds (getAssertionState (sort_creds n w))) = set ?cs"
    unfolding c by (metis append_take_drop_id set_append)
  show "creds_sized (sort_creds n w)"
    using assms(1,2) st l unfolding creds_sized_def by (simp add: c)
  show "j < n \<Longrightarrow> ga_cred j (sort_creds n w) = ?q ! j" using l by (simp add: c nth_append)
qed

lemma sorted_resident:
  assumes "creds_sized w" "n \<le> ALLOW_LIST_MAX_SIZE" "crypto_ok w" "0 < n" "\<And>j. j < n \<Longrightarrow> P (ga_cred j w)"
  shows "P (ga_cred 0 (sort_creds n w))"
proof -
  let ?t = "take n (ga_creds (getAssertionState w))"
  have l: "length ?t = n" using assms(1,2) by (simp add: creds_sized_def)
  have "qsort cred_cmp_func ?t ! 0 \<in> set ?t"
    using qsort_facts(1,2) [of ?t] l assms(4) by (metis nth_mem)
  then obtain i where "i < n" "qsort cred_cmp_func ?t ! 0 = ga_cred i w" using l by (auto simp: in_set_conv_nth)
  then show ?thesis using sort_creds_facts(4) [OF assms(1-4)] assms(5) [of i] by simp
qed

lemma sorted_listed:
  assumes "creds_sized w" "n \<le> ALLOW_LIST_MAX_SIZE" "crypto_ok w" "0 < n"
    "\<And>j. j < n - 1 \<Longrightarrow> sd_count (ga_cred j w) = 0" "sd_count (ga_cred (n - 1) w) \<noteq> 0"
  shows "ga_cred 0 (sort_creds n w) = ga_cred (n - 1) w"
proof -
  let ?t = "take n (ga_creds (getAssertionState w))"
  let ?q = "qsort cred_cmp_func ?t"
  have l: "length ?t = n" using assms(1,2) by (simp add: creds_sized_def)
  have q: "length ?q = n" "set ?q = set ?t" using qsort_facts(1,2) [of ?t] l by simp_all
  have "ga_cred (n - 1) w \<in> set ?q" using q(2) l assms(4) by (metis diff_less nth_mem nth_take zero_less_one)
  then obtain j where j: "j < n" "?q ! j = ga_cred (n - 1) w" using q(1) by (metis in_set_conv_nth)
  have top: "sd_count (ga_cred (n - 1) w) \<le> sd_count (?q ! 0)"
    using qsort_facts(3) [where i = 0 and j = j and xs = ?t] j l by (cases "j = 0") auto
  have "?q ! 0 \<in> set ?t" using q assms(4) by (metis nth_mem)
  then obtain k where "k < length ?t" "?t ! k = ?q ! 0" unfolding in_set_conv_nth by blast
  then have k: "k < n" "?q ! 0 = ga_cred k w" using l by simp_all
  have "k = n - 1"
  proof (rule ccontr)
    assume "k \<noteq> n - 1"
    then have "sd_count (?q ! 0) = 0" using assms(5) k by simp
    then show False using top assms(6) by (simp add: word_le_0_iff)
  qed
  then show ?thesis using k sort_creds_facts(4) [OF assms(1-4)] by simp
qed

lemma filtered_list_chosen:
  assumes "build_filtered_credential_list b credLen rph lookup w = Some (cnt, w')" "keys_ok w" "reads_bounded (b_lfs b)"
    "creds_sized w" "credLen \<le> ALLOW_LIST_MAX_SIZE" "length lookup = 16" "length rph = 32" "0 < cnt"
  shows "ga_frame w w' \<and> chosen w' rph lookup (credLen \<noteq> 0)"
proof -
  obtain c1 n1 w1 where a: "allow_list_filter (b_lfs b) rph lookup 0 credLen 0 w = Some (c1, n1, w1)"
    using assms(1) by (auto simp: build_filtered_credential_list_def Option.bind_eq_Some_conv)
  have g: "ga_frame w w1" "creds_sized w1" "c1 = 0 \<and> n1 = credLen
    \<or> c1 = 1 \<and> 0 < n1 \<and> n1 \<le> credLen \<and> genuine w rph lookup (is_verified w) True (ga_cred (n1 - 1) w1)
        \<and> (\<forall>j < n1 - 1. sd_count (ga_cred j w1) = 0)"
    using allow_list_genuine [OF a assms(2-7)] by auto
  have k1: "keys_ok w1" by (rule ga_frame_keys [OF g(1) assms(2)])
  show ?thesis
  proof (cases "n1 = 0")
    case False
    then have e: "cnt = c1" "w' = sort_creds n1 w1"
      using assms(1) a by (simp_all add: build_filtered_credential_list_def sort_creds_def)
    then have one: "0 < n1" "n1 \<le> credLen" "genuine w rph lookup (is_verified w) True (ga_cred (n1 - 1) w1)"
      "\<And>j. j < n1 - 1 \<Longrightarrow> sd_count (ga_cred j w1) = 0" using g(3) assms(8) by auto
    have n: "n1 \<le> ALLOW_LIST_MAX_SIZE" using one(2) assms(5) by simp
    note s = sort_creds_facts [OF g(2) n, folded e(2)]
    have fr: "ga_frame w w'" using ga_frame_trans [OF g(1) s(1)] k1 by simp
    have mem: "ga_cred (n1 - 1) w1 \<in> set (ga_creds (getAssertionState w'))"
      using s(3) k1 one(1) n g(2) by (auto simp: creds_sized_def)
    have "sd_count (ga_cred (n1 - 1) w1) \<noteq> 0 \<Longrightarrow> ga_cred 0 w' = ga_cred (n1 - 1) w1"
      unfolding e(2) by (rule sorted_listed [OF g(2) n _ one(1,4)]) (use k1 in auto)
    then show ?thesis
      using fr mem one ga_frameD(4) [OF fr] by (auto simp: chosen_def genuine_frame [OF fr])
  next
    case True
    then have z: "c1 = 0" "credLen = 0" using g(3) by auto
    obtain nr w2 where o: "ctap_open_rk_file (b_lfs b) lookup w1 = (nr, w2)" by fastforce
    have s2: "ga_still w1 w2" using open_still [of w1 "b_lfs b" lookup] k1 by (simp add: o)
    obtain w3 where r: "rk_filter (b_lfs b) lookup (nat nr) 0 (uninit sizeof_residentKey w2) w2 = Some (cnt, w3)"
      and e: "w' = sort_creds cnt (snd (ctap_close_rk_file (b_lfs b) w3))"
      using assms(1) a True z o by (auto simp: build_filtered_credential_list_def Option.bind_eq_Some_conv sort_creds_def)
    have k2: "keys_ok w2" by (rule ga_frame_keys [OF ga_still_frame [OF s2] k1])
    have f: "ga_frame w2 w3 \<and> creds_sized w3 \<and> cnt \<le> ALLOW_LIST_MAX_SIZE
      \<and> (\<forall>j < cnt. genuine w2 rph lookup (is_verified w2) False (ga_cred j w3))"
      by (rule rk_filter_genuine [OF r k2 assms(3) _ assms(6)]) (use ga_still_sized [OF s2] g(2) in auto)
    let ?w4 = "snd (ctap_close_rk_file (b_lfs b) w3)"
    have s4: "ga_still w3 ?w4" by (rule close_still) (use f ga_frameD(3) in blast)
    have sz4: "creds_sized ?w4" "crypto_ok ?w4" "cnt \<le> ALLOW_LIST_MAX_SIZE"
      using f ga_still_sized [OF s4] ga_frameD(3) [OF ga_still_frame [OF s4]] by auto
    note s = sort_creds_facts [OF sz4(1,3,2), folded e]
    have fr2: "ga_frame w2 w'"
      using f ga_frame_trans [OF ga_frame_trans [OF _ ga_still_frame [OF s4]] s(1)] by blast
    have "genuine w2 rph lookup (is_verified w2) False (ga_cred 0 w')"
      unfolding e by (rule sorted_resident [OF sz4(1,3,2) assms(8)]) (use f ga_still_cred [OF s4] in auto)
    then have "chosen w' rph lookup False"
      using ga_frameD(4) [OF fr2] by (simp add: chosen_def genuine_frame [OF fr2])
    then show ?thesis
      using z ga_frame_trans [OF ga_frame_trans [OF g(1) ga_still_frame [OF s2]] fr2] by simp
  qed
qed

end
