(* ===== verification/Assertion_Properties.thy ===== *)
theory Assertion_Properties
  imports Assertion_Laws Credential_Management
begin

text \<open>
  \<open>getAssertion\<close> as a whole: the parser fills the array of credentials within its bounds, and a successful
  command was authorized and answered with a genuine credential.
\<close>

section \<open>The request\<close>

lemma chunk_loop_keeps:
  "chunk_loop iterate_memcpy buflen it buf tot res = Some (err, b, n, ok, it') \<Longrightarrow> buflen \<le> length buf \<Longrightarrow> length b = length buf"
proof (induction iterate_memcpy buflen it buf tot res arbitrary: b n rule: chunk_loop.induct)
  case (1 buflen it buf tot res)
  note r = 1(2) [unfolded chunk_loop.simps [of _ buflen it buf tot res]]
  obtain e c it1 where g: "get_string_chunk it = Some (e, c, it1)" using r by (auto simp: Option.bind_eq_Some_conv)
  show ?case
  proof (cases "e = CborNoError")
    case True
    show ?thesis
    proof (cases c)
      case None
      then show ?thesis using r g True 1(3) by (auto simp: iterate_memcpy_def blit_simps split: if_splits)
    next
      case (Some d)
      show ?thesis
      proof (cases "tot + length d \<ge> 2 ^ 32")
        case False
        let ?rb = "if res \<and> buflen \<ge> tot + length d then iterate_memcpy buf tot d else (False, buf)"
        have loop: "chunk_loop iterate_memcpy buflen it1 (snd ?rb) (tot + length d) (fst ?rb) = Some (err, b, n, ok, it')"
          using r g True Some False by (simp add: case_prod_unfold Let_def)
        have l: "length (snd ?rb) = length buf" using 1(3) by (simp add: iterate_memcpy_def blit_simps)
        have "length b = length (snd ?rb)"
          by (rule 1(1) [OF g refl refl _ Some False refl surjective_pairing [symmetric] loop]) (use True l 1(3) in auto)
        then show ?thesis using l by simp
      qed (use r g True Some in simp)
    qed
  qed (use r g in simp)
qed

lemma copy_bytes_keeps:
  assumes "cbor_value_copy_byte_string it b n = Some (err, b', len)" "n \<le> length b"
  shows "length b' = length b"
  using assms chunk_loop_keeps [of n it b 0 True]
  by (auto simp: cbor_value_copy_byte_string_def copy_string_def iterate_string_chunks_def cbor_assert_def
      Option.bind_eq_Some_conv split: if_splits)

lemma descriptor_type_keeps:
  "descriptor_type keytype arr cred = Some (Inr cred') \<Longrightarrow> cred_id cred' = cred_id cred"
  by (auto simp: descriptor_type_def cbor_check_def Option.bind_eq_Some_conv Let_def split: if_splits)

lemma descriptor_keeps:
  assumes "ctap_parse_pubkey_credential_descriptor keytype arr cred = Some (Inr cred')" "length (cred_id cred) = 57"
  shows "length (cred_id cred') = 57"
  using assms
  by (auto simp: ctap_parse_pubkey_credential_descriptor_def cbor_check_def Option.bind_eq_Some_conv Let_def
      sizeof_CredentialId_def split: if_splits dest!: descriptor_type_keeps copy_bytes_keeps)

lemma descriptor_left_keeps:
  assumes "descriptor_left arr cred = Some cred'" "length (cred_id cred) = 57"
  shows "length (cred_id cred') = 57"
  using assms
  by (auto simp: descriptor_left_def Option.bind_eq_Some_conv Let_def sizeof_CredentialId_def split: if_splits
      dest!: copy_bytes_keeps)

definition ga_request_ok :: "CTAP_getAssertion \<Rightarrow> bool" where
  "ga_request_ok GA \<longleftrightarrow> length (gr_creds GA) = ALLOW_LIST_MAX_SIZE \<and> (\<forall>c \<in> set (gr_creds GA). id_sized c)
     \<and> gr_credLen GA \<le> ALLOW_LIST_MAX_SIZE"

lemma ga_request_put:
  assumes "ga_request_ok GA" "length (cred_id d) = 57" "n \<le> ALLOW_LIST_MAX_SIZE"
  shows "ga_request_ok (GA\<lparr>gr_credLen := n, gr_creds := (gr_creds GA)[i := descriptor_zero\<lparr>sd_desc := d\<rparr>]\<rparr>)"
  using assms set_update_subset_insert [of "gr_creds GA" i "descriptor_zero\<lparr>sd_desc := d\<rparr>"]
  by (auto simp: ga_request_ok_def id_sized_def)

lemma zero_sized: "length (cred_id (sd_desc descriptor_zero)) = 57"
  by (simp add: descriptor_zero_def sizeof_CredentialId_def ALLOW_LIST_MAX_SIZE_def)

lemma allow_list_loop_ok:
  assumes "allow_list_loop keytype i n arr GA = Some (r, GA')" "ga_request_ok GA" "gr_credLen GA = i"
  shows "ga_request_ok GA'"
  using assms
proof (induction n arbitrary: i arr GA)
  case (Suc n)
  show ?case
  proof (cases "i \<ge> ALLOW_LIST_MAX_SIZE")
    case False
    let ?g = "\<lambda>d. GA\<lparr>gr_credLen := i + 1, gr_creds := (gr_creds GA)[i := descriptor_zero\<lparr>sd_desc := d\<rparr>]\<rparr>"
    have ok: "length (cred_id d) = 57 \<Longrightarrow> ga_request_ok (?g d)" for d
      using ga_request_put [OF Suc.prems(2), of d "i + 1" i] False by simp
    obtain x where x: "ctap_parse_pubkey_credential_descriptor keytype arr (sd_desc descriptor_zero) = Some x"
      using Suc.prems(1) False by (auto simp: Option.bind_eq_Some_conv)
    show ?thesis
    proof (cases x)
      case (Inl e)
      then show ?thesis
        using Suc.prems False x ok descriptor_left_keeps [OF _ zero_sized]
        by (auto simp: Option.bind_eq_Some_conv)
    next
      case (Inr d)
      have d: "length (cred_id d) = 57" using descriptor_keeps [OF _ zero_sized] x Inr by blast
      obtain err arr1 where a: "cbor_value_advance arr = Some (err, arr1)"
        using Suc.prems(1) False x Inr by (auto simp: Option.bind_eq_Some_conv Let_def)
      show ?thesis
      proof (cases "err = CborNoError")
        case True
        have "allow_list_loop keytype (i + 1) n arr1 (?g d) = Some (r, GA')"
          using Suc.prems(1,3) False x Inr a True by simp
        then show ?thesis by (rule Suc.IH [OF _ ok [OF d]]) simp
      next
        case err: False
        then show ?thesis using Suc.prems(1,3) False x Inr a ok [OF d] by auto
      qed
    qed
  qed (use Suc.prems in auto)
qed auto

lemma ga_step_cases:
  assumes "ga_step r f GA = Some (s, GA')"
  shows "GA' = GA \<or> (\<exists>a. GA' = f a)"
proof -
  obtain x where "r = Some x" "(case x of Inl e \<Rightarrow> (Some e, GA) | Inr a \<Rightarrow> (Some CTAP2_OK, f a)) = (s, GA')"
    using assms by (auto simp: ga_step_def Option.bind_eq_Some_conv)
  then show ?thesis by (cases x) auto
qed

lemma get_assertion_body_ok:
  assumes "get_assertion_body pl key it GA = Some (r, GA')" "ga_request_ok GA"
  shows "ga_request_ok GA'"
proof (cases "key = GA_Cmd_allowList")
  case True
  have z: "ga_request_ok (GA\<lparr>gr_credLen := 0\<rparr>)" using assms(2) by (simp add: ga_request_ok_def)
  show ?thesis
    using assms True allow_list_loop_ok [OF _ z]
    by (auto simp: get_assertion_body_def parse_allow_list_credentials_def GA_Cmd_allowList_def GA_Cmd_clientDataHash_def
        GA_Cmd_rpId_def Option.bind_eq_Some_conv split: if_splits)
next
  case False
  have "gr_creds GA' = gr_creds GA \<and> gr_credLen GA' = gr_credLen GA"
  proof (cases "parse_int it")
    case None
    then show ?thesis using assms(1) False unfolding get_assertion_body_def
      by (auto split: if_split_asm dest!: ga_step_cases)
  next
    case (Some x)
    then show ?thesis using assms(1) False unfolding get_assertion_body_def
      by (cases x) (auto split: if_split_asm dest!: ga_step_cases)
  qed
  then show ?thesis using assms(2) by (simp add: ga_request_ok_def)
qed

lemma get_assertion_loop_ok:
  assumes "get_assertion_loop pl ret n it GA = Some (r, GA')" "ga_request_ok GA"
  shows "ga_request_ok GA'"
  using assms
proof (induction n arbitrary: ret it GA)
  case (Suc n)
  then show ?case
    by (auto simp: Option.bind_eq_Some_conv Let_def split: if_splits dest: get_assertion_body_ok)
qed auto

lemma parse_get_assertion_ok:
  assumes "parse_get_assertion_request pl ret req creds = Some (r, GA)" "length creds = ALLOW_LIST_MAX_SIZE" "\<forall>c \<in> set creds. id_sized c"
  shows "ga_request_ok GA"
proof -
  have "ga_request_ok (getAssertion_start creds)" using assms(2,3) by (simp add: ga_request_ok_def getAssertion_start_def)
  then show ?thesis using assms(1)
    by (auto simp: parse_get_assertion_request_def Option.bind_eq_Some_conv Let_def split: if_splits dest: get_assertion_loop_ok)
qed

section \<open>Authorization\<close>

lemma ga_still_cpin:
  assumes "crypto_ok w" "getAssertionState w' = getAssertionState w" "sha256_ctx w' = sha256_ctx w"
    "key_cred_mac w' = key_cred_mac w" "key_meta_enc w' = key_meta_enc w"
  shows "ga_still w w'"
  using assms by (auto simp: ga_still_def ga_frame_def crypto_ok_def intro: exI [of _ "ga_creds (getAssertionState w)"])

lemma on_state_still: "crypto_ok w \<Longrightarrow> ga_still w (on_state p f w)"
  by (rule ga_still_cpin) (auto simp: on_state_def on_protocol_def)

lemma observer_still:
  assumes "pinUvAuthToken_usage_time_observer p w = Some w'" "crypto_ok w"
  shows "ga_still w w'"
proof (cases "in_use (proto_state p w)")
  case False
  then show ?thesis using assms ga_still_refl by (simp add: pinUvAuthToken_usage_time_observer_def)
next
  case True
  then obtain now w1 where m: "millis w = Some (now, w1)"
    using assms(1) by (auto simp: pinUvAuthToken_usage_time_observer_def Option.bind_eq_Some_conv)
  then have w1: "w1 = w\<lparr>timer_reads := timer_reads w + 1\<rparr>" by (auto simp: millis_def Let_def split: if_splits)
  have "w' = (let w2 = (if now - usage_timer_start_ms (proto_state p w1) > TOKEN_MAX_USAGE_PERIOD_MS then stop_using_pinUvAuthToken p w1 else w1);
        w3 = (if now - usage_timer_start_ms (proto_state p w2) > TOKEN_MAX_USER_PRESENT_MS then ctap_client_pin_clear_user_present p w2 else w2)
      in if now - usage_timer_last_used_ms (proto_state p w3) > TOKEN_MAX_USER_PRESENT_MS then stop_using_pinUvAuthToken p w3
         else on_state p (\<lambda>s. s\<lparr>usage_timer_last_used_ms := now\<rparr>) w3)"
    using assms(1) True m by (simp add: pinUvAuthToken_usage_time_observer_def Let_def)
  then show ?thesis
    by (intro ga_still_cpin [OF assms(2)])
      (auto simp: Let_def stop_using_pinUvAuthToken_def ctap_client_pin_clear_user_present_def on_state_def on_protocol_def w1)
qed

lemma verify_auth_still:
  assumes "ctap_client_pin_verify_auth param h p w = Some (r, w')" "crypto_ok w"
  shows "ga_still w w'"
proof -
  obtain w1 where o: "pinUvAuthToken_usage_time_observer p w = Some w1"
    using assms(1) by (auto simp: ctap_client_pin_verify_auth_def ctap_client_pin_verify_auth_ex_def Option.bind_eq_Some_conv)
  have s: "ga_still w w1" by (rule observer_still [OF o assms(2)])
  have ok: "crypto_ok w1" by (rule ga_frameD(3) [OF ga_still_frame [OF s]])
  let ?k = "take 32 (token (get_pin_protocol_state p w1))" and ?m = "take CLIENT_DATA_HASH_SIZE h"
  obtain w2 where h: "crypto_hmac ?k [?m] w1 = Some (HMAC ?k ?m, w2)" "hash_frame w1 w2"
    using hmac_stream [OF ok, of ?k "[?m]"] by (auto simp: min.coboundedI2)
  have "w' = w1 \<or> w' = w2"
    using assms(1) o h(1)
    by (auto simp: ctap_client_pin_verify_auth_def ctap_client_pin_verify_auth_ex_def ctap_client_pin_verify_def split: if_splits)
  then show ?thesis using s ga_still_trans [OF s ga_still_hash [OF h(2)]] by blast
qed

lemma derive_rp_still:
  assumes "keys_ok w"
  obtains w' where "ctap_derive_rp_id_info rp w = Some (SHA256 rp, take 16 (HMAC (key_cred_mac w) (SHA256 rp)), w')" "hash_frame w w'"
proof -
  have ok: "crypto_ok w" using assms by simp
  have f: "hash_fed (crypto_sha256_update rp (crypto_sha256_init w)) rp"
    using hash_fed_update [OF hash_fed_init [OF ok]] by simp
  obtain w1 where w1: "crypto_sha256_final (crypto_sha256_update rp (crypto_sha256_init w)) = (SHA256 rp, w1)"
    "hash_frame (crypto_sha256_update rp (crypto_sha256_init w)) w1" using hash_fed_final [OF f] by blast
  have h: "hash_frame w w1"
    using hash_step_frames(1) [OF ok] hash_step_frames(2) [OF hash_fed_init [OF ok]] w1(2) hash_frame_trans by meson
  obtain w2 where w2: "ctap_compute_mac (SHA256 rp) CREDENTIAL_TAG_SIZE w1
      = Some (take 16 (HMAC (key_cred_mac w1) (SHA256 rp)), w2)" "hash_frame w1 w2"
    by (rule mac_exact [OF hash_frame_ok [OF h], of "SHA256 rp"]) (use hash_frame_fields [OF h] assms in auto)
  show ?thesis
    using that [of w2] w1(1) w2(1) hash_frame_fields [OF h] hash_frame_trans [OF h w2(2)]
    by (simp add: ctap_derive_rp_id_info_def)
qed

text \<open>The PIN token that comes with the request is good for an assertion to this relying party.\<close>

definition ga_token_good :: "CTAP_getAssertion \<Rightarrow> bytes \<Rightarrow> ('fs, 'f, 'a) ctap_scheme \<Rightarrow> bool" where
  "ga_token_good GA rph w \<longleftrightarrow> gr_pinProtocol GA \<noteq> 0
     \<and> (\<exists>u. ctap_client_pin_verify_auth (gr_pinUvAuthParam GA) (gr_clientDataHash GA) (gr_pinProtocol GA) w = Some (CTAP2_OK, u)
          \<and> ctap_client_pin_get_user_verified (gr_pinProtocol GA) u
          \<and> ctap_client_pin_verify_permissions (gr_pinProtocol GA) CP_permissions_ga u
          \<and> ctap_client_pin_verify_permissions_rp_id (gr_pinProtocol GA) rph u)"

lemma ga_authorize_good:
  assumes "ga_authorize GA rph w = Some (CTAP2_OK, w')" "crypto_ok w"
  shows "(is_verified w' \<longrightarrow> ga_token_good GA rph w) \<and> (gr_pinUvAuthParam_len GA > 0 \<longrightarrow> is_verified w')
    \<and> key_cred_mac w' = key_cred_mac w \<and> key_meta_enc w' = key_meta_enc w \<and> crypto_ok w'
    \<and> ga_creds (getAssertionState w') = ga_creds (getAssertionState w)"
proof (cases "gr_pinUvAuthParam_len GA > 0")
  case False
  then have "w' = ga_set (\<lambda>g. g\<lparr>ga_user_verified := 0\<rparr>) w" using assms(1) by (simp add: ga_authorize_def)
  then show ?thesis using False assms(2) by (simp add: ga_set_def crypto_ok_def)
next
  case True
  then obtain u where v: "gr_pinProtocol GA \<noteq> 0"
    "ctap_client_pin_verify_auth (gr_pinUvAuthParam GA) (gr_clientDataHash GA) (gr_pinProtocol GA) w = Some (CTAP2_OK, u)"
    "ctap_client_pin_get_user_verified (gr_pinProtocol GA) u" "ctap_client_pin_verify_permissions (gr_pinProtocol GA) CP_permissions_ga u"
    "ctap_client_pin_verify_permissions_rp_id (gr_pinProtocol GA) rph u" "w' = ga_set (\<lambda>g. g\<lparr>ga_user_verified := 1\<rparr>) u"
    using assms(1) by (auto simp: ga_authorize_def Option.bind_eq_Some_conv split: if_splits)
  have s: "ga_still w u" by (rule verify_auth_still [OF v(2) assms(2)])
  have "crypto_ok w'" using v(6) ga_frameD(3) [OF ga_still_frame [OF s]] by (simp add: ga_set_def crypto_ok_def)
  then show ?thesis
    using v s ga_frameD [OF ga_still_frame [OF s]] by (auto simp: ga_token_good_def ga_set_def ga_still_def)
qed

section \<open>Property\<close>

lemma genuine_assertion:
  assumes "ctap_get_assertion b e req w = Some (CTAP2_OK, e', w')" "crypto_ok w" "length (key_cred_mac w) = 32"
    "reads_bounded (b_lfs b)" "creds_sized w"
  shows "\<exists>GA n e1 m c w1. parse_get_assertion_request (parse_locals_of w) (uninit_status w) req (ga_creds (getAssertionState w)) = Some (CTAP2_OK, GA)
    \<and> gr_clientDataHashPresent GA \<and> rp_size (gr_rp GA) \<noteq> 0 \<and> 0 < n
    \<and> (let rph = SHA256 (take (rp_size (gr_rp GA)) (rp_id (gr_rp GA))); lookup = take 16 (HMAC (key_cred_mac w) rph)
       in chosen w1 rph lookup (gr_credLen GA \<noteq> 0) \<and> (is_verified w1 \<longrightarrow> ga_token_good GA rph ((ga_set (\<lambda>g. g\<lparr>ga_creds := gr_creds GA\<rparr>) w)\<lparr>sha256_ctx := c\<rparr>))
          \<and> ga_answer b GA n rph lookup e1 m w1 = Some (CTAP2_OK, e', w'))"
proof -
  obtain GA where p: "parse_get_assertion_request (parse_locals_of w) (uninit_status w) req (ga_creds (getAssertionState w)) = Some (CTAP2_OK, GA)"
    using assms(1) by (auto simp: ctap_get_assertion_def Option.bind_eq_Some_conv Let_def split: if_splits)
  have GA: "ga_request_ok GA" by (rule parse_get_assertion_ok [OF p]) (use assms(5) in \<open>auto simp: creds_sized_def\<close>)
  define w1 where "w1 = ga_set (\<lambda>g. g\<lparr>ga_creds := gr_creds GA\<rparr>) w"
  have k1: "keys_ok w1" "key_cred_mac w1 = key_cred_mac w" "creds_sized w1"
    using assms(2,3) GA by (simp_all add: w1_def ga_set_def crypto_ok_def creds_sized_def ga_request_ok_def)
  have g: "\<not> gr_pinUvAuthParam_empty GA" "rp_size (gr_rp GA) \<noteq> 0" "gr_clientDataHashPresent GA"
    using assms(1) p by (auto simp: ctap_get_assertion_def Option.bind_eq_Some_conv Let_def split: if_splits)
  define rph lookup where "rph = SHA256 (take (rp_size (gr_rp GA)) (rp_id (gr_rp GA)))" and "lookup = take 16 (HMAC (key_cred_mac w) rph)"
  obtain w2 where d: "ctap_derive_rp_id_info (take (rp_size (gr_rp GA)) (rp_id (gr_rp GA))) w1 = Some (rph, lookup, w2)" "hash_frame w1 w2"
    using derive_rp_still [OF k1(1)] unfolding rph_def lookup_def k1(2) by metis
  have still: "ga_still w1 w2" by (rule ga_still_hash [OF d(2)])
  obtain c where w2: "w2 = (ga_set (\<lambda>g. g\<lparr>ga_creds := gr_creds GA\<rparr>) w)\<lparr>sha256_ctx := c\<rparr>"
    using d(2) unfolding hash_frame_def w1_def by blast
  note f2 = ga_frameD [OF ga_still_frame [OF still]] ga_still_sized [OF still]
  note rest = assms(1) [unfolded ctap_get_assertion_def p Let_def, simplified, folded w1_def, simplified g d(1), simplified]
  obtain w3 where a: "ga_authorize GA rph w2 = Some (CTAP2_OK, w3)"
    using rest g by (auto simp: Option.bind_eq_Some_conv split: if_splits)
  note f3 = ga_authorize_good [OF a f2(3)]
  have k3: "keys_ok w3" "creds_sized w3" using f3 f2 k1 by (simp_all add: creds_sized_def)
  obtain n w4 where l: "build_filtered_credential_list b (gr_credLen GA) rph lookup w3 = Some (n, w4)" "n \<noteq> 0"
    using rest g a by (auto simp: Option.bind_eq_Some_conv split: if_splits)
  have len: "length lookup = 16" "length rph = 32" by (simp_all add: lookup_def rph_def)
  have fc: "ga_frame w3 w4 \<and> chosen w4 rph lookup (gr_credLen GA \<noteq> 0)"
    by (rule filtered_list_chosen [OF l(1) k3(1) assms(4) k3(2) _ len]) (use GA l(2) in \<open>auto simp: ga_request_ok_def\<close>)
  then have ch: "chosen w4 rph lookup (gr_credLen GA \<noteq> 0)" "is_verified w4 \<longrightarrow> ga_token_good GA rph w2"
    using f3 ga_frameD(4) [of w3 w4] by simp_all
  obtain e1 m where ans: "ga_answer b GA n rph lookup e1 m w4 = Some (CTAP2_OK, e', w')"
    using rest g a l by (auto simp: Option.bind_eq_Some_conv split: if_splits prod.splits)
  show ?thesis
    by (rule exI [of _ GA], rule exI [of _ n], rule exI [of _ e1], rule exI [of _ m], rule exI [of _ c], rule exI [of _ w4])
      (use p g ch l(2) ans in \<open>simp add: Let_def rph_def lookup_def w2\<close>)
qed


definition demo_ctap :: "(string \<rightharpoonup> bytes) \<Rightarrow> (string \<rightharpoonup> bytes, f_state) ctap" where
  "demo_ctap files = cpin.extend ((demo_cpin demo_state)\<lparr>lfs := files\<rparr>)
     \<lparr>getAssertionState = getAssertionState_zero, cm_state = cm_zero\<rparr>"

definition demo_ctap_board :: "(string \<rightharpoonup> bytes, f_state, unit, (string \<rightharpoonup> bytes, f_state) ctap) board" where
  "demo_ctap_board = \<lparr>b_env = \<lparr>env_lfs = ram_lfs, env_ecc = demo_ecc\<rparr>, b_touch_bit = 0,
     b_file0 = \<lparr>f_name = [], f_append = False, f_data = [], f_pos = 0\<rparr>\<rparr>"

lemma demo_ctap_ok: "crypto_ok (demo_ctap files)" "length (key_cred_mac (demo_ctap files)) = 32" "creds_sized (demo_ctap files)"
proof -
  show "crypto_ok (demo_ctap files)" "length (key_cred_mac (demo_ctap files)) = 32"
    using demo_pin_env [of demo_state] by (simp_all add: pin_env_def dev_ok_def crypto_ok_def demo_ctap_def cpin.defs)
  show "creds_sized (demo_ctap files)"
    by (simp add: creds_sized_def demo_ctap_def cpin.defs getAssertionState_zero_def id_sized_def descriptor_zero_def sizeof_CredentialId_def ALLOW_LIST_MAX_SIZE_def)
qed


end
