(* ===== verification/Exclude_Laws.thy ===== *)
theory Exclude_Laws
  imports Credential_Laws Pin_Properties "HOL-Library.Code_Target_Nat"
begin

text \<open>
  The exclude list of \<open>makeCredential\<close>. The place in the list only moves on behind an entry that belongs to the
  relying party, so a foreign entry is looked at again and again, and what follows it is never compared.
\<close>

definition tag_matches :: "'a crypto_scheme \<Rightarrow> bytes \<Rightarrow> bytes \<Rightarrow> CTAP_credentialDescriptor \<Rightarrow> bool" where
  "tag_matches w rph lookup d \<longleftrightarrow> (if cred_type d = PUB_KEY_CRED_PUB_KEY
      then cred_tag (cred_id d) = credential_tag (key_cred_mac w) lookup (cred_id d)
      else cred_type d = PUB_KEY_CRED_CTAP1 \<and> take 16 (cred_id d) = handle_tag (key_cred_mac w) rph (cred_id d))"

lemma hash_frame_refl: "crypto_ok w \<Longrightarrow> hash_frame w w"
  unfolding hash_frame_def crypto_ok_def by (rule exI [of _ "sha256_ctx w"]) simp

lemma belongs_no:
  assumes "crypto_ok w" "length (key_cred_mac w) = 32" "length (cred_id d) = 57" "length lookup = 16" "length rph = 32"
    "\<not> tag_matches w rph lookup d"
  obtains w' where "ctap_credential_belongs_to_rp lookup rph d w = Some (False, w')" "hash_frame w w'"
proof -
  have n: "PUB_KEY_CRED_PUB_KEY \<noteq> PUB_KEY_CRED_CTAP1"
    by (simp add: PUB_KEY_CRED_PUB_KEY_def PUB_KEY_CRED_CTAP1_def)
  have l: "48 \<le> length (cred_id d)" using assms(3) by simp
  consider "cred_type d = PUB_KEY_CRED_PUB_KEY" | "cred_type d = PUB_KEY_CRED_CTAP1"
    | "cred_type d \<noteq> PUB_KEY_CRED_PUB_KEY" "cred_type d \<noteq> PUB_KEY_CRED_CTAP1" by blast
  then show ?thesis
  proof cases
    case 1
    show ?thesis by (rule belongs_pub_key [OF assms(1-4) 1]) (use that assms(6) 1 in \<open>simp add: tag_matches_def\<close>)
  next
    case 2
    show ?thesis by (rule belongs_u2f [OF assms(1,2) l assms(5) 2]) (use that assms(6) 2 n in \<open>simp add: tag_matches_def\<close>)
  next
    case 3
    then show ?thesis using that [of w] hash_frame_refl [OF assms(1)] by (simp add: ctap_credential_belongs_to_rp_def)
  qed
qed

text \<open>C40: When the first entry of an exclude list is not a credential of this authenticator for the relying party (for
  example one with an id too long for it), the loop ends without an objection, whatever the other entries are.\<close>

theorem exclude_list_stops_at_foreign:
  assumes "crypto_ok w" "length (key_cred_mac w) = 32" "length lookup = 16" "length rph = 32" "length (cred_id cred) = 57"
    "\<And>c. length (cred_id c) = 57 \<Longrightarrow> \<exists>d. ctap_parse_pubkey_credential_descriptor keytype lst c = Some (Inr d)
        \<and> length (cred_id d) = 57 \<and> \<not> tag_matches w rph lookup d"
  shows "\<exists>w'. exclude_loop b keytype rph lookup proto n lst cred w = Some (CTAP2_OK, w')"
  using assms
proof (induction n arbitrary: cred w)
  case (Suc n)
  obtain d where d: "ctap_parse_pubkey_credential_descriptor keytype lst cred = Some (Inr d)"
    "length (cred_id d) = 57" "\<not> tag_matches w rph lookup d" using Suc.prems(6) [OF Suc.prems(5)] by blast
  obtain w1 where b: "ctap_credential_belongs_to_rp lookup rph d w = Some (False, w1)" "hash_frame w w1"
    by (rule belongs_no [OF Suc.prems(1,2) d(2) Suc.prems(3,4) d(3)])
  note f = hash_frame_fields(4) [OF b(2)] hash_frame_ok [OF b(2)]
  have t: "tag_matches w1 rph lookup = tag_matches w rph lookup" by (simp add: fun_eq_iff tag_matches_def f)
  have "\<exists>w'. exclude_loop b keytype rph lookup proto n lst d w1 = Some (CTAP2_OK, w')"
    by (rule Suc.IH [OF f(2) _ Suc.prems(3,4) d(2)]) (use Suc.prems(2,6) f(1) in \<open>simp_all add: t\<close>)
  then show ?case using d(1) b(1) by simp
qed simp

text \<open>An entry with an id of 58 bytes.\<close>

definition foreign_entry :: bytes where
  "foreign_entry = [0xa2, 0x62, 0x69, 0x64, 0x58, 58] @ replicate 58 1 @ [0x64, 0x74, 0x79, 0x70, 0x65, 0x6a] @ replicate 10 0x61"

definition foreign_it :: CborValue where
  "foreign_it = snd (the (cbor_parser_init foreign_entry))"

definition foreign_id :: CborValue where
  "foreign_id = snd (the (cbor_value_map_find_value foreign_it (butlast (c_string ''id''))))"

lemma foreign_found: "cbor_value_map_find_value foreign_it (butlast (c_string ''id'')) = Some (CborNoError, foreign_id)"
proof -
  have "map_option fst (cbor_value_map_find_value foreign_it (butlast (c_string ''id''))) = Some CborNoError" by code_simp
  then show ?thesis by (auto simp: foreign_id_def)
qed

lemma foreign_steps:
  "cbor_value_get_type foreign_it = CborMapType" "cbor_value_get_type foreign_id = CborByteStringType"
  "cbor_value_calculate_string_length foreign_id = Some (CborNoError, 58)"
  by code_simp+

definition demo_cpin_board :: "(string \<rightharpoonup> bytes, f_state, unit, (string \<rightharpoonup> bytes, f_state) cpin) board" where
  "demo_cpin_board = \<lparr>b_env = demo_env, b_touch_bit = 0, b_file0 = \<lparr>f_name = [], f_append = False, f_data = [], f_pos = 0\<rparr>\<rparr>"

lemma exclude_list_stops_at_foreign_witness:
  "\<exists>w'. exclude_loop demo_cpin_board (replicate 12 0) (replicate 32 1) (replicate 16 2) 1 7 foreign_it
      \<lparr>cred_type = 0, cred_id = replicate 57 0\<rparr> (demo_cpin demo_state) = Some (CTAP2_OK, w')"
proof (rule exclude_list_stops_at_foreign)
  show "crypto_ok (demo_cpin demo_state)" "length (key_cred_mac (demo_cpin demo_state)) = 32"
    using demo_pin_env [of demo_state] by (simp_all add: pin_env_def dev_ok_def)
  fix c :: CTAP_credentialDescriptor
  assume "length (cred_id c) = 57"
  then show "\<exists>d. ctap_parse_pubkey_credential_descriptor (replicate 12 0) foreign_it c = Some (Inr d) \<and> length (cred_id d) = 57
      \<and> \<not> tag_matches (demo_cpin demo_state) (replicate 32 1) (replicate 16 2) d"
    by (simp add: ctap_parse_pubkey_credential_descriptor_def foreign_found foreign_steps cbor_check_def sizeof_CredentialId_def
        tag_matches_def PUB_KEY_CRED_UNKNOWN_def PUB_KEY_CRED_PUB_KEY_def PUB_KEY_CRED_CTAP1_def)
qed simp_all

end
