(* ===== verification/Presence_Laws.thy ===== *)
theory Presence_Laws
  imports Ctap_Core Ctaphid_Safety
begin

text \<open>
  The test of user presence: it ends, with the touch that came in time or with the expiry of the time limit, and
  touches nothing of the authenticator's state. The loop waits for the hardware, so that it ends is a
  property of what the registers show: round \<open>k\<close> reads the touch register once and, without a touch, the
  timer.
\<close>

section \<open>Frame\<close>

text \<open>What the test may change: the counts of register reads, the LED, the USB output and the status.\<close>

definition ui_mask :: "('fs, 'f, 'a) dev_scheme \<Rightarrow> ('fs, 'f, 'a) dev_scheme" where
  "ui_mask w = w\<lparr>timer_reads := 0, touch_reads := 0, led := LED_BLACK, usb_out := [], device_status := 0\<rparr>"

definition ui_frame :: "('fs, 'f, 'a) dev_scheme \<Rightarrow> ('fs, 'f, 'a) dev_scheme \<Rightarrow> bool" where
  "ui_frame w w' \<longleftrightarrow> ui_mask w' = ui_mask w"

lemma ui_frame_refl [simp]: "ui_frame w w"
  by (simp add: ui_frame_def)

lemma ui_frame_trans: "ui_frame a b \<Longrightarrow> ui_frame b c \<Longrightarrow> ui_frame a c"
  by (simp add: ui_frame_def)

lemma ui_frame_fields:
  assumes "ui_frame w w'"
  shows "touch_reg w' = touch_reg w" "timer_reg w' = timer_reg w" "STATE w' = STATE w" "lfs w' = lfs w" "f_rk w' = f_rk w"
    "dev.more w' = dev.more w" "up_disabled w' = up_disabled w" "sha256_ctx w' = sha256_ctx w" "key_cred_mac w' = key_cred_mac w"
    "key_meta_enc w' = key_meta_enc w" "key_device_mac w' = key_device_mac w" "stack w' = stack w"
proof -
  have m: "ui_mask w' = ui_mask w" using assms by (simp add: ui_frame_def)
  show "touch_reg w' = touch_reg w" "timer_reg w' = timer_reg w" "STATE w' = STATE w" "lfs w' = lfs w" "f_rk w' = f_rk w"
    "dev.more w' = dev.more w" "up_disabled w' = up_disabled w" "sha256_ctx w' = sha256_ctx w" "key_cred_mac w' = key_cred_mac w"
    "key_meta_enc w' = key_meta_enc w" "key_device_mac w' = key_device_mac w" "stack w' = stack w"
    using arg_cong [OF m, of touch_reg] arg_cong [OF m, of timer_reg] arg_cong [OF m, of STATE] arg_cong [OF m, of lfs]
      arg_cong [OF m, of f_rk] arg_cong [OF m, of dev.more] arg_cong [OF m, of up_disabled] arg_cong [OF m, of sha256_ctx]
      arg_cong [OF m, of key_cred_mac] arg_cong [OF m, of key_meta_enc] arg_cong [OF m, of key_device_mac] arg_cong [OF m, of stack]
    by (simp_all add: ui_mask_def)
qed

lemma ui_updates [simp]:
  "ui_frame w (v\<lparr>timer_reads := n\<rparr>) \<longleftrightarrow> ui_frame w v" "ui_frame w (v\<lparr>touch_reads := n\<rparr>) \<longleftrightarrow> ui_frame w v"
  "ui_frame w (led_set c v) \<longleftrightarrow> ui_frame w v"
  by (simp_all add: ui_frame_def ui_mask_def led_set_def)

lemma status_frame:
  "ui_frame w (device_set_status s w)" "timer_reads (device_set_status s w) = timer_reads w"
  "touch_reads (device_set_status s w) = touch_reads w"
proof -
  have "sends w (ctaphid_update_status s w)"
    unfolding ctaphid_update_status_def by (rule ctaphid_send_sends) (simp add: wb_ok_def ctaphid_write_buffer_init_def HID_MESSAGE_SIZE_def)
  then obtain ms where "ctaphid_update_status s w = w\<lparr>usb_out := usb_out w @ ms\<rparr>" by (auto simp: sends_def)
  then show "ui_frame w (device_set_status s w)" "timer_reads (device_set_status s w) = timer_reads w"
    "touch_reads (device_set_status s w) = touch_reads w"
    by (simp_all add: device_set_status_def ui_frame_def ui_mask_def Let_def)
qed

section \<open>The loop\<close>

definition clock_at :: "'a hw_scheme \<Rightarrow> nat \<Rightarrow> u32" where
  "clock_at w n = TIMER_MAX - timer_reg w n"

text \<open>Round \<open>k\<close> of the loop sees a touch, or finds the time over.\<close>

definition round_touched :: "nat \<Rightarrow> 'a hw_scheme \<Rightarrow> nat \<Rightarrow> bool" where
  "round_touched event_bit w k \<longleftrightarrow> bit (touch_reg w (touch_reads w + k)) event_bit"

definition round_over :: "u32 \<Rightarrow> u32 \<Rightarrow> 'a hw_scheme \<Rightarrow> nat \<Rightarrow> bool" where
  "round_over start limit w k \<longleftrightarrow> limit \<le> clock_at w (timer_reads w + k) - start"

lemma presence_round:
  assumes "\<forall>n. timer_reg w n > 1"
  obtains (touch) w' where "round_touched event_bit w 0" "presence_loop event_bit start limit w = Some (1, w')" "ui_frame w w'"
  | (over) w' where "\<not> round_touched event_bit w 0" "round_over start limit w 0"
      "presence_loop event_bit start limit w = Some (0, w')" "ui_frame w w'"
  | (again) w' where "\<not> round_touched event_bit w 0" "\<not> round_over start limit w 0"
      "presence_loop event_bit start limit w = presence_loop event_bit start limit w'" "ui_frame w w'"
      "touch_reads w' = touch_reads w + 1" "timer_reads w' = timer_reads w + 1"
proof -
  define w1 where "w1 = w\<lparr>touch_reads := touch_reads w + 1\<rparr>"
  define w2 where "w2 = device_set_status CTAPHID_STATUS_UPNEEDED w1"
  define w3 where "w3 = led_set (if (clock_at w (timer_reads w) - start) div 100 mod 2 = 1 then LED_GREEN else LED_BLACK)
      (w2\<lparr>timer_reads := timer_reads w2 + 1\<rparr>)"
  have f2: "ui_frame w w2" using status_frame(1) [where w = w1] by (simp add: w2_def w1_def ui_frame_def ui_mask_def)
  have t2: "timer_reads w2 = timer_reads w" "timer_reg w2 = timer_reg w" "touch_reads w2 = touch_reads w + 1"
    using status_frame [where w = w1] ui_frame_fields(2) [OF f2] by (simp_all add: w2_def w1_def)
  have m: "millis w2 = Some (clock_at w (timer_reads w), w2\<lparr>timer_reads := timer_reads w2 + 1\<rparr>)"
    using millis_running [of w2] assms t2 by (simp add: clock_at_def)
  have f3: "ui_frame w w3" "touch_reads w3 = touch_reads w + 1" "timer_reads w3 = timer_reads w + 1"
    using f2 t2 by (simp_all add: w3_def led_set_def ui_frame_def ui_mask_def)
  have un: "presence_loop event_bit start limit w = (if bit (touch_reg w (touch_reads w)) event_bit
      then Some (1, device_set_status CTAPHID_STATUS_PROCESSING (led_set LED_BLACK w1))
      else if clock_at w (timer_reads w) - start < limit then presence_loop event_bit start limit w3
      else Some (0, led_set LED_BLACK w3))"
    unfolding presence_loop.simps [of event_bit start limit w] Let_def w1_def [symmetric] w2_def [symmetric] m by (simp add: w3_def)
  have f1: "ui_frame w (device_set_status s (led_set LED_BLACK w1))" for s
    by (rule ui_frame_trans [OF _ status_frame(1)]) (simp add: w1_def)
  show thesis
  proof (cases "round_touched event_bit w 0")
    case True
    then show ?thesis using touch un f1 by (simp add: round_touched_def)
  next
    case False
    show ?thesis
    proof (cases "round_over start limit w 0")
      case True
      then have "\<not> clock_at w (timer_reads w) - start < limit" by (simp add: round_over_def not_less)
      then show ?thesis using over [OF False True] un False f3(1) by (simp add: round_touched_def)
    next
      case more: False
      then have "clock_at w (timer_reads w) - start < limit" by (simp add: round_over_def not_le)
      then show ?thesis using again [OF False more _ f3] un False by (simp add: round_touched_def)
    qed
  qed
qed

lemma presence_loop_ends:
  assumes "\<forall>n. timer_reg w n > 1" "round_touched event_bit w k \<or> round_over start limit w k"
    "\<And>j. j < k \<Longrightarrow> \<not> round_touched event_bit w j \<and> \<not> round_over start limit w j"
  shows "\<exists>w'. presence_loop event_bit start limit w = Some (of_bool (round_touched event_bit w k), w') \<and> ui_frame w w'"
  using assms
proof (induction k arbitrary: w)
  case 0
  show ?case by (rule presence_round [OF 0(1), of event_bit start limit]) (use 0(2) in auto)
next
  case (Suc k)
  show ?case
  proof (rule presence_round [OF Suc.prems(1), of event_bit start limit])
    fix w'
    assume w': "presence_loop event_bit start limit w = presence_loop event_bit start limit w'" "ui_frame w w'"
      "touch_reads w' = touch_reads w + 1" "timer_reads w' = timer_reads w + 1"
    note f = ui_frame_fields(1,2) [OF w'(2)]
    have shift: "round_touched event_bit w' j = round_touched event_bit w (Suc j)"
      "round_over start limit w' j = round_over start limit w (Suc j)" for j
      by (simp_all add: round_touched_def round_over_def clock_at_def f w')
    have "\<exists>w''. presence_loop event_bit start limit w' = Some (of_bool (round_touched event_bit w' k), w'') \<and> ui_frame w' w''"
      by (rule Suc.IH) (use Suc.prems f shift in auto)
    then obtain w'' where "presence_loop event_bit start limit w' = Some (of_bool (round_touched event_bit w' k), w'')" "ui_frame w' w''"
      by blast
    then show ?thesis using w'(1) shift ui_frame_trans [OF w'(2)] by simp
  qed (use Suc.prems(3) [of 0] in auto)
qed

lemma presence_test_ends:
  assumes "\<forall>n. timer_reg w n > 1" "\<not> up_disabled w"
    "w1 = w\<lparr>timer_reads := timer_reads w + 1\<rparr>" "start = clock_at w (timer_reads w)"
    "round_touched event_bit w1 k \<or> round_over start CTAP2_UP_DELAY_MS w1 k"
    "\<And>j. j < k \<Longrightarrow> \<not> round_touched event_bit w1 j \<and> \<not> round_over start CTAP2_UP_DELAY_MS w1 j"
  obtains w' where "ctap2_user_presence_test event_bit w
      = Some (if round_touched event_bit w1 k then CTAP2_OK else CTAP2_ERR_OPERATION_DENIED, w')" "ui_frame w w'"
proof -
  have t: "\<forall>n. timer_reg w1 n > 1" using assms(1,3) by simp
  obtain w' where "presence_loop event_bit start CTAP2_UP_DELAY_MS w1 = Some (of_bool (round_touched event_bit w1 k), w')" "ui_frame w1 w'"
    using presence_loop_ends [OF t assms(5,6)] by blast
  moreover have "millis w = Some (start, w1)" using millis_running [of w] assms by (simp add: clock_at_def)
  moreover have "ui_frame w w1" by (simp add: assms(3))
  ultimately show ?thesis
    using that ui_frame_trans assms(2) by (fastforce simp: ctap2_user_presence_test_def ctap_user_presence_test_def)
qed


text \<open>A device that is touched while the third round is under way.\<close>

definition demo_touched :: "(string \<rightharpoonup> bytes, f_state) dev" where
  "demo_touched = demo_dev\<lparr>timer_reg := \<lambda>n. 0xffff0000, timer_reads := 0, touch_reg := \<lambda>n. if n = 2 then 1 else 0, touch_reads := 0\<rparr>"


end
