(* ===== verification/Start_Laws.thy ===== *)
theory Start_Laws
  imports Ctap_Core Pin_Properties Credential_Laws
begin

text \<open>
  What survives a power cycle. The device keys depend on the hardware secret alone, so that what was sealed before is
  opened after the next start: the attestation key, once provisioned, and the persistent state with the
  number of PIN attempts that are left. \<open>ctap_init\<close> establishes the invariant that the PIN command keeps.
\<close>

section \<open>The attestation key\<close>

lemma sizeof_att_key_64: "sizeof_att_key = 64"
  by (simp add: sizeof_att_key_def attestation_sizes)

definition att_sized :: "att_key \<Rightarrow> bool" where
  "att_sized k \<longleftrightarrow> length (att_key_enc k) = 32 \<and> length (att_nonce k) = 16 \<and> length (att_mac k) = 16"

lemma att_key_bytes_facts:
  assumes "att_sized k"
  shows "length (att_key_bytes k) = 64" "att_key_of (att_key_bytes k) = k" "take 48 (att_key_bytes k) = att_key_enc k @ att_nonce k"
  using assms by (simp_all add: att_sized_def att_key_bytes_def att_key_of_def attestation_sizes slice_def)

lemma att_key_of_sized: "length b = 64 \<Longrightarrow> att_sized (att_key_of b) \<and> att_key_bytes (att_key_of b) = b"
  using slice_append_parts [of 32 16 16 b]
  by (auto simp: att_sized_def att_key_of_def att_key_bytes_def attestation_sizes slice_def take_drop [symmetric] drop_take)

lemma pin_env_files:
  assumes "pin_env env v w" "healthy v x" "f_contents v x = f_contents v (lfs w)"
  shows "calm env v w (w\<lparr>lfs := x\<rparr>)"
  using assms by (simp add: calm_def keeps_def same_hw_def pin_env_def dev_ok_def crypto_ok_def rng_ok_def)

lemma dev_frame_trans: "dev_frame a b \<Longrightarrow> dev_frame b c \<Longrightarrow> dev_frame a c"
  unfolding dev_frame_def by (elim exE) (simp, blast)

lemma dev_frame_lfs: "dev_frame w (w\<lparr>lfs := x\<rparr>)"
proof -
  have "w\<lparr>lfs := x\<rparr> = w\<lparr>sha256_ctx := sha256_ctx w, lfs := x\<rparr>" by simp
  then show ?thesis unfolding dev_frame_def by blast
qed

lemma dev_frame_hash: "hash_frame w w' \<Longrightarrow> dev_frame w w'"
  by (auto simp: hash_frame_def dev_frame_def intro!: exI [of _ "lfs w"])

lemma dev_frame_keys:
  assumes "dev_frame w w'"
  shows "key_attestation_enc w' = key_attestation_enc w" "cdi w' = cdi w" "key_attest w' = key_attest w"
    "attestation_available w' = attestation_available w"
  using assms by (auto simp: dev_frame_def)

lemma pin_env_lfs:
  assumes "pin_env env v w"
  shows "lfs_laws (env_lfs env) v" "healthy v (lfs w)"
  using assms by (simp_all add: pin_env_def dev_ok_def)

text \<open>The file as it is read: present with 64 bytes, or something else and then an error.\<close>

lemma att_file_read:
  assumes "pin_env env v w" "att_sized kb"
  obtains (bad) r w1 where "r < 0" "attestation_read_key (env_lfs env) f0 kb w = Some (r, kb, w1)" "calm env v w w1" "dev_frame w w1"
      "\<And>d. f_contents v (lfs w) ''attestation_key'' = Some d \<Longrightarrow> length d \<noteq> 64"
  | (good) d w1 where "f_contents v (lfs w) ''attestation_key'' = Some d" "length d = 64" "calm env v w w1" "dev_frame w w1"
      "attestation_read_key (env_lfs env) f0 kb w = do {
         (ok, w2) \<leftarrow> crypto_verify_device_mac (take 48 d) (att_mac (att_key_of d)) 16 w1;
         if \<not> ok then Some (- 1, att_key_of (replicate 64 0), w2) else Some (0, att_key_of d, w2) }"
proof -
  let ?lib = "env_lfs env"
  note laws = pin_env_lfs [OF assms(1)]
  show thesis
  proof (cases "f_contents v (lfs w) ''attestation_key''")
    case None
    then obtain r f x where "lfs_file_opencfg ?lib ''attestation_key'' [LFS_O_RDONLY] (lfs w) = (r, f, x)" "r < 0" "healthy v x"
      "f_contents v x = f_contents v (lfs w)"
      using lfs_open_missing [OF laws, of "[LFS_O_RDONLY]" "''attestation_key''"] by auto
    then show ?thesis
      using bad [of r "w\<lparr>lfs := x\<rparr>"] None pin_env_files [OF assms(1), of x] dev_frame_lfs [of w x]
      by (simp add: attestation_read_key_def fs_open_file_def)
  next
    case (Some d)
    obtain f x where o: "lfs_file_opencfg ?lib ''attestation_key'' [LFS_O_RDONLY] (lfs w) = (0, f, x)" "healthy v x"
      "\<And>n. n \<noteq> ''attestation_key'' \<Longrightarrow> f_contents v x n = f_contents v (lfs w) n"
      "f_open v f x = Some \<lparr>f_name = ''attestation_key'', f_append = False, f_data = d, f_pos = 0\<rparr>"
      using lfs_open [OF laws, of "[LFS_O_RDONLY]" "''attestation_key''"] Some by auto
    have sz: "lfs_file_size ?lib f x = int (length d)" using lfs_size [OF laws(1) o(2,4)] by simp
    show ?thesis
    proof (cases "length d = 64")
      case False
      obtain f1 x1 where c: "lfs_file_close ?lib f x = (0, f1, x1)" "healthy v x1" "f_contents v x1 = (f_contents v x)(''attestation_key'' \<mapsto> d)"
        using lfs_close [OF laws(1) o(2,4)] by auto
      have "f_contents v x1 = f_contents v (lfs w)" using c(3) o(3) Some by auto
      then show ?thesis
        using bad [of "- 1" "w\<lparr>lfs := x1\<rparr>"] o(1) sz c(1,2) False Some pin_env_files [OF assms(1), of x1] dev_frame_lfs [of w x1]
        by (simp add: attestation_read_key_def fs_open_file_def fs_file_size_def fs_close_file_def sizeof_att_key_64)
    next
      case True
      obtain f1 x1 where r: "lfs_file_read ?lib f 64 x = (64, d, f1, x1)" "healthy v x1" "f_contents v x1 = f_contents v x"
        "f_open v f1 x1 = Some \<lparr>f_name = ''attestation_key'', f_append = False, f_data = d, f_pos = 64\<rparr>"
        using lfs_read [OF laws(1) o(2,4), of 64] True by (auto simp: slice_def)
      obtain f2 x2 where c: "lfs_file_close ?lib f1 x1 = (0, f2, x2)" "healthy v x2" "f_contents v x2 = (f_contents v x1)(''attestation_key'' \<mapsto> d)"
        using lfs_close [OF laws(1) r(2,4)] by auto
      have same: "f_contents v x2 = f_contents v (lfs w)" using c(3) r(3) o(3) Some by auto
      have b: "blit (att_key_bytes kb) 0 d = d" using att_key_bytes_facts(1) [OF assms(2)] True by (simp add: blit_def)
      have "attestation_read_key ?lib f0 kb w = do {
         (ok, w2) \<leftarrow> crypto_verify_device_mac (take 48 d) (att_mac (att_key_of d)) 16 (w\<lparr>lfs := x2\<rparr>);
         if \<not> ok then Some (- 1, att_key_of (replicate 64 0), w2) else Some (0, att_key_of d, w2) }"
        unfolding attestation_read_key_def sizeof_att_key_64 using o(1) sz r(1) c(1) True b att_key_of_sized [of d]
        by (simp add: fs_open_file_def fs_file_size_def fs_close_file_def fs_read_def attestation_sizes Let_def)
      then show ?thesis using good [OF Some True pin_env_files [OF assms(1) c(2) same] dev_frame_lfs] by blast
    qed
  qed
qed

lemma att_mac_check:
  assumes "pin_env env v w" "length m = 16"
  obtains w' where "crypto_verify_device_mac d m 16 w = Some (m = take 16 (HMAC (key_device_mac w) d), w')" "calm env v w w'" "dev_frame w w'"
proof -
  have l: "length (key_device_mac w) \<le> 64" using assms(1) by (simp add: pin_env_def dev_ok_def)
  obtain w' where "crypto_hmac (key_device_mac w) [d] w = Some (HMAC (key_device_mac w) d, w')" "calm env v w w'" "dev_frame w w'"
    using hmac_stream [of w "key_device_mac w" "[d]"] l assms(1) pin_env_hash [OF assms(1)] dev_frame_hash
    by (fastforce simp: pin_env_def dev_ok_def)
  moreover have "memcmp 16 (take 16 (HMAC (key_device_mac w) d)) m = 0 \<longleftrightarrow> m = take 16 (HMAC (key_device_mac w) d)"
    using assms(2) by (subst memcmp_eq_0) auto
  ultimately show ?thesis using that by (simp add: crypto_verify_device_mac_def crypto_compute_device_mac_def)
qed

lemma att_read_returns:
  assumes "pin_env env v w" "att_sized kb"
  obtains r k w' where "attestation_read_key (env_lfs env) f0 kb w = Some (r, k, w')" "calm env v w w'" "att_sized k" "dev_frame w w'"
proof (rule att_file_read [OF assms, of f0])
  fix d w1
  assume d: "length d = 64" "calm env v w w1" "dev_frame w w1" "attestation_read_key (env_lfs env) f0 kb w = do {
         (ok, w2) \<leftarrow> crypto_verify_device_mac (take 48 d) (att_mac (att_key_of d)) 16 w1;
         if \<not> ok then Some (- 1, att_key_of (replicate 64 0), w2) else Some (0, att_key_of d, w2) }"
  have l: "length (att_mac (att_key_of d)) = 16" using att_key_of_sized [OF d(1)] by (simp add: att_sized_def)
  obtain w2 where "crypto_verify_device_mac (take 48 d) (att_mac (att_key_of d)) 16 w1
      = Some (att_mac (att_key_of d) = take 16 (HMAC (key_device_mac w1) (take 48 d)), w2)" "calm env v w1 w2" "dev_frame w1 w2"
    by (rule att_mac_check [OF calmD(1) [OF d(2)] l])
  then show ?thesis
    using that d(4) calm_trans [OF d(2)] dev_frame_trans [OF d(3)] att_key_of_sized [OF d(1)] att_key_of_sized [of "replicate 64 0"]
    by (cases "att_mac (att_key_of d) = take 16 (HMAC (key_device_mac w1) (take 48 d))") auto
qed (use that assms(2) in blast)

section \<open>Provisioning\<close>

lemma seal_calm:
  assumes "pin_env env v w" "length key = 32"
  obtains ak w' where "seal_att_key key w = Some (ak, w')" "calm env v w w'" "att_sized ak" "lfs w' = lfs w"
    "att_mac ak = take 16 (HMAC (key_device_mac w) (att_key_enc ak @ att_nonce ak))"
    "crypto_aes256_ctr_xcrypt_buffer (key_attestation_enc w) (att_nonce ak) (att_key_enc ak) = key"
proof -
  have rng: "rng_ok w" "rng_initialized w" using assms(1) by (simp_all add: pin_env_def)
  obtain bs w1 where 1: "rng_get_bytes 16 w = Some (0, bs, w1)" "length bs = 16" "rng_frame w w1"
    using rng_loop_bytes [OF rng(1), of 16 "[]"] rng(2) by (auto simp: rng_get_bytes_def)
  have c1: "calm env v w w1" by (rule pin_env_rng [OF assms(1) 1(3)])
  note k1 = rng_frame_keys [OF 1(3)]
  have m: "rng_mask w1 = rng_mask w" using 1(3) by (simp add: rng_frame_def)
  have lx: "lfs w1 = lfs w" using arg_cong [OF m, of lfs] by (simp add: rng_mask_def)
  define enc where "enc = crypto_aes256_ctr_xcrypt_buffer (key_attestation_enc w) bs key"
  have len: "length enc = 32"
    by (simp add: enc_def crypto_aes256_ctr_xcrypt_buffer_def AES_CTR_xcrypt_buffer_def case_prod_unfold Let_def length_ctr_loop assms(2))
  have dec: "crypto_aes256_ctr_xcrypt_buffer (key_attestation_enc w) bs enc = key"
    by (simp add: enc_def crypto_aes256_ctr_xcrypt_buffer_def AES_CTR_xcrypt_buffer_def case_prod_unfold Let_def ctr_loop_involution)
  have l: "length (key_device_mac w1) \<le> 64" using calmD(1) [OF c1] by (simp add: pin_env_def dev_ok_def)
  obtain c where c: "crypto_hmac (key_device_mac w1) [enc @ bs] w1
      = Some (HMAC (key_device_mac w1) (enc @ bs), w1\<lparr>sha256_ctx := c\<rparr>)" "length (sha_data c) = 64"
    using hmac_stream [of w1 "key_device_mac w1" "[enc @ bs]"] l calmD(1) [OF c1]
    by (auto simp: hash_frame_def pin_env_def dev_ok_def)
  have c2: "calm env v w1 (w1\<lparr>sha256_ctx := c\<rparr>)"
    by (rule pin_env_hash [OF calmD(1) [OF c1]]) (use c(2) in \<open>auto simp: hash_frame_def\<close>)
  have "seal_att_key key w = Some (\<lparr>att_key_enc = enc, att_nonce = bs, att_mac = take 16 (HMAC (key_device_mac w) (enc @ bs))\<rparr>,
      w1\<lparr>sha256_ctx := c\<rparr>)"
    using 1(1,2) c(1) assms(2) k1
    by (simp add: seal_att_key_def attestation_sizes blit_def crypto_compute_device_mac_def enc_def [symmetric] Let_def)
  then show ?thesis
    using that calm_trans [OF c1 c2] len 1(2) k1 dec lx by (simp add: att_sized_def)
qed

text \<open>A provisioned key file: sealed under the device's keys, holding the key.\<close>

definition att_provisioned ::
  "('fs, 'f) lfs_view \<Rightarrow> bytes \<Rightarrow> bytes \<Rightarrow> bytes \<Rightarrow> 'fs \<Rightarrow> bool" where
  "att_provisioned v mac_key enc_key key x \<longleftrightarrow> (\<exists>ak. att_sized ak \<and> f_contents v x ''attestation_key'' = Some (att_key_bytes ak)
     \<and> att_mac ak = take 16 (HMAC mac_key (att_key_enc ak @ att_nonce ak))
     \<and> crypto_aes256_ctr_xcrypt_buffer enc_key (att_nonce ak) (att_key_enc ak) = key)"

lemma att_write_provisions:
  assumes "pin_env env v w" "length key = 32" "64 \<le> f_limit v" "f_contents v (lfs w) ''attestation_key'' = None"
  obtains w' where "attestation_write_key (env_lfs env) f0 key w = Some (64, w')" "pin_env env v w'" "keeps w w'"
    "att_provisioned v (key_device_mac w) (key_attestation_enc w) key (lfs w')"
    "\<And>n. n \<noteq> ''attestation_key'' \<Longrightarrow> f_contents v (lfs w') n = f_contents v (lfs w) n"
proof -
  let ?lib = "env_lfs env"
  note laws = pin_env_lfs [OF assms(1)]
  obtain f x where o: "lfs_file_opencfg ?lib ''attestation_key'' [LFS_O_RDWR, LFS_O_CREAT] (lfs w) = (0, f, x)" "healthy v x"
    "\<And>n. n \<noteq> ''attestation_key'' \<Longrightarrow> f_contents v x n = f_contents v (lfs w) n"
    "f_open v f x = Some \<lparr>f_name = ''attestation_key'', f_append = False, f_data = [], f_pos = 0\<rparr>"
    using lfs_open [OF laws, of "[LFS_O_RDWR, LFS_O_CREAT]" "''attestation_key''"] assms(4) by auto
  have sz: "lfs_file_size ?lib f x = 0" using lfs_size [OF laws(1) o(2,4)] by simp
  let ?w1 = "w\<lparr>lfs := x\<rparr>"
  have e1: "pin_env env v ?w1" "keeps w ?w1"
    using assms(1) o(2) by (simp_all add: pin_env_def dev_ok_def crypto_ok_def rng_ok_def keeps_def same_hw_def)
  obtain ak w2 where s: "seal_att_key key ?w1 = Some (ak, w2)" "calm env v ?w1 w2" "att_sized ak" "lfs w2 = x"
    "att_mac ak = take 16 (HMAC (key_device_mac w) (att_key_enc ak @ att_nonce ak))"
    "crypto_aes256_ctr_xcrypt_buffer (key_attestation_enc w) (att_nonce ak) (att_key_enc ak) = key"
    using seal_calm [OF e1(1) assms(2)] by auto
  let ?b = "att_key_bytes ak"
  have lb: "length ?b = 64" by (rule att_key_bytes_facts(1) [OF s(3)])
  obtain f1 x1 where wr: "lfs_file_write ?lib f ?b x = (64, f1, x1)" "healthy v x1" "f_contents v x1 = f_contents v x"
    "f_open v f1 x1 = Some \<lparr>f_name = ''attestation_key'', f_append = False, f_data = ?b, f_pos = 64\<rparr>"
    using lfs_write [OF laws(1) o(2,4), of ?b] assms(3) lb by (auto simp: f_where_def f_write_def f_put_def)
  obtain f2 x2 where c: "lfs_file_close ?lib f1 x1 = (0, f2, x2)" "healthy v x2" "f_contents v x2 = (f_contents v x1)(''attestation_key'' \<mapsto> ?b)"
    using lfs_close [OF laws(1) wr(2,4)] by auto
  have k2: "keeps ?w1 w2" "pin_env env v w2" using s(2) by (simp_all add: calm_def)
  have "pin_env env v (w2\<lparr>lfs := x2\<rparr>)" "keeps w (w2\<lparr>lfs := x2\<rparr>)"
    using k2 e1(2) c(2) by (simp_all add: pin_env_def dev_ok_def crypto_ok_def rng_ok_def keeps_def same_hw_def)
  moreover have "attestation_write_key ?lib f0 key w = Some (64, w2\<lparr>lfs := x2\<rparr>)"
    using o(1) sz s(1,4) wr(1) c(1) assms(2)
    by (simp add: attestation_write_key_def fs_open_file_def fs_file_size_def fs_close_file_def fs_write_def attestation_sizes Let_def)
  moreover have "att_provisioned v (key_device_mac w) (key_attestation_enc w) key x2"
    using s(3,5,6) c(3) by (auto simp: att_provisioned_def)
  moreover have "f_contents v x2 n = f_contents v (lfs w) n" if "n \<noteq> ''attestation_key''" for n
    using that c(3) wr(3) o(3) by simp
  ultimately show ?thesis using that by simp
qed

text \<open>Reading a provisioned key back, and refusing to overwrite it.\<close>

lemma att_read_provisioned:
  assumes "pin_env env v w" "att_sized kb" "att_provisioned v (key_device_mac w) enc_key key (lfs w)"
  obtains k w' where "attestation_read_key (env_lfs env) f0 kb w = Some (0, k, w')" "calm env v w w'" "att_sized k" "dev_frame w w'"
    "crypto_aes256_ctr_xcrypt_buffer enc_key (att_nonce k) (att_key_enc k) = key"
proof -
  obtain ak where ak: "att_sized ak" "f_contents v (lfs w) ''attestation_key'' = Some (att_key_bytes ak)"
    "att_mac ak = take 16 (HMAC (key_device_mac w) (att_key_enc ak @ att_nonce ak))"
    "crypto_aes256_ctr_xcrypt_buffer enc_key (att_nonce ak) (att_key_enc ak) = key"
    using assms(3) by (auto simp: att_provisioned_def)
  note b = att_key_bytes_facts [OF ak(1)]
  obtain w1 where r: "calm env v w w1" "dev_frame w w1" "attestation_read_key (env_lfs env) f0 kb w = do {
         (ok, w2) \<leftarrow> crypto_verify_device_mac (att_key_enc ak @ att_nonce ak) (att_mac ak) 16 w1;
         if \<not> ok then Some (- 1, att_key_of (replicate 64 0), w2) else Some (0, att_key_of (att_key_bytes ak), w2) }"
    by (rule att_file_read [OF assms(1,2), of f0]) (use ak(2) b in auto)
  have l: "length (att_mac ak) = 16" using ak(1) by (simp add: att_sized_def)
  obtain w2 where "crypto_verify_device_mac (att_key_enc ak @ att_nonce ak) (att_mac ak) 16 w1
      = Some (att_mac ak = take 16 (HMAC (key_device_mac w1) (att_key_enc ak @ att_nonce ak)), w2)" "calm env v w1 w2" "dev_frame w1 w2"
    by (rule att_mac_check [OF calmD(1) [OF r(1)] l])
  then show ?thesis using that r(3) ak b calm_trans [OF r(1)] dev_frame_trans [OF r(2)] calmD(9) [OF r(1)] by simp
qed

lemma att_write_refused:
  assumes "pin_env env v w" "length key = 32" "f_contents v (lfs w) ''attestation_key'' = Some d" "d \<noteq> []"
  obtains w' where "attestation_write_key (env_lfs env) f0 key w = Some (- 1, w')" "calm env v w w'"
proof -
  let ?lib = "env_lfs env"
  note laws = pin_env_lfs [OF assms(1)]
  obtain f x where o: "lfs_file_opencfg ?lib ''attestation_key'' [LFS_O_RDWR, LFS_O_CREAT] (lfs w) = (0, f, x)" "healthy v x"
    "\<And>n. n \<noteq> ''attestation_key'' \<Longrightarrow> f_contents v x n = f_contents v (lfs w) n"
    "f_open v f x = Some \<lparr>f_name = ''attestation_key'', f_append = False, f_data = d, f_pos = 0\<rparr>"
    using lfs_open [OF laws, of "[LFS_O_RDWR, LFS_O_CREAT]" "''attestation_key''"] assms(3) by auto
  have sz: "lfs_file_size ?lib f x = int (length d)" using lfs_size [OF laws(1) o(2,4)] by simp
  obtain f1 x1 where c: "lfs_file_close ?lib f x = (0, f1, x1)" "healthy v x1" "f_contents v x1 = (f_contents v x)(''attestation_key'' \<mapsto> d)"
    using lfs_close [OF laws(1) o(2,4)] by auto
  have "f_contents v x1 = f_contents v (lfs w)" using c(3) o(3) assms(3) by auto
  then show ?thesis
    using that [of "w\<lparr>lfs := x1\<rparr>"] pin_env_files [OF assms(1) c(2)] o(1) sz c(1) assms(2,4)
    by (simp add: attestation_write_key_def fs_open_file_def fs_file_size_def fs_close_file_def attestation_sizes Let_def)
qed

section \<open>The keys of the device\<close>

text \<open>A device key depends on the hardware secret and its label only.\<close>

definition device_key :: "bytes \<Rightarrow> string \<Rightarrow> bytes" where
  "device_key secret label = HKDF_expand secret (c_string label) 32"

lemma length_device_key [simp]: "length (device_key secret label) = 32"
  by (simp add: device_key_def length_HKDF_expand)

lemma derive_device_keys:
  assumes "crypto_ok w" "length (cdi w) = 8"
  obtains c where "crypto_derive_device_keys rd w = do {
      let w1 = w\<lparr>key_attestation_enc := device_key (device_get_bound_secret w) ''att_enc'',
        key_pin_enc := device_key (device_get_bound_secret w) ''pin_enc'', sha256_ctx := c,
        key_device_mac := device_key (device_get_bound_secret w) ''device_mac''\<rparr>;
      (ret, ak, w2) \<leftarrow> rd (key_attest w1) w1;
      let w3 = w2\<lparr>key_attest := ak\<rparr>;
      Some (if ret < 0 then w3 else w3\<lparr>attestation_available := True\<rparr>) }" "length (sha_data c) = 64"
proof -
  let ?s = "device_get_bound_secret w"
  have l: "length ?s \<le> 64" using assms(2) by (simp add: device_get_bound_secret_def length_concat o_def sum_list_triv)
  obtain c1 where 1: "derive_key ?s ''att_enc'' w = Some (device_key ?s ''att_enc'', w\<lparr>sha256_ctx := c1\<rparr>)" "length (sha_data c1) = 64"
    using derive_key_hkdf [OF assms(1) l, of "''att_enc''"] by (auto simp: hash_frame_def device_key_def)
  let ?w1 = "w\<lparr>sha256_ctx := c1, key_attestation_enc := device_key ?s ''att_enc''\<rparr>"
  obtain c2 where 2: "derive_key ?s ''pin_enc'' ?w1 = Some (device_key ?s ''pin_enc'', ?w1\<lparr>sha256_ctx := c2\<rparr>)" "length (sha_data c2) = 64"
    using derive_key_hkdf [of ?w1, OF _ l, of "''pin_enc''"] 1(2) by (auto simp: hash_frame_def device_key_def crypto_ok_def)
  let ?w2 = "?w1\<lparr>sha256_ctx := c2, key_pin_enc := device_key ?s ''pin_enc''\<rparr>"
  obtain c3 where 3: "derive_key ?s ''device_mac'' ?w2 = Some (device_key ?s ''device_mac'', ?w2\<lparr>sha256_ctx := c3\<rparr>)" "length (sha_data c3) = 64"
    using derive_key_hkdf [of ?w2, OF _ l, of "''device_mac''"] 2(2) by (auto simp: hash_frame_def device_key_def crypto_ok_def)
  show ?thesis using that [OF _ 3(2)] 1(1) 2(1) 3(1) by (simp add: crypto_derive_device_keys_def Let_def)
qed

text \<open>The memory at power-up: arrays of their sizes, the generator seeded, the filesystem mounted.\<close>

definition start_env ::
  "('fs, 'f, 'd, 'w) env \<Rightarrow> ('fs, 'f) lfs_view \<Rightarrow> ('fs, 'f, 'a) cpin_scheme \<Rightarrow> bool" where
  "start_env env v w \<longleftrightarrow> lfs_laws (env_lfs env) v \<and> healthy v (lfs w) \<and> STATE_ENVELOPE_BUF_SIZE \<le> f_limit v \<and> crypto_ok w
     \<and> rng_ok w \<and> rng_initialized w \<and> length (key_cred_mac w) = 32 \<and> (\<forall>n. timer_reg w n > 1)
     \<and> att_sized (key_attest w) \<and> length (cdi w) = 8"

text \<open>The state after the three device keys are derived.\<close>

definition keyed :: "SHA256_CTX \<Rightarrow> ('fs, 'f, 'a) cpin_scheme \<Rightarrow> ('fs, 'f, 'a) cpin_scheme" where
  "keyed c w = w\<lparr>key_attestation_enc := device_key (device_get_bound_secret w) ''att_enc'',
     key_pin_enc := device_key (device_get_bound_secret w) ''pin_enc'', sha256_ctx := c,
     key_device_mac := device_key (device_get_bound_secret w) ''device_mac''\<rparr>"

lemma keyed_env:
  assumes "start_env env v w" "length (sha_data c) = 64"
  shows "pin_env env v (keyed c w)" "att_sized (key_attest (keyed c w))"
  using assms by (simp_all add: keyed_def start_env_def pin_env_def dev_ok_def crypto_ok_def rng_ok_def)

lemma keyed_fields [simp]:
  "lfs (keyed c w) = lfs w" "STATE (keyed c w) = STATE w" "attestation_available (keyed c w) = attestation_available w"
  "key_device_mac (keyed c w) = device_key (device_get_bound_secret w) ''device_mac''"
  "key_attestation_enc (keyed c w) = device_key (device_get_bound_secret w) ''att_enc''"
  "cdi (keyed c w) = cdi w" "PIN_BOOT_ATTEMPTS_LEFT (keyed c w) = PIN_BOOT_ATTEMPTS_LEFT w"
  by (simp_all add: keyed_def)

lemma set_attest_calm:
  assumes "calm env v w w1"
  shows "calm env v w (w1\<lparr>key_attest := ak\<rparr>)" "calm env v w (w1\<lparr>key_attest := ak, attestation_available := a\<rparr>)"
  using assms by (auto simp: calm_def keeps_def same_hw_def pin_env_def dev_ok_def crypto_ok_def rng_ok_def)

text \<open>Deriving the device keys always succeeds, and leaves everything ready for the PIN module.\<close>

lemma start_keys:
  assumes "start_env env v w"
  obtains c w' where "crypto_derive_device_keys (attestation_read_key (env_lfs env) f0) w = Some w'" "length (sha_data c) = 64"
    "calm env v (keyed c w) w'" "att_sized (key_attest w')" "key_attestation_enc w' = key_attestation_enc (keyed c w)" "cdi w' = cdi w"
    "\<And>key. att_provisioned v (key_device_mac (keyed c w)) (key_attestation_enc (keyed c w)) key (lfs w) \<Longrightarrow>
       attestation_available w' \<and> signing (crypto_ecc256_load_attestation_key w') = Attestation_Key key"
proof -
  have ok: "crypto_ok w" "length (cdi w) = 8" using assms by (simp_all add: start_env_def)
  obtain c where c: "crypto_derive_device_keys (attestation_read_key (env_lfs env) f0) w = do {
      (ret, ak, w2) \<leftarrow> attestation_read_key (env_lfs env) f0 (key_attest (keyed c w)) (keyed c w);
      let w3 = w2\<lparr>key_attest := ak\<rparr>;
      Some (if ret < 0 then w3 else w3\<lparr>attestation_available := True\<rparr>) }" "length (sha_data c) = 64"
    using derive_device_keys [OF ok, of "attestation_read_key (env_lfs env) f0"] by (auto simp: Let_def keyed_def)
  note e = keyed_env [OF assms c(2)]
  obtain r k w2 where rd: "attestation_read_key (env_lfs env) f0 (key_attest (keyed c w)) (keyed c w) = Some (r, k, w2)"
    "calm env v (keyed c w) w2" "att_sized k" "dev_frame (keyed c w) w2"
    by (rule att_read_returns [OF e, of f0])
  let ?w' = "if r < 0 then w2\<lparr>key_attest := k\<rparr> else w2\<lparr>key_attest := k, attestation_available := True\<rparr>"
  have "attestation_available ?w' \<and> signing (crypto_ecc256_load_attestation_key ?w') = Attestation_Key key"
    if "att_provisioned v (key_device_mac (keyed c w)) (key_attestation_enc (keyed c w)) key (lfs (keyed c w))" for key
    by (rule att_read_provisioned [OF e that, of f0])
      (use rd(1) dev_frame_keys [OF rd(4)] in \<open>auto simp: crypto_ecc256_load_attestation_key_def att_sized_def\<close>)
  then show ?thesis
    using that [of ?w' c] c rd set_attest_calm [OF rd(2)] dev_frame_keys [OF rd(4)] by (simp add: Let_def)
qed

text \<open>C14: The whole way of an attestation key: on a device without one, writing a key succeeds; after every later
  power-up of the same device (same hardware secret, same file) the key is found, its MAC accepted, and loading it
  for a signature yields exactly the key that was written; and a key, once written, cannot be replaced.\<close>

theorem attestation_provisioning:
  assumes "start_env env v w0" "64 \<le> f_limit v" "f_contents v (lfs w0) ''attestation_key'' = None" "length key = 32"
  shows "\<exists>w w'. crypto_derive_device_keys (attestation_read_key (env_lfs env) f0) w0 = Some w
    \<and> attestation_write_key (env_lfs env) f0 key w = Some (64, w')
    \<and> (\<forall>u. start_env env v u \<and> cdi u = cdi w0
           \<and> f_contents v (lfs u) ''attestation_key'' = f_contents v (lfs w') ''attestation_key'' \<longrightarrow>
         (\<exists>u'. crypto_derive_device_keys (attestation_read_key (env_lfs env) f0) u = Some u' \<and> attestation_available u'
            \<and> signing (crypto_ecc256_load_attestation_key u') = Attestation_Key key
            \<and> (\<forall>key'. length key' = 32 \<longrightarrow> (\<exists>u''. attestation_write_key (env_lfs env) f0 key' u' = Some (- 1, u'')
                 \<and> f_contents v (lfs u'') = f_contents v (lfs u)))))"
proof -
  obtain c w where w: "crypto_derive_device_keys (attestation_read_key (env_lfs env) f0) w0 = Some w"
    "calm env v (keyed c w0) w" "key_attestation_enc w = key_attestation_enc (keyed c w0)"
    by (rule start_keys [OF assms(1), of f0])
  have none: "f_contents v (lfs w) ''attestation_key'' = None" using w(2) assms(3) by (simp add: calm_def)
  obtain w' where w': "attestation_write_key (env_lfs env) f0 key w = Some (64, w')"
    "att_provisioned v (key_device_mac w) (key_attestation_enc w) key (lfs w')"
    by (rule att_write_provisions [OF calmD(1) [OF w(2)] assms(4,2) none, of f0])
  have p: "att_provisioned v (device_key (device_get_bound_secret w0) ''device_mac'') (device_key (device_get_bound_secret w0) ''att_enc'') key (lfs w')"
    using w'(2) w(3) calmD(9) [OF w(2)] by simp
  have "\<exists>u'. crypto_derive_device_keys (attestation_read_key (env_lfs env) f0) u = Some u' \<and> attestation_available u'
            \<and> signing (crypto_ecc256_load_attestation_key u') = Attestation_Key key
            \<and> (\<forall>key'. length key' = 32 \<longrightarrow> (\<exists>u''. attestation_write_key (env_lfs env) f0 key' u' = Some (- 1, u'')
                 \<and> f_contents v (lfs u'') = f_contents v (lfs u)))"
    if u: "start_env env v u" "cdi u = cdi w0" "f_contents v (lfs u) ''attestation_key'' = f_contents v (lfs w') ''attestation_key''" for u
  proof -
    obtain d u' where k: "crypto_derive_device_keys (attestation_read_key (env_lfs env) f0) u = Some u'"
      "calm env v (keyed d u) u'"
      "\<And>key. att_provisioned v (key_device_mac (keyed d u)) (key_attestation_enc (keyed d u)) key (lfs u) \<Longrightarrow>
       attestation_available u' \<and> signing (crypto_ecc256_load_attestation_key u') = Attestation_Key key"
      by (rule start_keys [OF u(1), of f0]) (rule that, assumption, assumption, blast)
    have q: "att_provisioned v (key_device_mac (keyed d u)) (key_attestation_enc (keyed d u)) key (lfs u)"
      using p u(2,3) by (simp add: att_provisioned_def device_get_bound_secret_def)
    then obtain f where f: "f_contents v (lfs u') ''attestation_key'' = Some f" "f \<noteq> []"
      using k(2) att_key_bytes_facts(1) by (fastforce simp: att_provisioned_def calm_def)
    have "\<exists>u''. attestation_write_key (env_lfs env) f0 key' u' = Some (- 1, u'') \<and> f_contents v (lfs u'') = f_contents v (lfs u)"
      if "length key' = 32" for key'
      by (rule att_write_refused [OF calmD(1) [OF k(2)] that f, of f0]) (use k(2) in \<open>auto simp: calm_def\<close>)
    then show ?thesis using k(1) k(3) [OF q] by blast
  qed
  then show ?thesis using w(1) w'(1) by blast
qed

definition demo_start :: "(string \<rightharpoonup> bytes) \<Rightarrow> (string \<rightharpoonup> bytes, f_state) cpin" where
  "demo_start files = (demo_cpin demo_state)\<lparr>lfs := files, key_attest := att_key_of (replicate 64 0)\<rparr>"

lemma demo_start_env: "start_env demo_env (ram_view 100000) (demo_start files)"
  using demo_pin_env [of demo_state] att_key_of_sized [of "replicate 64 0"]
  by (simp add: start_env_def pin_env_def dev_ok_def crypto_ok_def rng_ok_def demo_start_def demo_cpin_def dev.defs demo_dev_def demo_rng_def
      demo_crypto_def crypto.defs rng.defs)

lemma attestation_provisioning_witness:
  "\<forall>f0. \<exists>w w'. crypto_derive_device_keys (attestation_read_key ram_lfs f0) (demo_start Map.empty) = Some w
    \<and> attestation_write_key ram_lfs f0 (replicate 32 7) w = Some (64, w')
    \<and> (\<exists>u'. crypto_derive_device_keys (attestation_read_key ram_lfs f0) (demo_start (lfs w')) = Some u' \<and> attestation_available u'
         \<and> signing (crypto_ecc256_load_attestation_key u') = Attestation_Key (replicate 32 7))"
proof
  fix f0
  have e: "env_lfs demo_env = ram_lfs" "f_contents (ram_view 100000) x = x" for x by (simp_all add: demo_env_def ram_view_def)
  have f: "lfs (demo_start x) = x" "cdi (demo_start x) = cdi (demo_start y)" for x y by (simp_all add: demo_start_def)
  show "\<exists>w w'. crypto_derive_device_keys (attestation_read_key ram_lfs f0) (demo_start Map.empty) = Some w
    \<and> attestation_write_key ram_lfs f0 (replicate 32 7) w = Some (64, w')
    \<and> (\<exists>u'. crypto_derive_device_keys (attestation_read_key ram_lfs f0) (demo_start (lfs w')) = Some u' \<and> attestation_available u'
         \<and> signing (crypto_ecc256_load_attestation_key u') = Attestation_Key (replicate 32 7))"
    using attestation_provisioning [OF demo_start_env [of Map.empty], of "replicate 32 7" f0] demo_start_env f
    by (force simp: e ram_view_def)
qed

section \<open>The start of the CTAP layer\<close>

lemma derive_session_keys:
  assumes "crypto_ok w" "salt \<noteq> []" "length salt \<le> 64"
  obtains c where "crypto_derive_session_keys salt w = Some (let prk = HMAC salt (take 32 (device_get_bound_secret w)) in
      w\<lparr>key_cred_priv := device_key prk ''cred_priv'', key_cred_mac := device_key prk ''cred_mac'',
        key_meta_enc := device_key prk ''meta_enc'', sha256_ctx := c, key_hmac_ext := device_key prk ''hmac_ext''\<rparr>)"
    "length (sha_data c) = 64"
proof -
  let ?prk = "HMAC salt (take 32 (device_get_bound_secret w))"
  have lp: "length ?prk \<le> 64" by simp
  obtain c0 where 0: "crypto_hkdf_extract_sha256 (Some salt) (take 32 (device_get_bound_secret w)) w
      = Some (?prk, w\<lparr>sha256_ctx := c0\<rparr>)" "length (sha_data c0) = 64"
    using hmac_stream [OF assms(1,3), of "[take 32 (device_get_bound_secret w)]"] assms(2)
    by (auto simp: crypto_hkdf_extract_sha256_def hash_frame_def)
  have step: "\<exists>d. derive_key ?prk l u = Some (device_key ?prk l, u\<lparr>sha256_ctx := d\<rparr>) \<and> length (sha_data d) = 64"
    if "crypto_ok u" for l and u :: "'a crypto_scheme"
    using derive_key_hkdf [OF that lp, of l] by (auto simp: hash_frame_def device_key_def)
  let ?u1 = "w\<lparr>sha256_ctx := c0\<rparr>"
  obtain c1 where 1: "derive_key ?prk ''cred_priv'' ?u1 = Some (device_key ?prk ''cred_priv'', ?u1\<lparr>sha256_ctx := c1\<rparr>)"
    "length (sha_data c1) = 64" using step [of ?u1] 0(2) by (fastforce simp: crypto_ok_def)
  let ?u2 = "w\<lparr>sha256_ctx := c1, key_cred_priv := device_key ?prk ''cred_priv''\<rparr>"
  obtain c2 where 2: "derive_key ?prk ''cred_mac'' ?u2 = Some (device_key ?prk ''cred_mac'', ?u2\<lparr>sha256_ctx := c2\<rparr>)"
    "length (sha_data c2) = 64" using step [of ?u2] 1(2) by (fastforce simp: crypto_ok_def)
  let ?u3 = "?u2\<lparr>sha256_ctx := c2, key_cred_mac := device_key ?prk ''cred_mac''\<rparr>"
  obtain c3 where 3: "derive_key ?prk ''meta_enc'' ?u3 = Some (device_key ?prk ''meta_enc'', ?u3\<lparr>sha256_ctx := c3\<rparr>)"
    "length (sha_data c3) = 64" using step [of ?u3] 2(2) by (fastforce simp: crypto_ok_def)
  let ?u4 = "?u3\<lparr>sha256_ctx := c3, key_meta_enc := device_key ?prk ''meta_enc''\<rparr>"
  obtain c4 where 4: "derive_key ?prk ''hmac_ext'' ?u4 = Some (device_key ?prk ''hmac_ext'', ?u4\<lparr>sha256_ctx := c4\<rparr>)"
    "length (sha_data c4) = 64" using step [of ?u4] 3(2) by (fastforce simp: crypto_ok_def)
  show ?thesis using that [OF _ 4(2)] 0(1) 1(1) 2(1) 3(1) 4(1) by (simp add: crypto_derive_session_keys_def Let_def)
qed

text \<open>Starting the PIN module: fresh key agreement keys, and no token in use.\<close>

lemma reset_token_unused:
  assumes "pin_inv env v w"
  obtains w' where "reset_pinUvAuthToken p w = Some (0, w')" "pin_inv env v w'" "same_hw w w'" "pin_view_of w' = pin_view_of w"
    "token_state (get_pin_protocol_state p w') = token_state_zero" "STATE w' = STATE w"
    "\<And>q. (q = 1) \<noteq> (p = 1) \<Longrightarrow> get_pin_protocol_state q w' = get_pin_protocol_state q w"
proof -
  obtain w' where w': "reset_pinUvAuthToken p w = Some (0, w')" "pin_inv env v w'" "same_hw w w'" "pin_view_of w' = pin_view_of w"
    by (rule reset_token_ok [OF assms])
  let ?w1 = "on_state p (\<lambda>_. token_state_zero) w"
  have e1: "pin_env env v ?w1" using pin_inv_env [OF assms] by simp
  have l: "length (token (get_pin_protocol_state p ?w1)) = 32"
    using pin_inv_token [OF assms, of p] by (simp add: token_shape_def on_state_def)
  obtain bs w2 where r: "ctap_generate_rng (token (get_pin_protocol_state p ?w1)) 32 ?w1
      = Some (1, bs @ drop 32 (token (get_pin_protocol_state p ?w1)), w2)" "calm env v ?w1 w2"
    by (rule rng_calm [OF e1, of 32 "token (get_pin_protocol_state p ?w1)"]) (use l in auto)
  have e: "w' = on_protocol p (\<lambda>t. t\<lparr>token := bs\<rparr>) w2"
    using w'(1) r(1) l by (simp add: reset_pinUvAuthToken_def pin_sizes)
  show ?thesis
    by (rule that [OF w'])
      (use calmD(3-5) [OF r(2)] in \<open>auto simp: e on_state_def get_pin_protocol_state_def on_protocol_def\<close>)
qed

lemma regenerate_starts:
  fixes env :: "('fs, 'f, 'd, ('fs, 'f, 'a) cpin_scheme) env" and w :: "('fs, 'f, 'a) cpin_scheme"
  assumes "pin_inv env v w"
  obtains (stays) "regenerate_key_agreement p w = None" "regenerate_loop p w = None"
  | (ends) w' where "regenerate_key_agreement p w = Some w'" "pin_inv env v w'" "same_hw w w'" "pin_view_of w' = pin_view_of w"
      "STATE w' = STATE w"
proof (cases "regenerate_key_agreement p w")
  case None
  then show ?thesis using stays by (cases "regenerate_loop p w") (simp_all add: regenerate_key_agreement_def)
next
  case (Some w')
  have l: "length (priv_of p w) = 32" using pin_inv_token [OF assms, of p] by (simp add: token_shape_def)
  obtain k w1 where k: "rekeyed env v p k w w1"
    "w' = on_protocol p (\<lambda>t. t\<lparr>key_agreement := (key_agreement t)\<lparr>pub_key_valid := False\<rparr>\<rparr>) w1"
    by (rule regenerate_rekeyed [OF Some pin_inv_env [OF assms] l])
  have "STATE w' = STATE w"
    using k calmD(3) [of env v "on_protocol p (set_priv k) w" w1] by (simp add: rekeyed_def on_protocol_def split: if_splits)
  then show ?thesis using ends [OF Some] regenerate_safely [OF assms, of p] Some by simp
qed

lemma client_pin_starts:
  fixes env :: "('fs, 'f, 'd, ('fs, 'f, 'a) cpin_scheme) env" and w :: "('fs, 'f, 'a) cpin_scheme"
  assumes "pin_inv env v w"
  shows "case ctap_client_pin_initialize w of None \<Rightarrow> \<exists>p (u :: ('fs, 'f, 'a) cpin_scheme). pin_inv env v u \<and> regenerate_loop p u = None
    | Some w' \<Rightarrow> pin_inv env v w' \<and> same_hw w w' \<and> pin_view_of w' = pin_view_of w \<and> STATE w' = STATE w
        \<and> (\<forall>p. token_state (get_pin_protocol_state p w') = token_state_zero)"
  using assms
proof (cases rule: regenerate_starts [where p = 1])
  case stays
  then show ?thesis using assms by (auto simp: ctap_client_pin_initialize_def)
next
  case (ends w1)
  note w1 = ends
  from w1(2) show ?thesis
  proof (cases rule: regenerate_starts [where p = 2])
    case stays
    then show ?thesis using w1 by (auto simp: ctap_client_pin_initialize_def)
  next
    case (ends w2)
    obtain w3 where w3: "reset_pinUvAuthToken 1 w2 = Some (0, w3)" "pin_inv env v w3" "same_hw w2 w3" "pin_view_of w3 = pin_view_of w2"
      "token_state (get_pin_protocol_state 1 w3) = token_state_zero" "STATE w3 = STATE w2"
      by (rule reset_token_unused [OF ends(2), of 1])
    obtain w4 where w4: "reset_pinUvAuthToken 2 w3 = Some (0, w4)" "pin_inv env v w4" "same_hw w3 w4" "pin_view_of w4 = pin_view_of w3"
      "token_state (get_pin_protocol_state 2 w4) = token_state_zero" "STATE w4 = STATE w3"
      "get_pin_protocol_state 1 w4 = get_pin_protocol_state 1 w3"
      by (rule reset_token_unused [OF w3(2), of 2]) auto
    have "token_state (get_pin_protocol_state p w4) = token_state_zero" for p
      using w3(5) w4(5,7) by (simp add: get_pin_protocol_state_def)
    moreover have "same_hw w w4" using w1(3) ends(3) w3(3) w4(3) same_hw_trans by blast
    ultimately show ?thesis using w1 ends w3 w4 by (simp add: ctap_client_pin_initialize_def)
  qed
qed

text \<open>The state between reading the state file and starting the PIN module.\<close>

definition restored ::
  "('fs, 'f, 'd, 'w) env \<Rightarrow> ('fs, 'f) lfs_view \<Rightarrow> bytes \<Rightarrow> u32 list \<Rightarrow> AuthenticatorState \<Rightarrow> ('fs, 'f, 'a) cpin_scheme \<Rightarrow> bool" where
  "restored env v K C s w \<longleftrightarrow> pin_env env v w \<and> STATE w = s \<and> key_device_mac w = K \<and> cdi w = C
     \<and> f_contents v (lfs w) ''state'' = Some (state_envelope K s) \<and> PIN_BOOT_ATTEMPTS_LEFT w = 3
     \<and> token_shape (pinUvAuthToken_p1 w) \<and> token_shape (pinUvAuthToken_p2 w)"

lemma pin_env_dev:
  assumes "pin_env env v w" "dev_frame w w'" "dev_ok (env_lfs env) v w'"
  shows "pin_env env v w'"
  using assms by (auto simp: pin_env_def dev_frame_def rng_ok_def)

lemma dev_frame_pin:
  assumes "dev_frame w w'"
  shows "PIN_BOOT_ATTEMPTS_LEFT w' = PIN_BOOT_ATTEMPTS_LEFT w" "pinUvAuthToken_p1 w' = pinUvAuthToken_p1 w"
    "pinUvAuthToken_p2 w' = pinUvAuthToken_p2 w"
  using assms by (auto simp: dev_frame_def)

lemma restored_read:
  assumes "start_env env v w" "state_ok (STATE w)" "state_ok s" "st_version s = STATE_VERSION"
    "f_contents v (lfs w) ''state'' = Some (state_envelope (device_key (device_get_bound_secret w) ''device_mac'') s)"
    "PIN_BOOT_ATTEMPTS_LEFT w = 3" "token_shape (pinUvAuthToken_p1 w)" "token_shape (pinUvAuthToken_p2 w)"
  obtains w1 w2 where "crypto_derive_device_keys (attestation_read_key (env_lfs env) f0) w = Some w1"
    "authenticator_read_state (env_lfs env) (STATE w1) w1 = Some (1, s, w2)"
    "restored env v (device_key (device_get_bound_secret w) ''device_mac'') (cdi w) s (w2\<lparr>STATE := s\<rparr>)"
    "f_contents v (lfs w2) = f_contents v (lfs w)"
proof -
  obtain c w1 where 1: "crypto_derive_device_keys (attestation_read_key (env_lfs env) f0) w = Some w1"
    "calm env v (keyed c w) w1" "cdi w1 = cdi w"
    by (rule start_keys [OF assms(1), of f0])
  note k = calmD [OF 1(2)]
  have d1: "dev_ok (env_lfs env) v w1" using k(1) by (simp add: pin_env_def)
  have "state_ok (STATE w1)" "f_contents v (lfs w1) ''state'' = Some (state_envelope (key_device_mac w1) s)"
    using k assms(2,5) by simp_all
  then obtain w2 where 2: "authenticator_read_state (env_lfs env) (STATE w1) w1 = Some (1, s, w2)" "dev_frame w1 w2"
    "dev_ok (env_lfs env) v w2" "f_contents v (lfs w2) = f_contents v (lfs w1)"
    using read_state_stored [OF d1 assms(3) _ assms(4)] by blast
  have "pin_env env v (w2\<lparr>STATE := s\<rparr>)" using pin_env_dev [OF k(1) 2(2,3)] by simp
  then have "restored env v (device_key (device_get_bound_secret w) ''device_mac'') (cdi w) s (w2\<lparr>STATE := s\<rparr>)"
    using dev_frame_pin [OF 2(2)] dev_frame_keys [OF 2(2)] dev_frame_fields [OF 2(2)] 2(4) k 1(3) assms(5-8)
    by (simp add: restored_def keyed_def)
  then show ?thesis using that 1(1) 2 k(7) by simp
qed

lemma restored_write:
  assumes "restored env v K C s w" "state_ok s'"
  obtains w' where "authenticator_write_state (env_lfs env) s' (w\<lparr>STATE := s'\<rparr>) = Some w'" "restored env v K C s' w'"
proof -
  have d: "dev_ok (env_lfs env) v (w\<lparr>STATE := s'\<rparr>)" "pin_env env v (w\<lparr>STATE := s'\<rparr>)"
    using assms(1) by (auto simp: restored_def pin_env_def dev_ok_def crypto_ok_def rng_ok_def)
  obtain w' where w': "authenticator_write_state (env_lfs env) s' (w\<lparr>STATE := s'\<rparr>) = Some w'" "dev_frame (w\<lparr>STATE := s'\<rparr>) w'"
    "dev_ok (env_lfs env) v w'"
    "f_contents v (lfs w') = (f_contents v (lfs (w\<lparr>STATE := s'\<rparr>)))(''state'' \<mapsto> state_envelope (key_device_mac (w\<lparr>STATE := s'\<rparr>)) s')"
    using write_state_stores [OF d(1) assms(2)] by blast
  show ?thesis
    using that [OF w'(1)] pin_env_dev [OF d(2) w'(2,3)] dev_frame_pin [OF w'(2)] dev_frame_keys [OF w'(2)] dev_frame_fields [OF w'(2)] w'(4) assms(1)
    by (simp add: restored_def)
qed

lemma idle_state [simp]: "STATE (device_set_status CTAPHID_STATUS_IDLE w) = STATE w"
  by (simp add: device_set_status_def)

lemma restored_session:
  assumes "restored env v K C s w" "state_ok s"
  obtains w' where "crypto_derive_session_keys (take STATE_KEY_SALT_BYTES (key_salt s)) (device_set_status CTAPHID_STATUS_IDLE w) = Some w'"
    "restored env v K C s w'" "key_cred_mac w' = device_key (HMAC (key_salt s) (take 32 (concat (map le32 C)))) ''cred_mac''"
proof -
  let ?u = "device_set_status CTAPHID_STATUS_IDLE w"
  have u: "?u = w\<lparr>device_status := CTAPHID_STATUS_IDLE\<rparr>" by (simp add: device_set_status_def)
  have "length (key_salt s) = 64" using assms(2) by (simp add: state_ok_def)
  then have salt: "take STATE_KEY_SALT_BYTES (key_salt s) = key_salt s" "key_salt s \<noteq> []" "length (key_salt s) \<le> 64"
    by (auto simp: STATE_KEY_SALT_BYTES_def)
  have ok: "crypto_ok ?u" using assms(1) by (auto simp: u restored_def pin_env_def dev_ok_def crypto_ok_def)
  show ?thesis
    by (rule derive_session_keys [OF ok salt(2,3)])
      (rule that, use assms(1) salt(1) in \<open>auto simp: u restored_def pin_env_def dev_ok_def crypto_ok_def rng_ok_def Let_def device_get_bound_secret_def\<close>)
qed


definition demo_board :: "(string \<rightharpoonup> bytes, f_state, unit, (string \<rightharpoonup> bytes, f_state) cpin) board" where
  "demo_board = \<lparr>b_env = demo_env, b_touch_bit = 0, b_file0 = \<lparr>f_name = [], f_append = False, f_data = [], f_pos = 0\<rparr>\<rparr>"


end
