(* ===== verification/App_Loop.thy ===== *)
theory App_Loop
  imports Ctap_Request Fifo
begin

text \<open>
  \<open>targets/tkey/src/main.c\<close> and \<open>init.c\<close>, with \<open>device_init\<close> and \<open>usbhid_recv\<close> of \<open>device.c\<close>: start-up, the frames on
  the serial endpoint, and the loop that feeds HID reports to the CTAPHID layer.

  The queue of reports (the file-level variables of \<open>fifo.c\<close>), the endpoints and the registers that only this code writes
  are kept beside the memory of the authenticator: the layers below do not reach them. The functions of tkey-libs are
  the record \<open>tkey_lib\<close>; they act on the state \<open>'io\<close> of the endpoints and \<open>None\<close> is not returning. Output
  parameters that a library function may leave alone are passed in. Reports that are sent to the host are the list
  \<open>usb_out\<close> of the memory, as everywhere below.
\<close>

section \<open>The platform library\<close>

datatype ioend = IO_CDC | IO_FIDO | IO_other nat

record frame_header =
  hdr_id :: byte
  f_domain :: byte
  hdr_len :: nat

record reset_t =
  rst_type :: u32
  next_app_data :: bytes

text \<open>\<open>io_readselect\<close> and \<open>io_read\<close> take the values of their output parameters before the call.\<close>

record 'io tkey_lib =
  DST_FW :: byte
  DST_SW :: byte
  FRAME_STATUS_NOK :: byte
  CMDLEN_MAXBYTES :: nat
  START_FLASH0 :: u32
  NEXT_APP_DATA_SIZE :: nat
  TIMER_CTRL_START_BIT :: nat
  TK1_RAM_BASE :: u32
  TK1_RAM_SIZE :: u32
  app_addr :: u32
  app_size :: u32
  io_config :: "ioend list \<Rightarrow> 'io \<Rightarrow> 'io"
  io_readselect :: "ioend list \<Rightarrow> bool \<Rightarrow> ioend \<Rightarrow> byte \<Rightarrow> 'io \<Rightarrow> (int \<times> ioend \<times> byte \<times> 'io) option"
  io_read :: "ioend \<Rightarrow> nat \<Rightarrow> nat \<Rightarrow> 'io \<Rightarrow> (int \<times> bytes \<times> 'io) option"
  io_discard :: "ioend \<Rightarrow> nat \<Rightarrow> 'io \<Rightarrow> 'io"
  io_write :: "ioend \<Rightarrow> bytes \<Rightarrow> 'io \<Rightarrow> 'io"
  frame_parse_hdr :: "byte \<Rightarrow> frame_header \<Rightarrow> int \<times> frame_header"
  frame_gen_hdr :: "byte \<Rightarrow> byte \<Rightarrow> byte \<Rightarrow> nat \<Rightarrow> byte"
  sys_reset :: "reset_t \<Rightarrow> nat \<Rightarrow> 'io \<Rightarrow> 'io option"

text \<open>The memory of the authenticator, the queue, the endpoints, the variables of \<open>main\<close>, and a byte of the stack that
  is read before it is written when the library delivers nothing.\<close>

record ('w, 'io) main_state =
  mem :: 'w
  hid_fifo :: fifo
  io :: 'io
  hidmsg :: bytes
  main_data :: bytes
  ep_avail :: "ioend \<times> byte"
  main_stack :: byte
  timer_prescaler :: u32
  timer_start :: u32
  timer_ctrl :: u32
  cpu_mon_first :: u32
  cpu_mon_last :: u32
  cpu_mon_ctrl :: u32

definition HID_PACKET_SIZE :: nat where "HID_PACKET_SIZE = 64"
definition CMD_RESET :: byte where "CMD_RESET = 0xFE"
definition FLASH_ERROR_DELAY_MS :: u32 where "FLASH_ERROR_DELAY_MS = 500"
definition CPUFREQ :: u32 where "CPUFREQ = 24000000"

section \<open>Frames on the serial endpoint\<close>

definition appreply_nok :: "'io tkey_lib \<Rightarrow> frame_header \<Rightarrow> 'io \<Rightarrow> 'io" where
  "appreply_nok lib hdr x =
     io_write lib IO_CDC [frame_gen_hdr lib (hdr_id hdr) (f_domain hdr) (FRAME_STATUS_NOK lib) 1, 0] x"

text \<open>The library resets the device; the caller asserts that this does not return.\<close>

definition reset_app :: "'io tkey_lib \<Rightarrow> u32 \<Rightarrow> bytes \<Rightarrow> nat \<Rightarrow> 'io \<Rightarrow> 'io option" where
  "reset_app lib typ data len x =
     sys_reset lib \<lparr>rst_type = typ, next_app_data = blit (replicate (NEXT_APP_DATA_SIZE lib) 0) 0 (take len data)\<rparr> len x"

text \<open>The loop that collects the bytes of a frame: \<open>n\<close> is a byte in the code. The result is the return value of an
  early return, or the buffer.\<close>

partial_function (option) cdc_collect ::
  "'io tkey_lib \<Rightarrow> nat \<Rightarrow> nat \<Rightarrow> bytes \<Rightarrow> ioend \<Rightarrow> byte \<Rightarrow> 'io
     \<Rightarrow> ((int + bytes) \<times> ioend \<times> byte \<times> 'io) option" where
  "cdc_collect lib len n buf ep available x =
     (if n < len
      then Option.bind (io_readselect lib [IO_CDC] False ep available x) (\<lambda>(ret, ep, available, x).
        if ret < 0 then Some (Inl (- 1), ep, available, x)
        else
          let available = (if unat available > len - n then of_nat len - of_nat n else available)
          in Option.bind (io_read lib IO_CDC (CMDLEN_MAXBYTES lib - n) (unat available) x) (\<lambda>(nbytes, bs, x).
            if nbytes < 0 then Some (Inl (- 1), ep, available, x)
            else cdc_collect lib len ((n + nat nbytes) mod 256) (blit buf n bs) ep available x))
      else Some (Inr buf, ep, available, x))"

declare cdc_collect.simps [code]

definition cdc_handle_frame ::
  "'io tkey_lib \<Rightarrow> byte \<Rightarrow> ioend \<Rightarrow> byte \<Rightarrow> 'io \<Rightarrow> (int \<times> ioend \<times> byte \<times> 'io) option" where
  "cdc_handle_frame lib c0 ep available x = do {
     (_, bs, x) \<leftarrow> io_read lib IO_CDC 1 1 x;
     let c = (case bs of [] \<Rightarrow> c0 | b # _ \<Rightarrow> b);
     let (perr, hdr) = frame_parse_hdr lib c \<lparr>hdr_id = 0, f_domain = 0, hdr_len = 0\<rparr>;
     (_, ep, available, x) \<leftarrow> io_readselect lib [IO_CDC] True ep available x;
     if perr \<noteq> 0 then Some (- 1, ep, available, x)
     else if f_domain hdr = DST_FW lib then Some (- 1, ep, available, appreply_nok lib hdr x)
     else if f_domain hdr \<noteq> DST_SW lib then Some (- 1, ep, available, x)
     else do {
       (r, ep, available, x) \<leftarrow> cdc_collect lib (hdr_len hdr) 0 (replicate (CMDLEN_MAXBYTES lib) 0) ep available x;
       case r of
         Inl ret \<Rightarrow> Some (ret, ep, available, x)
       | Inr buf \<Rightarrow>
           if buf ! 0 = CMD_RESET
           then if hdr_len hdr \<noteq> 128 then Some (- 1, ep, available, x)
                else do { _ \<leftarrow> reset_app lib (ucast (buf ! 1)) (drop 2 buf) (hdr_len hdr - 2) x; None }
           else Some (0, ep, available, appreply_nok lib hdr x) } }"

section \<open>Start\<close>

definition init_millisecond_timer :: "'io tkey_lib \<Rightarrow> ('w, 'io) main_state \<Rightarrow> ('w, 'io) main_state" where
  "init_millisecond_timer lib m =
     m\<lparr>timer_prescaler := CPUFREQ div 1000, timer_start := TIMER_MAX, timer_ctrl := push_bit (TIMER_CTRL_START_BIT lib) 1\<rparr>"

definition init_usb :: "'io tkey_lib \<Rightarrow> ('w, 'io) main_state \<Rightarrow> ('w, 'io) main_state" where
  "init_usb lib m = m\<lparr>io := io_config lib [IO_CDC, IO_FIDO] (io m)\<rparr>"

definition hw_init ::
  "'io tkey_lib \<Rightarrow> ('a rng_scheme, 'io) main_state \<Rightarrow> ('a rng_scheme, 'io) main_state option" where
  "hw_init lib m = do {
     let m = init_usb lib (init_millisecond_timer lib m);
     w \<leftarrow> rng_init (mem m);
     Some (m\<lparr>mem := w\<rparr>) }"

definition device_init ::
  "('fs, 'f, 'd, ('fs, 'f, 'a) cpin_scheme) board \<Rightarrow> 'io tkey_lib \<Rightarrow> (('fs, 'f, 'a) cpin_scheme, 'io) main_state
     \<Rightarrow> (byte \<times> (('fs, 'f, 'a) cpin_scheme, 'io) main_state) option" where
  "device_init b lib m = do {
     m \<leftarrow> hw_init lib m;
     let (err, w) = fs_init (b_lfs b) (ctaphid_init (mem m));
     if err \<noteq> 0 then Some (2, m\<lparr>mem := w\<rparr>)
     else do {
       (r, w) \<leftarrow> ctap_init b w;
       if r < 0 then Some (3, m\<lparr>mem := w\<rparr>)
       else let (err, w) = fs_create_dir (b_lfs b) ''rk'' w
            in Some (if err \<noteq> 0 then 2 else 0, m\<lparr>mem := w\<rparr>) } }"

fun flash_error :: "nat \<Rightarrow> 'a hw_scheme \<Rightarrow> 'a hw_scheme option" where
  "flash_error 0 w = Some w"
| "flash_error (Suc n) w = do {
     w \<leftarrow> delay FLASH_ERROR_DELAY_MS (led_set LED_RED w);
     w \<leftarrow> delay FLASH_ERROR_DELAY_MS (led_set LED_BLACK w);
     flash_error n w }"

definition error_signal_and_exit_app ::
  "'io tkey_lib \<Rightarrow> byte \<Rightarrow> ('a hw_scheme, 'io) main_state \<Rightarrow> ('a hw_scheme, 'io) main_state option" where
  "error_signal_and_exit_app lib err m = do {
     w \<leftarrow> flash_error (unat err) (mem m);
     w \<leftarrow> delay 200 w;
     x \<leftarrow> reset_app lib (START_FLASH0 lib) [1] 1 (io m);
     Some (m\<lparr>mem := w, io := x\<rparr>) }"

definition main_start ::
  "('fs, 'f, 'd, ('fs, 'f, 'a) cpin_scheme) board \<Rightarrow> 'io tkey_lib \<Rightarrow> (('fs, 'f, 'a) cpin_scheme, 'io) main_state
     \<Rightarrow> (('fs, 'f, 'a) cpin_scheme, 'io) main_state option" where
  "main_start b lib m = do {
     let m = m\<lparr>cpu_mon_first := app_addr lib + app_size lib, cpu_mon_last := TK1_RAM_BASE lib + TK1_RAM_SIZE lib, cpu_mon_ctrl := 1,
       mem := led_set LED_BLACK (mem m)\<rparr>;
     (err, m) \<leftarrow> device_init b lib m;
     m \<leftarrow> (if err \<noteq> 0 then error_signal_and_exit_app lib err m else Some m);
     Some (m\<lparr>hidmsg := replicate HID_PACKET_SIZE 0\<rparr>) }"

section \<open>The loop\<close>

definition usbhid_recv :: "bytes \<Rightarrow> fifo \<Rightarrow> int \<times> bytes \<times> fifo" where
  "usbhid_recv msg f =
     (if fifo_hidmsg_size f \<noteq> 0
      then let (_, bs, f) = fifo_hidmsg_take f in (int HID_PACKET_SIZE, blit msg 0 bs, f)
      else (0, msg, f))"

text \<open>The end of a round: a report from the queue, then the timeouts.\<close>

definition round_end ::
  "'a ctaphid_scheme hid_app \<Rightarrow> ('a ctaphid_scheme, 'io) main_state \<Rightarrow> ('a ctaphid_scheme, 'io) main_state option" where
  "round_end app m = do {
     let (n, msg, f) = usbhid_recv (hidmsg m) (hid_fifo m);
     let m = m\<lparr>hid_fifo := f, hidmsg := msg\<rparr>;
     m \<leftarrow> (if n > 0
           then do { (_, w) \<leftarrow> ctaphid_handle_packet app (hidmsg m) (mem m);
                     Some (m\<lparr>mem := w, hidmsg := replicate HID_PACKET_SIZE 0\<rparr>) }
           else Some m);
     w \<leftarrow> ctaphid_check_timeouts (mem m);
     Some (m\<lparr>mem := w\<rparr>) }"

text \<open>A report that is waiting on the endpoint: it is queued. The result tells whether the round goes on.\<close>

definition take_report :: "'io tkey_lib \<Rightarrow> byte \<Rightarrow> ('w, 'io) main_state \<Rightarrow> (bool \<times> ('w, 'io) main_state) option" where
  "take_report lib available m =
     (if unat available \<noteq> HID_PACKET_SIZE
      then Some (False, m\<lparr>io := io_discard lib IO_FIDO (unat available) (io m)\<rparr>)
      else do {
        (n, bs, x) \<leftarrow> io_read lib IO_FIDO HID_PACKET_SIZE (unat available) (io m);
        let m = m\<lparr>io := x, main_data := blit (main_data m) 0 bs\<rparr>;
        if n \<noteq> int HID_PACKET_SIZE then None
        else let (err, f) = fifo_hidmsg_add (main_data m) (hid_fifo m)
             in if err \<noteq> 0 then None else Some (True, m\<lparr>hid_fifo := f\<rparr>) })"

definition main_round ::
  "'io tkey_lib \<Rightarrow> 'a ctaphid_scheme hid_app \<Rightarrow> ('a ctaphid_scheme, 'io) main_state \<Rightarrow> ('a ctaphid_scheme, 'io) main_state option" where
  "main_round lib app m = do {
     (ret, ep, available, x) \<leftarrow> io_readselect lib [IO_CDC, IO_FIDO] True (fst (ep_avail m)) (snd (ep_avail m)) (io m);
     let m = m\<lparr>io := x, ep_avail := (ep, available)\<rparr>;
     if ret \<noteq> 0 then None
     else if available = 0 then Some m
     else do {
       (ret, ep, available, x) \<leftarrow> (if ep = IO_CDC then cdc_handle_frame lib (main_stack m) ep available (io m)
                                else Some (0, ep, available, io m));
       let m = m\<lparr>io := x, ep_avail := (ep, available)\<rparr>;
       if ret < 0 then Some (m\<lparr>io := io_discard lib IO_CDC (unat available) (io m)\<rparr>)
       else do {
         (go_on, m) \<leftarrow> (if ep = IO_FIDO then take_report lib available m else Some (True, m));
         if go_on then round_end app m else Some m } } }"

text \<open>The loop does not end; \<open>main_rounds n\<close> is its first \<open>n\<close> rounds.\<close>

fun main_rounds ::
  "nat \<Rightarrow> 'io tkey_lib \<Rightarrow> 'a ctaphid_scheme hid_app \<Rightarrow> ('a ctaphid_scheme, 'io) main_state \<Rightarrow> ('a ctaphid_scheme, 'io) main_state option" where
  "main_rounds 0 lib app m = Some m"
| "main_rounds (Suc n) lib app m = do { m \<leftarrow> main_round lib app m; main_rounds n lib app m }"

text \<open>The first \<open>n\<close> rounds of the program.\<close>

definition main_prog ::
  "nat \<Rightarrow> ('fs, 'f, 'd, ('fs, 'f, 'a) ctap_scheme) board \<Rightarrow> 'io tkey_lib \<Rightarrow> (('fs, 'f, 'a) ctap_scheme, 'io) main_state
     \<Rightarrow> (('fs, 'f, 'a) ctap_scheme, 'io) main_state option" where
  "main_prog n b lib m = do { m \<leftarrow> main_start b lib m; main_rounds n lib (fido_app b) m }"

end
