(* ===== verification/App_Laws.thy ===== *)
theory App_Laws
  imports App_Loop Ctaphid_Safety
begin

text \<open>
  The main loop refines the transport: whatever the endpoint delivers, the memory of the authenticator sees exactly the
  complete reports, in order, each handled and followed by a check of the timeouts in the round in which it arrives. The queue is empty
  between rounds, so the assertion on a full queue never fires. Frames on the serial endpoint are read to their end and answered.
\<close>

section \<open>What the endpoint delivers\<close>

datatype usb_event = Quiet | Report bytes | Runt byte

definition fido_laws :: "'io tkey_lib \<Rightarrow> ('io \<Rightarrow> usb_event list) \<Rightarrow> bool" where
  "fido_laws lib ins \<longleftrightarrow> (\<forall>x ep a. case ins x of
       [] \<Rightarrow> True
     | Quiet # es \<Rightarrow> \<exists>ep' x'. io_readselect lib [IO_CDC, IO_FIDO] True ep a x = Some (0, ep', 0, x') \<and> ins x' = es
     | Report r # es \<Rightarrow> \<exists>x1 x2. io_readselect lib [IO_CDC, IO_FIDO] True ep a x = Some (0, IO_FIDO, 64, x1)
         \<and> io_read lib IO_FIDO 64 64 x1 = Some (64, r, x2) \<and> ins x2 = es
     | Runt k # es \<Rightarrow> \<exists>x1. io_readselect lib [IO_CDC, IO_FIDO] True ep a x = Some (0, IO_FIDO, k, x1)
         \<and> ins (io_discard lib IO_FIDO (unat k) x1) = es)"

fun event_ok :: "usb_event \<Rightarrow> bool" where
  "event_ok Quiet = True"
| "event_ok (Report r) = (length r = 64)"
| "event_ok (Runt k) = (k \<noteq> 0 \<and> k \<noteq> 64)"

fun reports_of :: "usb_event list \<Rightarrow> bytes list" where
  "reports_of [] = []"
| "reports_of (Report r # es) = r # reports_of es"
| "reports_of (_ # es) = reports_of es"

text \<open>The abstract machine: reports are handled one after the other.\<close>

fun handle_reports :: "'a ctaphid_scheme hid_app \<Rightarrow> bytes list \<Rightarrow> 'a ctaphid_scheme \<Rightarrow> 'a ctaphid_scheme option" where
  "handle_reports app [] w = Some w"
| "handle_reports app (r # rs) w = do {
     (_, w) \<leftarrow> ctaphid_handle_packet app r w;
     w \<leftarrow> ctaphid_check_timeouts w;
     handle_reports app rs w }"

text \<open>Between rounds the queue is empty and the buffers have their size.\<close>

definition loop_inv :: "('w, 'io) main_state \<Rightarrow> bool" where
  "loop_inv m \<longleftrightarrow> fifo_inv (hid_fifo m) \<and> fifo_msgs (hid_fifo m) = [] \<and> length (hidmsg m) = 64 \<and> length (main_data m) = 64"

lemma queue_passes:
  assumes "fifo_inv f" "fifo_msgs f = []" "length r = 64"
  obtains f1 f2 where "fifo_hidmsg_add r f = (0, f1)" "fifo_hidmsg_size f1 \<noteq> 0" "fifo_hidmsg_take f1 = (0, r, f2)"
    "fifo_inv f2" "fifo_msgs f2 = []"
proof -
  obtain f1 where 1: "fifo_hidmsg_add r f = (0, f1)" "fifo_msgs f1 = [r]" "fifo_inv f1"
    using fifo_add_room [OF assms(1), of r] assms(2,3) length_fifo_msgs [of f]
    by (cases "fifo_hidmsg_add r f") (simp add: hid_report_def)
  obtain f2 where 2: "fifo_hidmsg_take f1 = (0, r, f2)" "fifo_inv f2" "fifo_msgs f2 = []"
    using fifo_take_some [OF 1(3,2)] by (cases "fifo_hidmsg_take f1") simp
  have "fifo_hidmsg_size f1 \<noteq> 0" using length_fifo_msgs [of f1] 1(2) by (auto simp: fifo_hidmsg_size_def)
  then show ?thesis using that 1(1) 2 by blast
qed

section \<open>One round\<close>

lemma round_quiet:
  assumes "io_readselect lib [IO_CDC, IO_FIDO] True (fst (ep_avail m)) (snd (ep_avail m)) (io m) = Some (0, ep, 0, x)"
  shows "main_round lib app m = Some (m\<lparr>io := x, ep_avail := (ep, 0)\<rparr>)"
  using assms by (simp add: main_round_def)

lemma round_runt:
  assumes "io_readselect lib [IO_CDC, IO_FIDO] True (fst (ep_avail m)) (snd (ep_avail m)) (io m) = Some (0, IO_FIDO, k, x)"
    "k \<noteq> 0" "k \<noteq> 64"
  shows "main_round lib app m = Some (m\<lparr>ep_avail := (IO_FIDO, k), io := io_discard lib IO_FIDO (unat k) x\<rparr>)"
proof -
  have "unat k \<noteq> 64" using assms(3) word_unat_eq_iff [of k 64] by simp
  then show ?thesis using assms(1,2) by (simp add: main_round_def take_report_def HID_PACKET_SIZE_def)
qed

lemma round_report:
  assumes "io_readselect lib [IO_CDC, IO_FIDO] True (fst (ep_avail m)) (snd (ep_avail m)) (io m) = Some (0, IO_FIDO, 64, x1)"
    "io_read lib IO_FIDO 64 64 x1 = Some (64, r, x2)" "length r = 64" "loop_inv m"
  obtains f where "main_round lib app m = do {
      (_, w) \<leftarrow> ctaphid_handle_packet app r (mem m);
      w \<leftarrow> ctaphid_check_timeouts w;
      Some (m\<lparr>ep_avail := (IO_FIDO, 64), io := x2, main_data := r, hid_fifo := f, hidmsg := replicate 64 0, mem := w\<rparr>) }"
    "fifo_inv f" "fifo_msgs f = []"
proof -
  obtain f1 f2 where f: "fifo_hidmsg_add r (hid_fifo m) = (0, f1)" "fifo_hidmsg_size f1 \<noteq> 0" "fifo_hidmsg_take f1 = (0, r, f2)"
    "fifo_inv f2" "fifo_msgs f2 = []"
    using queue_passes [of "hid_fifo m" r] assms(3,4) unfolding loop_inv_def by blast
  have b: "blit (main_data m) 0 r = r" "blit (hidmsg m) 0 r = r" using assms(3,4) by (simp_all add: blit_def loop_inv_def)
  have "main_round lib app m = do {
      (_, w) \<leftarrow> ctaphid_handle_packet app r (mem m);
      w \<leftarrow> ctaphid_check_timeouts w;
      Some (m\<lparr>ep_avail := (IO_FIDO, 64), io := x2, main_data := r, hid_fifo := f2, hidmsg := replicate 64 0, mem := w\<rparr>) }"
    using assms(1,2) f(1-3) b
    by (simp add: main_round_def take_report_def round_end_def usbhid_recv_def HID_PACKET_SIZE_def Let_def)
      (cases "ctaphid_handle_packet app r (mem m)"; simp add: case_prod_unfold)
  then show ?thesis using that f(4,5) by blast
qed

section \<open>The loop\<close>

lemma rounds_refine:
  assumes "fido_laws lib ins" "list_all event_ok evs" "loop_inv m" "ins (io m) = evs @ rest"
  shows "case main_rounds (length evs) lib app m of
      None \<Rightarrow> handle_reports app (reports_of evs) (mem m) = None
    | Some m' \<Rightarrow> handle_reports app (reports_of evs) (mem m) = Some (mem m') \<and> loop_inv m' \<and> ins (io m') = rest"
  using assms(2-4)
proof (induction evs arbitrary: m)
  case (Cons e evs)
  let ?ra = "io_readselect lib [IO_CDC, IO_FIDO] True (fst (ep_avail m)) (snd (ep_avail m)) (io m)"
  note law = assms(1) [unfolded fido_laws_def, rule_format, where x = "io m" and ep = "fst (ep_avail m)" and a = "snd (ep_avail m)"]
  show ?case
  proof (cases e)
    case Quiet
    then obtain ep x where x: "?ra = Some (0, ep, 0, x)" "ins x = evs @ rest" using law Cons.prems(3) by auto
    then show ?thesis
      using Cons.IH [of "m\<lparr>io := x, ep_avail := (ep, 0)\<rparr>"] Cons.prems Quiet by (simp add: round_quiet loop_inv_def split: option.splits)
  next
    case (Runt k)
    then obtain x where x: "?ra = Some (0, IO_FIDO, k, x)" "ins (io_discard lib IO_FIDO (unat k) x) = evs @ rest" using law Cons.prems(3) by auto
    then show ?thesis
      using Cons.IH [of "m\<lparr>ep_avail := (IO_FIDO, k), io := io_discard lib IO_FIDO (unat k) x\<rparr>"] Cons.prems Runt
      by (simp add: round_runt loop_inv_def split: option.splits)
  next
    case (Report r)
    then obtain x1 x2 where x: "?ra = Some (0, IO_FIDO, 64, x1)" "io_read lib IO_FIDO 64 64 x1 = Some (64, r, x2)" "ins x2 = evs @ rest"
      using law Cons.prems(3) by auto
    have l: "length r = 64" using Report Cons.prems(1) by simp
    obtain f where f: "main_round lib app m = do {
      (_, w) \<leftarrow> ctaphid_handle_packet app r (mem m);
      w \<leftarrow> ctaphid_check_timeouts w;
      Some (m\<lparr>ep_avail := (IO_FIDO, 64), io := x2, main_data := r, hid_fifo := f, hidmsg := replicate 64 0, mem := w\<rparr>) }"
      "fifo_inv f" "fifo_msgs f = []" by (rule round_report [OF x(1,2) l Cons.prems(2)])
    show ?thesis
    proof (cases "ctaphid_handle_packet app r (mem m)")
      case None
      then show ?thesis using Report f(1) by simp
    next
      case (Some p)
      then obtain c w1 where p: "ctaphid_handle_packet app r (mem m) = Some (c, w1)" by (cases p) simp
      show ?thesis
      proof (cases "ctaphid_check_timeouts w1")
        case None
        then show ?thesis using Report f(1) p by simp
      next
        case (Some w2)
        let ?m = "m\<lparr>ep_avail := (IO_FIDO, 64), io := x2, main_data := r, hid_fifo := f, hidmsg := replicate 64 0, mem := w2\<rparr>"
        have "loop_inv ?m" using f(2,3) l by (simp add: loop_inv_def)
        then show ?thesis using Cons.IH [of ?m] Cons.prems(1) Report f(1) p Some x(3) by (simp split: option.splits)
      qed
    qed
  qed
qed simp

lemma handle_reports_reachable:
  "hid_reachable app w \<Longrightarrow> list_all (\<lambda>r. length r = 64) rs \<Longrightarrow> handle_reports app rs w = Some w' \<Longrightarrow> hid_reachable app w'"
proof (induction rs arbitrary: w)
  case (Cons r rs)
  obtain c w1 w2 where s: "ctaphid_handle_packet app r w = Some (c, w1)" "ctaphid_check_timeouts w1 = Some w2" "handle_reports app rs w2 = Some w'"
    using Cons.prems(3) by (auto simp: Option.bind_eq_Some_conv)
  have "length r = 64" using Cons.prems(2) by simp
  then have "hid_reachable app w2" using hid_reachable.timeouts [OF hid_reachable.packet [OF Cons.prems(1) _ s(1)] s(2)] by blast
  then show ?case using Cons.IH Cons.prems(2) s(3) by simp
qed simp

lemma reports_of_ok: "list_all event_ok evs \<Longrightarrow> list_all (\<lambda>r. length r = 64) (reports_of evs)"
  by (induction evs rule: reports_of.induct) auto


text \<open>A platform whose endpoint delivers a given list of events, and a serial line that delivers a given list of bytes.\<close>

definition script_lib :: "(usb_event list \<times> bytes) tkey_lib" where
  "script_lib = \<lparr>DST_FW = 2, DST_SW = 3, FRAME_STATUS_NOK = 1, CMDLEN_MAXBYTES = 128, START_FLASH0 = 1, NEXT_APP_DATA_SIZE = 220,
     TIMER_CTRL_START_BIT = 0, TK1_RAM_BASE = 0, TK1_RAM_SIZE = 0, app_addr = 0, app_size = 0, io_config = (\<lambda>_ x. x),
     io_readselect = (\<lambda>eps nb ep a (es, bs).
       if eps = [IO_CDC] then Some (0, IO_CDC, of_nat (min 7 (length bs)), es, bs)
       else case es of Quiet # es \<Rightarrow> Some (0, ep, 0, es, bs) | Report r # _ \<Rightarrow> Some (0, IO_FIDO, 64, es, bs)
         | Runt k # _ \<Rightarrow> Some (0, IO_FIDO, k, es, bs) | [] \<Rightarrow> None),
     io_read = (\<lambda>e size n (es, bs).
       if e = IO_CDC then Some (int (min n (length bs)), take n bs, es, drop n bs)
       else case es of Report r # es \<Rightarrow> Some (int n, r, es, bs) | _ \<Rightarrow> None),
     io_discard = (\<lambda>e n (es, bs). (tl es, bs)), io_write = (\<lambda>_ _ x. x),
     frame_parse_hdr = (\<lambda>c hdr. (0, \<lparr>hdr_id = 0, f_domain = c, hdr_len = 32\<rparr>)), frame_gen_hdr = (\<lambda>a b c n. a),
     sys_reset = (\<lambda>_ _ _. None)\<rparr>"

definition demo_main :: "'w \<Rightarrow> usb_event list \<Rightarrow> ('w, usb_event list \<times> bytes) main_state" where
  "demo_main w es = \<lparr>mem = w, hid_fifo = fifo_init, io = (es, []), hidmsg = replicate 64 0, main_data = replicate 64 0,
     ep_avail = (IO_other 0, 0), main_stack = 0, timer_prescaler = 0, timer_start = 0, timer_ctrl = 0, cpu_mon_first = 0,
     cpu_mon_last = 0, cpu_mon_ctrl = 0\<rparr>"

lemma script_fido: "fido_laws script_lib fst"
  by (simp add: fido_laws_def script_lib_def split: list.splits usb_event.splits)


section \<open>Frames on the serial endpoint\<close>

text \<open>\<open>pending\<close> is what the host has still to deliver, \<open>ready\<close> how much of it the last poll announced. A blocking poll
  returns once there is something, and a read delivers what was announced.\<close>

definition cdc_laws :: "'io tkey_lib \<Rightarrow> ('io \<Rightarrow> bytes) \<Rightarrow> ('io \<Rightarrow> nat) \<Rightarrow> bool" where
  "cdc_laws lib pending ready \<longleftrightarrow> CMDLEN_MAXBYTES lib = 128
     \<and> (\<forall>x ep a. pending x \<noteq> [] \<longrightarrow> (\<exists>k x'. io_readselect lib [IO_CDC] False ep a x = Some (0, IO_CDC, k, x')
          \<and> 0 < unat k \<and> unat k \<le> ready x' \<and> pending x' = pending x))
     \<and> (\<forall>x ep a. \<exists>r ep' k x'. io_readselect lib [IO_CDC] True ep a x = Some (r, ep', k, x') \<and> pending x' = pending x)
     \<and> (\<forall>x size n. n \<le> size \<and> n \<le> ready x \<longrightarrow>
          (\<exists>x'. io_read lib IO_CDC size n x = Some (int n, take n (pending x), x') \<and> pending x' = drop n (pending x)))
     \<and> (\<forall>x. ready x \<le> length (pending x))"

lemma blit_blit: "n + length a \<le> length buf \<Longrightarrow> blit (blit buf n a) (n + length a) b = blit buf n (a @ b)"
  by (simp add: blit_def add_ac)

lemma cdc_collect_reads:
  assumes "cdc_laws lib pending ready" "len \<le> 128"
  shows "n \<le> len \<Longrightarrow> len - n \<le> length (pending x) \<Longrightarrow> length buf = 128 \<Longrightarrow>
    \<exists>ep' a' x'. cdc_collect lib len n buf ep a x = Some (Inr (blit buf n (take (len - n) (pending x))), ep', a', x')
      \<and> pending x' = drop (len - n) (pending x)"
proof (induction "len - n" arbitrary: n buf ep a x rule: less_induct)
  case less
  show ?case
  proof (cases "n < len")
    case False
    then show ?thesis using less.prems by (subst cdc_collect.simps) (simp add: blit_def)
  next
    case True
    then have "pending x \<noteq> []" using less.prems(2) by auto
    then obtain k x1 where k: "io_readselect lib [IO_CDC] False ep a x = Some (0, IO_CDC, k, x1)" "0 < unat k" "unat k \<le> ready x1"
      "pending x1 = pending x" using assms(1) unfolding cdc_laws_def by blast
    have mx: "CMDLEN_MAXBYTES lib = 128" using assms(1) by (simp add: cdc_laws_def)
    define c where "c = (if unat k > len - n then of_nat len - of_nat n else k)"
    have c: "unat c = min (unat k) (len - n)"
    proof -
      have "unat (of_nat len - of_nat n :: byte) = len - n"
        using True assms(2) by (simp add: unat_sub word_le_nat_alt unat_of_nat)
      then show ?thesis by (simp add: c_def)
    qed
    have sum: "unat c + (len - (n + unat c)) = len - n" using c by auto
    have "unat c \<le> 128 - n" "unat c \<le> ready x1" using c k(3) assms(2) by auto
    then obtain x2 where r: "io_read lib IO_CDC (128 - n) (unat c) x1 = Some (int (unat c), take (unat c) (pending x1), x2)"
      "pending x2 = drop (unat c) (pending x1)" using assms(1) unfolding cdc_laws_def by blast
    have m: "(n + unat c) mod 256 = n + unat c" using c assms(2) True by simp
    let ?b = "blit buf n (take (unat c) (pending x))"
    have len: "length (take (unat c) (pending x)) = unat c" using c less.prems(2) by auto
    have lb: "length ?b = 128" using len c assms(2) less.prems(3) True by (simp add: blit_def)
    obtain ep' a' x' where ih: "cdc_collect lib len (n + unat c) ?b IO_CDC c x2
        = Some (Inr (blit ?b (n + unat c) (take (len - (n + unat c)) (pending x2))), ep', a', x')"
      "pending x' = drop (len - (n + unat c)) (pending x2)"
    proof -
      have "len - (n + unat c) < len - n" "n + unat c \<le> len" "len - (n + unat c) \<le> length (pending x2)"
        using c k(2,4) r(2) True less.prems(2) by auto
      then show ?thesis using that less.hyps [of "n + unat c" x2 ?b IO_CDC c] lb by blast
    qed
    have "blit ?b (n + unat c) (take (len - (n + unat c)) (pending x2)) = blit buf n (take (len - n) (pending x))"
    proof -
      have "take (unat c) (pending x) @ take (len - (n + unat c)) (drop (unat c) (pending x)) = take (len - n) (pending x)"
        using take_add [of "unat c" "len - (n + unat c)" "pending x"] sum by simp
      then show ?thesis
        using blit_blit [of n "take (unat c) (pending x)" buf "take (len - (n + unat c)) (pending x2)"] len r(2) k(4) c assms(2) less.prems(3) True
        by simp
    qed
    moreover have "drop (len - (n + unat c)) (pending x2) = drop (len - n) (pending x)" using r(2) k(4) sum by (simp add: add.commute)
    ultimately show ?thesis
      using ih k(1,4) r(1) m True mx by (subst cdc_collect.simps) (simp add: Let_def c_def [symmetric])
  qed
qed

text \<open>A frame for the application on the serial endpoint, in however many pieces it arrives, is read to its end and not
  a byte further: a reset command of the right length resets the device, one of a wrong length is an error, and
  every other command is answered with a refusal.\<close>

theorem cdc_frame_answered:
  assumes "cdc_laws lib pending ready" "frame_parse_hdr lib h \<lparr>hdr_id = 0, f_domain = 0, hdr_len = 0\<rparr> = (0, hdr)"
    "f_domain hdr = DST_SW lib" "DST_FW lib \<noteq> DST_SW lib" "hdr_len hdr \<le> 128" "pending x = h # body @ rest" "length body = hdr_len hdr"
    "body \<noteq> []" "1 \<le> ready x"
  shows "if hd body = CMD_RESET \<and> hdr_len hdr = 128 then cdc_handle_frame lib c0 ep a x = None
    else \<exists>ep' a' x'. pending x' = rest \<and>
      cdc_handle_frame lib c0 ep a x
        = Some (if hd body = CMD_RESET then (- 1, ep', a', x') else (0, ep', a', appreply_nok lib hdr x'))"
proof -
  have mx: "CMDLEN_MAXBYTES lib = 128" using assms(1) by (simp add: cdc_laws_def)
  obtain x1 where 1: "io_read lib IO_CDC 1 1 x = Some (1, [h], x1)" "pending x1 = body @ rest"
  proof -
    have "\<exists>x'. io_read lib IO_CDC 1 1 x = Some (int 1, take 1 (pending x), x') \<and> pending x' = drop 1 (pending x)"
      using assms(1,9) unfolding cdc_laws_def by blast
    then show ?thesis using that assms(6) by auto
  qed
  obtain r ep2 k x2 where 2: "io_readselect lib [IO_CDC] True ep a x1 = Some (r, ep2, k, x2)" "pending x2 = body @ rest"
    using assms(1) 1(2) unfolding cdc_laws_def by metis
  obtain ep3 a3 x3 where 3: "cdc_collect lib (hdr_len hdr) 0 (replicate 128 0) ep2 k x2 = Some (Inr (blit (replicate 128 0) 0 body), ep3, a3, x3)"
    "pending x3 = rest"
    using cdc_collect_reads [OF assms(1,5), of 0 x2 "replicate 128 0" ep2 k] 2(2) assms(7) by auto
  have b0: "blit (replicate 128 0) 0 body ! 0 = hd body" using assms(8) by (simp add: blit_def nth_append hd_conv_nth)
  have "cdc_handle_frame lib c0 ep a x =
     (if hd body = CMD_RESET
      then if hdr_len hdr \<noteq> 128 then Some (- 1, ep3, a3, x3)
           else do { _ \<leftarrow> reset_app lib (ucast (blit (replicate 128 0) 0 body ! 1)) (drop 2 (blit (replicate 128 0) 0 body)) (hdr_len hdr - 2) x3; None }
      else Some (0, ep3, a3, appreply_nok lib hdr x3))"
    using 1(1) 2(1) 3(1) assms(2-4) mx b0 by (auto simp: cdc_handle_frame_def Let_def)
  moreover have "Option.bind z (\<lambda>_. None) = None" for z :: "'a option" by (cases z) simp_all
  ultimately show ?thesis using 3(2) by auto
qed

lemma script_cdc: "cdc_laws script_lib snd (\<lambda>x. min 7 (length (snd x)))"
  by (auto simp: cdc_laws_def script_lib_def unat_of_nat min_def)

lemma cdc_frame_answered_witness:
  "\<exists>ep' a' x'. snd x' = [9] \<and> cdc_handle_frame script_lib 0 IO_CDC 1 ([], 3 # replicate 32 5 @ [9])
     = Some (0, ep', a', appreply_nok script_lib \<lparr>hdr_id = 0, f_domain = 3, hdr_len = 32\<rparr> x')"
  using cdc_frame_answered [OF script_cdc, of 3 "\<lparr>hdr_id = 0, f_domain = 3, hdr_len = 32\<rparr>" "([], 3 # replicate 32 5 @ [9])" "replicate 32 5" "[9]" 0 IO_CDC 1]
  by (simp add: script_lib_def CMD_RESET_def)

end
