(* ===== verification/Request_Laws.thy ===== *)
theory Request_Laws
  imports Ctap_Request Presence_Laws Assertion_Properties
begin

text \<open>
  The dispatcher's refusals. What a refused request may change: the LED, the USB output, the status, the counts of register
  reads and the record of the last command.
\<close>

text \<open>The status with which a command is refused before it runs, by the numbers of the CTAP standard.\<close>

definition refusal :: "byte \<Rightarrow> ('fs, 'f, 'a) ctap_scheme \<Rightarrow> CtapError option" where
  "refusal cmd w =
     (if cmd \<in> {0x01, 0x02, 0x0A, 0x41} \<and> sint (remaining_tries (STATE w)) \<le> 0 then Some CTAP2_ERR_PIN_BLOCKED
      else if cmd \<in> {0x01, 0x02, 0x0A, 0x41} \<and> sint (PIN_BOOT_ATTEMPTS_LEFT w) \<le> 0 then Some CTAP2_ERR_PIN_AUTH_BLOCKED
      else if cmd = 0x08 \<and> ga_lastcmd (getAssertionState w) \<noteq> 0x02 then Some CTAP2_ERR_NOT_ALLOWED
      else if cmd = 0x07 \<and> 10000 < clock_at w (timer_reads w) then Some CTAP2_ERR_NOT_ALLOWED
      else if cmd \<notin> {0x01, 0x02, 0x04, 0x06, 0x07, 0x08, 0x0A, 0x0B, 0x41} then Some CTAP1_ERR_INVALID_COMMAND
      else None)"

lemmas command_codes = CTAP_MAKE_CREDENTIAL_def CTAP_GET_ASSERTION_def CTAP_GET_INFO_def CTAP_CLIENT_PIN_def CTAP_RESET_def
  CTAP_GET_NEXT_ASSERTION_def CTAP_CREDENTIAL_MANAGEMENT_def CTAP_SELECTION_def CTAP_CREDENTIAL_MANAGEMENT_PRE_def

lemma needs_pin_codes: "needs_pin_unlocked cmd \<longleftrightarrow> cmd \<in> {0x01, 0x02, 0x0A, 0x41}"
  by (auto simp: needs_pin_unlocked_def command_codes)

lemma ui_frame_ctap:
  assumes "ui_frame w w'"
  shows "PIN_BOOT_ATTEMPTS_LEFT w' = PIN_BOOT_ATTEMPTS_LEFT w" "getAssertionState w' = getAssertionState w"
proof -
  have m: "ui_mask w' = ui_mask w" using assms by (simp add: ui_frame_def)
  show "PIN_BOOT_ATTEMPTS_LEFT w' = PIN_BOOT_ATTEMPTS_LEFT w" "getAssertionState w' = getAssertionState w"
    using arg_cong [OF m, of PIN_BOOT_ATTEMPTS_LEFT] arg_cong [OF m, of getAssertionState] by (simp_all add: ui_mask_def)
qed

lemma ui_frame_lastcmd:
  assumes "ui_frame w w'"
  shows "ui_frame (ga_set (\<lambda>g. g\<lparr>ga_lastcmd := c\<rparr>) w) (ga_set (\<lambda>g. g\<lparr>ga_lastcmd := c\<rparr>) w')"
proof -
  have mask: "ui_mask (u\<lparr>getAssertionState := g\<rparr>) = (ui_mask u)\<lparr>getAssertionState := g\<rparr>" for u :: "('a, 'b, 'c) ctap_scheme" and g
    by (simp add: ui_mask_def)
  have "getAssertionState w' = getAssertionState w" by (rule ui_frame_ctap(2) [OF assms])
  then show ?thesis using assms by (simp add: ui_frame_def ga_set_def mask)
qed

text \<open>The part of the dispatcher between the two status messages.\<close>

lemma refused_run:
  assumes "refusal cmd w = Some r" "ui_frame w u" "timer_reads u = timer_reads w" "\<forall>n. timer_reg w n > 1"
  obtains u' where "(if needs_pin_unlocked cmd \<and> ctap_client_pin_is_locked u then Some (CTAP2_ERR_PIN_BLOCKED, e, cmd, u)
      else if needs_pin_unlocked cmd \<and> ctap_client_pin_is_boot_locked u then Some (CTAP2_ERR_PIN_AUTH_BLOCKED, e, cmd, u)
      else run_command b cmd e pkt u) = Some (r, e, cmd, u')" "ui_frame w u'"
proof -
  note f = ui_frame_fields(2,3) [OF assms(2)] ui_frame_ctap [OF assms(2)]
  have m: "millis u = Some (clock_at w (timer_reads w), u\<lparr>timer_reads := timer_reads w + 1\<rparr>)"
    using millis_running [of u] assms(3,4) f(1) by (simp add: clock_at_def)
  have l: "ctap_client_pin_is_locked u \<longleftrightarrow> sint (remaining_tries (STATE w)) \<le> 0"
    "ctap_client_pin_is_boot_locked u \<longleftrightarrow> sint (PIN_BOOT_ATTEMPTS_LEFT w) \<le> 0"
    using f by (simp_all add: ctap_client_pin_is_locked_def ctap_client_pin_is_boot_locked_def)
  show ?thesis
  proof (cases "cmd \<in> {0x01, 0x02, 0x0A, 0x41} \<and> (sint (remaining_tries (STATE w)) \<le> 0 \<or> sint (PIN_BOOT_ATTEMPTS_LEFT w) \<le> 0)")
    case True
    then show ?thesis using that [of u] assms(1,2) l by (auto simp: refusal_def needs_pin_codes split: if_splits)
  next
    case False
    consider (next_one) "cmd = 0x08" "ga_lastcmd (getAssertionState w) \<noteq> 0x02" "r = CTAP2_ERR_NOT_ALLOWED"
      | (late) "cmd = 0x07" "10000 < clock_at w (timer_reads w)" "r = CTAP2_ERR_NOT_ALLOWED"
      | (unknown) "cmd \<notin> {0x01, 0x02, 0x04, 0x06, 0x07, 0x08, 0x0A, 0x0B, 0x41}" "r = CTAP1_ERR_INVALID_COMMAND"
      using assms(1) False by (auto simp: refusal_def split: if_splits)
    then show ?thesis
    proof cases
      case next_one
      then show ?thesis using that [of u] assms(2) f(4) l by (simp add: run_command_def command_codes needs_pin_unlocked_def)
    next
      case late
      then show ?thesis
        using that [of "u\<lparr>timer_reads := timer_reads w + 1\<rparr>"] assms(2) m l
        by (simp add: run_command_def command_codes needs_pin_unlocked_def ctap_reset_def AUTHENTICATOR_RESET_TIME_MS_def)
    next
      case unknown
      then have "run_command b cmd e pkt u = Some (CTAP1_ERR_INVALID_COMMAND, e, cmd, u)" "\<not> needs_pin_unlocked cmd"
        by (auto simp: run_command_def needs_pin_unlocked_def command_codes)
      then show ?thesis using that [of u] assms(2) unknown(2) by simp
    qed
  qed
qed

text \<open>C18: What the dispatcher refuses: making credentials, assertions and the management of credentials while the PIN is blocked, for
  good or until the next power cycle; the next assertion without an assertion before it; a reset more than ten
  seconds after power-up; unknown commands. The answer is the status alone, and nothing of the authenticator's state changes but
  the record of the last command.\<close>

theorem refused_request:
  assumes "refusal cmd w = Some r" "\<forall>n. timer_reg w n > 1"
  shows "\<exists>resp' w'. ctap_request b (cmd # pkt) resp w = Some (r, resp', w') \<and> resp_length resp' = 0
    \<and> ui_frame (ga_set (\<lambda>g. g\<lparr>ga_lastcmd := cmd\<rparr>) w) w'"
proof -
  let ?e = "cbor_encoder_init (resp_data resp) 0 (resp_data_size resp) 0"
  let ?u = "device_set_status CTAPHID_STATUS_PROCESSING w"
  have r: "r \<noteq> CTAP2_OK" using assms(1) by (auto simp: refusal_def split: if_splits)
  obtain u' where u: "(if needs_pin_unlocked cmd \<and> ctap_client_pin_is_locked ?u then Some (CTAP2_ERR_PIN_BLOCKED, ?e, cmd, ?u)
      else if needs_pin_unlocked cmd \<and> ctap_client_pin_is_boot_locked ?u then Some (CTAP2_ERR_PIN_AUTH_BLOCKED, ?e, cmd, ?u)
      else run_command b cmd ?e pkt ?u) = Some (r, ?e, cmd, u')" "ui_frame w u'"
    by (rule refused_run [OF assms(1) status_frame(1,2) assms(2)])
  have "ui_frame w (device_set_status CTAPHID_STATUS_IDLE u')" by (rule ui_frame_trans [OF u(2) status_frame(1)])
  then show ?thesis
    using u(1) r ui_frame_lastcmd by (auto simp: ctap_request_def Let_def)
qed

lemma refused_request_witness:
  "\<exists>resp' w'. ctap_request demo_ctap_board [7] ctap_response_init ((demo_ctap Map.empty)\<lparr>timer_reg := \<lambda>_. 0xffff0000\<rparr>) = Some (CTAP2_ERR_NOT_ALLOWED, resp', w')
    \<and> resp_length resp' = 0 \<and> STATE w' = demo_state"
proof -
  let ?w = "(demo_ctap Map.empty)\<lparr>timer_reg := \<lambda>_. 0xffff0000\<rparr>"
  have "refusal 7 ?w = Some CTAP2_ERR_NOT_ALLOWED"
    by (simp add: refusal_def command_codes needs_pin_unlocked_def clock_at_def TIMER_MAX_def)
  from refused_request [OF this, of demo_ctap_board "[]" ctap_response_init] obtain resp' w' where
    "ctap_request demo_ctap_board [7] ctap_response_init ?w = Some (CTAP2_ERR_NOT_ALLOWED, resp', w')" "resp_length resp' = 0"
    "ui_frame (ga_set (\<lambda>g. g\<lparr>ga_lastcmd := 7\<rparr>) ?w) w'" by auto
  then show ?thesis
    using ui_frame_fields(3) [of _ w'] by (fastforce simp: ga_set_def demo_ctap_def cpin.defs demo_cpin_def dev.defs)
qed

end
