(* ===== verification/Flash.thy ===== *)
theory Flash
  imports Prelude
begin

text \<open>
  The block device that \<open>targets/tkey/src/fs.c\<close> gives to littlefs: the four callbacks and the geometry. The system calls of the
  firmware are the record \<open>flash_sys\<close>; what the callbacks rely on is \<open>flash_laws\<close>, a NOR flash in which erasing sets
  all bits and writing clears bits. A block that was erased and programmed is read back, and no other block changes.
\<close>

definition LFS_READ_SIZE :: u32 where "LFS_READ_SIZE = 256"
definition LFS_PROG_SIZE :: u32 where "LFS_PROG_SIZE = 256"
definition LFS_BLOCK_SIZE :: u32 where "LFS_BLOCK_SIZE = 4096"
definition LFS_BLOCK_COUNT :: u32 where "LFS_BLOCK_COUNT = 32"
definition LFS_LOOKAHEAD_SIZE :: u32 where "LFS_LOOKAHEAD_SIZE = 16"

record 'x flash_sys =
  LFS_ERR_IO :: int
  sys_read :: "u32 \<Rightarrow> nat \<Rightarrow> 'x \<Rightarrow> int \<times> bytes \<times> 'x"
  sys_write :: "u32 \<Rightarrow> bytes \<Rightarrow> 'x \<Rightarrow> int \<times> 'x"
  sys_erase :: "u32 \<Rightarrow> u32 \<Rightarrow> 'x \<Rightarrow> int \<times> 'x"

section \<open>The callbacks\<close>

definition lfs_read_wrapper :: "'x flash_sys \<Rightarrow> u32 \<Rightarrow> u32 \<Rightarrow> nat \<Rightarrow> 'x \<Rightarrow> int \<times> bytes \<times> 'x" where
  "lfs_read_wrapper sys block off n x =
     (let (ret, bs, x) = sys_read sys (block * LFS_BLOCK_SIZE + off) n x in (if ret < 0 then ret else 0, bs, x))"

definition lfs_prog_wrapper :: "'x flash_sys \<Rightarrow> u32 \<Rightarrow> u32 \<Rightarrow> bytes \<Rightarrow> 'x \<Rightarrow> int \<times> 'x" where
  "lfs_prog_wrapper sys block off buf x =
     (let (ret, x) = sys_write sys (block * LFS_BLOCK_SIZE + off) buf x in (if ret \<noteq> 0 then LFS_ERR_IO sys else 0, x))"

definition lfs_erase_wrapper :: "'x flash_sys \<Rightarrow> u32 \<Rightarrow> 'x \<Rightarrow> int \<times> 'x" where
  "lfs_erase_wrapper sys block x =
     (let (ret, x) = sys_erase sys (block * LFS_BLOCK_SIZE) LFS_BLOCK_SIZE x in (if ret < 0 then - 1 else 0, x))"

definition lfs_sync_wrapper :: "'x \<Rightarrow> int \<times> 'x" where
  "lfs_sync_wrapper x = (0, x)"

section \<open>A NOR flash\<close>

definition flash_size :: nat where "flash_size = 32 * 4096"

definition and_bytes :: "bytes \<Rightarrow> bytes \<Rightarrow> bytes" where
  "and_bytes a b = map2 (AND) a b"

definition flash_laws :: "'x flash_sys \<Rightarrow> ('x \<Rightarrow> bytes) \<Rightarrow> bool" where
  "flash_laws sys cells \<longleftrightarrow> (\<forall>x. length (cells x) = flash_size)
     \<and> (\<forall>a n x. unat a + n \<le> flash_size \<longrightarrow> (\<exists>ret x'. sys_read sys a n x = (ret, slice (unat a) n (cells x), x') \<and> 0 \<le> ret \<and> cells x' = cells x))
     \<and> (\<forall>a bs x. unat a + length bs \<le> flash_size \<longrightarrow>
          (\<exists>x'. sys_write sys a bs x = (0, x') \<and> cells x' = blit (cells x) (unat a) (and_bytes bs (slice (unat a) (length bs) (cells x)))))
     \<and> (\<forall>a x. unat a + 4096 \<le> flash_size \<and> unat a mod 4096 = 0 \<longrightarrow>
          (\<exists>ret x'. sys_erase sys a 4096 x = (ret, x') \<and> 0 \<le> ret \<and> cells x' = blit (cells x) (unat a) (replicate 4096 0xff)))"

lemma block_address:
  fixes block off :: u32
  assumes "unat block < 32" "unat off < 4096"
  shows "unat (block * LFS_BLOCK_SIZE + off) = unat block * 4096 + unat off"
  using assms by (simp add: LFS_BLOCK_SIZE_def unat_word_ariths)

lemma and_ones: "and_bytes bs (replicate (length bs) 0xff) = bs"
proof -
  have "b AND 0xff = b" for b :: byte
  proof -
    have "(0xff :: byte) = - 1" by simp
    then show ?thesis by (metis and.right_neutral)
  qed
  then show ?thesis by (induction bs) (simp_all add: and_bytes_def)
qed

theorem flash_block_round_trip:
  assumes "flash_laws sys cells" "unat block < 32" "unat off + length bs \<le> 4096" "unat off < 4096"
  shows "\<exists>x1 x2 x3. lfs_erase_wrapper sys block x = (0, x1) \<and> lfs_prog_wrapper sys block off bs x1 = (0, x2)
    \<and> lfs_read_wrapper sys block off (length bs) x2 = (0, bs, x3)
    \<and> (\<forall>i. i < unat block * 4096 \<or> unat block * 4096 + 4096 \<le> i \<longrightarrow> cells x3 ! i = cells x ! i)"
proof -
  let ?b = "unat block * 4096"
  have a: "unat (block * LFS_BLOCK_SIZE + off) = ?b + unat off" "unat (block * LFS_BLOCK_SIZE) = ?b"
    using block_address [OF assms(2,4)] block_address [OF assms(2), of 0] by simp_all
  have f: "?b + 4096 \<le> flash_size" using assms(2) by (simp add: flash_size_def)
  obtain r1 x1 where 1: "sys_erase sys (block * LFS_BLOCK_SIZE) 4096 x = (r1, x1)" "0 \<le> r1" "cells x1 = blit (cells x) ?b (replicate 4096 0xff)"
    using assms(1) f a(2) unfolding flash_laws_def by (metis mod_mult_self2_is_0)
  have l: "length (cells x) = flash_size" using assms(1) by (simp add: flash_laws_def)
  have ones: "slice (?b + unat off) (length bs) (cells x1) = replicate (length bs) 0xff"
    using 1(3) l f assms(3) by (auto simp: slice_def blit_def intro!: nth_equalityI)
  obtain x2 where 2: "sys_write sys (block * LFS_BLOCK_SIZE + off) bs x1 = (0, x2)" "cells x2 = blit (cells x1) (?b + unat off) bs"
  proof -
    have "?b + unat off + length bs \<le> flash_size" using f assms(3) by linarith
    then show ?thesis using that assms(1) a(1) ones and_ones [of bs] unfolding flash_laws_def by metis
  qed
  have l1: "length (cells x1) = flash_size" "length (cells x2) = flash_size" using assms(1) by (simp_all add: flash_laws_def)
  obtain r3 x3 where 3: "sys_read sys (block * LFS_BLOCK_SIZE + off) (length bs) x2 = (r3, bs, x3)" "0 \<le> r3" "cells x3 = cells x2"
  proof -
    have i: "?b + unat off + length bs \<le> flash_size" using f assms(3) by linarith
    have "slice (?b + unat off) (length bs) (cells x2) = bs" unfolding 2(2) by (rule slice_blit_same) (use i l1 in simp_all)
    then show ?thesis using that assms(1) a(1) i unfolding flash_laws_def by metis
  qed
  have "cells x3 ! i = cells x ! i" if "i < ?b \<or> ?b + 4096 \<le> i" for i
    using that 3(3) 2(2) 1(3) l l1 f assms(3) by (auto simp: blit_def nth_append)
  then show ?thesis
    using 1(1,2) 2(1) 3(1,2)
    by (simp add: lfs_erase_wrapper_def lfs_prog_wrapper_def lfs_read_wrapper_def LFS_BLOCK_SIZE_def Let_def)
qed

section \<open>An instance\<close>

text \<open>The laws can hold: a flash whose cells are a function from addresses, where a write is the conjunction with what is there.\<close>

definition ram_cells :: "(nat \<Rightarrow> byte) \<Rightarrow> bytes" where
  "ram_cells f = map f [0..<flash_size]"

definition ram_flash :: "(nat \<Rightarrow> byte) flash_sys" where
  "ram_flash = \<lparr>LFS_ERR_IO = - 5,
     sys_read = (\<lambda>a n f. (0, slice (unat a) n (ram_cells f), f)),
     sys_write = (\<lambda>a bs f. (0, (!) (blit (ram_cells f) (unat a) (and_bytes bs (slice (unat a) (length bs) (ram_cells f)))))),
     sys_erase = (\<lambda>a n f. (0, (!) (blit (ram_cells f) (unat a) (replicate (unat n) 0xff))))\<rparr>"

lemma ram_cells_nth: "length c = flash_size \<Longrightarrow> ram_cells ((!) c) = c"
  unfolding ram_cells_def by (metis map_nth)

lemma ram_flash_laws: "flash_laws ram_flash ram_cells"
proof -
  have l: "length (ram_cells f) = flash_size" for f by (simp add: ram_cells_def)
  have "length (and_bytes bs (slice a (length bs) (ram_cells f))) = length bs" if "a + length bs \<le> flash_size" for a bs f
    using that by (simp add: and_bytes_def slice_def l)
  then show ?thesis unfolding flash_laws_def by (auto simp: ram_flash_def l length_blit intro!: ram_cells_nth)
qed

end
