(* ===== verification/Ctap_Error_Strings.thy ===== *)
theory Ctap_Error_Strings
  imports Ctap_Errors
begin

text \<open>
  \<open>fido2/src/ctap_errors.c\<close>: the names of the status values for the debug console.
\<close>

primrec error_name :: "CtapError \<Rightarrow> string" where
  "error_name CTAP2_OK = ''CTAP2_OK''"
| "error_name CTAP1_ERR_INVALID_COMMAND = ''CTAP1_ERR_INVALID_COMMAND''"
| "error_name CTAP1_ERR_INVALID_PARAMETER = ''CTAP1_ERR_INVALID_PARAMETER''"
| "error_name CTAP1_ERR_INVALID_LENGTH = ''CTAP1_ERR_INVALID_LENGTH''"
| "error_name CTAP1_ERR_INVALID_SEQ = ''CTAP1_ERR_INVALID_SEQ''"
| "error_name CTAP1_ERR_TIMEOUT = ''CTAP1_ERR_TIMEOUT''"
| "error_name CTAP1_ERR_CHANNEL_BUSY = ''CTAP1_ERR_CHANNEL_BUSY''"
| "error_name CTAP1_ERR_LOCK_REQUIRED = ''CTAP1_ERR_LOCK_REQUIRED''"
| "error_name CTAP1_ERR_INVALID_CHANNEL = ''CTAP1_ERR_INVALID_CHANNEL''"
| "error_name CTAP2_ERR_CBOR_UNEXPECTED_TYPE = ''CTAP2_ERR_CBOR_UNEXPECTED_TYPE''"
| "error_name CTAP2_ERR_INVALID_CBOR = ''CTAP2_ERR_INVALID_CBOR''"
| "error_name CTAP2_ERR_MISSING_PARAMETER = ''CTAP2_ERR_MISSING_PARAMETER''"
| "error_name CTAP2_ERR_LIMIT_EXCEEDED = ''CTAP2_ERR_LIMIT_EXCEEDED''"
| "error_name CTAP2_ERR_FP_DATABASE_FULL = ''CTAP2_ERR_FP_DATABASE_FULL''"
| "error_name CTAP2_ERR_LARGE_BLOB_STORAGE_FULL = ''CTAP2_ERR_LARGE_BLOB_STORAGE_FULL''"
| "error_name CTAP2_ERR_CREDENTIAL_EXCLUDED = ''CTAP2_ERR_CREDENTIAL_EXCLUDED''"
| "error_name CTAP2_ERR_PROCESSING = ''CTAP2_ERR_PROCESSING''"
| "error_name CTAP2_ERR_INVALID_CREDENTIAL = ''CTAP2_ERR_INVALID_CREDENTIAL''"
| "error_name CTAP2_ERR_USER_ACTION_PENDING = ''CTAP2_ERR_USER_ACTION_PENDING''"
| "error_name CTAP2_ERR_OPERATION_PENDING = ''CTAP2_ERR_OPERATION_PENDING''"
| "error_name CTAP2_ERR_NO_OPERATIONS = ''CTAP2_ERR_NO_OPERATIONS''"
| "error_name CTAP2_ERR_UNSUPPORTED_ALGORITHM = ''CTAP2_ERR_UNSUPPORTED_ALGORITHM''"
| "error_name CTAP2_ERR_OPERATION_DENIED = ''CTAP2_ERR_OPERATION_DENIED''"
| "error_name CTAP2_ERR_KEY_STORE_FULL = ''CTAP2_ERR_KEY_STORE_FULL''"
| "error_name CTAP2_ERR_UNSUPPORTED_OPTION = ''CTAP2_ERR_UNSUPPORTED_OPTION''"
| "error_name CTAP2_ERR_INVALID_OPTION = ''CTAP2_ERR_INVALID_OPTION''"
| "error_name CTAP2_ERR_KEEPALIVE_CANCEL = ''CTAP2_ERR_KEEPALIVE_CANCEL''"
| "error_name CTAP2_ERR_NO_CREDENTIALS = ''CTAP2_ERR_NO_CREDENTIALS''"
| "error_name CTAP2_ERR_USER_ACTION_TIMEOUT = ''CTAP2_ERR_USER_ACTION_TIMEOUT''"
| "error_name CTAP2_ERR_NOT_ALLOWED = ''CTAP2_ERR_NOT_ALLOWED''"
| "error_name CTAP2_ERR_PIN_INVALID = ''CTAP2_ERR_PIN_INVALID''"
| "error_name CTAP2_ERR_PIN_BLOCKED = ''CTAP2_ERR_PIN_BLOCKED''"
| "error_name CTAP2_ERR_PIN_AUTH_INVALID = ''CTAP2_ERR_PIN_AUTH_INVALID''"
| "error_name CTAP2_ERR_PIN_AUTH_BLOCKED = ''CTAP2_ERR_PIN_AUTH_BLOCKED''"
| "error_name CTAP2_ERR_PIN_NOT_SET = ''CTAP2_ERR_PIN_NOT_SET''"
| "error_name CTAP2_ERR_PUAT_REQUIRED = ''CTAP2_ERR_PUAT_REQUIRED''"
| "error_name CTAP2_ERR_PIN_POLICY_VIOLATION = ''CTAP2_ERR_PIN_POLICY_VIOLATION''"
| "error_name CTAP2_ERR_REQUEST_TOO_LARGE = ''CTAP2_ERR_REQUEST_TOO_LARGE''"
| "error_name CTAP2_ERR_ACTION_TIMEOUT = ''CTAP2_ERR_ACTION_TIMEOUT''"
| "error_name CTAP2_ERR_UP_REQUIRED = ''CTAP2_ERR_UP_REQUIRED''"
| "error_name CTAP2_ERR_UV_BLOCKED = ''CTAP2_ERR_UV_BLOCKED''"
| "error_name CTAP2_ERR_INTEGRITY_FAILURE = ''CTAP2_ERR_INTEGRITY_FAILURE''"
| "error_name CTAP2_ERR_INVALID_SUBCOMMAND = ''CTAP2_ERR_INVALID_SUBCOMMAND''"
| "error_name CTAP2_ERR_UV_INVALID = ''CTAP2_ERR_UV_INVALID''"
| "error_name CTAP2_ERR_UNAUTHORIZED_PERMISSION = ''CTAP2_ERR_UNAUTHORIZED_PERMISSION''"
| "error_name CTAP1_ERR_OTHER = ''CTAP1_ERR_OTHER''"
| "error_name CTAP2_ERR_SPEC_LAST = ''CTAP2_ERR_SPEC_LAST''"
| "error_name CTAP2_ERR_EXTENSION_FIRST = ''CTAP2_ERR_EXTENSION_FIRST''"
| "error_name CTAP2_ERR_EXTENSION_LAST = ''CTAP2_ERR_EXTENSION_LAST''"
| "error_name CTAP2_ERR_VENDOR_FIRST = ''CTAP2_ERR_VENDOR_FIRST''"
| "error_name CTAP2_ERR_USER_PRESENCE_DISABLED = ''CTAP2_ERR_USER_PRESENCE_DISABLED''"
| "error_name CTAP2_ERR_VENDOR_LAST = ''CTAP2_ERR_VENDOR_LAST''"

definition ctap_error_string :: "byte \<Rightarrow> string" where
  "ctap_error_string v = (case find (\<lambda>e. ctap_error_code e = v) ctap_errors of Some e \<Rightarrow> error_name e | None \<Rightarrow> ''unknown error'')"

text \<open>Every status has its name, and every other byte none.\<close>

lemma find_same: "e \<in> set xs \<Longrightarrow> find (\<lambda>e'. e' = e) xs = Some e"
  by (induction xs) auto

lemma ctap_error_string_code: "ctap_error_string (ctap_error_code e) = error_name e"
  using find_same [OF ctap_errors_complete] by (simp add: ctap_error_string_def)

lemma ctap_error_string_other:
  assumes "v \<notin> range ctap_error_code"
  shows "ctap_error_string v = ''unknown error''"
proof -
  have "find (\<lambda>e. ctap_error_code e = v) ctap_errors = None" using assms by (auto simp: find_None_iff)
  then show ?thesis by (simp add: ctap_error_string_def)
qed

end
