(* ===== verification/Vli.thy ===== *)
theory Vli
  imports Prelude
begin

text \<open>
  The arithmetic of \<open>crypto/micro-ecc/uECC.c\<close> on very long integers, for the build of the firmware: 32-bit words,
  no assembler, no separate squaring. An integer is the list of its words, least significant first; a
  function that writes to a result array returns the words written. Every function reads word \<open>i\<close> of its arguments before
  it writes word \<open>i\<close> of its result, so a result that is also an argument is read correctly and needs no model of aliasing.
\<close>

type_synonym vli = "u32 list"

definition uECC_MAX_WORDS :: nat where "uECC_MAX_WORDS = 8"
definition uECC_WORD_BITS :: nat where "uECC_WORD_BITS = 32"
definition HIGH_BIT_SET :: u32 where "HIGH_BIT_SET = 0x80000000"

section \<open>Single operands\<close>

definition uECC_vli_clear :: "nat \<Rightarrow> vli" where
  "uECC_vli_clear num_words = replicate num_words 0"

definition uECC_vli_set :: "vli \<Rightarrow> nat \<Rightarrow> vli" where
  "uECC_vli_set src num_words = take num_words src"

definition uECC_vli_isZero :: "vli \<Rightarrow> nat \<Rightarrow> bool" where
  "uECC_vli_isZero vli num_words \<longleftrightarrow> foldl (\<lambda>bits w. bits OR w) 0 (take num_words vli) = 0"

definition uECC_vli_testBit :: "vli \<Rightarrow> nat \<Rightarrow> u32" where
  "uECC_vli_testBit vli b = vli ! (b div 32) AND push_bit (b mod 32) 1"

fun vli_numDigits :: "vli \<Rightarrow> nat \<Rightarrow> nat" where
  "vli_numDigits vli 0 = 0"
| "vli_numDigits vli (Suc i) = (if vli ! i = 0 then vli_numDigits vli i else Suc i)"

function digit_bits :: "u32 \<Rightarrow> nat" where
  "digit_bits digit = (if digit = 0 then 0 else Suc (digit_bits (drop_bit 1 digit)))"
  by auto
termination
proof (relation "measure unat")
  fix digit :: u32
  assume "digit \<noteq> 0"
  then have "0 < unat digit" by (simp add: unat_gt_0)
  then show "(drop_bit 1 digit, digit) \<in> measure unat" by (simp add: drop_bit_eq_div unat_div_distrib)
qed simp

declare digit_bits.simps [simp del]

definition uECC_vli_numBits :: "vli \<Rightarrow> nat \<Rightarrow> nat" where
  "uECC_vli_numBits vli max_words =
     (let num_digits = vli_numDigits vli max_words in
      if num_digits = 0 then 0 else (num_digits - 1) * 32 + digit_bits (vli ! (num_digits - 1)))"

text \<open>The shift runs from the most significant word down; the second result is the bit that falls into the next word.\<close>

fun rshift1_loop :: "vli \<Rightarrow> vli \<times> u32" where
  "rshift1_loop [] = ([], 0)"
| "rshift1_loop (temp # vli) = (let (rs, carry) = rshift1_loop vli in ((drop_bit 1 temp OR carry) # rs, push_bit 31 temp))"

definition uECC_vli_rshift1 :: "vli \<Rightarrow> nat \<Rightarrow> vli" where
  "uECC_vli_rshift1 vli num_words = fst (rshift1_loop (take num_words vli))"

section \<open>Comparison, addition, subtraction\<close>

fun cmp_loop :: "vli \<Rightarrow> vli \<Rightarrow> nat \<Rightarrow> int" where
  "cmp_loop left right 0 = 0"
| "cmp_loop left right (Suc i) =
     (if left ! i > right ! i then 1 else if left ! i < right ! i then - 1 else cmp_loop left right i)"

definition uECC_vli_cmp_unsafe :: "vli \<Rightarrow> vli \<Rightarrow> nat \<Rightarrow> int" where
  "uECC_vli_cmp_unsafe left right num_words = cmp_loop left right num_words"

fun equal_loop :: "vli \<Rightarrow> vli \<Rightarrow> nat \<Rightarrow> u32 \<Rightarrow> u32" where
  "equal_loop left right 0 diff = diff"
| "equal_loop left right (Suc i) diff = equal_loop left right i (diff OR (left ! i XOR right ! i))"

definition uECC_vli_equal :: "vli \<Rightarrow> vli \<Rightarrow> nat \<Rightarrow> bool" where
  "uECC_vli_equal left right num_words \<longleftrightarrow> equal_loop left right num_words 0 = 0"

fun add_loop :: "vli \<Rightarrow> vli \<Rightarrow> u32 \<Rightarrow> u32 \<times> vli" where
  "add_loop (l # left) (r # right) carry =
     (let sum = l + r + carry;
          carry = (if sum \<noteq> l then (if sum < l then 1 else 0) else carry);
          (carry, res) = add_loop left right carry
      in (carry, sum # res))"
| "add_loop _ _ carry = (carry, [])"

definition uECC_vli_add :: "vli \<Rightarrow> vli \<Rightarrow> nat \<Rightarrow> u32 \<times> vli" where
  "uECC_vli_add left right num_words = add_loop (take num_words left) (take num_words right) 0"

fun sub_loop :: "vli \<Rightarrow> vli \<Rightarrow> u32 \<Rightarrow> u32 \<times> vli" where
  "sub_loop (l # left) (r # right) borrow =
     (let diff = l - r - borrow;
          borrow = (if diff \<noteq> l then (if diff > l then 1 else 0) else borrow);
          (borrow, res) = sub_loop left right borrow
      in (borrow, diff # res))"
| "sub_loop _ _ borrow = (borrow, [])"

definition uECC_vli_sub :: "vli \<Rightarrow> vli \<Rightarrow> nat \<Rightarrow> u32 \<times> vli" where
  "uECC_vli_sub left right num_words = sub_loop (take num_words left) (take num_words right) 0"

definition uECC_vli_cmp :: "vli \<Rightarrow> vli \<Rightarrow> nat \<Rightarrow> int" where
  "uECC_vli_cmp left right num_words =
     (let (borrow, tmp) = uECC_vli_sub left right num_words;
          neg = (if borrow \<noteq> 0 then 1 else 0);
          equal = uECC_vli_isZero tmp num_words
      in (if equal then 0 else 1) - 2 * neg)"

section \<open>Multiplication\<close>

text \<open>The accumulator is the three words \<open>r0\<close>, \<open>r1\<close>, \<open>r2\<close>.\<close>

type_synonym acc = "u32 \<times> u32 \<times> u32"

definition muladd :: "u32 \<Rightarrow> u32 \<Rightarrow> acc \<Rightarrow> acc" where
  "muladd a b = (\<lambda>(r0, r1, r2).
     let p = (ucast a :: u64) * ucast b;
         r01 = push_bit 32 (ucast r1) OR ucast r0;
         r01 = r01 + p;
         r2 = r2 + (if r01 < p then 1 else 0)
     in (ucast r01, ucast (drop_bit 32 r01), r2))"

fun mult_column :: "vli \<Rightarrow> vli \<Rightarrow> nat \<Rightarrow> nat \<Rightarrow> nat \<Rightarrow> acc \<Rightarrow> acc" where
  "mult_column left right k i 0 r = r"
| "mult_column left right k i (Suc n) r = mult_column left right k (i + 1) n (muladd (left ! i) (right ! (k - i)) r)"

text \<open>Column \<open>k\<close> starts at index 0 in the lower half of the result and at \<open>k + 1 - num_words\<close> in the upper half.\<close>

fun mult_loop :: "vli \<Rightarrow> vli \<Rightarrow> nat \<Rightarrow> nat \<Rightarrow> nat \<Rightarrow> acc \<Rightarrow> vli" where
  "mult_loop left right num_words k 0 (r0, r1, r2) = [r0]"
| "mult_loop left right num_words k (Suc n) r =
     (let (r0, r1, r2) = (if k < num_words then mult_column left right k 0 (k + 1) r
            else mult_column left right k (k + 1 - num_words) (num_words - (k + 1 - num_words)) r)
      in r0 # mult_loop left right num_words (k + 1) n (r1, r2, 0))"

definition uECC_vli_mult :: "vli \<Rightarrow> vli \<Rightarrow> nat \<Rightarrow> vli" where
  "uECC_vli_mult left right num_words = mult_loop left right num_words 0 (num_words * 2 - 1) (0, 0, 0)"

section \<open>Modular arithmetic\<close>

definition uECC_vli_modAdd :: "vli \<Rightarrow> vli \<Rightarrow> vli \<Rightarrow> nat \<Rightarrow> vli" where
  "uECC_vli_modAdd left right md num_words =
     (let (carry, result) = uECC_vli_add left right num_words in
      if carry \<noteq> 0 \<or> uECC_vli_cmp_unsafe md result num_words \<noteq> 1 then snd (uECC_vli_sub result md num_words) else result)"

definition uECC_vli_modSub :: "vli \<Rightarrow> vli \<Rightarrow> vli \<Rightarrow> nat \<Rightarrow> vli" where
  "uECC_vli_modSub left right md num_words =
     (let (l_borrow, result) = uECC_vli_sub left right num_words in
      if l_borrow \<noteq> 0 then snd (uECC_vli_add result md num_words) else result)"

fun mmod_shift :: "vli \<Rightarrow> nat \<Rightarrow> u32 \<Rightarrow> vli" where
  "mmod_shift [] bit_shift carry = []"
| "mmod_shift (w # md) bit_shift carry = (push_bit bit_shift w OR carry) # mmod_shift md bit_shift (drop_bit (32 - bit_shift) w)"

text \<open>The modulus with its highest bit at the top of a double-length integer. The list is longer than the array of the code, which
  is then overrun, when the modulus has no bit in its highest word.\<close>

definition mmod_multiple :: "vli \<Rightarrow> nat \<Rightarrow> nat \<Rightarrow> vli" where
  "mmod_multiple md num_words shift =
     (let word_shift = shift div 32; bit_shift = shift mod 32
      in uECC_vli_clear word_shift
           @ (if bit_shift > 0 then mmod_shift (take num_words md) bit_shift 0 else uECC_vli_set md num_words))"

definition mmod_halve :: "vli \<Rightarrow> nat \<Rightarrow> vli" where
  "mmod_halve m num_words =
     (let low = uECC_vli_rshift1 m num_words;
          low = low[num_words - 1 := low ! (num_words - 1) OR push_bit 31 (m ! num_words)]
      in low @ uECC_vli_rshift1 (drop num_words m) num_words)"

text \<open>The two buffers are \<open>v ! 0\<close> and \<open>v ! 1\<close>; \<open>ind\<close> names the one that holds the remainder.\<close>

fun mmod_loop :: "nat \<Rightarrow> nat \<Rightarrow> nat \<Rightarrow> vli list \<Rightarrow> vli \<Rightarrow> vli" where
  "mmod_loop 0 num_words ind v m = v ! ind"
| "mmod_loop (Suc shift) num_words ind v m =
     (let (borrow, diff) = uECC_vli_sub (v ! ind) m (num_words * 2);
          v = v[1 - ind := diff];
          ind = (if borrow = 0 then 1 - ind else ind)
      in mmod_loop shift num_words ind v (mmod_halve m num_words))"

definition uECC_vli_mmod :: "vli \<Rightarrow> vli \<Rightarrow> nat \<Rightarrow> vli" where
  "uECC_vli_mmod product md num_words =
     (let shift = num_words * 2 * 32 - uECC_vli_numBits md num_words;
          tmp = uECC_vli_clear (2 * num_words)
      in uECC_vli_set (mmod_loop (shift + 1) num_words 1 [tmp, product] (mmod_multiple md num_words shift)) num_words)"

definition uECC_vli_modMult :: "vli \<Rightarrow> vli \<Rightarrow> vli \<Rightarrow> nat \<Rightarrow> vli" where
  "uECC_vli_modMult left right md num_words = uECC_vli_mmod (uECC_vli_mult left right num_words) md num_words"

section \<open>Inversion\<close>

definition EVEN :: "vli \<Rightarrow> bool" where
  "EVEN vli \<longleftrightarrow> vli ! 0 AND 1 = 0"

definition vli_modInv_update :: "vli \<Rightarrow> vli \<Rightarrow> nat \<Rightarrow> vli" where
  "vli_modInv_update uv md num_words =
     (let (carry, uv) = (if \<not> EVEN uv then uECC_vli_add uv md num_words else (0, uv));
          uv = uECC_vli_rshift1 uv num_words
      in if carry \<noteq> 0 then uv[num_words - 1 := uv ! (num_words - 1) OR HIGH_BIT_SET] else uv)"

definition modInv_sub :: "vli \<Rightarrow> vli \<Rightarrow> vli \<Rightarrow> nat \<Rightarrow> vli" where
  "modInv_sub u v md num_words =
     (let u = (if uECC_vli_cmp_unsafe u v num_words < 0 then snd (uECC_vli_add u md num_words) else u)
      in vli_modInv_update (snd (uECC_vli_sub u v num_words)) md num_words)"

partial_function (option) modInv_loop :: "vli \<Rightarrow> nat \<Rightarrow> vli \<Rightarrow> vli \<Rightarrow> vli \<Rightarrow> vli \<Rightarrow> vli option" where
  "modInv_loop md num_words a b u v =
     (let cmpResult = uECC_vli_cmp_unsafe a b num_words in
      if cmpResult = 0 then Some u
      else if EVEN a then modInv_loop md num_words (uECC_vli_rshift1 a num_words) b (vli_modInv_update u md num_words) v
      else if EVEN b then modInv_loop md num_words a (uECC_vli_rshift1 b num_words) u (vli_modInv_update v md num_words)
      else if cmpResult > 0 then
        modInv_loop md num_words (uECC_vli_rshift1 (snd (uECC_vli_sub a b num_words)) num_words) b (modInv_sub u v md num_words) v
      else modInv_loop md num_words a (uECC_vli_rshift1 (snd (uECC_vli_sub b a num_words)) num_words) u (modInv_sub v u md num_words))"

declare modInv_loop.simps [code]

definition uECC_vli_modInv :: "vli \<Rightarrow> vli \<Rightarrow> nat \<Rightarrow> vli option" where
  "uECC_vli_modInv inp md num_words =
     (if uECC_vli_isZero inp num_words then Some (uECC_vli_clear num_words)
      else modInv_loop md num_words (uECC_vli_set inp num_words) (uECC_vli_set md num_words)
             (1 # uECC_vli_clear (num_words - 1)) (uECC_vli_clear num_words))"

end
