(* ===== verification/Vli_Laws.thy ===== *)
theory Vli_Laws
  imports Vli
begin

text \<open>
  The number that a list of words stands for is \<open>vval\<close>. Each routine of \<open>Vli\<close> computes on numbers what its comment in the code promises:
  sums and differences with their carries, products, remainders by shift and subtract, and inverses by the binary
  algorithm of Euclid, whose loop ends for every odd modulus.
\<close>

section \<open>The number a list of words stands for\<close>

fun vval :: "vli \<Rightarrow> nat" where
  "vval [] = 0"
| "vval (w # ws) = unat w + 2 ^ 32 * vval ws"

lemma vval_append: "vval (xs @ ys) = vval xs + 2 ^ (32 * length xs) * vval ys"
  by (induction xs) (simp_all add: algebra_simps power_add)

lemma vval_replicate_0 [simp]: "vval (replicate n 0) = 0"
  by (induction n) simp_all

lemma unat_less_32: "unat (w :: u32) < 2 ^ 32"
  using unsigned_less [of w] by simp

lemma vval_less: "vval ws < 2 ^ (32 * length ws)"
proof (induction ws)
  case (Cons w ws)
  have "unat w + 2 ^ 32 * vval ws < 2 ^ 32 * (1 + vval ws)" using unat_less_32 [of w] by simp
  also have "\<dots> \<le> 2 ^ 32 * 2 ^ (32 * length ws)" using Cons by (intro mult_left_mono) simp_all
  finally show ?case by (simp add: power_add)
qed simp

lemma vval_nth_sum: "vval ws = (\<Sum>i<length ws. unat (ws ! i) * 2 ^ (32 * i))"
proof (induction ws)
  case (Cons w ws)
  then show ?case by (simp add: sum.lessThan_Suc_shift sum_distrib_left sum_distrib_right power_add algebra_simps del: sum.lessThan_Suc)
qed simp

lemma vval_inject: "length xs = length ys \<Longrightarrow> vval xs = vval ys \<Longrightarrow> xs = ys"
proof (induction xs ys rule: list_induct2)
  case (Cons x xs y ys)
  have "unat x = unat y" "vval xs = vval ys"
    using arg_cong [OF Cons.prems, of "\<lambda>n. n mod 2 ^ 32"] arg_cong [OF Cons.prems, of "\<lambda>n. n div 2 ^ 32"]
      unat_less_32 [of x] unat_less_32 [of y] by simp_all
  then show ?case using Cons.IH by (simp add: word_unat_eq_iff)
qed simp

section \<open>Zero and the lowest bit\<close>

lemma foldl_or_0: "foldl (\<lambda>b w. b OR w) (a :: u32) ws = 0 \<longleftrightarrow> a = 0 \<and> (\<forall>w \<in> set ws. w = 0)"
proof (induction ws arbitrary: a)
  case (Cons w ws)
  have "a OR w = 0 \<longleftrightarrow> a = 0 \<and> w = 0" by (auto simp: bit_eq_iff bit_or_iff)
  then show ?case using Cons by simp
qed simp

lemma vval_0: "vval ws = 0 \<longleftrightarrow> (\<forall>w \<in> set ws. w = 0)"
  by (induction ws) (simp_all add: unat_eq_0)

lemma isZero_vval: "length a = n \<Longrightarrow> uECC_vli_isZero a n \<longleftrightarrow> vval a = 0"
  by (simp add: uECC_vli_isZero_def foldl_or_0 vval_0)

lemma EVEN_vval: "a \<noteq> [] \<Longrightarrow> EVEN a \<longleftrightarrow> even (vval a)"
proof (cases a)
  case (Cons w ws)
  have "(w AND 1 = 0) \<longleftrightarrow> even (unat w)" using unat_mod_distrib [of w 2] by (simp add: and_one_eq word_unat_eq_iff even_iff_mod_2_eq_zero)
  then show ?thesis using Cons by (simp add: EVEN_def)
qed simp

section \<open>Addition and subtraction\<close>

lemma mod_once: "(m :: nat) mod 2 ^ 32 = (if m < 2 ^ 32 then m else m - 2 ^ 32)" if "m < 2 * 2 ^ 32"
  using that by (auto simp: mod_if)

definition carry_out :: "u32 \<Rightarrow> u32 \<Rightarrow> u32 \<Rightarrow> u32" where
  "carry_out s l c = (if s \<noteq> l then (if s < l then 1 else 0) else c)"

definition borrow_out :: "u32 \<Rightarrow> u32 \<Rightarrow> u32 \<Rightarrow> u32" where
  "borrow_out s l c = (if s \<noteq> l then (if s > l then 1 else 0) else c)"

lemma carry_out_le: "unat c \<le> 1 \<Longrightarrow> unat (carry_out s l c) \<le> 1" "unat c \<le> 1 \<Longrightarrow> unat (borrow_out s l c) \<le> 1"
  by (simp_all add: carry_out_def borrow_out_def)

lemma word_add_carry:
  assumes "unat c \<le> 1"
  shows "unat (l + r + c) + 2 ^ 32 * unat (carry_out (l + r + c) l c) = unat l + unat r + unat c"
proof -
  have s: "unat (l + r + c) = (unat l + unat r + unat c) mod 2 ^ 32"
    by (simp add: unat_word_ariths mod_simps)
  have m: "unat l + unat r + unat c < 2 * 2 ^ 32" using assms unat_less_32 [of l] unat_less_32 [of r] by linarith
  show ?thesis using s [unfolded mod_once [OF m]] assms unat_less_32 [of l] unat_less_32 [of r]
    unfolding carry_out_def word_unat_eq_iff word_less_nat_alt by (auto split: if_splits)
qed

lemma word_sub_borrow:
  assumes "unat c \<le> 1"
  shows "unat (l - r - c) + unat r + unat c = unat l + 2 ^ 32 * unat (borrow_out (l - r - c) l c)"
proof -
  define s where "s = l - r - c"
  have "l = s + r + c" by (simp add: s_def)
  then have l: "unat l = (unat s + unat r + unat c) mod 2 ^ 32" by (simp add: unat_word_ariths mod_simps)
  have m: "unat s + unat r + unat c < 2 * 2 ^ 32" using assms unat_less_32 [of s] unat_less_32 [of r] by linarith
  show ?thesis unfolding s_def [symmetric] using l [unfolded mod_once [OF m]] assms unat_less_32 [of s] unat_less_32 [of r]
    unfolding borrow_out_def word_unat_eq_iff word_less_nat_alt by (auto split: if_splits)
qed

lemma add_loop_Cons:
  "add_loop (x # xs) (y # ys) c = (let (c', t) = add_loop xs ys (carry_out (x + y + c) x c) in (c', (x + y + c) # t))"
  by (simp add: carry_out_def Let_def)

lemma sub_loop_Cons:
  "sub_loop (x # xs) (y # ys) c = (let (c', t) = sub_loop xs ys (borrow_out (x - y - c) x c) in (c', (x - y - c) # t))"
  by (simp add: borrow_out_def Let_def)

lemma add_loop_vval:
  assumes "length l = length r" "unat c \<le> 1"
  shows "\<exists>c' s. add_loop l r c = (c', s) \<and> vval s + 2 ^ (32 * length l) * unat c' = vval l + vval r + unat c
    \<and> unat c' \<le> 1 \<and> length s = length l"
  using assms
proof (induction l r arbitrary: c rule: list_induct2)
  case (Cons x xs y ys)
  obtain c' t where t: "add_loop xs ys (carry_out (x + y + c) x c) = (c', t)"
      "vval t + 2 ^ (32 * length xs) * unat c' = vval xs + vval ys + unat (carry_out (x + y + c) x c)" "unat c' \<le> 1" "length t = length xs"
    using Cons.IH [OF carry_out_le(1) [OF Cons.prems]] by blast
  have "vval ((x + y + c) # t) + 2 ^ (32 * length (x # xs)) * unat c'
      = unat (x + y + c) + 2 ^ 32 * (vval t + 2 ^ (32 * length xs) * unat c')" by (simp add: power_add algebra_simps)
  also have "\<dots> = vval (x # xs) + vval (y # ys) + unat c"
    unfolding t(2) using word_add_carry [OF Cons.prems, of x y] by (simp add: algebra_simps)
  finally show ?case using t by (simp add: add_loop_Cons del: add_loop.simps)
qed simp

lemma sub_loop_vval:
  assumes "length l = length r" "unat c \<le> 1"
  shows "\<exists>c' s. sub_loop l r c = (c', s) \<and> vval s + vval r + unat c = vval l + 2 ^ (32 * length l) * unat c'
    \<and> unat c' \<le> 1 \<and> length s = length l"
  using assms
proof (induction l r arbitrary: c rule: list_induct2)
  case (Cons x xs y ys)
  obtain c' t where t: "sub_loop xs ys (borrow_out (x - y - c) x c) = (c', t)"
      "vval t + vval ys + unat (borrow_out (x - y - c) x c) = vval xs + 2 ^ (32 * length xs) * unat c'" "unat c' \<le> 1" "length t = length xs"
    using Cons.IH [OF carry_out_le(2) [OF Cons.prems]] by blast
  have "vval (x # xs) + 2 ^ (32 * length (x # xs)) * unat c'
      = unat x + 2 ^ 32 * (vval xs + 2 ^ (32 * length xs) * unat c')" by (simp add: power_add algebra_simps)
  also have "\<dots> = vval ((x - y - c) # t) + vval (y # ys) + unat c"
    unfolding t(2) [symmetric] using word_sub_borrow [OF Cons.prems, of x y] by (simp add: algebra_simps)
  finally show ?case using t by (simp add: sub_loop_Cons del: sub_loop.simps)
qed simp

abbreviation wbase :: "nat \<Rightarrow> nat" where "wbase n \<equiv> 2 ^ (32 * n)"

lemma vli_addE:
  assumes "length l = n" "length r = n"
  obtains c s where "uECC_vli_add l r n = (c, s)" "vval s + wbase n * unat c = vval l + vval r" "length s = n" "unat c \<le> 1"
  using add_loop_vval [of l r 0] assms that by (auto simp: uECC_vli_add_def)

lemma vli_subE:
  assumes "length l = n" "length r = n"
  obtains c s where "uECC_vli_sub l r n = (c, s)" "vval s + vval r = vval l + wbase n * unat c" "length s = n" "unat c \<le> 1"
  using sub_loop_vval [of l r 0] assms that by (auto simp: uECC_vli_sub_def)

lemma unat_le_1: "unat (c :: u32) \<le> 1 \<Longrightarrow> c = 0 \<or> c = 1"
  by (auto simp: word_unat_eq_iff)

lemma vli_add_vval:
  assumes "length l = n" "length r = n"
  shows "vval (snd (uECC_vli_add l r n)) = (vval l + vval r) mod wbase n" "length (snd (uECC_vli_add l r n)) = n"
    "fst (uECC_vli_add l r n) = (if vval l + vval r < wbase n then 0 else 1)"
proof -
  obtain c s where cs: "uECC_vli_add l r n = (c, s)" "vval s + wbase n * unat c = vval l + vval r" "length s = n" "unat c \<le> 1"
    by (rule vli_addE [OF assms])
  have "vval s < wbase n" using vval_less [of s] cs(3) by simp
  then show "vval (snd (uECC_vli_add l r n)) = (vval l + vval r) mod wbase n" "length (snd (uECC_vli_add l r n)) = n"
    "fst (uECC_vli_add l r n) = (if vval l + vval r < wbase n then 0 else 1)"
    using cs(1,2,3) unat_le_1 [OF cs(4)] by (auto simp: cs(2) [symmetric])
qed

lemma vli_sub_vval:
  assumes "length l = n" "length r = n"
  shows "vval (snd (uECC_vli_sub l r n)) = (if vval r \<le> vval l then vval l - vval r else vval l + wbase n - vval r)"
    "length (snd (uECC_vli_sub l r n)) = n" "fst (uECC_vli_sub l r n) = (if vval r \<le> vval l then 0 else 1)"
proof -
  obtain c s where cs: "uECC_vli_sub l r n = (c, s)" "vval s + vval r = vval l + wbase n * unat c" "length s = n" "unat c \<le> 1"
    by (rule vli_subE [OF assms])
  have "vval s < wbase n" using vval_less [of s] cs(3) by simp
  then show "vval (snd (uECC_vli_sub l r n)) = (if vval r \<le> vval l then vval l - vval r else vval l + wbase n - vval r)"
    "length (snd (uECC_vli_sub l r n)) = n" "fst (uECC_vli_sub l r n) = (if vval r \<le> vval l then 0 else 1)"
    using cs(1,2,3) unat_le_1 [OF cs(4)] by auto
qed

section \<open>Comparison\<close>

lemma vval_take_Suc: "i < length xs \<Longrightarrow> vval (take (Suc i) xs) = vval (take i xs) + wbase i * unat (xs ! i)"
  by (simp add: take_Suc_conv_app_nth vval_append min_absorb2)

lemma cmp_loop_vval:
  assumes "n \<le> length l" "n \<le> length r"
  shows "cmp_loop l r n = (if vval (take n r) < vval (take n l) then 1 else if vval (take n l) < vval (take n r) then - 1 else 0)"
  using assms
proof (induction n)
  case (Suc i)
  have v: "vval (take i l) < wbase i" "vval (take i r) < wbase i" using Suc.prems vval_less [of "take i l"] vval_less [of "take i r"] by simp_all
  have gt: "a + wbase i * x < b + wbase i * y" if "x < y" "a < wbase i" for a b x y
  proof -
    have "a + wbase i * x < wbase i * Suc x" using that(2) by simp
    also have "\<dots> \<le> wbase i * y" using that(1) by (intro mult_left_mono) simp_all
    finally show ?thesis by simp
  qed
  consider "l ! i > r ! i" | "l ! i < r ! i" | "l ! i = r ! i" by (metis linorder_cases)
  then show ?case
  proof cases
    case 1
    then show ?thesis using Suc gt [of "unat (r ! i)" "unat (l ! i)"] v by (simp add: vval_take_Suc word_less_nat_alt)
  next
    case 2
    then show ?thesis using Suc gt [of "unat (l ! i)" "unat (r ! i)" "vval (take i l)" "vval (take i r)"] v
      by (simp add: vval_take_Suc word_less_nat_alt)
  next
    case 3
    then show ?thesis using Suc by (simp add: vval_take_Suc)
  qed
qed simp

lemma cmp_unsafe_vval:
  assumes "length l = n" "length r = n"
  shows "uECC_vli_cmp_unsafe l r n = (if vval r < vval l then 1 else if vval l < vval r then - 1 else 0)"
  using cmp_loop_vval [of n l r] assms by (simp add: uECC_vli_cmp_unsafe_def)

lemma cmp_vval:
  assumes "length l = n" "length r = n"
  shows "uECC_vli_cmp l r n = (if vval r < vval l then 1 else if vval l < vval r then - 1 else 0)"
proof -
  have "vval r < wbase n" using vval_less [of r] assms(2) by simp
  moreover have "uECC_vli_isZero (snd (uECC_vli_sub l r n)) n \<longleftrightarrow> vval (snd (uECC_vli_sub l r n)) = 0"
    by (rule isZero_vval [OF vli_sub_vval(2) [OF assms]])
  ultimately show ?thesis
    by (cases "vval r \<le> vval l") (simp_all add: uECC_vli_cmp_def case_prod_beta vli_sub_vval [OF assms])
qed

section \<open>Halving\<close>

lemma unat_or_disjoint:
  fixes a b :: u32
  assumes "unat a < 2 ^ 31" "b = 0 \<or> b = HIGH_BIT_SET"
  shows "unat (a OR b) = unat a + unat b"
proof (cases "b = 0")
  case False
  then have b: "b = 2 ^ 31" using assms(2) by (simp add: HIGH_BIT_SET_def)
  have "a div 2 ^ 31 = 0" using assms(1) by (simp add: word_unat_eq_iff unat_div_distrib)
  then have n: "\<not> bit a 31" unfolding bit_iff_odd by (metis even_zero)
  have "a + b = a OR b" unfolding b
  proof (rule disjunctive_add)
    fix k
    show "\<not> bit a k \<or> \<not> bit (2 ^ 31 :: u32) k" using n by (cases "k = 31") (simp_all only: bit_exp_iff, auto)
  qed
  moreover have "unat (a + b) = unat a + unat b" using assms(1) by (simp add: unat_word_ariths b)
  ultimately show ?thesis by simp
qed simp

lemma push_bit_31: "push_bit 31 t = (if even (unat t) then 0 else HIGH_BIT_SET)"
proof -
  have "unat (push_bit 31 t) = 2 ^ 31 * unat t mod 2 ^ 32" by (simp add: push_bit_eq_mult unat_word_ariths mult.commute)
  also have "\<dots> = 2 ^ 31 * (unat t mod 2)" using mult_mod_right [of "2 ^ 31" "unat t" 2] by simp
  finally show ?thesis by (auto simp: HIGH_BIT_SET_def word_unat_eq_iff odd_iff_mod_2_eq_one)
qed

lemma unat_half: "unat (drop_bit 1 (t :: u32)) = unat t div 2" "unat (drop_bit 1 (t :: u32)) < 2 ^ 31"
proof -
  show h: "unat (drop_bit 1 t) = unat t div 2" by (simp add: drop_bit_eq_div unat_div_distrib)
  then show "unat (drop_bit 1 t) < 2 ^ 31" using unat_less_32 [of t] by simp
qed

lemma rshift1_loop_vval:
  "vval (fst (rshift1_loop ws)) = vval ws div 2 \<and> length (fst (rshift1_loop ws)) = length ws
     \<and> snd (rshift1_loop ws) = (if even (vval ws) then 0 else HIGH_BIT_SET)"
proof (induction ws)
  case (Cons t ts)
  obtain rs c where r: "rshift1_loop ts = (rs, c)" by fastforce
  have ih: "vval rs = vval ts div 2" "length rs = length ts" "c = (if even (vval ts) then 0 else HIGH_BIT_SET)" using Cons r by simp_all
  have c: "unat c = 2 ^ 31 * (vval ts mod 2)" by (simp add: ih(3) HIGH_BIT_SET_def odd_iff_mod_2_eq_one)
  have "unat (drop_bit 1 t OR c) = unat t div 2 + 2 ^ 31 * (vval ts mod 2)"
    using unat_or_disjoint [OF unat_half(2), of c t] ih(3) unfolding c unat_half(1) by (auto split: if_splits)
  moreover have "vval (t # ts) div 2 = unat t div 2 + 2 ^ 31 * vval ts" by simp
  moreover have "2147483648 * vval ts = 2147483648 * (vval ts mod 2) + 4294967296 * (vval ts div 2)"
    using mod_mult_div_eq [of "vval ts" 2] by linarith
  ultimately show ?case using r ih by (simp add: push_bit_31)
qed simp

lemma rshift1_vval:
  "length a = n \<Longrightarrow> vval (uECC_vli_rshift1 a n) = vval a div 2" "length a = n \<Longrightarrow> length (uECC_vli_rshift1 a n) = n"
  using rshift1_loop_vval [of a] by (simp_all add: uECC_vli_rshift1_def)

section \<open>Multiplication\<close>

fun aval :: "acc \<Rightarrow> nat" where
  "aval (r0, r1, r2) = unat r0 + 2 ^ 32 * unat r1 + 2 ^ 64 * unat r2"

lemma unat_less_64: "unat (w :: u64) < 2 ^ 64"
  using unsigned_less [of w, where ?'a = nat] by simp

lemma unat_ucast_64: "unat (ucast (a :: u32) :: u64) = unat a"
  by (simp add: unat_ucast_up)

lemma unat_join_64: "unat (push_bit 32 (ucast (h :: u32)) OR ucast (l :: u32) :: u64) = 2 ^ 32 * unat h + unat l"
proof -
  have "push_bit 32 (ucast h) + ucast l = (push_bit 32 (ucast h) OR ucast l :: u64)"
  proof (rule disjunctive_add)
    fix k
    show "\<not> bit (push_bit 32 (ucast h) :: u64) k \<or> \<not> bit (ucast l :: u64) k"
      using bit_imp_le_length [of l k] by (auto simp: bit_push_bit_iff bit_ucast_iff)
  qed
  moreover have "unat (push_bit 32 (ucast h) + ucast l :: u64) = 2 ^ 32 * unat h + unat l"
    using unat_less_32 [of h] unat_less_32 [of l]
    by (simp add: push_bit_eq_mult unat_word_ariths unat_ucast_64)
  ultimately show ?thesis by simp
qed

lemma unat_split_64: "unat (ucast (x :: u64) :: u32) + 2 ^ 32 * unat (ucast (drop_bit 32 x) :: u32) = unat x"
proof -
  have h: "unat (drop_bit 32 x) = unat x div 2 ^ 32" by (simp add: drop_bit_eq_div unat_div_distrib)
  have "unat (ucast x :: u32) = unat x mod 2 ^ 32" "unat (ucast (drop_bit 32 x) :: u32) = unat x div 2 ^ 32 mod 2 ^ 32"
    by (simp_all add: h take_bit_eq_mod unsigned_ucast_eq)
  moreover have "unat x div 2 ^ 32 < 2 ^ 32" using unat_less_64 [of x] by (simp add: less_mult_imp_div_less)
  ultimately show ?thesis by simp
qed

lemma muladd_aval:
  assumes "aval r + 2 ^ 64 < 2 ^ 96"
  shows "aval (muladd a b r) = aval r + unat a * unat b"
proof -
  obtain r0 r1 r2 where r: "r = (r0, r1, r2)" by (cases r)
  define p :: u64 where "p = ucast a * ucast b"
  define q :: u64 where "q = push_bit 32 (ucast r1) OR ucast r0"
  have ab: "unat a * unat b < 2 ^ 64"
    using mult_strict_mono [of "unat a" "2 ^ 32" "unat b" "2 ^ 32"] unat_less_32 [of a] unat_less_32 [of b] by simp
  have p: "unat p = unat a * unat b" using ab by (simp add: p_def unat_word_ariths unat_ucast_64)
  have q: "unat q = 2 ^ 32 * unat r1 + unat r0" unfolding q_def by (rule unat_join_64)
  let ?c = "if q + p < p then 1 else 0 :: u32"
  have m: "muladd a b r = (ucast (q + p), ucast (drop_bit 32 (q + p)), r2 + ?c)"
    by (simp add: muladd_def r p_def q_def Let_def)
  have s: "unat (q + p) + 2 ^ 64 * unat ?c = unat q + unat p"
  proof (cases "unat q + unat p < 2 ^ 64")
    case True
    then have "unat (q + p) = unat q + unat p" by (simp add: unat_word_ariths)
    then show ?thesis by (simp add: word_less_nat_alt)
  next
    case False
    then have "unat (q + p) = unat q + unat p - 2 ^ 64"
      using unat_less_64 [of q] unat_less_64 [of p] by (simp add: unat_word_ariths mod_if)
    then show ?thesis using False unat_less_64 [of q] by (simp add: word_less_nat_alt)
  qed
  have "unat r2 + 1 < 2 ^ 32" using assms by (simp add: r)
  then have r2: "unat (r2 + ?c) = unat r2 + unat ?c" by (simp add: unat_word_ariths)
  have "aval (muladd a b r) = unat (q + p) + 2 ^ 64 * unat (r2 + ?c)"
    unfolding m aval.simps unat_split_64 by simp
  also have "\<dots> = unat q + unat p + 2 ^ 64 * unat r2" unfolding r2 using s by (simp add: algebra_simps)
  finally show ?thesis by (simp add: r p q)
qed

lemma mult_column_aval:
  assumes "aval r + n * 2 ^ 64 + 2 ^ 64 < 2 ^ 96"
  shows "aval (mult_column l m k i n r) = aval r + (\<Sum>j \<in> {i..<i + n}. unat (l ! j) * unat (m ! (k - j)))
    \<and> aval (mult_column l m k i n r) \<le> aval r + n * 2 ^ 64"
  using assms
proof (induction n arbitrary: i r)
  case (Suc n)
  let ?r = "muladd (l ! i) (m ! (k - i)) r"
  have v: "aval ?r = aval r + unat (l ! i) * unat (m ! (k - i))" using muladd_aval Suc.prems by simp
  have "unat (l ! i) * unat (m ! (k - i)) < 2 ^ 64"
    using mult_strict_mono [OF unat_less_32 unat_less_32, of "l ! i" "m ! (k - i)"] by (simp add: mult.commute)
  then have b: "aval ?r + n * 2 ^ 64 + 2 ^ 64 < 2 ^ 96" "aval ?r + n * 2 ^ 64 \<le> aval r + Suc n * 2 ^ 64"
    using v Suc.prems by simp_all
  show ?case using Suc.IH [OF b(1), of "i + 1"] v b(2) by (simp add: sum.atLeast_Suc_lessThan)
qed simp

definition column :: "vli \<Rightarrow> vli \<Rightarrow> nat \<Rightarrow> nat \<Rightarrow> nat" where
  "column l m n k = (\<Sum>j | j < n \<and> j \<le> k \<and> k - j < n. unat (l ! j) * unat (m ! (k - j)))"

lemma column_mult_column:
  assumes "aval r < 2 ^ 64" "n < 2 ^ 16" "k < 2 * n - 1"
  shows "aval (if k < n then mult_column l m k 0 (k + 1) r else mult_column l m k (k + 1 - n) (n - (k + 1 - n)) r)
    = aval r + column l m n k"
proof (cases "k < n")
  case True
  have "{j. j < n \<and> j \<le> k \<and> k - j < n} = {0..<0 + (k + 1)}" using True by auto
  then show ?thesis
    using mult_column_aval [of r "k + 1" l m k 0] assms(1,2) True unfolding column_def by simp
next
  case False
  have "{j. j < n \<and> j \<le> k \<and> k - j < n} = {k + 1 - n..<k + 1 - n + (n - (k + 1 - n))}" using False assms(3) by auto
  then show ?thesis
    using mult_column_aval [of r "n - (k + 1 - n)" l m k "k + 1 - n"] assms(1,2) False unfolding column_def by simp
qed

lemma mult_loop_vval:
  assumes "aval r < 2 ^ 64" "n < 2 ^ 16" "k + d \<le> 2 * n - 1"
  shows "\<exists>q. vval (mult_loop l m n k d r) + wbase (Suc d) * q = aval r + (\<Sum>j<d. column l m n (k + j) * wbase j)
    \<and> length (mult_loop l m n k d r) = Suc d"
  using assms
proof (induction d arbitrary: k r)
  case 0
  obtain r0 r1 r2 where "r = (r0, r1, r2)" by (cases r)
  then show ?case by (intro exI [of _ "unat r1 + 2 ^ 32 * unat r2"]) (simp add: algebra_simps)
next
  case (Suc d)
  obtain r0 r1 r2 where r': "(if k < n then mult_column l m k 0 (k + 1) r else mult_column l m k (k + 1 - n) (n - (k + 1 - n)) r) = (r0, r1, r2)"
    by (metis surj_pair)
  have v: "aval (r0, r1, r2) = aval r + column l m n k"
    unfolding r' [symmetric] by (rule column_mult_column) (use Suc.prems in simp_all)
  have "aval (r1, r2, 0) < 2 ^ 64" using unat_less_32 [of r1] unat_less_32 [of r2] by simp
  moreover have "(k + 1) + d \<le> 2 * n - 1" using Suc.prems(3) by simp
  ultimately obtain q where q: "vval (mult_loop l m n (k + 1) d (r1, r2, 0)) + wbase (Suc d) * q
        = aval (r1, r2, 0) + (\<Sum>j<d. column l m n (k + 1 + j) * wbase j)"
      "length (mult_loop l m n (k + 1) d (r1, r2, 0)) = Suc d"
    using Suc.IH [of "(r1, r2, 0)" "k + 1"] Suc.prems(2) by blast
  have u: "mult_loop l m n k (Suc d) r = r0 # mult_loop l m n (k + 1) d (r1, r2, 0)"
    unfolding mult_loop.simps r' by simp
  have "vval (mult_loop l m n k (Suc d) r) + wbase (Suc (Suc d)) * q
      = unat r0 + 2 ^ 32 * (vval (mult_loop l m n (k + 1) d (r1, r2, 0)) + wbase (Suc d) * q)"
    unfolding u by (simp add: power_add algebra_simps)
  also have "\<dots> = aval (r0, r1, r2) + (\<Sum>j<d. column l m n (k + Suc j) * wbase (Suc j))"
    unfolding q(1) by (simp add: algebra_simps sum_distrib_left sum_distrib_right power_add)
  also have "\<dots> = aval r + (\<Sum>j<Suc d. column l m n (k + j) * wbase j)"
    unfolding v by (simp add: sum.lessThan_Suc_shift del: sum.lessThan_Suc)
  finally show ?case using q(2) u by auto
qed

lemma column_sum:
  assumes "length l = n" "length m = n"
  shows "(\<Sum>k<2 * n - 1. column l m n k * wbase k) = vval l * vval m"
proof -
  let ?f = "\<lambda>(i, j). unat (l ! i) * unat (m ! j) * wbase (i + j)"
  let ?S = "{..<n} \<times> {..<n}"
  have "column l m n k * wbase k = (\<Sum>x | x \<in> ?S \<and> fst x + snd x = k. ?f x)" for k
    unfolding column_def sum_distrib_right
    by (rule sum.reindex_bij_witness [of _ fst "\<lambda>i. (i, k - i)"]) auto
  then have "(\<Sum>k<2 * n - 1. column l m n k * wbase k) = (\<Sum>k<2 * n - 1. \<Sum>x | x \<in> ?S \<and> fst x + snd x = k. ?f x)" by simp
  also have "\<dots> = sum ?f ?S" by (rule sum.group) auto
  also have "\<dots> = (\<Sum>i<n. unat (l ! i) * wbase i) * (\<Sum>j<n. unat (m ! j) * wbase j)"
    unfolding sum_product sum.cartesian_product by (rule sum.cong) (auto simp: power_add algebra_simps)
  finally show ?thesis unfolding vval_nth_sum assms by simp
qed

lemma vli_mult_vval:
  assumes "length l = n" "length m = n" "0 < n" "n < 2 ^ 16"
  shows "vval (uECC_vli_mult l m n) = vval l * vval m" "length (uECC_vli_mult l m n) = 2 * n"
proof -
  obtain q where q: "vval (uECC_vli_mult l m n) + wbase (2 * n) * q = vval l * vval m" "length (uECC_vli_mult l m n) = 2 * n"
    using mult_loop_vval [of "(0, 0, 0)" n 0 "2 * n - 1" l m] assms column_sum [OF assms(1,2)]
    by (auto simp: uECC_vli_mult_def mult.commute)
  have "vval l * vval m < wbase n * wbase n"
    using vval_less [of l] vval_less [of m] assms(1,2) by (intro mult_strict_mono) simp_all
  also have "\<dots> = wbase (2 * n)" by (simp add: power_add [symmetric])
  finally have "q = 0" using q(1) by (cases q) auto
  then show "vval (uECC_vli_mult l m n) = vval l * vval m" "length (uECC_vli_mult l m n) = 2 * n" using q by simp_all
qed

section \<open>Sums and differences modulo a number\<close>

lemma modAdd_vval:
  assumes "length l = n" "length r = n" "length m = n" "vval l < vval m" "vval r < vval m"
  shows "vval (uECC_vli_modAdd l r m n) = (vval l + vval r) mod vval m" "length (uECC_vli_modAdd l r m n) = n"
proof -
  have w: "vval m < wbase n" using vval_less [of m] assms(3) by simp
  note a = vli_add_vval [OF assms(1,2)]
  note c = cmp_unsafe_vval [OF assms(3) a(2)]
  note d = vli_sub_vval [OF a(2) assms(3)]
  show "length (uECC_vli_modAdd l r m n) = n" using a(2) d(2) by (simp add: uECC_vli_modAdd_def case_prod_beta)
  show "vval (uECC_vli_modAdd l r m n) = (vval l + vval r) mod vval m"
  proof (cases "vval l + vval r < wbase n")
    case True
    then show ?thesis using a(1,3) c d(1) assms(4,5) by (simp add: uECC_vli_modAdd_def case_prod_beta mod_if)
  next
    case False
    have s: "(vval l + vval r) mod wbase n = vval l + vval r - wbase n" using False assms(4,5) w by (simp add: mod_if)
    have "(vval l + vval r) mod vval m = vval l + vval r - vval m" using False assms(4,5) w by (simp add: mod_if)
    then show ?thesis using False s a(1,3) d(1) assms(4,5) w by (simp add: uECC_vli_modAdd_def case_prod_beta)
  qed
qed

lemma modSub_vval:
  assumes "length l = n" "length r = n" "length m = n" "vval l < vval m" "vval r < vval m"
  shows "vval (uECC_vli_modSub l r m n) = (vval l + vval m - vval r) mod vval m" "length (uECC_vli_modSub l r m n) = n"
proof -
  have w: "vval m < wbase n" using vval_less [of m] assms(3) by simp
  note d = vli_sub_vval [OF assms(1,2)]
  note a = vli_add_vval [OF d(2) assms(3)]
  show "length (uECC_vli_modSub l r m n) = n" using a(2) d(2) by (simp add: uECC_vli_modSub_def case_prod_beta)
  show "vval (uECC_vli_modSub l r m n) = (vval l + vval m - vval r) mod vval m"
  proof (cases "vval r \<le> vval l")
    case True
    then have "(vval l + vval m - vval r) mod vval m = vval l - vval r" using assms(4) by (simp add: mod_if)
    then show ?thesis using True d(1,3) by (simp add: uECC_vli_modSub_def case_prod_beta)
  next
    case False
    have "(vval l + wbase n - vval r + vval m) mod wbase n = vval l + vval m - vval r"
      using False w assms(5) by (simp add: mod_if)
    then show ?thesis using False d(1,3) a(1) assms(5) by (simp add: uECC_vli_modSub_def case_prod_beta)
  qed
qed

section \<open>The highest bit\<close>

lemma vval_split: "i \<le> length a \<Longrightarrow> vval a = vval (take i a) + wbase i * vval (drop i a)"
  using vval_append [of "take i a" "drop i a"] by simp

lemma vval_take: "i \<le> length a \<Longrightarrow> vval (take i a) = vval a mod wbase i"
  using vval_split [of i a] vval_less [of "take i a"] by simp

lemma top_word:
  assumes "length a = Suc k"
  shows "vval a = vval (take k a) + wbase k * unat (a ! k)"
proof -
  have "drop k a = [a ! k]" using assms by (metis Cons_nth_drop_Suc drop_all le_refl lessI)
  then show ?thesis using vval_split [of k a] assms by simp
qed

lemma or_top:
  assumes "length a = n" "0 < n" "2 * vval a < wbase n" "c = 0 \<or> c = HIGH_BIT_SET"
  shows "vval (a[n - 1 := a ! (n - 1) OR c]) = vval a + (if c = 0 then 0 else wbase n div 2)"
proof -
  obtain k where k: "n = Suc k" using assms(2) by (cases n) auto
  have "wbase k * (2 * unat (a ! k)) \<le> 2 * vval a" using top_word [of a k] assms(1) k by simp
  also have "\<dots> < wbase k * 2 ^ 32" using assms(3) k by (simp add: power_add mult.commute)
  finally have t: "unat (a ! k) < 2 ^ 31" by simp
  have "vval (a[k := a ! k OR c]) = vval (take k a) + wbase k * (unat (a ! k) + unat c)"
    using top_word [of "a[k := a ! k OR c]" k] assms(1) k unat_or_disjoint [OF t assms(4)] by simp
  also have "\<dots> = vval a + wbase k * unat c" using top_word [of a k] assms(1) k by (simp add: algebra_simps)
  finally show ?thesis using assms(4) k by (auto simp: HIGH_BIT_SET_def power_add)
qed

lemma digit_bits_bounds: "unat d < 2 ^ digit_bits d \<and> (d \<noteq> 0 \<longrightarrow> 2 ^ digit_bits d \<le> 2 * unat d)"
proof (induction d rule: digit_bits.induct)
  case (1 d)
  show ?case
  proof (cases "d = 0")
    case True
    then show ?thesis by (simp add: digit_bits.simps)
  next
    case False
    have b: "digit_bits d = Suc (digit_bits (drop_bit 1 d))" using False by (subst digit_bits.simps) simp
    have ih: "unat d div 2 < 2 ^ digit_bits (drop_bit 1 d)" "drop_bit 1 d \<noteq> 0 \<Longrightarrow> 2 ^ digit_bits (drop_bit 1 d) \<le> 2 * (unat d div 2)"
      using 1 False unat_half(1) [of d] by simp_all
    have p: "0 < unat d" using False by (simp add: unat_gt_0)
    show ?thesis
    proof (cases "drop_bit 1 d = 0")
      case True
      then have "unat d div 2 = 0" "digit_bits d = 1" using unat_half(1) [of d] b by (simp_all add: digit_bits.simps [of 0])
      then show ?thesis using p by auto
    next
      case False
      then show ?thesis using ih b by auto
    qed
  qed
qed

lemma digit_bits_32: "2 ^ 31 \<le> unat d \<Longrightarrow> digit_bits d = 32"
proof -
  assume d: "2 ^ 31 \<le> unat d"
  have "d \<noteq> 0" using d by auto
  then have "(2::nat) ^ 31 < 2 ^ digit_bits d" "(2::nat) ^ digit_bits d < 2 ^ 33"
    using digit_bits_bounds [of d] d unat_less_32 [of d] by auto
  then have "31 < digit_bits d" "digit_bits d < 33" by (simp_all only: power_strict_increasing_iff [of "2 :: nat"] one_less_numeral_iff semiring_norm)
  then show ?thesis by simp
qed

text \<open>The moduli of the curve have their highest bit set.\<close>

definition full :: "nat \<Rightarrow> vli \<Rightarrow> bool" where
  "full n m \<longleftrightarrow> length m = n \<and> 0 < n \<and> wbase n \<le> 2 * vval m"

lemma full_numBits:
  assumes "full n m"
  shows "uECC_vli_numBits m n = 32 * n"
proof -
  obtain k where k: "n = Suc k" "length m = Suc k" using assms by (cases n) (auto simp: full_def)
  have "wbase k * 2 ^ 32 \<le> 2 * vval m" using assms k by (simp add: full_def power_add mult.commute)
  also have "\<dots> < wbase k * (2 * (unat (m ! k) + 1))" using top_word [OF k(2)] vval_less [of "take k m"] k(2) by (simp add: algebra_simps)
  finally have "2 ^ 32 < 2 * (unat (m ! k) + 1)" by simp
  then have t: "2 ^ 31 \<le> unat (m ! k)" by simp
  then have "m ! k \<noteq> 0" by auto
  then show ?thesis using digit_bits_32 [OF t] by (simp add: uECC_vli_numBits_def k(1))
qed

section \<open>Remainders\<close>

lemma mmod_halve_vval:
  assumes "length m = 2 * n" "0 < n"
  shows "vval (mmod_halve m n) = vval m div 2" "length (mmod_halve m n) = 2 * n"
proof -
  let ?lo = "take n m" and ?hi = "drop n m"
  have l: "length ?lo = n" "length ?hi = n" "?hi \<noteq> []" using assms by auto
  have r: "uECC_vli_rshift1 m n = uECC_vli_rshift1 ?lo n" by (simp add: uECC_vli_rshift1_def)
  note lo = rshift1_vval [OF l(1)] and hi = rshift1_vval [OF l(2)]
  let ?c = "push_bit 31 (m ! n)"
  have e: "even (unat (m ! n)) \<longleftrightarrow> even (vval ?hi)" using assms by (cases ?hi) (auto simp: nth_via_drop)
  have c: "?c = (if even (vval ?hi) then 0 else HIGH_BIT_SET)" by (simp add: push_bit_31 e)
  have "2 * vval (uECC_vli_rshift1 ?lo n) < wbase n" using lo vval_less [of ?lo] l(1) by simp
  then have t: "vval ((uECC_vli_rshift1 ?lo n)[n - 1 := uECC_vli_rshift1 ?lo n ! (n - 1) OR ?c])
      = vval ?lo div 2 + (if even (vval ?hi) then 0 else wbase n div 2)"
    using or_top [OF lo(2) assms(2), of ?c] lo(1) c by (auto simp: HIGH_BIT_SET_def)
  have w: "even (wbase n)" using assms(2) by simp
  have "vval m div 2 = vval ?lo div 2 + (if even (vval ?hi) then 0 else wbase n div 2) + wbase n * (vval ?hi div 2)"
  proof -
    obtain h where h: "wbase n = 2 * h" using w by blast
    have "vval m = vval ?lo + 2 * (h * vval ?hi)" using vval_split [of n m] assms(1) h by simp
    then have "vval m div 2 = vval ?lo div 2 + h * vval ?hi" by simp
    moreover have "h * vval ?hi = h * (vval ?hi mod 2) + h * (2 * (vval ?hi div 2))"
      by (simp only: distrib_left [symmetric] mod_mult_div_eq)
    ultimately show ?thesis by (auto simp: h mod2_eq_if)
  qed
  then show "vval (mmod_halve m n) = vval m div 2"
    using t hi lo(2) by (simp add: mmod_halve_def Let_def r vval_append)
  show "length (mmod_halve m n) = 2 * n" using hi lo by (simp add: mmod_halve_def Let_def r)
qed

lemma mmod_loop_vval:
  assumes "0 < n" "length m = 2 * n" "length v = 2" "ind < 2" "length (v ! 0) = 2 * n" "length (v ! 1) = 2 * n"
    "c > 0 \<Longrightarrow> vval m = M * 2 ^ (c - 1)" "vval (v ! ind) < M * 2 ^ c"
  shows "vval (mmod_loop c n ind v m) = vval (v ! ind) mod M \<and> length (mmod_loop c n ind v m) = 2 * n"
  using assms
proof (induction c arbitrary: ind v m)
  case 0
  then show ?case using less_2_cases [of ind] by auto
next
  case (Suc c)
  have i: "ind = 0 \<or> ind = 1" using Suc.prems(4) by auto
  have l: "length (v ! ind) = 2 * n" using i Suc.prems(5,6) by auto
  note sb = vli_sub_vval [OF l Suc.prems(2)]
  define d where "d = snd (uECC_vli_sub (v ! ind) m (2 * n))"
  define j where "j = (if vval m \<le> vval (v ! ind) then 1 - ind else ind)"
  have m: "vval m = M * 2 ^ c" using Suc.prems(7) by simp
  have x: "vval (v[1 - ind := d] ! j) = (if vval m \<le> vval (v ! ind) then vval (v ! ind) - vval m else vval (v ! ind))"
    using i Suc.prems(3) sb(1) by (auto simp: j_def d_def)
  have r1: "vval (v[1 - ind := d] ! j) mod M = vval (v ! ind) mod M"
    unfolding x by (auto simp: m) (metis dvd_triv_left le_add_diff_inverse2 mod_mult_self2)
  have r2: "vval (v[1 - ind := d] ! j) < M * 2 ^ c" unfolding x using Suc.prems(8) m by auto
  have u: "mmod_loop (Suc c) n ind v m = mmod_loop c n j (v[1 - ind := d]) (mmod_halve m n)"
    using sb(3) by (auto simp: case_prod_beta d_def j_def mult.commute Let_def)
  have h: "c > 0 \<Longrightarrow> vval (mmod_halve m n) = M * 2 ^ (c - 1)"
    using mmod_halve_vval(1) [OF Suc.prems(2,1)] m by (cases c) auto
  have "vval (mmod_loop c n j (v[1 - ind := d]) (mmod_halve m n)) = vval (v[1 - ind := d] ! j) mod M
      \<and> length (mmod_loop c n j (v[1 - ind := d]) (mmod_halve m n)) = 2 * n"
  proof (rule Suc.IH [OF Suc.prems(1) mmod_halve_vval(2) [OF Suc.prems(2,1)] _ _ _ _ h r2])
    show "length (v[1 - ind := d]) = 2" "j < 2" using Suc.prems(3,4) by (auto simp: j_def)
    show "length (v[1 - ind := d] ! 0) = 2 * n" "length (v[1 - ind := d] ! 1) = 2 * n"
      using i Suc.prems(3,5,6) sb(2) by (auto simp: d_def)
  qed
  then show ?case unfolding u r1 .
qed

lemma mmod_vval:
  assumes "full n m" "length p = 2 * n"
  shows "vval (uECC_vli_mmod p m n) = vval p mod vval m" "length (uECC_vli_mmod p m n) = n"
proof -
  have n: "0 < n" "length m = n" "wbase n \<le> 2 * vval m" using assms(1) by (simp_all add: full_def)
  have m: "0 < vval m" using n(3) by (cases "vval m") auto
  let ?x = "mmod_loop (32 * n + 1) n 1 [replicate (2 * n) 0, p] (replicate n 0 @ m)"
  have "vval p < wbase n * wbase n" using vval_less [of p] assms(2) by (simp add: power_add [symmetric])
  also have "\<dots> \<le> wbase n * (2 * vval m)" using n(3) by (intro mult_left_mono) simp_all
  finally have "vval p < vval m * 2 ^ (32 * n + 1)" by (simp add: mult.commute mult.left_commute)
  then have x: "vval ?x = vval p mod vval m" "length ?x = 2 * n"
    using mmod_loop_vval [of n "replicate n 0 @ m" "[replicate (2 * n) 0, p]" 1 "32 * n + 1" "vval m"] n assms(2)
    by (simp_all add: vval_append mult.commute)
  have e: "uECC_vli_mmod p m n = take n ?x"
    using n by (simp add: uECC_vli_mmod_def full_numBits [OF assms(1)] mmod_multiple_def uECC_vli_set_def uECC_vli_clear_def Let_def)
  have "vval p mod vval m < wbase n" using less_trans [OF mod_less_divisor [OF m] vval_less [of m]] n(2) by simp
  then show "vval (uECC_vli_mmod p m n) = vval p mod vval m" unfolding e using vval_take [of n ?x] x by simp
  show "length (uECC_vli_mmod p m n) = n" unfolding e using x by simp
qed

lemma modMult_vval:
  assumes "full n m" "length l = n" "length r = n" "n < 2 ^ 16"
  shows "vval (uECC_vli_modMult l r m n) = vval l * vval r mod vval m" "length (uECC_vli_modMult l r m n) = n"
proof -
  have "0 < n" using assms(1) by (simp add: full_def)
  note p = vli_mult_vval [OF assms(2,3) this assms(4)]
  show "vval (uECC_vli_modMult l r m n) = vval l * vval r mod vval m" "length (uECC_vli_modMult l r m n) = n"
    using mmod_vval [OF assms(1) p(2)] p(1) by (simp_all add: uECC_vli_modMult_def)
qed

section \<open>Inversion\<close>

definition half_mod :: "nat \<Rightarrow> nat \<Rightarrow> nat" where
  "half_mod M u = (if even u then u div 2 else (u + M) div 2)"

lemma half_mod_less: "u < M \<Longrightarrow> odd M \<Longrightarrow> half_mod M u < M"
  by (auto simp: half_mod_def)

lemma half_mod_dvd:
  assumes "odd M" "int M dvd int u * x - 2 * a"
  shows "int M dvd int (half_mod M u) * x - a"
proof -
  have "int M dvd 2 * int (half_mod M u) - int u" using assms(1) by (auto simp: half_mod_def of_nat_div)
  then have "int M dvd (2 * int (half_mod M u) - int u) * x + (int u * x - 2 * a)" using assms(2) by (intro dvd_add dvd_mult2)
  then have "int M dvd 2 * (int (half_mod M u) * x - a)" by (simp add: algebra_simps)
  moreover have "coprime (int M) 2" using assms(1) by simp
  ultimately show ?thesis using coprime_dvd_mult_right_iff by blast
qed

lemma modInv_update_vval:
  assumes "length u = n" "length m = n" "0 < n" "vval u < vval m" "odd (vval m)"
  shows "vval (vli_modInv_update u m n) = half_mod (vval m) (vval u)" "length (vli_modInv_update u m n) = n"
proof -
  have w: "vval m < wbase n" using vval_less [of m] assms(2) by simp
  have E: "EVEN u \<longleftrightarrow> even (vval u)" using EVEN_vval assms(1,3) by auto
  note a = vli_add_vval [OF assms(1,2)]
  note h = rshift1_vval [OF a(2)] and h0 = rshift1_vval [OF assms(1)]
  show "length (vli_modInv_update u m n) = n" using h(2) h0(2) by (simp add: vli_modInv_update_def case_prod_beta Let_def)
  show "vval (vli_modInv_update u m n) = half_mod (vval m) (vval u)"
  proof (cases "even (vval u) \<or> vval u + vval m < wbase n")
    case True
    then show ?thesis using E a h(1) h0(1) by (auto simp: vli_modInv_update_def half_mod_def case_prod_beta Let_def)
  next
    case False
    let ?s = "snd (uECC_vli_add u m n)"
    obtain k where k: "wbase n = 2 * k" using assms(3) by (metis dvd_power evenE mult_pos_pos zero_less_numeral)
    have v: "vval ?s = vval u + vval m - wbase n" using a(1) False assms(4) w by (simp add: mod_if)
    have t: "2 * vval (uECC_vli_rshift1 ?s n) < wbase n" using h(1) vval_less [of ?s] a(2) by simp
    have "vval (vli_modInv_update u m n) = vval ?s div 2 + wbase n div 2"
      using False E a(3) or_top [OF h(2) assms(3) t, of HIGH_BIT_SET] h(1)
      by (simp add: vli_modInv_update_def case_prod_beta Let_def HIGH_BIT_SET_def)
    also have "\<dots> = (vval u + vval m) div 2" using False v by (auto simp: k)
    finally show ?thesis using False by (simp add: half_mod_def)
  qed
qed

lemma modInv_sub_vval:
  assumes "length u = n" "length v = n" "length m = n" "0 < n" "vval u < vval m" "vval v < vval m" "odd (vval m)"
  defines "d \<equiv> (if vval u < vval v then vval u + vval m - vval v else vval u - vval v)"
  shows "vval (modInv_sub u v m n) = half_mod (vval m) d" "length (modInv_sub u v m n) = n" "d < vval m"
proof -
  have w: "vval m < wbase n" using vval_less [of m] assms(3) by simp
  define u1 where "u1 = (if uECC_vli_cmp_unsafe u v n < 0 then snd (uECC_vli_add u m n) else u)"
  note a = vli_add_vval [OF assms(1,3)]
  have l: "length u1 = n" using a(2) assms(1) by (simp add: u1_def)
  have c: "uECC_vli_cmp_unsafe u v n < 0 \<longleftrightarrow> vval u < vval v" using cmp_unsafe_vval [OF assms(1,2)] by auto
  note sb = vli_sub_vval [OF l assms(2)]
  have u1: "vval u1 = (if vval u < vval v then (vval u + vval m) mod wbase n else vval u)" using a(1) c by (simp add: u1_def)
  have d: "vval (snd (uECC_vli_sub u1 v n)) = d"
  proof (cases "vval u < vval v")
    case True
    then show ?thesis using sb(1) u1 w assms(5,6) by (auto simp: d_def mod_if)
  next
    case False
    then show ?thesis using sb(1) u1 by (simp add: d_def)
  qed
  show dm: "d < vval m" using assms(5,6) by (auto simp: d_def)
  show "vval (modInv_sub u v m n) = half_mod (vval m) d" "length (modInv_sub u v m n) = n"
    using modInv_update_vval [OF sb(2) assms(3,4) _ assms(7)] d dm by (simp_all add: modInv_sub_def u1_def)
qed

lemma gcd_half:
  fixes a b :: nat
  assumes "even a" "odd (gcd a b)"
  shows "gcd (a div 2) b = gcd a b"
proof -
  have "odd b" using assms by auto
  then have "coprime b 2" by simp
  then show ?thesis using assms(1) by (metis dvd_mult_div_cancel gcd_mult_left_left_cancel coprime_commute)
qed

lemma gcd_diff_half:
  fixes a b :: nat
  assumes "odd a" "odd b" "b < a"
  shows "gcd ((a - b) div 2) b = gcd a b"
proof -
  have g: "gcd (a - b) b = gcd a b" using assms(3) by (simp add: gcd_diff1_nat)
  have "odd (gcd a b)" using assms by auto
  then show ?thesis using gcd_half [of "a - b" b] assms g by simp
qed

text \<open>What the loop keeps: \<open>u\<close> times the input is \<open>a\<close>, \<open>v\<close> times the input is \<open>b\<close>, both modulo \<open>m\<close>, and the greatest common
  divisor of \<open>a\<close> and \<open>b\<close> stays the same.\<close>

definition inv_pair :: "vli \<Rightarrow> nat \<Rightarrow> int \<Rightarrow> vli \<Rightarrow> vli \<Rightarrow> bool" where
  "inv_pair m n x a u \<longleftrightarrow> length a = n \<and> length u = n \<and> 0 < vval a \<and> vval u < vval m \<and> int (vval m) dvd int (vval u) * x - int (vval a)"

lemma inv_pair_half:
  assumes "inv_pair m n x a u" "length m = n" "0 < n" "odd (vval m)" "EVEN a"
  shows "inv_pair m n x (uECC_vli_rshift1 a n) (vli_modInv_update u m n)" "vval (uECC_vli_rshift1 a n) = vval a div 2"
    "vval (uECC_vli_rshift1 a n) < vval a"
proof -
  have a: "length a = n" "length u = n" "0 < vval a" "vval u < vval m" "int (vval m) dvd int (vval u) * x - int (vval a)"
    using assms(1) by (simp_all add: inv_pair_def)
  have e: "even (vval a)" using assms(3,5) a(1) EVEN_vval [of a] by auto
  note h = rshift1_vval [OF a(1)] and up = modInv_update_vval [OF a(2) assms(2,3) a(4) assms(4)]
  have "2 * int (vval a div 2) = int (vval a)" using e by (auto simp: of_nat_div)
  then have "int (vval m) dvd int (half_mod (vval m) (vval u)) * x - int (vval a div 2)"
    using half_mod_dvd [OF assms(4), of "vval u" x "int (vval a div 2)"] a(5) by simp
  moreover have "0 < vval a div 2" using e a(3) by auto
  ultimately show "inv_pair m n x (uECC_vli_rshift1 a n) (vli_modInv_update u m n)"
    using h up half_mod_less [OF a(4) assms(4)] by (simp add: inv_pair_def)
  show "vval (uECC_vli_rshift1 a n) = vval a div 2" "vval (uECC_vli_rshift1 a n) < vval a" using h(1) a(3) by simp_all
qed

lemma inv_pair_sub:
  assumes "inv_pair m n x a u" "inv_pair m n x b v" "length m = n" "0 < n" "odd (vval m)" "\<not> EVEN a" "\<not> EVEN b" "vval b < vval a"
  defines "a' \<equiv> uECC_vli_rshift1 (snd (uECC_vli_sub a b n)) n"
  shows "inv_pair m n x a' (modInv_sub u v m n)" "vval a' = (vval a - vval b) div 2" "vval a' < vval a"
proof -
  have a: "length a = n" "length u = n" "0 < vval a" "vval u < vval m" "int (vval m) dvd int (vval u) * x - int (vval a)"
    and b: "length b = n" "length v = n" "vval v < vval m" "int (vval m) dvd int (vval v) * x - int (vval b)"
    using assms(1,2) by (simp_all add: inv_pair_def)
  have "a \<noteq> []" "b \<noteq> []" using assms(4) a(1) b(1) by auto
  then have e: "odd (vval a)" "odd (vval b)" using assms(6,7) EVEN_vval by blast+
  note sb = vli_sub_vval [OF a(1) b(1)]
  note h = rshift1_vval [OF sb(2)] and up = modInv_sub_vval [OF a(2) b(2) assms(3,4) a(4) b(3) assms(5)]
  show v: "vval a' = (vval a - vval b) div 2" unfolding a'_def using h(1) sb(1) assms(8) by simp
  then show "vval a' < vval a" using a(3) by simp
  let ?d = "if vval u < vval v then vval u + vval m - vval v else vval u - vval v"
  have two: "2 * int ((vval a - vval b) div 2) = int (vval a) - int (vval b)" using e assms(8) by (auto simp: of_nat_div of_nat_diff)
  have "int ?d * x - (int (vval a) - int (vval b))
      = (int (vval u) * x - int (vval a)) - (int (vval v) * x - int (vval b)) + int (vval m) * (if vval u < vval v then x else 0)"
    using b(3) by (auto simp: of_nat_diff algebra_simps)
  moreover have "int (vval m) dvd (int (vval u) * x - int (vval a)) - (int (vval v) * x - int (vval b))
      + int (vval m) * (if vval u < vval v then x else 0)"
    by (intro dvd_add dvd_diff a(5) b(4) dvd_triv_left)
  ultimately have "int (vval m) dvd int ?d * x - 2 * int ((vval a - vval b) div 2)" unfolding two by metis
  then have "int (vval m) dvd int (half_mod (vval m) ?d) * x - int ((vval a - vval b) div 2)" by (rule half_mod_dvd [OF assms(5)])
  moreover have "0 < (vval a - vval b) div 2" using e assms(8) by (auto elim!: oddE)
  ultimately show "inv_pair m n x a' (modInv_sub u v m n)"
    using h(2) up(1,2) v half_mod_less [OF up(3) assms(5)] by (simp add: inv_pair_def a'_def)
qed

lemma modInv_loop_returns:
  assumes "length m = n" "0 < n" "odd (vval m)"
  shows "inv_pair m n x a u \<Longrightarrow> inv_pair m n x b v \<Longrightarrow> odd (gcd (vval a) (vval b)) \<Longrightarrow>
    \<exists>r. modInv_loop m n a b u v = Some r \<and> length r = n \<and> vval r < vval m
      \<and> int (vval m) dvd int (vval r) * x - int (gcd (vval a) (vval b))"
proof (induction "vval a + vval b" arbitrary: a b u v rule: less_induct)
  case less
  have la: "length a = n" "a \<noteq> []" and lb: "length b = n" "b \<noteq> []" using less.prems(1,2) assms(2) by (auto simp: inv_pair_def)
  note c = cmp_unsafe_vval [OF la(1) lb(1)]
  note Ea = EVEN_vval [OF la(2)] and Eb = EVEN_vval [OF lb(2)]
  note md = assms
  consider (eq) "vval a = vval b" | (a) "vval a \<noteq> vval b" "EVEN a" | (b) "vval a \<noteq> vval b" "\<not> EVEN a" "EVEN b"
    | (gt) "vval b < vval a" "\<not> EVEN a" "\<not> EVEN b" | (lt) "vval a < vval b" "\<not> EVEN a" "\<not> EVEN b" by linarith
  then show ?case
  proof cases
    case eq
    then show ?thesis using less.prems(1) c by (subst modInv_loop.simps) (simp add: inv_pair_def)
  next
    case a
    note h = inv_pair_half [OF less.prems(1) md a(2)]
    have g: "gcd (vval (uECC_vli_rshift1 a n)) (vval b) = gcd (vval a) (vval b)"
      unfolding h(2) using a(2) Ea less.prems(3) by (intro gcd_half) auto
    have "vval (uECC_vli_rshift1 a n) + vval b < vval a + vval b" using h(3) by simp
    then show ?thesis using less.hyps [OF _ h(1) less.prems(2), unfolded g, OF _ less.prems(3)] a c
      by (subst modInv_loop.simps) (simp add: Let_def)
  next
    case b
    note h = inv_pair_half [OF less.prems(2) md b(3)]
    have g: "gcd (vval a) (vval (uECC_vli_rshift1 b n)) = gcd (vval a) (vval b)"
      unfolding h(2) using b(3) Eb less.prems(3) gcd_half [of "vval b" "vval a"] by (simp add: gcd.commute)
    have "vval a + vval (uECC_vli_rshift1 b n) < vval a + vval b" using h(3) by simp
    then show ?thesis using less.hyps [OF _ less.prems(1) h(1), unfolded g, OF _ less.prems(3)] b c
      by (subst modInv_loop.simps) (simp add: Let_def)
  next
    case gt
    note h = inv_pair_sub [OF less.prems(1,2) md gt(2,3,1)]
    have g: "gcd (vval (uECC_vli_rshift1 (snd (uECC_vli_sub a b n)) n)) (vval b) = gcd (vval a) (vval b)"
      unfolding h(2) using gt Ea Eb by (intro gcd_diff_half) auto
    have "vval (uECC_vli_rshift1 (snd (uECC_vli_sub a b n)) n) + vval b < vval a + vval b" using h(3) by simp
    then show ?thesis using less.hyps [OF _ h(1) less.prems(2), unfolded g, OF _ less.prems(3)] gt c
      by (subst modInv_loop.simps) (simp add: Let_def)
  next
    case lt
    note h = inv_pair_sub [OF less.prems(2,1) md lt(3,2,1)]
    have g: "gcd (vval a) (vval (uECC_vli_rshift1 (snd (uECC_vli_sub b a n)) n)) = gcd (vval a) (vval b)"
      unfolding h(2) using lt Ea Eb gcd_diff_half [of "vval b" "vval a"] by (simp add: gcd.commute)
    have "vval a + vval (uECC_vli_rshift1 (snd (uECC_vli_sub b a n)) n) < vval a + vval b" using h(3) by simp
    then show ?thesis using less.hyps [OF _ less.prems(1) h(1), unfolded g, OF _ less.prems(3)] lt c
      by (subst modInv_loop.simps) (simp add: Let_def)
  qed
qed

lemma modInv_vval:
  assumes "length a = n" "length m = n" "0 < n" "odd (vval m)" "1 < vval m" "vval a \<noteq> 0"
  shows "\<exists>r. uECC_vli_modInv a m n = Some r \<and> length r = n \<and> vval r < vval m
    \<and> vval r * vval a mod vval m = gcd (vval a) (vval m) mod vval m"
proof -
  let ?x = "int (vval a)"
  let ?one = "1 # replicate (n - 1) 0"
  have one: "length ?one = n" "vval ?one = 1" using assms(3) by simp_all
  have i: "inv_pair m n ?x a ?one" using assms one by (simp add: inv_pair_def)
  have j: "inv_pair m n ?x m (replicate n 0)" using assms by (simp add: inv_pair_def)
  have g: "odd (gcd (vval a) (vval m))" using assms(4) by auto
  obtain r where r: "modInv_loop m n a m ?one (replicate n 0) = Some r" "length r = n" "vval r < vval m"
      "int (vval m) dvd int (vval r) * ?x - int (gcd (vval a) (vval m))"
    using modInv_loop_returns [OF assms(2,3,4) i j g] by blast
  have "int (vval r) * ?x mod int (vval m) = int (gcd (vval a) (vval m)) mod int (vval m)" using r(4) by (simp add: mod_eq_dvd_iff)
  then have "int (vval r * vval a mod vval m) = int (gcd (vval a) (vval m) mod vval m)" by (simp add: zmod_int)
  then have "vval r * vval a mod vval m = gcd (vval a) (vval m) mod vval m" by (simp only: of_nat_eq_iff)
  then show ?thesis
    using r assms by (simp add: uECC_vli_modInv_def uECC_vli_set_def uECC_vli_clear_def isZero_vval)
qed

section \<open>Properties\<close>

text \<open>C25: The loop that inverts modulo an odd number returns for every input, and for an input without a common divisor with the modulus the
  result is the inverse, below the modulus; the additions that overflow the array on the way do no harm.\<close>

theorem vli_modInv_inverts:
  assumes "length a = n" "length m = n" "0 < n" "odd (vval m)" "1 < vval m" "vval a \<noteq> 0"
  shows "\<exists>r. uECC_vli_modInv a m n = Some r \<and> length r = n \<and> vval r < vval m
    \<and> (coprime (vval a) (vval m) \<longrightarrow> vval r * vval a mod vval m = 1)"
  using modInv_vval [OF assms] assms(5) by auto

lemma vli_modInv_inverts_witness:
  "\<exists>r. uECC_vli_modInv [3, 0] [1, 1] 2 = Some r \<and> length r = 2 \<and> vval r < vval [1, 1]
    \<and> (coprime (vval [3, 0]) (vval [1, 1]) \<longrightarrow> vval r * vval [3, 0] mod vval [1, 1] = 1)"
  by (rule vli_modInv_inverts) simp_all

end
