(* ===== verification/Uecc_Curve.thy ===== *)
theory Uecc_Curve
  imports Vli_Laws
begin

text \<open>
  The curve secp256r1 of \<open>crypto/micro-ecc\<close>: its constants and the fast reduction modulo its prime. The authenticator uses no other curve, so the function pointers of
  \<open>uECC_Curve_t\<close> are the functions of this curve.
\<close>

record uECC_Curve_t =
  num_words :: nat
  num_bytes :: nat
  num_n_bits :: nat
  curve_p :: vli
  curve_n :: vli
  curve_G :: vli
  curve_b :: vli

definition curve_secp256r1 :: uECC_Curve_t where
  "curve_secp256r1 = \<lparr>num_words = 8, num_bytes = 32, num_n_bits = 256,
     curve_p = [0xFFFFFFFF, 0xFFFFFFFF, 0xFFFFFFFF, 0x00000000, 0x00000000, 0x00000000, 0x00000001, 0xFFFFFFFF],
     curve_n = [0xFC632551, 0xF3B9CAC2, 0xA7179E84, 0xBCE6FAAD, 0xFFFFFFFF, 0xFFFFFFFF, 0x00000000, 0xFFFFFFFF],
     curve_G = [0xD898C296, 0xF4A13945, 0x2DEB33A0, 0x77037D81, 0x63A440F2, 0xF8BCE6E5, 0xE12C4247, 0x6B17D1F2,
                0x37BF51F5, 0xCBB64068, 0x6B315ECE, 0x2BCE3357, 0x7C0F9E16, 0x8EE7EB4A, 0xFE1A7F9B, 0x4FE342E2],
     curve_b = [0x27D2604B, 0x3BCE3C3E, 0xCC53B0F6, 0x651D06B0, 0x769886BC, 0xB3EBBD55, 0xAA3A93E7, 0x5AC635D8]\<rparr>"

definition BITS_TO_WORDS :: "nat \<Rightarrow> nat" where "BITS_TO_WORDS num_bits = (num_bits + 31) div 32"
definition BITS_TO_BYTES :: "nat \<Rightarrow> nat" where "BITS_TO_BYTES num_bits = (num_bits + 7) div 8"

section \<open>Reduction modulo the prime\<close>

text \<open>The running sum is the pair of the counter \<open>carry\<close> and the words of \<open>result\<close>.\<close>

definition mmod_acc :: "vli \<Rightarrow> int \<times> vli \<Rightarrow> int \<times> vli" where
  "mmod_acc tmp = (\<lambda>(carry, result). let (c, result) = uECC_vli_add result tmp 8 in (carry + int (unat c), result))"

definition mmod_acc2 :: "vli \<Rightarrow> int \<times> vli \<Rightarrow> int \<times> vli" where
  "mmod_acc2 tmp = (\<lambda>(carry, result). let (c, tmp) = uECC_vli_add tmp tmp 8 in mmod_acc tmp (carry + int (unat c), result))"

definition mmod_dec :: "vli \<Rightarrow> int \<times> vli \<Rightarrow> int \<times> vli" where
  "mmod_dec tmp = (\<lambda>(carry, result). let (c, result) = uECC_vli_sub result tmp 8 in (carry - int (unat c), result))"

text \<open>The two closing loops, with a bound on their rounds; ten are more than either ever takes.\<close>

fun mmod_up :: "nat \<Rightarrow> int \<times> vli \<Rightarrow> int \<times> vli" where
  "mmod_up 0 r = r"
| "mmod_up (Suc k) r = (if fst r < 0 then mmod_up k (mmod_acc (curve_p curve_secp256r1) r) else r)"

fun mmod_down :: "nat \<Rightarrow> int \<times> vli \<Rightarrow> int \<times> vli" where
  "mmod_down 0 r = r"
| "mmod_down (Suc k) r =
     (if fst r \<noteq> 0 \<or> uECC_vli_cmp_unsafe (curve_p curve_secp256r1) (snd r) 8 \<noteq> 1
      then mmod_down k (mmod_dec (curve_p curve_secp256r1) r) else r)"

definition mmod_sums :: "vli \<Rightarrow> int \<times> vli" where
  "mmod_sums product =
     (let r = (0, uECC_vli_set product 8);
          r = mmod_acc2 [0, 0, 0, product ! 11, product ! 12, product ! 13, product ! 14, product ! 15] r;
          r = mmod_acc2 [0, 0, 0, product ! 12, product ! 13, product ! 14, product ! 15, 0] r;
          r = mmod_acc [product ! 8, product ! 9, product ! 10, 0, 0, 0, product ! 14, product ! 15] r;
          r = mmod_acc [product ! 9, product ! 10, product ! 11, product ! 13, product ! 14, product ! 15, product ! 13, product ! 8] r;
          r = mmod_dec [product ! 11, product ! 12, product ! 13, 0, 0, 0, product ! 8, product ! 10] r;
          r = mmod_dec [product ! 12, product ! 13, product ! 14, product ! 15, 0, 0, product ! 9, product ! 11] r;
          r = mmod_dec [product ! 13, product ! 14, product ! 15, product ! 8, product ! 9, product ! 10, 0, product ! 12] r
      in mmod_dec [product ! 14, product ! 15, 0, product ! 9, product ! 10, product ! 11, 0, product ! 13] r)"

definition vli_mmod_fast_secp256r1 :: "vli \<Rightarrow> vli" where
  "vli_mmod_fast_secp256r1 product =
     (let r = mmod_sums product in snd (if fst r < 0 then mmod_up 10 r else mmod_down 10 r))"

definition uECC_vli_modMult_fast :: "vli \<Rightarrow> vli \<Rightarrow> vli" where
  "uECC_vli_modMult_fast left right = vli_mmod_fast_secp256r1 (uECC_vli_mult left right (num_words curve_secp256r1))"

definition uECC_vli_modSquare_fast :: "vli \<Rightarrow> vli" where
  "uECC_vli_modSquare_fast left = uECC_vli_modMult_fast left left"

section \<open>The reduction is exact\<close>

definition prime_p :: nat where "prime_p = 2 ^ 256 - 2 ^ 224 + 2 ^ 192 + 2 ^ 96 - 1"

lemma curve_p_vval: "vval (curve_p curve_secp256r1) = prime_p" "length (curve_p curve_secp256r1) = 8"
  by (simp_all add: curve_secp256r1_def prime_p_def)

definition tval :: "int \<times> vli \<Rightarrow> int" where
  "tval r = fst r * 2 ^ 256 + int (vval (snd r))"

lemma mmod_acc_tval:
  assumes "length (snd r) = 8" "length t = 8"
  shows "tval (mmod_acc t r) = tval r + int (vval t)" "length (snd (mmod_acc t r)) = 8"
proof -
  obtain c s where cs: "uECC_vli_add (snd r) t 8 = (c, s)" "vval s + wbase 8 * unat c = vval (snd r) + vval t" "length s = 8"
    using vli_addE [OF assms] by metis
  have "int (vval s) + 2 ^ 256 * int (unat c) = int (vval (snd r)) + int (vval t)" using arg_cong [OF cs(2), of int] by simp
  then show "tval (mmod_acc t r) = tval r + int (vval t)" "length (snd (mmod_acc t r)) = 8"
    using cs(1,3) by (simp_all add: mmod_acc_def tval_def case_prod_beta algebra_simps)
qed

lemma mmod_dec_tval:
  assumes "length (snd r) = 8" "length t = 8"
  shows "tval (mmod_dec t r) = tval r - int (vval t)" "length (snd (mmod_dec t r)) = 8"
proof -
  obtain c s where cs: "uECC_vli_sub (snd r) t 8 = (c, s)" "vval s + vval t = vval (snd r) + wbase 8 * unat c" "length s = 8"
    using vli_subE [OF assms] by metis
  have "int (vval s) + int (vval t) = int (vval (snd r)) + 2 ^ 256 * int (unat c)" using arg_cong [OF cs(2), of int] by simp
  then show "tval (mmod_dec t r) = tval r - int (vval t)" "length (snd (mmod_dec t r)) = 8"
    using cs(1,3) by (simp_all add: mmod_dec_def tval_def case_prod_beta algebra_simps)
qed

lemma mmod_acc2_tval:
  assumes "length (snd r) = 8" "length t = 8"
  shows "tval (mmod_acc2 t r) = tval r + 2 * int (vval t)" "length (snd (mmod_acc2 t r)) = 8"
proof -
  obtain c s where cs: "uECC_vli_add t t 8 = (c, s)" "vval s + wbase 8 * unat c = vval t + vval t" "length s = 8"
    using vli_addE [OF assms(2,2)] by metis
  have i: "int (vval s) + 2 ^ 256 * int (unat c) = 2 * int (vval t)" using arg_cong [OF cs(2), of int] by simp
  have m: "mmod_acc2 t r = mmod_acc s (fst r + int (unat c), snd r)" using cs(1) by (simp add: mmod_acc2_def case_prod_beta)
  note a = mmod_acc_tval [of "(fst r + int (unat c), snd r)" s]
  show "tval (mmod_acc2 t r) = tval r + 2 * int (vval t)" "length (snd (mmod_acc2 t r)) = 8"
    unfolding m using a cs(3) assms(1) i by (simp_all add: tval_def algebra_simps)
qed

text \<open>The eight words of the upper half enter the sums with the multiples of the prime below.\<close>

lemma mmod_sums_tval:
  assumes "length x = 16"
  defines "c \<equiv> \<lambda>i. int (unat (x ! i))"
  shows "tval (mmod_sums x) = int (vval x) - int prime_p * (c 8 + 4294967297 * c 9 + 18446744078004518912 * c 10 + 79228162532711081667253501951 * c 11 + 340282367000166625977638945021017194495 * c 12 + 1461501637671185285124623296161210883009696235519 * c 13 + 6277101736848182401166692341332123086285927382448418586623 * c 14 + 26959946673427741530053695850515137729844644212646842236464328081408 * c 15)"
    "length (snd (mmod_sums x)) = 8"
proof -
  have v: "int (vval x) = int (vval (take 8 x)) + (\<Sum>i<8. c (8 + i) * 2 ^ (256 + 32 * i))"
  proof -
    have "int (vval (drop 8 x)) = (\<Sum>i<8. c (8 + i) * 2 ^ (32 * i))" using assms(1) by (simp add: vval_nth_sum c_def)
    then show ?thesis using vval_split [of 8 x] assms(1) by (simp add: sum_distrib_left sum_distrib_right power_add algebra_simps)
  qed
  have e: "(\<Sum>i<8. f i) = f 0 + f 1 + f 2 + f 3 + f 4 + f 5 + f 6 + (f 7 :: int)" for f :: "nat \<Rightarrow> int" by (simp add: numeral_eq_Suc)
  show "tval (mmod_sums x) = int (vval x) - int prime_p * (c 8 + 4294967297 * c 9 + 18446744078004518912 * c 10 + 79228162532711081667253501951 * c 11 + 340282367000166625977638945021017194495 * c 12 + 1461501637671185285124623296161210883009696235519 * c 13 + 6277101736848182401166692341332123086285927382448418586623 * c 14 + 26959946673427741530053695850515137729844644212646842236464328081408 * c 15)"
    using assms(1) unfolding v e c_def
    by (simp add: mmod_sums_def Let_def mmod_acc_tval mmod_acc2_tval mmod_dec_tval uECC_vli_set_def tval_def [of "(0, _)"] prime_p_def algebra_simps)
  show "length (snd (mmod_sums x)) = 8"
    using assms(1) by (simp add: mmod_sums_def Let_def mmod_acc_tval mmod_acc2_tval mmod_dec_tval uECC_vli_set_def)
qed

lemma vval_8: "length a = 8 \<Longrightarrow> int (vval a) < 2 ^ 256"
  using vval_less [of a] of_nat_less_iff [of "vval a" "wbase 8", where ?'a = int] by simp

lemma prime_p_bounds: "9 * 2 ^ 256 < 10 * int prime_p" "int prime_p < 2 ^ 256"
  by (simp_all add: prime_p_def)

lemma tval_sign:
  assumes "length (snd r) = 8"
  shows "fst r < 0 \<longleftrightarrow> tval r < 0" "0 \<le> tval r \<Longrightarrow> tval r < 2 ^ 256 \<Longrightarrow> fst r = 0"
proof -
  have v: "0 \<le> int (vval (snd r))" "int (vval (snd r)) < 2 ^ 256" using vval_8 [OF assms] by simp_all
  show n: "fst r < 0 \<longleftrightarrow> tval r < 0"
  proof
    assume "fst r < 0"
    then have "fst r * 2 ^ 256 \<le> (- 1) * 2 ^ 256" by (intro mult_right_mono) simp_all
    then show "tval r < 0" using v unfolding tval_def by linarith
  next
    assume "tval r < 0"
    then have "fst r * 2 ^ 256 < 0" using v unfolding tval_def by linarith
    then show "fst r < 0" by (simp add: mult_less_0_iff)
  qed
  assume t: "0 \<le> tval r" "tval r < 2 ^ 256"
  then have "0 \<le> fst r" using n by auto
  moreover have "\<not> 1 \<le> fst r"
  proof
    assume "1 \<le> fst r"
    then have "1 * 2 ^ 256 \<le> fst r * 2 ^ 256" by (intro mult_right_mono) simp_all
    then show False using t v unfolding tval_def by linarith
  qed
  ultimately show "fst r = 0" by simp
qed

lemma mmod_up_tval:
  assumes "length (snd r) = 8" "tval r < int prime_p" "- (int k * int prime_p) \<le> tval r"
  shows "length (snd (mmod_up k r)) = 8 \<and> tval (mmod_up k r) mod int prime_p = tval r mod int prime_p
    \<and> 0 \<le> tval (mmod_up k r) \<and> tval (mmod_up k r) < int prime_p"
  using assms
proof (induction k arbitrary: r)
  case (Suc k)
  note a = mmod_acc_tval [OF Suc.prems(1) curve_p_vval(2), unfolded curve_p_vval(1)]
  show ?case
  proof (cases "fst r < 0")
    case True
    then have "tval r < 0" using tval_sign(1) [OF Suc.prems(1)] by simp
    then show ?thesis using Suc.IH [OF a(2)] Suc.prems(3) True a(1) by (simp add: algebra_simps)
  next
    case False
    then show ?thesis using tval_sign(1) [OF Suc.prems(1)] Suc.prems by simp
  qed
qed simp

lemma mmod_down_tval:
  assumes "length (snd r) = 8" "0 \<le> tval r" "tval r < int (Suc k) * int prime_p"
  shows "length (snd (mmod_down k r)) = 8 \<and> tval (mmod_down k r) mod int prime_p = tval r mod int prime_p
    \<and> 0 \<le> tval (mmod_down k r) \<and> tval (mmod_down k r) < int prime_p"
  using assms
proof (induction k arbitrary: r)
  case (Suc k)
  note a = mmod_dec_tval [OF Suc.prems(1) curve_p_vval(2), unfolded curve_p_vval(1)]
  note c = cmp_unsafe_vval [OF curve_p_vval(2) Suc.prems(1), unfolded curve_p_vval(1)]
  have g: "fst r \<noteq> 0 \<or> uECC_vli_cmp_unsafe (curve_p curve_secp256r1) (snd r) 8 \<noteq> 1 \<longleftrightarrow> int prime_p \<le> tval r"
  proof (cases "tval r < 2 ^ 256")
    case True
    then have "fst r = 0" by (rule tval_sign(2) [OF Suc.prems(1,2)])
    then show ?thesis using c by (auto simp: tval_def)
  next
    case False
    then have "fst r \<noteq> 0" using vval_8 [OF Suc.prems(1)] by (auto simp: tval_def)
    then show ?thesis using False prime_p_bounds(2) by linarith
  qed
  show ?case
  proof (cases "int prime_p \<le> tval r")
    case True
    then have u: "mmod_down (Suc k) r = mmod_down k (mmod_dec (curve_p curve_secp256r1) r)" using g by simp
    have "tval r - int prime_p < int (Suc k) * int prime_p" using Suc.prems(3) by (simp add: algebra_simps)
    then show ?thesis unfolding u using Suc.IH [OF a(2)] True a(1) by simp
  next
    case False
    then have "mmod_down (Suc k) r = r" using g by simp
    then show ?thesis using False Suc.prems by simp
  qed
qed simp

lemma mmod_sums_range:
  assumes "length x = 16"
  shows "- (10 * int prime_p) \<le> tval (mmod_sums x)" "tval (mmod_sums x) < 11 * int prime_p"
proof -
  have u: "0 \<le> int (vval [a, b, c, d, e, f, g, h]) \<and> int (vval [a, b, c, d, e, f, g, h]) < 2 ^ 256" for a b c d e f g h
    using vval_8 [of "[a, b, c, d, e, f, g, h]"] by (simp del: vval.simps)
  have t: "0 \<le> int (vval (take 8 x)) \<and> int (vval (take 8 x)) < 2 ^ 256" using vval_8 [of "take 8 x"] assms by simp
  have "tval (mmod_sums x) = int (vval (take 8 x))
     + 2 * int (vval [0, 0, 0, x ! 11, x ! 12, x ! 13, x ! 14, x ! 15])
     + 2 * int (vval [0, 0, 0, x ! 12, x ! 13, x ! 14, x ! 15, 0])
     + int (vval [x ! 8, x ! 9, x ! 10, 0, 0, 0, x ! 14, x ! 15])
     + int (vval [x ! 9, x ! 10, x ! 11, x ! 13, x ! 14, x ! 15, x ! 13, x ! 8])
     - int (vval [x ! 11, x ! 12, x ! 13, 0, 0, 0, x ! 8, x ! 10])
     - int (vval [x ! 12, x ! 13, x ! 14, x ! 15, 0, 0, x ! 9, x ! 11])
     - int (vval [x ! 13, x ! 14, x ! 15, x ! 8, x ! 9, x ! 10, 0, x ! 12])
     - int (vval [x ! 14, x ! 15, 0, x ! 9, x ! 10, x ! 11, 0, x ! 13])"
    using assms by (simp add: mmod_sums_def Let_def mmod_acc_tval mmod_acc2_tval mmod_dec_tval uECC_vli_set_def tval_def [of "(0, _)"] del: vval.simps)
  moreover note t u [of 0 0 0 "x ! 11" "x ! 12" "x ! 13" "x ! 14" "x ! 15"]
    u [of 0 0 0 "x ! 12" "x ! 13" "x ! 14" "x ! 15" 0]
    u [of "x ! 8" "x ! 9" "x ! 10" 0 0 0 "x ! 14" "x ! 15"]
    u [of "x ! 9" "x ! 10" "x ! 11" "x ! 13" "x ! 14" "x ! 15" "x ! 13" "x ! 8"]
    u [of "x ! 11" "x ! 12" "x ! 13" 0 0 0 "x ! 8" "x ! 10"]
    u [of "x ! 12" "x ! 13" "x ! 14" "x ! 15" 0 0 "x ! 9" "x ! 11"]
    u [of "x ! 13" "x ! 14" "x ! 15" "x ! 8" "x ! 9" "x ! 10" 0 "x ! 12"]
    u [of "x ! 14" "x ! 15" 0 "x ! 9" "x ! 10" "x ! 11" 0 "x ! 13"]
  ultimately show "- (10 * int prime_p) \<le> tval (mmod_sums x)" "tval (mmod_sums x) < 11 * int prime_p"
    using prime_p_bounds(1) by linarith+
qed

lemma mmod_fast_vval:
  assumes "length x = 16"
  shows "vval (vli_mmod_fast_secp256r1 x) = vval x mod prime_p" "length (vli_mmod_fast_secp256r1 x) = 8"
proof -
  let ?r = "mmod_sums x"
  note l = mmod_sums_tval(2) [OF assms] and rg = mmod_sums_range [OF assms]
  define r where "r = (if fst ?r < 0 then mmod_up 10 ?r else mmod_down 10 ?r)"
  have r: "length (snd r) = 8" "tval r mod int prime_p = tval ?r mod int prime_p" "0 \<le> tval r" "tval r < int prime_p"
    using mmod_up_tval [OF l, of 10] mmod_down_tval [OF l, of 10] tval_sign(1) [OF l] rg prime_p_bounds(1) by (auto simp: r_def)
  have "fst r = 0" by (rule tval_sign(2) [OF r(1,3)]) (use r(4) prime_p_bounds(2) in linarith)
  then have "int (vval (snd r)) = tval ?r mod int prime_p" using r by (simp add: tval_def)
  also have "\<dots> = int (vval x) mod int prime_p" unfolding mmod_sums_tval(1) [OF assms] by (simp add: mod_diff_right_eq [symmetric])
  finally have "vval (snd r) = vval x mod prime_p" by (simp only: zmod_int [symmetric] of_nat_eq_iff)
  then show "vval (vli_mmod_fast_secp256r1 x) = vval x mod prime_p" "length (vli_mmod_fast_secp256r1 x) = 8"
    using r(1) by (simp_all add: vli_mmod_fast_secp256r1_def r_def Let_def)
qed

lemma modMult_fast_vval:
  assumes "length l = 8" "length r = 8"
  shows "vval (uECC_vli_modMult_fast l r) = vval l * vval r mod prime_p" "length (uECC_vli_modMult_fast l r) = 8"
proof -
  have p: "vval (uECC_vli_mult l r 8) = vval l * vval r" "length (uECC_vli_mult l r 8) = 16"
    using vli_mult_vval [OF assms] by simp_all
  show "vval (uECC_vli_modMult_fast l r) = vval l * vval r mod prime_p" "length (uECC_vli_modMult_fast l r) = 8"
    using mmod_fast_vval [OF p(2)] p(1) by (simp_all add: uECC_vli_modMult_fast_def curve_secp256r1_def)
qed

end
