(* ===== verification/Uecc_Point.thy ===== *)
theory Uecc_Point
  imports Uecc_Curve
begin

text \<open>
  The point operations of \<open>crypto/micro-ecc/uECC.c\<close> and \<open>curve-specific.inc\<close>: doubling in Jacobian coordinates, the two
  additions in co-Z coordinates, and the ladder. A C function that changes the coordinates it is given returns them.
  The ladder keeps its two points in a list of length two, as the code keeps them in \<open>Rx\<close> and \<open>Ry\<close>.
\<close>

abbreviation modAdd_p :: "vli \<Rightarrow> vli \<Rightarrow> vli" where
  "modAdd_p a b \<equiv> uECC_vli_modAdd a b (curve_p curve_secp256r1) (num_words curve_secp256r1)"

abbreviation modSub_p :: "vli \<Rightarrow> vli \<Rightarrow> vli" where
  "modSub_p a b \<equiv> uECC_vli_modSub a b (curve_p curve_secp256r1) (num_words curve_secp256r1)"

definition EccPoint_isZero :: "vli \<Rightarrow> bool" where
  "EccPoint_isZero point = uECC_vli_isZero point (num_words curve_secp256r1 * 2)"

definition jacobian_half :: "vli \<Rightarrow> vli" where
  "jacobian_half X1 =
     (if uECC_vli_testBit X1 0 \<noteq> 0
      then let (l_carry, X1) = uECC_vli_add X1 (curve_p curve_secp256r1) (num_words curve_secp256r1);
               X1 = uECC_vli_rshift1 X1 (num_words curve_secp256r1);
               i = num_words curve_secp256r1 - 1
           in X1[i := X1 ! i OR push_bit 31 l_carry]
      else uECC_vli_rshift1 X1 (num_words curve_secp256r1))"

definition double_jacobian_default :: "vli \<Rightarrow> vli \<Rightarrow> vli \<Rightarrow> vli \<times> vli \<times> vli" where
  "double_jacobian_default X1 Y1 Z1 =
     (if uECC_vli_isZero Z1 (num_words curve_secp256r1) then (X1, Y1, Z1)
      else let t4 = uECC_vli_modSquare_fast Y1;
               t5 = uECC_vli_modMult_fast X1 t4;
               t4 = uECC_vli_modSquare_fast t4;
               Y1 = uECC_vli_modMult_fast Y1 Z1;
               Z1 = uECC_vli_modSquare_fast Z1;
               X1 = modAdd_p X1 Z1;
               Z1 = modAdd_p Z1 Z1;
               Z1 = modSub_p X1 Z1;
               X1 = uECC_vli_modMult_fast X1 Z1;
               Z1 = modAdd_p X1 X1;
               X1 = modAdd_p X1 Z1;
               X1 = jacobian_half X1;
               Z1 = uECC_vli_modSquare_fast X1;
               Z1 = modSub_p Z1 t5;
               Z1 = modSub_p Z1 t5;
               t5 = modSub_p t5 Z1;
               X1 = uECC_vli_modMult_fast X1 t5;
               t4 = modSub_p X1 t4
           in (Z1, t4, Y1))"

definition x_side_default :: "vli \<Rightarrow> vli" where
  "x_side_default x =
     (let result = uECC_vli_modSquare_fast x;
          result = modSub_p result (3 # replicate 7 0);
          result = uECC_vli_modMult_fast result x
      in modAdd_p result (curve_b curve_secp256r1))"

definition uECC_valid_point :: "vli \<Rightarrow> bool" where
  "uECC_valid_point point =
     (let n = num_words curve_secp256r1; p = curve_p curve_secp256r1; y = drop n point in
      if EccPoint_isZero point then False
      else if uECC_vli_cmp_unsafe p point n \<noteq> 1 \<or> uECC_vli_cmp_unsafe p y n \<noteq> 1 then False
      else uECC_vli_equal (uECC_vli_modSquare_fast (take n y)) (x_side_default (take n point)) n)"

definition apply_z :: "vli \<Rightarrow> vli \<Rightarrow> vli \<Rightarrow> vli \<times> vli" where
  "apply_z X1 Y1 Z =
     (let t1 = uECC_vli_modSquare_fast Z;
          X1 = uECC_vli_modMult_fast X1 t1;
          t1 = uECC_vli_modMult_fast t1 Z;
          Y1 = uECC_vli_modMult_fast Y1 t1
      in (X1, Y1))"

definition XYcZ_initial_double :: "vli \<Rightarrow> vli \<Rightarrow> vli option \<Rightarrow> (vli \<times> vli) \<times> (vli \<times> vli)" where
  "XYcZ_initial_double X1 Y1 initial_Z =
     (let z = (case initial_Z of Some z \<Rightarrow> uECC_vli_set z (num_words curve_secp256r1)
                | None \<Rightarrow> 1 # uECC_vli_clear (num_words curve_secp256r1 - 1));
          X2 = uECC_vli_set X1 (num_words curve_secp256r1);
          Y2 = uECC_vli_set Y1 (num_words curve_secp256r1);
          (X1, Y1) = apply_z X1 Y1 z;
          (X1, Y1, z) = double_jacobian_default X1 Y1 z
      in ((X1, Y1), apply_z X2 Y2 z))"

definition XYcZ_add :: "vli \<times> vli \<Rightarrow> vli \<times> vli \<Rightarrow> (vli \<times> vli) \<times> (vli \<times> vli)" where
  "XYcZ_add = (\<lambda>(X1, Y1) (X2, Y2).
     let t5 = modSub_p X2 X1;
         t5 = uECC_vli_modSquare_fast t5;
         X1 = uECC_vli_modMult_fast X1 t5;
         X2 = uECC_vli_modMult_fast X2 t5;
         Y2 = modSub_p Y2 Y1;
         t5 = uECC_vli_modSquare_fast Y2;
         t5 = modSub_p t5 X1;
         t5 = modSub_p t5 X2;
         X2 = modSub_p X2 X1;
         Y1 = uECC_vli_modMult_fast Y1 X2;
         X2 = modSub_p X1 t5;
         Y2 = uECC_vli_modMult_fast Y2 X2;
         Y2 = modSub_p Y2 Y1
     in ((X1, Y1), (t5, Y2)))"

definition XYcZ_addC :: "vli \<times> vli \<Rightarrow> vli \<times> vli \<Rightarrow> (vli \<times> vli) \<times> (vli \<times> vli)" where
  "XYcZ_addC = (\<lambda>(X1, Y1) (X2, Y2).
     let t5 = modSub_p X2 X1;
         t5 = uECC_vli_modSquare_fast t5;
         X1 = uECC_vli_modMult_fast X1 t5;
         X2 = uECC_vli_modMult_fast X2 t5;
         t5 = modAdd_p Y2 Y1;
         Y2 = modSub_p Y2 Y1;
         t6 = modSub_p X2 X1;
         Y1 = uECC_vli_modMult_fast Y1 t6;
         t6 = modAdd_p X1 X2;
         X2 = uECC_vli_modSquare_fast Y2;
         X2 = modSub_p X2 t6;
         t7 = modSub_p X1 X2;
         Y2 = uECC_vli_modMult_fast Y2 t7;
         Y2 = modSub_p Y2 Y1;
         t7 = uECC_vli_modSquare_fast t5;
         t7 = modSub_p t7 t6;
         t6 = modSub_p t7 X1;
         t6 = uECC_vli_modMult_fast t6 t5;
         Y1 = modSub_p t6 Y1
     in ((t7, Y1), (X2, Y2)))"

section \<open>The ladder\<close>

type_synonym ladder = "(vli \<times> vli) list"

definition ladder_nb :: "vli \<Rightarrow> nat \<Rightarrow> nat" where
  "ladder_nb scalar i = (if uECC_vli_testBit scalar i = 0 then 1 else 0)"

definition ladder_addC :: "nat \<Rightarrow> ladder \<Rightarrow> ladder" where
  "ladder_addC nb R = (let (P, Q) = XYcZ_addC (R ! (1 - nb)) (R ! nb) in R[1 - nb := P, nb := Q])"

definition ladder_add :: "nat \<Rightarrow> ladder \<Rightarrow> ladder" where
  "ladder_add nb R = (let (P, Q) = XYcZ_add (R ! nb) (R ! (1 - nb)) in R[nb := P, 1 - nb := Q])"

fun ladder_loop :: "vli \<Rightarrow> nat \<Rightarrow> ladder \<Rightarrow> ladder" where
  "ladder_loop scalar 0 R = R"
| "ladder_loop scalar (Suc i) R =
     (let nb = ladder_nb scalar (Suc i) in ladder_loop scalar i (ladder_add nb (ladder_addC nb R)))"

definition EccPoint_mult :: "vli \<Rightarrow> vli \<Rightarrow> vli option \<Rightarrow> nat \<Rightarrow> vli option" where
  "EccPoint_mult point scalar initial_Z num_bits =
     (let n = num_words curve_secp256r1;
          px = take n point; py = take n (drop n point);
          (R1, R0) = XYcZ_initial_double px py initial_Z;
          R = ladder_loop scalar (num_bits - 2) [R0, R1];
          nb = ladder_nb scalar 0;
          R = ladder_addC nb R;
          z = modSub_p (fst (R ! 1)) (fst (R ! 0));
          z = uECC_vli_modMult_fast z (snd (R ! (1 - nb)));
          z = uECC_vli_modMult_fast z px
      in do {
        z \<leftarrow> uECC_vli_modInv z (curve_p curve_secp256r1) n;
        let z = uECC_vli_modMult_fast z py;
        let z = uECC_vli_modMult_fast z (fst (R ! (1 - nb)));
        let R = ladder_add nb R;
        let (X, Y) = apply_z (fst (R ! 0)) (snd (R ! 0)) z;
        Some (X @ Y) })"

definition regularize_k :: "vli \<Rightarrow> bool \<times> vli \<times> vli" where
  "regularize_k k =
     (let bits = num_n_bits curve_secp256r1; n = BITS_TO_WORDS bits;
          (c, k0) = uECC_vli_add k (curve_n curve_secp256r1) n;
          carry = (c \<noteq> 0 \<or> bits < n * 32 \<and> uECC_vli_testBit k0 bits \<noteq> 0)
      in (carry, k0, snd (uECC_vli_add k0 (curve_n curve_secp256r1) n)))"

text \<open>The second component is whether the result is a point other than the point at infinity.\<close>

definition EccPoint_compute_public_key :: "vli \<Rightarrow> (vli \<times> bool) option" where
  "EccPoint_compute_public_key private_key =
     (let (carry, tmp1, tmp2) = regularize_k private_key in do {
        result \<leftarrow> EccPoint_mult (curve_G curve_secp256r1) (if carry then tmp1 else tmp2) None (num_n_bits curve_secp256r1 + 1);
        Some (result, \<not> EccPoint_isZero result) })"

end
