(* ===== verification/Uecc.thy ===== *)
theory Uecc
  imports Uecc_Point Rng
begin

text \<open>
  The functions of \<open>crypto/micro-ecc/uECC.c\<close> that the authenticator calls, on the curve secp256r1: keys, shared secrets and
  signatures. The random numbers come from \<open>ctap_generate_rng\<close>, which \<open>crypto_ecc256_init\<close> registers before any call. An array that is
  written to is an argument and part of the result; arrays on the stack start as zeros, of which nothing is ever read.
  The names end in \<open>_c\<close> where \<open>Crypto\<close> has a field of the same name for the call.
\<close>

definition uECC_RNG_MAX_TRIES :: nat where "uECC_RNG_MAX_TRIES = 64"

section \<open>Bytes and words\<close>

definition native_byte :: "vli \<Rightarrow> nat \<Rightarrow> byte" where
  "native_byte native b = ucast (drop_bit (8 * (b mod 4)) (native ! (b div 4)))"

definition uECC_vli_nativeToBytes :: "nat \<Rightarrow> vli \<Rightarrow> bytes" where
  "uECC_vli_nativeToBytes nbytes native = map (\<lambda>i. native_byte native (nbytes - 1 - i)) [0..<nbytes]"

definition native_or :: "nat \<Rightarrow> bytes \<Rightarrow> nat \<Rightarrow> vli \<Rightarrow> vli" where
  "native_or nbytes bytes i native =
     (let b = nbytes - 1 - i in native[b div 4 := native ! (b div 4) OR push_bit (8 * (b mod 4)) (ucast (bytes ! i))])"

definition uECC_vli_bytesToNative :: "bytes \<Rightarrow> nat \<Rightarrow> vli" where
  "uECC_vli_bytesToNative bytes nbytes = fold (native_or nbytes bytes) [0..<nbytes] (uECC_vli_clear ((nbytes + 3) div 4))"

text \<open>The words of a buffer that is filled byte by byte, on the little-endian target.\<close>

definition words_of :: "bytes \<Rightarrow> nat \<Rightarrow> vli" where
  "words_of bs n = map (\<lambda>i. of_nat (of_le (slice (4 * i) 4 bs))) [0..<n]"

section \<open>Random numbers\<close>

fun random_int_loop :: "nat \<Rightarrow> vli \<Rightarrow> vli \<Rightarrow> nat \<Rightarrow> 'a rng_scheme \<Rightarrow> (bool \<times> vli \<times> 'a rng_scheme) option" where
  "random_int_loop 0 random bound n w = Some (False, random, w)"
| "random_int_loop (Suc tries) random bound n w = do {
     (r, bs, w) \<leftarrow> ctap_generate_rng (digest_bytes random) (n * 4) w;
     let random = words_of bs n;
     if r = 0 then Some (False, random, w)
     else do {
       let random = random[n - 1 := random ! (n - 1) AND drop_bit (n * 32 - uECC_vli_numBits bound n) (- 1)];
       if \<not> uECC_vli_isZero random n \<and> uECC_vli_cmp bound random n = 1 then Some (True, random, w)
       else random_int_loop tries random bound n w } }"

definition uECC_generate_random_int :: "vli \<Rightarrow> vli \<Rightarrow> nat \<Rightarrow> 'a rng_scheme \<Rightarrow> (bool \<times> vli \<times> 'a rng_scheme) option" where
  "uECC_generate_random_int random bound n w = random_int_loop uECC_RNG_MAX_TRIES random bound n w"

section \<open>Keys\<close>

definition public_bytes :: "vli \<Rightarrow> bytes" where
  "public_bytes p = uECC_vli_nativeToBytes (num_bytes curve_secp256r1) p
     @ uECC_vli_nativeToBytes (num_bytes curve_secp256r1) (drop (num_words curve_secp256r1) p)"

fun make_key_loop :: "nat \<Rightarrow> bytes \<Rightarrow> bytes \<Rightarrow> vli \<Rightarrow> 'a rng_scheme \<Rightarrow> (int \<times> bytes \<times> bytes \<times> 'a rng_scheme) option" where
  "make_key_loop 0 public_key private_key priv w = Some (0, public_key, private_key, w)"
| "make_key_loop (Suc tries) public_key private_key priv w = do {
     (ok, priv, w) \<leftarrow> uECC_generate_random_int priv (curve_n curve_secp256r1) (BITS_TO_WORDS (num_n_bits curve_secp256r1)) w;
     if \<not> ok then Some (0, public_key, private_key, w)
     else do {
       (p, ok) \<leftarrow> EccPoint_compute_public_key priv;
       if ok then Some (1, public_bytes p, uECC_vli_nativeToBytes (BITS_TO_BYTES (num_n_bits curve_secp256r1)) priv, w)
       else make_key_loop tries public_key private_key priv w } }"

definition uECC_make_key_c :: "bytes \<Rightarrow> bytes \<Rightarrow> 'a rng_scheme \<Rightarrow> (int \<times> bytes \<times> bytes \<times> 'a rng_scheme) option" where
  "uECC_make_key_c public_key private_key w = make_key_loop uECC_RNG_MAX_TRIES public_key private_key (uECC_vli_clear uECC_MAX_WORDS) w"

definition public_words :: "bytes \<Rightarrow> vli" where
  "public_words public_key = uECC_vli_bytesToNative public_key (num_bytes curve_secp256r1)
     @ uECC_vli_bytesToNative (drop (num_bytes curve_secp256r1) public_key) (num_bytes curve_secp256r1)"

definition private_words :: "bytes \<Rightarrow> vli" where
  "private_words private_key = uECC_vli_bytesToNative private_key (BITS_TO_BYTES (num_n_bits curve_secp256r1))"

definition uECC_shared_secret_c :: "bytes \<Rightarrow> bytes \<Rightarrow> bytes \<Rightarrow> 'a rng_scheme \<Rightarrow> (int \<times> bytes \<times> 'a rng_scheme) option" where
  "uECC_shared_secret_c public_key private_key secret w =
     (let (carry, k0, k1) = regularize_k (private_words private_key) in do {
        (ok, z, w) \<leftarrow> uECC_generate_random_int (if carry then k1 else k0) (curve_p curve_secp256r1) (num_words curve_secp256r1) w;
        if \<not> ok then Some (0, secret, w)
        else do {
          p \<leftarrow> EccPoint_mult (public_words public_key) (if carry then k0 else k1) (Some z) (num_n_bits curve_secp256r1 + 1);
          Some (if EccPoint_isZero p then 0 else 1, uECC_vli_nativeToBytes (num_bytes curve_secp256r1) p, w) } })"

definition uECC_valid_public_key :: "bytes \<Rightarrow> bool" where
  "uECC_valid_public_key public_key = uECC_valid_point (public_words public_key)"

definition uECC_compute_public_key_c :: "bytes \<Rightarrow> bytes \<Rightarrow> (int \<times> bytes) option" where
  "uECC_compute_public_key_c private_key public_key =
     (let priv = private_words private_key; n = BITS_TO_WORDS (num_n_bits curve_secp256r1) in
      if uECC_vli_isZero priv n then Some (0, public_key)
      else if uECC_vli_cmp (curve_n curve_secp256r1) priv n \<noteq> 1 then Some (0, public_key)
      else do {
        (p, ok) \<leftarrow> EccPoint_compute_public_key priv;
        Some (if ok then (1, public_bytes p) else (0, public_key)) })"

section \<open>Signatures\<close>

text \<open>The order of the curve has a whole number of bytes, so that \<open>bits2int\<close> returns before its shift.\<close>

definition bits2int :: "bytes \<Rightarrow> nat \<Rightarrow> vli" where
  "bits2int bits bits_size =
     (let n = BITS_TO_BYTES (num_n_bits curve_secp256r1); words = BITS_TO_WORDS (num_n_bits curve_secp256r1);
          bits_size = (if bits_size > n then n else bits_size)
      in blit (uECC_vli_clear words) 0 (uECC_vli_bytesToNative bits bits_size))"

definition uECC_sign_with_k :: "bytes \<Rightarrow> bytes \<Rightarrow> vli \<Rightarrow> bytes \<Rightarrow> 'a rng_scheme \<Rightarrow> (int \<times> bytes \<times> 'a rng_scheme) option" where
  "uECC_sign_with_k private_key message_hash k signature w =
     (let n = num_words curve_secp256r1; n_words = BITS_TO_WORDS (num_n_bits curve_secp256r1); order = curve_n curve_secp256r1 in
      if uECC_vli_isZero k n \<or> uECC_vli_cmp order k n_words \<noteq> 1 then Some (0, signature, w)
      else let (carry, tmp, s) = regularize_k k in do {
        p \<leftarrow> EccPoint_mult (curve_G curve_secp256r1) (if carry then tmp else s) None (num_n_bits curve_secp256r1 + 1);
        if uECC_vli_isZero p n then Some (0, signature, w)
        else do {
          (ok, tmp, w) \<leftarrow> uECC_generate_random_int tmp order n_words w;
          if \<not> ok then Some (0, signature, w)
          else do {
            let k = uECC_vli_modMult k tmp order n_words;
            k \<leftarrow> uECC_vli_modInv k order n_words;
            let k = uECC_vli_modMult k tmp order n_words;
            let signature = blit signature 0 (uECC_vli_nativeToBytes (num_bytes curve_secp256r1) p);
            let tmp = private_words private_key;
            let s = uECC_vli_set p n;
            let s = uECC_vli_modMult tmp s order n_words;
            let tmp = bits2int message_hash (length message_hash);
            let s = uECC_vli_modAdd tmp s order n_words;
            let s = uECC_vli_modMult s k order n_words;
            if uECC_vli_numBits s n_words > num_bytes curve_secp256r1 * 8 then Some (0, signature, w)
            else Some (1, blit signature (num_bytes curve_secp256r1) (uECC_vli_nativeToBytes (num_bytes curve_secp256r1) s), w) } } })"

fun sign_loop :: "nat \<Rightarrow> bytes \<Rightarrow> bytes \<Rightarrow> vli \<Rightarrow> bytes \<Rightarrow> 'a rng_scheme \<Rightarrow> (int \<times> bytes \<times> 'a rng_scheme) option" where
  "sign_loop 0 private_key message_hash k signature w = Some (0, signature, w)"
| "sign_loop (Suc tries) private_key message_hash k signature w = do {
     (ok, k, w) \<leftarrow> uECC_generate_random_int k (curve_n curve_secp256r1) (BITS_TO_WORDS (num_n_bits curve_secp256r1)) w;
     if \<not> ok then Some (0, signature, w)
     else do {
       (r, signature, w) \<leftarrow> uECC_sign_with_k private_key message_hash k signature w;
       if r \<noteq> 0 then Some (1, signature, w) else sign_loop tries private_key message_hash k signature w } }"

definition uECC_sign_c :: "bytes \<Rightarrow> bytes \<Rightarrow> bytes \<Rightarrow> 'a rng_scheme \<Rightarrow> (int \<times> bytes \<times> 'a rng_scheme) option" where
  "uECC_sign_c private_key message_hash signature w =
     sign_loop uECC_RNG_MAX_TRIES private_key message_hash (uECC_vli_clear uECC_MAX_WORDS) signature w"

section \<open>As the library of the authenticator\<close>

text \<open>The curve arithmetic as the record through which the crypto wrappers call it. The buffer of a public key is zero when
  \<open>crypto_ecc256_derive_public_key\<close> passes it. The two functions of monocypher, which is not part of the repository, remain
  arguments.\<close>

definition uecc_lib :: "(bytes \<Rightarrow> bytes \<times> bytes) \<Rightarrow> (bytes \<Rightarrow> bytes \<Rightarrow> bytes) \<Rightarrow> 'a rng_scheme ecc_lib" where
  "uecc_lib key_pair sign =
     \<lparr>uECC_make_key = (\<lambda>w. uECC_make_key_c (replicate 64 0) (replicate 32 0) w),
      uECC_shared_secret = (\<lambda>pub priv w. uECC_shared_secret_c pub priv (replicate 32 0) w),
      uECC_compute_public_key = (\<lambda>priv w. do { (r, pub) \<leftarrow> uECC_compute_public_key_c priv (replicate 64 0); Some (pub, w) }),
      uECC_sign = (\<lambda>key hash w. uECC_sign_c key hash (replicate 64 0) w),
      ed25519_key_pair = key_pair, ed25519_sign = sign\<rparr>"

end
