(* ===== verification/Point_Laws.thy ===== *)
theory Point_Laws
  imports Uecc_Point
begin

text \<open>
  The point operations, first as operations on eight words, which gives that the ladder always returns, then as formulas modulo
  the prime: the co-Z additions follow the chord through two points of a curve and the doubling the tangent.
\<close>

section \<open>Eight words\<close>

abbreviation PP :: int where "PP \<equiv> int prime_p"

lemma curve_simps [simp]: "num_words curve_secp256r1 = 8" "num_n_bits curve_secp256r1 = 256" "num_bytes curve_secp256r1 = 32"
  "length (curve_p curve_secp256r1) = 8" "length (curve_n curve_secp256r1) = 8" "length (curve_G curve_secp256r1) = 16"
  by (simp_all add: curve_secp256r1_def)

lemma length_modAdd [simp]: "length l = n \<Longrightarrow> length r = n \<Longrightarrow> length m = n \<Longrightarrow> length (uECC_vli_modAdd l r m n) = n"
  by (simp add: uECC_vli_modAdd_def case_prod_beta vli_add_vval(2) vli_sub_vval(2))

lemma length_modSub [simp]: "length l = n \<Longrightarrow> length r = n \<Longrightarrow> length m = n \<Longrightarrow> length (uECC_vli_modSub l r m n) = n"
  by (simp add: uECC_vli_modSub_def case_prod_beta vli_add_vval(2) vli_sub_vval(2))

lemmas length_mult [simp] = modMult_fast_vval(2)

lemma length_square [simp]: "length a = 8 \<Longrightarrow> length (uECC_vli_modSquare_fast a) = 8"
  by (simp add: uECC_vli_modSquare_fast_def)

definition pt :: "vli \<times> vli \<Rightarrow> bool" where
  "pt A \<longleftrightarrow> length (fst A) = 8 \<and> length (snd A) = 8"

lemma pt_add: "pt A \<Longrightarrow> pt B \<Longrightarrow> pt (fst (XYcZ_add A B)) \<and> pt (snd (XYcZ_add A B))"
  by (simp add: XYcZ_add_def case_prod_beta Let_def pt_def)

lemma pt_addC: "pt A \<Longrightarrow> pt B \<Longrightarrow> pt (fst (XYcZ_addC A B)) \<and> pt (snd (XYcZ_addC A B))"
  by (simp add: XYcZ_addC_def case_prod_beta Let_def pt_def)

lemma pt_apply_z: "length x = 8 \<Longrightarrow> length y = 8 \<Longrightarrow> length z = 8 \<Longrightarrow> pt (apply_z x y z)"
  by (simp add: apply_z_def Let_def pt_def)

lemma length_jacobian_half: "length x = 8 \<Longrightarrow> length (jacobian_half x) = 8"
  by (simp add: jacobian_half_def case_prod_beta Let_def vli_add_vval(2) rshift1_vval(2))

lemma double_lengths:
  assumes "length x = 8" "length y = 8" "length z = 8" "double_jacobian_default x y z = (x', y', z')"
  shows "length x' = 8" "length y' = 8" "length z' = 8"
  using assms by (auto simp: double_jacobian_default_def Let_def length_jacobian_half split: if_splits)

lemma pt_initial_double:
  assumes "length x = 8" "length y = 8" "case iz of None \<Rightarrow> True | Some z \<Rightarrow> length z = 8"
  shows "pt (fst (XYcZ_initial_double x y iz)) \<and> pt (snd (XYcZ_initial_double x y iz))"
proof -
  define z where "z = (case iz of Some z \<Rightarrow> uECC_vli_set z (num_words curve_secp256r1)
    | None \<Rightarrow> 1 # uECC_vli_clear (num_words curve_secp256r1 - 1))"
  have z: "length z = 8" using assms(3) by (auto simp: z_def uECC_vli_set_def uECC_vli_clear_def split: option.splits)
  obtain a b where ab: "apply_z x y z = (a, b)" by fastforce
  have l: "length a = 8" "length b = 8" using pt_apply_z [OF assms(1,2) z] ab by (simp_all add: pt_def)
  obtain a' b' z' where d: "double_jacobian_default a b z = (a', b', z')" by (metis surj_pair)
  have "XYcZ_initial_double x y iz = ((a', b'), apply_z (uECC_vli_set x 8) (uECC_vli_set y 8) z')"
    unfolding XYcZ_initial_double_def Let_def z_def [symmetric] using ab d by simp
  then show ?thesis
    using double_lengths [OF l z d] pt_apply_z [of "uECC_vli_set x 8" "uECC_vli_set y 8" z'] assms(1,2)
    by (simp add: pt_def uECC_vli_set_def)
qed

definition pts :: "ladder \<Rightarrow> bool" where
  "pts R \<longleftrightarrow> length R = 2 \<and> pt (R ! 0) \<and> pt (R ! 1)"

lemma pts_step:
  assumes "pts R" "nb < 2"
  shows "pts (ladder_addC nb R)" "pts (ladder_add nb R)"
proof -
  have n: "nb = 0 \<or> nb = 1" using assms(2) by auto
  show "pts (ladder_addC nb R)"
    using n assms(1) pt_addC [of "R ! 0" "R ! 1"] pt_addC [of "R ! 1" "R ! 0"]
    by (auto simp: ladder_addC_def pts_def case_prod_beta nth_list_update)
  show "pts (ladder_add nb R)"
    using n assms(1) pt_add [of "R ! 0" "R ! 1"] pt_add [of "R ! 1" "R ! 0"]
    by (auto simp: ladder_add_def pts_def case_prod_beta nth_list_update)
qed

lemma ladder_nb_less: "ladder_nb s i < 2"
  by (simp add: ladder_nb_def)

lemma pts_loop: "pts R \<Longrightarrow> pts (ladder_loop s i R)"
  by (induction s i R rule: ladder_loop.induct) (simp_all add: Let_def pts_step ladder_nb_less)

lemma curve_p_odd: "odd (vval (curve_p curve_secp256r1))" "1 < vval (curve_p curve_secp256r1)"
  by (simp_all add: curve_p_vval prime_p_def)

lemma modInv_p_returns:
  assumes "length z = 8"
  shows "\<exists>r. uECC_vli_modInv z (curve_p curve_secp256r1) 8 = Some r \<and> length r = 8"
proof (cases "vval z = 0")
  case True
  then show ?thesis using assms by (simp add: uECC_vli_modInv_def isZero_vval uECC_vli_clear_def)
next
  case False
  then show ?thesis using modInv_vval [OF assms _ _ curve_p_odd] by auto
qed

lemma EccPoint_mult_returns:
  assumes "length point = 16" "case iz of None \<Rightarrow> True | Some z \<Rightarrow> length z = 8"
  shows "\<exists>r. EccPoint_mult point scalar iz nbits = Some r \<and> length r = 16"
proof -
  define px where "px = take 8 point"
  define py where "py = take 8 (drop 8 point)"
  have l: "length px = 8" "length py = 8" using assms(1) by (simp_all add: px_def py_def)
  obtain R1 R0 where i: "XYcZ_initial_double px py iz = (R1, R0)" by (metis surj_pair)
  define nb where "nb = ladder_nb scalar 0"
  define R where "R = ladder_addC nb (ladder_loop scalar (nbits - 2) [R0, R1])"
  have nb: "nb < 2" by (simp add: nb_def ladder_nb_less)
  have "pts [R0, R1]" using pt_initial_double [OF l assms(2)] i by (simp add: pts_def)
  then have R: "pts R" "pts (ladder_add nb R)" unfolding R_def using nb by (blast intro: pts_loop pts_step)+
  have p: "pt (R ! (1 - nb))" "pt (R ! 0)" "pt (R ! 1)" using R(1) nb by (auto simp: pts_def less_Suc_eq numeral_2_eq_2)
  let ?z = "uECC_vli_modMult_fast (uECC_vli_modMult_fast (modSub_p (fst (R ! 1)) (fst (R ! 0))) (snd (R ! (1 - nb)))) px"
  have "length ?z = 8" using p l by (simp add: pt_def)
  then obtain z where z: "uECC_vli_modInv ?z (curve_p curve_secp256r1) 8 = Some z" "length z = 8" using modInv_p_returns by blast
  let ?w = "uECC_vli_modMult_fast (uECC_vli_modMult_fast z py) (fst (R ! (1 - nb)))"
  have "pt (apply_z (fst (ladder_add nb R ! 0)) (snd (ladder_add nb R ! 0)) ?w)"
    using R(2) p l z(2) by (intro pt_apply_z) (simp_all add: pts_def pt_def)
  then show ?thesis
    using i z(1) by (simp add: EccPoint_mult_def Let_def px_def [symmetric] py_def [symmetric] nb_def [symmetric] R_def [symmetric] pt_def case_prod_beta)
qed

lemma regularize_k_lengths:
  assumes "length k = 8" "regularize_k k = (c, k0, k1)"
  shows "length k0 = 8" "length k1 = 8"
proof -
  have "k0 = snd (uECC_vli_add k (curve_n curve_secp256r1) 8)" "k1 = snd (uECC_vli_add k0 (curve_n curve_secp256r1) 8)"
    using assms(2) by (auto simp: regularize_k_def BITS_TO_WORDS_def Let_def case_prod_beta)
  then show "length k0 = 8" "length k1 = 8" using assms(1) by (simp_all add: vli_add_vval(2))
qed

lemma compute_public_key_returns:
  "\<exists>r ok. EccPoint_compute_public_key k = Some (r, ok) \<and> length r = 16"
proof -
  obtain c k0 k1 where "regularize_k k = (c, k0, k1)" by (metis surj_pair)
  then show ?thesis
    using EccPoint_mult_returns [of "curve_G curve_secp256r1" None "if c then k0 else k1" 257]
    by (auto simp: EccPoint_compute_public_key_def)
qed

section \<open>Residues\<close>

definition rv :: "vli \<Rightarrow> int" where "rv a = int (vval a)"

definition fe :: "vli \<Rightarrow> bool" where "fe a \<longleftrightarrow> length a = 8 \<and> vval a < prime_p"

lemma fe_length: "fe a \<Longrightarrow> length a = 8"
  by (simp add: fe_def)

lemma prime_p_pos: "0 < prime_p"
  by (simp add: prime_p_def)

lemma fe_mult: "fe a \<Longrightarrow> fe b \<Longrightarrow> fe (uECC_vli_modMult_fast a b)"
  using prime_p_pos by (simp add: fe_def modMult_fast_vval)

lemma rv_mult: "fe a \<Longrightarrow> fe b \<Longrightarrow> rv (uECC_vli_modMult_fast a b) = rv a * rv b mod PP"
  by (simp add: fe_def rv_def modMult_fast_vval zmod_int)

lemma fe_square: "fe a \<Longrightarrow> fe (uECC_vli_modSquare_fast a)"
  by (simp add: uECC_vli_modSquare_fast_def fe_mult)

lemma rv_square: "fe a \<Longrightarrow> rv (uECC_vli_modSquare_fast a) = rv a * rv a mod PP"
  by (simp add: uECC_vli_modSquare_fast_def rv_mult)

lemma fe_modAdd: "fe a \<Longrightarrow> fe b \<Longrightarrow> fe (modAdd_p a b)"
  using modAdd_vval [of a 8 b "curve_p curve_secp256r1"] prime_p_pos by (simp add: fe_def curve_p_vval)

lemma rv_modAdd: "fe a \<Longrightarrow> fe b \<Longrightarrow> rv (modAdd_p a b) = (rv a + rv b) mod PP"
  using modAdd_vval [of a 8 b "curve_p curve_secp256r1"] by (simp add: fe_def rv_def curve_p_vval zmod_int)

lemma fe_modSub: "fe a \<Longrightarrow> fe b \<Longrightarrow> fe (modSub_p a b)"
  using modSub_vval [of a 8 b "curve_p curve_secp256r1"] prime_p_pos by (simp add: fe_def curve_p_vval)

lemma rv_modSub: "fe a \<Longrightarrow> fe b \<Longrightarrow> rv (modSub_p a b) = (rv a - rv b) mod PP"
proof -
  assume ab: "fe a" "fe b"
  then have "rv (modSub_p a b) = (rv a + PP - rv b) mod PP"
    using modSub_vval [of a 8 b "curve_p curve_secp256r1"] by (simp add: fe_def rv_def curve_p_vval zmod_int of_nat_diff)
  also have "rv a + PP - rv b = (rv a - rv b) + PP" by simp
  finally show ?thesis by simp
qed

lemmas fe_intros = fe_mult fe_square fe_modAdd [unfolded curve_simps(1)] fe_modSub [unfolded curve_simps(1)]
lemmas rv_simps = rv_mult rv_square rv_modAdd [unfolded curve_simps(1)] rv_modSub [unfolded curve_simps(1)]

lemma XYcZ_add_residues:
  assumes "fe X1" "fe Y1" "fe X2" "fe Y2" "XYcZ_add (X1, Y1) (X2, Y2) = ((A, B), (C, D))"
  defines "d \<equiv> rv X2 - rv X1"
  shows "fe A" "fe B" "fe C" "fe D"
    "rv A = rv X1 * d ^ 2 mod PP" "rv B = rv Y1 * d ^ 3 mod PP"
    "rv C = ((rv Y2 - rv Y1) ^ 2 - (rv X1 + rv X2) * d ^ 2) mod PP"
    "rv D = ((rv Y2 - rv Y1) * (rv X1 * d ^ 2 - rv C) - rv Y1 * d ^ 3) mod PP"
proof -
  define t where "t = uECC_vli_modSquare_fast (modSub_p X2 X1)"
  define B1 where "B1 = uECC_vli_modMult_fast X1 t"
  define C1 where "C1 = uECC_vli_modMult_fast X2 t"
  define E where "E = modSub_p Y2 Y1"
  have f: "fe t" "fe B1" "fe C1" "fe E" using assms(1-4) by (simp_all add: t_def B1_def C1_def E_def fe_intros)
  have o: "A = B1" "B = uECC_vli_modMult_fast Y1 (modSub_p C1 B1)"
      "C = modSub_p (modSub_p (uECC_vli_modSquare_fast E) B1) C1"
      "D = modSub_p (uECC_vli_modMult_fast E (modSub_p B1 C)) B"
    using assms(5) by (auto simp: XYcZ_add_def Let_def t_def B1_def C1_def E_def)
  show fs: "fe A" "fe B" "fe C" "fe D" using f assms(2) by (simp_all add: o fe_intros)
  have rt: "rv t = d ^ 2 mod PP" using assms(1-4) by (simp add: t_def d_def rv_simps fe_intros mod_simps power2_eq_square)
  have rB1: "rv B1 = rv X1 * d ^ 2 mod PP" and rC1: "rv C1 = rv X2 * d ^ 2 mod PP"
    using assms(1-4) f by (simp_all add: B1_def C1_def rv_mult rt mod_simps)
  have rE: "rv E = (rv Y2 - rv Y1) mod PP" using assms(1-4) by (simp add: E_def rv_simps)
  show "rv A = rv X1 * d ^ 2 mod PP" by (simp add: o(1) rB1)
  show rB: "rv B = rv Y1 * d ^ 3 mod PP"
  proof -
    have "rv B = rv Y1 * (rv X2 * d ^ 2 - rv X1 * d ^ 2) mod PP" using assms(2) f by (simp add: o(2) rv_simps fe_intros rB1 rC1 mod_simps)
    also have "rv X2 * d ^ 2 - rv X1 * d ^ 2 = d ^ 3" by (simp add: d_def power2_eq_square power3_eq_cube algebra_simps)
    finally show ?thesis .
  qed
  show "rv C = ((rv Y2 - rv Y1) ^ 2 - (rv X1 + rv X2) * d ^ 2) mod PP"
    using f by (simp add: o(3) rv_simps fe_intros rB1 rC1 rE mod_simps) (simp add: power2_eq_square algebra_simps)
  show "rv D = ((rv Y2 - rv Y1) * (rv X1 * d ^ 2 - rv C) - rv Y1 * d ^ 3) mod PP"
    using f fs by (simp add: o(4) rv_simps fe_intros rB1 rE rB mod_simps)
qed

lemma XYcZ_addC_residues:
  assumes "fe X1" "fe Y1" "fe X2" "fe Y2" "XYcZ_addC (X1, Y1) (X2, Y2) = ((A, B), (C, D))"
  defines "d \<equiv> rv X2 - rv X1"
  shows "fe A" "fe B" "fe C" "fe D"
    "rv A = ((rv Y2 + rv Y1) ^ 2 - (rv X1 + rv X2) * d ^ 2) mod PP"
    "rv B = ((rv Y2 + rv Y1) * (rv A - rv X1 * d ^ 2) - rv Y1 * d ^ 3) mod PP"
    "rv C = ((rv Y2 - rv Y1) ^ 2 - (rv X1 + rv X2) * d ^ 2) mod PP"
    "rv D = ((rv Y2 - rv Y1) * (rv X1 * d ^ 2 - rv C) - rv Y1 * d ^ 3) mod PP"
proof -
  define t where "t = uECC_vli_modSquare_fast (modSub_p X2 X1)"
  define B1 where "B1 = uECC_vli_modMult_fast X1 t"
  define C1 where "C1 = uECC_vli_modMult_fast X2 t"
  define S where "S = modAdd_p Y2 Y1"
  define E where "E = modSub_p Y2 Y1"
  define F where "F = uECC_vli_modMult_fast Y1 (modSub_p C1 B1)"
  define G where "G = modAdd_p B1 C1"
  have f: "fe t" "fe B1" "fe C1" "fe S" "fe E" "fe F" "fe G"
    using assms(1-4) by (simp_all add: t_def B1_def C1_def S_def E_def F_def G_def fe_intros)
  have o: "A = modSub_p (uECC_vli_modSquare_fast S) G"
      "B = modSub_p (uECC_vli_modMult_fast (modSub_p A B1) S) F"
      "C = modSub_p (uECC_vli_modSquare_fast E) G"
      "D = modSub_p (uECC_vli_modMult_fast E (modSub_p B1 C)) F"
    using assms(5) by (auto simp: XYcZ_addC_def Let_def t_def B1_def C1_def S_def E_def F_def G_def)
  show fs: "fe A" "fe B" "fe C" "fe D" using f assms(2) by (simp_all add: o fe_intros)
  have rt: "rv t = d ^ 2 mod PP" using assms(1-4) by (simp add: t_def d_def rv_simps fe_intros mod_simps power2_eq_square)
  have rB1: "rv B1 = rv X1 * d ^ 2 mod PP" and rC1: "rv C1 = rv X2 * d ^ 2 mod PP"
    using assms(1-4) f by (simp_all add: B1_def C1_def rv_mult rt mod_simps)
  have rE: "rv E = (rv Y2 - rv Y1) mod PP" and rS: "rv S = (rv Y2 + rv Y1) mod PP" using assms(1-4) by (simp_all add: E_def S_def rv_simps)
  have rG: "rv G = (rv X1 * d ^ 2 + rv X2 * d ^ 2) mod PP" using f by (simp add: G_def rv_simps rB1 rC1 mod_simps)
  have rF: "rv F = rv Y1 * d ^ 3 mod PP"
  proof -
    have "rv F = rv Y1 * (rv X2 * d ^ 2 - rv X1 * d ^ 2) mod PP" using assms(2) f by (simp add: F_def rv_simps fe_intros rB1 rC1 mod_simps)
    also have "rv X2 * d ^ 2 - rv X1 * d ^ 2 = d ^ 3" by (simp add: d_def power2_eq_square power3_eq_cube algebra_simps)
    finally show ?thesis .
  qed
  show "rv A = ((rv Y2 + rv Y1) ^ 2 - (rv X1 + rv X2) * d ^ 2) mod PP"
    using f by (simp add: o(1) rv_simps fe_intros rG rS mod_simps) (simp add: power2_eq_square algebra_simps)
  show "rv C = ((rv Y2 - rv Y1) ^ 2 - (rv X1 + rv X2) * d ^ 2) mod PP"
    using f by (simp add: o(3) rv_simps fe_intros rG rE mod_simps) (simp add: power2_eq_square algebra_simps)
  show "rv B = ((rv Y2 + rv Y1) * (rv A - rv X1 * d ^ 2) - rv Y1 * d ^ 3) mod PP"
    using f fs by (simp add: o(2) rv_simps fe_intros rB1 rS rF mod_simps mult.commute)
  show "rv D = ((rv Y2 - rv Y1) * (rv X1 * d ^ 2 - rv C) - rv Y1 * d ^ 3) mod PP"
    using f fs by (simp add: o(4) rv_simps fe_intros rB1 rE rF mod_simps)
qed

section \<open>The equation of the curve\<close>

lemma equal_loop_0: "equal_loop l r n d = 0 \<longleftrightarrow> d = 0 \<and> (\<forall>i<n. l ! i = r ! i)"
proof (induction n arbitrary: d)
  case (Suc n)
  have "d OR (l ! n XOR r ! n) = 0 \<longleftrightarrow> d = 0 \<and> l ! n = r ! n" by (auto simp: bit_eq_iff bit_or_iff bit_xor_iff)
  then show ?case using Suc by (auto simp: less_Suc_eq)
qed simp

lemma vli_equal_vval: "length l = n \<Longrightarrow> length r = n \<Longrightarrow> uECC_vli_equal l r n \<longleftrightarrow> vval l = vval r"
  using vval_inject [of l r] list_eq_iff_nth_eq [of l r] by (auto simp: uECC_vli_equal_def equal_loop_0)

lemma x_side_residue:
  assumes "fe x"
  shows "fe (x_side_default x)" "rv (x_side_default x) = (rv x ^ 3 - 3 * rv x + rv (curve_b curve_secp256r1)) mod PP"
proof -
  have c: "fe (3 # replicate 7 0)" "rv (3 # replicate 7 0) = 3" "fe (curve_b curve_secp256r1)"
    by (simp_all add: fe_def rv_def prime_p_def curve_secp256r1_def)
  show "fe (x_side_default x)" using assms c by (simp add: x_side_default_def Let_def fe_intros del: replicate.simps)
  have "rv (x_side_default x) = ((rv x * rv x - 3) * rv x + rv (curve_b curve_secp256r1)) mod PP"
    using assms c by (simp add: x_side_default_def Let_def fe_intros rv_simps mod_simps)
  then show "rv (x_side_default x) = (rv x ^ 3 - 3 * rv x + rv (curve_b curve_secp256r1)) mod PP"
    by (simp add: power3_eq_cube algebra_simps)
qed

text \<open>The check of a public key accepts exactly the points of the curve other than the origin, in reduced coordinates.\<close>

theorem valid_point_exact:
  assumes "length point = 16"
  shows "uECC_valid_point point \<longleftrightarrow> (let x = rv (take 8 point); y = rv (drop 8 point) in
    (x \<noteq> 0 \<or> y \<noteq> 0) \<and> x < PP \<and> y < PP \<and> y ^ 2 mod PP = (x ^ 3 - 3 * x + rv (curve_b curve_secp256r1)) mod PP)"
proof -
  let ?X = "take 8 point" and ?Y = "drop 8 point"
  have l: "length ?X = 8" "length ?Y = 8" "take 8 ?Y = ?Y" using assms by simp_all
  have z: "EccPoint_isZero point \<longleftrightarrow> vval ?X = 0 \<and> vval ?Y = 0"
    using isZero_vval [OF assms] vval_split [of 8 point] assms by (simp add: EccPoint_isZero_def)
  have cx: "uECC_vli_cmp_unsafe (curve_p curve_secp256r1) point 8 = 1 \<longleftrightarrow> vval ?X < prime_p"
    using cmp_loop_vval [of 8 "curve_p curve_secp256r1" point] assms by (simp add: uECC_vli_cmp_unsafe_def curve_p_vval)
  have cy: "uECC_vli_cmp_unsafe (curve_p curve_secp256r1) ?Y 8 = 1 \<longleftrightarrow> vval ?Y < prime_p"
    using cmp_unsafe_vval [OF curve_simps(4) l(2)] by (simp add: curve_p_vval)
  have q: "uECC_vli_equal (uECC_vli_modSquare_fast ?Y) (x_side_default ?X) 8
      \<longleftrightarrow> rv ?Y ^ 2 mod PP = (rv ?X ^ 3 - 3 * rv ?X + rv (curve_b curve_secp256r1)) mod PP" if "fe ?X" "fe ?Y"
  proof -
    note f = x_side_residue [OF that(1)] fe_square [OF that(2)] rv_square [OF that(2)]
    have "uECC_vli_equal (uECC_vli_modSquare_fast ?Y) (x_side_default ?X) 8
        \<longleftrightarrow> rv (uECC_vli_modSquare_fast ?Y) = rv (x_side_default ?X)"
      using vli_equal_vval [OF fe_length [OF f(3)] fe_length [OF f(1)]] by (simp add: rv_def)
    then show ?thesis unfolding f(2,4) by (simp add: power2_eq_square)
  qed
  have fe: "vval ?X < prime_p \<Longrightarrow> fe ?X" "vval ?Y < prime_p \<Longrightarrow> fe ?Y" using l by (simp_all add: fe_def)
  have "uECC_valid_point point \<longleftrightarrow> \<not> (vval ?X = 0 \<and> vval ?Y = 0) \<and> vval ?X < prime_p \<and> vval ?Y < prime_p
      \<and> uECC_vli_equal (uECC_vli_modSquare_fast ?Y) (x_side_default ?X) 8"
    by (auto simp: uECC_valid_point_def Let_def z cx cy l(3))
  then show ?thesis using q fe unfolding Let_def by (auto simp: rv_def)
qed

section \<open>Points of the plane\<close>

text \<open>\<open>coZ z P A\<close>: the words \<open>A\<close> are the point \<open>P\<close> with the common denominator \<open>z\<close>. \<open>chord P Q R\<close>: \<open>R\<close> is the sum of \<open>P\<close> and \<open>Q\<close> by
  the chord through them, of slope \<open>l\<close>.\<close>

type_synonym plane = "int \<times> int"

definition ceq :: "int \<Rightarrow> int \<Rightarrow> bool" where "ceq a b \<longleftrightarrow> a mod PP = b mod PP"

definition coZ :: "int \<Rightarrow> plane \<Rightarrow> vli \<times> vli \<Rightarrow> bool" where
  "coZ z P A \<longleftrightarrow> fe (fst A) \<and> fe (snd A) \<and> ceq (rv (fst A)) (fst P * z ^ 2) \<and> ceq (rv (snd A)) (snd P * z ^ 3)"

definition chord :: "plane \<Rightarrow> plane \<Rightarrow> plane \<Rightarrow> bool" where
  "chord P Q R \<longleftrightarrow> (\<exists>l. ceq (l * (fst Q - fst P)) (snd Q - snd P) \<and> ceq (fst R) (l ^ 2 - fst P - fst Q)
     \<and> ceq (snd R) (l * (fst P - fst R) - snd P))"

definition opposite :: "plane \<Rightarrow> plane" where "opposite P = (fst P, - snd P)"

lemma ceq_refl [simp]: "ceq a a" by (simp add: ceq_def)

lemma ceq_sym: "ceq a b \<Longrightarrow> ceq b a" by (simp add: ceq_def)

lemma ceq_trans [trans]: "ceq a b \<Longrightarrow> ceq b c \<Longrightarrow> ceq a c" by (simp add: ceq_def)

lemma ceq_mod [simp]: "ceq (a mod PP) b \<longleftrightarrow> ceq a b" by (simp add: ceq_def)

lemma ceq_intros:
  "ceq a a' \<Longrightarrow> ceq b b' \<Longrightarrow> ceq (a + b) (a' + b')" "ceq a a' \<Longrightarrow> ceq b b' \<Longrightarrow> ceq (a - b) (a' - b')"
  "ceq a a' \<Longrightarrow> ceq b b' \<Longrightarrow> ceq (a * b) (a' * b')" "ceq a a' \<Longrightarrow> ceq (a ^ n) (a' ^ n)"
  unfolding ceq_def by (blast intro: mod_add_cong mod_diff_cong mod_mult_cong) + (metis power_mod)

text \<open>The two coordinates of a sum, for coordinates \<open>X\<close>, \<open>Y\<close> that are the plane's up to the denominator.\<close>

lemma chord_x:
  assumes "ceq (l * (x2 - x1)) e" "ceq x3 (l ^ 2 - x1 - x2)" "ceq X1 (x1 * z ^ 2)" "ceq X2 (x2 * z ^ 2)" "ceq E (e * z ^ 3)"
  shows "ceq (E ^ 2 - (X1 + X2) * (X2 - X1) ^ 2) (x3 * (z * (X2 - X1)) ^ 2)"
proof -
  have d: "ceq (X2 - X1) (x2 * z ^ 2 - x1 * z ^ 2)" using assms(3,4) by (intro ceq_intros)
  have "ceq (E ^ 2 - (X1 + X2) * (X2 - X1) ^ 2)
      ((l * (x2 - x1) * z ^ 3) ^ 2 - (x1 * z ^ 2 + x2 * z ^ 2) * (x2 * z ^ 2 - x1 * z ^ 2) ^ 2)"
    using assms(3,4) d ceq_trans [OF assms(5) ceq_intros(3) [OF ceq_sym [OF assms(1)] ceq_refl]] by (intro ceq_intros)
  also have "(l * (x2 - x1) * z ^ 3) ^ 2 - (x1 * z ^ 2 + x2 * z ^ 2) * (x2 * z ^ 2 - x1 * z ^ 2) ^ 2
      = (l ^ 2 - x1 - x2) * (z * (x2 * z ^ 2 - x1 * z ^ 2)) ^ 2"
    by (simp add: power2_eq_square power3_eq_cube algebra_simps)
  also have "ceq \<dots> (x3 * (z * (X2 - X1)) ^ 2)" using ceq_sym [OF assms(2)] ceq_sym [OF assms(3)] ceq_sym [OF assms(4)] by (intro ceq_intros ceq_refl)
  finally show ?thesis .
qed

lemma chord_y:
  assumes "ceq (l * (x2 - x1)) e" "ceq y3 (l * (x1 - x3) - y1)" "ceq X1 (x1 * z ^ 2)" "ceq X2 (x2 * z ^ 2)" "ceq E (e * z ^ 3)"
    "ceq Y1 (y1 * z ^ 3)" "ceq X3 (x3 * (z * (X2 - X1)) ^ 2)"
  shows "ceq (E * (X1 * (X2 - X1) ^ 2 - X3) - Y1 * (X2 - X1) ^ 3) (y3 * (z * (X2 - X1)) ^ 3)"
proof -
  let ?d = "X2 - X1"
  have d: "ceq ?d (x2 * z ^ 2 - x1 * z ^ 2)" using assms(3,4) by (intro ceq_intros)
  have "ceq E (l * (x2 - x1) * z ^ 3)" by (rule ceq_trans [OF assms(5) ceq_intros(3) [OF ceq_sym [OF assms(1)] ceq_refl]])
  also have "l * (x2 - x1) * z ^ 3 = l * (z * (x2 * z ^ 2 - x1 * z ^ 2))" by (simp add: power2_eq_square power3_eq_cube algebra_simps)
  also have "ceq \<dots> (l * (z * ?d))" using ceq_sym [OF assms(3)] ceq_sym [OF assms(4)] by (intro ceq_intros ceq_refl)
  finally have E: "ceq E (l * (z * ?d))" .
  have "ceq (E * (X1 * ?d ^ 2 - X3) - Y1 * ?d ^ 3)
      (l * (z * ?d) * (x1 * z ^ 2 * ?d ^ 2 - x3 * (z * ?d) ^ 2) - y1 * z ^ 3 * ?d ^ 3)"
    using E assms(3,6,7) by (intro ceq_intros ceq_refl)
  also have "l * (z * ?d) * (x1 * z ^ 2 * ?d ^ 2 - x3 * (z * ?d) ^ 2) - y1 * z ^ 3 * ?d ^ 3 = (l * (x1 - x3) - y1) * (z * ?d) ^ 3"
    by (simp add: power2_eq_square power3_eq_cube algebra_simps)
  also have "ceq \<dots> (y3 * (z * ?d) ^ 3)" using ceq_sym [OF assms(2)] by (intro ceq_intros ceq_refl)
  finally show ?thesis .
qed

lemma XYcZ_add_chord:
  assumes "coZ z P A" "coZ z Q B" "chord P Q R"
  defines "z' \<equiv> z * (rv (fst B) - rv (fst A))"
  shows "coZ z' P (fst (XYcZ_add A B)) \<and> coZ z' R (snd (XYcZ_add A B))"
proof -
  obtain X1 Y1 X2 Y2 where AB: "A = (X1, Y1)" "B = (X2, Y2)" by (cases A; cases B)
  obtain A1 B1 C1 D1 where o: "XYcZ_add (X1, Y1) (X2, Y2) = ((A1, B1), (C1, D1))" by (metis surj_pair)
  have f: "fe X1" "fe Y1" "fe X2" "fe Y2" and X: "ceq (rv X1) (fst P * z ^ 2)" "ceq (rv X2) (fst Q * z ^ 2)"
    and Y: "ceq (rv Y1) (snd P * z ^ 3)" "ceq (rv Y2) (snd Q * z ^ 3)"
    using assms(1,2) by (simp_all add: coZ_def AB)
  note r = XYcZ_add_residues [OF f o]
  obtain l where l: "ceq (l * (fst Q - fst P)) (snd Q - snd P)" "ceq (fst R) (l ^ 2 - fst P - fst Q)"
      "ceq (snd R) (l * (fst P - fst R) - snd P)" using assms(3) unfolding chord_def by blast
  have E: "ceq (rv Y2 - rv Y1) ((snd Q - snd P) * z ^ 3)" using ceq_intros(2) [OF Y(2,1)] by (simp add: left_diff_distrib)
  have z: "z' = z * (rv X2 - rv X1)" by (simp add: z'_def AB)
  have C: "ceq (rv C1) (fst R * z' ^ 2)" unfolding r(7) z ceq_mod by (rule chord_x [OF l(1,2) X E])
  have D: "ceq (rv D1) (snd R * z' ^ 3)" unfolding r(8) z ceq_mod by (rule chord_y [OF l(1,3) X E Y(1) C [unfolded z]])
  have "ceq (rv A1) (fst P * z' ^ 2)" "ceq (rv B1) (snd P * z' ^ 3)"
    unfolding r(5,6) z ceq_mod power_mult_distrib mult.assoc [symmetric] by (rule ceq_intros(3) [OF X(1) ceq_refl], rule ceq_intros(3) [OF Y(1) ceq_refl])
  then show ?thesis using r(1-4) C D by (simp add: coZ_def AB o)
qed

lemma XYcZ_addC_chord:
  assumes "coZ z P A" "coZ z Q B" "chord P Q R" "chord P (opposite Q) S"
  defines "z' \<equiv> z * (rv (fst B) - rv (fst A))"
  shows "coZ z' S (fst (XYcZ_addC A B)) \<and> coZ z' R (snd (XYcZ_addC A B))"
proof -
  obtain X1 Y1 X2 Y2 where AB: "A = (X1, Y1)" "B = (X2, Y2)" by (cases A; cases B)
  obtain A1 B1 C1 D1 where o: "XYcZ_addC (X1, Y1) (X2, Y2) = ((A1, B1), (C1, D1))" by (metis surj_pair)
  have f: "fe X1" "fe Y1" "fe X2" "fe Y2" and X: "ceq (rv X1) (fst P * z ^ 2)" "ceq (rv X2) (fst Q * z ^ 2)"
    and Y: "ceq (rv Y1) (snd P * z ^ 3)" "ceq (rv Y2) (snd Q * z ^ 3)"
    using assms(1,2) by (simp_all add: coZ_def AB)
  note r = XYcZ_addC_residues [OF f o]
  have z: "z' = z * (rv X2 - rv X1)" by (simp add: z'_def AB)
  obtain l where l: "ceq (l * (fst Q - fst P)) (snd Q - snd P)" "ceq (fst R) (l ^ 2 - fst P - fst Q)"
      "ceq (snd R) (l * (fst P - fst R) - snd P)" using assms(3) unfolding chord_def by blast
  have E: "ceq (rv Y2 - rv Y1) ((snd Q - snd P) * z ^ 3)" using ceq_intros(2) [OF Y(2,1)] by (simp add: left_diff_distrib)
  have C: "ceq (rv C1) (fst R * z' ^ 2)" unfolding r(7) z ceq_mod by (rule chord_x [OF l(1,2) X E])
  have D: "ceq (rv D1) (snd R * z' ^ 3)" unfolding r(8) z ceq_mod by (rule chord_y [OF l(1,3) X E Y(1) C [unfolded z]])
  obtain k where k: "ceq (k * (fst Q - fst P)) (- snd Q - snd P)" "ceq (fst S) (k ^ 2 - fst P - fst Q)"
      "ceq (snd S) (k * (fst P - fst S) - snd P)" using assms(4) unfolding chord_def opposite_def by auto
  have "ceq (0 - rv Y2 - rv Y1) (0 - snd Q * z ^ 3 - snd P * z ^ 3)" using Y by (intro ceq_intros ceq_refl)
  then have F: "ceq (- rv Y2 - rv Y1) ((- snd Q - snd P) * z ^ 3)" by (simp add: algebra_simps)
  have "(rv Y2 + rv Y1) ^ 2 = (- rv Y2 - rv Y1) ^ 2" by (simp add: power2_eq_square algebra_simps)
  then have A: "ceq (rv A1) (fst S * z' ^ 2)" unfolding r(5) z ceq_mod using chord_x [OF k(1,2) X F] by simp
  have "(rv Y2 + rv Y1) * (rv A1 - rv X1 * (rv X2 - rv X1) ^ 2) = (- rv Y2 - rv Y1) * (rv X1 * (rv X2 - rv X1) ^ 2 - rv A1)"
    by (simp add: algebra_simps)
  then have B: "ceq (rv B1) (snd S * z' ^ 3)"
    unfolding r(6) z ceq_mod using chord_y [OF k(1,3) X F Y(1) A [unfolded z]] by simp
  show ?thesis using r(1-4) A B C D by (simp add: coZ_def AB o)
qed

section \<open>Doubling\<close>

definition tangent :: "plane \<Rightarrow> plane \<Rightarrow> bool" where
  "tangent P R \<longleftrightarrow> (\<exists>l. ceq (l * (2 * snd P)) (3 * fst P ^ 2 - 3) \<and> ceq (fst R) (l ^ 2 - 2 * fst P)
     \<and> ceq (snd R) (l * (fst P - fst R) - snd P))"

lemma jacobian_half_update:
  assumes "length x = 8"
  shows "jacobian_half x = vli_modInv_update x (curve_p curve_secp256r1) 8"
proof -
  note a = vli_add_vval [of x 8 "curve_p curve_secp256r1", OF assms curve_simps(4)]
  have "uECC_vli_testBit x 0 \<noteq> 0 \<longleftrightarrow> \<not> EVEN x" by (simp add: uECC_vli_testBit_def EVEN_def)
  moreover have "push_bit 31 (1 :: u32) = HIGH_BIT_SET" "push_bit 31 (0 :: u32) = 0" "(1 :: u32) \<noteq> 0"
    by (simp_all add: HIGH_BIT_SET_def)
  ultimately show ?thesis
    using a(3) by (cases "vval x + vval (curve_p curve_secp256r1) < wbase 8")
      (simp_all add: jacobian_half_def vli_modInv_update_def case_prod_beta Let_def)
qed

lemma jacobian_half_residue:
  assumes "fe x"
  shows "fe (jacobian_half x)" "ceq (2 * rv (jacobian_half x)) (rv x)"
proof -
  note h = modInv_update_vval [of x 8 "curve_p curve_secp256r1"]
  have v: "vval (jacobian_half x) = half_mod prime_p (vval x)" "length (jacobian_half x) = 8"
    using h assms curve_p_odd(1) by (simp_all add: jacobian_half_update fe_def curve_p_vval)
  have o: "odd prime_p" using curve_p_odd(1) by (simp add: curve_p_vval)
  show "fe (jacobian_half x)" using v half_mod_less [OF _ o] assms by (simp add: fe_def)
  have "2 * half_mod prime_p (vval x) = vval x \<or> 2 * half_mod prime_p (vval x) = vval x + prime_p"
    using o by (auto simp: half_mod_def)
  then have "2 * rv (jacobian_half x) = rv x \<or> 2 * rv (jacobian_half x) = rv x + PP" unfolding rv_def v(1) by linarith
  then show "ceq (2 * rv (jacobian_half x)) (rv x)" by (auto simp: ceq_def)
qed

lemma ceq_cancel_2: "ceq (2 * a) (2 * b) \<Longrightarrow> ceq a b"
proof -
  assume "ceq (2 * a) (2 * b)"
  then have "PP dvd 2 * (a - b)" by (simp add: ceq_def mod_eq_dvd_iff algebra_simps)
  moreover have "coprime PP 2" using curve_p_odd(1) by (simp add: curve_p_vval)
  ultimately have "PP dvd a - b" using coprime_dvd_mult_right_iff by blast
  then show "ceq a b" by (simp add: ceq_def mod_eq_dvd_iff)
qed

lemma double_residues:
  assumes "fe X" "fe Y" "fe Z" "vval Z \<noteq> 0" "double_jacobian_default X Y Z = (X3, Y3, Z3)"
  shows "fe X3" "fe Y3" "fe Z3" "ceq (rv Z3) (rv Y * rv Z)"
    "\<exists>B. ceq (2 * B) (3 * (rv X ^ 2 - rv Z ^ 4)) \<and> ceq (rv X3) (B ^ 2 - 2 * (rv X * rv Y ^ 2))
       \<and> ceq (rv Y3) (B * (rv X * rv Y ^ 2 - rv X3) - rv Y ^ 4)"
proof -
  define t4 where "t4 = uECC_vli_modSquare_fast Y"
  define A where "A = uECC_vli_modMult_fast X t4"
  define Q where "Q = uECC_vli_modSquare_fast t4"
  define Zs where "Zs = uECC_vli_modSquare_fast Z"
  define S where "S = modAdd_p X Zs"
  define M where "M = uECC_vli_modMult_fast S (modSub_p S (modAdd_p Zs Zs))"
  define T where "T = modAdd_p M (modAdd_p M M)"
  define H where "H = jacobian_half T"
  have f: "fe t4" "fe A" "fe Q" "fe Zs" "fe S" "fe M" "fe T"
    using assms(1-3) by (simp_all add: t4_def A_def Q_def Zs_def S_def M_def T_def fe_intros)
  have fH: "fe H" and H: "ceq (2 * rv H) (rv T)" using jacobian_half_residue [OF f(7)] by (simp_all add: H_def)
  have nz: "\<not> uECC_vli_isZero Z 8" using assms(3,4) by (simp add: isZero_vval fe_def)
  have o: "X3 = modSub_p (modSub_p (uECC_vli_modSquare_fast H) A) A" "Z3 = uECC_vli_modMult_fast Y Z"
      "Y3 = modSub_p (uECC_vli_modMult_fast H (modSub_p A X3)) Q"
    using assms(5) nz by (auto simp: double_jacobian_default_def Let_def t4_def A_def Q_def Zs_def S_def M_def T_def H_def)
  show fs: "fe X3" "fe Y3" "fe Z3" using f fH assms(2,3) by (simp_all add: o fe_intros)
  show "ceq (rv Z3) (rv Y * rv Z)" using assms(2,3) by (simp add: o(2) rv_simps)
  have r4: "rv t4 = rv Y ^ 2 mod PP" using assms(2) by (simp add: t4_def rv_simps power2_eq_square)
  have rA: "rv A = rv X * rv Y ^ 2 mod PP" using assms(1) f by (simp add: A_def rv_simps r4 mod_simps)
  have rQ: "rv Q = rv Y ^ 4 mod PP" using f by (simp add: Q_def rv_simps r4 mod_simps power4_eq_xxxx power2_eq_square mult.assoc)
  have rZ: "rv Zs = rv Z ^ 2 mod PP" using assms(3) by (simp add: Zs_def rv_simps power2_eq_square)
  have rS: "rv S = (rv X + rv Z ^ 2) mod PP" using assms(1) f by (simp add: S_def rv_simps rZ mod_simps)
  have "rv M = (rv X + rv Z ^ 2) * (rv X + rv Z ^ 2 - (rv Z ^ 2 + rv Z ^ 2)) mod PP"
    using f by (simp add: M_def rv_simps fe_intros rS rZ mod_simps)
  also have "(rv X + rv Z ^ 2) * (rv X + rv Z ^ 2 - (rv Z ^ 2 + rv Z ^ 2)) = rv X ^ 2 - rv Z ^ 4"
    by (simp add: power2_eq_square power4_eq_xxxx algebra_simps)
  finally have rM: "rv M = (rv X ^ 2 - rv Z ^ 4) mod PP" .
  have "rv T = ((rv X ^ 2 - rv Z ^ 4) + ((rv X ^ 2 - rv Z ^ 4) + (rv X ^ 2 - rv Z ^ 4))) mod PP"
    using f by (simp only: T_def rv_simps fe_intros rM mod_simps curve_simps(1))
  also have "(rv X ^ 2 - rv Z ^ 4) + ((rv X ^ 2 - rv Z ^ 4) + (rv X ^ 2 - rv Z ^ 4)) = 3 * (rv X ^ 2 - rv Z ^ 4)" by simp
  finally have "ceq (2 * rv H) (3 * (rv X ^ 2 - rv Z ^ 4))" using H by (simp add: ceq_def)
  moreover have "ceq (rv X3) (rv H ^ 2 - 2 * (rv X * rv Y ^ 2))"
  proof -
    have "rv X3 = (rv H * rv H - rv X * rv Y ^ 2 - rv X * rv Y ^ 2) mod PP" using f fH by (simp add: o(1) rv_simps fe_intros rA mod_simps)
    also have "rv H * rv H - rv X * rv Y ^ 2 - rv X * rv Y ^ 2 = rv H ^ 2 - 2 * (rv X * rv Y ^ 2)" by (simp add: power2_eq_square)
    finally show ?thesis by simp
  qed
  moreover have "ceq (rv Y3) (rv H * (rv X * rv Y ^ 2 - rv X3) - rv Y ^ 4)"
    using f fH fs by (simp add: o(3) rv_simps fe_intros rA rQ mod_simps)
  ultimately show "\<exists>B. ceq (2 * B) (3 * (rv X ^ 2 - rv Z ^ 4)) \<and> ceq (rv X3) (B ^ 2 - 2 * (rv X * rv Y ^ 2))
       \<and> ceq (rv Y3) (B * (rv X * rv Y ^ 2 - rv X3) - rv Y ^ 4)" by blast
qed

lemma coZ_cong: "coZ z P A \<Longrightarrow> ceq z z' \<Longrightarrow> coZ z' P A"
  unfolding coZ_def by (blast intro: ceq_trans ceq_intros(3) [OF ceq_refl ceq_intros(4)])

lemma double_tangent:
  assumes "coZ (rv Z) P (X, Y)" "fe Z" "vval Z \<noteq> 0" "tangent P R" "double_jacobian_default X Y Z = (X3, Y3, Z3)"
  shows "coZ (rv Z3) R (X3, Y3)" "fe Z3"
proof -
  have f: "fe X" "fe Y" and X: "ceq (rv X) (fst P * rv Z ^ 2)" and Y: "ceq (rv Y) (snd P * rv Z ^ 3)" using assms(1) by (simp_all add: coZ_def)
  note r = double_residues [OF f assms(2,3,5)]
  show "fe Z3" by (rule r(3))
  obtain B where B: "ceq (2 * B) (3 * (rv X ^ 2 - rv Z ^ 4))" "ceq (rv X3) (B ^ 2 - 2 * (rv X * rv Y ^ 2))"
      "ceq (rv Y3) (B * (rv X * rv Y ^ 2 - rv X3) - rv Y ^ 4)" using r(5) by blast
  obtain l where l: "ceq (l * (2 * snd P)) (3 * fst P ^ 2 - 3)" "ceq (fst R) (l ^ 2 - 2 * fst P)" "ceq (snd R) (l * (fst P - fst R) - snd P)"
    using assms(4) unfolding tangent_def by blast
  let ?x = "fst P" and ?y = "snd P" and ?z = "rv Z"
  define w where "w = ?y * ?z ^ 4"
  have "ceq (2 * B) (3 * ((?x * ?z ^ 2) ^ 2 - ?z ^ 4))" by (rule ceq_trans [OF B(1)]) (intro ceq_intros ceq_refl X)
  also have "3 * ((?x * ?z ^ 2) ^ 2 - ?z ^ 4) = (3 * ?x ^ 2 - 3) * ?z ^ 4" by (simp add: power2_eq_square power4_eq_xxxx algebra_simps)
  also have "ceq \<dots> (l * (2 * ?y) * ?z ^ 4)" using ceq_sym [OF l(1)] by (intro ceq_intros(3) ceq_refl)
  also have "l * (2 * ?y) * ?z ^ 4 = 2 * (l * w)" by (simp add: w_def)
  finally have Bw: "ceq B (l * w)" by (rule ceq_cancel_2)
  have "ceq (rv X * rv Y ^ 2) (?x * ?z ^ 2 * (?y * ?z ^ 3) ^ 2)" using X Y by (intro ceq_intros)
  also have "?x * ?z ^ 2 * (?y * ?z ^ 3) ^ 2 = ?x * w ^ 2" by (simp add: w_def power2_eq_square power3_eq_cube power4_eq_xxxx algebra_simps)
  finally have A: "ceq (rv X * rv Y ^ 2) (?x * w ^ 2)" .
  have "ceq (rv X3) ((l * w) ^ 2 - 2 * (?x * w ^ 2))" by (rule ceq_trans [OF B(2)]) (rule ceq_intros(2) [OF ceq_intros(4) [OF Bw] ceq_intros(3) [OF ceq_refl A]])
  also have "(l * w) ^ 2 - 2 * (?x * w ^ 2) = (l ^ 2 - 2 * ?x) * w ^ 2" by (simp add: power2_eq_square algebra_simps)
  also have "ceq \<dots> (fst R * w ^ 2)" using ceq_sym [OF l(2)] by (intro ceq_intros(3) ceq_refl)
  finally have X3: "ceq (rv X3) (fst R * w ^ 2)" .
  have "ceq (rv Y3) (l * w * (?x * w ^ 2 - fst R * w ^ 2) - (?y * ?z ^ 3) ^ 4)"
    by (rule ceq_trans [OF B(3)])
      (rule ceq_intros(2) [OF ceq_intros(3) [OF Bw ceq_intros(2) [OF A X3]] ceq_intros(4) [OF Y]])
  also have "l * w * (?x * w ^ 2 - fst R * w ^ 2) - (?y * ?z ^ 3) ^ 4 = (l * (?x - fst R) - ?y) * w ^ 3"
    by (simp add: w_def power2_eq_square power3_eq_cube power4_eq_xxxx algebra_simps)
  also have "ceq \<dots> (snd R * w ^ 3)" using ceq_sym [OF l(3)] by (intro ceq_intros(3) ceq_refl)
  finally have Y3: "ceq (rv Y3) (snd R * w ^ 3)" .
  have "ceq (rv Z3) (?y * ?z ^ 3 * ?z)" by (rule ceq_trans [OF r(4) ceq_intros(3) [OF Y ceq_refl]])
  moreover have "?y * ?z ^ 3 * ?z = w" by (simp add: w_def power3_eq_cube power4_eq_xxxx)
  ultimately have "ceq w (rv Z3)" by (simp add: ceq_sym)
  moreover have "coZ w R (X3, Y3)" using r(1,2) X3 Y3 by (simp add: coZ_def)
  ultimately show "coZ (rv Z3) R (X3, Y3)" by (rule coZ_cong [rotated])
qed

lemma apply_z_coZ:
  assumes "fe X" "fe Y" "fe Z"
  shows "coZ (rv Z) (rv X, rv Y) (apply_z X Y Z)"
proof -
  have "rv Z * rv Z = rv Z ^ 2" "rv Z ^ 2 * rv Z = rv Z ^ 3" by (simp_all add: power2_eq_square power3_eq_cube)
  then show ?thesis using assms by (simp add: coZ_def apply_z_def Let_def fe_intros rv_simps ceq_def mod_simps)
qed

lemma initial_double_points:
  assumes "fe X" "fe Y" "tangent (rv X, rv Y) R" "case iz of None \<Rightarrow> True | Some z \<Rightarrow> fe z \<and> vval z \<noteq> 0"
  shows "\<exists>z. coZ z R (fst (XYcZ_initial_double X Y iz)) \<and> coZ z (rv X, rv Y) (snd (XYcZ_initial_double X Y iz))"
proof -
  define z where "z = (case iz of Some z \<Rightarrow> uECC_vli_set z (num_words curve_secp256r1)
    | None \<Rightarrow> 1 # uECC_vli_clear (num_words curve_secp256r1 - 1))"
  have z: "fe z" "vval z \<noteq> 0" using assms(4) by (auto simp: z_def uECC_vli_set_def uECC_vli_clear_def fe_def prime_p_def split: option.splits)
  obtain a b where ab: "apply_z X Y z = (a, b)" by fastforce
  obtain a' b' z' where d: "double_jacobian_default a b z = (a', b', z')" by (metis surj_pair)
  have "coZ (rv z) (rv X, rv Y) (a, b)" using apply_z_coZ [OF assms(1,2) z(1)] ab by simp
  note t = double_tangent [OF this z assms(3) d]
  have "XYcZ_initial_double X Y iz = ((a', b'), apply_z (uECC_vli_set X 8) (uECC_vli_set Y 8) z')"
    unfolding XYcZ_initial_double_def Let_def z_def [symmetric] using ab d by simp
  then show ?thesis using t apply_z_coZ [OF assms(1,2) t(2)] fe_length [OF assms(1)] fe_length [OF assms(2)]
    by (auto simp: uECC_vli_set_def)
qed

section \<open>A round of the ladder\<close>

text \<open>C26: A round of the ladder takes the points \<open>P\<close> and \<open>Q\<close> that the two registers hold, with a common denominator, to their sum \<open>S\<close> and to
  the sum of \<open>S\<close> with the difference of \<open>P\<close> and \<open>Q\<close>, by the chord rule modulo the prime, again with a common denominator. Nothing is divided.\<close>

theorem ladder_round_points:
  assumes "length R = 2" "nb < 2" "coZ z P (R ! (1 - nb))" "coZ z Q (R ! nb)" "chord P Q S" "chord P (opposite Q) D" "chord S D T"
  shows "\<exists>z'. let R' = ladder_add nb (ladder_addC nb R) in length R' = 2 \<and> coZ z' S (R' ! nb) \<and> coZ z' T (R' ! (1 - nb))"
proof -
  define R1 where "R1 = ladder_addC nb R"
  have n: "nb = 0 \<or> nb = 1" using assms(2) by auto
  obtain z1 where z1: "coZ z1 D (fst (XYcZ_addC (R ! (1 - nb)) (R ! nb)))" "coZ z1 S (snd (XYcZ_addC (R ! (1 - nb)) (R ! nb)))"
    using XYcZ_addC_chord [OF assms(3,4,5,6)] by blast
  have R1: "length R1 = 2" "coZ z1 D (R1 ! (1 - nb))" "coZ z1 S (R1 ! nb)"
    using n assms(1) z1 by (auto simp: R1_def ladder_addC_def case_prod_beta)
  obtain z2 where "coZ z2 S (fst (XYcZ_add (R1 ! nb) (R1 ! (1 - nb))))" "coZ z2 T (snd (XYcZ_add (R1 ! nb) (R1 ! (1 - nb))))"
    using XYcZ_add_chord [OF R1(3,2) assms(7)] by blast
  then have "let R' = ladder_add nb R1 in length R' = 2 \<and> coZ z2 S (R' ! nb) \<and> coZ z2 T (R' ! (1 - nb))"
    using n R1(1) by (auto simp: ladder_add_def case_prod_beta)
  then show ?thesis unfolding R1_def by blast
qed

lemma demo_coZ: "coZ 1 (1, 1) (1 # replicate 7 0, 1 # replicate 7 0)" "coZ 1 (2, 3) (2 # replicate 7 0, 3 # replicate 7 0)"
  by (simp_all add: coZ_def fe_def rv_def prime_p_def)

lemma demo_chords: "chord (1, 1) (2, 3) (1, - 1)" "chord (1, 1) (opposite (2, 3)) (13, 47)" "chord (1, - 1) (13, 47) (2, - 3)"
  unfolding chord_def opposite_def by (rule exI [of _ 2], simp) (rule exI [of _ "- 4"], simp, rule exI [of _ 4], simp)

lemma ladder_round_points_witness:
  "\<exists>z'. let R' = ladder_add 1 (ladder_addC 1 [(1 # replicate 7 0, 1 # replicate 7 0), (2 # replicate 7 0, 3 # replicate 7 0)])
     in length R' = 2 \<and> coZ z' (1, - 1) (R' ! 1) \<and> coZ z' (2, - 3) (R' ! (1 - 1))"
  by (rule ladder_round_points [where z = 1 and P = "(1, 1)" and Q = "(2, 3)" and D = "(13, 47)"])
    (simp_all add: demo_coZ demo_chords)

end
