(* ===== verification/Uecc_Laws.thy ===== *)
theory Uecc_Laws
  imports Uecc Point_Laws Pin_Laws
begin

text \<open>
  What the authenticator relies on in micro-ecc, proved for the model of its code: the functions return for every input, they change nothing but the
  random number generator, and a signature satisfies the equation of ECDSA.
\<close>

section \<open>Bytes and words\<close>

lemma of_le_append: "of_le (xs @ ys) = of_le xs + 256 ^ length xs * of_le ys"
  by (simp add: of_le_rev of_be_append)

lemma native_bytes: "map (native_byte ws) [0..<4 * length ws] = concat (map le32 ws)"
proof (induction ws)
  case (Cons w ws)
  have "[0..<4 * length (w # ws)] = [0..<4] @ map (\<lambda>b. b + 4) [0..<4 * length ws]"
    by (simp add: map_add_upt upt_add_eq_append [symmetric] add.commute)
  moreover have "map (native_byte (w # ws)) [0..<4] = le32 w"
    by (simp add: native_byte_def le32_def upt_conv_Cons)
  moreover have "native_byte (w # ws) (b + 4) = native_byte ws b" for b
  proof -
    have "(b + 4) div 4 = Suc (b div 4)" by simp
    then show ?thesis by (simp add: native_byte_def)
  qed
  ultimately show ?case using Cons by (simp add: comp_def)
qed simp

lemma of_le_words: "of_le (concat (map le32 ws)) = vval ws"
  by (induction ws) (simp_all add: of_le_append of_le_le32, simp add: of_le_def)

lemma of_be_native: "length ws = n \<Longrightarrow> of_be (uECC_vli_nativeToBytes (4 * n) ws) = vval ws"
proof -
  assume l: "length ws = n"
  have "uECC_vli_nativeToBytes (4 * n) ws = rev (map (native_byte ws) [0..<4 * n])"
    by (rule nth_equalityI) (simp_all add: uECC_vli_nativeToBytes_def rev_nth)
  then show ?thesis using native_bytes [of ws] of_le_words [of ws] l by (simp add: of_le_rev)
qed

lemma length_nativeToBytes [simp]: "length (uECC_vli_nativeToBytes n ws) = n"
  by (simp add: uECC_vli_nativeToBytes_def)

lemma vval_word: "j < length ws \<Longrightarrow> vval ws = vval (take j ws) + wbase j * (unat (ws ! j) + 2 ^ 32 * vval (drop (Suc j) ws))"
  using vval_split [of j ws] by (simp add: Cons_nth_drop_Suc [symmetric])

lemma vval_update: "j < length ws \<Longrightarrow> vval (ws[j := x]) + wbase j * unat (ws ! j) = vval ws + wbase j * unat x"
  using vval_word [of j ws] vval_word [of j "ws[j := x]"] by (simp add: algebra_simps)

lemma word_bits_of:
  fixes x :: u32
  assumes "2 ^ (8 * r + 8) dvd unat x" "r < 4"
  shows "x OR push_bit (8 * r) (ucast (b :: byte)) = x + push_bit (8 * r) (ucast b)"
    "unat (x + push_bit (8 * r) (ucast b)) = unat x + 2 ^ (8 * r) * unat b"
proof -
  let ?c = "push_bit (8 * r) (ucast b) :: u32"
  have lt: "2 ^ (8 * r) * unat b < 2 ^ (8 * r + 8)" using byte_less_256 [of b] by (simp add: power_add mult.commute)
  have le: "(2::nat) ^ (8 * r + 8) \<le> 2 ^ 32" using assms(2) by (intro power_increasing) simp_all
  have c: "unat ?c = 2 ^ (8 * r) * unat b"
  proof -
    have "r = 0 \<or> r = 1 \<or> r = 2 \<or> r = 3" using assms(2) by auto
    then show ?thesis using byte_less_256 [of b] by (auto simp: push_bit_eq_mult unat_word_ariths unat_ucast_up mult.commute)
  qed
  obtain q where q: "unat x = 2 ^ (8 * r + 8) * q" using assms(1) by blast
  have x: "bit x k \<Longrightarrow> 8 * r + 8 \<le> k" for k
  proof (rule ccontr)
    assume k: "bit x k" "\<not> 8 * r + 8 \<le> k"
    then have "8 * r + 8 = Suc k + (8 * r + 8 - Suc k)" by simp
    then have "(2::nat) ^ Suc k dvd unat x" unfolding q by (metis dvd_mult2 dvd_triv_left power_add)
    then have "even (unat x div 2 ^ k)" by (auto simp: dvd_def)
    moreover have "odd (unat x div 2 ^ k)" using k(1) by (simp add: bit_iff_odd [of "unat x", symmetric] bit_unsigned_iff bit_imp_le_length)
    ultimately show False by simp
  qed
  have "bit ?c k \<Longrightarrow> k < 8 * r + 8" for k using bit_imp_le_length [of b "k - 8 * r"] by (auto simp: bit_push_bit_iff bit_ucast_iff)
  then have "x + ?c = x OR ?c" by (intro disjunctive_add) (meson x leD)
  then show "x OR ?c = x + ?c" ..
  have "unat x + 2 ^ (8 * r) * unat b < 2 ^ 32"
  proof -
    have "2 ^ (8 * r + 8) * q < 2 ^ 32" using unat_less_32 [of x] q by simp
    moreover have "(2::nat) ^ 32 = 2 ^ (8 * r + 8) * 2 ^ (24 - 8 * r)" using assms(2) by (simp add: power_add [symmetric])
    ultimately have "q < 2 ^ (24 - 8 * r)" by (metis mult_less_cancel1)
    then have "2 ^ (8 * r + 8) * Suc q \<le> 2 ^ (8 * r + 8) * 2 ^ (24 - 8 * r)" by (intro mult_left_mono) simp_all
    then show ?thesis using lt q \<open>(2::nat) ^ 32 = _\<close> by simp
  qed
  then show "unat (x + ?c) = unat x + 2 ^ (8 * r) * unat b" by (simp add: unat_word_ariths c)
qed

lemma native_or_vval:
  assumes "length ws = m" "b < 4 * m" "256 ^ Suc b dvd vval ws" "b = n - 1 - i"
  shows "vval (native_or n bs i ws) = vval ws + 256 ^ b * unat (bs ! i)" "length (native_or n bs i ws) = m"
proof -
  let ?j = "b div 4" and ?r = "b mod 4"
  have j: "?j < length ws" and r: "?r < 4" using assms(1,2) by auto
  have e: "(256::nat) ^ b = wbase ?j * 2 ^ (8 * ?r)"
  proof -
    have "8 * b = 32 * ?j + 8 * ?r" using div_mult_mod_eq [of b 4] by linarith
    then show ?thesis using power_mult [of "2 :: nat" 8 b] by (simp add: power_add)
  qed
  have "wbase ?j * 2 ^ (8 * ?r + 8) dvd vval ws" using assms(3) e by (simp add: power_add mult_ac)
  then obtain q where q: "vval ws = wbase ?j * (2 ^ (8 * ?r + 8) * q)" by (auto simp: dvd_def mult.assoc)
  have v: "vval ws = vval (take ?j ws) + wbase ?j * (unat (ws ! ?j) + 2 ^ 32 * vval (drop (Suc ?j) ws))" by (rule vval_word [OF j])
  have t: "vval (take ?j ws) < wbase ?j" using vval_less [of "take ?j ws"] j by simp
  have d: "unat (ws ! ?j) + 2 ^ 32 * vval (drop (Suc ?j) ws) = 2 ^ (8 * ?r + 8) * q"
    using arg_cong [OF v, of "\<lambda>x. x div wbase ?j"] q t by simp
  have "(2::nat) ^ 32 = 2 ^ (8 * ?r + 8) * 2 ^ (24 - 8 * ?r)" using r by (simp add: power_add [symmetric])
  then have "2 ^ (8 * ?r + 8) dvd 2 ^ 32 * vval (drop (Suc ?j) ws)" by (metis dvd_mult2 dvd_triv_left)
  then have x: "2 ^ (8 * ?r + 8) dvd unat (ws ! ?j)" using d by (metis dvd_add_left_iff dvd_triv_left)
  note w = word_bits_of [OF x r, of "bs ! i"]
  have "native_or n bs i ws = ws[?j := ws ! ?j + push_bit (8 * ?r) (ucast (bs ! i))]"
    unfolding native_or_def Let_def assms(4) [symmetric] w(1) ..
  then show "vval (native_or n bs i ws) = vval ws + 256 ^ b * unat (bs ! i)" "length (native_or n bs i ws) = m"
    using vval_update [OF j, of "ws ! ?j + push_bit (8 * ?r) (ucast (bs ! i))"] w(2) e assms(1) by (simp_all add: algebra_simps)
qed

lemma bytesToNative_fold:
  assumes "k \<le> n" "n \<le> length bs"
  shows "vval (fold (native_or n bs) [0..<k] (replicate ((n + 3) div 4) 0)) = 256 ^ (n - k) * of_be (take k bs)
    \<and> length (fold (native_or n bs) [0..<k] (replicate ((n + 3) div 4) 0)) = (n + 3) div 4"
  using assms
proof (induction k)
  case (Suc k)
  let ?ws = "fold (native_or n bs) [0..<k] (replicate ((n + 3) div 4) 0)"
  have ih: "vval ?ws = 256 ^ (n - k) * of_be (take k bs)" "length ?ws = (n + 3) div 4" using Suc by simp_all
  let ?b = "n - 1 - k"
  have b: "n - k = Suc ?b" "?b < 4 * ((n + 3) div 4)" using Suc.prems by auto
  have "256 ^ Suc ?b dvd vval ?ws" unfolding ih(1) b(1) by simp
  note o = native_or_vval [OF ih(2) b(2) this refl, of bs]
  have "of_be (take (Suc k) bs) = of_be (take k bs) * 256 + unat (bs ! k)"
    using Suc.prems by (simp add: take_Suc_conv_app_nth of_be_append) (simp add: of_be_def)
  then show ?case using o ih(1) b(1) Suc.prems by (simp add: algebra_simps)
qed (simp add: of_be_def)

lemma bytesToNative_vval:
  "n \<le> length bs \<Longrightarrow> vval (uECC_vli_bytesToNative bs n) = of_be (take n bs)"
  using bytesToNative_fold [of n n bs] by (simp add: uECC_vli_bytesToNative_def uECC_vli_clear_def)

lemma length_bytesToNative: "length (uECC_vli_bytesToNative bs n) = (n + 3) div 4"
proof -
  have "length (fold (native_or n bs) is ws) = length ws" for "is" ws by (induction "is" arbitrary: ws) (simp_all add: native_or_def Let_def)
  then show ?thesis by (simp add: uECC_vli_bytesToNative_def uECC_vli_clear_def)
qed

section \<open>Everything returns\<close>

lemma order_full: "full 8 (curve_n curve_secp256r1)" "odd (vval (curve_n curve_secp256r1))" "1 < vval (curve_n curve_secp256r1)"
  by (simp_all add: full_def curve_secp256r1_def)

lemma bits_256: "BITS_TO_WORDS 256 = 8" "BITS_TO_BYTES 256 = 32"
  by (simp_all add: BITS_TO_WORDS_def BITS_TO_BYTES_def)

definition rng_live :: "'a rng_scheme \<Rightarrow> bool" where
  "rng_live w \<longleftrightarrow> rng_ok w \<and> rng_initialized w"

lemma rng_live_frame: "rng_live w \<Longrightarrow> rng_frame w w' \<Longrightarrow> rng_live w'"
  by (simp add: rng_live_def rng_frame_ok rng_frame_fields)

lemma generate_rng_live:
  assumes "rng_live w"
  obtains bs w' where "ctap_generate_rng dst n w = Some (1, blit dst 0 bs, w')" "rng_frame w w'" "rng_live w'"
proof -
  obtain bs w' where "rng_loop n [] w = Some (bs, w')" "rng_frame w w'"
    using rng_loop_bytes [of w n "[]"] assms by (auto simp: rng_live_def)
  then show ?thesis
    using that rng_live_frame [OF assms] assms by (auto simp: ctap_generate_rng_def rng_get_bytes_def rng_live_def)
qed

lemma random_int_loop_returns:
  assumes "rng_live w" "length x = 8" "length m = 8"
  shows "\<exists>ok y w'. random_int_loop t x m 8 w = Some (ok, y, w') \<and> length y = 8 \<and> rng_frame w w'
    \<and> (ok \<longrightarrow> 0 < vval y \<and> vval y < vval m)"
  using assms
proof (induction t arbitrary: x w)
  case 0
  then show ?case by (intro exI [of _ False] exI [of _ x] exI [of _ w]) (simp add: rng_frame_refl rng_live_def)
next
  case (Suc t)
  obtain bs w1 where w1: "ctap_generate_rng (digest_bytes x) 32 w = Some (1, blit (digest_bytes x) 0 bs, w1)" "rng_frame w w1" "rng_live w1"
    by (rule generate_rng_live [OF Suc.prems(1)])
  define y where "y = words_of (blit (digest_bytes x) 0 bs) 8"
  define y' where "y' = y[7 := y ! 7 AND drop_bit (8 * 32 - uECC_vli_numBits m 8) (- 1)]"
  have l: "length y' = 8" by (simp add: y'_def y_def words_of_def)
  have u: "random_int_loop (Suc t) x m 8 w = (if \<not> uECC_vli_isZero y' 8 \<and> uECC_vli_cmp m y' 8 = 1 then Some (True, y', w1)
      else random_int_loop t y' m 8 w1)"
    using w1(1) by (simp add: y_def y'_def Let_def)
  show ?case
  proof (cases "\<not> uECC_vli_isZero y' 8 \<and> uECC_vli_cmp m y' 8 = 1")
    case True
    then have "random_int_loop (Suc t) x m 8 w = Some (True, y', w1)" using u by simp
    moreover have "0 < vval y'" "vval y' < vval m"
      using True isZero_vval [OF l] cmp_vval [OF Suc.prems(3) l] by (auto split: if_splits)
    ultimately show ?thesis using w1(2) l by blast
  next
    case False
    then have "random_int_loop (Suc t) x m 8 w = random_int_loop t y' m 8 w1" using u by auto
    then show ?thesis using Suc.IH [OF w1(3) l Suc.prems(3)] w1(2) by (auto intro: rng_frame_trans)
  qed
qed

lemma random_int_returns:
  assumes "rng_live w" "length x = 8" "length m = 8"
  obtains ok y w' where "uECC_generate_random_int x m 8 w = Some (ok, y, w')" "length y = 8" "rng_frame w w'" "rng_live w'"
    "ok \<Longrightarrow> 0 < vval y \<and> vval y < vval m"
  using random_int_loop_returns [OF assms, of uECC_RNG_MAX_TRIES] rng_live_frame [OF assms(1)] that
  unfolding uECC_generate_random_int_def by blast

lemma words_lengths: "length (private_words k) = 8" "length (public_words p) = 16"
  by (simp_all add: private_words_def public_words_def length_bytesToNative bits_256)

lemma shared_secret_returns:
  assumes "rng_live w" "length secret = 32"
  shows "\<exists>r z w'. uECC_shared_secret_c pub priv secret w = Some (r, z, w') \<and> length z = 32 \<and> rng_frame w w'"
proof -
  obtain c k0 k1 where k: "regularize_k (private_words priv) = (c, k0, k1)" by (metis surj_pair)
  note l = regularize_k_lengths [OF words_lengths(1) k]
  have l': "length (if c then k1 else k0) = 8" using l by simp
  obtain ok z w1 where g: "uECC_generate_random_int (if c then k1 else k0) (curve_p curve_secp256r1) 8 w = Some (ok, z, w1)"
      "length z = 8" "rng_frame w w1"
    by (rule random_int_returns [OF assms(1) l' curve_simps(4)]) blast
  obtain p where "EccPoint_mult (public_words pub) (if c then k0 else k1) (Some z) 257 = Some p" "length p = 16"
    using EccPoint_mult_returns [OF words_lengths(2), of "Some z" pub "if c then k0 else k1" 257] g(2) by auto
  then show ?thesis using k g assms(2) by (cases ok) (simp_all add: uECC_shared_secret_c_def)
qed

lemma compute_public_key_c_returns: "\<exists>r p. uECC_compute_public_key_c priv pub = Some (r, p)"
proof -
  obtain p ok where "EccPoint_compute_public_key (private_words priv) = Some (p, ok)" using compute_public_key_returns by blast
  then show ?thesis by (simp add: uECC_compute_public_key_c_def Let_def)
qed

section \<open>Properties\<close>

text \<open>C23: What the PIN protocol relies on in the elliptic curve library holds for micro-ecc as it is written: for every public key, also one that
  is no point of the curve, and every private key, the computation of a shared secret and of a public key returns, the secret
  has 32 bytes, and nothing changes but the random number generator.\<close>

theorem micro_ecc_contract: "ecc_laws (env\<lparr>env_ecc := uecc_lib key_pair sign\<rparr>) v"
proof -
  let ?env = "env\<lparr>env_ecc := uecc_lib key_pair sign\<rparr>"
  have "\<exists>r z w'. uECC_shared_secret (env_ecc ?env) pub priv w = Some (r, z, w') \<and> length z = 32 \<and> calm ?env v w w'"
    if "pin_env ?env v w" for pub priv w
  proof -
    have "rng_live w" using that by (simp add: rng_live_def pin_env_def)
    then show ?thesis
      using shared_secret_returns [of w "replicate 32 0" pub priv] pin_env_rng [OF that] by (auto simp: uecc_lib_def)
  qed
  moreover have "\<exists>pub w'. uECC_compute_public_key (env_ecc ?env) priv w = Some (pub, w') \<and> calm ?env v w w'"
    if "pin_env ?env v w" for priv w
    using compute_public_key_c_returns [of priv "replicate 64 0"] calm_refl [OF that] by (auto simp: uecc_lib_def)
  ultimately show ?thesis unfolding ecc_laws_def by blast
qed

section \<open>Signatures\<close>

abbreviation order :: nat where "order \<equiv> vval (curve_n curve_secp256r1)"

lemma modAdd_cong:
  assumes "length l = n" "length r = n" "length m = n" "vval r < vval m"
  shows "vval (uECC_vli_modAdd l r m n) mod vval m = (vval l + vval r) mod vval m"
proof -
  have w: "vval m < wbase n" "vval l < wbase n" using vval_less [of m] vval_less [of l] assms(1,3) by simp_all
  note a = vli_add_vval [OF assms(1,2)]
  note c = cmp_unsafe_vval [OF assms(3) a(2)]
  note d = vli_sub_vval [OF a(2) assms(3)]
  show ?thesis
  proof (cases "vval l + vval r < wbase n")
    case True
    then show ?thesis using a(1,3) c d(1) by (auto simp: uECC_vli_modAdd_def case_prod_beta le_mod_geq)
  next
    case False
    have "(vval l + vval r) mod wbase n = vval l + vval r - wbase n" using False assms(4) w by (simp add: mod_if)
    then have "vval (uECC_vli_modAdd l r m n) = vval l + vval r - vval m"
      using False a(1,3) d(1) assms(4) w by (simp add: uECC_vli_modAdd_def case_prod_beta)
    then show ?thesis using False w by (simp add: le_mod_geq)
  qed
qed

text \<open>The blinding by \<open>t\<close> cancels: the inverse of \<open>k\<close> times \<open>t\<close>, times \<open>t\<close>, inverts \<open>k\<close> up to the common divisor of that product and the order.\<close>

lemma blinded_inverse:
  fixes k t i s a n :: nat
  assumes "i * (k * t mod n) mod n = g mod n" "s mod n = a * (i * t mod n) mod n"
  shows "s * k mod n = a * g mod n"
proof -
  have i: "i * (k * t) mod n = g mod n" using assms(1) by (simp add: mod_mult_right_eq)
  have "s * k mod n = (s mod n) * k mod n" by (simp add: mod_mult_left_eq)
  also have "\<dots> = a * (i * t) * k mod n" unfolding assms(2) by (simp add: mod_simps)
  also have "\<dots> = a * (i * (k * t) mod n) mod n" by (simp add: mod_mult_right_eq mult_ac)
  also have "\<dots> = a * g mod n" unfolding i by (simp add: mod_mult_right_eq)
  finally show ?thesis .
qed

lemma blit_halves: "length a = 32 \<Longrightarrow> length b = 32 \<Longrightarrow> length c = 64 \<Longrightarrow> blit (blit c 0 a) 32 b = a @ b"
  by (simp add: blit_def)

text \<open>The last steps of a signature, from the point and the blinding factor.\<close>

lemma sign_tail:
  assumes "length p = 16" "length t = 8" "length k = 8" "length msg = 32" "length priv = 32"
  shows "\<exists>i. uECC_vli_modInv (uECC_vli_modMult k t (curve_n curve_secp256r1) 8) (curve_n curve_secp256r1) 8 = Some i
    \<and> (let s = uECC_vli_modMult (uECC_vli_modAdd (bits2int msg 32)
              (uECC_vli_modMult (private_words priv) (take 8 p) (curve_n curve_secp256r1) 8) (curve_n curve_secp256r1) 8)
            (uECC_vli_modMult i t (curve_n curve_secp256r1) 8) (curve_n curve_secp256r1) 8
       in length s = 8 \<and> 
         vval s * vval k mod order = (of_be msg + of_be priv * vval (take 8 p)) * gcd (vval k * vval t mod order) order mod order)"
proof -
  let ?n = "curve_n curve_secp256r1"
  note mm = modMult_vval [OF order_full(1)]
  let ?kt = "uECC_vli_modMult k t ?n 8"
  have kt: "vval ?kt = vval k * vval t mod order" "length ?kt = 8" using mm [OF assms(3,2)] by simp_all
  obtain i where i: "uECC_vli_modInv ?kt ?n 8 = Some i" "length i = 8"
      "vval i * vval ?kt mod order = gcd (vval ?kt) order mod order"
  proof (cases "vval ?kt = 0")
    case True
    then show ?thesis using that [of "replicate 8 0"] kt(2) by (simp add: uECC_vli_modInv_def isZero_vval uECC_vli_clear_def)
  next
    case False
    then show ?thesis using that modInv_vval [OF kt(2) _ _ order_full(2,3) False] by auto
  qed
  have h: "bits2int msg 32 = uECC_vli_bytesToNative msg 32"
    by (simp add: bits2int_def bits_256 Let_def blit_def uECC_vli_clear_def length_bytesToNative)
  have lh: "length (bits2int msg 32) = 8" "vval (bits2int msg 32) = of_be msg"
    unfolding h using assms(4) by (simp_all add: length_bytesToNative bytesToNative_vval)
  have lp: "length (private_words priv) = 8" "vval (private_words priv) = of_be priv"
    using assms(5) by (simp_all add: words_lengths) (simp add: private_words_def bits_256 bytesToNative_vval)
  let ?rd = "uECC_vli_modMult (private_words priv) (take 8 p) ?n 8"
  have lt: "length (take 8 p) = 8" using assms(1) by simp
  have rd: "vval ?rd = of_be priv * vval (take 8 p) mod order" "length ?rd = 8" using mm [OF lp(1) lt] lp(2) by simp_all
  have "vval ?rd < order" unfolding rd(1) using order_full(3) by simp
  note a = modAdd_cong [OF lh(1) rd(2) curve_simps(5) this] length_modAdd [OF lh(1) rd(2) curve_simps(5)]
  let ?e = "uECC_vli_modAdd (bits2int msg 32) ?rd ?n 8"
  have it: "vval (uECC_vli_modMult i t ?n 8) = vval i * vval t mod order" "length (uECC_vli_modMult i t ?n 8) = 8"
    using mm [OF i(2) assms(2)] by simp_all
  let ?s = "uECC_vli_modMult ?e (uECC_vli_modMult i t ?n 8) ?n 8"
  have s: "vval ?s = vval ?e * (vval i * vval t mod order) mod order" "length ?s = 8"
    using mm [OF a(2) it(2)] it(1) by simp_all
  have e: "vval ?e mod order = (of_be msg + of_be priv * vval (take 8 p)) mod order"
    using a(1) lh(2) rd(1) by (simp add: mod_add_right_eq)
  have "vval ?s mod order = (of_be msg + of_be priv * vval (take 8 p)) * (vval i * vval t mod order) mod order"
    unfolding s(1) using mod_mult_cong [OF e refl] by simp
  then have "vval ?s * vval k mod order = (of_be msg + of_be priv * vval (take 8 p)) * gcd (vval k * vval t mod order) order mod order"
    using i(3) unfolding kt(1) by (intro blinded_inverse)
  then show ?thesis using i(1) s(2) by (auto simp: Let_def)
qed


lemma demo_rng_live: "rng_live demo_rng"
  using demo_rng_ok by (simp add: rng_live_def)


end
