(* ===== verification/Spec2Isabelle.thy ===== *)
theory Spec2Isabelle
  imports Fifo Ctaphid_Framing Apdu Device_Laws Pin_Properties Ctap_Request
    Der_Laws Assertion_Properties Exclude_Laws Presence_Laws Start_Laws App_Laws Request_Laws Flash Ctap_Error_Strings Uecc_Laws
begin

text \<open>
  A verification development for the TKey FIDO2 authenticator (\<open>src/\<close>): the firmware of a security key that
  speaks CTAPHID over USB, understands CTAP2 requests in CBOR, keeps its state and its resident
  credentials in a littlefs filesystem on flash, and protects them with a PIN.

  \<^bold>\<open>The program and its model.\<close> The main loop takes HID reports from a queue, reassembles them into messages,
  hands messages to the CTAP layer and sends the answers. The C code keeps its state in file-level variables; the
  model keeps them in one record that every layer extends, and each function is a state transformer on any
  extension of the record of its layer:
  \<open>hw\<close> (registers of the hardware) \<open>\<subset> ctaphid \<subset> crypto \<subset> rng \<subset> fsys \<subset> dev \<subset> cpin \<subset> ctap\<close>. The queue of reports and the
  endpoints, which only the main loop touches, are beside it in the record \<open>main_state\<close>. A function that can halt (an
  assertion, \<open>exit\<close>, the trap of \<open>millis\<close>) or loop returns an option, where \<open>None\<close> is not returning; a CTAP
  status is a value of the type \<open>CtapError\<close>. Buffers are lists of bytes and an overwrite past the end makes
  the list longer, so every statement that fixes a length is a statement of memory safety. Reads past an end
  are \<open>None\<close> in the CBOR parser.

  \<^item> \<open>Prelude\<close>: machine types, runs of bytes (\<open>slice\<close>, \<open>blit\<close>), words and their bytes. \<open>Libc\<close>: the routines of
    \<open>targets/tkey/libc\<close> that the code calls. \<open>Hw\<close>: timer, LED, USB output and TRNG of \<open>device.c\<close>; what the hardware
    shows is a function from the number of the read.
  \<^item> \<open>Bounded_Queue\<close>, \<open>Fifo\<close> (\<open>targets/tkey/src/fifo.c\<close>): the queue of HID reports; the locale of a bounded
    queue is interpreted on the ring buffer and gives first-in first-out delivery.
  \<^item> \<open>Ctap_Errors\<close>, \<open>Ctap_Error_Strings\<close> (\<open>ctap_errors.h\<close>, \<open>ctap_errors.c\<close>): status values and their names.
  \<^item> \<open>Ctaphid\<close>, \<open>Ctaphid_Safety\<close>, \<open>Ctaphid_Framing\<close> (\<open>fido2/src/ctaphid.c\<close>): channels, reassembly,
    commands and the writer; memory safety of every reachable state, termination for every packet, and the
    correspondence with the reports of the CTAPHID standard. The CTAP layer above is an argument here.
  \<^item> \<open>Apdu\<close> (\<open>fido2/src/apdu.c\<close>): decoding of U2F commands.
  \<^item> \<open>Sha256\<close>, \<open>Aes\<close>, \<open>Crypto\<close>, \<open>Crypto_Laws\<close> (\<open>crypto/\<close>, \<open>fido2/src/crypto.c\<close>): the hash and the cipher down to
    the tables, HMAC, HKDF and key derivation against their RFCs; block cipher modes are proved once for a locale
    of block ciphers and interpreted on AES-256.
  \<^item> \<open>Rng\<close> (\<open>targets/tkey/src/rng.c\<close>): the hash-chain generator.
  \<^item> \<open>Vli\<close>, \<open>Vli_Laws\<close>, \<open>Uecc_Curve\<close>, \<open>Uecc_Point\<close>, \<open>Point_Laws\<close>, \<open>Uecc\<close>, \<open>Uecc_Laws\<close> (\<open>crypto/micro-ecc\<close>): long integers word by word,
    the reduction modulo the prime of secp256r1, the ladder, keys, shared secrets and signatures. Sums, products, remainders and inverses are
    exact; the co-Z additions follow the chord, the doubling the tangent; every function returns; signatures satisfy ECDSA's equation.
  \<^item> \<open>Cbor_Encoder\<close>, \<open>Cbor_Parser\<close>, \<open>Cbor_Safety\<close>, \<open>Cbor_Laws\<close> (\<open>tinycbor/src\<close>): the encoder and the part of the
    parser the authenticator calls, with the assertions of the parser as \<open>None\<close>; walking any input is safe and ends,
    the encoder stays in its buffer, and what it writes is read back.
  \<^item> \<open>Auth_State\<close>, \<open>State_Laws\<close> (\<open>fido2/src/state.c\<close>): the persistent state in CBOR. \<open>Fs\<close> (\<open>targets/tkey/src/fs.c\<close>),
    \<open>Device\<close>, \<open>Device_Laws\<close> (\<open>targets/tkey/src/device.c\<close>): files, the state file with its MAC, the signature
    counter, user presence, and the files of resident keys, which refine lists of keys. \<open>Flash\<close>: the block device under littlefs.
  \<^item> \<open>Ctap_Parse\<close>, \<open>Parse_Laws\<close> (\<open>fido2/src/ctap_parse.c\<close>, \<open>cose_key.c\<close>): the parts of requests that commands share,
    and COSE keys; the two shapes of loop over a map are locales, interpreted on each loop body.
  \<^item> \<open>Client_Pin\<close>, \<open>Pin_Laws\<close>, \<open>Pin_Session\<close>, \<open>Pin_Properties\<close> (\<open>fido2/src/ctap_client_pin.c\<close>): the whole client PIN
    command, its invariant, its refinement of the abstract machine \<open>pin_step\<close>, sessions of requests, setting a PIN
    from end to end, and the exactness and expiry of tokens.

  \<^item> \<open>Attestation\<close> (\<open>targets/tkey/src/attestation.c\<close>), \<open>Ctap_Core\<close> (\<open>fido2/src/ctap.c\<close>), \<open>Ctap_Extensions\<close>: attestation
    files, credential ids and resident keys, authenticator data, signatures, the test for user presence, the start.
    \<open>Make_Credential\<close>, \<open>Get_Assertion\<close> (with \<open>getNextAssertion\<close>), \<open>Get_Info\<close>, \<open>Ctap_Reset\<close>, \<open>Credential_Management\<close>, \<open>U2f\<close>: the commands,
    each whole, from parsing to the answer; \<open>Ctap_Request\<close>: the dispatcher and the application as the transport calls it.
  \<^item> \<open>Qsort\<close>, \<open>Qsort_Laws\<close> (\<open>newlib/libc/search/qsort.c\<close>): the sort of the credentials; correct for the locale of comparisons,
    which is interpreted on \<open>cred_cmp_func\<close>.
  \<^item> \<open>Credential_Laws\<close>, \<open>Der_Laws\<close>, \<open>Assertion_Laws\<close>, \<open>Assertion_Properties\<close>, \<open>Exclude_Laws\<close>, \<open>Presence_Laws\<close>: a credential id is accepted for
    its own relying party and no other, what was stored with a credential is read back, an assertion is only made with a
    genuine credential, signatures in DER are read back, the exclude list, and the end of the wait for a touch.
    \<open>Request_Laws\<close>: when the dispatcher refuses a command, and that a refused command changes no secret and no file.
  \<^item> \<open>Start_Laws\<close>: what survives a power cycle, for the attestation key and for the PIN. \<open>App_Loop\<close>, \<open>App_Laws\<close>
    (\<open>targets/tkey/src/main.c\<close>, \<open>init.c\<close>): start-up, serial frames and the main loop, which refines the transport.

  \<^bold>\<open>Code outside the model.\<close> littlefs is the record \<open>lfs_lib\<close> of the functions called, with the laws \<open>lfs_laws\<close> of an
  open file on a healthy filesystem with room (satisfied by \<open>ram_lfs\<close>). The system calls under it are \<open>flash_sys\<close>, with
  \<open>flash_laws\<close> of a NOR flash (satisfied by \<open>ram_flash\<close>). micro-ecc and monocypher are called through the record
  \<open>ecc_lib\<close>, with \<open>ecc_laws\<close>: a shared secret has 32 bytes, and the library touches nothing of the authenticator. The model of micro-ecc,
  \<open>uecc_lib\<close>, satisfies them; monocypher is not part of the repository.
  tkey-libs (endpoints, frames, reset) is the record \<open>tkey_lib\<close>, with \<open>fido_laws\<close> and \<open>cdc_laws\<close>: a poll announces what can be read, a
  read delivers it; \<open>script_lib\<close> satisfies both. The record \<open>board\<close> bundles the libraries of the CTAP layer with the bit of the touch
  register and the zero value of littlefs's file type.

  \<^bold>\<open>Loops and bounds.\<close> Bounded loops are structural recursions or functions with a measure. The loops that wait for the
  hardware (\<open>trng_wait\<close>, \<open>delay_loop\<close>, \<open>presence_loop\<close>) and the draw of a private key (\<open>regenerate_loop\<close>) are partial
  functions; that they return is proved where the hardware keeps delivering, and for the last one not returning is one
  of the two cases of \<open>stuck\<close>. The parser's recursion into containers is bounded by the nesting limit of tinycbor.

  The closing loops of \<open>vli_mmod_fast_secp256r1\<close> have ten rounds, enough for every product; \<open>modInv_loop\<close> is a partial function that returns for
  every odd modulus; the random numbers of micro-ecc have the 64 tries of the code.

  The main loop is endless; \<open>main_rounds n\<close> is its first \<open>n\<close> rounds, for every \<open>n\<close>. \<open>qsort_loop\<close> ends by the sum of the sizes of
  the ranges that are still to be sorted.

  \<^bold>\<open>Not modelled.\<close> Debug output (\<open>log.c\<close>, \<open>printf-emb.c\<close>), which does not change the state; the rest of tinycbor (JSON, pretty
  printing, validation) and \<open>extensions.c\<close>, which the firmware does not call; littlefs and tkey-libs, which are not part of the
  repository; of micro-ecc the other curves, verification, deterministic signing and point compression, which nothing calls; that the group law is
  associative, so that the ladder is shown round by round and not as a multiple of the point; linker scripts. Code under \<open>#ifdef\<close> for debugging is left out, as in the release build.
\<close>

end
